(* ===== verification/Prelude.thy ===== *)
theory Prelude
  imports Main "HOL-Library.Word"
begin

section \<open>Shared types, results and byte-level lemmas\<close>

text \<open>
  Machine integers are words of the source's width, byte slices and vectors are lists of
  8-bit words, and \<open>usize\<close> values are natural numbers with the 64-bit bound written out
  where the source checks it.  A Rust \<open>Result<T, E>\<close> is the sum \<open>'e + 'a\<close> with the error
  on the left; the \<open>?\<close> operator is \<open>and_then\<close>.  The big-endian conversions of the
  standard library (\<open>from_be_bytes\<close>, \<open>to_be_bytes\<close>) are \<open>be_nat\<close> and \<open>be_bytes\<close>.
\<close>

type_synonym u8 = "8 word"
type_synonym u16 = "16 word"
type_synonym u32 = "32 word"
type_synonym u64 = "64 word"
type_synonym bytes = "u8 list"

named_theorems result_simps \<open>rules for results, used where a decoder is unfolded step by step\<close>
named_theorems byte_simps \<open>rules for big-endian conversions and their lengths\<close>

subsection \<open>Results\<close>

definition and_then :: "'e + 'a \<Rightarrow> ('a \<Rightarrow> 'e + 'b) \<Rightarrow> 'e + 'b" where
  "and_then r f = (case r of Inl e \<Rightarrow> Inl e | Inr x \<Rightarrow> f x)"

definition map_err :: "('e \<Rightarrow> 'f) \<Rightarrow> 'e + 'a \<Rightarrow> 'f + 'a" where
  "map_err g r = (case r of Inl e \<Rightarrow> Inl (g e) | Inr x \<Rightarrow> Inr x)"

definition ok_or :: "'e \<Rightarrow> 'a option \<Rightarrow> 'e + 'a" where
  "ok_or e m = (case m of None \<Rightarrow> Inl e | Some x \<Rightarrow> Inr x)"

definition result_ok :: "'e + 'a \<Rightarrow> 'a option" where
  "result_ok r = (case r of Inl e \<Rightarrow> None | Inr x \<Rightarrow> Some x)"

definition ensure :: "bool \<Rightarrow> 'e \<Rightarrow> 'e + unit" where
  "ensure b e = (if b then Inr () else Inl e)"

subsection \<open>Big-endian integers\<close>

fun be_nat :: "bytes \<Rightarrow> nat" where
  "be_nat [] = 0"
| "be_nat (b # bs) = unat b * 256 ^ length bs + be_nat bs"

fun be_bytes :: "nat \<Rightarrow> nat \<Rightarrow> bytes" where
  "be_bytes 0 n = []"
| "be_bytes (Suc k) n = word_of_nat (n div 256 ^ k) # be_bytes k n"

definition usize_max :: nat where
  "usize_max = 2 ^ 64 - 1"

definition usize_checked_add :: "nat \<Rightarrow> nat \<Rightarrow> nat option" where
  "usize_checked_add a b = (if a + b \<le> usize_max then Some (a + b) else None)"

text \<open>The bytes of a string literal.\<close>

definition ascii :: "string \<Rightarrow> bytes" where
  "ascii s = map of_char s"

lemma length_ascii [simp]: "length (ascii s) = length s"
  by (simp add: ascii_def)

subsection \<open>Lemmas on results\<close>

lemma and_then_simps [simp, result_simps]:
  "and_then (Inl e) f = Inl e"
  "and_then (Inr x) f = f x"
  by (simp_all add: and_then_def)

lemma and_then_eq_Inr:
  "and_then r f = Inr y \<longleftrightarrow> (\<exists>x. r = Inr x \<and> f x = Inr y)"
  by (cases r) auto

lemma and_then_InrE:
  assumes "and_then r f = Inr y"
  obtains x where "r = Inr x" "f x = Inr y"
  using assms by (auto simp: and_then_eq_Inr)

lemma and_then_assoc: "and_then (and_then r f) g = and_then r (\<lambda>x. and_then (f x) g)"
  by (cases r) auto

lemma and_then_cong [fundef_cong]:
  "r = r' \<Longrightarrow> (\<And>x. r' = Inr x \<Longrightarrow> f x = f' x) \<Longrightarrow> and_then r f = and_then r' f'"
  by (cases r') auto

lemma map_err_simps [simp, result_simps]:
  "map_err g (Inl e) = Inl (g e)"
  "map_err g (Inr x) = Inr x"
  "map_err g r = Inr y \<longleftrightarrow> r = Inr y"
  by (simp_all add: map_err_def split: sum.splits)

lemma ok_or_simps [simp, result_simps]:
  "ok_or e None = Inl e"
  "ok_or e (Some x) = Inr x"
  "ok_or e m = Inr x \<longleftrightarrow> m = Some x"
  by (simp_all add: ok_or_def split: option.splits)

lemma result_ok_simps [simp, result_simps]:
  "result_ok (Inl e) = None"
  "result_ok (Inr x) = Some x"
  "result_ok r = Some y \<longleftrightarrow> r = Inr y"
  by (simp_all add: result_ok_def split: sum.splits)

lemma ensure_simps [simp, result_simps]:
  "ensure True e = Inr ()"
  "ensure False e = Inl e"
  "ensure b e = Inr u \<longleftrightarrow> b"
  by (simp_all add: ensure_def)

subsection \<open>Lemmas on big-endian integers\<close>

lemma length_be_bytes [simp, byte_simps]: "length (be_bytes k n) = k"
  by (induction k) auto

lemma unat_u8_less [simp]: "unat (b :: u8) < 256"
  using unsigned_less [of b] by simp

lemma be_nat_less: "be_nat bs < 256 ^ length bs"
proof (induction bs)
  case (Cons b bs)
  have "unat b * 256 ^ length bs + be_nat bs < unat b * 256 ^ length bs + 256 ^ length bs"
    using Cons.IH by simp
  also have "\<dots> = (unat b + 1) * 256 ^ length bs" by simp
  also have "\<dots> \<le> 256 * 256 ^ length bs"
    using unat_u8_less [of b] by (intro mult_right_mono) (simp_all only: Suc_eq_plus1 [symmetric] Suc_le_eq zero_le)
  finally show ?case by simp
qed simp

lemma unat_word_of_nat_u8 [byte_simps]: "unat (word_of_nat n :: u8) = n mod 256"
  by (simp add: unat_of_nat)

lemma be_nat_be_bytes [simp, byte_simps]: "be_nat (be_bytes k n) = n mod 256 ^ k"
proof (induction k)
  case (Suc k)
  have "be_nat (be_bytes (Suc k) n) = n div 256 ^ k mod 256 * 256 ^ k + n mod 256 ^ k"
    by (simp add: Suc.IH unat_word_of_nat_u8)
  also have "\<dots> = n mod (256 ^ k * 256)"
    by (simp only: mod_mult2_eq mult.commute [of "256 ^ k" "n div 256 ^ k mod 256"])
  finally show ?case by (simp add: mult.commute)
qed simp

lemma be_bytes_mod: "be_bytes k (n mod 256 ^ k) = be_bytes k n"
proof -
  have "be_bytes j (n mod 256 ^ k) = be_bytes j n" if "j \<le> k" for j
    using that
  proof (induction j)
    case (Suc j)
    have "n mod 256 ^ k div 256 ^ j mod 256 = n div 256 ^ j mod 256"
    proof -
      from Suc.prems obtain d where k: "k = j + Suc d"
        by (metis Suc_le_lessD add_Suc_right less_imp_Suc_add)
      have "(256::nat) ^ k = 256 ^ j * 256 ^ Suc d" by (simp add: k power_add)
      then have "n mod 256 ^ k div 256 ^ j = n div 256 ^ j mod 256 ^ Suc d"
        by (simp add: mod_mult2_eq)
      then show ?thesis
        by (simp add: mod_mod_cancel)
    qed
    then have "word_of_nat (n mod 256 ^ k div 256 ^ j) = (word_of_nat (n div 256 ^ j) :: u8)"
      by (metis unat_word_of_nat_u8 word_unat_eq_iff)
    with Suc show ?case by simp
  qed simp
  then show ?thesis by simp
qed

lemma be_bytes_be_nat [simp, byte_simps]: "be_bytes (length bs) (be_nat bs) = bs"
proof (induction bs)
  case (Cons b bs)
  have "be_nat bs < 256 ^ length bs" by (rule be_nat_less)
  then have d: "(unat b * 256 ^ length bs + be_nat bs) div 256 ^ length bs = unat b"
    by simp
  have m: "be_bytes (length bs) (unat b * 256 ^ length bs + be_nat bs) = bs"
    using Cons.IH be_bytes_mod [of "length bs" "unat b * 256 ^ length bs + be_nat bs"]
      \<open>be_nat bs < 256 ^ length bs\<close> by simp
  show ?case by (simp add: d m)
qed simp

lemma be_nat_append: "be_nat (xs @ ys) = be_nat xs * 256 ^ length ys + be_nat ys"
  by (induction xs) (simp_all add: power_add algebra_simps)

lemma be_bytes_inject:
  "m < 256 ^ k \<Longrightarrow> n < 256 ^ k \<Longrightarrow> be_bytes k m = be_bytes k n \<Longrightarrow> m = n"
  by (metis be_nat_be_bytes mod_less)

end
