(* ===== verification/External.thy ===== *)
theory External
  imports Prelude
begin

section \<open>Code outside the repository, as parameters\<close>

text \<open>
  The crate uses the fixed-capacity vector \<open>CopyInline<T, N>\<close> of the \<open>o3\<close> crate.  It is a
  parameter of the model: the record \<open>copy_inline\<close> holds its fallible operations, each with
  the capacity as first argument, on the contents the vector dereferences to; \<open>None\<close> is the
  capacity error.  \<open>copy_inline_ok\<close> is the documented behaviour the code relies on.  The
  slice method \<open>binary_search\<close> of the standard library is modelled on sorted slices, where
  its result is specified.
\<close>

record 'a copy_inline =
  ci_push :: "nat \<Rightarrow> 'a \<Rightarrow> 'a list \<Rightarrow> 'a list option"
  ci_extend :: "nat \<Rightarrow> 'a list \<Rightarrow> 'a list \<Rightarrow> 'a list option"
  ci_insert :: "nat \<Rightarrow> nat \<Rightarrow> 'a \<Rightarrow> 'a list \<Rightarrow> 'a list option"

definition copy_inline_ok :: "'a copy_inline \<Rightarrow> bool" where
  "copy_inline_ok ci \<longleftrightarrow>
     (\<forall>n x xs. ci_push ci n x xs = (if length xs < n then Some (xs @ [x]) else None)) \<and>
     (\<forall>n ys xs. ci_extend ci n ys xs =
        (if length xs + length ys \<le> n then Some (xs @ ys) else None)) \<and>
     (\<forall>n i x xs. i \<le> length xs \<longrightarrow> ci_insert ci n i x xs =
        (if length xs < n then Some (take i xs @ x # drop i xs) else None))"

text \<open>An instance that has the documented behaviour, for concrete evaluation.\<close>

definition copy_inline_ref :: "'a copy_inline" where
  "copy_inline_ref =
     \<lparr>ci_push = (\<lambda>n x xs. if length xs < n then Some (xs @ [x]) else None),
      ci_extend = (\<lambda>n ys xs. if length xs + length ys \<le> n then Some (xs @ ys) else None),
      ci_insert = (\<lambda>n i x xs. if length xs < n then Some (take i xs @ x # drop i xs) else None)\<rparr>"

definition binary_search :: "'a::linorder \<Rightarrow> 'a list \<Rightarrow> nat + nat" where
  "binary_search v xs =
     (let i = length (takeWhile (\<lambda>x. x < v) xs)
      in if i < length xs \<and> xs ! i = v then Inr i else Inl i)"

lemma copy_inline_ref_ok [simp]: "copy_inline_ok copy_inline_ref"
  by (simp add: copy_inline_ok_def copy_inline_ref_def)

lemma copy_inline_okD:
  assumes "copy_inline_ok ci"
  shows "ci_push ci n x xs = (if length xs < n then Some (xs @ [x]) else None)"
    and "ci_extend ci n ys xs = (if length xs + length ys \<le> n then Some (xs @ ys) else None)"
    and "i \<le> length xs \<Longrightarrow> ci_insert ci n i x xs =
      (if length xs < n then Some (take i xs @ x # drop i xs) else None)"
  using assms by (simp_all add: copy_inline_ok_def)

lemma length_takeWhile_less: "sorted xs \<Longrightarrow> v \<notin> set xs \<Longrightarrow>
    take (length (takeWhile (\<lambda>x. x < v) xs)) xs = filter (\<lambda>x. x < v) xs \<and>
    drop (length (takeWhile (\<lambda>x. x < v) xs)) xs = filter (\<lambda>x. v < x) xs"
proof (induction xs)
  case (Cons a xs)
  show ?case
  proof (cases "a < v")
    case True
    with Cons show ?thesis by auto
  next
    case False
    with Cons.prems have "v < a" by auto
    with Cons.prems have "\<forall>x\<in>set xs. v < x" by auto
    then have "filter (\<lambda>x. x < v) xs = []" "filter (\<lambda>x. v < x) xs = xs"
      by (auto simp: filter_empty_conv intro!: filter_True)
    with \<open>v < a\<close> show ?thesis by simp
  qed
qed simp

lemma binary_search_found:
  assumes "sorted xs"
  shows "(\<exists>i. binary_search v xs = Inr i) \<longleftrightarrow> v \<in> set xs"
proof
  assume "\<exists>i. binary_search v xs = Inr i"
  then obtain i where "binary_search v xs = Inr i" ..
  then have "i < length xs" "xs ! i = v"
    by (simp_all add: binary_search_def Let_def split: if_splits)
  then show "v \<in> set xs" using nth_mem by fastforce
next
  assume v: "v \<in> set xs"
  let ?i = "length (takeWhile (\<lambda>x. x < v) xs)"
  have "?i < length xs"
    using v by (metis (mono_tags, lifting) length_takeWhile_le less_irrefl nat_less_le
        takeWhile_eq_all_conv takeWhile_eq_take take_all_iff order_refl)
  moreover have "xs ! ?i = v"
  proof -
    have ge: "\<not> xs ! ?i < v" using calculation by (rule nth_length_takeWhile)
    obtain j where j: "j < length xs" "xs ! j = v" using v by (auto simp: in_set_conv_nth)
    have "\<not> j < ?i"
    proof
      assume "j < ?i"
      then have "takeWhile (\<lambda>x. x < v) xs ! j \<in> set (takeWhile (\<lambda>x. x < v) xs)" by simp
      with \<open>j < ?i\<close> j(2) show False
        by (metis (no_types, lifting) less_irrefl set_takeWhileD takeWhile_nth)
    qed
    then have "xs ! ?i \<le> v" using assms j by (metis linorder_not_less sorted_nth_mono)
    with ge show ?thesis by simp
  qed
  ultimately show "\<exists>i. binary_search v xs = Inr i" by (simp add: binary_search_def Let_def)
qed

lemma binary_search_insert:
  assumes "sorted xs" "binary_search v xs = Inl i"
  shows "v \<notin> set xs" "i \<le> length xs" "sorted (take i xs @ v # drop i xs)"
    "set (take i xs @ v # drop i xs) = insert v (set xs)"
proof -
  show v: "v \<notin> set xs" using binary_search_found [OF assms(1), of v] assms(2) by auto
  have i: "i = length (takeWhile (\<lambda>x. x < v) xs)"
    using assms(2) by (auto simp: binary_search_def Let_def split: if_splits)
  then show "i \<le> length xs" by (simp add: length_takeWhile_le)
  have eq: "take i xs = filter (\<lambda>x. x < v) xs" "drop i xs = filter (\<lambda>x. v < x) xs"
    using length_takeWhile_less [OF assms(1) v] by (auto simp: i)
  show "sorted (take i xs @ v # drop i xs)"
    unfolding eq using assms(1) by (auto simp: sorted_append intro: sorted_wrt_filter)
  show "set (take i xs @ v # drop i xs) = insert v (set xs)"
    unfolding eq using v by auto
qed

end
