(* ===== verification/KeyExchange.thy ===== *)
theory KeyExchange
  imports External
begin

section \<open>Key exchange\<close>

text \<open>
  \<open>crypto/kx\<close>: the groups, the client's key generation and agreement, the server's response,
  and the two owners of the client's private key (\<open>Owned\<close>, \<open>Workspace\<close>) behind the trait
  \<open>Initiator\<close>.  The elliptic-curve operations of \<open>ring\<close>, the random source and \<open>ml-kem\<close> are
  the record \<open>kx_ops\<close>; \<open>'k\<close> is the state of the outside world, which the random source
  advances.  \<open>kx_ok\<close> states their documented behaviour: both sides of a Diffie-Hellman
  exchange compute the same secret, a ciphertext decapsulates to the secret it encapsulates, and all
  values have their fixed lengths.
\<close>

datatype ecdh = EcdhX25519 | EcdhP256

record 'k kx_ops =
  ag_generate :: "ecdh \<Rightarrow> 'k \<Rightarrow> bytes option \<times> 'k"
  ag_public :: "ecdh \<Rightarrow> bytes \<Rightarrow> bytes option"
  ag_agree :: "ecdh \<Rightarrow> bytes \<Rightarrow> bytes \<Rightarrow> bytes option"
  rng_fill :: "nat \<Rightarrow> 'k \<Rightarrow> bytes option \<times> 'k"
  mk_from_seed :: "bytes \<Rightarrow> bytes"
  mk_encapsulation_key :: "bytes \<Rightarrow> bytes"
  mk_valid :: "bytes \<Rightarrow> bool"
  mk_encapsulate :: "bytes \<Rightarrow> bytes \<Rightarrow> bytes \<times> bytes"
  mk_decapsulate :: "bytes \<Rightarrow> bytes \<Rightarrow> bytes"

definition MAX_SHARED_LEN :: nat where "MAX_SHARED_LEN = 64"
definition X25519_LEN :: nat where "X25519_LEN = 32"
definition KX_P256_LEN :: nat where "KX_P256_LEN = 65"
definition MLKEM768_EK_LEN :: nat where "MLKEM768_EK_LEN = 1184"
definition MLKEM768_CT_LEN :: nat where "MLKEM768_CT_LEN = 1088"
definition MAX_CLIENT_SHARE_LEN :: nat where "MAX_CLIENT_SHARE_LEN = MLKEM768_EK_LEN + X25519_LEN"

lemmas kx_lens = MAX_SHARED_LEN_def X25519_LEN_def KX_P256_LEN_def MLKEM768_EK_LEN_def MLKEM768_CT_LEN_def
  MAX_CLIENT_SHARE_LEN_def

text \<open>The copies of \<open>from_parts\<close> are in range for the secrets the groups produce, which have at most 64 bytes.\<close>

record shared_secret =
  ss_bytes :: bytes
  ss_len :: nat

definition shared_from_parts :: "bytes \<Rightarrow> bytes \<Rightarrow> shared_secret" where
  "shared_from_parts a b =
     \<lparr>ss_bytes = a @ b @ replicate (MAX_SHARED_LEN - (length a + length b)) 0, ss_len = length a + length b\<rparr>"

definition shared_from_slice :: "bytes \<Rightarrow> shared_secret" where
  "shared_from_slice s = shared_from_parts s []"

definition shared_as_slice :: "shared_secret \<Rightarrow> bytes" where
  "shared_as_slice s = take (ss_len s) (ss_bytes s)"

datatype kx_error = KxGenerate | KxInvalidPubkey | KxInvalidOutput

datatype kex_group = X25519 | Secp256r1 | X25519Mlkem768

definition SUPPORTED_KEX_GROUPS :: "kex_group list" where
  "SUPPORTED_KEX_GROUPS = [X25519, Secp256r1, X25519Mlkem768]"

definition kex_group_from_u16 :: "u16 \<Rightarrow> kex_group option" where
  "kex_group_from_u16 v =
     (if v = 0x001d then Some X25519 else if v = 0x0017 then Some Secp256r1
      else if v = 0x11ec then Some X25519Mlkem768 else None)"

fun kex_group_wire_id :: "kex_group \<Rightarrow> u16" where
  "kex_group_wire_id X25519 = 0x001d"
| "kex_group_wire_id Secp256r1 = 0x0017"
| "kex_group_wire_id X25519Mlkem768 = 0x11ec"

fun server_share_len :: "kex_group \<Rightarrow> nat" where
  "server_share_len X25519 = X25519_LEN"
| "server_share_len Secp256r1 = KX_P256_LEN"
| "server_share_len X25519Mlkem768 = MLKEM768_CT_LEN + X25519_LEN"

fun ecdh_algorithm :: "kex_group \<Rightarrow> ecdh" where
  "ecdh_algorithm Secp256r1 = EcdhP256"
| "ecdh_algorithm X25519 = EcdhX25519"
| "ecdh_algorithm X25519Mlkem768 = EcdhX25519"

subsection \<open>The client's side\<close>

record classical_material =
  cm_ecdhe :: bytes
  cm_client_share :: bytes

record hybrid_private =
  hp_x25519 :: bytes
  hp_mlkem_dk :: bytes

record hybrid_material =
  hm_private :: hybrid_private
  hm_client_share :: bytes

datatype owned_material =
    OwnedX25519 classical_material | OwnedSecp256r1 classical_material | OwnedHybrid hybrid_material

datatype workspace_material =
    WorkspaceEmpty | WorkspaceX25519 classical_material | WorkspaceSecp256r1 classical_material
  | WorkspaceHybrid hybrid_private

definition generate_classical ::
    "u8 copy_inline \<Rightarrow> 'k kx_ops \<Rightarrow> kex_group \<Rightarrow> 'k \<Rightarrow> (kx_error + classical_material) \<times> 'k" where
  "generate_classical ci O1 grp k =
     (case ag_generate O1 (ecdh_algorithm grp) k of
        (None, k) \<Rightarrow> (Inl KxGenerate, k)
      | (Some ecdhe, k) \<Rightarrow>
          (and_then (ok_or KxGenerate (ag_public O1 (ecdh_algorithm grp) ecdhe)) (\<lambda>public.
           and_then (ok_or KxGenerate (ci_extend ci KX_P256_LEN public [])) (\<lambda>client_share.
           Inr \<lparr>cm_ecdhe = ecdhe, cm_client_share = client_share\<rparr>)), k))"

definition generate_hybrid ::
    "u8 copy_inline \<Rightarrow> 'k kx_ops \<Rightarrow> 'k \<Rightarrow> (kx_error + hybrid_private \<times> bytes) \<times> 'k" where
  "generate_hybrid ci O1 k =
     (case rng_fill O1 64 k of
        (None, k) \<Rightarrow> (Inl KxGenerate, k)
      | (Some seed, k) \<Rightarrow>
          let mlkem_dk = mk_from_seed O1 seed in
          (case ag_generate O1 EcdhX25519 k of
             (None, k) \<Rightarrow> (Inl KxGenerate, k)
           | (Some x25519, k) \<Rightarrow>
               (and_then (ok_or KxGenerate (ag_public O1 EcdhX25519 x25519)) (\<lambda>x25519_pk.
                and_then (ok_or KxGenerate (ci_extend ci MAX_CLIENT_SHARE_LEN (mk_encapsulation_key O1 mlkem_dk) []))
                  (\<lambda>client_share.
                and_then (ok_or KxGenerate (ci_extend ci MAX_CLIENT_SHARE_LEN x25519_pk client_share)) (\<lambda>client_share.
                Inr (\<lparr>hp_x25519 = x25519, hp_mlkem_dk = mlkem_dk\<rparr>, client_share)))), k)))"

definition agree_classical :: "'k kx_ops \<Rightarrow> kex_group \<Rightarrow> classical_material \<Rightarrow> bytes \<Rightarrow> kx_error + shared_secret" where
  "agree_classical O1 grp material server_share =
     and_then (ok_or KxInvalidPubkey (ag_agree O1 (ecdh_algorithm grp) (cm_ecdhe material) server_share)) (\<lambda>s.
     Inr (shared_from_slice s))"

definition agree_hybrid :: "'k kx_ops \<Rightarrow> hybrid_private \<Rightarrow> bytes \<Rightarrow> kx_error + shared_secret" where
  "agree_hybrid O1 material server_share =
     (if length server_share \<noteq> MLKEM768_CT_LEN + X25519_LEN then Inl KxInvalidPubkey
      else
        let ct = take MLKEM768_CT_LEN server_share;
            x25519_server_pk = drop MLKEM768_CT_LEN server_share;
            mlkem_ss = mk_decapsulate O1 (hp_mlkem_dk material) ct in
        and_then (ok_or KxInvalidPubkey (ag_agree O1 EcdhX25519 (hp_x25519 material) x25519_server_pk)) (\<lambda>x25519_ss.
        Inr (shared_from_parts mlkem_ss x25519_ss)))"

definition ephemeral_generate ::
    "u8 copy_inline \<Rightarrow> 'k kx_ops \<Rightarrow> kex_group \<Rightarrow> 'k \<Rightarrow> (kx_error + owned_material) \<times> 'k" where
  "ephemeral_generate ci O1 grp k =
     (case grp of
        X25519 \<Rightarrow> (case generate_classical ci O1 grp k of (r, k) \<Rightarrow> (and_then r (\<lambda>m. Inr (OwnedX25519 m)), k))
      | Secp256r1 \<Rightarrow> (case generate_classical ci O1 grp k of (r, k) \<Rightarrow> (and_then r (\<lambda>m. Inr (OwnedSecp256r1 m)), k))
      | X25519Mlkem768 \<Rightarrow>
          (case generate_hybrid ci O1 k of
             (r, k) \<Rightarrow> (and_then r (\<lambda>(private, client_share).
               Inr (OwnedHybrid \<lparr>hm_private = private, hm_client_share = client_share\<rparr>)), k)))"

fun ephemeral_group :: "owned_material \<Rightarrow> kex_group" where
  "ephemeral_group (OwnedX25519 _) = X25519"
| "ephemeral_group (OwnedSecp256r1 _) = Secp256r1"
| "ephemeral_group (OwnedHybrid _) = X25519Mlkem768"

fun ephemeral_client_share :: "owned_material \<Rightarrow> bytes" where
  "ephemeral_client_share (OwnedX25519 m) = cm_client_share m"
| "ephemeral_client_share (OwnedSecp256r1 m) = cm_client_share m"
| "ephemeral_client_share (OwnedHybrid m) = hm_client_share m"

fun ephemeral_agree :: "'k kx_ops \<Rightarrow> owned_material \<Rightarrow> bytes \<Rightarrow> kx_error + shared_secret" where
  "ephemeral_agree O1 (OwnedX25519 m) server_share = agree_classical O1 X25519 m server_share"
| "ephemeral_agree O1 (OwnedSecp256r1 m) server_share = agree_classical O1 Secp256r1 m server_share"
| "ephemeral_agree O1 (OwnedHybrid m) server_share = agree_hybrid O1 (hm_private m) server_share"

subsection \<open>The server's side\<close>

text \<open>
  The caller's output slice has \<open>n\<close> bytes; the result holds what the slice contains afterwards.
\<close>

datatype responder = ResponderClassical kex_group | ResponderHybrid kex_group

fun responder_new :: "kex_group \<Rightarrow> responder" where
  "responder_new X25519 = ResponderClassical X25519"
| "responder_new Secp256r1 = ResponderClassical Secp256r1"
| "responder_new X25519Mlkem768 = ResponderHybrid X25519Mlkem768"

definition responder_classical ::
    "'k kx_ops \<Rightarrow> responder \<Rightarrow> bytes \<Rightarrow> nat \<Rightarrow> 'k \<Rightarrow> (kx_error + bytes \<times> shared_secret) \<times> 'k" where
  "responder_classical O1 r client_share n k =
     (case r of
        ResponderHybrid _ \<Rightarrow> (Inl KxInvalidOutput, k)
      | ResponderClassical grp \<Rightarrow>
          if n \<noteq> server_share_len grp then (Inl KxInvalidOutput, k)
          else
            (case ag_generate O1 (ecdh_algorithm grp) k of
               (None, k) \<Rightarrow> (Inl KxGenerate, k)
             | (Some ephemeral, k) \<Rightarrow>
                 (and_then (ok_or KxGenerate (ag_public O1 (ecdh_algorithm grp) ephemeral)) (\<lambda>public.
                  if length public \<noteq> n then Inl KxGenerate
                  else and_then (ok_or KxInvalidPubkey (ag_agree O1 (ecdh_algorithm grp) ephemeral client_share))
                    (\<lambda>secret. Inr (public, shared_from_slice secret))), k)))"

definition responder_hybrid ::
    "'k kx_ops \<Rightarrow> responder \<Rightarrow> bytes \<Rightarrow> nat \<Rightarrow> 'k \<Rightarrow> (kx_error + bytes \<times> shared_secret) \<times> 'k" where
  "responder_hybrid O1 r client_share n k =
     (case r of
        ResponderClassical _ \<Rightarrow> (Inl KxInvalidOutput, k)
      | ResponderHybrid grp \<Rightarrow>
          if grp \<noteq> X25519Mlkem768 then (Inl KxInvalidOutput, k)
          else if length client_share \<noteq> MLKEM768_EK_LEN + X25519_LEN then (Inl KxInvalidPubkey, k)
          else if n \<noteq> MLKEM768_CT_LEN + X25519_LEN then (Inl KxInvalidOutput, k)
          else
            let ek_bytes = take MLKEM768_EK_LEN client_share;
                x25519_client_pk = drop MLKEM768_EK_LEN client_share in
            if \<not> mk_valid O1 ek_bytes then (Inl KxInvalidPubkey, k)
            else (case rng_fill O1 32 k of
                (None, k) \<Rightarrow> (Inl KxGenerate, k)
              | (Some randomness, k) \<Rightarrow>
                  let (ciphertext, mlkem_secret) = mk_encapsulate O1 ek_bytes randomness in
                  (case ag_generate O1 EcdhX25519 k of
                     (None, k) \<Rightarrow> (Inl KxGenerate, k)
                   | (Some x25519, k) \<Rightarrow>
                       (and_then (ok_or KxGenerate (ag_public O1 EcdhX25519 x25519)) (\<lambda>x25519_public.
                        if length x25519_public \<noteq> X25519_LEN then Inl KxGenerate
                        else and_then (ok_or KxInvalidPubkey (ag_agree O1 EcdhX25519 x25519 x25519_client_pk))
                          (\<lambda>x25519_secret.
                             Inr (ciphertext @ x25519_public, shared_from_parts mlkem_secret x25519_secret))), k))))"

definition kex_respond ::
    "'k kx_ops \<Rightarrow> kex_group \<Rightarrow> bytes \<Rightarrow> nat \<Rightarrow> 'k \<Rightarrow> (kx_error + bytes \<times> shared_secret) \<times> 'k" where
  "kex_respond O1 grp client_share n k =
     (let responder = responder_new grp in
      case grp of
        X25519Mlkem768 \<Rightarrow> responder_hybrid O1 responder client_share n k
      | _ \<Rightarrow> responder_classical O1 responder client_share n k)"

subsection \<open>The owners of the private key\<close>

type_synonym owned_kx = "owned_material option"

definition owned_generate ::
    "u8 copy_inline \<Rightarrow> 'k kx_ops \<Rightarrow> kex_group \<Rightarrow> owned_kx \<Rightarrow> 'k \<Rightarrow> (kx_error + bytes) \<times> owned_kx \<times> 'k" where
  "owned_generate ci O1 grp s k =
     (case ephemeral_generate ci O1 grp k of
        (Inl e, k) \<Rightarrow> (Inl e, None, k)
      | (Inr m, k) \<Rightarrow> (Inr (ephemeral_client_share m), Some m, k))"

definition owned_pending_group :: "owned_kx \<Rightarrow> kex_group option" where
  "owned_pending_group s = map_option ephemeral_group s"

definition owned_agree :: "'k kx_ops \<Rightarrow> bytes \<Rightarrow> owned_kx \<Rightarrow> (kx_error + shared_secret) \<times> owned_kx" where
  "owned_agree O1 server_share s =
     (and_then (ok_or KxGenerate s) (\<lambda>m. ephemeral_agree O1 m server_share), None)"

definition owned_clear :: "owned_kx \<Rightarrow> owned_kx" where
  "owned_clear s = None"

definition workspace_generate ::
    "u8 copy_inline \<Rightarrow> 'k kx_ops \<Rightarrow> kex_group \<Rightarrow> workspace_material \<Rightarrow> 'k \<Rightarrow>
     (kx_error + bytes) \<times> workspace_material \<times> 'k" where
  "workspace_generate ci O1 grp s k =
     (case grp of
        X25519Mlkem768 \<Rightarrow>
          (case generate_hybrid ci O1 k of
             (Inl e, k) \<Rightarrow> (Inl e, WorkspaceEmpty, k)
           | (Inr (private, client_share), k) \<Rightarrow> (Inr client_share, WorkspaceHybrid private, k))
      | _ \<Rightarrow>
          (case generate_classical ci O1 grp k of
             (Inl e, k) \<Rightarrow> (Inl e, WorkspaceEmpty, k)
           | (Inr material, k) \<Rightarrow>
               (case ci_extend ci MAX_CLIENT_SHARE_LEN (cm_client_share material) [] of
                  None \<Rightarrow> (Inl KxGenerate, WorkspaceEmpty, k)
                | Some client_share \<Rightarrow>
                    (Inr client_share,
                     if grp = X25519 then WorkspaceX25519 material else WorkspaceSecp256r1 material, k))))"

fun workspace_pending_group :: "workspace_material \<Rightarrow> kex_group option" where
  "workspace_pending_group WorkspaceEmpty = None"
| "workspace_pending_group (WorkspaceX25519 _) = Some X25519"
| "workspace_pending_group (WorkspaceSecp256r1 _) = Some Secp256r1"
| "workspace_pending_group (WorkspaceHybrid _) = Some X25519Mlkem768"

definition workspace_agree ::
    "'k kx_ops \<Rightarrow> bytes \<Rightarrow> workspace_material \<Rightarrow> (kx_error + shared_secret) \<times> workspace_material" where
  "workspace_agree O1 server_share s =
     ((case s of
         WorkspaceEmpty \<Rightarrow> Inl KxGenerate
       | WorkspaceX25519 material \<Rightarrow> agree_classical O1 X25519 material server_share
       | WorkspaceSecp256r1 material \<Rightarrow> agree_classical O1 Secp256r1 material server_share
       | WorkspaceHybrid private \<Rightarrow> agree_hybrid O1 private server_share), WorkspaceEmpty)"

definition workspace_clear :: "workspace_material \<Rightarrow> workspace_material" where
  "workspace_clear s = WorkspaceEmpty"

subsection \<open>What the outside code promises\<close>

fun public_len :: "ecdh \<Rightarrow> nat" where
  "public_len EcdhX25519 = X25519_LEN" | "public_len EcdhP256 = KX_P256_LEN"

definition kx_ok :: "'k kx_ops \<Rightarrow> bool" where
  "kx_ok O1 \<longleftrightarrow>
     (\<forall>a p q P Q. ag_public O1 a p = Some P \<longrightarrow> ag_public O1 a q = Some Q \<longrightarrow> ag_agree O1 a p Q = ag_agree O1 a q P) \<and>
     (\<forall>a p P. ag_public O1 a p = Some P \<longrightarrow> length P = public_len a) \<and>
     (\<forall>dk r. mk_decapsulate O1 dk (fst (mk_encapsulate O1 (mk_encapsulation_key O1 dk) r)) =
        snd (mk_encapsulate O1 (mk_encapsulation_key O1 dk) r)) \<and>
     (\<forall>dk. length (mk_encapsulation_key O1 dk) = MLKEM768_EK_LEN) \<and>
     (\<forall>ek r. length (fst (mk_encapsulate O1 ek r)) = MLKEM768_CT_LEN)"

text \<open>
  The contract of the trait \<open>Initiator\<close>, over the outside code \<open>'o\<close> the implementation calls: a
  generated key is pending for its group until it is used or cleared, it is used at most once, and its
  share, answered by the server, agrees on the server's secret.
\<close>

locale initiator =
  fixes ok :: "'o \<Rightarrow> bool"
    and gen :: "'o \<Rightarrow> kex_group \<Rightarrow> 's \<Rightarrow> 'k \<Rightarrow> (kx_error + bytes) \<times> 's \<times> 'k"
    and pending :: "'s \<Rightarrow> kex_group option"
    and agree :: "'o \<Rightarrow> bytes \<Rightarrow> 's \<Rightarrow> (kx_error + shared_secret) \<times> 's"
    and clr :: "'s \<Rightarrow> 's"
    and respond :: "'o \<Rightarrow> kex_group \<Rightarrow> bytes \<Rightarrow> nat \<Rightarrow> 'k \<Rightarrow> (kx_error + bytes \<times> shared_secret) \<times> 'k"
  assumes clear_pending: "pending (clr s) = None"
    and gen_pending: "gen x g s k = (r, s', k') \<Longrightarrow> pending s' = (case r of Inl _ \<Rightarrow> None | Inr _ \<Rightarrow> Some g)"
    and agree_pending: "pending (snd (agree x share s)) = None"
    and agree_empty: "pending s = None \<Longrightarrow> fst (agree x share s) = Inl KxGenerate"
    and agree_respond: "ok x \<Longrightarrow> gen x g s k = (Inr share, s', k') \<Longrightarrow>
      respond x g share (server_share_len g) k1 = (Inr (answer, z), k2) \<Longrightarrow> fst (agree x answer s') = Inr z"
begin

text \<open>A whole exchange: both sides hold the same secret, and the private key is gone.\<close>

lemma exchange:
  assumes "ok x" "gen x g s k = (Inr share, s', k')" "respond x g share (server_share_len g) k1 = (Inr (answer, z), k2)"
  shows "pending s' = Some g \<and> fst (agree x answer s') = Inr z \<and>
    fst (agree x again (snd (agree x answer s'))) = Inl KxGenerate"
  using gen_pending [OF assms(2)] agree_respond [OF assms] agree_empty [OF agree_pending] by simp

lemma cleared_is_unusable: "fst (agree x answer (clr s)) = Inl KxGenerate"
  using agree_empty [OF clear_pending] .

end

lemma kx_okD:
  assumes "kx_ok O1"
  shows "ag_public O1 a p = Some P \<Longrightarrow> ag_public O1 a q = Some Q \<Longrightarrow> ag_agree O1 a q P = Some z \<Longrightarrow> ag_agree O1 a p Q = Some z"
    and "ag_public O1 a p = Some P \<Longrightarrow> length P = public_len a"
    and "mk_encapsulate O1 (mk_encapsulation_key O1 dk) r = (ct, ss) \<Longrightarrow>
      mk_decapsulate O1 dk ct = ss \<and> length ct = MLKEM768_CT_LEN"
    and "length (mk_encapsulation_key O1 dk) = MLKEM768_EK_LEN"
proof -
  show "ag_public O1 a p = Some P \<Longrightarrow> ag_public O1 a q = Some Q \<Longrightarrow> ag_agree O1 a q P = Some z \<Longrightarrow> ag_agree O1 a p Q = Some z"
    using assms unfolding kx_ok_def by metis
  show "ag_public O1 a p = Some P \<Longrightarrow> length P = public_len a" using assms by (simp add: kx_ok_def)
  show "mk_encapsulate O1 (mk_encapsulation_key O1 dk) r = (ct, ss) \<Longrightarrow>
      mk_decapsulate O1 dk ct = ss \<and> length ct = MLKEM768_CT_LEN"
    using assms unfolding kx_ok_def by (metis fst_conv snd_conv)
  show "length (mk_encapsulation_key O1 dk) = MLKEM768_EK_LEN" using assms by (simp add: kx_ok_def)
qed

lemma classical_exchange:
  assumes "kx_ok O1" "copy_inline_ok ci"
    and gen: "generate_classical ci O1 g k = (Inr m, k')"
    and resp: "responder_classical O1 (ResponderClassical g) (cm_client_share m) n k1 = (Inr (answer, z), k2)"
  shows "agree_classical O1 g m answer = Inr z"
proof -
  have m: "ag_public O1 (ecdh_algorithm g) (cm_ecdhe m) = Some (cm_client_share m)"
    using gen copy_inline_okD(2) [OF assms(2)]
    by (auto simp: generate_classical_def and_then_eq_Inr split: prod.splits option.splits if_splits)
  obtain q s where "ag_public O1 (ecdh_algorithm g) q = Some answer"
      "ag_agree O1 (ecdh_algorithm g) q (cm_client_share m) = Some s" "z = shared_from_slice s"
    using resp by (auto simp: responder_classical_def and_then_eq_Inr split: prod.splits option.splits if_splits)
  then show ?thesis using kx_okD(1) [OF assms(1) m] by (simp add: agree_classical_def)
qed

lemma hybrid_exchange:
  assumes "kx_ok O1" "copy_inline_ok ci"
    and gen: "generate_hybrid ci O1 k = (Inr (private, share), k')"
    and resp: "responder_hybrid O1 (ResponderHybrid X25519Mlkem768) share n k1 = (Inr (answer, z), k2)"
  shows "agree_hybrid O1 private answer = Inr z"
proof -
  obtain P where P: "ag_public O1 EcdhX25519 (hp_x25519 private) = Some P"
      "share = mk_encapsulation_key O1 (hp_mlkem_dk private) @ P"
    using gen copy_inline_okD(2) [OF assms(2)]
    by (auto simp: generate_hybrid_def Let_def and_then_eq_Inr split: prod.splits option.splits if_splits)
  note lens = kx_okD(2) [OF assms(1) P(1)] kx_okD(4) [OF assms(1), of "hp_mlkem_dk private"]
  obtain r ct ss q Q s where "mk_encapsulate O1 (mk_encapsulation_key O1 (hp_mlkem_dk private)) r = (ct, ss)"
      "ag_public O1 EcdhX25519 q = Some Q" "ag_agree O1 EcdhX25519 q P = Some s" "answer = ct @ Q"
      "z = shared_from_parts ss s"
    using resp P lens
    by (auto simp: responder_hybrid_def Let_def and_then_eq_Inr split: prod.splits option.splits if_splits)
  then show ?thesis
    using kx_okD(1) [OF assms(1) P(1)] kx_okD(2) [OF assms(1), of EcdhX25519 q Q] kx_okD(3) [OF assms(1)]
    by (simp add: agree_hybrid_def)
qed

definition kx_env_ok :: "u8 copy_inline \<times> 'k kx_ops \<Rightarrow> bool" where
  "kx_env_ok = (\<lambda>(ci, O1). kx_ok O1 \<and> copy_inline_ok ci)"

interpretation owned: initiator kx_env_ok "\<lambda>(ci, O1). owned_generate ci O1" owned_pending_group
    "\<lambda>(ci, O1). owned_agree O1" owned_clear "\<lambda>(ci, O1). kex_respond O1"
proof
  fix x :: "u8 copy_inline \<times> 'k kx_ops" and g s k share s' k' k1 answer z k2
  assume x: "kx_env_ok x"
    and gen: "(case x of (ci, O1) \<Rightarrow> owned_generate ci O1) g s k = (Inr share, s', k')"
    and resp: "(case x of (ci, O1) \<Rightarrow> kex_respond O1) g share (server_share_len g) k1 = (Inr (answer, z), k2)"
  obtain ci O1 where x2: "x = (ci, O1)" and ok: "kx_ok O1" "copy_inline_ok ci" using x by (auto simp: kx_env_ok_def)
  show "fst ((case x of (ci, O1) \<Rightarrow> owned_agree O1) answer s') = Inr z"
    using gen resp classical_exchange [OF ok, of X25519 k _ k' _ k1 answer z k2] x2
      classical_exchange [OF ok, of Secp256r1 k _ k' _ k1 answer z k2] hybrid_exchange [OF ok, of k _ share k' _ k1 answer z k2]
    by (cases g) (auto simp: owned_generate_def ephemeral_generate_def owned_agree_def kex_respond_def and_then_eq_Inr
        split: prod.splits sum.splits)
qed (auto simp: owned_clear_def owned_pending_group_def owned_agree_def owned_generate_def ephemeral_generate_def and_then_eq_Inr
    split: prod.splits sum.splits kex_group.splits)

interpretation workspace: initiator kx_env_ok "\<lambda>(ci, O1). workspace_generate ci O1" workspace_pending_group
    "\<lambda>(ci, O1). workspace_agree O1" workspace_clear "\<lambda>(ci, O1). kex_respond O1"
proof
  fix x :: "u8 copy_inline \<times> 'k kx_ops" and g s k share s' k' k1 answer z k2
  assume x: "kx_env_ok x"
    and gen: "(case x of (ci, O1) \<Rightarrow> workspace_generate ci O1) g s k = (Inr share, s', k')"
    and resp: "(case x of (ci, O1) \<Rightarrow> kex_respond O1) g share (server_share_len g) k1 = (Inr (answer, z), k2)"
  obtain ci O1 where x2: "x = (ci, O1)" and ok: "kx_ok O1" "copy_inline_ok ci" using x by (auto simp: kx_env_ok_def)
  show "fst ((case x of (ci, O1) \<Rightarrow> workspace_agree O1) answer s') = Inr z"
    using gen resp classical_exchange [OF ok, of X25519 k _ k' _ k1 answer z k2] x2
      classical_exchange [OF ok, of Secp256r1 k _ k' _ k1 answer z k2] hybrid_exchange [OF ok, of k _ share k' _ k1 answer z k2]
      copy_inline_okD(2) [OF ok(2)]
    by (cases g) (auto simp: workspace_generate_def workspace_agree_def kex_respond_def split: prod.splits sum.splits if_splits)
qed (auto simp: workspace_clear_def workspace_agree_def workspace_generate_def elim: workspace_pending_group.elims
    split: prod.splits sum.splits kex_group.splits option.splits workspace_material.splits)

subsection \<open>Both sides agree\<close>

text \<open>
  C40.  For every group and both ways of holding the client's private key, when the server answers the share the
  client generated, the client computes the server's secret from the answer; the private key
  is pending until then and cannot be used a second time.
\<close>

theorem key_agreement:
  assumes "kx_ok O1" "copy_inline_ok ci" "kex_respond O1 g share (server_share_len g) k1 = (Inr (answer, z), k2)"
  shows "(owned_generate ci O1 g s k = (Inr share, s', k') \<longrightarrow>
      owned_pending_group s' = Some g \<and> owned_agree O1 answer s' = (Inr z, None) \<and>
      fst (owned_agree O1 again None) = Inl KxGenerate)
    \<and> (workspace_generate ci O1 g t k = (Inr share, t', k') \<longrightarrow>
      workspace_pending_group t' = Some g \<and> workspace_agree O1 answer t' = (Inr z, WorkspaceEmpty) \<and>
      fst (workspace_agree O1 again WorkspaceEmpty) = Inl KxGenerate)"
  using owned.exchange [of "(ci, O1)" g s k share s' k' k1 answer z k2]
    workspace.exchange [of "(ci, O1)" g t k share t' k' k1 answer z k2] assms
  by (auto simp: kx_env_ok_def owned_agree_def workspace_agree_def)

text \<open>Operations with the documented behaviour: every private key is its own public key, and agreement is addition.\<close>

definition pad_to :: "nat \<Rightarrow> bytes \<Rightarrow> bytes" where
  "pad_to n bs = take n (bs @ replicate n 0)"

definition kx_toy :: "nat kx_ops" where
  "kx_toy =
     \<lparr>ag_generate = (\<lambda>a k. (Some (pad_to (public_len a) [word_of_nat k]), k + 1)),
      ag_public = (\<lambda>a p. if length p = public_len a then Some p else None),
      ag_agree = (\<lambda>a p q. if length q = public_len a then Some (take 32 (map2 (+) p q)) else None),
      rng_fill = (\<lambda>n k. (Some (pad_to n [word_of_nat k]), k + 1)),
      mk_from_seed = (\<lambda>seed. seed),
      mk_encapsulation_key = (\<lambda>dk. pad_to MLKEM768_EK_LEN dk),
      mk_valid = (\<lambda>ek. True),
      mk_encapsulate = (\<lambda>ek r. (pad_to MLKEM768_CT_LEN r, pad_to 32 (pad_to MLKEM768_CT_LEN r))),
      mk_decapsulate = (\<lambda>dk ct. pad_to 32 ct)\<rparr>"

lemma length_pad_to [simp]: "length (pad_to n bs) = n"
  by (simp add: pad_to_def)

lemma kx_toy_ok: "kx_ok kx_toy"
proof -
  have "map2 (+) p q = map2 (+) q (p :: bytes)" for p q
    by (induction p q rule: list_induct2') (simp_all add: add.commute)
  then show ?thesis by (simp add: kx_ok_def kx_toy_def)
qed

lemma kx_toy_runs:
  "owned_generate copy_inline_ref kx_toy X25519 None 5 =
     (Inr (pad_to 32 [5]), Some (OwnedX25519 \<lparr>cm_ecdhe = pad_to 32 [5], cm_client_share = pad_to 32 [5]\<rparr>), 6)"
  "workspace_generate copy_inline_ref kx_toy X25519 WorkspaceEmpty 5 =
     (Inr (pad_to 32 [5]), WorkspaceX25519 \<lparr>cm_ecdhe = pad_to 32 [5], cm_client_share = pad_to 32 [5]\<rparr>, 6)"
  "kex_respond kx_toy X25519 (pad_to 32 [5]) (server_share_len X25519) 7 =
     (Inr (pad_to 32 [7], shared_from_slice (take 32 (map2 (+) (pad_to 32 [7]) (pad_to 32 [5])))), 8)"
  by (simp_all add: owned_generate_def workspace_generate_def ephemeral_generate_def generate_classical_def kx_toy_def
      copy_inline_ref_def kx_lens kex_respond_def responder_classical_def)

theorem key_agreement_witness:
  "fst (owned_agree kx_toy (pad_to 32 [7])
      (Some (OwnedX25519 \<lparr>cm_ecdhe = pad_to 32 [5], cm_client_share = pad_to 32 [5]\<rparr>))) =
     Inr (shared_from_slice (take 32 (map2 (+) (pad_to 32 [7]) (pad_to 32 [5])))) \<and>
   fst (workspace_agree kx_toy (pad_to 32 [7])
      (WorkspaceX25519 \<lparr>cm_ecdhe = pad_to 32 [5], cm_client_share = pad_to 32 [5]\<rparr>)) =
     Inr (shared_from_slice (take 32 (map2 (+) (pad_to 32 [7]) (pad_to 32 [5]))))"
  using key_agreement [OF kx_toy_ok copy_inline_ref_ok kx_toy_runs(3), of None 5 _ 6 "[]" WorkspaceEmpty] kx_toy_runs(1,2)
  by simp

text \<open>The code points of the groups.\<close>

lemma kex_group_roundtrip: "kex_group_from_u16 v = Some g \<longleftrightarrow> kex_group_wire_id g = v"
  by (cases g) (auto simp: kex_group_from_u16_def)

end
