(* ===== verification/IdentityErrors.thy ===== *)
theory IdentityErrors
  imports Prelude
begin

section \<open>Error types of the identity modules\<close>

text \<open>
  The error enumerations of \<open>identity/asn1.rs\<close>, \<open>identity/cert/mod.rs\<close> and
  \<open>identity/chain/mod.rs\<close>, apart because connection errors carry them.
\<close>

datatype der_error =
    DerUnderflow | DerBadTag | DerBadLength | DerTrailing | DerBadInteger | DerBadOid
  | DerBadBitString | DerBadBool | DerNotConstructed | DerMismatch

datatype cert_error =
    CertDer der_error | CertBadVersion | CertBadValidity | CertBadAlgorithm | CertBadSerial
  | CertBadName | CertDuplicateExtension | CertTooManyEntries

datatype verify_error =
    UnsupportedAlgorithm | VerifyAlgorithmMismatch | UnsupportedCurve | VerifyFailedSig

datatype chain_error =
    ChainEmpty | ChainTooLong | SignatureFailed | NotYetValid | Expired | IssuerNotCa
  | NoKeyCertSign | PathLenExceeded | NotEndEntity | IssuerSubjectMismatch | NoServerAuth
  | LeafKeyUsageInvalid | HostnameMismatch | NameConstraintViolation | NoTrustAnchor
  | UnhandledCriticalExtension | ChainDuplicateExtension | ChainVerify verify_error | ChainParse

definition chain_error_of_cert :: "cert_error \<Rightarrow> chain_error" where
  "chain_error_of_cert e =
     (case e of CertDuplicateExtension \<Rightarrow> ChainDuplicateExtension | _ \<Rightarrow> ChainParse)"

end
