(* ===== verification/Asn1.thy ===== *)
theory Asn1
  imports IdentityErrors
begin

section \<open>DER\<close>

unbundle bit_operations_syntax

text \<open>
  \<open>identity/asn1.rs\<close>: tags, lengths, the TLV reader and the primitive values.  A \<open>Reader\<close> is
  the bytes not read yet; each read returns its value and the reader after it.  A failed read
  ends the parse in every caller, so the reader after an error is not part of the model.
  \<open>der_tlv\<close> is the encoding rule the parser is compared with.
\<close>

subsection \<open>Tags\<close>

definition TAG_BOOLEAN :: u8 where "TAG_BOOLEAN = 0x01"
definition TAG_INTEGER :: u8 where "TAG_INTEGER = 0x02"
definition TAG_BIT_STRING :: u8 where "TAG_BIT_STRING = 0x03"
definition TAG_OCTET_STRING :: u8 where "TAG_OCTET_STRING = 0x04"
definition TAG_NULL :: u8 where "TAG_NULL = 0x05"
definition TAG_OID :: u8 where "TAG_OID = 0x06"
definition TAG_UTF8_STRING :: u8 where "TAG_UTF8_STRING = 0x0c"
definition TAG_PRINTABLE_STRING :: u8 where "TAG_PRINTABLE_STRING = 0x13"
definition TAG_TELETEX_STRING :: u8 where "TAG_TELETEX_STRING = 0x14"
definition TAG_IA5_STRING :: u8 where "TAG_IA5_STRING = 0x16"
definition TAG_UTC_TIME :: u8 where "TAG_UTC_TIME = 0x17"
definition TAG_GENERALIZED_TIME :: u8 where "TAG_GENERALIZED_TIME = 0x18"
definition TAG_SEQUENCE :: u8 where "TAG_SEQUENCE = 0x30"
definition TAG_SET :: u8 where "TAG_SET = 0x31"

lemmas tag_defs = TAG_BOOLEAN_def TAG_INTEGER_def TAG_BIT_STRING_def TAG_OCTET_STRING_def TAG_NULL_def
  TAG_OID_def TAG_UTF8_STRING_def TAG_PRINTABLE_STRING_def TAG_TELETEX_STRING_def TAG_IA5_STRING_def
  TAG_UTC_TIME_def TAG_GENERALIZED_TIME_def TAG_SEQUENCE_def TAG_SET_def

definition tag_context :: "u8 \<Rightarrow> bool \<Rightarrow> u8" where
  "tag_context n constructed =
     (let byte = 0xa0 OR (n AND 0x1f) in if constructed then byte else byte AND 0x9f)"

definition tag_is_constructed :: "u8 \<Rightarrow> bool" where
  "tag_is_constructed t \<longleftrightarrow> t AND 0x20 \<noteq> 0"

subsection \<open>Tag, length, value\<close>

record tlv =
  tlv_tag :: u8
  tlv_contents :: bytes

definition parse_length :: "bytes \<Rightarrow> der_error + nat \<times> bytes" where
  "parse_length input =
     (case input of
        [] \<Rightarrow> Inl DerUnderflow
      | first # after \<Rightarrow>
          if first AND 0x80 = 0 then Inr (unat first, after)
          else
            let n = unat (first AND 0x7f) in
            if n = 0 then Inl DerBadLength
            else if n > 8 then Inl DerBadLength
            else if length after < n then Inl DerUnderflow
            else
              let len_bytes = take n after; rest = drop n after in
              if len_bytes ! 0 = 0 then Inl DerBadLength
              else
                let len = foldl (\<lambda>len b. push_bit 8 len OR ucast b) (0 :: u64) len_bytes in
                if len < 0x80 then Inl DerBadLength else Inr (unat len, rest))"

definition parse_one :: "bytes \<Rightarrow> der_error + tlv \<times> bytes" where
  "parse_one input =
     (case input of
        [] \<Rightarrow> Inl DerUnderflow
      | tag_byte # after_tag \<Rightarrow>
          if tag_byte = 0 \<or> tag_byte AND 0x1f = 0x1f then Inl DerBadTag
          else
            and_then (parse_length after_tag) (\<lambda>(len, after_length).
            if length after_length < len then Inl DerUnderflow
            else Inr (\<lparr>tlv_tag = tag_byte, tlv_contents = take len after_length\<rparr>, drop len after_length)))"

subsection \<open>Primitive values\<close>

fun oid_scan :: "bool \<Rightarrow> bytes \<Rightarrow> der_error + bool" where
  "oid_scan subidentifier_start [] = Inr subidentifier_start"
| "oid_scan subidentifier_start (byte # bytes) =
     (if subidentifier_start \<and> byte = 0x80 then Inl DerBadOid else oid_scan (byte AND 0x80 = 0) bytes)"

definition oid_from_bytes :: "bytes \<Rightarrow> der_error + bytes" where
  "oid_from_bytes bytes =
     (if bytes = [] then Inl DerBadOid
      else and_then (oid_scan True bytes) (\<lambda>subidentifier_start.
        if \<not> subidentifier_start then Inl DerBadOid else Inr bytes))"

definition oid_is :: "bytes \<Rightarrow> bytes \<Rightarrow> bool" where
  "oid_is oid expected \<longleftrightarrow> oid = expected"

definition uint_from_bytes :: "bytes \<Rightarrow> der_error + bytes" where
  "uint_from_bytes encoded =
     (if encoded = [] \<or> encoded ! 0 AND 0x80 \<noteq> 0 \<or>
         length encoded \<ge> 2 \<and> encoded ! 0 = 0 \<and> encoded ! 1 AND 0x80 = 0
      then Inl DerBadInteger else Inr encoded)"

definition uint_magnitude :: "bytes \<Rightarrow> bytes" where
  "uint_magnitude encoded =
     (case encoded of
        b # rest \<Rightarrow> if b = 0 \<and> rest \<noteq> [] then rest else encoded
      | [] \<Rightarrow> encoded)"

definition uint_is_zero :: "bytes \<Rightarrow> bool" where
  "uint_is_zero encoded \<longleftrightarrow> encoded = [0]"

definition uint_to_u64 :: "bytes \<Rightarrow> der_error + u64" where
  "uint_to_u64 encoded =
     (let bytes = uint_magnitude encoded in
      if length bytes > 8 then Inl DerBadInteger
      else Inr (foldl (\<lambda>value byte. push_bit 8 value OR ucast byte) 0 bytes))"

text \<open>A bit string keeps its contents, the count of unused bits first.\<close>

definition bit_string_from_bytes :: "bytes \<Rightarrow> der_error + bytes" where
  "bit_string_from_bytes contents =
     (case contents of
        [] \<Rightarrow> Inl DerBadBitString
      | unused_bits # bytes \<Rightarrow>
          if unused_bits > 7 \<or> bytes = [] \<and> unused_bits \<noteq> 0 \<or>
             unused_bits \<noteq> 0 \<and> bytes \<noteq> [] \<and> last bytes AND (push_bit (unat unused_bits) 1 - 1) \<noteq> 0
          then Inl DerBadBitString else Inr contents)"

definition bit_string_bytes :: "bytes \<Rightarrow> bytes" where
  "bit_string_bytes contents = drop 1 contents"

definition bit_string_unused_bits :: "bytes \<Rightarrow> u8" where
  "bit_string_unused_bits contents = contents ! 0"

definition bit_string_octets :: "bytes \<Rightarrow> der_error + bytes" where
  "bit_string_octets contents =
     (if bit_string_unused_bits contents = 0 then Inr (bit_string_bytes contents) else Inl DerBadBitString)"

subsection \<open>Reader\<close>

definition der_finish :: "bytes \<Rightarrow> der_error + unit" where
  "der_finish r = (if r = [] then Inr () else Inl DerTrailing)"

definition read_tlv :: "bytes \<Rightarrow> der_error + tlv \<times> bytes" where
  "read_tlv r = parse_one r"

definition read_tagged :: "u8 \<Rightarrow> bytes \<Rightarrow> der_error + bytes \<times> bytes" where
  "read_tagged tag r =
     and_then (read_tlv r) (\<lambda>(tlv, r).
     if tlv_tag tlv \<noteq> tag then Inl DerMismatch else Inr (tlv_contents tlv, r))"

definition read_oid :: "bytes \<Rightarrow> der_error + bytes \<times> bytes" where
  "read_oid r = and_then (read_tagged TAG_OID r) (\<lambda>(b, r). and_then (oid_from_bytes b) (\<lambda>oid. Inr (oid, r)))"

definition read_uint :: "bytes \<Rightarrow> der_error + bytes \<times> bytes" where
  "read_uint r = and_then (read_tagged TAG_INTEGER r) (\<lambda>(b, r). and_then (uint_from_bytes b) (\<lambda>u. Inr (u, r)))"

definition read_bool :: "bytes \<Rightarrow> der_error + bool \<times> bytes" where
  "read_bool r =
     and_then (read_tagged TAG_BOOLEAN r) (\<lambda>(b, r).
     if b = [0x00] then Inr (False, r) else if b = [0xff] then Inr (True, r) else Inl DerBadBool)"

definition read_bit_string :: "bytes \<Rightarrow> der_error + bytes \<times> bytes" where
  "read_bit_string r =
     and_then (read_tagged TAG_BIT_STRING r) (\<lambda>(b, r). and_then (bit_string_from_bytes b) (\<lambda>bs. Inr (bs, r)))"

definition peek_tag :: "bytes \<Rightarrow> u8 option" where
  "peek_tag r = (case r of [] \<Rightarrow> None | b # _ \<Rightarrow> Some b)"

definition read_optional :: "u8 \<Rightarrow> bytes \<Rightarrow> der_error + bytes option \<times> bytes" where
  "read_optional tag r =
     (if peek_tag r = Some tag then and_then (read_tagged tag r) (\<lambda>(b, r). Inr (Some b, r))
      else Inr (None, r))"

definition read_optional_bit_string :: "u8 \<Rightarrow> bytes \<Rightarrow> der_error + bytes option \<times> bytes" where
  "read_optional_bit_string tag r =
     and_then (read_optional tag r) (\<lambda>(ob, r).
     case ob of None \<Rightarrow> Inr (None, r)
     | Some b \<Rightarrow> and_then (bit_string_from_bytes b) (\<lambda>bs. Inr (Some bs, r)))"

subsection \<open>The encoding rules\<close>

function nat_bytes :: "nat \<Rightarrow> bytes" where
  "nat_bytes n = (if n = 0 then [] else nat_bytes (n div 256) @ [word_of_nat n])"
  by auto
termination by (relation "measure id") auto

declare nat_bytes.simps [simp del]

definition der_length :: "nat \<Rightarrow> bytes" where
  "der_length n =
     (if n < 128 then [word_of_nat n]
      else (0x80 OR word_of_nat (length (nat_bytes n))) # nat_bytes n)"

definition der_tlv :: "tlv \<Rightarrow> bytes" where
  "der_tlv t = tlv_tag t # der_length (length (tlv_contents t)) @ tlv_contents t"

definition tlv_ok :: "tlv \<Rightarrow> bool" where
  "tlv_ok t \<longleftrightarrow> tlv_tag t \<noteq> 0 \<and> tlv_tag t AND 0x1f \<noteq> 0x1f \<and> length (tlv_contents t) < 2 ^ 64"

lemma nat_bytes_0 [simp]: "nat_bytes 0 = []"
  by (simp add: nat_bytes.simps)

lemma be_nat_nat_bytes [simp]: "be_nat (nat_bytes n) = n"
proof (induction n rule: nat_bytes.induct)
  case (1 n)
  show ?case
  proof (cases "n = 0")
    case False
    then show ?thesis
      using 1 by (subst nat_bytes.simps) (simp add: be_nat_append unat_word_of_nat_u8)
  qed simp
qed

lemma hd_nat_bytes: "n \<noteq> 0 \<Longrightarrow> nat_bytes n \<noteq> [] \<and> hd (nat_bytes n) \<noteq> 0"
proof (induction n rule: nat_bytes.induct)
  case (1 n)
  show ?case
  proof (cases "n div 256 = 0")
    case True
    then have "n < 256" by (simp add: div_eq_0_iff)
    then have "unat (word_of_nat n :: u8) = n" by (simp add: unat_word_of_nat_u8)
    with 1(2) have "(word_of_nat n :: u8) \<noteq> 0" by (metis unat_0)
    then show ?thesis using 1(2) True by (subst nat_bytes.simps, subst nat_bytes.simps) (auto simp: nat_bytes.simps [of n])
  next
    case False
    with 1(1) [OF 1(2)] show ?thesis using 1(2) by (simp add: nat_bytes.simps [of n])
  qed
qed

lemma nat_bytes_be_nat: "bs = [] \<or> hd bs \<noteq> 0 \<Longrightarrow> nat_bytes (be_nat bs) = bs"
proof (induction bs rule: rev_induct)
  case (snoc b bs)
  have "be_nat (bs @ [b]) = be_nat bs * 256 + unat b" by (simp add: be_nat_append)
  moreover have "be_nat (bs @ [b]) \<noteq> 0"
  proof (cases bs)
    case Nil
    with snoc.prems show ?thesis by (auto simp: unat_eq_zero)
  next
    case (Cons c cs)
    with snoc.prems have "unat c > 0" by (auto simp: unat_gt_0)
    with Cons show ?thesis by simp
  qed
  moreover have "bs = [] \<or> hd bs \<noteq> 0" using snoc.prems by (cases bs) auto
  moreover have "word_of_nat (be_nat bs * 256 + unat b) = b"
    by (rule word_unat_eq_iff [THEN iffD2]) (simp add: unat_word_of_nat_u8 del: of_nat_add of_nat_mult)
  ultimately show ?case
    using snoc.IH by (subst nat_bytes.simps) (simp del: of_nat_add of_nat_mult)
qed simp

lemma length_nat_bytes: "length (nat_bytes n) \<le> k \<longleftrightarrow> n < 256 ^ k"
proof
  assume "length (nat_bytes n) \<le> k"
  then show "n < 256 ^ k"
    using be_nat_less [of "nat_bytes n"] by (simp add: order_less_le_trans power_increasing)
next
  assume n: "n < 256 ^ k"
  show "length (nat_bytes n) \<le> k"
  proof (rule ccontr)
    assume "\<not> length (nat_bytes n) \<le> k"
    then obtain b bs where bs: "nat_bytes n = b # bs" "k \<le> length bs" by (cases "nat_bytes n") auto
    then have "n \<noteq> 0" by (metis list.distinct(1) nat_bytes_0)
    with hd_nat_bytes bs have "1 \<le> unat b" by (metis Suc_leI list.sel(1) One_nat_def unat_gt_0)
    have "256 ^ k \<le> (256::nat) ^ length bs" using bs(2) by (simp add: power_increasing)
    also have "\<dots> \<le> be_nat (b # bs)" using \<open>1 \<le> unat b\<close> by (cases "unat b") simp_all
    also have "\<dots> = n" using be_nat_nat_bytes [of n] by (simp add: bs)
    finally show False using n by simp
  qed
qed

lemma shift_or_byte: "push_bit 8 len OR ucast (b :: u8) = len * 256 + (ucast b :: u64)"
proof -
  have "push_bit 8 len + ucast b = push_bit 8 len OR (ucast b :: u64)"
    by (rule disjunctive_add_eq_or) (auto simp: bit_eq_iff bit_simps dest: bit_imp_le_length)
  then show ?thesis by (simp add: push_bit_eq_mult mult.commute)
qed

lemma foldl_bytes: "foldl (\<lambda>len b. push_bit 8 len OR ucast b) (word_of_nat n :: u64) bs =
    word_of_nat (n * 256 ^ length bs + be_nat bs)"
proof (induction bs arbitrary: n)
  case (Cons b bs)
  have "(ucast b :: u64) = word_of_nat (unat b)" by (simp add: unsigned_ucast_eq)
  then have "push_bit 8 (word_of_nat n) OR (ucast b :: u64) = word_of_nat (n * 256 + unat b)"
    by (simp add: shift_or_byte)
  then show ?case using Cons.IH [of "n * 256 + unat b"] by (simp add: algebra_simps)
qed simp

lemma unat_foldl_bytes:
  assumes "length bs \<le> 8"
  shows "unat (foldl (\<lambda>len b. push_bit 8 len OR ucast b) (0 :: u64) bs) = be_nat bs"
proof -
  have "be_nat bs < 256 ^ length bs" by (rule be_nat_less)
  also have "\<dots> \<le> 256 ^ 8" using assms by (intro power_increasing) auto
  finally have "be_nat bs < 2 ^ 64" by simp
  then show ?thesis using foldl_bytes [of 0 bs] by (simp add: unat_of_nat)
qed

lemma and_0x80: "b AND 0x80 = 0 \<longleftrightarrow> unat (b :: u8) < 128"
proof -
  have "b AND 2 ^ 7 = 0 \<longleftrightarrow> \<not> bit b 7" by (rule and_exp_eq_0_iff_not_bit)
  also have "\<dots> \<longleftrightarrow> \<not> bit (unat b) 7" by (simp add: bit_unsigned_iff)
  also have "\<dots> \<longleftrightarrow> even (unat b div 128)" by (simp add: bit_iff_odd)
  also have "\<dots> \<longleftrightarrow> unat b < 128"
  proof -
    have "unat b div 128 < 2" using unat_u8_less [of b] by linarith
    then have "unat b div 128 = 0 \<or> unat b div 128 = 1" by linarith
    then show ?thesis by (auto simp: div_eq_0_iff)
  qed
  finally show ?thesis by simp
qed

lemma split_0x80:
  assumes "b AND 0x80 \<noteq> (0 :: u8)"
  shows "b = 0x80 OR word_of_nat (unat (b AND 0x7f))"
proof -
  have "b AND 0x80 = 0x80"
  proof -
    have "bit b 7" using assms and_exp_eq_0_iff_not_bit [of b 7] by simp
    then have "b AND 2 ^ 7 = 2 ^ 7"
      by (intro bit_eqI) (auto simp only: bit_and_iff bit_exp_iff)
    then show ?thesis by simp
  qed
  moreover have "b = (b AND 0x80) OR (b AND 0x7f)"
  proof -
    have "(b AND 0x80) OR (b AND 0x7f) = b AND (0x80 OR 0x7f)" by (rule bit.conj_disj_distrib [symmetric])
    moreover have "(0x80 OR 0x7f) = (- 1 :: u8)" by simp
    ultimately show ?thesis by (simp only: bit.conj_one_right)
  qed
  ultimately show ?thesis by simp
qed

lemma joined_0x80:
  assumes "0 < k" "k \<le> 8"
  shows "(0x80 OR word_of_nat k) AND 0x80 \<noteq> (0 :: u8)"
    and "unat ((0x80 OR word_of_nat k) AND 0x7f :: u8) = k"
proof -
  have "k = 1 \<or> k = 2 \<or> k = 3 \<or> k = 4 \<or> k = 5 \<or> k = 6 \<or> k = 7 \<or> k = 8" using assms by linarith
  then show "(0x80 OR word_of_nat k) AND 0x80 \<noteq> (0 :: u8)"
    "unat ((0x80 OR word_of_nat k) AND 0x7f :: u8) = k" by auto
qed

lemma parse_length_iff:
  "parse_length input = Inr (n, rest) \<longleftrightarrow> n < 2 ^ 64 \<and> input = der_length n @ rest"
proof
  assume p: "parse_length input = Inr (n, rest)"
  obtain first after where input: "input = first # after"
    using p by (cases input) (auto simp: parse_length_def)
  show "n < 2 ^ 64 \<and> input = der_length n @ rest"
  proof (cases "first AND 0x80 = 0")
    case True
    then have "n = unat first" "rest = after" "unat first < 128"
      using p input and_0x80 by (auto simp: parse_length_def)
    then show ?thesis by (simp add: input der_length_def)
  next
    case False
    define k where "k = unat (first AND 0x7f)"
    define lb where "lb = take k after"
    have k: "0 < k" "k \<le> 8" "k \<le> length after" "lb ! 0 \<noteq> 0" "rest = drop k after"
      "n = unat (foldl (\<lambda>len b. push_bit 8 len OR ucast b) (0 :: u64) lb)" "128 \<le> n"
      using p input False
      by (auto simp: parse_length_def Let_def k_def lb_def word_less_nat_alt not_less split: if_splits)
    have lb: "length lb = k" using k(3) by (simp add: lb_def)
    then have n: "n = be_nat lb" using k(2,6) unat_foldl_bytes [of lb] by simp
    have "lb \<noteq> []" "hd lb \<noteq> 0" using lb k(1,4) by (auto simp: hd_conv_nth)
    then have nb: "nat_bytes n = lb" by (simp add: n nat_bytes_be_nat)
    then have "n < 256 ^ 8" using length_nat_bytes [of n 8] lb k(2) by simp
    moreover have "first = 0x80 OR word_of_nat k" using split_0x80 [OF False] by (simp add: k_def)
    moreover have "after = lb @ rest" by (simp add: lb_def k(5))
    ultimately show ?thesis using k(7) lb nb by (simp add: input der_length_def)
  qed
next
  assume n: "n < 2 ^ 64 \<and> input = der_length n @ rest"
  show "parse_length input = Inr (n, rest)"
  proof (cases "n < 128")
    case True
    then have "unat (word_of_nat n :: u8) = n" by (simp add: unat_word_of_nat_u8)
    with True n show ?thesis by (simp add: parse_length_def der_length_def and_0x80)
  next
    case False
    let ?k = "length (nat_bytes n)"
    have nb: "nat_bytes n \<noteq> []" "hd (nat_bytes n) \<noteq> 0" using False hd_nat_bytes by simp_all
    have k: "0 < ?k" "?k \<le> 8" using nb(1) n length_nat_bytes [of n 8] by simp_all
    have f: "unat (foldl (\<lambda>len b. push_bit 8 len OR ucast b) (0 :: u64) (nat_bytes n)) = n"
      using unat_foldl_bytes [OF k(2)] by simp
    then have "\<not> foldl (\<lambda>len b. push_bit 8 len OR ucast b) (0 :: u64) (nat_bytes n) < 0x80"
      using False by (simp add: word_less_nat_alt)
    moreover have "nat_bytes n ! 0 \<noteq> 0" using nb by (simp add: hd_conv_nth)
    ultimately show ?thesis
      using n False f k joined_0x80 [OF k] by (simp add: parse_length_def der_length_def Let_def)
  qed
qed

lemma parse_one_iff: "parse_one input = Inr (t, rest) \<longleftrightarrow> tlv_ok t \<and> input = der_tlv t @ rest"
proof
  assume p: "parse_one input = Inr (t, rest)"
  then obtain tag after len al where input: "input = tag # after" and tag: "tag \<noteq> 0" "tag AND 0x1f \<noteq> 0x1f"
    and l: "parse_length after = Inr (len, al)" and len: "len \<le> length al"
    and t: "t = \<lparr>tlv_tag = tag, tlv_contents = take len al\<rparr>" "rest = drop len al"
    by (cases input) (auto simp: parse_one_def and_then_eq_Inr split: if_splits)
  from l have "len < 2 ^ 64" "after = der_length len @ al" by (simp_all add: parse_length_iff)
  with tag len t show "tlv_ok t \<and> input = der_tlv t @ rest" by (simp add: input tlv_ok_def der_tlv_def)
next
  assume t: "tlv_ok t \<and> input = der_tlv t @ rest"
  then have "parse_length (der_length (length (tlv_contents t)) @ tlv_contents t @ rest) =
      Inr (length (tlv_contents t), tlv_contents t @ rest)"
    by (simp add: parse_length_iff tlv_ok_def)
  with t show "parse_one input = Inr (t, rest)"
    by (simp add: parse_one_def der_tlv_def tlv_ok_def)
qed

text \<open>
  C36. The TLV parser accepts exactly the DER encodings: an input parses to a value and a rest if
  and only if it is the unique DER encoding of that value, with a single-byte tag and the
  shortest form of the length, followed by the rest.
\<close>

theorem der_tlv_canonical: "parse_one input = Inr (t, rest) \<longleftrightarrow> tlv_ok t \<and> input = der_tlv t @ rest"
  by (rule parse_one_iff)

lemma der_length_nonempty [simp]: "der_length n \<noteq> []"
  by (simp add: der_length_def)

lemma parse_one_shorter: "parse_one input = Inr (t, rest) \<Longrightarrow> length rest < length input"
  by (auto simp: parse_one_iff der_tlv_def)

lemma read_tagged_iff:
  "read_tagged tag r = Inr (b, r') \<longleftrightarrow>
     tlv_ok \<lparr>tlv_tag = tag, tlv_contents = b\<rparr> \<and> r = der_tlv \<lparr>tlv_tag = tag, tlv_contents = b\<rparr> @ r'"
proof -
  have "read_tagged tag r = Inr (b, r') \<longleftrightarrow> parse_one r = Inr (\<lparr>tlv_tag = tag, tlv_contents = b\<rparr>, r')"
  proof (cases "parse_one r")
    case (Inr p)
    then show ?thesis by (cases p; cases "fst p") (auto simp: read_tagged_def read_tlv_def)
  qed (simp add: read_tagged_def read_tlv_def)
  then show ?thesis by (simp add: parse_one_iff)
qed

lemma read_tagged_shorter: "read_tagged tag r = Inr (b, r') \<Longrightarrow> length r' < length r"
  by (auto simp: read_tagged_iff der_tlv_def)

definition der_uint :: "nat \<Rightarrow> bytes" where
  "der_uint n =
     (let b = (if n = 0 then [0] else nat_bytes n) in if unat (hd b) \<ge> 128 then 0 # b else b)"

lemma uint_magnitude_der: "uint_magnitude (der_uint n) = (if n = 0 then [0] else nat_bytes n)"
proof (cases "n = 0")
  case False
  then have "nat_bytes n \<noteq> []" "hd (nat_bytes n) \<noteq> 0" using hd_nat_bytes by simp_all
  then show ?thesis using False
    by (auto simp: der_uint_def uint_magnitude_def Let_def neq_Nil_conv)
qed (simp add: der_uint_def uint_magnitude_def Let_def)

lemma uint_from_bytes_iff: "uint_from_bytes bs = Inr u \<longleftrightarrow> u = bs \<and> (\<exists>n. bs = der_uint n)"
proof -
  have "bs \<noteq> [] \<and> unat (bs ! 0) < 128 \<and> \<not> (2 \<le> length bs \<and> bs ! 0 = 0 \<and> unat (bs ! 1) < 128) \<longleftrightarrow>
    (\<exists>n. bs = der_uint n)"
  proof
    assume b: "bs \<noteq> [] \<and> unat (bs ! 0) < 128 \<and> \<not> (2 \<le> length bs \<and> bs ! 0 = 0 \<and> unat (bs ! 1) < 128)"
    obtain c cs where bs: "bs = c # cs" using b by (cases bs) auto
    show "\<exists>n. bs = der_uint n"
    proof (cases "c = 0 \<and> cs \<noteq> []")
      case True
      then obtain d ds where cs: "cs = d # ds" by (cases cs) auto
      with b bs True have "128 \<le> unat d" by auto
      then have "d \<noteq> 0" by auto
      then have "nat_bytes (be_nat cs) = cs" "be_nat cs \<noteq> 0" using nat_bytes_be_nat [of cs] cs by (auto simp: unat_eq_zero)
      then have "bs = der_uint (be_nat cs)" using True bs cs \<open>128 \<le> unat d\<close> by (simp add: der_uint_def)
      then show ?thesis ..
    next
      case False
      show ?thesis
      proof (cases "bs = [0]")
        case True
        then have "bs = der_uint 0" by (simp add: der_uint_def)
        then show ?thesis ..
      next
        case nz: False
        then have c: "c \<noteq> 0" using False bs by auto
        then have "nat_bytes (be_nat bs) = bs" using nat_bytes_be_nat [of bs] bs by simp
        moreover have "be_nat bs \<noteq> 0" using c bs by (simp add: unat_eq_zero)
        ultimately have "bs = der_uint (be_nat bs)" using b bs by (auto simp: der_uint_def Let_def)
        then show ?thesis ..
      qed
    qed
  next
    assume "\<exists>n. bs = der_uint n"
    then obtain n where bs: "bs = der_uint n" ..
    show "bs \<noteq> [] \<and> unat (bs ! 0) < 128 \<and> \<not> (2 \<le> length bs \<and> bs ! 0 = 0 \<and> unat (bs ! 1) < 128)"
    proof (cases "n = 0")
      case False
      then obtain c cs where "nat_bytes n = c # cs" "c \<noteq> 0" using hd_nat_bytes [of n] by (cases "nat_bytes n") auto
      then show ?thesis using False by (auto simp: bs der_uint_def Let_def)
    qed (simp add: bs der_uint_def Let_def)
  qed
  then show ?thesis by (auto simp: uint_from_bytes_def and_0x80 not_less)
qed

text \<open>
  An INTEGER is accepted as unsigned exactly when it is the DER encoding of a natural number,
  and its value as a 64-bit word is that number when it fits and an error when it does not.
\<close>

theorem der_uint_canonical:
  "(uint_from_bytes bs = Inr u \<longleftrightarrow> u = bs \<and> (\<exists>n. bs = der_uint n))
   \<and> uint_to_u64 (der_uint n) = (if n < 2 ^ 64 then Inr (word_of_nat n) else Inl DerBadInteger)
   \<and> uint_is_zero (der_uint n) = (n = 0)"
proof (intro conjI)
  show "uint_from_bytes bs = Inr u \<longleftrightarrow> u = bs \<and> (\<exists>n. bs = der_uint n)" by (rule uint_from_bytes_iff)
  show "uint_to_u64 (der_uint n) = (if n < 2 ^ 64 then Inr (word_of_nat n) else Inl DerBadInteger)"
    using foldl_bytes [of 0 "nat_bytes n"] length_nat_bytes [of n 8]
    by (auto simp: uint_to_u64_def uint_magnitude_der Let_def)
  have "n \<noteq> 0 \<Longrightarrow> nat_bytes n \<noteq> [] \<and> nat_bytes n \<noteq> [0]" using hd_nat_bytes [of n] by auto
  then show "uint_is_zero (der_uint n) = (n = 0)" by (auto simp: uint_is_zero_def der_uint_def Let_def)
qed

end
