(* ===== verification/UnixTime.thy ===== *)
theory UnixTime
  imports Asn1
begin

section \<open>X.509 times\<close>

text \<open>
  \<open>UnixTime\<close> of \<open>identity/mod.rs\<close>.  A time is its signed count of seconds; the range of years the
  code accepts keeps every intermediate value far inside \<open>i64\<close> and \<open>u32\<close>, so the model computes
  in \<open>int\<close> and \<open>nat\<close>.  The arithmetic is compared with the calendar: \<open>next_day\<close> says which date
  follows a date.
\<close>

type_synonym unix_time = int

definition i64_max :: int where "i64_max = 2 ^ 63 - 1"

definition unix_from_secs :: "u64 \<Rightarrow> unix_time" where
  "unix_from_secs seconds = (if uint seconds > i64_max then i64_max else uint seconds)"

definition unix_as_secs :: "unix_time \<Rightarrow> u64 option" where
  "unix_as_secs t = (if t < 0 then None else Some (word_of_int t))"

definition is_ascii_digit :: "u8 \<Rightarrow> bool" where
  "is_ascii_digit b \<longleftrightarrow> 48 \<le> b \<and> b \<le> 57"

definition digit_value :: "u8 \<Rightarrow> nat" where
  "digit_value b = unat (b - 48)"

definition digit2 :: "bytes \<Rightarrow> cert_error + nat" where
  "digit2 b =
     (if length b \<noteq> 2 \<or> \<not> is_ascii_digit (b ! 0) \<or> \<not> is_ascii_digit (b ! 1) then Inl CertBadValidity
      else Inr (digit_value (b ! 0) * 10 + digit_value (b ! 1)))"

definition digit4 :: "bytes \<Rightarrow> cert_error + nat" where
  "digit4 b =
     (if length b \<noteq> 4 \<or> \<not> list_all is_ascii_digit b then Inl CertBadValidity
      else Inr (foldl (\<lambda>v c. v * 10 + digit_value c) 0 b))"

definition is_leap :: "nat \<Rightarrow> bool" where
  "is_leap y \<longleftrightarrow> (y mod 4 = 0 \<and> y mod 100 \<noteq> 0) \<or> y mod 400 = 0"

definition leaps_before :: "nat \<Rightarrow> int" where
  "leaps_before year = (let year = year - 1 in int (year div 4 - year div 100 + year div 400))"

definition MONTH_DAYS :: "nat list" where
  "MONTH_DAYS = [31, 28, 31, 30, 31, 30, 31, 31, 30, 31, 30, 31]"

definition DAYS_BEFORE_MONTH :: "int list" where
  "DAYS_BEFORE_MONTH = [0, 31, 59, 90, 120, 151, 181, 212, 243, 273, 304, 334]"

definition from_components :: "nat \<Rightarrow> nat \<Rightarrow> nat \<Rightarrow> nat \<Rightarrow> nat \<Rightarrow> nat \<Rightarrow> cert_error + unix_time" where
  "from_components year month day hour minute sec =
     (if \<not> (1950 \<le> year \<and> year \<le> 9999) \<or> \<not> (1 \<le> month \<and> month \<le> 12) \<or> day < 1 \<or> hour > 23 \<or> minute > 59 \<or> sec > 59
      then Inl CertBadValidity
      else
        let month_days = (if month = 2 \<and> is_leap year then 29 else MONTH_DAYS ! (month - 1)) in
        if day > month_days then Inl CertBadValidity
        else
          let years = int year - 1970;
              days = years * 365 + leaps_before year - leaps_before 1970;
              days = days + DAYS_BEFORE_MONTH ! (month - 1);
              days = (if month > 2 \<and> is_leap year then days + 1 else days);
              days = days + int (day - 1) in
          Inr (days * 86400 + int hour * 3600 + int minute * 60 + int sec))"

definition from_utc :: "bytes \<Rightarrow> cert_error + unix_time" where
  "from_utc b =
     (if length b \<noteq> 13 \<or> b ! 12 \<noteq> 90 then Inl CertBadValidity
      else
        and_then (digit2 (take 2 b)) (\<lambda>yy.
        let year = (if yy < 50 then 2000 + yy else 1900 + yy) in
        and_then (digit2 (take 2 (drop 2 b))) (\<lambda>month.
        and_then (digit2 (take 2 (drop 4 b))) (\<lambda>day.
        and_then (digit2 (take 2 (drop 6 b))) (\<lambda>hour.
        and_then (digit2 (take 2 (drop 8 b))) (\<lambda>minute.
        and_then (digit2 (take 2 (drop 10 b))) (\<lambda>sec.
        from_components year month day hour minute sec)))))))"

definition from_generalized :: "bytes \<Rightarrow> cert_error + unix_time" where
  "from_generalized b =
     (if length b \<noteq> 15 \<or> b ! 14 \<noteq> 90 then Inl CertBadValidity
      else
        and_then (digit4 (take 4 b)) (\<lambda>year.
        if year < 2050 then Inl CertBadValidity
        else
        and_then (digit2 (take 2 (drop 4 b))) (\<lambda>month.
        and_then (digit2 (take 2 (drop 6 b))) (\<lambda>day.
        and_then (digit2 (take 2 (drop 8 b))) (\<lambda>hour.
        and_then (digit2 (take 2 (drop 10 b))) (\<lambda>minute.
        and_then (digit2 (take 2 (drop 12 b))) (\<lambda>sec.
        from_components year month day hour minute sec)))))))"

definition from_x509 :: "u8 \<Rightarrow> bytes \<Rightarrow> cert_error + unix_time" where
  "from_x509 tag b =
     (if tag = TAG_UTC_TIME then from_utc b
      else if tag = TAG_GENERALIZED_TIME then from_generalized b
      else Inl CertBadValidity)"

subsection \<open>The calendar\<close>

definition month_length :: "nat \<Rightarrow> nat \<Rightarrow> nat" where
  "month_length y m =
     (if m = 2 then (if is_leap y then 29 else 28) else if m \<in> {4, 6, 9, 11} then 30 else 31)"

definition date_ok :: "nat \<times> nat \<times> nat \<Rightarrow> bool" where
  "date_ok = (\<lambda>(y, m, d). 1950 \<le> y \<and> y \<le> 9999 \<and> 1 \<le> m \<and> m \<le> 12 \<and> 1 \<le> d \<and> d \<le> month_length y m)"

definition next_day :: "nat \<times> nat \<times> nat \<Rightarrow> nat \<times> nat \<times> nat" where
  "next_day = (\<lambda>(y, m, d).
     if d < month_length y m then (y, m, d + 1) else if m < 12 then (y, m + 1, 1) else (y + 1, 1, 1))"

definition time_ok :: "nat \<Rightarrow> nat \<Rightarrow> nat \<Rightarrow> bool" where
  "time_ok h mi s \<longleftrightarrow> h < 24 \<and> mi < 60 \<and> s < 60"

fun day_value :: "nat \<times> nat \<times> nat \<Rightarrow> int" where
  "day_value (y, m, d) =
     (int y - 1970) * 365 + leaps_before y - leaps_before 1970 + DAYS_BEFORE_MONTH ! (m - 1) +
     (if m > 2 \<and> is_leap y then 1 else 0) + int (d - 1)"

lemma month_cases: "1 \<le> m \<Longrightarrow> m \<le> 12 \<Longrightarrow>
    m = 1 \<or> m = 2 \<or> m = 3 \<or> m = 4 \<or> m = 5 \<or> m = 6 \<or> m = 7 \<or> m = 8 \<or> m = 9 \<or> m = 10 \<or> m = 11 \<or> m = (12::nat)"
  by presburger

lemma MONTH_DAYS_length: "1 \<le> m \<Longrightarrow> m \<le> 12 \<Longrightarrow>
    (if m = 2 \<and> is_leap y then 29 else MONTH_DAYS ! (m - 1)) = month_length y m"
  using month_cases [of m] by (auto simp: MONTH_DAYS_def month_length_def)

lemma from_components_eq:
  "from_components y m d h mi s =
     (if date_ok (y, m, d) \<and> time_ok h mi s
      then Inr (day_value (y, m, d) * 86400 + int h * 3600 + int mi * 60 + int s)
      else Inl CertBadValidity)"
  using MONTH_DAYS_length [of m y]
  by (auto simp: from_components_def date_ok_def time_ok_def Let_def)

lemma leaps_before_Suc:
  assumes "1 \<le> y"
  shows "leaps_before (Suc y) = leaps_before y + (if is_leap y then 1 else 0)"
proof -
  obtain n where y: "y = Suc n" using assms by (cases y) auto
  have le: "n div 100 \<le> n div 4" "Suc n div 100 \<le> Suc n div 4" by (simp_all add: div_le_mono2)
  have dv: "Suc n mod 400 = 0 \<Longrightarrow> Suc n mod 100 = 0" "Suc n mod 100 = 0 \<Longrightarrow> Suc n mod 4 = 0"
    using mod_mod_cancel [of 100 400 "Suc n"] mod_mod_cancel [of 4 100 "Suc n"] by auto
  show ?thesis
    using le dv by (auto simp: y leaps_before_def is_leap_def Let_def div_Suc)
qed

lemma date_ok_next:
  assumes "date_ok (y, m, d)" "next_day (y, m, d) = (y', m', d')"
  shows "day_value (y', m', d') = day_value (y, m, d) + 1"
proof -
  have m: "1 \<le> m" "m \<le> 12" and d: "1 \<le> d" "d \<le> month_length y m" and y: "1 \<le> y"
    using assms(1) by (simp_all add: date_ok_def)
  show ?thesis
  proof (cases "d < month_length y m")
    case True
    then show ?thesis using assms(2) d(1) by (auto simp: next_day_def)
  next
    case False
    then have de: "d = month_length y m" using d by simp
    show ?thesis
    proof (cases "m < 12")
      case True
      then have n: "y' = y" "m' = m + 1" "d' = 1" using assms(2) False by (auto simp: next_day_def)
      show ?thesis using month_cases [OF m] True
        by (auto simp: n de month_length_def DAYS_BEFORE_MONTH_def)
    next
      case False
      then have n: "y' = Suc y" "m' = 1" "d' = 1" "m = 12"
        using assms(2) de m by (auto simp: next_day_def)
      show ?thesis using leaps_before_Suc [OF y]
        by (auto simp: n de month_length_def DAYS_BEFORE_MONTH_def)
    qed
  qed
qed

text \<open>
  The time arithmetic is the calendar's: the epoch is 1970-01-01 00:00:00, every valid date and time
  and no other is accepted, the same time on the following day is 86400 seconds later (across months,
  years and leap days), and within a day the value grows by the seconds of the clock.
\<close>

theorem unix_time_calendar:
  assumes "date_ok (y, m, d)" "next_day (y, m, d) = (y', m', d')" "y' \<le> 9999"
  shows "from_components 1970 1 1 0 0 0 = Inr 0
    \<and> (\<exists>t. from_components y m d 0 0 0 = Inr t \<and> from_components y' m' d' 0 0 0 = Inr (t + 86400)
         \<and> from_components y m d h mi s =
             (if h < 24 \<and> mi < 60 \<and> s < 60 then Inr (t + 3600 * int h + 60 * int mi + int s) else Inl CertBadValidity))
    \<and> (from_components y2 m2 d2 h mi s = Inl CertBadValidity \<longleftrightarrow> \<not> (date_ok (y2, m2, d2) \<and> h < 24 \<and> mi < 60 \<and> s < 60))"
proof (intro conjI)
  show "from_components 1970 1 1 0 0 0 = Inr 0"
    by (simp add: from_components_eq date_ok_def time_ok_def month_length_def DAYS_BEFORE_MONTH_def)
  have "date_ok (y', m', d')"
    using assms by (auto simp: date_ok_def next_day_def month_length_def split: if_splits)
  then show "\<exists>t. from_components y m d 0 0 0 = Inr t \<and> from_components y' m' d' 0 0 0 = Inr (t + 86400)
         \<and> from_components y m d h mi s =
             (if h < 24 \<and> mi < 60 \<and> s < 60 then Inr (t + 3600 * int h + 60 * int mi + int s) else Inl CertBadValidity)"
    using assms(1) date_ok_next [OF assms(1,2)]
    by (simp add: from_components_eq time_ok_def del: day_value.simps)
  show "from_components y2 m2 d2 h mi s = Inl CertBadValidity \<longleftrightarrow>
      \<not> (date_ok (y2, m2, d2) \<and> h < 24 \<and> mi < 60 \<and> s < 60)"
    by (simp add: from_components_eq time_ok_def)
qed

theorem unix_time_calendar_witness:
  "date_ok (2000, 2, 28) \<and> next_day (2000, 2, 28) = (2000, 2, 29)
   \<and> (\<exists>t. from_components 2000 2 28 0 0 0 = Inr t \<and> from_components 2000 2 29 0 0 0 = Inr (t + 86400))"
proof -
  have "date_ok (2000, 2, 28)" "next_day (2000, 2, 28) = (2000, 2, 29)"
    by (simp_all add: date_ok_def next_day_def month_length_def is_leap_def)
  then show ?thesis using unix_time_calendar [of 2000 2 28 2000 2 29 0 0 0 0 0 0] by auto
qed

end
