(* ===== verification/Hostname.thy ===== *)
theory Hostname
  imports External UnixTime
begin

section \<open>Reference identities\<close>

text \<open>
  \<open>identity/hostname.rs\<close>: matching of DNS names with wildcards, and the textual forms of IP
  addresses.  The first part models the methods of the standard library's byte and string
  slices that the file uses; \<open>str::from_utf8\<close> is the table of well-formed UTF-8 sequences.
\<close>

subsection \<open>Bytes and text\<close>

definition is_ascii :: "u8 \<Rightarrow> bool" where "is_ascii b \<longleftrightarrow> b < 128"

definition is_ascii_upper :: "u8 \<Rightarrow> bool" where "is_ascii_upper b \<longleftrightarrow> 65 \<le> b \<and> b \<le> 90"

definition is_ascii_alphanumeric :: "u8 \<Rightarrow> bool" where
  "is_ascii_alphanumeric b \<longleftrightarrow> is_ascii_digit b \<or> is_ascii_upper b \<or> 97 \<le> b \<and> b \<le> 122"

definition is_ascii_hexdigit :: "u8 \<Rightarrow> bool" where
  "is_ascii_hexdigit b \<longleftrightarrow> is_ascii_digit b \<or> 65 \<le> b \<and> b \<le> 70 \<or> 97 \<le> b \<and> b \<le> 102"

definition to_ascii_lowercase :: "u8 \<Rightarrow> u8" where
  "to_ascii_lowercase b = (if is_ascii_upper b then b + 32 else b)"

definition eq_ignore_ascii_case :: "u8 \<Rightarrow> u8 \<Rightarrow> bool" where
  "eq_ignore_ascii_case a b \<longleftrightarrow> to_ascii_lowercase a = to_ascii_lowercase b"

definition cont_byte :: "u8 \<Rightarrow> bool" where "cont_byte b \<longleftrightarrow> 0x80 \<le> b \<and> b \<le> 0xbf"

fun utf8_valid :: "bytes \<Rightarrow> bool" where
  "utf8_valid [] = True"
| "utf8_valid (a # rest) =
     (if a < 0x80 then utf8_valid rest
      else if 0xc2 \<le> a \<and> a \<le> 0xdf then
        (case rest of b # rest' \<Rightarrow> cont_byte b \<and> utf8_valid rest' | _ \<Rightarrow> False)
      else if 0xe0 \<le> a \<and> a \<le> 0xef then
        (case rest of b # c # rest' \<Rightarrow>
           cont_byte b \<and> cont_byte c \<and> (a = 0xe0 \<longrightarrow> 0xa0 \<le> b) \<and> (a = 0xed \<longrightarrow> b \<le> 0x9f) \<and> utf8_valid rest'
         | _ \<Rightarrow> False)
      else if 0xf0 \<le> a \<and> a \<le> 0xf4 then
        (case rest of b # c # d # rest' \<Rightarrow>
           cont_byte b \<and> cont_byte c \<and> cont_byte d \<and> (a = 0xf0 \<longrightarrow> 0x90 \<le> b) \<and> (a = 0xf4 \<longrightarrow> b \<le> 0x8f) \<and>
           utf8_valid rest'
         | _ \<Rightarrow> False)
      else False)"

text \<open>\<open>split\<close> yields at least one piece; \<open>find_sub\<close> is the position of the first occurrence.\<close>

fun split_on :: "u8 \<Rightarrow> bytes \<Rightarrow> bytes list" where
  "split_on sep [] = [[]]"
| "split_on sep (b # bs) =
     (if b = sep then [] # split_on sep bs
      else (case split_on sep bs of p # ps \<Rightarrow> (b # p) # ps | [] \<Rightarrow> [[b]]))"

fun find_sub :: "bytes \<Rightarrow> bytes \<Rightarrow> nat option" where
  "find_sub pat [] = (if pat = [] then Some 0 else None)"
| "find_sub pat (b # bs) =
     (if take (length pat) (b # bs) = pat then Some 0 else map_option Suc (find_sub pat bs))"

definition DOT :: u8 where "DOT = 46"
definition COLON :: u8 where "COLON = 58"
definition STAR :: u8 where "STAR = 42"

subsection \<open>DNS names\<close>

fun memchr :: "u8 \<Rightarrow> bytes \<Rightarrow> nat option" where
  "memchr needle [] = None"
| "memchr needle (b # bs) = (if b = needle then Some 0 else map_option Suc (memchr needle bs))"

definition split_first_label :: "bytes \<Rightarrow> (bytes \<times> bytes) option" where
  "split_first_label host =
     (case memchr DOT host of None \<Rightarrow> None | Some dot \<Rightarrow> Some (take dot host, drop (dot + 1) host))"

definition ascii_case_eq :: "bytes \<Rightarrow> bytes \<Rightarrow> bool" where
  "ascii_case_eq a b \<longleftrightarrow> length a = length b \<and> list_all (\<lambda>(x, y). eq_ignore_ascii_case x y) (zip a b)"

definition trim_trailing_dot :: "bytes \<Rightarrow> bytes" where
  "trim_trailing_dot s = (if s \<noteq> [] \<and> last s = DOT then take (length s - 1) s else s)"

fun has_empty_label :: "bytes \<Rightarrow> bool" where
  "has_empty_label (a # b # rest) \<longleftrightarrow> a = DOT \<and> b = DOT \<or> has_empty_label (b # rest)"
| "has_empty_label _ \<longleftrightarrow> False"

definition valid_name :: "bytes \<Rightarrow> bool" where
  "valid_name name \<longleftrightarrow>
     (if name = [] \<or> 0 \<in> set name then False
      else if hd name = DOT \<or> last name = DOT then False
      else \<not> has_empty_label name)"

definition matches_dns :: "bytes \<Rightarrow> bytes \<Rightarrow> bool" where
  "matches_dns reference0 presented0 =
     (let presented = trim_trailing_dot presented0; reference = trim_trailing_dot reference0 in
      if \<not> valid_name presented \<or> \<not> valid_name reference then False
      else case split_first_label presented of
        Some (wildcard_label, rest_pattern) \<Rightarrow>
          if wildcard_label = [STAR] then
            if memchr DOT rest_pattern = None then False
            else (case split_first_label reference of
                None \<Rightarrow> False
              | Some (ref_label, ref_rest) \<Rightarrow>
                  if ref_label = [] then False else ascii_case_eq ref_rest rest_pattern)
          else if STAR \<in> set wildcard_label then False
          else ascii_case_eq presented reference
      | None \<Rightarrow>
          if STAR \<in> set presented then False else ascii_case_eq presented reference)"

text \<open>The test on one label is shared with the name constraints of \<open>cert/ext/scope.rs\<close>.\<close>

definition valid_label :: "bytes \<Rightarrow> bool" where
  "valid_label label \<longleftrightarrow> label \<noteq> [] \<and> length label \<le> 63 \<and> is_ascii_alphanumeric (hd label) \<and>
     is_ascii_alphanumeric (last label) \<and> list_all (\<lambda>b. is_ascii_alphanumeric b \<or> b = 45) label"

definition matches_ip :: "bytes \<Rightarrow> bytes \<Rightarrow> bool" where
  "matches_ip reference presented \<longleftrightarrow> presented = reference"

subsection \<open>IP addresses\<close>

definition parse_u8 :: "bytes \<Rightarrow> u8 option" where
  "parse_u8 part =
     (let v = foldl (\<lambda>v c. v * 10 + digit_value c) 0 part in if v < 256 then Some (word_of_nat v) else None)"

fun parse_ipv4_parts :: "u8 copy_inline \<Rightarrow> nat \<Rightarrow> bytes list \<Rightarrow> bytes \<Rightarrow> (bytes \<times> bytes list) option" where
  "parse_ipv4_parts ci 0 parts out = Some (out, parts)"
| "parse_ipv4_parts ci (Suc n) [] out = None"
| "parse_ipv4_parts ci (Suc n) (part # parts) out =
     (if part = [] \<or> length part > 3 \<or> \<not> list_all is_ascii_digit part then None
      else case parse_u8 part of
        None \<Rightarrow> None
      | Some v \<Rightarrow> (case ci_push ci 16 v out of None \<Rightarrow> None | Some out \<Rightarrow> parse_ipv4_parts ci n parts out))"

definition parse_ipv4 :: "u8 copy_inline \<Rightarrow> bytes \<Rightarrow> bytes option" where
  "parse_ipv4 ci text =
     (case parse_ipv4_parts ci 4 (split_on DOT text) [] of
        None \<Rightarrow> None
      | Some (out, parts) \<Rightarrow> if parts \<noteq> [] then None else Some out)"

definition hex_value :: "u8 \<Rightarrow> nat" where
  "hex_value c = (if is_ascii_digit c then digit_value c else unat (to_ascii_lowercase c - 97) + 10)"

fun v6_tokens :: "u8 copy_inline \<Rightarrow> bytes list \<Rightarrow> bytes \<Rightarrow> nat \<Rightarrow> (bytes \<times> nat) option" where
  "v6_tokens ci [] out groups = Some (out, groups)"
| "v6_tokens ci (token # tokens) out groups =
     (if DOT \<in> set token then
        if tokens \<noteq> [] then None
        else (case parse_ipv4 ci token of
            None \<Rightarrow> None
          | Some v4 \<Rightarrow> (case ci_extend ci 16 v4 out of
              None \<Rightarrow> None | Some out \<Rightarrow> v6_tokens ci tokens out (groups + 2)))
      else if token = [] \<or> length token > 4 \<or> \<not> list_all is_ascii_hexdigit token then None
      else (case ci_extend ci 16 (be_bytes 2 (foldl (\<lambda>v c. v * 16 + hex_value c) 0 token)) out of
          None \<Rightarrow> None | Some out \<Rightarrow> v6_tokens ci tokens out (groups + 1)))"

definition parse_v6_part :: "u8 copy_inline \<Rightarrow> bytes \<Rightarrow> (bytes \<times> nat) option" where
  "parse_v6_part ci part = (if part = [] then Some ([], 0) else v6_tokens ci (split_on COLON part) [] 0)"

fun push_zeros :: "u8 copy_inline \<Rightarrow> nat \<Rightarrow> bytes \<Rightarrow> bytes option" where
  "push_zeros ci 0 out = Some out"
| "push_zeros ci (Suc n) out =
     (case ci_push ci 16 0 out of None \<Rightarrow> None | Some out \<Rightarrow> push_zeros ci n out)"

definition parse_ipv6 :: "u8 copy_inline \<Rightarrow> bytes \<Rightarrow> bytes option" where
  "parse_ipv6 ci text =
     (case (case find_sub [COLON, COLON] text of
              Some index \<Rightarrow>
                if find_sub [COLON, COLON] (drop (index + 2) text) \<noteq> None then None
                else Some (take index text, drop (index + 2) text, True)
            | None \<Rightarrow> Some (text, [], False)) of
        None \<Rightarrow> None
      | Some (head, tail, compressed) \<Rightarrow>
          (case parse_v6_part ci head of
             None \<Rightarrow> None
           | Some (head_bytes, head_groups) \<Rightarrow>
               (case parse_v6_part ci tail of
                  None \<Rightarrow> None
                | Some (tail_bytes, tail_groups) \<Rightarrow>
                    if compressed then
                      let total = head_groups + tail_groups in
                      if total \<ge> 8 then None
                      else (case ci_extend ci 16 head_bytes [] of
                          None \<Rightarrow> None
                        | Some out \<Rightarrow> (case push_zeros ci ((8 - total) * 2) out of
                            None \<Rightarrow> None | Some out \<Rightarrow> ci_extend ci 16 tail_bytes out))
                    else if head_groups = 8 \<and> tail = [] then Some head_bytes
                    else None)))"

definition parse_ip :: "u8 copy_inline \<Rightarrow> bytes \<Rightarrow> bytes option" where
  "parse_ip ci text =
     (if \<not> utf8_valid text then None
      else if COLON \<in> set text then parse_ipv6 ci text else parse_ipv4 ci text)"

definition is_ip_literal :: "u8 copy_inline \<Rightarrow> bytes \<Rightarrow> bool" where
  "is_ip_literal ci text \<longleftrightarrow> parse_ip ci text \<noteq> None"

definition is_valid_reference :: "u8 copy_inline \<Rightarrow> bytes \<Rightarrow> bool" where
  "is_valid_reference ci name =
     (if parse_ip ci name \<noteq> None then True
      else if name = [] \<or> length name > 253 \<or> last name = DOT then False
      else list_all valid_label (split_on DOT name))"

subsection \<open>Names as label lists\<close>

abbreviation labels :: "bytes \<Rightarrow> bytes list" where "labels \<equiv> split_on DOT"

abbreviation lower :: "bytes \<Rightarrow> bytes" where "lower \<equiv> map to_ascii_lowercase"

lemma split_on_nonempty [simp]: "split_on sep s \<noteq> []"
  by (induction s) (auto split: list.splits)

lemma split_on_cases: obtains p ps where "split_on sep s = p # ps"
  by (cases "split_on sep s") auto

lemma split_on_Cons_other: "b \<noteq> sep \<Longrightarrow> split_on sep (b # s) = (b # hd (split_on sep s)) # tl (split_on sep s)"
  by (cases rule: split_on_cases [of sep s]) simp

lemma split_on_inject: "split_on sep s = split_on sep t \<longleftrightarrow> s = t"
proof (induction s arbitrary: t)
  case Nil
  show ?case
  proof (cases t)
    case (Cons c t')
    then show ?thesis by (cases rule: split_on_cases [of sep t']) auto
  qed simp
next
  case (Cons b s)
  show ?case
  proof (cases t)
    case Nil
    then show ?thesis by (cases rule: split_on_cases [of sep s]) auto
  next
    case t: (Cons c t')
    obtain p ps q qs where pq: "split_on sep s = p # ps" "split_on sep t' = q # qs"
      by (metis split_on_cases)
    have "s = t' \<longleftrightarrow> p # ps = q # qs" using Cons.IH [of t'] pq by simp
    then show ?thesis using pq t Cons.IH [of t'] by auto
  qed
qed

lemma to_ascii_lowercase_DOT: "to_ascii_lowercase b = DOT \<longleftrightarrow> b = DOT"
proof
  assume "to_ascii_lowercase b = DOT"
  then show "b = DOT"
    by (auto simp: to_ascii_lowercase_def is_ascii_upper_def DOT_def eq_diff_eq [symmetric] split: if_splits)
qed (simp add: to_ascii_lowercase_def is_ascii_upper_def DOT_def)

lemma labels_lower: "labels (lower s) = map lower (labels s)"
proof (induction s)
  case (Cons b s)
  show ?case
    by (cases rule: split_on_cases [of DOT s]) (use Cons in \<open>auto simp: to_ascii_lowercase_DOT\<close>)
qed simp

lemma ascii_case_eq_lower: "ascii_case_eq a b \<longleftrightarrow> lower a = lower b"
proof (induction a arbitrary: b)
  case (Cons x a)
  then show ?case by (cases b) (auto simp: ascii_case_eq_def eq_ignore_ascii_case_def)
qed (auto simp: ascii_case_eq_def)

lemma ascii_case_eq_labels: "ascii_case_eq a b \<longleftrightarrow> map lower (labels a) = map lower (labels b)"
  using split_on_inject [of DOT "lower a" "lower b"] by (simp add: ascii_case_eq_lower labels_lower)

lemma memchr_None: "memchr DOT s = None \<longleftrightarrow> labels s = [s]"
proof (induction s)
  case (Cons b s)
  show ?case
    by (cases rule: split_on_cases [of DOT s]) (use Cons in auto)
qed simp

lemma split_first_label_labels:
  "split_first_label s = (case labels s of p # q # qs \<Rightarrow> Some (p, drop (length p + 1) s) | _ \<Rightarrow> None)
   \<and> (\<forall>p q qs. labels s = p # q # qs \<longrightarrow> labels (drop (length p + 1) s) = q # qs)"
proof (induction s)
  case (Cons b s)
  obtain p ps where p: "labels s = p # ps" by (rule split_on_cases)
  show ?case
  proof (cases "b = DOT")
    case True
    then show ?thesis using p by (cases ps) (auto simp: split_first_label_def)
  next
    case False
    then show ?thesis
      using Cons p by (auto simp: split_first_label_def split: list.splits option.splits)
  qed
qed (simp add: split_first_label_def)

lemma split_first_label_None: "split_first_label s = None \<longleftrightarrow> labels s = [s]"
  using memchr_None [of s] by (auto simp: split_first_label_def split: option.splits)

lemma split_first_label_Some: "split_first_label s = Some (l, r) \<longleftrightarrow> labels s = l # labels r"
proof
  assume a: "split_first_label s = Some (l, r)"
  then obtain q qs where "labels s = l # q # qs" "r = drop (length l + 1) s"
    using split_first_label_labels [of s] by (auto split: list.splits)
  then show "labels s = l # labels r" using split_first_label_labels [of s] by auto
next
  assume a: "labels s = l # labels r"
  then obtain q qs where q: "labels s = l # q # qs" "labels r = q # qs"
    by (cases rule: split_on_cases [of DOT r]) auto
  then have "labels (drop (length l + 1) s) = labels r" using split_first_label_labels [of s] by auto
  then have "drop (length l + 1) s = r" by (simp only: split_on_inject)
  then show "split_first_label s = Some (l, r)" using split_first_label_labels [of s] q by simp
qed

lemma labels_single: "length (labels s) = 1 \<longleftrightarrow> labels s = [s]"
proof
  assume "length (labels s) = 1"
  then have "split_first_label s = None"
    using split_first_label_labels [of s] by (auto split: list.splits)
  then show "labels s = [s]" by (simp add: split_first_label_None)
qed simp

lemma hd_labels_empty: "hd (labels s) = [] \<longleftrightarrow> s = [] \<or> hd s = DOT"
  by (cases s) (auto split: list.splits)

lemma tl_labels_empty: "[] \<in> set (tl (labels s)) \<longleftrightarrow> s \<noteq> [] \<and> (last s = DOT \<or> has_empty_label s)"
proof (induction s)
  case (Cons a t)
  obtain p ps where p: "labels t = p # ps" by (rule split_on_cases)
  have "p = [] \<longleftrightarrow> t = [] \<or> hd t = DOT" using hd_labels_empty [of t] p by simp
  then show ?case using Cons p by (cases t) auto
qed simp

lemma empty_label: "[] \<in> set (labels s) \<longleftrightarrow> s = [] \<or> hd s = DOT \<or> last s = DOT \<or> has_empty_label s"
proof -
  obtain p ps where p: "labels s = p # ps" by (rule split_on_cases)
  then show ?thesis using hd_labels_empty [of s] tl_labels_empty [of s] by auto
qed

lemma valid_name_labels: "valid_name s \<Longrightarrow> [] \<notin> set (labels s)"
  by (auto simp: valid_name_def empty_label split: if_splits)

text \<open>The test for a wildcard, on labels.\<close>

lemma wildcard_labels:
  assumes "split_first_label p = Some ([STAR], rest)" and "valid_name r"
  shows "memchr DOT rest \<noteq> None \<and> (case split_first_label r of None \<Rightarrow> False | Some (l, rr) \<Rightarrow> l \<noteq> [] \<and> ascii_case_eq rr rest) \<longleftrightarrow>
    3 \<le> length (labels p) \<and> length (labels r) = length (labels p) \<and> map lower (tl (labels r)) = map lower (tl (labels p))"
proof -
  have P: "labels p = [STAR] # labels rest" using assms(1) by (simp add: split_first_label_Some)
  have dots: "memchr DOT rest = None \<longleftrightarrow> length (labels rest) = 1" by (simp only: memchr_None labels_single)
  have pos: "0 < length (labels rest)" by simp
  show ?thesis
  proof (cases "split_first_label r")
    case None
    then have "length (labels r) = 1" by (simp add: split_first_label_None)
    with None P show ?thesis by simp
  next
    case (Some lr)
    then obtain l rr where lr: "split_first_label r = Some (l, rr)" by (cases lr) auto
    then have R: "labels r = l # labels rr" by (simp add: split_first_label_Some)
    then have "l \<noteq> []" using assms(2) valid_name_labels [of r] by auto
    moreover have "map lower (labels rr) = map lower (labels rest) \<Longrightarrow> length (labels rr) = length (labels rest)"
      by (metis length_map)
    moreover have "2 \<le> length (labels rest) \<longleftrightarrow> length (labels rest) \<noteq> 1" using pos by linarith
    ultimately show ?thesis using lr dots P R by (auto simp: ascii_case_eq_labels)
  qed
qed

text \<open>
  C39. DNS matching is matching of label lists without regard to ASCII case: a pattern whose first label is
  a lone asterisk matches exactly the names that replace that one label and agree on all the others, and
  needs at least two more labels; an asterisk anywhere else in the first label never matches; names
  with empty labels or a NUL never match; one trailing dot is ignored on either side.
\<close>

theorem matches_dns_labels:
  "matches_dns reference presented \<longleftrightarrow>
     (let p = trim_trailing_dot presented; r = trim_trailing_dot reference; P = labels p; R = labels r in
      valid_name p \<and> valid_name r \<and>
      (if hd P = [STAR] then 3 \<le> length P \<and> length R = length P \<and> map lower (tl R) = map lower (tl P)
       else STAR \<notin> set (hd P) \<and> map lower P = map lower R))"
proof -
  define p where "p = trim_trailing_dot presented"
  define r where "r = trim_trailing_dot reference"
  have "matches_dns reference presented \<longleftrightarrow> valid_name p \<and> valid_name r \<and>
      (if hd (labels p) = [STAR]
       then 3 \<le> length (labels p) \<and> length (labels r) = length (labels p) \<and>
         map lower (tl (labels r)) = map lower (tl (labels p))
       else STAR \<notin> set (hd (labels p)) \<and> map lower (labels p) = map lower (labels r))"
  proof (cases "split_first_label p")
    case None
    then have "labels p = [p]" by (simp add: split_first_label_None)
    with None show ?thesis
      by (auto simp: matches_dns_def p_def [symmetric] r_def [symmetric] Let_def ascii_case_eq_labels)
  next
    case (Some wr)
    then obtain w rest where wr: "split_first_label p = Some (w, rest)" by (cases wr) auto
    then have P: "labels p = w # labels rest" by (simp add: split_first_label_Some)
    show ?thesis
    proof (cases "w = [STAR]")
      case False
      with wr P show ?thesis
        by (auto simp: matches_dns_def p_def [symmetric] r_def [symmetric] Let_def ascii_case_eq_labels)
    next
      case True
      with wr P wildcard_labels [of p rest r] show ?thesis
        by (auto simp: matches_dns_def p_def [symmetric] r_def [symmetric] Let_def split: option.splits)
    qed
  qed
  then show ?thesis by (simp add: p_def r_def Let_def)
qed

subsection \<open>Shape of the parsed addresses\<close>

lemma parse_ipv4_parts_length:
  "copy_inline_ok ci \<Longrightarrow> parse_ipv4_parts ci n parts out = Some (out', rest) \<Longrightarrow> length out' = length out + n"
  by (induction ci n parts out rule: parse_ipv4_parts.induct)
    (auto simp: copy_inline_okD split: if_splits option.splits)

lemma parse_ipv4_length: "copy_inline_ok ci \<Longrightarrow> parse_ipv4 ci text = Some ip \<Longrightarrow> length ip = 4"
  by (auto simp: parse_ipv4_def dest: parse_ipv4_parts_length split: option.splits if_splits)

lemma v6_tokens_length:
  "copy_inline_ok ci \<Longrightarrow> v6_tokens ci tokens out groups = Some (out', groups') \<Longrightarrow>
     length out' + 2 * groups = length out + 2 * groups'"
  by (induction ci tokens out groups rule: v6_tokens.induct)
    (auto simp: copy_inline_okD dest: parse_ipv4_length split: if_splits option.splits)

lemma parse_v6_part_length:
  "copy_inline_ok ci \<Longrightarrow> parse_v6_part ci part = Some (out, groups) \<Longrightarrow> length out = 2 * groups"
  using v6_tokens_length [of ci "split_on COLON part" "[]" 0 out groups]
  by (auto simp: parse_v6_part_def split: if_splits)

lemma push_zeros_length: "copy_inline_ok ci \<Longrightarrow> push_zeros ci n out = Some out' \<Longrightarrow> length out' = length out + n"
  by (induction ci n out rule: push_zeros.induct) (auto simp: copy_inline_okD split: if_splits option.splits)

lemma parse_ip_length:
  assumes "copy_inline_ok ci" "parse_ip ci text = Some ip"
  shows "length ip = (if COLON \<in> set text then 16 else 4)"
proof (cases "COLON \<in> set text")
  case True
  then have "parse_ipv6 ci text = Some ip" using assms(2) by (simp add: parse_ip_def split: if_splits)
  moreover have "\<not> 8 \<le> a + b \<Longrightarrow> 2 * a + (8 - (a + b)) * 2 + 2 * b = 16" for a b :: nat by linarith
  ultimately have "length ip = 16"
    by (auto simp: parse_ipv6_def copy_inline_okD [OF assms(1)] Let_def
        dest!: parse_v6_part_length [OF assms(1)] push_zeros_length [OF assms(1)]
        split: option.splits if_splits)
  with True show ?thesis by simp
next
  case False
  then show ?thesis using assms parse_ipv4_length by (simp add: parse_ip_def split: if_splits)
qed

end
