(* ===== verification/Hash.thy ===== *)
theory Hash
  imports Prelude
begin

section \<open>Hash values and the handshake transcript\<close>

text \<open>
  \<open>crypto/hash.rs\<close>.  The digest and HMAC functions of the \<open>ring\<close> crate are parameters,
  collected in the record \<open>crypto\<close>; \<open>crypto_ok\<close> says that their outputs have the documented
  length.  A streaming \<open>digest::Context\<close> is the bytes it has absorbed.  \<open>Digest\<close> and \<open>Secret\<close>
  have the same representation, a fixed array and a length, and share the record
  \<open>hash_value\<close>.  The transcript keeps both hash contexts until one is selected; the main
  fact is that it always yields the digest of all messages so far.
\<close>

datatype algorithm = Sha256 | Sha384

definition SHA256_LEN :: nat where "SHA256_LEN = 32"
definition SHA384_LEN :: nat where "SHA384_LEN = 48"
definition HASH_MAX_LEN :: nat where "HASH_MAX_LEN = SHA384_LEN"

fun output_len :: "algorithm \<Rightarrow> nat" where
  "output_len Sha256 = SHA256_LEN"
| "output_len Sha384 = SHA384_LEN"

record crypto =
  ring_digest :: "algorithm \<Rightarrow> bytes \<Rightarrow> bytes"
  ring_hmac :: "algorithm \<Rightarrow> bytes \<Rightarrow> bytes \<Rightarrow> bytes"

definition crypto_ok :: "crypto \<Rightarrow> bool" where
  "crypto_ok C \<longleftrightarrow>
     (\<forall>a m. length (ring_digest C a m) = output_len a) \<and>
     (\<forall>a k m. length (ring_hmac C a k m) = output_len a)"

text \<open>An instance with outputs of the right length, for concrete evaluation only.\<close>

definition crypto_toy :: crypto where
  "crypto_toy =
     \<lparr>ring_digest = (\<lambda>a m. replicate (output_len a) (fold (\<lambda>b h. h * 31 + b) m 7)),
      ring_hmac = (\<lambda>a k m. replicate (output_len a) (fold (\<lambda>b h. h * 31 + b) (k @ m) 9))\<rparr>"

lemma crypto_toy_ok [simp]: "crypto_ok crypto_toy"
  by (simp add: crypto_ok_def crypto_toy_def)

lemma output_len_le: "output_len a \<le> HASH_MAX_LEN" and output_len_pos [simp]: "0 < output_len a"
  by (cases a; simp add: HASH_MAX_LEN_def SHA256_LEN_def SHA384_LEN_def)+

lemma output_len_less_256: "output_len a < 256"
  by (cases a) (simp_all add: SHA256_LEN_def SHA384_LEN_def)

lemma crypto_ok_digest [simp]: "crypto_ok C \<Longrightarrow> length (ring_digest C a m) = output_len a"
  by (simp add: crypto_ok_def)

lemma crypto_ok_hmac [simp]: "crypto_ok C \<Longrightarrow> length (ring_hmac C a k m) = output_len a"
  by (simp add: crypto_ok_def)

subsection \<open>Digest and Secret\<close>

record hash_value =
  hv_bytes :: bytes
  hv_len :: nat

record length_error =
  le_actual :: nat
  le_maximum :: nat

definition from_bounded_slice :: "bytes \<Rightarrow> hash_value" where
  "from_bounded_slice s = \<lparr>hv_bytes = s @ replicate (HASH_MAX_LEN - length s) 0, hv_len = length s\<rparr>"

definition hv_try_from_slice :: "bytes \<Rightarrow> length_error + hash_value" where
  "hv_try_from_slice s =
     (if length s > HASH_MAX_LEN then Inl \<lparr>le_actual = length s, le_maximum = HASH_MAX_LEN\<rparr>
      else Inr (from_bounded_slice s))"

definition secret_zeroed :: "nat \<Rightarrow> length_error + hash_value" where
  "secret_zeroed n =
     (if n > HASH_MAX_LEN then Inl \<lparr>le_actual = n, le_maximum = HASH_MAX_LEN\<rparr>
      else Inr \<lparr>hv_bytes = replicate HASH_MAX_LEN 0, hv_len = n\<rparr>)"

definition as_slice :: "hash_value \<Rightarrow> bytes" where
  "as_slice d = take (hv_len d) (hv_bytes d)"

text \<open>Writing through \<open>as_mut_slice\<close> replaces the first \<open>len\<close> bytes.\<close>

definition set_slice :: "bytes \<Rightarrow> hash_value \<Rightarrow> hash_value" where
  "set_slice s d = d\<lparr>hv_bytes := s @ drop (hv_len d) (hv_bytes d)\<rparr>"

definition digest_eq :: "hash_value \<Rightarrow> hash_value \<Rightarrow> bool" where
  "digest_eq d e \<longleftrightarrow> as_slice d = as_slice e"

definition hash :: "crypto \<Rightarrow> algorithm \<Rightarrow> bytes \<Rightarrow> hash_value" where
  "hash C a data = from_bounded_slice (ring_digest C a data)"

lemma from_bounded_slice [simp]:
  "as_slice (from_bounded_slice s) = s" "hv_len (from_bounded_slice s) = length s"
  by (simp_all add: as_slice_def from_bounded_slice_def)

lemma as_slice_hash [simp]: "as_slice (hash C a m) = ring_digest C a m"
  by (simp add: hash_def)

subsection \<open>Transcript\<close>

datatype transcript_error =
    AlgorithmMismatch algorithm algorithm
  | DigestLengthMismatch algorithm nat nat

datatype transcript_phase = Negotiating | Selected algorithm

record transcript =
  tr_sha256 :: "bytes option"
  tr_sha384 :: "bytes option"

definition transcript_new :: transcript where
  "transcript_new = \<lparr>tr_sha256 = Some [], tr_sha384 = Some []\<rparr>"

definition transcript_fork :: "transcript \<Rightarrow> transcript" where
  "transcript_fork t = \<lparr>tr_sha256 = tr_sha256 t, tr_sha384 = tr_sha384 t\<rparr>"

definition transcript_state :: "transcript \<Rightarrow> transcript_phase" where
  "transcript_state t =
     (if tr_sha256 t \<noteq> None \<and> tr_sha384 t \<noteq> None then Negotiating
      else if tr_sha256 t \<noteq> None then Selected Sha256
      else Selected Sha384)"

definition transcript_select :: "algorithm \<Rightarrow> transcript \<Rightarrow> (transcript_error + unit) \<times> transcript" where
  "transcript_select a t =
     (case transcript_state t of
        Negotiating \<Rightarrow>
          (Inr (), case a of Sha256 \<Rightarrow> t\<lparr>tr_sha384 := None\<rparr> | Sha384 \<Rightarrow> t\<lparr>tr_sha256 := None\<rparr>)
      | Selected s \<Rightarrow> if s = a then (Inr (), t) else (Inl (AlgorithmMismatch s a), t))"

definition transcript_update :: "bytes \<Rightarrow> transcript \<Rightarrow> transcript" where
  "transcript_update msg t =
     (case transcript_state t of
        Negotiating \<Rightarrow>
          t\<lparr>tr_sha256 := map_option (\<lambda>c. c @ msg) (tr_sha256 t),
            tr_sha384 := map_option (\<lambda>c. c @ msg) (tr_sha384 t)\<rparr>
      | Selected Sha256 \<Rightarrow> t\<lparr>tr_sha256 := map_option (\<lambda>c. c @ msg) (tr_sha256 t)\<rparr>
      | Selected Sha384 \<Rightarrow> t\<lparr>tr_sha384 := map_option (\<lambda>c. c @ msg) (tr_sha384 t)\<rparr>)"

definition transcript_hash :: "crypto \<Rightarrow> algorithm \<Rightarrow> transcript \<Rightarrow> transcript_error + hash_value" where
  "transcript_hash C a t =
     (let body = (case (a, tr_sha256 t, tr_sha384 t) of
          (Sha256, Some c, _) \<Rightarrow> Inr (from_bounded_slice (ring_digest C Sha256 c))
        | (Sha384, _, Some c) \<Rightarrow> Inr (from_bounded_slice (ring_digest C Sha384 c))
        | _ \<Rightarrow> Inl (AlgorithmMismatch a a))
      in case transcript_state t of
           Selected s \<Rightarrow> if s \<noteq> a then Inl (AlgorithmMismatch s a) else body
         | Negotiating \<Rightarrow> body)"

definition hash_empty :: "crypto \<Rightarrow> algorithm \<Rightarrow> hash_value" where
  "hash_empty C a = hash C a []"

definition restart_with_message_hash ::
    "algorithm \<Rightarrow> hash_value \<Rightarrow> transcript_error + transcript" where
  "restart_with_message_hash a client_hello1 =
     (if hv_len client_hello1 \<noteq> output_len a
      then Inl (DigestLengthMismatch a (hv_len client_hello1) (output_len a))
      else let t = \<lparr>tr_sha256 = (if a = Sha256 then Some [] else None),
                    tr_sha384 = (if a = Sha384 then Some [] else None)\<rparr>;
               synthetic = [0xFE, 0x00, 0x00, word_of_nat (hv_len client_hello1)] @ as_slice client_hello1
           in Inr (transcript_update synthetic t))"

subsection \<open>The transcript is the digest of all messages\<close>

text \<open>
  \<open>transcript_holds t sel msgs\<close>: the transcript has absorbed exactly \<open>msgs\<close>, and \<open>sel\<close> is
  the selected algorithm, if any.
\<close>

definition transcript_holds :: "transcript \<Rightarrow> algorithm option \<Rightarrow> bytes \<Rightarrow> bool" where
  "transcript_holds t sel bs \<longleftrightarrow>
     (case sel of
        None \<Rightarrow> tr_sha256 t = Some bs \<and> tr_sha384 t = Some bs
      | Some Sha256 \<Rightarrow> tr_sha256 t = Some bs \<and> tr_sha384 t = None
      | Some Sha384 \<Rightarrow> tr_sha256 t = None \<and> tr_sha384 t = Some bs)"

lemmas transcript_defs = transcript_holds_def transcript_state_def transcript_select_def
  transcript_update_def transcript_hash_def transcript_new_def

lemma transcript_holds_new: "transcript_holds transcript_new None []"
  by (simp add: transcript_defs)

lemma transcript_holds_update:
  "transcript_holds t sel bs \<Longrightarrow> transcript_holds (transcript_update m t) sel (bs @ m)"
  by (auto simp: transcript_defs split: option.splits algorithm.splits)

lemma transcript_holds_select:
  "transcript_holds t sel bs \<Longrightarrow> sel = None \<or> sel = Some a \<Longrightarrow>
     fst (transcript_select a t) = Inr () \<and> transcript_holds (snd (transcript_select a t)) (Some a) bs"
  by (auto simp: transcript_defs split: option.splits algorithm.splits)

lemma transcript_select_other:
  "transcript_holds t (Some s) bs \<Longrightarrow> s \<noteq> a \<Longrightarrow> transcript_select a t = (Inl (AlgorithmMismatch s a), t)"
  by (auto simp: transcript_defs split: option.splits algorithm.splits)

lemma transcript_holds_hash:
  "transcript_holds t sel bs \<Longrightarrow>
     transcript_hash C a t =
       (case sel of None \<Rightarrow> Inr (hash C a bs)
        | Some s \<Rightarrow> if s = a then Inr (hash C a bs) else Inl (AlgorithmMismatch s a))"
  by (auto simp: transcript_defs hash_def Let_def split: option.splits algorithm.splits)

lemma transcript_holds_restart:
  "hv_len d = output_len a \<Longrightarrow>
     \<exists>t. restart_with_message_hash a d = Inr t \<and>
       transcript_holds t (Some a) ([0xFE, 0, 0, word_of_nat (output_len a)] @ as_slice d)"
  by (cases a) (simp_all add: restart_with_message_hash_def transcript_defs Let_def)

lemma transcript_holds_foldl:
  "transcript_holds t sel bs \<Longrightarrow>
     transcript_holds (foldl (\<lambda>t m. transcript_update m t) t ms) sel (bs @ concat ms)"
proof (induction ms arbitrary: t bs)
  case (Cons m ms)
  then show ?case using transcript_holds_update [of t sel bs m] by fastforce
qed simp

text \<open>
  C23. Transcript correctness.  Whatever messages are absorbed before and after the hash is
  selected, the transcript hash is the digest of their concatenation; after a
  HelloRetryRequest restart it is the digest of the synthetic \<open>message_hash\<close> message over the
  digest of the first ClientHello, followed by the later messages.
\<close>

theorem transcript_correct:
  assumes "crypto_ok C"
  shows "let t = foldl (\<lambda>t m. transcript_update m t) transcript_new before;
      (r, t1) = transcript_select a t;
      t2 = foldl (\<lambda>t m. transcript_update m t) t1 later in
    r = Inr () \<and> transcript_hash C a t2 = Inr (hash C a (concat before @ concat later)) \<and>
    (\<exists>u. restart_with_message_hash a (hash C a (concat before)) = Inr u \<and>
      transcript_hash C a (foldl (\<lambda>t m. transcript_update m t) u later) =
        Inr (hash C a ([0xFE, 0, 0, word_of_nat (output_len a)] @
               ring_digest C a (concat before) @ concat later)))"
proof -
  define t where "t = foldl (\<lambda>t m. transcript_update m t) transcript_new before"
  have "transcript_holds t None (concat before)"
    using transcript_holds_foldl [OF transcript_holds_new] by (simp add: t_def)
  then have s: "fst (transcript_select a t) = Inr ()"
    "transcript_holds (snd (transcript_select a t)) (Some a) (concat before)"
    using transcript_holds_select by auto
  obtain u where u: "restart_with_message_hash a (hash C a (concat before)) = Inr u"
    "transcript_holds u (Some a)
      ([0xFE, 0, 0, word_of_nat (output_len a)] @ ring_digest C a (concat before))"
    using transcript_holds_restart [of "hash C a (concat before)" a] assms by (auto simp: hash_def)
  show ?thesis
    using s u(1) transcript_holds_hash [OF transcript_holds_foldl [OF s(2)], of C a later]
      transcript_holds_hash [OF transcript_holds_foldl [OF u(2)], of C a later]
    by (auto simp: t_def [symmetric] Let_def split: prod.splits)
qed

theorem transcript_correct_witness:
  "let t = foldl (\<lambda>t m. transcript_update m t) transcript_new [[1, 2], [3]];
      (r, t1) = transcript_select Sha384 t;
      t2 = foldl (\<lambda>t m. transcript_update m t) t1 [[4]] in
    r = Inr () \<and> transcript_hash crypto_toy Sha384 t2 =
        Inr (hash crypto_toy Sha384 (concat [[1, 2], [3]] @ concat [[4]])) \<and>
    (\<exists>u. restart_with_message_hash Sha384 (hash crypto_toy Sha384 (concat [[1, 2], [3]])) = Inr u \<and>
      transcript_hash crypto_toy Sha384 (foldl (\<lambda>t m. transcript_update m t) u [[4]]) =
        Inr (hash crypto_toy Sha384 ([0xFE, 0, 0, word_of_nat (output_len Sha384)] @
               ring_digest crypto_toy Sha384 (concat [[1, 2], [3]]) @ concat [[4]])))"
  by (rule transcript_correct [OF crypto_toy_ok])

end
