(* ===== verification/DistinguishedName.thy ===== *)
theory DistinguishedName
  imports Hostname Hash
begin

section \<open>Distinguished names\<close>

unbundle bit_operations_syntax

text \<open>
  \<open>identity/cert/dn/\<close>: the string profile under which attribute values are compared
  (\<open>profile.rs\<close>), name parsing, the order-independent digest that indexes names and the exact
  comparison (\<open>mod.rs\<close>).  A character is its code point.  The tables of the crates
  \<open>stringprep\<close>, \<open>unicode-normalization\<close> and \<open>unicode-properties\<close> are the record \<open>unicode\<close>.
\<close>

type_synonym uchar = nat

record unicode =
  un_nfkc :: "uchar list \<Rightarrow> uchar list"
  un_case_fold :: "uchar \<Rightarrow> uchar list"
  un_is_mark :: "uchar \<Rightarrow> bool"
  un_unassigned :: "uchar \<Rightarrow> bool"
  un_change_display :: "uchar \<Rightarrow> bool"
  un_private_use :: "uchar \<Rightarrow> bool"
  un_non_character :: "uchar \<Rightarrow> bool"
  un_surrogate :: "uchar \<Rightarrow> bool"

text \<open>\<open>str::chars\<close> on well-formed UTF-8.\<close>

definition low_bits :: "nat \<Rightarrow> u8 \<Rightarrow> nat" where
  "low_bits n b = unat b mod 2 ^ n"

fun chars :: "bytes \<Rightarrow> uchar list" where
  "chars [] = []"
| "chars (a # rest) =
     (if a < 0x80 then unat a # chars rest
      else if a < 0xe0 then
        (case rest of b # rest' \<Rightarrow> (low_bits 5 a * 64 + low_bits 6 b) # chars rest' | _ \<Rightarrow> [])
      else if a < 0xf0 then
        (case rest of b # c # rest' \<Rightarrow>
           (low_bits 4 a * 4096 + low_bits 6 b * 64 + low_bits 6 c) # chars rest' | _ \<Rightarrow> [])
      else
        (case rest of b # c # d # rest' \<Rightarrow>
           (low_bits 3 a * 262144 + low_bits 6 b * 4096 + low_bits 6 c * 64 + low_bits 6 d) # chars rest'
         | _ \<Rightarrow> []))"

subsection \<open>The string profile\<close>

definition SPACE :: uchar where "SPACE = 0x20"

definition mapped_to_nothing :: "uchar \<Rightarrow> bool" where
  "mapped_to_nothing c \<longleftrightarrow>
     c \<le> 0x0008 \<or> 0x000e \<le> c \<and> c \<le> 0x001f \<or> 0x007f \<le> c \<and> c \<le> 0x0084 \<or> 0x0086 \<le> c \<and> c \<le> 0x009f \<or>
     c = 0x00ad \<or> c = 0x034f \<or> c = 0x06dd \<or> c = 0x070f \<or> c = 0x1806 \<or> 0x180b \<le> c \<and> c \<le> 0x180e \<or>
     0x200b \<le> c \<and> c \<le> 0x200f \<or> 0x202a \<le> c \<and> c \<le> 0x202e \<or> 0x2060 \<le> c \<and> c \<le> 0x2063 \<or>
     0x206a \<le> c \<and> c \<le> 0x206f \<or> 0xfe00 \<le> c \<and> c \<le> 0xfe0f \<or> c = 0xfeff \<or> 0xfff9 \<le> c \<and> c \<le> 0xfffc \<or>
     0x1d173 \<le> c \<and> c \<le> 0x1d17a \<or> c = 0xe0001 \<or> 0xe0020 \<le> c \<and> c \<le> 0xe007f"

definition mapped_to_space :: "uchar \<Rightarrow> bool" where
  "mapped_to_space c \<longleftrightarrow>
     0x0009 \<le> c \<and> c \<le> 0x000d \<or> c = 0x0020 \<or> c = 0x0085 \<or> c = 0x00a0 \<or> c = 0x1680 \<or>
     0x2000 \<le> c \<and> c \<le> 0x200a \<or> 0x2028 \<le> c \<and> c \<le> 0x2029 \<or> c = 0x202f \<or> c = 0x205f \<or> c = 0x3000"

definition mapped :: "uchar \<Rightarrow> uchar option" where
  "mapped c = (if mapped_to_nothing c then None else if mapped_to_space c then Some SPACE else Some c)"

definition prohibited :: "unicode \<Rightarrow> uchar \<Rightarrow> bool" where
  "prohibited U c \<longleftrightarrow> un_unassigned U c \<or> un_change_display U c \<or> un_private_use U c \<or>
     un_non_character U c \<or> un_surrogate U c \<or> c = 0xfffd"

text \<open>The iterators \<open>Ascii\<close> and \<open>Folded\<close> are the lists they yield.\<close>

fun ascii_chars :: "bytes \<Rightarrow> uchar list" where
  "ascii_chars [] = []"
| "ascii_chars (b # bs) =
     (if b \<le> 0x08 \<or> 0x0e \<le> b \<and> b \<le> 0x1f \<or> b = 0x7f then ascii_chars bs
      else if 0x09 \<le> b \<and> b \<le> 0x0d then SPACE # ascii_chars bs
      else unat (to_ascii_lowercase b) # ascii_chars bs)"

fun folded :: "unicode \<Rightarrow> uchar list \<Rightarrow> uchar list" where
  "folded U [] = []"
| "folded U (c # cs) =
     (case mapped c of None \<Rightarrow> folded U cs | Some m \<Rightarrow> un_case_fold U m @ folded U cs)"

definition normalized :: "unicode \<Rightarrow> bytes \<Rightarrow> uchar list" where
  "normalized U value =
     (if list_all is_ascii value then ascii_chars value else un_nfkc U (folded U (chars value)))"

datatype unit_item = USpace | UCharacter uchar

fun units :: "unicode \<Rightarrow> uchar list \<Rightarrow> unit_item list" where
  "units U [] = []"
| "units U (c # cs) =
     (let followed_by_mark = (case cs of [] \<Rightarrow> False | n # _ \<Rightarrow> un_is_mark U n) in
      (if c = SPACE \<and> \<not> followed_by_mark then USpace else UCharacter c) # units U cs)"

text \<open>
  \<open>Canonical\<close> buffers up to three characters.  Its queue is the list of characters between the
  position and the fill mark.
\<close>

record canonical =
  ca_units :: "unit_item list"
  ca_queue :: "uchar list"
  ca_started :: bool
  ca_finished :: bool

fun skip_spaces :: "unit_item list \<Rightarrow> unit_item list" where
  "skip_spaces (USpace # us) = skip_spaces us"
| "skip_spaces us = us"

definition fill_start :: "canonical \<Rightarrow> canonical" where
  "fill_start K =
     (case skip_spaces (ca_units K) of
        UCharacter c # us \<Rightarrow> K\<lparr>ca_units := us, ca_queue := [SPACE, c], ca_started := True\<rparr>
      | us \<Rightarrow> K\<lparr>ca_units := us, ca_queue := [SPACE, SPACE], ca_finished := True\<rparr>)"

definition fill_body :: "canonical \<Rightarrow> canonical" where
  "fill_body K =
     (case ca_units K of
        UCharacter c # us \<Rightarrow> K\<lparr>ca_units := us, ca_queue := [c]\<rparr>
      | USpace # us \<Rightarrow>
          (case skip_spaces us of
             UCharacter c # us' \<Rightarrow> K\<lparr>ca_units := us', ca_queue := [SPACE, SPACE, c]\<rparr>
           | us' \<Rightarrow> K\<lparr>ca_units := us', ca_queue := [SPACE], ca_finished := True\<rparr>)
      | [] \<Rightarrow> K\<lparr>ca_queue := [SPACE], ca_finished := True\<rparr>)"

definition canonical_next :: "canonical \<Rightarrow> (uchar \<times> canonical) option" where
  "canonical_next K =
     (if ca_queue K = [] \<and> ca_finished K then None
      else
        let K = (if ca_queue K = [] then (if ca_started K then fill_body K else fill_start K) else K) in
        Some (hd (ca_queue K), K\<lparr>ca_queue := tl (ca_queue K)\<rparr>))"

definition canonical_new :: "unit_item list \<Rightarrow> canonical" where
  "canonical_new us = \<lparr>ca_units = us, ca_queue = [], ca_started = False, ca_finished = False\<rparr>"

lemma length_skip_spaces: "length (skip_spaces us) \<le> length us"
  by (induction us rule: skip_spaces.induct) auto

definition canonical_weight :: "canonical \<Rightarrow> nat" where
  "canonical_weight K = 4 * length (ca_units K) + length (ca_queue K) + (if ca_finished K then 0 else 4)"

lemma skip_spaces_head: "skip_spaces us \<noteq> USpace # us'"
  by (induction us rule: skip_spaces.induct) auto

lemma fill_start_weight: "\<not> ca_finished K \<Longrightarrow> ca_queue K = [] \<Longrightarrow>
    canonical_weight (fill_start K) \<le> canonical_weight K \<and> ca_queue (fill_start K) \<noteq> []"
  using length_skip_spaces [of "ca_units K"]
  by (auto simp: fill_start_def canonical_weight_def split: list.splits unit_item.splits)

lemma fill_body_weight: "\<not> ca_finished K \<Longrightarrow> ca_queue K = [] \<Longrightarrow>
    canonical_weight (fill_body K) \<le> canonical_weight K \<and> ca_queue (fill_body K) \<noteq> []"
  using length_skip_spaces [of "tl (ca_units K)"]
  by (auto simp: fill_body_def canonical_weight_def split: list.splits unit_item.splits)

lemma canonical_next_weight: "canonical_next K = Some (c, K') \<Longrightarrow> canonical_weight K' < canonical_weight K"
  using fill_start_weight [of K] fill_body_weight [of K]
  by (auto simp: canonical_next_def Let_def split: if_splits)
    (auto simp: canonical_weight_def neq_Nil_conv)

function canonical_list :: "canonical \<Rightarrow> uchar list" where
  "canonical_list K = (case canonical_next K of None \<Rightarrow> [] | Some (c, K') \<Rightarrow> c # canonical_list K')"
  by auto
termination
  by (relation "measure canonical_weight") (auto dest: canonical_next_weight)

declare canonical_list.simps [simp del]

definition profile_list :: "unicode \<Rightarrow> bytes \<Rightarrow> uchar list" where
  "profile_list U value = canonical_list (canonical_new (units U (normalized U value)))"

definition profile_is_valid :: "unicode \<Rightarrow> bytes \<Rightarrow> bool" where
  "profile_is_valid U value \<longleftrightarrow>
     (list_all is_ascii value \<or> \<not> list_ex (un_unassigned U) (List.map_filter mapped (chars value))) \<and>
     \<not> list_ex (prohibited U) (normalized U value)"

subsection \<open>Attributes\<close>

definition MAX_ATTRIBUTES_PER_RDN :: nat where "MAX_ATTRIBUTES_PER_RDN = 64"

definition DOMAIN_COMPONENT_OID :: bytes where
  "DOMAIN_COMPONENT_OID = [0x09, 0x92, 0x26, 0x89, 0x93, 0xf2, 0x2c, 0x64, 0x01, 0x19]"

record attribute =
  at_oid :: bytes
  at_value :: tlv

definition cert_der :: "der_error + 'a \<Rightarrow> cert_error + 'a" where
  "cert_der r = map_err CertDer r"

definition attribute_next :: "bytes \<Rightarrow> (cert_error + attribute \<times> bytes) option" where
  "attribute_next reader =
     (if reader = [] then None
      else Some (
        and_then (cert_der (read_tagged TAG_SEQUENCE reader)) (\<lambda>(sequence, reader).
        and_then (cert_der (read_oid sequence)) (\<lambda>(oid, entry).
        and_then (cert_der (read_tlv entry)) (\<lambda>(value, entry).
        and_then (cert_der (der_finish entry)) (\<lambda>_.
        Inr (\<lparr>at_oid = oid, at_value = value\<rparr>, reader)))))))"

definition is_domain_component :: "attribute \<Rightarrow> bool" where
  "is_domain_component a \<longleftrightarrow> oid_is (at_oid a) DOMAIN_COMPONENT_OID \<and>
     tlv_tag (at_value a) = TAG_IA5_STRING \<and> list_all is_ascii (tlv_contents (at_value a))"

definition case_ignore_oid :: "bytes \<Rightarrow> bool" where
  "case_ignore_oid oid =
     (case oid of
        [p, q, a] \<Rightarrow> p = 0x55 \<and> q = 0x04 \<and>
          (3 \<le> a \<and> a \<le> 13 \<or> a = 15 \<or> 17 \<le> a \<and> a \<le> 19 \<or> a = 27 \<or> 41 \<le> a \<and> a \<le> 44 \<or>
           a = 46 \<or> a = 51 \<or> a = 54 \<or> a = 65 \<or> a = 97)
      | _ \<Rightarrow> False)"

definition printable :: "u8 \<Rightarrow> bool" where
  "printable b \<longleftrightarrow> is_ascii_alphanumeric b \<or>
     b \<in> {0x20, 0x27, 0x28, 0x29, 0x2b, 0x2c, 0x2d, 0x2e, 0x2f, 0x3a, 0x3d, 0x3f}"

definition string_value :: "tlv \<Rightarrow> cert_error + bytes option" where
  "string_value value =
     (if tlv_tag value = TAG_UTF8_STRING then
        if utf8_valid (tlv_contents value) then Inr (Some (tlv_contents value)) else Inl CertBadName
      else if tlv_tag value = TAG_PRINTABLE_STRING then
        if list_all printable (tlv_contents value) then
          if utf8_valid (tlv_contents value) then Inr (Some (tlv_contents value)) else Inl CertBadName
        else Inl CertBadName
      else Inr None)"

definition case_ignore_string :: "attribute \<Rightarrow> cert_error + bytes option" where
  "case_ignore_string a = (if case_ignore_oid (at_oid a) then string_value (at_value a) else Inr None)"

definition validate_directory_string :: "unicode \<Rightarrow> bytes \<Rightarrow> cert_error + unit" where
  "validate_directory_string U value = (if profile_is_valid U value then Inr () else Inl CertBadName)"

definition validate_attribute :: "unicode \<Rightarrow> attribute \<Rightarrow> cert_error + unit" where
  "validate_attribute U a =
     and_then (case_ignore_string a) (\<lambda>m. case m of
       Some value \<Rightarrow> validate_directory_string U value
     | None \<Rightarrow> and_then (string_value (at_value a)) (\<lambda>_. Inr ()))"

definition attributes_equal :: "unicode \<Rightarrow> attribute \<Rightarrow> attribute \<Rightarrow> bool" where
  "attributes_equal U l r =
     (if at_oid l \<noteq> at_oid r then False
      else if is_domain_component l \<and> is_domain_component r
      then ascii_case_eq (tlv_contents (at_value l)) (tlv_contents (at_value r))
      else case (case_ignore_string l, case_ignore_string r) of
        (Inr (Some a), Inr (Some b)) \<Rightarrow> profile_list U a = profile_list U b
      | (Inr None, Inr None) \<Rightarrow>
          tlv_tag (at_value l) = tlv_tag (at_value r) \<and> tlv_contents (at_value l) = tlv_contents (at_value r)
      | _ \<Rightarrow> False)"

subsection \<open>Relative names\<close>

lemma cert_der_Inr [simp]: "cert_der r = Inr x \<longleftrightarrow> r = Inr x"
  by (simp add: cert_der_def)

lemma attribute_next_shorter: "attribute_next r = Some (Inr (a, r')) \<Longrightarrow> length r' < length r"
  by (auto simp: attribute_next_def and_then_eq_Inr dest: read_tagged_shorter split: if_splits)

text \<open>
  \<open>Rdn::scan\<close>: the visitor is a closure that may update captured state \<open>'s\<close>.  The result is
  the state and the number of attributes.
\<close>

function scan_loop ::
    "(attribute \<Rightarrow> 's \<Rightarrow> cert_error + 's) \<Rightarrow> bytes \<Rightarrow> nat \<Rightarrow> 's \<Rightarrow> cert_error + 's \<times> nat" where
  "scan_loop visit reader count st =
     (case attribute_next reader of
        None \<Rightarrow> Inr (st, count)
      | Some (Inl e) \<Rightarrow> Inl e
      | Some (Inr (a, reader)) \<Rightarrow>
          and_then (visit a st) (\<lambda>st.
          if count + 1 > 255 then Inl CertTooManyEntries
          else if count + 1 > MAX_ATTRIBUTES_PER_RDN then Inl CertTooManyEntries
          else scan_loop visit reader (count + 1) st))"
  by pat_completeness auto
termination
  by (relation "measure (\<lambda>(_, reader, _, _). length reader)") (auto dest: attribute_next_shorter)

declare scan_loop.simps [simp del]

definition rdn_scan ::
    "(attribute \<Rightarrow> 's \<Rightarrow> cert_error + 's) \<Rightarrow> bytes \<Rightarrow> 's \<Rightarrow> cert_error + 's \<times> nat" where
  "rdn_scan visit der st =
     and_then (scan_loop visit der 0 st) (\<lambda>(st, count).
     if count = 0 then Inl CertBadName else Inr (st, count))"

definition rdn_parse :: "unicode \<Rightarrow> bytes \<Rightarrow> cert_error + nat" where
  "rdn_parse U der =
     and_then (rdn_scan (\<lambda>a _. validate_attribute U a) der ()) (\<lambda>(_, count). Inr count)"

function validate_name :: "unicode \<Rightarrow> bytes \<Rightarrow> cert_error + unit" where
  "validate_name U name =
     (if name = [] then Inr ()
      else and_then (cert_der (read_tagged TAG_SET name)) (\<lambda>(rdn, name).
        and_then (rdn_parse U rdn) (\<lambda>_. validate_name U name)))"
  by pat_completeness auto
termination
  by (relation "measure (\<lambda>(_, name). length name)") (auto dest: read_tagged_shorter)

declare validate_name.simps [simp del]

subsection \<open>The name key\<close>

text \<open>A \<open>digest::Context\<close> is the bytes it has been fed; \<open>finish_hash\<close> digests them.\<close>

definition finish_hash :: "crypto \<Rightarrow> bytes \<Rightarrow> bytes" where
  "finish_hash C fed = ring_digest C Sha256 fed"

definition hash_length :: "nat \<Rightarrow> bytes \<Rightarrow> cert_error + bytes" where
  "hash_length value fed = (if value < 2 ^ 64 then Inr (fed @ be_bytes 8 value) else Inl CertTooManyEntries)"

definition hash_attribute_into :: "unicode \<Rightarrow> attribute \<Rightarrow> bytes \<Rightarrow> cert_error + bytes" where
  "hash_attribute_into U a fed =
     and_then (hash_length (length (at_oid a)) fed) (\<lambda>fed.
     let fed = fed @ at_oid a in
     if is_domain_component a then
       Inr (fed @ [1] @ concat (map (\<lambda>b. [to_ascii_lowercase b]) (tlv_contents (at_value a))))
     else and_then (case_ignore_string a) (\<lambda>m. case m of
       Some value \<Rightarrow>
         and_then (validate_directory_string U value) (\<lambda>_.
         Inr (fed @ [2] @ concat (map (\<lambda>c. be_bytes 4 c) (profile_list U value))))
     | None \<Rightarrow>
         and_then (hash_length (length (tlv_contents (at_value a))) (fed @ [3, tlv_tag (at_value a)])) (\<lambda>fed.
         Inr (fed @ tlv_contents (at_value a)))))"

definition hash_attribute :: "unicode \<Rightarrow> crypto \<Rightarrow> attribute \<Rightarrow> cert_error + bytes" where
  "hash_attribute U C a = and_then (hash_attribute_into U a []) (\<lambda>fed. Inr (finish_hash C fed))"

fun add_carry :: "(u8 \<times> u8) list \<Rightarrow> nat \<Rightarrow> bytes" where
  "add_carry [] carry = []"
| "add_carry ((acc, addend) # ps) carry =
     (let value = unat acc + unat addend + carry in word_of_nat value # add_carry ps (value div 256))"

definition set_hash_insert :: "bytes \<Rightarrow> bytes \<Rightarrow> bytes" where
  "set_hash_insert acc digest = rev (add_carry (zip (rev acc) (rev digest)) 0)"

definition hash_rdn :: "unicode \<Rightarrow> crypto \<Rightarrow> bytes \<Rightarrow> bytes \<Rightarrow> cert_error + bytes" where
  "hash_rdn U C der fed =
     and_then (rdn_scan (\<lambda>a attributes. and_then (hash_attribute U C a) (\<lambda>d. Inr (set_hash_insert attributes d)))
       der (replicate 32 0)) (\<lambda>(attributes, count).
     Inr (fed @ be_bytes 8 count @ attributes))"

function name_key_loop :: "unicode \<Rightarrow> crypto \<Rightarrow> bytes \<Rightarrow> bytes \<Rightarrow> nat \<Rightarrow> cert_error + bytes \<times> nat" where
  "name_key_loop U C name fed rdn_count =
     (if name = [] then Inr (fed, rdn_count)
      else and_then (cert_der (read_tagged TAG_SET name)) (\<lambda>(rdn, name).
        and_then (hash_rdn U C rdn fed) (\<lambda>fed.
        and_then (ok_or CertTooManyEntries (usize_checked_add rdn_count 1)) (\<lambda>rdn_count.
        name_key_loop U C name fed rdn_count))))"
  by pat_completeness auto
termination
  by (relation "measure (\<lambda>(_, _, name, _, _). length name)") (auto dest: read_tagged_shorter)

declare name_key_loop.simps [simp del]

definition name_key_new :: "unicode \<Rightarrow> crypto \<Rightarrow> bytes \<Rightarrow> cert_error + bytes" where
  "name_key_new U C der =
     and_then (name_key_loop U C der [] 0) (\<lambda>(fed, rdn_count).
     and_then (hash_length rdn_count fed) (\<lambda>fed. Inr (finish_hash C fed)))"

definition dn_parse :: "unicode \<Rightarrow> bytes \<Rightarrow> cert_error + bytes" where
  "dn_parse U der = and_then (validate_name U der) (\<lambda>_. Inr der)"

definition dn_prepared :: "unicode \<Rightarrow> crypto \<Rightarrow> bytes \<Rightarrow> cert_error + bytes \<times> bytes" where
  "dn_prepared U C der = and_then (name_key_new U C der) (\<lambda>key. Inr (der, key))"

subsection \<open>Comparison\<close>

text \<open>\<open>None\<close> is the \<open>return false\<close> inside the loops over the attributes.\<close>

function match_right :: "unicode \<Rightarrow> attribute \<Rightarrow> bytes \<Rightarrow> u64 \<Rightarrow> u64 \<Rightarrow> u64 option" where
  "match_right U l reader matched slot =
     (case attribute_next reader of
        None \<Rightarrow> None
      | Some (Inl _) \<Rightarrow> None
      | Some (Inr (r, reader)) \<Rightarrow>
          if matched AND slot = 0 \<and> attributes_equal U l r then Some (matched OR slot)
          else match_right U l reader matched (word_rotl 1 slot))"
  by pat_completeness auto
termination
  by (relation "measure (\<lambda>(_, _, reader, _, _). length reader)") (auto dest: attribute_next_shorter)

declare match_right.simps [simp del]

function match_left :: "unicode \<Rightarrow> bytes \<Rightarrow> bytes \<Rightarrow> u64 \<Rightarrow> bool" where
  "match_left U reader right matched =
     (case attribute_next reader of
        None \<Rightarrow> True
      | Some (Inl _) \<Rightarrow> False
      | Some (Inr (l, reader)) \<Rightarrow>
          (case match_right U l right matched 1 of
             None \<Rightarrow> False | Some matched \<Rightarrow> match_left U reader right matched))"
  by pat_completeness auto
termination
  by (relation "measure (\<lambda>(_, reader, _, _). length reader)") (auto dest: attribute_next_shorter)

declare match_left.simps [simp del]

definition rdns_equal :: "unicode \<Rightarrow> bytes \<Rightarrow> bytes \<Rightarrow> bool" where
  "rdns_equal U l r =
     (case rdn_parse U l of
        Inl _ \<Rightarrow> False
      | Inr lc \<Rightarrow> (case rdn_parse U r of
          Inl _ \<Rightarrow> False
        | Inr rc \<Rightarrow> if lc \<noteq> rc then False else match_left U l r 0))"

function names_equal :: "unicode \<Rightarrow> bytes \<Rightarrow> bytes \<Rightarrow> bool" where
  "names_equal U l r =
     (if l \<noteq> [] \<and> r \<noteq> [] then
        (case (read_tlv l, read_tlv r) of
           (Inr (left_rdn, l'), Inr (right_rdn, r')) \<Rightarrow>
             if tlv_tag left_rdn \<noteq> TAG_SET \<or> tlv_tag right_rdn \<noteq> TAG_SET \<or>
                \<not> rdns_equal U (tlv_contents left_rdn) (tlv_contents right_rdn)
             then False else names_equal U l' r'
         | _ \<Rightarrow> False)
      else l = [] \<and> r = [])"
  by pat_completeness auto
termination
  by (relation "measure (\<lambda>(_, l, _). length l)") (auto simp: read_tlv_def dest: parse_one_shorter [OF sym])

declare names_equal.simps [simp del]

definition dn_equivalent :: "unicode \<Rightarrow> bytes \<Rightarrow> bytes \<Rightarrow> bool" where
  "dn_equivalent U l r \<longleftrightarrow> l = r \<or> names_equal U l r"

subsection \<open>Attribute lists\<close>

function attrs :: "bytes \<Rightarrow> attribute list option" where
  "attrs reader =
     (case attribute_next reader of
        None \<Rightarrow> Some []
      | Some (Inl _) \<Rightarrow> None
      | Some (Inr (a, reader)) \<Rightarrow> map_option (Cons a) (attrs reader))"
  by pat_completeness auto
termination
  by (relation "measure length") (auto dest: attribute_next_shorter)

declare attrs.simps [simp del]

fun visit_all :: "(attribute \<Rightarrow> 's \<Rightarrow> cert_error + 's) \<Rightarrow> attribute list \<Rightarrow> 's \<Rightarrow> cert_error + 's" where
  "visit_all visit [] st = Inr st"
| "visit_all visit (a # as) st = and_then (visit a st) (visit_all visit as)"

lemma scan_loop_InrD:
  "scan_loop visit reader n st = Inr (st', m) \<Longrightarrow>
     \<exists>as. attrs reader = Some as \<and> m = n + length as \<and> visit_all visit as st = Inr st' \<and> (as \<noteq> [] \<longrightarrow> m \<le> 64)"
proof (induction visit reader n st rule: scan_loop.induct)
  case (1 visit reader n st)
  show ?case
  proof (cases "attribute_next reader")
    case None
    then show ?thesis using 1(2) by (subst (asm) scan_loop.simps, subst attrs.simps) simp
  next
    case (Some x)
    show ?thesis
    proof (cases x)
      case (Inl e)
      then show ?thesis using 1(2) Some by (subst (asm) scan_loop.simps) simp
    next
      case (Inr p)
      obtain a r where p: "p = (a, r)" by (cases p)
      obtain st1 where v: "visit a st = Inr st1" and n: "n + 1 \<le> 64"
        and rec: "scan_loop visit r (n + 1) st1 = Inr (st', m)"
        using 1(2) Some Inr p
        by (subst (asm) (2) scan_loop.simps)
          (auto simp: and_then_eq_Inr MAX_ATTRIBUTES_PER_RDN_def split: if_splits)
      have "\<exists>as. attrs r = Some as \<and> m = n + 1 + length as \<and> visit_all visit as st1 = Inr st' \<and> (as \<noteq> [] \<longrightarrow> m \<le> 64)"
        by (rule 1(1) [OF Some Inr p [symmetric] v _ _ rec]) (use n in \<open>simp_all add: MAX_ATTRIBUTES_PER_RDN_def\<close>)
      then show ?thesis using Some Inr p v n by (subst attrs.simps) auto
    qed
  qed
qed

lemma rdn_scan_InrD:
  assumes "rdn_scan visit der st = Inr (st', m)"
  obtains as where "attrs der = Some as" "m = length as" "visit_all visit as st = Inr st'" "m \<le> 64"
  using assms scan_loop_InrD [of visit der 0 st]
  by (fastforce simp: rdn_scan_def and_then_eq_Inr split: if_splits prod.splits)

subsection \<open>The set digest is a sum\<close>

lemma add_carry_value:
  "length xs = length ys \<Longrightarrow>
     be_nat (rev (add_carry (zip xs ys) c)) = (be_nat (rev xs) + be_nat (rev ys) + c) mod 256 ^ length xs
     \<and> length (add_carry (zip xs ys) c) = length xs"
proof (induction xs ys arbitrary: c rule: list_induct2)
  case (Cons x xs y ys)
  let ?v = "unat x + unat y + c"
  let ?A = "be_nat (rev xs) + be_nat (rev ys)"
  have "(?A * 256 + ?v) mod (256 * 256 ^ length xs) =
      256 * ((?A * 256 + ?v) div 256 mod 256 ^ length xs) + (?A * 256 + ?v) mod 256"
    by (rule mod_mult2_eq)
  also have "(?A * 256 + ?v) div 256 = ?A + ?v div 256" by simp
  also have "(?A * 256 + ?v) mod 256 = ?v mod 256" by (simp only: mod_mult_self3)
  finally have "(?A * 256 + ?v) mod (256 * 256 ^ length xs) =
      256 * ((?A + ?v div 256) mod 256 ^ length xs) + ?v mod 256" .
  then show ?case
    using Cons.IH [of "?v div 256"]
    by (simp add: be_nat_append Let_def unat_word_of_nat_u8 algebra_simps del: of_nat_add)
qed simp

lemma set_hash_insert_value:
  assumes "length s = 32" "length d = 32"
  shows "be_nat (set_hash_insert s d) = (be_nat s + be_nat d) mod 256 ^ 32" "length (set_hash_insert s d) = 32"
  using add_carry_value [of "rev s" "rev d" 0] assms by (simp_all add: set_hash_insert_def)

definition attribute_value :: "unicode \<Rightarrow> crypto \<Rightarrow> attribute \<Rightarrow> nat" where
  "attribute_value U C a = (case hash_attribute U C a of Inr d \<Rightarrow> be_nat d | Inl _ \<Rightarrow> 0)"

lemma hash_attributes_value:
  assumes "crypto_ok C" "length s = 32"
    "visit_all (\<lambda>a s. and_then (hash_attribute U C a) (\<lambda>d. Inr (set_hash_insert s d))) as s = Inr s'"
  shows "length s' = 32 \<and> be_nat s' = (be_nat s + sum_list (map (attribute_value U C) as)) mod 256 ^ 32"
    and "\<forall>a\<in>set as. \<exists>d. hash_attribute U C a = Inr d"
proof -
  have "length s' = 32 \<and> be_nat s' = (be_nat s + sum_list (map (attribute_value U C) as)) mod 256 ^ 32 \<and>
    (\<forall>a\<in>set as. \<exists>d. hash_attribute U C a = Inr d)"
    using assms(2,3)
  proof (induction as arbitrary: s)
    case Nil
    then show ?case using be_nat_less [of s] by simp
  next
    case (Cons a as)
    then obtain d where d: "hash_attribute U C a = Inr d" by (auto simp: and_then_eq_Inr)
    then have l: "length d = 32"
      using assms(1) by (auto simp: hash_attribute_def finish_hash_def and_then_eq_Inr SHA256_LEN_def)
    show ?case
      using Cons.IH [of "set_hash_insert s d"] Cons.prems d set_hash_insert_value [OF Cons.prems(1) l]
      by (simp add: attribute_value_def mod_add_left_eq add.assoc)
  qed
  then show "length s' = 32 \<and> be_nat s' = (be_nat s + sum_list (map (attribute_value U C) as)) mod 256 ^ 32"
    and "\<forall>a\<in>set as. \<exists>d. hash_attribute U C a = Inr d" by blast+
qed

lemma attributes_equal_hash:
  assumes "attributes_equal U a b" "hash_attribute U C a = Inr d" "hash_attribute U C b = Inr e"
  shows "d = e"
proof (cases "is_domain_component a \<and> is_domain_component b")
  case True
  then have "lower (tlv_contents (at_value a)) = lower (tlv_contents (at_value b))" "at_oid a = at_oid b"
    using assms(1) by (auto simp: attributes_equal_def ascii_case_eq_lower split: if_splits)
  moreover have "concat (map (\<lambda>b. [to_ascii_lowercase b]) xs) = lower xs" for xs by (induction xs) auto
  ultimately show ?thesis
    using assms(2,3) True
    by (auto simp: hash_attribute_def hash_attribute_into_def and_then_eq_Inr Let_def)
next
  case False
  have o: "at_oid a = at_oid b" using assms(1) by (auto simp: attributes_equal_def split: if_splits)
  from assms(1) False consider
    (str) u v where "case_ignore_string a = Inr (Some u)" "case_ignore_string b = Inr (Some v)"
      "profile_list U u = profile_list U v"
  | (raw) "case_ignore_string a = Inr None" "case_ignore_string b = Inr None" "at_value a = at_value b"
    by (auto simp: attributes_equal_def split: if_splits sum.splits option.splits)
  then show ?thesis
  proof cases
    case str
    have "case_ignore_oid (at_oid a)" using str(1) by (auto simp: case_ignore_string_def split: if_splits)
    then have "\<not> is_domain_component a" "\<not> is_domain_component b"
      using o by (auto simp: is_domain_component_def oid_is_def DOMAIN_COMPONENT_OID_def case_ignore_oid_def)
    then show ?thesis
      using str o assms(2,3)
      by (auto simp: hash_attribute_def hash_attribute_into_def and_then_eq_Inr Let_def)
  next
    case raw
    then have "is_domain_component a = is_domain_component b" by (simp add: is_domain_component_def o)
    then show ?thesis
      using raw o assms(2,3) False
      by (auto simp: hash_attribute_def hash_attribute_into_def and_then_eq_Inr Let_def)
  qed
qed

subsection \<open>The bitmask matching is a bijection\<close>

lemma rotl_exp: "Suc k < 64 \<Longrightarrow> word_rotl 1 (2 ^ k :: u64) = 2 ^ Suc k"
proof (rule bit_eqI)
  fix n
  assume k: "Suc k < 64" and "possible_bit TYPE(u64) n"
  then have n: "n < 64" by simp
  have "bit (word_rotl 1 (2 ^ k :: u64)) n \<longleftrightarrow> n < 64 \<and> bit (2 ^ k :: u64) ((n + (64 - 1 mod 64)) mod 64)"
    by (simp add: bit_word_rotl_iff)
  also have "\<dots> \<longleftrightarrow> (n + 63) mod 64 = k" using n k by (auto simp: bit_exp_iff)
  also have "\<dots> \<longleftrightarrow> n = Suc k"
    using n k by (cases n) (auto simp: mod_if)
  finally show "bit (word_rotl 1 (2 ^ k :: u64)) n = bit (2 ^ Suc k :: u64) n"
    using n k by (auto simp: bit_exp_iff simp del: power_Suc)
qed

lemma match_right_SomeD:
  "match_right U l reader matched slot = Some m' \<Longrightarrow> attrs reader = Some bs \<Longrightarrow> slot = 2 ^ k \<Longrightarrow>
   k + length bs \<le> 64 \<Longrightarrow>
   \<exists>i < length bs. \<not> bit matched (k + i) \<and> attributes_equal U l (bs ! i) \<and> m' = matched OR 2 ^ (k + i)"
proof (induction U l reader matched slot arbitrary: k bs rule: match_right.induct)
  case (1 U l reader matched slot)
  obtain r rest where nx: "attribute_next reader = Some (Inr (r, rest))"
    using 1(2) by (subst (asm) match_right.simps) (auto split: option.splits sum.splits)
  obtain cs where bs: "bs = r # cs" "attrs rest = Some cs"
    using 1(3) nx by (subst (asm) attrs.simps) auto
  show ?case
  proof (cases "matched AND slot = 0 \<and> attributes_equal U l r")
    case True
    then have "m' = matched OR slot" using 1(2) nx by (subst (asm) match_right.simps) auto
    moreover have "\<not> bit matched k" using True 1(4) and_exp_eq_0_iff_not_bit [of matched k] by simp
    ultimately show ?thesis using True bs 1(4) by (intro exI [of _ 0]) auto
  next
    case False
    then have rec: "match_right U l rest matched (word_rotl 1 slot) = Some m'"
      using 1(2) nx by (subst (asm) match_right.simps) auto
    have "cs \<noteq> []"
    proof
      assume "cs = []"
      then have "attribute_next rest = None"
        using bs(2) by (subst (asm) attrs.simps) (auto split: option.splits sum.splits)
      then show False using rec by (subst (asm) match_right.simps) simp
    qed
    then have "Suc k < 64" using 1(5) bs by (cases cs) auto
    then have "word_rotl 1 slot = 2 ^ Suc k" using rotl_exp 1(4) by simp
    then have "\<exists>i < length cs. \<not> bit matched (Suc k + i) \<and> attributes_equal U l (cs ! i) \<and>
        m' = matched OR 2 ^ (Suc k + i)"
      using 1(5) bs by (intro 1(1) [OF nx refl _ False rec bs(2)]) auto
    then obtain i where "i < length cs" "\<not> bit matched (Suc k + i)" "attributes_equal U l (cs ! i)"
        "m' = matched OR 2 ^ (Suc k + i)" by blast
    then show ?thesis using bs by (intro exI [of _ "Suc i"]) simp
  qed
qed

definition marked :: "attribute list \<Rightarrow> u64 \<Rightarrow> nat set" where
  "marked bs matched = {i. i < length bs \<and> bit matched i}"

lemma match_left_bijection:
  "match_left U reader right matched \<Longrightarrow> attrs reader = Some as \<Longrightarrow> attrs right = Some bs \<Longrightarrow> length bs \<le> 64 \<Longrightarrow>
   (\<And>a b. a \<in> set as \<Longrightarrow> b \<in> set bs \<Longrightarrow> attributes_equal U a b \<Longrightarrow> g a = g b) \<Longrightarrow>
   \<exists>F \<subseteq> {..<length bs}. marked bs matched \<subseteq> F \<and> card F = card (marked bs matched) + length as \<and>
     (\<Sum>i\<in>F. g (bs ! i)) = (\<Sum>i\<in>marked bs matched. g (bs ! i)) + (sum_list (map g as) :: nat)"
proof (induction U reader right matched arbitrary: as rule: match_left.induct)
  case (1 U reader right matched)
  show ?case
  proof (cases as)
    case Nil
    then show ?thesis by (intro exI [of _ "marked bs matched"]) (auto simp: marked_def)
  next
    case (Cons a as')
    then obtain rest where nx: "attribute_next reader = Some (Inr (a, rest))" "attrs rest = Some as'"
      using 1(3) by (subst (asm) attrs.simps) (auto split: option.splits sum.splits)
    obtain m' where m': "match_right U a right matched 1 = Some m'" and rec: "match_left U rest right m'"
      using 1(2) nx(1) by (subst (asm) match_left.simps) (auto split: option.splits)
    obtain i where i: "i < length bs" "\<not> bit matched i" "attributes_equal U a (bs ! i)" "m' = matched OR 2 ^ i"
      using match_right_SomeD [OF m' 1(4), of 0] 1(5) by auto
    have ins: "marked bs m' = insert i (marked bs matched)" "i \<notin> marked bs matched" "finite (marked bs matched)"
      using i 1(5) by (auto simp: marked_def bit_or_iff bit_exp_iff)
    have "\<exists>F \<subseteq> {..<length bs}. marked bs m' \<subseteq> F \<and> card F = card (marked bs m') + length as' \<and>
     (\<Sum>i\<in>F. g (bs ! i)) = (\<Sum>i\<in>marked bs m'. g (bs ! i)) + sum_list (map g as')"
      by (rule 1(1) [OF nx(1) refl refl m' rec nx(2) 1(4,5)]) (use 1(6) Cons in auto)
    then obtain F where F: "F \<subseteq> {..<length bs}" "insert i (marked bs matched) \<subseteq> F"
        "card F = card (insert i (marked bs matched)) + length as'"
        "(\<Sum>i\<in>F. g (bs ! i)) = (\<Sum>i\<in>insert i (marked bs matched). g (bs ! i)) + sum_list (map g as')"
      unfolding ins(1) by blast
    have "g a = g (bs ! i)" using 1(6) Cons i by simp
    then show ?thesis
      using F ins(2,3) Cons by (intro exI [of _ F]) simp
  qed
qed

lemma rdns_equal_sum:
  assumes "rdns_equal U l r" "attrs l = Some as" "attrs r = Some bs"
    "\<And>a b. a \<in> set as \<Longrightarrow> b \<in> set bs \<Longrightarrow> attributes_equal U a b \<Longrightarrow> g a = g b"
  shows "length as = length bs \<and> sum_list (map g as) = (sum_list (map g bs) :: nat)"
proof -
  obtain n where n: "rdn_parse U l = Inr n" "rdn_parse U r = Inr n" and ml: "match_left U l r 0"
    using assms(1) by (auto simp: rdns_equal_def split: sum.splits if_splits)
  have len: "length as = n" "length bs = n" "n \<le> 64"
    using n assms(2,3) by (auto simp: rdn_parse_def and_then_eq_Inr elim!: rdn_scan_InrD)
  obtain F where F: "F \<subseteq> {..<length bs}" "card F = length as"
    "(\<Sum>i\<in>F. g (bs ! i)) = sum_list (map g as)"
    using match_left_bijection [OF ml assms(2,3), of g] len assms(4) by (auto simp: marked_def)
  then have "F = {..<length bs}" using len by (intro card_subset_eq) auto
  then show ?thesis using F(3) len by (simp add: sum_list_sum_nth atLeast0LessThan)
qed

lemma hash_rdn_equal:
  assumes "crypto_ok C" "rdns_equal U l r" "hash_rdn U C l fed = Inr fl" "hash_rdn U C r fed = Inr fr"
  shows "fl = fr"
proof -
  let ?visit = "\<lambda>a s. and_then (hash_attribute U C a) (\<lambda>d. Inr (set_hash_insert s d))"
  obtain sl nl where l: "rdn_scan ?visit l (replicate 32 0) = Inr (sl, nl)" "fl = fed @ be_bytes 8 nl @ sl"
    using assms(3) by (auto simp: hash_rdn_def and_then_eq_Inr)
  obtain sr nr where r: "rdn_scan ?visit r (replicate 32 0) = Inr (sr, nr)" "fr = fed @ be_bytes 8 nr @ sr"
    using assms(4) by (auto simp: hash_rdn_def and_then_eq_Inr)
  obtain as where as: "attrs l = Some as" "nl = length as" "visit_all ?visit as (replicate 32 0) = Inr sl"
    using l(1) by (rule rdn_scan_InrD)
  obtain bs where bs: "attrs r = Some bs" "nr = length bs" "visit_all ?visit bs (replicate 32 0) = Inr sr"
    using r(1) by (rule rdn_scan_InrD)
  note va = hash_attributes_value [OF assms(1) _ as(3), simplified]
    and vb = hash_attributes_value [OF assms(1) _ bs(3), simplified]
  have "length as = length bs \<and> sum_list (map (attribute_value U C) as) = sum_list (map (attribute_value U C) bs)"
  proof (rule rdns_equal_sum [OF assms(2) as(1) bs(1)])
    fix a b assume "a \<in> set as" "b \<in> set bs" "attributes_equal U a b"
    moreover from this obtain d e where "hash_attribute U C a = Inr d" "hash_attribute U C b = Inr e"
      using va(2) vb(2) by blast
    ultimately show "attribute_value U C a = attribute_value U C b"
      using attributes_equal_hash [of U a b C d e] by (simp add: attribute_value_def)
  qed
  then have "be_nat sl = be_nat sr" "length as = length bs" using va(1) vb(1) by simp_all
  moreover have "sl = sr"
    using va(1) vb(1) \<open>be_nat sl = be_nat sr\<close> be_bytes_be_nat [of sl] be_bytes_be_nat [of sr] by simp
  ultimately show ?thesis by (simp add: l(2) r(2) as(2) bs(2))
qed

lemma names_equal_Nil: "\<not> (l \<noteq> [] \<and> r \<noteq> []) \<Longrightarrow> names_equal U l r = (l = [] \<and> r = [])"
  by (subst names_equal.simps) (simp only: if_False)

lemma name_key_loop_equal:
  "names_equal U l r \<Longrightarrow> crypto_ok C \<Longrightarrow> name_key_loop U C l fed n = Inr x \<Longrightarrow>
   name_key_loop U C r fed n = Inr y \<Longrightarrow> x = y"
proof (induction U l r arbitrary: fed n rule: names_equal.induct)
  case (1 U l r)
  show ?case
  proof (cases "l \<noteq> [] \<and> r \<noteq> []")
    case False
    have "l = [] \<and> r = []" using 1(2) unfolding names_equal_Nil [OF False] .
    then show ?thesis using 1(4,5) by simp
  next
    case True
    obtain lt l' rt r' where lr: "read_tlv l = Inr (lt, l')" "read_tlv r = Inr (rt, r')"
      and tags: "tlv_tag lt = TAG_SET" "tlv_tag rt = TAG_SET"
      and eq: "rdns_equal U (tlv_contents lt) (tlv_contents rt)" and rest: "names_equal U l' r'"
      using 1(2) True unfolding names_equal.simps [of U l r]
      by (cases "read_tlv l"; cases "read_tlv r") (auto split: if_splits)
    have lt: "read_tagged TAG_SET l = Inr (tlv_contents lt, l')" "read_tagged TAG_SET r = Inr (tlv_contents rt, r')"
      using lr tags by (simp_all add: read_tagged_def)
    obtain fl m where l: "hash_rdn U C (tlv_contents lt) fed = Inr fl" "usize_checked_add n 1 = Some m"
      "name_key_loop U C l' fl m = Inr x"
      using 1(4) True lt unfolding name_key_loop.simps [of U C l]
      by (auto simp: and_then_eq_Inr cert_der_def)
    obtain fr m' where r: "hash_rdn U C (tlv_contents rt) fed = Inr fr" "usize_checked_add n 1 = Some m'"
      "name_key_loop U C r' fr m' = Inr y"
      using 1(5) True lt unfolding name_key_loop.simps [of U C r]
      by (auto simp: and_then_eq_Inr cert_der_def)
    have "fl = fr" by (rule hash_rdn_equal [OF 1(3) eq l(1) r(1)])
    then show ?thesis
      using l r tags eq by (intro 1(1) [OF True refl lr(1) refl lr(2) refl _ rest 1(3) l(3)]) auto
  qed
qed

text \<open>
  The name key is a sound index: whenever the exact comparison calls two names equivalent and both have a
  key, the keys are the same bytes, although the comparison ignores the order of attributes in a set, the
  case and the spacing of strings.  A lookup by key therefore never misses an equivalent name.
\<close>

theorem name_key_sound:
  assumes "crypto_ok C" "dn_equivalent U l r" "name_key_new U C l = Inr kl" "name_key_new U C r = Inr kr"
  shows "kl = kr"
proof (cases "l = r")
  case False
  then have "names_equal U l r" using assms(2) by (simp add: dn_equivalent_def)
  moreover obtain x where x: "name_key_loop U C l [] 0 = Inr x"
    using assms(3) by (auto simp: name_key_new_def and_then_eq_Inr)
  moreover obtain y where y: "name_key_loop U C r [] 0 = Inr y"
    using assms(4) by (auto simp: name_key_new_def and_then_eq_Inr)
  ultimately have "x = y" using name_key_loop_equal [OF _ assms(1)] by simp
  then show ?thesis using assms(3,4) x y by (simp add: name_key_new_def)
qed (use assms in simp)

definition sample_unicode :: unicode where
  "sample_unicode = \<lparr>un_nfkc = id, un_case_fold = (\<lambda>c. [c]), un_is_mark = (\<lambda>_. False), un_unassigned = (\<lambda>_. False),
     un_change_display = (\<lambda>_. False), un_private_use = (\<lambda>_. False), un_non_character = (\<lambda>_. False),
     un_surrogate = (\<lambda>_. False)\<rparr>"

text \<open>The common name \<open>A\<close> as a PrintableString and \<open>a\<close> as a UTF8String.\<close>

definition sample_name :: bytes where
  "sample_name = [0x31, 0x0a, 0x30, 0x08, 0x06, 0x03, 0x55, 0x04, 0x03, 0x13, 0x01, 0x41]"

definition sample_name2 :: bytes where
  "sample_name2 = [0x31, 0x0a, 0x30, 0x08, 0x06, 0x03, 0x55, 0x04, 0x03, 0x0c, 0x01, 0x61]"

subsection \<open>Canonical strings\<close>

text \<open>The words of a string, between runs of spaces, and the canonical spacing of RFC 4518.\<close>

fun words :: "unit_item list \<Rightarrow> uchar list list" where
  "words [] = []"
| "words (USpace # us) = words us"
| "words [UCharacter c] = [[c]]"
| "words (UCharacter c # USpace # us) = [c] # words us"
| "words (UCharacter c # UCharacter d # us) =
     (case words (UCharacter d # us) of w # ws \<Rightarrow> (c # w) # ws | [] \<Rightarrow> [[c]])"

fun spaced :: "uchar list list \<Rightarrow> uchar list" where
  "spaced [] = []"
| "spaced [w] = w"
| "spaced (w # ws) = w @ [SPACE, SPACE] @ spaced ws"

definition canonical_spacing :: "unit_item list \<Rightarrow> uchar list" where
  "canonical_spacing us = (if words us = [] then [SPACE, SPACE] else [SPACE] @ spaced (words us) @ [SPACE])"

lemma canonical_list_queue:
  "canonical_list (K\<lparr>ca_queue := q\<rparr>) = q @ canonical_list (K\<lparr>ca_queue := []\<rparr>)"
proof (induction q)
  case (Cons c q)
  have "canonical_next (K\<lparr>ca_queue := c # q\<rparr>) = Some (c, K\<lparr>ca_queue := q\<rparr>)"
    by (simp add: canonical_next_def)
  then have "canonical_list (K\<lparr>ca_queue := c # q\<rparr>) = c # canonical_list (K\<lparr>ca_queue := q\<rparr>)"
    by (subst canonical_list.simps) simp
  with Cons.IH show ?case by simp
qed simp

lemma canonical_list_finished [simp]: "ca_finished K \<Longrightarrow> ca_queue K = [] \<Longrightarrow> canonical_list K = []"
  by (subst canonical_list.simps) (simp add: canonical_next_def)

lemma canonical_list_fill:
  assumes "\<not> ca_finished K" "ca_queue K = []"
  shows "canonical_list K = canonical_list (if ca_started K then fill_body K else fill_start K)"
proof -
  let ?K = "if ca_started K then fill_body K else fill_start K"
  have "ca_queue ?K \<noteq> []" using fill_body_weight [OF assms] fill_start_weight [OF assms] by simp
  then have "canonical_next ?K = canonical_next K" using assms by (auto simp: canonical_next_def Let_def)
  then show ?thesis by (subst (1 2) canonical_list.simps) simp
qed

abbreviation body_state :: "unit_item list \<Rightarrow> canonical" where
  "body_state us \<equiv> \<lparr>ca_units = us, ca_queue = [], ca_started = True, ca_finished = False\<rparr>"

lemma drain: "canonical_list \<lparr>ca_units = us, ca_queue = q, ca_started = b, ca_finished = f\<rparr> =
    q @ canonical_list \<lparr>ca_units = us, ca_queue = [], ca_started = b, ca_finished = f\<rparr>"
  using canonical_list_queue [of q "\<lparr>ca_units = us, ca_queue = [], ca_started = b, ca_finished = f\<rparr>"]
  by simp

lemma words_skip_spaces: "words (skip_spaces us) = words us"
  by (induction us rule: skip_spaces.induct) auto

lemma words_char: "\<exists>w ws. words (UCharacter c # us) = w # ws"
  by (cases us; cases "hd us") (auto split: list.splits)

lemma skip_spaces_cases:
  obtains "skip_spaces us = []" | c us' where "skip_spaces us = UCharacter c # us'" "length us' < length us"
proof (cases "skip_spaces us")
  case (Cons u us')
  then show thesis using that skip_spaces_head [of us] length_skip_spaces [of us] by (cases u) auto
qed (use that in blast)

lemma canonical_body: "spaced (words (UCharacter c # us)) @ [SPACE] = c # canonical_list (body_state us)"
proof (induction "length us" arbitrary: c us rule: less_induct)
  case less
  show ?case
  proof (cases us)
    case Nil
    then show ?thesis
      by (subst canonical_list_fill) (simp_all add: fill_body_def drain [of _ "[SPACE]"])
  next
    case (Cons u us1)
    show ?thesis
    proof (cases u)
      case (UCharacter d)
      obtain w ws where w: "words (UCharacter d # us1) = w # ws" using words_char by blast
      have "spaced ((c # w) # ws) = c # spaced (w # ws)" by (cases ws) auto
      moreover have "canonical_list (body_state us) = d # canonical_list (body_state us1)"
        using Cons UCharacter by (subst canonical_list_fill) (simp_all add: fill_body_def drain [of _ "[d]"])
      ultimately show ?thesis using less [of us1 d] Cons UCharacter w by simp
    next
      case USpace
      show ?thesis
      proof (cases rule: skip_spaces_cases [of us1])
        case 1
        then have "words us1 = []" using words_skip_spaces [of us1] by simp
        then show ?thesis using Cons USpace 1
          by (subst canonical_list_fill) (simp_all add: fill_body_def drain [of _ "[SPACE]"])
      next
        case (2 d us2)
        then have w: "words us1 = words (UCharacter d # us2)" using words_skip_spaces [of us1] by simp
        obtain v vs where v: "words (UCharacter d # us2) = v # vs" using words_char by blast
        have "canonical_list (body_state us) = SPACE # SPACE # d # canonical_list (body_state us2)"
          using Cons USpace 2
          by (subst canonical_list_fill) (simp_all add: fill_body_def drain [of _ "[SPACE, SPACE, d]"])
        then show ?thesis using less [of us2 d] Cons USpace 2 w v by simp
      qed
    qed
  qed
qed

lemma canonical_list_new: "canonical_list (canonical_new us) = canonical_spacing us"
proof (cases rule: skip_spaces_cases [of us])
  case 1
  then have "words us = []" using words_skip_spaces [of us] by simp
  then show ?thesis using 1
    by (subst canonical_list_fill)
      (simp_all add: canonical_new_def fill_start_def canonical_spacing_def drain [of _ "[SPACE, SPACE]"])
next
  case (2 c us')
  then have w: "words us = words (UCharacter c # us')" using words_skip_spaces [of us] by simp
  obtain v vs where v: "words (UCharacter c # us') = v # vs" using words_char by blast
  show ?thesis using 2 w v canonical_body [of c us']
    by (subst canonical_list_fill)
      (simp_all add: canonical_new_def fill_start_def canonical_spacing_def drain [of _ "[SPACE, c]"])
qed

text \<open>
  The buffered iterator that canonicalises attribute values ends and yields the canonical spacing: one space before
  and after, two spaces between words however many separated them, and two spaces for a string without words.
\<close>

theorem profile_canonical_spacing:
  "profile_list U value = canonical_spacing (units U (normalized U value))"
  by (simp add: profile_list_def canonical_list_new)

subsection \<open>A sample comparison\<close>

lemmas der_eval = read_tagged_def read_oid_def read_tlv_def parse_one_def parse_length_def oid_from_bytes_def
  der_finish_def tag_defs cert_der_def

lemma sample_profile: "profile_list sample_unicode [0x41] = [SPACE, 0x61, SPACE]"
    "profile_list sample_unicode [0x61] = [SPACE, 0x61, SPACE]"
  by (simp_all add: profile_list_def canonical_list_new normalized_def is_ascii_def to_ascii_lowercase_def
      is_ascii_upper_def canonical_spacing_def SPACE_def)

abbreviation cn_attribute :: "u8 \<Rightarrow> u8 \<Rightarrow> attribute" where
  "cn_attribute t c \<equiv> \<lparr>at_oid = [0x55, 0x04, 0x03], at_value = \<lparr>tlv_tag = t, tlv_contents = [c]\<rparr>\<rparr>"

lemma attribute_next_Nil [simp]: "attribute_next [] = None"
  by (simp add: attribute_next_def)

lemma scan_one:
  assumes "attribute_next r = Some (Inr (a, []))"
  shows "rdn_scan visit r st = and_then (visit a st) (\<lambda>st. Inr (st, 1))"
    and "attrs r = Some [a]"
    and "match_right U l r m b = (if m AND b = 0 \<and> attributes_equal U l a then Some (m OR b) else None)"
    and "match_left U r q m = (match_right U a q m 1 \<noteq> None)"
proof -
  show "rdn_scan visit r st = and_then (visit a st) (\<lambda>st. Inr (st, 1))"
    using assms by (cases "visit a st")
      (simp_all add: rdn_scan_def scan_loop.simps [of visit r] scan_loop.simps [of visit "[]"] MAX_ATTRIBUTES_PER_RDN_def)
  show "attrs r = Some [a]" using assms by (simp add: attrs.simps [of r] attrs.simps [of "[]"])
  show "match_right U l r m b = (if m AND b = 0 \<and> attributes_equal U l a then Some (m OR b) else None)"
    using assms by (simp add: match_right.simps [of U l r] match_right.simps [of U l "[]"])
  show "match_left U r q m = (match_right U a q m 1 \<noteq> None)"
    using assms by (auto simp: match_left.simps [of U r] match_left.simps [of U "[]"] split: option.splits)
qed

lemma sample_values:
  "case_ignore_string (cn_attribute 0x13 0x41) = Inr (Some [0x41])"
  "case_ignore_string (cn_attribute 0x0c 0x61) = Inr (Some [0x61])"
  "profile_is_valid sample_unicode [0x41]" "profile_is_valid sample_unicode [0x61]"
  by (simp_all add: case_ignore_string_def case_ignore_oid_def string_value_def tag_defs printable_def
      is_ascii_alphanumeric_def is_ascii_upper_def is_ascii_digit_def profile_is_valid_def is_ascii_def
      normalized_def prohibited_def sample_unicode_def to_ascii_lowercase_def)

lemma sample_not_dc: "\<not> is_domain_component (cn_attribute t c)"
  by (simp add: is_domain_component_def oid_is_def DOMAIN_COMPONENT_OID_def)

lemma sample_read:
  "read_tagged TAG_SET sample_name = Inr ([0x30, 0x08, 0x06, 0x03, 0x55, 0x04, 0x03, 0x13, 0x01, 0x41], [])"
  "read_tagged TAG_SET sample_name2 = Inr ([0x30, 0x08, 0x06, 0x03, 0x55, 0x04, 0x03, 0x0c, 0x01, 0x61], [])"
  "read_tlv sample_name = Inr (\<lparr>tlv_tag = 0x31,
     tlv_contents = [0x30, 0x08, 0x06, 0x03, 0x55, 0x04, 0x03, 0x13, 0x01, 0x41]\<rparr>, [])"
  "read_tlv sample_name2 = Inr (\<lparr>tlv_tag = 0x31,
     tlv_contents = [0x30, 0x08, 0x06, 0x03, 0x55, 0x04, 0x03, 0x0c, 0x01, 0x61]\<rparr>, [])"
  "sample_name \<noteq> []" "sample_name2 \<noteq> []"
  by (simp_all add: sample_name_def sample_name2_def der_eval)

lemma sample_next:
  "attribute_next [0x30, 0x08, 0x06, 0x03, 0x55, 0x04, 0x03, 0x13, 0x01, 0x41] = Some (Inr (cn_attribute 0x13 0x41, []))"
  "attribute_next [0x30, 0x08, 0x06, 0x03, 0x55, 0x04, 0x03, 0x0c, 0x01, 0x61] = Some (Inr (cn_attribute 0x0c 0x61, []))"
  by (simp_all add: attribute_next_def der_eval)

lemma sample_equivalent: "dn_equivalent sample_unicode sample_name sample_name2"
proof -
  have "attributes_equal sample_unicode (cn_attribute 0x13 0x41) (cn_attribute 0x0c 0x61)"
    by (simp add: attributes_equal_def sample_values sample_profile sample_not_dc)
  then have "rdns_equal sample_unicode [0x30, 0x08, 0x06, 0x03, 0x55, 0x04, 0x03, 0x13, 0x01, 0x41]
      [0x30, 0x08, 0x06, 0x03, 0x55, 0x04, 0x03, 0x0c, 0x01, 0x61]"
    by (simp add: rdns_equal_def rdn_parse_def scan_one [OF sample_next(1)] scan_one [OF sample_next(2)]
        validate_attribute_def sample_values validate_directory_string_def)
  then show ?thesis
    by (simp add: dn_equivalent_def names_equal.simps [of _ sample_name] names_equal_Nil sample_read TAG_SET_def)
qed

lemma sample_keys:
  "\<exists>k. name_key_new sample_unicode crypto_toy sample_name = Inr k"
  "\<exists>k. name_key_new sample_unicode crypto_toy sample_name2 = Inr k"
  by (simp_all add: name_key_new_def name_key_loop.simps [of _ _ sample_name] name_key_loop.simps [of _ _ sample_name2]
      name_key_loop.simps [of _ _ "[]"] sample_read cert_der_def hash_rdn_def scan_one [OF sample_next(1)]
      scan_one [OF sample_next(2)] hash_attribute_def hash_attribute_into_def hash_length_def sample_not_dc
      sample_values validate_directory_string_def usize_checked_add_def usize_max_def Let_def)

theorem name_key_sound_witness:
  "sample_name \<noteq> sample_name2 \<and> (\<exists>k. name_key_new sample_unicode crypto_toy sample_name = Inr k
     \<and> name_key_new sample_unicode crypto_toy sample_name2 = Inr k)"
  using name_key_sound [OF crypto_toy_ok sample_equivalent] sample_keys
  by (auto simp: sample_name_def sample_name2_def)

end
