(* ===== verification/Certificate.thy ===== *)
theory Certificate
  imports DistinguishedName
begin

section \<open>Certificates\<close>

text \<open>
  \<open>identity/cert/algorithm.rs\<close> and \<open>identity/cert/mod.rs\<close>: algorithm identifiers and the
  pairing of signature and key algorithms, subject public keys, the certificate body and the
  signature check.  The signature verification of \<open>ring\<close> is the function in \<open>ring_verify\<close>.
\<close>

subsection \<open>Object identifiers\<close>

definition OID_SHA1 :: bytes where "OID_SHA1 = [0x2b, 0x0e, 0x03, 0x02, 0x1a]"
definition OID_SHA256 :: bytes where "OID_SHA256 = [0x60, 0x86, 0x48, 0x01, 0x65, 0x03, 0x04, 0x02, 0x01]"
definition OID_SHA384 :: bytes where "OID_SHA384 = [0x60, 0x86, 0x48, 0x01, 0x65, 0x03, 0x04, 0x02, 0x02]"
definition OID_SHA512 :: bytes where "OID_SHA512 = [0x60, 0x86, 0x48, 0x01, 0x65, 0x03, 0x04, 0x02, 0x03]"
definition OID_MGF1 :: bytes where "OID_MGF1 = [0x2a, 0x86, 0x48, 0x86, 0xf7, 0x0d, 0x01, 0x01, 0x08]"
definition DER_NULL :: bytes where "DER_NULL = [0x05, 0x00]"
definition OID_SHA256_WITH_RSA :: bytes where
  "OID_SHA256_WITH_RSA = [0x2a, 0x86, 0x48, 0x86, 0xf7, 0x0d, 0x01, 0x01, 0x0b]"
definition OID_SHA384_WITH_RSA :: bytes where
  "OID_SHA384_WITH_RSA = [0x2a, 0x86, 0x48, 0x86, 0xf7, 0x0d, 0x01, 0x01, 0x0c]"
definition OID_SHA512_WITH_RSA :: bytes where
  "OID_SHA512_WITH_RSA = [0x2a, 0x86, 0x48, 0x86, 0xf7, 0x0d, 0x01, 0x01, 0x0d]"
definition OID_ECDSA_SHA256 :: bytes where
  "OID_ECDSA_SHA256 = [0x2a, 0x86, 0x48, 0xce, 0x3d, 0x04, 0x03, 0x02]"
definition OID_ECDSA_SHA384 :: bytes where
  "OID_ECDSA_SHA384 = [0x2a, 0x86, 0x48, 0xce, 0x3d, 0x04, 0x03, 0x03]"
definition OID_ED25519 :: bytes where "OID_ED25519 = [0x2b, 0x65, 0x70]"
definition OID_RSA_PSS :: bytes where
  "OID_RSA_PSS = [0x2a, 0x86, 0x48, 0x86, 0xf7, 0x0d, 0x01, 0x01, 0x0a]"
definition OID_RSA_ENCRYPTION :: bytes where
  "OID_RSA_ENCRYPTION = [0x2a, 0x86, 0x48, 0x86, 0xf7, 0x0d, 0x01, 0x01, 0x01]"
definition OID_EC_PUBLIC_KEY :: bytes where
  "OID_EC_PUBLIC_KEY = [0x2a, 0x86, 0x48, 0xce, 0x3d, 0x02, 0x01]"
definition OID_P256_CURVE :: bytes where
  "OID_P256_CURVE = [0x2a, 0x86, 0x48, 0xce, 0x3d, 0x03, 0x01, 0x07]"
definition OID_P384_CURVE :: bytes where "OID_P384_CURVE = [0x2b, 0x81, 0x04, 0x00, 0x22]"

subsection \<open>Algorithms\<close>

datatype cert_hash_alg = HSha1 | HSha256 | HSha384 | HSha512

datatype mask = Mgf1 "cert_hash_alg option" | MaskUnsupported

record pss_parameters =
  pss_hash :: "cert_hash_alg option"
  pss_mask :: mask
  pss_salt_length :: u64

datatype signature_alg =
    SigRsaPkcs1Sha256 | SigRsaPkcs1Sha384 | SigRsaPkcs1Sha512 | SigRsaPss pss_parameters
  | SigEcdsaSha256 | SigEcdsaSha384 | SigEd25519 | SigUnsupported

datatype named_curve = P256 | P384 | CurveUnsupported

datatype public_key_alg =
    PkRsa | PkRsaPss "pss_parameters option" | PkEc named_curve | PkEd25519 | PkUnsupported

datatype verification_profile =
    VpRsaPkcs1Sha256 | VpRsaPkcs1Sha384 | VpRsaPkcs1Sha512 | VpRsaPssSha256 | VpRsaPssSha384
  | VpRsaPssSha512 | VpEcdsaP256Sha256 | VpEcdsaP384Sha384 | VpEd25519

datatype pss_profile = PssSha256 | PssSha384 | PssSha512

record raw_identifier =
  ri_oid :: bytes
  ri_parameters :: bytes

definition raw_identifier_parse :: "bytes \<Rightarrow> cert_error + raw_identifier \<times> bytes" where
  "raw_identifier_parse reader =
     and_then (cert_der (read_tagged TAG_SEQUENCE reader)) (\<lambda>(contents, reader).
     and_then (cert_der (read_oid contents)) (\<lambda>(oid, parameters).
     and_then (if parameters \<noteq> [] then
         and_then (cert_der (parse_one parameters)) (\<lambda>(_, trailing).
         if trailing \<noteq> [] then Inl CertBadAlgorithm else Inr ())
       else Inr ()) (\<lambda>_.
     Inr (\<lparr>ri_oid = oid, ri_parameters = parameters\<rparr>, reader))))"

definition raw_identifier_parse_exact :: "bytes \<Rightarrow> cert_error + raw_identifier" where
  "raw_identifier_parse_exact der =
     and_then (raw_identifier_parse der) (\<lambda>(algorithm, reader).
     and_then (cert_der (der_finish reader)) (\<lambda>_. Inr algorithm))"

definition require_absent :: "bytes \<Rightarrow> cert_error + unit" where
  "require_absent parameters = (if parameters = [] then Inr () else Inl CertBadAlgorithm)"

definition require_absent_or_null :: "bytes \<Rightarrow> cert_error + unit" where
  "require_absent_or_null parameters =
     (if parameters = [] \<or> parameters = DER_NULL then Inr () else Inl CertBadAlgorithm)"

definition parse_hash :: "raw_identifier \<Rightarrow> cert_error + cert_hash_alg option" where
  "parse_hash raw =
     (case (if ri_oid raw = OID_SHA1 then Some HSha1
            else if ri_oid raw = OID_SHA256 then Some HSha256
            else if ri_oid raw = OID_SHA384 then Some HSha384
            else if ri_oid raw = OID_SHA512 then Some HSha512 else None) of
        None \<Rightarrow> Inr None
      | Some h \<Rightarrow> and_then (require_absent_or_null (ri_parameters raw)) (\<lambda>_. Inr (Some h)))"

definition parse_explicit_hash :: "bytes \<Rightarrow> cert_error + cert_hash_alg option" where
  "parse_explicit_hash explicit =
     and_then (raw_identifier_parse explicit) (\<lambda>(raw, reader).
     and_then (cert_der (der_finish reader)) (\<lambda>_. parse_hash raw))"

definition parse_explicit_mask :: "bytes \<Rightarrow> cert_error + mask" where
  "parse_explicit_mask explicit =
     and_then (raw_identifier_parse explicit) (\<lambda>(raw, reader).
     and_then (cert_der (der_finish reader)) (\<lambda>_.
     if \<not> oid_is (ri_oid raw) OID_MGF1 then Inr MaskUnsupported
     else if ri_parameters raw = [] then Inl CertBadAlgorithm
     else and_then (raw_identifier_parse_exact (ri_parameters raw)) (\<lambda>inner.
       and_then (parse_hash inner) (\<lambda>h. Inr (Mgf1 h)))))"

definition parse_explicit_integer :: "bytes \<Rightarrow> cert_error + u64" where
  "parse_explicit_integer explicit =
     and_then (cert_der (read_uint explicit)) (\<lambda>(u, reader).
     and_then (cert_der (uint_to_u64 u)) (\<lambda>value.
     and_then (cert_der (der_finish reader)) (\<lambda>_. Inr value)))"

definition pss_profile_of :: "pss_parameters \<Rightarrow> pss_profile option" where
  "pss_profile_of p =
     (case (pss_hash p, pss_mask p) of
        (Some h, Mgf1 (Some mask_hash)) \<Rightarrow>
          if h \<noteq> mask_hash then None
          else if h = HSha256 \<and> pss_salt_length p = 32 then Some PssSha256
          else if h = HSha384 \<and> pss_salt_length p = 48 then Some PssSha384
          else if h = HSha512 \<and> pss_salt_length p = 64 then Some PssSha512
          else None
      | _ \<Rightarrow> None)"

definition pss_permits :: "pss_parameters \<Rightarrow> pss_parameters \<Rightarrow> bool" where
  "pss_permits key signature \<longleftrightarrow> pss_hash key = pss_hash signature \<and> pss_mask key = pss_mask signature \<and>
     pss_salt_length signature \<ge> pss_salt_length key"

definition pss_parse :: "bytes \<Rightarrow> cert_error + pss_parameters" where
  "pss_parse der =
     and_then (cert_der (read_tagged TAG_SEQUENCE der)) (\<lambda>(contents, outer).
     and_then (cert_der (der_finish outer)) (\<lambda>_.
     and_then (cert_der (read_optional (tag_context 0 True) contents)) (\<lambda>(o0, fields).
     and_then (case o0 of
         Some explicit \<Rightarrow> and_then (parse_explicit_hash explicit) (\<lambda>h.
           if h = Some HSha1 then Inl CertBadAlgorithm else Inr h)
       | None \<Rightarrow> Inr (Some HSha1)) (\<lambda>h.
     and_then (cert_der (read_optional (tag_context 1 True) fields)) (\<lambda>(o1, fields).
     and_then (case o1 of
         Some explicit \<Rightarrow> and_then (parse_explicit_mask explicit) (\<lambda>m.
           if m = Mgf1 (Some HSha1) then Inl CertBadAlgorithm else Inr m)
       | None \<Rightarrow> Inr (Mgf1 (Some HSha1))) (\<lambda>m.
     and_then (cert_der (read_optional (tag_context 2 True) fields)) (\<lambda>(o2, fields).
     and_then (case o2 of
         Some explicit \<Rightarrow> and_then (parse_explicit_integer explicit) (\<lambda>salt_length.
           if salt_length = 20 then Inl CertBadAlgorithm else Inr salt_length)
       | None \<Rightarrow> Inr 20) (\<lambda>salt_length.
     and_then (cert_der (read_optional (tag_context 3 True) fields)) (\<lambda>(o3, fields).
     and_then (case o3 of
         Some explicit \<Rightarrow> and_then (parse_explicit_integer explicit) (\<lambda>_. Inl CertBadAlgorithm)
       | None \<Rightarrow> Inr ()) (\<lambda>_.
     and_then (cert_der (der_finish fields)) (\<lambda>_.
     Inr \<lparr>pss_hash = h, pss_mask = m, pss_salt_length = salt_length\<rparr>)))))))))))"

definition signature_alg_parse :: "raw_identifier \<Rightarrow> cert_error + signature_alg" where
  "signature_alg_parse raw =
     (let oid = ri_oid raw; parameters = ri_parameters raw in
      if oid = OID_SHA256_WITH_RSA then and_then (require_absent_or_null parameters) (\<lambda>_. Inr SigRsaPkcs1Sha256)
      else if oid = OID_SHA384_WITH_RSA then and_then (require_absent_or_null parameters) (\<lambda>_. Inr SigRsaPkcs1Sha384)
      else if oid = OID_SHA512_WITH_RSA then and_then (require_absent_or_null parameters) (\<lambda>_. Inr SigRsaPkcs1Sha512)
      else if oid = OID_RSA_PSS then
        (if parameters = [] then Inl CertBadAlgorithm
         else and_then (pss_parse parameters) (\<lambda>p. Inr (SigRsaPss p)))
      else if oid = OID_ECDSA_SHA256 then and_then (require_absent parameters) (\<lambda>_. Inr SigEcdsaSha256)
      else if oid = OID_ECDSA_SHA384 then and_then (require_absent parameters) (\<lambda>_. Inr SigEcdsaSha384)
      else if oid = OID_ED25519 then and_then (require_absent parameters) (\<lambda>_. Inr SigEd25519)
      else Inr SigUnsupported)"

definition public_key_parse :: "raw_identifier \<Rightarrow> cert_error + public_key_alg" where
  "public_key_parse raw =
     (let oid = ri_oid raw; parameters = ri_parameters raw in
      if oid = OID_RSA_ENCRYPTION then (if parameters \<noteq> DER_NULL then Inl CertBadAlgorithm else Inr PkRsa)
      else if oid = OID_RSA_PSS then
        and_then (if parameters = [] then Inr None else and_then (pss_parse parameters) (\<lambda>p. Inr (Some p))) (\<lambda>p.
        Inr (PkRsaPss p))
      else if oid = OID_EC_PUBLIC_KEY then
        (if parameters = [] then Inl CertBadAlgorithm
         else and_then (cert_der (read_oid parameters)) (\<lambda>(curve_oid, reader).
           let curve = (if curve_oid = OID_P256_CURVE then P256
                        else if curve_oid = OID_P384_CURVE then P384 else CurveUnsupported) in
           and_then (cert_der (der_finish reader)) (\<lambda>_. Inr (PkEc curve))))
      else if oid = OID_ED25519 then and_then (require_absent parameters) (\<lambda>_. Inr PkEd25519)
      else Inr PkUnsupported)"

definition pss_verification_profile :: "pss_parameters \<Rightarrow> verify_error + verification_profile" where
  "pss_verification_profile p =
     (case pss_profile_of p of
        Some PssSha256 \<Rightarrow> Inr VpRsaPssSha256
      | Some PssSha384 \<Rightarrow> Inr VpRsaPssSha384
      | Some PssSha512 \<Rightarrow> Inr VpRsaPssSha512
      | None \<Rightarrow> Inl UnsupportedAlgorithm)"

fun verification_profile_of :: "signature_alg \<Rightarrow> public_key_alg \<Rightarrow> verify_error + verification_profile" where
  "verification_profile_of SigRsaPkcs1Sha256 PkRsa = Inr VpRsaPkcs1Sha256"
| "verification_profile_of SigRsaPkcs1Sha384 PkRsa = Inr VpRsaPkcs1Sha384"
| "verification_profile_of SigRsaPkcs1Sha512 PkRsa = Inr VpRsaPkcs1Sha512"
| "verification_profile_of (SigRsaPss parameters) PkRsa = pss_verification_profile parameters"
| "verification_profile_of (SigRsaPss parameters) (PkRsaPss constraints) =
     and_then (pss_verification_profile parameters) (\<lambda>profile.
     if (case constraints of None \<Rightarrow> False | Some c \<Rightarrow> \<not> pss_permits c parameters)
     then Inl VerifyAlgorithmMismatch else Inr profile)"
| "verification_profile_of SigEcdsaSha256 (PkEc P256) = Inr VpEcdsaP256Sha256"
| "verification_profile_of SigEcdsaSha384 (PkEc P384) = Inr VpEcdsaP384Sha384"
| "verification_profile_of SigEcdsaSha256 (PkEc c) = Inl UnsupportedCurve"
| "verification_profile_of SigEcdsaSha384 (PkEc c) = Inl UnsupportedCurve"
| "verification_profile_of SigEd25519 PkEd25519 = Inr VpEd25519"
| "verification_profile_of SigUnsupported key = Inl UnsupportedAlgorithm"
| "verification_profile_of s PkUnsupported = Inl UnsupportedAlgorithm"
| "verification_profile_of s k = Inl VerifyAlgorithmMismatch"

subsection \<open>Certificate contents\<close>

record subject_public_key_info =
  spki_algorithm :: public_key_alg
  spki_key :: bytes
  spki_raw_der :: bytes

definition spki_fields :: "bytes \<Rightarrow> bytes \<Rightarrow> cert_error + subject_public_key_info" where
  "spki_fields raw_der inner =
     and_then (raw_identifier_parse inner) (\<lambda>(raw, sr).
     and_then (public_key_parse raw) (\<lambda>algorithm.
     and_then (cert_der (read_bit_string sr)) (\<lambda>(bits, sr).
     and_then (cert_der (bit_string_octets bits)) (\<lambda>key.
     and_then (cert_der (der_finish sr)) (\<lambda>_.
     Inr \<lparr>spki_algorithm = algorithm, spki_key = key, spki_raw_der = raw_der\<rparr>)))))"

definition spki_parse_standalone :: "bytes \<Rightarrow> cert_error + subject_public_key_info" where
  "spki_parse_standalone spki_der =
     and_then (cert_der (read_tagged TAG_SEQUENCE spki_der)) (\<lambda>(inner, r).
     and_then (cert_der (der_finish r)) (\<lambda>_. spki_fields spki_der inner))"

text \<open>The length of the TLV is computed from pointers in the code, from the lengths here.\<close>

definition peek_full_tlv :: "bytes \<Rightarrow> cert_error + bytes" where
  "peek_full_tlv r =
     and_then (cert_der (parse_one r)) (\<lambda>(tlv, rest). Inr (take (length r - length rest) r))"

definition spki_parse_inline :: "bytes \<Rightarrow> cert_error + subject_public_key_info \<times> bytes" where
  "spki_parse_inline r =
     and_then (peek_full_tlv r) (\<lambda>raw_der.
     and_then (cert_der (read_tagged TAG_SEQUENCE r)) (\<lambda>(inner, r).
     and_then (spki_fields raw_der inner) (\<lambda>spki. Inr (spki, r))))"

record validity =
  va_not_before :: unix_time
  va_not_after :: unix_time

definition validity_parse :: "bytes \<Rightarrow> cert_error + validity" where
  "validity_parse inner =
     and_then (cert_der (read_tlv inner)) (\<lambda>(nb, r).
     and_then (cert_der (read_tlv r)) (\<lambda>(na, r).
     and_then (cert_der (der_finish r)) (\<lambda>_.
     and_then (from_x509 (tlv_tag nb) (tlv_contents nb)) (\<lambda>not_before.
     and_then (from_x509 (tlv_tag na) (tlv_contents na)) (\<lambda>not_after.
     if not_before > not_after then Inl CertBadValidity
     else Inr \<lparr>va_not_before = not_before, va_not_after = not_after\<rparr>)))))"

record cert_names =
  cn_issuer :: bytes
  cn_subject :: bytes
  cn_issuer_key :: bytes

record tbs =
  tbs_version :: nat
  tbs_serial :: bytes
  tbs_signature_alg :: signature_alg
  tbs_names :: cert_names
  tbs_validity :: validity
  tbs_spki :: subject_public_key_info
  tbs_extensions_der :: "bytes option"

record cert =
  ct_tbs_der :: bytes
  ct_tbs :: tbs
  ct_signature :: bytes

definition parse_version :: "bytes \<Rightarrow> cert_error + nat \<times> bytes" where
  "parse_version r =
     and_then (cert_der (read_optional (tag_context 0 True) r)) (\<lambda>(o0, r).
     case o0 of
       Some ver_inner \<Rightarrow>
         and_then (cert_der (read_uint ver_inner)) (\<lambda>(u, vr).
         and_then (cert_der (uint_to_u64 u)) (\<lambda>v.
         and_then (cert_der (der_finish vr)) (\<lambda>_.
         if v > 2 then Inl CertBadVersion else if v = 0 then Inl CertBadVersion else Inr (unat v + 1, r))))
     | None \<Rightarrow> Inr (1, r))"

definition parse_extensions_field :: "bytes \<Rightarrow> cert_error + bytes option \<times> bytes" where
  "parse_extensions_field r =
     and_then (cert_der (read_optional (tag_context 3 True) r)) (\<lambda>(o3, r).
     case o3 of
       Some ext_outer \<Rightarrow>
         and_then (cert_der (read_tagged TAG_SEQUENCE ext_outer)) (\<lambda>(ext_seq, er).
         and_then (cert_der (der_finish er)) (\<lambda>_. Inr (Some ext_seq, r)))
     | None \<Rightarrow> Inr (None, r))"

definition parse_tbs :: "unicode \<Rightarrow> crypto \<Rightarrow> bytes \<Rightarrow> cert_error + tbs \<times> raw_identifier" where
  "parse_tbs U C b =
     and_then (parse_version b) (\<lambda>(version, r).
     and_then (cert_der (read_uint r)) (\<lambda>(serial, r).
     if uint_is_zero serial \<or> length serial > 20 then Inl CertBadSerial
     else
     and_then (raw_identifier_parse r) (\<lambda>(raw_signature_alg, r).
     and_then (signature_alg_parse raw_signature_alg) (\<lambda>signature_alg.
     and_then (cert_der (read_tagged TAG_SEQUENCE r)) (\<lambda>(issuer_der, r).
     and_then (dn_prepared U C issuer_der) (\<lambda>(issuer, issuer_key).
     and_then (cert_der (read_tagged TAG_SEQUENCE r)) (\<lambda>(validity_der, r).
     and_then (validity_parse validity_der) (\<lambda>validity.
     and_then (cert_der (read_tagged TAG_SEQUENCE r)) (\<lambda>(subject_der, r).
     and_then (dn_parse U subject_der) (\<lambda>subject.
     and_then (spki_parse_inline r) (\<lambda>(spki, r).
     and_then (cert_der (read_optional_bit_string (tag_context 1 False) r)) (\<lambda>(o1, r).
     and_then (cert_der (read_optional_bit_string (tag_context 2 False) r)) (\<lambda>(o2, r).
     and_then (parse_extensions_field r) (\<lambda>(extensions_der, r).
     if extensions_der \<noteq> None \<and> version \<noteq> 3 then Inl CertBadVersion
     else if (o1 \<noteq> None \<or> o2 \<noteq> None) \<and> version < 2 then Inl CertBadVersion
     else
     and_then (cert_der (der_finish r)) (\<lambda>_.
     Inr (\<lparr>tbs_version = version, tbs_serial = serial, tbs_signature_alg = signature_alg,
           tbs_names = \<lparr>cn_issuer = issuer, cn_subject = subject, cn_issuer_key = issuer_key\<rparr>,
           tbs_validity = validity, tbs_spki = spki, tbs_extensions_der = extensions_der\<rparr>,
          raw_signature_alg))))))))))))))))"

definition cert_parse :: "unicode \<Rightarrow> crypto \<Rightarrow> bytes \<Rightarrow> cert_error + cert" where
  "cert_parse U C der =
     and_then (cert_der (parse_one der)) (\<lambda>(outer, rest).
     if tlv_tag outer \<noteq> TAG_SEQUENCE then Inl (CertDer DerMismatch)
     else if rest \<noteq> [] then Inl (CertDer DerTrailing)
     else
     and_then (cert_der (read_tlv (tlv_contents outer))) (\<lambda>(tbs_tlv, top).
     if tlv_tag tbs_tlv \<noteq> TAG_SEQUENCE then Inl (CertDer DerMismatch)
     else
     let consumed = length (tlv_contents outer) - length top;
         tbs_der = take consumed (tlv_contents outer) in
     and_then (parse_tbs U C (tlv_contents tbs_tlv)) (\<lambda>(tbs, inner_signature_alg).
     and_then (raw_identifier_parse top) (\<lambda>(outer_signature_alg, top).
     if inner_signature_alg \<noteq> outer_signature_alg then Inl CertBadAlgorithm
     else
     and_then (cert_der (read_bit_string top)) (\<lambda>(bits, top).
     and_then (cert_der (bit_string_octets bits)) (\<lambda>signature.
     and_then (cert_der (der_finish top)) (\<lambda>_.
     Inr \<lparr>ct_tbs_der = tbs_der, ct_tbs = tbs, ct_signature = signature\<rparr>)))))))"

subsection \<open>Signatures on certificates\<close>

text \<open>\<open>UnparsedPublicKey::new(algorithm, key).verify(message, signature).is_ok()\<close>\<close>

type_synonym ring_verify = "verification_profile \<Rightarrow> bytes \<Rightarrow> bytes \<Rightarrow> bytes \<Rightarrow> bool"

record signed =
  sg_tbs_der :: bytes
  sg_algorithm :: signature_alg
  sg_signature :: bytes

definition cert_signed :: "cert \<Rightarrow> signed" where
  "cert_signed c = \<lparr>sg_tbs_der = ct_tbs_der c, sg_algorithm = tbs_signature_alg (ct_tbs c), sg_signature = ct_signature c\<rparr>"

definition verify_signature ::
    "ring_verify \<Rightarrow> signed \<Rightarrow> subject_public_key_info \<Rightarrow> verify_error + unit" where
  "verify_signature RV s issuer_spki =
     and_then (verification_profile_of (sg_algorithm s) (spki_algorithm issuer_spki)) (\<lambda>profile.
     if RV profile (spki_key issuer_spki) (sg_tbs_der s) (sg_signature s) then Inr () else Inl VerifyFailedSig)"

subsection \<open>What a certificate's signature covers\<close>

lemma der_finish_Inr [simp]: "der_finish r = Inr u \<longleftrightarrow> r = []"
  by (simp add: der_finish_def)

lemma read_bit_octets:
  "(\<exists>bits. read_bit_string r = Inr (bits, r') \<and> bit_string_octets bits = Inr s) \<longleftrightarrow>
     tlv_ok \<lparr>tlv_tag = TAG_BIT_STRING, tlv_contents = 0 # s\<rparr> \<and>
     r = der_tlv \<lparr>tlv_tag = TAG_BIT_STRING, tlv_contents = 0 # s\<rparr> @ r'"
proof -
  have key: "bit_string_from_bytes b = Inr bits \<and> bit_string_octets bits = Inr s \<longleftrightarrow> b = 0 # s \<and> bits = 0 # s" for b bits
    by (cases b) (auto simp: bit_string_from_bytes_def bit_string_octets_def bit_string_unused_bits_def
        bit_string_bytes_def split: if_splits)
  have "(\<exists>bits. read_bit_string r = Inr (bits, r') \<and> bit_string_octets bits = Inr s) \<longleftrightarrow>
      (\<exists>b bits. read_tagged TAG_BIT_STRING r = Inr (b, r') \<and>
        (bit_string_from_bytes b = Inr bits \<and> bit_string_octets bits = Inr s))"
    by (auto simp: read_bit_string_def and_then_eq_Inr)
  then show ?thesis unfolding key by (simp add: read_tagged_iff)
qed

text \<open>
  C37. Parsing a certificate succeeds exactly on the DER sequence of a to-be-signed sequence, an algorithm identifier
  equal to the one inside, and a bit string of whole bytes; the bytes the signature is checked over are exactly
  the DER encoding of the sequence whose contents were parsed, so no byte of what was parsed escapes the signature.
\<close>

theorem cert_parse_signed_bytes:
  "cert_parse U C der = Inr c \<longleftrightarrow>
     (\<exists>t rest alg.
        tlv_tag t = TAG_SEQUENCE \<and> tlv_ok t \<and>
        der = der_tlv \<lparr>tlv_tag = TAG_SEQUENCE, tlv_contents = der_tlv t @ rest\<rparr> \<and>
        tlv_ok \<lparr>tlv_tag = TAG_SEQUENCE, tlv_contents = der_tlv t @ rest\<rparr> \<and>
        sg_tbs_der (cert_signed c) = der_tlv t \<and>
        parse_tbs U C (tlv_contents t) = Inr (ct_tbs c, alg) \<and>
        raw_identifier_parse rest =
          Inr (alg, der_tlv \<lparr>tlv_tag = TAG_BIT_STRING, tlv_contents = 0 # sg_signature (cert_signed c)\<rparr>) \<and>
        tlv_ok \<lparr>tlv_tag = TAG_BIT_STRING, tlv_contents = 0 # sg_signature (cert_signed c)\<rparr>)"
    (is "?L \<longleftrightarrow> ?R")
proof
  assume ?L
  then obtain outer t top alg top2 bits where
      o: "parse_one der = Inr (outer, [])" "tlv_tag outer = TAG_SEQUENCE"
      and t: "parse_one (tlv_contents outer) = Inr (t, top)" "tlv_tag t = TAG_SEQUENCE"
      and tb: "parse_tbs U C (tlv_contents t) = Inr (ct_tbs c, alg)"
      and a: "raw_identifier_parse top = Inr (alg, top2)"
      and b: "read_bit_string top2 = Inr (bits, [])" "bit_string_octets bits = Inr (ct_signature c)"
      and d: "ct_tbs_der c = take (length (tlv_contents outer) - length top) (tlv_contents outer)"
    unfolding cert_parse_def read_tlv_def and_then_eq_Inr Let_def
    by (auto simp: and_then_eq_Inr split: if_splits)
  have outer: "outer = \<lparr>tlv_tag = TAG_SEQUENCE, tlv_contents = tlv_contents outer\<rparr>" using o(2) by (cases outer) simp
  have con: "tlv_contents outer = der_tlv t @ top" "tlv_ok t" using t(1) by (simp_all add: parse_one_iff)
  have "der = der_tlv outer" "tlv_ok outer" using o(1) by (simp_all add: parse_one_iff)
  moreover have "tlv_ok \<lparr>tlv_tag = TAG_BIT_STRING, tlv_contents = 0 # ct_signature c\<rparr> \<and>
      top2 = der_tlv \<lparr>tlv_tag = TAG_BIT_STRING, tlv_contents = 0 # ct_signature c\<rparr>"
    using read_bit_octets [of top2 "[]" "ct_signature c"] b by auto
  ultimately show ?R
    using outer con tb a d t(2) by (intro exI [of _ t] exI [of _ top] exI [of _ alg]) (simp add: cert_signed_def)
next
  assume ?R
  then obtain t rest alg where
      t: "tlv_tag t = TAG_SEQUENCE" "tlv_ok t"
      and d: "der = der_tlv \<lparr>tlv_tag = TAG_SEQUENCE, tlv_contents = der_tlv t @ rest\<rparr>"
        "tlv_ok \<lparr>tlv_tag = TAG_SEQUENCE, tlv_contents = der_tlv t @ rest\<rparr>" "ct_tbs_der c = der_tlv t"
      and p: "parse_tbs U C (tlv_contents t) = Inr (ct_tbs c, alg)"
        "raw_identifier_parse rest = Inr (alg, der_tlv \<lparr>tlv_tag = TAG_BIT_STRING, tlv_contents = 0 # ct_signature c\<rparr>)"
      and s: "tlv_ok \<lparr>tlv_tag = TAG_BIT_STRING, tlv_contents = 0 # ct_signature c\<rparr>"
    by (auto simp: cert_signed_def)
  have "parse_one der = Inr (\<lparr>tlv_tag = TAG_SEQUENCE, tlv_contents = der_tlv t @ rest\<rparr>, [])"
    "parse_one (der_tlv t @ rest) = Inr (t, rest)"
    using d t by (simp_all add: parse_one_iff)
  moreover obtain bits where "read_bit_string (der_tlv \<lparr>tlv_tag = TAG_BIT_STRING, tlv_contents = 0 # ct_signature c\<rparr>) =
      Inr (bits, [])" "bit_string_octets bits = Inr (ct_signature c)"
    using read_bit_octets [of _ "[]" "ct_signature c"] s by auto
  ultimately show ?L
    using t d p by (simp add: cert_parse_def read_tlv_def cert_der_def Let_def der_finish_def)
qed

end
