(* ===== verification/Codec.thy ===== *)
theory Codec
  imports Prelude
begin

section \<open>The wire codec: readers, writers and length frames\<close>

text \<open>
  \<open>wire/codec.rs\<close>.  A \<open>Reader\<close> is the slice it still holds; every method returns the value
  and the advanced reader, or a \<open>DecodeError\<close>.  (No caller looks at a reader after one of
  its methods failed, so an error carries no reader.)  The \<open>Encode\<close> trait is the record
  \<open>encode\<close> of its methods, passed explicitly to generic encoders; \<open>LengthFrame\<close> is modelled
  with the \<open>active\<close> flag and the rollback of its \<open>Drop\<close>.  The locale \<open>encoder\<close> states what
  a target of encoding promises, and is interpreted here for \<open>Vec<u8>\<close> and \<open>EncodedSize\<close>
  and in \<open>Storage\<close> for the bounded buffer.
\<close>

datatype decode_error =
    Underflow | InvalidEnum | Trailing | DuplicateExtension | TooManyCertificates
  | HandshakeTooLarge | HandshakeSpansEpoch

datatype encode_error = Overflow | Capacity

type_synonym reader = bytes
type_synonym 'a decoder = "reader \<Rightarrow> decode_error + 'a \<times> reader"

subsection \<open>Reader\<close>

definition reader_take :: "nat \<Rightarrow> bytes decoder" where
  "reader_take n buf = (if n > length buf then Inl Underflow else Inr (take n buf, drop n buf))"

definition reader_take_all :: "reader \<Rightarrow> bytes \<times> reader" where
  "reader_take_all buf = (buf, [])"

definition reader_u8 :: "u8 decoder" where
  "reader_u8 r = and_then (reader_take 1 r) (\<lambda>(b, r). Inr (b ! 0, r))"

definition reader_u16 :: "u16 decoder" where
  "reader_u16 r = and_then (reader_take 2 r) (\<lambda>(b, r). Inr (word_of_nat (be_nat [b ! 0, b ! 1]), r))"

definition reader_u24 :: "u32 decoder" where
  "reader_u24 r =
     and_then (reader_take 3 r) (\<lambda>(b, r). Inr (word_of_nat (be_nat [0, b ! 0, b ! 1, b ! 2]), r))"

definition reader_u32 :: "u32 decoder" where
  "reader_u32 r =
     and_then (reader_take 4 r)
       (\<lambda>(b, r). Inr (word_of_nat (be_nat [b ! 0, b ! 1, b ! 2, b ! 3]), r))"

definition reader_vec_u8 :: "bytes decoder" where
  "reader_vec_u8 r = and_then (reader_u8 r) (\<lambda>(n, r). reader_take (unat n) r)"

definition reader_vec_u16 :: "bytes decoder" where
  "reader_vec_u16 r = and_then (reader_u16 r) (\<lambda>(n, r). reader_take (unat n) r)"

definition reader_vec_u24 :: "bytes decoder" where
  "reader_vec_u24 r = and_then (reader_u24 r) (\<lambda>(n, r). reader_take (unat n) r)"

definition reader_sub_u8 :: "reader decoder" where
  "reader_sub_u8 r = reader_vec_u8 r"

definition reader_sub_u16 :: "reader decoder" where
  "reader_sub_u16 r = reader_vec_u16 r"

definition reader_sub_u24 :: "reader decoder" where
  "reader_sub_u24 r = reader_vec_u24 r"

definition reader_finish :: "reader \<Rightarrow> decode_error + unit" where
  "reader_finish buf = (if buf = [] then Inr () else Inl Trailing)"

text \<open>\<open>FramedVector<MINIMUM, ALIGNMENT>\<close>, its two constants as arguments.\<close>

definition framed_validate :: "nat \<Rightarrow> nat \<Rightarrow> bytes \<Rightarrow> decode_error + bytes" where
  "framed_validate minimum alignment encoded =
     (if alignment = 0 \<or> length encoded < minimum \<or> \<not> alignment dvd length encoded
      then Inl InvalidEnum else Inr encoded)"

definition framed_decode_u8 :: "nat \<Rightarrow> nat \<Rightarrow> bytes decoder" where
  "framed_decode_u8 minimum alignment r =
     and_then (reader_vec_u8 r) (\<lambda>(v, r). and_then (framed_validate minimum alignment v) (\<lambda>v. Inr (v, r)))"

definition framed_decode_u16 :: "nat \<Rightarrow> nat \<Rightarrow> bytes decoder" where
  "framed_decode_u16 minimum alignment r =
     and_then (reader_vec_u16 r) (\<lambda>(v, r). and_then (framed_validate minimum alignment v) (\<lambda>v. Inr (v, r)))"

definition framed_decode_u24 :: "nat \<Rightarrow> nat \<Rightarrow> bytes decoder" where
  "framed_decode_u24 minimum alignment r =
     and_then (reader_vec_u24 r) (\<lambda>(v, r). and_then (framed_validate minimum alignment v) (\<lambda>v. Inr (v, r)))"

subsection \<open>The Encode trait\<close>

record 's encode =
  put_u8 :: "u8 \<Rightarrow> 's \<Rightarrow> 's"
  put_u16 :: "u16 \<Rightarrow> 's \<Rightarrow> 's"
  put_u24 :: "u32 \<Rightarrow> 's \<Rightarrow> 's"
  put_u32 :: "u32 \<Rightarrow> 's \<Rightarrow> 's"
  put_slice :: "bytes \<Rightarrow> 's \<Rightarrow> 's"
  encoded_len :: "'s \<Rightarrow> nat"
  reserve_length_prefix :: "nat \<Rightarrow> 's \<Rightarrow> (encode_error + nat) \<times> 's"
  rollback_to :: "nat \<Rightarrow> 's \<Rightarrow> 's"
  patch_length_prefix :: "nat \<Rightarrow> nat \<Rightarrow> nat \<Rightarrow> 's \<Rightarrow> 's"
  status :: "'s \<Rightarrow> encode_error + unit"

text \<open>An encoding routine: it mutates its target and returns \<open>Result<(), EncodeError>\<close>.\<close>

type_synonym 's writer = "'s \<Rightarrow> (encode_error + unit) \<times> 's"

definition emit :: "('s \<Rightarrow> 's) \<Rightarrow> 's writer" where
  "emit f s = (Inr (), f s)"

definition skip_w :: "'s writer" where
  "skip_w s = (Inr (), s)"

definition then_w :: "'s writer \<Rightarrow> 's writer \<Rightarrow> 's writer" where
  "then_w m k s = (case m s of (Inl e, s') \<Rightarrow> (Inl e, s') | (Inr u, s') \<Rightarrow> k s')"

fun for_each_w :: "('a \<Rightarrow> 's writer) \<Rightarrow> 'a list \<Rightarrow> 's writer" where
  "for_each_w f [] = skip_w"
| "for_each_w f (x # xs) = then_w (f x) (for_each_w f xs)"

fun seq_w :: "'s writer list \<Rightarrow> 's writer" where
  "seq_w [] = skip_w"
| "seq_w (m # ms) = then_w m (seq_w ms)"

record length_frame =
  lf_start :: nat
  lf_body_start :: nat
  lf_width :: nat
  lf_maximum :: nat
  lf_active :: bool

definition frame_begin :: "'s encode \<Rightarrow> nat \<Rightarrow> nat \<Rightarrow> 's \<Rightarrow> (encode_error + length_frame) \<times> 's" where
  "frame_begin E w m s =
     (case status E s of Inl e \<Rightarrow> (Inl e, s)
      | Inr u \<Rightarrow>
          (case reserve_length_prefix E w s of (Inl e, s') \<Rightarrow> (Inl e, s')
           | (Inr st, s') \<Rightarrow>
               (Inr \<lparr>lf_start = st, lf_body_start = encoded_len E s', lf_width = w, lf_maximum = m,
                     lf_active = True\<rparr>, s')))"

definition frame_drop :: "'s encode \<Rightarrow> length_frame \<Rightarrow> 's \<Rightarrow> 's" where
  "frame_drop E f s = (if lf_active f then rollback_to E (lf_start f) s else s)"

definition frame_finish :: "'s encode \<Rightarrow> length_frame \<Rightarrow> 's writer" where
  "frame_finish E f s =
     (case status E s of
        Inl e \<Rightarrow> (Inl e, frame_drop E (f\<lparr>lf_active := False\<rparr>) (rollback_to E (lf_start f) s))
      | Inr u \<Rightarrow>
          (let n = encoded_len E s - lf_body_start f in
           if n > lf_maximum f
           then (Inl Overflow, frame_drop E (f\<lparr>lf_active := False\<rparr>) (rollback_to E (lf_start f) s))
           else (Inr (), frame_drop E (f\<lparr>lf_active := False\<rparr>)
                   (patch_length_prefix E (lf_start f) (lf_width f) n s))))"

text \<open>
  A length-prefixed scope: begin, run the body, finish; when the body returns early with an
  error the frame is dropped while active.
\<close>

definition framed :: "'s encode \<Rightarrow> nat \<Rightarrow> nat \<Rightarrow> 's writer \<Rightarrow> 's writer" where
  "framed E w m body s =
     (case frame_begin E w m s of
        (Inl e, s1) \<Rightarrow> (Inl e, s1)
      | (Inr f, s1) \<Rightarrow>
          (case body s1 of
             (Inl e, s2) \<Rightarrow> (Inl e, frame_drop E f s2)
           | (Inr u, s2) \<Rightarrow> frame_finish E f s2))"

definition framed_u8 :: "'s encode \<Rightarrow> 's writer \<Rightarrow> 's writer" where
  "framed_u8 E = framed E 1 255"

definition framed_u16 :: "'s encode \<Rightarrow> 's writer \<Rightarrow> 's writer" where
  "framed_u16 E = framed E 2 65535"

definition framed_u24 :: "'s encode \<Rightarrow> 's writer \<Rightarrow> 's writer" where
  "framed_u24 E = framed E 3 (2 ^ 24 - 1)"

subsection \<open>Vec<u8> and EncodedSize as targets\<close>

definition vec_encode :: "bytes encode" where
  "vec_encode =
     \<lparr>put_u8 = (\<lambda>v s. s @ [v]),
      put_u16 = (\<lambda>v s. s @ be_bytes 2 (unat v)),
      put_u24 = (\<lambda>v s. s @ drop 1 (be_bytes 4 (unat v))),
      put_u32 = (\<lambda>v s. s @ be_bytes 4 (unat v)),
      put_slice = (\<lambda>b s. s @ b),
      encoded_len = length,
      reserve_length_prefix = (\<lambda>w s. (Inr (length s), s @ replicate w 0)),
      rollback_to = (\<lambda>n s. take n s),
      patch_length_prefix =
        (\<lambda>st w n s. take st s @ drop (4 - w) (be_bytes 4 (n mod 2 ^ 32)) @ drop (st + w) s),
      status = (\<lambda>s. Inr ())\<rparr>"

record encoded_size =
  size_len :: nat
  size_overflowed :: bool

definition encoded_size_default :: encoded_size where
  "encoded_size_default = \<lparr>size_len = 0, size_overflowed = False\<rparr>"

definition encoded_size_finish :: "encoded_size \<Rightarrow> encode_error + nat" where
  "encoded_size_finish s = (if size_overflowed s then Inl Overflow else Inr (size_len s))"

definition encoded_size_extend :: "nat \<Rightarrow> encoded_size \<Rightarrow> encoded_size" where
  "encoded_size_extend n s =
     (case usize_checked_add (size_len s) n of
        Some t \<Rightarrow> s\<lparr>size_len := t\<rparr>
      | None \<Rightarrow> s\<lparr>size_overflowed := True\<rparr>)"

definition size_encode :: "encoded_size encode" where
  "size_encode =
     \<lparr>put_u8 = (\<lambda>v s. encoded_size_extend 1 s),
      put_u16 = (\<lambda>v s. encoded_size_extend 2 s),
      put_u24 = (\<lambda>v s. encoded_size_extend 3 s),
      put_u32 = (\<lambda>v s. encoded_size_extend 4 s),
      put_slice = (\<lambda>b s. encoded_size_extend (length b) s),
      encoded_len = size_len,
      reserve_length_prefix =
        (\<lambda>w s. if size_overflowed s then (Inl Overflow, s)
               else let s' = encoded_size_extend w s in
                    if size_overflowed s' then (Inl Overflow, s'\<lparr>size_len := size_len s\<rparr>)
                    else (Inr (size_len s), s')),
      rollback_to = (\<lambda>n s. s\<lparr>size_len := n\<rparr>),
      patch_length_prefix = (\<lambda>st w n s. s),
      status = (\<lambda>s. if \<not> size_overflowed s then Inr () else Inl Overflow)\<rparr>"

subsection \<open>Reading: inversion and progress\<close>

lemmas reader_defs =
  reader_take_def reader_u8_def reader_u16_def reader_u24_def reader_u32_def
  reader_vec_u8_def reader_vec_u16_def reader_vec_u24_def
  reader_sub_u8_def reader_sub_u16_def reader_sub_u24_def

lemma reader_take_append [simp]: "reader_take (length xs) (xs @ ys) = Inr (xs, ys)"
  by (simp add: reader_take_def)

lemma reader_take_eq_Inr: "reader_take n r = Inr (x, r') \<longleftrightarrow> r = x @ r' \<and> length x = n"
proof
  assume "reader_take n r = Inr (x, r')"
  then show "r = x @ r' \<and> length x = n" by (auto simp: reader_take_def split: if_splits)
next
  assume "r = x @ r' \<and> length x = n"
  then show "reader_take n r = Inr (x, r')" by auto
qed

lemma word_of_be_nat_iff:
  fixes v :: "'a::len word"
  assumes "LENGTH('a) = 8 * k" and "length b = k"
  shows "word_of_nat (be_nat b) = v \<longleftrightarrow> b = be_bytes k (unat v)"
proof -
  have pow: "(2::nat) ^ LENGTH('a) = 256 ^ k"
    by (simp add: assms(1) power_mult)
  have lt: "be_nat b < 2 ^ LENGTH('a)"
    using be_nat_less [of b] by (simp add: pow assms(2))
  show ?thesis
  proof
    assume "word_of_nat (be_nat b) = v"
    then have "unat v = be_nat b"
      using lt by (auto simp: unat_of_nat)
    with assms(2) show "b = be_bytes k (unat v)"
      by (metis be_bytes_be_nat)
  next
    assume "b = be_bytes k (unat v)"
    then have "be_nat b = unat v mod 2 ^ LENGTH('a)" by (simp add: pow)
    then show "word_of_nat (be_nat b) = v" by simp
  qed
qed

lemma be_nat_zero [simp]: "be_nat (0 # b) = be_nat b"
  by simp

lemma be_bytes_4_24:
  assumes "n < 2 ^ 24"
  shows "be_bytes 4 n = 0 # be_bytes 3 n"
proof -
  have "be_bytes (Suc 3) n = word_of_nat (n div 256 ^ 3) # be_bytes 3 n"
    by (rule be_bytes.simps)
  with assms show ?thesis by simp
qed

lemma length2_conv: "length b = 2 \<longleftrightarrow> (\<exists>x y. b = [x, y])"
  by (auto simp: numeral_2_eq_2 length_Suc_conv)

lemma length3_conv: "length b = 3 \<longleftrightarrow> (\<exists>x y z. b = [x, y, z])"
  by (auto simp: numeral_3_eq_3 length_Suc_conv)

lemma length4_conv: "length b = 4 \<longleftrightarrow> (\<exists>w x y z. b = [w, x, y, z])"
  by (auto simp: eval_nat_numeral length_Suc_conv)

lemma reader_u8_eq_Inr: "reader_u8 r = Inr (v, r') \<longleftrightarrow> r = v # r'"
  by (cases r) (auto simp: reader_u8_def reader_take_def)

lemma reader_u16_eq_Inr: "reader_u16 r = Inr (v, r') \<longleftrightarrow> r = be_bytes 2 (unat v) @ r'"
proof -
  have iff: "word_of_nat (be_nat b) = v \<longleftrightarrow> b = be_bytes 2 (unat v)" if "length b = 2" for b
    by (rule word_of_be_nat_iff) (simp_all add: that)
  have "reader_u16 r = Inr (v, r') \<longleftrightarrow>
      (\<exists>b. reader_take 2 r = Inr (b, r') \<and> word_of_nat (be_nat b) = v)"
    by (auto simp: reader_u16_def and_then_eq_Inr reader_take_eq_Inr length2_conv)
  also have "\<dots> \<longleftrightarrow> r = be_bytes 2 (unat v) @ r'"
    using iff by (fastforce simp del: be_nat_be_bytes simp add: reader_take_eq_Inr)
  finally show ?thesis .
qed

lemma reader_u32_eq_Inr: "reader_u32 r = Inr (v, r') \<longleftrightarrow> r = be_bytes 4 (unat v) @ r'"
proof -
  have iff: "word_of_nat (be_nat b) = v \<longleftrightarrow> b = be_bytes 4 (unat v)" if "length b = 4" for b
    by (rule word_of_be_nat_iff) (simp_all add: that)
  have "reader_u32 r = Inr (v, r') \<longleftrightarrow>
      (\<exists>b. reader_take 4 r = Inr (b, r') \<and> word_of_nat (be_nat b) = v)"
    by (auto simp: reader_u32_def and_then_eq_Inr reader_take_eq_Inr length4_conv)
  also have "\<dots> \<longleftrightarrow> r = be_bytes 4 (unat v) @ r'"
    using iff by (fastforce simp del: be_nat_be_bytes simp add: reader_take_eq_Inr)
  finally show ?thesis .
qed

lemma reader_u24_eq_Inr:
  "reader_u24 r = Inr (v, r') \<longleftrightarrow> unat v < 2 ^ 24 \<and> r = be_bytes 3 (unat v) @ r'"
proof -
  have iff: "word_of_nat (be_nat (0 # b)) = v \<longleftrightarrow> unat v < 2 ^ 24 \<and> b = be_bytes 3 (unat v)"
    if "length b = 3" for b
  proof -
    have "word_of_nat (be_nat (0 # b)) = v \<longleftrightarrow> 0 # b = be_bytes 4 (unat v)"
      by (rule word_of_be_nat_iff) (simp_all add: that)
    also have "\<dots> \<longleftrightarrow> unat v < 2 ^ 24 \<and> b = be_bytes 3 (unat v)"
    proof
      assume eq: "0 # b = be_bytes 4 (unat v)"
      have "be_nat (0 # b) < 2 ^ 24" using be_nat_less [of b] that by simp
      moreover have "be_nat (0 # b) = unat v"
        using unsigned_less [where 'a = nat, of v] by (simp only: eq be_nat_be_bytes) simp
      ultimately have lt: "unat v < 2 ^ 24" by simp
      with eq show "unat v < 2 ^ 24 \<and> b = be_bytes 3 (unat v)"
        by (simp only: be_bytes_4_24 list.inject simp_thms)
    next
      assume "unat v < 2 ^ 24 \<and> b = be_bytes 3 (unat v)"
      then show "0 # b = be_bytes 4 (unat v)" by (simp only: be_bytes_4_24)
    qed
    finally show ?thesis .
  qed
  have "reader_u24 r = Inr (v, r') \<longleftrightarrow>
      (\<exists>b. reader_take 3 r = Inr (b, r') \<and> word_of_nat (be_nat (0 # b)) = v)"
    by (auto simp: reader_u24_def and_then_eq_Inr reader_take_eq_Inr length3_conv)
  also have "\<dots> \<longleftrightarrow> unat v < 2 ^ 24 \<and> r = be_bytes 3 (unat v) @ r'"
    using iff by (fastforce simp del: be_nat_be_bytes simp add: reader_take_eq_Inr)
  finally show ?thesis .
qed

lemma be_bytes_1: "be_bytes 1 n = [word_of_nat n]"
  by simp

lemma reader_vec_u8_eq_Inr:
  "reader_vec_u8 r = Inr (x, r') \<longleftrightarrow> length x < 2 ^ 8 \<and> r = be_bytes 1 (length x) @ x @ r'"
proof
  assume "reader_vec_u8 r = Inr (x, r')"
  then obtain n where "r = n # x @ r'" and "length x = unat n"
    by (auto simp: reader_vec_u8_def and_then_eq_Inr reader_u8_eq_Inr reader_take_eq_Inr)
  then show "length x < 2 ^ 8 \<and> r = be_bytes 1 (length x) @ x @ r'" by simp
next
  assume "length x < 2 ^ 8 \<and> r = be_bytes 1 (length x) @ x @ r'"
  then show "reader_vec_u8 r = Inr (x, r')"
    by (simp add: reader_vec_u8_def and_then_eq_Inr reader_u8_eq_Inr reader_take_eq_Inr
        unat_word_of_nat_u8)
qed

lemma reader_vec_u16_eq_Inr:
  "reader_vec_u16 r = Inr (x, r') \<longleftrightarrow> length x < 2 ^ 16 \<and> r = be_bytes 2 (length x) @ x @ r'"
proof
  assume "reader_vec_u16 r = Inr (x, r')"
  then obtain n where "r = be_bytes 2 (unat n) @ x @ r'" and "length x = unat (n :: u16)"
    by (auto simp: reader_vec_u16_def and_then_eq_Inr reader_u16_eq_Inr reader_take_eq_Inr)
  then show "length x < 2 ^ 16 \<and> r = be_bytes 2 (length x) @ x @ r'"
    using unsigned_less [where 'a = nat, of n] by simp
next
  assume x: "length x < 2 ^ 16 \<and> r = be_bytes 2 (length x) @ x @ r'"
  then have "unat (word_of_nat (length x) :: u16) = length x" by (simp add: unat_of_nat)
  moreover from this x have "reader_u16 r = Inr (word_of_nat (length x), x @ r')"
    by (simp add: reader_u16_eq_Inr)
  ultimately show "reader_vec_u16 r = Inr (x, r')"
    by (simp add: reader_vec_u16_def)
qed

lemma reader_vec_u24_eq_Inr:
  "reader_vec_u24 r = Inr (x, r') \<longleftrightarrow> length x < 2 ^ 24 \<and> r = be_bytes 3 (length x) @ x @ r'"
proof
  assume "reader_vec_u24 r = Inr (x, r')"
  then show "length x < 2 ^ 24 \<and> r = be_bytes 3 (length x) @ x @ r'"
    by (auto simp: reader_vec_u24_def and_then_eq_Inr reader_u24_eq_Inr reader_take_eq_Inr)
next
  assume x: "length x < 2 ^ 24 \<and> r = be_bytes 3 (length x) @ x @ r'"
  then have "unat (word_of_nat (length x) :: u32) = length x" by (simp add: unat_of_nat)
  moreover from this x have "reader_u24 r = Inr (word_of_nat (length x), x @ r')"
    by (simp add: reader_u24_eq_Inr)
  ultimately show "reader_vec_u24 r = Inr (x, r')"
    by (simp add: reader_vec_u24_def)
qed

lemma reader_finish_eq_Inr: "reader_finish r = Inr u \<longleftrightarrow> r = []"
  by (simp add: reader_finish_def)

lemma framed_validate_eq_Inr:
  "framed_validate m a v = Inr v' \<longleftrightarrow> v' = v \<and> a \<noteq> 0 \<and> m \<le> length v \<and> a dvd length v"
  by (auto simp: framed_validate_def)

lemma framed_decode_u8_eq_Inr:
  "framed_decode_u8 m a r = Inr (x, r') \<longleftrightarrow>
     a \<noteq> 0 \<and> m \<le> length x \<and> a dvd length x \<and> length x < 2 ^ 8 \<and> r = be_bytes 1 (length x) @ x @ r'"
  by (auto simp: framed_decode_u8_def and_then_eq_Inr reader_vec_u8_eq_Inr framed_validate_eq_Inr
      simp del: be_bytes.simps)

lemma framed_decode_u16_eq_Inr:
  "framed_decode_u16 m a r = Inr (x, r') \<longleftrightarrow>
     a \<noteq> 0 \<and> m \<le> length x \<and> a dvd length x \<and> length x < 2 ^ 16 \<and> r = be_bytes 2 (length x) @ x @ r'"
  by (auto simp: framed_decode_u16_def and_then_eq_Inr reader_vec_u16_eq_Inr framed_validate_eq_Inr)

lemma framed_decode_u24_eq_Inr:
  "framed_decode_u24 m a r = Inr (x, r') \<longleftrightarrow>
     a \<noteq> 0 \<and> m \<le> length x \<and> a dvd length x \<and> length x < 2 ^ 24 \<and> r = be_bytes 3 (length x) @ x @ r'"
  by (auto simp: framed_decode_u24_def and_then_eq_Inr reader_vec_u24_eq_Inr framed_validate_eq_Inr)

lemmas reader_eq_Inr =
  reader_take_eq_Inr reader_u8_eq_Inr reader_u16_eq_Inr reader_u24_eq_Inr reader_u32_eq_Inr
  reader_vec_u8_eq_Inr reader_vec_u16_eq_Inr reader_vec_u24_eq_Inr reader_finish_eq_Inr
  framed_decode_u8_eq_Inr framed_decode_u16_eq_Inr framed_decode_u24_eq_Inr

subsection \<open>What an encoding target promises\<close>

definition emits_on ::
    "('s \<Rightarrow> bool) \<Rightarrow> ('s \<Rightarrow> nat \<Rightarrow> bool) \<Rightarrow> ('s \<Rightarrow> bytes \<Rightarrow> 's) \<Rightarrow> 's writer \<Rightarrow> bytes \<Rightarrow> bool" where
  "emits_on good fits ext m bs \<longleftrightarrow> (\<forall>s. good s \<longrightarrow> fits s (length bs) \<longrightarrow> m s = (Inr (), ext s bs))"

locale encoder =
  fixes E :: "'s encode"
    and good :: "'s \<Rightarrow> bool"
    and fits :: "'s \<Rightarrow> nat \<Rightarrow> bool"
    and ext :: "'s \<Rightarrow> bytes \<Rightarrow> 's"
  assumes put_u8_ext: "good s \<Longrightarrow> fits s 1 \<Longrightarrow> put_u8 E b s = ext s [b]"
    and put_u16_ext: "good s \<Longrightarrow> fits s 2 \<Longrightarrow> put_u16 E h s = ext s (be_bytes 2 (unat h))"
    and put_u24_ext: "good s \<Longrightarrow> fits s 3 \<Longrightarrow> put_u24 E v s = ext s (be_bytes 3 (unat v))"
    and put_u32_ext: "good s \<Longrightarrow> fits s 4 \<Longrightarrow> put_u32 E v s = ext s (be_bytes 4 (unat v))"
    and put_slice_ext: "good s \<Longrightarrow> fits s (length bs) \<Longrightarrow> put_slice E bs s = ext s bs"
    and ext_Nil: "ext s [] = s"
    and ext_ext: "ext (ext s xs) ys = ext s (xs @ ys)"
    and good_ext: "good s \<Longrightarrow> fits s (length bs) \<Longrightarrow> good (ext s bs)"
    and fits_mono: "fits s n \<Longrightarrow> m \<le> n \<Longrightarrow> fits s m"
    and fits_ext: "good s \<Longrightarrow> fits s (length bs + n) \<Longrightarrow> fits (ext s bs) n"
    and status_ok: "good s \<Longrightarrow> status E s = Inr ()"
    and len_ext: "good s \<Longrightarrow> fits s (length bs) \<Longrightarrow> encoded_len E (ext s bs) = encoded_len E s + length bs"
    and reserve_ext: "good s \<Longrightarrow> fits s w \<Longrightarrow>
      reserve_length_prefix E w s = (Inr (encoded_len E s), ext s (replicate w 0))"
    and patch_ext: "good s \<Longrightarrow> length p = w \<Longrightarrow> w \<le> 4 \<Longrightarrow> n < 256 ^ w \<Longrightarrow>
      patch_length_prefix E (encoded_len E s) w n (ext s (p @ bs)) = ext s (be_bytes w n @ bs)"
    and rollback_ext: "good s \<Longrightarrow> rollback_to E (encoded_len E s) (ext s bs) = s"
begin

lemma emitsI:
  "(\<And>s. good s \<Longrightarrow> fits s (length bs) \<Longrightarrow> m s = (Inr (), ext s bs)) \<Longrightarrow> emits_on good fits ext m bs"
  by (simp add: emits_on_def)

lemma emitsD:
  "emits_on good fits ext m bs \<Longrightarrow> good s \<Longrightarrow> fits s (length bs) \<Longrightarrow> m s = (Inr (), ext s bs)"
  by (simp add: emits_on_def)

lemma emits_put:
  "emits_on good fits ext (emit (put_u8 E b)) [b]"
  "emits_on good fits ext (emit (put_u16 E h)) (be_bytes 2 (unat h))"
  "emits_on good fits ext (emit (put_u24 E v)) (be_bytes 3 (unat v))"
  "emits_on good fits ext (emit (put_u32 E v)) (be_bytes 4 (unat v))"
  "emits_on good fits ext (emit (put_slice E bs)) bs"
  by (auto simp: emits_on_def emit_def put_u8_ext put_u16_ext put_u24_ext put_u32_ext
      put_slice_ext simp del: be_bytes.simps)

lemma emits_skip: "emits_on good fits ext skip_w []"
  by (simp add: emits_on_def skip_w_def ext_Nil)

lemma emits_then:
  assumes "emits_on good fits ext m xs" and "emits_on good fits ext k ys"
  shows "emits_on good fits ext (then_w m k) (xs @ ys)"
proof (rule emitsI)
  fix s assume s: "good s" "fits s (length (xs @ ys))"
  then have fits: "fits s (length xs)" by (auto intro: fits_mono)
  have "m s = (Inr (), ext s xs)" using assms(1) s(1) fits by (rule emitsD)
  moreover have "k (ext s xs) = (Inr (), ext (ext s xs) ys)"
    using assms(2) s fits by (intro emitsD good_ext fits_ext) auto
  ultimately show "then_w m k s = (Inr (), ext s (xs @ ys))"
    by (simp add: then_w_def ext_ext)
qed

lemma emits_for_each:
  "(\<And>x. x \<in> set xs \<Longrightarrow> emits_on good fits ext (f x) (g x)) \<Longrightarrow>
     emits_on good fits ext (for_each_w f xs) (concat (map g xs))"
  by (induction xs) (auto intro: emits_skip emits_then)

lemma frame_begin_ext:
  assumes "good s" "fits s w"
  shows "frame_begin E w m s =
    (Inr \<lparr>lf_start = encoded_len E s, lf_body_start = encoded_len E s + w, lf_width = w,
          lf_maximum = m, lf_active = True\<rparr>, ext s (replicate w 0))"
  using assms by (simp add: frame_begin_def status_ok reserve_ext len_ext)

lemma framed_runs_body:
  assumes body: "emits_on good fits ext body bs" and s: "good s" "fits s (w + length bs)"
  shows "framed E w m body s =
    frame_finish E \<lparr>lf_start = encoded_len E s, lf_body_start = encoded_len E s + w, lf_width = w,
        lf_maximum = m, lf_active = True\<rparr> (ext s (replicate w 0 @ bs))"
proof -
  have w: "fits s w" using s(2) by (rule fits_mono) simp
  have "body (ext s (replicate w 0)) = (Inr (), ext (ext s (replicate w 0)) bs)"
    using body s w by (intro emitsD good_ext fits_ext) simp_all
  then show ?thesis
    by (simp add: framed_def frame_begin_ext [OF s(1) w] ext_ext)
qed

lemma emits_framed:
  assumes body: "emits_on good fits ext body bs" and len: "length bs \<le> m"
    and m: "m < 256 ^ w" and w: "w \<le> 4"
  shows "emits_on good fits ext (framed E w m body) (be_bytes w (length bs) @ bs)"
proof (rule emitsI)
  fix s assume s: "good s" "fits s (length (be_bytes w (length bs) @ bs))"
  then have fits: "fits s (w + length bs)" by simp
  then have f: "fits s (length (replicate w 0 @ bs))" by simp
  show "framed E w m body s = (Inr (), ext s (be_bytes w (length bs) @ bs))"
    using len m w
    by (simp add: framed_runs_body [OF body s(1) fits] frame_finish_def frame_drop_def
        status_ok [OF good_ext [OF s(1) f]] len_ext [OF s(1) f] Let_def patch_ext [OF s(1)])
qed

text \<open>A body longer than its prefix can say is refused, and the target is as it was.\<close>

lemma framed_overflow:
  assumes body: "emits_on good fits ext body bs" and len: "m < length bs"
    and s: "good s" "fits s (w + length bs)"
  shows "framed E w m body s = (Inl Overflow, s)"
proof -
  have f: "fits s (length (replicate w 0 @ bs))" using s(2) by simp
  show ?thesis
    using len by (simp add: framed_runs_body [OF body s] frame_finish_def frame_drop_def
        status_ok [OF good_ext [OF s(1) f]] len_ext [OF s(1) f] Let_def rollback_ext [OF s(1)])
qed

lemma emits_framed_u8:
  "emits_on good fits ext body bs \<Longrightarrow> length bs < 2 ^ 8 \<Longrightarrow>
     emits_on good fits ext (framed_u8 E body) (be_bytes 1 (length bs) @ bs)"
  unfolding framed_u8_def by (rule emits_framed) simp_all

lemma emits_framed_u16:
  "emits_on good fits ext body bs \<Longrightarrow> length bs < 2 ^ 16 \<Longrightarrow>
     emits_on good fits ext (framed_u16 E body) (be_bytes 2 (length bs) @ bs)"
  unfolding framed_u16_def by (rule emits_framed) simp_all

lemma emits_framed_u24:
  "emits_on good fits ext body bs \<Longrightarrow> length bs < 2 ^ 24 \<Longrightarrow>
     emits_on good fits ext (framed_u24 E body) (be_bytes 3 (length bs) @ bs)"
  unfolding framed_u24_def by (rule emits_framed) simp_all

lemmas emits_rules =
  emits_put emits_skip emits_then emits_for_each emits_framed_u8 emits_framed_u16 emits_framed_u24

end

subsection \<open>Vec<u8> and EncodedSize are encoders\<close>

lemma drop_be_bytes: "k \<le> j \<Longrightarrow> drop k (be_bytes j n) = be_bytes (j - k) n"
proof (induction k arbitrary: j)
  case (Suc k)
  then show ?case by (cases j) simp_all
qed simp

interpretation vec: encoder vec_encode "\<lambda>_. True" "\<lambda>_ _. True" "(@)"
  by unfold_locales
    (simp_all add: vec_encode_def drop_be_bytes be_bytes_mod [of 4, simplified] del: be_bytes.simps)

interpretation size: encoder size_encode "\<lambda>s. \<not> size_overflowed s"
    "\<lambda>s n. size_len s + n \<le> usize_max" "\<lambda>s bs. s\<lparr>size_len := size_len s + length bs\<rparr>"
  by unfold_locales
    (simp_all add: size_encode_def encoded_size_extend_def usize_checked_add_def add.assoc
      del: be_bytes.simps)

subsection \<open>Encoding never damages what is already written\<close>

definition safe_writer ::
    "('s \<Rightarrow> bool) \<Rightarrow> ('s \<Rightarrow> 'c) \<Rightarrow> ('s \<Rightarrow> bytes) \<Rightarrow> 's writer \<Rightarrow> bool" where
  "safe_writer wfs cfg view m \<longleftrightarrow>
     (\<forall>s. wfs s \<longrightarrow> wfs (snd (m s)) \<and> cfg (snd (m s)) = cfg s \<and>
            length (view s) \<le> length (view (snd (m s))) \<and>
            take (length (view s)) (view (snd (m s))) = view s)"

locale safe_encoder =
  fixes E :: "'s encode"
    and wfs :: "'s \<Rightarrow> bool"
    and cfg :: "'s \<Rightarrow> 'c"
    and view :: "'s \<Rightarrow> bytes"
  assumes safe_put_u8: "safe_writer wfs cfg view (emit (put_u8 E b))"
    and safe_put_u16: "safe_writer wfs cfg view (emit (put_u16 E h))"
    and safe_put_u24: "safe_writer wfs cfg view (emit (put_u24 E v))"
    and safe_put_u32: "safe_writer wfs cfg view (emit (put_u32 E v))"
    and safe_put_slice: "safe_writer wfs cfg view (emit (put_slice E bs))"
    and encoded_len_view: "wfs s \<Longrightarrow> encoded_len E s = length (view s)"
    and reserve_Inr: "wfs s \<Longrightarrow> reserve_length_prefix E w s = (Inr st, s') \<Longrightarrow>
      wfs s' \<and> cfg s' = cfg s \<and> st = length (view s) \<and> view s' = view s @ replicate w 0"
    and reserve_Inl: "wfs s \<Longrightarrow> reserve_length_prefix E w s = (Inl e, s') \<Longrightarrow>
      wfs s' \<and> cfg s' = cfg s \<and> view s' = view s"
    and rollback_view: "wfs s \<Longrightarrow> n \<le> length (view s) \<Longrightarrow>
      wfs (rollback_to E n s) \<and> cfg (rollback_to E n s) = cfg s \<and>
      view (rollback_to E n s) = take n (view s)"
    and patch_view: "wfs s \<Longrightarrow> w \<le> 4 \<Longrightarrow> st + w \<le> length (view s) \<Longrightarrow>
      wfs (patch_length_prefix E st w n s) \<and> cfg (patch_length_prefix E st w n s) = cfg s \<and>
      length (view (patch_length_prefix E st w n s)) = length (view s) \<and>
      take st (view (patch_length_prefix E st w n s)) = take st (view s)"
begin

lemma safe_skip: "safe_writer wfs cfg view skip_w"
  by (simp add: safe_writer_def skip_w_def)

lemma safe_then:
  assumes m: "safe_writer wfs cfg view m" and k: "safe_writer wfs cfg view k"
  shows "safe_writer wfs cfg view (then_w m k)"
  unfolding safe_writer_def
proof (intro allI impI)
  fix s assume s: "wfs s"
  obtain r s1 where ms: "m s = (r, s1)" by (cases "m s")
  have 1: "wfs s1" "cfg s1 = cfg s" "length (view s) \<le> length (view s1)"
    "take (length (view s)) (view s1) = view s"
    using m s ms by (auto simp: safe_writer_def)
  have 2: "wfs (snd (k s1))" "cfg (snd (k s1)) = cfg s1"
    "length (view s1) \<le> length (view (snd (k s1)))"
    "take (length (view s1)) (view (snd (k s1))) = view s1"
    using k 1(1) by (auto simp: safe_writer_def)
  have 3: "take (length (view s)) (view (snd (k s1))) = view s"
    by (metis 1(3,4) 2(4) min.absorb1 take_take)
  show "wfs (snd (then_w m k s)) \<and> cfg (snd (then_w m k s)) = cfg s \<and>
      length (view s) \<le> length (view (snd (then_w m k s))) \<and>
      take (length (view s)) (view (snd (then_w m k s))) = view s"
    using 1 2 3 by (cases r) (auto simp: then_w_def ms)
qed

lemma safe_for_each:
  "(\<And>x. x \<in> set xs \<Longrightarrow> safe_writer wfs cfg view (f x)) \<Longrightarrow> safe_writer wfs cfg view (for_each_w f xs)"
  by (induction xs) (auto intro: safe_skip safe_then)

text \<open>After a frame the target is well formed; when the frame failed it shows what it showed before.\<close>

lemma framed_outcome:
  assumes body: "safe_writer wfs cfg view body" and w: "w \<le> 4" and s: "wfs s"
    and run: "framed E w m body s = (r, s')"
  shows "wfs s' \<and> cfg s' = cfg s \<and> length (view s) \<le> length (view s') \<and>
    take (length (view s)) (view s') = view s \<and> (\<forall>e. r = Inl e \<longrightarrow> view s' = view s)"
proof (cases "status E s")
  case (Inl e)
  with run s show ?thesis by (auto simp: framed_def frame_begin_def)
next
  case st: (Inr u)
  show ?thesis
  proof (cases "reserve_length_prefix E w s")
    case (Pair a s1)
    show ?thesis
    proof (cases a)
      case (Inl e)
      with run s st Pair reserve_Inl [of s w e s1] show ?thesis
        by (auto simp: framed_def frame_begin_def)
    next
      case (Inr n)
      have 1: "wfs s1" "cfg s1 = cfg s" "n = length (view s)" "view s1 = view s @ replicate w 0"
        using reserve_Inr [OF s, of w n s1] Pair Inr by auto
      define s2 where "s2 = snd (body s1)"
      have 2: "wfs s2" "cfg s2 = cfg s1" "length (view s1) \<le> length (view s2)"
        "take (length (view s1)) (view s2) = view s1"
        using body 1(1) by (auto simp: safe_writer_def s2_def)
      have n: "n \<le> length (view s2)" "take n (view s2) = view s" "n + w \<le> length (view s2)"
      proof -
        show "n \<le> length (view s2)" "n + w \<le> length (view s2)" using 1 2(3) by auto
        have "take n (view s2) = take n (take (length (view s1)) (view s2))"
          using 1(3,4) by (simp only: take_take) (simp add: min_def)
        also have "\<dots> = take n (view s1)" by (simp only: 2(4))
        also have "\<dots> = view s" using 1(3,4) by simp
        finally show "take n (view s2) = view s" .
      qed
      have undo: "wfs (rollback_to E n s2)" "cfg (rollback_to E n s2) = cfg s"
        "view (rollback_to E n s2) = view s"
        using rollback_view [OF 2(1) n(1)] 1(2) 2(2) n(2) by auto
      have patch: "wfs (patch_length_prefix E n w l s2)" "cfg (patch_length_prefix E n w l s2) = cfg s"
        "length (view (patch_length_prefix E n w l s2)) = length (view s2)"
        "take n (view (patch_length_prefix E n w l s2)) = view s" for l
        using patch_view [OF 2(1) w n(3), of l] 1(2) 2(2) n(2) by auto
      show ?thesis
        using run st Pair Inr undo patch n 1(3)
        by (auto simp: framed_def frame_begin_def frame_finish_def frame_drop_def Let_def s2_def
            split: prod.splits sum.splits if_splits)
    qed
  qed
qed

lemma safe_framed:
  "safe_writer wfs cfg view body \<Longrightarrow> w \<le> 4 \<Longrightarrow> safe_writer wfs cfg view (framed E w m body)"
  unfolding safe_writer_def [of wfs cfg view "framed E w m body"]
  using framed_outcome by (metis prod.collapse)

lemma safe_framed_u8: "safe_writer wfs cfg view body \<Longrightarrow> safe_writer wfs cfg view (framed_u8 E body)"
  unfolding framed_u8_def by (rule safe_framed) simp_all

lemma safe_framed_u16: "safe_writer wfs cfg view body \<Longrightarrow> safe_writer wfs cfg view (framed_u16 E body)"
  unfolding framed_u16_def by (rule safe_framed) simp_all

lemma safe_framed_u24: "safe_writer wfs cfg view body \<Longrightarrow> safe_writer wfs cfg view (framed_u24 E body)"
  unfolding framed_u24_def by (rule safe_framed) simp_all

lemmas safe_rules =
  safe_put_u8 safe_put_u16 safe_put_u24 safe_put_u32 safe_put_slice safe_skip safe_then
  safe_for_each safe_framed_u8 safe_framed_u16 safe_framed_u24

end

interpretation vec_safe: safe_encoder vec_encode "\<lambda>_. True" "\<lambda>_. ()" "\<lambda>s. s"
  by unfold_locales (auto simp: vec_encode_def safe_writer_def emit_def)

end
