(* ===== verification/Storage.thy ===== *)
theory Storage
  imports Codec
begin

section \<open>Bounded handshake storage and outbound flights\<close>

text \<open>
  \<open>wire/handshake/storage.rs\<close>, with \<open>OutboundFlight\<close> of \<open>connection.rs\<close>.  A
  \<open>BoundedBuffer\<close> owns a vector of which only the part after \<open>base\<close> is its own; a
  \<open>Flight\<close> swaps the vector of the event sink into the buffer for the time of one encoding
  and its \<open>Drop\<close> swaps it back, rolling an uncommitted encoding back.  Besides the contract
  \<open>encoder\<close> the buffer is shown to satisfy \<open>safe_encoder\<close>: whatever is encoded, and whether
  or not it fits, the buffer stays within its limit and earlier bytes survive.
\<close>

record bounded_buffer =
  bb_bytes :: bytes
  bb_base :: nat
  bb_limit :: nat
  bb_overflowed :: bool

definition bb_with_capacity :: "nat \<Rightarrow> bounded_buffer" where
  "bb_with_capacity limit =
     \<lparr>bb_bytes = [], bb_base = 0, bb_limit = limit, bb_overflowed = False\<rparr>"

definition bb_default :: bounded_buffer where
  "bb_default = bb_with_capacity 0"

definition bb_clear :: "bounded_buffer \<Rightarrow> bounded_buffer" where
  "bb_clear b = b\<lparr>bb_bytes := take (bb_base b) (bb_bytes b), bb_overflowed := False\<rparr>"

definition bb_len :: "bounded_buffer \<Rightarrow> nat" where
  "bb_len b = length (bb_bytes b) - bb_base b"

definition bb_is_empty :: "bounded_buffer \<Rightarrow> bool" where
  "bb_is_empty b \<longleftrightarrow> bb_len b = 0"

definition bb_capacity :: "bounded_buffer \<Rightarrow> nat" where
  "bb_capacity b = bb_limit b"

definition bb_as_slice :: "bounded_buffer \<Rightarrow> bytes" where
  "bb_as_slice b = drop (bb_base b) (bb_bytes b)"

definition bb_try_extend :: "bytes \<Rightarrow> bounded_buffer \<Rightarrow> (encode_error + unit) \<times> bounded_buffer" where
  "bb_try_extend bs b =
     (if length bs > bb_limit b - bb_len b then (Inl Capacity, b)
      else (Inr (), b\<lparr>bb_bytes := bb_bytes b @ bs\<rparr>))"

definition bb_reserve_encoded :: "nat \<Rightarrow> bounded_buffer \<Rightarrow> bool \<times> bounded_buffer" where
  "bb_reserve_encoded n b =
     (if bb_overflowed b \<or> n > bb_limit b - bb_len b
      then (False, b\<lparr>bb_overflowed := True\<rparr>) else (True, b))"

definition bb_put_slice :: "bytes \<Rightarrow> bounded_buffer \<Rightarrow> bounded_buffer" where
  "bb_put_slice bs b =
     (case bb_reserve_encoded (length bs) b of
        (True, b') \<Rightarrow> b'\<lparr>bb_bytes := bb_bytes b' @ bs\<rparr>
      | (False, b') \<Rightarrow> b')"

definition bb_put_u8 :: "u8 \<Rightarrow> bounded_buffer \<Rightarrow> bounded_buffer" where
  "bb_put_u8 v b =
     (case bb_reserve_encoded 1 b of
        (True, b') \<Rightarrow> b'\<lparr>bb_bytes := bb_bytes b' @ [v]\<rparr>
      | (False, b') \<Rightarrow> b')"

definition bb_reserve_length_prefix :: "nat \<Rightarrow> bounded_buffer \<Rightarrow> (encode_error + nat) \<times> bounded_buffer" where
  "bb_reserve_length_prefix w b =
     (if bb_overflowed b then (Inl Capacity, b)
      else (case bb_reserve_encoded w b of
              (False, b') \<Rightarrow> (Inl Capacity, b')
            | (True, b') \<Rightarrow>
                (Inr (bb_len b'), b'\<lparr>bb_bytes := bb_bytes b' @ replicate w 0\<rparr>)))"

definition bb_rollback_to :: "nat \<Rightarrow> bounded_buffer \<Rightarrow> bounded_buffer" where
  "bb_rollback_to n b = b\<lparr>bb_bytes := take (bb_base b + n) (bb_bytes b)\<rparr>"

definition bb_patch_length_prefix :: "nat \<Rightarrow> nat \<Rightarrow> nat \<Rightarrow> bounded_buffer \<Rightarrow> bounded_buffer" where
  "bb_patch_length_prefix st w n b =
     (let encoded = be_bytes 4 (n mod 2 ^ 32); st = bb_base b + st in
      b\<lparr>bb_bytes := take st (bb_bytes b) @ drop (4 - w) encoded @ drop (st + w) (bb_bytes b)\<rparr>)"

definition bb_status :: "bounded_buffer \<Rightarrow> encode_error + unit" where
  "bb_status b = (if \<not> bb_overflowed b then Inr () else Inl Capacity)"

definition bb_encode :: "bounded_buffer encode" where
  "bb_encode =
     \<lparr>put_u8 = bb_put_u8,
      put_u16 = (\<lambda>v. bb_put_slice (be_bytes 2 (unat v))),
      put_u24 = (\<lambda>v. bb_put_slice (drop 1 (be_bytes 4 (unat v)))),
      put_u32 = (\<lambda>v. bb_put_slice (be_bytes 4 (unat v))),
      put_slice = bb_put_slice,
      encoded_len = bb_len,
      reserve_length_prefix = bb_reserve_length_prefix,
      rollback_to = bb_rollback_to,
      patch_length_prefix = bb_patch_length_prefix,
      status = bb_status\<rparr>"

text \<open>
  \<open>Reserve::reserve_slice\<close> lends a zeroed slice of the buffer; the caller's writing through
  it is the function \<open>fill\<close>, which returns the bytes the slice holds afterwards.
\<close>

definition bb_reserve_slice ::
    "nat \<Rightarrow> (bytes \<Rightarrow> bytes) \<Rightarrow> bounded_buffer \<Rightarrow> (encode_error + unit) \<times> bounded_buffer" where
  "bb_reserve_slice n fill b =
     (case bb_reserve_encoded n b of
        (False, b') \<Rightarrow> (Inl Capacity, b')
      | (True, b') \<Rightarrow> (Inr (), b'\<lparr>bb_bytes := bb_bytes b' @ fill (replicate n 0)\<rparr>))"

subsection \<open>Flights\<close>

record outbound_flight =
  ob_bytes :: bytes
  ob_base :: nat
  ob_maximum :: nat

record saved =
  sv_base :: nat
  sv_limit :: nat
  sv_overflowed :: bool
  sv_outbound_base :: nat

record flight =
  fl_buffer :: bounded_buffer
  fl_outbound :: "outbound_flight option"
  fl_saved :: "saved option"
  fl_committed :: bool

text \<open>\<open>OutboundFlight::from_reserved\<close>: the vector's spare capacity must cover the maximum.\<close>

definition outbound_from_reserved :: "bytes \<Rightarrow> nat \<Rightarrow> nat \<Rightarrow> outbound_flight option" where
  "outbound_from_reserved bs capacity m =
     (if capacity - length bs \<ge> m
      then Some \<lparr>ob_bytes = bs, ob_base = length bs, ob_maximum = m\<rparr> else None)"

text \<open>
  \<open>OutboundFlight::try_append\<close> asks the allocator for the room instead; \<open>allocated\<close> says whether
  \<open>try_reserve_exact\<close> succeeded, \<open>None\<close> is its error.
\<close>

definition outbound_try_append :: "bool \<Rightarrow> bytes \<Rightarrow> nat \<Rightarrow> outbound_flight option" where
  "outbound_try_append allocated bs m =
     (if allocated then Some \<lparr>ob_bytes = bs, ob_base = length bs, ob_maximum = m\<rparr> else None)"

definition bb_flight :: "outbound_flight option \<Rightarrow> bounded_buffer \<Rightarrow> flight" where
  "bb_flight ob b =
     (case ob of
        None \<Rightarrow> \<lparr>fl_buffer = b, fl_outbound = None, fl_saved = None, fl_committed = False\<rparr>
      | Some out \<Rightarrow>
          \<lparr>fl_buffer = \<lparr>bb_bytes = ob_bytes out, bb_base = ob_base out,
                        bb_limit = ob_maximum out, bb_overflowed = False\<rparr>,
           fl_outbound = Some (out\<lparr>ob_bytes := bb_bytes b\<rparr>),
           fl_saved = Some \<lparr>sv_base = bb_base b, sv_limit = bb_limit b,
                            sv_overflowed = bb_overflowed b, sv_outbound_base = ob_base out\<rparr>,
           fl_committed = False\<rparr>)"

definition flight_drop :: "flight \<Rightarrow> bounded_buffer \<times> outbound_flight option" where
  "flight_drop f =
     (case (fl_outbound f, fl_saved f) of
        (Some out, Some sv) \<Rightarrow>
          (let buf = fl_buffer f;
               filled = (if \<not> fl_committed f then take (sv_outbound_base sv) (bb_bytes buf)
                         else bb_bytes buf)
           in (\<lparr>bb_bytes = ob_bytes out, bb_base = sv_base sv, bb_limit = sv_limit sv,
                bb_overflowed = sv_overflowed sv\<rparr>,
               Some (out\<lparr>ob_bytes := filled\<rparr>)))
      | _ \<Rightarrow> (fl_buffer f, fl_outbound f))"

text \<open>\<open>commit\<close> marks the flight and lets it drop; the result says whether the sink owns the bytes.\<close>

definition flight_commit :: "flight \<Rightarrow> bool \<times> bounded_buffer \<times> outbound_flight option" where
  "flight_commit f = (fl_outbound f \<noteq> None, flight_drop (f\<lparr>fl_committed := True\<rparr>))"

text \<open>Running an encoder on a flight, the way every sender does: clear, encode, then commit or drop.\<close>

definition flight_run :: "bounded_buffer writer \<Rightarrow> flight \<Rightarrow> (encode_error + unit) \<times> flight" where
  "flight_run m f =
     (case m (bb_clear (fl_buffer f)) of (r, b) \<Rightarrow> (r, f\<lparr>fl_buffer := b\<rparr>))"

subsection \<open>Scratch\<close>

record scratch =
  sc_reassembly :: bounded_buffer
  sc_flight :: bounded_buffer
  sc_identity :: bounded_buffer

definition scratch_new :: "nat \<Rightarrow> nat \<Rightarrow> nat \<Rightarrow> scratch" where
  "scratch_new r f i =
     \<lparr>sc_reassembly = bb_with_capacity r, sc_flight = bb_with_capacity f,
      sc_identity = bb_with_capacity i\<rparr>"

definition scratch_for_server :: scratch where
  "scratch_for_server = scratch_new (2 ^ 14) (2 ^ 14) (2 ^ 14)"

definition scratch_from_buffers :: "bounded_buffer \<Rightarrow> bounded_buffer \<Rightarrow> bounded_buffer \<Rightarrow> scratch" where
  "scratch_from_buffers r f i =
     \<lparr>sc_reassembly = bb_clear r, sc_flight = bb_clear f, sc_identity = bb_clear i\<rparr>"

definition scratch_capacities :: "scratch \<Rightarrow> nat \<times> nat \<times> nat" where
  "scratch_capacities s =
     (bb_capacity (sc_reassembly s), bb_capacity (sc_flight s), bb_capacity (sc_identity s))"

subsection \<open>The buffer is an encoder\<close>

definition bb_wf :: "bounded_buffer \<Rightarrow> bool" where
  "bb_wf b \<longleftrightarrow> bb_base b \<le> length (bb_bytes b) \<and> bb_len b \<le> bb_limit b"

definition bb_good :: "bounded_buffer \<Rightarrow> bool" where
  "bb_good b \<longleftrightarrow> bb_wf b \<and> \<not> bb_overflowed b"

definition bb_ext :: "bounded_buffer \<Rightarrow> bytes \<Rightarrow> bounded_buffer" where
  "bb_ext b bs = b\<lparr>bb_bytes := bb_bytes b @ bs\<rparr>"

lemmas bb_defs = bb_encode_def bb_put_u8_def bb_put_slice_def bb_reserve_encoded_def
  bb_reserve_length_prefix_def bb_rollback_to_def bb_patch_length_prefix_def bb_status_def
  bb_len_def bb_wf_def bb_good_def bb_ext_def

interpretation bb: encoder bb_encode bb_good "\<lambda>b n. n \<le> bb_limit b - bb_len b" bb_ext
  by unfold_locales
    (auto simp: bb_defs drop_be_bytes Let_def be_bytes_mod [of 4, simplified] del: be_bytes.simps)

text \<open>
  The configuration that encoding leaves alone: base, limit and the bytes below the base,
  which belong to the owner of the vector.
\<close>

definition bb_config :: "bounded_buffer \<Rightarrow> nat \<times> nat \<times> bytes" where
  "bb_config b = (bb_base b, bb_limit b, take (bb_base b) (bb_bytes b))"

interpretation bb_safe: safe_encoder bb_encode bb_wf bb_config bb_as_slice
proof (unfold_locales, goal_cases)
  case (7 s w st s')
  then show ?case by (auto simp: bb_defs bb_config_def bb_as_slice_def split: if_splits)
next
  case (8 s w e s')
  then show ?case by (auto simp: bb_defs bb_config_def bb_as_slice_def split: if_splits)
next
  case (9 s n)
  then show ?case by (auto simp: bb_defs bb_config_def bb_as_slice_def take_drop add.commute)
next
  case (10 s w st n)
  then show ?case
    by (auto simp: bb_defs bb_config_def bb_as_slice_def Let_def drop_be_bytes take_drop add.commute)
qed (auto simp: bb_defs bb_config_def bb_as_slice_def safe_writer_def emit_def)

subsection \<open>Flights are transactions\<close>

definition outbound_wf :: "outbound_flight \<Rightarrow> bool" where
  "outbound_wf out \<longleftrightarrow> ob_base out = length (ob_bytes out)"

lemma outbound_from_reserved_wf: "outbound_from_reserved bs c m = Some out \<Longrightarrow> outbound_wf out"
  by (auto simp: outbound_from_reserved_def outbound_wf_def split: if_splits)

lemma outbound_try_append_wf: "outbound_try_append allocated bs m = Some out \<Longrightarrow> outbound_wf out"
  by (auto simp: outbound_try_append_def outbound_wf_def split: if_splits)

lemma bb_flight_wf: "outbound_wf out \<Longrightarrow> bb_wf (fl_buffer (bb_flight (Some out) b))"
  by (simp add: bb_flight_def outbound_wf_def bb_wf_def bb_len_def)

lemma bb_clear_wf: "bb_wf b \<Longrightarrow> bb_good (bb_clear b) \<and> bb_as_slice (bb_clear b) = []"
  by (simp add: bb_clear_def bb_good_def bb_wf_def bb_len_def bb_as_slice_def)

lemma bb_clear_config: "bb_wf b \<Longrightarrow> bb_config (bb_clear b) = bb_config b"
  by (simp add: bb_clear_def bb_config_def)

lemma flight_run_parts:
  assumes "flight_run m f = (r, f')"
  shows "fl_buffer f' = snd (m (bb_clear (fl_buffer f)))" "fl_outbound f' = fl_outbound f"
    "fl_saved f' = fl_saved f" "fl_committed f' = fl_committed f"
    "r = fst (m (bb_clear (fl_buffer f)))"
  using assms by (auto simp: flight_run_def split: prod.splits)

text \<open>An abandoned flight leaves the sink's store and the connection's buffer as they were.\<close>

lemma flight_drop_restores:
  assumes wf: "outbound_wf out" and m: "safe_writer bb_wf bb_config bb_as_slice m"
    and run: "flight_run m (bb_flight (Some out) b) = (r, f)"
  shows "flight_drop f = (b, Some out)"
proof -
  let ?b = "bb_clear (fl_buffer (bb_flight (Some out) b))"
  have wf1: "bb_wf ?b" using bb_clear_wf [OF bb_flight_wf [OF wf]] by (simp add: bb_good_def)
  then have "bb_config (snd (m ?b)) = bb_config ?b" using m by (simp add: safe_writer_def)
  also have "\<dots> = (ob_base out, ob_maximum out, ob_bytes out)"
    using wf by (simp add: bb_clear_config [OF bb_flight_wf [OF wf]])
      (simp add: bb_config_def bb_flight_def outbound_wf_def)
  finally have "take (ob_base out) (bb_bytes (snd (m ?b))) = ob_bytes out"
    by (auto simp: bb_config_def)
  then show ?thesis
    using flight_run_parts [OF run]
    by (simp add: flight_drop_def Let_def bb_flight_def)
qed

text \<open>A committed flight appends exactly the encoded bytes to the sink's store.\<close>

lemma flight_commit_appends:
  assumes wf: "outbound_wf out"
    and m: "emits_on bb_good (\<lambda>b n. n \<le> bb_limit b - bb_len b) bb_ext m bs"
    and fits: "length bs \<le> ob_maximum out"
    and run: "flight_run m (bb_flight (Some out) b) = (r, f)"
  shows "r = Inr ()" "flight_commit f = (True, b, Some (out\<lparr>ob_bytes := ob_bytes out @ bs\<rparr>))"
proof -
  let ?b = "bb_clear (fl_buffer (bb_flight (Some out) b))"
  have good: "bb_good ?b" using bb_clear_wf [OF bb_flight_wf [OF wf]] by simp
  have "length bs \<le> bb_limit ?b - bb_len ?b"
    using fits wf by (simp add: bb_clear_def bb_len_def bb_flight_def outbound_wf_def)
  then have mb: "m ?b = (Inr (), bb_ext ?b bs)" using m good by (simp add: emits_on_def)
  then show "r = Inr ()" using flight_run_parts(5) [OF run] by simp
  show "flight_commit f = (True, b, Some (out\<lparr>ob_bytes := ob_bytes out @ bs\<rparr>))"
    using flight_run_parts(1-4) [OF run] mb wf
    by (simp add: flight_commit_def flight_drop_def Let_def bb_flight_def bb_ext_def bb_clear_def
        outbound_wf_def)
qed

end
