(* ===== verification/Extension.thy ===== *)
theory Extension
  imports Codec External
begin

section \<open>Extensions\<close>

text \<open>
  \<open>wire/extension.rs\<close>.  An extension is its type and body; the borrowed \<open>Ref\<close> has the same
  fields.  A validated \<open>Extensions\<close> view is the encoded list it was validated from.  The
  main facts: what \<open>Extensions::decode\<close> accepts is exactly the encoding of at most 64
  extensions with pairwise distinct types, and iterating over the view returns them.
\<close>

record extension =
  ext_ty :: u16
  ext_data :: bytes

definition MAX_EXTENSIONS :: nat where
  "MAX_EXTENSIONS = 64"

definition SERVER_NAME :: u16 where "SERVER_NAME = 0"
definition SUPPORTED_GROUPS :: u16 where "SUPPORTED_GROUPS = 10"
definition SIGNATURE_ALGORITHMS :: u16 where "SIGNATURE_ALGORITHMS = 13"
definition APPLICATION_LAYER_PROTOCOL_NEGOTIATION :: u16 where
  "APPLICATION_LAYER_PROTOCOL_NEGOTIATION = 16"
definition CLIENT_CERTIFICATE_TYPE :: u16 where "CLIENT_CERTIFICATE_TYPE = 19"
definition SERVER_CERTIFICATE_TYPE :: u16 where "SERVER_CERTIFICATE_TYPE = 20"
definition PRE_SHARED_KEY :: u16 where "PRE_SHARED_KEY = 41"
definition EARLY_DATA :: u16 where "EARLY_DATA = 42"
definition SUPPORTED_VERSIONS :: u16 where "SUPPORTED_VERSIONS = 43"
definition COOKIE :: u16 where "COOKIE = 44"
definition PSK_KEY_EXCHANGE_MODES :: u16 where "PSK_KEY_EXCHANGE_MODES = 45"
definition KEY_SHARE :: u16 where "KEY_SHARE = 51"
definition QUIC_TRANSPORT_PARAMETERS :: u16 where "QUIC_TRANSPORT_PARAMETERS = 57"

lemmas extension_types =
  SERVER_NAME_def SUPPORTED_GROUPS_def SIGNATURE_ALGORITHMS_def
  APPLICATION_LAYER_PROTOCOL_NEGOTIATION_def CLIENT_CERTIFICATE_TYPE_def
  SERVER_CERTIFICATE_TYPE_def PRE_SHARED_KEY_def EARLY_DATA_def SUPPORTED_VERSIONS_def
  COOKIE_def PSK_KEY_EXCHANGE_MODES_def KEY_SHARE_def QUIC_TRANSPORT_PARAMETERS_def

definition extension_encode :: "'s encode \<Rightarrow> extension \<Rightarrow> 's writer" where
  "extension_encode E x =
     then_w (emit (put_u16 E (ext_ty x))) (framed_u16 E (emit (put_slice E (ext_data x))))"

text \<open>\<open>Extension::begin\<close> opens the body frame; the caller's body is an argument.\<close>

definition extension_begin :: "'s encode \<Rightarrow> u16 \<Rightarrow> 's writer \<Rightarrow> 's writer" where
  "extension_begin E ty body = then_w (emit (put_u16 E ty)) (framed_u16 E body)"

definition extension_encode_list :: "'s encode \<Rightarrow> extension list \<Rightarrow> 's writer" where
  "extension_encode_list E exts = framed_u16 E (for_each_w (extension_encode E) exts)"

definition ref_decode :: "extension decoder" where
  "ref_decode r =
     and_then (reader_u16 r) (\<lambda>(ty, r).
     and_then (reader_vec_u16 r) (\<lambda>(data, r).
     Inr (\<lparr>ext_ty = ty, ext_data = data\<rparr>, r)))"

text \<open>The reference encoding.\<close>

definition ext_bytes :: "extension \<Rightarrow> bytes" where
  "ext_bytes x = be_bytes 2 (unat (ext_ty x)) @ be_bytes 2 (length (ext_data x)) @ ext_data x"

definition exts_bytes :: "extension list \<Rightarrow> bytes" where
  "exts_bytes xs = concat (map ext_bytes xs)"

definition ext_fits :: "extension \<Rightarrow> bool" where
  "ext_fits x \<longleftrightarrow> length (ext_data x) < 2 ^ 16"

lemma ref_decode_eq_Inr: "ref_decode r = Inr (x, r') \<longleftrightarrow> ext_fits x \<and> r = ext_bytes x @ r'"
  by (cases x) (auto simp: ref_decode_def and_then_eq_Inr reader_eq_Inr ext_bytes_def ext_fits_def)

lemma ref_decode_consumes: "ref_decode r = Inr (x, r') \<Longrightarrow> length r' < length r"
  by (auto simp: ref_decode_eq_Inr ext_bytes_def)

function extensions_scan :: "u16 copy_inline \<Rightarrow> reader \<Rightarrow> u16 list \<Rightarrow> decode_error + unit" where
  "extensions_scan ci r seen =
     (if r = [] then Inr ()
      else and_then (ref_decode r) (\<lambda>(x, r').
        case binary_search (ext_ty x) seen of
          Inr _ \<Rightarrow> Inl DuplicateExtension
        | Inl position \<Rightarrow>
            (case ci_insert ci MAX_EXTENSIONS position (ext_ty x) seen of
               None \<Rightarrow> Inl InvalidEnum
             | Some seen' \<Rightarrow> extensions_scan ci r' seen')))"
  by pat_completeness auto
termination
  by (relation "measure (\<lambda>(ci, r, seen). length r)") (auto dest: ref_decode_consumes)

declare extensions_scan.simps [simp del]

definition extensions_decode :: "u16 copy_inline \<Rightarrow> bytes decoder" where
  "extensions_decode ci r =
     and_then (reader_vec_u16 r) (\<lambda>(encoded, r).
     and_then (extensions_scan ci encoded []) (\<lambda>_. Inr (encoded, r)))"

text \<open>\<open>Refs::next\<close>, and the sequence of items it yields until it returns \<open>None\<close>.\<close>

definition refs_next :: "reader \<Rightarrow> (extension \<times> reader) option" where
  "refs_next r = (if r = [] then None else result_ok (ref_decode r))"

function extensions_iter :: "reader \<Rightarrow> extension list" where
  "extensions_iter r = (case refs_next r of None \<Rightarrow> [] | Some (x, r') \<Rightarrow> x # extensions_iter r')"
  by pat_completeness auto
termination
  by (relation "measure length") (auto simp: refs_next_def dest: ref_decode_consumes split: if_splits)

declare extensions_iter.simps [simp del]

definition extensions_find :: "u16 \<Rightarrow> bytes \<Rightarrow> extension option" where
  "extensions_find ty encoded = List.find (\<lambda>x. ext_ty x = ty) (extensions_iter encoded)"

definition extensions_into_owned :: "bytes \<Rightarrow> extension list" where
  "extensions_into_owned encoded = extensions_iter encoded"

subsection \<open>Encoding extensions\<close>

context encoder
begin

lemma emits_extension:
  "ext_fits x \<Longrightarrow> emits_on good fits ext (extension_encode E x) (ext_bytes x)"
  unfolding extension_encode_def ext_bytes_def ext_fits_def
  by (intro emits_rules) simp_all

lemma emits_extension_begin:
  "emits_on good fits ext body bs \<Longrightarrow> length bs < 2 ^ 16 \<Longrightarrow>
     emits_on good fits ext (extension_begin E ty body) (ext_bytes \<lparr>ext_ty = ty, ext_data = bs\<rparr>)"
  unfolding extension_begin_def ext_bytes_def by (simp, intro emits_rules) simp_all

lemma emits_extensions:
  "\<forall>x\<in>set xs. ext_fits x \<Longrightarrow> emits_on good fits ext (for_each_w (extension_encode E) xs) (exts_bytes xs)"
  unfolding exts_bytes_def by (rule emits_for_each) (simp add: emits_extension)

lemma emits_extension_list:
  "\<forall>x\<in>set xs. ext_fits x \<Longrightarrow> length (exts_bytes xs) < 2 ^ 16 \<Longrightarrow>
     emits_on good fits ext (extension_encode_list E xs) (be_bytes 2 (length (exts_bytes xs)) @ exts_bytes xs)"
  unfolding extension_encode_list_def by (intro emits_framed_u16 emits_extensions)

end

context safe_encoder
begin

lemma safe_extension: "safe_writer wfs cfg view (extension_encode E x)"
  unfolding extension_encode_def by (intro safe_rules)

lemma safe_extension_list: "safe_writer wfs cfg view (extension_encode_list E xs)"
  unfolding extension_encode_list_def by (intro safe_rules safe_extension)

end

subsection \<open>Decoding extensions\<close>

lemma exts_bytes_simps [simp]:
  "exts_bytes [] = []"
  "exts_bytes (x # xs) = ext_bytes x @ exts_bytes xs"
  by (simp_all add: exts_bytes_def)

lemma length_ext_bytes [simp]: "length (ext_bytes x) = 4 + length (ext_data x)"
  by (simp add: ext_bytes_def)

lemma ext_bytes_nonempty [simp]: "ext_bytes x \<noteq> []"
  using length_ext_bytes [of x] by (metis add_is_0 list.size(3) zero_neq_numeral)

lemma extensions_iter_exts_bytes:
  "\<forall>x\<in>set xs. ext_fits x \<Longrightarrow> extensions_iter (exts_bytes xs) = xs"
proof (induction xs)
  case (Cons x xs)
  then have "ref_decode (ext_bytes x @ exts_bytes xs) = Inr (x, exts_bytes xs)"
    by (simp add: ref_decode_eq_Inr)
  with Cons show ?case
    by (simp add: extensions_iter.simps [of "ext_bytes x @ exts_bytes xs"] refs_next_def)
qed (simp add: extensions_iter.simps refs_next_def)

lemma extensions_scan_sound:
  assumes "copy_inline_ok ci" "sorted seen" "extensions_scan ci r seen = Inr ()"
  shows "\<exists>xs. r = exts_bytes xs \<and> (\<forall>x\<in>set xs. ext_fits x) \<and> distinct (map ext_ty xs) \<and>
    ext_ty ` set xs \<inter> set seen = {} \<and> (xs = [] \<or> length xs + length seen \<le> MAX_EXTENSIONS)"
  using assms
proof (induction ci r seen rule: extensions_scan.induct)
  case (1 ci r seen)
  show ?case
  proof (cases "r = []")
    case True
    then show ?thesis by (intro exI [of _ "[]"]) simp
  next
    case False
    with "1.prems"(3) obtain x r' where x: "ref_decode r = Inr (x, r')"
      by (auto simp: extensions_scan.simps [of ci r seen] elim!: and_then_InrE)
    with False "1.prems"(3) obtain i where i: "binary_search (ext_ty x) seen = Inl i"
      by (auto simp: extensions_scan.simps [of ci r seen] split: sum.splits)
    note ins = binary_search_insert [OF "1.prems"(2) i]
    let ?seen = "take i seen @ ext_ty x # drop i seen"
    have step: "extensions_scan ci r seen =
      (if length seen < MAX_EXTENSIONS then extensions_scan ci r' ?seen else Inl InvalidEnum)"
      using False x i copy_inline_okD(3) [OF "1.prems"(1) ins(2)]
      by (simp add: extensions_scan.simps [of ci r seen])
    then have lt: "length seen < MAX_EXTENSIONS" and rec: "extensions_scan ci r' ?seen = Inr ()"
      using "1.prems"(3) by (simp_all split: if_splits)
    then have some: "ci_insert ci MAX_EXTENSIONS i (ext_ty x) seen = Some ?seen"
      using copy_inline_okD(3) [OF "1.prems"(1) ins(2)] by simp
    obtain xs where xs: "r' = exts_bytes xs" "\<forall>x\<in>set xs. ext_fits x" "distinct (map ext_ty xs)"
      "ext_ty ` set xs \<inter> insert (ext_ty x) (set seen) = {}"
      "xs = [] \<or> length xs + length ?seen \<le> MAX_EXTENSIONS"
      using "1.IH" [OF False x refl i some "1.prems"(1) ins(3) rec] unfolding ins(4) by blast
    have len: "length ?seen = Suc (length seen)" using ins(2) by simp
    show ?thesis
    proof (intro exI [of _ "x # xs"] conjI)
      show "r = exts_bytes (x # xs)" using x xs(1) by (simp add: ref_decode_eq_Inr)
      show "\<forall>y\<in>set (x # xs). ext_fits y" using x xs(2) by (simp add: ref_decode_eq_Inr)
      show "distinct (map ext_ty (x # xs))" using xs(3,4) by auto
      show "ext_ty ` set (x # xs) \<inter> set seen = {}" using xs(4) ins(1) by auto
      show "x # xs = [] \<or> length (x # xs) + length seen \<le> MAX_EXTENSIONS"
        using xs(5) len lt by auto
    qed
  qed
qed

lemma extensions_scan_complete:
  assumes "copy_inline_ok ci" "sorted seen" "\<forall>x\<in>set xs. ext_fits x" "distinct (map ext_ty xs)"
    "ext_ty ` set xs \<inter> set seen = {}" "length xs + length seen \<le> MAX_EXTENSIONS"
  shows "extensions_scan ci (exts_bytes xs) seen = Inr ()"
  using assms(2-)
proof (induction xs arbitrary: seen)
  case (Cons x xs)
  have x: "ref_decode (ext_bytes x @ exts_bytes xs) = Inr (x, exts_bytes xs)"
    using Cons.prems(2) by (simp add: ref_decode_eq_Inr)
  obtain i where i: "binary_search (ext_ty x) seen = Inl i"
    using binary_search_found [OF Cons.prems(1), of "ext_ty x"] Cons.prems(4)
    by (cases "binary_search (ext_ty x) seen") auto
  note ins = binary_search_insert [OF Cons.prems(1) i]
  have len: "length (take i seen @ ext_ty x # drop i seen) = Suc (length seen)" using ins(2) by simp
  have "extensions_scan ci (exts_bytes xs) (take i seen @ ext_ty x # drop i seen) = Inr ()"
    using Cons.prems ins(3,4) len by (intro Cons.IH) auto
  then show ?case
    using Cons.prems(5) copy_inline_okD(3) [OF assms(1) ins(2)]
    by (simp add: extensions_scan.simps [of ci "ext_bytes x @ exts_bytes xs"] x i)
qed (simp add: extensions_scan.simps)

definition exts_ok :: "extension list \<Rightarrow> bool" where
  "exts_ok xs \<longleftrightarrow> (\<forall>x\<in>set xs. ext_fits x) \<and> distinct (map ext_ty xs) \<and>
     length xs \<le> MAX_EXTENSIONS \<and> length (exts_bytes xs) < 2 ^ 16"

lemma extensions_decode_eq_Inr:
  assumes "copy_inline_ok ci"
  shows "extensions_decode ci r = Inr (encoded, r') \<longleftrightarrow>
    (\<exists>xs. exts_ok xs \<and> encoded = exts_bytes xs \<and> r = be_bytes 2 (length encoded) @ encoded @ r')"
proof
  assume "extensions_decode ci r = Inr (encoded, r')"
  then have scan: "extensions_scan ci encoded [] = Inr ()" and len: "length encoded < 2 ^ 16"
    and r: "r = be_bytes 2 (length encoded) @ encoded @ r'"
    by (auto simp: extensions_decode_def and_then_eq_Inr reader_eq_Inr)
  from extensions_scan_sound [OF assms _ scan] len
  show "\<exists>xs. exts_ok xs \<and> encoded = exts_bytes xs \<and> r = be_bytes 2 (length encoded) @ encoded @ r'"
    using r by (auto simp: exts_ok_def MAX_EXTENSIONS_def)
next
  assume "\<exists>xs. exts_ok xs \<and> encoded = exts_bytes xs \<and> r = be_bytes 2 (length encoded) @ encoded @ r'"
  then obtain xs where xs: "exts_ok xs" "encoded = exts_bytes xs"
    "r = be_bytes 2 (length encoded) @ encoded @ r'" by blast
  then have "extensions_scan ci encoded [] = Inr ()"
    using extensions_scan_complete [OF assms, of "[]" xs] by (simp add: exts_ok_def)
  moreover have "reader_vec_u16 r = Inr (encoded, r')"
    using xs by (simp add: reader_eq_Inr exts_ok_def)
  ultimately show "extensions_decode ci r = Inr (encoded, r')"
    by (simp add: extensions_decode_def)
qed

end
