(* ===== verification/Messages.thy ===== *)
theory Messages
  imports Storage Extension
begin

section \<open>Handshake messages and their encoders\<close>

text \<open>
  \<open>wire/handshake/mod.rs\<close>, \<open>messages.rs\<close> and \<open>frame.rs\<close>: message types, the owned messages
  with their generic encoders, and \<open>Frame\<close>.  Each encoder comes with a reference encoding
  \<open>*_bytes\<close>, a plain byte list; inside the locale \<open>encoder\<close> every encoder is shown to emit
  its reference encoding on every target, and inside \<open>safe_encoder\<close> to be harmless when it
  does not fit.  (\<open>CertificateVerify::message\<close> and \<open>Finished::verify_data\<close> are in \<open>Schedule\<close>.)
\<close>

subsection \<open>Types and constants\<close>

datatype key_update_request = NotRequested | Requested

fun key_update_request_u8 :: "key_update_request \<Rightarrow> u8" where
  "key_update_request_u8 NotRequested = 0"
| "key_update_request_u8 Requested = 1"

definition key_update_request_from_u8 :: "u8 \<Rightarrow> decode_error + key_update_request" where
  "key_update_request_from_u8 b =
     (if b = 0 then Inr NotRequested else if b = 1 then Inr Requested else Inl InvalidEnum)"

datatype hs_type =
    TClientHello | TServerHello | TNewSessionTicket | TEndOfEarlyData | TEncryptedExtensions
  | TCertificate | TCertificateRequest | TCertificateVerify | TFinished | TKeyUpdate | TMessageHash

fun hs_type_u8 :: "hs_type \<Rightarrow> u8" where
  "hs_type_u8 TClientHello = 1"
| "hs_type_u8 TServerHello = 2"
| "hs_type_u8 TNewSessionTicket = 4"
| "hs_type_u8 TEndOfEarlyData = 5"
| "hs_type_u8 TEncryptedExtensions = 8"
| "hs_type_u8 TCertificate = 11"
| "hs_type_u8 TCertificateRequest = 13"
| "hs_type_u8 TCertificateVerify = 15"
| "hs_type_u8 TFinished = 20"
| "hs_type_u8 TKeyUpdate = 24"
| "hs_type_u8 TMessageHash = 254"

definition hs_type_from_u8 :: "u8 \<Rightarrow> decode_error + hs_type" where
  "hs_type_from_u8 b =
     (if b = 1 then Inr TClientHello
      else if b = 2 then Inr TServerHello
      else if b = 4 then Inr TNewSessionTicket
      else if b = 5 then Inr TEndOfEarlyData
      else if b = 8 then Inr TEncryptedExtensions
      else if b = 11 then Inr TCertificate
      else if b = 13 then Inr TCertificateRequest
      else if b = 15 then Inr TCertificateVerify
      else if b = 20 then Inr TFinished
      else if b = 24 then Inr TKeyUpdate
      else if b = 254 then Inr TMessageHash
      else Inl InvalidEnum)"

definition RANDOM_LEN :: nat where "RANDOM_LEN = 32"
definition TLS_1_3 :: u16 where "TLS_1_3 = 0x0304"
definition TLS_1_2 :: u16 where "TLS_1_2 = 0x0303"

definition HELLO_RETRY_REQUEST_RANDOM :: bytes where
  "HELLO_RETRY_REQUEST_RANDOM =
     [0xcf, 0x21, 0xad, 0x74, 0xe5, 0x9a, 0x61, 0x11, 0xbe, 0x1d, 0x8c, 0x02, 0x1e, 0x65, 0xb8, 0x91,
      0xc2, 0xa2, 0x11, 0x16, 0x7a, 0xbb, 0x8c, 0x5e, 0x07, 0x9e, 0x09, 0xe2, 0xc8, 0xa8, 0x33, 0x9c]"

definition MAX_CERTIFICATE_ENTRIES :: nat where "MAX_CERTIFICATE_ENTRIES = 16"
definition MAX_SIZE :: nat where "MAX_SIZE = 256 * 1024"
definition MAX_KEY_UPDATES_PER_RECORD :: u32 where "MAX_KEY_UPDATES_PER_RECORD = 8"
definition MAX_KEY_UPDATES_WITHOUT_APP_DATA :: u32 where "MAX_KEY_UPDATES_WITHOUT_APP_DATA = 8"

definition encoded_message_len :: "bytes \<Rightarrow> decode_error + nat" where
  "encoded_message_len header =
     (case header of
        _ # high # middle # low # _ \<Rightarrow>
          (let total_len = 4 + be_nat [0, high, middle, low] in
           if total_len > MAX_SIZE then Inl HandshakeTooLarge else Inr total_len)
      | _ \<Rightarrow> Inl Underflow)"

text \<open>\<open>SignatureScheme\<close> of \<open>crypto/sig.rs\<close>: a code point, unknown ones kept.\<close>

datatype signature_scheme = SignatureScheme u16

fun wire_id :: "signature_scheme \<Rightarrow> u16" where
  "wire_id (SignatureScheme v) = v"

definition from_wire_id :: "u16 \<Rightarrow> signature_scheme" where
  "from_wire_id v = SignatureScheme v"

subsection \<open>Messages\<close>

record client_hello =
  ch_legacy_version :: u16
  ch_random :: bytes
  ch_legacy_session_id :: bytes
  ch_cipher_suites :: "u16 list"
  ch_legacy_compression_methods :: bytes
  ch_extensions :: "extension list"

definition client_hello_encode :: "'s encode \<Rightarrow> client_hello \<Rightarrow> 's writer" where
  "client_hello_encode E m =
     then_w (emit (put_u16 E (ch_legacy_version m)))
    (then_w (emit (put_slice E (ch_random m)))
    (then_w (framed_u8 E (emit (put_slice E (ch_legacy_session_id m))))
    (then_w (framed_u16 E (for_each_w (\<lambda>suite. emit (put_u16 E suite)) (ch_cipher_suites m)))
    (then_w (framed_u8 E (emit (put_slice E (ch_legacy_compression_methods m))))
            (extension_encode_list E (ch_extensions m))))))"

record server_hello =
  sh_legacy_version :: u16
  sh_random :: bytes
  sh_legacy_session_id_echo :: bytes
  sh_cipher_suite :: u16
  sh_legacy_compression_method :: u8
  sh_extensions :: "extension list"

definition server_hello_encode :: "'s encode \<Rightarrow> server_hello \<Rightarrow> 's writer" where
  "server_hello_encode E m =
     then_w (emit (put_u16 E (sh_legacy_version m)))
    (then_w (emit (put_slice E (sh_random m)))
    (then_w (framed_u8 E (emit (put_slice E (sh_legacy_session_id_echo m))))
    (then_w (emit (put_u16 E (sh_cipher_suite m)))
    (then_w (emit (put_u8 E (sh_legacy_compression_method m)))
            (extension_encode_list E (sh_extensions m))))))"

record encrypted_extensions =
  ee_extensions :: "extension list"

definition encrypted_extensions_encode :: "'s encode \<Rightarrow> encrypted_extensions \<Rightarrow> 's writer" where
  "encrypted_extensions_encode E m = framed_u16 E (for_each_w (extension_encode E) (ee_extensions m))"

record certificate_entry =
  cert_data :: bytes
  cert_extensions :: "extension list"

definition certificate_entry_encode :: "'s encode \<Rightarrow> certificate_entry \<Rightarrow> 's writer" where
  "certificate_entry_encode E m =
     then_w (framed_u24 E (emit (put_slice E (cert_data m)))) (extension_encode_list E (cert_extensions m))"

record certificate =
  certificate_request_context :: bytes
  certificate_list :: "certificate_entry list"

fun chain_fold :: "nat \<Rightarrow> bytes list \<Rightarrow> nat option" where
  "chain_fold message_len [] = Some message_len"
| "chain_fold message_len (c # cs) =
     (case usize_checked_add message_len (3 + 2 + length c) of
        None \<Rightarrow> None | Some l \<Rightarrow> chain_fold l cs)"

definition chain_message_len :: "bytes list \<Rightarrow> nat option" where
  "chain_message_len chain_der =
     (if length chain_der > MAX_CERTIFICATE_ENTRIES then None
      else chain_fold (4 + 1 + 3) chain_der)"

definition chain_fits :: "bytes list \<Rightarrow> bool" where
  "chain_fits chain_der =
     (case chain_message_len chain_der of None \<Rightarrow> False | Some message_len \<Rightarrow> message_len \<le> MAX_SIZE)"

definition certificate_encode :: "'s encode \<Rightarrow> certificate \<Rightarrow> 's writer" where
  "certificate_encode E m =
     then_w (framed_u8 E (emit (put_slice E (certificate_request_context m))))
       (framed_u24 E (for_each_w (certificate_entry_encode E) (certificate_list m)))"

record certificate_request =
  cr_context :: bytes
  cr_extensions :: "extension list"

definition certificate_request_encode :: "'s encode \<Rightarrow> certificate_request \<Rightarrow> 's writer" where
  "certificate_request_encode E m =
     then_w (framed_u8 E (emit (put_slice E (cr_context m)))) (extension_encode_list E (cr_extensions m))"

record certificate_verify =
  cv_algorithm :: signature_scheme
  cv_signature :: bytes

definition certificate_verify_frame_len :: "nat \<Rightarrow> nat" where
  "certificate_verify_frame_len signature_len = 4 + 2 + 2 + signature_len"

definition certificate_verify_encode_fields ::
    "'s encode \<Rightarrow> signature_scheme \<Rightarrow> bytes \<Rightarrow> 's writer" where
  "certificate_verify_encode_fields E algorithm signature =
     then_w (emit (put_u16 E (wire_id algorithm))) (framed_u16 E (emit (put_slice E signature)))"

definition certificate_verify_encode :: "'s encode \<Rightarrow> certificate_verify \<Rightarrow> 's writer" where
  "certificate_verify_encode E m = certificate_verify_encode_fields E (cv_algorithm m) (cv_signature m)"

record finished =
  fin_verify_data :: bytes

definition encode_verify_data :: "'s encode \<Rightarrow> bytes \<Rightarrow> 's \<Rightarrow> 's" where
  "encode_verify_data E verify_data = put_slice E verify_data"

definition finished_encode :: "'s encode \<Rightarrow> finished \<Rightarrow> 's writer" where
  "finished_encode E m = emit (encode_verify_data E (fin_verify_data m))"

record key_update =
  ku_request :: key_update_request

definition KEY_UPDATE_ENCODED_LEN :: nat where "KEY_UPDATE_ENCODED_LEN = 5"

definition key_update_encode_framed :: "key_update \<Rightarrow> bytes" where
  "key_update_encode_framed m = [hs_type_u8 TKeyUpdate, 0, 0, 1, key_update_request_u8 (ku_request m)]"

definition key_update_encode :: "'s encode \<Rightarrow> key_update \<Rightarrow> 's writer" where
  "key_update_encode E m = emit (put_u8 E (key_update_request_u8 (ku_request m)))"

definition key_update_decode :: "key_update decoder" where
  "key_update_decode r =
     and_then (reader_u8 r) (\<lambda>(b, r).
     and_then (key_update_request_from_u8 b) (\<lambda>q. Inr (\<lparr>ku_request = q\<rparr>, r)))"

record new_session_ticket =
  ticket_lifetime :: u32
  ticket_age_add :: u32
  ticket_nonce :: bytes
  ticket_bytes :: bytes
  ticket_extensions :: "extension list"

definition new_session_ticket_encode :: "'s encode \<Rightarrow> new_session_ticket \<Rightarrow> 's writer" where
  "new_session_ticket_encode E m =
     then_w (emit (put_u32 E (ticket_lifetime m)))
    (then_w (emit (put_u32 E (ticket_age_add m)))
    (then_w (framed_u8 E (emit (put_slice E (ticket_nonce m))))
    (then_w (framed_u16 E (emit (put_slice E (ticket_bytes m))))
            (extension_encode_list E (ticket_extensions m)))))"

subsection \<open>Frame\<close>

datatype frame =
    FClientHello client_hello
  | FServerHello server_hello
  | FEncryptedExtensions encrypted_extensions
  | FCertificateRequest certificate_request
  | FCertificate certificate
  | FCertificateVerify certificate_verify
  | FFinished finished
  | FEndOfEarlyData
  | FKeyUpdate key_update
  | FNewSessionTicket new_session_ticket

definition frame_encode_finished :: "'s encode \<Rightarrow> bytes \<Rightarrow> 's writer" where
  "frame_encode_finished E verify_data =
     then_w (emit (put_u8 E (hs_type_u8 TFinished)))
       (framed_u24 E (emit (encode_verify_data E verify_data)))"

definition frame_encode_certificate_verify ::
    "'s encode \<Rightarrow> signature_scheme \<Rightarrow> bytes \<Rightarrow> 's writer" where
  "frame_encode_certificate_verify E algorithm signature =
     then_w (emit (put_u8 E (hs_type_u8 TCertificateVerify)))
       (framed_u24 E (certificate_verify_encode_fields E algorithm signature))"

fun frame_msg_type :: "frame \<Rightarrow> hs_type" where
  "frame_msg_type (FClientHello _) = TClientHello"
| "frame_msg_type (FServerHello _) = TServerHello"
| "frame_msg_type (FEncryptedExtensions _) = TEncryptedExtensions"
| "frame_msg_type (FCertificateRequest _) = TCertificateRequest"
| "frame_msg_type (FCertificate _) = TCertificate"
| "frame_msg_type (FCertificateVerify _) = TCertificateVerify"
| "frame_msg_type (FFinished _) = TFinished"
| "frame_msg_type FEndOfEarlyData = TEndOfEarlyData"
| "frame_msg_type (FKeyUpdate _) = TKeyUpdate"
| "frame_msg_type (FNewSessionTicket _) = TNewSessionTicket"

fun frame_encode_body :: "'s encode \<Rightarrow> frame \<Rightarrow> 's writer" where
  "frame_encode_body E (FClientHello m) = client_hello_encode E m"
| "frame_encode_body E (FServerHello m) = server_hello_encode E m"
| "frame_encode_body E (FEncryptedExtensions m) = encrypted_extensions_encode E m"
| "frame_encode_body E (FCertificateRequest m) = certificate_request_encode E m"
| "frame_encode_body E (FCertificate m) = certificate_encode E m"
| "frame_encode_body E (FCertificateVerify m) = certificate_verify_encode E m"
| "frame_encode_body E (FFinished m) = finished_encode E m"
| "frame_encode_body E FEndOfEarlyData = skip_w"
| "frame_encode_body E (FKeyUpdate m) = key_update_encode E m"
| "frame_encode_body E (FNewSessionTicket m) = new_session_ticket_encode E m"

definition frame_encode :: "'s encode \<Rightarrow> frame \<Rightarrow> 's writer" where
  "frame_encode E f =
     then_w (emit (put_u8 E (hs_type_u8 (frame_msg_type f)))) (framed_u24 E (frame_encode_body E f))"

subsection \<open>Reference encodings\<close>

definition vec8 :: "bytes \<Rightarrow> bytes" where "vec8 bs = be_bytes 1 (length bs) @ bs"
definition vec16 :: "bytes \<Rightarrow> bytes" where "vec16 bs = be_bytes 2 (length bs) @ bs"
definition vec24 :: "bytes \<Rightarrow> bytes" where "vec24 bs = be_bytes 3 (length bs) @ bs"

definition u16s_bytes :: "u16 list \<Rightarrow> bytes" where
  "u16s_bytes xs = concat (map (\<lambda>x. be_bytes 2 (unat x)) xs)"

definition client_hello_bytes :: "client_hello \<Rightarrow> bytes" where
  "client_hello_bytes m =
     be_bytes 2 (unat (ch_legacy_version m)) @ ch_random m @ vec8 (ch_legacy_session_id m) @
     vec16 (u16s_bytes (ch_cipher_suites m)) @ vec8 (ch_legacy_compression_methods m) @
     vec16 (exts_bytes (ch_extensions m))"

definition server_hello_bytes :: "server_hello \<Rightarrow> bytes" where
  "server_hello_bytes m =
     be_bytes 2 (unat (sh_legacy_version m)) @ sh_random m @ vec8 (sh_legacy_session_id_echo m) @
     be_bytes 2 (unat (sh_cipher_suite m)) @ [sh_legacy_compression_method m] @
     vec16 (exts_bytes (sh_extensions m))"

definition certificate_entry_bytes :: "certificate_entry \<Rightarrow> bytes" where
  "certificate_entry_bytes m = vec24 (cert_data m) @ vec16 (exts_bytes (cert_extensions m))"

definition entries_bytes :: "certificate_entry list \<Rightarrow> bytes" where
  "entries_bytes es = concat (map certificate_entry_bytes es)"

definition new_session_ticket_bytes :: "new_session_ticket \<Rightarrow> bytes" where
  "new_session_ticket_bytes m =
     be_bytes 4 (unat (ticket_lifetime m)) @ be_bytes 4 (unat (ticket_age_add m)) @
     vec8 (ticket_nonce m) @ vec16 (ticket_bytes m) @ vec16 (exts_bytes (ticket_extensions m))"

definition certificate_verify_bytes :: "certificate_verify \<Rightarrow> bytes" where
  "certificate_verify_bytes m = be_bytes 2 (unat (wire_id (cv_algorithm m))) @ vec16 (cv_signature m)"

fun frame_body_bytes :: "frame \<Rightarrow> bytes" where
  "frame_body_bytes (FClientHello m) = client_hello_bytes m"
| "frame_body_bytes (FServerHello m) = server_hello_bytes m"
| "frame_body_bytes (FEncryptedExtensions m) = vec16 (exts_bytes (ee_extensions m))"
| "frame_body_bytes (FCertificateRequest m) = vec8 (cr_context m) @ vec16 (exts_bytes (cr_extensions m))"
| "frame_body_bytes (FCertificate m) =
     vec8 (certificate_request_context m) @ vec24 (entries_bytes (certificate_list m))"
| "frame_body_bytes (FCertificateVerify m) = certificate_verify_bytes m"
| "frame_body_bytes (FFinished m) = fin_verify_data m"
| "frame_body_bytes FEndOfEarlyData = []"
| "frame_body_bytes (FKeyUpdate m) = [key_update_request_u8 (ku_request m)]"
| "frame_body_bytes (FNewSessionTicket m) = new_session_ticket_bytes m"

definition frame_bytes :: "frame \<Rightarrow> bytes" where
  "frame_bytes f = hs_type_u8 (frame_msg_type f) # vec24 (frame_body_bytes f)"

text \<open>What a message has to satisfy to be encodable: every vector fits its length prefix.\<close>

definition exts_fit :: "extension list \<Rightarrow> bool" where
  "exts_fit xs \<longleftrightarrow> (\<forall>x\<in>set xs. ext_fits x) \<and> length (exts_bytes xs) < 2 ^ 16"

definition entry_fits :: "certificate_entry \<Rightarrow> bool" where
  "entry_fits e \<longleftrightarrow> length (cert_data e) < 2 ^ 24 \<and> exts_fit (cert_extensions e)"

fun frame_fields_fit :: "frame \<Rightarrow> bool" where
  "frame_fields_fit (FClientHello m) \<longleftrightarrow>
     length (ch_legacy_session_id m) < 2 ^ 8 \<and> 2 * length (ch_cipher_suites m) < 2 ^ 16 \<and>
     length (ch_legacy_compression_methods m) < 2 ^ 8 \<and> exts_fit (ch_extensions m)"
| "frame_fields_fit (FServerHello m) \<longleftrightarrow>
     length (sh_legacy_session_id_echo m) < 2 ^ 8 \<and> exts_fit (sh_extensions m)"
| "frame_fields_fit (FEncryptedExtensions m) \<longleftrightarrow> exts_fit (ee_extensions m)"
| "frame_fields_fit (FCertificateRequest m) \<longleftrightarrow>
     length (cr_context m) < 2 ^ 8 \<and> exts_fit (cr_extensions m)"
| "frame_fields_fit (FCertificate m) \<longleftrightarrow>
     length (certificate_request_context m) < 2 ^ 8 \<and> (\<forall>e\<in>set (certificate_list m). entry_fits e) \<and>
     length (entries_bytes (certificate_list m)) < 2 ^ 24"
| "frame_fields_fit (FCertificateVerify m) \<longleftrightarrow> length (cv_signature m) < 2 ^ 16"
| "frame_fields_fit (FFinished m) \<longleftrightarrow> True"
| "frame_fields_fit FEndOfEarlyData \<longleftrightarrow> True"
| "frame_fields_fit (FKeyUpdate m) \<longleftrightarrow> True"
| "frame_fields_fit (FNewSessionTicket m) \<longleftrightarrow>
     length (ticket_nonce m) < 2 ^ 8 \<and> length (ticket_bytes m) < 2 ^ 16 \<and> exts_fit (ticket_extensions m)"

definition frame_fits :: "frame \<Rightarrow> bool" where
  "frame_fits f \<longleftrightarrow> frame_fields_fit f \<and> length (frame_body_bytes f) < 2 ^ 24"

lemma length_vec [simp]:
  "length (vec8 bs) = 1 + length bs" "length (vec16 bs) = 2 + length bs" "length (vec24 bs) = 3 + length bs"
  by (simp_all add: vec8_def vec16_def vec24_def)

lemma length_u16s_bytes [simp]: "length (u16s_bytes xs) = 2 * length xs"
  by (induction xs) (simp_all add: u16s_bytes_def)

lemma length_frame_bytes: "length (frame_bytes f) = 4 + length (frame_body_bytes f)"
  by (simp add: frame_bytes_def)

subsection \<open>Every target receives the reference encoding\<close>

context encoder
begin

lemma emits_vec:
  "emits_on good fits ext body bs \<Longrightarrow> length bs < 2 ^ 8 \<Longrightarrow> emits_on good fits ext (framed_u8 E body) (vec8 bs)"
  "emits_on good fits ext body bs \<Longrightarrow> length bs < 2 ^ 16 \<Longrightarrow> emits_on good fits ext (framed_u16 E body) (vec16 bs)"
  "emits_on good fits ext body bs \<Longrightarrow> length bs < 2 ^ 24 \<Longrightarrow> emits_on good fits ext (framed_u24 E body) (vec24 bs)"
  unfolding vec8_def vec16_def vec24_def
  by (rule emits_framed_u8 emits_framed_u16 emits_framed_u24, assumption+)+

lemma emits_ext_list:
  "exts_fit xs \<Longrightarrow> emits_on good fits ext (extension_encode_list E xs) (vec16 (exts_bytes xs))"
  by (simp add: exts_fit_def vec16_def emits_extension_list)

lemmas emits_fields = emits_put emits_skip emits_then emits_vec emits_ext_list

lemma emits_u16s:
  "emits_on good fits ext (for_each_w (\<lambda>x. emit (put_u16 E x)) xs) (u16s_bytes xs)"
  unfolding u16s_bytes_def by (intro emits_for_each emits_put)

lemma emits_client_hello:
  "frame_fields_fit (FClientHello m) \<Longrightarrow>
     emits_on good fits ext (client_hello_encode E m) (client_hello_bytes m)"
  unfolding client_hello_encode_def client_hello_bytes_def
  by (intro emits_fields emits_u16s) simp_all

lemma emits_server_hello:
  "frame_fields_fit (FServerHello m) \<Longrightarrow>
     emits_on good fits ext (server_hello_encode E m) (server_hello_bytes m)"
  unfolding server_hello_encode_def server_hello_bytes_def by (intro emits_fields) simp_all

lemma emits_certificate_entry:
  "entry_fits e \<Longrightarrow> emits_on good fits ext (certificate_entry_encode E e) (certificate_entry_bytes e)"
  unfolding certificate_entry_encode_def certificate_entry_bytes_def entry_fits_def
  by (intro emits_fields) simp_all

lemma emits_entries:
  "\<forall>e\<in>set es. entry_fits e \<Longrightarrow>
     emits_on good fits ext (for_each_w (certificate_entry_encode E) es) (entries_bytes es)"
  unfolding entries_bytes_def by (rule emits_for_each) (simp add: emits_certificate_entry)

lemma emits_certificate_verify:
  "length sig < 2 ^ 16 \<Longrightarrow>
     emits_on good fits ext (certificate_verify_encode_fields E a sig)
       (certificate_verify_bytes \<lparr>cv_algorithm = a, cv_signature = sig\<rparr>)"
  unfolding certificate_verify_encode_fields_def certificate_verify_bytes_def certificate_verify.simps
  by (intro emits_fields)

lemma emits_new_session_ticket:
  "frame_fields_fit (FNewSessionTicket m) \<Longrightarrow>
     emits_on good fits ext (new_session_ticket_encode E m) (new_session_ticket_bytes m)"
  unfolding new_session_ticket_encode_def new_session_ticket_bytes_def
  by (intro emits_fields) simp_all

lemma emits_frame_body:
  "frame_fields_fit f \<Longrightarrow> emits_on good fits ext (frame_encode_body E f) (frame_body_bytes f)"
proof (cases f)
  case (FCertificateVerify m)
  moreover assume "frame_fields_fit f"
  ultimately show ?thesis
    using emits_certificate_verify [of "cv_signature m" "cv_algorithm m"]
    by (simp add: certificate_verify_encode_def certificate_verify_bytes_def)
qed (auto simp: certificate_encode_def certificate_request_encode_def
      finished_encode_def encode_verify_data_def key_update_encode_def encrypted_extensions_encode_def
      intro!: emits_fields emits_client_hello emits_server_hello emits_entries
        emits_new_session_ticket emits_ext_list [unfolded extension_encode_list_def])

lemma emits_frame:
  assumes "frame_fits f"
  shows "emits_on good fits ext (frame_encode E f) (frame_bytes f)"
proof -
  have "emits_on good fits ext (frame_encode E f)
      ([hs_type_u8 (frame_msg_type f)] @ vec24 (frame_body_bytes f))"
    unfolding frame_encode_def
    using assms by (intro emits_fields emits_frame_body) (simp_all add: frame_fits_def)
  then show ?thesis by (simp add: frame_bytes_def)
qed

lemma frame_body_overflow:
  assumes "frame_fields_fit f" "2 ^ 24 \<le> length (frame_body_bytes f)"
    and "good s" "fits s (length (frame_bytes f))"
  shows "fst (frame_encode E f s) = Inl Overflow"
proof -
  let ?t = "[hs_type_u8 (frame_msg_type f)]"
  have 1: "fits s (length ?t)" using assms(4) by (rule fits_mono) (simp add: length_frame_bytes)
  have "fits (ext s ?t) (3 + length (frame_body_bytes f))"
    using assms(3,4) by (intro fits_ext) (simp_all add: length_frame_bytes)
  then have "framed E 3 (2 ^ 24 - 1) (frame_encode_body E f) (ext s ?t) = (Inl Overflow, ext s ?t)"
    using assms 1 framed_overflow [OF emits_frame_body [OF assms(1)]]
    by (simp add: good_ext)
  then show ?thesis
    using emitsD [OF emits_put(1) assms(3), of "hs_type_u8 (frame_msg_type f)"] 1
    by (simp add: frame_encode_def then_w_def framed_u24_def)
qed

end

context safe_encoder
begin

lemma safe_certificate_entry: "safe_writer wfs cfg view (certificate_entry_encode E e)"
  unfolding certificate_entry_encode_def by (intro safe_rules safe_extension_list)

lemma safe_frame_body: "safe_writer wfs cfg view (frame_encode_body E f)"
  by (cases f)
    (auto simp: client_hello_encode_def server_hello_encode_def encrypted_extensions_encode_def
      certificate_encode_def certificate_request_encode_def certificate_verify_encode_def
      certificate_verify_encode_fields_def finished_encode_def encode_verify_data_def
      key_update_encode_def new_session_ticket_encode_def
      intro!: safe_rules safe_extension safe_extension_list safe_certificate_entry)

lemma safe_frame: "safe_writer wfs cfg view (frame_encode E f)"
  unfolding frame_encode_def by (intro safe_rules safe_frame_body)

end

end
