(* ===== verification/Views.thy ===== *)
theory Views
  imports Messages
begin

section \<open>Handshake decoders\<close>

text \<open>
  \<open>wire/handshake/views.rs\<close>: the borrowed views, their decoders and \<open>into_owned\<close>.  Every
  decoder is characterised by an equivalence: it returns a view and a rest exactly when the
  input starts with the reference encoding of a well-formed message of which the view is
  the borrowed form.  Round trips in both directions follow.
\<close>

subsection \<open>U16List\<close>

definition u16_list_decode :: "bytes decoder" where
  "u16_list_decode r = framed_decode_u16 2 2 r"

definition u16s_next :: "reader \<Rightarrow> (u16 \<times> reader) option" where
  "u16s_next r = (if r = [] then None else result_ok (reader_u16 r))"

lemma u16s_next_consumes: "u16s_next r = Some (v, r') \<Longrightarrow> length r' < length r"
  by (auto simp: u16s_next_def reader_eq_Inr split: if_splits)

function u16_list_iter :: "reader \<Rightarrow> u16 list" where
  "u16_list_iter r = (case u16s_next r of None \<Rightarrow> [] | Some (v, r') \<Rightarrow> v # u16_list_iter r')"
  by pat_completeness auto
termination
  by (relation "measure length") (auto dest: u16s_next_consumes)

declare u16_list_iter.simps [simp del]

definition u16_list_contains :: "bytes \<Rightarrow> u16 \<Rightarrow> bool" where
  "u16_list_contains encoded needle \<longleftrightarrow> list_ex (\<lambda>v. v = needle) (u16_list_iter encoded)"

definition u16_list_is_empty :: "bytes \<Rightarrow> bool" where
  "u16_list_is_empty encoded \<longleftrightarrow> encoded = []"

definition u16_list_len :: "bytes \<Rightarrow> nat" where
  "u16_list_len encoded = length encoded div 2"

subsection \<open>The views\<close>

record client_hello_ref =
  chr_legacy_version :: u16
  chr_random :: bytes
  chr_legacy_session_id :: bytes
  chr_cipher_suites :: bytes
  chr_legacy_compression_methods :: bytes
  chr_extensions :: bytes

definition client_hello_ref_decode :: "u16 copy_inline \<Rightarrow> client_hello_ref decoder" where
  "client_hello_ref_decode ci r =
     and_then (reader_u16 r) (\<lambda>(version, r).
     and_then (reader_take RANDOM_LEN r) (\<lambda>(random, r).
     and_then (reader_vec_u8 r) (\<lambda>(session_id, r).
     and_then (u16_list_decode r) (\<lambda>(suites, r).
     and_then (reader_vec_u8 r) (\<lambda>(compression, r).
     and_then (extensions_decode ci r) (\<lambda>(exts, r).
     Inr (\<lparr>chr_legacy_version = version, chr_random = random, chr_legacy_session_id = session_id,
           chr_cipher_suites = suites, chr_legacy_compression_methods = compression,
           chr_extensions = exts\<rparr>, r)))))))"

definition client_hello_into_owned :: "client_hello_ref \<Rightarrow> client_hello" where
  "client_hello_into_owned m =
     \<lparr>ch_legacy_version = chr_legacy_version m, ch_random = chr_random m,
      ch_legacy_session_id = chr_legacy_session_id m,
      ch_cipher_suites = u16_list_iter (chr_cipher_suites m),
      ch_legacy_compression_methods = chr_legacy_compression_methods m,
      ch_extensions = extensions_into_owned (chr_extensions m)\<rparr>"

record server_hello_ref =
  shr_legacy_version :: u16
  shr_random :: bytes
  shr_legacy_session_id_echo :: bytes
  shr_cipher_suite :: u16
  shr_legacy_compression_method :: u8
  shr_extensions :: bytes

definition server_hello_ref_decode :: "u16 copy_inline \<Rightarrow> server_hello_ref decoder" where
  "server_hello_ref_decode ci r =
     and_then (reader_u16 r) (\<lambda>(version, r).
     and_then (reader_take RANDOM_LEN r) (\<lambda>(random, r).
     and_then (reader_vec_u8 r) (\<lambda>(session_id, r).
     and_then (reader_u16 r) (\<lambda>(suite, r).
     and_then (reader_u8 r) (\<lambda>(compression, r).
     and_then (extensions_decode ci r) (\<lambda>(exts, r).
     Inr (\<lparr>shr_legacy_version = version, shr_random = random,
           shr_legacy_session_id_echo = session_id, shr_cipher_suite = suite,
           shr_legacy_compression_method = compression, shr_extensions = exts\<rparr>, r)))))))"

definition server_hello_into_owned :: "server_hello_ref \<Rightarrow> server_hello" where
  "server_hello_into_owned m =
     \<lparr>sh_legacy_version = shr_legacy_version m, sh_random = shr_random m,
      sh_legacy_session_id_echo = shr_legacy_session_id_echo m,
      sh_cipher_suite = shr_cipher_suite m,
      sh_legacy_compression_method = shr_legacy_compression_method m,
      sh_extensions = extensions_into_owned (shr_extensions m)\<rparr>"

record encrypted_extensions_ref =
  eer_extensions :: bytes

definition encrypted_extensions_ref_decode :: "u16 copy_inline \<Rightarrow> encrypted_extensions_ref decoder" where
  "encrypted_extensions_ref_decode ci r =
     and_then (extensions_decode ci r) (\<lambda>(exts, r). Inr (\<lparr>eer_extensions = exts\<rparr>, r))"

definition encrypted_extensions_into_owned :: "encrypted_extensions_ref \<Rightarrow> encrypted_extensions" where
  "encrypted_extensions_into_owned m = \<lparr>ee_extensions = extensions_into_owned (eer_extensions m)\<rparr>"

record certificate_entry_ref =
  cer_cert_data :: bytes
  cer_extensions :: bytes

definition certificate_entry_ref_decode :: "u16 copy_inline \<Rightarrow> certificate_entry_ref decoder" where
  "certificate_entry_ref_decode ci r =
     and_then (framed_decode_u24 1 1 r) (\<lambda>(data, r).
     and_then (extensions_decode ci r) (\<lambda>(exts, r).
     Inr (\<lparr>cer_cert_data = data, cer_extensions = exts\<rparr>, r)))"

definition certificate_entry_into_owned :: "certificate_entry_ref \<Rightarrow> certificate_entry" where
  "certificate_entry_into_owned m =
     \<lparr>cert_data = cer_cert_data m, cert_extensions = extensions_into_owned (cer_extensions m)\<rparr>"

lemma extensions_decode_consumes: "extensions_decode ci r = Inr (x, r') \<Longrightarrow> length r' < length r"
  by (auto simp: extensions_decode_def and_then_eq_Inr reader_eq_Inr)

lemma certificate_entry_ref_decode_consumes:
  "certificate_entry_ref_decode ci r = Inr (x, r') \<Longrightarrow> length r' < length r"
  by (auto simp: certificate_entry_ref_decode_def and_then_eq_Inr reader_eq_Inr
      dest!: extensions_decode_consumes)

record certificate_entries =
  ces_encoded :: bytes
  ces_len :: u8

function entries_scan :: "u16 copy_inline \<Rightarrow> reader \<Rightarrow> nat \<Rightarrow> decode_error + nat" where
  "entries_scan ci r n =
     (if r = [] then Inr n
      else if n = MAX_CERTIFICATE_ENTRIES then Inl TooManyCertificates
      else and_then (certificate_entry_ref_decode ci r) (\<lambda>(_, r'). entries_scan ci r' (n + 1)))"
  by pat_completeness auto
termination
  by (relation "measure (\<lambda>(ci, r, n). length r)") (auto dest: certificate_entry_ref_decode_consumes)

declare entries_scan.simps [simp del]

definition certificate_entries_decode :: "u16 copy_inline \<Rightarrow> bytes \<Rightarrow> decode_error + certificate_entries" where
  "certificate_entries_decode ci encoded =
     and_then (entries_scan ci encoded 0) (\<lambda>n.
     Inr \<lparr>ces_encoded = encoded, ces_len = word_of_nat n\<rparr>)"

definition entries_next :: "u16 copy_inline \<Rightarrow> reader \<Rightarrow> (certificate_entry_ref \<times> reader) option" where
  "entries_next ci r = (if r = [] then None else result_ok (certificate_entry_ref_decode ci r))"

function entries_iter :: "u16 copy_inline \<Rightarrow> reader \<Rightarrow> certificate_entry_ref list" where
  "entries_iter ci r =
     (case entries_next ci r of None \<Rightarrow> [] | Some (x, r') \<Rightarrow> x # entries_iter ci r')"
  by pat_completeness auto
termination
  by (relation "measure (\<lambda>(ci, r). length r)")
    (auto simp: entries_next_def dest: certificate_entry_ref_decode_consumes split: if_splits)

declare entries_iter.simps [simp del]

definition certificate_entries_is_empty :: "certificate_entries \<Rightarrow> bool" where
  "certificate_entries_is_empty es \<longleftrightarrow> ces_len es = 0"

definition certificate_entries_len :: "certificate_entries \<Rightarrow> nat" where
  "certificate_entries_len es = unat (ces_len es)"

definition certificate_entries_first ::
    "u16 copy_inline \<Rightarrow> certificate_entries \<Rightarrow> certificate_entry_ref option" where
  "certificate_entries_first ci es = map_option fst (entries_next ci (ces_encoded es))"

record certificate_ref =
  certr_context :: bytes
  certr_list :: certificate_entries

definition certificate_ref_decode :: "u16 copy_inline \<Rightarrow> certificate_ref decoder" where
  "certificate_ref_decode ci r =
     and_then (reader_vec_u8 r) (\<lambda>(ctx, r).
     and_then (reader_vec_u24 r) (\<lambda>(encoded, r).
     and_then (certificate_entries_decode ci encoded) (\<lambda>es.
     Inr (\<lparr>certr_context = ctx, certr_list = es\<rparr>, r))))"

definition certificate_into_owned :: "u16 copy_inline \<Rightarrow> certificate_ref \<Rightarrow> certificate" where
  "certificate_into_owned ci m =
     \<lparr>certificate_request_context = certr_context m,
      certificate_list =
        map certificate_entry_into_owned (entries_iter ci (ces_encoded (certr_list m)))\<rparr>"

record certificate_request_ref =
  crr_context :: bytes
  crr_extensions :: bytes

definition certificate_request_ref_decode :: "u16 copy_inline \<Rightarrow> certificate_request_ref decoder" where
  "certificate_request_ref_decode ci r =
     and_then (reader_vec_u8 r) (\<lambda>(ctx, r).
     and_then (extensions_decode ci r) (\<lambda>(exts, r).
     Inr (\<lparr>crr_context = ctx, crr_extensions = exts\<rparr>, r)))"

definition certificate_request_into_owned :: "certificate_request_ref \<Rightarrow> certificate_request" where
  "certificate_request_into_owned m =
     \<lparr>cr_context = crr_context m, cr_extensions = extensions_into_owned (crr_extensions m)\<rparr>"

record certificate_verify_ref =
  cvr_algorithm :: signature_scheme
  cvr_signature :: bytes

definition certificate_verify_ref_decode :: "certificate_verify_ref decoder" where
  "certificate_verify_ref_decode r =
     and_then (reader_u16 r) (\<lambda>(a, r).
     and_then (reader_vec_u16 r) (\<lambda>(sig, r).
     Inr (\<lparr>cvr_algorithm = from_wire_id a, cvr_signature = sig\<rparr>, r)))"

definition certificate_verify_into_owned :: "certificate_verify_ref \<Rightarrow> certificate_verify" where
  "certificate_verify_into_owned m =
     \<lparr>cv_algorithm = cvr_algorithm m, cv_signature = cvr_signature m\<rparr>"

record new_session_ticket_ref =
  nstr_ticket_lifetime :: u32
  nstr_ticket_age_add :: u32
  nstr_ticket_nonce :: bytes
  nstr_ticket :: bytes
  nstr_extensions :: bytes

definition new_session_ticket_ref_decode :: "u16 copy_inline \<Rightarrow> new_session_ticket_ref decoder" where
  "new_session_ticket_ref_decode ci r =
     and_then (reader_u32 r) (\<lambda>(lifetime, r).
     and_then (reader_u32 r) (\<lambda>(age_add, r).
     and_then (reader_vec_u8 r) (\<lambda>(nonce, r).
     and_then (framed_decode_u16 1 1 r) (\<lambda>(ticket, r).
     and_then (extensions_decode ci r) (\<lambda>(exts, r).
     Inr (\<lparr>nstr_ticket_lifetime = lifetime, nstr_ticket_age_add = age_add,
           nstr_ticket_nonce = nonce, nstr_ticket = ticket, nstr_extensions = exts\<rparr>, r))))))"

definition new_session_ticket_into_owned :: "new_session_ticket_ref \<Rightarrow> new_session_ticket" where
  "new_session_ticket_into_owned m =
     \<lparr>ticket_lifetime = nstr_ticket_lifetime m, ticket_age_add = nstr_ticket_age_add m,
      ticket_nonce = nstr_ticket_nonce m, ticket_bytes = nstr_ticket m,
      ticket_extensions = extensions_into_owned (nstr_extensions m)\<rparr>"

subsection \<open>MessageRef\<close>

datatype message_ref =
    RClientHello client_hello_ref
  | RServerHello server_hello_ref
  | REncryptedExtensions encrypted_extensions_ref
  | RCertificateRequest certificate_request_ref
  | RCertificate certificate_ref
  | RCertificateVerify certificate_verify_ref
  | RFinished bytes
  | REndOfEarlyData
  | RKeyUpdate key_update
  | RNewSessionTicket new_session_ticket_ref

definition wrap_decoder :: "('a \<Rightarrow> 'b) \<Rightarrow> 'a decoder \<Rightarrow> 'b decoder" where
  "wrap_decoder f d r = and_then (d r) (\<lambda>(x, r). Inr (f x, r))"

fun message_ref_body :: "u16 copy_inline \<Rightarrow> hs_type \<Rightarrow> message_ref decoder" where
  "message_ref_body ci TClientHello body = wrap_decoder RClientHello (client_hello_ref_decode ci) body"
| "message_ref_body ci TServerHello body = wrap_decoder RServerHello (server_hello_ref_decode ci) body"
| "message_ref_body ci TEncryptedExtensions body =
     wrap_decoder REncryptedExtensions (encrypted_extensions_ref_decode ci) body"
| "message_ref_body ci TCertificateRequest body =
     wrap_decoder RCertificateRequest (certificate_request_ref_decode ci) body"
| "message_ref_body ci TCertificate body = wrap_decoder RCertificate (certificate_ref_decode ci) body"
| "message_ref_body ci TCertificateVerify body =
     wrap_decoder RCertificateVerify certificate_verify_ref_decode body"
| "message_ref_body ci TFinished body = (let (bs, rest) = reader_take_all body in Inr (RFinished bs, rest))"
| "message_ref_body ci TEndOfEarlyData body = Inr (REndOfEarlyData, body)"
| "message_ref_body ci TKeyUpdate body = wrap_decoder RKeyUpdate key_update_decode body"
| "message_ref_body ci TNewSessionTicket body =
     wrap_decoder RNewSessionTicket (new_session_ticket_ref_decode ci) body"
| "message_ref_body ci TMessageHash body = Inl InvalidEnum"

definition message_ref_decode_from :: "u16 copy_inline \<Rightarrow> message_ref decoder" where
  "message_ref_decode_from ci r =
     and_then (reader_u8 r) (\<lambda>(b, r).
     and_then (hs_type_from_u8 b) (\<lambda>ty.
     and_then (reader_sub_u24 r) (\<lambda>(body, r).
     and_then (message_ref_body ci ty body) (\<lambda>(message, body).
     and_then (reader_finish body) (\<lambda>_.
     Inr (message, r))))))"

definition message_ref_decode :: "u16 copy_inline \<Rightarrow> bytes \<Rightarrow> decode_error + message_ref" where
  "message_ref_decode ci raw =
     and_then (message_ref_decode_from ci raw) (\<lambda>(message, r).
     and_then (reader_finish r) (\<lambda>_. Inr message))"

fun message_ref_msg_type :: "message_ref \<Rightarrow> hs_type" where
  "message_ref_msg_type (RClientHello _) = TClientHello"
| "message_ref_msg_type (RServerHello _) = TServerHello"
| "message_ref_msg_type (REncryptedExtensions _) = TEncryptedExtensions"
| "message_ref_msg_type (RCertificateRequest _) = TCertificateRequest"
| "message_ref_msg_type (RCertificate _) = TCertificate"
| "message_ref_msg_type (RCertificateVerify _) = TCertificateVerify"
| "message_ref_msg_type (RFinished _) = TFinished"
| "message_ref_msg_type REndOfEarlyData = TEndOfEarlyData"
| "message_ref_msg_type (RKeyUpdate _) = TKeyUpdate"
| "message_ref_msg_type (RNewSessionTicket _) = TNewSessionTicket"

fun message_ref_into_owned :: "u16 copy_inline \<Rightarrow> message_ref \<Rightarrow> frame" where
  "message_ref_into_owned ci (RClientHello m) = FClientHello (client_hello_into_owned m)"
| "message_ref_into_owned ci (RServerHello m) = FServerHello (server_hello_into_owned m)"
| "message_ref_into_owned ci (REncryptedExtensions m) =
     FEncryptedExtensions (encrypted_extensions_into_owned m)"
| "message_ref_into_owned ci (RCertificateRequest m) =
     FCertificateRequest (certificate_request_into_owned m)"
| "message_ref_into_owned ci (RCertificate m) = FCertificate (certificate_into_owned ci m)"
| "message_ref_into_owned ci (RCertificateVerify m) =
     FCertificateVerify (certificate_verify_into_owned m)"
| "message_ref_into_owned ci (RFinished verify_data) = FFinished \<lparr>fin_verify_data = verify_data\<rparr>"
| "message_ref_into_owned ci REndOfEarlyData = FEndOfEarlyData"
| "message_ref_into_owned ci (RKeyUpdate m) = FKeyUpdate m"
| "message_ref_into_owned ci (RNewSessionTicket m) = FNewSessionTicket (new_session_ticket_into_owned m)"

subsection \<open>Well-formed messages and their borrowed forms\<close>

definition entry_ok :: "certificate_entry \<Rightarrow> bool" where
  "entry_ok e \<longleftrightarrow> 1 \<le> length (cert_data e) \<and> length (cert_data e) < 2 ^ 24 \<and> exts_ok (cert_extensions e)"

fun frame_fields_ok :: "frame \<Rightarrow> bool" where
  "frame_fields_ok (FClientHello m) \<longleftrightarrow>
     length (ch_random m) = RANDOM_LEN \<and> length (ch_legacy_session_id m) < 2 ^ 8 \<and>
     ch_cipher_suites m \<noteq> [] \<and> 2 * length (ch_cipher_suites m) < 2 ^ 16 \<and>
     length (ch_legacy_compression_methods m) < 2 ^ 8 \<and> exts_ok (ch_extensions m)"
| "frame_fields_ok (FServerHello m) \<longleftrightarrow>
     length (sh_random m) = RANDOM_LEN \<and> length (sh_legacy_session_id_echo m) < 2 ^ 8 \<and>
     exts_ok (sh_extensions m)"
| "frame_fields_ok (FEncryptedExtensions m) \<longleftrightarrow> exts_ok (ee_extensions m)"
| "frame_fields_ok (FCertificateRequest m) \<longleftrightarrow> length (cr_context m) < 2 ^ 8 \<and> exts_ok (cr_extensions m)"
| "frame_fields_ok (FCertificate m) \<longleftrightarrow>
     length (certificate_request_context m) < 2 ^ 8 \<and> (\<forall>e\<in>set (certificate_list m). entry_ok e) \<and>
     length (certificate_list m) \<le> MAX_CERTIFICATE_ENTRIES \<and>
     length (entries_bytes (certificate_list m)) < 2 ^ 24"
| "frame_fields_ok (FCertificateVerify m) \<longleftrightarrow> length (cv_signature m) < 2 ^ 16"
| "frame_fields_ok (FFinished m) \<longleftrightarrow> True"
| "frame_fields_ok FEndOfEarlyData \<longleftrightarrow> True"
| "frame_fields_ok (FKeyUpdate m) \<longleftrightarrow> True"
| "frame_fields_ok (FNewSessionTicket m) \<longleftrightarrow>
     length (ticket_nonce m) < 2 ^ 8 \<and> 1 \<le> length (ticket_bytes m) \<and> length (ticket_bytes m) < 2 ^ 16 \<and>
     exts_ok (ticket_extensions m)"

definition frame_ok :: "frame \<Rightarrow> bool" where
  "frame_ok f \<longleftrightarrow> frame_fields_ok f \<and> length (frame_body_bytes f) < 2 ^ 24"

definition entry_ref :: "certificate_entry \<Rightarrow> certificate_entry_ref" where
  "entry_ref e = \<lparr>cer_cert_data = cert_data e, cer_extensions = exts_bytes (cert_extensions e)\<rparr>"

fun frame_ref :: "frame \<Rightarrow> message_ref" where
  "frame_ref (FClientHello m) = RClientHello
     \<lparr>chr_legacy_version = ch_legacy_version m, chr_random = ch_random m,
      chr_legacy_session_id = ch_legacy_session_id m,
      chr_cipher_suites = u16s_bytes (ch_cipher_suites m),
      chr_legacy_compression_methods = ch_legacy_compression_methods m,
      chr_extensions = exts_bytes (ch_extensions m)\<rparr>"
| "frame_ref (FServerHello m) = RServerHello
     \<lparr>shr_legacy_version = sh_legacy_version m, shr_random = sh_random m,
      shr_legacy_session_id_echo = sh_legacy_session_id_echo m, shr_cipher_suite = sh_cipher_suite m,
      shr_legacy_compression_method = sh_legacy_compression_method m,
      shr_extensions = exts_bytes (sh_extensions m)\<rparr>"
| "frame_ref (FEncryptedExtensions m) =
     REncryptedExtensions \<lparr>eer_extensions = exts_bytes (ee_extensions m)\<rparr>"
| "frame_ref (FCertificateRequest m) =
     RCertificateRequest \<lparr>crr_context = cr_context m, crr_extensions = exts_bytes (cr_extensions m)\<rparr>"
| "frame_ref (FCertificate m) = RCertificate
     \<lparr>certr_context = certificate_request_context m,
      certr_list = \<lparr>ces_encoded = entries_bytes (certificate_list m),
                    ces_len = word_of_nat (length (certificate_list m))\<rparr>\<rparr>"
| "frame_ref (FCertificateVerify m) =
     RCertificateVerify \<lparr>cvr_algorithm = cv_algorithm m, cvr_signature = cv_signature m\<rparr>"
| "frame_ref (FFinished m) = RFinished (fin_verify_data m)"
| "frame_ref FEndOfEarlyData = REndOfEarlyData"
| "frame_ref (FKeyUpdate m) = RKeyUpdate m"
| "frame_ref (FNewSessionTicket m) = RNewSessionTicket
     \<lparr>nstr_ticket_lifetime = ticket_lifetime m, nstr_ticket_age_add = ticket_age_add m,
      nstr_ticket_nonce = ticket_nonce m, nstr_ticket = ticket_bytes m,
      nstr_extensions = exts_bytes (ticket_extensions m)\<rparr>"

lemma exts_ok_fit: "exts_ok xs \<Longrightarrow> exts_fit xs"
  by (simp add: exts_ok_def exts_fit_def)

lemma frame_ok_fits: "frame_ok f \<Longrightarrow> frame_fits f"
  unfolding frame_ok_def frame_fits_def
  by (cases f) (auto simp: exts_ok_fit entry_ok_def entry_fits_def)

subsection \<open>Running the readers on reference encodings\<close>

lemma reader_run [simp]:
  "reader_u8 (b # r) = Inr (b, r)"
  "reader_u16 (be_bytes 2 (unat h) @ r) = Inr (h, r)"
  "reader_u32 (be_bytes 4 (unat w) @ r) = Inr (w, r)"
  "length x = n \<Longrightarrow> reader_take n (x @ r) = Inr (x, r)"
  "length x < 2 ^ 8 \<Longrightarrow> reader_vec_u8 (vec8 x @ r) = Inr (x, r)"
  "length x < 2 ^ 16 \<Longrightarrow> reader_vec_u16 (vec16 x @ r) = Inr (x, r)"
  "length x < 2 ^ 24 \<Longrightarrow> reader_vec_u24 (vec24 x @ r) = Inr (x, r)"
  "length x < 2 ^ 16 \<Longrightarrow> m \<le> length x \<Longrightarrow> a dvd length x \<Longrightarrow> a \<noteq> 0 \<Longrightarrow>
     framed_decode_u16 m a (vec16 x @ r) = Inr (x, r)"
  "length x < 2 ^ 24 \<Longrightarrow> m \<le> length x \<Longrightarrow> a dvd length x \<Longrightarrow> a \<noteq> 0 \<Longrightarrow>
     framed_decode_u24 m a (vec24 x @ r) = Inr (x, r)"
  by (simp_all add: reader_eq_Inr vec8_def vec16_def vec24_def del: be_bytes.simps)

lemma reader_run_Nil [simp]:
  "length x < 2 ^ 8 \<Longrightarrow> reader_vec_u8 (vec8 x) = Inr (x, [])"
  "length x < 2 ^ 16 \<Longrightarrow> reader_vec_u16 (vec16 x) = Inr (x, [])"
  "length x < 2 ^ 24 \<Longrightarrow> reader_vec_u24 (vec24 x) = Inr (x, [])"
  using reader_run(5-7) [of x "[]"] by simp_all

lemma extensions_run [simp]:
  "copy_inline_ok ci \<Longrightarrow> exts_ok xs \<Longrightarrow>
     extensions_decode ci (vec16 (exts_bytes xs) @ r) = Inr (exts_bytes xs, r)"
  "copy_inline_ok ci \<Longrightarrow> exts_ok xs \<Longrightarrow>
     extensions_decode ci (vec16 (exts_bytes xs)) = Inr (exts_bytes xs, [])"
  by (auto simp: extensions_decode_eq_Inr vec16_def)

lemma extensions_decodeE:
  assumes "copy_inline_ok ci" "extensions_decode ci r = Inr (v, r')"
  obtains xs where "exts_ok xs" "v = exts_bytes xs" "r = vec16 (exts_bytes xs) @ r'"
  using assms by (auto simp: extensions_decode_eq_Inr vec16_def)

lemma into_owned_exts_bytes [simp]: "exts_ok xs \<Longrightarrow> extensions_into_owned (exts_bytes xs) = xs"
  by (simp add: extensions_into_owned_def extensions_iter_exts_bytes exts_ok_def)

lemma u16s_bytes_simps [simp]:
  "u16s_bytes [] = []" "u16s_bytes (x # xs) = be_bytes 2 (unat x) @ u16s_bytes xs"
  by (simp_all add: u16s_bytes_def)

lemma u16s_next_run [simp]:
  "u16s_next [] = None" "u16s_next (be_bytes 2 (unat x) @ r) = Some (x, r)"
proof -
  have "be_bytes 2 (unat x) \<noteq> []" by (metis length_be_bytes list.size(3) zero_neq_numeral)
  then show "u16s_next (be_bytes 2 (unat x) @ r) = Some (x, r)" by (simp add: u16s_next_def)
qed (simp add: u16s_next_def)

lemma u16_list_iter_bytes [simp]: "u16_list_iter (u16s_bytes xs) = xs"
  by (induction xs) (simp_all add: u16_list_iter.simps)

lemma u16s_bytes_surj: "2 dvd length bs \<Longrightarrow> \<exists>xs. bs = u16s_bytes xs"
proof (induction "length bs" arbitrary: bs rule: less_induct)
  case less
  show ?case
  proof (cases "bs = []")
    case True
    then show ?thesis by (intro exI [of _ "[]"]) simp
  next
    case False
    with less.prems obtain a b rest where bs: "bs = [a, b] @ rest"
      by (cases bs; cases "tl bs") auto
    then obtain xs where "rest = u16s_bytes xs" using less.hyps [of rest] less.prems by auto
    moreover obtain w :: u16 where "[a, b] = be_bytes 2 (unat w)"
      using word_of_be_nat_iff [where 'a = 16, of 2 "[a, b]"] by auto
    ultimately show ?thesis using bs by (intro exI [of _ "w # xs"]) simp
  qed
qed

lemma u16_list_decodeE:
  assumes "u16_list_decode r = Inr (v, r')"
  obtains xs where "xs \<noteq> []" "2 * length xs < 2 ^ 16" "v = u16s_bytes xs" "r = vec16 (u16s_bytes xs) @ r'"
proof -
  have v: "2 dvd length v" "2 \<le> length v" "length v < 2 ^ 16" "r = vec16 v @ r'"
    using assms by (auto simp: u16_list_decode_def reader_eq_Inr vec16_def)
  obtain xs where "v = u16s_bytes xs" using u16s_bytes_surj [OF v(1)] ..
  with v show ?thesis by (intro that) auto
qed

lemma u16_list_run [simp]:
  "xs \<noteq> [] \<Longrightarrow> 2 * length xs < 2 ^ 16 \<Longrightarrow>
     u16_list_decode (vec16 (u16s_bytes xs) @ r) = Inr (u16s_bytes xs, r)"
  by (cases xs) (simp_all add: u16_list_decode_def)

subsection \<open>Certificate lists\<close>

lemma entry_ref_decode_run [simp]:
  "copy_inline_ok ci \<Longrightarrow> entry_ok e \<Longrightarrow>
     certificate_entry_ref_decode ci (certificate_entry_bytes e @ r) = Inr (entry_ref e, r)"
  by (simp add: certificate_entry_ref_decode_def certificate_entry_bytes_def entry_ref_def entry_ok_def)

lemma entry_ref_decodeE:
  assumes ci: "copy_inline_ok ci" and "certificate_entry_ref_decode ci r = Inr (v, r')"
  obtains e where "entry_ok e" "v = entry_ref e" "r = certificate_entry_bytes e @ r'"
proof -
  from assms(2) obtain d xs r1 where d: "framed_decode_u24 1 1 r = Inr (d, r1)"
    and x: "extensions_decode ci r1 = Inr (xs, r')"
    and v: "v = \<lparr>cer_cert_data = d, cer_extensions = xs\<rparr>"
    by (auto simp: certificate_entry_ref_decode_def and_then_eq_Inr)
  from extensions_decodeE [OF ci x] obtain es where es: "exts_ok es" "xs = exts_bytes es"
    "r1 = vec16 (exts_bytes es) @ r'" .
  show ?thesis
    by (rule that [of "\<lparr>cert_data = d, cert_extensions = es\<rparr>"])
      (use d es v in \<open>auto simp: reader_eq_Inr entry_ok_def entry_ref_def certificate_entry_bytes_def
         vec24_def simp del: be_bytes.simps\<close>)
qed

lemma entries_bytes_simps [simp]:
  "entries_bytes [] = []"
  "entries_bytes (e # es) = certificate_entry_bytes e @ entries_bytes es"
  by (simp_all add: entries_bytes_def)

lemma entry_bytes_nonempty [simp]: "certificate_entry_bytes e \<noteq> []"
  by (simp add: certificate_entry_bytes_def vec24_def) (metis length_be_bytes list.size(3) zero_neq_numeral)

lemma entries_iter_bytes:
  "copy_inline_ok ci \<Longrightarrow> \<forall>e\<in>set es. entry_ok e \<Longrightarrow> entries_iter ci (entries_bytes es) = map entry_ref es"
  by (induction es) (simp_all add: entries_iter.simps entries_next_def)

lemma entries_scan_run:
  "copy_inline_ok ci \<Longrightarrow> \<forall>e\<in>set es. entry_ok e \<Longrightarrow> n + length es \<le> MAX_CERTIFICATE_ENTRIES \<Longrightarrow>
     entries_scan ci (entries_bytes es) n = Inr (n + length es)"
  by (induction es arbitrary: n) (simp_all add: entries_scan.simps)

lemma entries_scanE:
  assumes "copy_inline_ok ci" "entries_scan ci r n = Inr k" "n \<le> MAX_CERTIFICATE_ENTRIES"
  shows "\<exists>es. (\<forall>e\<in>set es. entry_ok e) \<and> r = entries_bytes es \<and> k = n + length es \<and>
    k \<le> MAX_CERTIFICATE_ENTRIES"
  using assms
proof (induction ci r n rule: entries_scan.induct)
  case (1 ci r n)
  show ?case
  proof (cases "r = []")
    case True
    with "1.prems" show ?thesis by (intro exI [of _ "[]"]) (simp add: entries_scan.simps)
  next
    case False
    with "1.prems" obtain v r' where dec: "certificate_entry_ref_decode ci r = Inr (v, r')"
      and n: "n \<noteq> MAX_CERTIFICATE_ENTRIES" and rec: "entries_scan ci r' (n + 1) = Inr k"
      by (auto simp: entries_scan.simps [of ci r n] and_then_eq_Inr split: if_splits)
    from entry_ref_decodeE [OF "1.prems"(1) dec] obtain e where e: "entry_ok e"
      "r = certificate_entry_bytes e @ r'" .
    from "1.IH" [OF False n dec refl "1.prems"(1) rec] n "1.prems"(3) obtain es where
      "\<forall>e\<in>set es. entry_ok e" "r' = entries_bytes es" "k = n + 1 + length es"
      "k \<le> MAX_CERTIFICATE_ENTRIES" by auto
    with e show ?thesis by (intro exI [of _ "e # es"]) simp
  qed
qed

lemma entry_into_owned_ref [simp]: "entry_ok e \<Longrightarrow> certificate_entry_into_owned (entry_ref e) = e"
  by (simp add: certificate_entry_into_owned_def entry_ref_def entry_ok_def)

lemma entries_into_owned_ref [simp]:
  "\<forall>e\<in>set es. entry_ok e \<Longrightarrow> map (certificate_entry_into_owned \<circ> entry_ref) es = es"
  by (rule map_idI) simp

subsection \<open>Decoding is the inverse of encoding\<close>

lemma hs_type_roundtrip [simp]: "hs_type_from_u8 (hs_type_u8 t) = Inr t"
  by (cases t) (simp_all add: hs_type_from_u8_def)

lemma hs_type_from_u8_eq_Inr: "hs_type_from_u8 b = Inr t \<longleftrightarrow> b = hs_type_u8 t"
proof
  assume "hs_type_from_u8 b = Inr t"
  then show "b = hs_type_u8 t" by (auto simp: hs_type_from_u8_def split: if_splits)
qed simp

lemma signature_scheme_eta [simp]: "SignatureScheme (wire_id a) = a"
  by (cases a) simp

lemma key_update_decode_run [simp]:
  "key_update_decode (key_update_request_u8 q # r) = Inr (\<lparr>ku_request = q\<rparr>, r)"
  by (cases q) (simp_all add: key_update_decode_def key_update_request_from_u8_def)

lemma key_update_decodeE:
  assumes "key_update_decode r = Inr (m, r')"
  shows "r = key_update_request_u8 (ku_request m) # r'"
  using assms
  by (auto simp: key_update_decode_def and_then_eq_Inr reader_eq_Inr key_update_request_from_u8_def
      split: if_splits)

lemma frame_body_decode_run:
  assumes "copy_inline_ok ci" "frame_fields_ok f"
  shows "message_ref_body ci (frame_msg_type f) (frame_body_bytes f) = Inr (frame_ref f, [])"
  using assms
  by (cases f)
    (simp_all add: wrap_decoder_def client_hello_ref_decode_def client_hello_bytes_def
      server_hello_ref_decode_def server_hello_bytes_def encrypted_extensions_ref_decode_def
      certificate_request_ref_decode_def certificate_ref_decode_def certificate_entries_decode_def
      certificate_verify_ref_decode_def certificate_verify_bytes_def from_wire_id_def
      new_session_ticket_ref_decode_def new_session_ticket_bytes_def reader_take_all_def
      entries_scan_run)

lemma frame_ref_into_owned:
  "copy_inline_ok ci \<Longrightarrow> frame_fields_ok f \<Longrightarrow> message_ref_into_owned ci (frame_ref f) = f"
  by (cases f)
    (auto simp: client_hello_into_owned_def server_hello_into_owned_def
      encrypted_extensions_into_owned_def certificate_request_into_owned_def certificate_into_owned_def
      certificate_verify_into_owned_def new_session_ticket_into_owned_def entries_iter_bytes)

text \<open>
  The converse, decoder by decoder: what a body decoder accepts is the reference encoding
  of a well-formed message.
\<close>

lemma client_hello_decodeE:
  assumes ci: "copy_inline_ok ci" and dec: "client_hello_ref_decode ci r = Inr (v, r')"
  shows "\<exists>m. frame_fields_ok (FClientHello m) \<and> frame_ref (FClientHello m) = RClientHello v \<and>
    r = client_hello_bytes m @ r'"
proof -
  from dec obtain ver r1 random r2 sid r3 suites r4 comp r5 exts where
    1: "reader_u16 r = Inr (ver, r1)" "reader_take RANDOM_LEN r1 = Inr (random, r2)"
       "reader_vec_u8 r2 = Inr (sid, r3)" "reader_vec_u8 r4 = Inr (comp, r5)"
    and 2: "u16_list_decode r3 = Inr (suites, r4)" and 3: "extensions_decode ci r5 = Inr (exts, r')"
    and v: "v = \<lparr>chr_legacy_version = ver, chr_random = random, chr_legacy_session_id = sid,
           chr_cipher_suites = suites, chr_legacy_compression_methods = comp, chr_extensions = exts\<rparr>"
    unfolding client_hello_ref_decode_def by (auto elim!: and_then_InrE)
  obtain ss where ss: "ss \<noteq> []" "2 * length ss < 2 ^ 16" "suites = u16s_bytes ss"
    "r3 = vec16 (u16s_bytes ss) @ r4" using u16_list_decodeE [OF 2] .
  obtain xs where xs: "exts_ok xs" "exts = exts_bytes xs" "r5 = vec16 (exts_bytes xs) @ r'"
    using extensions_decodeE [OF ci 3] .
  let ?m = "\<lparr>ch_legacy_version = ver, ch_random = random, ch_legacy_session_id = sid,
    ch_cipher_suites = ss, ch_legacy_compression_methods = comp, ch_extensions = xs\<rparr>"
  have "r = client_hello_bytes ?m @ r'"
    using 1 ss(4) xs(3) unfolding reader_eq_Inr by (simp add: client_hello_bytes_def vec8_def)
  then show ?thesis using 1 ss v xs by (intro exI [of _ ?m]) (simp add: reader_eq_Inr)
qed

lemma server_hello_decodeE:
  assumes ci: "copy_inline_ok ci" and dec: "server_hello_ref_decode ci r = Inr (v, r')"
  shows "\<exists>m. frame_fields_ok (FServerHello m) \<and> frame_ref (FServerHello m) = RServerHello v \<and>
    r = server_hello_bytes m @ r'"
proof -
  from dec obtain ver r1 random r2 sid r3 suite r4 comp r5 exts where
    1: "reader_u16 r = Inr (ver, r1)" "reader_take RANDOM_LEN r1 = Inr (random, r2)"
       "reader_vec_u8 r2 = Inr (sid, r3)" "reader_u16 r3 = Inr (suite, r4)"
       "reader_u8 r4 = Inr (comp, r5)"
    and 2: "extensions_decode ci r5 = Inr (exts, r')"
    and v: "v = \<lparr>shr_legacy_version = ver, shr_random = random, shr_legacy_session_id_echo = sid,
           shr_cipher_suite = suite, shr_legacy_compression_method = comp, shr_extensions = exts\<rparr>"
    unfolding server_hello_ref_decode_def by (auto elim!: and_then_InrE)
  obtain xs where xs: "exts_ok xs" "exts = exts_bytes xs" "r5 = vec16 (exts_bytes xs) @ r'"
    using extensions_decodeE [OF ci 2] .
  let ?m = "\<lparr>sh_legacy_version = ver, sh_random = random, sh_legacy_session_id_echo = sid,
    sh_cipher_suite = suite, sh_legacy_compression_method = comp, sh_extensions = xs\<rparr>"
  have "r = server_hello_bytes ?m @ r'"
    using 1 xs(3) unfolding reader_eq_Inr by (simp add: server_hello_bytes_def vec8_def)
  then show ?thesis using 1 v xs by (intro exI [of _ ?m]) (simp add: reader_eq_Inr)
qed

lemma certificate_decodeE:
  assumes ci: "copy_inline_ok ci" and dec: "certificate_ref_decode ci r = Inr (v, r')"
  shows "\<exists>m. frame_fields_ok (FCertificate m) \<and> frame_ref (FCertificate m) = RCertificate v \<and>
    r = frame_body_bytes (FCertificate m) @ r'"
proof -
  from dec obtain ctx r1 encoded n where
    1: "reader_vec_u8 r = Inr (ctx, r1)" "reader_vec_u24 r1 = Inr (encoded, r')"
    and 2: "entries_scan ci encoded 0 = Inr n"
    and v: "v = \<lparr>certr_context = ctx,
      certr_list = \<lparr>ces_encoded = encoded, ces_len = word_of_nat n\<rparr>\<rparr>"
    unfolding certificate_ref_decode_def certificate_entries_decode_def by (auto elim!: and_then_InrE)
  from entries_scanE [OF ci 2] obtain es where
    es: "\<forall>e\<in>set es. entry_ok e" "encoded = entries_bytes es" "n = length es"
      "length es \<le> MAX_CERTIFICATE_ENTRIES" by auto
  have "r = vec8 ctx @ vec24 (entries_bytes es) @ r'"
    using 1 es(2) unfolding reader_eq_Inr by (simp add: vec8_def vec24_def)
  then show ?thesis using 1 es v
    by (intro exI [of _ "\<lparr>certificate_request_context = ctx, certificate_list = es\<rparr>"])
      (simp add: reader_eq_Inr)
qed

lemma new_session_ticket_decodeE:
  assumes ci: "copy_inline_ok ci" and dec: "new_session_ticket_ref_decode ci r = Inr (v, r')"
  shows "\<exists>m. frame_fields_ok (FNewSessionTicket m) \<and>
    frame_ref (FNewSessionTicket m) = RNewSessionTicket v \<and> r = new_session_ticket_bytes m @ r'"
proof -
  from dec obtain life r1 age r2 nonce r3 tick r4 exts where
    1: "reader_u32 r = Inr (life, r1)" "reader_u32 r1 = Inr (age, r2)"
       "reader_vec_u8 r2 = Inr (nonce, r3)" "framed_decode_u16 1 1 r3 = Inr (tick, r4)"
    and 2: "extensions_decode ci r4 = Inr (exts, r')"
    and v: "v = \<lparr>nstr_ticket_lifetime = life, nstr_ticket_age_add = age, nstr_ticket_nonce = nonce,
      nstr_ticket = tick, nstr_extensions = exts\<rparr>"
    unfolding new_session_ticket_ref_decode_def by (auto elim!: and_then_InrE)
  obtain xs where xs: "exts_ok xs" "exts = exts_bytes xs" "r4 = vec16 (exts_bytes xs) @ r'"
    using extensions_decodeE [OF ci 2] .
  let ?m = "\<lparr>ticket_lifetime = life, ticket_age_add = age, ticket_nonce = nonce, ticket_bytes = tick,
    ticket_extensions = xs\<rparr>"
  have "r = new_session_ticket_bytes ?m @ r'"
    using 1 xs(3) unfolding reader_eq_Inr by (simp add: new_session_ticket_bytes_def vec8_def vec16_def)
  then show ?thesis using 1 v xs by (intro exI [of _ ?m]) (auto simp: reader_eq_Inr)
qed

lemma small_decodeE:
  assumes ci: "copy_inline_ok ci"
  shows "encrypted_extensions_ref_decode ci r = Inr (v, r') \<Longrightarrow>
      \<exists>m. frame_fields_ok (FEncryptedExtensions m) \<and>
        frame_ref (FEncryptedExtensions m) = REncryptedExtensions v \<and>
        r = frame_body_bytes (FEncryptedExtensions m) @ r'"
    and "certificate_request_ref_decode ci r = Inr (q, r') \<Longrightarrow>
      \<exists>m. frame_fields_ok (FCertificateRequest m) \<and>
        frame_ref (FCertificateRequest m) = RCertificateRequest q \<and>
        r = frame_body_bytes (FCertificateRequest m) @ r'"
    and "certificate_verify_ref_decode r = Inr (c, r') \<Longrightarrow>
      \<exists>m. frame_fields_ok (FCertificateVerify m) \<and>
        frame_ref (FCertificateVerify m) = RCertificateVerify c \<and>
        r = frame_body_bytes (FCertificateVerify m) @ r'"
proof -
  assume "encrypted_extensions_ref_decode ci r = Inr (v, r')"
  then have dec: "extensions_decode ci r = Inr (eer_extensions v, r')"
    by (auto simp: encrypted_extensions_ref_decode_def elim!: and_then_InrE)
  obtain xs where "exts_ok xs" "eer_extensions v = exts_bytes xs" "r = vec16 (exts_bytes xs) @ r'"
    using extensions_decodeE [OF ci dec] .
  then show "\<exists>m. frame_fields_ok (FEncryptedExtensions m) \<and>
        frame_ref (FEncryptedExtensions m) = REncryptedExtensions v \<and>
        r = frame_body_bytes (FEncryptedExtensions m) @ r'"
    by (intro exI [of _ "\<lparr>ee_extensions = xs\<rparr>"]) simp
next
  assume "certificate_request_ref_decode ci r = Inr (q, r')"
  then obtain r1 where 1: "reader_vec_u8 r = Inr (crr_context q, r1)"
    and 2: "extensions_decode ci r1 = Inr (crr_extensions q, r')"
    by (auto simp: certificate_request_ref_decode_def elim!: and_then_InrE)
  obtain xs where "exts_ok xs" "crr_extensions q = exts_bytes xs" "r1 = vec16 (exts_bytes xs) @ r'"
    using extensions_decodeE [OF ci 2] .
  with 1 show "\<exists>m. frame_fields_ok (FCertificateRequest m) \<and>
        frame_ref (FCertificateRequest m) = RCertificateRequest q \<and>
        r = frame_body_bytes (FCertificateRequest m) @ r'"
    by (intro exI [of _ "\<lparr>cr_context = crr_context q, cr_extensions = xs\<rparr>"])
      (simp add: reader_eq_Inr vec8_def)
next
  assume "certificate_verify_ref_decode r = Inr (c, r')"
  then show "\<exists>m. frame_fields_ok (FCertificateVerify m) \<and>
        frame_ref (FCertificateVerify m) = RCertificateVerify c \<and>
        r = frame_body_bytes (FCertificateVerify m) @ r'"
    by (intro exI [of _ "\<lparr>cv_algorithm = cvr_algorithm c, cv_signature = cvr_signature c\<rparr>"])
      (auto simp: certificate_verify_ref_decode_def reader_eq_Inr certificate_verify_bytes_def
        vec16_def from_wire_id_def elim!: and_then_InrE)
qed

lemma wrap_decodeE:
  assumes "wrap_decoder g d body = Inr (v, [])"
    and "\<And>x. d body = Inr (x, []) \<Longrightarrow>
      \<exists>m. frame_fields_ok (F m) \<and> frame_ref (F m) = g x \<and> body = frame_body_bytes (F m) @ []"
    and "\<And>m. frame_msg_type (F m) = ty"
  shows "\<exists>f. frame_fields_ok f \<and> frame_msg_type f = ty \<and> frame_ref f = v \<and> body = frame_body_bytes f"
proof -
  from assms(1) obtain x where "d body = Inr (x, [])" "v = g x"
    by (auto simp: wrap_decoder_def elim!: and_then_InrE)
  with assms(2,3) show ?thesis by fastforce
qed

lemma frame_body_decodeE:
  assumes ci: "copy_inline_ok ci" and dec: "message_ref_body ci ty body = Inr (v, [])"
  shows "\<exists>f. frame_fields_ok f \<and> frame_msg_type f = ty \<and> frame_ref f = v \<and> body = frame_body_bytes f"
proof (cases ty)
  case TClientHello
  with dec show ?thesis
    by (auto dest!: wrap_decodeE [where F = FClientHello] client_hello_decodeE [OF ci])
next
  case TServerHello
  with dec show ?thesis
    by (auto dest!: wrap_decodeE [where F = FServerHello] server_hello_decodeE [OF ci])
next
  case TEncryptedExtensions
  with dec show ?thesis
    by (auto dest!: wrap_decodeE [where F = FEncryptedExtensions] small_decodeE(1) [OF ci])
next
  case TCertificateRequest
  with dec show ?thesis
    by (auto dest!: wrap_decodeE [where F = FCertificateRequest] small_decodeE(2) [OF ci])
next
  case TCertificate
  with dec show ?thesis
    by (auto dest!: wrap_decodeE [where F = FCertificate] certificate_decodeE [OF ci])
next
  case TCertificateVerify
  with dec show ?thesis
    by (auto dest!: wrap_decodeE [where F = FCertificateVerify] small_decodeE(3) [OF ci])
next
  case TNewSessionTicket
  with dec show ?thesis
    by (auto dest!: wrap_decodeE [where F = FNewSessionTicket] new_session_ticket_decodeE [OF ci])
next
  case TKeyUpdate
  with dec show ?thesis
    by (auto dest!: wrap_decodeE [where F = FKeyUpdate] key_update_decodeE)
next
  case TFinished
  with dec show ?thesis
    by (intro exI [of _ "FFinished \<lparr>fin_verify_data = body\<rparr>"]) (simp add: reader_take_all_def)
next
  case TEndOfEarlyData
  with dec show ?thesis by (intro exI [of _ FEndOfEarlyData]) simp
qed (use dec in simp)

text \<open>
  \<open>MessageRef::decode_from\<close> accepts exactly the encodings of well-formed messages, and
  leaves what follows the message in the reader.
\<close>

lemma message_ref_decode_from_eq_Inr:
  assumes ci: "copy_inline_ok ci"
  shows "message_ref_decode_from ci r = Inr (v, r') \<longleftrightarrow>
    (\<exists>f. frame_ok f \<and> v = frame_ref f \<and> r = frame_bytes f @ r')"
proof
  assume "message_ref_decode_from ci r = Inr (v, r')"
  then obtain b r1 ty body where b: "reader_u8 r = Inr (b, r1)" "hs_type_from_u8 b = Inr ty"
    "reader_vec_u24 r1 = Inr (body, r')" and body: "message_ref_body ci ty body = Inr (v, [])"
    by (auto simp: message_ref_decode_from_def reader_sub_u24_def reader_finish_eq_Inr
        elim!: and_then_InrE)
  obtain f where "frame_fields_ok f" "frame_msg_type f = ty" "frame_ref f = v" "body = frame_body_bytes f"
    using frame_body_decodeE [OF ci body] by auto
  with b show "\<exists>f. frame_ok f \<and> v = frame_ref f \<and> r = frame_bytes f @ r'"
    by (intro exI [of _ f])
      (auto simp: reader_eq_Inr hs_type_from_u8_eq_Inr frame_ok_def frame_bytes_def vec24_def)
next
  assume "\<exists>f. frame_ok f \<and> v = frame_ref f \<and> r = frame_bytes f @ r'"
  then show "message_ref_decode_from ci r = Inr (v, r')"
    by (auto simp: frame_ok_def frame_bytes_def message_ref_decode_from_def reader_sub_u24_def
        frame_body_decode_run [OF ci] reader_finish_def)
qed

lemma message_ref_decode_eq_Inr:
  assumes "copy_inline_ok ci"
  shows "message_ref_decode ci raw = Inr v \<longleftrightarrow> (\<exists>f. frame_ok f \<and> v = frame_ref f \<and> raw = frame_bytes f)"
  by (auto simp: message_ref_decode_def and_then_eq_Inr message_ref_decode_from_eq_Inr [OF assms]
      reader_finish_eq_Inr)

lemma message_ref_decode_run:
  "copy_inline_ok ci \<Longrightarrow> frame_ok f \<Longrightarrow> message_ref_decode ci (frame_bytes f) = Inr (frame_ref f)"
  by (auto simp: message_ref_decode_eq_Inr)

lemma message_ref_msg_type_ref [simp]: "message_ref_msg_type (frame_ref f) = frame_msg_type f"
  by (cases f) simp_all

lemma frame_bytes_inject:
  assumes "frame_ok f" "frame_ok g" "frame_bytes f = frame_bytes g"
  shows "f = g"
proof -
  have "frame_ref f = frame_ref g"
    using assms message_ref_decode_run [OF copy_inline_ref_ok] by (metis sum.inject(2))
  then show ?thesis
    using assms frame_ref_into_owned [OF copy_inline_ref_ok] by (metis frame_ok_def)
qed

subsection \<open>Properties\<close>

text \<open>
  C1. Round trip of handshake messages.  A well-formed message encodes without error, its
  bytes follow whatever the vector held, and decoding exactly these bytes succeeds and
  materialises the message again.
\<close>

theorem frame_roundtrip:
  assumes "copy_inline_ok ci" and "frame_ok f"
  shows "\<exists>bs v. frame_encode vec_encode f out = (Inr (), out @ bs) \<and>
    message_ref_decode ci bs = Inr v \<and> message_ref_into_owned ci v = f \<and>
    message_ref_msg_type v = frame_msg_type f"
  using assms vec.emitsD [OF vec.emits_frame [OF frame_ok_fits [OF assms(2)]], of out]
  by (intro exI [of _ "frame_bytes f"] exI [of _ "frame_ref f"])
    (simp add: message_ref_decode_run frame_ref_into_owned frame_ok_def)

theorem frame_roundtrip_witness:
  "\<exists>bs v. frame_encode vec_encode
       (FCertificateRequest \<lparr>cr_context = [7], cr_extensions =
         [\<lparr>ext_ty = 13, ext_data = [0, 2, 8, 7]\<rparr>, \<lparr>ext_ty = 43, ext_data = []\<rparr>]\<rparr>) [9] =
     (Inr (), [9] @ bs) \<and> message_ref_decode copy_inline_ref bs = Inr v \<and>
     message_ref_into_owned copy_inline_ref v = (FCertificateRequest \<lparr>cr_context = [7], cr_extensions =
         [\<lparr>ext_ty = 13, ext_data = [0, 2, 8, 7]\<rparr>, \<lparr>ext_ty = 43, ext_data = []\<rparr>]\<rparr>) \<and>
     message_ref_msg_type v = TCertificateRequest"
  using frame_roundtrip [of copy_inline_ref "FCertificateRequest \<lparr>cr_context = [7], cr_extensions =
         [\<lparr>ext_ty = 13, ext_data = [0, 2, 8, 7]\<rparr>, \<lparr>ext_ty = 43, ext_data = []\<rparr>]\<rparr>" "[9]"]
  by (simp add: frame_ok_def exts_ok_def ext_fits_def MAX_EXTENSIONS_def)

text \<open>
  C25. Canonical decoding.  Whatever bytes the decoder accepts are the one encoding of the
  message it returns: re-encoding the materialised message gives the same bytes back, so
  two different byte strings never decode to the same message.
\<close>

theorem decode_canonical:
  assumes "copy_inline_ok ci" and "message_ref_decode ci raw = Inr v"
  shows "frame_encode vec_encode (message_ref_into_owned ci v) [] = (Inr (), raw) \<and>
    length raw < 4 + 2 ^ 24"
proof -
  from assms obtain f where f: "frame_ok f" "v = frame_ref f" "raw = frame_bytes f"
    by (auto simp: message_ref_decode_eq_Inr)
  then have "message_ref_into_owned ci v = f"
    using frame_ref_into_owned [OF assms(1)] by (simp add: frame_ok_def)
  then show ?thesis
    using f vec.emitsD [OF vec.emits_frame [OF frame_ok_fits [OF f(1)]], of "[]"]
    by (simp add: length_frame_bytes frame_ok_def)
qed

theorem decode_canonical_witness:
  "frame_encode vec_encode (message_ref_into_owned copy_inline_ref (RKeyUpdate \<lparr>ku_request = Requested\<rparr>)) []
     = (Inr (), [24, 0, 0, 1, 1]) \<and> length [24, 0, 0, 1, 1 :: u8] < 4 + 2 ^ 24"
  by (rule decode_canonical [OF copy_inline_ref_ok])
    (simp add: message_ref_decode_def message_ref_decode_from_def hs_type_from_u8_def reader_sub_u24_def
      reader_vec_u24_def reader_u24_def reader_take_def wrap_decoder_def key_update_decode_def
      key_update_request_from_u8_def reader_finish_def)

text \<open>
  The three encoding targets agree.  A message that fits its length fields has a number
  of encoded bytes; \<open>EncodedSize\<close> computes it, \<open>Vec\<close> appends that many bytes, and a bounded
  buffer with that much room left receives the same bytes as the vector.
\<close>

theorem encode_targets_agree:
  assumes "frame_fits f" and "bb_good b" and "length (frame_bytes f) \<le> bb_limit b - bb_len b"
  shows "encoded_size_finish (snd (frame_encode size_encode f encoded_size_default)) =
      Inr (length (snd (frame_encode vec_encode f []))) \<and>
    frame_encode bb_encode f b =
      (Inr (), b\<lparr>bb_bytes := bb_bytes b @ snd (frame_encode vec_encode f [])\<rparr>)"
proof -
  have "size_len encoded_size_default + length (frame_bytes f) \<le> usize_max"
    using assms(1) by (simp add: length_frame_bytes frame_fits_def usize_max_def encoded_size_default_def)
  then have "frame_encode size_encode f encoded_size_default =
      (Inr (), encoded_size_default\<lparr>size_len := size_len encoded_size_default + length (frame_bytes f)\<rparr>)"
    using size.emitsD [OF size.emits_frame [OF assms(1)], of encoded_size_default]
    by (simp add: encoded_size_default_def)
  moreover have "frame_encode vec_encode f [] = (Inr (), frame_bytes f)"
    using vec.emitsD [OF vec.emits_frame [OF assms(1)], of "[]"] by simp
  ultimately show ?thesis
    using bb.emitsD [OF bb.emits_frame [OF assms(1)] assms(2,3)]
    by (simp add: encoded_size_finish_def encoded_size_default_def bb_ext_def)
qed

theorem encode_targets_agree_witness:
  "encoded_size_finish (snd (frame_encode size_encode FEndOfEarlyData encoded_size_default)) =
      Inr (length (snd (frame_encode vec_encode FEndOfEarlyData []))) \<and>
    frame_encode bb_encode FEndOfEarlyData (bb_with_capacity 4) =
      (Inr (), (bb_with_capacity 4)\<lparr>bb_bytes := bb_bytes (bb_with_capacity 4) @
         snd (frame_encode vec_encode FEndOfEarlyData [])\<rparr>)"
  by (rule encode_targets_agree)
    (simp_all add: frame_fits_def bb_good_def bb_wf_def bb_with_capacity_def bb_len_def length_frame_bytes)

text \<open>
  C28. Encoding into a bounded buffer is safe whatever the message.  It may fail, but the
  buffer stays within its limit, its base and limit are kept, the bytes below its base are
  untouched and what it held before is still there.
\<close>

theorem bounded_encode_safe:
  assumes "bb_wf b"
  shows "let b' = snd (frame_encode bb_encode f b) in
    bb_wf b' \<and> bb_base b' = bb_base b \<and> bb_limit b' = bb_limit b \<and>
    take (bb_base b) (bb_bytes b') = take (bb_base b) (bb_bytes b) \<and>
    take (bb_len b) (bb_as_slice b') = bb_as_slice b"
  using bb_safe.safe_frame [of f] assms
  by (auto simp: safe_writer_def Let_def bb_config_def bb_as_slice_def bb_len_def)

theorem bounded_encode_safe_witness:
  "let b' = snd (frame_encode bb_encode (FFinished \<lparr>fin_verify_data = [5]\<rparr>) (bb_with_capacity 3)) in
    bb_wf b' \<and> bb_base b' = bb_base (bb_with_capacity 3) \<and>
    bb_limit b' = bb_limit (bb_with_capacity 3) \<and>
    take (bb_base (bb_with_capacity 3)) (bb_bytes b') =
      take (bb_base (bb_with_capacity 3)) (bb_bytes (bb_with_capacity 3)) \<and>
    take (bb_len (bb_with_capacity 3)) (bb_as_slice b') = bb_as_slice (bb_with_capacity 3)"
  by (rule bounded_encode_safe) (simp add: bb_wf_def bb_len_def bb_with_capacity_def)

text \<open>
  C26. Sending through an outbound flight is a transaction.  Running the encoder of a message
  that fits and committing appends exactly its encoding to the sink's store; dropping the
  flight instead, after any message and any outcome, leaves the sink's store and the
  connection's own buffer exactly as they were.
\<close>

theorem flight_transaction:
  assumes "outbound_wf out"
  shows "(frame_fits f \<and> length (frame_bytes f) \<le> ob_maximum out \<longrightarrow>
      fst (flight_run (frame_encode bb_encode f) (bb_flight (Some out) b)) = Inr () \<and>
      flight_commit (snd (flight_run (frame_encode bb_encode f) (bb_flight (Some out) b))) =
        (True, b, Some (out\<lparr>ob_bytes := ob_bytes out @ snd (frame_encode vec_encode f [])\<rparr>))) \<and>
    flight_drop (snd (flight_run (frame_encode bb_encode g) (bb_flight (Some out) b))) = (b, Some out)"
proof (intro conjI impI)
  assume f: "frame_fits f \<and> length (frame_bytes f) \<le> ob_maximum out"
  let ?run = "flight_run (frame_encode bb_encode f) (bb_flight (Some out) b)"
  have "frame_encode vec_encode f [] = (Inr (), frame_bytes f)"
    using vec.emitsD [OF vec.emits_frame, of f "[]"] f by simp
  then show "fst ?run = Inr ()"
    and "flight_commit (snd ?run) =
      (True, b, Some (out\<lparr>ob_bytes := ob_bytes out @ snd (frame_encode vec_encode f [])\<rparr>))"
    using flight_commit_appends 
        [OF assms bb.emits_frame _ surjective_pairing [of ?run]] f by simp_all
qed (rule flight_drop_restores [OF assms bb_safe.safe_frame surjective_pairing])

theorem flight_transaction_witness:
  "let out = \<lparr>ob_bytes = [1], ob_base = 1, ob_maximum = 9\<rparr> in
   fst (flight_run (frame_encode bb_encode FEndOfEarlyData) (bb_flight (Some out) bb_default)) = Inr () \<and>
   flight_commit (snd (flight_run (frame_encode bb_encode FEndOfEarlyData) (bb_flight (Some out) bb_default))) =
     (True, bb_default, Some (out\<lparr>ob_bytes := [1] @ snd (frame_encode vec_encode FEndOfEarlyData [])\<rparr>)) \<and>
   flight_drop (snd (flight_run (frame_encode bb_encode (FFinished \<lparr>fin_verify_data = [5]\<rparr>))
     (bb_flight (Some out) bb_default))) = (bb_default, Some out)"
proof -
  let ?out = "\<lparr>ob_bytes = [1], ob_base = 1, ob_maximum = 9\<rparr>"
  have "outbound_wf ?out" by (simp add: outbound_wf_def)
  note t = flight_transaction [OF this, of FEndOfEarlyData bb_default "FFinished \<lparr>fin_verify_data = [5]\<rparr>"]
  moreover have "frame_fits FEndOfEarlyData \<and> length (frame_bytes FEndOfEarlyData) \<le> 9"
    by (simp add: frame_fits_def frame_bytes_def vec24_def)
  ultimately show ?thesis unfolding Let_def by simp
qed

end
