(* ===== verification/Protocols.thy ===== *)
theory Protocols
  imports Views "HOL-Library.List_Lexorder" "HOL-Library.Option_ord" "HOL-Library.Product_Lexorder"
begin

section \<open>Extension bodies\<close>

text \<open>
  \<open>wire/protocols.rs\<close>: the bodies of the negotiation extensions, and the prepared ALPN table
  a server looks protocols up in.  Types that only prove a validation (\<open>EarlyDataSignal\<close> and
  the like) are the unit result of their decoder.  Byte strings are ordered
  lexicographically, as Rust orders slices.  The sort and the binary search are those of the
  standard library: the comparison used is a total order on distinct elements, so an
  unstable sort has one result, and the search is specified on a sorted slice.
\<close>

definition require_empty :: "bytes \<Rightarrow> decode_error + unit" where
  "require_empty data = (if data = [] then Inr () else Inl Trailing)"

definition early_data_signal_decode :: "bytes \<Rightarrow> decode_error + unit" where
  "early_data_signal_decode data = and_then (require_empty data) (\<lambda>_. Inr ())"

definition server_name_ack_decode :: "bytes \<Rightarrow> decode_error + unit" where
  "server_name_ack_decode data = and_then (require_empty data) (\<lambda>_. Inr ())"

definition server_supported_groups_decode :: "bytes \<Rightarrow> decode_error + unit" where
  "server_supported_groups_decode data =
     and_then (framed_decode_u16 2 2 data) (\<lambda>(_, r). and_then (reader_finish r) (\<lambda>_. Inr ()))"

subsection \<open>Versions, signature algorithms, key shares\<close>

definition supported_versions_decode_client :: "bytes \<Rightarrow> decode_error + bytes" where
  "supported_versions_decode_client data =
     and_then (framed_decode_u8 2 2 data) (\<lambda>(versions, r). and_then (reader_finish r) (\<lambda>_. Inr versions))"

text \<open>
  The scan ends only if every read succeeds: a failed \<open>u16\<close> leaves the reader as it was and
  the loop goes on, so the function is partial.
\<close>

partial_function (option) supported_versions_contains :: "reader \<Rightarrow> u16 \<Rightarrow> bool option" where
  "supported_versions_contains r version =
     (if r = [] then Some False
      else case reader_u16 r of
        Inl e \<Rightarrow> supported_versions_contains r version
      | Inr (v, r') \<Rightarrow> if v = version then Some True else supported_versions_contains r' version)"

definition supported_versions_decode_server :: "bytes \<Rightarrow> decode_error + u16" where
  "supported_versions_decode_server data =
     and_then (reader_u16 data) (\<lambda>(v, r). and_then (reader_finish r) (\<lambda>_. Inr v))"

definition ECDSA_SECP256R1_SHA256 :: signature_scheme where "ECDSA_SECP256R1_SHA256 = SignatureScheme 0x0403"
definition ECDSA_SECP384R1_SHA384 :: signature_scheme where "ECDSA_SECP384R1_SHA384 = SignatureScheme 0x0503"
definition RSA_PSS_RSAE_SHA256 :: signature_scheme where "RSA_PSS_RSAE_SHA256 = SignatureScheme 0x0804"
definition RSA_PSS_RSAE_SHA384 :: signature_scheme where "RSA_PSS_RSAE_SHA384 = SignatureScheme 0x0805"
definition RSA_PSS_RSAE_SHA512 :: signature_scheme where "RSA_PSS_RSAE_SHA512 = SignatureScheme 0x0806"
definition ED25519 :: signature_scheme where "ED25519 = SignatureScheme 0x0807"

lemmas scheme_defs = ECDSA_SECP256R1_SHA256_def ECDSA_SECP384R1_SHA384_def RSA_PSS_RSAE_SHA256_def
  RSA_PSS_RSAE_SHA384_def RSA_PSS_RSAE_SHA512_def ED25519_def

definition signature_algorithms_x509 :: "signature_scheme list" where
  "signature_algorithms_x509 =
     [ECDSA_SECP256R1_SHA256, RSA_PSS_RSAE_SHA256, ECDSA_SECP384R1_SHA384, RSA_PSS_RSAE_SHA384,
      RSA_PSS_RSAE_SHA512, ED25519]"

definition signature_algorithms_rpk :: "signature_scheme list" where
  "signature_algorithms_rpk = [ED25519]"

definition x509_supported :: "signature_scheme \<Rightarrow> bool" where
  "x509_supported scheme \<longleftrightarrow> List.member signature_algorithms_x509 scheme"

function accepts_loop :: "signature_scheme option \<Rightarrow> reader \<Rightarrow> bool \<Rightarrow> decode_error + bool" where
  "accepts_loop candidate schemes found =
     (if schemes = [] then Inr found
      else and_then (reader_u16 schemes) (\<lambda>(scheme, r).
        accepts_loop candidate r
          (found \<or> (case candidate of None \<Rightarrow> False | Some c \<Rightarrow> scheme = wire_id c))))"
  by pat_completeness auto
termination
  by (relation "measure (\<lambda>(c, r, f). length r)") (auto simp: reader_u16_eq_Inr)

declare accepts_loop.simps [simp del]

definition signature_algorithms_accepts :: "bytes \<Rightarrow> signature_scheme option \<Rightarrow> decode_error + bool" where
  "signature_algorithms_accepts data candidate =
     and_then (framed_decode_u16 2 2 data) (\<lambda>(schemes, r).
     and_then (reader_finish r) (\<lambda>_. accepts_loop candidate schemes False))"

record server_key_share =
  sks_group :: u16
  sks_key_exchange :: bytes

definition server_key_share_decode :: "bytes \<Rightarrow> decode_error + server_key_share" where
  "server_key_share_decode data =
     and_then (reader_u16 data) (\<lambda>(group, r).
     and_then (framed_decode_u16 1 1 r) (\<lambda>(key_exchange, r).
     and_then (reader_finish r) (\<lambda>_. Inr \<lparr>sks_group = group, sks_key_exchange = key_exchange\<rparr>)))"

definition retry_key_share_decode :: "bytes \<Rightarrow> decode_error + u16" where
  "retry_key_share_decode data =
     and_then (reader_u16 data) (\<lambda>(group, r). and_then (reader_finish r) (\<lambda>_. Inr group))"

subsection \<open>ALPN and cookie\<close>

record alpn =
  alpn_encoded :: bytes
  alpn_len :: nat

function alpn_scan :: "reader \<Rightarrow> nat \<Rightarrow> decode_error + nat" where
  "alpn_scan r n =
     (if r = [] then Inr n
      else and_then (framed_decode_u8 1 1 r) (\<lambda>(_, r'). alpn_scan r' (n + 1)))"
  by pat_completeness auto
termination
  by (relation "measure (\<lambda>(r, n). length r)") (auto simp: framed_decode_u8_eq_Inr)

declare alpn_scan.simps [simp del]

definition alpn_decode :: "bytes \<Rightarrow> decode_error + alpn" where
  "alpn_decode data =
     and_then (framed_decode_u16 2 1 data) (\<lambda>(encoded, r).
     and_then (reader_finish r) (\<lambda>_.
     and_then (alpn_scan encoded 0) (\<lambda>n. Inr \<lparr>alpn_encoded = encoded, alpn_len = n\<rparr>)))"

definition alpn_is_empty :: "alpn \<Rightarrow> bool" where
  "alpn_is_empty a \<longleftrightarrow> alpn_len a = 0"

definition alpn_next :: "reader \<Rightarrow> (bytes \<times> reader) option" where
  "alpn_next r = (if r = [] then None else result_ok (reader_vec_u8 r))"

function alpn_iter :: "reader \<Rightarrow> bytes list" where
  "alpn_iter r = (case alpn_next r of None \<Rightarrow> [] | Some (p, r') \<Rightarrow> p # alpn_iter r')"
  by pat_completeness auto
termination
  by (relation "measure length") (auto simp: alpn_next_def reader_vec_u8_eq_Inr split: if_splits)

declare alpn_iter.simps [simp del]

definition cookie_decode :: "bytes \<Rightarrow> decode_error + bytes" where
  "cookie_decode data =
     and_then (framed_decode_u16 1 1 data) (\<lambda>(_, r). and_then (reader_finish r) (\<lambda>_. Inr data))"

definition MAX_ALPN_PROTOCOLS :: nat where "MAX_ALPN_PROTOCOLS = 65535"

text \<open>\<open>AlpnId\<close> wraps a non-zero word, one more than the index it stands for.\<close>

datatype alpn_id = AlpnId u16

instantiation alpn_id :: linorder
begin

fun less_eq_alpn_id :: "alpn_id \<Rightarrow> alpn_id \<Rightarrow> bool" where
  "less_eq_alpn_id (AlpnId a) (AlpnId b) \<longleftrightarrow> a \<le> b"

fun less_alpn_id :: "alpn_id \<Rightarrow> alpn_id \<Rightarrow> bool" where
  "less_alpn_id (AlpnId a) (AlpnId b) \<longleftrightarrow> a < b"

instance
proof
  fix x y z :: alpn_id
  show "x < y \<longleftrightarrow> x \<le> y \<and> \<not> y \<le> x" by (cases x; cases y) auto
  show "x \<le> x" by (cases x) simp
  show "x \<le> y \<Longrightarrow> y \<le> z \<Longrightarrow> x \<le> z" by (cases x; cases y; cases z) simp
  show "x \<le> y \<Longrightarrow> y \<le> x \<Longrightarrow> x = y" by (cases x; cases y) simp
  show "x \<le> y \<or> y \<le> x" by (cases x; cases y) auto
qed

end

definition alpn_id_from_index :: "nat \<Rightarrow> alpn_id option" where
  "alpn_id_from_index i =
     (if i \<ge> 2 ^ 16 then None
      else if i + 1 \<ge> 2 ^ 16 then None
      else if word_of_nat (i + 1) = (0 :: u16) then None else Some (AlpnId (word_of_nat (i + 1))))"

fun alpn_id_index :: "alpn_id \<Rightarrow> nat" where
  "alpn_id_index (AlpnId w) = unat (w - 1)"

record prepared_alpn =
  pa_preferred :: "bytes list"
  pa_by_name :: "alpn_id list"

definition slice_get :: "'a list \<Rightarrow> nat \<Rightarrow> 'a option" where
  "slice_get xs i = (if i < length xs then Some (xs ! i) else None)"

definition alpn_validate :: "bytes list \<Rightarrow> unit + unit" where
  "alpn_validate protocols =
     (if length protocols > MAX_ALPN_PROTOCOLS \<or>
         list_ex (\<lambda>p. p = [] \<or> length p > 255) protocols then Inl () else Inr ())"

fun alpn_ids :: "nat list \<Rightarrow> unit + alpn_id list" where
  "alpn_ids [] = Inr []"
| "alpn_ids (i # is) =
     and_then (ok_or () (alpn_id_from_index i)) (\<lambda>x. and_then (alpn_ids is) (\<lambda>xs. Inr (x # xs)))"

text \<open>\<open>Vec::dedup_by\<close>: an element in the same bucket as the last one kept is removed.\<close>

fun dedup_by :: "('a \<Rightarrow> 'a \<Rightarrow> bool) \<Rightarrow> 'a list \<Rightarrow> 'a list" where
  "dedup_by same [] = []"
| "dedup_by same [x] = [x]"
| "dedup_by same (x # y # ys) = (if same y x then dedup_by same (x # ys) else x # dedup_by same (y # ys))"

definition alpn_prepare :: "bytes list \<Rightarrow> unit + prepared_alpn" where
  "alpn_prepare preferred =
     and_then (alpn_validate preferred) (\<lambda>_.
     and_then (alpn_ids [0..<length preferred]) (\<lambda>by_name.
     let name = (\<lambda>x. slice_get preferred (alpn_id_index x));
         sorted_ids = sort_key (\<lambda>x. (name x, x)) by_name
     in Inr \<lparr>pa_preferred = preferred, pa_by_name = dedup_by (\<lambda>l r. name l = name r) sorted_ids\<rparr>))"

datatype ordering = Less | Equal | Greater

definition cmp :: "'a::linorder \<Rightarrow> 'a \<Rightarrow> ordering" where
  "cmp a b = (if a < b then Less else if a = b then Equal else Greater)"

definition binary_search_by :: "('a \<Rightarrow> ordering) \<Rightarrow> 'a list \<Rightarrow> nat + nat" where
  "binary_search_by f xs =
     (let i = length (takeWhile (\<lambda>x. f x = Less) xs)
      in if i < length xs \<and> f (xs ! i) = Equal then Inr i else Inl i)"

definition alpn_find :: "prepared_alpn \<Rightarrow> bytes \<Rightarrow> alpn_id option" where
  "alpn_find p protocol =
     (case binary_search_by (\<lambda>x. case slice_get (pa_preferred p) (alpn_id_index x) of
            None \<Rightarrow> Less | Some candidate \<Rightarrow> cmp candidate protocol) (pa_by_name p) of
        Inl _ \<Rightarrow> None | Inr i \<Rightarrow> slice_get (pa_by_name p) i)"

definition alpn_get :: "prepared_alpn \<Rightarrow> alpn_id \<Rightarrow> bytes option" where
  "alpn_get p x = slice_get (pa_preferred p) (alpn_id_index x)"

definition prepared_alpn_is_empty :: "prepared_alpn \<Rightarrow> bool" where
  "prepared_alpn_is_empty p \<longleftrightarrow> pa_preferred p = []"

subsection \<open>Certificate types\<close>

datatype certificate_type = X509 | RawPublicKey

fun certificate_type_wire_id :: "certificate_type \<Rightarrow> u8" where
  "certificate_type_wire_id X509 = 0" | "certificate_type_wire_id RawPublicKey = 2"

definition certificate_type_from_wire_id :: "u8 \<Rightarrow> certificate_type option" where
  "certificate_type_from_wire_id b = (if b = 0 then Some X509 else if b = 2 then Some RawPublicKey else None)"

definition certificate_type_list_decode :: "bytes \<Rightarrow> decode_error + bytes" where
  "certificate_type_list_decode data =
     and_then (framed_decode_u8 1 1 data) (\<lambda>(types, r). and_then (reader_finish r) (\<lambda>_. Inr types))"

definition certificate_type_decode_selection :: "bytes \<Rightarrow> decode_error + certificate_type" where
  "certificate_type_decode_selection data =
     (case data of [x] \<Rightarrow> ok_or InvalidEnum (certificate_type_from_wire_id x) | _ \<Rightarrow> Inl InvalidEnum)"

definition certificate_type_list_contains :: "bytes \<Rightarrow> certificate_type \<Rightarrow> bool" where
  "certificate_type_list_contains types ty \<longleftrightarrow> certificate_type_wire_id ty \<in> set types"

fun find_map :: "('a \<Rightarrow> 'b option) \<Rightarrow> 'a list \<Rightarrow> 'b option" where
  "find_map f [] = None"
| "find_map f (x # xs) = (case f x of Some y \<Rightarrow> Some y | None \<Rightarrow> find_map f xs)"

definition certificate_type_list_select :: "bytes \<Rightarrow> certificate_type option" where
  "certificate_type_list_select types = find_map certificate_type_from_wire_id types"

subsection \<open>The prepared table\<close>

lemma alpn_id_roundtrip:
  "i < 65535 \<Longrightarrow> alpn_id_from_index i = Some (AlpnId (word_of_nat (i + 1)))"
  "i < 65535 \<Longrightarrow> alpn_id_index (AlpnId (word_of_nat (i + 1))) = i"
proof -
  assume i: "i < 65535"
  then have u: "unat (word_of_nat (i + 1) :: u16) = i + 1" by (simp add: unat_of_nat del: of_nat_add of_nat_Suc)
  then have nz: "word_of_nat (i + 1) \<noteq> (0 :: u16)" by (metis add_is_0 one_neq_zero unat_0)
  then show "alpn_id_from_index i = Some (AlpnId (word_of_nat (i + 1)))"
    using i by (simp add: alpn_id_from_index_def)
  show "alpn_id_index (AlpnId (word_of_nat (i + 1))) = i"
    using u nz by (simp add: unat_minus_one del: of_nat_add of_nat_Suc)
qed

lemma alpn_ids_eq: "\<forall>i\<in>set is. i < 65535 \<Longrightarrow> alpn_ids is = Inr (map (\<lambda>i. AlpnId (word_of_nat (i + 1))) is)"
  by (induction "is") (simp_all add: alpn_id_roundtrip(1) del: of_nat_add)

lemma dedup_sorted:
  fixes f :: "'a::linorder \<Rightarrow> 'b::linorder"
  assumes "sorted (map (\<lambda>x. (f x, x)) xs)"
  shows "sorted_wrt (\<lambda>x y. f x < f y) (dedup_by (\<lambda>l r. f l = f r) xs) \<and>
    set (dedup_by (\<lambda>l r. f l = f r) xs) = {y \<in> set xs. \<forall>z\<in>set xs. f z = f y \<longrightarrow> y \<le> z}"
  using assms
proof (induction "\<lambda>l r. f l = f r" xs rule: dedup_by.induct)
  case (3 x y ys)
  have le: "\<forall>z\<in>set (y # ys). (f x, x) \<le> (f z, z)" using "3.prems" by auto
  show ?case
  proof (cases "f y = f x")
    case True
    have "sorted (map (\<lambda>x. (f x, x)) (x # ys))" using "3.prems" by auto
    note IH = "3.hyps"(1) [OF True this]
    have xy: "x \<le> y" using True le by auto
    have "{w \<in> set (x # y # ys). \<forall>z\<in>set (x # y # ys). f z = f w \<longrightarrow> w \<le> z} =
        {w \<in> set (x # ys). \<forall>z\<in>set (x # ys). f z = f w \<longrightarrow> w \<le> z}" (is "?L = ?R")
    proof (intro subset_antisym subsetI)
      fix w assume w: "w \<in> ?L"
      then have "w = y \<Longrightarrow> w = x" using True xy by simp
      then show "w \<in> ?R" using w by auto
    next
      fix w assume w: "w \<in> ?R"
      then have "f y = f w \<Longrightarrow> w \<le> y" using True xy order_trans [of w x y] by simp
      then show "w \<in> ?L" using w by auto
    qed
    then show ?thesis using IH True by simp
  next
    case False
    have lt: "\<forall>z\<in>set (y # ys). f x < f z"
    proof
      fix z assume z: "z \<in> set (y # ys)"
      have "f x < f y" using False le by (auto simp: less_eq_prod_def)
      moreover have "(f y, y) \<le> (f z, z)" using z "3.prems" by auto
      ultimately show "f x < f z" by (auto simp: less_eq_prod_def)
    qed
    then have ne: "f z \<noteq> f x" "f x \<noteq> f z" if "z = y \<or> z \<in> set ys" for z using that by force+
    have "sorted (map (\<lambda>x. (f x, x)) (y # ys))" using "3.prems" by simp
    note IH = "3.hyps"(2) [OF False this]
    have "{w \<in> set (x # y # ys). \<forall>z\<in>set (x # y # ys). f z = f w \<longrightarrow> w \<le> z} =
        insert x {w \<in> set (y # ys). \<forall>z\<in>set (y # ys). f z = f w \<longrightarrow> w \<le> z}"
      using ne by auto
    then show ?thesis using IH False lt by auto
  qed
qed auto

lemma cmp_simps [simp]: "cmp a b = Less \<longleftrightarrow> a < b" "cmp a b = Equal \<longleftrightarrow> a = b"
  by (auto simp: cmp_def)

lemma binary_search_by_Cons:
  "binary_search_by f [] = Inl 0"
  "binary_search_by f (a # xs) =
     (if f a = Less then map_sum Suc Suc (binary_search_by f xs) else if f a = Equal then Inr 0 else Inl 0)"
  by (auto simp: binary_search_by_def Let_def)

lemma slice_get_Cons [simp]: "slice_get (a # xs) (Suc i) = slice_get xs i" "slice_get (a # xs) 0 = Some a"
  by (simp_all add: slice_get_def)

lemma binary_search_by_find:
  fixes f :: "'a \<Rightarrow> 'b::linorder"
  assumes "sorted_wrt (\<lambda>x y. f x < f y) xs"
  shows "(case binary_search_by (\<lambda>x. cmp (f x) v) xs of Inl _ \<Rightarrow> None | Inr i \<Rightarrow> slice_get xs i) =
    find (\<lambda>x. f x = v) xs"
  using assms
proof (induction xs)
  case (Cons a xs)
  have "find (\<lambda>x. f x = v) xs = None" if "v < f a"
    using Cons.prems that by (auto simp: find_None_iff)
  then show ?case
    using Cons by (auto simp: binary_search_by_Cons split: sum.splits)
qed (simp add: binary_search_by_Cons)

lemma option_cmp:
  "(case m of None \<Rightarrow> Less | Some c \<Rightarrow> cmp c v) = cmp m (Some v)" for v :: "'a::linorder"
  by (cases m) (simp_all add: cmp_def)

text \<open>The first position of an element, and the identifier \<open>find\<close> returns for it.\<close>

definition first_index :: "'a \<Rightarrow> 'a list \<Rightarrow> nat" where
  "first_index x xs = length (takeWhile (\<lambda>y. y \<noteq> x) xs)"

lemma first_index_props:
  "x \<in> set xs \<Longrightarrow> first_index x xs < length xs \<and> xs ! first_index x xs = x"
  "i < length xs \<Longrightarrow> xs ! i = x \<Longrightarrow> first_index x xs \<le> i"
proof -
  show "first_index x xs < length xs \<and> xs ! first_index x xs = x" if "x \<in> set xs"
    using that by (induction xs) (auto simp: first_index_def)
  show "first_index x xs \<le> i" if "i < length xs" "xs ! i = x"
    using that
  proof (induction xs arbitrary: i)
    case (Cons y ys)
    then show ?case by (cases i) (auto simp: first_index_def)
  qed simp
qed

lemma dedup_find_least:
  fixes idf :: "nat \<Rightarrow> 'a::linorder" and v :: "'b::linorder"
  assumes mono: "\<And>i j. i < length ps \<Longrightarrow> j < length ps \<Longrightarrow> idf i \<le> idf j \<longleftrightarrow> i \<le> j"
    and name: "\<And>i. i < length ps \<Longrightarrow> name (idf i) = ps ! i"
  shows "find (\<lambda>x. name x = v)
      (dedup_by (\<lambda>l r. name l = name r) (sort_key (\<lambda>x. (name x, x)) (map idf [0..<length ps]))) =
    (if v \<in> set ps then Some (idf (first_index v ps)) else None)" (is "find ?P ?D = _")
    and "sorted_wrt (\<lambda>x y. name x < name y)
      (dedup_by (\<lambda>l r. name l = name r) (sort_key (\<lambda>x. (name x, x)) (map idf [0..<length ps])))"
proof -
  have "sorted (map (\<lambda>x. (name x, x)) (sort_key (\<lambda>x. (name x, x)) (map idf [0..<length ps])))"
    by (rule sorted_sort_key)
  note D = dedup_sorted [OF this]
  then show "sorted_wrt (\<lambda>x y. name x < name y) ?D" by blast
  have mem: "x \<in> set ?D \<longleftrightarrow>
      (\<exists>i<length ps. x = idf i \<and> (\<forall>j<length ps. name (idf j) = name x \<longrightarrow> x \<le> idf j))" for x
    using D by auto
  let ?f = "first_index v ps"
  have least: "x = idf ?f \<and> v \<in> set ps" if "x \<in> set ?D" "name x = v" for x
  proof -
    from that(1) obtain i where i: "i < length ps" "x = idf i"
      "\<forall>j<length ps. name (idf j) = name x \<longrightarrow> x \<le> idf j" unfolding mem by blast
    have "ps ! i = v" "\<forall>j<length ps. ps ! j = v \<longrightarrow> idf i \<le> idf j"
      using i name that(2) by auto
    note i = i(1,2) this(2,1)
    then have v: "v \<in> set ps" using nth_mem by auto
    have f: "?f < length ps" "ps ! ?f = v" using first_index_props(1) [OF v] by simp_all
    then have "idf i \<le> idf ?f" using i(3) by simp
    moreover have "?f \<le> i" using i(1,4) by (rule first_index_props(2))
    ultimately have "i = ?f" using mono [of i ?f] i(1) f(1) by simp
    then show ?thesis using i(2) v by simp
  qed
  show "find ?P ?D = (if v \<in> set ps then Some (idf ?f) else None)"
  proof (cases "v \<in> set ps")
    case True
    then have f: "?f < length ps" "ps ! ?f = v" using first_index_props(1) [of v ps] by simp_all
    have "idf ?f \<le> idf j" if "j < length ps" "ps ! j = v" for j
      using first_index_props(2) [OF that] mono [OF f(1) that(1)] by simp
    then have "idf ?f \<in> set ?D" unfolding mem using f name by auto
    then have "find ?P ?D \<noteq> None" using f name [OF f(1)] by (auto simp: find_None_iff)
    then obtain x where x: "find ?P ?D = Some x" by blast
    then have "x \<in> set ?D \<and> name x = v" by (metis (mono_tags) find_Some_iff nth_mem)
    then show ?thesis using least True x by simp
  next
    case False
    then show ?thesis using least by (auto simp: find_None_iff)
  qed
qed

lemma alpn_find_least:
  assumes "alpn_prepare preferred = Inr p"
  shows "alpn_find p protocol =
    (if protocol \<in> set preferred then Some (AlpnId (word_of_nat (first_index protocol preferred + 1))) else None)"
proof -
  define idf where "idf i = AlpnId (word_of_nat (i + 1))" for i
  let ?name = "\<lambda>x. slice_get preferred (alpn_id_index x)"
  have n: "length preferred \<le> 65535"
    using assms by (auto simp: alpn_prepare_def alpn_validate_def MAX_ALPN_PROTOCOLS_def and_then_eq_Inr split: if_splits)
  then have "alpn_ids [0..<length preferred] = Inr (map idf [0..<length preferred])"
    unfolding idf_def by (intro alpn_ids_eq) auto
  then have p: "pa_preferred p = preferred" "pa_by_name p =
      dedup_by (\<lambda>l r. ?name l = ?name r) (sort_key (\<lambda>x. (?name x, x)) (map idf [0..<length preferred]))"
    using assms by (auto simp: alpn_prepare_def and_then_eq_Inr Let_def)
  have mono: "idf i \<le> idf j \<longleftrightarrow> i \<le> j" if "i < length preferred" "j < length preferred" for i j
    using that n by (simp add: idf_def word_le_nat_alt unat_of_nat del: of_nat_add of_nat_Suc)
  have name: "?name (idf i) = map Some preferred ! i" if "i < length preferred" for i
    using that n unfolding idf_def by (subst alpn_id_roundtrip(2)) (simp_all add: slice_get_def)
  have fi: "first_index (Some protocol) (map Some preferred) = first_index protocol preferred"
    by (simp add: first_index_def takeWhile_map comp_def)
  note D = dedup_find_least [where ps = "map Some preferred" and idf = idf and name = ?name,
      unfolded length_map, OF mono name]
  have "alpn_find p protocol = find (\<lambda>x. ?name x = Some protocol) (pa_by_name p)"
    unfolding alpn_find_def p option_cmp by (rule binary_search_by_find) (rule D(2))
  then show ?thesis using D(1) [of "Some protocol"] unfolding p fi by (auto simp: idf_def)
qed

subsection \<open>Supported versions\<close>

lemma supported_versions_run:
  "supported_versions_contains (u16s_bytes vs) v = Some (v \<in> set vs)"
proof (induction vs)
  case (Cons w vs)
  have "be_bytes 2 (unat w) \<noteq> []" by (metis length_be_bytes list.size(3) zero_neq_numeral)
  moreover have "reader_u16 (be_bytes 2 (unat w) @ u16s_bytes vs) = Inr (w, u16s_bytes vs)"
    by (simp add: reader_u16_eq_Inr)
  ultimately show ?case using Cons by (auto simp: supported_versions_contains.simps)
qed (simp add: supported_versions_contains.simps)

lemma supported_versions_odd:
  assumes "supported_versions_contains r v = Some y"
  shows "if y then v \<in> set (u16_list_iter r) else even (length r)"
proof (rule supported_versions_contains.raw_induct
    [where P = "\<lambda>r v y. if y then v \<in> set (u16_list_iter r) else even (length r)", OF _ assms])
  fix f r v y
  assume IH: "\<And>r v y. f r v = Some y \<Longrightarrow> if y then v \<in> set (u16_list_iter r) else even (length r)"
    and run: "(if r = [] then Some False
      else case reader_u16 r of Inl e \<Rightarrow> f r v
        | Inr (w, r') \<Rightarrow> if w = v then Some True else f r' v) = Some y"
  show "if y then v \<in> set (u16_list_iter r) else even (length r)"
  proof (cases "reader_u16 r")
    case (Inl e)
    then show ?thesis using run IH [of r v y] by (cases "r = []") auto
  next
    case (Inr x)
    then obtain w r' where x: "reader_u16 r = Inr (w, r')" by (cases x) simp
    then have "length r = 2 + length r'" by (auto simp: reader_u16_eq_Inr)
    then have r: "r \<noteq> []" "even (length r) = even (length r')" by auto
    then have "u16_list_iter r = w # u16_list_iter r'"
      using x by (subst u16_list_iter.simps) (simp add: u16s_next_def)
    then show ?thesis using run IH [of r' v y] x r by (auto split: if_splits)
  qed
qed

subsection \<open>Properties\<close>

text \<open>
  C34. Scanning the offered versions ends.  On every list that \<open>decode_client\<close> accepts the loop
  of \<open>contains\<close> returns, and it returns whether the version is in the list.  The validation
  is needed: on a slice of odd length that does not name the version the loop never returns.
\<close>

theorem supported_versions_terminates:
  assumes "supported_versions_decode_client data = Inr encoded"
  shows "supported_versions_contains encoded version = Some (version \<in> set (u16_list_iter encoded)) \<and>
    (odd (length other) \<and> version \<notin> set (u16_list_iter other) \<longrightarrow>
      supported_versions_contains other version = None)"
proof -
  have "2 dvd length encoded"
    using assms by (auto simp: supported_versions_decode_client_def and_then_eq_Inr framed_decode_u8_eq_Inr)
  then obtain vs where "encoded = u16s_bytes vs" using u16s_bytes_surj by blast
  then show ?thesis
    using supported_versions_run [of vs version] supported_versions_odd [of other version]
    by (cases "supported_versions_contains other version") (auto split: if_splits)
qed

theorem supported_versions_terminates_witness:
  "supported_versions_contains [3, 4, 3, 3] 0x0304 = Some (0x0304 \<in> set (u16_list_iter [3, 4, 3, 3])) \<and>
   supported_versions_contains [7] 0x0304 = None"
  using supported_versions_terminates [of "[4, 3, 4, 3, 3]" "[3, 4, 3, 3]" "0x0304" "[7]"]
  by (simp add: supported_versions_decode_client_def framed_decode_u8_def framed_validate_def
      reader_defs u16_list_iter.simps [of "[7]"] u16s_next_def reader_finish_def)

text \<open>
  Looking a protocol up in the prepared ALPN table.  \<open>prepare\<close> accepts exactly the lists of
  at most 65535 names of 1 to 255 bytes, duplicates included; \<open>find\<close> then returns the
  identifier of the first, most preferred, occurrence of the name, \<open>get\<close> maps it back to the
  name, and an unknown name is not found.
\<close>

theorem alpn_find_correct:
  assumes "length preferred \<le> 65535" and "\<forall>name \<in> set preferred. name \<noteq> [] \<and> length name \<le> 255"
  shows "\<exists>p. alpn_prepare preferred = Inr p \<and>
    (if protocol \<in> set preferred
     then \<exists>i. alpn_find p protocol = Some i \<and> alpn_id_index i = first_index protocol preferred \<and>
       alpn_get p i = Some protocol
     else alpn_find p protocol = None)"
proof -
  have "alpn_ids [0..<length preferred] = Inr (map (\<lambda>i. AlpnId (word_of_nat (i + 1))) [0..<length preferred])"
    using assms(1) by (intro alpn_ids_eq) auto
  moreover have "alpn_validate preferred = Inr ()"
    using assms by (auto simp: alpn_validate_def MAX_ALPN_PROTOCOLS_def list_ex_iff not_less)
  ultimately obtain p where p: "alpn_prepare preferred = Inr p" "pa_preferred p = preferred"
    by (simp add: alpn_prepare_def Let_def)
  moreover have "alpn_id_index (AlpnId (word_of_nat (first_index protocol preferred + 1))) =
      first_index protocol preferred" if "protocol \<in> set preferred"
    using first_index_props(1) [OF that] assms(1) by (intro alpn_id_roundtrip(2)) simp
  ultimately show ?thesis
    using alpn_find_least [OF p(1), of protocol] first_index_props(1) [of protocol preferred]
    by (auto simp: alpn_get_def slice_get_def simp del: alpn_id_index.simps of_nat_add)
qed

theorem alpn_find_correct_witness:
  "\<exists>p. alpn_prepare [[104, 50], [104, 51], [104, 50]] = Inr p \<and>
    (\<exists>i. alpn_find p [104, 51] = Some i \<and> alpn_id_index i = 1 \<and> alpn_get p i = Some [104, 51])"
  using alpn_find_correct [of "[[104, 50], [104, 51], [104, 50]]" "[104, 51]"]
  by (simp add: first_index_def)

end
