(* ===== verification/Kdf.thy ===== *)
theory Kdf
  imports Hash
begin

section \<open>HKDF\<close>

text \<open>
  \<open>crypto/kdf.rs\<close>.  \<open>expand\<close> is the block loop of the source with its output buffer, previous
  block and write position; it is shown equal to the definition of HKDF-Expand in RFC 5869,
  the first \<open>L\<close> bytes of \<open>T(1) T(2) ...\<close>.
\<close>

datatype hkdf_error = OutputTooLong | LabelTooLong | ContextTooLong

definition hkdf_extract :: "crypto \<Rightarrow> algorithm \<Rightarrow> bytes \<Rightarrow> bytes \<Rightarrow> hash_value" where
  "hkdf_extract C a salt ikm = from_bounded_slice (ring_hmac C a salt ikm)"

text \<open>The loop \<open>for counter in 1..=block_count\<close>: \<open>n\<close> iterations are left.\<close>

fun expand_loop ::
    "crypto \<Rightarrow> algorithm \<Rightarrow> bytes \<Rightarrow> bytes \<Rightarrow> nat \<Rightarrow> nat \<Rightarrow> bytes \<Rightarrow> nat \<Rightarrow> bytes \<Rightarrow> bytes" where
  "expand_loop C a prk info 0 counter t_prev written out = out"
| "expand_loop C a prk info (Suc n) counter t_prev written out =
     (let block = ring_hmac C a prk (t_prev @ info @ [word_of_nat counter]);
          tk = min (length out - written) (length block)
      in expand_loop C a prk info n (counter + 1) block (written + tk)
           (take written out @ take tk block @ drop (written + tk) out))"

definition div_ceil :: "nat \<Rightarrow> nat \<Rightarrow> nat" where
  "div_ceil m n = (if n dvd m then m div n else m div n + 1)"

definition hkdf_expand ::
    "crypto \<Rightarrow> algorithm \<Rightarrow> bytes \<Rightarrow> bytes \<Rightarrow> bytes \<Rightarrow> hkdf_error + bytes" where
  "hkdf_expand C a prk info out =
     (let block_count = div_ceil (length out) (output_len a) in
      if block_count > 255 then Inl OutputTooLong
      else Inr (expand_loop C a prk info block_count 1 [] 0 out))"

definition hkdf_label :: "string \<Rightarrow> bytes \<Rightarrow> nat \<Rightarrow> hkdf_error + bytes" where
  "hkdf_label label context out_len =
     (if out_len \<ge> 2 ^ 16 then Inl OutputTooLong
      else case usize_checked_add 6 (length label) of
        None \<Rightarrow> Inl LabelTooLong
      | Some label_len \<Rightarrow>
          if label_len \<ge> 2 ^ 8 then Inl LabelTooLong
          else if length context \<ge> 2 ^ 8 then Inl ContextTooLong
          else Inr (be_bytes 2 out_len @ [word_of_nat label_len] @ ascii ''tls13 '' @ ascii label @
                    [word_of_nat (length context)] @ context))"

definition hkdf_expand_label ::
    "crypto \<Rightarrow> algorithm \<Rightarrow> bytes \<Rightarrow> string \<Rightarrow> bytes \<Rightarrow> bytes \<Rightarrow> hkdf_error + bytes" where
  "hkdf_expand_label C a prk label context out =
     and_then (hkdf_label label context (length out)) (\<lambda>info. hkdf_expand C a prk info out)"

definition derive_secret ::
    "crypto \<Rightarrow> algorithm \<Rightarrow> bytes \<Rightarrow> string \<Rightarrow> bytes \<Rightarrow> hkdf_error + hash_value" where
  "derive_secret C a prk label th =
     and_then (hkdf_expand_label C a prk label th (replicate (output_len a) 0)) (\<lambda>out.
     Inr (from_bounded_slice out))"

definition traffic_update :: "crypto \<Rightarrow> algorithm \<Rightarrow> hash_value \<Rightarrow> hkdf_error + hash_value" where
  "traffic_update C a prev = derive_secret C a (as_slice prev) ''traffic upd'' []"

subsection \<open>Expansion meets RFC 5869\<close>

fun rfc_T :: "crypto \<Rightarrow> algorithm \<Rightarrow> bytes \<Rightarrow> bytes \<Rightarrow> nat \<Rightarrow> bytes" where
  "rfc_T C a prk info 0 = []"
| "rfc_T C a prk info (Suc n) =
     ring_hmac C a prk (rfc_T C a prk info n @ info @ [word_of_nat (Suc n)])"

fun rfc_blocks :: "crypto \<Rightarrow> algorithm \<Rightarrow> bytes \<Rightarrow> bytes \<Rightarrow> nat \<Rightarrow> bytes" where
  "rfc_blocks C a prk info 0 = []"
| "rfc_blocks C a prk info (Suc n) = rfc_blocks C a prk info n @ rfc_T C a prk info (Suc n)"

definition rfc_expand :: "crypto \<Rightarrow> algorithm \<Rightarrow> bytes \<Rightarrow> bytes \<Rightarrow> nat \<Rightarrow> bytes" where
  "rfc_expand C a prk info L = take L (rfc_blocks C a prk info (div_ceil L (output_len a)))"

lemma length_rfc_blocks: "crypto_ok C \<Longrightarrow> length (rfc_blocks C a prk info n) = n * output_len a"
  by (induction n) simp_all

lemma take_append_min: "take m (xs @ ys) = take m xs @ take (min (m - length xs) (length ys)) ys"
  by (simp add: min_def)

lemma expand_loop_invariant:
  assumes "crypto_ok C"
    and "t_prev = rfc_T C a prk info i"
    and "written = min (length out) (i * output_len a)"
    and "take written out = take (length out) (rfc_blocks C a prk info i)"
  shows "let out' = expand_loop C a prk info n (i + 1) t_prev written out in
    length out' = length out \<and>
    take (min (length out) ((i + n) * output_len a)) out' =
      take (length out) (rfc_blocks C a prk info (i + n))"
  using assms(2-)
proof (induction n arbitrary: i t_prev written out)
  case (Suc n)
  let ?block = "ring_hmac C a prk (t_prev @ info @ [word_of_nat (i + 1)])"
  let ?tk = "min (length out - written) (length ?block)"
  let ?out = "take written out @ take ?tk ?block @ drop (written + ?tk) out"
  have block: "?block = rfc_T C a prk info (i + 1)" using Suc.prems(1) by simp
  have w: "written + ?tk = min (length out) ((i + 1) * output_len a)"
    using Suc.prems(2) assms(1) by (auto simp: min_def)
  have len: "length ?out = length out" using Suc.prems(2) by (simp add: min_def)
  have "take (written + ?tk) ?out = take written out @ take ?tk ?block"
    using Suc.prems(2) by (simp add: min_def)
  also have "\<dots> = take (length out) (rfc_blocks C a prk info i @ ?block)"
    using Suc.prems(2,3) assms(1)
    by (subst take_append_min) (simp add: length_rfc_blocks [OF assms(1)] min_def)
  also have "rfc_blocks C a prk info i @ ?block = rfc_blocks C a prk info (i + 1)"
    unfolding block by simp
  finally have inv: "take (written + ?tk) ?out = take (length ?out) (rfc_blocks C a prk info (i + 1))"
    by (simp only: len)
  have w': "written + ?tk = min (length ?out) ((i + 1) * output_len a)" unfolding len by (rule w)
  show ?case
    using Suc.IH [OF block w' inv]
    unfolding len Let_def expand_loop.simps by (simp only: add_Suc_right add_Suc add_0_right One_nat_def)
qed simp

lemma div_ceil_mult:
  assumes "0 < n"
  shows "m \<le> div_ceil m n * n"
proof (cases "n dvd m")
  case False
  have "m mod n < n" using assms by simp
  then have "m div n * n + m mod n \<le> m div n * n + n" by (intro add_left_mono) simp
  then have "m \<le> (m div n + 1) * n" by (simp only: div_mult_mod_eq distrib_right mult_1)
  with False show ?thesis by (simp only: div_ceil_def if_False)
qed (simp add: div_ceil_def)

lemma hkdf_expand_rfc:
  assumes "crypto_ok C"
  shows "hkdf_expand C a prk info out =
    (if div_ceil (length out) (output_len a) > 255 then Inl OutputTooLong
     else Inr (rfc_expand C a prk info (length out)))"
proof -
  let ?n = "div_ceil (length out) (output_len a)"
  let ?out = "expand_loop C a prk info ?n 1 [] 0 out"
  have "length ?out = length out \<and>
    take (min (length out) (?n * output_len a)) ?out = take (length out) (rfc_blocks C a prk info ?n)"
    using expand_loop_invariant [OF assms, where i = 0 and n = ?n] by (simp add: Let_def)
  moreover have "length out \<le> ?n * output_len a" by (rule div_ceil_mult) simp
  ultimately have "?out = rfc_expand C a prk info (length out)"
    unfolding rfc_expand_def by (metis min.absorb1 take_all order_refl)
  then show ?thesis by (simp add: hkdf_expand_def Let_def)
qed

lemma length_rfc_expand: "crypto_ok C \<Longrightarrow> length (rfc_expand C a prk info L) = L"
  using div_ceil_mult [of "output_len a" L] by (simp add: rfc_expand_def length_rfc_blocks)

lemma div_ceil_self [simp]: "0 < n \<Longrightarrow> div_ceil n n = 1"
  by (simp add: div_ceil_def)

lemma div_ceil_le:
  assumes "0 < n" "m \<le> k * n"
  shows "div_ceil m n \<le> k"
proof (cases "n dvd m")
  case True
  with assms show ?thesis by (auto simp: div_ceil_def elim!: dvdE)
next
  case False
  have "m div n < k"
  proof (rule ccontr)
    assume "\<not> m div n < k"
    then have "k * n \<le> m div n * n" by simp
    with assms(2) have "m = m div n * n" by (metis div_times_less_eq_dividend le_antisym le_trans)
    with False show False by (metis dvd_triv_right)
  qed
  with False show ?thesis by (simp add: div_ceil_def)
qed

text \<open>A label fits when it is short; the labels of the key schedule all are.\<close>

lemma hkdf_label_ok:
  "out_len < 2 ^ 16 \<Longrightarrow> length label < 250 \<Longrightarrow> length context < 256 \<Longrightarrow> \<exists>info. hkdf_label label context out_len = Inr info"
  by (simp add: hkdf_label_def usize_checked_add_def usize_max_def)

lemma hkdf_expand_label_ok:
  assumes "crypto_ok C" "length label < 250" "length context < 256" "length out < 2 ^ 16"
    "div_ceil (length out) (output_len a) \<le> 255"
  shows "\<exists>s. hkdf_expand_label C a prk label context out = Inr s \<and> length s = length out"
proof -
  obtain info where "hkdf_label label context (length out) = Inr info"
    using hkdf_label_ok assms(2-4) by blast
  with assms show ?thesis
    by (simp add: hkdf_expand_label_def hkdf_expand_rfc length_rfc_expand)
qed

lemma derive_secret_ok:
  assumes "crypto_ok C" "length label < 250" "length th < 256"
  shows "\<exists>s. derive_secret C a prk label th = Inr (from_bounded_slice s) \<and> length s = output_len a"
proof -
  have "output_len a < 2 ^ 16" using output_len_less_256 [of a] by simp
  then obtain s where "hkdf_expand_label C a prk label th (replicate (output_len a) 0) = Inr s"
    "length s = output_len a"
    using hkdf_expand_label_ok [OF assms(1-3), of "replicate (output_len a) 0" a prk] by auto
  then show ?thesis by (auto simp: derive_secret_def)
qed

text \<open>
  C24. \<open>Hkdf::expand\<close> is HKDF-Expand of RFC 5869: for an output of at most 255 blocks it writes
  the first bytes of \<open>T(1) T(2) ...\<close> over the whole buffer, whatever the buffer held, and it
  refuses longer outputs.
\<close>

theorem expand_is_rfc5869:
  assumes "crypto_ok C"
  shows "hkdf_expand C a prk info out =
    (if length out \<le> 255 * output_len a then Inr (rfc_expand C a prk info (length out))
     else Inl OutputTooLong)"
proof -
  have "div_ceil (length out) (output_len a) \<le> 255 \<longleftrightarrow> length out \<le> 255 * output_len a"
  proof
    assume "div_ceil (length out) (output_len a) \<le> 255"
    then have "div_ceil (length out) (output_len a) * output_len a \<le> 255 * output_len a"
      by (rule mult_le_mono1)
    then show "length out \<le> 255 * output_len a"
      using div_ceil_mult [of "output_len a" "length out"] by (metis le_trans output_len_pos)
  qed (rule div_ceil_le, simp_all)
  then show ?thesis using hkdf_expand_rfc [OF assms, of a prk info out] by auto
qed

theorem expand_is_rfc5869_witness:
  "hkdf_expand crypto_toy Sha256 [1] [2] [0, 0, 0] =
    (if length [0, 0, 0 :: u8] \<le> 255 * output_len Sha256
     then Inr (rfc_expand crypto_toy Sha256 [1] [2] (length [0, 0, 0 :: u8])) else Inl OutputTooLong)"
  by (rule expand_is_rfc5869 [OF crypto_toy_ok])

end
