(* ===== verification/Schedule.thy ===== *)
theory Schedule
  imports Kdf Messages
begin

section \<open>The key schedule\<close>

text \<open>
  \<open>crypto/schedule.rs\<close>, with \<open>CertificateVerify::message\<close> and \<open>Finished::verify_data\<close> of
  \<open>wire/handshake/messages.rs\<close> and the secret newtypes of \<open>crypto/material.rs\<close>, which all wrap
  one \<open>hash_value\<close>.  Wiping secrets on drop is not observable and not modelled.
\<close>

type_synonym secret = hash_value

record schedule =
  sched_alg :: algorithm
  sched_secret :: secret

definition zeros :: "algorithm \<Rightarrow> bytes" where
  "zeros a = take (output_len a) (replicate HASH_MAX_LEN 0)"

definition schedule_new :: "crypto \<Rightarrow> algorithm \<Rightarrow> schedule" where
  "schedule_new C a = \<lparr>sched_alg = a, sched_secret = hkdf_extract C a (zeros a) (zeros a)\<rparr>"

definition schedule_new_psk :: "crypto \<Rightarrow> algorithm \<Rightarrow> bytes \<Rightarrow> schedule" where
  "schedule_new_psk C a psk = \<lparr>sched_alg = a, sched_secret = hkdf_extract C a (zeros a) psk\<rparr>"

definition schedule_into_handshake :: "crypto \<Rightarrow> bytes \<Rightarrow> schedule \<Rightarrow> hkdf_error + schedule" where
  "schedule_into_handshake C dhe s =
     and_then (derive_secret C (sched_alg s) (as_slice (sched_secret s)) ''derived''
                (as_slice (hash_empty C (sched_alg s)))) (\<lambda>derived.
     Inr \<lparr>sched_alg = sched_alg s, sched_secret = hkdf_extract C (sched_alg s) (as_slice derived) dhe\<rparr>)"

definition schedule_into_master :: "crypto \<Rightarrow> schedule \<Rightarrow> hkdf_error + schedule" where
  "schedule_into_master C s =
     and_then (derive_secret C (sched_alg s) (as_slice (sched_secret s)) ''derived''
                (as_slice (hash_empty C (sched_alg s)))) (\<lambda>derived.
     Inr \<lparr>sched_alg = sched_alg s,
          sched_secret = hkdf_extract C (sched_alg s) (as_slice derived) (zeros (sched_alg s))\<rparr>)"

definition schedule_derive :: "crypto \<Rightarrow> string \<Rightarrow> bytes \<Rightarrow> schedule \<Rightarrow> hkdf_error + secret" where
  "schedule_derive C label th s = derive_secret C (sched_alg s) (as_slice (sched_secret s)) label th"

definition client_handshake_traffic_secret :: "crypto \<Rightarrow> bytes \<Rightarrow> schedule \<Rightarrow> hkdf_error + secret" where
  "client_handshake_traffic_secret C th s = schedule_derive C ''c hs traffic'' th s"

definition server_handshake_traffic_secret :: "crypto \<Rightarrow> bytes \<Rightarrow> schedule \<Rightarrow> hkdf_error + secret" where
  "server_handshake_traffic_secret C th s = schedule_derive C ''s hs traffic'' th s"

definition client_application_traffic_secret :: "crypto \<Rightarrow> bytes \<Rightarrow> schedule \<Rightarrow> hkdf_error + secret" where
  "client_application_traffic_secret C th s = schedule_derive C ''c ap traffic'' th s"

definition server_application_traffic_secret :: "crypto \<Rightarrow> bytes \<Rightarrow> schedule \<Rightarrow> hkdf_error + secret" where
  "server_application_traffic_secret C th s = schedule_derive C ''s ap traffic'' th s"

definition resumption_master_secret :: "crypto \<Rightarrow> bytes \<Rightarrow> schedule \<Rightarrow> hkdf_error + secret" where
  "resumption_master_secret C th s = schedule_derive C ''res master'' th s"

definition exporter_master_secret :: "crypto \<Rightarrow> bytes \<Rightarrow> schedule \<Rightarrow> hkdf_error + secret" where
  "exporter_master_secret C th s = schedule_derive C ''exp master'' th s"

definition export_keying_material ::
    "crypto \<Rightarrow> algorithm \<Rightarrow> bytes \<Rightarrow> string \<Rightarrow> bytes \<Rightarrow> bytes \<Rightarrow> hkdf_error + bytes" where
  "export_keying_material C a exporter_master label context out =
     and_then (derive_secret C a exporter_master label (as_slice (hash_empty C a))) (\<lambda>s.
     hkdf_expand_label C a (as_slice s) ''exporter'' (as_slice (hash C a context)) out)"

definition RESUMPTION_HASH :: algorithm where "RESUMPTION_HASH = Sha256"

definition client_early_traffic_secret :: "crypto \<Rightarrow> bytes \<Rightarrow> bytes \<Rightarrow> hkdf_error + secret" where
  "client_early_traffic_secret C psk th =
     (let early = hkdf_extract C RESUMPTION_HASH (replicate SHA256_LEN 0) psk in
      derive_secret C RESUMPTION_HASH (as_slice early) ''c e traffic'' th)"

text \<open>\<open>ResumptionMaster::psk\<close>.\<close>

definition resumption_psk :: "crypto \<Rightarrow> secret \<Rightarrow> bytes \<Rightarrow> hkdf_error + bytes" where
  "resumption_psk C master nonce =
     hkdf_expand_label C RESUMPTION_HASH (as_slice master) ''resumption'' nonce (replicate SHA256_LEN 0)"

record traffic_keys =
  tk_key :: bytes
  tk_iv :: bytes

text \<open>\<open>TrafficKeys<K>::derive\<close>, the key length as an argument.\<close>

definition traffic_keys_derive :: "crypto \<Rightarrow> nat \<Rightarrow> algorithm \<Rightarrow> bytes \<Rightarrow> hkdf_error + traffic_keys" where
  "traffic_keys_derive C k a s =
     and_then (hkdf_expand_label C a s ''key'' [] (replicate k 0)) (\<lambda>key.
     and_then (hkdf_expand_label C a s ''iv'' [] (replicate 12 0)) (\<lambda>iv.
     Inr \<lparr>tk_key = key, tk_iv = iv\<rparr>))"

definition finished_verify_data ::
    "crypto \<Rightarrow> algorithm \<Rightarrow> bytes \<Rightarrow> bytes \<Rightarrow> hkdf_error + secret" where
  "finished_verify_data C a traffic th =
     and_then (map_err (\<lambda>_. OutputTooLong) (secret_zeroed (output_len a))) (\<lambda>raw_key.
     and_then (hkdf_expand_label C a traffic ''finished'' [] (as_slice raw_key)) (\<lambda>out.
     Inr (from_bounded_slice (ring_hmac C a (as_slice (set_slice out raw_key)) th))))"

definition verify_data_ct_eq :: "secret \<Rightarrow> bytes \<Rightarrow> bool" where
  "verify_data_ct_eq s candidate \<longleftrightarrow> length (as_slice s) = length candidate \<and> as_slice s = candidate"

definition CV_CAPACITY :: nat where "CV_CAPACITY = 64 + 33 + 1 + HASH_MAX_LEN"

definition certificate_verify_message ::
    "u8 copy_inline \<Rightarrow> bytes \<Rightarrow> bool \<Rightarrow> encode_error + bytes" where
  "certificate_verify_message ci th from_server =
     (let context = ascii (if from_server then ''TLS 1.3, server CertificateVerify''
                           else ''TLS 1.3, client CertificateVerify'') in
      and_then (ok_or Overflow (ci_extend ci CV_CAPACITY (replicate 64 0x20) [])) (\<lambda>msg.
      and_then (ok_or Overflow (ci_extend ci CV_CAPACITY context msg)) (\<lambda>msg.
      and_then (ok_or Overflow (ci_push ci CV_CAPACITY 0x00 msg)) (\<lambda>msg.
      ok_or Overflow (ci_extend ci CV_CAPACITY th msg)))))"

subsection \<open>Derivations never fail\<close>

definition schedule_ok :: "schedule \<Rightarrow> bool" where
  "schedule_ok s \<longleftrightarrow> length (as_slice (sched_secret s)) = output_len (sched_alg s)"

lemma schedule_new_ok: "crypto_ok C \<Longrightarrow> schedule_ok (schedule_new C a) \<and> schedule_ok (schedule_new_psk C a psk)"
  by (simp add: schedule_ok_def schedule_new_def schedule_new_psk_def hkdf_extract_def)

lemma schedule_derive_ok:
  assumes "crypto_ok C" "length label < 250" "length th < 256"
  shows "\<exists>x. schedule_derive C label th s = Inr x \<and> length (as_slice x) = output_len (sched_alg s)"
  using derive_secret_ok [OF assms, of "sched_alg s" "as_slice (sched_secret s)"]
  by (auto simp: schedule_derive_def)

lemma schedule_derived_ok:
  assumes "crypto_ok C"
  shows "\<exists>d. derive_secret C (sched_alg s) (as_slice (sched_secret s)) ''derived''
    (as_slice (hash_empty C (sched_alg s))) = Inr d"
  using derive_secret_ok [OF assms, of "''derived''" "as_slice (hash_empty C (sched_alg s))"]
    output_len_less_256 assms by (fastforce simp: hash_empty_def)

lemma schedule_into_ok:
  assumes "crypto_ok C"
  shows "\<exists>t. schedule_into_handshake C dhe s = Inr t \<and> schedule_ok t \<and> sched_alg t = sched_alg s"
    and "\<exists>t. schedule_into_master C s = Inr t \<and> schedule_ok t \<and> sched_alg t = sched_alg s"
  using schedule_derived_ok [OF assms, of s] assms
  by (auto simp: schedule_into_handshake_def schedule_into_master_def schedule_ok_def hkdf_extract_def)

lemma div_ceil_small: "m \<le> 48 \<Longrightarrow> div_ceil m (output_len a) \<le> 255"
  by (rule div_ceil_le) (cases a; simp add: SHA256_LEN_def SHA384_LEN_def)+

lemma expand_label_small_ok:
  assumes "crypto_ok C" "length label < 250" "length ctx < 256" "length out \<le> 48"
  shows "\<exists>s. hkdf_expand_label C a prk label ctx out = Inr s \<and> length s = length out"
  using hkdf_expand_label_ok [OF assms(1-3), of out a prk] div_ceil_small assms(4) by simp

lemma traffic_keys_ok:
  assumes "crypto_ok C" "k \<le> 48"
  shows "\<exists>t. traffic_keys_derive C k a s = Inr t \<and> length (tk_key t) = k \<and> length (tk_iv t) = 12"
  using expand_label_small_ok [OF assms(1), of "''key''" "[]" "replicate k 0" a s]
    expand_label_small_ok [OF assms(1), of "''iv''" "[]" "replicate 12 0" a s] assms(2)
  by (auto simp: traffic_keys_derive_def)

lemma finished_verify_data_ok:
  assumes "crypto_ok C"
  shows "\<exists>v. finished_verify_data C a traffic th = Inr v \<and> length (as_slice v) = output_len a"
proof -
  have z: "length (as_slice \<lparr>hv_bytes = replicate HASH_MAX_LEN 0, hv_len = output_len a\<rparr>) = output_len a"
    using output_len_le [of a] by (simp add: as_slice_def)
  moreover have "output_len a \<le> 48" using output_len_le [of a] by (simp add: HASH_MAX_LEN_def SHA384_LEN_def)
  ultimately obtain out where "hkdf_expand_label C a traffic ''finished'' []
      (as_slice \<lparr>hv_bytes = replicate HASH_MAX_LEN 0, hv_len = output_len a\<rparr>) = Inr out"
    using expand_label_small_ok [OF assms, of "''finished''" "[]"
        "as_slice \<lparr>hv_bytes = replicate HASH_MAX_LEN 0, hv_len = output_len a\<rparr>" a traffic] by auto
  then show ?thesis
    using assms output_len_le [of a] by (auto simp: finished_verify_data_def secret_zeroed_def)
qed

text \<open>
  C27. The key schedule is total.  For either hash, starting with or without a PSK, moving
  to the handshake and master stages and deriving any of the six labelled secrets from a
  transcript hash never fails, and every secret has the length of the hash; so have traffic
  keys the requested length, IVs twelve bytes and Finished verify data the hash's length.
\<close>

theorem schedule_total:
  assumes "crypto_ok C" and "length th < 256" and "k \<le> 48"
  shows "\<exists>hs ms. schedule_into_handshake C dhe (if p then schedule_new_psk C a psk else schedule_new C a) = Inr hs \<and>
    schedule_into_master C hs = Inr ms \<and>
    (\<exists>c1 s1 c2 s2 r e.
       client_handshake_traffic_secret C th hs = Inr c1 \<and> server_handshake_traffic_secret C th hs = Inr s1 \<and>
       client_application_traffic_secret C th ms = Inr c2 \<and> server_application_traffic_secret C th ms = Inr s2 \<and>
       resumption_master_secret C th ms = Inr r \<and> exporter_master_secret C th ms = Inr e \<and>
       (\<forall>x \<in> {c1, s1, c2, s2, r, e}. length (as_slice x) = output_len a) \<and>
       (\<exists>t. traffic_keys_derive C k a (as_slice c1) = Inr t \<and> length (tk_key t) = k \<and> length (tk_iv t) = 12) \<and>
       (\<exists>v. finished_verify_data C a (as_slice c1) th = Inr v \<and> length (as_slice v) = output_len a))"
proof -
  let ?s = "if p then schedule_new_psk C a psk else schedule_new C a"
  have alg: "sched_alg ?s = a" by (simp add: schedule_new_def schedule_new_psk_def)
  obtain hs where hs: "schedule_into_handshake C dhe ?s = Inr hs" "sched_alg hs = a"
    using schedule_into_ok(1) [OF assms(1), of dhe ?s] alg by auto
  obtain ms where ms: "schedule_into_master C hs = Inr ms" "sched_alg ms = a"
    using schedule_into_ok(2) [OF assms(1), of hs] hs(2) by auto
  note d = schedule_derive_ok [OF assms(1) _ assms(2)]
  show ?thesis
    using hs ms d [of "''c hs traffic''" hs] d [of "''s hs traffic''" hs] d [of "''c ap traffic''" ms]
      d [of "''s ap traffic''" ms] d [of "''res master''" ms] d [of "''exp master''" ms]
      traffic_keys_ok [OF assms(1,3)] finished_verify_data_ok [OF assms(1)]
    unfolding client_handshake_traffic_secret_def server_handshake_traffic_secret_def
      client_application_traffic_secret_def server_application_traffic_secret_def
      resumption_master_secret_def exporter_master_secret_def
    by fastforce
qed

theorem schedule_total_witness:
  "\<exists>hs ms. schedule_into_handshake crypto_toy [1, 2]
      (if True then schedule_new_psk crypto_toy Sha384 [3] else schedule_new crypto_toy Sha384) = Inr hs \<and>
    schedule_into_master crypto_toy hs = Inr ms \<and>
    (\<exists>c1 s1 c2 s2 r e.
       client_handshake_traffic_secret crypto_toy [4] hs = Inr c1 \<and>
       server_handshake_traffic_secret crypto_toy [4] hs = Inr s1 \<and>
       client_application_traffic_secret crypto_toy [4] ms = Inr c2 \<and>
       server_application_traffic_secret crypto_toy [4] ms = Inr s2 \<and>
       resumption_master_secret crypto_toy [4] ms = Inr r \<and> exporter_master_secret crypto_toy [4] ms = Inr e \<and>
       (\<forall>x \<in> {c1, s1, c2, s2, r, e}. length (as_slice x) = output_len Sha384) \<and>
       (\<exists>t. traffic_keys_derive crypto_toy 32 Sha384 (as_slice c1) = Inr t \<and> length (tk_key t) = 32 \<and>
          length (tk_iv t) = 12) \<and>
       (\<exists>v. finished_verify_data crypto_toy Sha384 (as_slice c1) [4] = Inr v \<and>
          length (as_slice v) = output_len Sha384))"
  by (rule schedule_total) simp_all

text \<open>
  The content signed in CertificateVerify.  For a transcript hash of at most 48 bytes it
  is 64 spaces, the context string of the sender, a zero byte and the hash; a longer hash is
  refused; and a server's content never equals a client's, so a signature made in one role
  cannot be replayed in the other.
\<close>

theorem certificate_verify_message_correct:
  assumes "copy_inline_ok ci"
  shows "certificate_verify_message ci th from_server =
      (if length th \<le> HASH_MAX_LEN
       then Inr (replicate 64 0x20 @
         ascii (if from_server then ''TLS 1.3, server CertificateVerify''
                else ''TLS 1.3, client CertificateVerify'') @ [0] @ th)
       else Inl Overflow) \<and>
    (\<forall>th' m. certificate_verify_message ci th True = Inr m \<longrightarrow> certificate_verify_message ci th' False \<noteq> Inr m)"
proof -
  have run: "certificate_verify_message ci x b =
      (if length x \<le> HASH_MAX_LEN
       then Inr (replicate 64 0x20 @
         ascii (if b then ''TLS 1.3, server CertificateVerify'' else ''TLS 1.3, client CertificateVerify'') @ [0] @ x)
       else Inl Overflow)" for x b
    by (simp add: certificate_verify_message_def copy_inline_okD [OF assms] CV_CAPACITY_def Let_def)
  have "ascii ''TLS 1.3, server CertificateVerify'' \<noteq> ascii ''TLS 1.3, client CertificateVerify''"
    by (simp add: ascii_def)
  then have "replicate 64 0x20 @ ascii ''TLS 1.3, server CertificateVerify'' @ [0] @ x \<noteq>
      replicate 64 0x20 @ ascii ''TLS 1.3, client CertificateVerify'' @ [0] @ y" for x y
    by (simp add: append_eq_append_conv)
  then show ?thesis unfolding run by auto
qed

theorem certificate_verify_message_witness:
  "certificate_verify_message copy_inline_ref [1, 2] True =
      Inr (replicate 64 0x20 @ ascii ''TLS 1.3, server CertificateVerify'' @ [0] @ [1, 2]) \<and>
    certificate_verify_message copy_inline_ref [1, 2] False \<noteq>
      Inr (replicate 64 0x20 @ ascii ''TLS 1.3, server CertificateVerify'' @ [0] @ [1, 2])"
proof -
  note ok = certificate_verify_message_correct [OF copy_inline_ref_ok, of "[1, 2]" True]
  have m: "certificate_verify_message copy_inline_ref [1, 2] True =
      Inr (replicate 64 0x20 @ ascii ''TLS 1.3, server CertificateVerify'' @ [0] @ [1, 2])"
    using ok by (simp only: HASH_MAX_LEN_def SHA384_LEN_def) (simp only: list.size if_True simp_thms, simp)
  then show ?thesis using ok by blast
qed

end
