(* ===== verification/Aead.thy ===== *)
theory Aead
  imports Schedule
begin

section \<open>Authenticated encryption\<close>

unbundle bit_operations_syntax

text \<open>
  \<open>crypto/aead.rs\<close>.  The AEAD primitives of \<open>ring\<close> are the record \<open>ring_aead\<close>: each works in
  place on a buffer, so it returns its result and the buffer afterwards.  \<open>aead_ok\<close> is their
  documented functional behaviour: lengths, that opening inverts sealing, and that what opens
  is a sealing (the algorithms are deterministic and compare tags).  No secrecy or
  unforgeability is assumed or shown.
\<close>

datatype aead_alg = AES_128_GCM | AES_256_GCM | CHACHA20_POLY1305

datatype aead_error = AeInvalidKey | AeSealFailed | AeOpenFailed

type_synonym ring_key = "aead_alg \<times> bytes"

record ring_aead =
  ra_key_ok :: "aead_alg \<Rightarrow> bytes \<Rightarrow> bool"
  ra_seal :: "ring_key \<Rightarrow> bytes \<Rightarrow> bytes \<Rightarrow> bytes \<Rightarrow> bytes option \<times> bytes"
  ra_seal_append :: "ring_key \<Rightarrow> bytes \<Rightarrow> bytes \<Rightarrow> bytes \<Rightarrow> bool \<times> bytes"
  ra_open :: "ring_key \<Rightarrow> bytes \<Rightarrow> bytes \<Rightarrow> bytes \<Rightarrow> nat option \<times> bytes"

definition aead_ok :: "ring_aead \<Rightarrow> bool" where
  "aead_ok A \<longleftrightarrow>
     (\<forall>a k. ra_key_ok A a k \<longleftrightarrow> length k = (if a = AES_128_GCM then 16 else 32)) \<and>
     (\<forall>k n d p. length (snd (ra_seal A k n d p)) = length p) \<and>
     (\<forall>k n d p t c. ra_seal A k n d p = (Some t, c) \<longrightarrow>
        length t = 16 \<and> ra_seal_append A k n d p = (True, c @ t) \<and>
        (\<exists>rest. ra_open A k n d (c @ t) = (Some (length p), p @ rest))) \<and>
     (\<forall>k n d c. length (snd (ra_open A k n d c)) = length c) \<and>
     (\<forall>k n d c l b. ra_open A k n d c = (Some l, b) \<longrightarrow>
        l + 16 = length c \<and> ra_seal A k n d (take l b) = (Some (drop l c), take l c))"

record aead_key =
  ak_inner :: ring_key
  ak_iv :: bytes

definition aead_new :: "ring_aead \<Rightarrow> aead_alg \<Rightarrow> bytes \<Rightarrow> bytes \<Rightarrow> aead_error + aead_key" where
  "aead_new A a key iv = (if ra_key_ok A a key then Inr \<lparr>ak_inner = (a, key), ak_iv = iv\<rparr> else Inl AeInvalidKey)"

definition aes_128_gcm :: "ring_aead \<Rightarrow> bytes \<Rightarrow> bytes \<Rightarrow> aead_error + aead_key" where
  "aes_128_gcm A key iv = aead_new A AES_128_GCM key iv"

definition aes_256_gcm :: "ring_aead \<Rightarrow> bytes \<Rightarrow> bytes \<Rightarrow> aead_error + aead_key" where
  "aes_256_gcm A key iv = aead_new A AES_256_GCM key iv"

definition chacha20_poly1305 :: "ring_aead \<Rightarrow> bytes \<Rightarrow> bytes \<Rightarrow> aead_error + aead_key" where
  "chacha20_poly1305 A key iv = aead_new A CHACHA20_POLY1305 key iv"

definition nonce :: "aead_key \<Rightarrow> u64 \<Rightarrow> bytes" where
  "nonce K seq =
     fold (\<lambda>i n. n[4 + i := (n ! (4 + i)) XOR (be_bytes 8 (unat seq) ! i)]) [0..<8] (ak_iv K)"

definition aead_seal :: "ring_aead \<Rightarrow> aead_key \<Rightarrow> u64 \<Rightarrow> bytes \<Rightarrow> bytes \<Rightarrow> aead_error + bytes" where
  "aead_seal A K seq aad plaintext =
     (case ra_seal_append A (ak_inner K) (nonce K seq) aad plaintext of
        (True, buf) \<Rightarrow> Inr buf | (False, buf) \<Rightarrow> Inl AeSealFailed)"

text \<open>The in-place operations return the buffer they were given as well.\<close>

definition aead_seal_detached ::
    "ring_aead \<Rightarrow> aead_key \<Rightarrow> u64 \<Rightarrow> bytes \<Rightarrow> bytes \<Rightarrow> (aead_error + bytes) \<times> bytes" where
  "aead_seal_detached A K seq aad in_out =
     (case ra_seal A (ak_inner K) (nonce K seq) aad in_out of
        (Some tag, buf) \<Rightarrow> (Inr tag, buf) | (None, buf) \<Rightarrow> (Inl AeSealFailed, buf))"

definition aead_open ::
    "ring_aead \<Rightarrow> aead_key \<Rightarrow> u64 \<Rightarrow> bytes \<Rightarrow> bytes \<Rightarrow> (aead_error + bytes) \<times> bytes" where
  "aead_open A K seq aad in_out =
     (case ra_open A (ak_inner K) (nonce K seq) aad in_out of
        (Some l, buf) \<Rightarrow> (Inr (take l buf), buf) | (None, buf) \<Rightarrow> (Inl AeOpenFailed, buf))"

subsection \<open>A functional instance\<close>

definition aead_toy_tag :: "ring_key \<Rightarrow> bytes \<Rightarrow> bytes \<Rightarrow> bytes \<Rightarrow> bytes" where
  "aead_toy_tag k n d p = replicate 16 (fold (\<lambda>b h. h * 31 + b) (snd k @ n @ d @ p) 5)"

definition aead_toy :: ring_aead where
  "aead_toy =
     \<lparr>ra_key_ok = (\<lambda>a k. length k = (if a = AES_128_GCM then 16 else 32)),
      ra_seal = (\<lambda>k n d p. (Some (aead_toy_tag k n d p), map NOT p)),
      ra_seal_append = (\<lambda>k n d p. (True, map NOT p @ aead_toy_tag k n d p)),
      ra_open = (\<lambda>k n d c.
        let l = length c - 16; p = map NOT (take l c) in
        if 16 \<le> length c \<and> drop l c = aead_toy_tag k n d p then (Some l, p @ drop l c) else (None, c))\<rparr>"

lemma aead_toy_ok [simp]: "aead_ok aead_toy"
  by (auto simp: aead_ok_def aead_toy_def aead_toy_tag_def Let_def comp_def split: if_splits)

subsection \<open>Nonces\<close>

lemma fold_update_length:
  "length (fold (\<lambda>i n. n[f i := g i n]) is xs) = length xs"
  by (induction "is" arbitrary: xs) simp_all

lemma length8_conv: "length b = 8 \<longleftrightarrow> (\<exists>b0 b1 b2 b3 b4 b5 b6 b7. b = [b0, b1, b2, b3, b4, b5, b6, b7])"
  by (auto simp: eval_nat_numeral length_Suc_conv)

lemma nonce_unfold:
  assumes "length (ak_iv K) = 12"
  shows "nonce K seq = take 4 (ak_iv K) @ map2 (XOR) (drop 4 (ak_iv K)) (be_bytes 8 (unat seq))"
proof -
  obtain a0 a1 a2 a3 a4 a5 a6 a7 a8 a9 a10 a11 where
    iv: "ak_iv K = [a0, a1, a2, a3, a4, a5, a6, a7, a8, a9, a10, a11]"
    using assms by (auto simp: eval_nat_numeral length_Suc_conv)
  obtain b0 b1 b2 b3 b4 b5 b6 b7 where sq: "be_bytes 8 (unat seq) = [b0, b1, b2, b3, b4, b5, b6, b7]"
    using length_be_bytes [of 8 "unat seq"] unfolding length8_conv by blast
  show ?thesis
    unfolding nonce_def iv sq by (simp add: upt_rec)
qed

lemma length_nonce: "length (nonce K seq) = length (ak_iv K)"
  unfolding nonce_def by (rule fold_update_length)

lemma xor_cancel: "(x :: 'a::len word) XOR y = x XOR z \<longleftrightarrow> y = z"
proof
  assume "x XOR y = x XOR z"
  then have "x XOR (x XOR y) = x XOR (x XOR z)" by simp
  then show "y = z" by (simp only: xor.assoc [symmetric] xor_self_eq xor.left_neutral)
qed simp

lemma map2_xor_inject:
  "length xs = length ys \<Longrightarrow> length xs = length zs \<Longrightarrow>
     map2 (XOR) xs ys = map2 (XOR) xs (zs :: u8 list) \<Longrightarrow> ys = zs"
proof (induction xs arbitrary: ys zs)
  case (Cons x xs)
  from Cons.prems(1,2) obtain y ys' z zs' where eqs: "ys = y # ys'" "zs = z # zs'"
    by (metis length_Suc_conv list.size(4) Suc_eq_plus1)
  from Cons.prems(3) have "x XOR y = x XOR z" "map2 (XOR) xs ys' = map2 (XOR) xs zs'"
    unfolding eqs by simp_all
  with Cons.IH [of ys' zs'] Cons.prems(1,2) show ?case
    unfolding eqs xor_cancel by simp
qed simp

lemma be_bytes_8_inject: "be_bytes 8 (unat (s :: u64)) = be_bytes 8 (unat (t :: u64)) \<Longrightarrow> s = t"
proof -
  assume eq: "be_bytes 8 (unat s) = be_bytes 8 (unat t)"
  have "unat s < 256 ^ 8" "unat t < 256 ^ 8"
    using unsigned_less [where 'a = nat, of s] unsigned_less [where 'a = nat, of t] by simp_all
  then have "unat s = unat t" using eq by (rule be_bytes_inject)
  then show "s = t" by (simp only: word_unat_eq_iff)
qed

lemma nonce_inject:
  assumes "length (ak_iv K) = 12" "nonce K s = nonce K t"
  shows "s = t"
proof -
  have "map2 (XOR) (drop 4 (ak_iv K)) (be_bytes 8 (unat s)) =
      map2 (XOR) (drop 4 (ak_iv K)) (be_bytes 8 (unat t))"
    using assms by (simp add: nonce_unfold del: be_bytes.simps)
  then have "be_bytes 8 (unat s) = be_bytes 8 (unat t)"
    by (rule map2_xor_inject [rotated 2]) (simp_all add: assms(1) del: be_bytes.simps)
  then show ?thesis by (rule be_bytes_8_inject)
qed

subsection \<open>Sealing and opening\<close>

lemma aead_okD:
  assumes "aead_ok A"
  shows "ra_key_ok A a k \<longleftrightarrow> length k = (if a = AES_128_GCM then 16 else 32)"
    and "length (snd (ra_seal A rk n d p)) = length p"
    and "ra_seal A rk n d p = (Some t, c) \<Longrightarrow> length t = 16"
    and "ra_seal A rk n d p = (Some t, c) \<Longrightarrow> ra_seal_append A rk n d p = (True, c @ t)"
    and "ra_seal A rk n d p = (Some t, c) \<Longrightarrow> \<exists>rest. ra_open A rk n d (c @ t) = (Some (length p), p @ rest)"
    and "length (snd (ra_open A rk n d c)) = length c"
    and "ra_open A rk n d c = (Some l, b) \<Longrightarrow>
      l + 16 = length c \<and> ra_seal A rk n d (take l b) = (Some (drop l c), take l c)"
  using assms unfolding aead_ok_def by (simp_all only: simp_thms)

lemma aead_open_sealed:
  assumes "aead_ok A" "aead_seal_detached A K seq aad p = (Inr tag, c)"
  shows "length tag = 16 \<and> length c = length p \<and>
    (\<exists>rest. aead_open A K seq aad (c @ tag) = (Inr p, p @ rest) \<and> length rest = 16)"
proof -
  have s: "ra_seal A (ak_inner K) (nonce K seq) aad p = (Some tag, c)"
    using assms(2) by (auto simp: aead_seal_detached_def split: prod.splits option.splits)
  obtain rest where o: "ra_open A (ak_inner K) (nonce K seq) aad (c @ tag) = (Some (length p), p @ rest)"
    using aead_okD(5) [OF assms(1) s] ..
  have "length c = length p" "length tag = 16"
    using aead_okD(2) [OF assms(1), of "ak_inner K" "nonce K seq" aad p] aead_okD(3) [OF assms(1) s] s
    by simp_all
  moreover from this have "length rest = 16"
    using aead_okD(6) [OF assms(1), of "ak_inner K" "nonce K seq" aad "c @ tag"] o by simp
  ultimately show ?thesis using o by (auto simp: aead_open_def)
qed

end
