(* ===== verification/RecordLayer.thy ===== *)
theory RecordLayer
  imports Aead
begin

section \<open>The record layer\<close>

text \<open>
  \<open>wire/record/\<close>: cipher suites, content types, plaintext records, and the \<open>Sealer\<close> and
  \<open>Opener\<close> of protected records with their sequence numbers and the opener's poison flag.
  Operations on caller-supplied slices return the slice afterwards.  The \<open>SpareWriter\<close> of the
  \<open>o3\<close> crate and its transactions are a parameter, the record \<open>txn_ops\<close>.
\<close>

definition PROTOCOL_VERSION :: u16 where "PROTOCOL_VERSION = 0x0303"

datatype cipher_suite = Aes128GcmSha256 | ChaCha20Poly1305Sha256 | Aes256GcmSha384

definition SUPPORTED_SUITES :: "cipher_suite list" where
  "SUPPORTED_SUITES = [Aes128GcmSha256, ChaCha20Poly1305Sha256, Aes256GcmSha384]"

definition cipher_suite_from_u16 :: "u16 \<Rightarrow> cipher_suite option" where
  "cipher_suite_from_u16 v =
     (if v = 0x1301 then Some Aes128GcmSha256
      else if v = 0x1303 then Some ChaCha20Poly1305Sha256
      else if v = 0x1302 then Some Aes256GcmSha384
      else None)"

fun cipher_suite_wire_id :: "cipher_suite \<Rightarrow> u16" where
  "cipher_suite_wire_id Aes128GcmSha256 = 0x1301"
| "cipher_suite_wire_id ChaCha20Poly1305Sha256 = 0x1303"
| "cipher_suite_wire_id Aes256GcmSha384 = 0x1302"

fun hash_alg :: "cipher_suite \<Rightarrow> algorithm" where
  "hash_alg Aes128GcmSha256 = Sha256"
| "hash_alg ChaCha20Poly1305Sha256 = Sha256"
| "hash_alg Aes256GcmSha384 = Sha384"

definition MAX_PLAINTEXT_BODY :: nat where "MAX_PLAINTEXT_BODY = 2 ^ 14"
definition MAX_CIPHERTEXT_BODY :: nat where "MAX_CIPHERTEXT_BODY = 2 ^ 14 + 256"
definition HEADER_LEN :: nat where "HEADER_LEN = 5"
definition AEAD_TAG_LEN :: nat where "AEAD_TAG_LEN = 16"
definition AEAD_CONFIDENTIALITY_LIMIT :: u64 where "AEAD_CONFIDENTIALITY_LIMIT = 2 ^ 23"

lemmas record_consts = MAX_PLAINTEXT_BODY_def MAX_CIPHERTEXT_BODY_def HEADER_LEN_def AEAD_TAG_LEN_def

datatype content_type = ChangeCipherSpec | AlertType | Handshake | ApplicationData

datatype record_error =
    BadContentType | BodyTooLarge | RecordOverflow | OpenFailed | SealFailed | AllZeroInner
  | NotCipherTextOuter | BadLegacyVersion | SeqExhausted | KeyLimitReached
  | UnexpectedChangeCipherSpec | Poisoned | BufferTooSmall | LengthMismatch

fun content_type_u8 :: "content_type \<Rightarrow> u8" where
  "content_type_u8 ChangeCipherSpec = 20"
| "content_type_u8 AlertType = 21"
| "content_type_u8 Handshake = 22"
| "content_type_u8 ApplicationData = 23"

definition content_type_from_u8 :: "u8 \<Rightarrow> record_error + content_type" where
  "content_type_from_u8 b =
     (if b = 20 then Inr ChangeCipherSpec
      else if b = 21 then Inr AlertType
      else if b = 22 then Inr Handshake
      else if b = 23 then Inr ApplicationData
      else Inl BadContentType)"

datatype key_error = KeyAead aead_error | KeyKdf hkdf_error

definition record_error_of_aead :: "aead_error \<Rightarrow> record_error" where
  "record_error_of_aead _ = SealFailed"

text \<open>\<open>record::key::Key::derive\<close>.\<close>

definition key_derive :: "crypto \<Rightarrow> ring_aead \<Rightarrow> bytes \<Rightarrow> cipher_suite \<Rightarrow> key_error + aead_key" where
  "key_derive C A s suite =
     (let a = hash_alg suite in
      case suite of
        Aes128GcmSha256 \<Rightarrow>
          and_then (map_err KeyKdf (traffic_keys_derive C 16 a s)) (\<lambda>keys.
          map_err KeyAead (aes_128_gcm A (tk_key keys) (tk_iv keys)))
      | ChaCha20Poly1305Sha256 \<Rightarrow>
          and_then (map_err KeyKdf (traffic_keys_derive C 32 a s)) (\<lambda>keys.
          map_err KeyAead (chacha20_poly1305 A (tk_key keys) (tk_iv keys)))
      | Aes256GcmSha384 \<Rightarrow>
          and_then (map_err KeyKdf (traffic_keys_derive C 32 a s)) (\<lambda>keys.
          map_err KeyAead (aes_256_gcm A (tk_key keys) (tk_iv keys))))"

subsection \<open>Lengths and headers\<close>

definition check_body_len :: "bytes \<Rightarrow> record_error + unit" where
  "check_body_len body = (if length body > MAX_PLAINTEXT_BODY then Inl BodyTooLarge else Inr ())"

definition sealed_len_for :: "nat \<Rightarrow> record_error + nat" where
  "sealed_len_for body_len =
     (if body_len > MAX_PLAINTEXT_BODY then Inl BodyTooLarge
      else Inr (HEADER_LEN + body_len + 1 + AEAD_TAG_LEN))"

definition sealed_len :: "bytes \<Rightarrow> record_error + nat" where
  "sealed_len body = sealed_len_for (length body)"

definition plaintext_len :: "bytes \<Rightarrow> record_error + nat" where
  "plaintext_len body = and_then (check_body_len body) (\<lambda>_. Inr (HEADER_LEN + length body))"

definition write_header_vec :: "content_type \<Rightarrow> u16 \<Rightarrow> bytes \<Rightarrow> bytes" where
  "write_header_vec ct body_len out =
     out @ [content_type_u8 ct] @ be_bytes 2 (unat PROTOCOL_VERSION) @ be_bytes 2 (unat body_len)"

text \<open>Copying \<open>src\<close> into a slice at position \<open>i\<close>, within bounds.\<close>

definition copy_at :: "nat \<Rightarrow> bytes \<Rightarrow> bytes \<Rightarrow> bytes" where
  "copy_at i src dst = take i dst @ src @ drop (i + length src) dst"

definition write_header_slice :: "content_type \<Rightarrow> u16 \<Rightarrow> bytes \<Rightarrow> bytes" where
  "write_header_slice ct body_len out =
     copy_at 3 (be_bytes 2 (unat body_len))
       (copy_at 1 (be_bytes 2 (unat PROTOCOL_VERSION)) (out[0 := content_type_u8 ct]))"

record ('w, 't) txn_ops =
  tx_try_transaction :: "nat \<Rightarrow> 'w \<Rightarrow> 't option"
  tx_try_extend :: "bytes \<Rightarrow> 't \<Rightarrow> 't option"
  tx_initialized :: "'t \<Rightarrow> bytes"
  tx_set_initialized :: "bytes \<Rightarrow> 't \<Rightarrow> 't"
  tx_commit :: "'t \<Rightarrow> 'w \<Rightarrow> 'w option"

definition transaction_r :: "('w, 't) txn_ops \<Rightarrow> nat \<Rightarrow> 'w \<Rightarrow> record_error + 't" where
  "transaction_r T n w = ok_or BufferTooSmall (tx_try_transaction T n w)"

definition write_txn :: "('w, 't) txn_ops \<Rightarrow> bytes \<Rightarrow> 't \<Rightarrow> record_error + 't" where
  "write_txn T bs t = ok_or BufferTooSmall (tx_try_extend T bs t)"

definition commit_r :: "('w, 't) txn_ops \<Rightarrow> 't \<Rightarrow> 'w \<Rightarrow> record_error + 'w" where
  "commit_r T t w = ok_or BufferTooSmall (tx_commit T t w)"

definition write_header_txn :: "('w, 't) txn_ops \<Rightarrow> content_type \<Rightarrow> u16 \<Rightarrow> 't \<Rightarrow> record_error + 't" where
  "write_header_txn T ct body_len t =
     write_txn T ([content_type_u8 ct] @ be_bytes 2 (unat PROTOCOL_VERSION) @ be_bytes 2 (unat body_len)) t"

subsection \<open>Plaintext records\<close>

record plaintext =
  pt_content_type :: content_type
  pt_legacy_record_version :: u16
  pt_body :: bytes

definition plaintext_encode_into :: "content_type \<Rightarrow> bytes \<Rightarrow> bytes \<Rightarrow> (record_error + unit) \<times> bytes" where
  "plaintext_encode_into ct body out =
     (case check_body_len body of
        Inl e \<Rightarrow> (Inl e, out)
      | Inr u \<Rightarrow> (Inr (), write_header_vec ct (word_of_nat (length body)) out @ body))"

definition plaintext_encode :: "content_type \<Rightarrow> bytes \<Rightarrow> record_error + bytes" where
  "plaintext_encode ct body =
     (case plaintext_encode_into ct body [] of (Inl e, out) \<Rightarrow> Inl e | (Inr u, out) \<Rightarrow> Inr out)"

definition plaintext_encode_into_slice ::
    "content_type \<Rightarrow> bytes \<Rightarrow> bytes \<Rightarrow> (record_error + nat) \<times> bytes" where
  "plaintext_encode_into_slice ct body out =
     (case plaintext_len body of
        Inl e \<Rightarrow> (Inl e, out)
      | Inr n \<Rightarrow>
          if n > length out then (Inl BufferTooSmall, out)
          else let dst = copy_at HEADER_LEN body
                     (write_header_slice ct (word_of_nat (length body)) (take n out))
               in (Inr n, dst @ drop n out))"

definition plaintext_write_to ::
    "('w, 't) txn_ops \<Rightarrow> content_type \<Rightarrow> bytes \<Rightarrow> 'w \<Rightarrow> (record_error + unit) \<times> 'w" where
  "plaintext_write_to T ct body w =
     (case and_then (plaintext_len body) (\<lambda>n.
           and_then (transaction_r T n w) (\<lambda>t.
           and_then (write_header_txn T ct (word_of_nat (length body)) t) (\<lambda>t.
           and_then (write_txn T body t) (\<lambda>t. commit_r T t w)))) of
        Inl e \<Rightarrow> (Inl e, w) | Inr w' \<Rightarrow> (Inr (), w'))"

definition plaintext_parse :: "bytes \<Rightarrow> record_error + (plaintext \<times> nat) option" where
  "plaintext_parse input =
     (if length input < HEADER_LEN then Inr None
      else and_then (content_type_from_u8 (input ! 0)) (\<lambda>ct.
        let version = word_of_nat (be_nat [input ! 1, input ! 2]) :: u16 in
        if version \<noteq> 0x0301 \<and> version \<noteq> PROTOCOL_VERSION then Inl BadLegacyVersion
        else let body_len = be_nat [input ! 3, input ! 4] in
          if body_len > MAX_PLAINTEXT_BODY then Inl BodyTooLarge
          else let n = HEADER_LEN + body_len in
            if length input < n then Inr None
            else Inr (Some (\<lparr>pt_content_type = ct, pt_legacy_record_version = version,
                             pt_body = drop HEADER_LEN (take n input)\<rparr>, n))))"

subsection \<open>Sealer\<close>

record sealer =
  se_aead :: aead_key
  se_seq :: u64

definition sealer_with_suite :: "crypto \<Rightarrow> ring_aead \<Rightarrow> bytes \<Rightarrow> cipher_suite \<Rightarrow> key_error + sealer" where
  "sealer_with_suite C A s suite =
     and_then (key_derive C A s suite) (\<lambda>k. Inr \<lparr>se_aead = k, se_seq = 0\<rparr>)"

definition sealer_from_secret :: "crypto \<Rightarrow> ring_aead \<Rightarrow> bytes \<Rightarrow> key_error + sealer" where
  "sealer_from_secret C A s = sealer_with_suite C A s Aes128GcmSha256"

definition sealer_needs_key_update :: "sealer \<Rightarrow> bool" where
  "sealer_needs_key_update S \<longleftrightarrow> se_seq S \<ge> AEAD_CONFIDENTIALITY_LIMIT"

definition check_seq :: "sealer \<Rightarrow> record_error + unit" where
  "check_seq S =
     (if se_seq S = - 1 then Inl SeqExhausted
      else if se_seq S \<ge> AEAD_CONFIDENTIALITY_LIMIT then Inl KeyLimitReached
      else Inr ())"

text \<open>\<open>seal_plaintext\<close> works in place on the record, the header being the associated data.\<close>

definition seal_plaintext ::
    "ring_aead \<Rightarrow> bytes \<Rightarrow> sealer \<Rightarrow> (record_error + bytes) \<times> bytes \<times> sealer" where
  "seal_plaintext A rec S =
     (let seq = se_seq S;
          S' = S\<lparr>se_seq := se_seq S + 1\<rparr>;
          header = take HEADER_LEN rec in
      case aead_seal_detached A (se_aead S') seq header (drop HEADER_LEN rec) of
        (Inl e, buf) \<Rightarrow> (Inl (record_error_of_aead e), header @ buf, S')
      | (Inr tag, buf) \<Rightarrow> (Inr tag, header @ buf, S'))"

definition seal_into ::
    "ring_aead \<Rightarrow> content_type \<Rightarrow> bytes \<Rightarrow> bytes \<Rightarrow> sealer \<Rightarrow> (record_error + unit) \<times> bytes \<times> sealer" where
  "seal_into A ct body out S =
     (case sealed_len body of Inl e \<Rightarrow> (Inl e, out, S)
      | Inr n \<Rightarrow>
     (case check_seq S of Inl e \<Rightarrow> (Inl e, out, S)
      | Inr u \<Rightarrow>
          (let st = length out;
               out1 = write_header_vec ApplicationData (word_of_nat (length body + 1 + AEAD_TAG_LEN)) out
                        @ body @ [content_type_u8 ct]
           in case seal_plaintext A (drop st out1) S of
                (Inl e, buf, S') \<Rightarrow> (Inl e, take st (take st out1 @ buf), S')
              | (Inr tag, buf, S') \<Rightarrow> (Inr (), take st out1 @ buf @ tag, S'))))"

definition seal :: "ring_aead \<Rightarrow> content_type \<Rightarrow> bytes \<Rightarrow> sealer \<Rightarrow> (record_error + bytes) \<times> sealer" where
  "seal A ct body S =
     (case seal_into A ct body [] S of
        (Inl e, out, S') \<Rightarrow> (Inl e, S') | (Inr u, out, S') \<Rightarrow> (Inr out, S'))"

definition seal_record ::
    "ring_aead \<Rightarrow> content_type \<Rightarrow> bytes \<Rightarrow> bytes \<Rightarrow> sealer \<Rightarrow> (record_error + unit) \<times> bytes \<times> sealer" where
  "seal_record A ct body out S =
     (let plaintext_end = length out - AEAD_TAG_LEN;
          out1 = write_header_slice ApplicationData (word_of_nat (length body + 1 + AEAD_TAG_LEN))
                   (take plaintext_end out) @ drop plaintext_end out;
          out2 = copy_at HEADER_LEN body out1;
          out3 = out2[HEADER_LEN + length body := content_type_u8 ct]
      in case seal_plaintext A (take plaintext_end out3) S of
           (Inl e, buf, S') \<Rightarrow> (Inl e, buf @ drop plaintext_end out3, S')
         | (Inr tag, buf, S') \<Rightarrow> (Inr (), copy_at plaintext_end tag (buf @ drop plaintext_end out3), S'))"

definition seal_into_slice ::
    "ring_aead \<Rightarrow> content_type \<Rightarrow> bytes \<Rightarrow> bytes \<Rightarrow> sealer \<Rightarrow> (record_error + nat) \<times> bytes \<times> sealer" where
  "seal_into_slice A ct body out S =
     (case sealed_len body of Inl e \<Rightarrow> (Inl e, out, S)
      | Inr n \<Rightarrow>
          if n > length out then (Inl BufferTooSmall, out, S)
          else (case check_seq S of Inl e \<Rightarrow> (Inl e, out, S)
      | Inr u \<Rightarrow>
          (case seal_record A ct body (take n out) S of
             (Inl e, dst, S') \<Rightarrow> (Inl e, dst @ drop n out, S')
           | (Inr u, dst, S') \<Rightarrow> (Inr n, dst @ drop n out, S'))))"

definition seal_plaintext_txn ::
    "ring_aead \<Rightarrow> ('w, 't) txn_ops \<Rightarrow> content_type \<Rightarrow> 't \<Rightarrow> sealer \<Rightarrow> (record_error + 't) \<times> sealer" where
  "seal_plaintext_txn A T ct t S =
     (case write_txn T [content_type_u8 ct] t of Inl e \<Rightarrow> (Inl e, S)
      | Inr t1 \<Rightarrow>
          (case seal_plaintext A (tx_initialized T t1) S of
             (Inl e, buf, S') \<Rightarrow> (Inl e, S')
           | (Inr tag, buf, S') \<Rightarrow> (write_txn T tag (tx_set_initialized T buf t1), S')))"

definition seal_record_txn ::
    "ring_aead \<Rightarrow> ('w, 't) txn_ops \<Rightarrow> content_type \<Rightarrow> bytes \<Rightarrow> 't \<Rightarrow> sealer \<Rightarrow> (record_error + 't) \<times> sealer" where
  "seal_record_txn A T ct body t S =
     (case and_then (write_header_txn T ApplicationData (word_of_nat (length body + 1 + AEAD_TAG_LEN)) t)
             (write_txn T body) of
        Inl e \<Rightarrow> (Inl e, S)
      | Inr t1 \<Rightarrow> seal_plaintext_txn A T ct t1 S)"

text \<open>A transaction dropped before it is committed leaves the writer as it was.\<close>

definition finish_txn ::
    "('w, 't) txn_ops \<Rightarrow> 'w \<Rightarrow> (record_error + 't) \<times> sealer \<Rightarrow> (record_error + unit) \<times> 'w \<times> sealer" where
  "finish_txn T w r =
     (case r of (Inl e, S) \<Rightarrow> (Inl e, w, S)
      | (Inr t, S) \<Rightarrow> (case commit_r T t w of Inl e \<Rightarrow> (Inl e, w, S) | Inr w' \<Rightarrow> (Inr (), w', S)))"

definition seal_to ::
    "ring_aead \<Rightarrow> ('w, 't) txn_ops \<Rightarrow> content_type \<Rightarrow> bytes \<Rightarrow> 'w \<Rightarrow> sealer \<Rightarrow> (record_error + unit) \<times> 'w \<times> sealer" where
  "seal_to A T ct body w S =
     (case and_then (sealed_len body) (\<lambda>n. and_then (check_seq S) (\<lambda>_. transaction_r T n w)) of
        Inl e \<Rightarrow> (Inl e, w, S)
      | Inr t \<Rightarrow> finish_txn T w (seal_record_txn A T ct body t S))"

fun write_parts :: "('w, 't) txn_ops \<Rightarrow> bytes list \<Rightarrow> nat \<Rightarrow> 't \<Rightarrow> record_error + 't" where
  "write_parts T [] remaining t = (if remaining \<noteq> 0 then Inl LengthMismatch else Inr t)"
| "write_parts T (part # parts) remaining t =
     (if length part > remaining then Inl LengthMismatch
      else and_then (write_txn T part t) (write_parts T parts (remaining - length part)))"

definition seal_parts_to ::
    "ring_aead \<Rightarrow> ('w, 't) txn_ops \<Rightarrow> content_type \<Rightarrow> nat \<Rightarrow> bytes list \<Rightarrow> 'w \<Rightarrow> sealer \<Rightarrow>
     (record_error + unit) \<times> 'w \<times> sealer" where
  "seal_parts_to A T ct body_len parts w S =
     (case and_then (sealed_len_for body_len) (\<lambda>n.
           and_then (check_seq S) (\<lambda>_.
           and_then (transaction_r T n w) (\<lambda>t.
           and_then (write_header_txn T ApplicationData (word_of_nat (body_len + 1 + AEAD_TAG_LEN)) t)
             (write_parts T parts body_len)))) of
        Inl e \<Rightarrow> (Inl e, w, S)
      | Inr t \<Rightarrow> finish_txn T w (seal_plaintext_txn A T ct t S))"

subsection \<open>Opener\<close>

record opener =
  op_aead :: aead_key
  op_seq :: u64
  op_poisoned :: bool

definition opener_with_suite :: "crypto \<Rightarrow> ring_aead \<Rightarrow> bytes \<Rightarrow> cipher_suite \<Rightarrow> key_error + opener" where
  "opener_with_suite C A s suite =
     and_then (key_derive C A s suite) (\<lambda>k. Inr \<lparr>op_aead = k, op_seq = 0, op_poisoned = False\<rparr>)"

definition opener_from_secret :: "crypto \<Rightarrow> ring_aead \<Rightarrow> bytes \<Rightarrow> key_error + opener" where
  "opener_from_secret C A s = opener_with_suite C A s Aes128GcmSha256"

definition opener_needs_key_update :: "opener \<Rightarrow> bool" where
  "opener_needs_key_update P \<longleftrightarrow> op_seq P \<ge> AEAD_CONFIDENTIALITY_LIMIT"

record ciphertext =
  ct_aad :: bytes
  ct_body :: "nat \<times> nat"
  ct_total :: nat

definition ciphertext_parse :: "bytes \<Rightarrow> bool \<Rightarrow> u64 \<Rightarrow> record_error + ciphertext option" where
  "ciphertext_parse input poisoned seq =
     (if poisoned then Inl Poisoned
      else if length input < HEADER_LEN then Inr None
      else if drop 1 (take 3 input) \<noteq> be_bytes 2 (unat PROTOCOL_VERSION) then Inl BadLegacyVersion
      else let outer_type = input ! 0; body_len = be_nat [input ! 3, input ! 4] in
        if body_len > MAX_CIPHERTEXT_BODY then Inl BodyTooLarge
        else let n = HEADER_LEN + body_len in
          if length input < n then Inr None
          else if outer_type \<noteq> content_type_u8 ApplicationData then Inl NotCipherTextOuter
          else if seq = - 1 then Inl SeqExhausted
          else if seq \<ge> AEAD_CONFIDENTIALITY_LIMIT then Inl KeyLimitReached
          else Inr (Some \<lparr>ct_aad = take HEADER_LEN input, ct_body = (HEADER_LEN, n), ct_total = n\<rparr>))"

text \<open>\<open>iter().rposition\<close>: the last index whose element satisfies the predicate.\<close>

fun rposition :: "('a \<Rightarrow> bool) \<Rightarrow> 'a list \<Rightarrow> nat option" where
  "rposition P [] = None"
| "rposition P (x # xs) =
     (case rposition P xs of Some i \<Rightarrow> Some (Suc i) | None \<Rightarrow> if P x then Some 0 else None)"

definition open_body ::
    "ring_aead \<Rightarrow> bytes \<Rightarrow> bytes \<Rightarrow> opener \<Rightarrow> (record_error + content_type \<times> nat) \<times> bytes \<times> opener" where
  "open_body A aad body P =
     (case aead_open A (op_aead P) (op_seq P) aad body of
        (Inl _, body') \<Rightarrow> (Inl OpenFailed, body', P\<lparr>op_poisoned := True\<rparr>)
      | (Inr plain, body') \<Rightarrow>
          (let P' = P\<lparr>op_seq := op_seq P + 1\<rparr>;
               inner_slice = take (length plain) body'
           in (and_then (ok_or AllZeroInner (rposition (\<lambda>b. b \<noteq> 0) inner_slice)) (\<lambda>content_len.
               if content_len > MAX_PLAINTEXT_BODY then Inl RecordOverflow
               else and_then (content_type_from_u8 (inner_slice ! content_len)) (\<lambda>inner_type.
                 if inner_type = ChangeCipherSpec then Inl UnexpectedChangeCipherSpec
                 else Inr (inner_type, content_len))), body', P')))"

definition open_rec ::
    "ring_aead \<Rightarrow> bytes \<Rightarrow> opener \<Rightarrow>
     (record_error + (content_type \<times> (nat \<times> nat) \<times> nat) option) \<times> bytes \<times> opener" where
  "open_rec A input P =
     (case ciphertext_parse input (op_poisoned P) (op_seq P) of
        Inl e \<Rightarrow> (Inl e, input, P\<lparr>op_poisoned := True\<rparr>)
      | Inr None \<Rightarrow> (Inr None, input, P)
      | Inr (Some c) \<Rightarrow>
          (let (lo, hi) = ct_body c in
           case open_body A (ct_aad c) (drop lo (take hi input)) P of
             (Inl e, body', P') \<Rightarrow>
               (Inl e, take lo input @ body' @ drop hi input, P'\<lparr>op_poisoned := True\<rparr>)
           | (Inr (inner_type, content_len), body', P') \<Rightarrow>
               (Inr (Some (inner_type, (HEADER_LEN, HEADER_LEN + content_len), ct_total c)),
                take lo input @ body' @ drop hi input, P')))"

subsection \<open>Sealed records\<close>

definition header_bytes :: "content_type \<Rightarrow> nat \<Rightarrow> bytes" where
  "header_bytes ct n = [content_type_u8 ct, 3, 3] @ be_bytes 2 n"

lemma be_bytes_2: "be_bytes 2 n = [word_of_nat (n div 256), word_of_nat n]"
proof -
  have "be_bytes (Suc (Suc 0)) n = [word_of_nat (n div 256), word_of_nat n]" by simp
  then show ?thesis by (simp only: numeral_2_eq_2)
qed

lemma version_bytes: "be_bytes 2 (unat PROTOCOL_VERSION) = [3, 3]"
  unfolding be_bytes_2 by (simp add: PROTOCOL_VERSION_def)

lemma length_header_bytes [simp]: "length (header_bytes ct n) = HEADER_LEN"
  by (simp add: header_bytes_def HEADER_LEN_def)

lemma unat_u16: "n < 2 ^ 16 \<Longrightarrow> unat (word_of_nat n :: u16) = n"
  by (simp add: unat_of_nat)

lemma write_header_vec_bytes:
  "n < 2 ^ 16 \<Longrightarrow> write_header_vec ct (word_of_nat n) out = out @ header_bytes ct n"
  by (simp add: write_header_vec_def header_bytes_def version_bytes unat_u16)

lemma write_header_slice_bytes:
  assumes "HEADER_LEN \<le> length out" "n < 2 ^ 16"
  shows "write_header_slice ct (word_of_nat n) out = header_bytes ct n @ drop HEADER_LEN out"
proof -
  obtain a b c d e rest where out: "out = a # b # c # d # e # rest"
    using assms(1) by (auto simp: HEADER_LEN_def eval_nat_numeral Suc_le_length_iff)
  obtain x y where xy: "be_bytes 2 n = [x, y]" using length2_conv [of "be_bytes 2 n"] by auto
  show ?thesis
    unfolding out write_header_slice_def copy_at_def header_bytes_def version_bytes unat_u16 [OF assms(2)] xy
    by (simp add: HEADER_LEN_def)
qed

text \<open>What sealing produces: the header, the encrypted inner plaintext and the tag.\<close>

definition inner_plaintext :: "content_type \<Rightarrow> bytes \<Rightarrow> bytes" where
  "inner_plaintext ct body = body @ [content_type_u8 ct]"

definition seal_outcome ::
    "ring_aead \<Rightarrow> content_type \<Rightarrow> bytes \<Rightarrow> sealer \<Rightarrow> record_error + bytes" where
  "seal_outcome A ct body S =
     (let h = header_bytes ApplicationData (length body + 17) in
      case aead_seal_detached A (se_aead S) (se_seq S) h (inner_plaintext ct body) of
        (Inl e, _) \<Rightarrow> Inl SealFailed | (Inr tag, c) \<Rightarrow> Inr (h @ c @ tag))"

definition advance_seq :: "sealer \<Rightarrow> sealer" where
  "advance_seq S = S\<lparr>se_seq := se_seq S + 1\<rparr>"

lemma seal_plaintext_record:
  "length h = HEADER_LEN \<Longrightarrow>
     seal_plaintext A (h @ p) S =
       (case aead_seal_detached A (se_aead S) (se_seq S) h p of
          (Inl e, buf) \<Rightarrow> (Inl SealFailed, h @ buf, advance_seq S)
        | (Inr tag, buf) \<Rightarrow> (Inr tag, h @ buf, advance_seq S))"
  by (simp add: seal_plaintext_def Let_def record_error_of_aead_def advance_seq_def
      split: prod.splits sum.splits)

lemma seal_into_eq:
  "seal_into A ct body out S =
     (if length body > MAX_PLAINTEXT_BODY then (Inl BodyTooLarge, out, S)
      else case check_seq S of Inl e \<Rightarrow> (Inl e, out, S)
      | Inr _ \<Rightarrow>
          (case seal_outcome A ct body S of
             Inl e \<Rightarrow> (Inl e, out, advance_seq S)
           | Inr rec \<Rightarrow> (Inr (), out @ rec, advance_seq S)))"
proof (cases "length body > MAX_PLAINTEXT_BODY \<or> (\<exists>e. check_seq S = Inl e)")
  case True
  then show ?thesis by (auto simp: seal_into_def sealed_len_def sealed_len_for_def)
next
  case False
  then have len: "length body + 1 + AEAD_TAG_LEN < 2 ^ 16" and u: "check_seq S = Inr ()"
    by (cases "check_seq S"; simp add: record_consts)+
  have hdr: "write_header_vec ApplicationData (word_of_nat (length body + 1 + AEAD_TAG_LEN)) out =
      out @ header_bytes ApplicationData (length body + 17)"
    using write_header_vec_bytes [OF len, of ApplicationData out] by (simp add: AEAD_TAG_LEN_def add.commute)
  have drop: "drop (length out) (write_header_vec ApplicationData
        (word_of_nat (length body + 1 + AEAD_TAG_LEN)) out @ body @ [content_type_u8 ct]) =
      header_bytes ApplicationData (length body + 17) @ inner_plaintext ct body"
    and take: "take (length out) (write_header_vec ApplicationData
        (word_of_nat (length body + 1 + AEAD_TAG_LEN)) out @ body @ [content_type_u8 ct]) = out"
    unfolding hdr by (simp_all add: inner_plaintext_def)
  show ?thesis
    using False u unfolding seal_into_def Let_def drop take seal_plaintext_record [OF length_header_bytes]
    by (simp add: sealed_len_def sealed_len_for_def seal_outcome_def Let_def split: prod.splits sum.splits)
qed

lemma seal_outcomeE:
  assumes "aead_ok A" "seal_outcome A ct body S = Inr rec"
  obtains c tag where "rec = header_bytes ApplicationData (length body + 17) @ c @ tag"
    "length c = length body + 1" "length tag = 16"
    "aead_seal_detached A (se_aead S) (se_seq S) (header_bytes ApplicationData (length body + 17))
       (inner_plaintext ct body) = (Inr tag, c)"
proof -
  let ?h = "header_bytes ApplicationData (length body + 17)"
  from assms(2) obtain c tag where "rec = ?h @ c @ tag"
    and s: "aead_seal_detached A (se_aead S) (se_seq S) ?h (inner_plaintext ct body) = (Inr tag, c)"
    by (auto simp: seal_outcome_def Let_def split: prod.splits sum.splits)
  moreover from aead_open_sealed [OF assms(1) s] have "length tag = 16" "length c = length body + 1"
    by (auto simp: inner_plaintext_def)
  ultimately show ?thesis by (intro that) auto
qed

subsection \<open>Opening what was sealed\<close>

lemma header_cases:
  obtains x y where "header_bytes ct n = [content_type_u8 ct, 3, 3, x, y]" "be_bytes 2 n = [x, y]"
  using length2_conv [of "be_bytes 2 n"] by (auto simp: header_bytes_def)

lemma content_type_roundtrip [simp]: "content_type_from_u8 (content_type_u8 ct) = Inr ct"
  by (cases ct) (simp_all add: content_type_from_u8_def)

lemma content_type_nonzero [simp]: "content_type_u8 ct \<noteq> 0"
  by (cases ct) simp_all

lemma rposition_last: "P x \<Longrightarrow> rposition P (xs @ [x]) = Some (length xs)"
  by (induction xs) simp_all

definition seq_ok :: "u64 \<Rightarrow> bool" where
  "seq_ok q \<longleftrightarrow> q < AEAD_CONFIDENTIALITY_LIMIT"

lemma seq_ok_not_max: "seq_ok q \<Longrightarrow> q \<noteq> - 1"
  by (auto simp: seq_ok_def AEAD_CONFIDENTIALITY_LIMIT_def)

lemma check_seq_eq: "check_seq S = Inr u \<longleftrightarrow> seq_ok (se_seq S)"
  using seq_ok_not_max [of "se_seq S"] by (auto simp: check_seq_def seq_ok_def)

lemma seq_ok_Suc: "seq_ok q \<Longrightarrow> unat (q + 1) = unat q + 1"
  using unat_add_lem [of q 1]
  by (simp add: seq_ok_def AEAD_CONFIDENTIALITY_LIMIT_def word_less_nat_alt)

lemma ciphertext_parse_run:
  assumes "length b = n" "n \<le> MAX_CIPHERTEXT_BODY" "seq_ok seq"
  shows "ciphertext_parse (header_bytes ApplicationData n @ b @ rest) False seq =
    Inr (Some \<lparr>ct_aad = header_bytes ApplicationData n, ct_body = (HEADER_LEN, HEADER_LEN + n),
               ct_total = HEADER_LEN + n\<rparr>)"
proof -
  obtain x y where h: "header_bytes ApplicationData n = [content_type_u8 ApplicationData, 3, 3, x, y]"
    and xy: "be_bytes 2 n = [x, y]" by (rule header_cases)
  have "be_nat [x, y] = n"
    using be_nat_be_bytes [of 2 n] assms(2) unfolding xy by (simp add: MAX_CIPHERTEXT_BODY_def)
  then show ?thesis
    using assms(1,2) seq_ok_not_max [OF assms(3)] assms(3)
    unfolding ciphertext_parse_def h version_bytes seq_ok_def
    by (simp add: HEADER_LEN_def Let_def not_le)
qed

lemma open_body_run:
  assumes "aead_open A (op_aead P) (op_seq P) aad b = (Inr (inner_plaintext ct body), inner_plaintext ct body @ rest)"
    and "ct \<noteq> ChangeCipherSpec" "length body \<le> MAX_PLAINTEXT_BODY"
  shows "open_body A aad b P =
    (Inr (ct, length body), inner_plaintext ct body @ rest, P\<lparr>op_seq := op_seq P + 1\<rparr>)"
  using assms by (simp add: open_body_def Let_def inner_plaintext_def rposition_last)

text \<open>
  Opener and sealer are in step when they hold the same key and sequence number; then a
  sealed record, followed by anything, opens to its content.
\<close>

definition in_step :: "sealer \<Rightarrow> opener \<Rightarrow> bool" where
  "in_step S P \<longleftrightarrow> op_aead P = se_aead S \<and> op_seq P = se_seq S \<and> \<not> op_poisoned P"

lemma open_sealed:
  assumes A: "aead_ok A" and step: "in_step S P" and ct: "ct \<noteq> ChangeCipherSpec"
    and len: "length body \<le> MAX_PLAINTEXT_BODY" and seq: "seq_ok (se_seq S)"
    and rec: "seal_outcome A ct body S = Inr rec"
  shows "\<exists>input'. open_rec A (rec @ rest) P =
      (Inr (Some (ct, (HEADER_LEN, HEADER_LEN + length body), length rec)), input',
       P\<lparr>op_seq := op_seq P + 1\<rparr>) \<and>
    drop HEADER_LEN (take (HEADER_LEN + length body) input') = body \<and> drop (length rec) input' = rest \<and>
    in_step (advance_seq S) (P\<lparr>op_seq := op_seq P + 1\<rparr>)"
proof -
  let ?n = "length body + 17" and ?P = "P\<lparr>op_seq := op_seq P + 1\<rparr>"
  let ?h = "header_bytes ApplicationData ?n"
  obtain c tag where r: "rec = ?h @ c @ tag" and l: "length c = length body + 1" "length tag = 16"
    and s: "aead_seal_detached A (se_aead S) (se_seq S) ?h (inner_plaintext ct body) = (Inr tag, c)"
    using seal_outcomeE [OF A rec] .
  obtain tail where o: "aead_open A (se_aead S) (se_seq S) ?h (c @ tag) =
      (Inr (inner_plaintext ct body), inner_plaintext ct body @ tail)" and t: "length tail = 16"
    using aead_open_sealed [OF A s] by auto
  have p: "ciphertext_parse (?h @ (c @ tag) @ rest) False (op_seq P) =
      Inr (Some \<lparr>ct_aad = ?h, ct_body = (HEADER_LEN, HEADER_LEN + ?n), ct_total = HEADER_LEN + ?n\<rparr>)"
    using l len seq step
    by (intro ciphertext_parse_run) (simp_all add: record_consts in_step_def)
  have b: "open_body A ?h (c @ tag) P =
      (Inr (ct, length body), inner_plaintext ct body @ tail, P\<lparr>op_seq := op_seq P + 1\<rparr>)"
    by (rule open_body_run [OF _ ct len]) (use o step in \<open>simp add: in_step_def\<close>)
  have "drop HEADER_LEN (take (HEADER_LEN + ?n) (?h @ (c @ tag) @ rest)) = c @ tag" using l by simp
  then have "open_rec A (?h @ (c @ tag) @ rest) P =
      (Inr (Some (ct, (HEADER_LEN, HEADER_LEN + length body), HEADER_LEN + ?n)),
       ?h @ (inner_plaintext ct body @ tail) @ rest, ?P)"
    using step b l p by (simp add: open_rec_def in_step_def)
  moreover have "rec @ rest = ?h @ (c @ tag) @ rest" "length rec = HEADER_LEN + ?n" using r l by simp_all
  moreover have "drop (length rec) (?h @ (inner_plaintext ct body @ tail) @ rest) = rest"
    unfolding calculation(3) using t by (simp add: inner_plaintext_def)
  moreover have "drop HEADER_LEN (take (HEADER_LEN + length body)
      (?h @ (inner_plaintext ct body @ tail) @ rest)) = body" by (simp add: inner_plaintext_def)
  moreover have "in_step (advance_seq S) ?P" using step by (simp add: in_step_def advance_seq_def)
  ultimately show ?thesis by auto
qed

subsection \<open>Properties of plaintext records\<close>

lemma plaintext_parse_run:
  assumes "length body \<le> MAX_PLAINTEXT_BODY"
  shows "plaintext_parse (header_bytes ct (length body) @ body @ rest) =
    Inr (Some (\<lparr>pt_content_type = ct, pt_legacy_record_version = PROTOCOL_VERSION, pt_body = body\<rparr>,
               HEADER_LEN + length body))"
proof -
  obtain x y where h: "header_bytes ct (length body) = [content_type_u8 ct, 3, 3, x, y]"
    and xy: "be_bytes 2 (length body) = [x, y]" by (rule header_cases)
  have "be_nat [x, y] = length body"
    using be_nat_be_bytes [of 2 "length body"] assms unfolding xy by (simp add: MAX_PLAINTEXT_BODY_def)
  moreover have "drop HEADER_LEN (take (HEADER_LEN + length body)
      (header_bytes ct (length body) @ body @ rest)) = body" by simp
  ultimately show ?thesis
    using assms unfolding plaintext_parse_def h
    by (simp add: HEADER_LEN_def Let_def PROTOCOL_VERSION_def)
qed

lemma plaintext_encode_into_eq:
  "plaintext_encode_into ct body out =
     (if length body > MAX_PLAINTEXT_BODY then (Inl BodyTooLarge, out)
      else (Inr (), out @ header_bytes ct (length body) @ body))"
  by (simp add: plaintext_encode_into_def check_body_len_def write_header_vec_bytes MAX_PLAINTEXT_BODY_def)

lemma plaintext_encode_into_slice_eq:
  "plaintext_encode_into_slice ct body out =
     (if length body > MAX_PLAINTEXT_BODY then (Inl BodyTooLarge, out)
      else if HEADER_LEN + length body > length out then (Inl BufferTooSmall, out)
      else (Inr (HEADER_LEN + length body),
            header_bytes ct (length body) @ body @ drop (HEADER_LEN + length body) out))"
proof (cases "length body \<le> MAX_PLAINTEXT_BODY \<and> HEADER_LEN + length body \<le> length out")
  case True
  then have "write_header_slice ct (word_of_nat (length body)) (take (HEADER_LEN + length body) out) =
      header_bytes ct (length body) @ drop HEADER_LEN (take (HEADER_LEN + length body) out)"
    by (intro write_header_slice_bytes) (simp_all add: MAX_PLAINTEXT_BODY_def)
  with True show ?thesis
    by (simp add: plaintext_encode_into_slice_def plaintext_len_def check_body_len_def Let_def copy_at_def)
qed (auto simp: plaintext_encode_into_slice_def plaintext_len_def check_body_len_def)

text \<open>
  Plaintext records.  A body of at most \<open>2^14\<close> bytes encodes to a record that parses back
  to the same content type and body and reports its own length, whatever follows it; every
  proper prefix of the record is reported incomplete, never as an error or another record.
  A longer body is refused.  Encoding into a large enough slice gives the same bytes.
\<close>

theorem plaintext_roundtrip:
  "if length body \<le> MAX_PLAINTEXT_BODY
   then \<exists>rec. plaintext_encode ct body = Inr rec \<and> length rec = HEADER_LEN + length body \<and>
     plaintext_parse (rec @ rest) =
       Inr (Some (\<lparr>pt_content_type = ct, pt_legacy_record_version = PROTOCOL_VERSION, pt_body = body\<rparr>,
                  length rec)) \<and>
     (k < length rec \<longrightarrow> plaintext_parse (take k rec) = Inr None) \<and>
     (length rec \<le> length out \<longrightarrow>
       plaintext_encode_into_slice ct body out = (Inr (length rec), rec @ drop (length rec) out))
   else plaintext_encode ct body = Inl BodyTooLarge"
proof (cases "length body \<le> MAX_PLAINTEXT_BODY")
  case True
  let ?rec = "header_bytes ct (length body) @ body"
  obtain x y where h: "header_bytes ct (length body) = [content_type_u8 ct, 3, 3, x, y]"
    and xy: "be_bytes 2 (length body) = [x, y]" by (rule header_cases)
  have n: "be_nat [x, y] = length body"
    using be_nat_be_bytes [of 2 "length body"] True unfolding xy by (simp add: MAX_PLAINTEXT_BODY_def)
  have prefix: "plaintext_parse (take k ?rec) = Inr None" if "k < length ?rec"
  proof (cases "k < HEADER_LEN")
    case short: True
    then show ?thesis by (simp add: plaintext_parse_def)
  next
    case False
    then have "take k ?rec = header_bytes ct (length body) @ take (k - HEADER_LEN) body" by simp
    then have "take k ?rec = [content_type_u8 ct, 3, 3, x, y] @ take (k - 5) body"
      by (simp only: h HEADER_LEN_def)
    then show ?thesis
      using that n False True unfolding plaintext_parse_def
      by (simp add: h HEADER_LEN_def Let_def PROTOCOL_VERSION_def)
  qed
  have enc: "plaintext_encode ct body = Inr ?rec"
    using True by (simp add: plaintext_encode_def plaintext_encode_into_eq)
  show ?thesis
    using True plaintext_parse_run [OF True, of ct rest] prefix enc
    by (auto simp: plaintext_encode_into_slice_eq)
qed (simp add: plaintext_encode_def plaintext_encode_into_eq)

theorem plaintext_roundtrip_witness:
  "if length [2, 40 :: u8] \<le> MAX_PLAINTEXT_BODY
   then \<exists>rec. plaintext_encode AlertType [2, 40] = Inr rec \<and> length rec = HEADER_LEN + length [2, 40 :: u8] \<and>
     plaintext_parse (rec @ [9]) =
       Inr (Some (\<lparr>pt_content_type = AlertType, pt_legacy_record_version = PROTOCOL_VERSION,
                   pt_body = [2, 40]\<rparr>, length rec)) \<and>
     (6 < length rec \<longrightarrow> plaintext_parse (take 6 rec) = Inr None) \<and>
     (length rec \<le> length (replicate 8 (0 :: u8)) \<longrightarrow>
       plaintext_encode_into_slice AlertType [2, 40] (replicate 8 0) =
         (Inr (length rec), rec @ drop (length rec) (replicate 8 0)))
   else plaintext_encode AlertType [2, 40] = Inl BodyTooLarge"
  by (rule plaintext_roundtrip)

subsection \<open>Properties of protected records\<close>

text \<open>A sequence of records sealed into one buffer, and opened from one buffer in order.\<close>

fun seal_stream ::
    "ring_aead \<Rightarrow> (content_type \<times> bytes) list \<Rightarrow> bytes \<Rightarrow> sealer \<Rightarrow> (record_error + unit) \<times> bytes \<times> sealer" where
  "seal_stream A [] out S = (Inr (), out, S)"
| "seal_stream A ((ct, body) # rs) out S =
     (case seal_into A ct body out S of
        (Inl e, out', S') \<Rightarrow> (Inl e, out', S')
      | (Inr _, out', S') \<Rightarrow> seal_stream A rs out' S')"

fun open_stream ::
    "ring_aead \<Rightarrow> nat \<Rightarrow> bytes \<Rightarrow> opener \<Rightarrow> (record_error + (content_type \<times> bytes) list) \<times> bytes \<times> opener" where
  "open_stream A 0 input P = (Inr [], input, P)"
| "open_stream A (Suc n) input P =
     (case open_rec A input P of
        (Inl e, input', P') \<Rightarrow> (Inl e, input', P')
      | (Inr None, input', P') \<Rightarrow> (Inr [], input', P')
      | (Inr (Some (ct, (lo, hi), total_len)), input', P') \<Rightarrow>
          (case open_stream A n (drop total_len input') P' of
             (Inl e, rest, P'') \<Rightarrow> (Inl e, rest, P'')
           | (Inr rs, rest, P'') \<Rightarrow> (Inr ((ct, drop lo (take hi input')) # rs), rest, P'')))"

lemma seal_into_SuccE:
  assumes "seal_into A ct body out S = (Inr u, out', S')"
  obtains rec where "seal_outcome A ct body S = Inr rec" "out' = out @ rec" "S' = advance_seq S"
    "length body \<le> MAX_PLAINTEXT_BODY" "seq_ok (se_seq S)"
proof -
  have "check_seq S = Inr ()"
    using assms by (cases "check_seq S") (auto simp: seal_into_eq split: if_splits)
  moreover from this have "seq_ok (se_seq S)" by (simp add: check_seq_eq)
  ultimately show ?thesis
    using assms by (cases "seal_outcome A ct body S") (auto simp: seal_into_eq split: if_splits intro: that)
qed

lemma stream_roundtrip:
  assumes "aead_ok A" "seal_stream A rs out S = (Inr u, out', S')" "\<forall>(ct, b)\<in>set rs. ct \<noteq> ChangeCipherSpec"
  shows "\<exists>w. out' = out @ w \<and> (\<forall>P rest. in_step S P \<longrightarrow>
    (\<exists>P'. open_stream A (length rs) (w @ rest) P = (Inr rs, rest, P') \<and> in_step S' P'))"
  using assms(2,3)
proof (induction rs arbitrary: out S)
  case (Cons r rs)
  obtain ct body where r: "r = (ct, body)" by (cases r)
  from Cons.prems(1) obtain out1 S1 where 1: "seal_into A ct body out S = (Inr (), out1, S1)"
    and 2: "seal_stream A rs out1 S1 = (Inr u, out', S')"
    by (auto simp: r split: prod.splits sum.splits)
  obtain rec where rec: "seal_outcome A ct body S = Inr rec" "out1 = out @ rec" "S1 = advance_seq S"
    "length body \<le> MAX_PLAINTEXT_BODY" "seq_ok (se_seq S)" using seal_into_SuccE [OF 1] .
  from Cons.IH [OF 2] Cons.prems(2) obtain w where w: "out' = out1 @ w"
    "\<And>P rest. in_step S1 P \<Longrightarrow>
      \<exists>P'. open_stream A (length rs) (w @ rest) P = (Inr rs, rest, P') \<and> in_step S' P'" by auto
  have ct: "ct \<noteq> ChangeCipherSpec" using Cons.prems(2) by (simp add: r)
  have "\<exists>P'. open_stream A (length (r # rs)) ((rec @ w) @ rest) P = (Inr (r # rs), rest, P') \<and> in_step S' P'"
    if P: "in_step S P" for P rest
  proof -
    let ?P = "P\<lparr>op_seq := op_seq P + 1\<rparr>"
    obtain inp where i: "open_rec A (rec @ w @ rest) P =
        (Inr (Some (ct, (HEADER_LEN, HEADER_LEN + length body), length rec)), inp, ?P)"
      "drop HEADER_LEN (take (HEADER_LEN + length body) inp) = body" "drop (length rec) inp = w @ rest"
      "in_step S1 ?P"
      using open_sealed [OF assms(1) P ct rec(4,5,1), of "w @ rest"] rec(3) by auto
    obtain P' where "open_stream A (length rs) (w @ rest) ?P = (Inr rs, rest, P')" "in_step S' P'"
      using w(2) [OF i(4)] by blast
    then show ?thesis using i by (simp add: r)
  qed
  then show ?case using w(1) rec(2) by (intro exI [of _ "rec @ w"]) auto
qed auto

text \<open>
  C3. Protected records round trip in order.  Whatever records (of any type but
  ChangeCipherSpec) a sealer seals one after the other, an opener with the same key and
  sequence number opens the bytes to the same types and contents in the same order, stops at
  the end of the last one, and stays in step with the sealer.
\<close>

theorem sealed_stream_opens:
  assumes "aead_ok A" and "in_step S P" and "\<forall>(ct, b)\<in>set rs. ct \<noteq> ChangeCipherSpec"
    and "seal_stream A rs [] S = (Inr (), w, S')"
  shows "\<exists>P'. open_stream A (length rs) (w @ rest) P = (Inr rs, rest, P') \<and> in_step S' P'"
  using stream_roundtrip [OF assms(1,4,3)] assms(2) by auto

theorem sealed_stream_opens_witness:
  "\<exists>P'. open_stream aead_toy (length [(Handshake, [1, 2 :: u8]), (ApplicationData, [0])])
      (fst (snd (seal_stream aead_toy [(Handshake, [1, 2]), (ApplicationData, [0])] []
         \<lparr>se_aead = \<lparr>ak_inner = (AES_128_GCM, [1]), ak_iv = replicate 12 3\<rparr>, se_seq = 5\<rparr>)) @ [7])
      \<lparr>op_aead = \<lparr>ak_inner = (AES_128_GCM, [1]), ak_iv = replicate 12 3\<rparr>, op_seq = 5, op_poisoned = False\<rparr> =
     (Inr [(Handshake, [1, 2]), (ApplicationData, [0])], [7], P') \<and>
   in_step (snd (snd (seal_stream aead_toy [(Handshake, [1, 2]), (ApplicationData, [0])] []
         \<lparr>se_aead = \<lparr>ak_inner = (AES_128_GCM, [1]), ak_iv = replicate 12 3\<rparr>, se_seq = 5\<rparr>))) P'"
proof (rule sealed_stream_opens)
  show "in_step \<lparr>se_aead = \<lparr>ak_inner = (AES_128_GCM, [1]), ak_iv = replicate 12 3\<rparr>, se_seq = 5\<rparr>
    \<lparr>op_aead = \<lparr>ak_inner = (AES_128_GCM, [1]), ak_iv = replicate 12 3\<rparr>, op_seq = 5, op_poisoned = False\<rparr>"
    by (simp add: in_step_def)
  show "seal_stream aead_toy [(Handshake, [1, 2]), (ApplicationData, [0])] []
      \<lparr>se_aead = \<lparr>ak_inner = (AES_128_GCM, [1]), ak_iv = replicate 12 3\<rparr>, se_seq = 5\<rparr> =
    (Inr (), fst (snd (seal_stream aead_toy [(Handshake, [1, 2]), (ApplicationData, [0])] []
         \<lparr>se_aead = \<lparr>ak_inner = (AES_128_GCM, [1]), ak_iv = replicate 12 3\<rparr>, se_seq = 5\<rparr>)),
     snd (snd (seal_stream aead_toy [(Handshake, [1, 2]), (ApplicationData, [0])] []
         \<lparr>se_aead = \<lparr>ak_inner = (AES_128_GCM, [1]), ak_iv = replicate 12 3\<rparr>, se_seq = 5\<rparr>)))"
    by (simp add: seal_into_eq seal_outcome_def aead_seal_detached_def aead_toy_def check_seq_def
        AEAD_CONFIDENTIALITY_LIMIT_def MAX_PLAINTEXT_BODY_def advance_seq_def Let_def)
qed simp_all

fun open_attempts :: "ring_aead \<Rightarrow> bytes list \<Rightarrow> opener \<Rightarrow> opener" where
  "open_attempts A [] P = P"
| "open_attempts A (i # is) P = open_attempts A is (snd (snd (open_rec A i P)))"

lemma open_rec_poisoned: "op_poisoned P \<Longrightarrow> open_rec A i P = (Inl Poisoned, i, P)"
  by (simp add: open_rec_def ciphertext_parse_def)

lemma open_attempts_poisoned: "op_poisoned P \<Longrightarrow> open_attempts A is P = P"
  by (induction "is") (simp_all add: open_rec_poisoned)

lemma open_rec_fails_poisons: "open_rec A i P = (Inl e, i', P') \<Longrightarrow> op_poisoned P'"
  by (auto simp: open_rec_def Let_def split: sum.splits option.splits prod.splits)

text \<open>
  A failed open is fatal and permanent.  When opening a record fails for any reason, the
  opener is poisoned; from then on every attempt, on any input, fails with \<open>Poisoned\<close>, reads
  nothing, and leaves the sequence number alone.
\<close>

theorem open_failure_poisons:
  assumes "open_rec A input P = (Inl e, input', P')"
  shows "open_rec A next_input (open_attempts A others P') = (Inl Poisoned, next_input, P') \<and>
    op_poisoned P'"
  using open_rec_fails_poisons [OF assms] by (simp add: open_attempts_poisoned open_rec_poisoned)

theorem open_failure_poisons_witness:
  "open_rec aead_toy [23, 3, 3, 0, 0]
     (open_attempts aead_toy [[1], [2]]
       \<lparr>op_aead = \<lparr>ak_inner = (AES_128_GCM, [1]), ak_iv = []\<rparr>, op_seq = 5, op_poisoned = True\<rparr>) =
   (Inl Poisoned, [23, 3, 3, 0, 0],
      \<lparr>op_aead = \<lparr>ak_inner = (AES_128_GCM, [1]), ak_iv = []\<rparr>, op_seq = 5, op_poisoned = True\<rparr>) \<and>
   op_poisoned \<lparr>op_aead = \<lparr>ak_inner = (AES_128_GCM, [1]), ak_iv = []\<rparr>, op_seq = 5, op_poisoned = True\<rparr>"
  by (rule open_failure_poisons [where input = "[23, 3, 1, 0, 0]" and e = BadLegacyVersion
        and P = "\<lparr>op_aead = \<lparr>ak_inner = (AES_128_GCM, [1]), ak_iv = []\<rparr>, op_seq = 5, op_poisoned = False\<rparr>"])
    (simp add: open_rec_def ciphertext_parse_def HEADER_LEN_def version_bytes)

subsection \<open>Sequence numbers and nonces\<close>

text \<open>
  What the sealer asks of the AEAD.  The AEAD is a parameter of every sealing operation, so what an operation asks shows in what
  it depends on: an operation asks at most the queries \<open>qs\<close> if every AEAD that answers those like the given one makes the
  operation end in the same way.  A query is a key, a nonce, associated data and a plaintext.
\<close>

type_synonym aead_query = "ring_key \<times> bytes \<times> bytes \<times> bytes"

definition aead_answer :: "ring_aead \<Rightarrow> aead_query \<Rightarrow> bytes option \<times> bytes" where
  "aead_answer A = (\<lambda>(k, n, d, p). ra_seal A k n d p)"

definition query_nonce :: "aead_query \<Rightarrow> bytes" where
  "query_nonce = (\<lambda>(k, n, d, p). n)"

definition asks_only :: "aead_query list \<Rightarrow> (ring_aead \<Rightarrow> 'r) \<Rightarrow> ring_aead \<Rightarrow> bool" where
  "asks_only qs f A \<longleftrightarrow> (\<forall>A'. (\<forall>q\<in>set qs. aead_answer A' q = aead_answer A q) \<longrightarrow> f A' = f A)"

text \<open>The sealing operations of a sealer, each with the buffer or the writer it works on.\<close>

datatype 'w seal_call =
    CallInto content_type bytes bytes
  | CallSlice content_type bytes bytes
  | CallTo content_type bytes 'w
  | CallParts content_type nat "bytes list" 'w

datatype 'w seal_result =
    IntoResult "record_error + unit" bytes
  | SliceResult "record_error + nat" bytes
  | WriterResult "record_error + unit" 'w

fun seal_step :: "('w, 't) txn_ops \<Rightarrow> 'w seal_call \<Rightarrow> sealer \<Rightarrow> ring_aead \<Rightarrow> 'w seal_result \<times> sealer" where
  "seal_step T (CallInto ct body out) S A = (case seal_into A ct body out S of (r, out', S') \<Rightarrow> (IntoResult r out', S'))"
| "seal_step T (CallSlice ct body out) S A = (case seal_into_slice A ct body out S of (r, out', S') \<Rightarrow> (SliceResult r out', S'))"
| "seal_step T (CallTo ct body w) S A = (case seal_to A T ct body w S of (r, w', S') \<Rightarrow> (WriterResult r w', S'))"
| "seal_step T (CallParts ct n parts w) S A = (case seal_parts_to A T ct n parts w S of (r, w', S') \<Rightarrow> (WriterResult r w', S'))"

fun seal_steps :: "('w, 't) txn_ops \<Rightarrow> 'w seal_call list \<Rightarrow> sealer \<Rightarrow> ring_aead \<Rightarrow> 'w seal_result list \<times> sealer" where
  "seal_steps T [] S A = ([], S)"
| "seal_steps T (c # cs) S A =
     (case seal_step T c S A of (r, S') \<Rightarrow> (case seal_steps T cs S' A of (rs, S'') \<Rightarrow> (r # rs, S'')))"

text \<open>An instance: a writer is its contents and its capacity.\<close>

definition txn_ref :: "(bytes \<times> nat, bytes \<times> nat) txn_ops" where
  "txn_ref =
     \<lparr>tx_try_transaction = (\<lambda>n (b, cap). if n \<le> cap - length b then Some ([], n) else None),
      tx_try_extend = (\<lambda>bs (b, l). if length b + length bs \<le> l then Some (b @ bs, l) else None),
      tx_initialized = fst,
      tx_set_initialized = (\<lambda>b (_, l). (b, l)),
      tx_commit = (\<lambda>(b, l) (c, cap). if length b = l then Some (c @ b, cap) else None)\<rparr>"

text \<open>
  An operation either asks nothing and leaves the sealer alone, or asks one query under the nonce of the current sequence
  number and uses the number up.
\<close>

definition uses_seq :: "sealer \<Rightarrow> (ring_aead \<Rightarrow> 'r \<times> sealer) \<Rightarrow> bool" where
  "uses_seq S f \<longleftrightarrow>
     (\<forall>A. (snd (f A) = S \<and> asks_only [] f A) \<or>
        (\<exists>d p. snd (f A) = advance_seq S \<and> seq_ok (se_seq S) \<and>
           asks_only [(ak_inner (se_aead S), nonce (se_aead S) (se_seq S), d, p)] f A))"

lemma seal_plaintext_asks:
  "aead_answer A' (ak_inner (se_aead S), nonce (se_aead S) (se_seq S), take HEADER_LEN rec, drop HEADER_LEN rec) =
     aead_answer A (ak_inner (se_aead S), nonce (se_aead S) (se_seq S), take HEADER_LEN rec, drop HEADER_LEN rec) \<Longrightarrow>
   seal_plaintext A' rec S = seal_plaintext A rec S"
  by (simp add: seal_plaintext_def aead_seal_detached_def aead_answer_def Let_def)

lemma seal_plaintext_advances: "snd (snd (seal_plaintext A rec S)) = advance_seq S"
  by (simp add: seal_plaintext_def Let_def advance_seq_def split: prod.splits sum.splits)

lemma uses_seq_plaintext:
  assumes "check_seq S = Inr u" and "\<And>A A'. seal_plaintext A' rec S = seal_plaintext A rec S \<Longrightarrow> f A' = f A"
    and "\<And>A. snd (f A) = snd (snd (seal_plaintext A rec S))"
  shows "uses_seq S f"
proof -
  let ?q = "(ak_inner (se_aead S), nonce (se_aead S) (se_seq S), take HEADER_LEN rec, drop HEADER_LEN rec)"
  have "asks_only [?q] f A" for A
    unfolding asks_only_def by (intro allI impI assms(2) seal_plaintext_asks) simp
  moreover have "snd (f A) = advance_seq S" "seq_ok (se_seq S)" for A
    using assms(1) by (simp_all only: assms(3) seal_plaintext_advances check_seq_eq)
  ultimately have "snd (f A) = advance_seq S \<and> seq_ok (se_seq S) \<and> asks_only [?q] f A" for A by blast
  then show ?thesis unfolding uses_seq_def by blast
qed

lemma uses_seq_refused: "(\<And>A. f A = (r, S)) \<Longrightarrow> uses_seq S f"
  by (simp add: uses_seq_def asks_only_def)

lemma uses_seq_txn:
  assumes "check_seq S = Inr u"
  shows "uses_seq S (\<lambda>A. case finish_txn T w (seal_plaintext_txn A T ct t S) of (r, w', S') \<Rightarrow> (WriterResult r w', S'))"
proof (cases "write_txn T [content_type_u8 ct] t")
  case (Inl e)
  then show ?thesis by (intro uses_seq_refused) (simp add: seal_plaintext_txn_def finish_txn_def)
next
  case (Inr t1)
  show ?thesis
    by (rule uses_seq_plaintext [OF assms, where rec = "tx_initialized T t1"])
      (simp_all add: seal_plaintext_txn_def finish_txn_def Inr split: prod.split sum.split)
qed

lemma uses_seq_into:
  assumes "check_seq S = Inr u"
  shows "uses_seq S (seal_step T (CallInto ct body out) S)"
proof (cases "sealed_len body")
  case (Inl e)
  then show ?thesis by (intro uses_seq_refused) (simp add: seal_into_def)
next
  case (Inr n)
  let ?out = "write_header_vec ApplicationData (word_of_nat (length body + 1 + AEAD_TAG_LEN)) out @ body @ [content_type_u8 ct]"
  show ?thesis
    by (rule uses_seq_plaintext [OF assms, where rec = "drop (length out) ?out"])
      (simp_all add: seal_into_def Inr assms Let_def split: prod.split sum.split)
qed

lemma uses_seq_slice:
  assumes "check_seq S = Inr u"
  shows "uses_seq S (seal_step T (CallSlice ct body out) S)"
proof (cases "\<exists>n. sealed_len body = Inr n \<and> n \<le> length out")
  case False
  then have "seal_into_slice A ct body out S = (Inl (case sealed_len body of Inl e \<Rightarrow> e | Inr _ \<Rightarrow> BufferTooSmall), out, S)" for A
    by (auto simp: seal_into_slice_def split: sum.split)
  then show ?thesis by (intro uses_seq_refused) simp
next
  case True
  then obtain n where n: "sealed_len body = Inr n" "\<not> length out < n" by (auto simp: not_less)
  let ?e = "length (take n out) - AEAD_TAG_LEN"
  let ?out = "(copy_at HEADER_LEN body (write_header_slice ApplicationData (word_of_nat (length body + 1 + AEAD_TAG_LEN)) (take ?e (take n out)) @
    drop ?e (take n out)))[HEADER_LEN + length body := content_type_u8 ct]"
  show ?thesis
    by (rule uses_seq_plaintext [OF assms, where rec = "take ?e ?out"])
      (simp_all add: seal_into_slice_def seal_record_def n assms Let_def split: prod.split sum.split)
qed

lemma seal_step_uses_seq: "uses_seq S (seal_step T c S)"
proof (cases "check_seq S")
  case (Inl e)
  show ?thesis
  proof (cases c)
    case (CallInto ct body out)
    then show ?thesis using Inl by (cases "sealed_len body") (auto intro!: uses_seq_refused simp: seal_into_def)
  next
    case (CallSlice ct body out)
    have "seal_into_slice A ct body out S =
        (Inl (case sealed_len body of Inl e \<Rightarrow> e | Inr n \<Rightarrow> if n > length out then BufferTooSmall else e), out, S)" for A
      using Inl by (simp add: seal_into_slice_def split: sum.split)
    then show ?thesis unfolding CallSlice by (intro uses_seq_refused) simp
  next
    case (CallTo ct body w)
    then show ?thesis using Inl by (cases "sealed_len body") (auto intro!: uses_seq_refused simp: seal_to_def)
  next
    case (CallParts ct n parts w)
    then show ?thesis using Inl by (cases "sealed_len_for n") (auto intro!: uses_seq_refused simp: seal_parts_to_def)
  qed
next
  case (Inr u)
  show ?thesis
  proof (cases c)
    case (CallTo ct body w)
    let ?t = "and_then (sealed_len body) (\<lambda>n. and_then (transaction_r T n w) (\<lambda>t.
      and_then (write_header_txn T ApplicationData (word_of_nat (length body + 1 + AEAD_TAG_LEN)) t) (write_txn T body)))"
    show ?thesis
    proof (cases ?t)
      case e: (Inl e)
      then have "seal_step T c S A = (WriterResult (Inl e) w, S)" for A
        by (auto simp: CallTo seal_to_def Inr seal_record_txn_def finish_txn_def and_then_def split: sum.splits)
      then show ?thesis by (rule uses_seq_refused)
    next
      case t: (Inr t)
      then have "seal_step T c S = (\<lambda>A. case finish_txn T w (seal_plaintext_txn A T ct t S) of (r, w', S') \<Rightarrow> (WriterResult r w', S'))"
        by (auto simp: CallTo seal_to_def Inr seal_record_txn_def and_then_def fun_eq_iff split: sum.splits)
      then show ?thesis using uses_seq_txn [OF Inr] by simp
    qed
  next
    case (CallParts ct n parts w)
    let ?t = "and_then (sealed_len_for n) (\<lambda>m. and_then (transaction_r T m w) (\<lambda>t.
      and_then (write_header_txn T ApplicationData (word_of_nat (n + 1 + AEAD_TAG_LEN)) t) (write_parts T parts n)))"
    show ?thesis
    proof (cases ?t)
      case (Inl e)
      then have "seal_step T c S A = (WriterResult (Inl e) w, S)" for A by (simp add: CallParts seal_parts_to_def Inr)
      then show ?thesis by (rule uses_seq_refused)
    next
      case t: (Inr t)
      then have "seal_step T c S = (\<lambda>A. case finish_txn T w (seal_plaintext_txn A T ct t S) of (r, w', S') \<Rightarrow> (WriterResult r w', S'))"
        by (simp add: CallParts seal_parts_to_def Inr fun_eq_iff)
      then show ?thesis using uses_seq_txn [OF Inr] by simp
    qed
  qed (use uses_seq_into [OF Inr] uses_seq_slice [OF Inr] in simp_all)
qed

lemma seal_steps_queries:
  "\<exists>qs seqs. asks_only qs (seal_steps T cs S) A \<and> map query_nonce qs = map (nonce (se_aead S)) seqs \<and> distinct seqs \<and>
     (\<forall>q\<in>set seqs. unat (se_seq S) \<le> unat q \<and> seq_ok q)"
proof (induction cs arbitrary: S)
  case Nil
  show ?case by (rule exI [of _ "[]"], rule exI [of _ "[]"]) (simp add: asks_only_def)
next
  case (Cons c cs)
  let ?S = "snd (seal_step T c S A)"
  obtain qs seqs where rest: "asks_only qs (seal_steps T cs ?S) A" "map query_nonce qs = map (nonce (se_aead ?S)) seqs" "distinct seqs"
      "\<forall>q\<in>set seqs. unat (se_seq ?S) \<le> unat q \<and> seq_ok q"
    using Cons.IH [of ?S] by blast
  have both: "asks_only (qs0 @ qs) (seal_steps T (c # cs) S) A" if first: "asks_only qs0 (seal_step T c S) A" for qs0
    unfolding asks_only_def
  proof (intro allI impI)
    fix A'
    assume "\<forall>q\<in>set (qs0 @ qs). aead_answer A' q = aead_answer A q"
    then have "\<forall>q\<in>set qs0. aead_answer A' q = aead_answer A q" "\<forall>q\<in>set qs. aead_answer A' q = aead_answer A q" by simp_all
    then have "seal_step T c S A' = seal_step T c S A" "seal_steps T cs ?S A' = seal_steps T cs ?S A"
      using first rest(1) unfolding asks_only_def by blast+
    then show "seal_steps T (c # cs) S A' = seal_steps T (c # cs) S A" by (simp add: case_prod_unfold)
  qed
  from seal_step_uses_seq [of S T c]
  consider "?S = S" "asks_only [] (seal_step T c S) A"
    | d p where "?S = advance_seq S" "seq_ok (se_seq S)"
      "asks_only [(ak_inner (se_aead S), nonce (se_aead S) (se_seq S), d, p)] (seal_step T c S) A"
    unfolding uses_seq_def by blast
  then show ?case
  proof cases
    case 1
    then show ?thesis using both [OF 1(2)] rest by (intro exI [of _ qs] exI [of _ seqs]) (simp del: seal_steps.simps)
  next
    case 2
    have k: "se_aead ?S = se_aead S" "unat (se_seq ?S) = unat (se_seq S) + 1"
      using 2(1) seq_ok_Suc [OF 2(2)] by (simp_all add: advance_seq_def)
    have "se_seq S \<notin> set seqs" "\<forall>q\<in>set seqs. unat (se_seq S) \<le> unat q \<and> seq_ok q" using rest(4) k(2) by fastforce+
    then show ?thesis
      using both [OF 2(3)] rest(2,3) 2(2) k(1)
      by (intro exI [of _ "(ak_inner (se_aead S), nonce (se_aead S) (se_seq S), d, p) # qs"] exI [of _ "se_seq S # seqs"])
        (simp add: query_nonce_def del: seal_steps.simps)
  qed
qed

lemma seqs_bounded:
  assumes "distinct seqs" and "\<forall>q\<in>set seqs. m \<le> unat q \<and> seq_ok q"
  shows "length seqs \<le> 2 ^ 23 - m"
proof -
  have "distinct (map unat seqs)" using assms(1) by (auto simp: distinct_map word_unat_eq_iff intro!: inj_onI)
  then have "length (map unat seqs) = card (set (map unat seqs))" by (rule distinct_card [symmetric])
  also have "\<dots> \<le> card {m..<(2::nat) ^ 23}"
    using assms(2) by (intro card_mono) (auto simp: seq_ok_def AEAD_CONFIDENTIALITY_LIMIT_def word_less_nat_alt)
  finally show ?thesis by simp
qed

text \<open>
  C4. A sealer never reuses a nonce and never exceeds the usage limit of its key.  Over any sequence of calls of its sealing
  operations, into a growing buffer, a slice or a writer, in one piece or in parts, failing calls included, all that the
  calls ask of the AEAD is a list of queries with pairwise different nonces (no other answer of the AEAD has an influence on
  any result, on any buffer or on the sealer), and with the numbers used before there are at most \<open>2^23\<close> of them.  A sealer that has reached
  the limit refuses every further record.
\<close>

theorem nonces_unique:
  assumes "length (ak_iv (se_aead S)) = 12"
  shows "(\<exists>qs. asks_only qs (seal_steps T cs S) A \<and> distinct (map query_nonce qs) \<and> length qs \<le> 2 ^ 23 - unat (se_seq S)) \<and>
    (AEAD_CONFIDENTIALITY_LIMIT \<le> se_seq S \<longrightarrow> (\<exists>e. seal_into A ct body out S = (Inl e, out, S)))"
proof -
  obtain qs seqs where qs: "asks_only qs (seal_steps T cs S) A" "map query_nonce qs = map (nonce (se_aead S)) seqs" "distinct seqs"
      "\<forall>q\<in>set seqs. unat (se_seq S) \<le> unat q \<and> seq_ok q"
    using seal_steps_queries [of T cs S A] by blast
  have "inj_on (nonce (se_aead S)) (set seqs)" using nonce_inject [OF assms] by (auto intro: inj_onI)
  then have "distinct (map query_nonce qs)" unfolding qs(2) using qs(3) by (simp add: distinct_map)
  moreover have "length qs = length seqs" using qs(2) by (rule map_eq_imp_length_eq)
  moreover have "\<exists>e. seal_into A ct body out S = (Inl e, out, S)" if "AEAD_CONFIDENTIALITY_LIMIT \<le> se_seq S"
    using that by (auto simp: seal_into_eq check_seq_def)
  ultimately show ?thesis using qs(1) seqs_bounded [OF qs(3,4)] by auto
qed

text \<open>
  Two records in a row: the AEAD may answer anything to other queries, and in particular to queries under nonces of other numbers.
\<close>

theorem nonces_unique_witness:
  "\<exists>qs. distinct (map query_nonce qs) \<and> length qs \<le> 2 ^ 23 - 5 \<and>
     asks_only qs (seal_steps txn_ref [CallInto Handshake [1] [], CallSlice Handshake [2] (replicate 40 0)]
       \<lparr>se_aead = \<lparr>ak_inner = (AES_128_GCM, [1]), ak_iv = replicate 12 3\<rparr>, se_seq = 5\<rparr>) aead_toy \<and>
     (\<exists>e. seal_into aead_toy Handshake [] [] \<lparr>se_aead = \<lparr>ak_inner = (AES_128_GCM, [1]), ak_iv = replicate 12 3\<rparr>, se_seq = AEAD_CONFIDENTIALITY_LIMIT\<rparr> =
       (Inl e, [], \<lparr>se_aead = \<lparr>ak_inner = (AES_128_GCM, [1]), ak_iv = replicate 12 3\<rparr>, se_seq = AEAD_CONFIDENTIALITY_LIMIT\<rparr>))"
proof -
  let ?K = "\<lparr>ak_inner = (AES_128_GCM, [1 :: u8]), ak_iv = replicate 12 (3 :: u8)\<rparr>"
  have iv: "length (ak_iv (se_aead \<lparr>se_aead = ?K, se_seq = q\<rparr>)) = 12" for q by simp
  show ?thesis
    using nonces_unique [OF iv [of 5], of txn_ref "[CallInto Handshake [1] [], CallSlice Handshake [2] (replicate 40 0)]" aead_toy Handshake "[]" "[]"]
      nonces_unique [OF iv [of AEAD_CONFIDENTIALITY_LIMIT], of txn_ref "[]" aead_toy Handshake "[]" "[]"]
    by auto
qed

subsection \<open>The other sealing entry points\<close>

lemma seal_record_eq:
  assumes "aead_ok A" "length body \<le> MAX_PLAINTEXT_BODY" "length out = length body + 22"
    and "seal_outcome A ct body S = Inr rec"
  shows "seal_record A ct body out S = (Inr (), rec, advance_seq S)"
proof -
  let ?h = "header_bytes ApplicationData (length body + 17)"
  let ?e = "length out - AEAD_TAG_LEN"
  obtain c tag where r: "rec = ?h @ c @ tag" "length c = length body + 1" "length tag = 16"
    "aead_seal_detached A (se_aead S) (se_seq S) ?h (inner_plaintext ct body) = (Inr tag, c)"
    using seal_outcomeE [OF assms(1,4)] .
  have e: "?e = HEADER_LEN + length body + 1" "HEADER_LEN \<le> length (take ?e out)"
    using assms(3) by (simp_all add: record_consts)
  have "length body + 1 + AEAD_TAG_LEN < 2 ^ 16" using assms(2) by (simp add: record_consts)
  from write_header_slice_bytes [OF e(2) this, of ApplicationData]
  have h: "write_header_slice ApplicationData (word_of_nat (length body + 1 + AEAD_TAG_LEN)) (take ?e out) =
      ?h @ drop HEADER_LEN (take ?e out)" by (simp add: AEAD_TAG_LEN_def add.commute)
  obtain x where x: "drop (HEADER_LEN + length body) (take ?e out) = [x]"
  proof -
    have "length (drop (HEADER_LEN + length body) (take ?e out)) = 1" using e(1) assms(3) by simp
    then obtain y ys where "drop (HEADER_LEN + length body) (take ?e out) = y # ys" "ys = []"
      by (metis One_nat_def length_0_conv length_Suc_conv)
    then show ?thesis by (intro that) simp
  qed
  have "copy_at HEADER_LEN body ((?h @ drop HEADER_LEN (take ?e out)) @ drop ?e out) =
      ?h @ body @ [x] @ drop ?e out"
    using x assms(3) e(1) by (simp add: copy_at_def add.commute)
  then have upd: "(copy_at HEADER_LEN body ((?h @ drop HEADER_LEN (take ?e out)) @ drop ?e out))
        [HEADER_LEN + length body := content_type_u8 ct] =
      (?h @ inner_plaintext ct body) @ drop ?e out"
    by (simp add: list_update_append inner_plaintext_def)
  have split: "take ?e ((?h @ inner_plaintext ct body) @ drop ?e out) = ?h @ inner_plaintext ct body"
    "drop ?e ((?h @ inner_plaintext ct body) @ drop ?e out) = drop ?e out"
    using e(1) by (simp_all add: inner_plaintext_def)
  have "copy_at ?e tag ((?h @ c) @ drop ?e out) = ?h @ c @ tag"
    using e(1) assms(3) r(2,3) by (simp add: copy_at_def HEADER_LEN_def)
  then show ?thesis
    using r(1,4) unfolding seal_record_def Let_def h upd split
    by (simp add: seal_plaintext_record)
qed

text \<open>
  Sealing into a caller's slice agrees with sealing into a vector.  For the same sealer
  and record, when the slice is long enough and the vector operation succeeds, the slice
  starts with exactly the appended bytes, its remaining bytes are untouched, the returned
  length is theirs, and the sealer ends in the same state; when the slice is too short
  nothing is written and no sequence number is consumed.
\<close>

theorem seal_slice_agrees:
  assumes "aead_ok A" and "seal A ct body S = (Inr rec, S')"
  shows "seal_into_slice A ct body out S =
    (if length rec \<le> length out then (Inr (length rec), rec @ drop (length rec) out, S')
     else (Inl BufferTooSmall, out, S))"
proof -
  have "seal_into A ct body [] S = (Inr (), rec, S')"
    using assms(2) by (auto simp: seal_def split: prod.splits sum.splits)
  from seal_into_SuccE [OF this] have o: "seal_outcome A ct body S = Inr rec" "S' = advance_seq S"
    "length body \<le> MAX_PLAINTEXT_BODY" "seq_ok (se_seq S)" by auto
  have len: "length rec = length body + 22"
    by (rule seal_outcomeE [OF assms(1) o(1)]) (simp add: HEADER_LEN_def)
  have "sealed_len body = Inr (length body + 22)"
    using o(3) by (simp add: sealed_len_def sealed_len_for_def record_consts)
  moreover have "check_seq S = Inr ()" using o(4) by (simp add: check_seq_eq)
  ultimately show ?thesis
    using seal_record_eq [OF assms(1) o(3) _ o(1), of "take (length body + 22) out"] o(2)
    by (simp add: seal_into_slice_def len)
qed

theorem seal_slice_agrees_witness:
  "seal_into_slice aead_toy Handshake [8] (replicate 30 1)
      \<lparr>se_aead = \<lparr>ak_inner = (AES_128_GCM, [1]), ak_iv = replicate 12 3\<rparr>, se_seq = 5\<rparr> =
    (let rec = (case seal aead_toy Handshake [8]
           \<lparr>se_aead = \<lparr>ak_inner = (AES_128_GCM, [1]), ak_iv = replicate 12 3\<rparr>, se_seq = 5\<rparr> of (Inr r, _) \<Rightarrow> r) in
     if length rec \<le> length (replicate 30 (1 :: u8))
     then (Inr (length rec), rec @ drop (length rec) (replicate 30 1),
       snd (seal aead_toy Handshake [8]
           \<lparr>se_aead = \<lparr>ak_inner = (AES_128_GCM, [1]), ak_iv = replicate 12 3\<rparr>, se_seq = 5\<rparr>))
     else (Inl BufferTooSmall, replicate 30 1,
       \<lparr>se_aead = \<lparr>ak_inner = (AES_128_GCM, [1]), ak_iv = replicate 12 3\<rparr>, se_seq = 5\<rparr>))"
  unfolding Let_def
  by (rule seal_slice_agrees [OF aead_toy_ok])
    (simp add: seal_def seal_into_eq seal_outcome_def aead_seal_detached_def aead_toy_def check_seq_def
        AEAD_CONFIDENTIALITY_LIMIT_def MAX_PLAINTEXT_BODY_def Let_def)

text \<open>
  The documented behaviour of a transaction on a \<open>SpareWriter\<close>: \<open>content\<close> and \<open>room\<close> are what
  the writer holds and how much more it can take, \<open>lim\<close> is what a transaction reserved.
\<close>

definition txn_ok ::
    "('w, 't) txn_ops \<Rightarrow> ('w \<Rightarrow> bytes) \<Rightarrow> ('w \<Rightarrow> nat) \<Rightarrow> ('t \<Rightarrow> nat) \<Rightarrow> bool" where
  "txn_ok T content room lim \<longleftrightarrow>
     (\<forall>n w. case tx_try_transaction T n w of None \<Rightarrow> room w < n
        | Some t \<Rightarrow> n \<le> room w \<and> tx_initialized T t = [] \<and> lim t = n) \<and>
     (\<forall>bs t. case tx_try_extend T bs t of None \<Rightarrow> lim t < length (tx_initialized T t) + length bs
        | Some t' \<Rightarrow> length (tx_initialized T t) + length bs \<le> lim t \<and>
            tx_initialized T t' = tx_initialized T t @ bs \<and> lim t' = lim t) \<and>
     (\<forall>b t. length b = length (tx_initialized T t) \<longrightarrow>
        tx_initialized T (tx_set_initialized T b t) = b \<and> lim (tx_set_initialized T b t) = lim t) \<and>
     (\<forall>t w. length (tx_initialized T t) = lim t \<and> lim t \<le> room w \<longrightarrow>
        (\<exists>w'. tx_commit T t w = Some w' \<and> content w' = content w @ tx_initialized T t))"

lemma txn_ref_ok: "txn_ok txn_ref fst (\<lambda>(b, cap). cap - length b) snd"
  by (auto simp: txn_ok_def txn_ref_def)

lemma txn_okD:
  assumes "txn_ok T content room lim"
  shows "n \<le> room w \<Longrightarrow> \<exists>t. tx_try_transaction T n w = Some t \<and> tx_initialized T t = [] \<and> lim t = n"
    and "length (tx_initialized T t) + length bs \<le> lim t \<Longrightarrow>
      \<exists>t'. tx_try_extend T bs t = Some t' \<and> tx_initialized T t' = tx_initialized T t @ bs \<and> lim t' = lim t"
    and "length b = length (tx_initialized T t) \<Longrightarrow>
      tx_initialized T (tx_set_initialized T b t) = b \<and> lim (tx_set_initialized T b t) = lim t"
    and "length (tx_initialized T t) = lim t \<Longrightarrow> lim t \<le> room w \<Longrightarrow>
      \<exists>w'. tx_commit T t w = Some w' \<and> content w' = content w @ tx_initialized T t"
proof -
  note ok = assms [unfolded txn_ok_def]
  show "n \<le> room w \<Longrightarrow> \<exists>t. tx_try_transaction T n w = Some t \<and> tx_initialized T t = [] \<and> lim t = n"
    using ok [THEN conjunct1, rule_format, where n = n and w = w] by (auto split: option.splits)
  show "length (tx_initialized T t) + length bs \<le> lim t \<Longrightarrow>
      \<exists>t'. tx_try_extend T bs t = Some t' \<and> tx_initialized T t' = tx_initialized T t @ bs \<and> lim t' = lim t"
    using ok [THEN conjunct2, THEN conjunct1, rule_format, where bs = bs and t = t] by (auto split: option.splits)
qed (use assms in \<open>auto simp: txn_ok_def\<close>)

lemma write_parts_run:
  assumes T: "txn_ok T content room lim"
  shows "length (tx_initialized T t) + n \<le> lim t \<Longrightarrow>
    (if n = length (concat parts)
     then \<exists>t'. write_parts T parts n t = Inr t' \<and> tx_initialized T t' = tx_initialized T t @ concat parts \<and>
       lim t' = lim t
     else write_parts T parts n t = Inl LengthMismatch)"
proof (induction parts arbitrary: n t)
  case (Cons p ps)
  show ?case
  proof (cases "length p > n")
    case False
    then have "length (tx_initialized T t) + length p \<le> lim t" using Cons.prems by simp
    then obtain t1 where t1: "tx_try_extend T p t = Some t1"
      "tx_initialized T t1 = tx_initialized T t @ p" "lim t1 = lim t"
      using txn_okD(2) [OF T] by blast
    have "length (tx_initialized T t1) + (n - length p) \<le> lim t1" using t1 Cons.prems False by simp
    from Cons.IH [OF this] t1 False show ?thesis by (auto simp: write_txn_def split: if_splits)
  qed auto
qed simp

lemma seal_plaintext_txn_run:
  assumes A: "aead_ok A" and T: "txn_ok T content room lim"
    and t: "tx_initialized T t = header_bytes ApplicationData (length body + 17) @ body" "lim t = length body + 22"
    and o: "seal_outcome A ct body S = Inr rec"
  shows "\<exists>t'. seal_plaintext_txn A T ct t S = (Inr t', advance_seq S) \<and> tx_initialized T t' = rec \<and>
    lim t' = length rec"
proof -
  let ?h = "header_bytes ApplicationData (length body + 17)"
  obtain c tag where r: "rec = ?h @ c @ tag" "length c = length body + 1" "length tag = 16"
    "aead_seal_detached A (se_aead S) (se_seq S) ?h (inner_plaintext ct body) = (Inr tag, c)"
    using seal_outcomeE [OF A o] .
  have "length (tx_initialized T t) + length [content_type_u8 ct] \<le> lim t"
    using t by (simp add: HEADER_LEN_def)
  then obtain t1 where 1: "tx_try_extend T [content_type_u8 ct] t = Some t1"
    "tx_initialized T t1 = ?h @ inner_plaintext ct body" "lim t1 = lim t"
    using txn_okD(2) [OF T] t(1) by (fastforce simp: inner_plaintext_def)
  let ?t2 = "tx_set_initialized T (?h @ c) t1"
  have 2: "tx_initialized T ?t2 = ?h @ c" "lim ?t2 = lim t"
    using txn_okD(3) [OF T, of "?h @ c" t1] 1 r(2) by (simp_all add: inner_plaintext_def)
  then have "length (tx_initialized T ?t2) + length tag \<le> lim ?t2"
    using t(2) r(2,3) by (simp add: HEADER_LEN_def)
  then obtain t3 where 3: "tx_try_extend T tag ?t2 = Some t3" "tx_initialized T t3 = ?h @ c @ tag"
    "lim t3 = lim t"
    using txn_okD(2) [OF T] 2 by fastforce
  then show ?thesis
    using 1 r t(2) by (simp add: seal_plaintext_txn_def write_txn_def seal_plaintext_record HEADER_LEN_def)
qed

lemma sealing_setup:
  assumes T: "txn_ok T content room lim" and len: "n \<le> MAX_PLAINTEXT_BODY" "n + 22 \<le> room w"
    and seq: "seq_ok (se_seq S)"
  shows "\<exists>t. and_then (sealed_len_for n) (\<lambda>n. and_then (check_seq S) (\<lambda>_. transaction_r T n w)) = Inr t \<and>
    (\<exists>t'. write_header_txn T ApplicationData (word_of_nat (n + 1 + AEAD_TAG_LEN)) t = Inr t' \<and>
      tx_initialized T t' = header_bytes ApplicationData (n + 17) \<and> lim t' = n + 22)"
proof -
  obtain t where t: "tx_try_transaction T (n + 22) w = Some t" "tx_initialized T t = []" "lim t = n + 22"
    using txn_okD(1) [OF T len(2)] by blast
  have 17: "n + 1 + AEAD_TAG_LEN = n + 17" "n + 17 < 2 ^ 16" using len(1) by (simp_all add: record_consts)
  have "length (tx_initialized T t) + length (header_bytes ApplicationData (n + 17)) \<le> lim t"
    using t by (simp add: HEADER_LEN_def)
  then obtain t' where t': "tx_try_extend T (header_bytes ApplicationData (n + 17)) t = Some t'"
    "tx_initialized T t' = header_bytes ApplicationData (n + 17)" "lim t' = n + 22"
    using txn_okD(2) [OF T] t by fastforce
  have "[content_type_u8 ApplicationData] @ be_bytes 2 (unat PROTOCOL_VERSION) @
      be_bytes 2 (unat (word_of_nat (n + 17) :: u16)) = header_bytes ApplicationData (n + 17)"
    unfolding version_bytes unat_u16 [OF 17(2)] by (simp add: header_bytes_def)
  then have "write_header_txn T ApplicationData (word_of_nat (n + 17)) t = Inr t'"
    unfolding write_header_txn_def write_txn_def by (simp only: t'(1) ok_or_simps)
  moreover have "check_seq S = Inr ()" using seq by (simp add: check_seq_eq)
  moreover have "sealed_len_for n = Inr (n + 22)" using len(1) by (simp add: sealed_len_for_def record_consts)
  ultimately show ?thesis
    unfolding 17(1) using t t' by (simp add: transaction_r_def)
qed

lemma finish_txn_run:
  assumes A: "aead_ok A" and T: "txn_ok T content room lim"
    and t: "tx_initialized T t = header_bytes ApplicationData (length body + 17) @ body" "lim t = length body + 22"
    and o: "seal_outcome A ct body S = Inr rec" and room: "length rec \<le> room w"
  shows "\<exists>w'. finish_txn T w (seal_plaintext_txn A T ct t S) = (Inr (), w', advance_seq S) \<and>
    content w' = content w @ rec"
proof -
  obtain t' where t': "seal_plaintext_txn A T ct t S = (Inr t', advance_seq S)" "tx_initialized T t' = rec"
    "lim t' = length rec"
    using seal_plaintext_txn_run [OF A T t o] by auto
  then obtain w' where "tx_commit T t' w = Some w'" "content w' = content w @ rec"
    using txn_okD(4) [OF T, of t' w] room by auto
  with t' show ?thesis by (simp add: finish_txn_def commit_r_def)
qed

text \<open>
  Vectored sealing.  Sealing a body given in parts, or in one piece, through a
  transaction on a writer with room appends exactly the record that \<open>seal\<close> returns for the
  concatenated body and advances the sequence number once.  When the parts do not add up to
  the declared length, nothing is written and no sequence number is consumed.
\<close>

theorem vectored_seal:
  assumes "aead_ok A" and "txn_ok T content room lim" and "length rec \<le> room w"
    and "seal A ct (concat parts) S = (Inr rec, S')"
  shows "(\<exists>w1. seal_parts_to A T ct (length (concat parts)) parts w S = (Inr (), w1, S') \<and>
      content w1 = content w @ rec) \<and>
    (\<exists>w2. seal_to A T ct (concat parts) w S = (Inr (), w2, S') \<and> content w2 = content w @ rec) \<and>
    (n \<noteq> length (concat parts) \<and> n \<le> MAX_PLAINTEXT_BODY \<and> n + 22 \<le> room w \<longrightarrow>
      seal_parts_to A T ct n parts w S = (Inl LengthMismatch, w, S))"
proof -
  let ?b = "concat parts" and ?h = "header_bytes ApplicationData"
  note T = assms(2)
  have "seal_into A ct ?b [] S = (Inr (), rec, S')"
    using assms(4) by (auto simp: seal_def split: prod.splits sum.splits)
  from seal_into_SuccE [OF this] have o: "seal_outcome A ct ?b S = Inr rec" "S' = advance_seq S"
    "length ?b \<le> MAX_PLAINTEXT_BODY" "seq_ok (se_seq S)" by auto
  have len: "length rec = length ?b + 22"
    by (rule seal_outcomeE [OF assms(1) o(1)]) (simp add: HEADER_LEN_def)
  note finish = finish_txn_run [OF assms(1) T _ _ o(1) assms(3), folded o(2)]
  have room: "length ?b + 22 \<le> room w" using assms(3) len by simp
  obtain t t1 where s: "and_then (sealed_len_for (length ?b)) (\<lambda>n. and_then (check_seq S) (\<lambda>_. transaction_r T n w)) = Inr t"
    "write_header_txn T ApplicationData (word_of_nat (length ?b + 1 + AEAD_TAG_LEN)) t = Inr t1"
    "tx_initialized T t1 = ?h (length ?b + 17)" "lim t1 = length ?b + 22"
    using sealing_setup [OF T o(3) room o(4)] by blast
  have h: "length (tx_initialized T t1) + length ?b \<le> lim t1" using s by (simp add: HEADER_LEN_def)
  obtain t2 where p: "write_parts T parts (length ?b) t1 = Inr t2"
    "tx_initialized T t2 = ?h (length ?b + 17) @ ?b" "lim t2 = length ?b + 22"
    using write_parts_run [OF T h, of parts] s(3,4) by auto
  obtain t3 where q: "write_txn T ?b t1 = Inr t3"
    "tx_initialized T t3 = ?h (length ?b + 17) @ ?b" "lim t3 = length ?b + 22"
    using txn_okD(2) [OF T h] s(3,4) by (auto simp: write_txn_def)
  have 1: "\<exists>w1. seal_parts_to A T ct (length ?b) parts w S = (Inr (), w1, S') \<and> content w1 = content w @ rec"
    using finish [OF p(2,3)] s(1,2) p(1)
    by (auto simp: seal_parts_to_def and_then_assoc [symmetric] elim!: and_then_InrE)
  have 2: "\<exists>w2. seal_to A T ct ?b w S = (Inr (), w2, S') \<and> content w2 = content w @ rec"
    using finish [OF q(2,3)] s(1,2) q(1) by (simp add: seal_to_def sealed_len_def seal_record_txn_def)
  have 3: "seal_parts_to A T ct n parts w S = (Inl LengthMismatch, w, S)"
    if n: "n \<noteq> length ?b" "n \<le> MAX_PLAINTEXT_BODY" "n + 22 \<le> room w"
  proof -
    obtain u u1 where u: "and_then (sealed_len_for n) (\<lambda>n. and_then (check_seq S) (\<lambda>_. transaction_r T n w)) = Inr u"
      "write_header_txn T ApplicationData (word_of_nat (n + 1 + AEAD_TAG_LEN)) u = Inr u1"
      "tx_initialized T u1 = ?h (n + 17)" "lim u1 = n + 22"
      using sealing_setup [OF T n(2,3) o(4)] by blast
    then have "write_parts T parts n u1 = Inl LengthMismatch"
      using write_parts_run [OF T, of u1 n parts] n(1) by (simp add: HEADER_LEN_def split: if_splits)
    with u show ?thesis by (auto simp: seal_parts_to_def elim!: and_then_InrE)
  qed
  show ?thesis using 1 2 3 by blast
qed

theorem vectored_seal_witness:
  "let S = \<lparr>se_aead = \<lparr>ak_inner = (AES_128_GCM, [1]), ak_iv = replicate 12 3\<rparr>, se_seq = 5\<rparr>;
       rec = (case seal aead_toy Handshake (concat [[8], [9]]) S of (Inr r, _) \<Rightarrow> r);
       S' = snd (seal aead_toy Handshake (concat [[8], [9]]) S) in
   (\<exists>w1. seal_parts_to aead_toy txn_ref Handshake (length (concat [[8], [9 :: u8]])) [[8], [9]] ([4], 99) S =
      (Inr (), w1, S') \<and> fst w1 = fst ([4], 99 :: nat) @ rec) \<and>
   (\<exists>w2. seal_to aead_toy txn_ref Handshake (concat [[8], [9]]) ([4], 99) S = (Inr (), w2, S') \<and>
      fst w2 = fst ([4], 99 :: nat) @ rec) \<and>
   (3 \<noteq> length (concat [[8], [9 :: u8]]) \<and> 3 \<le> MAX_PLAINTEXT_BODY \<and>
      3 + 22 \<le> (case ([4 :: u8], 99) of (b, cap) \<Rightarrow> cap - length b) \<longrightarrow>
      seal_parts_to aead_toy txn_ref Handshake 3 [[8], [9]] ([4], 99) S = (Inl LengthMismatch, ([4], 99), S))"
  unfolding Let_def
  by (rule vectored_seal [OF aead_toy_ok txn_ref_ok])
    (simp_all add: seal_def seal_into_eq seal_outcome_def aead_seal_detached_def aead_toy_def check_seq_def
        AEAD_CONFIDENTIALITY_LIMIT_def MAX_PLAINTEXT_BODY_def HEADER_LEN_def aead_toy_tag_def
        inner_plaintext_def Let_def)

end
