(* ===== verification/Alert.thy ===== *)
theory Alert
  imports RecordLayer
begin

section \<open>Alerts\<close>

text \<open>
  \<open>wire/alert.rs\<close>: alert levels and descriptions with their code points, and the two-byte
  alert body.
\<close>

datatype level = Warning | Fatal

fun level_u8 :: "level \<Rightarrow> u8" where
  "level_u8 Warning = 1"
| "level_u8 Fatal = 2"

definition level_from_u8 :: "u8 \<Rightarrow> level option" where
  "level_from_u8 b = (if b = 1 then Some Warning else if b = 2 then Some Fatal else None)"

datatype description =
  CloseNotify | UnexpectedMessageAlert | BadRecordMac | RecordOverflowAlert | HandshakeFailure |
  BadCertificateAlert | UnsupportedCertificate | CertificateRevoked | CertificateExpired |
  CertificateUnknown | IllegalParameterAlert | UnknownCa | AccessDeniedAlert | DecodeErrorAlert |
  DecryptError | ProtocolVersion | InsufficientSecurity | InternalError | InappropriateFallback |
  UserCanceled | MissingExtensionAlert | UnsupportedExtension | UnrecognizedName |
  BadCertificateStatusResponse | UnknownPskIdentity | CertificateRequired |
  NoApplicationProtocolAlert

fun description_u8 :: "description \<Rightarrow> u8" where
  "description_u8 CloseNotify = 0"
| "description_u8 UnexpectedMessageAlert = 10"
| "description_u8 BadRecordMac = 20"
| "description_u8 RecordOverflowAlert = 22"
| "description_u8 HandshakeFailure = 40"
| "description_u8 BadCertificateAlert = 42"
| "description_u8 UnsupportedCertificate = 43"
| "description_u8 CertificateRevoked = 44"
| "description_u8 CertificateExpired = 45"
| "description_u8 CertificateUnknown = 46"
| "description_u8 IllegalParameterAlert = 47"
| "description_u8 UnknownCa = 48"
| "description_u8 AccessDeniedAlert = 49"
| "description_u8 DecodeErrorAlert = 50"
| "description_u8 DecryptError = 51"
| "description_u8 ProtocolVersion = 70"
| "description_u8 InsufficientSecurity = 71"
| "description_u8 InternalError = 80"
| "description_u8 InappropriateFallback = 86"
| "description_u8 UserCanceled = 90"
| "description_u8 MissingExtensionAlert = 109"
| "description_u8 UnsupportedExtension = 110"
| "description_u8 UnrecognizedName = 112"
| "description_u8 BadCertificateStatusResponse = 113"
| "description_u8 UnknownPskIdentity = 115"
| "description_u8 CertificateRequired = 116"
| "description_u8 NoApplicationProtocolAlert = 120"

definition description_from_u8 :: "u8 \<Rightarrow> description option" where
  "description_from_u8 b =
     (if b = 0 then Some CloseNotify
      else if b = 10 then Some UnexpectedMessageAlert
      else if b = 20 then Some BadRecordMac
      else if b = 22 then Some RecordOverflowAlert
      else if b = 40 then Some HandshakeFailure
      else if b = 42 then Some BadCertificateAlert
      else if b = 43 then Some UnsupportedCertificate
      else if b = 44 then Some CertificateRevoked
      else if b = 45 then Some CertificateExpired
      else if b = 46 then Some CertificateUnknown
      else if b = 47 then Some IllegalParameterAlert
      else if b = 48 then Some UnknownCa
      else if b = 49 then Some AccessDeniedAlert
      else if b = 50 then Some DecodeErrorAlert
      else if b = 51 then Some DecryptError
      else if b = 70 then Some ProtocolVersion
      else if b = 71 then Some InsufficientSecurity
      else if b = 80 then Some InternalError
      else if b = 86 then Some InappropriateFallback
      else if b = 90 then Some UserCanceled
      else if b = 109 then Some MissingExtensionAlert
      else if b = 110 then Some UnsupportedExtension
      else if b = 112 then Some UnrecognizedName
      else if b = 113 then Some BadCertificateStatusResponse
      else if b = 115 then Some UnknownPskIdentity
      else if b = 116 then Some CertificateRequired
      else if b = 120 then Some NoApplicationProtocolAlert
      else None)"

definition is_fatal :: "description \<Rightarrow> bool" where
  "is_fatal d \<longleftrightarrow> \<not> (d = CloseNotify \<or> d = UserCanceled)"

record alert =
  al_level :: level
  al_description :: description

definition alert_fatal :: "description \<Rightarrow> alert" where
  "alert_fatal d = \<lparr>al_level = Fatal, al_description = d\<rparr>"

definition alert_close_notify :: alert where
  "alert_close_notify = \<lparr>al_level = Warning, al_description = CloseNotify\<rparr>"

definition alert_body :: "alert \<Rightarrow> bytes" where
  "alert_body a = [level_u8 (al_level a), description_u8 (al_description a)]"

datatype alert_error = BadAlertLength | BadLevel | UnknownDescription

definition record_error_of_alert :: "alert_error \<Rightarrow> record_error" where
  "record_error_of_alert _ = BadContentType"

definition alert_parse :: "bytes \<Rightarrow> alert_error + alert" where
  "alert_parse body =
     (if length body \<noteq> 2 then Inl BadAlertLength
      else and_then (ok_or BadLevel (level_from_u8 (body ! 0))) (\<lambda>l.
           and_then (ok_or UnknownDescription (description_from_u8 (body ! 1))) (\<lambda>d.
           Inr \<lparr>al_level = l, al_description = d\<rparr>)))"

definition to_plaintext_record :: "alert \<Rightarrow> record_error + bytes" where
  "to_plaintext_record a = plaintext_encode AlertType (alert_body a)"

lemma level_roundtrip: "level_from_u8 b = Some l \<longleftrightarrow> b = level_u8 l"
  by (cases l) (auto simp: level_from_u8_def)

lemma description_roundtrip: "description_from_u8 (description_u8 d) = Some d"
  by (cases d) (simp_all add: description_from_u8_def)

lemma description_from_u8_SomeD: "description_from_u8 b = Some d \<Longrightarrow> b = description_u8 d"
  unfolding description_from_u8_def by (auto split: if_splits)

text \<open>
  Alert codec.  Every alert parses back from its body, parsing accepts nothing but the
  bodies of alerts, and the plaintext record of an alert is a well-formed seven-byte alert
  record that carries the body.
\<close>

theorem alert_codec:
  "(alert_parse bs = Inr a \<longleftrightarrow> bs = alert_body a) \<and>
   (\<exists>rec. to_plaintext_record a = Inr rec \<and> length rec = 7 \<and>
     plaintext_parse rec =
       Inr (Some (\<lparr>pt_content_type = AlertType, pt_legacy_record_version = PROTOCOL_VERSION,
                   pt_body = alert_body a\<rparr>, 7)))"
proof
  show "alert_parse bs = Inr a \<longleftrightarrow> bs = alert_body a"
  proof
    assume "alert_parse bs = Inr a"
    then show "bs = alert_body a"
      by (cases bs; cases "tl bs")
        (auto simp: alert_parse_def alert_body_def level_roundtrip and_then_eq_Inr
          dest: description_from_u8_SomeD split: if_splits)
  next
    assume "bs = alert_body a"
    moreover have "level_from_u8 (level_u8 l) = Some l" for l by (simp add: level_roundtrip)
    ultimately show "alert_parse bs = Inr a"
      by (simp add: alert_parse_def alert_body_def description_roundtrip)
  qed
  have "length (alert_body a) \<le> MAX_PLAINTEXT_BODY" by (simp add: alert_body_def MAX_PLAINTEXT_BODY_def)
  from plaintext_parse_run [OF this, of AlertType "[]"]
  show "\<exists>rec. to_plaintext_record a = Inr rec \<and> length rec = 7 \<and>
     plaintext_parse rec =
       Inr (Some (\<lparr>pt_content_type = AlertType, pt_legacy_record_version = PROTOCOL_VERSION,
                   pt_body = alert_body a\<rparr>, 7))"
    by (simp add: to_plaintext_record_def plaintext_encode_def plaintext_encode_into_eq alert_body_def
        MAX_PLAINTEXT_BODY_def HEADER_LEN_def)
qed

end
