(* ===== verification/Connection.thy ===== *)
theory Connection
  imports Alert IdentityErrors Views
begin

section \<open>Connection errors, events and sinks\<close>

text \<open>
  \<open>connection.rs\<close> and \<open>transport.rs\<close>.  The event sink is the caller's code: the record \<open>sink\<close>
  holds its methods over a state of the caller's choice, with \<open>sk_end_send\<close> for the moment
  the storage lent by \<open>begin_send\<close> is handed back.  Events are polymorphic in the session
  ticket a client retains.
\<close>

subsection \<open>Transport mode\<close>

datatype mode = Tls | Quic

fun is_tls :: "mode \<Rightarrow> bool" where
  "is_tls Tls = True" | "is_tls Quic = False"

fun is_quic :: "mode \<Rightarrow> bool" where
  "is_quic Tls = False" | "is_quic Quic = True"

definition uses_legacy_session_id :: "mode \<Rightarrow> bool" where
  "uses_legacy_session_id m = is_tls m"

definition uses_end_of_early_data :: "mode \<Rightarrow> bool" where
  "uses_end_of_early_data m = is_tls m"

definition allows_tls_key_update :: "mode \<Rightarrow> bool" where
  "allows_tls_key_update m = is_tls m"

fun advertised_early_data_size :: "mode \<Rightarrow> u32 \<Rightarrow> u32" where
  "advertised_early_data_size Tls tls_limit = tls_limit"
| "advertised_early_data_size Quic tls_limit = - 1"

subsection \<open>Retained storage\<close>

record retained_bytes =
  rb_bytes :: bytes
  rb_limit :: nat

datatype epoch = PlaintextEpoch | EarlyDataEpoch | HandshakeEpoch | ApplicationEpoch

record outbound_layout =
  ol_plaintext :: nat
  ol_handshake :: nat
  ol_application :: nat

datatype key_direction = KeyRead | KeyWrite

datatype workspace_region = FragmentedMessage | OutboundFlightRegion | PeerIdentity

subsection \<open>Errors\<close>

datatype conn_error =
    DecodeErr | IllegalParameter | UnexpectedMessage | EarlyDataLimitExceeded
  | UnsupportedCipherSuite | UnsupportedGroup | UnsupportedSigScheme | BadVersion
  | DowngradeDetected | HelloRetryRequest | UnsolicitedExtension | SigSchemeNotOffered
  | MissingExtension | KeyShareNotFound | NoApplicationProtocol | BadCertificate
  | BadCertificateParse cert_error | BadCertificateChain chain_error | NoTrustAnchorForIssuer
  | BadCertificateVerify | ClientCertRequired | AccessDenied | BadPskBinder | BadFinished
  | KxErr | SigErr | SpkiErr | RngErr | WorkspaceExhausted workspace_region | EncodeErr
  | BadConfig | NotReady | ConnectionFailed

definition retained_try_extend :: "bytes \<Rightarrow> retained_bytes \<Rightarrow> (conn_error + unit) \<times> retained_bytes" where
  "retained_try_extend v r =
     (case usize_checked_add (length (rb_bytes r)) (length v) of
        None \<Rightarrow> (Inl BadConfig, r)
      | Some n \<Rightarrow> if n \<le> rb_limit r then (Inr (), r\<lparr>rb_bytes := rb_bytes r @ v\<rparr>) else (Inl BadConfig, r))"

definition retained_remaining :: "retained_bytes \<Rightarrow> nat" where
  "retained_remaining r = rb_limit r - length (rb_bytes r)"

fun error_description :: "conn_error \<Rightarrow> description" where
  "error_description DecodeErr = DecodeErrorAlert"
| "error_description IllegalParameter = IllegalParameterAlert"
| "error_description DowngradeDetected = IllegalParameterAlert"
| "error_description SigSchemeNotOffered = IllegalParameterAlert"
| "error_description UnexpectedMessage = UnexpectedMessageAlert"
| "error_description EarlyDataLimitExceeded = UnexpectedMessageAlert"
| "error_description UnsupportedCipherSuite = HandshakeFailure"
| "error_description UnsupportedGroup = HandshakeFailure"
| "error_description UnsupportedSigScheme = HandshakeFailure"
| "error_description BadVersion = ProtocolVersion"
| "error_description HelloRetryRequest = InternalError"
| "error_description UnsolicitedExtension = UnsupportedExtension"
| "error_description MissingExtension = MissingExtensionAlert"
| "error_description KeyShareNotFound = HandshakeFailure"
| "error_description NoApplicationProtocol = NoApplicationProtocolAlert"
| "error_description BadCertificate = BadCertificateAlert"
| "error_description (BadCertificateParse _) = BadCertificateAlert"
| "error_description (BadCertificateChain e) =
     (if e = Expired \<or> e = NotYetValid then CertificateExpired
      else if e = NoTrustAnchor then UnknownCa else BadCertificateAlert)"
| "error_description NoTrustAnchorForIssuer = UnknownCa"
| "error_description ClientCertRequired = CertificateRequired"
| "error_description AccessDenied = AccessDeniedAlert"
| "error_description BadCertificateVerify = DecryptError"
| "error_description BadPskBinder = DecryptError"
| "error_description BadFinished = DecryptError"
| "error_description KxErr = IllegalParameterAlert"
| "error_description SigErr = InternalError"
| "error_description SpkiErr = InternalError"
| "error_description RngErr = InternalError"
| "error_description (WorkspaceExhausted _) = InternalError"
| "error_description EncodeErr = InternalError"
| "error_description BadConfig = InternalError"
| "error_description NotReady = InternalError"
| "error_description ConnectionFailed = InternalError"

definition error_alert :: "conn_error \<Rightarrow> alert" where
  "error_alert e = alert_fatal (error_description e)"

definition error_of_decode :: "decode_error \<Rightarrow> conn_error" where
  "error_of_decode _ = DecodeErr"

definition error_of_encode :: "encode_error \<Rightarrow> conn_error" where
  "error_of_encode e =
     (case e of Capacity \<Rightarrow> WorkspaceExhausted OutboundFlightRegion | Overflow \<Rightarrow> EncodeErr)"

definition error_of_hkdf :: "hkdf_error \<Rightarrow> conn_error" where
  "error_of_hkdf _ = EncodeErr"

definition error_of_transcript :: "transcript_error \<Rightarrow> conn_error" where
  "error_of_transcript _ = ConnectionFailed"

datatype 'e drive_error = Protocol conn_error | Sink 'e

subsection \<open>Events\<close>

datatype 't event =
    EvSend epoch bytes
  | EvKeysReady epoch secret secret
  | EvPeerExtension u16 bytes
  | EvKeyUpdate key_direction secret
  | EvNewSessionTicket 't
  | EvZeroRttKeysReady secret u32 "bytes option"
  | EvEarlyDataAccepted
  | EvEarlyDataRejected
  | EvDone

record event_context =
  ec_cipher_suite :: "cipher_suite option"
  ec_key_update_response_requested :: bool

record ('k, 'e, 't) sink =
  sk_begin_send :: "epoch \<Rightarrow> nat \<Rightarrow> event_context \<Rightarrow> 'k \<Rightarrow> ('e + outbound_flight option) \<times> 'k"
  sk_end_send :: "outbound_flight \<Rightarrow> 'k \<Rightarrow> 'k"
  sk_event :: "'t event \<Rightarrow> event_context \<Rightarrow> 'k \<Rightarrow> ('e + unit) \<times> 'k"

definition event_context_new :: "cipher_suite option \<Rightarrow> event_context" where
  "event_context_new suite =
     \<lparr>ec_cipher_suite = suite, ec_key_update_response_requested = False\<rparr>"

definition emit_event ::
    "('k, 'e, 't) sink \<Rightarrow> cipher_suite option \<Rightarrow> 't event \<Rightarrow> 'k \<Rightarrow> ('e drive_error + unit) \<times> 'k" where
  "emit_event K suite ev k =
     (case sk_event K ev (event_context_new suite) k of (r, k') \<Rightarrow> (map_err Sink r, k'))"

definition begin_send ::
    "('k, 'e, 't) sink \<Rightarrow> cipher_suite option \<Rightarrow> epoch \<Rightarrow> nat \<Rightarrow> 'k \<Rightarrow>
     ('e drive_error + outbound_flight option) \<times> 'k" where
  "begin_send K suite ep m k =
     (case sk_begin_send K ep m (event_context_new suite) k of (r, k') \<Rightarrow> (map_err Sink r, k'))"

definition emit_key_update ::
    "('k, 'e, 't) sink \<Rightarrow> cipher_suite option \<Rightarrow> 't event \<Rightarrow> bool \<Rightarrow> 'k \<Rightarrow> ('e drive_error + unit) \<times> 'k" where
  "emit_key_update K suite ev response_requested k =
     (case sk_event K ev \<lparr>ec_cipher_suite = suite,
        ec_key_update_response_requested = response_requested\<rparr> k of (r, k') \<Rightarrow> (map_err Sink r, k'))"

text \<open>\<open>RequiredFlightSink\<close>: every send is lent storage, whatever maximum was asked for.\<close>

definition required_flight_sink ::
    "(epoch \<Rightarrow> event_context \<Rightarrow> 'k \<Rightarrow> ('e + outbound_flight) \<times> 'k) \<Rightarrow> ('k, 'e, 't) sink \<Rightarrow> ('k, 'e, 't) sink" where
  "required_flight_sink lend_send K =
     K\<lparr>sk_begin_send := (\<lambda>ep m ctx k.
        case lend_send ep ctx k of (Inl e, k') \<Rightarrow> (Inl e, k') | (Inr f, k') \<Rightarrow> (Inr (Some f), k'))\<rparr>"

text \<open>A sink that records its events and never fails, for evaluation.\<close>

definition log_sink :: "(('t event \<times> event_context) list, 'e, 't) sink" where
  "log_sink =
     \<lparr>sk_begin_send = (\<lambda>ep m ctx k. (Inr None, k)), sk_end_send = (\<lambda>f k. k),
      sk_event = (\<lambda>ev ctx k. (Inr (), k @ [(ev, ctx)]))\<rparr>"

lemma error_alert_fatal: "al_level (error_alert e) = Fatal \<and> is_fatal (al_description (error_alert e))"
  by (cases e) (simp_all add: error_alert_def alert_fatal_def is_fatal_def)

end
