(* ===== verification/Signatures.thy ===== *)
theory Signatures
  imports Certificate Protocols Connection
begin

section \<open>Signing keys, peer keys and raw public keys\<close>

text \<open>
  \<open>crypto/sig.rs\<close>, \<open>identity/leafkey.rs\<close> and \<open>identity/spki.rs\<close>.  The key pairs and signing
  functions of \<open>ring\<close> are the record \<open>sign_ops\<close> over the state \<open>'k\<close> of the outside world, from
  which ECDSA and RSA-PSS draw randomness; verification is the parameter \<open>ring_verify\<close> shared
  with certificates.  A signing key pairs ring's private key with the public key copied from it.
\<close>

definition PUBKEY_LEN :: nat where "PUBKEY_LEN = 32"
definition ED25519_SIGNATURE_LEN :: nat where "ED25519_SIGNATURE_LEN = 64"
definition ECDSA_P256_PUBKEY_LEN :: nat where "ECDSA_P256_PUBKEY_LEN = 65"
definition ECDSA_P384_PUBKEY_LEN :: nat where "ECDSA_P384_PUBKEY_LEN = 97"
definition MAX_SIGNATURE_LEN :: nat where "MAX_SIGNATURE_LEN = 1024"

datatype sig_error = InvalidSeed | InvalidKey | SigVerifyFailed

datatype signing_key =
    SkEd25519 bytes bytes | SkEcdsaP256 bytes bytes | SkEcdsaP384 bytes bytes | SkRsa bytes bytes

record 'k sign_ops =
  sg_ed25519_from_seed :: "bytes \<Rightarrow> (bytes \<times> bytes) option"
  sg_ecdsa_from_pkcs8 :: "named_curve \<Rightarrow> bytes \<Rightarrow> 'k \<Rightarrow> (bytes \<times> bytes) option \<times> 'k"
  sg_rsa_from_pkcs8 :: "bytes \<Rightarrow> (bytes \<times> bytes) option"
  sg_ed25519_sign :: "bytes \<Rightarrow> bytes \<Rightarrow> bytes"
  sg_ecdsa_sign :: "named_curve \<Rightarrow> bytes \<Rightarrow> bytes \<Rightarrow> 'k \<Rightarrow> bytes option \<times> 'k"
  sg_rsa_sign :: "bytes \<Rightarrow> bytes \<Rightarrow> bytes \<Rightarrow> 'k \<Rightarrow> bytes option \<times> 'k"
  sg_modulus_len :: "bytes \<Rightarrow> nat"

subsection \<open>Signing keys\<close>

definition from_seed :: "'k sign_ops \<Rightarrow> bytes \<Rightarrow> sig_error + signing_key" where
  "from_seed G seed =
     and_then (ok_or InvalidSeed (sg_ed25519_from_seed G seed)) (\<lambda>(inner, pubkey). Inr (SkEd25519 inner pubkey))"

definition from_ecdsa_p256_pkcs8 :: "'k sign_ops \<Rightarrow> bytes \<Rightarrow> 'k \<Rightarrow> (sig_error + signing_key) \<times> 'k" where
  "from_ecdsa_p256_pkcs8 G pkcs8 k =
     (case sg_ecdsa_from_pkcs8 G P256 pkcs8 k of
        (r, k) \<Rightarrow> (and_then (ok_or InvalidKey r) (\<lambda>(inner, pubkey). Inr (SkEcdsaP256 inner pubkey)), k))"

definition from_ecdsa_p384_pkcs8 :: "'k sign_ops \<Rightarrow> bytes \<Rightarrow> 'k \<Rightarrow> (sig_error + signing_key) \<times> 'k" where
  "from_ecdsa_p384_pkcs8 G pkcs8 k =
     (case sg_ecdsa_from_pkcs8 G P384 pkcs8 k of
        (r, k) \<Rightarrow> (and_then (ok_or InvalidKey r) (\<lambda>(inner, pubkey). Inr (SkEcdsaP384 inner pubkey)), k))"

definition from_rsa_pkcs8 :: "'k sign_ops \<Rightarrow> bytes \<Rightarrow> sig_error + signing_key" where
  "from_rsa_pkcs8 G pkcs8 =
     and_then (ok_or InvalidKey (sg_rsa_from_pkcs8 G pkcs8)) (\<lambda>(inner, public_key_der). Inr (SkRsa inner public_key_der))"

fun pubkey :: "signing_key \<Rightarrow> bytes option" where
  "pubkey (SkEd25519 _ p) = Some p" | "pubkey _ = None"

fun ecdsa_p256_pubkey :: "signing_key \<Rightarrow> bytes option" where
  "ecdsa_p256_pubkey (SkEcdsaP256 _ p) = Some p" | "ecdsa_p256_pubkey _ = None"

fun ecdsa_p384_pubkey :: "signing_key \<Rightarrow> bytes option" where
  "ecdsa_p384_pubkey (SkEcdsaP384 _ p) = Some p" | "ecdsa_p384_pubkey _ = None"

fun rsa_public_key_der :: "signing_key \<Rightarrow> bytes option" where
  "rsa_public_key_der (SkRsa _ p) = Some p" | "rsa_public_key_der _ = None"

fun zero_signature :: "u8 copy_inline \<Rightarrow> nat \<Rightarrow> bytes \<Rightarrow> bytes option" where
  "zero_signature ci 0 out = Some out"
| "zero_signature ci (Suc n) out =
     (case ci_push ci MAX_SIGNATURE_LEN 0 out of None \<Rightarrow> None | Some out \<Rightarrow> zero_signature ci n out)"

fun sign_fixed :: "u8 copy_inline \<Rightarrow> 'k sign_ops \<Rightarrow> signing_key \<Rightarrow> bytes \<Rightarrow> 'k \<Rightarrow> (sig_error + bytes) \<times> 'k" where
  "sign_fixed ci G (SkEd25519 inner _) msg k =
     (ok_or InvalidKey (ci_extend ci MAX_SIGNATURE_LEN (sg_ed25519_sign G inner msg) []), k)"
| "sign_fixed ci G (SkEcdsaP256 inner _) msg k =
     (case sg_ecdsa_sign G P256 inner msg k of
        (r, k) \<Rightarrow> (and_then (ok_or InvalidKey r) (\<lambda>s. ok_or InvalidKey (ci_extend ci MAX_SIGNATURE_LEN s [])), k))"
| "sign_fixed ci G (SkEcdsaP384 inner _) msg k =
     (case sg_ecdsa_sign G P384 inner msg k of
        (r, k) \<Rightarrow> (and_then (ok_or InvalidKey r) (\<lambda>s. ok_or InvalidKey (ci_extend ci MAX_SIGNATURE_LEN s [])), k))"
| "sign_fixed ci G (SkRsa inner _) msg k =
     (if sg_modulus_len G inner > MAX_SIGNATURE_LEN then (Inl InvalidKey, k)
      else case zero_signature ci (sg_modulus_len G inner) [] of
        None \<Rightarrow> (Inl InvalidKey, k)
      | Some sig \<Rightarrow> (case sg_rsa_sign G inner msg sig k of (r, k) \<Rightarrow> (ok_or InvalidKey r, k)))"

definition sign :: "u8 copy_inline \<Rightarrow> 'k sign_ops \<Rightarrow> signing_key \<Rightarrow> bytes \<Rightarrow> 'k \<Rightarrow> (sig_error + bytes) \<times> 'k" where
  "sign ci G key msg k = sign_fixed ci G key msg k"

fun sig_scheme :: "signing_key \<Rightarrow> signature_scheme" where
  "sig_scheme (SkEd25519 _ _) = ED25519"
| "sig_scheme (SkEcdsaP256 _ _) = ECDSA_SECP256R1_SHA256"
| "sig_scheme (SkEcdsaP384 _ _) = ECDSA_SECP384R1_SHA384"
| "sig_scheme (SkRsa _ _) = RSA_PSS_RSAE_SHA256"

fun signature_len_upper_bound :: "'k sign_ops \<Rightarrow> signing_key \<Rightarrow> nat" where
  "signature_len_upper_bound G (SkEd25519 _ _) = ED25519_SIGNATURE_LEN"
| "signature_len_upper_bound G (SkEcdsaP256 _ _) = 72"
| "signature_len_upper_bound G (SkEcdsaP384 _ _) = 104"
| "signature_len_upper_bound G (SkRsa inner _) = sg_modulus_len G inner"

fun is_ed25519 :: "signing_key \<Rightarrow> bool" where
  "is_ed25519 (SkEd25519 _ _) = True" | "is_ed25519 _ = False"

fun matches_spki :: "signing_key \<Rightarrow> subject_public_key_info \<Rightarrow> bool" where
  "matches_spki (SkEd25519 _ p) spki \<longleftrightarrow> spki_algorithm spki = PkEd25519 \<and> spki_key spki = p"
| "matches_spki (SkEcdsaP256 _ p) spki \<longleftrightarrow> spki_algorithm spki = PkEc P256 \<and> spki_key spki = p"
| "matches_spki (SkEcdsaP384 _ p) spki \<longleftrightarrow> spki_algorithm spki = PkEc P384 \<and> spki_key spki = p"
| "matches_spki (SkRsa _ p) spki \<longleftrightarrow> spki_algorithm spki = PkRsa \<and> spki_key spki = p"

definition matches_x509_chain :: "unicode \<Rightarrow> crypto \<Rightarrow> signing_key \<Rightarrow> bytes list \<Rightarrow> bool" where
  "matches_x509_chain U C key chain_der =
     (case chain_der of
        [] \<Rightarrow> False
      | leaf_der # rest \<Rightarrow>
          (case cert_parse U C leaf_der of
             Inl _ \<Rightarrow> False
           | Inr leaf \<Rightarrow>
               matches_spki key (tbs_spki (ct_tbs leaf)) \<and>
               list_all (\<lambda>certificate. case cert_parse U C certificate of Inr _ \<Rightarrow> True | Inl _ \<Rightarrow> False) rest))"

datatype verifying_key =
    VkEd25519 bytes | VkEcdsaP256 bytes | VkEcdsaP384 bytes | VkRsaPssSha256 bytes | VkRsaPssSha384 bytes
  | VkRsaPssSha512 bytes

fun verifying_key_verify :: "ring_verify \<Rightarrow> verifying_key \<Rightarrow> bytes \<Rightarrow> bytes \<Rightarrow> sig_error + unit" where
  "verifying_key_verify RV (VkEd25519 pk) msg sig = (if RV VpEd25519 pk msg sig then Inr () else Inl SigVerifyFailed)"
| "verifying_key_verify RV (VkEcdsaP256 pk) msg sig = (if RV VpEcdsaP256Sha256 pk msg sig then Inr () else Inl SigVerifyFailed)"
| "verifying_key_verify RV (VkEcdsaP384 pk) msg sig = (if RV VpEcdsaP384Sha384 pk msg sig then Inr () else Inl SigVerifyFailed)"
| "verifying_key_verify RV (VkRsaPssSha256 pk) msg sig = (if RV VpRsaPssSha256 pk msg sig then Inr () else Inl SigVerifyFailed)"
| "verifying_key_verify RV (VkRsaPssSha384 pk) msg sig = (if RV VpRsaPssSha384 pk msg sig then Inr () else Inl SigVerifyFailed)"
| "verifying_key_verify RV (VkRsaPssSha512 pk) msg sig = (if RV VpRsaPssSha512 pk msg sig then Inr () else Inl SigVerifyFailed)"

subsection \<open>The peer's leaf key\<close>

datatype leaf_key = LkEd25519 bytes | LkEcdsaP256 bytes | LkEcdsaP384 bytes | LkRsa bytes

datatype leaf_key_kind = KindEd25519 | KindEcdsaP256 | KindEcdsaP384 | KindRsa

definition MAX_PEER_KEY_LEN :: nat where "MAX_PEER_KEY_LEN = 2048"

definition leaf_key_from_raw :: "leaf_key_kind \<Rightarrow> bytes \<Rightarrow> conn_error + leaf_key" where
  "leaf_key_from_raw kind raw =
     (if raw = [] \<or> length raw > MAX_PEER_KEY_LEN then Inl UnsupportedSigScheme
      else case kind of
        KindEd25519 \<Rightarrow> if length raw = PUBKEY_LEN then Inr (LkEd25519 raw) else Inl UnsupportedSigScheme
      | KindEcdsaP256 \<Rightarrow>
          if length raw = ECDSA_P256_PUBKEY_LEN \<and> hd raw = 0x04 then Inr (LkEcdsaP256 raw) else Inl UnsupportedSigScheme
      | KindEcdsaP384 \<Rightarrow>
          if length raw = ECDSA_P384_PUBKEY_LEN \<and> hd raw = 0x04 then Inr (LkEcdsaP384 raw) else Inl UnsupportedSigScheme
      | KindRsa \<Rightarrow> Inr (LkRsa raw))"

fun leaf_key_kind_of :: "leaf_key \<Rightarrow> leaf_key_kind" where
  "leaf_key_kind_of (LkEd25519 _) = KindEd25519"
| "leaf_key_kind_of (LkEcdsaP256 _) = KindEcdsaP256"
| "leaf_key_kind_of (LkEcdsaP384 _) = KindEcdsaP384"
| "leaf_key_kind_of (LkRsa _) = KindRsa"

fun leaf_key_raw :: "leaf_key \<Rightarrow> bytes" where
  "leaf_key_raw (LkEd25519 raw) = raw"
| "leaf_key_raw (LkEcdsaP256 raw) = raw"
| "leaf_key_raw (LkEcdsaP384 raw) = raw"
| "leaf_key_raw (LkRsa raw) = raw"

definition leaf_verifying_key :: "leaf_key \<Rightarrow> signature_scheme \<Rightarrow> verifying_key option" where
  "leaf_verifying_key leaf scheme =
     (case leaf of
        LkEd25519 key \<Rightarrow> if scheme = ED25519 then Some (VkEd25519 key) else None
      | LkEcdsaP256 key \<Rightarrow> if scheme = ECDSA_SECP256R1_SHA256 then Some (VkEcdsaP256 key) else None
      | LkEcdsaP384 key \<Rightarrow> if scheme = ECDSA_SECP384R1_SHA384 then Some (VkEcdsaP384 key) else None
      | LkRsa key \<Rightarrow>
          if scheme = RSA_PSS_RSAE_SHA256 then Some (VkRsaPssSha256 key)
          else if scheme = RSA_PSS_RSAE_SHA384 then Some (VkRsaPssSha384 key)
          else if scheme = RSA_PSS_RSAE_SHA512 then Some (VkRsaPssSha512 key) else None)"

definition leaf_key_verify ::
    "ring_verify \<Rightarrow> leaf_key \<Rightarrow> signature_scheme \<Rightarrow> bytes \<Rightarrow> bytes \<Rightarrow> conn_error + unit" where
  "leaf_key_verify RV leaf scheme msg signature =
     (case leaf_verifying_key leaf scheme of
        None \<Rightarrow> Inl UnsupportedSigScheme
      | Some key \<Rightarrow> map_err (\<lambda>_. BadCertificateVerify) (verifying_key_verify RV key msg signature))"

definition leaf_key_from_x509_spki :: "subject_public_key_info \<Rightarrow> conn_error + leaf_key" where
  "leaf_key_from_x509_spki spki =
     (case spki_algorithm spki of
        PkEd25519 \<Rightarrow> leaf_key_from_raw KindEd25519 (spki_key spki)
      | PkEc P256 \<Rightarrow> leaf_key_from_raw KindEcdsaP256 (spki_key spki)
      | PkEc P384 \<Rightarrow> leaf_key_from_raw KindEcdsaP384 (spki_key spki)
      | PkRsa \<Rightarrow> leaf_key_from_raw KindRsa (spki_key spki)
      | _ \<Rightarrow> Inl UnsupportedSigScheme)"

definition leaf_key_from_spki :: "bytes \<Rightarrow> conn_error + leaf_key" where
  "leaf_key_from_spki spki_der =
     and_then (map_err (\<lambda>_. SpkiErr) (spki_parse_standalone spki_der)) (\<lambda>spki.
     case spki_algorithm spki of
       PkEd25519 \<Rightarrow> leaf_key_from_x509_spki spki
     | PkEc _ \<Rightarrow> leaf_key_from_x509_spki spki
     | _ \<Rightarrow> Inl SpkiErr)"

definition leaf_key_parse_x509 :: "unicode \<Rightarrow> crypto \<Rightarrow> bytes \<Rightarrow> conn_error + leaf_key \<times> bytes" where
  "leaf_key_parse_x509 U C leaf_der =
     and_then (map_err BadCertificateParse (cert_parse U C leaf_der)) (\<lambda>c.
     let spki = tbs_spki (ct_tbs c) in
     and_then (leaf_key_from_x509_spki spki) (\<lambda>leaf. Inr (leaf, spki_raw_der spki)))"

subsection \<open>Raw public keys\<close>

definition ED25519_PREFIX :: bytes where
  "ED25519_PREFIX = [0x30, 0x2a, 0x30, 0x05, 0x06, 0x03, 0x2b, 0x65, 0x70, 0x03, 0x21, 0x00]"

definition P256_PREFIX :: bytes where
  "P256_PREFIX =
     [0x30, 0x59, 0x30, 0x13, 0x06, 0x07, 0x2a, 0x86, 0x48, 0xce, 0x3d, 0x02, 0x01, 0x06, 0x08, 0x2a,
      0x86, 0x48, 0xce, 0x3d, 0x03, 0x01, 0x07, 0x03, 0x42, 0x00, 0x04]"

definition P384_PREFIX :: bytes where
  "P384_PREFIX =
     [0x30, 0x76, 0x30, 0x10, 0x06, 0x07, 0x2a, 0x86, 0x48, 0xce, 0x3d, 0x02, 0x01, 0x06, 0x05, 0x2b,
      0x81, 0x04, 0x00, 0x22, 0x03, 0x62, 0x00, 0x04]"

definition ED25519_LEN :: nat where "ED25519_LEN = 44"
definition P256_LEN :: nat where "P256_LEN = 91"
definition P256_PUBKEY_UNCOMPRESSED_LEN :: nat where "P256_PUBKEY_UNCOMPRESSED_LEN = 65"
definition P384_LEN :: nat where "P384_LEN = 120"
definition P384_PUBKEY_UNCOMPRESSED_LEN :: nat where "P384_PUBKEY_UNCOMPRESSED_LEN = 97"

datatype spki_error = BadPrefix | BadLength

datatype subject_public_key = SpkEd25519 bytes | SpkEcdsaP256 bytes | SpkEcdsaP384 bytes

definition encoded_ed25519 :: "bytes \<Rightarrow> bytes" where
  "encoded_ed25519 public_key = ED25519_PREFIX @ public_key"

fun subject_public_key_encode :: "subject_public_key \<Rightarrow> spki_error + bytes" where
  "subject_public_key_encode (SpkEd25519 pk) = Inr (encoded_ed25519 pk)"
| "subject_public_key_encode (SpkEcdsaP256 uncompressed) =
     (if length uncompressed \<noteq> P256_PUBKEY_UNCOMPRESSED_LEN \<or> hd uncompressed \<noteq> 0x04 then Inl BadLength
      else Inr (P256_PREFIX @ tl uncompressed))"
| "subject_public_key_encode (SpkEcdsaP384 uncompressed) =
     (if length uncompressed \<noteq> P384_PUBKEY_UNCOMPRESSED_LEN \<or> hd uncompressed \<noteq> 0x04 then Inl BadLength
      else Inr (P384_PREFIX @ tl uncompressed))"

definition starts_with :: "bytes \<Rightarrow> bytes \<Rightarrow> bool" where
  "starts_with prefix bs \<longleftrightarrow> take (length prefix) bs = prefix"

definition subject_public_key_decode :: "bytes \<Rightarrow> spki_error + subject_public_key" where
  "subject_public_key_decode spki =
     (if length spki = ED25519_LEN then
        (if \<not> starts_with ED25519_PREFIX spki then Inl BadPrefix
         else Inr (SpkEd25519 (drop (length ED25519_PREFIX) spki)))
      else if length spki = P256_LEN then
        (if \<not> starts_with P256_PREFIX spki then Inl BadPrefix
         else Inr (SpkEcdsaP256 (0x04 # drop (length P256_PREFIX) spki)))
      else if length spki = P384_LEN then
        (if \<not> starts_with P384_PREFIX spki then Inl BadPrefix
         else Inr (SpkEcdsaP384 (0x04 # drop (length P384_PREFIX) spki)))
      else Inl BadLength)"

subsection \<open>Keys survive being taken apart\<close>

lemma leaf_key_from_raw_iff:
  "leaf_key_from_raw kind raw = Inr leaf \<longleftrightarrow>
     kind = leaf_key_kind_of leaf \<and> raw = leaf_key_raw leaf \<and> raw \<noteq> [] \<and> length raw \<le> MAX_PEER_KEY_LEN \<and>
     (case leaf of
        LkEd25519 key \<Rightarrow> length key = PUBKEY_LEN
      | LkEcdsaP256 key \<Rightarrow> length key = ECDSA_P256_PUBKEY_LEN \<and> hd key = 0x04
      | LkEcdsaP384 key \<Rightarrow> length key = ECDSA_P384_PUBKEY_LEN \<and> hd key = 0x04
      | LkRsa key \<Rightarrow> True)"
  by (cases leaf; cases kind) (auto simp: leaf_key_from_raw_def split: if_splits)

subsection \<open>Raw public keys are read the same way by both decoders\<close>

lemma read_oid_iff:
  "read_oid r = Inr (oid, r') \<longleftrightarrow>
     oid_from_bytes oid = Inr oid \<and> tlv_ok \<lparr>tlv_tag = TAG_OID, tlv_contents = oid\<rparr> \<and>
     r = der_tlv \<lparr>tlv_tag = TAG_OID, tlv_contents = oid\<rparr> @ r'"
proof -
  have "oid_from_bytes b = Inr oid \<Longrightarrow> b = oid" for b
    by (auto simp: oid_from_bytes_def and_then_eq_Inr split: if_splits)
  then show ?thesis by (auto simp: read_oid_def and_then_eq_Inr read_tagged_iff)
qed

definition der_algorithm :: "bytes \<Rightarrow> bytes \<Rightarrow> bytes" where
  "der_algorithm oid params =
     der_tlv \<lparr>tlv_tag = TAG_SEQUENCE, tlv_contents = der_tlv \<lparr>tlv_tag = TAG_OID, tlv_contents = oid\<rparr> @ params\<rparr>"

definition der_spki :: "bytes \<Rightarrow> bytes \<Rightarrow> bytes \<Rightarrow> bytes" where
  "der_spki oid params key =
     der_tlv \<lparr>tlv_tag = TAG_SEQUENCE,
       tlv_contents = der_algorithm oid params @ der_tlv \<lparr>tlv_tag = TAG_BIT_STRING, tlv_contents = 0 # key\<rparr>\<rparr>"

lemma spki_standalone_shape:
  assumes "spki_parse_standalone s = Inr x"
  obtains oid params where "s = der_spki oid params (spki_key x)"
    "public_key_parse \<lparr>ri_oid = oid, ri_parameters = params\<rparr> = Inr (spki_algorithm x)"
proof -
  obtain inner where i: "read_tagged TAG_SEQUENCE s = Inr (inner, [])" "spki_fields s inner = Inr x"
    using assms by (auto simp: spki_parse_standalone_def and_then_eq_Inr)
  obtain raw sr bits where r: "raw_identifier_parse inner = Inr (raw, sr)" "public_key_parse raw = Inr (spki_algorithm x)"
      "read_bit_string sr = Inr (bits, [])" "bit_string_octets bits = Inr (spki_key x)"
    using i(2) by (auto simp: spki_fields_def and_then_eq_Inr)
  obtain contents where "read_tagged TAG_SEQUENCE inner = Inr (contents, sr)"
      "read_oid contents = Inr (ri_oid raw, ri_parameters raw)"
    using r(1) by (auto simp: raw_identifier_parse_def and_then_eq_Inr)
  then show ?thesis
    using that [of "ri_oid raw" "ri_parameters raw"] i(1) r(2-4) read_bit_octets [of sr "[]" "spki_key x"]
    by (cases raw) (auto simp: read_tagged_iff read_oid_iff der_spki_def der_algorithm_def)
qed

lemma spki_standalone_accepts:
  assumes oid: "oid_from_bytes oid = Inr oid" "length oid < 100" "length params < 100" "length key < 10000"
    and params: "params = [] \<or> parse_one params = Inr (t, [])"
    and alg: "public_key_parse \<lparr>ri_oid = oid, ri_parameters = params\<rparr> = Inr alg"
  shows "spki_parse_standalone (der_spki oid params key) =
    Inr \<lparr>spki_algorithm = alg, spki_key = key, spki_raw_der = der_spki oid params key\<rparr>"
proof -
  have dl: "length (der_length n) \<le> n + 1" for n
    using length_nat_bytes [of n n] less_le_trans [OF less_exp power_mono [of 2 256 n]] by (auto simp: der_length_def)
  have small: "tlv_ok \<lparr>tlv_tag = t, tlv_contents = c\<rparr>" if "t \<in> {TAG_SEQUENCE, TAG_OID, TAG_BIT_STRING}" "length c < 2 ^ 64" for t c
    using that by (auto simp: tlv_ok_def tag_defs)
  have lens: "length (der_tlv \<lparr>tlv_tag = t, tlv_contents = c\<rparr>) \<le> 2 * length c + 2" for t c
    using dl [of "length c"] by (simp add: der_tlv_def)
  let ?oid = "der_tlv \<lparr>tlv_tag = TAG_OID, tlv_contents = oid\<rparr>"
  let ?bits = "der_tlv \<lparr>tlv_tag = TAG_BIT_STRING, tlv_contents = 0 # key\<rparr>"
  have l1: "length (?oid @ params) < 400" using lens [of TAG_OID oid] oid by simp
  have l2: "length (der_algorithm oid params @ ?bits) < 2 ^ 64"
    using lens [of TAG_SEQUENCE "?oid @ params"] lens [of TAG_BIT_STRING "0 # key"] l1 oid by (simp add: der_algorithm_def)
  have "read_tagged TAG_SEQUENCE (der_spki oid params key) = Inr (der_algorithm oid params @ ?bits, [])"
    using l2 by (simp add: read_tagged_iff der_spki_def small)
  moreover have "raw_identifier_parse (der_algorithm oid params @ ?bits) = Inr (\<lparr>ri_oid = oid, ri_parameters = params\<rparr>, ?bits)"
  proof -
    have "read_tagged TAG_SEQUENCE (der_algorithm oid params @ ?bits) = Inr (?oid @ params, ?bits)"
      using l1 by (simp add: read_tagged_iff der_algorithm_def small)
    moreover have "read_oid (?oid @ params) = Inr (oid, params)" using oid by (simp add: read_oid_iff small)
    ultimately show ?thesis using params by (auto simp: raw_identifier_parse_def cert_der_def)
  qed
  moreover obtain bits where "read_bit_string ?bits = Inr (bits, [])" "bit_string_octets bits = Inr key"
    using read_bit_octets [of ?bits "[]" key] oid(4) small [of TAG_BIT_STRING "0 # key"] by auto
  ultimately show ?thesis
    using alg by (simp add: spki_parse_standalone_def spki_fields_def cert_der_def der_finish_def)
qed

lemmas oid_values = OID_ED25519_def OID_EC_PUBLIC_KEY_def OID_P256_CURVE_def OID_P384_CURVE_def OID_RSA_ENCRYPTION_def
  OID_RSA_PSS_def

abbreviation der_oid :: "bytes \<Rightarrow> bytes" where
  "der_oid oid \<equiv> der_tlv \<lparr>tlv_tag = TAG_OID, tlv_contents = oid\<rparr>"

lemma der_spki_bytes:
  "length key = 32 \<Longrightarrow> der_spki OID_ED25519 [] key = ED25519_PREFIX @ key"
  "length key = 65 \<Longrightarrow> hd key = 4 \<Longrightarrow> der_spki OID_EC_PUBLIC_KEY (der_oid OID_P256_CURVE) key = P256_PREFIX @ tl key"
  "length key = 97 \<Longrightarrow> hd key = 4 \<Longrightarrow> der_spki OID_EC_PUBLIC_KEY (der_oid OID_P384_CURVE) key = P384_PREFIX @ tl key"
  by (cases key; simp add: der_spki_def der_algorithm_def der_tlv_def der_length_def oid_values tag_defs
      ED25519_PREFIX_def P256_PREFIX_def P384_PREFIX_def)+

lemma public_key_parse_raw:
  "public_key_parse raw = Inr PkEd25519 \<longleftrightarrow> raw = \<lparr>ri_oid = OID_ED25519, ri_parameters = []\<rparr>"
  "public_key_parse raw = Inr (PkEc P256) \<longleftrightarrow> raw = \<lparr>ri_oid = OID_EC_PUBLIC_KEY, ri_parameters = der_oid OID_P256_CURVE\<rparr>"
  "public_key_parse raw = Inr (PkEc P384) \<longleftrightarrow> raw = \<lparr>ri_oid = OID_EC_PUBLIC_KEY, ri_parameters = der_oid OID_P384_CURVE\<rparr>"
proof -
  have ne: "der_oid oid \<noteq> []" for oid by (simp add: der_tlv_def)
  have ok: "oid_from_bytes OID_P256_CURVE = Inr OID_P256_CURVE" "oid_from_bytes OID_P384_CURVE = Inr OID_P384_CURVE"
    "tlv_ok \<lparr>tlv_tag = TAG_OID, tlv_contents = OID_P256_CURVE\<rparr>" "tlv_ok \<lparr>tlv_tag = TAG_OID, tlv_contents = OID_P384_CURVE\<rparr>"
    by (simp_all add: oid_from_bytes_def oid_values tlv_ok_def tag_defs)
  have d: "OID_P256_CURVE \<noteq> OID_P384_CURVE" "OID_EC_PUBLIC_KEY \<noteq> OID_RSA_ENCRYPTION" "OID_EC_PUBLIC_KEY \<noteq> OID_RSA_PSS"
      "OID_ED25519 \<noteq> OID_RSA_ENCRYPTION" "OID_ED25519 \<noteq> OID_RSA_PSS" "OID_ED25519 \<noteq> OID_EC_PUBLIC_KEY"
    by (simp_all add: oid_values)
  show "public_key_parse raw = Inr PkEd25519 \<longleftrightarrow> raw = \<lparr>ri_oid = OID_ED25519, ri_parameters = []\<rparr>"
    using d by (cases raw) (auto simp: public_key_parse_def Let_def and_then_eq_Inr require_absent_def split: if_splits)
  define curve where "curve oid = (if oid = OID_P256_CURVE then P256 else if oid = OID_P384_CURVE then P384 else CurveUnsupported)" for oid
  have ec: "public_key_parse raw = Inr (PkEc c) \<longleftrightarrow> ri_oid raw = OID_EC_PUBLIC_KEY \<and>
      (\<exists>oid. ri_parameters raw = der_oid oid \<and> read_oid (der_oid oid) = Inr (oid, []) \<and> c = curve oid)" for c
  proof (cases "ri_oid raw = OID_EC_PUBLIC_KEY")
    case True
    have sh: "read_oid (ri_parameters raw) = Inr (oid, []) \<longleftrightarrow>
        ri_parameters raw = der_oid oid \<and> read_oid (der_oid oid) = Inr (oid, [])" for oid
      by (auto simp: read_oid_iff)
    have "public_key_parse raw =
        (if ri_parameters raw = [] then Inl CertBadAlgorithm
         else and_then (cert_der (read_oid (ri_parameters raw))) (\<lambda>(oid, reader).
           and_then (cert_der (der_finish reader)) (\<lambda>_. Inr (PkEc (curve oid)))))"
      using True d(2,3) by (simp add: public_key_parse_def Let_def curve_def cong: if_cong)
    then have "public_key_parse raw = Inr (PkEc c) \<longleftrightarrow>
        ri_parameters raw \<noteq> [] \<and> (\<exists>oid. read_oid (ri_parameters raw) = Inr (oid, []) \<and> c = curve oid)"
      by (auto simp: and_then_eq_Inr)
    then show ?thesis unfolding sh using True ne by auto
  qed (auto simp: public_key_parse_def Let_def and_then_eq_Inr split: if_splits)
  have "read_oid (der_oid OID_P256_CURVE) = Inr (OID_P256_CURVE, [])" "read_oid (der_oid OID_P384_CURVE) = Inr (OID_P384_CURVE, [])"
    using ok by (simp_all add: read_oid_iff)
  then show "public_key_parse raw = Inr (PkEc P256) \<longleftrightarrow> raw = \<lparr>ri_oid = OID_EC_PUBLIC_KEY, ri_parameters = der_oid OID_P256_CURVE\<rparr>"
    "public_key_parse raw = Inr (PkEc P384) \<longleftrightarrow> raw = \<lparr>ri_oid = OID_EC_PUBLIC_KEY, ri_parameters = der_oid OID_P384_CURVE\<rparr>"
    unfolding ec using d(1) by (cases raw; auto simp: curve_def split: if_splits)+
qed

text \<open>The two parameter forms that occur are absent or one element.\<close>

lemma der_oid_one: "oid \<in> {OID_P256_CURVE, OID_P384_CURVE} \<Longrightarrow> parse_one (der_oid oid) = Inr (\<lparr>tlv_tag = TAG_OID, tlv_contents = oid\<rparr>, [])"
  by (auto simp: parse_one_iff tlv_ok_def tag_defs oid_values)

fun leaf_of :: "subject_public_key \<Rightarrow> leaf_key" where
  "leaf_of (SpkEd25519 pk) = LkEd25519 pk"
| "leaf_of (SpkEcdsaP256 pk) = LkEcdsaP256 pk"
| "leaf_of (SpkEcdsaP384 pk) = LkEcdsaP384 pk"

fun spki_of :: "leaf_key \<Rightarrow> bytes option" where
  "spki_of (LkEd25519 pk) = (if length pk = 32 then Some (ED25519_PREFIX @ pk) else None)"
| "spki_of (LkEcdsaP256 pk) = (if length pk = 65 \<and> hd pk = 4 then Some (P256_PREFIX @ tl pk) else None)"
| "spki_of (LkEcdsaP384 pk) = (if length pk = 97 \<and> hd pk = 4 then Some (P384_PREFIX @ tl pk) else None)"
| "spki_of (LkRsa pk) = None"

lemmas key_lens = PUBKEY_LEN_def ECDSA_P256_PUBKEY_LEN_def ECDSA_P384_PUBKEY_LEN_def MAX_PEER_KEY_LEN_def

lemma leaf_key_from_spki_iff: "leaf_key_from_spki s = Inr leaf \<longleftrightarrow> spki_of leaf = Some s"
proof
  assume l: "leaf_key_from_spki s = Inr leaf"
  then obtain x where x: "spki_parse_standalone s = Inr x" "leaf_key_from_x509_spki x = Inr leaf"
      "spki_algorithm x = PkEd25519 \<or> (\<exists>c. spki_algorithm x = PkEc c)"
    by (auto simp: leaf_key_from_spki_def and_then_eq_Inr map_err_def split: sum.splits public_key_alg.splits)
  obtain oid params where s: "s = der_spki oid params (spki_key x)"
      "public_key_parse \<lparr>ri_oid = oid, ri_parameters = params\<rparr> = Inr (spki_algorithm x)"
    by (rule spki_standalone_shape [OF x(1)])
  show "spki_of leaf = Some s"
    using x(2,3) s der_spki_bytes [of "spki_key x"]
    by (auto simp: leaf_key_from_x509_spki_def leaf_key_from_raw_iff key_lens public_key_parse_raw
        split: named_curve.splits public_key_alg.splits leaf_key.splits)
next
  assume s: "spki_of leaf = Some s"
  have oids: "oid_from_bytes OID_ED25519 = Inr OID_ED25519" "oid_from_bytes OID_EC_PUBLIC_KEY = Inr OID_EC_PUBLIC_KEY"
    "length OID_ED25519 < 100" "length OID_EC_PUBLIC_KEY < 100" "length (der_oid OID_P256_CURVE) < 100" "length (der_oid OID_P384_CURVE) < 100"
    by (simp_all add: oid_from_bytes_def oid_values der_tlv_def der_length_def)
  note acc = spki_standalone_accepts [OF oids(1,3), of "[]" "leaf_key_raw leaf" _ PkEd25519]
    spki_standalone_accepts [OF oids(2,4,5), of "leaf_key_raw leaf" "\<lparr>tlv_tag = TAG_OID, tlv_contents = OID_P256_CURVE\<rparr>" "PkEc P256"]
    spki_standalone_accepts [OF oids(2,4,6), of "leaf_key_raw leaf" "\<lparr>tlv_tag = TAG_OID, tlv_contents = OID_P384_CURVE\<rparr>" "PkEc P384"]
  show "leaf_key_from_spki s = Inr leaf"
    using s acc der_spki_bytes [of "leaf_key_raw leaf"]
    by (cases leaf) (auto simp: leaf_key_from_spki_def leaf_key_from_x509_spki_def leaf_key_from_raw_iff key_lens
        public_key_parse_raw der_oid_one map_err_def split: if_splits)
qed

lemma starts_with_iff: "starts_with p bs \<longleftrightarrow> (\<exists>r. bs = p @ r)"
  by (auto simp: starts_with_def) (metis append_take_drop_id)

lemma decode_part:
  "(if \<not> starts_with p s then Inl BadPrefix else Inr (f (drop (length p) s))) = Inr y \<longleftrightarrow> (\<exists>r. s = p @ r \<and> y = f r)"
  by (auto simp: starts_with_iff)

lemma subject_public_key_decode_iff: "subject_public_key_decode s = Inr k \<longleftrightarrow> spki_of (leaf_of k) = Some s"
proof -
  have p: "length ED25519_PREFIX = 12" "length P256_PREFIX = 27" "length P384_PREFIX = 24"
    by (simp_all add: ED25519_PREFIX_def P256_PREFIX_def P384_PREFIX_def)
  have d: "subject_public_key_decode s = Inr k \<longleftrightarrow>
      length s = 44 \<and> (\<exists>r. s = ED25519_PREFIX @ r \<and> k = SpkEd25519 r) \<or>
      length s = 91 \<and> (\<exists>r. s = P256_PREFIX @ r \<and> k = SpkEcdsaP256 (4 # r)) \<or>
      length s = 120 \<and> (\<exists>r. s = P384_PREFIX @ r \<and> k = SpkEcdsaP384 (4 # r))"
    using decode_part [of ED25519_PREFIX s SpkEd25519 k] decode_part [of P256_PREFIX s "\<lambda>r. SpkEcdsaP256 (4 # r)" k]
      decode_part [of P384_PREFIX s "\<lambda>r. SpkEcdsaP384 (4 # r)" k]
    unfolding subject_public_key_decode_def ED25519_LEN_def P256_LEN_def P384_LEN_def
    by (cases "length s = 44"; cases "length s = 91"; cases "length s = 120") simp_all
  show ?thesis
  proof (cases k)
    case (SpkEd25519 pk)
    then show ?thesis unfolding d using p by auto
  next
    case (SpkEcdsaP256 pk)
    then show ?thesis unfolding d using p by (cases pk) auto
  next
    case (SpkEcdsaP384 pk)
    then show ?thesis unfolding d using p by (cases pk) auto
  qed
qed

text \<open>
  A raw public key is accepted by the general DER parser exactly when the fixed-prefix decoder accepts it;
  both read the same key, and encoding that key gives the input back, so a pinned key has one encoding only.
\<close>

theorem raw_public_key_decoders_agree:
  "leaf_key_from_spki s = Inr leaf \<longleftrightarrow>
     (\<exists>k. subject_public_key_decode s = Inr k \<and> leaf = leaf_of k \<and> subject_public_key_encode k = Inr s)"
proof -
  have "spki_of (leaf_of k) = Some s \<Longrightarrow> subject_public_key_encode k = Inr s" for k
    by (cases k) (auto simp: encoded_ed25519_def P256_PUBKEY_UNCOMPRESSED_LEN_def P384_PUBKEY_UNCOMPRESSED_LEN_def split: if_splits)
  moreover have "spki_of leaf = Some s \<Longrightarrow> \<exists>k. leaf = leaf_of k"
    by (cases leaf) (auto split: if_splits intro: exI [of _ "SpkEd25519 _"] exI [of _ "SpkEcdsaP256 _"] exI [of _ "SpkEcdsaP384 _"])
  ultimately show ?thesis by (auto simp: leaf_key_from_spki_iff subject_public_key_decode_iff)
qed

end
