(* ===== verification/Ticket.thy ===== *)
theory Ticket
  imports Aead External Connection
begin

section \<open>Session tickets\<close>

text \<open>
  \<open>crypto/ticket/\<close>: the plaintext format of a ticket with its authenticated context, sealing
  and opening under a ticket key, the two-generation key set and its rotation schedule.  The
  random bytes a call draws from \<open>SecureRandom::fill\<close> are its argument \<open>draw\<close>, \<open>None\<close> when the
  generator fails.  A ticket key is the AEAD key derived from its 32-byte secret.
\<close>

datatype ticket_error = BadFormat | BadAuth | BadKey

definition TICKET_NONCE_LEN :: nat where "TICKET_NONCE_LEN = 12"
definition TICKET_TAG_LEN :: nat where "TICKET_TAG_LEN = 16"
definition PSK_LEN :: nat where "PSK_LEN = 32"
definition AGE_ADD_LEN :: nat where "AGE_ADD_LEN = 4"
definition ISSUED_AT_LEN :: nat where "ISSUED_AT_LEN = 8"
definition SUITE_LEN :: nat where "SUITE_LEN = 2"
definition ALPN_LEN_LEN :: nat where "ALPN_LEN_LEN = 1"
definition MAX_ALPN_LEN :: nat where "MAX_ALPN_LEN = 255"
definition REPLAY_DOMAIN_LEN :: nat where "REPLAY_DOMAIN_LEN = 16"
definition LEGACY_CONTEXT_LEN :: nat where "LEGACY_CONTEXT_LEN = 1 + 1 + 1 + 4 + SHA256_LEN"
definition CONTEXT_LEN :: nat where "CONTEXT_LEN = LEGACY_CONTEXT_LEN + REPLAY_DOMAIN_LEN"
definition FIELDS_BEFORE_CONTEXT_LEN :: nat where
  "FIELDS_BEFORE_CONTEXT_LEN = PSK_LEN + AGE_ADD_LEN + ISSUED_AT_LEN + SUITE_LEN"
definition LEGACY_FIXED_PLAINTEXT_LEN :: nat where
  "LEGACY_FIXED_PLAINTEXT_LEN = FIELDS_BEFORE_CONTEXT_LEN + LEGACY_CONTEXT_LEN + ALPN_LEN_LEN"
definition FIXED_PLAINTEXT_LEN :: nat where
  "FIXED_PLAINTEXT_LEN = FIELDS_BEFORE_CONTEXT_LEN + CONTEXT_LEN + ALPN_LEN_LEN"
definition MAX_PLAINTEXT_LEN :: nat where "MAX_PLAINTEXT_LEN = FIXED_PLAINTEXT_LEN + MAX_ALPN_LEN"
definition MAX_CIPHERTEXT_LEN :: nat where "MAX_CIPHERTEXT_LEN = MAX_PLAINTEXT_LEN + TICKET_TAG_LEN"
definition TICKET_MAX_LEN :: nat where "TICKET_MAX_LEN = TICKET_NONCE_LEN + MAX_CIPHERTEXT_LEN"

lemmas ticket_lens =
  TICKET_NONCE_LEN_def TICKET_TAG_LEN_def PSK_LEN_def AGE_ADD_LEN_def ISSUED_AT_LEN_def SUITE_LEN_def
  ALPN_LEN_LEN_def MAX_ALPN_LEN_def REPLAY_DOMAIN_LEN_def LEGACY_CONTEXT_LEN_def CONTEXT_LEN_def
  FIELDS_BEFORE_CONTEXT_LEN_def LEGACY_FIXED_PLAINTEXT_LEN_def FIXED_PLAINTEXT_LEN_def
  MAX_PLAINTEXT_LEN_def MAX_CIPHERTEXT_LEN_def TICKET_MAX_LEN_def SHA256_LEN_def

definition encrypted_len :: "nat \<Rightarrow> nat option" where
  "encrypted_len alpn_len =
     (if alpn_len > MAX_ALPN_LEN then None
      else Some (TICKET_NONCE_LEN + FIXED_PLAINTEXT_LEN + alpn_len + TICKET_TAG_LEN))"

subsection \<open>Context\<close>

definition LEGACY_FORMAT_VERSION :: u8 where "LEGACY_FORMAT_VERSION = 1"
definition FORMAT_VERSION :: u8 where "FORMAT_VERSION = 2"

record ticket_context =
  tc_transport_mode :: mode
  tc_max_early_data :: "u32 option"
  tc_transport_params_hash :: bytes
  tc_replay_domain :: "bytes option"

fun valid_allowance :: "mode \<Rightarrow> u32 \<Rightarrow> bool" where
  "valid_allowance Tls maximum \<longleftrightarrow> maximum \<noteq> 0 \<and> maximum \<noteq> - 1"
| "valid_allowance Quic maximum \<longleftrightarrow> maximum \<noteq> 0 \<and> maximum = - 1"

definition context_new :: "crypto \<Rightarrow> mode \<Rightarrow> u32 option \<Rightarrow> bytes \<Rightarrow> ticket_context" where
  "context_new C m max_early_data params =
     \<lparr>tc_transport_mode = m, tc_max_early_data = max_early_data,
      tc_transport_params_hash = as_slice (hash C Sha256 params),
      tc_replay_domain = Some (replicate REPLAY_DOMAIN_LEN 0)\<rparr>"

definition context_new_with_replay_domain ::
    "crypto \<Rightarrow> mode \<Rightarrow> u32 option \<Rightarrow> bytes \<Rightarrow> bytes \<Rightarrow> ticket_context" where
  "context_new_with_replay_domain C m max_early_data params domain =
     (context_new C m max_early_data params)\<lparr>tc_replay_domain := Some domain\<rparr>"

definition early_data_for_replay_domain ::
    "crypto \<Rightarrow> mode \<Rightarrow> bytes \<Rightarrow> bytes \<Rightarrow> ticket_context \<Rightarrow> u32 option" where
  "early_data_for_replay_domain C m params domain c =
     (case tc_max_early_data c of
        None \<Rightarrow> None
      | Some maximum \<Rightarrow>
          if tc_replay_domain c \<noteq> Some domain \<or> tc_transport_mode c \<noteq> m \<or> \<not> valid_allowance m maximum
          then None
          else if tc_transport_params_hash c = tc_transport_params_hash (context_new C m None params)
          then Some maximum else None)"

definition early_data_for :: "crypto \<Rightarrow> mode \<Rightarrow> bytes \<Rightarrow> ticket_context \<Rightarrow> u32 option" where
  "early_data_for C m params c =
     early_data_for_replay_domain C m params (replicate REPLAY_DOMAIN_LEN 0) c"

text \<open>Writes into a fixed-capacity vector; running out of capacity is \<open>BadFormat\<close>.\<close>

definition push_byte :: "u8 copy_inline \<Rightarrow> nat \<Rightarrow> u8 \<Rightarrow> bytes \<Rightarrow> ticket_error + bytes" where
  "push_byte ci n b out = ok_or BadFormat (ci_push ci n b out)"

definition push_bytes :: "u8 copy_inline \<Rightarrow> nat \<Rightarrow> bytes \<Rightarrow> bytes \<Rightarrow> ticket_error + bytes" where
  "push_bytes ci n bs out = ok_or BadFormat (ci_extend ci n bs out)"

definition context_encode :: "u8 copy_inline \<Rightarrow> nat \<Rightarrow> ticket_context \<Rightarrow> bytes \<Rightarrow> ticket_error + bytes" where
  "context_encode ci n c out =
     and_then (push_byte ci n FORMAT_VERSION out) (\<lambda>out.
     and_then (push_byte ci n (case tc_transport_mode c of Tls \<Rightarrow> 0 | Quic \<Rightarrow> 1) out) (\<lambda>out.
     and_then (case tc_max_early_data c of
         Some maximum \<Rightarrow>
           if valid_allowance (tc_transport_mode c) maximum then Inr (1, maximum) else Inl BadFormat
       | None \<Rightarrow> Inr (0, 0)) (\<lambda>(present, maximum).
     and_then (push_byte ci n present out) (\<lambda>out.
     and_then (push_bytes ci n (be_bytes 4 (unat maximum)) out) (\<lambda>out.
     and_then (push_bytes ci n (tc_transport_params_hash c) out) (\<lambda>out.
     and_then (ok_or BadFormat (tc_replay_domain c)) (\<lambda>domain.
     push_bytes ci n domain out)))))))"

definition context_decode :: "bytes \<Rightarrow> ticket_error + ticket_context" where
  "context_decode encoded =
     and_then (case encoded of
         [] \<Rightarrow> Inl BadFormat
       | v # _ \<Rightarrow>
           if v = LEGACY_FORMAT_VERSION then Inr (LEGACY_CONTEXT_LEN, False)
           else if v = FORMAT_VERSION then Inr (CONTEXT_LEN, True) else Inl BadFormat)
     (\<lambda>(expected_len, has_domain).
     if length encoded \<noteq> expected_len then Inl BadFormat
     else
     and_then (if encoded ! 1 = 0 then Inr Tls else if encoded ! 1 = 1 then Inr Quic else Inl BadFormat) (\<lambda>m.
     let maximum = word_of_nat (be_nat (take 4 (drop 3 encoded))) in
     and_then (if encoded ! 2 = 0 \<and> maximum = 0 then Inr None
               else if encoded ! 2 = 1 \<and> valid_allowance m maximum then Inr (Some maximum)
               else Inl BadFormat) (\<lambda>max_early_data.
     Inr \<lparr>tc_transport_mode = m, tc_max_early_data = max_early_data,
          tc_transport_params_hash = take (LEGACY_CONTEXT_LEN - 7) (drop 7 encoded),
          tc_replay_domain =
            (if has_domain then Some (take (CONTEXT_LEN - LEGACY_CONTEXT_LEN) (drop LEGACY_CONTEXT_LEN encoded))
             else None)\<rparr>)))"

definition context_encoded_len :: "u8 \<Rightarrow> ticket_error + nat" where
  "context_encoded_len version =
     (if version = LEGACY_FORMAT_VERSION then Inr LEGACY_CONTEXT_LEN
      else if version = FORMAT_VERSION then Inr CONTEXT_LEN else Inl BadFormat)"

subsection \<open>Sealing and opening\<close>

record claims =
  cl_psk :: bytes
  cl_age_add :: u32
  cl_issued_at_ms :: u64
  cl_suite :: cipher_suite
  cl_alpn :: bytes
  cl_context :: ticket_context

definition ticket_secret_new :: "crypto \<Rightarrow> ring_aead \<Rightarrow> bytes \<Rightarrow> ticket_error + ring_key" where
  "ticket_secret_new C A secret =
     and_then (map_err (\<lambda>_. BadKey) (hkdf_expand_label C Sha256 secret ''ticket'' [] (replicate 16 0))) (\<lambda>key_bytes.
     if ra_key_ok A AES_128_GCM key_bytes then Inr (AES_128_GCM, key_bytes) else Inl BadKey)"

definition encrypt_claims ::
    "u8 copy_inline \<Rightarrow> ring_aead \<Rightarrow> bytes option \<Rightarrow> claims \<Rightarrow> ring_key \<Rightarrow> ticket_error + bytes" where
  "encrypt_claims ci A draw cl key =
     (if length (cl_alpn cl) > MAX_ALPN_LEN then Inl BadFormat
      else
      and_then (ok_or BadKey draw) (\<lambda>nonce_bytes.
      let n = MAX_PLAINTEXT_LEN in
      and_then (push_bytes ci n (cl_psk cl) []) (\<lambda>buf.
      and_then (push_bytes ci n (be_bytes 4 (unat (cl_age_add cl))) buf) (\<lambda>buf.
      and_then (push_bytes ci n (be_bytes 8 (unat (cl_issued_at_ms cl))) buf) (\<lambda>buf.
      and_then (push_bytes ci n (be_bytes 2 (unat (cipher_suite_wire_id (cl_suite cl)))) buf) (\<lambda>buf.
      and_then (context_encode ci n (cl_context cl) buf) (\<lambda>buf.
      and_then (push_byte ci n (word_of_nat (length (cl_alpn cl))) buf) (\<lambda>buf.
      and_then (push_bytes ci n (cl_alpn cl) buf) (\<lambda>buf.
      (case ra_seal A key nonce_bytes [] buf of
         (None, buf) \<Rightarrow> Inl BadAuth
       | (Some tag, buf) \<Rightarrow>
           and_then (push_bytes ci TICKET_MAX_LEN nonce_bytes []) (\<lambda>out.
           and_then (push_bytes ci TICKET_MAX_LEN buf out) (\<lambda>out.
           push_bytes ci TICKET_MAX_LEN tag out))))))))))))"

definition ticket_encrypt ::
    "crypto \<Rightarrow> u8 copy_inline \<Rightarrow> ring_aead \<Rightarrow> bytes option \<Rightarrow> bytes \<Rightarrow> u32 \<Rightarrow> u64 \<Rightarrow> cipher_suite \<Rightarrow> bytes \<Rightarrow>
     ring_key \<Rightarrow> ticket_error + bytes" where
  "ticket_encrypt C ci A draw psk age_add issued_at_ms suite alpn key =
     (if length psk \<noteq> SHA256_LEN then Inl BadFormat
      else encrypt_claims ci A draw
        \<lparr>cl_psk = psk, cl_age_add = age_add, cl_issued_at_ms = issued_at_ms, cl_suite = suite,
         cl_alpn = alpn, cl_context = context_new C Tls None []\<rparr> key)"

text \<open>\<open>Opened\<close> and \<open>Decrypted\<close> have the fields of the claims.\<close>

definition parse_plaintext :: "bytes \<Rightarrow> ticket_error + claims" where
  "parse_plaintext plain =
     (let age_add_off = PSK_LEN;
          issued_at_off = age_add_off + AGE_ADD_LEN;
          suite_off = issued_at_off + ISSUED_AT_LEN;
          context_off = suite_off + SUITE_LEN in
      and_then (context_encoded_len (plain ! context_off)) (\<lambda>context_len.
      let alpn_len_off = context_off + context_len;
          fixed_plaintext_len = alpn_len_off + ALPN_LEN_LEN in
      if length plain < fixed_plaintext_len then Inl BadFormat
      else
      let alpn_len = unat (plain ! alpn_len_off) in
      if length plain \<noteq> fixed_plaintext_len + alpn_len then Inl BadFormat
      else
      and_then (context_decode (take context_len (drop context_off plain))) (\<lambda>c.
      let age_add = word_of_nat (be_nat (take AGE_ADD_LEN (drop age_add_off plain)));
          issued_at_ms = word_of_nat (be_nat (take ISSUED_AT_LEN (drop issued_at_off plain))) in
      and_then (ok_or BadFormat (cipher_suite_from_u16
          (word_of_nat (be_nat [plain ! suite_off, plain ! (suite_off + 1)])))) (\<lambda>suite.
      Inr \<lparr>cl_psk = take PSK_LEN plain, cl_age_add = age_add, cl_issued_at_ms = issued_at_ms,
           cl_suite = suite, cl_alpn = drop fixed_plaintext_len plain, cl_context = c\<rparr>))))"

definition decrypt_with ::
    "u8 copy_inline \<Rightarrow> ring_aead \<Rightarrow> bytes \<Rightarrow> (claims \<Rightarrow> 'r) \<Rightarrow> ring_key \<Rightarrow> ticket_error + 'r" where
  "decrypt_with ci A encrypted consume key =
     (if length encrypted < TICKET_NONCE_LEN + LEGACY_FIXED_PLAINTEXT_LEN + TICKET_TAG_LEN then Inl BadFormat
      else if length encrypted > TICKET_MAX_LEN then Inl BadFormat
      else
      and_then (push_bytes ci MAX_CIPHERTEXT_LEN (drop TICKET_NONCE_LEN encrypted) []) (\<lambda>buffer.
      (case ra_open A key (take TICKET_NONCE_LEN encrypted) [] buffer of
         (None, buffer) \<Rightarrow> Inl BadAuth
       | (Some l, buffer) \<Rightarrow>
           let plain = take l buffer in
           if length plain < LEGACY_FIXED_PLAINTEXT_LEN then Inl BadFormat
           else and_then (parse_plaintext plain) (\<lambda>opened. Inr (consume opened)))))"

definition opened_to_owned :: "u8 copy_inline \<Rightarrow> claims \<Rightarrow> ticket_error + claims" where
  "opened_to_owned ci opened =
     and_then (push_bytes ci MAX_ALPN_LEN (cl_alpn opened) []) (\<lambda>alpn. Inr (opened\<lparr>cl_alpn := alpn\<rparr>))"

definition ticket_decrypt :: "u8 copy_inline \<Rightarrow> ring_aead \<Rightarrow> bytes \<Rightarrow> ring_key \<Rightarrow> ticket_error + claims" where
  "ticket_decrypt ci A encrypted key =
     and_then (decrypt_with ci A encrypted (opened_to_owned ci) key) (\<lambda>r. r)"

subsection \<open>Key sets\<close>

record ticket_keys =
  tk_current :: ring_key
  tk_previous :: "ring_key option"

definition keys_single :: "crypto \<Rightarrow> ring_aead \<Rightarrow> bytes \<Rightarrow> ticket_error + ticket_keys" where
  "keys_single C A secret =
     and_then (ticket_secret_new C A secret) (\<lambda>k. Inr \<lparr>tk_current = k, tk_previous = None\<rparr>)"

definition keys_with_previous :: "crypto \<Rightarrow> ring_aead \<Rightarrow> bytes \<Rightarrow> bytes option \<Rightarrow> ticket_error + ticket_keys" where
  "keys_with_previous C A current previous =
     and_then (ticket_secret_new C A current) (\<lambda>k.
     and_then (case previous of None \<Rightarrow> Inr None
               | Some p \<Rightarrow> and_then (ticket_secret_new C A p) (\<lambda>q. Inr (Some q))) (\<lambda>q.
     Inr \<lparr>tk_current = k, tk_previous = q\<rparr>))"

definition keys_encrypt_claims ::
    "u8 copy_inline \<Rightarrow> ring_aead \<Rightarrow> bytes option \<Rightarrow> claims \<Rightarrow> ticket_keys \<Rightarrow> ticket_error + bytes" where
  "keys_encrypt_claims ci A draw cl ks = encrypt_claims ci A draw cl (tk_current ks)"

definition keys_decrypt_with ::
    "u8 copy_inline \<Rightarrow> ring_aead \<Rightarrow> bytes \<Rightarrow> (claims \<Rightarrow> 'r) \<Rightarrow> ticket_keys \<Rightarrow> ticket_error + 'r" where
  "keys_decrypt_with ci A encrypted consume ks =
     (case decrypt_with ci A encrypted consume (tk_current ks) of
        Inr v \<Rightarrow> Inr v
      | Inl e \<Rightarrow> (case tk_previous ks of
          Some p \<Rightarrow> decrypt_with ci A encrypted consume p | None \<Rightarrow> Inl e))"

definition keys_decrypt :: "u8 copy_inline \<Rightarrow> ring_aead \<Rightarrow> bytes \<Rightarrow> ticket_keys \<Rightarrow> ticket_error + claims" where
  "keys_decrypt ci A encrypted ks =
     and_then (keys_decrypt_with ci A encrypted (opened_to_owned ci) ks) (\<lambda>r. r)"

record opened_resumption =
  or_psk :: bytes
  or_age_add :: u32
  or_issued_at_ms :: u64
  or_suite :: cipher_suite
  or_context :: ticket_context
  or_alpn_matches :: bool

definition keys_decrypt_resumption ::
    "u8 copy_inline \<Rightarrow> ring_aead \<Rightarrow> bytes \<Rightarrow> bytes \<Rightarrow> ticket_keys \<Rightarrow> ticket_error + opened_resumption" where
  "keys_decrypt_resumption ci A encrypted selected_alpn ks =
     keys_decrypt_with ci A encrypted (\<lambda>opened.
       \<lparr>or_psk = cl_psk opened, or_age_add = cl_age_add opened, or_issued_at_ms = cl_issued_at_ms opened,
        or_suite = cl_suite opened, or_context = cl_context opened,
        or_alpn_matches = (cl_alpn opened = selected_alpn)\<rparr>) ks"

subsection \<open>Rotation\<close>

definition u64_saturating_sub :: "u64 \<Rightarrow> u64 \<Rightarrow> u64" where
  "u64_saturating_sub a b = (if a \<ge> b then a - b else 0)"

definition u64_saturating_add :: "u64 \<Rightarrow> u64 \<Rightarrow> u64" where
  "u64_saturating_add a b = (if unat a + unat b < 2 ^ 64 then a + b else - 1)"

record rotation_schedule =
  rs_current_since_ms :: u64
  rs_issued_under_current :: u64
  rs_rotate_after_ms :: u64
  rs_rotate_after_count :: u64

record rotator =
  ro_current :: ring_key
  ro_previous :: "ring_key option"
  ro_schedule :: rotation_schedule

definition schedule_due :: "u64 \<Rightarrow> rotation_schedule \<Rightarrow> bool" where
  "schedule_due now_ms s \<longleftrightarrow>
     u64_saturating_sub now_ms (rs_current_since_ms s) \<ge> rs_rotate_after_ms s \<or>
     rs_issued_under_current s \<ge> rs_rotate_after_count s"

definition rotator_new ::
    "crypto \<Rightarrow> ring_aead \<Rightarrow> bytes option \<Rightarrow> u64 \<Rightarrow> u64 \<Rightarrow> u64 \<Rightarrow> ticket_error + rotator" where
  "rotator_new C A draw now_ms rotate_after_ms rotate_after_count =
     and_then (ok_or BadKey draw) (\<lambda>current.
     and_then (ticket_secret_new C A current) (\<lambda>k.
     Inr \<lparr>ro_current = k, ro_previous = None,
          ro_schedule = \<lparr>rs_current_since_ms = now_ms, rs_issued_under_current = 0,
            rs_rotate_after_ms = rotate_after_ms, rs_rotate_after_count = rotate_after_count\<rparr>\<rparr>))"

definition accepting_keys :: "rotator \<Rightarrow> ticket_keys" where
  "accepting_keys R = \<lparr>tk_current = ro_current R, tk_previous = ro_previous R\<rparr>"

definition rotate_keys ::
    "crypto \<Rightarrow> ring_aead \<Rightarrow> bytes option \<Rightarrow> u64 \<Rightarrow> rotator \<Rightarrow> (ticket_error + unit) \<times> rotator" where
  "rotate_keys C A draw now_ms R =
     (case and_then (ok_or BadKey draw) (ticket_secret_new C A) of
        Inl e \<Rightarrow> (Inl e, R)
      | Inr k \<Rightarrow>
          (Inr (), R\<lparr>ro_current := k, ro_previous := Some (ro_current R),
             ro_schedule := (ro_schedule R)\<lparr>rs_current_since_ms := now_ms, rs_issued_under_current := 0\<rparr>\<rparr>))"

definition issuing_keys ::
    "crypto \<Rightarrow> ring_aead \<Rightarrow> bytes option \<Rightarrow> u64 \<Rightarrow> rotator \<Rightarrow> (ticket_error + ticket_keys) \<times> rotator" where
  "issuing_keys C A draw now_ms R =
     (case (if schedule_due now_ms (ro_schedule R) then rotate_keys C A draw now_ms R else (Inr (), R)) of
        (Inl e, R1) \<Rightarrow> (Inl e, R1)
      | (Inr _, R1) \<Rightarrow>
          (let R2 = R1\<lparr>ro_schedule := (ro_schedule R1)\<lparr>rs_issued_under_current :=
                 u64_saturating_add (rs_issued_under_current (ro_schedule R1)) 1\<rparr>\<rparr>
           in (Inr (accepting_keys R2), R2)))"

definition keys_encrypt ::
    "crypto \<Rightarrow> u8 copy_inline \<Rightarrow> ring_aead \<Rightarrow> bytes option \<Rightarrow> bytes \<Rightarrow> u32 \<Rightarrow> u64 \<Rightarrow> cipher_suite \<Rightarrow> bytes \<Rightarrow>
     ticket_keys \<Rightarrow> ticket_error + bytes" where
  "keys_encrypt C ci A draw psk age_add issued_at_ms suite alpn ks =
     ticket_encrypt C ci A draw psk age_add issued_at_ms suite alpn (tk_current ks)"

subsection \<open>A ticket opens to its claims\<close>

text \<open>
  Claims that a server can put in a ticket: the fixed-size fields have their sizes and the
  early-data allowance is one of its transport.
\<close>

definition context_ok :: "ticket_context \<Rightarrow> bool" where
  "context_ok c \<longleftrightarrow> length (tc_transport_params_hash c) = SHA256_LEN \<and>
     (case tc_replay_domain c of None \<Rightarrow> False | Some d \<Rightarrow> length d = REPLAY_DOMAIN_LEN) \<and>
     (case tc_max_early_data c of None \<Rightarrow> True | Some m \<Rightarrow> valid_allowance (tc_transport_mode c) m)"

definition claims_ok :: "claims \<Rightarrow> bool" where
  "claims_ok cl \<longleftrightarrow> length (cl_psk cl) = PSK_LEN \<and> length (cl_alpn cl) \<le> MAX_ALPN_LEN \<and> context_ok (cl_context cl)"

definition context_bytes :: "ticket_context \<Rightarrow> bytes" where
  "context_bytes c =
     FORMAT_VERSION # (case tc_transport_mode c of Tls \<Rightarrow> 0 | Quic \<Rightarrow> 1) #
     (if tc_max_early_data c = None then 0 else 1) #
     be_bytes 4 (case tc_max_early_data c of None \<Rightarrow> 0 | Some m \<Rightarrow> unat m) @
     tc_transport_params_hash c @ the (tc_replay_domain c)"

definition plaintext_bytes :: "claims \<Rightarrow> bytes" where
  "plaintext_bytes cl =
     cl_psk cl @ be_bytes 4 (unat (cl_age_add cl)) @ be_bytes 8 (unat (cl_issued_at_ms cl)) @
     be_bytes 2 (unat (cipher_suite_wire_id (cl_suite cl))) @ context_bytes (cl_context cl) @
     word_of_nat (length (cl_alpn cl)) # cl_alpn cl"

lemma unat_mod [simp]:
  "unat (v :: u16) mod 65536 = unat v" "unat (w :: u32) mod 4294967296 = unat w"
  "unat (x :: u64) mod 18446744073709551616 = unat x"
  using unsigned_less [where 'a = nat, of v] unsigned_less [where 'a = nat, of w]
    unsigned_less [where 'a = nat, of x] by simp_all

lemma push_ok:
  assumes "copy_inline_ok ci"
  shows "push_byte ci n b out = (if length out < n then Inr (out @ [b]) else Inl BadFormat)"
    and "push_bytes ci n bs out = (if length out + length bs \<le> n then Inr (out @ bs) else Inl BadFormat)"
  using assms by (simp_all add: push_byte_def push_bytes_def copy_inline_okD)

lemma length_context_bytes: "context_ok c \<Longrightarrow> length (context_bytes c) = CONTEXT_LEN"
  by (auto simp: context_bytes_def context_ok_def ticket_lens split: option.splits)

lemma length_plaintext_bytes:
  "claims_ok cl \<Longrightarrow> length (plaintext_bytes cl) = FIXED_PLAINTEXT_LEN + length (cl_alpn cl)"
  by (simp add: plaintext_bytes_def claims_ok_def length_context_bytes ticket_lens)

lemma context_encode_ok:
  assumes "copy_inline_ok ci" "context_ok c" "length out + CONTEXT_LEN \<le> n"
  shows "context_encode ci n c out = Inr (out @ context_bytes c)"
  using assms(2,3)
  by (auto simp: context_encode_def push_ok [OF assms(1)] context_ok_def context_bytes_def ticket_lens
      split: option.splits)

lemma context_decode_bytes:
  assumes "context_ok c"
  shows "context_decode (context_bytes c) = Inr c"
proof -
  obtain d where d: "tc_replay_domain c = Some d" "length d = 16"
    and h: "length (tc_transport_params_hash c) = 32"
    using assms by (auto simp: context_ok_def ticket_lens split: option.splits)
  show ?thesis
  proof (cases "tc_max_early_data c")
    case None
    with d h show ?thesis
      by (cases c) (auto simp: context_decode_def context_bytes_def ticket_lens FORMAT_VERSION_def
          LEGACY_FORMAT_VERSION_def Let_def split: mode.splits)
  next
    case (Some m)
    with assms have "valid_allowance (tc_transport_mode c) m" by (simp add: context_ok_def)
    with d h Some show ?thesis
      by (cases c) (auto simp: context_decode_def context_bytes_def ticket_lens FORMAT_VERSION_def
          LEGACY_FORMAT_VERSION_def Let_def split: mode.splits)
  qed
qed

lemma be_nat_two: "length bs = 2 \<Longrightarrow> be_nat [bs ! 0, bs ! 1] = be_nat bs"
  by (cases bs; cases "tl bs") auto

lemma cipher_suite_from_wire_id [simp]: "cipher_suite_from_u16 (cipher_suite_wire_id s) = Some s"
  by (cases s) (simp_all add: cipher_suite_from_u16_def)

lemma parse_plaintext_bytes:
  assumes "claims_ok cl"
  shows "parse_plaintext (plaintext_bytes cl) = Inr cl"
proof -
  define hd where "hd = cl_psk cl @ be_bytes 4 (unat (cl_age_add cl)) @ be_bytes 8 (unat (cl_issued_at_ms cl))"
  define su where "su = be_bytes 2 (unat (cipher_suite_wire_id (cl_suite cl)))"
  define cx where "cx = context_bytes (cl_context cl)"
  define tl where "tl = word_of_nat (length (cl_alpn cl)) # cl_alpn cl"
  have p: "plaintext_bytes cl = hd @ su @ cx @ tl"
    by (simp add: plaintext_bytes_def hd_def su_def cx_def tl_def)
  have psk: "length (cl_psk cl) = 32" and alpn: "length (cl_alpn cl) \<le> 255"
    and c: "context_ok (cl_context cl)"
    using assms by (simp_all add: claims_ok_def ticket_lens)
  have lens: "length hd = 44" "length su = 2" "length cx = 55" "length tl = Suc (length (cl_alpn cl))"
    using psk length_context_bytes [OF c] by (simp_all add: hd_def su_def cx_def tl_def ticket_lens)
  have cx0: "(hd @ su @ cx @ tl) ! 46 = FORMAT_VERSION"
    using lens by (simp add: nth_append cx_def context_bytes_def)
  have al: "unat ((hd @ su @ cx @ tl) ! 101) = length (cl_alpn cl)"
    using lens alpn by (simp add: nth_append tl_def unat_word_of_nat_u8)
  have su2: "(hd @ su @ cx @ tl) ! 44 = su ! 0" "(hd @ su @ cx @ tl) ! 45 = su ! 1"
    using lens by (simp_all add: nth_append)
  have drops: "drop 102 (hd @ su @ cx @ tl) = cl_alpn cl" "take 55 (drop 46 (hd @ su @ cx @ tl)) = cx"
    "take 4 (drop 32 (hd @ su @ cx @ tl)) = be_bytes 4 (unat (cl_age_add cl))"
    "take 8 (drop 36 (hd @ su @ cx @ tl)) = be_bytes 8 (unat (cl_issued_at_ms cl))"
    "take 32 (hd @ su @ cx @ tl) = cl_psk cl"
    using lens psk by (simp_all add: tl_def hd_def)
  have suite: "cipher_suite_from_u16 (word_of_nat (be_nat [su ! 0, su ! 1])) = Some (cl_suite cl)"
    using lens(2) by (simp only: be_nat_two) (simp add: su_def)
  show ?thesis
    unfolding p parse_plaintext_def Let_def ticket_lens context_encoded_len_def
    using cx0 al su2 drops suite lens context_decode_bytes [OF c]
    by (simp add: FORMAT_VERSION_def LEGACY_FORMAT_VERSION_def cx_def ticket_lens)
qed

lemma encrypt_claims_ok:
  assumes "copy_inline_ok ci" "claims_ok cl" "length nonce_bytes = TICKET_NONCE_LEN" "aead_ok A"
    "ra_seal A key nonce_bytes [] (plaintext_bytes cl) = (Some tag, ct)"
  shows "encrypt_claims ci A (Some nonce_bytes) cl key = Inr (nonce_bytes @ ct @ tag)"
proof -
  have ln: "length ct = length (plaintext_bytes cl)" "length tag = 16"
    using assms(4,5) unfolding aead_ok_def by (metis snd_conv)+
  have c: "length (cl_psk cl) = 32" "length (cl_alpn cl) \<le> 255" "context_ok (cl_context cl)"
    and cx: "length (context_bytes (cl_context cl)) = 55"
    using assms(2) length_context_bytes by (simp_all add: claims_ok_def ticket_lens)
  have p: "length (plaintext_bytes cl) = 102 + length (cl_alpn cl)"
    using length_plaintext_bytes [OF assms(2)] by (simp add: ticket_lens)
  show ?thesis
    using assms(3,5) ln c cx p context_encode_ok [OF assms(1) c(3)]
    by (simp add: encrypt_claims_def Let_def push_ok [OF assms(1)] ticket_lens plaintext_bytes_def)
qed

lemma encrypt_claims_Inr:
  assumes "copy_inline_ok ci" "claims_ok cl" "length nonce_bytes = TICKET_NONCE_LEN" "aead_ok A"
    "encrypt_claims ci A (Some nonce_bytes) cl key = Inr t"
  obtains tag ct where "ra_seal A key nonce_bytes [] (plaintext_bytes cl) = (Some tag, ct)"
    "t = nonce_bytes @ ct @ tag"
proof (cases "ra_seal A key nonce_bytes [] (plaintext_bytes cl)")
  case (Pair o_tag ct)
  show thesis
  proof (cases o_tag)
    case None
    have c: "length (cl_psk cl) = 32" "length (cl_alpn cl) \<le> 255" "context_ok (cl_context cl)"
      and cx: "length (context_bytes (cl_context cl)) = 55"
      using assms(2) length_context_bytes by (simp_all add: claims_ok_def ticket_lens)
    have "encrypt_claims ci A (Some nonce_bytes) cl key = Inl BadAuth"
      using Pair None c cx context_encode_ok [OF assms(1) c(3)]
      by (simp add: encrypt_claims_def Let_def push_ok [OF assms(1)] ticket_lens plaintext_bytes_def)
    with assms(5) show thesis by simp
  next
    case (Some tag)
    with that Pair encrypt_claims_ok [OF assms(1-4)] assms(5) show thesis by simp
  qed
qed

lemma decrypt_with_sealed:
  assumes "copy_inline_ok ci" "claims_ok cl" "length nonce_bytes = TICKET_NONCE_LEN" "aead_ok A"
    "encrypt_claims ci A (Some nonce_bytes) cl key = Inr t"
  shows "decrypt_with ci A t consume key = Inr (consume cl)"
    and "length t = TICKET_NONCE_LEN + FIXED_PLAINTEXT_LEN + length (cl_alpn cl) + TICKET_TAG_LEN"
proof -
  obtain tag ct where seal: "ra_seal A key nonce_bytes [] (plaintext_bytes cl) = (Some tag, ct)"
    and t: "t = nonce_bytes @ ct @ tag"
    using encrypt_claims_Inr [OF assms] by blast
  have ln: "length ct = length (plaintext_bytes cl)" "length tag = 16"
    using assms(4) seal unfolding aead_ok_def by (metis snd_conv)+
  have p: "length (plaintext_bytes cl) = 102 + length (cl_alpn cl)" "length (cl_alpn cl) \<le> 255"
    using length_plaintext_bytes [OF assms(2)] assms(2) by (simp_all add: claims_ok_def ticket_lens)
  obtain rest where op: "ra_open A key nonce_bytes [] (ct @ tag) =
      (Some (length (plaintext_bytes cl)), plaintext_bytes cl @ rest)"
    using assms(4) seal unfolding aead_ok_def by metis
  show "decrypt_with ci A t consume key = Inr (consume cl)"
    using ln p assms(3) op parse_plaintext_bytes [OF assms(2)]
    by (simp add: decrypt_with_def t push_ok [OF assms(1)] ticket_lens Let_def)
  show "length t = TICKET_NONCE_LEN + FIXED_PLAINTEXT_LEN + length (cl_alpn cl) + TICKET_TAG_LEN"
    using ln p assms(3) by (simp add: t ticket_lens)
qed

lemma opened_to_owned_ok: "copy_inline_ok ci \<Longrightarrow> claims_ok cl \<Longrightarrow> opened_to_owned ci cl = Inr cl"
  by (simp add: opened_to_owned_def push_ok claims_ok_def)

definition sample_claims :: claims where
  "sample_claims = \<lparr>cl_psk = replicate 32 7, cl_age_add = 9, cl_issued_at_ms = 10, cl_suite = Aes256GcmSha384,
      cl_alpn = [104, 50], cl_context = \<lparr>tc_transport_mode = Tls, tc_max_early_data = Some 5,
        tc_transport_params_hash = replicate 32 1, tc_replay_domain = Some (replicate 16 2)\<rparr>\<rparr>"

definition sample_ticket :: bytes where
  "sample_ticket = replicate 12 3 @ map NOT (plaintext_bytes sample_claims) @
      aead_toy_tag (AES_128_GCM, [4]) (replicate 12 3) [] (plaintext_bytes sample_claims)"

lemma ticket_opens:
  assumes "copy_inline_ok ci" "aead_ok A" "claims_ok cl" "length nonce_bytes = TICKET_NONCE_LEN"
    "keys_encrypt_claims ci A (Some nonce_bytes) cl ks = Inr t"
  shows "keys_decrypt ci A t ks = Inr cl"
    and "tk_previous ks' = Some (tk_current ks) \<Longrightarrow>
      fst (ra_open A (tk_current ks') nonce_bytes [] (drop TICKET_NONCE_LEN t)) = None \<Longrightarrow>
      keys_decrypt ci A t ks' = Inr cl"
proof -
  note enc = assms(5) [unfolded keys_encrypt_claims_def]
  note dec = decrypt_with_sealed(1) [OF assms(1,3,4,2) enc]
  show "keys_decrypt ci A t ks = Inr cl"
    by (simp add: keys_decrypt_def keys_decrypt_with_def dec opened_to_owned_ok assms)
  obtain rest where t: "t = nonce_bytes @ rest"
    using encrypt_claims_Inr [OF assms(1,3,4,2) enc] by blast
  assume ks': "tk_previous ks' = Some (tk_current ks)"
    and refuse: "fst (ra_open A (tk_current ks') nonce_bytes [] (drop TICKET_NONCE_LEN t)) = None"
  have "length (cl_alpn cl) \<le> 255" using assms(3) by (simp add: claims_ok_def ticket_lens)
  then have "\<exists>e. decrypt_with ci A t (opened_to_owned ci) (tk_current ks') = Inl e"
    using refuse assms(4) decrypt_with_sealed(2) [OF assms(1,3,4,2) enc]
    by (cases "ra_open A (tk_current ks') nonce_bytes [] rest")
      (auto simp: decrypt_with_def push_ok [OF assms(1)] t ticket_lens)
  with ks' show "keys_decrypt ci A t ks' = Inr cl"
    by (auto simp: keys_decrypt_def keys_decrypt_with_def dec opened_to_owned_ok assms)
qed

text \<open>
  C30. A ticket sealed from well-formed claims has exactly the length the code announces for it,
  fits the ticket buffer, and opens, under the key set that sealed it, to the claims it was
  sealed from.
\<close>

theorem ticket_roundtrip:
  assumes "copy_inline_ok ci" "aead_ok A" "claims_ok cl" "length nonce_bytes = TICKET_NONCE_LEN"
    "keys_encrypt_claims ci A (Some nonce_bytes) cl ks = Inr t"
  shows "encrypted_len (length (cl_alpn cl)) = Some (length t)
    \<and> length t \<le> TICKET_MAX_LEN
    \<and> keys_decrypt ci A t ks = Inr cl"
proof -
  note ln = decrypt_with_sealed(2) [OF assms(1,3,4,2) assms(5) [unfolded keys_encrypt_claims_def]]
  have "length (cl_alpn cl) \<le> 255" using assms(3) by (simp add: claims_ok_def ticket_lens)
  with ln ticket_opens(1) [OF assms] show ?thesis by (simp add: encrypted_len_def ticket_lens)
qed

lemma sample_enc: "keys_encrypt_claims copy_inline_ref aead_toy (Some (replicate 12 3)) sample_claims
    \<lparr>tk_current = (AES_128_GCM, [4]), tk_previous = p\<rparr> = Inr sample_ticket"
  and sample_claims_ok: "claims_ok sample_claims"
proof -
  show ok: "claims_ok sample_claims" by (simp add: sample_claims_def claims_ok_def context_ok_def ticket_lens)
  show "keys_encrypt_claims copy_inline_ref aead_toy (Some (replicate 12 3)) sample_claims
      \<lparr>tk_current = (AES_128_GCM, [4]), tk_previous = p\<rparr> = Inr sample_ticket"
    unfolding keys_encrypt_claims_def
    by (subst encrypt_claims_ok [where A = aead_toy, OF copy_inline_ref_ok ok _ aead_toy_ok])
      (simp_all add: ticket_lens sample_ticket_def, simp add: aead_toy_def)
qed

theorem ticket_roundtrip_witness:
  "encrypted_len 2 = Some (length sample_ticket) \<and> length sample_ticket \<le> TICKET_MAX_LEN \<and>
   keys_decrypt copy_inline_ref aead_toy sample_ticket
     \<lparr>tk_current = (AES_128_GCM, [4]), tk_previous = None\<rparr> = Inr sample_claims"
  using ticket_roundtrip [OF copy_inline_ref_ok aead_toy_ok sample_claims_ok _ sample_enc [of None]]
  by (simp add: TICKET_NONCE_LEN_def) (simp add: sample_claims_def numeral_2_eq_2)

subsection \<open>Rotation\<close>

text \<open>A server's life: it asks for issuing keys at some times, with what the generator draws.\<close>

fun rotator_run :: "crypto \<Rightarrow> ring_aead \<Rightarrow> (bytes option \<times> u64) list \<Rightarrow> rotator \<Rightarrow> rotator" where
  "rotator_run C A [] R = R"
| "rotator_run C A ((draw, now_ms) # calls) R = rotator_run C A calls (snd (issuing_keys C A draw now_ms R))"

fun rotations :: "crypto \<Rightarrow> ring_aead \<Rightarrow> (bytes option \<times> u64) list \<Rightarrow> rotator \<Rightarrow> nat" where
  "rotations C A [] R = 0"
| "rotations C A ((draw, now_ms) # calls) R =
     (if schedule_due now_ms (ro_schedule R) \<and> fst (rotate_keys C A draw now_ms R) = Inr () then 1 else 0) +
     rotations C A calls (snd (issuing_keys C A draw now_ms R))"

lemma issuing_keys_cases:
  obtains
    (kept) "\<not> schedule_due now_ms (ro_schedule R)"
      "fst (issuing_keys C A draw now_ms R) = Inr (accepting_keys (snd (issuing_keys C A draw now_ms R)))"
      "snd (issuing_keys C A draw now_ms R) = R\<lparr>ro_schedule := (ro_schedule R)\<lparr>rs_issued_under_current :=
         u64_saturating_add (rs_issued_under_current (ro_schedule R)) 1\<rparr>\<rparr>"
  | (refused) e where "schedule_due now_ms (ro_schedule R)" "issuing_keys C A draw now_ms R = (Inl e, R)"
      "fst (rotate_keys C A draw now_ms R) = Inl e"
  | (rotated) k where "schedule_due now_ms (ro_schedule R)"
      "fst (issuing_keys C A draw now_ms R) = Inr (accepting_keys (snd (issuing_keys C A draw now_ms R)))"
      "snd (issuing_keys C A draw now_ms R) = R\<lparr>ro_current := k, ro_previous := Some (ro_current R),
         ro_schedule := (ro_schedule R)\<lparr>rs_current_since_ms := now_ms, rs_issued_under_current := 1\<rparr>\<rparr>"
      "fst (rotate_keys C A draw now_ms R) = Inr ()"
proof (cases "schedule_due now_ms (ro_schedule R)")
  case False
  then show thesis by (intro kept) (simp_all add: issuing_keys_def Let_def)
next
  case due: True
  show thesis
  proof (cases "and_then (ok_or BadKey draw) (ticket_secret_new C A)")
    case (Inl e)
    with due refused [of e] show thesis by (simp add: issuing_keys_def rotate_keys_def)
  next
    case (Inr k)
    with due rotated [of k] show thesis
      by (simp add: issuing_keys_def rotate_keys_def Let_def u64_saturating_add_def)
  qed
qed

lemma rotations_zero: "rotations C A calls R = 0 \<Longrightarrow>
    ro_current (rotator_run C A calls R) = ro_current R \<and> ro_previous (rotator_run C A calls R) = ro_previous R"
proof (induction calls arbitrary: R)
  case (Cons c calls)
  obtain draw now_ms where c: "c = (draw, now_ms)" by (cases c)
  show ?case
    by (cases rule: issuing_keys_cases [of now_ms R C A draw]) (use Cons c in \<open>auto split: if_splits\<close>)
qed simp

lemma rotations_one: "rotations C A calls R = 1 \<Longrightarrow> ro_previous (rotator_run C A calls R) = Some (ro_current R)"
proof (induction calls arbitrary: R)
  case (Cons c calls)
  obtain draw now_ms where c: "c = (draw, now_ms)" by (cases c)
  show ?case
  proof (cases rule: issuing_keys_cases [of now_ms R C A draw])
    case kept
    then show ?thesis using Cons c by simp
  next
    case (refused e)
    then show ?thesis using Cons c by simp
  next
    case (rotated k)
    then show ?thesis using Cons.prems c rotations_zero by simp
  qed
qed simp

text \<open>
  C31. Whatever sequence of issuing calls follows, a ticket sealed with the issuing keys still opens to its claims
  with the accepting keys while no rotation has happened, and after the first rotation as long as the new
  current key refuses it.
\<close>

theorem ticket_survives_rotation:
  assumes "copy_inline_ok ci" "aead_ok A" "claims_ok cl" "length nonce_bytes = TICKET_NONCE_LEN"
    "issuing_keys C A draw now_ms R = (Inr ks, R1)"
    "keys_encrypt_claims ci A (Some nonce_bytes) cl ks = Inr t"
    "rotations C A calls R1 = 0 \<or> rotations C A calls R1 = 1 \<and>
       fst (ra_open A (ro_current (rotator_run C A calls R1)) nonce_bytes [] (drop TICKET_NONCE_LEN t)) = None"
  shows "keys_decrypt ci A t (accepting_keys (rotator_run C A calls R1)) = Inr cl"
proof -
  have ks: "ks = accepting_keys R1"
    by (cases rule: issuing_keys_cases [of now_ms R C A draw]) (use assms(5) in auto)
  from assms(7) show ?thesis
  proof
    assume "rotations C A calls R1 = 0"
    then have "accepting_keys (rotator_run C A calls R1) = ks"
      using rotations_zero [of C A calls R1] by (simp add: ks accepting_keys_def)
    then show ?thesis using ticket_opens(1) [OF assms(1-4,6)] by simp
  next
    assume one: "rotations C A calls R1 = 1 \<and>
       fst (ra_open A (ro_current (rotator_run C A calls R1)) nonce_bytes [] (drop TICKET_NONCE_LEN t)) = None"
    then show ?thesis
      using ticket_opens(2) [OF assms(1-4,6), of "accepting_keys (rotator_run C A calls R1)"]
        rotations_one [of C A calls R1] by (simp add: ks accepting_keys_def)
  qed
qed

definition sample_rotator :: rotator where
  "sample_rotator = \<lparr>ro_current = (AES_128_GCM, [4]), ro_previous = None,
     ro_schedule = \<lparr>rs_current_since_ms = 0, rs_issued_under_current = 0, rs_rotate_after_ms = 100,
       rs_rotate_after_count = 5\<rparr>\<rparr>"

definition sample_rotator1 :: rotator where
  "sample_rotator1 = sample_rotator\<lparr>ro_schedule := (ro_schedule sample_rotator)\<lparr>rs_issued_under_current := 1\<rparr>\<rparr>"

definition crypto_const :: crypto where
  "crypto_const = \<lparr>ring_digest = (\<lambda>a m. replicate (output_len a) 0), ring_hmac = (\<lambda>a k m. replicate (output_len a) 1)\<rparr>"

lemma sample_secret: "ticket_secret_new crypto_const aead_toy s = Inr (AES_128_GCM, replicate 16 1)"
  by (simp add: ticket_secret_new_def hkdf_expand_label_def hkdf_label_def hkdf_expand_def crypto_const_def
      aead_toy_def div_ceil_def SHA256_LEN_def Let_def usize_checked_add_def usize_max_def)

lemma sample_issue:
  "issuing_keys crypto_const aead_toy None 10 sample_rotator = (Inr (accepting_keys sample_rotator1), sample_rotator1)"
  "rotations crypto_const aead_toy [(None, 200), (Some (replicate 32 1), 250)] sample_rotator1 = 1"
  by (simp_all add: issuing_keys_def rotate_keys_def sample_secret schedule_due_def sample_rotator_def
      sample_rotator1_def u64_saturating_sub_def u64_saturating_add_def Let_def)

lemma fold31_inject: "fold (\<lambda>b h. h * 31 + b) xs a = fold (\<lambda>b h. h * 31 + b) xs (b :: u8) \<longleftrightarrow> a = b"
proof (induction xs arbitrary: a b)
  case (Cons x xs)
  have "a = b" if "a * 31 = b * (31 :: u8)"
  proof -
    have "a * 31 * 223 = b * 31 * 223" using that by simp
    moreover have "(31 :: u8) * 223 = 1" by simp
    ultimately show ?thesis by (simp only: mult.assoc mult_1_right)
  qed
  then show ?case by (auto simp: Cons.IH)
qed simp

lemma sample_refuse:
  "fst (ra_open aead_toy (AES_128_GCM, replicate 16 1) (replicate 12 3) [] (drop TICKET_NONCE_LEN sample_ticket)) = None"
proof -
  have "fold (\<lambda>b h. h * 31 + b) [4] 5 \<noteq> fold (\<lambda>b h. h * 31 + b) (replicate 16 1) (5 :: u8)"
  proof -
    have "replicate 16 (1 :: u8) = [1, 1, 1, 1, 1, 1, 1, 1, 1, 1, 1, 1, 1, 1, 1, 1]" by (simp add: numeral_eq_Suc)
    then show ?thesis by simp
  qed
  then have "aead_toy_tag (AES_128_GCM, [4]) n d p \<noteq> aead_toy_tag (AES_128_GCM, replicate 16 1) n d p" for n d p
    by (simp add: aead_toy_tag_def replicate_eq_replicate fold31_inject del: fold_replicate)
  moreover have "length (aead_toy_tag k n d p) = 16" for k n d p by (simp add: aead_toy_tag_def)
  ultimately show ?thesis
    by (simp add: sample_ticket_def aead_toy_def ticket_lens Let_def comp_def)
qed

theorem ticket_survives_rotation_witness:
  "keys_decrypt copy_inline_ref aead_toy sample_ticket
     (accepting_keys (rotator_run crypto_const aead_toy [(None, 200), (Some (replicate 32 1), 250)] sample_rotator1)) =
   Inr sample_claims"
proof (rule ticket_survives_rotation [OF copy_inline_ref_ok aead_toy_ok sample_claims_ok _ sample_issue(1)])
  show "length (replicate 12 (3::u8)) = TICKET_NONCE_LEN" by (simp add: TICKET_NONCE_LEN_def)
  show "keys_encrypt_claims copy_inline_ref aead_toy (Some (replicate 12 3)) sample_claims
      (accepting_keys sample_rotator1) = Inr sample_ticket"
    using sample_enc by (simp add: accepting_keys_def sample_rotator1_def sample_rotator_def)
  have "fst (ra_open aead_toy (ro_current (rotator_run crypto_const aead_toy
      [(None, 200), (Some (replicate 32 1), 250)] sample_rotator1)) (replicate 12 3) []
      (drop TICKET_NONCE_LEN sample_ticket)) = None"
    by (simp add: issuing_keys_def rotate_keys_def sample_secret schedule_due_def sample_rotator_def
      sample_rotator1_def u64_saturating_sub_def sample_refuse Let_def)
  then show "rotations crypto_const aead_toy [(None, 200), (Some (replicate 32 1), 250)] sample_rotator1 = 0 \<or>
      rotations crypto_const aead_toy [(None, 200), (Some (replicate 32 1), 250)] sample_rotator1 = 1 \<and>
      fst (ra_open aead_toy (ro_current (rotator_run crypto_const aead_toy
        [(None, 200), (Some (replicate 32 1), 250)] sample_rotator1)) (replicate 12 3) []
        (drop TICKET_NONCE_LEN sample_ticket)) = None"
    using sample_issue(2) by blast
qed

definition rotator_ok :: "rotator \<Rightarrow> bool" where
  "rotator_ok R \<longleftrightarrow>
     unat (rs_issued_under_current (ro_schedule R)) \<le> max 1 (unat (rs_rotate_after_count (ro_schedule R)))"

text \<open>The current key was made less than \<open>rotate_after_ms\<close> before \<open>now_ms\<close>.\<close>

definition key_young :: "u64 \<Rightarrow> rotator \<Rightarrow> bool" where
  "key_young now_ms R \<longleftrightarrow>
     unat now_ms - unat (rs_current_since_ms (ro_schedule R)) < unat (rs_rotate_after_ms (ro_schedule R))"

lemma not_due:
  "\<not> schedule_due now_ms (ro_schedule R) \<Longrightarrow>
     key_young now_ms R \<and> unat (rs_issued_under_current (ro_schedule R)) < unat (rs_rotate_after_count (ro_schedule R))"
  by (auto simp: schedule_due_def key_young_def u64_saturating_sub_def word_less_nat_alt word_le_nat_alt
      unat_sub not_le split: if_splits)

lemma u64_saturating_add_succ:
  assumes "unat a < unat (b :: u64)"
  shows "u64_saturating_add a 1 = a + 1" "unat (a + 1) = unat a + 1"
proof -
  have "unat a + 1 < 2 ^ 64" using assms unsigned_less [where 'a = nat, of b] by simp
  then show "u64_saturating_add a 1 = a + 1" "unat (a + 1) = unat a + 1"
    by (simp_all add: u64_saturating_add_def unat_word_ariths)
qed

text \<open>
  C32. The rotation limits: issuing keys are handed out at most \<open>rotate_after_count\<close> times per key (once
  when the limit is zero); a call either keeps a key younger than \<open>rotate_after_ms\<close> and counts the
  use, or makes a key at this instant and keeps the old one as the previous generation; a call that
  fails to make a key changes nothing.
\<close>

theorem rotator_limits:
  assumes "rotator_ok R" "issuing_keys C A draw now_ms R = (r, R1)"
  shows "rotator_ok R1
    \<and> (case r of
         Inl e \<Rightarrow> R1 = R
       | Inr ks \<Rightarrow> ks = accepting_keys R1 \<and>
           (R1 = R\<lparr>ro_schedule := (ro_schedule R)\<lparr>rs_issued_under_current :=
                rs_issued_under_current (ro_schedule R) + 1\<rparr>\<rparr> \<and>
              key_young now_ms R1 \<and>
              unat (rs_issued_under_current (ro_schedule R1)) = unat (rs_issued_under_current (ro_schedule R)) + 1 \<or>
            R1 = R\<lparr>ro_current := ro_current R1, ro_previous := Some (ro_current R),
                ro_schedule := (ro_schedule R)\<lparr>rs_current_since_ms := now_ms, rs_issued_under_current := 1\<rparr>\<rparr>))"
proof (cases rule: issuing_keys_cases [of now_ms R C A draw])
  case kept
  note nd = not_due [OF kept(1)]
  note add = u64_saturating_add_succ [OF conjunct2 [OF nd]]
  have R1: "R1 = R\<lparr>ro_schedule := (ro_schedule R)\<lparr>rs_issued_under_current :=
      rs_issued_under_current (ro_schedule R) + 1\<rparr>\<rparr>" "r = Inr (accepting_keys R1)"
    using kept assms(2) add by simp_all
  have "rotator_ok R1" "key_young now_ms R1"
    using nd add by (simp_all add: rotator_ok_def R1 key_young_def)
  then show ?thesis unfolding R1(2) using R1(1) add by simp
next
  case (refused e)
  then show ?thesis using assms by simp
next
  case (rotated k)
  then show ?thesis using assms by (auto simp: rotator_ok_def)
qed

theorem rotator_limits_witness:
  "rotator_ok sample_rotator \<and> rotator_ok sample_rotator1 \<and> key_young 10 sample_rotator1"
  using rotator_limits [OF _ sample_issue(1)]
  by (auto simp: rotator_ok_def sample_rotator_def sample_rotator1_def)

end
