(* ===== verification/ServerConfig.thy ===== *)
theory ServerConfig
  imports KeyExchange Signatures Ticket Protocols
begin

section \<open>Server configuration\<close>

text \<open>
  \<open>server/config.rs\<close> and the layouts of \<open>server/workspace.rs\<close>: the certificate source, the policy
  traits and the arithmetic that sizes a connection's buffers before its handshake starts.
  The two traits the embedder implements are records over the state \<open>'k\<close> of the outside world:
  \<open>guard\<close> (the replay store of \<open>EarlyDataGuard\<close>) and \<open>client_verifier\<close> (\<open>ClientCertVerifier\<close>).
  The lemmas compare the computed flight length with the length of the messages themselves.
\<close>

subsection \<open>Policy traits\<close>

record 'k guard =
  gd_accepts_early_data :: bool
  gd_register :: "bytes \<Rightarrow> 'k \<Rightarrow> bool \<times> 'k"

definition no_guard :: "'k guard" where
  "no_guard = \<lparr>gd_accepts_early_data = False, gd_register = (\<lambda>_ k. (False, k))\<rparr>"

record client_identity =
  ci_cert_type :: certificate_type
  ci_spki_der :: bytes
  ci_chain_der :: "certificate_entries option"

definition client_chain_len :: "client_identity \<Rightarrow> nat" where
  "client_chain_len i = (case ci_chain_der i of None \<Rightarrow> 0 | Some entries \<Rightarrow> certificate_entries_len entries)"

definition client_chain_is_empty :: "client_identity \<Rightarrow> bool" where
  "client_chain_is_empty i \<longleftrightarrow> client_chain_len i = 0"

definition client_chain_iter :: "u16 copy_inline \<Rightarrow> client_identity \<Rightarrow> bytes list" where
  "client_chain_iter ci i =
     (case ci_chain_der i of None \<Rightarrow> []
      | Some entries \<Rightarrow> map cer_cert_data (entries_iter ci (ces_encoded entries)))"

record 'k client_verifier =
  cv_max_certificate_message_size :: nat
  cv_verify :: "client_identity \<Rightarrow> 'k \<Rightarrow> bool \<times> 'k"

definition MAX_CERTIFICATE_MESSAGE_SIZE_DEFAULT :: nat where
  "MAX_CERTIFICATE_MESSAGE_SIZE_DEFAULT = MAX_PLAINTEXT_BODY"

definition no_client_auth :: "'k client_verifier" where
  "no_client_auth =
     \<lparr>cv_max_certificate_message_size = MAX_CERTIFICATE_MESSAGE_SIZE_DEFAULT, cv_verify = (\<lambda>_ k. (False, k))\<rparr>"

definition client_auth_verifier :: "'k client_verifier \<Rightarrow> 'k client_verifier" where
  "client_auth_verifier v =
     \<lparr>cv_max_certificate_message_size = cv_max_certificate_message_size v,
      cv_verify = (\<lambda>i k. cv_verify v i k)\<rparr>"

datatype client_auth = AuthRequested | AuthRequired

subsection \<open>Certificate source\<close>

datatype cert_source =
    SourceRawPublicKey signing_key
  | SourceX509 "bytes list" signing_key

fun source_cert_type :: "cert_source \<Rightarrow> certificate_type" where
  "source_cert_type (SourceRawPublicKey _) = RawPublicKey"
| "source_cert_type (SourceX509 _ _) = X509"

fun source_signing_key :: "cert_source \<Rightarrow> signing_key" where
  "source_signing_key (SourceRawPublicKey key) = key"
| "source_signing_key (SourceX509 _ key) = key"

definition FIXED_CERTIFICATE_MESSAGE_LEN :: nat where "FIXED_CERTIFICATE_MESSAGE_LEN = 4 + 1 + 3"
definition CERTIFICATE_ENTRY_FRAMING_LEN :: nat where "CERTIFICATE_ENTRY_FRAMING_LEN = 3 + 2"

fun certificates_fold :: "nat \<Rightarrow> bytes list \<Rightarrow> nat option" where
  "certificates_fold message_len [] = Some message_len"
| "certificates_fold message_len (certificate # rest) =
     Option.bind (usize_checked_add message_len (CERTIFICATE_ENTRY_FRAMING_LEN + length certificate))
       (\<lambda>message_len. certificates_fold message_len rest)"

fun validated_certificate_message_len :: "unicode \<Rightarrow> crypto \<Rightarrow> cert_source \<Rightarrow> nat option" where
  "validated_certificate_message_len U C (SourceRawPublicKey key) =
     (if \<not> is_ed25519 key then None
      else Option.bind (pubkey key) (\<lambda>p.
        usize_checked_add FIXED_CERTIFICATE_MESSAGE_LEN
          (CERTIFICATE_ENTRY_FRAMING_LEN + length (encoded_ed25519 p))))"
| "validated_certificate_message_len U C (SourceX509 chain_der key) =
     (if length chain_der > MAX_CERTIFICATE_ENTRIES \<or> \<not> matches_x509_chain U C key chain_der then None
      else certificates_fold FIXED_CERTIFICATE_MESSAGE_LEN chain_der)"

subsection \<open>Flight profile\<close>

definition EXTENSION_HEADER_LEN :: nat where "EXTENSION_HEADER_LEN = 4"
definition MAX_TRANSPORT_PARAMETERS_LEN :: nat where
  "MAX_TRANSPORT_PARAMETERS_LEN = 65535 - EXTENSION_HEADER_LEN"
definition TWO_CERTIFICATE_TYPE_EXTENSIONS_LEN :: nat where
  "TWO_CERTIFICATE_TYPE_EXTENSIONS_LEN = 2 * (EXTENSION_HEADER_LEN + 1)"
definition EMPTY_EARLY_DATA_EXTENSION_LEN :: nat where
  "EMPTY_EARLY_DATA_EXTENSION_LEN = EXTENSION_HEADER_LEN"
definition HANDSHAKE_HEADER_LEN :: nat where "HANDSHAKE_HEADER_LEN = 4"
definition EXTENSIONS_VECTOR_LEN :: nat where "EXTENSIONS_VECTOR_LEN = 2"
definition CERTIFICATE_REQUEST_LEN :: nat where
  "CERTIFICATE_REQUEST_LEN =
     HANDSHAKE_HEADER_LEN + 1 + EXTENSIONS_VECTOR_LEN + EXTENSION_HEADER_LEN + 2 + 2 * 6"
definition FINISHED_MAX_LEN :: nat where "FINISHED_MAX_LEN = HANDSHAKE_HEADER_LEN + HASH_MAX_LEN"

lemmas config_lens = EXTENSION_HEADER_LEN_def MAX_TRANSPORT_PARAMETERS_LEN_def
  TWO_CERTIFICATE_TYPE_EXTENSIONS_LEN_def EMPTY_EARLY_DATA_EXTENSION_LEN_def HANDSHAKE_HEADER_LEN_def
  EXTENSIONS_VECTOR_LEN_def CERTIFICATE_REQUEST_LEN_def FINISHED_MAX_LEN_def HASH_MAX_LEN_def SHA384_LEN_def
  FIXED_CERTIFICATE_MESSAGE_LEN_def CERTIFICATE_ENTRY_FRAMING_LEN_def

definition usize_checked_sub :: "nat \<Rightarrow> nat \<Rightarrow> nat option" where
  "usize_checked_sub a b = (if b \<le> a then Some (a - b) else None)"

text \<open>The sums written with \<open>+\<close> are of constants, ALPN lengths and the length of a signature, far below \<open>usize::MAX\<close>.\<close>

definition full_tls_handshake_flight_len ::
    "nat \<Rightarrow> nat \<Rightarrow> nat \<Rightarrow> bool \<Rightarrow> bool \<Rightarrow> (nat \<times> nat) option" where
  "full_tls_handshake_flight_len certificate_len signature_bound maximum_alpn_len client_auth early_data =
     (let certificate_verify_len = certificate_verify_frame_len signature_bound;
          alpn_extension_len =
            (if maximum_alpn_len \<noteq> 0 then EXTENSION_HEADER_LEN + 2 + 1 + maximum_alpn_len else 0);
          early_data_extension_len = (if early_data then EMPTY_EARLY_DATA_EXTENSION_LEN else 0);
          extension_list_len =
            TWO_CERTIFICATE_TYPE_EXTENSIONS_LEN + alpn_extension_len + early_data_extension_len
      in if extension_list_len > 65535 then None
      else
        let encrypted_extensions_len = HANDSHAKE_HEADER_LEN + EXTENSIONS_VECTOR_LEN + extension_list_len in
        Option.bind (usize_checked_add encrypted_extensions_len (if client_auth then CERTIFICATE_REQUEST_LEN else 0)) (\<lambda>len.
        Option.bind (usize_checked_add len certificate_len) (\<lambda>len.
        Option.bind (usize_checked_add len certificate_verify_len) (\<lambda>len.
        Option.bind (usize_checked_add len FINISHED_MAX_LEN) (\<lambda>flight_len.
        if flight_len \<le> MAX_SIZE then Some (flight_len, extension_list_len) else None)))))"

record flight_profile =
  fp_tls_flight_len :: nat
  fp_maximum_quic_transport_parameters_len :: u16
  fp_maximum_alpn_len :: u8
  fp_client_auth :: bool

definition flight_profile_new :: "nat \<Rightarrow> nat \<Rightarrow> nat \<Rightarrow> bool \<Rightarrow> bool \<Rightarrow> flight_profile option" where
  "flight_profile_new certificate_len signature_bound maximum_alpn_len client_auth early_data =
     Option.bind (full_tls_handshake_flight_len certificate_len signature_bound maximum_alpn_len client_auth early_data)
       (\<lambda>(tls_flight_len, tls_extensions_len).
     Option.bind (usize_checked_sub 65535 tls_extensions_len) (\<lambda>n.
     Option.bind (usize_checked_sub n EXTENSION_HEADER_LEN) (\<lambda>extension_bound.
     Option.bind (usize_checked_sub MAX_SIZE tls_flight_len) (\<lambda>n.
     Option.bind (usize_checked_sub n EXTENSION_HEADER_LEN) (\<lambda>flight_bound.
     if min extension_bound flight_bound > 65535 then None
     else if maximum_alpn_len > 255 then None
     else Some \<lparr>fp_tls_flight_len = tls_flight_len,
                fp_maximum_quic_transport_parameters_len = word_of_nat (min extension_bound flight_bound),
                fp_maximum_alpn_len = word_of_nat maximum_alpn_len, fp_client_auth = client_auth\<rparr>)))))"

definition peer_identity_capacity :: "'k client_verifier \<Rightarrow> flight_profile \<Rightarrow> nat" where
  "peer_identity_capacity V p = (if fp_client_auth p then cv_max_certificate_message_size V else 0)"

definition flight_len :: "flight_profile \<Rightarrow> mode \<Rightarrow> nat \<Rightarrow> nat option" where
  "flight_len p m n =
     (if is_tls m then (if n = 0 then Some (fp_tls_flight_len p) else None)
      else if n \<le> unat (fp_maximum_quic_transport_parameters_len p)
      then Some (fp_tls_flight_len p + EXTENSION_HEADER_LEN + n) else None)"

definition SERVER_HELLO_FIXED :: nat where "SERVER_HELLO_FIXED = 2 + RANDOM_LEN + 1 + 2 + 1 + 2"
definition TICKET_FIXED :: nat where "TICKET_FIXED = HANDSHAKE_HEADER_LEN + 4 + 4 + 1 + 8 + 2 + 2"

definition maximum_of :: "nat list \<Rightarrow> nat option" where
  "maximum_of ns = (case ns of [] \<Rightarrow> None | n # rest \<Rightarrow> Some (fold max rest n))"

definition sum_checked :: "nat list \<Rightarrow> nat \<Rightarrow> nat option" where
  "sum_checked ns n = fold (\<lambda>x acc. Option.bind acc (\<lambda>a. usize_checked_add a x)) ns (Some n)"

definition outbound_layout_for :: "flight_profile \<Rightarrow> mode \<Rightarrow> nat \<Rightarrow> outbound_layout option" where
  "outbound_layout_for p m transport_parameters_len =
     (let session_id = (if uses_legacy_session_id m then 32 else 0);
          supported_version = EXTENSION_HEADER_LEN + 2;
          retry_key_share = EXTENSION_HEADER_LEN + 2;
          selected_psk = EXTENSION_HEADER_LEN + 2;
          early_data = EXTENSION_HEADER_LEN + 4 in
      Option.bind (maximum_of (map server_share_len SUPPORTED_KEX_GROUPS)) (\<lambda>server_share.
      Option.bind (sum_checked [SERVER_HELLO_FIXED, session_id, supported_version, EXTENSION_HEADER_LEN + 2 + 2,
          server_share, selected_psk] HANDSHAKE_HEADER_LEN) (\<lambda>hello.
      Option.bind (sum_checked [SERVER_HELLO_FIXED, session_id, supported_version, retry_key_share]
          HANDSHAKE_HEADER_LEN) (\<lambda>retry.
      Option.bind (usize_checked_add hello retry) (\<lambda>plaintext.
      Option.bind (flight_len p m transport_parameters_len) (\<lambda>handshake.
      Option.bind (encrypted_len (unat (fp_maximum_alpn_len p))) (\<lambda>ticket.
      Option.bind (sum_checked [ticket, early_data] TICKET_FIXED) (\<lambda>application.
      Some \<lparr>ol_plaintext = plaintext, ol_handshake = handshake, ol_application = application\<rparr>))))))))"

subsection \<open>Config\<close>

record config =
  cfg_source :: cert_source
  cfg_alpn_protocols :: "bytes list"
  cfg_ticket_keys :: "ticket_keys option"

definition prepare_for ::
    "unicode \<Rightarrow> crypto \<Rightarrow> 'k sign_ops \<Rightarrow> config \<Rightarrow> bool \<Rightarrow> bool \<Rightarrow> conn_error + flight_profile" where
  "prepare_for U C G cfg client_auth early_data =
     (case alpn_validate (cfg_alpn_protocols cfg) of
        Inl _ \<Rightarrow> Inl BadConfig
      | Inr _ \<Rightarrow>
          and_then (ok_or BadConfig (validated_certificate_message_len U C (cfg_source cfg))) (\<lambda>certificate_len.
          if certificate_len > MAX_SIZE then Inl BadConfig
          else
            let maximum_alpn_len =
              (case maximum_of (map length (cfg_alpn_protocols cfg)) of None \<Rightarrow> 0 | Some n \<Rightarrow> n) in
            ok_or BadConfig (flight_profile_new certificate_len
              (signature_len_upper_bound G (source_signing_key (cfg_source cfg)))
              maximum_alpn_len client_auth early_data)))"

definition config_validate :: "unicode \<Rightarrow> crypto \<Rightarrow> 'k sign_ops \<Rightarrow> config \<Rightarrow> conn_error + unit" where
  "config_validate U C G cfg = and_then (prepare_for U C G cfg True True) (\<lambda>_. Inr ())"

record connection_config =
  cc_transport_params :: bytes

definition validate_with_transport :: "connection_config \<Rightarrow> mode \<Rightarrow> conn_error + unit" where
  "validate_with_transport c m =
     (if length (cc_transport_params c) > MAX_TRANSPORT_PARAMETERS_LEN then Inl BadConfig
      else if is_tls m \<and> cc_transport_params c \<noteq> [] then Inl BadConfig
      else Inr ())"

definition connection_validate :: "connection_config \<Rightarrow> conn_error + unit" where
  "connection_validate c = validate_with_transport c Tls"

subsection \<open>Workspace layout\<close>

record capacities =
  cp_fragmented_message :: nat
  cp_outbound_flight :: nat
  cp_peer_identity :: nat

definition layout_new :: "nat \<Rightarrow> nat \<Rightarrow> capacities" where
  "layout_new outbound_flight peer_identity =
     \<lparr>cp_fragmented_message = max MAX_PLAINTEXT_BODY peer_identity,
      cp_outbound_flight = max MAX_PLAINTEXT_BODY outbound_flight,
      cp_peer_identity = peer_identity\<rparr>"

definition layout_framed :: "nat \<Rightarrow> nat \<Rightarrow> capacities" where
  "layout_framed outbound_flight peer_identity =
     \<lparr>cp_fragmented_message = 0, cp_outbound_flight = outbound_flight, cp_peer_identity = peer_identity\<rparr>"

definition layout_allocate :: "capacities \<Rightarrow> scratch" where
  "layout_allocate l = scratch_new (cp_fragmented_message l) (cp_outbound_flight l) (cp_peer_identity l)"

definition layout_capacities :: "capacities \<Rightarrow> nat \<times> nat \<times> nat" where
  "layout_capacities l = (cp_fragmented_message l, cp_outbound_flight l, cp_peer_identity l)"

end
