(* ===== verification/Psk.thy ===== *)
theory Psk
  imports Views Schedule
begin

section \<open>Pre-shared keys\<close>

text \<open>
  \<open>wire/psk.rs\<close>: the \<open>psk_key_exchange_modes\<close> and \<open>pre_shared_key\<close> extension bodies and the
  resumption binder.  The binders are the last field of the ClientHello, so the transcript
  they are computed over is the ClientHello without them; \<open>bind_tail\<close> finds that prefix.
\<close>

definition KX_MODE_DHE :: u8 where "KX_MODE_DHE = 1"

record psk_identity =
  psk_identity_bytes :: bytes
  psk_obfuscated_ticket_age :: u32

definition kx_modes_encode :: "bytes \<Rightarrow> encode_error + bytes" where
  "kx_modes_encode modes =
     (case framed_u8 vec_encode (emit (put_slice vec_encode modes)) [] of
        (Inl e, out) \<Rightarrow> Inl e | (Inr _, out) \<Rightarrow> Inr out)"

definition kx_modes_decode :: "bytes \<Rightarrow> decode_error + bytes" where
  "kx_modes_decode data =
     and_then (framed_decode_u8 1 1 data) (\<lambda>(modes, r). and_then (reader_finish r) (\<lambda>_. Inr modes))"

definition kx_modes_contains :: "bytes \<Rightarrow> u8 \<Rightarrow> bool" where
  "kx_modes_contains modes mode \<longleftrightarrow> mode \<in> set modes"

record offer_ref =
  of_identity :: bytes
  of_obfuscated_ticket_age :: u32
  of_binder :: bytes

record offered_psks =
  op_encoded :: bytes
  op_identities :: bytes
  op_binders :: bytes
  op_first :: offer_ref
  op_count :: u16
  op_binders_wire_len :: nat

function identity_scan ::
    "reader \<Rightarrow> (bytes \<times> u32) option \<Rightarrow> nat \<Rightarrow> decode_error + (bytes \<times> u32) option \<times> nat" where
  "identity_scan r first count =
     (if r = [] then Inr (first, count)
      else and_then (framed_decode_u16 1 1 r) (\<lambda>(identity, r1).
           and_then (reader_u32 r1) (\<lambda>(age, r2).
           and_then (ok_or InvalidEnum (usize_checked_add count 1)) (\<lambda>count'.
           identity_scan r2 (if first = None then Some (identity, age) else first) count'))))"
  by pat_completeness auto
termination
  by (relation "measure (\<lambda>(r, f, c). length r)") (auto simp: framed_decode_u16_eq_Inr reader_u32_eq_Inr)

declare identity_scan.simps [simp del]

function binder_scan :: "reader \<Rightarrow> bytes option \<Rightarrow> nat \<Rightarrow> decode_error + bytes option \<times> nat" where
  "binder_scan r first count =
     (if r = [] then Inr (first, count)
      else and_then (framed_decode_u8 SHA256_LEN 1 r) (\<lambda>(binder, r1).
           and_then (ok_or InvalidEnum (usize_checked_add count 1)) (\<lambda>count'.
           binder_scan r1 (if first = None then Some binder else first) count')))"
  by pat_completeness auto
termination
  by (relation "measure (\<lambda>(r, f, c). length r)") (auto simp: framed_decode_u8_eq_Inr)

declare binder_scan.simps [simp del]

definition offered_psks_decode :: "bytes \<Rightarrow> decode_error + offered_psks" where
  "offered_psks_decode data =
     and_then (framed_decode_u16 7 1 data) (\<lambda>(identities, r).
     and_then (identity_scan identities None 0) (\<lambda>(first_identity, identity_count).
     let binders_wire_len = length r in
     and_then (framed_decode_u16 33 1 r) (\<lambda>(binders, r).
     and_then (reader_finish r) (\<lambda>_.
     and_then (binder_scan binders None 0) (\<lambda>(first_binder, binder_count).
     if identity_count = 0 \<or> identity_count \<noteq> binder_count then Inl Trailing
     else if identity_count \<ge> 2 ^ 16 then Inl InvalidEnum
     else (case (first_identity, first_binder) of
         (Some (identity, age), Some binder) \<Rightarrow>
           Inr \<lparr>op_encoded = data, op_identities = identities, op_binders = binders,
                op_first = \<lparr>of_identity = identity, of_obfuscated_ticket_age = age, of_binder = binder\<rparr>,
                op_count = word_of_nat identity_count, op_binders_wire_len = binders_wire_len\<rparr>
       | _ \<Rightarrow> Inl Trailing))))))"

definition identity_refs_next :: "reader \<Rightarrow> (psk_identity \<times> reader) option" where
  "identity_refs_next r =
     (if r = [] then None
      else case result_ok (reader_vec_u16 r) of
        None \<Rightarrow> None
      | Some (identity, r1) \<Rightarrow>
          (case result_ok (reader_u32 r1) of
             None \<Rightarrow> None
           | Some (age, r2) \<Rightarrow>
               Some (\<lparr>psk_identity_bytes = identity, psk_obfuscated_ticket_age = age\<rparr>, r2)))"

function identity_refs :: "reader \<Rightarrow> psk_identity list" where
  "identity_refs r = (case identity_refs_next r of None \<Rightarrow> [] | Some (x, r') \<Rightarrow> x # identity_refs r')"
  by pat_completeness auto
termination
  by (relation "measure length")
    (auto simp: identity_refs_next_def reader_vec_u16_eq_Inr reader_u32_eq_Inr split: if_splits option.splits)

declare identity_refs.simps [simp del]

definition binder_refs_next :: "reader \<Rightarrow> (bytes \<times> reader) option" where
  "binder_refs_next r = (if r = [] then None else result_ok (reader_vec_u8 r))"

function binder_refs :: "reader \<Rightarrow> bytes list" where
  "binder_refs r = (case binder_refs_next r of None \<Rightarrow> [] | Some (x, r') \<Rightarrow> x # binder_refs r')"
  by pat_completeness auto
termination
  by (relation "measure length") (auto simp: binder_refs_next_def reader_vec_u8_eq_Inr split: if_splits)

declare binder_refs.simps [simp del]

record tail =
  tail_first :: offer_ref
  tail_transcript_prefix :: bytes

definition ends_with :: "bytes \<Rightarrow> bytes \<Rightarrow> bool" where
  "ends_with xs ys \<longleftrightarrow> length ys \<le> length xs \<and> drop (length xs - length ys) xs = ys"

definition bind_tail :: "bytes \<Rightarrow> offered_psks \<Rightarrow> decode_error + tail" where
  "bind_tail client_hello o1 =
     (if \<not> ends_with client_hello (op_encoded o1) then Inl Trailing
      else if length client_hello < op_binders_wire_len o1 then Inl Underflow
      else Inr \<lparr>tail_first = op_first o1,
                tail_transcript_prefix = take (length client_hello - op_binders_wire_len o1) client_hello\<rparr>)"

record offer =
  offer_identities :: "psk_identity list"
  offer_binders :: "bytes list"

definition offered_psks_into_owned :: "offered_psks \<Rightarrow> offer" where
  "offered_psks_into_owned o1 =
     \<lparr>offer_identities = identity_refs (op_identities o1), offer_binders = binder_refs (op_binders o1)\<rparr>"

definition offer_encode_identity :: "psk_identity \<Rightarrow> bytes writer" where
  "offer_encode_identity x =
     then_w (framed_u16 vec_encode (emit (put_slice vec_encode (psk_identity_bytes x))))
            (emit (put_u32 vec_encode (psk_obfuscated_ticket_age x)))"

definition offer_encode :: "offer \<Rightarrow> encode_error + bytes" where
  "offer_encode off =
     (case then_w (framed_u16 vec_encode (for_each_w offer_encode_identity (offer_identities off)))
         (framed_u16 vec_encode
           (for_each_w (\<lambda>b. framed_u8 vec_encode (emit (put_slice vec_encode b))) (offer_binders off))) [] of
        (Inl e, out) \<Rightarrow> Inl e | (Inr _, out) \<Rightarrow> Inr out)"

definition selected_identity_encode :: "u16 \<Rightarrow> bytes" where
  "selected_identity_encode v = put_u16 vec_encode v []"

definition selected_identity_decode :: "bytes \<Rightarrow> decode_error + u16" where
  "selected_identity_decode data =
     and_then (reader_u16 data) (\<lambda>(v, r). and_then (reader_finish r) (\<lambda>_. Inr v))"

definition resumption_binder :: "crypto \<Rightarrow> bytes \<Rightarrow> bytes \<Rightarrow> hkdf_error + bytes" where
  "resumption_binder C psk partial_ch_hash =
     (let early_secret = hkdf_extract C RESUMPTION_HASH (replicate SHA256_LEN 0) psk in
      and_then (derive_secret C RESUMPTION_HASH (as_slice early_secret) ''res binder''
        (as_slice (hash_empty C RESUMPTION_HASH))) (\<lambda>binder_key.
      and_then (hkdf_expand_label C RESUMPTION_HASH (as_slice binder_key) ''finished'' []
        (replicate SHA256_LEN 0)) (\<lambda>finished_key.
      Inr (ring_hmac C RESUMPTION_HASH finished_key partial_ch_hash))))"

subsection \<open>Reference encoding\<close>

definition identity_bytes :: "psk_identity \<Rightarrow> bytes" where
  "identity_bytes x = vec16 (psk_identity_bytes x) @ be_bytes 4 (unat (psk_obfuscated_ticket_age x))"

definition identities_bytes :: "psk_identity list \<Rightarrow> bytes" where
  "identities_bytes xs = concat (map identity_bytes xs)"

definition binders_bytes :: "bytes list \<Rightarrow> bytes" where
  "binders_bytes bs = concat (map vec8 bs)"

text \<open>Offers the wire format admits: as many binders as identities, each of a legal size.\<close>

definition offer_ok :: "offer \<Rightarrow> bool" where
  "offer_ok off \<longleftrightarrow>
     offer_identities off \<noteq> [] \<and> length (offer_binders off) = length (offer_identities off) \<and>
     (\<forall>x\<in>set (offer_identities off). psk_identity_bytes x \<noteq> [] \<and> length (psk_identity_bytes x) < 2 ^ 16) \<and>
     (\<forall>b\<in>set (offer_binders off). SHA256_LEN \<le> length b \<and> length b < 2 ^ 8) \<and>
     length (identities_bytes (offer_identities off)) < 2 ^ 16 \<and>
     length (binders_bytes (offer_binders off)) < 2 ^ 16"

lemma offer_encode_bytes:
  assumes "offer_ok off"
  shows "offer_encode off =
    Inr (vec16 (identities_bytes (offer_identities off)) @ vec16 (binders_bytes (offer_binders off)))"
proof -
  let ?emits = "emits_on (\<lambda>_. True) (\<lambda>_ _. True) (@)"
  have "?emits (for_each_w offer_encode_identity (offer_identities off)) (identities_bytes (offer_identities off))"
    unfolding identities_bytes_def offer_encode_identity_def
    by (rule vec.emits_for_each, unfold identity_bytes_def)
      (use assms in \<open>auto simp: offer_ok_def intro!: vec.emits_fields\<close>)
  moreover have "?emits (for_each_w (\<lambda>b. framed_u8 vec_encode (emit (put_slice vec_encode b))) (offer_binders off))
      (binders_bytes (offer_binders off))"
    unfolding binders_bytes_def
    by (rule vec.emits_for_each) (use assms in \<open>auto simp: offer_ok_def intro!: vec.emits_fields\<close>)
  ultimately have "?emits (then_w (framed_u16 vec_encode (for_each_w offer_encode_identity (offer_identities off)))
      (framed_u16 vec_encode
        (for_each_w (\<lambda>b. framed_u8 vec_encode (emit (put_slice vec_encode b))) (offer_binders off))))
      (vec16 (identities_bytes (offer_identities off)) @ vec16 (binders_bytes (offer_binders off)))"
    using assms by (intro vec.emits_fields) (auto simp: offer_ok_def)
  from vec.emitsD [OF this, of "[]"] show ?thesis by (simp add: offer_encode_def)
qed

subsection \<open>The scans\<close>

definition identity_ok :: "psk_identity \<Rightarrow> bool" where
  "identity_ok x \<longleftrightarrow> psk_identity_bytes x \<noteq> [] \<and> length (psk_identity_bytes x) < 2 ^ 16"

definition binder_ok :: "bytes \<Rightarrow> bool" where
  "binder_ok b \<longleftrightarrow> SHA256_LEN \<le> length b \<and> length b < 2 ^ 8"

text \<open>\<open>first.or(head of the list)\<close>.\<close>

definition first_of :: "'b option \<Rightarrow> ('a \<Rightarrow> 'b) \<Rightarrow> 'a list \<Rightarrow> 'b option" where
  "first_of first f xs = (case first of Some y \<Rightarrow> Some y | None \<Rightarrow> (case xs of [] \<Rightarrow> None | x # _ \<Rightarrow> Some (f x)))"

lemma first_of_simps [simp]:
  "first_of first f [] = first"
  "first_of (if first = None then Some (f x) else first) f xs = first_of first f (x # xs)"
  "first_of None f (x # xs) = Some (f x)" "first_of (Some y) f xs = Some y"
  by (auto simp: first_of_def split: option.splits)

lemma list_bytes_simps [simp]:
  "identities_bytes [] = []" "identities_bytes (x # xs) = identity_bytes x @ identities_bytes xs"
  "binders_bytes [] = []" "binders_bytes (b # bs) = vec8 b @ binders_bytes bs"
  by (simp_all add: identities_bytes_def binders_bytes_def)

lemma vec_nonempty [simp]: "vec8 b \<noteq> []" "vec16 b \<noteq> []"
  by (metis length_vec add_is_0 list.size(3) one_neq_zero, metis length_vec(2) add_is_0 list.size(3) zero_neq_numeral)

lemma framed_decode_u16_vec: "framed_decode_u16 m 1 r = Inr (x, r') \<longleftrightarrow> m \<le> length x \<and> length x < 2 ^ 16 \<and> r = vec16 x @ r'"
  by (simp add: framed_decode_u16_eq_Inr vec16_def)

lemma framed_decode_u8_vec: "framed_decode_u8 m 1 r = Inr (x, r') \<longleftrightarrow> m \<le> length x \<and> length x < 2 ^ 8 \<and> r = vec8 x @ r'"
  by (simp add: framed_decode_u8_eq_Inr vec8_def)

lemmas framed_vec = framed_decode_u8_vec framed_decode_u16_vec
  framed_decode_u8_vec [unfolded One_nat_def] framed_decode_u16_vec [unfolded One_nat_def]

lemma identity_run:
  "identity_ok x \<Longrightarrow> framed_decode_u16 1 1 (identity_bytes x @ r) =
     Inr (psk_identity_bytes x, be_bytes 4 (unat (psk_obfuscated_ticket_age x)) @ r)"
  by (simp add: framed_vec identity_bytes_def identity_ok_def Suc_le_eq)

lemma u32_run: "reader_u32 (be_bytes 4 (unat v) @ r) = Inr (v, r)"
  by (simp add: reader_u32_eq_Inr)

lemma identity_scan_run:
  "\<forall>x\<in>set xs. identity_ok x \<Longrightarrow> count + length xs \<le> usize_max \<Longrightarrow>
     identity_scan (identities_bytes xs) first count =
       Inr (first_of first (\<lambda>x. (psk_identity_bytes x, psk_obfuscated_ticket_age x)) xs, count + length xs)"
proof (induction xs arbitrary: first count)
  case (Cons x xs)
  have "identity_bytes x @ identities_bytes xs \<noteq> []" by (simp add: identity_bytes_def)
  moreover have "usize_checked_add count 1 = Some (count + 1)"
    using Cons.prems(2) by (simp add: usize_checked_add_def)
  ultimately show ?case
    using Cons by (subst identity_scan.simps) (auto simp: identity_run [unfolded One_nat_def] u32_run)
qed (simp add: identity_scan.simps)

lemma identity_scan_sound:
  "identity_scan r first count = Inr (f, c) \<Longrightarrow>
     \<exists>xs. r = identities_bytes xs \<and> (\<forall>x\<in>set xs. identity_ok x) \<and> c = count + length xs \<and>
       f = first_of first (\<lambda>x. (psk_identity_bytes x, psk_obfuscated_ticket_age x)) xs"
proof (induction r first count rule: identity_scan.induct)
  case (1 r first count)
  show ?case
  proof (cases "r = []")
    case True
    then show ?thesis using "1.prems" by (intro exI [of _ "[]"]) (simp add: identity_scan.simps)
  next
    case False
    then obtain i r1 age r2 where i: "framed_decode_u16 1 1 r = Inr (i, r1)" "reader_u32 r1 = Inr (age, r2)"
      and rest: "identity_scan r2 (if first = None then Some (i, age) else first) (count + 1) = Inr (f, c)"
      and n: "usize_checked_add count 1 = Some (count + 1)"
      using "1.prems" by (subst (asm) identity_scan.simps)
        (auto simp: and_then_eq_Inr usize_checked_add_def split: if_splits)
    let ?x = "\<lparr>psk_identity_bytes = i, psk_obfuscated_ticket_age = age\<rparr>"
    have "ok_or InvalidEnum (usize_checked_add count 1) = Inr (count + 1)" using n by simp
    from "1.IH" [OF False i(1) refl i(2) refl this rest]
    obtain xs where xs: "r2 = identities_bytes xs" "\<forall>x\<in>set xs. identity_ok x" "c = count + 1 + length xs"
      "f = first_of (if first = None then Some (i, age) else first)
        (\<lambda>x. (psk_identity_bytes x, psk_obfuscated_ticket_age x)) xs" by blast
    have "r = identity_bytes ?x @ r2" "identity_ok ?x"
      using i by (auto simp: framed_vec reader_u32_eq_Inr identity_bytes_def identity_ok_def)
    then show ?thesis
      using xs by (intro exI [of _ "?x # xs"]) auto
  qed
qed

lemma binder_run: "binder_ok b \<Longrightarrow> framed_decode_u8 SHA256_LEN 1 (vec8 b @ r) = Inr (b, r)"
  by (simp add: framed_vec binder_ok_def)

lemma binder_scan_run:
  "\<forall>b\<in>set bs. binder_ok b \<Longrightarrow> count + length bs \<le> usize_max \<Longrightarrow>
     binder_scan (binders_bytes bs) first count = Inr (first_of first (\<lambda>b. b) bs, count + length bs)"
proof (induction bs arbitrary: first count)
  case (Cons b bs)
  moreover have "usize_checked_add count 1 = Some (count + 1)"
    using Cons.prems(2) by (simp add: usize_checked_add_def)
  ultimately show ?case
    using first_of_simps(2) [of first "\<lambda>b. b" b bs]
    by (subst binder_scan.simps) (simp add: binder_run [unfolded One_nat_def])
qed (simp add: binder_scan.simps)

lemma binder_scan_sound:
  "binder_scan r first count = Inr (f, c) \<Longrightarrow>
     \<exists>bs. r = binders_bytes bs \<and> (\<forall>b\<in>set bs. binder_ok b) \<and> c = count + length bs \<and>
       f = first_of first (\<lambda>b. b) bs"
proof (induction r first count rule: binder_scan.induct)
  case (1 r first count)
  show ?case
  proof (cases "r = []")
    case True
    then show ?thesis using "1.prems" by (intro exI [of _ "[]"]) (simp add: binder_scan.simps)
  next
    case False
    then obtain b r1 where b: "framed_decode_u8 SHA256_LEN 1 r = Inr (b, r1)"
      and rest: "binder_scan r1 (if first = None then Some b else first) (count + 1) = Inr (f, c)"
      and n: "usize_checked_add count 1 = Some (count + 1)"
      using "1.prems" by (subst (asm) binder_scan.simps)
        (auto simp: and_then_eq_Inr usize_checked_add_def split: if_splits)
    have "ok_or InvalidEnum (usize_checked_add count 1) = Inr (count + 1)" using n by simp
    from "1.IH" [OF False b refl this rest]
    obtain bs where bs: "r1 = binders_bytes bs" "\<forall>b\<in>set bs. binder_ok b" "c = count + 1 + length bs"
      "f = first_of (if first = None then Some b else first) (\<lambda>b. b) bs" by blast
    have "r = vec8 b @ r1" "binder_ok b" using b by (auto simp: framed_vec binder_ok_def)
    then show ?thesis
      using bs first_of_simps(2) [of first "\<lambda>b. b" b bs] by (intro exI [of _ "b # bs"]) simp
  qed
qed

lemma identity_refs_run: "\<forall>x\<in>set xs. identity_ok x \<Longrightarrow> identity_refs (identities_bytes xs) = xs"
proof (induction xs)
  case (Cons x xs)
  have "reader_vec_u16 (identity_bytes x @ identities_bytes xs) =
      Inr (psk_identity_bytes x, be_bytes 4 (unat (psk_obfuscated_ticket_age x)) @ identities_bytes xs)"
    using Cons.prems by (simp add: reader_vec_u16_eq_Inr identity_bytes_def vec16_def identity_ok_def)
  moreover have "identity_bytes x @ identities_bytes xs \<noteq> []" by (simp add: identity_bytes_def)
  ultimately show ?case
    using Cons by (subst identity_refs.simps) (simp add: identity_refs_next_def u32_run)
qed (simp add: identity_refs.simps identity_refs_next_def)

lemma binder_refs_run: "\<forall>b\<in>set bs. binder_ok b \<Longrightarrow> binder_refs (binders_bytes bs) = bs"
proof (induction bs)
  case (Cons b bs)
  have "reader_vec_u8 (vec8 b @ binders_bytes bs) = Inr (b, binders_bytes bs)"
    using Cons.prems by (simp add: reader_vec_u8_eq_Inr vec8_def binder_ok_def)
  then show ?case using Cons by (subst binder_refs.simps) (simp add: binder_refs_next_def)
qed (simp add: binder_refs.simps binder_refs_next_def)

lemma offer_ok_iff:
  "offer_ok off \<longleftrightarrow>
     offer_identities off \<noteq> [] \<and> length (offer_binders off) = length (offer_identities off) \<and>
     (\<forall>x\<in>set (offer_identities off). identity_ok x) \<and> (\<forall>b\<in>set (offer_binders off). binder_ok b) \<and>
     length (identities_bytes (offer_identities off)) < 2 ^ 16 \<and>
     length (binders_bytes (offer_binders off)) < 2 ^ 16"
  by (simp add: offer_ok_def identity_ok_def binder_ok_def)

lemma length_identities: "\<forall>x\<in>set xs. identity_ok x \<Longrightarrow> 7 * length xs \<le> length (identities_bytes xs)"
proof (induction xs)
  case (Cons x xs)
  then have "1 \<le> length (psk_identity_bytes x)" by (simp add: identity_ok_def Suc_le_eq)
  then show ?case using Cons by (simp add: identity_bytes_def)
qed simp

lemma length_binders: "\<forall>b\<in>set bs. binder_ok b \<Longrightarrow> 33 * length bs \<le> length (binders_bytes bs)"
  by (induction bs) (auto simp: binder_ok_def SHA256_LEN_def)

text \<open>Decoding is exactly the inverse of the reference encoding.\<close>

definition offer_view :: "offer \<Rightarrow> offered_psks" where
  "offer_view off =
     \<lparr>op_encoded = vec16 (identities_bytes (offer_identities off)) @ vec16 (binders_bytes (offer_binders off)),
      op_identities = identities_bytes (offer_identities off), op_binders = binders_bytes (offer_binders off),
      op_first = \<lparr>of_identity = psk_identity_bytes (hd (offer_identities off)),
        of_obfuscated_ticket_age = psk_obfuscated_ticket_age (hd (offer_identities off)),
        of_binder = hd (offer_binders off)\<rparr>,
      op_count = word_of_nat (length (offer_identities off)),
      op_binders_wire_len = 2 + length (binders_bytes (offer_binders off))\<rparr>"

lemma offered_psks_decode_iff:
  "offered_psks_decode data = Inr v \<longleftrightarrow> (\<exists>off. offer_ok off \<and> v = offer_view off \<and> data = op_encoded v)"
proof
  assume "offered_psks_decode data = Inr v"
  then obtain ids r fi ic bs fb where
    d: "framed_decode_u16 7 1 data = Inr (ids, r)" "identity_scan ids None 0 = Inr (fi, ic)"
      "framed_decode_u16 33 1 r = Inr (bs, [])" "binder_scan bs None 0 = Inr (fb, ic)" "ic \<noteq> 0"
    and v: "(case (fi, fb) of
         (Some (identity, age), Some binder) \<Rightarrow>
           Inr \<lparr>op_encoded = data, op_identities = ids, op_binders = bs,
                op_first = \<lparr>of_identity = identity, of_obfuscated_ticket_age = age, of_binder = binder\<rparr>,
                op_count = word_of_nat ic, op_binders_wire_len = length r\<rparr>
       | _ \<Rightarrow> Inl Trailing) = Inr v"
    unfolding offered_psks_decode_def Let_def
    by (auto simp: and_then_eq_Inr reader_finish_eq_Inr simp del: One_nat_def split: if_splits)
  obtain xs where xs: "ids = identities_bytes xs" "\<forall>x\<in>set xs. identity_ok x" "ic = length xs"
    "fi = first_of None (\<lambda>x. (psk_identity_bytes x, psk_obfuscated_ticket_age x)) xs"
    using identity_scan_sound [OF d(2)] by auto
  obtain ys where ys: "bs = binders_bytes ys" "\<forall>b\<in>set ys. binder_ok b" "ic = length ys"
    "fb = first_of None (\<lambda>b. b) ys"
    using binder_scan_sound [OF d(4)] by auto
  let ?off = "\<lparr>offer_identities = xs, offer_binders = ys\<rparr>"
  have "offer_ok ?off"
    using xs ys d by (auto simp: offer_ok_iff framed_decode_u16_vec simp del: One_nat_def)
  moreover have "v = offer_view ?off"
    using v d(1,3,5) xs ys
    by (cases xs; cases ys) (auto simp: offer_view_def framed_decode_u16_vec simp del: One_nat_def)
  moreover have "data = op_encoded (offer_view ?off)"
    using d(1,3) xs(1) ys(1) by (simp add: offer_view_def framed_decode_u16_vec del: One_nat_def)
  ultimately show "\<exists>off. offer_ok off \<and> v = offer_view off \<and> data = op_encoded v" by blast
next
  assume "\<exists>off. offer_ok off \<and> v = offer_view off \<and> data = op_encoded v"
  then obtain off where off: "offer_ok off" "v = offer_view off" "data = op_encoded v" by blast
  let ?i = "offer_identities off" and ?b = "offer_binders off"
  have o: "?i \<noteq> []" "length ?b = length ?i" "\<forall>x\<in>set ?i. identity_ok x" "\<forall>b\<in>set ?b. binder_ok b"
    "length (identities_bytes ?i) < 2 ^ 16" "length (binders_bytes ?b) < 2 ^ 16"
    using off(1) by (simp_all add: offer_ok_iff)
  have n: "1 \<le> length ?i" using o(1) by (simp add: Suc_le_eq)
  have li: "7 \<le> length (identities_bytes ?i)" "length ?i < 2 ^ 16"
    using length_identities [OF o(3)] o(5) n by simp_all
  have lb: "33 \<le> length (binders_bytes ?b)" using length_binders [OF o(4)] o(2) n by simp
  have small: "0 + length ?i \<le> usize_max" "0 + length ?b \<le> usize_max"
    using li(2) o(2) by (simp_all add: usize_max_def)
  have "framed_decode_u16 7 1 data = Inr (identities_bytes ?i, vec16 (binders_bytes ?b))"
    "framed_decode_u16 33 1 (vec16 (binders_bytes ?b)) = Inr (binders_bytes ?b, [])"
    using off li lb o by (simp_all add: framed_vec offer_view_def)
  moreover obtain x xs y ys where "?i = x # xs" "?b = y # ys"
    using o(1,2) by (metis length_0_conv list.exhaust)
  ultimately show "offered_psks_decode data = Inr v"
    using identity_scan_run [OF o(3) small(1), of None] binder_scan_run [OF o(4) small(2), of None] li(2) o(1,2) off
    unfolding offered_psks_decode_def Let_def by (simp add: reader_finish_def offer_view_def)
qed

lemma offer_view_owned: "offer_ok off \<Longrightarrow> offered_psks_into_owned (offer_view off) = off"
  by (simp add: offered_psks_into_owned_def offer_view_def offer_ok_iff identity_refs_run binder_refs_run)

lemma bind_tail_append:
  "op_encoded v = i @ vec16 b \<Longrightarrow> op_binders_wire_len v = 2 + length b \<Longrightarrow>
     bind_tail (hello @ op_encoded v) v =
       Inr \<lparr>tail_first = op_first v, tail_transcript_prefix = hello @ i\<rparr>"
  by (simp add: bind_tail_def ends_with_def)

subsection \<open>Properties\<close>

text \<open>
  Offers survive the wire.  An offer with one binder per identity and all sizes legal
  encodes; decoding the bytes gives it back with its count; and for a ClientHello that ends
  in the extension, \<open>bind_tail\<close> splits off exactly the binders: the transcript prefix is the
  hello up to and including the identities, and the first identity and binder are those of
  the offer.
\<close>

theorem psk_offer_roundtrip:
  assumes "offer_ok off"
  shows "\<exists>bytes v t. offer_encode off = Inr bytes \<and> offered_psks_decode bytes = Inr v \<and>
    offered_psks_into_owned v = off \<and> unat (op_count v) = length (offer_identities off) \<and>
    bind_tail (hello @ bytes) v = Inr t \<and>
    hello @ bytes = tail_transcript_prefix t @ vec16 (binders_bytes (offer_binders off)) \<and>
    of_identity (tail_first t) = psk_identity_bytes (hd (offer_identities off)) \<and>
    of_binder (tail_first t) = hd (offer_binders off)"
proof -
  let ?v = "offer_view off"
  have enc: "offer_encode off = Inr (op_encoded ?v)"
    using offer_encode_bytes [OF assms] by (simp add: offer_view_def)
  have "offered_psks_decode (op_encoded ?v) = Inr ?v"
    unfolding offered_psks_decode_iff using assms by blast
  moreover have "length (offer_identities off) < 2 ^ 16"
    using assms length_identities [of "offer_identities off"] by (simp add: offer_ok_iff)
  then have "unat (op_count ?v) = length (offer_identities off)"
    by (simp add: offer_view_def unat_of_nat)
  moreover have "bind_tail (hello @ op_encoded ?v) ?v = Inr \<lparr>tail_first = op_first ?v,
      tail_transcript_prefix = hello @ vec16 (identities_bytes (offer_identities off))\<rparr>"
    by (rule bind_tail_append) (simp_all add: offer_view_def)
  ultimately show ?thesis
    using enc offer_view_owned [OF assms] by (auto simp: offer_view_def)
qed

definition sample_offer :: offer where
  "sample_offer = \<lparr>offer_identities = [\<lparr>psk_identity_bytes = [7], psk_obfuscated_ticket_age = 9\<rparr>],
     offer_binders = [replicate 32 1]\<rparr>"

lemma sample_offer_ok: "offer_ok sample_offer"
  by (simp add: sample_offer_def offer_ok_iff identity_ok_def binder_ok_def SHA256_LEN_def identity_bytes_def)

theorem psk_offer_roundtrip_witness:
  "\<exists>bytes v t. offer_encode sample_offer = Inr bytes \<and> offered_psks_decode bytes = Inr v \<and>
    offered_psks_into_owned v = sample_offer \<and> unat (op_count v) = length (offer_identities sample_offer) \<and>
    bind_tail ([1, 2] @ bytes) v = Inr t \<and>
    [1, 2] @ bytes = tail_transcript_prefix t @ vec16 (binders_bytes (offer_binders sample_offer)) \<and>
    of_identity (tail_first t) = psk_identity_bytes (hd (offer_identities sample_offer)) \<and>
    of_binder (tail_first t) = hd (offer_binders sample_offer)"
  by (rule psk_offer_roundtrip [OF sample_offer_ok])

text \<open>
  Only canonical offers decode.  Bytes accepted by \<open>OfferedPsks::decode\<close> are the encoding of
  the offer they decode to, and that offer is legal: as many binders as identities, none
  empty, every binder at least a SHA-256 digest long.
\<close>

theorem psk_decode_canonical:
  assumes "offered_psks_decode data = Inr v"
  shows "offer_ok (offered_psks_into_owned v) \<and> offer_encode (offered_psks_into_owned v) = Inr data"
proof -
  from assms obtain off where off: "offer_ok off" "v = offer_view off" "data = op_encoded v"
    unfolding offered_psks_decode_iff by blast
  then show ?thesis
    using offer_view_owned [OF off(1)] offer_encode_bytes [OF off(1)] by (simp add: offer_view_def)
qed

theorem psk_decode_canonical_witness:
  "offer_ok (offered_psks_into_owned (offer_view sample_offer)) \<and>
   offer_encode (offered_psks_into_owned (offer_view sample_offer)) = Inr (op_encoded (offer_view sample_offer))"
  by (rule psk_decode_canonical) (use sample_offer_ok in \<open>auto simp: offered_psks_decode_iff\<close>)

end
