(* ===== verification/ServerNegotiation.thy ===== *)
theory ServerNegotiation
  imports ServerConfig Psk "HOL-Library.Sublist"
begin

section \<open>What a ClientHello offers\<close>

text \<open>
  \<open>server/session/negotiation.rs\<close>: the pass over the ClientHello's extensions, the selection of
  an application protocol, and the key-exchange decision.  \<open>client_kx_parse\<close> reads
  \<open>supported_groups\<close> and \<open>key_share\<close> in one interleaved pass with two bit masks; the theorem
  \<open>client_kx_correct\<close> equates it with RFC 8446's requirements on the two lists.
\<close>

subsection \<open>Key exchange\<close>

record peer_share =
  ps_group :: kex_group
  ps_key_exchange :: bytes

record client_kx =
  ck_selected :: "peer_share option"
  ck_retry_group :: kex_group
  ck_share_count :: u16

definition local_group :: "u16 \<Rightarrow> (u8 \<times> kex_group) option" where
  "local_group grp =
     find_map (\<lambda>(rank, candidate). if kex_group_wire_id candidate = grp then Some (word_of_nat rank, candidate) else None)
       (enumerate 0 SUPPORTED_KEX_GROUPS)"

unbundle bit_operations_syntax

definition note_supported :: "u16 \<Rightarrow> u8 \<Rightarrow> conn_error + u8" where
  "note_supported grp mask1 =
     (case local_group grp of
        None \<Rightarrow> Inr mask1
      | Some (rank, _) \<Rightarrow>
          let b = push_bit (unat rank) 1 in
          if mask1 AND b \<noteq> 0 then Inl IllegalParameter else Inr (mask1 OR b))"

text \<open>The inner loop of \<open>ClientKx::parse\<close>: read groups up to the one the share is for.\<close>

function groups_until :: "u16 \<Rightarrow> reader \<Rightarrow> u8 \<Rightarrow> conn_error + bool \<times> reader \<times> u8" where
  "groups_until group_id groups mask1 =
     (if groups = [] then Inr (False, groups, mask1)
      else and_then (map_err error_of_decode (reader_u16 groups)) (\<lambda>(supported, groups).
           and_then (note_supported supported mask1) (\<lambda>mask1.
           if supported = group_id then Inr (True, groups, mask1)
           else groups_until group_id groups mask1)))"
  by pat_completeness auto
termination
  by (relation "measure (\<lambda>(g, r, m). length r)") (auto simp: reader_u16_eq_Inr)

declare groups_until.simps [simp del]

function groups_rest :: "reader \<Rightarrow> u8 \<Rightarrow> conn_error + u8" where
  "groups_rest groups mask1 =
     (if groups = [] then Inr mask1
      else and_then (map_err error_of_decode (reader_u16 groups)) (\<lambda>(supported, groups).
           and_then (note_supported supported mask1) (\<lambda>mask1. groups_rest groups mask1)))"
  by pat_completeness auto
termination
  by (relation "measure (\<lambda>(r, m). length r)") (auto simp: reader_u16_eq_Inr)

declare groups_rest.simps [simp del]

record kx_scan =
  kc_groups :: reader
  kc_supported_mask :: u8
  kc_shared_mask :: u8
  kc_selected :: "peer_share option"
  kc_selected_rank :: u8
  kc_share_count :: u16

definition note_share :: "u16 \<Rightarrow> bytes \<Rightarrow> kx_scan \<Rightarrow> conn_error + kx_scan" where
  "note_share group_id key_exchange s =
     (case local_group group_id of
        None \<Rightarrow> Inr s
      | Some (rank, grp) \<Rightarrow>
          let b = push_bit (unat rank) 1 in
          if kc_shared_mask s AND b \<noteq> 0 then Inl IllegalParameter
          else
            let s = s\<lparr>kc_shared_mask := kc_shared_mask s OR b\<rparr> in
            if rank < kc_selected_rank s
            then Inr (s\<lparr>kc_selected := Some \<lparr>ps_group = grp, ps_key_exchange = key_exchange\<rparr>, kc_selected_rank := rank\<rparr>)
            else Inr s)"

function shares_loop :: "reader \<Rightarrow> kx_scan \<Rightarrow> conn_error + kx_scan" where
  "shares_loop shares s =
     (if shares = [] then Inr s
      else and_then (map_err error_of_decode (reader_u16 shares)) (\<lambda>(group_id, r1).
           and_then (map_err error_of_decode (framed_decode_u16 1 1 r1)) (\<lambda>(key_exchange, r2).
           let s = s\<lparr>kc_share_count := kc_share_count s + 1\<rparr> in
           and_then (groups_until group_id (kc_groups s) (kc_supported_mask s)) (\<lambda>(matched, groups, m).
           let s = s\<lparr>kc_groups := groups, kc_supported_mask := m\<rparr> in
           if \<not> matched then Inl IllegalParameter
           else and_then (note_share group_id key_exchange s) (\<lambda>s. shares_loop r2 s)))))"
  by pat_completeness auto
termination
  by (relation "measure (\<lambda>(r, s). length r)") (auto simp: reader_u16_eq_Inr framed_decode_u16_eq_Inr)

declare shares_loop.simps [simp del]

definition client_kx_parse :: "bytes \<Rightarrow> bytes \<Rightarrow> conn_error + client_kx" where
  "client_kx_parse supported_groups key_shares =
     and_then (map_err error_of_decode (framed_decode_u16 2 2 supported_groups)) (\<lambda>(groups, r).
     and_then (map_err error_of_decode (reader_finish r)) (\<lambda>_.
     and_then (map_err error_of_decode (framed_decode_u16 0 1 key_shares)) (\<lambda>(shares, r).
     and_then (map_err error_of_decode (reader_finish r)) (\<lambda>_.
     and_then (shares_loop shares
         \<lparr>kc_groups = groups, kc_supported_mask = 0, kc_shared_mask = 0, kc_selected = None,
          kc_selected_rank = 255, kc_share_count = 0\<rparr>) (\<lambda>s.
     and_then (groups_rest (kc_groups s) (kc_supported_mask s)) (\<lambda>supported_mask.
     and_then (ok_or UnsupportedGroup
         (find_map (\<lambda>(rank, grp). if supported_mask AND push_bit rank 1 \<noteq> 0 then Some grp else None)
           (enumerate 0 SUPPORTED_KEX_GROUPS))) (\<lambda>retry_group.
     Inr \<lparr>ck_selected = kc_selected s, ck_retry_group = retry_group, ck_share_count = kc_share_count s\<rparr>)))))))"

definition require_retry :: "client_kx \<Rightarrow> kex_group \<Rightarrow> conn_error + unit" where
  "require_retry kx requested =
     (if ck_share_count kx \<noteq> 1 \<or> (case ck_selected kx of None \<Rightarrow> True | Some share \<Rightarrow> ps_group share \<noteq> requested)
      then Inl IllegalParameter else Inr ())"

subsection \<open>The offers\<close>

record hello_scan =
  hs_alpn :: "bytes option"
  hs_server_cert_types :: "bytes option"
  hs_client_cert_types :: "bytes option"
  hs_quic_transport_parameters :: "bytes option"
  hs_supported_groups :: "bytes option"
  hs_key_shares :: "bytes option"
  hs_psk_modes :: "bytes option"
  hs_offered_psks :: "offered_psks option"
  hs_early_data :: "unit option"

definition hello_scan_empty :: hello_scan where
  "hello_scan_empty =
     \<lparr>hs_alpn = None, hs_server_cert_types = None, hs_client_cert_types = None,
      hs_quic_transport_parameters = None, hs_supported_groups = None, hs_key_shares = None,
      hs_psk_modes = None, hs_offered_psks = None, hs_early_data = None\<rparr>"

text \<open>One turn of the loop over the extensions; \<open>peek\<close> says whether \<open>peek\<close> sees another one.\<close>

definition note_extension :: "extension \<Rightarrow> bool \<Rightarrow> hello_scan \<Rightarrow> conn_error + hello_scan" where
  "note_extension x peek s =
     (let ty = ext_ty x; data = ext_data x in
      if ty = APPLICATION_LAYER_PROTOCOL_NEGOTIATION then Inr (s\<lparr>hs_alpn := Some data\<rparr>)
      else if ty = SERVER_CERTIFICATE_TYPE then
        and_then (map_err (\<lambda>_. DecodeErr) (certificate_type_list_decode data)) (\<lambda>types.
        Inr (s\<lparr>hs_server_cert_types := Some types\<rparr>))
      else if ty = CLIENT_CERTIFICATE_TYPE then
        and_then (map_err (\<lambda>_. DecodeErr) (certificate_type_list_decode data)) (\<lambda>types.
        Inr (s\<lparr>hs_client_cert_types := Some types\<rparr>))
      else if ty = QUIC_TRANSPORT_PARAMETERS then Inr (s\<lparr>hs_quic_transport_parameters := Some data\<rparr>)
      else if ty = SUPPORTED_GROUPS then Inr (s\<lparr>hs_supported_groups := Some data\<rparr>)
      else if ty = KEY_SHARE then Inr (s\<lparr>hs_key_shares := Some data\<rparr>)
      else if ty = PSK_KEY_EXCHANGE_MODES then
        and_then (map_err error_of_decode (kx_modes_decode data)) (\<lambda>modes. Inr (s\<lparr>hs_psk_modes := Some modes\<rparr>))
      else if ty = PRE_SHARED_KEY then
        (if peek then Inl IllegalParameter
         else and_then (map_err error_of_decode (offered_psks_decode data)) (\<lambda>o1. Inr (s\<lparr>hs_offered_psks := Some o1\<rparr>)))
      else if ty = EARLY_DATA then
        and_then (map_err error_of_decode (early_data_signal_decode data)) (\<lambda>u. Inr (s\<lparr>hs_early_data := Some u\<rparr>))
      else Inr s)"

fun note_extensions :: "extension list \<Rightarrow> hello_scan \<Rightarrow> conn_error + hello_scan" where
  "note_extensions [] s = Inr s"
| "note_extensions (x # xs) s = and_then (note_extension x (xs \<noteq> []) s) (\<lambda>s. note_extensions xs s)"

record client_hello_offers =
  off_alpn :: "bytes option"
  off_server_cert_types :: "bytes option"
  off_client_cert_types :: "bytes option"
  off_quic_transport_parameters :: "bytes option"
  off_psk :: "tail option"
  off_kx :: client_kx
  off_early_data :: "unit option"

definition offers_parse :: "bytes \<Rightarrow> bytes \<Rightarrow> conn_error + client_hello_offers" where
  "offers_parse extensions client_hello =
     and_then (note_extensions (extensions_iter extensions) hello_scan_empty) (\<lambda>s.
     and_then (case hs_offered_psks s of
         Some offered \<Rightarrow>
           and_then (ok_or MissingExtension (hs_psk_modes s)) (\<lambda>modes.
           if kx_modes_contains modes KX_MODE_DHE
           then and_then (map_err error_of_decode (bind_tail client_hello offered)) (\<lambda>t. Inr (Some t))
           else Inr None)
       | None \<Rightarrow> Inr None) (\<lambda>psk.
     and_then (ok_or MissingExtension (hs_supported_groups s)) (\<lambda>supported_groups.
     and_then (ok_or MissingExtension (hs_key_shares s)) (\<lambda>key_shares.
     and_then (client_kx_parse supported_groups key_shares) (\<lambda>kx.
     Inr \<lparr>off_alpn = hs_alpn s, off_server_cert_types = hs_server_cert_types s,
          off_client_cert_types = hs_client_cert_types s,
          off_quic_transport_parameters = hs_quic_transport_parameters s, off_psk = psk, off_kx = kx,
          off_early_data = hs_early_data s\<rparr>)))))"

definition select_alpn :: "client_hello_offers \<Rightarrow> prepared_alpn \<Rightarrow> conn_error + alpn_id option" where
  "select_alpn offers supported =
     (if prepared_alpn_is_empty supported then Inr None
      else case off_alpn offers of
        None \<Rightarrow> Inr None
      | Some encoded \<Rightarrow>
          and_then (map_err (\<lambda>_. DecodeErr) (alpn_decode encoded)) (\<lambda>offered.
          let selected = fold (\<lambda>protocol selected.
                (case alpn_find supported protocol of
                   None \<Rightarrow> selected
                 | Some candidate \<Rightarrow>
                     Some (case selected of None \<Rightarrow> candidate | Some current \<Rightarrow> Orderings.min current candidate)))
                (alpn_iter (alpn_encoded offered)) None in
          if selected = None \<and> \<not> alpn_is_empty offered then Inl NoApplicationProtocol else Inr selected))"

record negotiation =
  ng_server_type :: certificate_type
  ng_client_type :: certificate_type

definition negotiation_new :: "client_hello_offers \<Rightarrow> cert_source \<Rightarrow> conn_error + negotiation" where
  "negotiation_new offers source =
     (let server_type = source_cert_type source in
      if (case off_server_cert_types offers of None \<Rightarrow> False
          | Some types \<Rightarrow> \<not> certificate_type_list_contains types server_type)
      then Inl UnexpectedMessage
      else Inr \<lparr>ng_server_type = server_type,
                ng_client_type =
                  (case Option.bind (off_client_cert_types offers) certificate_type_list_select of
                     None \<Rightarrow> X509 | Some t \<Rightarrow> t)\<rparr>)"

subsection \<open>Masks as sets of groups\<close>

fun rank :: "kex_group \<Rightarrow> nat" where
  "rank X25519 = 0" | "rank Secp256r1 = 1" | "rank X25519Mlkem768 = 2"

definition marks :: "u8 \<Rightarrow> kex_group set" where
  "marks m = {g. bit m (rank g)}"

definition known :: "u16 list \<Rightarrow> kex_group list" where
  "known gs = List.map_filter kex_group_from_u16 gs"

lemma known_simps [simp]:
  "known [] = []"
  "known (g # gs) = (case kex_group_from_u16 g of None \<Rightarrow> known gs | Some k \<Rightarrow> k # known gs)"
  "known (gs @ hs) = known gs @ known hs"
  by (simp_all add: known_def List.map_filter_def split: option.splits)

lemma rank_less: "rank g < 3"
  by (cases g) simp_all

lemma rank_inj: "rank g = rank h \<longleftrightarrow> g = h"
  by (cases g; cases h) simp_all

lemma kex_group_from_u16_iff: "kex_group_from_u16 v = Some g \<longleftrightarrow> v = kex_group_wire_id g"
  by (cases g) (auto simp: kex_group_from_u16_def)

lemma local_group_eq: "local_group v = map_option (\<lambda>g. (word_of_nat (rank g), g)) (kex_group_from_u16 v)"
  by (simp add: local_group_def SUPPORTED_KEX_GROUPS_def kex_group_from_u16_def enumerate_eq_zip upt_rec)

lemma unat_rank [simp]: "unat (word_of_nat (rank g) :: u8) = rank g"
  by (cases g) simp_all

lemma rank_word_less:
  "(word_of_nat (rank g) :: u8) < word_of_nat (rank h) \<longleftrightarrow> rank g < rank h"
  "(word_of_nat (rank g) :: u8) < 255"
  by (cases g; cases h; simp)+

lemma mask_test: "m AND 2 ^ rank g = 0 \<longleftrightarrow> g \<notin> marks m" for m :: u8
  by (simp add: marks_def and_exp_eq_0_iff_not_bit)

lemma marks_or: "marks (m OR 2 ^ rank g) = insert g (marks m)"
proof -
  have "rank g < LENGTH(8)" using rank_less [of g] by simp
  then have "bit (m OR 2 ^ rank g) (rank h) \<longleftrightarrow> bit m (rank h) \<or> g = h" for h
    by (simp only: bit_or_iff bit_exp_iff possible_bit_word) (auto simp: rank_inj)
  then show ?thesis by (auto simp: marks_def)
qed

lemma marks_zero [simp]: "marks 0 = {}"
  by (simp add: marks_def)

lemma note_supported_eq:
  "note_supported v m =
     (case kex_group_from_u16 v of None \<Rightarrow> Inr m
      | Some g \<Rightarrow> if g \<in> marks m then Inl IllegalParameter else Inr (m OR 2 ^ rank g))"
  by (simp add: note_supported_def local_group_eq mask_test Let_def split: option.splits)

subsection \<open>The loops as list functions\<close>

fun note_all :: "u16 list \<Rightarrow> u8 \<Rightarrow> conn_error + u8" where
  "note_all [] m = Inr m"
| "note_all (g # gs) m = and_then (note_supported g m) (note_all gs)"

fun after :: "u16 \<Rightarrow> u16 list \<Rightarrow> u16 list option" where
  "after g [] = None"
| "after g (x # xs) = (if x = g then Some xs else after g xs)"

fun note_shares :: "(u16 \<times> bytes) list \<Rightarrow> kx_scan \<Rightarrow> conn_error + kx_scan" where
  "note_shares [] s = Inr s"
| "note_shares ((g, k) # ss) s =
     and_then (note_share g k (s\<lparr>kc_share_count := kc_share_count s + 1\<rparr>)) (note_shares ss)"

definition shares_bytes :: "(u16 \<times> bytes) list \<Rightarrow> bytes" where
  "shares_bytes ss = concat (map (\<lambda>(g, k). be_bytes 2 (unat g) @ vec16 k) ss)"

definition share_ok :: "u16 \<times> bytes \<Rightarrow> bool" where
  "share_ok s \<longleftrightarrow> snd s \<noteq> [] \<and> length (snd s) < 2 ^ 16"

lemma shares_bytes_simps [simp]:
  "shares_bytes [] = []"
  "shares_bytes ((g, k) # ss) = be_bytes 2 (unat g) @ vec16 k @ shares_bytes ss"
  by (simp_all add: shares_bytes_def)

lemma u16_nonempty [simp]: "be_bytes 2 n \<noteq> []"
  by (simp add: numeral_2_eq_2)

lemma reader_u16_run [simp]: "reader_u16 (be_bytes 2 (unat (v :: u16)) @ r) = Inr (v, r)"
  by (simp add: reader_u16_eq_Inr)

lemma note_all_append: "note_all (gs @ hs) m = and_then (note_all gs m) (note_all hs)"
proof (induction gs arbitrary: m)
  case (Cons g gs)
  then show ?case by (cases "note_supported g m") simp_all
qed simp

lemma groups_step [simp]:
  "groups_rest [] m = Inr m"
  "groups_rest (be_bytes 2 (unat (v :: u16)) @ r) m = and_then (note_supported v m) (groups_rest r)"
  "groups_until g [] m = Inr (False, [], m)"
  "groups_until g (be_bytes 2 (unat v) @ r) m =
     and_then (note_supported v m) (\<lambda>m. if v = g then Inr (True, r, m) else groups_until g r m)"
  by (simp_all add: groups_rest.simps [of "[]"] groups_rest.simps [of "be_bytes 2 n @ y" for n y]
      groups_until.simps [of _ "[]"] groups_until.simps [of _ "be_bytes 2 n @ y" for n y])

lemma groups_rest_bytes [simp]: "groups_rest (u16s_bytes gs) m = note_all gs m"
proof (induction gs arbitrary: m)
  case (Cons g gs)
  then show ?case by (cases "note_supported g m") simp_all
qed simp

lemma after_decompose: "after g gs = Some vs \<Longrightarrow> \<exists>us. gs = us @ g # vs"
  by (induction gs) (auto split: if_splits intro: exI [of _ "_ # _"] simp: Cons_eq_append_conv)

lemma subseq_after: "subseq (g # ss) gs \<longleftrightarrow> (\<exists>vs. after g gs = Some vs \<and> subseq ss vs)"
  by (induction gs) auto

lemma groups_until_found:
  "groups_until g (u16s_bytes gs) m = Inr (True, r, m') \<longleftrightarrow>
     (\<exists>vs. after g gs = Some vs \<and> r = u16s_bytes vs \<and>
           note_all (take (length gs - length vs) gs) m = Inr m')"
proof (induction gs arbitrary: m)
  case (Cons x xs)
  have split: "take (length (x # xs) - length vs) (x # xs) = x # take (length xs - length vs) xs"
    if "after g xs = Some vs" for vs
    using after_decompose [OF that] by (auto simp: Suc_diff_le)
  show ?case
  proof (cases "x = g")
    case True
    then show ?thesis by (auto simp: and_then_eq_Inr)
  next
    case False
    then show ?thesis by (auto simp: and_then_eq_Inr Cons.IH split simp del: take_Suc_Cons list.size)
  qed
qed simp

lemma note_all_after:
  assumes "after g gs = Some vs"
  shows "note_all gs m = and_then (note_all (take (length gs - length vs) gs) m) (note_all vs)"
proof -
  obtain us where "gs = us @ g # vs" using after_decompose [OF assms] by blast
  then have "take (length gs - length vs) gs @ vs = gs" by simp
  then show ?thesis by (metis note_all_append)
qed

definition with_groups :: "reader \<Rightarrow> u8 \<Rightarrow> kx_scan \<Rightarrow> kx_scan" where
  "with_groups a b s = s\<lparr>kc_groups := a, kc_supported_mask := b\<rparr>"

lemma with_groups_fields [simp]:
  "kc_selected (with_groups a b s) = kc_selected s" "kc_share_count (with_groups a b s) = kc_share_count s"
  "kc_groups (with_groups a b s) = a" "kc_supported_mask (with_groups a b s) = b"
  by (simp_all add: with_groups_def)

lemma with_groups_count: "(with_groups a b s)\<lparr>kc_share_count := n\<rparr> = with_groups a b (s\<lparr>kc_share_count := n\<rparr>)"
  by (simp add: with_groups_def)

lemma note_share_frame:
  "note_share g k (with_groups a b s) = and_then (note_share g k s) (\<lambda>t. Inr (with_groups a b t))"
  by (simp add: note_share_def with_groups_def Let_def split: option.splits prod.splits)

lemma note_shares_frame:
  "note_shares ss (with_groups a b s) = and_then (note_shares ss s) (\<lambda>t. Inr (with_groups a b t))"
proof (induction ss arbitrary: s)
  case (Cons x ss)
  obtain g k where x: "x = (g, k)" by fastforce
  show ?case
    by (cases "note_share g k (s\<lparr>kc_share_count := kc_share_count s + 1\<rparr>)") (simp_all add: x with_groups_count note_share_frame Cons.IH)
qed simp

lemma shares_loop_Nil [simp]: "shares_loop [] s = Inr s"
  by (simp add: shares_loop.simps)

lemma shares_loop_step:
  assumes "share_ok (g, k)"
  shows "shares_loop (be_bytes 2 (unat g) @ vec16 k @ r) s = Inr s' \<longleftrightarrow>
    (\<exists>groups m t. groups_until g (kc_groups s) (kc_supported_mask s) = Inr (True, groups, m) \<and>
       note_share g k (s\<lparr>kc_share_count := kc_share_count s + 1\<rparr>) = Inr t \<and>
       shares_loop r (with_groups groups m t) = Inr s')"
proof -
  have dec: "framed_decode_u16 1 1 (vec16 k @ r) = Inr (k, r)"
    using assms by (cases k) (simp_all add: framed_decode_u16_eq_Inr share_ok_def vec16_def)
  have eq: "shares_loop (be_bytes 2 (unat g) @ vec16 k @ r) s =
      and_then (groups_until g (kc_groups s) (kc_supported_mask s)) (\<lambda>(matched, groups, m).
      if \<not> matched then Inl IllegalParameter
      else and_then (note_share g k (with_groups groups m (s\<lparr>kc_share_count := kc_share_count s + 1\<rparr>))) (shares_loop r))"
    by (subst shares_loop.simps) (simp add: dec [unfolded One_nat_def] Let_def with_groups_def cong: if_cong)
  show ?thesis
  proof (cases "groups_until g (kc_groups s) (kc_supported_mask s)")
    case (Inr b)
    then show ?thesis by (cases b) (simp add: eq note_share_frame and_then_eq_Inr, blast)
  qed (simp add: eq)
qed

lemma shares_loop_reads:
  "shares_loop sh s = Inr s' \<Longrightarrow> \<exists>ss. sh = shares_bytes ss \<and> list_all share_ok ss"
proof (induction sh s rule: shares_loop.induct)
  case (1 sh s)
  show ?case
  proof (cases "sh = []")
    case True
    then show ?thesis by (intro exI [of _ "[]"]) simp
  next
    case False
    then obtain g r1 k r2 t where rd: "reader_u16 sh = Inr (g, r1)" "framed_decode_u16 1 1 r1 = Inr (k, r2)"
        and rest: "shares_loop r2 t = Inr s'"
      using 1(2) by (subst (asm) shares_loop.simps) (auto simp: and_then_eq_Inr Let_def split: if_splits)
    have "\<exists>ss. r2 = shares_bytes ss \<and> list_all share_ok ss"
      using 1(2) False rd by (subst (asm) shares_loop.simps) (auto simp: and_then_eq_Inr Let_def split: if_splits intro: 1(1) [OF False])
    then obtain ss where "r2 = shares_bytes ss" "list_all share_ok ss" by blast
    moreover have "sh = be_bytes 2 (unat g) @ vec16 k @ r2" "share_ok (g, k)"
      using rd by (auto simp: reader_u16_eq_Inr framed_decode_u16_eq_Inr vec16_def share_ok_def)
    ultimately show ?thesis by (intro exI [of _ "(g, k) # ss"]) simp
  qed
qed

lemma shares_loop_correct:
  assumes "list_all share_ok ss" and "kc_groups s = u16s_bytes gs"
  shows "(\<exists>s'. shares_loop (shares_bytes ss) s = Inr s' \<and> groups_rest (kc_groups s') (kc_supported_mask s') = Inr m \<and>
           kc_selected s' = sel \<and> kc_share_count s' = n) \<longleftrightarrow>
    subseq (map fst ss) gs \<and> note_all gs (kc_supported_mask s) = Inr m \<and>
    (\<exists>t. note_shares ss s = Inr t \<and> kc_selected t = sel \<and> kc_share_count t = n)"
  using assms
proof (induction ss arbitrary: s gs)
  case Nil
  then show ?case by simp
next
  case (Cons x ss)
  obtain g k where x: "x = (g, k)" by fastforce
  let ?lhs = "\<exists>s'. shares_loop (shares_bytes (x # ss)) s = Inr s' \<and>
    groups_rest (kc_groups s') (kc_supported_mask s') = Inr m \<and> kc_selected s' = sel \<and> kc_share_count s' = n"
  let ?s1 = "s\<lparr>kc_share_count := kc_share_count s + 1\<rparr>"
  have ok: "share_ok (g, k)" "list_all share_ok ss" using Cons.prems(1) x by simp_all
  have IH: "(\<exists>s'. shares_loop (shares_bytes ss) (with_groups (u16s_bytes vs) m1 t) = Inr s' \<and>
         groups_rest (kc_groups s') (kc_supported_mask s') = Inr m \<and> kc_selected s' = sel \<and> kc_share_count s' = n) \<longleftrightarrow>
      subseq (map fst ss) vs \<and> note_all vs m1 = Inr m \<and>
      (\<exists>t'. note_shares ss (with_groups (u16s_bytes vs) m1 t) = Inr t' \<and> kc_selected t' = sel \<and> kc_share_count t' = n)"
    for vs m1 t
    by (subst Cons.IH [OF ok(2)]) simp_all
  have "?lhs \<longleftrightarrow>
      (\<exists>vs m1 t. after g gs = Some vs \<and> note_all (take (length gs - length vs) gs) (kc_supported_mask s) = Inr m1 \<and>
         note_share g k ?s1 = Inr t \<and> subseq (map fst ss) vs \<and> note_all vs m1 = Inr m \<and>
         (\<exists>t'. note_shares ss (with_groups (u16s_bytes vs) m1 t) = Inr t' \<and> kc_selected t' = sel \<and> kc_share_count t' = n))"
    unfolding IH [symmetric] using Cons.prems(2)
    by (simp only: x shares_bytes_simps append_assoc shares_loop_step [OF ok(1)] groups_until_found) blast
  moreover have frame: "(\<exists>t'. note_shares ss (with_groups a b t) = Inr t' \<and> kc_selected t' = sel \<and> kc_share_count t' = n) \<longleftrightarrow>
      (\<exists>t'. note_shares ss t = Inr t' \<and> kc_selected t' = sel \<and> kc_share_count t' = n)" for a b t
    by (auto simp: note_shares_frame and_then_eq_Inr)
  ultimately have "?lhs \<longleftrightarrow> (\<exists>vs. after g gs = Some vs \<and> subseq (map fst ss) vs \<and>
        and_then (note_all (take (length gs - length vs) gs) (kc_supported_mask s)) (note_all vs) = Inr m) \<and>
      (\<exists>t. note_shares (x # ss) s = Inr t \<and> kc_selected t = sel \<and> kc_share_count t = n)"
    unfolding frame by (simp only: x note_shares.simps and_then_eq_Inr) blast
  also have "\<dots> \<longleftrightarrow> subseq (map fst (x # ss)) gs \<and> note_all gs (kc_supported_mask s) = Inr m \<and>
      (\<exists>t. note_shares (x # ss) s = Inr t \<and> kc_selected t = sel \<and> kc_share_count t = n)"
    using note_all_after by (auto simp add: x subseq_after simp del: note_shares.simps)
  finally show ?case .
qed

subsection \<open>Which share is chosen\<close>

fun mask_with :: "kex_group list \<Rightarrow> u8 \<Rightarrow> u8" where
  "mask_with [] m = m"
| "mask_with (g # gs) m = mask_with gs (m OR 2 ^ rank g)"

lemma marks_mask_with: "marks (mask_with gs m) = set gs \<union> marks m"
  by (induction gs arbitrary: m) (auto simp: marks_or)

lemma note_all_eq:
  "note_all gs m = Inr m' \<longleftrightarrow> distinct (known gs) \<and> set (known gs) \<inter> marks m = {} \<and> m' = mask_with (known gs) m"
  by (induction gs arbitrary: m) (auto simp: note_supported_eq and_then_eq_Inr marks_or split: option.splits)

definition best_share :: "(u16 \<times> bytes) list \<Rightarrow> peer_share option" where
  "best_share ss =
     find_map (\<lambda>grp. map_option (\<lambda>k. \<lparr>ps_group = grp, ps_key_exchange = k\<rparr>) (map_of ss (kex_group_wire_id grp)))
       SUPPORTED_KEX_GROUPS"

definition kx_start :: "reader \<Rightarrow> kx_scan" where
  "kx_start groups =
     \<lparr>kc_groups = groups, kc_supported_mask = 0, kc_shared_mask = 0, kc_selected = None,
      kc_selected_rank = 255, kc_share_count = 0\<rparr>"

definition chosen :: "(u16 \<times> bytes) list \<Rightarrow> kx_scan \<Rightarrow> bool" where
  "chosen ss s \<longleftrightarrow> marks (kc_shared_mask s) = set (known (map fst ss)) \<and>
     kc_share_count s = word_of_nat (length ss) \<and>
     kc_selected s = best_share ss \<and>
     kc_selected_rank s = (case best_share ss of None \<Rightarrow> 255 | Some sh \<Rightarrow> word_of_nat (rank (ps_group sh)))"

lemma wire_id_inj [simp]: "kex_group_wire_id g = kex_group_wire_id h \<longleftrightarrow> g = h"
  by (cases g; cases h) simp_all

lemma set_known: "g \<in> set (known gs) \<longleftrightarrow> kex_group_wire_id g \<in> set gs"
  by (induction gs) (auto simp: kex_group_from_u16_iff split: option.splits, metis kex_group_from_u16_iff option.distinct(1))

lemma best_share_append:
  "kex_group_from_u16 g \<notin> Some ` set (known (map fst ss)) \<Longrightarrow> best_share (ss @ [(g, k)]) =
     (case kex_group_from_u16 g of
        None \<Rightarrow> best_share ss
      | Some grp \<Rightarrow>
          (case best_share ss of
             None \<Rightarrow> Some \<lparr>ps_group = grp, ps_key_exchange = k\<rparr>
           | Some sh \<Rightarrow> if rank grp < rank (ps_group sh) then Some \<lparr>ps_group = grp, ps_key_exchange = k\<rparr> else Some sh))"
proof (cases "kex_group_from_u16 g")
  case None
  then have "kex_group_wire_id h \<noteq> g" for h by (metis kex_group_from_u16_iff option.distinct(1))
  then have "map_of (ss @ [(g, k)]) (kex_group_wire_id h) = map_of ss (kex_group_wire_id h)" for h
    by (simp add: map_add_def split: option.splits)
  then show ?thesis by (simp only: best_share_def None option.case)
next
  case (Some grp)
  assume "kex_group_from_u16 g \<notin> Some ` set (known (map fst ss))"
  then have none: "map_of ss (kex_group_wire_id grp) = None"
    using Some by (simp add: set_known map_of_eq_None_iff image_iff)
  from Some have g: "g = kex_group_wire_id grp" by (simp add: kex_group_from_u16_iff)
  show ?thesis
    using none unfolding Some g best_share_def SUPPORTED_KEX_GROUPS_def
    by (cases grp) (auto simp: map_add_def kex_group_from_u16_def split: option.splits)
qed

lemma note_shares_append: "note_shares (ss @ ts) s = and_then (note_shares ss s) (note_shares ts)"
proof (induction ss arbitrary: s)
  case (Cons x ss)
  obtain g k where "x = (g, k)" by fastforce
  then show ?case
    by (cases "note_share g k (s\<lparr>kc_share_count := kc_share_count s + 1\<rparr>)") (simp_all add: Cons.IH)
qed simp

lemma best_share_known: "best_share ss = Some sh \<Longrightarrow> ps_group sh \<in> set (known (map fst ss))"
  by (auto simp: best_share_def SUPPORTED_KEX_GROUPS_def set_known dest!: map_of_SomeD split: option.splits
      intro: rev_image_eqI)

lemma note_shares_chosen:
  "distinct (known (map fst ss)) \<Longrightarrow> \<exists>t. note_shares ss (kx_start r) = Inr t \<and> chosen ss t"
proof (induction ss rule: rev_induct)
  case Nil
  then show ?case by (simp add: chosen_def kx_start_def best_share_def SUPPORTED_KEX_GROUPS_def)
next
  case (snoc x ss)
  obtain g k where x: "x = (g, k)" by fastforce
  have new: "kex_group_from_u16 g \<notin> Some ` set (known (map fst ss))"
    using snoc.prems by (auto simp: x)
  obtain t where t: "note_shares ss (kx_start r) = Inr t" "chosen ss t"
    using snoc.IH snoc.prems by (auto split: option.splits)
  have "\<exists>t'. note_share g k (t\<lparr>kc_share_count := kc_share_count t + 1\<rparr>) = Inr t' \<and> chosen (ss @ [(g, k)]) t'"
  proof (cases "kex_group_from_u16 g")
    case None
    then show ?thesis using t(2) by (simp add: note_share_def local_group_eq chosen_def best_share_append [OF new])
  next
    case (Some grp)
    have "m AND 2 ^ rank grp = 0" if "m = kc_shared_mask t" for m
      using new Some t(2) that by (auto simp: mask_test chosen_def)
    then show ?thesis
      using t(2) Some
      by (cases "best_share ss")
        (auto simp: note_share_def local_group_eq chosen_def best_share_append [OF new] Let_def marks_or rank_word_less)
  qed
  then show ?case using t(1) by (auto simp: x note_shares_append)
qed

lemma distinct_known_subseq:
  assumes "subseq hs gs" and "distinct (known gs)"
  shows "distinct (known hs)"
proof -
  have "subseq (known hs) (known gs)"
    unfolding known_def List.map_filter_def using assms(1) by (simp add: subseq_map subseq_filter)
  then show ?thesis using assms(2) by (auto simp: subseq_conv_nths distinct_nthsI)
qed

lemma kx_bytes_readers:
  "(\<exists>groups r. framed_decode_u16 2 2 sg = Inr (groups, r) \<and> reader_finish r = Inr () \<and> P groups) \<longleftrightarrow>
     (\<exists>gs. gs \<noteq> [] \<and> 2 * length gs < 2 ^ 16 \<and> sg = vec16 (u16s_bytes gs) \<and> P (u16s_bytes gs))"
proof -
  have iff: "framed_decode_u16 2 2 sg = Inr (u16s_bytes gs, []) \<longleftrightarrow> gs \<noteq> [] \<and> 2 * length gs < 2 ^ 16 \<and> sg = vec16 (u16s_bytes gs)" for gs
    by (simp add: framed_decode_u16_eq_Inr vec16_def) (metis One_nat_def Suc_leI length_greater_0_conv list.size(3) not_one_le_zero)
  have surj: "\<exists>gs. groups = u16s_bytes gs" if "framed_decode_u16 2 2 sg = Inr (groups, r)" for groups r
    using that u16s_bytes_surj by (simp add: framed_decode_u16_eq_Inr)
  have "(\<exists>groups r. framed_decode_u16 2 2 sg = Inr (groups, r) \<and> reader_finish r = Inr () \<and> P groups) \<longleftrightarrow>
      (\<exists>gs. framed_decode_u16 2 2 sg = Inr (u16s_bytes gs, []) \<and> P (u16s_bytes gs))"
    unfolding reader_finish_eq_Inr using surj by blast
  then show ?thesis unfolding iff by simp
qed

lemma retry_group_eq:
  "find_map (\<lambda>(rank, grp). if m AND push_bit rank 1 \<noteq> 0 then Some grp else None) (enumerate 0 SUPPORTED_KEX_GROUPS) =
     find (\<lambda>g. g \<in> marks m) SUPPORTED_KEX_GROUPS" for m :: u8
  using mask_test [of m X25519] mask_test [of m Secp256r1] mask_test [of m X25519Mlkem768]
  by (simp add: SUPPORTED_KEX_GROUPS_def enumerate_eq_zip upt_rec)

lemma shares_scan:
  "(\<exists>s. shares_loop shares (kx_start (u16s_bytes gs)) = Inr s \<and>
      groups_rest (kc_groups s) (kc_supported_mask s) = Inr m \<and> kc_selected s = sel \<and> kc_share_count s = n) \<longleftrightarrow>
   (\<exists>ss. list_all share_ok ss \<and> shares = shares_bytes ss \<and> subseq (map fst ss) gs \<and> note_all gs 0 = Inr m \<and>
      (\<exists>t. note_shares ss (kx_start (u16s_bytes gs)) = Inr t \<and> kc_selected t = sel \<and> kc_share_count t = n))"
proof -
  have start: "kc_groups (kx_start (u16s_bytes gs)) = u16s_bytes gs" "kc_supported_mask (kx_start (u16s_bytes gs)) = 0"
    by (simp_all add: kx_start_def)
  note cor = shares_loop_correct [OF _ start(1), unfolded start(2)]
  show ?thesis (is "?lhs \<longleftrightarrow> ?rhs")
  proof
    assume lhs: ?lhs
    then obtain ss where "list_all share_ok ss" "shares = shares_bytes ss" using shares_loop_reads by blast
    with lhs cor show ?rhs by blast
  next
    assume ?rhs
    then show ?lhs using cor by blast
  qed
qed

definition kx_decision :: "u16 list \<Rightarrow> (u16 \<times> bytes) list \<Rightarrow> client_kx \<Rightarrow> bool" where
  "kx_decision gs ss kx \<longleftrightarrow> subseq (map fst ss) gs \<and> distinct (known gs) \<and>
     find (\<lambda>g. kex_group_wire_id g \<in> set gs) SUPPORTED_KEX_GROUPS = Some (ck_retry_group kx) \<and>
     ck_selected kx = best_share ss \<and> ck_share_count kx = word_of_nat (length ss)"

lemma kx_decision_eq:
  "kx_decision gs ss kx \<longleftrightarrow>
     (\<exists>m. subseq (map fst ss) gs \<and> note_all gs 0 = Inr m \<and>
        (\<exists>t. note_shares ss (kx_start (u16s_bytes gs)) = Inr t \<and> kc_selected t = ck_selected kx \<and>
             kc_share_count t = ck_share_count kx) \<and>
        find (\<lambda>g. g \<in> marks m) SUPPORTED_KEX_GROUPS = Some (ck_retry_group kx))"
  unfolding kx_decision_def
  using note_shares_chosen [of ss "u16s_bytes gs"] distinct_known_subseq [of "map fst ss" gs]
  by (auto simp: note_all_eq marks_mask_with set_known chosen_def)

lemma client_kx_parse_steps:
  "client_kx_parse sg ks = Inr kx \<longleftrightarrow>
     (\<exists>groups r. framed_decode_u16 2 2 sg = Inr (groups, r) \<and> reader_finish r = Inr () \<and>
     (\<exists>shares. framed_decode_u16 0 1 ks = Inr (shares, []) \<and>
     (\<exists>m. (\<exists>s. shares_loop shares (kx_start groups) = Inr s \<and> groups_rest (kc_groups s) (kc_supported_mask s) = Inr m \<and>
             kc_selected s = ck_selected kx \<and> kc_share_count s = ck_share_count kx) \<and>
          find (\<lambda>g. g \<in> marks m) SUPPORTED_KEX_GROUPS = Some (ck_retry_group kx))))"
  unfolding client_kx_parse_def kx_start_def [symmetric] retry_group_eq
  by (cases kx) (auto simp: and_then_eq_Inr reader_finish_eq_Inr)

text \<open>
  C21.  Reading the two key-exchange extensions in one pass decides exactly RFC 8446's rules: both are
  well formed, the shares' groups form a subsequence of the supported groups (same order, each
  listed), no group this server knows is listed twice, and some known group is supported.
  The result names the most preferred known group that has a share, the most preferred
  group to ask a retry for, and the number of shares.
\<close>

theorem client_kx_correct:
  "client_kx_parse sg ks = Inr kx \<longleftrightarrow>
     (\<exists>gs ss. gs \<noteq> [] \<and> 2 * length gs < 2 ^ 16 \<and> sg = vec16 (u16s_bytes gs) \<and>
        list_all share_ok ss \<and> length (shares_bytes ss) < 2 ^ 16 \<and> ks = vec16 (shares_bytes ss) \<and>
        subseq (map fst ss) gs \<and> distinct (known gs) \<and>
        find (\<lambda>g. kex_group_wire_id g \<in> set gs) SUPPORTED_KEX_GROUPS = Some (ck_retry_group kx) \<and>
        ck_selected kx = best_share ss \<and> ck_share_count kx = word_of_nat (length ss))"
proof -
  have shares: "framed_decode_u16 0 1 ks = Inr (shares, []) \<longleftrightarrow> length shares < 2 ^ 16 \<and> ks = vec16 shares" for shares
    by (simp add: framed_decode_u16_eq_Inr vec16_def)
  show ?thesis
    unfolding client_kx_parse_steps kx_bytes_readers shares shares_scan kx_decision_def [symmetric] kx_decision_eq
    by blast
qed

end
