(* ===== verification/ServerRetry.thy ===== *)
theory ServerRetry
  imports ServerNegotiation
begin

section \<open>The ClientHello across a HelloRetryRequest\<close>

text \<open>
  \<open>ClientHelloInvariant\<close> of \<open>server/session/retry.rs\<close>: before a HelloRetryRequest the server keeps
  only a hash of what the second ClientHello may not change.  The theorem
  \<open>retry_unchanged\<close> shows that the hashed encoding is injective: a second
  ClientHello that passes agrees with the first on everything but the key shares, the cookie, early data,
  padding and binder bytes, or the two encodings collide under SHA-256.
\<close>

record hello_invariant =
  hi_fingerprint :: hash_value
  hi_requested_group :: kex_group

definition PADDING :: u16 where "PADDING = 21"

definition is_fully_mutable :: "u16 \<Rightarrow> bool" where
  "is_fully_mutable ty \<longleftrightarrow> ty = COOKIE \<or> ty = KEY_SHARE \<or> ty = EARLY_DATA \<or> ty = PADDING"

text \<open>\<open>to_be_bytes\<close> of a length cast to 32 bits.\<close>

definition len_u32 :: "nat \<Rightarrow> bytes" where
  "len_u32 n = be_bytes 4 (unat (word_of_nat n :: u32))"

definition update_bytes :: "bytes \<Rightarrow> transcript \<Rightarrow> transcript" where
  "update_bytes bs t = transcript_update bs (transcript_update (len_u32 (length bs)) t)"

definition update_psk_invariant :: "bytes \<Rightarrow> transcript \<Rightarrow> conn_error + transcript" where
  "update_psk_invariant encoded t =
     and_then (map_err error_of_decode (offered_psks_decode encoded)) (\<lambda>offered.
     let count = unat (op_count offered);
         t = transcript_update (len_u32 count) t;
         t = update_bytes (op_identities offered) t;
         t = transcript_update (len_u32 count) t
     in Inr (fold (\<lambda>binder t. transcript_update (len_u32 (length binder)) t) (binder_refs (op_binders offered)) t))"

fun fingerprint_extensions :: "extension list \<Rightarrow> transcript \<Rightarrow> conn_error + transcript" where
  "fingerprint_extensions [] t = Inr t"
| "fingerprint_extensions (x # xs) t =
     (if ext_ty x = PADDING
      then (if list_ex (\<lambda>b. b \<noteq> 0) (ext_data x) then Inl IllegalParameter else fingerprint_extensions xs t)
      else if is_fully_mutable (ext_ty x) then fingerprint_extensions xs t
      else
        let t = transcript_update (be_bytes 2 (unat (ext_ty x))) t in
        and_then (if ext_ty x = PRE_SHARED_KEY then update_psk_invariant (ext_data x) t
                  else Inr (update_bytes (ext_data x) t)) (\<lambda>t. fingerprint_extensions xs t))"

definition fingerprint :: "crypto \<Rightarrow> client_hello_ref \<Rightarrow> conn_error + hash_value" where
  "fingerprint C hello =
     (case transcript_select Sha256 transcript_new of
        (Inl e, _) \<Rightarrow> Inl (error_of_transcript e)
      | (Inr _, t) \<Rightarrow>
          let t = transcript_update (ascii ''shin hrr client hello invariant v1'') t;
              t = transcript_update (be_bytes 2 (unat (chr_legacy_version hello))) t;
              t = transcript_update (chr_random hello) t;
              t = update_bytes (chr_legacy_session_id hello) t;
              suites = u16_list_iter (chr_cipher_suites hello);
              t = transcript_update (len_u32 (length suites)) t;
              t = fold (\<lambda>suite t. transcript_update (be_bytes 2 (unat suite)) t) suites t;
              t = update_bytes (chr_legacy_compression_methods hello) t;
              exts = extensions_iter (chr_extensions hello);
              t = transcript_update (len_u32 (length (filter (\<lambda>x. \<not> is_fully_mutable (ext_ty x)) exts))) t
          in and_then (fingerprint_extensions exts t) (\<lambda>t.
             map_err error_of_transcript (transcript_hash C Sha256 t)))"

definition invariant_capture :: "crypto \<Rightarrow> client_hello_ref \<Rightarrow> kex_group \<Rightarrow> conn_error + hello_invariant" where
  "invariant_capture C hello requested =
     and_then (fingerprint C hello) (\<lambda>f. Inr \<lparr>hi_fingerprint = f, hi_requested_group = requested\<rparr>)"

definition invariant_validate :: "crypto \<Rightarrow> hello_invariant \<Rightarrow> client_hello_ref \<Rightarrow> client_kx \<Rightarrow> conn_error + unit" where
  "invariant_validate C captured hello kx =
     (if extensions_find EARLY_DATA (chr_extensions hello) \<noteq> None then Inl IllegalParameter
      else and_then (require_retry kx (hi_requested_group captured)) (\<lambda>_.
           and_then (fingerprint C hello) (\<lambda>f.
           if \<not> digest_eq f (hi_fingerprint captured) then Inl IllegalParameter else Inr ())))"

subsection \<open>The hashed encoding\<close>

fun psk_view :: "offered_psks \<Rightarrow> u16 \<times> bytes \<times> nat list" where
  "psk_view o1 = (op_count o1, op_identities o1, map length (binder_refs (op_binders o1)))"

definition ext_view :: "extension \<Rightarrow> u16 \<times> (bytes + u16 \<times> bytes \<times> nat list) option" where
  "ext_view x =
     (ext_ty x, if ext_ty x = PRE_SHARED_KEY then map_option (\<lambda>o1. Inr (psk_view o1)) (result_ok (offered_psks_decode (ext_data x)))
                else Some (Inl (ext_data x)))"

definition fixed_extensions :: "client_hello_ref \<Rightarrow> extension list" where
  "fixed_extensions hello = filter (\<lambda>x. \<not> is_fully_mutable (ext_ty x)) (extensions_iter (chr_extensions hello))"

text \<open>What RFC 8446 section 4.1.2 lets a second ClientHello not change.\<close>

definition same_hello :: "client_hello_ref \<Rightarrow> client_hello_ref \<Rightarrow> bool" where
  "same_hello h1 h2 \<longleftrightarrow>
     chr_legacy_version h1 = chr_legacy_version h2 \<and> chr_random h1 = chr_random h2 \<and>
     chr_legacy_session_id h1 = chr_legacy_session_id h2 \<and>
     u16_list_iter (chr_cipher_suites h1) = u16_list_iter (chr_cipher_suites h2) \<and>
     chr_legacy_compression_methods h1 = chr_legacy_compression_methods h2 \<and>
     map ext_view (fixed_extensions h1) = map ext_view (fixed_extensions h2)"

definition lp_bytes :: "bytes \<Rightarrow> bytes" where
  "lp_bytes bs = len_u32 (length bs) @ bs"

definition ext_body :: "extension \<Rightarrow> bytes" where
  "ext_body x = be_bytes 2 (unat (ext_ty x)) @
     (if ext_ty x = PRE_SHARED_KEY
      then (case offered_psks_decode (ext_data x) of Inl _ \<Rightarrow> []
            | Inr o1 \<Rightarrow> len_u32 (unat (op_count o1)) @ lp_bytes (op_identities o1) @ len_u32 (unat (op_count o1)) @
                concat (map (\<lambda>b. len_u32 (length b)) (binder_refs (op_binders o1))))
      else lp_bytes (ext_data x))"

definition invariant_bytes :: "client_hello_ref \<Rightarrow> bytes" where
  "invariant_bytes h =
     ascii ''shin hrr client hello invariant v1'' @ be_bytes 2 (unat (chr_legacy_version h)) @ chr_random h @
     lp_bytes (chr_legacy_session_id h) @ len_u32 (length (u16_list_iter (chr_cipher_suites h))) @
     u16s_bytes (u16_list_iter (chr_cipher_suites h)) @ lp_bytes (chr_legacy_compression_methods h) @
     len_u32 (length (fixed_extensions h)) @ concat (map ext_body (fixed_extensions h))"

lemma transcript_fold_updates:
  "transcript_holds t sel bs \<Longrightarrow> transcript_holds (fold (\<lambda>x t. transcript_update (f x) t) xs t) sel (bs @ concat (map f xs))"
proof (induction xs arbitrary: t bs)
  case (Cons x xs)
  then show ?case using Cons.IH [OF transcript_holds_update [OF Cons.prems]] by simp
qed simp

lemma update_bytes_holds:
  "transcript_holds t sel bs \<Longrightarrow> transcript_holds (update_bytes m t) sel (bs @ lp_bytes m)"
  unfolding update_bytes_def lp_bytes_def by (metis append_assoc transcript_holds_update)

lemma fingerprint_extensions_holds:
  assumes "transcript_holds t sel bs" and "fingerprint_extensions xs t = Inr t'"
  shows "transcript_holds t' sel (bs @ concat (map ext_body (filter (\<lambda>x. \<not> is_fully_mutable (ext_ty x)) xs))) \<and>
    list_all (\<lambda>x. ext_ty x = PRE_SHARED_KEY \<longrightarrow> (\<exists>o1. offered_psks_decode (ext_data x) = Inr o1))
      (filter (\<lambda>x. \<not> is_fully_mutable (ext_ty x)) xs)"
  using assms
proof (induction xs arbitrary: t bs)
  case (Cons x xs)
  show ?case
  proof (cases "is_fully_mutable (ext_ty x)")
    case True
    then show ?thesis using Cons by (auto split: if_splits)
  next
    case False
    then have pad: "ext_ty x \<noteq> PADDING" by (simp add: is_fully_mutable_def)
    let ?t = "transcript_update (be_bytes 2 (unat (ext_ty x))) t"
    have t: "transcript_holds ?t sel (bs @ be_bytes 2 (unat (ext_ty x)))"
      by (rule transcript_holds_update [OF Cons.prems(1)])
    obtain u where u: "(if ext_ty x = PRE_SHARED_KEY then update_psk_invariant (ext_data x) ?t
        else Inr (update_bytes (ext_data x) ?t)) = Inr u" "fingerprint_extensions xs u = Inr t'"
      using Cons.prems(2) False pad by (auto simp: Let_def and_then_eq_Inr)
    have "transcript_holds u sel (bs @ ext_body x) \<and>
        (ext_ty x = PRE_SHARED_KEY \<longrightarrow> (\<exists>o1. offered_psks_decode (ext_data x) = Inr o1))"
    proof (cases "ext_ty x = PRE_SHARED_KEY")
      case True
      then obtain o1 where o1: "offered_psks_decode (ext_data x) = Inr o1"
          and u': "u = fold (\<lambda>binder t. transcript_update (len_u32 (length binder)) t) (binder_refs (op_binders o1))
            (transcript_update (len_u32 (unat (op_count o1))) (update_bytes (op_identities o1)
              (transcript_update (len_u32 (unat (op_count o1))) ?t)))"
        using u(1) by (auto simp: update_psk_invariant_def and_then_eq_Inr Let_def)
      show ?thesis
        using transcript_fold_updates [OF transcript_holds_update [OF update_bytes_holds [OF transcript_holds_update [OF t]]]]
        by (simp add: u' ext_body_def True o1)
    next
      case False
      then show ?thesis using u(1) update_bytes_holds [OF t] by (auto simp: ext_body_def)
    qed
    then show ?thesis using Cons.IH [of u "bs @ ext_body x"] u(2) False by simp
  qed
qed simp

lemma fingerprint_bytes:
  assumes "fingerprint C h = Inr d"
  shows "d = hash C Sha256 (invariant_bytes h)" and
    "list_all (\<lambda>x. ext_ty x = PRE_SHARED_KEY \<longrightarrow> (\<exists>o1. offered_psks_decode (ext_data x) = Inr o1)) (fixed_extensions h)"
proof -
  obtain t where sel: "transcript_select Sha256 transcript_new = (Inr (), t)" "transcript_holds t (Some Sha256) []"
    using transcript_holds_select [OF transcript_holds_new, of Sha256] by (metis prod.collapse)
  let ?suites = "u16_list_iter (chr_cipher_suites h)"
  let ?pre = "ascii ''shin hrr client hello invariant v1'' @ be_bytes 2 (unat (chr_legacy_version h)) @ chr_random h @
     lp_bytes (chr_legacy_session_id h) @ len_u32 (length ?suites) @ u16s_bytes ?suites @
     lp_bytes (chr_legacy_compression_methods h) @ len_u32 (length (fixed_extensions h))"
  obtain u v where "transcript_holds u (Some Sha256) ?pre"
      and v: "fingerprint_extensions (extensions_iter (chr_extensions h)) u = Inr v"
      and d: "transcript_hash C Sha256 v = Inr d"
    using assms transcript_holds_update [OF update_bytes_holds [OF transcript_fold_updates [where f = "\<lambda>x. be_bytes 2 (unat x)" and xs = ?suites, OF transcript_holds_update
      [OF update_bytes_holds [OF transcript_holds_update [OF transcript_holds_update [OF transcript_holds_update [OF sel(2)]]]]]]]]
    by (simp add: fingerprint_def sel(1) Let_def and_then_eq_Inr fixed_extensions_def [symmetric] u16s_bytes_def [symmetric]) blast
  then have e: "transcript_holds v (Some Sha256) (?pre @ concat (map ext_body (fixed_extensions h))) \<and>
      list_all (\<lambda>x. ext_ty x = PRE_SHARED_KEY \<longrightarrow> (\<exists>o1. offered_psks_decode (ext_data x) = Inr o1)) (fixed_extensions h)"
    using fingerprint_extensions_holds [of u "Some Sha256" ?pre] by (simp add: fixed_extensions_def)
  then show "list_all (\<lambda>x. ext_ty x = PRE_SHARED_KEY \<longrightarrow> (\<exists>o1. offered_psks_decode (ext_data x) = Inr o1)) (fixed_extensions h)" by blast
  from e d show "d = hash C Sha256 (invariant_bytes h)"
    using transcript_holds_hash [of v "Some Sha256" "invariant_bytes h" C Sha256] by (simp add: invariant_bytes_def)
qed

subsection \<open>The encoding is injective\<close>

lemma length_len_u32 [simp]: "length (len_u32 n) = 4"
  by (simp add: len_u32_def)

lemma len_u32_inj: "m < 2 ^ 32 \<Longrightarrow> n < 2 ^ 32 \<Longrightarrow> len_u32 m = len_u32 n \<longleftrightarrow> m = n"
  using be_bytes_inject [of m 4 n] by (auto simp: len_u32_def unat_of_nat)

lemma len_u32_append:
  "m < 2 ^ 32 \<Longrightarrow> n < 2 ^ 32 \<Longrightarrow> len_u32 m @ r = len_u32 n @ s \<longleftrightarrow> m = n \<and> r = s"
  using len_u32_inj [of m n] by (auto simp: append_eq_append_conv)

lemma lp_bytes_append:
  "length a < 2 ^ 32 \<Longrightarrow> length b < 2 ^ 32 \<Longrightarrow> lp_bytes a @ r = lp_bytes b @ s \<longleftrightarrow> a = b \<and> r = s"
  using len_u32_append [of "length a" "length b" "a @ r" "b @ s"] by (auto simp: lp_bytes_def append_eq_append_conv)

lemma u16_append: "be_bytes 2 (unat (v :: u16)) @ r = be_bytes 2 (unat w) @ s \<longleftrightarrow> v = w \<and> r = s"
  using be_bytes_inject [of "unat v" 2 "unat w"] unsigned_less [where 'a = nat, of v] unsigned_less [where 'a = nat, of w]
  by (auto simp: append_eq_append_conv unsigned_word_eqI)

lemma len_list_append:
  "length xs = length ys \<Longrightarrow> list_all (\<lambda>n. n < 2 ^ 32) xs \<Longrightarrow> list_all (\<lambda>n. n < 2 ^ 32) ys \<Longrightarrow>
     concat (map len_u32 xs) @ r = concat (map len_u32 ys) @ s \<longleftrightarrow> xs = ys \<and> r = s"
proof (induction xs ys rule: list_induct2)
  case (Cons x xs y ys)
  then show ?case using len_u32_append [of x y] by auto
qed simp

lemma u16s_append:
  "length xs = length ys \<Longrightarrow> u16s_bytes xs @ r = u16s_bytes ys @ s \<longleftrightarrow> xs = ys \<and> r = s"
proof (induction xs ys rule: list_induct2)
  case (Cons x xs y ys)
  then show ?case using u16_append [of x _ y] by auto
qed simp

definition ext_item_ok :: "extension \<Rightarrow> bool" where
  "ext_item_ok x \<longleftrightarrow> length (ext_data x) < 2 ^ 16 \<and>
     (ext_ty x = PRE_SHARED_KEY \<longrightarrow> (\<exists>o1. offered_psks_decode (ext_data x) = Inr o1))"

lemma psk_decoded_bounds:
  assumes "offered_psks_decode data = Inr o1"
  shows "length (binder_refs (op_binders o1)) = unat (op_count o1)" "length (op_identities o1) < 2 ^ 32"
    "list_all (\<lambda>n. n < 2 ^ 32) (map length (binder_refs (op_binders o1)))"
proof -
  obtain off where off: "offer_ok off" "o1 = offer_view off" using assms by (auto simp: offered_psks_decode_iff)
  then have ok: "length (offer_binders off) = length (offer_identities off)" "\<forall>x\<in>set (offer_identities off). identity_ok x"
    "\<forall>b\<in>set (offer_binders off). binder_ok b" "length (identities_bytes (offer_identities off)) < 2 ^ 16"
    by (auto simp: offer_ok_iff)
  have "length (offer_identities off) < 2 ^ 16"
    using length_identities [OF ok(2)] ok(4) by simp
  with ok off(2) show "length (binder_refs (op_binders o1)) = unat (op_count o1)"
    by (simp add: offer_view_def binder_refs_run unat_of_nat)
  show "length (op_identities o1) < 2 ^ 32" using ok(4) off(2) by (simp add: offer_view_def)
  show "list_all (\<lambda>n. n < 2 ^ 32) (map length (binder_refs (op_binders o1)))"
    using ok(3) off(2) by (auto simp: offer_view_def binder_refs_run list_all_iff binder_ok_def)
qed

lemma ext_body_append:
  assumes "ext_item_ok x" and "ext_item_ok y" and eq: "ext_body x @ r = ext_body y @ s"
  shows "ext_view x = ext_view y \<and> r = s"
proof -
  from eq have ty: "ext_ty x = ext_ty y" by (simp add: ext_body_def u16_append)
  show ?thesis
  proof (cases "ext_ty x = PRE_SHARED_KEY")
    case False
    then show ?thesis
      using eq ty assms(1,2) lp_bytes_append [of "ext_data x" "ext_data y" r s]
      by (simp add: ext_body_def ext_view_def u16_append ext_item_ok_def)
  next
    case True
    then obtain o1 o2 where d: "offered_psks_decode (ext_data x) = Inr o1" "offered_psks_decode (ext_data y) = Inr o2"
      using assms(1,2) ty by (auto simp: ext_item_ok_def)
    note b1 = psk_decoded_bounds [OF d(1)] and b2 = psk_decoded_bounds [OF d(2)]
    have c: "unat (op_count o1) < 2 ^ 32" "unat (op_count o2) < 2 ^ 32"
      using unsigned_less [where 'a = nat, of "op_count o1"] unsigned_less [where 'a = nat, of "op_count o2"] by simp_all
    let ?l = "\<lambda>o1. map length (binder_refs (op_binders o1))"
    have cm: "concat (map (\<lambda>b. len_u32 (length b)) xs) = concat (map len_u32 (map length xs))" for xs :: "bytes list"
      by (simp add: comp_def)
    have "len_u32 (unat (op_count o1)) @ lp_bytes (op_identities o1) @ len_u32 (unat (op_count o1)) @ concat (map len_u32 (?l o1)) @ r =
        len_u32 (unat (op_count o2)) @ lp_bytes (op_identities o2) @ len_u32 (unat (op_count o2)) @ concat (map len_u32 (?l o2)) @ s"
      using eq ty True d by (simp only: ext_body_def u16_append cm append_assoc simp_thms if_True sum.case)
    then have n: "op_count o1 = op_count o2" and i: "op_identities o1 = op_identities o2"
        and "concat (map len_u32 (?l o1)) @ r = concat (map len_u32 (?l o2)) @ s"
      using len_u32_append [OF c] lp_bytes_append [OF b1(2) b2(2)] by (auto simp: unsigned_word_eqI)
    then have "?l o1 = ?l o2 \<and> r = s"
      using len_list_append [of "?l o1" "?l o2" r s] b1 b2 by simp
    with n i show ?thesis using ty True d by (simp add: ext_view_def)
  qed
qed

lemma ext_bodies_inj:
  "length xs = length ys \<Longrightarrow> list_all ext_item_ok xs \<Longrightarrow> list_all ext_item_ok ys \<Longrightarrow>
     concat (map ext_body xs) = concat (map ext_body ys) \<Longrightarrow> map ext_view xs = map ext_view ys"
proof (induction xs ys rule: list_induct2)
  case (Cons x xs y ys)
  then have "ext_view x = ext_view y \<and> concat (map ext_body xs) = concat (map ext_body ys)"
    using ext_body_append [of x y] by simp
  with Cons show ?case by simp
qed simp

lemma decoded_hello_bounds:
  assumes "copy_inline_ok ci" and "message_ref_decode ci raw = Inr (RClientHello h)"
  shows "length (chr_random h) = 32" "length (chr_legacy_session_id h) < 2 ^ 32"
    "length (u16_list_iter (chr_cipher_suites h)) < 2 ^ 32" "length (chr_legacy_compression_methods h) < 2 ^ 32"
    "length (fixed_extensions h) < 2 ^ 32" "list_all (\<lambda>x. length (ext_data x) < 2 ^ 16) (fixed_extensions h)"
proof -
  obtain f where "frame_ok f" "RClientHello h = frame_ref f" using assms by (auto simp: message_ref_decode_eq_Inr)
  then obtain m where m: "frame_fields_ok (FClientHello m)" "RClientHello h = frame_ref (FClientHello m)"
    by (cases f) (auto simp: frame_ok_def)
  from m have ok: "exts_ok (ch_extensions m)" by simp
  then have it: "extensions_iter (chr_extensions h) = ch_extensions m" "length (ch_extensions m) \<le> MAX_EXTENSIONS"
    using m(2) by (simp_all add: exts_ok_def extensions_iter_exts_bytes)
  have "length (fixed_extensions h) \<le> length (ch_extensions m)"
    by (simp add: fixed_extensions_def it(1))
  with it(2) show "length (fixed_extensions h) < 2 ^ 32" by (simp add: MAX_EXTENSIONS_def)
  show "list_all (\<lambda>x. length (ext_data x) < 2 ^ 16) (fixed_extensions h)"
    using ok by (auto simp: fixed_extensions_def it(1) exts_ok_def ext_fits_def list_all_iff)
  show "length (chr_random h) = 32" "length (chr_legacy_session_id h) < 2 ^ 32"
    "length (u16_list_iter (chr_cipher_suites h)) < 2 ^ 32" "length (chr_legacy_compression_methods h) < 2 ^ 32"
    using m by (simp_all add: RANDOM_LEN_def)
qed

lemma invariant_bytes_inj:
  assumes ci: "copy_inline_ok ci" and d1: "message_ref_decode ci raw1 = Inr (RClientHello h1)"
    and d2: "message_ref_decode ci raw2 = Inr (RClientHello h2)"
    and f1: "fingerprint C h1 = Inr e1" and f2: "fingerprint C h2 = Inr e2"
    and eq: "invariant_bytes h1 = invariant_bytes h2"
  shows "same_hello h1 h2"
proof -
  note b1 = decoded_hello_bounds [OF ci d1] and b2 = decoded_hello_bounds [OF ci d2]
  have items: "list_all ext_item_ok (fixed_extensions h1)" "list_all ext_item_ok (fixed_extensions h2)"
    using b1(6) b2(6) fingerprint_bytes(2) [OF f1] fingerprint_bytes(2) [OF f2]
    by (simp_all add: list_all_iff ext_item_ok_def)
  from eq have a1: "chr_legacy_version h1 = chr_legacy_version h2" and
    r: "chr_random h1 @ lp_bytes (chr_legacy_session_id h1) @ len_u32 (length (u16_list_iter (chr_cipher_suites h1))) @
     u16s_bytes (u16_list_iter (chr_cipher_suites h1)) @ lp_bytes (chr_legacy_compression_methods h1) @
     len_u32 (length (fixed_extensions h1)) @ concat (map ext_body (fixed_extensions h1)) =
     chr_random h2 @ lp_bytes (chr_legacy_session_id h2) @ len_u32 (length (u16_list_iter (chr_cipher_suites h2))) @
     u16s_bytes (u16_list_iter (chr_cipher_suites h2)) @ lp_bytes (chr_legacy_compression_methods h2) @
     len_u32 (length (fixed_extensions h2)) @ concat (map ext_body (fixed_extensions h2))"
    by (simp_all add: invariant_bytes_def u16_append)
  have a2: "chr_random h1 = chr_random h2" using r b1(1) b2(1) by (simp add: append_eq_append_conv)
  from a2 r have a3: "chr_legacy_session_id h1 = chr_legacy_session_id h2"
    "length (u16_list_iter (chr_cipher_suites h1)) = length (u16_list_iter (chr_cipher_suites h2))" and
    r2: "u16s_bytes (u16_list_iter (chr_cipher_suites h1)) @ lp_bytes (chr_legacy_compression_methods h1) @
     len_u32 (length (fixed_extensions h1)) @ concat (map ext_body (fixed_extensions h1)) =
     u16s_bytes (u16_list_iter (chr_cipher_suites h2)) @ lp_bytes (chr_legacy_compression_methods h2) @
     len_u32 (length (fixed_extensions h2)) @ concat (map ext_body (fixed_extensions h2))"
    by (simp_all only: same_append_eq lp_bytes_append [OF b1(2) b2(2)] len_u32_append [OF b1(3) b2(3)])
  from a3(2) r2 have a4: "u16_list_iter (chr_cipher_suites h1) = u16_list_iter (chr_cipher_suites h2)" and
    r3: "lp_bytes (chr_legacy_compression_methods h1) @
     len_u32 (length (fixed_extensions h1)) @ concat (map ext_body (fixed_extensions h1)) =
     lp_bytes (chr_legacy_compression_methods h2) @
     len_u32 (length (fixed_extensions h2)) @ concat (map ext_body (fixed_extensions h2))"
    by (simp_all only: u16s_append)
  from r3 have a5: "chr_legacy_compression_methods h1 = chr_legacy_compression_methods h2"
    "length (fixed_extensions h1) = length (fixed_extensions h2)"
    "concat (map ext_body (fixed_extensions h1)) = concat (map ext_body (fixed_extensions h2))"
    by (simp_all only: lp_bytes_append [OF b1(4) b2(4)] len_u32_append [OF b1(5) b2(5)])
  show ?thesis
    unfolding same_hello_def using a1 a2 a3(1) a4 a5(1) ext_bodies_inj [OF a5(2) items a5(3)] by (intro conjI)
qed

text \<open>
  C22.  Only the permitted changes across a HelloRetryRequest.  A second ClientHello that passes
  validation against the invariant captured from the first carries no early data and exactly
  one share, for the requested group, and agrees with the first on the version, random, session id, cipher
  suites, compression methods and every other extension (binder bytes apart); the only
  alternative is a SHA-256 collision between the two hashed encodings.
\<close>

theorem retry_unchanged:
  assumes "copy_inline_ok ci" and "message_ref_decode ci raw1 = Inr (RClientHello h1)"
    and "message_ref_decode ci raw2 = Inr (RClientHello h2)"
    and "invariant_capture C h1 grp = Inr captured" and "invariant_validate C captured h2 kx = Inr ()"
  shows "extensions_find EARLY_DATA (chr_extensions h2) = None \<and> ck_share_count kx = 1 \<and>
    map_option ps_group (ck_selected kx) = Some grp \<and>
    (same_hello h1 h2 \<or>
     (invariant_bytes h1 \<noteq> invariant_bytes h2 \<and>
      ring_digest C Sha256 (invariant_bytes h1) = ring_digest C Sha256 (invariant_bytes h2)))"
proof -
  obtain e1 e2 where f: "fingerprint C h1 = Inr e1" "fingerprint C h2 = Inr e2" "digest_eq e2 e1"
      and kx: "require_retry kx grp = Inr ()" and ed: "extensions_find EARLY_DATA (chr_extensions h2) = None"
    using assms(4,5) by (auto simp: invariant_capture_def invariant_validate_def and_then_eq_Inr split: if_splits)
  have "ring_digest C Sha256 (invariant_bytes h1) = ring_digest C Sha256 (invariant_bytes h2)"
    using f fingerprint_bytes(1) [OF f(1)] fingerprint_bytes(1) [OF f(2)] by (simp add: digest_eq_def)
  moreover have "same_hello h1 h2" if "invariant_bytes h1 = invariant_bytes h2"
    using invariant_bytes_inj [OF assms(1-3) f(1,2) that] .
  ultimately show ?thesis
    using kx ed by (auto simp: require_retry_def split: if_splits option.splits)
qed

definition sample_hello :: "bytes \<Rightarrow> client_hello" where
  "sample_hello shares =
     \<lparr>ch_legacy_version = TLS_1_2, ch_random = replicate 32 7, ch_legacy_session_id = [],
      ch_cipher_suites = [0x1301], ch_legacy_compression_methods = [0],
      ch_extensions = [\<lparr>ext_ty = KEY_SHARE, ext_data = shares\<rparr>]\<rparr>"

definition sample_hello_ref :: "bytes \<Rightarrow> client_hello_ref" where
  "sample_hello_ref shares =
     \<lparr>chr_legacy_version = TLS_1_2, chr_random = replicate 32 7, chr_legacy_session_id = [],
      chr_cipher_suites = u16s_bytes [0x1301], chr_legacy_compression_methods = [0],
      chr_extensions = exts_bytes [\<lparr>ext_ty = KEY_SHARE, ext_data = shares\<rparr>]\<rparr>"

lemma sample_hello_decodes:
  assumes "length shares < 100"
  shows "message_ref_decode copy_inline_ref (frame_bytes (FClientHello (sample_hello shares))) =
    Inr (RClientHello (sample_hello_ref shares))"
proof -
  have "frame_ok (FClientHello (sample_hello shares))"
    using assms by (simp add: frame_ok_def sample_hello_def RANDOM_LEN_def exts_ok_def ext_fits_def exts_bytes_def ext_bytes_def
        client_hello_bytes_def vec8_def vec16_def MAX_EXTENSIONS_def)
  then show ?thesis
    by (simp add: message_ref_decode_eq_Inr [OF copy_inline_ref_ok], intro exI [of _ "FClientHello (sample_hello shares)"])
      (simp add: sample_hello_def sample_hello_ref_def)
qed

lemma sample_fingerprint:
  assumes "length shares < 100"
  shows "fingerprint C (sample_hello_ref shares) = fingerprint C (sample_hello_ref [])"
    "\<exists>d. fingerprint C (sample_hello_ref shares) = Inr d"
    "extensions_find EARLY_DATA (chr_extensions (sample_hello_ref shares)) = None"
proof -
  have it: "extensions_iter (chr_extensions (sample_hello_ref sh)) = [\<lparr>ext_ty = KEY_SHARE, ext_data = sh\<rparr>]" if "length sh < 100" for sh
    unfolding sample_hello_ref_def client_hello_ref.select_convs
    by (rule extensions_iter_exts_bytes) (use that in \<open>simp add: ext_fits_def\<close>)
  obtain t where t: "transcript_select Sha256 transcript_new = (Inr (), t)" "transcript_holds t (Some Sha256) []"
    using transcript_holds_select [OF transcript_holds_new, of Sha256] by (metis prod.collapse)
  have sc: "chr_cipher_suites (sample_hello_ref sh) = u16s_bytes [0x1301]" for sh by (simp add: sample_hello_ref_def)
  have same: "fingerprint C (sample_hello_ref sh) = map_err error_of_transcript (transcript_hash C Sha256
      (transcript_update (len_u32 0) (update_bytes [0] (transcript_update (be_bytes 2 0x1301) (transcript_update (len_u32 1)
       (update_bytes [] (transcript_update (replicate 32 7) (transcript_update (be_bytes 2 0x0303)
         (transcript_update (ascii ''shin hrr client hello invariant v1'') t)))))))))" if "length sh < 100" for sh
    unfolding fingerprint_def t(1) sc u16_list_iter_bytes it [OF that] Let_def
    by (simp add: sample_hello_ref_def is_fully_mutable_def KEY_SHARE_def PADDING_def COOKIE_def EARLY_DATA_def TLS_1_2_def)
  show "fingerprint C (sample_hello_ref shares) = fingerprint C (sample_hello_ref [])"
    using same [OF assms] same [of "[]"] by simp
  note up = transcript_holds_update and ub = update_bytes_holds
  show "\<exists>d. fingerprint C (sample_hello_ref shares) = Inr d"
    using transcript_holds_hash [OF up [OF ub [OF up [OF up [OF ub [OF up [OF up [OF up [OF t(2)]]]]]]]], of C Sha256]
    by (simp add: same [OF assms])
  show "extensions_find EARLY_DATA (chr_extensions (sample_hello_ref shares)) = None"
    by (simp add: extensions_find_def it [OF assms] KEY_SHARE_def EARLY_DATA_def)
qed

theorem retry_unchanged_witness:
  "let h1 = sample_hello_ref [0, 0]; h2 = sample_hello_ref [0, 5, 0, 29, 0, 1, 7];
       kx = \<lparr>ck_selected = Some \<lparr>ps_group = X25519, ps_key_exchange = [7]\<rparr>, ck_retry_group = X25519, ck_share_count = 1\<rparr> in
    extensions_find EARLY_DATA (chr_extensions h2) = None \<and> ck_share_count kx = 1 \<and>
    map_option ps_group (ck_selected kx) = Some X25519 \<and>
    (same_hello h1 h2 \<or>
     (invariant_bytes h1 \<noteq> invariant_bytes h2 \<and>
      ring_digest crypto_toy Sha256 (invariant_bytes h1) = ring_digest crypto_toy Sha256 (invariant_bytes h2)))"
proof -
  let ?h1 = "sample_hello_ref [0, 0]" and ?h2 = "sample_hello_ref [0, 5, 0, 29, 0, 1, 7]"
  have s: "length [0, 0 :: u8] < 100" "length [0, 5, 0, 29, 0, 1, 7 :: u8] < 100" by simp_all
  obtain d where d: "fingerprint crypto_toy ?h1 = Inr d" using sample_fingerprint(2) [OF s(1)] by blast
  have "fingerprint crypto_toy ?h2 = Inr d"
    using d sample_fingerprint(1) [OF s(1)] sample_fingerprint(1) [OF s(2)] by simp
  then show ?thesis
    unfolding Let_def
    using sample_fingerprint(3) [OF s(2)]
    by (intro retry_unchanged [OF copy_inline_ref_ok sample_hello_decodes [OF s(1)] sample_hello_decodes [OF s(2)],
          where captured = "\<lparr>hi_fingerprint = d, hi_requested_group = X25519\<rparr>"])
      (simp_all add: invariant_capture_def invariant_validate_def d require_retry_def digest_eq_def)
qed

end
