(* ===== verification/Reassembler.thy ===== *)
theory Reassembler
  imports Connection
begin

section \<open>Reassembly of handshake messages\<close>

unbundle bit_operations_syntax

text \<open>
  \<open>wire/handshake/reassemblers.rs\<close>: the KeyUpdate budget, which keeps a counter and a flag in
  one 32-bit word, and the reassembler, whose \<open>read\<close> loop hands every complete message to a
  callback.  The callback is a function over a state of the caller's choice.  Reading is
  shown to deliver exactly the messages of the byte stream for every cut into records that
  keeps the limits of the code, and to fail for every other cut: a record may complete eight
  KeyUpdates, and what spans records has to fit the buffer.
\<close>

subsection \<open>KeyUpdateBudget\<close>

definition RESPONSE_PENDING :: u32 where "RESPONSE_PENDING = push_bit 31 1"

definition budget_consume :: "u32 \<Rightarrow> u32 \<Rightarrow> bool \<times> u32" where
  "budget_consume limit s =
     (let count = s AND NOT RESPONSE_PENDING in
      if count \<ge> limit then (False, s)
      else (True, (count + 1) OR (s AND RESPONSE_PENDING)))"

definition budget_reset :: "u32 \<Rightarrow> u32" where
  "budget_reset s = s AND RESPONSE_PENDING"

definition budget_response_pending :: "u32 \<Rightarrow> bool" where
  "budget_response_pending s \<longleftrightarrow> s AND RESPONSE_PENDING \<noteq> 0"

definition budget_request_response :: "u32 \<Rightarrow> u32" where
  "budget_request_response s = s OR RESPONSE_PENDING"

definition budget_clear_response :: "u32 \<Rightarrow> u32" where
  "budget_clear_response s = s AND NOT RESPONSE_PENDING"

lemmas budget_defs = budget_consume_def budget_reset_def budget_response_pending_def
  budget_request_response_def budget_clear_response_def

text \<open>The abstract budget: a count and a flag.\<close>

definition budget_count :: "u32 \<Rightarrow> nat" where
  "budget_count s = unat (take_bit 31 s)"

definition budget_flag :: "u32 \<Rightarrow> bool" where
  "budget_flag s \<longleftrightarrow> bit s 31"

lemma bit_RESPONSE_PENDING: "bit RESPONSE_PENDING n \<longleftrightarrow> n = 31"
  unfolding RESPONSE_PENDING_def bit_push_bit_iff bit_1_iff by auto

lemma not_pending: "s AND NOT RESPONSE_PENDING = take_bit 31 s"
  by (rule bit_word_eqI) (auto simp: bit_RESPONSE_PENDING bit_simps)

lemma and_pending: "s AND RESPONSE_PENDING = (if bit s 31 then RESPONSE_PENDING else 0)"
  by (rule bit_word_eqI) (auto simp: bit_RESPONSE_PENDING bit_simps)

lemma pending_nonzero: "RESPONSE_PENDING \<noteq> 0" and take_bit_pending: "take_bit 31 RESPONSE_PENDING = 0"
  by (simp_all add: RESPONSE_PENDING_def)

lemma budget_flag_simps:
  "budget_response_pending s = budget_flag s"
  "budget_flag (budget_request_response s)" "budget_count (budget_request_response s) = budget_count s"
  "\<not> budget_flag (budget_clear_response s)" "budget_count (budget_clear_response s) = budget_count s"
  "budget_flag (budget_reset s) = budget_flag s" "budget_count (budget_reset s) = 0"
proof -
  show "budget_response_pending s = budget_flag s"
    unfolding budget_response_pending_def budget_flag_def and_pending by (simp add: pending_nonzero)
  show "budget_flag (budget_request_response s)"
    by (simp add: budget_flag_def budget_request_response_def bit_RESPONSE_PENDING bit_simps)
  have "take_bit 31 (s OR RESPONSE_PENDING) = take_bit 31 s"
    by (rule bit_word_eqI) (auto simp: bit_RESPONSE_PENDING bit_simps)
  then show "budget_count (budget_request_response s) = budget_count s"
    by (simp add: budget_count_def budget_request_response_def)
  show "\<not> budget_flag (budget_clear_response s)"
    by (simp add: budget_flag_def budget_clear_response_def not_pending bit_simps)
  show "budget_count (budget_clear_response s) = budget_count s"
    by (simp add: budget_count_def budget_clear_response_def not_pending)
  show "budget_flag (budget_reset s) = budget_flag s"
    by (simp add: budget_flag_def budget_reset_def bit_RESPONSE_PENDING bit_simps)
  have "take_bit 31 (s AND RESPONSE_PENDING) = 0"
    by (rule bit_word_eqI) (auto simp: bit_RESPONSE_PENDING bit_simps)
  then show "budget_count (budget_reset s) = 0" by (simp add: budget_count_def budget_reset_def)
qed

lemma budget_consume_eq:
  assumes "limit < RESPONSE_PENDING"
  shows "fst (budget_consume limit s) \<longleftrightarrow> budget_count s < unat limit"
    and "budget_count (snd (budget_consume limit s)) =
      (if budget_count s < unat limit then budget_count s + 1 else budget_count s)"
    and "budget_flag (snd (budget_consume limit s)) = budget_flag s"
proof -
  let ?c = "take_bit 31 s"
  have lim: "unat limit < 2 ^ 31"
    using assms by (simp add: RESPONSE_PENDING_def word_less_nat_alt)
  show 1: "fst (budget_consume limit s) \<longleftrightarrow> budget_count s < unat limit"
    by (simp add: budget_consume_def not_pending Let_def budget_count_def word_less_nat_alt word_le_nat_alt not_le)
  show "budget_count (snd (budget_consume limit s)) =
      (if budget_count s < unat limit then budget_count s + 1 else budget_count s)"
    "budget_flag (snd (budget_consume limit s)) = budget_flag s"
  proof -
    consider "limit \<le> ?c" | "?c < limit" by fastforce
    then show "budget_count (snd (budget_consume limit s)) =
        (if budget_count s < unat limit then budget_count s + 1 else budget_count s)"
      "budget_flag (snd (budget_consume limit s)) = budget_flag s"
    proof (atomize (full), cases)
      case 1
      then show "budget_count (snd (budget_consume limit s)) =
          (if budget_count s < unat limit then budget_count s + 1 else budget_count s) \<and>
        budget_flag (snd (budget_consume limit s)) = budget_flag s"
        by (simp add: budget_consume_def not_pending Let_def budget_count_def word_le_nat_alt not_less)
    next
      case 2
      then have lt: "unat ?c < unat limit" by (simp add: word_less_nat_alt)
      then have suc: "unat (?c + 1) = unat ?c + 1" using lim unat_add_lem [of ?c 1] by simp
      then have small: "unat (?c + 1) < 2 ^ 31" using lt lim by simp
      then have tb: "take_bit 31 (?c + 1) = ?c + 1"
        by (metis take_bit_nat_eq_self unsigned_take_bit_eq word_unat_eq_iff)
      have "\<not> bit (?c + 1) 31" by (subst tb [symmetric]) (simp only: bit_take_bit_iff less_irrefl simp_thms)
      moreover have "take_bit 31 ((?c + 1) OR (s AND RESPONSE_PENDING)) = ?c + 1"
        unfolding and_pending by (simp add: take_bit_or tb take_bit_pending)
      ultimately show "budget_count (snd (budget_consume limit s)) =
          (if budget_count s < unat limit then budget_count s + 1 else budget_count s) \<and>
        budget_flag (snd (budget_consume limit s)) = budget_flag s"
        using 2 lt suc
        by (simp add: budget_consume_def not_pending Let_def budget_count_def budget_flag_def bit_or_iff
            and_pending bit_RESPONSE_PENDING)
    qed
  qed
qed

subsection \<open>HsReassembler\<close>

record reassembler =
  rs_buf :: bounded_buffer
  rs_epoch :: "epoch option"
  rs_key_updates :: u32

definition reassembler_with_buffer :: "bounded_buffer \<Rightarrow> reassembler" where
  "reassembler_with_buffer buffer = \<lparr>rs_buf = buffer, rs_epoch = None, rs_key_updates = 0\<rparr>"

definition reassembler_default :: reassembler where
  "reassembler_default = reassembler_with_buffer bb_default"

definition reassembler_capacity :: "reassembler \<Rightarrow> nat" where
  "reassembler_capacity r = bb_capacity (rs_buf r)"

definition begin_record :: "epoch \<Rightarrow> reassembler \<Rightarrow> (decode_error + unit) \<times> reassembler" where
  "begin_record ep r =
     (if \<not> bb_is_empty (rs_buf r) \<and> rs_epoch r \<noteq> Some ep then (Inl HandshakeSpansEpoch, r)
      else (Inr (), r\<lparr>rs_key_updates := budget_reset (rs_key_updates r)\<rparr>))"

definition reassembler_append :: "bytes \<Rightarrow> reassembler \<Rightarrow> (conn_error + unit) \<times> reassembler" where
  "reassembler_append bs r =
     (case bb_try_extend bs (rs_buf r) of
        (res, b) \<Rightarrow> (map_err (\<lambda>_. WorkspaceExhausted FragmentedMessage) res, r\<lparr>rs_buf := b\<rparr>))"

definition validate_message :: "u8 \<Rightarrow> reassembler \<Rightarrow> (conn_error + unit) \<times> reassembler" where
  "validate_message ty r =
     (if ty = hs_type_u8 TKeyUpdate
      then (case budget_consume MAX_KEY_UPDATES_PER_RECORD (rs_key_updates r) of
              (ok, b) \<Rightarrow> (if ok then Inr () else Inl UnexpectedMessage, r\<lparr>rs_key_updates := b\<rparr>))
      else (Inr (), r))"

definition release_buffer :: "reassembler \<Rightarrow> bounded_buffer \<times> reassembler" where
  "release_buffer r =
     (bb_clear (rs_buf r),
      r\<lparr>rs_epoch := None, rs_key_updates := budget_reset (rs_key_updates r), rs_buf := bb_default\<rparr>)"

definition reassembler_discard :: "reassembler \<Rightarrow> reassembler" where
  "reassembler_discard r =
     r\<lparr>rs_buf := bb_clear (rs_buf r), rs_epoch := None,
       rs_key_updates := budget_reset (rs_key_updates r)\<rparr>"

type_synonym ('s, 'e) process = "bytes \<Rightarrow> 's \<Rightarrow> ('e drive_error + unit) \<times> 's"

lemma bb_clear_empty [simp]: "bb_is_empty (bb_clear b)"
  by (simp add: bb_is_empty_def bb_len_def bb_clear_def)

lemma validate_message_buf [simp]: "rs_buf (snd (validate_message t r)) = rs_buf r"
  by (simp add: validate_message_def split: prod.splits)

lemma validate_message_bufD: "validate_message t r = (v, r1) \<Longrightarrow> rs_buf r1 = rs_buf r"
  using validate_message_buf [of t r] by (simp del: validate_message_buf)

lemma encoded_message_len_ge: "encoded_message_len h = Inr n \<Longrightarrow> 4 \<le> n \<and> 4 \<le> length h"
  by (auto simp: encoded_message_len_def Let_def split: list.splits if_splits)

text \<open>
  The body of the loop that completes the buffered message.  It returns the input left over
  and whether the loop goes on.
\<close>

definition fill_buffer :: "bytes \<Rightarrow> reassembler \<Rightarrow> (conn_error + bytes \<times> bool) \<times> reassembler" where
  "fill_buffer input r =
     (let tk = min (4 - bb_len (rs_buf r)) (length input);
          (res, r1) = (if bb_len (rs_buf r) < 4 then reassembler_append (take tk input) r else (Inr (), r));
          input1 = (if bb_len (rs_buf r) < 4 then drop tk input else input)
      in case res of Inl e \<Rightarrow> (Inl e, r1)
         | Inr _ \<Rightarrow>
             if bb_len (rs_buf r1) < 4 then (Inr (input1, False), r1)
             else (case encoded_message_len (bb_as_slice (rs_buf r1)) of
                 Inl e \<Rightarrow> (Inl (error_of_decode e), r1)
               | Inr msg_len \<Rightarrow>
                   if msg_len < bb_len (rs_buf r1) then (Inl (error_of_decode Trailing), r1)
                   else let tk2 = min (msg_len - bb_len (rs_buf r1)) (length input1) in
                     (case reassembler_append (take tk2 input1) r1 of
                        (Inl e, r2) \<Rightarrow> (Inl e, r2)
                      | (Inr _, r2) \<Rightarrow> (Inr (drop tk2 input1, \<not> bb_len (rs_buf r2) < msg_len), r2))))"

lemma fill_buffer_consumes: "fill_buffer input r = (Inr (input', go), r') \<Longrightarrow> length input' \<le> length input"
  by (auto simp: fill_buffer_def Let_def split: prod.splits sum.splits if_splits)

function read_loop ::
    "('s, 'e) process \<Rightarrow> epoch \<Rightarrow> bytes \<Rightarrow> reassembler \<Rightarrow> 's \<Rightarrow> ('e drive_error + unit) \<times> reassembler \<times> 's" where
  "read_loop process ep input r s =
     (if bb_is_empty (rs_buf r)
      then (if input = [] then (Inr (), r, s)
        else let store = (case reassembler_append input r of
                    (Inl e, r1) \<Rightarrow> (Inl (Protocol e), r1, s)
                  | (Inr _, r1) \<Rightarrow> (Inr (), r1\<lparr>rs_epoch := Some ep\<rparr>, s)) in
          if length input \<ge> 4
          then (case encoded_message_len input of
              Inl e \<Rightarrow> (Inl (Protocol (error_of_decode e)), r, s)
            | Inr msg_len \<Rightarrow>
                if length input \<ge> msg_len
                then (case validate_message (take msg_len input ! 0) r of
                    (Inl e, r1) \<Rightarrow> (Inl (Protocol e), r1, s)
                  | (Inr _, r1) \<Rightarrow>
                      (case process (take msg_len input) s of
                         (Inl e, s') \<Rightarrow> (Inl e, r1, s')
                       | (Inr _, s') \<Rightarrow> read_loop process ep (drop msg_len input) r1 s'))
                else store)
          else store)
      else (case fill_buffer input r of
          (Inl e, r1) \<Rightarrow> (Inl (Protocol e), r1, s)
        | (Inr (input', False), r1) \<Rightarrow> (Inr (), r1, s)
        | (Inr (input', True), r1) \<Rightarrow>
            (let r2 = r1\<lparr>rs_epoch := None\<rparr>;
                 (v, r3) = validate_message (bb_as_slice (rs_buf r2) ! 0) r2;
                 (res, s') = (case v of Inl e \<Rightarrow> (Inl (Protocol e), s)
                              | Inr _ \<Rightarrow> process (bb_as_slice (rs_buf r3)) s);
                 r4 = r3\<lparr>rs_buf := bb_clear (rs_buf r3)\<rparr>
             in case res of Inl e \<Rightarrow> (Inl e, r4, s') | Inr _ \<Rightarrow> read_loop process ep input' r4 s')))"
  by pat_completeness auto
termination
proof (relation "measure (\<lambda>(process, ep, input, r, s).
    2 * length input + (if bb_is_empty (rs_buf r) then 0 else 1))")
qed (auto dest!: encoded_message_len_ge fill_buffer_consumes [OF sym] validate_message_bufD)

declare read_loop.simps [simp del]

definition reassembler_read ::
    "('s, 'e) process \<Rightarrow> epoch \<Rightarrow> bytes \<Rightarrow> reassembler \<Rightarrow> 's \<Rightarrow> ('e drive_error + unit) \<times> reassembler \<times> 's" where
  "reassembler_read process ep input r s =
     (case begin_record ep r of
        (Inl e, r1) \<Rightarrow> (Inl (Protocol (error_of_decode e)), r1, s)
      | (Inr _, r1) \<Rightarrow> read_loop process ep input r1 s)"

subsection \<open>Reference: the messages of a byte stream\<close>

function split_messages :: "bytes \<Rightarrow> bytes list \<times> bytes" where
  "split_messages s =
     (case encoded_message_len s of
        Inl _ \<Rightarrow> ([], s)
      | Inr n \<Rightarrow> if length s < n then ([], s)
                else (let (ms, rest) = split_messages (drop n s) in (take n s # ms, rest)))"
  by pat_completeness auto
termination
  by (relation "measure length") (auto dest: encoded_message_len_ge)

declare split_messages.simps [simp del]

text \<open>No header of the stream announces a message above the size limit.\<close>

function stream_ok :: "bytes \<Rightarrow> bool" where
  "stream_ok s \<longleftrightarrow>
     length s < 4 \<or>
     (case encoded_message_len s of Inl _ \<Rightarrow> False
      | Inr n \<Rightarrow> length s < n \<or> stream_ok (drop n s))"
  by pat_completeness auto
termination
  by (relation "measure length") (auto dest: encoded_message_len_ge)

declare stream_ok.simps [simp del]

text \<open>
  Processing messages in order within one record: the callback runs on each until it fails,
  and a ninth KeyUpdate fails.
\<close>

fun process_messages ::
    "('s, 'e) process \<Rightarrow> nat \<Rightarrow> bytes list \<Rightarrow> 's \<Rightarrow> ('e drive_error + unit) \<times> 's" where
  "process_messages process c [] s = (Inr (), s)"
| "process_messages process c (m # ms) s =
     (if m ! 0 = hs_type_u8 TKeyUpdate \<and> c \<ge> 8 then (Inl (Protocol UnexpectedMessage), s)
      else case process m s of
        (Inl e, s') \<Rightarrow> (Inl e, s')
      | (Inr _, s') \<Rightarrow>
          process_messages process (if m ! 0 = hs_type_u8 TKeyUpdate then c + 1 else c) ms s')"

lemma encoded_message_len_short: "length s < 4 \<Longrightarrow> encoded_message_len s = Inl Underflow"
  by (auto simp: encoded_message_len_def split: list.splits)

lemma encoded_message_len_append:
  "4 \<le> length s \<Longrightarrow> encoded_message_len (s @ t) = encoded_message_len s"
  by (auto simp: encoded_message_len_def split: list.splits)

lemma encoded_message_len_le: "encoded_message_len s = Inr n \<Longrightarrow> n \<le> MAX_SIZE"
  by (auto simp: encoded_message_len_def Let_def split: list.splits if_splits)

lemma split_messages_short: "length s < 4 \<Longrightarrow> split_messages s = ([], s)"
  by (simp add: split_messages.simps [of s] encoded_message_len_short)

lemma split_messages_step:
  "encoded_message_len s = Inr n \<Longrightarrow> n \<le> length s \<Longrightarrow>
     split_messages s = (take n s # fst (split_messages (drop n s)), snd (split_messages (drop n s)))"
  by (simp add: split_messages.simps [of s] Let_def split: prod.splits)

lemma split_messages_wait:
  "encoded_message_len s = Inr n \<Longrightarrow> length s < n \<Longrightarrow> split_messages s = ([], s)"
  by (simp add: split_messages.simps [of s])

lemma split_messages_append:
  "split_messages (s @ t) =
    (fst (split_messages s) @ fst (split_messages (snd (split_messages s) @ t)),
     snd (split_messages (snd (split_messages s) @ t)))"
proof (induction s rule: split_messages.induct)
  case (1 s)
  show ?case
  proof (cases "encoded_message_len s")
    case (Inl e)
    then show ?thesis by (simp add: split_messages.simps [of s])
  next
    case (Inr n)
    then have st: "encoded_message_len (s @ t) = Inr n"
      using encoded_message_len_ge [of s n] by (simp add: encoded_message_len_append)
    show ?thesis
    proof (cases "length s < n")
      case True
      then show ?thesis using Inr by (simp add: split_messages_wait)
    next
      case False
      from "1.IH" [OF Inr False] show ?thesis
        using False Inr st split_messages_step [of s n] split_messages_step [of "s @ t" n] by simp
    qed
  qed
qed

subsection \<open>One record\<close>

lemma bb_ext_facts:
  assumes "bb_wf b"
  shows "bb_len b = length (bb_as_slice b)"
    and "bb_as_slice (bb_ext b x) = bb_as_slice b @ x"
    and "bb_len (bb_ext b x) = length (bb_as_slice b) + length x"
    and "bb_limit (bb_ext b x) = bb_limit b"
    and "length (bb_as_slice b) + length x \<le> bb_limit b \<Longrightarrow> bb_wf (bb_ext b x)"
  using assms by (auto simp: bb_wf_def bb_len_def bb_as_slice_def bb_ext_def)

lemma bb_ext_ext: "bb_ext (bb_ext b x) y = bb_ext b (x @ y)"
  by (simp add: bb_ext_def)

lemma reassembler_append_ok:
  "bb_wf (rs_buf r) \<Longrightarrow> length (bb_as_slice (rs_buf r)) + length bs \<le> bb_limit (rs_buf r) \<Longrightarrow>
     reassembler_append bs r = (Inr (), r\<lparr>rs_buf := bb_ext (rs_buf r) bs\<rparr>)"
  using bb_ext_facts(1) [of "rs_buf r"]
  by (auto simp: reassembler_append_def bb_try_extend_def bb_ext_def)

text \<open>Completing the buffered message, the header already there or not.\<close>

lemma fill_from_header:
  assumes wf: "bb_wf (rs_buf r)" and B: "bb_as_slice (rs_buf r) = B" "4 \<le> length B"
    and n: "encoded_message_len B = Inr n" "length B < n \<or> length B = 4"
    and cap: "min n (length (B @ input)) \<le> bb_limit (rs_buf r)"
  shows "fill_buffer input r =
    (Inr (drop (n - length B) input, n \<le> length (B @ input)),
     r\<lparr>rs_buf := bb_ext (rs_buf r) (take (n - length B) input)\<rparr>)"
proof -
  have nb: "length B \<le> n" using n encoded_message_len_ge [OF n(1)] by auto
  let ?x = "take (min (n - length B) (length input)) input"
  have "length B + length ?x \<le> bb_limit (rs_buf r)" using cap nb by (auto simp: min_def split: if_splits)
  then have "reassembler_append ?x r = (Inr (), r\<lparr>rs_buf := bb_ext (rs_buf r) ?x\<rparr>)"
    using wf B(1) by (intro reassembler_append_ok) simp_all
  moreover have "?x = take (n - length B) input"
    "drop (min (n - length B) (length input)) input = drop (n - length B) input"
    by (simp_all add: min_def)
  moreover have "bb_len (rs_buf r) = length B" using bb_ext_facts(1) [OF wf] B(1) by simp
  ultimately show ?thesis
    using n(1) B nb bb_ext_facts(3) [OF wf, of "take (n - length B) input"]
    by (auto simp: fill_buffer_def Let_def min_def)
qed

lemma fill_buffer_short:
  assumes wf: "bb_wf (rs_buf r)" and B: "bb_as_slice (rs_buf r) = B" "length B < 4"
    and cap: "min 4 (length (B @ input)) \<le> bb_limit (rs_buf r)"
  shows "fill_buffer input r =
    (if length (B @ input) < 4 then (Inr ([], False), r\<lparr>rs_buf := bb_ext (rs_buf r) input\<rparr>)
     else fill_buffer (drop (4 - length B) input)
            (r\<lparr>rs_buf := bb_ext (rs_buf r) (take (4 - length B) input)\<rparr>))"
proof -
  let ?x = "take (min (4 - length B) (length input)) input"
  have "length B + length ?x \<le> bb_limit (rs_buf r)" using cap B(2) by (auto simp: min_def split: if_splits)
  then have a: "reassembler_append ?x r = (Inr (), r\<lparr>rs_buf := bb_ext (rs_buf r) ?x\<rparr>)"
    using wf B(1) by (intro reassembler_append_ok) simp_all
  have len: "bb_len (rs_buf r) = length B" using bb_ext_facts(1) [OF wf] B(1) by simp
  have len': "bb_len (bb_ext (rs_buf r) x) = length B + length x" for x
    using bb_ext_facts(3) [OF wf] B(1) by simp
  show ?thesis
  proof (cases "length (B @ input) < 4")
    case True
    then have "min (4 - length B) (length input) = length input" by simp
    with True a len len' B(2) show ?thesis by (simp add: fill_buffer_def [of input r])
  next
    case False
    then have m: "min (4 - length B) (length input) = 4 - length B" by simp
    let ?r = "r\<lparr>rs_buf := bb_ext (rs_buf r) (take (4 - length B) input)\<rparr>"
    have "bb_len (rs_buf ?r) = 4" using len' False B(2) by simp
    with False a len B(2) show ?thesis
      unfolding fill_buffer_def [of input r] fill_buffer_def [of _ ?r] by (simp add: m Let_def)
  qed
qed

abbreviation exhausted :: conn_error where
  "exhausted \<equiv> WorkspaceExhausted FragmentedMessage"

lemma reassembler_append_full:
  assumes "bb_wf (rs_buf r)" and "length (bb_as_slice (rs_buf r)) + length bs > bb_limit (rs_buf r)"
  shows "reassembler_append bs r = (Inl exhausted, r)"
  using assms bb_ext_facts(1) [OF assms(1)] by (auto simp: reassembler_append_def bb_try_extend_def bb_wf_def)

lemma fill_header_full:
  assumes wf: "bb_wf (rs_buf r)" and B: "bb_as_slice (rs_buf r) = B" "4 \<le> length B"
    and n: "encoded_message_len B = Inr n" "length B \<le> n"
    and cap: "bb_limit (rs_buf r) < min n (length (B @ input))"
  shows "fst (fill_buffer input r) = Inl exhausted"
proof -
  let ?x = "take (min (n - length B) (length input)) input"
  have "length (bb_as_slice (rs_buf r)) + length ?x > bb_limit (rs_buf r)" using cap n(2) B(1) by (auto simp: min_def split: if_splits)
  from reassembler_append_full [OF wf this] show ?thesis
    using n B bb_ext_facts(1) [OF wf] by (auto simp: fill_buffer_def Let_def)
qed

lemma fill_header_bad:
  assumes wf: "bb_wf (rs_buf r)" and B: "bb_as_slice (rs_buf r) = B" "4 \<le> length B" and e: "encoded_message_len B = Inl e"
  shows "fst (fill_buffer input r) = Inl (error_of_decode e)"
  using e B bb_ext_facts(1) [OF wf] by (auto simp: fill_buffer_def Let_def)

lemma fill_short_full:
  assumes wf: "bb_wf (rs_buf r)" and B: "bb_as_slice (rs_buf r) = B" "length B < 4"
    and cap: "bb_limit (rs_buf r) < min 4 (length (B @ input))"
  shows "fst (fill_buffer input r) = Inl exhausted"
proof -
  let ?x = "take (min (4 - length B) (length input)) input"
  have "length (bb_as_slice (rs_buf r)) + length ?x > bb_limit (rs_buf r)" using cap B by (auto simp: min_def split: if_splits)
  from reassembler_append_full [OF wf this] show ?thesis
    using B bb_ext_facts(1) [OF wf] by (auto simp: fill_buffer_def Let_def)
qed

text \<open>Once there are four bytes, and room for them, the buffer holds the header.\<close>

lemma fill_with_header:
  assumes wf: "bb_wf (rs_buf r)" and B: "bb_as_slice (rs_buf r) = B" and len: "4 \<le> length (B @ input)" "4 \<le> bb_limit (rs_buf r)"
  obtains x input1 where "input = x @ input1" "4 \<le> length (B @ x)" "4 \<le> length B \<longrightarrow> x = []" "length B < 4 \<longrightarrow> length (B @ x) = 4"
    "bb_wf (bb_ext (rs_buf r) x)" "fill_buffer input r = fill_buffer input1 (r\<lparr>rs_buf := bb_ext (rs_buf r) x\<rparr>)"
proof (cases "4 \<le> length B")
  case True
  moreover have "r\<lparr>rs_buf := bb_ext (rs_buf r) []\<rparr> = r" by (simp add: bb_ext_def)
  ultimately show ?thesis using wf by (intro that [of "[]" input]) (simp_all add: bb_ext_def)
next
  case False
  let ?x = "take (4 - length B) input"
  have l: "length (B @ ?x) = 4" using False len(1) by simp
  moreover have "fill_buffer input r = fill_buffer (drop (4 - length B) input) (r\<lparr>rs_buf := bb_ext (rs_buf r) ?x\<rparr>)"
    using fill_buffer_short [OF wf B, of input] False len by simp
  moreover have "bb_wf (bb_ext (rs_buf r) ?x)" using bb_ext_facts(5) [OF wf, of ?x] B l len(2) by simp
  ultimately show ?thesis using False by (intro that [of ?x "drop (4 - length B) input"]) simp_all
qed

definition holds :: "epoch \<Rightarrow> nat \<Rightarrow> bytes \<Rightarrow> reassembler \<Rightarrow> bool" where
  "holds ep limit B r \<longleftrightarrow>
     bb_wf (rs_buf r) \<and> bb_limit (rs_buf r) = limit \<and> bb_as_slice (rs_buf r) = B \<and>
     split_messages B = ([], B) \<and> (B \<noteq> [] \<longrightarrow> rs_epoch r = Some ep)"

lemma validate_message_outcome:
  "validate_message t r =
     (if t = hs_type_u8 TKeyUpdate \<and> budget_count (rs_key_updates r) \<ge> 8
      then (Inl UnexpectedMessage, snd (validate_message t r)) else (Inr (), snd (validate_message t r)))"
  "budget_count (rs_key_updates (snd (validate_message t r))) =
     (if t = hs_type_u8 TKeyUpdate \<and> budget_count (rs_key_updates r) < 8
      then budget_count (rs_key_updates r) + 1 else budget_count (rs_key_updates r))"
  "rs_epoch (snd (validate_message t r)) = rs_epoch r"
proof -
  have lim: "MAX_KEY_UPDATES_PER_RECORD < RESPONSE_PENDING" "unat MAX_KEY_UPDATES_PER_RECORD = 8"
    by (simp_all add: MAX_KEY_UPDATES_PER_RECORD_def RESPONSE_PENDING_def)
  note b = budget_consume_eq [OF lim(1), unfolded lim(2), of "rs_key_updates r"]
  show "validate_message t r =
     (if t = hs_type_u8 TKeyUpdate \<and> budget_count (rs_key_updates r) \<ge> 8
      then (Inl UnexpectedMessage, snd (validate_message t r)) else (Inr (), snd (validate_message t r)))"
    using b by (auto simp: validate_message_def split: prod.splits)
  show "budget_count (rs_key_updates (snd (validate_message t r))) =
     (if t = hs_type_u8 TKeyUpdate \<and> budget_count (rs_key_updates r) < 8
      then budget_count (rs_key_updates r) + 1 else budget_count (rs_key_updates r))"
    using b by (auto simp: validate_message_def split: prod.splits)
qed (simp add: validate_message_def split: prod.splits)

lemma split_messages_rest: "snd (split_messages (snd (split_messages s))) = snd (split_messages s) \<and>
    fst (split_messages (snd (split_messages s))) = []"
proof (induction s rule: split_messages.induct)
  case (1 s)
  show ?case
  proof (cases "encoded_message_len s")
    case (Inl e)
    then show ?thesis by (simp add: split_messages.simps [of s])
  next
    case (Inr n)
    show ?thesis
    proof (cases "length s < n")
      case True
      then show ?thesis using Inr by (simp add: split_messages_wait)
    next
      case False
      from "1.IH" [OF Inr False] show ?thesis using False Inr split_messages_step [of s n] by simp
    qed
  qed
qed

text \<open>The loop, one iteration at a time.\<close>

lemma read_loop_done: "bb_is_empty (rs_buf r) \<Longrightarrow> read_loop p ep [] r s = (Inr (), r, s)"
  by (simp add: read_loop.simps [of p ep "[]"])

lemma read_loop_message:
  "bb_is_empty (rs_buf r) \<Longrightarrow> encoded_message_len input = Inr n \<Longrightarrow> n \<le> length input \<Longrightarrow>
     read_loop p ep input r s =
       (case validate_message (take n input ! 0) r of
          (Inl e, r1) \<Rightarrow> (Inl (Protocol e), r1, s)
        | (Inr _, r1) \<Rightarrow>
            (case p (take n input) s of
               (Inl e, s') \<Rightarrow> (Inl e, r1, s') | (Inr _, s') \<Rightarrow> read_loop p ep (drop n input) r1 s'))"
  using encoded_message_len_ge [of input n] by (auto simp: read_loop.simps [of p ep input])

lemma read_loop_wait:
  "\<not> bb_is_empty (rs_buf r) \<Longrightarrow> fill_buffer input r = (Inr (input', False), r1) \<Longrightarrow>
     read_loop p ep input r s = (Inr (), r1, s)"
  by (simp add: read_loop.simps [of p ep input])

lemma read_loop_complete:
  assumes "\<not> bb_is_empty (rs_buf r)" "fill_buffer input r = (Inr (input', True), r1)"
    and r2: "r2 = r1\<lparr>rs_epoch := None\<rparr>" and m: "m = bb_as_slice (rs_buf r1)"
  shows "read_loop p ep input r s =
       (case validate_message (m ! 0) r2 of
          (Inl e, r3) \<Rightarrow> (Inl (Protocol e), r3\<lparr>rs_buf := bb_clear (rs_buf r3)\<rparr>, s)
        | (Inr _, r3) \<Rightarrow>
            (case p m s of
               (Inl e, s') \<Rightarrow> (Inl e, r3\<lparr>rs_buf := bb_clear (rs_buf r3)\<rparr>, s')
             | (Inr _, s') \<Rightarrow> read_loop p ep input' (r3\<lparr>rs_buf := bb_clear (rs_buf r3)\<rparr>) s'))"
proof -
  obtain v r3 where v: "validate_message (m ! 0) r2 = (v, r3)" by (cases "validate_message (m ! 0) r2")
  then have "bb_as_slice (rs_buf r3) = m" using validate_message_bufD [OF v] r2 m by simp
  moreover have "bb_as_slice (rs_buf r2) = m" using r2 m by simp
  moreover obtain x s1 where "p m s = (x, s1)" by (cases "p m s")
  ultimately show ?thesis
    using assms(1,2) v unfolding read_loop.simps [of p ep input r] r2 [symmetric]
    by (cases v; cases x) (simp_all add: Let_def r2 [symmetric] m [symmetric])
qed

lemma holds_cleared:
  "holds ep limit B r \<Longrightarrow> bb_wf b \<Longrightarrow> bb_limit b = limit \<Longrightarrow> holds ep limit [] (r'\<lparr>rs_buf := bb_clear b\<rparr>)"
  using bb_clear_wf [of b]
  by (simp add: holds_def split_messages_short bb_good_def) (simp add: bb_clear_def)

lemma holds_validate: "holds ep limit [] r \<Longrightarrow> holds ep limit [] (snd (validate_message t r))"
  by (simp add: holds_def)

text \<open>
  What one record brings.  \<open>record_plan limit b S\<close>, for the bytes \<open>S\<close> of the buffer and the record together, lists the messages
  that are complete, and says how the record ends: with the bytes to keep, or with an error.  A message that began in an
  earlier record (\<open>b\<close>) is completed in the buffer and has to fit into it; one within the record does not.
\<close>

definition keep_bytes :: "nat \<Rightarrow> bytes \<Rightarrow> conn_error + bytes" where
  "keep_bytes limit S = (if length S \<le> limit then Inr S else Inl exhausted)"

function record_plan :: "nat \<Rightarrow> bool \<Rightarrow> bytes \<Rightarrow> bytes list \<times> (conn_error + bytes)" where
  "record_plan limit b S =
     (if length S < 4 then ([], keep_bytes limit S)
      else if b \<and> limit < 4 then ([], Inl exhausted)
      else case encoded_message_len S of
        Inl e \<Rightarrow> ([], Inl (error_of_decode e))
      | Inr n \<Rightarrow>
          if length S < n then ([], keep_bytes limit S)
          else if b \<and> limit < n then ([], Inl exhausted)
          else (case record_plan limit False (drop n S) of (ms, end1) \<Rightarrow> (take n S # ms, end1)))"
  by pat_completeness auto
termination
  by (relation "measure (\<lambda>(limit, b, S). length S)") (auto dest: encoded_message_len_ge)

declare record_plan.simps [simp del]

lemma record_plan_message:
  "encoded_message_len S = Inr n \<Longrightarrow> n \<le> length S \<Longrightarrow> b \<longrightarrow> n \<le> limit \<Longrightarrow>
     record_plan limit b S = (take n S # fst (record_plan limit False (drop n S)), snd (record_plan limit False (drop n S)))"
  using encoded_message_len_ge [of S n] by (auto simp: record_plan.simps [of limit b S] split: prod.split)

definition plan_outcome ::
    "('s, 'e) process \<Rightarrow> nat \<Rightarrow> bytes list \<times> (conn_error + bytes) \<Rightarrow> 's \<Rightarrow> ('e drive_error + unit) \<times> 's" where
  "plan_outcome p c plan s =
     (case process_messages p c (fst plan) s of
        (Inl e, s') \<Rightarrow> (Inl e, s')
      | (Inr _, s') \<Rightarrow> (case snd plan of Inl e \<Rightarrow> (Inl (Protocol e), s') | Inr _ \<Rightarrow> (Inr (), s')))"

lemma plan_outcome_pair:
  "plan_outcome p c (ms, end1) s =
     (case process_messages p c ms s of
        (Inl e, s') \<Rightarrow> (Inl e, s')
      | (Inr _, s') \<Rightarrow> (case end1 of Inl e \<Rightarrow> (Inl (Protocol e), s') | Inr _ \<Rightarrow> (Inr (), s')))"
  by (simp only: plan_outcome_def fst_conv snd_conv)

definition read_spec ::
    "('s, 'e) process \<Rightarrow> epoch \<Rightarrow> nat \<Rightarrow> nat \<Rightarrow> bytes list \<times> (conn_error + bytes) \<Rightarrow> 's \<Rightarrow>
     ('e drive_error + unit) \<times> reassembler \<times> 's \<Rightarrow> bool" where
  "read_spec p ep limit c plan s out \<longleftrightarrow>
     (case out of (res, r', s') \<Rightarrow>
        plan_outcome p c plan s = (res, s') \<and> (res = Inr () \<longrightarrow> (\<exists>rest. snd plan = Inr rest \<and> holds ep limit rest r')))"

text \<open>One message of the stream and what follows it.\<close>

lemma read_specI:
  assumes run: "out = (case validate_message (m ! 0) r of
        (Inl e, r3) \<Rightarrow> (Inl (Protocol e), f r3, s)
      | (Inr _, r3) \<Rightarrow>
          (case p m s of (Inl e, s') \<Rightarrow> (Inl e, f r3, s') | (Inr _, s') \<Rightarrow> k (f r3) s'))"
    and k: "\<And>s1. read_spec p ep limit (budget_count (rs_key_updates (snd (validate_message (m ! 0) r)))) (ms, end1) s1
      (k (f (snd (validate_message (m ! 0) r))) s1)"
  shows "read_spec p ep limit (budget_count (rs_key_updates r)) (m # ms, end1) s out"
proof (cases "m ! 0 = hs_type_u8 TKeyUpdate \<and> budget_count (rs_key_updates r) \<ge> 8")
  case True
  then obtain r3 where "validate_message (m ! 0) r = (Inl UnexpectedMessage, r3)"
    using validate_message_outcome(1) [of "m ! 0" r] by (simp split: if_splits)
  then show ?thesis using run True by (simp add: read_spec_def plan_outcome_pair)
next
  case False
  then have v: "validate_message (m ! 0) r = (Inr (), snd (validate_message (m ! 0) r))"
    using validate_message_outcome(1) [of "m ! 0" r] by auto
  have c: "budget_count (rs_key_updates (snd (validate_message (m ! 0) r))) =
      (if m ! 0 = hs_type_u8 TKeyUpdate then budget_count (rs_key_updates r) + 1 else budget_count (rs_key_updates r))"
    using validate_message_outcome(2) [of "m ! 0" r] False by auto
  obtain x s1 where p: "p m s = (x, s1)" by (cases "p m s")
  show ?thesis
  proof (cases x)
    case (Inl e)
    then have "out = (Inl e, f (snd (validate_message (m ! 0) r)), s1)" using run p by (subst (asm) v) simp
    then show ?thesis using False p Inl by (auto simp: read_spec_def plan_outcome_pair)
  next
    case (Inr u)
    then have "out = k (f (snd (validate_message (m ! 0) r))) s1" using run p by (subst (asm) v) simp
    moreover have "plan_outcome p (budget_count (rs_key_updates r)) (m # ms, end1) s =
        plan_outcome p (budget_count (rs_key_updates (snd (validate_message (m ! 0) r)))) (ms, end1) s1"
      using False p Inr by (auto simp: plan_outcome_pair c)
    ultimately show ?thesis using k [of s1] by (simp add: read_spec_def)
  qed
qed

lemma read_spec_end:
  "read_spec p ep limit c ([], Inl e) s (Inl (Protocol e), r', s)"
  "holds ep limit rest r' \<Longrightarrow> read_spec p ep limit c ([], Inr rest) s (Inr (), r', s)"
  by (simp_all add: read_spec_def plan_outcome_pair)

text \<open>
  The end of a record, with an empty buffer or a filled one.
\<close>

lemma split_messages_incomplete: "(\<And>n. encoded_message_len S = Inr n \<Longrightarrow> length S < n) \<Longrightarrow> split_messages S = ([], S)"
  by (cases "encoded_message_len S") (auto simp: split_messages.simps [of S])

lemma read_store:
  assumes h: "holds ep limit [] r" and input: "input \<noteq> []" "\<And>n. encoded_message_len input = Inr n \<Longrightarrow> length input < n"
    and header: "\<not> length input < 4 \<Longrightarrow> \<exists>n. encoded_message_len input = Inr n"
  shows "read_spec p ep limit c ([], keep_bytes limit input) s (read_loop p ep input r s)"
proof -
  have wf: "bb_wf (rs_buf r)" "bb_limit (rs_buf r) = limit" "bb_as_slice (rs_buf r) = []" using h by (auto simp: holds_def)
  then have empty: "bb_is_empty (rs_buf r)" using bb_ext_facts(1) [OF wf(1)] by (simp add: bb_is_empty_def)
  have run: "read_loop p ep input r s = (case reassembler_append input r of
      (Inl e, r1) \<Rightarrow> (Inl (Protocol e), r1, s) | (Inr _, r1) \<Rightarrow> (Inr (), r1\<lparr>rs_epoch := Some ep\<rparr>, s))"
    using header input(2) by (auto simp: read_loop.simps [of p ep input] empty input(1) Let_def not_less split: sum.split)
  show ?thesis
  proof (cases "length input \<le> limit")
    case True
    then have "reassembler_append input r = (Inr (), r\<lparr>rs_buf := bb_ext (rs_buf r) input\<rparr>)"
      using wf by (intro reassembler_append_ok) simp_all
    then show ?thesis
      using True run split_messages_incomplete [OF input(2)] bb_ext_facts(2-) [OF wf(1), of input] wf
      by (simp add: keep_bytes_def) (rule read_spec_end, simp add: holds_def)
  next
    case False
    then have "reassembler_append input r = (Inl exhausted, r)" using wf by (intro reassembler_append_full) simp_all
    then show ?thesis using False run by (simp add: keep_bytes_def read_spec_end)
  qed
qed

lemma read_refused:
  assumes "\<not> bb_is_empty (rs_buf r)" and "fst (fill_buffer input r) = Inl e"
  shows "read_spec p ep limit c ([], Inl e) s (read_loop p ep input r s)"
  using assms by (cases "fill_buffer input r") (simp add: read_loop.simps [of p ep input] read_spec_end)

text \<open>Completing the message in the buffer, when there is a header.\<close>

lemma holds_facts:
  assumes "holds ep limit B r"
  shows "bb_wf (rs_buf r)" "bb_limit (rs_buf r) = limit" "bb_as_slice (rs_buf r) = B" "bb_is_empty (rs_buf r) \<longleftrightarrow> B = []" "length B \<le> limit"
    "encoded_message_len (B @ input) = Inr n \<Longrightarrow> length B < n \<or> length B \<le> 4 \<and> length B \<le> n"
proof -
  show wf: "bb_wf (rs_buf r)" "bb_limit (rs_buf r) = limit" "bb_as_slice (rs_buf r) = B" using assms by (auto simp: holds_def)
  then show "bb_is_empty (rs_buf r) \<longleftrightarrow> B = []" "length B \<le> limit" using bb_ext_facts(1) [OF wf(1)] by (auto simp: bb_is_empty_def bb_wf_def)
  assume n: "encoded_message_len (B @ input) = Inr n"
  show "length B < n \<or> length B \<le> 4 \<and> length B \<le> n"
  proof (rule ccontr)
    assume no: "\<not> (length B < n \<or> length B \<le> 4 \<and> length B \<le> n)"
    then have "encoded_message_len B = Inr n" using n encoded_message_len_ge [OF n] encoded_message_len_append [of B input] by simp
    then show False using assms no split_messages_step [of B n] by (simp add: holds_def)
  qed
qed

lemma fill_header:
  assumes h: "holds ep limit B r" and n: "encoded_message_len (B @ input) = Inr n" and lim: "4 \<le> limit"
  shows "if min n (length (B @ input)) \<le> limit
    then fill_buffer input r = (Inr (drop (n - length B) input, n \<le> length (B @ input)),
        r\<lparr>rs_buf := bb_ext (rs_buf r) (take (n - length B) input)\<rparr>)
    else fst (fill_buffer input r) = Inl exhausted"
proof -
  note f = holds_facts [OF h]
  note n4 = encoded_message_len_ge [OF n]
  from f(1,3) have "4 \<le> length (B @ input)" "4 \<le> bb_limit (rs_buf r)" using n4 lim f(2) by simp_all
  from fill_with_header [OF f(1,3) this] obtain x input1 where x: "input = x @ input1" "4 \<le> length (B @ x)" "4 \<le> length B \<longrightarrow> x = []"
      "length B < 4 \<longrightarrow> length (B @ x) = 4" "bb_wf (bb_ext (rs_buf r) x)"
      "fill_buffer input r = fill_buffer input1 (r\<lparr>rs_buf := bb_ext (rs_buf r) x\<rparr>)" .
  let ?r = "r\<lparr>rs_buf := bb_ext (rs_buf r) x\<rparr>"
  have e: "encoded_message_len (B @ x) = Inr n" using n x(1,2) encoded_message_len_append [of "B @ x" input1] by simp
  have le: "length (B @ x) < n \<or> length (B @ x) = 4" "length (B @ x) \<le> n"
    using f(6) [OF n] x(3,4) n4 by (cases "4 \<le> length B"; force)+
  have r: "bb_wf (rs_buf ?r)" "bb_as_slice (rs_buf ?r) = B @ x" "bb_limit (rs_buf ?r) = limit"
    using x(5) bb_ext_facts(2,4) [OF f(1), of x] f(2,3) by simp_all
  have S: "(B @ x) @ input1 = B @ input" using x(1) by simp
  show ?thesis
  proof (cases "min n (length (B @ input)) \<le> limit")
    case True
    have "fill_buffer input1 ?r = (Inr (drop (n - length (B @ x)) input1, n \<le> length (B @ input)),
        ?r\<lparr>rs_buf := bb_ext (rs_buf ?r) (take (n - length (B @ x)) input1)\<rparr>)"
      using fill_from_header [OF r(1,2) x(2) e le(1), of input1] True r(3) unfolding S by simp
    moreover have "length x \<le> n - length B" using le(2) by simp
    ultimately show ?thesis using True x(1,6) by (simp add: bb_ext_ext diff_diff_eq)
  next
    case False
    then have "limit < min n (length ((B @ x) @ input1))" unfolding S not_le .
    then show ?thesis using fill_header_full [OF r(1,2) x(2) e le(2), of input1] r(3) x(6) False by simp
  qed
qed

lemma fill_bad:
  assumes h: "holds ep limit B r" and e: "encoded_message_len (B @ input) = Inl e" and len: "4 \<le> length (B @ input)" and lim: "4 \<le> limit"
  shows "fst (fill_buffer input r) = Inl (error_of_decode e)"
proof -
  note f = holds_facts [OF h]
  from fill_with_header [OF f(1,3) len] lim f(2) obtain x input1 where x: "input = x @ input1" "4 \<le> length (B @ x)"
      "bb_wf (bb_ext (rs_buf r) x)" "fill_buffer input r = fill_buffer input1 (r\<lparr>rs_buf := bb_ext (rs_buf r) x\<rparr>)"
    by metis
  then show ?thesis
    using fill_header_bad [of "r\<lparr>rs_buf := bb_ext (rs_buf r) x\<rparr>" "B @ x" e input1] e encoded_message_len_append [of "B @ x" input1]
      bb_ext_facts(2) [OF f(1), of x] f(3) by simp
qed

lemma fill_short:
  assumes h: "holds ep limit B r" and len: "length B < 4" "length (B @ input) < 4 \<or> limit < 4"
  shows "if length (B @ input) \<le> limit
    then fill_buffer input r = (Inr ([], False), r\<lparr>rs_buf := bb_ext (rs_buf r) input\<rparr>)
    else fst (fill_buffer input r) = Inl exhausted"
proof (cases "length (B @ input) \<le> limit")
  case True
  then show ?thesis using fill_buffer_short [of r B input] holds_facts [OF h] len by auto
next
  case False
  then have "bb_limit (rs_buf r) < min 4 (length (B @ input))" using len holds_facts(2) [OF h] by auto
  then show ?thesis using fill_short_full [of r B input] holds_facts [OF h] len False by auto
qed

text \<open>The message in the buffer is still incomplete at the end of the record.\<close>

lemma read_kept:
  assumes h: "holds ep limit B r" "B \<noteq> []" and S: "\<And>n. encoded_message_len (B @ input) = Inr n \<Longrightarrow> length (B @ input) < n"
    and fill: "if length (B @ input) \<le> limit
      then fill_buffer input r = (Inr ([], False), r\<lparr>rs_buf := bb_ext (rs_buf r) input\<rparr>)
      else fst (fill_buffer input r) = Inl exhausted"
  shows "read_spec p ep limit c ([], keep_bytes limit (B @ input)) s (read_loop p ep input r s)"
proof (cases "length (B @ input) \<le> limit")
  case True
  note f = holds_facts [OF h(1)]
  have "holds ep limit (B @ input) (r\<lparr>rs_buf := bb_ext (rs_buf r) input\<rparr>)"
    using h True split_messages_incomplete [OF S] bb_ext_facts(2,4,5) [OF f(1), of input] f(2,3) by (simp add: holds_def)
  moreover have "read_loop p ep input r s = (Inr (), r\<lparr>rs_buf := bb_ext (rs_buf r) input\<rparr>, s)"
    using fill True read_loop_wait [of r input "[]" _ p] f(4) h(2) by simp
  ultimately show ?thesis using True read_spec_end(2) by (simp add: keep_bytes_def)
next
  case False
  then have "fst (fill_buffer input r) = Inl exhausted" using fill by simp
  then have "read_spec p ep limit c ([], Inl exhausted) s (read_loop p ep input r s)"
    using h holds_facts(4) [OF h(1)] by (intro read_refused) simp_all
  then show ?thesis using False by (simp add: keep_bytes_def)
qed

text \<open>A record read into an empty buffer, and into one with the beginning of a message.\<close>

lemma read_direct:
  assumes h: "holds ep limit [] r"
    and IH: "\<And>n r1 s1. encoded_message_len input = Inr n \<Longrightarrow> n \<le> length input \<Longrightarrow> holds ep limit [] r1 \<Longrightarrow>
      read_spec p ep limit (budget_count (rs_key_updates r1)) (record_plan limit False (drop n input)) s1
        (read_loop p ep (drop n input) r1 s1)"
  shows "read_spec p ep limit (budget_count (rs_key_updates r)) (record_plan limit False input) s (read_loop p ep input r s)"
proof -
  have empty: "bb_is_empty (rs_buf r)" using holds_facts(4) [OF h] by simp
  note plan = record_plan.simps [of limit False input]
  consider "input = []" | "input \<noteq> []" "length input < 4"
    | e where "4 \<le> length input" "encoded_message_len input = Inl e"
    | n where "4 \<le> length input" "encoded_message_len input = Inr n" "length input < n"
    | n where "encoded_message_len input = Inr n" "n \<le> length input"
    by (metis not_le sum.exhaust)
  then show ?thesis
  proof cases
    case 1
    then show ?thesis using plan read_loop_done [OF empty, of p] read_spec_end(2) [OF h, of p] by (simp add: keep_bytes_def)
  next
    case 2
    then show ?thesis using plan read_store [OF h, of input] encoded_message_len_short [of input] by simp
  next
    case 3
    then show ?thesis using plan read_spec_end(1) by (auto simp: read_loop.simps [of p ep input] empty)
  next
    case 4
    then show ?thesis using plan read_store [OF h, of input] by (cases "input = []") simp_all
  next
    case 5
    have "read_spec p ep limit (budget_count (rs_key_updates r))
        (take n input # fst (record_plan limit False (drop n input)), snd (record_plan limit False (drop n input))) s
        (read_loop p ep input r s)"
    proof (rule read_specI [where f = "\<lambda>r. r" and k = "read_loop p ep (drop n input)"])
      fix s1
      show "read_spec p ep limit (budget_count (rs_key_updates (snd (validate_message (take n input ! 0) r))))
          (fst (record_plan limit False (drop n input)), snd (record_plan limit False (drop n input))) s1
          (read_loop p ep (drop n input) (snd (validate_message (take n input ! 0) r)) s1)"
        using IH [OF 5 holds_validate [OF h]] by simp
    qed (rule read_loop_message [OF empty 5])
    then show ?thesis using record_plan_message [OF 5, of False] by simp
  qed
qed

lemma read_buffered:
  assumes h: "holds ep limit B r" "B \<noteq> []" and n: "encoded_message_len (B @ input) = Inr n" "n \<le> length (B @ input)" "n \<le> limit"
    and IH: "\<And>r1 s1. holds ep limit [] r1 \<Longrightarrow>
      read_spec p ep limit (budget_count (rs_key_updates r1)) (record_plan limit False (drop n (B @ input))) s1
        (read_loop p ep (drop n (B @ input)) r1 s1)"
  shows "read_spec p ep limit (budget_count (rs_key_updates r)) (record_plan limit True (B @ input)) s (read_loop p ep input r s)"
proof -
  note f = holds_facts [OF h(1)]
  let ?r1 = "r\<lparr>rs_buf := bb_ext (rs_buf r) (take (n - length B) input)\<rparr>"
  let ?r2 = "?r1\<lparr>rs_epoch := None\<rparr>" and ?m = "take n (B @ input)"
  have nB: "length B \<le> n" using f(6) [OF n(1)] by auto
  have "4 \<le> limit" using encoded_message_len_ge [OF n(1)] n(3) by simp
  then have fill: "fill_buffer input r = (Inr (drop (n - length B) input, True), ?r1)"
    using fill_header [OF h(1) n(1)] n(2,3) by simp
  have m: "?m = bb_as_slice (rs_buf ?r1)" using bb_ext_facts(2) [OF f(1)] f(3) nB by simp
  have wf: "bb_wf (rs_buf ?r1)" "bb_limit (rs_buf ?r1) = limit"
    using bb_ext_facts(4,5) [OF f(1), of "take (n - length B) input"] f(2,3) nB n(2,3) by simp_all
  have rest: "drop (n - length B) input = drop n (B @ input)" using nB by simp
  have clear: "holds ep limit [] (r3\<lparr>rs_buf := bb_clear (rs_buf r3)\<rparr>)" if "rs_buf r3 = rs_buf ?r1" for r3
    using holds_cleared [OF h(1) wf, of r3] that by simp
  have "read_spec p ep limit (budget_count (rs_key_updates ?r2))
      (?m # fst (record_plan limit False (drop n (B @ input))), snd (record_plan limit False (drop n (B @ input)))) s
      (read_loop p ep input r s)"
  proof (rule read_specI [where f = "\<lambda>r. r\<lparr>rs_buf := bb_clear (rs_buf r)\<rparr>" and k = "read_loop p ep (drop n (B @ input))"])
    show "read_loop p ep input r s =
       (case validate_message (?m ! 0) ?r2 of
          (Inl e, r3) \<Rightarrow> (Inl (Protocol e), r3\<lparr>rs_buf := bb_clear (rs_buf r3)\<rparr>, s)
        | (Inr _, r3) \<Rightarrow>
            (case p ?m s of
               (Inl e, s') \<Rightarrow> (Inl e, r3\<lparr>rs_buf := bb_clear (rs_buf r3)\<rparr>, s')
             | (Inr _, s') \<Rightarrow> read_loop p ep (drop n (B @ input)) (r3\<lparr>rs_buf := bb_clear (rs_buf r3)\<rparr>) s'))"
      using h(2) f(4) unfolding rest [symmetric] by (intro read_loop_complete [OF _ fill refl m]) simp
    fix s1
    show "read_spec p ep limit (budget_count (rs_key_updates (snd (validate_message (?m ! 0) ?r2))))
        (fst (record_plan limit False (drop n (B @ input))), snd (record_plan limit False (drop n (B @ input)))) s1
        (read_loop p ep (drop n (B @ input)) ((snd (validate_message (?m ! 0) ?r2))
          \<lparr>rs_buf := bb_clear (rs_buf (snd (validate_message (?m ! 0) ?r2)))\<rparr>) s1)"
      using IH [OF clear [of "snd (validate_message (?m ! 0) ?r2)"], of s1] by simp
  qed
  then show ?thesis using record_plan_message [OF n(1,2), of True limit] n(3) by simp
qed

lemma read_loop_plan:
  "holds ep limit B r \<Longrightarrow>
     read_spec p ep limit (budget_count (rs_key_updates r)) (record_plan limit (B \<noteq> []) (B @ input)) s (read_loop p ep input r s)"
proof (induction "2 * length input + (if B = [] then 0 else 1 :: nat)" arbitrary: input B r s rule: less_induct)
  case less
  note h = less.prems and f = holds_facts [OF less.prems]
  show ?case
  proof (cases "B = []")
    case True
    have "read_spec p ep limit (budget_count (rs_key_updates r)) (record_plan limit False input) s (read_loop p ep input r s)"
    proof (rule read_direct)
      show "holds ep limit [] r" using h True by simp
      fix n r1 s1
      assume n: "encoded_message_len input = Inr n" "n \<le> length input" and r1: "holds ep limit [] r1"
      show "read_spec p ep limit (budget_count (rs_key_updates r1)) (record_plan limit False (drop n input)) s1
          (read_loop p ep (drop n input) r1 s1)"
        using less.hyps [OF _ r1, of "drop n input" s1] encoded_message_len_ge [OF n(1)] n(2) True by fastforce
    qed
    then show ?thesis using True by simp
  next
    case False
    let ?S = "B @ input"
    have ne: "\<not> bb_is_empty (rs_buf r)" using False f(4) by simp
    note plan = record_plan.simps [of limit True ?S]
    consider "length ?S < 4" | "4 \<le> length ?S" "limit < 4"
      | e where "4 \<le> length ?S" "4 \<le> limit" "encoded_message_len ?S = Inl e"
      | n where "4 \<le> length ?S" "4 \<le> limit" "encoded_message_len ?S = Inr n" "length ?S < n"
      | n where "4 \<le> length ?S" "4 \<le> limit" "encoded_message_len ?S = Inr n" "n \<le> length ?S" "limit < n"
      | n where "encoded_message_len ?S = Inr n" "n \<le> length ?S" "n \<le> limit"
      by (metis not_le sum.exhaust)
    then have "read_spec p ep limit (budget_count (rs_key_updates r)) (record_plan limit True ?S) s (read_loop p ep input r s)"
    proof cases
      case 1
      then have "record_plan limit True ?S = ([], keep_bytes limit ?S)" using plan by simp
      moreover have "length B < 4" using 1 by simp
      ultimately show ?thesis
        using read_kept [OF h False _ fill_short [OF h], of input p] 1 encoded_message_len_short [OF 1] by simp
    next
      case 2
      then have "fst (fill_buffer input r) = Inl exhausted" using fill_short [OF h, of input] f(5) by simp
      then show ?thesis using plan 2 read_refused [OF ne, of input exhausted p] by simp
    next
      case 3
      then show ?thesis using plan read_refused [OF ne fill_bad [OF h 3(3,1,2)], of p] by simp
    next
      case 4
      then have "record_plan limit True ?S = ([], keep_bytes limit ?S)" using plan by simp
      moreover have "read_spec p ep limit (budget_count (rs_key_updates r)) ([], keep_bytes limit ?S) s (read_loop p ep input r s)"
        using fill_header [OF h 4(3,2)] 4 by (intro read_kept [OF h False]) (auto simp: min_def)
      ultimately show ?thesis by simp
    next
      case 5
      then have "fst (fill_buffer input r) = Inl exhausted" using fill_header [OF h 5(3,2)] by (simp add: min_def)
      then show ?thesis using plan 5 read_refused [OF ne, of input exhausted p] by simp
    next
      case 6
      have nB: "length B \<le> n" using f(6) [OF 6(1)] by auto
      show ?thesis
      proof (rule read_buffered [OF h False 6])
        fix r1 s1
        assume "holds ep limit [] r1"
        then show "read_spec p ep limit (budget_count (rs_key_updates r1)) (record_plan limit False (drop n ?S)) s1
            (read_loop p ep (drop n ?S) r1 s1)"
          using less.hyps [of "drop n ?S" "[]" r1 s1] False nB by simp
      qed
    qed
    then show ?thesis using False by simp
  qed
qed

lemma holds_begin_record:
  "holds ep limit B r \<Longrightarrow> \<exists>r1. begin_record ep r = (Inr (), r1) \<and> holds ep limit B r1 \<and>
     budget_count (rs_key_updates r1) = 0"
  using bb_ext_facts(1) [of "rs_buf r"]
  by (auto simp: begin_record_def holds_def bb_is_empty_def budget_flag_simps)

lemma reassembler_read_plan:
  assumes "holds ep limit B r"
  shows "read_spec p ep limit 0 (record_plan limit (B \<noteq> []) (B @ input)) s (reassembler_read p ep input r s)"
proof -
  obtain r1 where r1: "begin_record ep r = (Inr (), r1)" "holds ep limit B r1" "budget_count (rs_key_updates r1) = 0"
    using holds_begin_record [OF assms] by blast
  show ?thesis using read_loop_plan [OF r1(2), of p input s] r1 by (simp add: reassembler_read_def)
qed

subsection \<open>A stream cut into records\<close>

fun read_all ::
    "('s, 'e) process \<Rightarrow> epoch \<Rightarrow> bytes list \<Rightarrow> reassembler \<Rightarrow> 's \<Rightarrow> ('e drive_error + unit) \<times> reassembler \<times> 's" where
  "read_all p ep [] r s = (Inr (), r, s)"
| "read_all p ep (f # fs) r s =
     (case reassembler_read p ep f r s of
        (Inl e, r', s') \<Rightarrow> (Inl e, r', s') | (Inr _, r', s') \<Rightarrow> read_all p ep fs r' s')"

text \<open>The callback on a list of messages, until it fails; there are no records here and no budget.\<close>

fun deliver_all :: "('s, 'e) process \<Rightarrow> bytes list \<Rightarrow> 's \<Rightarrow> ('e drive_error + unit) \<times> 's" where
  "deliver_all p [] s = (Inr (), s)"
| "deliver_all p (m # ms) s = (case p m s of (Inl e, s') \<Rightarrow> (Inl e, s') | (Inr _, s') \<Rightarrow> deliver_all p ms s')"

definition ku_count :: "bytes list \<Rightarrow> nat" where
  "ku_count ms = length (filter (\<lambda>m. m ! 0 = hs_type_u8 TKeyUpdate) ms)"

text \<open>
  What a record \<open>f\<close> must satisfy, when the earlier ones left \<open>B\<close>: no header above the size limit, at most eight
  KeyUpdates, and, in the buffer, room for the message that \<open>B\<close> begins and for the bytes left at the end.
\<close>

definition fits_buffer :: "nat \<Rightarrow> bool \<Rightarrow> bytes \<Rightarrow> bool" where
  "fits_buffer limit b S \<longleftrightarrow>
     stream_ok S \<and> length (snd (split_messages S)) \<le> limit \<and>
     (b \<longrightarrow> (case fst (split_messages S) of [] \<Rightarrow> True | m # _ \<Rightarrow> length m \<le> limit))"

definition record_ok :: "nat \<Rightarrow> bytes \<Rightarrow> bytes \<Rightarrow> bool" where
  "record_ok limit B f \<longleftrightarrow> fits_buffer limit (B \<noteq> []) (B @ f) \<and> ku_count (fst (split_messages (B @ f))) \<le> 8"

fun cut_ok :: "nat \<Rightarrow> bytes \<Rightarrow> bytes list \<Rightarrow> bool" where
  "cut_ok limit B [] \<longleftrightarrow> True"
| "cut_ok limit B (f # fs) \<longleftrightarrow> record_ok limit B f \<and> cut_ok limit (snd (split_messages (B @ f))) fs"

lemma record_plan_split:
  "case snd (record_plan limit b S) of
     Inr rest \<Rightarrow> fits_buffer limit b S \<and> fst (record_plan limit b S) = fst (split_messages S) \<and> rest = snd (split_messages S)
   | Inl _ \<Rightarrow> \<not> fits_buffer limit b S \<and> (\<exists>ms. fst (split_messages S) = fst (record_plan limit b S) @ ms)"
proof (induction limit b S rule: record_plan.induct)
  case (1 limit b S)
  note plan = record_plan.simps [of limit b S] and ok = stream_ok.simps [of S]
  consider "length S < 4" | e where "4 \<le> length S" "encoded_message_len S = Inl e"
    | n where "4 \<le> length S" "encoded_message_len S = Inr n" "length S < n"
    | n where "4 \<le> n" "encoded_message_len S = Inr n" "n \<le> length S" "b" "limit < n"
    | n where "4 \<le> n" "encoded_message_len S = Inr n" "n \<le> length S" "b \<longrightarrow> n \<le> limit"
    by (metis encoded_message_len_ge not_le sum.exhaust)
  then show ?case
  proof cases
    case 1
    then show ?thesis using plan ok split_messages_short [OF 1] by (simp add: keep_bytes_def fits_buffer_def)
  next
    case 2
    then have "fst (record_plan limit b S) = []" "\<exists>e'. snd (record_plan limit b S) = Inl e'" using plan by auto
    then show ?thesis using 2 ok by (auto simp: fits_buffer_def)
  next
    case 3
    then show ?thesis using plan ok split_messages_wait [OF 3(2,3)] by (auto simp: keep_bytes_def fits_buffer_def)
  next
    case 4
    then show ?thesis using plan split_messages_step [OF 4(2,3)] by (auto simp: fits_buffer_def)
  next
    case 5
    have IH: "case snd (record_plan limit False (drop n S)) of
       Inr rest \<Rightarrow> fits_buffer limit False (drop n S) \<and>
         fst (record_plan limit False (drop n S)) = fst (split_messages (drop n S)) \<and> rest = snd (split_messages (drop n S))
     | Inl _ \<Rightarrow> \<not> fits_buffer limit False (drop n S) \<and>
         (\<exists>ms. fst (split_messages (drop n S)) = fst (record_plan limit False (drop n S)) @ ms)"
      using 5 by (intro "1.IH") auto
    have "fits_buffer limit b S \<longleftrightarrow> fits_buffer limit False (drop n S)"
      using 5 ok split_messages_step [OF 5(2,3)] by (auto simp: fits_buffer_def)
    then show ?thesis
      using IH record_plan_message [OF 5(2-4)] split_messages_step [OF 5(2,3)] by (auto split: sum.splits)
  qed
qed

lemma process_messages_deliver: "c + ku_count ms \<le> 8 \<Longrightarrow> process_messages p c ms s = deliver_all p ms s"
proof (induction ms arbitrary: c s)
  case (Cons m ms)
  then show ?case by (auto simp: ku_count_def split: prod.splits sum.splits)
qed simp

lemma process_messages_prefix:
  "process_messages p c ms s = (res, s') \<Longrightarrow>
     (\<exists>k\<le>length ms. snd (deliver_all p (take k ms) s) = s') \<and> (8 < c + ku_count ms \<and> c \<le> 8 \<longrightarrow> res \<noteq> Inr ())"
proof (induction ms arbitrary: c s)
  case (Cons m ms)
  let ?c = "if m ! 0 = hs_type_u8 TKeyUpdate then c + 1 else c"
  show ?case
  proof (cases "m ! 0 = hs_type_u8 TKeyUpdate \<and> c \<ge> 8")
    case True
    then show ?thesis using Cons.prems by (intro conjI exI [of _ 0]) auto
  next
    case False
    obtain x s1 where p: "p m s = (x, s1)" by (cases "p m s")
    show ?thesis
    proof (cases x)
      case (Inl e)
      then show ?thesis using Cons.prems False p by (intro conjI exI [of _ 1]) auto
    next
      case (Inr u)
      then have "process_messages p ?c ms s1 = (res, s')" using Cons.prems False p by auto
      from Cons.IH [OF this] obtain k where k: "k \<le> length ms" "snd (deliver_all p (take k ms) s1) = s'"
        "8 < ?c + ku_count ms \<and> ?c \<le> 8 \<longrightarrow> res \<noteq> Inr ()" by blast
      then show ?thesis using Inr p False by (intro conjI exI [of _ "Suc k"]) (auto simp: ku_count_def split: if_splits)
    qed
  qed
qed (simp add: ku_count_def)

lemma deliver_all_append:
  "deliver_all p (xs @ ys) s =
     (case deliver_all p xs s of (Inl e, s') \<Rightarrow> (Inl e, s') | (Inr _, s') \<Rightarrow> deliver_all p ys s')"
  by (induction xs arbitrary: s) (auto split: prod.splits sum.splits)

text \<open>One record, when it is in order and when it is not.\<close>

lemma read_record_ok:
  assumes "holds ep limit B r" and "record_ok limit B f" and "reassembler_read p ep f r s = (res, r', s')"
  shows "deliver_all p (fst (split_messages (B @ f))) s = (res, s') \<and>
    (res = Inr () \<longrightarrow> holds ep limit (snd (split_messages (B @ f))) r')"
proof -
  let ?plan = "record_plan limit (B \<noteq> []) (B @ f)"
  have ok: "fits_buffer limit (B \<noteq> []) (B @ f)" "ku_count (fst (split_messages (B @ f))) \<le> 8"
    using assms(2) by (auto simp: record_ok_def)
  then have plan: "fst ?plan = fst (split_messages (B @ f))" "snd ?plan = Inr (snd (split_messages (B @ f)))"
    using record_plan_split [of limit "B \<noteq> []" "B @ f"] by (auto split: sum.splits)
  have "process_messages p 0 (fst ?plan) s = deliver_all p (fst (split_messages (B @ f))) s"
    unfolding plan using ok(2) by (intro process_messages_deliver) simp
  then show ?thesis
    using reassembler_read_plan [OF assms(1), of p f s] assms(3) plan(2)
    by (auto simp: read_spec_def plan_outcome_def split: prod.splits sum.splits)
qed

lemma read_record_bad:
  assumes "holds ep limit B r" and "\<not> record_ok limit B f" and "reassembler_read p ep f r s = (res, r', s')"
  shows "res \<noteq> Inr () \<and>
    (\<exists>k\<le>length (fst (split_messages (B @ f))). snd (deliver_all p (take k (fst (split_messages (B @ f)))) s) = s')"
proof -
  let ?plan = "record_plan limit (B \<noteq> []) (B @ f)"
  obtain x s1 where x: "process_messages p 0 (fst ?plan) s = (x, s1)" by (cases "process_messages p 0 (fst ?plan) s")
  then have out: "s1 = s'" "res = Inr () \<longrightarrow> x = Inr () \<and> (\<exists>rest. snd ?plan = Inr rest)"
    using reassembler_read_plan [OF assms(1), of p f s] assms(3)
    by (auto simp: read_spec_def plan_outcome_def split: prod.splits sum.splits)
  from process_messages_prefix [OF x] obtain k where k: "k \<le> length (fst ?plan)" "snd (deliver_all p (take k (fst ?plan)) s) = s'"
    and cap: "8 < ku_count (fst ?plan) \<longrightarrow> x \<noteq> Inr ()" using out(1) by auto
  have split: "\<exists>ms. fst (split_messages (B @ f)) = fst ?plan @ ms"
    "(\<exists>rest. snd ?plan = Inr rest) \<longrightarrow> fits_buffer limit (B \<noteq> []) (B @ f) \<and> fst ?plan = fst (split_messages (B @ f))"
    using record_plan_split [of limit "B \<noteq> []" "B @ f"] by (auto split: sum.splits)
  then have "res \<noteq> Inr ()" using out(2) cap assms(2) by (auto simp: record_ok_def)
  then show ?thesis using k split(1) by (auto intro!: exI [of _ k])
qed

text \<open>All records, when the cut is in order, and up to the first record that is not.\<close>

lemma read_all_append:
  "read_all p ep (xs @ ys) r s =
     (case read_all p ep xs r s of
        (Inl e, r', s') \<Rightarrow> (Inl e, r', s') | (Inr _, r', s') \<Rightarrow> read_all p ep ys r' s')"
  by (induction xs arbitrary: r s) (auto split: prod.splits sum.splits)

lemma read_all_ok:
  "holds ep limit B r \<Longrightarrow> cut_ok limit B fs \<Longrightarrow> read_all p ep fs r s = (res, r', s') \<Longrightarrow>
     deliver_all p (fst (split_messages (B @ concat fs))) s = (res, s') \<and>
     (res = Inr () \<longrightarrow> holds ep limit (snd (split_messages (B @ concat fs))) r')"
proof (induction fs arbitrary: B r s)
  case Nil
  then show ?case by (simp add: holds_def)
next
  case (Cons f fs)
  let ?B = "snd (split_messages (B @ f))"
  obtain x r1 s1 where x: "reassembler_read p ep f r s = (x, r1, s1)" by (cases "reassembler_read p ep f r s")
  have f: "deliver_all p (fst (split_messages (B @ f))) s = (x, s1)" "x = Inr () \<longrightarrow> holds ep limit ?B r1"
    using read_record_ok [OF Cons.prems(1) _ x] Cons.prems(2) by auto
  have all: "split_messages (B @ concat (f # fs)) =
      (fst (split_messages (B @ f)) @ fst (split_messages (?B @ concat fs)), snd (split_messages (?B @ concat fs)))"
    using split_messages_append [of "B @ f" "concat fs"] by simp
  show ?case
  proof (cases x)
    case (Inl e)
    then show ?thesis using Cons.prems(3) x f all by (auto simp: deliver_all_append)
  next
    case (Inr u)
    then show ?thesis using Cons.IH [of ?B r1 s1] Cons.prems(2,3) x f all by (simp add: deliver_all_append)
  qed
qed

lemma cut_ok_first:
  "\<not> cut_ok limit B fs \<Longrightarrow>
     \<exists>xs f ys. fs = xs @ f # ys \<and> cut_ok limit B xs \<and> \<not> cut_ok limit B (xs @ [f]) \<and>
       \<not> record_ok limit (if xs = [] then B else snd (split_messages (B @ concat xs))) f"
proof (induction fs arbitrary: B)
  case (Cons f fs)
  show ?case
  proof (cases "record_ok limit B f")
    case True
    then obtain xs g ys where g: "fs = xs @ g # ys" "cut_ok limit (snd (split_messages (B @ f))) xs"
        "\<not> cut_ok limit (snd (split_messages (B @ f))) (xs @ [g])"
        "\<not> record_ok limit (if xs = [] then snd (split_messages (B @ f))
          else snd (split_messages (snd (split_messages (B @ f)) @ concat xs))) g"
      using Cons.IH [of "snd (split_messages (B @ f))"] Cons.prems by auto
    moreover have "snd (split_messages (B @ f @ concat xs)) = snd (split_messages (snd (split_messages (B @ f)) @ concat xs))"
      using split_messages_append [of "B @ f" "concat xs"] by simp
    ultimately show ?thesis
      using True by (intro exI [of _ "f # xs"] exI [of _ g] exI [of _ ys]) (auto split: if_splits)
  next
    case False
    then show ?thesis by (intro exI [of _ "[]"] exI [of _ f] exI [of _ fs]) simp
  qed
qed simp


text \<open>The messages that a list of records completes.\<close>

abbreviation messages_of :: "bytes list \<Rightarrow> bytes list" where
  "messages_of records \<equiv> fst (split_messages (concat records))"

lemma read_all_bad:
  assumes h: "holds ep limit [] r" and bad: "\<not> cut_ok limit [] records" and run: "read_all p ep records r s = (res, r', s')"
  shows "res \<noteq> Inr () \<and> (\<exists>good f rest k. records = good @ f # rest \<and>
    cut_ok limit [] good \<and> \<not> cut_ok limit [] (good @ [f]) \<and>
    length (messages_of good) \<le> k \<and> k \<le> length (messages_of (good @ [f])) \<and>
    snd (deliver_all p (take k (messages_of records)) s) = s')"
proof -
  from cut_ok_first [OF bad] obtain good f rest where g: "records = good @ f # rest" "cut_ok limit [] good"
    "\<not> cut_ok limit [] (good @ [f])" "\<not> record_ok limit (if good = [] then [] else snd (split_messages ([] @ concat good))) f"
    by blast
  let ?B = "snd (split_messages (concat good))"
  have f: "\<not> record_ok limit ?B f" using g(4) by (cases "good = []") (simp_all add: split_messages_short)
  obtain x r1 s1 where x: "read_all p ep good r s = (x, r1, s1)" by (cases "read_all p ep good r s")
  note ok = read_all_ok [OF h g(2) x, simplified]
  have ms: "messages_of (good @ [f]) = messages_of good @ fst (split_messages (?B @ f))"
    using split_messages_append [of "concat good" f] by simp
  have all: "messages_of records = messages_of (good @ [f]) @ fst (split_messages (snd (split_messages (concat good @ f)) @ concat rest))"
    using split_messages_append [of "concat (good @ [f])" "concat rest"] g(1) by simp
  have "\<exists>k\<le>length (fst (split_messages (?B @ f))). res \<noteq> Inr () \<and>
      snd (deliver_all p (messages_of good @ take k (fst (split_messages (?B @ f)))) s) = s'"
  proof (cases x)
    case (Inl e)
    then show ?thesis using run g(1) x ok by (intro exI [of _ 0]) (auto simp: read_all_append)
  next
    case (Inr u)
    obtain y r2 s2 where y: "reassembler_read p ep f r1 s1 = (y, r2, s2)" by (cases "reassembler_read p ep f r1 s1")
    have "holds ep limit ?B r1" using ok Inr by simp
    from read_record_bad [OF this f y] have b: "y \<noteq> Inr ()"
      "\<exists>k\<le>length (fst (split_messages (?B @ f))). snd (deliver_all p (take k (fst (split_messages (?B @ f)))) s1) = s2" by auto
    then have "res = y" "s' = s2" using run g(1) x y Inr by (auto simp: read_all_append split: sum.splits)
    then show ?thesis using b ok Inr by (auto simp: deliver_all_append)
  qed
  then obtain k where k: "k \<le> length (fst (split_messages (?B @ f)))" "res \<noteq> Inr ()"
    "snd (deliver_all p (messages_of good @ take k (fst (split_messages (?B @ f)))) s) = s'" by blast
  then have "take (length (messages_of good) + k) (messages_of records) = messages_of good @ take k (fst (split_messages (?B @ f)))"
    unfolding all ms by simp
  then show ?thesis using k g ms
    by (intro conjI exI [of _ good] exI [of _ f] exI [of _ rest] exI [of _ "length (messages_of good) + k"]) simp_all
qed

subsection \<open>Properties\<close>

text \<open>
  The word-packed KeyUpdate budget is a counter and a flag.  For every limit below
  \<open>2^31\<close>, consuming succeeds exactly while the count is below the limit and then adds one,
  resetting clears the count only, and requesting or clearing a response sets or clears the
  flag only; the counter never spills into the flag bit.
\<close>

theorem budget_refines:
  assumes "limit < RESPONSE_PENDING"
  shows "(let (ok, s') = budget_consume limit s in
      ok = (budget_count s < unat limit) \<and> budget_flag s' = budget_flag s \<and>
      budget_count s' = (if budget_count s < unat limit then budget_count s + 1 else budget_count s)) \<and>
    budget_count (budget_reset s) = 0 \<and> budget_flag (budget_reset s) = budget_flag s \<and>
    budget_response_pending s = budget_flag s \<and>
    budget_flag (budget_request_response s) \<and> budget_count (budget_request_response s) = budget_count s \<and>
    \<not> budget_flag (budget_clear_response s) \<and> budget_count (budget_clear_response s) = budget_count s"
  using budget_consume_eq [OF assms, of s] by (auto simp: budget_flag_simps split: prod.splits)

theorem budget_refines_witness:
  "(let (ok, s') = budget_consume 8 0x80000007 in
      ok = (budget_count 0x80000007 < unat (8 :: u32)) \<and> budget_flag s' = budget_flag 0x80000007 \<and>
      budget_count s' = (if budget_count 0x80000007 < unat (8 :: u32) then budget_count 0x80000007 + 1
        else budget_count 0x80000007)) \<and>
    budget_count (budget_reset 0x80000007) = 0 \<and> budget_flag (budget_reset 0x80000007) = budget_flag 0x80000007 \<and>
    budget_response_pending 0x80000007 = budget_flag 0x80000007 \<and>
    budget_flag (budget_request_response 0x80000007) \<and>
    budget_count (budget_request_response 0x80000007) = budget_count 0x80000007 \<and>
    \<not> budget_flag (budget_clear_response 0x80000007) \<and>
    budget_count (budget_clear_response 0x80000007) = budget_count 0x80000007"
  by (rule budget_refines) (simp add: RESPONSE_PENDING_def)

text \<open>
  C2. Fragmentation, exactly.  Records are read one after the other into an empty buffer.  The cut of the stream into records, empty
  ones included, matters only through \<open>cut_ok\<close>: no header announces a message above the size limit, no record completes
  more than eight KeyUpdates, every message that spans records fits the buffer, and so do the bytes left at the end of
  each record.  For such a cut the outcome is the callback's on the messages of the whole stream, in order, whether it
  fails or not, and on success the buffer holds the unfinished end of the stream.  Any other cut fails: all
  messages completed before the first offending record have been delivered, in order (unless the callback failed on
  one), none completed after it, and nothing but messages of the stream.
\<close>

theorem fragmentation_independent:
  assumes "holds ep limit [] r" and "read_all p ep records r s = (res, r', s')"
  shows "if cut_ok limit [] records
    then deliver_all p (messages_of records) s = (res, s') \<and>
      (res = Inr () \<longrightarrow> holds ep limit (snd (split_messages (concat records))) r')
    else res \<noteq> Inr () \<and> (\<exists>good f rest k. records = good @ f # rest \<and>
      cut_ok limit [] good \<and> \<not> cut_ok limit [] (good @ [f]) \<and>
      length (messages_of good) \<le> k \<and> k \<le> length (messages_of (good @ [f])) \<and>
      snd (deliver_all p (take k (messages_of records)) s) = s')"
  using read_all_ok [OF assms(1) _ assms(2)] read_all_bad [OF assms(1) _ assms(2)] by simp

theorem fragmentation_independent_witness:
  "(\<exists>r'. read_all (\<lambda>m s. (Inr () :: nat drive_error + unit, s @ [m])) HandshakeEpoch
      [[20], [], [0, 0, 1, 5, 24], [0]] (reassembler_with_buffer (bb_with_capacity 16)) [] =
     (Inr (), r', [[20, 0, 0, 1, 5]]) \<and> holds HandshakeEpoch 16 [24, 0] r') \<and>
   (\<exists>r'. read_all (\<lambda>m s. (Inr () :: nat drive_error + unit, s @ [m])) HandshakeEpoch
      [[20, 0, 0, 1, 5]] (reassembler_with_buffer (bb_with_capacity 4)) [] = (Inr (), r', [[20, 0, 0, 1, 5]])) \<and>
   fst (read_all (\<lambda>m s. (Inr () :: nat drive_error + unit, s @ [m])) HandshakeEpoch
      [[20], [0, 0, 1, 5]] (reassembler_with_buffer (bb_with_capacity 4)) []) \<noteq> Inr ()"
proof -
  let ?p = "\<lambda>m s. (Inr () :: nat drive_error + unit, s @ [m])"
  let ?run = "\<lambda>l records. read_all ?p HandshakeEpoch records (reassembler_with_buffer (bb_with_capacity l)) []"
  let ?cut = "[[20], [], [0, 0, 1, 5, 24], [0]]" and ?whole = "[[20, 0, 0, 1, 5]]" and ?split = "[[20], [0, 0, 1, 5]]"
  have start: "holds HandshakeEpoch l [] (reassembler_with_buffer (bb_with_capacity l))" for l
    by (simp add: holds_def reassembler_with_buffer_def bb_with_capacity_def bb_wf_def bb_len_def
        bb_as_slice_def split_messages_short)
  have e: "encoded_message_len ([20, 0, 0, 1, 5] @ xs) = Inr 5" for xs
    by (simp add: encoded_message_len_def MAX_SIZE_def)
  have split: "split_messages [20, 0, 0, 1, 5] = ([[20, 0, 0, 1, 5]], [])"
    "split_messages [20, 0, 0, 1, 5, 24] = ([[20, 0, 0, 1, 5]], [24])"
    "split_messages [20, 0, 0, 1, 5, 24, 0] = ([[20, 0, 0, 1, 5]], [24, 0])"
    using split_messages_step [OF e [of "[]"]] split_messages_step [OF e [of "[24]"]]
      split_messages_step [OF e [of "[24, 0]"]] by (simp_all add: split_messages_short)
  have ok: "stream_ok [20, 0, 0, 1, 5]" "stream_ok [20, 0, 0, 1, 5, 24]"
    using e [of "[]"] e [of "[24]"] by (simp_all add: stream_ok.simps [of "20 # _"] stream_ok.simps [of "[]"] stream_ok.simps [of "[24]"])
  have short: "length S < 4 \<Longrightarrow> stream_ok S" for S by (simp add: stream_ok.simps [of S])
  note eval = record_ok_def fits_buffer_def ku_count_def split ok short split_messages_short
  have cuts: "cut_ok 16 [] ?cut" "cut_ok 4 [] ?whole" "\<not> cut_ok 4 [] ?split" by (simp_all add: eval)
  obtain x1 x2 x3 r1 s1 r2 s2 r3 s3 where r: "?run 16 ?cut = (x1, r1, s1)" "?run 4 ?whole = (x2, r2, s2)" "?run 4 ?split = (x3, r3, s3)"
    by (metis prod.collapse)
  show ?thesis
    using fragmentation_independent [OF start r(1)] fragmentation_independent [OF start r(2)]
      fragmentation_independent [OF start r(3)] cuts r
    by (auto simp: split)
qed

text \<open>
  A message may not span epochs.  While a partial message of one epoch is buffered, a
  record of any other epoch is refused with a decode error, and neither the buffer nor the
  callback's state changes.
\<close>

theorem message_spans_epoch:
  assumes "holds ep limit B r" and "B \<noteq> []" and "ep' \<noteq> ep"
  shows "reassembler_read p ep' input r s = (Inl (Protocol DecodeErr), r, s)"
  using assms bb_ext_facts(1) [of "rs_buf r"]
  by (auto simp: reassembler_read_def begin_record_def holds_def bb_is_empty_def error_of_decode_def)

theorem message_spans_epoch_witness:
  "reassembler_read (\<lambda>m s. (Inr () :: nat drive_error + unit, s @ [m])) ApplicationEpoch [7]
     \<lparr>rs_buf = \<lparr>bb_bytes = [20], bb_base = 0, bb_limit = 9, bb_overflowed = False\<rparr>,
      rs_epoch = Some HandshakeEpoch, rs_key_updates = 0\<rparr> [] =
   (Inl (Protocol DecodeErr),
    \<lparr>rs_buf = \<lparr>bb_bytes = [20], bb_base = 0, bb_limit = 9, bb_overflowed = False\<rparr>,
      rs_epoch = Some HandshakeEpoch, rs_key_updates = 0\<rparr>, [])"
  by (rule message_spans_epoch [where B = "[20]" and ep = HandshakeEpoch and limit = 9])
    (simp_all add: holds_def bb_wf_def bb_len_def bb_as_slice_def split_messages_short)

end
