(* ===== verification/Material.thy ===== *)
theory Material
  imports Reassembler Schedule
begin

section \<open>Application traffic secrets\<close>

text \<open>
  \<open>crypto/material.rs\<close>: the state of the traffic secrets of a connection, from nothing over
  the selected cipher suite to the active pair of secrets with its KeyUpdate budget.  The
  purpose-separated wrapper types around \<open>hash::Secret\<close> (traffic secret, finished key, verify
  data, master secrets) add no behaviour and share the type \<open>secret\<close>.
\<close>

datatype side = ClientSide | ServerSide

record active =
  ac_suite :: cipher_suite
  ac_client :: secret
  ac_server :: secret
  ac_updates :: u32

datatype traffic_state = TrafficEmpty | TrafficSelected cipher_suite | TrafficActive active

definition traffic_select :: "cipher_suite \<Rightarrow> traffic_state \<Rightarrow> (conn_error + unit) \<times> traffic_state" where
  "traffic_select suite t =
     (case t of
        TrafficEmpty \<Rightarrow> (Inr (), TrafficSelected suite)
      | TrafficSelected selected \<Rightarrow>
          if selected = suite then (Inr (), t) else (Inl IllegalParameter, t)
      | TrafficActive a \<Rightarrow> if ac_suite a = suite then (Inr (), t) else (Inl IllegalParameter, t))"

definition traffic_activate ::
    "secret \<Rightarrow> secret \<Rightarrow> traffic_state \<Rightarrow> (conn_error + unit) \<times> traffic_state" where
  "traffic_activate client server t =
     (case t of
        TrafficSelected suite \<Rightarrow>
          (Inr (), TrafficActive \<lparr>ac_suite = suite, ac_client = client, ac_server = server, ac_updates = 0\<rparr>)
      | _ \<Rightarrow> (Inl UnexpectedMessage, t))"

definition traffic_suite :: "traffic_state \<Rightarrow> cipher_suite option" where
  "traffic_suite t =
     (case t of TrafficEmpty \<Rightarrow> None | TrafficSelected suite \<Rightarrow> Some suite | TrafficActive a \<Rightarrow> Some (ac_suite a))"

definition traffic_algorithm :: "traffic_state \<Rightarrow> conn_error + algorithm" where
  "traffic_algorithm t = ok_or UnexpectedMessage (map_option hash_alg (traffic_suite t))"

fun side_secret :: "side \<Rightarrow> active \<Rightarrow> secret" where
  "side_secret ClientSide a = ac_client a"
| "side_secret ServerSide a = ac_server a"

fun set_side_secret :: "side \<Rightarrow> secret \<Rightarrow> active \<Rightarrow> active" where
  "set_side_secret ClientSide s a = a\<lparr>ac_client := s\<rparr>"
| "set_side_secret ServerSide s a = a\<lparr>ac_server := s\<rparr>"

definition traffic_secret :: "side \<Rightarrow> traffic_state \<Rightarrow> conn_error + secret" where
  "traffic_secret sd t =
     (case t of TrafficActive a \<Rightarrow> Inr (side_secret sd a) | _ \<Rightarrow> Inl UnexpectedMessage)"

definition traffic_advance ::
    "crypto \<Rightarrow> side \<Rightarrow> traffic_state \<Rightarrow> (conn_error + secret) \<times> traffic_state" where
  "traffic_advance C sd t =
     (case t of
        TrafficActive a \<Rightarrow>
          (case traffic_update C (hash_alg (ac_suite a)) (side_secret sd a) of
             Inl e \<Rightarrow> (Inl (error_of_hkdf e), t)
           | Inr s \<Rightarrow> (Inr s, TrafficActive (set_side_secret sd s a)))
      | _ \<Rightarrow> (Inl UnexpectedMessage, t))"

definition consume_update :: "traffic_state \<Rightarrow> bool \<times> traffic_state" where
  "consume_update t =
     (case t of
        TrafficActive a \<Rightarrow>
          (case budget_consume MAX_KEY_UPDATES_WITHOUT_APP_DATA (ac_updates a) of
             (ok, u) \<Rightarrow> (ok, TrafficActive (a\<lparr>ac_updates := u\<rparr>)))
      | _ \<Rightarrow> (False, t))"

definition on_active :: "(u32 \<Rightarrow> u32) \<Rightarrow> traffic_state \<Rightarrow> traffic_state" where
  "on_active f t = (case t of TrafficActive a \<Rightarrow> TrafficActive (a\<lparr>ac_updates := f (ac_updates a)\<rparr>) | _ \<Rightarrow> t)"

definition reset_updates :: "traffic_state \<Rightarrow> traffic_state" where
  "reset_updates t = on_active budget_reset t"

definition key_update_response_pending :: "traffic_state \<Rightarrow> bool" where
  "key_update_response_pending t \<longleftrightarrow>
     (case t of TrafficActive a \<Rightarrow> budget_response_pending (ac_updates a) | _ \<Rightarrow> False)"

definition request_key_update_response :: "traffic_state \<Rightarrow> traffic_state" where
  "request_key_update_response t = on_active budget_request_response t"

definition clear_key_update_response :: "traffic_state \<Rightarrow> traffic_state" where
  "clear_key_update_response t = on_active budget_clear_response t"

definition traffic_clear :: "traffic_state \<Rightarrow> traffic_state" where
  "traffic_clear t = TrafficEmpty"

text \<open>A resumption PSK has the length of a SHA-256 hash; it is kept as its bytes.\<close>

definition psk_try_from_slice :: "bytes \<Rightarrow> length_error + bytes" where
  "psk_try_from_slice bs =
     (if length bs \<noteq> SHA256_LEN then Inl \<lparr>le_actual = length bs, le_maximum = SHA256_LEN\<rparr> else Inr bs)"

definition psk_zeroed :: bytes where
  "psk_zeroed = replicate SHA256_LEN 0"

lemma psk_try_from_slice_iff: "psk_try_from_slice bs = Inr p \<longleftrightarrow> p = bs \<and> length p = SHA256_LEN"
  by (auto simp: psk_try_from_slice_def)

lemma psk_zeroed_valid: "psk_try_from_slice psk_zeroed = Inr psk_zeroed"
  by (simp add: psk_try_from_slice_iff psk_zeroed_def)

lemma side_secret_set [simp]:
  "side_secret sd (set_side_secret sd' s a) = (if sd = sd' then s else side_secret sd a)"
  "ac_suite (set_side_secret sd' s a) = ac_suite a" "ac_updates (set_side_secret sd' s a) = ac_updates a"
  by (cases sd; cases sd'; simp)+

lemma side_secret_updates [simp]: "side_secret sd (a\<lparr>ac_updates := u\<rparr>) = side_secret sd a"
  by (cases sd) simp_all

lemma on_active_simps [simp]:
  "on_active f (TrafficActive a) = TrafficActive (a\<lparr>ac_updates := f (ac_updates a)\<rparr>)"
  "traffic_suite (on_active f t) = traffic_suite t" "traffic_secret sd (on_active f t) = traffic_secret sd t"
  by (simp_all add: on_active_def traffic_suite_def traffic_secret_def split: traffic_state.splits)

text \<open>The next generation of a traffic secret, as a total function.\<close>

definition next_secret :: "crypto \<Rightarrow> cipher_suite \<Rightarrow> secret \<Rightarrow> secret" where
  "next_secret C suite s = (case traffic_update C (hash_alg suite) s of Inr s' \<Rightarrow> s' | Inl _ \<Rightarrow> s)"

lemma traffic_update_ok:
  "crypto_ok C \<Longrightarrow> traffic_update C (hash_alg suite) s = Inr (next_secret C suite s)"
  using derive_secret_ok [of C "''traffic upd''" "[]" "hash_alg suite" "as_slice s"]
  by (auto simp: traffic_update_def next_secret_def)

lemma traffic_advance_active:
  "crypto_ok C \<Longrightarrow> traffic_advance C sd (TrafficActive a) =
     (Inr (next_secret C (ac_suite a) (side_secret sd a)),
      TrafficActive (set_side_secret sd (next_secret C (ac_suite a) (side_secret sd a)) a))"
  by (simp add: traffic_advance_def traffic_update_ok)

end
