(* ===== verification/KeyUpdate.thy ===== *)
theory KeyUpdate
  imports Material
begin

section \<open>KeyUpdate\<close>

text \<open>
  \<open>KeyUpdateCore\<close> of \<open>connection.rs\<close>: receiving a KeyUpdate advances the read secret within a
  budget, sending one advances the write secret after the message has left.  Two connected
  endpoints over record layers are a transition system whose steps are those operations; its invariant is that
  every record on the way is protected with the secret its reader has when it comes to the record.
\<close>

datatype role = ClientRole | ServerRole

fun read_side :: "role \<Rightarrow> side" where
  "read_side ClientRole = ServerSide" | "read_side ServerRole = ClientSide"

fun write_side :: "role \<Rightarrow> side" where
  "write_side ClientRole = ClientSide" | "write_side ServerRole = ServerSide"

definition key_update_receive ::
    "crypto \<Rightarrow> ('k, 'e, 't) sink \<Rightarrow> role \<Rightarrow> key_update_request \<Rightarrow> traffic_state \<Rightarrow> 'k \<Rightarrow>
     ('e drive_error + unit) \<times> traffic_state \<times> 'k" where
  "key_update_receive C K R request t k =
     (case consume_update t of
        (False, t1) \<Rightarrow> (Inl (Protocol UnexpectedMessage), t1, k)
      | (True, t1) \<Rightarrow>
     (let suite = traffic_suite t1 in
      case traffic_advance C (read_side R) t1 of
        (Inl e, t2) \<Rightarrow> (Inl (Protocol e), t2, k)
      | (Inr s, t2) \<Rightarrow>
     (case emit_key_update K suite (EvKeyUpdate KeyRead s) (request = Requested) k of
        (Inl e, k1) \<Rightarrow> (Inl e, t2, k1)
      | (Inr _, k1) \<Rightarrow>
          (Inr (), if request = Requested then request_key_update_response t2 else t2, k1))))"

definition key_update_send ::
    "crypto \<Rightarrow> ('k, 'e, 't) sink \<Rightarrow> role \<Rightarrow> key_update_request \<Rightarrow> traffic_state \<Rightarrow> 'k \<Rightarrow>
     ('e drive_error + unit) \<times> traffic_state \<times> 'k" where
  "key_update_send C K R request t k =
     (let suite = traffic_suite t;
          bytes = key_update_encode_framed \<lparr>ku_request = request\<rparr> in
      case emit_event K suite (EvSend ApplicationEpoch bytes) k of
        (Inl e, k1) \<Rightarrow> (Inl e, t, k1)
      | (Inr _, k1) \<Rightarrow>
     (case traffic_advance C (write_side R) t of
        (Inl e, t1) \<Rightarrow> (Inl (Protocol e), t1, k1)
      | (Inr s, t1) \<Rightarrow>
     (case emit_event K suite (EvKeyUpdate KeyWrite s) k1 of
        (Inl e, k2) \<Rightarrow> (Inl e, t1, k2)
      | (Inr _, k2) \<Rightarrow>
          (Inr (), if request = NotRequested then clear_key_update_response t1 else t1, k2))))"

subsection \<open>What the operations do\<close>

definition accepting :: "('k, 'e, 't) sink \<Rightarrow> bool" where
  "accepting K \<longleftrightarrow> (\<forall>ev ctx k. fst (sk_event K ev ctx k) = Inr ())"

definition sink_after :: "('k, 'e, 't) sink \<Rightarrow> event_context \<Rightarrow> 't event \<Rightarrow> 'k \<Rightarrow> 'k" where
  "sink_after K ctx ev k = snd (sk_event K ev ctx k)"

lemma emit_accepted:
  assumes "accepting K"
  shows "emit_event K suite ev k = (Inr (), sink_after K (event_context_new suite) ev k)"
    "emit_key_update K suite ev b k =
       (Inr (), sink_after K \<lparr>ec_cipher_suite = suite, ec_key_update_response_requested = b\<rparr> ev k)"
proof -
  have "sk_event K ev ctx k = (Inr (), snd (sk_event K ev ctx k))" for ctx
    using assms by (metis accepting_def prod.collapse)
  from this [of "event_context_new suite"] this [of "\<lparr>ec_cipher_suite = suite, ec_key_update_response_requested = b\<rparr>"]
  show "emit_event K suite ev k = (Inr (), sink_after K (event_context_new suite) ev k)"
    "emit_key_update K suite ev b k =
       (Inr (), sink_after K \<lparr>ec_cipher_suite = suite, ec_key_update_response_requested = b\<rparr> ev k)"
    by (auto simp: emit_event_def emit_key_update_def sink_after_def map_err_def split: prod.splits)
qed

lemma accepting_log_sink [simp]: "accepting log_sink"
  by (simp add: accepting_def log_sink_def)

lemma max_updates_less: "MAX_KEY_UPDATES_WITHOUT_APP_DATA < RESPONSE_PENDING"
  "unat MAX_KEY_UPDATES_WITHOUT_APP_DATA = 8"
  by (simp_all add: MAX_KEY_UPDATES_WITHOUT_APP_DATA_def RESPONSE_PENDING_def)

lemma consume_update_active:
  obtains u where "consume_update (TrafficActive a) =
      (budget_count (ac_updates a) < 8, TrafficActive (a\<lparr>ac_updates := u\<rparr>))"
    "budget_flag u = budget_flag (ac_updates a)"
    "budget_count u = (if budget_count (ac_updates a) < 8 then budget_count (ac_updates a) + 1
       else budget_count (ac_updates a))"
  using budget_consume_eq [OF max_updates_less(1), of "ac_updates a"]
  by (cases "budget_consume MAX_KEY_UPDATES_WITHOUT_APP_DATA (ac_updates a)")
    (auto simp: consume_update_def max_updates_less(2))

subsection \<open>Two endpoints\<close>

fun peer :: "role \<Rightarrow> role" where
  "peer ClientRole = ServerRole" | "peer ServerRole = ClientRole"

text \<open>
  The record layer under an endpoint, as the event sink of its owner: a message is protected with the secret installed
  for writing when its event arrives, and an update event installs a secret.  \<open>ly_sent\<close> holds the records that have left
  and that the peer has not read yet, each with the secret it was protected with.  The sink may refuse an event, and then
  does nothing.
\<close>

datatype record_body = MessageBody bytes | DataBody bytes

record layer =
  ly_write :: secret
  ly_read :: secret
  ly_sent :: "(secret \<times> record_body) list"

definition protect :: "record_body \<Rightarrow> layer \<Rightarrow> layer" where
  "protect body l = l\<lparr>ly_sent := ly_sent l @ [(ly_write l, body)]\<rparr>"

fun layer_event :: "'t event \<Rightarrow> layer \<Rightarrow> layer" where
  "layer_event (EvSend ep bs) l = protect (MessageBody bs) l"
| "layer_event (EvKeyUpdate KeyWrite s) l = l\<lparr>ly_write := s\<rparr>"
| "layer_event (EvKeyUpdate KeyRead s) l = l\<lparr>ly_read := s\<rparr>"
| "layer_event ev l = l"

definition layer_sink :: "('t event \<Rightarrow> layer \<Rightarrow> 'e option) \<Rightarrow> (layer, 'e, 't) sink" where
  "layer_sink refuse =
     \<lparr>sk_begin_send = (\<lambda>ep m ctx l. (Inr None, l)), sk_end_send = (\<lambda>f l. l),
      sk_event = (\<lambda>ev ctx l. case refuse ev l of Some e \<Rightarrow> (Inl e, l) | None \<Rightarrow> (Inr (), layer_event ev l))\<rparr>"

abbreviation update_body :: "key_update_request \<Rightarrow> record_body" where
  "update_body request \<equiv> MessageBody (key_update_encode_framed \<lparr>ku_request = request\<rparr>)"

record network =
  nw_traffic :: "role \<Rightarrow> traffic_state"
  nw_layer :: "role \<Rightarrow> layer"

definition deliver_record :: "role \<Rightarrow> network \<Rightarrow> network" where
  "deliver_record R n = n\<lparr>nw_layer := (nw_layer n)(R := (nw_layer n R)\<lparr>ly_sent := tl (ly_sent (nw_layer n R))\<rparr>)\<rparr>"

definition set_endpoint :: "role \<Rightarrow> traffic_state \<Rightarrow> layer \<Rightarrow> network \<Rightarrow> network" where
  "set_endpoint R t l n = n\<lparr>nw_traffic := (nw_traffic n)(R := t), nw_layer := (nw_layer n)(R := l)\<rparr>"

text \<open>
  An endpoint sends an update, or tries to and the layer refuses it before anything has left; it reads an update or application
  data, the oldest record of its peer that it has not read; it writes application data.  Any other failure ends
  the connection of the endpoint, which then takes no more steps.
\<close>

inductive network_step :: "crypto \<Rightarrow> ('t event \<Rightarrow> layer \<Rightarrow> 'e option) \<Rightarrow> network \<Rightarrow> network \<Rightarrow> bool"
  for C :: crypto and refuse :: "'t event \<Rightarrow> layer \<Rightarrow> 'e option" where
  step_send: "key_update_send C (layer_sink refuse) R request (nw_traffic n R) (nw_layer n R) = (Inr (), t', l') \<Longrightarrow>
    network_step C refuse n (set_endpoint R t' l' n)"
| step_refused: "key_update_send C (layer_sink refuse) R request (nw_traffic n R) (nw_layer n R) = (Inl e, t', nw_layer n R) \<Longrightarrow>
    network_step C refuse n (set_endpoint R t' (nw_layer n R) n)"
| step_receive: "ly_sent (nw_layer n (peer R)) = (s, update_body request) # rest \<Longrightarrow>
    key_update_receive C (layer_sink refuse) R request (nw_traffic n R) (nw_layer n R) = (Inr (), t', l') \<Longrightarrow>
    network_step C refuse n (deliver_record (peer R) (set_endpoint R t' l' n))"
| step_write: "network_step C refuse n (set_endpoint R (nw_traffic n R) (protect (DataBody bs) (nw_layer n R)) n)"
| step_read: "ly_sent (nw_layer n (peer R)) = (s, DataBody bs) # rest \<Longrightarrow>
    network_step C refuse n (deliver_record (peer R) (set_endpoint R (reset_updates (nw_traffic n R)) (nw_layer n R) n))"

inductive network_reaches :: "crypto \<Rightarrow> ('t event \<Rightarrow> layer \<Rightarrow> 'e option) \<Rightarrow> network \<Rightarrow> network \<Rightarrow> bool"
  for C :: crypto and refuse :: "'t event \<Rightarrow> layer \<Rightarrow> 'e option" and n0 :: network where
  reaches_start: "network_reaches C refuse n0 n0"
| reaches_step: "network_reaches C refuse n0 n \<Longrightarrow> network_step C refuse n n' \<Longrightarrow> network_reaches C refuse n0 n'"

text \<open>
  \<open>keyed C suite s rs w\<close>: a reader that starts with the secret \<open>s\<close> and moves on after every update reads each
  record with the secret it was protected with, and ends with \<open>w\<close>.
\<close>

fun keyed :: "crypto \<Rightarrow> cipher_suite \<Rightarrow> secret \<Rightarrow> (secret \<times> record_body) list \<Rightarrow> secret \<Rightarrow> bool" where
  "keyed C suite s [] w \<longleftrightarrow> w = s"
| "keyed C suite s ((k, MessageBody bs) # rs) w \<longleftrightarrow> k = s \<and> keyed C suite (next_secret C suite s) rs w"
| "keyed C suite s ((k, DataBody bs) # rs) w \<longleftrightarrow> k = s \<and> keyed C suite s rs w"

lemma keyed_data: "keyed C suite s rs w \<Longrightarrow> keyed C suite s (rs @ [(w, DataBody bs)]) w"
  by (induction C suite s rs w rule: keyed.induct) auto

lemma keyed_message: "keyed C suite s rs w \<Longrightarrow> keyed C suite s (rs @ [(w, MessageBody bs)]) (next_secret C suite w)"
  by (induction C suite s rs w rule: keyed.induct) auto

text \<open>One side: its secrets are the ones its layer works with.\<close>

definition installed :: "cipher_suite \<Rightarrow> role \<Rightarrow> traffic_state \<Rightarrow> layer \<Rightarrow> bool" where
  "installed suite R t l \<longleftrightarrow>
     (\<exists>a. t = TrafficActive a \<and> ac_suite a = suite \<and> side_secret (write_side R) a = ly_write l \<and> side_secret (read_side R) a = ly_read l)"

definition in_agreement :: "crypto \<Rightarrow> cipher_suite \<Rightarrow> network \<Rightarrow> bool" where
  "in_agreement C suite n \<longleftrightarrow>
     (\<forall>R. installed suite R (nw_traffic n R) (nw_layer n R) \<and>
        keyed C suite (ly_read (nw_layer n (peer R))) (ly_sent (nw_layer n R)) (ly_write (nw_layer n R)))"

lemma peer_simps [simp]: "peer (peer R) = R" "peer R \<noteq> R" "R \<noteq> peer R"
  "read_side (peer R) = write_side R" "write_side (peer R) = read_side R" "read_side R \<noteq> write_side R"
  "write_side R \<noteq> read_side R"
  by (cases R; simp)+

lemma role_cases: "Q = R \<or> Q = peer R"
  by (cases Q; cases R) simp_all

lemma all_roles: "(\<forall>Q. P Q) \<longleftrightarrow> P R \<and> P (peer R)"
  using role_cases by metis

lemma emit_layer:
  "emit_event (layer_sink refuse) suite ev l =
     (case refuse ev l of Some e \<Rightarrow> (Inl (Sink e), l) | None \<Rightarrow> (Inr (), layer_event ev l))"
  "emit_key_update (layer_sink refuse) suite ev b l =
     (case refuse ev l of Some e \<Rightarrow> (Inl (Sink e), l) | None \<Rightarrow> (Inr (), layer_event ev l))"
  by (simp_all add: emit_event_def emit_key_update_def layer_sink_def split: option.splits)

text \<open>An update leaves under the old secret, and the new one is installed after it.\<close>

lemma send_layer:
  assumes "key_update_send C (layer_sink refuse) R request t l = (Inr u, t', l')" and "installed suite R t l"
  shows "l' = (protect (update_body request) l)\<lparr>ly_write := next_secret C suite (ly_write l)\<rparr> \<and> installed suite R t' l'"
  using assms
  by (cases R)
    (auto simp: key_update_send_def emit_layer Let_def traffic_advance_def next_secret_def clear_key_update_response_def installed_def
      protect_def split: prod.splits sum.splits traffic_state.splits option.splits if_splits)

text \<open>When nothing has left, the secrets are as they were.\<close>

lemma refused_layer:
  assumes "key_update_send C (layer_sink refuse) R request t l = (Inl e, t', l)"
  shows "t' = t"
  using assms
  by (auto simp: key_update_send_def emit_layer Let_def protect_def split: prod.splits sum.splits option.splits)
    (auto dest!: arg_cong [where f = "\<lambda>l. length (ly_sent l)"])

lemma receive_layer:
  assumes "key_update_receive C (layer_sink refuse) R request t l = (Inr u, t', l')" and "installed suite R t l"
  shows "l' = l\<lparr>ly_read := next_secret C suite (ly_read l)\<rparr> \<and> installed suite R t' l'"
  using assms
  by (cases R)
    (auto simp: key_update_receive_def emit_layer Let_def consume_update_def traffic_advance_def next_secret_def installed_def
      request_key_update_response_def split: prod.splits sum.splits bool.splits traffic_state.splits option.splits if_splits)

lemmas endpoint_simps = set_endpoint_def deliver_record_def protect_def

lemma step_agreement:
  assumes "network_step C refuse n n'" and "in_agreement C suite n"
  shows "in_agreement C suite n'"
  using assms(1)
proof cases
  case (step_send R request t' l')
  from send_layer [OF step_send(2), of suite] show ?thesis
    using assms(2) step_send(1) unfolding in_agreement_def all_roles [where R = R] by (auto simp: endpoint_simps intro: keyed_message)
next
  case (step_refused R request e t')
  from refused_layer [OF step_refused(2)] show ?thesis
    using assms(2) step_refused(1) unfolding in_agreement_def all_roles [where R = R] by (auto simp: endpoint_simps)
next
  case (step_receive R s request rest t' l')
  from receive_layer [OF step_receive(3), of suite] show ?thesis
    using assms(2) step_receive(1,2) unfolding in_agreement_def all_roles [where R = R] by (auto simp: endpoint_simps installed_def)
next
  case (step_write R bs)
  then show ?thesis
    using assms(2) unfolding in_agreement_def all_roles [where R = R] by (auto simp: endpoint_simps installed_def intro: keyed_data)
next
  case (step_read R s bs rest)
  then show ?thesis
    using assms(2) unfolding in_agreement_def all_roles [where R = R]
    by (auto simp: endpoint_simps installed_def reset_updates_def split: traffic_state.splits)
qed

lemma reaches_agreement:
  "network_reaches C refuse n0 n \<Longrightarrow> in_agreement C suite n0 \<Longrightarrow> in_agreement C suite n"
  by (induction rule: network_reaches.induct) (auto intro: step_agreement)

subsection \<open>A run of updates without application data\<close>

fun receive_all ::
    "crypto \<Rightarrow> ('k, 'e, 't) sink \<Rightarrow> role \<Rightarrow> key_update_request list \<Rightarrow> traffic_state \<Rightarrow> 'k \<Rightarrow>
     ('e drive_error + unit) \<times> traffic_state \<times> 'k" where
  "receive_all C K R [] t k = (Inr (), t, k)"
| "receive_all C K R (request # requests) t k =
     (case key_update_receive C K R request t k of
        (Inl e, t', k') \<Rightarrow> (Inl e, t', k') | (Inr _, t', k') \<Rightarrow> receive_all C K R requests t' k')"

lemma receive_within_budget:
  assumes "crypto_ok C" "accepting K" "budget_count (ac_updates a) < 8"
  obtains a' k' where "key_update_receive C K R request (TrafficActive a) k = (Inr (), TrafficActive a', k')"
    "ac_suite a' = ac_suite a" "budget_count (ac_updates a') = budget_count (ac_updates a) + 1"
    "budget_flag (ac_updates a') \<longleftrightarrow> budget_flag (ac_updates a) \<or> request = Requested"
    "side_secret (read_side R) a' = next_secret C (ac_suite a) (side_secret (read_side R) a)"
    "side_secret (write_side R) a' = side_secret (write_side R) a"
proof -
  obtain u where u: "consume_update (TrafficActive a) = (True, TrafficActive (a\<lparr>ac_updates := u\<rparr>))"
    "budget_flag u = budget_flag (ac_updates a)" "budget_count u = budget_count (ac_updates a) + 1"
    using consume_update_active [of a] assms(3) by metis
  let ?s = "next_secret C (ac_suite a) (side_secret (read_side R) a)"
  let ?a = "set_side_secret (read_side R) ?s (a\<lparr>ac_updates := u\<rparr>)"
  let ?a' = "if request = Requested then ?a\<lparr>ac_updates := budget_request_response (ac_updates ?a)\<rparr> else ?a"
  obtain k' where "key_update_receive C K R request (TrafficActive a) k = (Inr (), TrafficActive ?a', k')"
    using assms(1,2) u(1)
    by (auto simp: key_update_receive_def traffic_advance_active emit_accepted Let_def request_key_update_response_def)
  then show thesis using u(2,3) by (intro that [of ?a' k']) (auto simp: budget_flag_simps)
qed

lemma receive_over_budget:
  assumes "budget_count (ac_updates a) = 8"
  shows "fst (key_update_receive C K R request (TrafficActive a) k) = Inl (Protocol UnexpectedMessage)"
proof -
  obtain u where "consume_update (TrafficActive a) = (False, TrafficActive (a\<lparr>ac_updates := u\<rparr>))"
    by (rule consume_update_active [of a]) (simp add: assms)
  then show ?thesis by (simp add: key_update_receive_def)
qed

lemma receive_all_outcome:
  assumes "crypto_ok C" "accepting K" "budget_count (ac_updates a) + n = 8"
  shows "if length requests \<le> n
    then \<exists>a' k'. receive_all C K R requests (TrafficActive a) k = (Inr (), TrafficActive a', k') \<and>
      side_secret (read_side R) a' =
        (next_secret C (ac_suite a) ^^ length requests) (side_secret (read_side R) a) \<and>
      side_secret (write_side R) a' = side_secret (write_side R) a \<and>
      (budget_flag (ac_updates a') \<longleftrightarrow> budget_flag (ac_updates a) \<or> Requested \<in> set requests)
    else fst (receive_all C K R requests (TrafficActive a) k) = Inl (Protocol UnexpectedMessage)"
  using assms(3)
proof (induction requests arbitrary: a k n)
  case (Cons request requests)
  show ?case
  proof (cases n)
    case 0
    then show ?thesis using receive_over_budget [of a C K R request k] Cons.prems by (auto split: prod.splits)
  next
    case (Suc m)
    then have "budget_count (ac_updates a) < 8" using Cons.prems by simp
    from receive_within_budget [OF assms(1,2) this, of R request k]
    obtain a' k' where a: "key_update_receive C K R request (TrafficActive a) k = (Inr (), TrafficActive a', k')"
      "ac_suite a' = ac_suite a" "budget_count (ac_updates a') = budget_count (ac_updates a) + 1"
      "budget_flag (ac_updates a') \<longleftrightarrow> budget_flag (ac_updates a) \<or> request = Requested"
      "side_secret (read_side R) a' = next_secret C (ac_suite a) (side_secret (read_side R) a)"
      "side_secret (write_side R) a' = side_secret (write_side R) a" .
    have "budget_count (ac_updates a') + m = 8" using a(3) Suc Cons.prems by simp
    from Cons.IH [OF this, of k'] show ?thesis
      using a Suc by (auto simp: funpow_swap1)
  qed
qed simp

subsection \<open>Properties\<close>

text \<open>
  C29. Endpoints stay in agreement.  Start two endpoints with the same suite and secrets, installed in their record layers, and
  let them send updates, which the layer may refuse, write application data and read the records of the peer in the order they were
  written, the steps interleaved in any way.  Then at every moment the secrets of an endpoint are the ones its layer uses; the oldest
  record on the way is protected with the secret that its reader reads with, and so is every later one when its
  turn comes; when no record is on the way, the writer's secret is the reader's.
\<close>

theorem endpoints_agree:
  assumes "nw_traffic n0 ClientRole = TrafficActive a" and "nw_traffic n0 ServerRole = TrafficActive b"
    and "ac_suite a = ac_suite b" and "ac_client a = ac_client b" and "ac_server a = ac_server b"
    and "nw_layer n0 ClientRole = \<lparr>ly_write = ac_client a, ly_read = ac_server a, ly_sent = []\<rparr>"
    and "nw_layer n0 ServerRole = \<lparr>ly_write = ac_server a, ly_read = ac_client a, ly_sent = []\<rparr>"
    and "network_reaches C refuse n0 n"
  shows "traffic_secret (write_side R) (nw_traffic n R) = Inr (ly_write (nw_layer n R)) \<and>
    traffic_secret (read_side R) (nw_traffic n R) = Inr (ly_read (nw_layer n R)) \<and>
    keyed C (ac_suite a) (ly_read (nw_layer n (peer R))) (ly_sent (nw_layer n R)) (ly_write (nw_layer n R)) \<and>
    (case ly_sent (nw_layer n R) of
       [] \<Rightarrow> ly_write (nw_layer n R) = ly_read (nw_layer n (peer R))
     | (s, body) # _ \<Rightarrow> s = ly_read (nw_layer n (peer R)))"
proof -
  have "in_agreement C (ac_suite a) n0"
    unfolding in_agreement_def all_roles [where R = ClientRole] using assms(1-7) by (simp add: installed_def)
  from reaches_agreement [OF assms(8) this]
  have "installed (ac_suite a) R (nw_traffic n R) (nw_layer n R)"
      "keyed C (ac_suite a) (ly_read (nw_layer n (peer R))) (ly_sent (nw_layer n R)) (ly_write (nw_layer n R))"
    by (auto simp: in_agreement_def)
  then show ?thesis
    by (auto simp: installed_def traffic_secret_def split: list.splits) (metis keyed.simps(2,3) record_body.exhaust)
qed

text \<open>Data, an update and data again, none of it read: the records carry the old secret, the old one and the new one.\<close>

theorem endpoints_agree_witness:
  "\<exists>(n :: network) s1 s2. ly_sent (nw_layer n ClientRole) = [(s1, DataBody [7]), (s1, update_body Requested), (s2, DataBody [8])] \<and>
     s1 = ly_read (nw_layer n ServerRole) \<and> s2 = next_secret crypto_toy Aes128GcmSha256 s1 \<and>
     traffic_secret ClientSide (nw_traffic n ClientRole) = Inr s2 \<and> traffic_secret ClientSide (nw_traffic n ServerRole) = Inr s1"
proof -
  let ?a = "\<lparr>ac_suite = Aes128GcmSha256, ac_client = from_bounded_slice [1],
    ac_server = from_bounded_slice [2], ac_updates = 0\<rparr>"
  let ?L = "\<lambda>w r. \<lparr>ly_write = w, ly_read = r, ly_sent = []\<rparr>"
  let ?n0 = "\<lparr>nw_traffic = (\<lambda>_. TrafficActive ?a),
    nw_layer = (\<lambda>R. if R = ClientRole then ?L (ac_client ?a) (ac_server ?a) else ?L (ac_server ?a) (ac_client ?a))\<rparr>"
  let ?refuse = "\<lambda>(ev :: unit event) (l :: layer). None :: unit option"
  let ?n1 = "set_endpoint ClientRole (nw_traffic ?n0 ClientRole) (protect (DataBody [7]) (nw_layer ?n0 ClientRole)) ?n0"
  obtain t l where send: "key_update_send crypto_toy (layer_sink ?refuse) ClientRole Requested (nw_traffic ?n1 ClientRole) (nw_layer ?n1 ClientRole) =
      (Inr (), t, l)"
    by (simp add: key_update_send_def emit_layer traffic_advance_active Let_def set_endpoint_def)
  let ?n2 = "set_endpoint ClientRole t l ?n1"
  let ?n3 = "set_endpoint ClientRole (nw_traffic ?n2 ClientRole) (protect (DataBody [8]) (nw_layer ?n2 ClientRole)) ?n2"
  have reach: "network_reaches crypto_toy ?refuse ?n0 ?n3"
    by (rule reaches_step [OF reaches_step [OF reaches_step [OF reaches_start step_write] step_send [OF send]] step_write])
  define n where "n = ?n3"
  have w: "traffic_secret (write_side ClientRole) (nw_traffic n ClientRole) = Inr (ly_write (nw_layer n ClientRole))"
    by (rule endpoints_agree [where a = ?a and b = ?a, OF _ _ _ _ _ _ _ reach [folded n_def], THEN conjunct1]) simp_all
  have r: "traffic_secret (read_side ServerRole) (nw_traffic n ServerRole) = Inr (ly_read (nw_layer n ServerRole))"
    by (rule endpoints_agree [where a = ?a and b = ?a, OF _ _ _ _ _ _ _ reach [folded n_def], THEN conjunct2, THEN conjunct1]) simp_all
  have start: "installed Aes128GcmSha256 ClientRole (nw_traffic ?n1 ClientRole) (nw_layer ?n1 ClientRole)"
    by (simp add: installed_def set_endpoint_def protect_def)
  from send_layer [OF send start] have l: "l = \<lparr>ly_write = next_secret crypto_toy Aes128GcmSha256 (from_bounded_slice [1]),
      ly_read = from_bounded_slice [2], ly_sent = [(from_bounded_slice [1], DataBody [7]), (from_bounded_slice [1], update_body Requested)]\<rparr>"
    by (simp add: set_endpoint_def protect_def)
  have f: "ly_sent (nw_layer n ClientRole) =
      [(from_bounded_slice [1], DataBody [7]), (from_bounded_slice [1], update_body Requested),
       (next_secret crypto_toy Aes128GcmSha256 (from_bounded_slice [1]), DataBody [8])]"
      "ly_write (nw_layer n ClientRole) = next_secret crypto_toy Aes128GcmSha256 (from_bounded_slice [1])"
      "ly_read (nw_layer n ServerRole) = from_bounded_slice [1]"
    by (simp_all add: n_def l set_endpoint_def protect_def)
  show ?thesis using w r by (intro exI [of _ n]) (simp add: f)
qed

text \<open>
  C33. The KeyUpdate budget.  With hash functions of the documented length and a sink that
  accepts events, up to eight updates in a row without application data are applied: the
  read secret advances once each, the write secret stays, and a response is due exactly if
  one was due before or some update asked for it.  A ninth is refused.
\<close>

theorem key_update_budget:
  assumes "crypto_ok C" and "accepting K" and "budget_count (ac_updates a) = 0"
  shows "if length requests \<le> 8
    then \<exists>a' k'. receive_all C K R requests (TrafficActive a) k = (Inr (), TrafficActive a', k') \<and>
      side_secret (read_side R) a' =
        (next_secret C (ac_suite a) ^^ length requests) (side_secret (read_side R) a) \<and>
      side_secret (write_side R) a' = side_secret (write_side R) a \<and>
      key_update_response_pending (TrafficActive a') =
        (key_update_response_pending (TrafficActive a) \<or> Requested \<in> set requests)
    else fst (receive_all C K R requests (TrafficActive a) k) = Inl (Protocol UnexpectedMessage)"
  using receive_all_outcome [OF assms(1,2), of a 8 requests R k] assms(3)
  by (simp add: key_update_response_pending_def budget_flag_simps cong: if_cong)

theorem key_update_budget_witness:
  "fst (receive_all crypto_toy log_sink ServerRole (replicate 9 NotRequested)
      (TrafficActive \<lparr>ac_suite = Aes128GcmSha256, ac_client = from_bounded_slice [1],
        ac_server = from_bounded_slice [2], ac_updates = 0x80000000\<rparr>) []) = Inl (Protocol UnexpectedMessage)"
proof -
  have "budget_count (ac_updates \<lparr>ac_suite = Aes128GcmSha256, ac_client = from_bounded_slice [1],
      ac_server = from_bounded_slice [2], ac_updates = 0x80000000\<rparr>) = 0"
    by (simp add: budget_count_def)
  from key_update_budget [OF crypto_toy_ok accepting_log_sink this, of "replicate 9 NotRequested" ServerRole "[]"]
  show ?thesis by simp
qed

end
