(* ===== verification/Effects.thy ===== *)
theory Effects
  imports KeyUpdate KeyExchange
begin

section \<open>Handlers with state and errors\<close>

text \<open>
  A handshake handler mutates its session and the outside world \<open>'k\<close> (sink, random source, clock,
  replay store) and returns a \<open>Result\<close>; the mutations made before an early return stay.  It is a
  function \<open>eff\<close> from a state to a result and a state, composed with \<open>bindS\<close>, the \<open>?\<close>
  operator.  \<open>wpS\<close> is the weakest precondition of a handler for a postcondition on success
  and one on failure; its equations decompose a handler into its steps.

  A flight is written by \<open>with_flight\<close>, which follows \<open>BoundedBuffer::flight\<close>: the session's
  buffer is exchanged for the storage the sink lends, the body encodes into it, and the
  flight is committed, or dropped when the body fails.  \<open>lens\<close> names the buffer's place in
  the session.
\<close>

type_synonym ('s, 'e, 'a) eff = "'s \<Rightarrow> ('e + 'a) \<times> 's"

definition retS :: "'a \<Rightarrow> ('s, 'e, 'a) eff" where "retS x s = (Inr x, s)"
definition failS :: "'e \<Rightarrow> ('s, 'e, 'a) eff" where "failS e s = (Inl e, s)"
definition liftS :: "'e + 'a \<Rightarrow> ('s, 'e, 'a) eff" where "liftS r s = (r, s)"
definition getS :: "('s \<Rightarrow> 'a) \<Rightarrow> ('s, 'e, 'a) eff" where "getS f s = (Inr (f s), s)"
definition modS :: "('s \<Rightarrow> 's) \<Rightarrow> ('s, 'e, unit) eff" where "modS f s = (Inr (), f s)"

definition bindS :: "('s, 'e, 'a) eff \<Rightarrow> ('a \<Rightarrow> ('s, 'e, 'b) eff) \<Rightarrow> ('s, 'e, 'b) eff" where
  "bindS m f s = (case m s of (Inl e, s') \<Rightarrow> (Inl e, s') | (Inr x, s') \<Rightarrow> f x s')"

definition seqS :: "('s, 'e, 'a) eff \<Rightarrow> ('s, 'e, 'b) eff \<Rightarrow> ('s, 'e, 'b) eff" where
  "seqS m n = bindS m (\<lambda>_. n)"

definition requireS :: "bool \<Rightarrow> 'e \<Rightarrow> ('s, 'e, unit) eff" where
  "requireS b e = (if b then retS () else failS e)"

definition whenS :: "bool \<Rightarrow> ('s, 'e, unit) eff \<Rightarrow> ('s, 'e, unit) eff" where
  "whenS b m = (if b then m else retS ())"

definition map_errS :: "('e \<Rightarrow> 'f) \<Rightarrow> ('s, 'e, 'a) eff \<Rightarrow> ('s, 'f, 'a) eff" where
  "map_errS g m s = (case m s of (r, s') \<Rightarrow> (map_err g r, s'))"

text \<open>Operations on one component of the state: the session's own fields, and the outside world.\<close>

definition sesS :: "('a \<Rightarrow> ('e + 'b) \<times> 'a) \<Rightarrow> ('a \<times> 'k, 'e, 'b) eff" where
  "sesS m s = (case m (fst s) of (r, a) \<Rightarrow> (r, (a, snd s)))"

definition worldS :: "('k \<Rightarrow> ('e + 'b) \<times> 'k) \<Rightarrow> ('a \<times> 'k, 'e, 'b) eff" where
  "worldS m s = (case m (snd s) of (r, k) \<Rightarrow> (r, (fst s, k)))"

definition askS :: "('a \<Rightarrow> 'b) \<Rightarrow> ('a \<times> 'k, 'e, 'b) eff" where
  "askS f = getS (\<lambda>s. f (fst s))"

definition updS :: "('a \<Rightarrow> 'a) \<Rightarrow> ('a \<times> 'k, 'e, unit) eff" where
  "updS f = modS (\<lambda>(a, k). (f a, k))"

text \<open>A pure result of the library in a handler whose errors are \<open>DriveError\<close>s.\<close>

definition tryS :: "('e \<Rightarrow> conn_error) \<Rightarrow> 'e + 'a \<Rightarrow> ('s, 'x drive_error, 'a) eff" where
  "tryS g r = liftS (map_err (\<lambda>e. Protocol (g e)) r)"

definition protS :: "('s, conn_error, 'a) eff \<Rightarrow> ('s, 'e drive_error, 'a) eff" where
  "protS m = map_errS Protocol m"

definition emitS :: "('k, 'x, 't) sink \<Rightarrow> cipher_suite option \<Rightarrow> 't event \<Rightarrow> ('a \<times> 'k, 'x drive_error, unit) eff" where
  "emitS K suite ev = worldS (emit_event K suite ev)"

definition rngS :: "'k kx_ops \<Rightarrow> nat \<Rightarrow> ('a \<times> 'k, conn_error, bytes) eff" where
  "rngS O1 n = worldS (\<lambda>k. case rng_fill O1 n k of (r, k') \<Rightarrow> (ok_or RngErr r, k'))"

subsection \<open>Flights\<close>

record 'a lens =
  lens_get :: "'a \<Rightarrow> bounded_buffer"
  lens_put :: "bounded_buffer \<Rightarrow> 'a \<Rightarrow> 'a"

definition lens_ok :: "'a lens \<Rightarrow> bool" where
  "lens_ok L \<longleftrightarrow> (\<forall>b a. lens_get L (lens_put L b a) = b)"

definition return_outbound :: "('k, 'x, 't) sink \<Rightarrow> outbound_flight option \<Rightarrow> 'k \<Rightarrow> 'k" where
  "return_outbound K ob k = (case ob of None \<Rightarrow> k | Some out \<Rightarrow> sk_end_send K out k)"

definition with_flight ::
    "('k, 'x, 't) sink \<Rightarrow> 'a lens \<Rightarrow> cipher_suite option \<Rightarrow> epoch \<Rightarrow> ('a \<times> 'k, 'x drive_error, 'b) eff \<Rightarrow>
     ('a \<times> 'k, 'x drive_error, 'b) eff" where
  "with_flight K L suite ep body s =
     (case begin_send K suite ep (bb_capacity (lens_get L (fst s))) (snd s) of
        (Inl e, k) \<Rightarrow> (Inl e, (fst s, k))
      | (Inr ob, k) \<Rightarrow>
          let f = bb_flight ob (lens_get L (fst s)) in
          (case body (lens_put L (bb_clear (fl_buffer f)) (fst s), k) of
             (Inl e, (a, k)) \<Rightarrow>
               (case flight_drop (f\<lparr>fl_buffer := lens_get L a\<rparr>) of
                  (b, ob) \<Rightarrow> (Inl e, (lens_put L b a, return_outbound K ob k)))
           | (Inr x, (a, k)) \<Rightarrow>
               (case flight_commit (f\<lparr>fl_buffer := lens_get L a\<rparr>) of
                  (direct, b, ob) \<Rightarrow>
                    let a = lens_put L b a; k = return_outbound K ob k in
                    if direct then (Inr x, (a, k))
                    else (case emit_event K suite (EvSend ep (bb_as_slice b)) k of
                        (Inl e, k) \<Rightarrow> (Inl e, (a, k))
                      | (Inr _, k) \<Rightarrow> (Inr x, (a, k))))))"

text \<open>Encoding into the flight's buffer, and a length-prefixed scope around a body with effects.\<close>

definition encodeS :: "'a lens \<Rightarrow> bounded_buffer writer \<Rightarrow> ('a \<times> 'k, 'x drive_error, unit) eff" where
  "encodeS L w s =
     (case w (lens_get L (fst s)) of
        (r, b) \<Rightarrow> (map_err (\<lambda>e. Protocol (error_of_encode e)) r, (lens_put L b (fst s), snd s)))"

definition putS :: "'a lens \<Rightarrow> (bounded_buffer \<Rightarrow> bounded_buffer) \<Rightarrow> ('a \<times> 'k, 'x drive_error, unit) eff" where
  "putS L f = encodeS L (emit f)"

definition framedS ::
    "'a lens \<Rightarrow> nat \<Rightarrow> nat \<Rightarrow> ('a \<times> 'k, 'x drive_error, 'b) eff \<Rightarrow> ('a \<times> 'k, 'x drive_error, 'b) eff" where
  "framedS L w m body s =
     (case frame_begin bb_encode w m (lens_get L (fst s)) of
        (Inl e, b) \<Rightarrow> (Inl (Protocol (error_of_encode e)), (lens_put L b (fst s), snd s))
      | (Inr f, b) \<Rightarrow>
          (case body (lens_put L b (fst s), snd s) of
             (Inl e, (a, k)) \<Rightarrow> (Inl e, (lens_put L (frame_drop bb_encode f (lens_get L a)) a, k))
           | (Inr x, (a, k)) \<Rightarrow>
               (case frame_finish bb_encode f (lens_get L a) of
                  (Inl e, b) \<Rightarrow> (Inl (Protocol (error_of_encode e)), (lens_put L b a, k))
                | (Inr _, b) \<Rightarrow> (Inr x, (lens_put L b a, k)))))"

definition framedS_u16 :: "'a lens \<Rightarrow> ('a \<times> 'k, 'x drive_error, 'b) eff \<Rightarrow> ('a \<times> 'k, 'x drive_error, 'b) eff" where
  "framedS_u16 L = framedS L 2 65535"

definition framedS_u24 :: "'a lens \<Rightarrow> ('a \<times> 'k, 'x drive_error, 'b) eff \<Rightarrow> ('a \<times> 'k, 'x drive_error, 'b) eff" where
  "framedS_u24 L = framedS L 3 (2 ^ 24 - 1)"

abbreviation E_bb :: "bounded_buffer encode" where "E_bb \<equiv> bb_encode"

definition flight_lenS :: "'a lens \<Rightarrow> ('a \<times> 'k, 'x drive_error, nat) eff" where
  "flight_lenS L = askS (\<lambda>a. bb_len (lens_get L a))"

definition flight_fromS :: "'a lens \<Rightarrow> nat \<Rightarrow> ('a \<times> 'k, 'x drive_error, bytes) eff" where
  "flight_fromS L start = askS (\<lambda>a. drop start (bb_as_slice (lens_get L a)))"

subsection \<open>Weakest preconditions\<close>

definition wpS :: "('s, 'e, 'a) eff \<Rightarrow> ('a \<Rightarrow> 's \<Rightarrow> bool) \<Rightarrow> ('e \<Rightarrow> 's \<Rightarrow> bool) \<Rightarrow> 's \<Rightarrow> bool" where
  "wpS m Q E s \<longleftrightarrow> (case m s of (Inl e, s') \<Rightarrow> E e s' | (Inr x, s') \<Rightarrow> Q x s')"

named_theorems wp \<open>equations of wpS for the handler combinators\<close>

lemmas eff_defs = retS_def failS_def liftS_def getS_def modS_def bindS_def seqS_def requireS_def whenS_def map_errS_def
  sesS_def worldS_def askS_def updS_def tryS_def

lemma wpS_basic [wp]:
  "wpS (retS x) Q E s \<longleftrightarrow> Q x s"
  "wpS (failS e) Q E s \<longleftrightarrow> E e s"
  "wpS (liftS r) Q E s \<longleftrightarrow> (case r of Inl e \<Rightarrow> E e s | Inr x \<Rightarrow> Q x s)"
  "wpS (getS f) Q E s \<longleftrightarrow> Q (f s) s"
  by (simp_all add: wpS_def eff_defs split: sum.splits)

lemma wpS_modS [wp]: "wpS (modS g) Q E s \<longleftrightarrow> Q () (g s)"
  by (simp add: wpS_def eff_defs)

lemma wpS_bindS [wp]: "wpS (bindS m f) Q E s \<longleftrightarrow> wpS m (\<lambda>x. wpS (f x) Q E) E s"
  by (simp add: wpS_def eff_defs split: prod.splits sum.splits)

lemma wpS_seqS [wp]: "wpS (seqS m n) Q E s \<longleftrightarrow> wpS m (\<lambda>_. wpS n Q E) E s"
  by (simp add: seqS_def wpS_bindS)

lemma wpS_map_errS [wp]: "wpS (map_errS h m) Q E s \<longleftrightarrow> wpS m Q (\<lambda>e. E (h e)) s"
  by (simp add: wpS_def eff_defs split: prod.splits sum.splits)

lemma wpS_requireS [wp]: "wpS (requireS b e) Q E s \<longleftrightarrow> (if b then Q () s else E e s)"
  by (simp add: wpS_def eff_defs)

lemma wpS_whenS [wp]: "wpS (whenS b m) Q E s \<longleftrightarrow> (if b then wpS m Q E s else Q () s)"
  by (simp add: wpS_def eff_defs)

lemma wpS_tryS [wp]: "wpS (tryS g r) Q E s \<longleftrightarrow> (case r of Inl e \<Rightarrow> E (Protocol (g e)) s | Inr x \<Rightarrow> Q x s)"
  by (simp add: wpS_def eff_defs map_err_def split: sum.splits)

lemma wpS_askS [wp]: "wpS (askS f) Q E s \<longleftrightarrow> Q (f (fst s)) s"
  by (simp add: wpS_def eff_defs)

lemma wpS_updS [wp]: "wpS (updS g) Q E s \<longleftrightarrow> Q () (g (fst s), snd s)"
  by (simp add: wpS_def eff_defs split: prod.splits)

lemma wpS_sesS [wp]:
  "wpS (sesS m) Q E s \<longleftrightarrow> (case m (fst s) of (Inl e, a) \<Rightarrow> E e (a, snd s) | (Inr x, a) \<Rightarrow> Q x (a, snd s))"
  by (simp add: wpS_def eff_defs split: prod.splits sum.splits)

lemma wpS_worldS [wp]:
  "wpS (worldS w) Q E s \<longleftrightarrow> (case w (snd s) of (Inl e, k) \<Rightarrow> E e (fst s, k) | (Inr x, k) \<Rightarrow> Q x (fst s, k))"
  by (simp add: wpS_def eff_defs split: prod.splits sum.splits)

lemma wpS_mono:
  "wpS m Q E s \<Longrightarrow> (\<And>x t. Q x t \<Longrightarrow> Q' x t) \<Longrightarrow> (\<And>e t. E e t \<Longrightarrow> E' e t) \<Longrightarrow> wpS m Q' E' s"
  by (auto simp: wpS_def split: prod.splits sum.splits)

lemma wpS_result: "wpS m Q E s \<Longrightarrow> m s = (Inr x, t) \<Longrightarrow> Q x t"
  and wpS_error: "wpS m Q E s \<Longrightarrow> m s = (Inl e, t) \<Longrightarrow> E e t"
  by (simp_all add: wpS_def)

text \<open>
  A handler \<open>keeps\<close> a view of the session when it never changes it, whatever the outcome.  Most of
  a handler's steps keep everything a property speaks of.
\<close>

definition keeps :: "('a \<Rightarrow> 'v) \<Rightarrow> ('a \<times> 'k, 'e, 'b) eff \<Rightarrow> bool" where
  "keeps v m \<longleftrightarrow> (\<forall>s. v (fst (snd (m s))) = v (fst s))"

lemma keepsI: "(\<And>s. v (fst (snd (m s))) = v (fst s)) \<Longrightarrow> keeps v m"
  by (simp add: keeps_def)

lemma keepsD: "keeps v m \<Longrightarrow> m s = (r, t) \<Longrightarrow> v (fst t) = v (fst s)"
  by (metis keeps_def snd_conv)

lemma keeps_basic [intro, simp]:
  "keeps v (retS x)" "keeps v (failS e)" "keeps v (liftS r)" "keeps v (getS f)" "keeps v (tryS g q)"
  "keeps v (worldS w)" "keeps v (askS f')" "keeps v (requireS b e)" "keeps v (emitS K suite ev)" "keeps v (rngS O1 n)"
  "keeps v (flight_lenS L)" "keeps v (flight_fromS L start)"
  by (simp_all add: keeps_def retS_def failS_def liftS_def getS_def tryS_def worldS_def askS_def requireS_def
      emitS_def rngS_def flight_lenS_def flight_fromS_def split: prod.splits)

lemma keeps_bind [intro]: "keeps v m \<Longrightarrow> (\<And>x. keeps v (f x)) \<Longrightarrow> keeps v (bindS m f)"
  unfolding keeps_def bindS_def by (auto split: prod.splits sum.splits) (metis fst_conv snd_conv)+

lemma keeps_seq [intro]: "keeps v m \<Longrightarrow> keeps v n \<Longrightarrow> keeps v (seqS m n)"
  unfolding seqS_def by (rule keeps_bind)

lemma keeps_when [intro]: "(b \<Longrightarrow> keeps v m) \<Longrightarrow> keeps v (whenS b m)"
  by (simp add: whenS_def)

lemma keeps_map_err [intro]: "keeps v m \<Longrightarrow> keeps v (map_errS g m)"
proof (rule keepsI)
  fix s
  assume "keeps v m"
  then show "v (fst (snd (map_errS g m s))) = v (fst s)"
    by (cases "m s") (auto simp: map_errS_def dest: keepsD)
qed

lemma keeps_upd [intro]: "(\<And>a. v (f a) = v a) \<Longrightarrow> keeps v (updS f)"
  by (simp add: keeps_def updS_def modS_def split: prod.splits)

lemma keeps_ses [intro]: "(\<And>a. v (snd (m a)) = v a) \<Longrightarrow> keeps v (sesS m)"
  by (simp add: keeps_def sesS_def split: prod.splits) (metis snd_conv)

lemma keeps_encode [intro]: "(\<And>b a. v (lens_put L b a) = v a) \<Longrightarrow> keeps v (encodeS L w)"
  by (simp add: keeps_def encodeS_def split: prod.splits)

lemma keeps_put [intro]: "(\<And>b a. v (lens_put L b a) = v a) \<Longrightarrow> keeps v (putS L f)"
  unfolding putS_def by (rule keeps_encode)

lemma keeps_framed:
  assumes "\<And>b a. v (lens_put L b a) = v a" and "keeps v body"
  shows "keeps v (framedS L w m body)"
  using assms
  by (auto simp: keeps_def framedS_def split: prod.splits sum.splits) (metis fst_conv snd_conv)+

lemma keeps_with_flight:
  assumes "\<And>b a. v (lens_put L b a) = v a" and "keeps v body"
  shows "keeps v (with_flight K L suite ep body)"
  using assms
  by (auto simp: keeps_def with_flight_def Let_def split: prod.splits sum.splits) (metis fst_conv snd_conv)+

lemma keeps_if: "(b \<Longrightarrow> keeps v m) \<Longrightarrow> (\<not> b \<Longrightarrow> keeps v n) \<Longrightarrow> keeps v (if b then m else n)"
  by simp

lemma keeps_case:
  "(x = None \<Longrightarrow> keeps v m) \<Longrightarrow> (\<And>y. x = Some y \<Longrightarrow> keeps v (f y)) \<Longrightarrow> keeps v (case x of None \<Rightarrow> m | Some y \<Rightarrow> f y)"
  "(\<And>a b. p = (a, b) \<Longrightarrow> keeps v (g a b)) \<Longrightarrow> keeps v (case p of (a, b) \<Rightarrow> g a b)"
  "(\<And>e. r = Inl e \<Longrightarrow> keeps v (h e)) \<Longrightarrow> (\<And>y. r = Inr y \<Longrightarrow> keeps v (i y)) \<Longrightarrow>
     keeps v (case r of Inl e \<Rightarrow> h e | Inr y \<Rightarrow> i y)"
  "(c \<Longrightarrow> keeps v m) \<Longrightarrow> (\<not> c \<Longrightarrow> keeps v n) \<Longrightarrow> keeps v (case c of True \<Rightarrow> m | False \<Rightarrow> n)"
  by (auto split: option.split prod.split sum.split bool.split)

lemmas keeps_intros = keeps_bind keeps_seq keeps_when keeps_map_err keeps_upd keeps_ses keeps_encode keeps_put
  keeps_framed keeps_with_flight keeps_if keeps_case keeps_basic

text \<open>A step that keeps a view: its outcome may be anything, the view is the old one.\<close>

lemma wpS_keeps:
  assumes "keeps v m" and "\<And>x t. v (fst t) = v (fst s) \<Longrightarrow> Q x t" and "\<And>e t. v (fst t) = v (fst s) \<Longrightarrow> E e t"
  shows "wpS m Q E s"
proof -
  obtain r t where rt: "m s = (r, t)" by (cases "m s") blast
  show ?thesis using assms keepsD [OF assms(1) rt] by (simp add: wpS_def rt split: sum.split)
qed

lemma keeps_prot [intro]: "keeps v m \<Longrightarrow> keeps v (protS m)"
  unfolding protS_def by (intro keeps_intros)

lemma wpS_bind_result:
  assumes "wpS m (\<lambda>x t. P x) (\<lambda>e t. True) s" and "\<And>x t. P x \<Longrightarrow> wpS (f x) Q (\<lambda>e t. True) t"
  shows "wpS (bindS m f) Q (\<lambda>e t. True) s"
  using wpS_mono [OF assms(1), of "\<lambda>x. wpS (f x) Q (\<lambda>e t. True)" "\<lambda>e t. True"] assms(2) by (simp add: wp)

lemma wpS_any: "(\<And>x t. Q x t) \<Longrightarrow> wpS m Q (\<lambda>e t. True) s"
  by (simp add: wpS_def split: prod.split sum.split)

lemma wpS_seq_any: "(\<And>t. wpS n Q (\<lambda>e t. True) t) \<Longrightarrow> wpS (seqS m n) Q (\<lambda>e t. True) s"
  by (simp add: wp wpS_any)

lemma wpS_protS [wp]: "wpS (protS m) Q E s \<longleftrightarrow> wpS m Q (\<lambda>e. E (Protocol e)) s"
  by (simp add: protS_def wp)

text \<open>A step that keeps the view lets a postcondition on the result be read at the view of the state before it.\<close>

lemma wpS_bind_keeps:
  assumes "keeps v m" and "wpS m (\<lambda>x t. P x) (\<lambda>e t. True) s"
    and "\<And>x t. v (fst t) = v (fst s) \<Longrightarrow> P x \<Longrightarrow> wpS (f x) Q (\<lambda>e t. True) t"
  shows "wpS (bindS m f) Q (\<lambda>e t. True) s"
proof -
  have "wpS (f x) Q (\<lambda>e t. True) t" if "m s = (Inr x, t)" for x t
    using that assms(3) [OF keepsD [OF assms(1) that]] wpS_result [OF assms(2) that] by blast
  then show ?thesis unfolding wpS_def bindS_def by (auto split: prod.splits sum.splits)
qed

lemma wpS_bind_view:
  assumes "keeps v m" and "\<And>x t. v (fst t) = v (fst s) \<Longrightarrow> wpS (f x) Q (\<lambda>e t. True) t"
  shows "wpS (bindS m f) Q (\<lambda>e t. True) s"
  by (rule wpS_bind_keeps [OF assms(1), where P = "\<lambda>_. True"]) (simp_all add: wpS_any assms(2))

lemma wpS_seq_view:
  assumes "keeps v m" and "\<And>t. v (fst t) = v (fst s) \<Longrightarrow> wpS n Q (\<lambda>e t. True) t"
  shows "wpS (seqS m n) Q (\<lambda>e t. True) s"
  unfolding seqS_def by (rule wpS_bind_view [OF assms(1)]) (rule assms(2))

lemma wpS_case_prod: "(\<And>a b. wpS (f a b) Q E s) \<Longrightarrow> wpS (case p of (a, b) \<Rightarrow> f a b) Q E s"
  by (cases p) simp

lemma wpS_with_flight_view:
  assumes "\<And>b a. v (lens_put L b a) = v a"
    and "\<And>t. v (fst t) = v (fst s) \<Longrightarrow> wpS body (\<lambda>x t. P (v (fst t))) (\<lambda>e t. True) t"
  shows "wpS (with_flight K L suite ep body) (\<lambda>x t. P (v (fst t))) (\<lambda>e t. True) s"
proof -
  have "P (v a')" if "body (lens_put L b (fst s), k) = (Inr x, (a', k'))" for b k x a' k'
    using wpS_result [OF assms(2) that] by (simp add: assms(1))
  then show ?thesis
    unfolding wpS_def with_flight_def Let_def by (auto simp: assms(1) split: prod.splits sum.splits)
qed

lemma wpS_seq_upd: "wpS (seqS (updS g) m) Q E s \<longleftrightarrow> wpS m Q E (g (fst s), snd s)"
  by (simp add: wp)

lemma map_err_Inr [simp]: "map_err g r = Inr x \<longleftrightarrow> r = Inr x"
  by (cases r) (simp_all add: map_err_def)

end
