(* ===== verification/ServerSession.thy ===== *)
theory ServerSession
  imports ServerRetry Effects
begin

section \<open>The server's session\<close>

text \<open>
  \<open>server/session/mod.rs\<close>: the session's state, the early-data window and the accepted ticket.
  The clock, the random source and the replay store belong to the outside world \<open>'k\<close>.
\<close>

definition MAX_TICKET_AGE_SKEW_MS :: u64 where "MAX_TICKET_AGE_SKEW_MS = 10000"
definition MAX_EARLY_DATA_SIZE :: u32 where "MAX_EARLY_DATA_SIZE = 16384"
definition TICKET_LIFETIME_SECS :: u32 where "TICKET_LIFETIME_SECS = 7200"
definition TICKET_LIFETIME_MS :: u64 where "TICKET_LIFETIME_MS = ucast TICKET_LIFETIME_SECS * 1000"

record ticket =
  ti_age_add :: u32
  ti_issued_at_ms :: u64
  ti_suite :: cipher_suite
  ti_obfuscated_age :: u32
  ti_max_early_data :: "u32 option"

record accepted_psk =
  ak_psk :: bytes
  ak_ticket :: ticket
  ak_binder :: bytes
  ak_alpn_matches :: bool

definition issued_at_is_resumable :: "u64 \<Rightarrow> u64 \<Rightarrow> bool" where
  "issued_at_is_resumable issued_at_ms now_ms \<longleftrightarrow>
     issued_at_ms \<le> u64_saturating_add now_ms MAX_TICKET_AGE_SKEW_MS \<and>
     u64_saturating_sub now_ms issued_at_ms \<le> TICKET_LIFETIME_MS"

subsection \<open>Early data\<close>

record early_data =
  ed_enabled :: bool
  ed_remaining :: "u32 option"
  ed_maximum :: "u32 option"

definition early_data_new :: early_data where
  "early_data_new = \<lparr>ed_enabled = False, ed_remaining = None, ed_maximum = None\<rparr>"

definition u64_abs_diff :: "u64 \<Rightarrow> u64 \<Rightarrow> u64" where
  "u64_abs_diff a b = (if a < b then b - a else a - b)"

definition admit ::
    "'k guard \<Rightarrow> unit option \<Rightarrow> accepted_psk option \<Rightarrow> cipher_suite option \<Rightarrow> u64 \<Rightarrow> early_data \<Rightarrow> 'k \<Rightarrow>
     bool \<times> early_data \<times> 'k" where
  "admit G offered psk suite now_ms ed k =
     (let enabled = gd_accepts_early_data G;
          ed = \<lparr>ed_enabled = enabled, ed_remaining = None, ed_maximum = None\<rparr> in
      if \<not> enabled \<or> offered = None then (False, ed, k)
      else case psk of
        None \<Rightarrow> (False, ed, k)
      | Some psk \<Rightarrow>
          (case ti_max_early_data (ak_ticket psk) of
             None \<Rightarrow> (False, ed, k)
           | Some maximum \<Rightarrow>
               if \<not> ak_alpn_matches psk \<or> suite \<noteq> Some (ti_suite (ak_ticket psk)) then (False, ed, k)
               else if now_ms < ti_issued_at_ms (ak_ticket psk) then (False, ed, k)
               else
                 let measured_age = now_ms - ti_issued_at_ms (ak_ticket psk);
                     claimed_age = ucast (ti_obfuscated_age (ak_ticket psk) - ti_age_add (ak_ticket psk)) in
                 if measured_age > TICKET_LIFETIME_MS \<or> u64_abs_diff measured_age claimed_age > MAX_TICKET_AGE_SKEW_MS
                 then (False, ed, k)
                 else (case gd_register G (ak_binder psk) k of
                     (False, k) \<Rightarrow> (False, ed, k)
                   | (True, k) \<Rightarrow> (True, ed\<lparr>ed_remaining := Some maximum, ed_maximum := Some maximum\<rparr>, k))))"

definition advertised_size :: "mode \<Rightarrow> early_data \<Rightarrow> u32 option" where
  "advertised_size m ed = (if ed_enabled ed then Some (advertised_early_data_size m MAX_EARLY_DATA_SIZE) else None)"

definition open_size :: "mode \<Rightarrow> early_data \<Rightarrow> u32 option" where
  "open_size m ed = ed_maximum ed"

definition charge :: "nat \<Rightarrow> mode \<Rightarrow> early_data \<Rightarrow> (conn_error + unit) \<times> early_data" where
  "charge len m ed =
     (case ed_remaining ed of
        None \<Rightarrow> (Inl EarlyDataLimitExceeded, ed)
      | Some remaining \<Rightarrow>
          if is_quic m then (Inr (), ed)
          else if len < 2 ^ 32 \<and> word_of_nat len \<le> remaining
          then (Inr (), ed\<lparr>ed_remaining := Some (remaining - word_of_nat len)\<rparr>)
          else (Inl EarlyDataLimitExceeded, ed\<lparr>ed_remaining := None, ed_maximum := None\<rparr>))"

definition early_data_close :: "early_data \<Rightarrow> early_data" where
  "early_data_close ed = ed\<lparr>ed_remaining := None, ed_maximum := None\<rparr>"

subsection \<open>Session\<close>

datatype server_state =
    ExpectClientHello
  | ExpectEndOfEarlyData secret
  | ExpectClientCertificate secret
  | ExpectClientCertVerify secret
  | ExpectClientFinished secret
  | Done
  | Failed

record handshake =
  hk_state :: server_state
  hk_transcript :: transcript
  hk_hrr_done :: bool
  hk_hrr_invariant :: "hello_invariant option"

definition handshake_initial :: handshake where
  "handshake_initial =
     \<lparr>hk_state = ExpectClientHello, hk_transcript = transcript_new, hk_hrr_done = False, hk_hrr_invariant = None\<rparr>"

definition is_failed :: "handshake \<Rightarrow> bool" where
  "is_failed h \<longleftrightarrow> hk_state h = Failed"

definition is_done :: "handshake \<Rightarrow> bool" where
  "is_done h \<longleftrightarrow> hk_state h = Done"

record server_peer =
  pr_selected_alpn :: "alpn_id option"
  pr_early_data :: early_data
  pr_client_cert_type :: certificate_type

definition peer_selected_alpn :: "server_peer \<Rightarrow> prepared_alpn \<Rightarrow> bytes option" where
  "peer_selected_alpn p protocols = Option.bind (pr_selected_alpn p) (alpn_get protocols)"

record application =
  ap_traffic :: traffic_state
  ap_master :: "schedule option"
  ap_exporter_master :: "secret option"

definition application_hash_alg :: "application \<Rightarrow> conn_error + algorithm" where
  "application_hash_alg a = traffic_algorithm (ap_traffic a)"

definition zeroize_secrets :: "application \<Rightarrow> application" where
  "zeroize_secrets a = a\<lparr>ap_traffic := traffic_clear (ap_traffic a), ap_exporter_master := None, ap_master := None\<rparr>"

definition application_traffic_secrets :: "application \<Rightarrow> conn_error + secret \<times> secret" where
  "application_traffic_secrets a =
     and_then (traffic_secret ClientSide (ap_traffic a)) (\<lambda>r.
     and_then (traffic_secret ServerSide (ap_traffic a)) (\<lambda>w. Inr (r, w)))"

record buffers =
  bf_flight :: bounded_buffer
  bf_identity_workspace :: bounded_buffer

record session =
  sn_connection :: connection_config
  sn_transport_mode :: mode
  sn_handshake :: handshake
  sn_peer :: server_peer
  sn_application :: application
  sn_buffers :: buffers

definition poison :: "session \<Rightarrow> session" where
  "poison s =
     s\<lparr>sn_handshake := (sn_handshake s)\<lparr>hk_state := Failed\<rparr>,
       sn_application := zeroize_secrets (sn_application s),
       sn_peer := (sn_peer s)\<lparr>pr_early_data := early_data_close (pr_early_data (sn_peer s))\<rparr>,
       sn_buffers := \<lparr>bf_flight = bb_clear (bf_flight (sn_buffers s)),
                      bf_identity_workspace = bb_clear (bf_identity_workspace (sn_buffers s))\<rparr>\<rparr>"

definition handle_key_update ::
    "crypto \<Rightarrow> ('k, 'e, 't) sink \<Rightarrow> key_update \<Rightarrow> (session \<times> 'k, 'e drive_error, unit) eff" where
  "handle_key_update C K ku =
     bindS (askS (\<lambda>s. allows_tls_key_update (sn_transport_mode s))) (\<lambda>allowed.
     if \<not> allowed then failS (Protocol UnexpectedMessage)
     else (\<lambda>(s, k).
       case key_update_receive C K ServerRole (ku_request ku) (ap_traffic (sn_application s)) k of
         (r, t, k) \<Rightarrow> (r, (s\<lparr>sn_application := (sn_application s)\<lparr>ap_traffic := t\<rparr>\<rparr>, k))))"

text \<open>The places handlers write to.\<close>

definition flight_lens :: "session lens" where
  "flight_lens =
     \<lparr>lens_get = (\<lambda>s. bf_flight (sn_buffers s)),
      lens_put = (\<lambda>b s. s\<lparr>sn_buffers := (sn_buffers s)\<lparr>bf_flight := b\<rparr>\<rparr>)\<rparr>"

definition set_state :: "server_state \<Rightarrow> session \<Rightarrow> session" where
  "set_state st s = s\<lparr>sn_handshake := (sn_handshake s)\<lparr>hk_state := st\<rparr>\<rparr>"

definition absorb :: "bytes \<Rightarrow> session \<Rightarrow> session" where
  "absorb bs s = s\<lparr>sn_handshake := (sn_handshake s)\<lparr>hk_transcript := transcript_update bs (hk_transcript (sn_handshake s))\<rparr>\<rparr>"

definition traffic_of :: "session \<Rightarrow> traffic_state" where
  "traffic_of s = ap_traffic (sn_application s)"

definition suite_of :: "session \<Rightarrow> cipher_suite option" where
  "suite_of s = traffic_suite (traffic_of s)"

definition on_traffic :: "(traffic_state \<Rightarrow> (conn_error + 'b) \<times> traffic_state) \<Rightarrow> session \<Rightarrow> (conn_error + 'b) \<times> session" where
  "on_traffic m s = (case m (traffic_of s) of (r, t) \<Rightarrow> (r, s\<lparr>sn_application := (sn_application s)\<lparr>ap_traffic := t\<rparr>\<rparr>))"

definition on_early_data :: "(early_data \<Rightarrow> 'b \<times> early_data) \<Rightarrow> session \<Rightarrow> 'b \<times> session" where
  "on_early_data m s =
     (case m (pr_early_data (sn_peer s)) of (r, e) \<Rightarrow> (r, s\<lparr>sn_peer := (sn_peer s)\<lparr>pr_early_data := e\<rparr>\<rparr>))"

definition transcript_hashS :: "crypto \<Rightarrow> algorithm \<Rightarrow> (session \<times> 'k, conn_error, hash_value) eff" where
  "transcript_hashS C a =
     bindS (askS (\<lambda>s. hk_transcript (sn_handshake s))) (\<lambda>t.
     liftS (map_err error_of_transcript (transcript_hash C a t)))"

subsection \<open>The early-data window\<close>

lemma unat_le_of_nat:
  assumes "len < 2 ^ 32"
  shows "(word_of_nat len :: u32) \<le> r \<longleftrightarrow> len \<le> unat r"
  using assms by (simp add: word_le_nat_alt unat_of_nat)

fun charge_all :: "mode \<Rightarrow> nat list \<Rightarrow> early_data \<Rightarrow> (conn_error + unit) \<times> early_data" where
  "charge_all m [] ed = (Inr (), ed)"
| "charge_all m (n # ns) ed = (case charge n m ed of (Inl e, ed) \<Rightarrow> (Inl e, ed) | (Inr _, ed) \<Rightarrow> charge_all m ns ed)"

lemma charge_all_tls:
  "ed_remaining ed = Some r \<Longrightarrow> ed_maximum ed = Some x \<Longrightarrow>
     (if sum_list ns \<le> unat r
      then charge_all Tls ns ed = (Inr (), ed\<lparr>ed_remaining := Some (r - word_of_nat (sum_list ns))\<rparr>)
      else charge_all Tls ns ed = (Inl EarlyDataLimitExceeded, ed\<lparr>ed_remaining := None, ed_maximum := None\<rparr>))"
proof (induction ns arbitrary: ed r)
  case Nil
  then show ?case by simp
next
  case (Cons n ns)
  show ?case
  proof (cases "n \<le> unat r")
    case True
    then have n: "n < 2 ^ 32" using unsigned_less [where 'a = nat, of r] by simp
    then have w: "unat (r - word_of_nat n) = unat r - n"
      using True by (simp add: unat_sub_if' unat_of_nat word_le_nat_alt)
    have c: "charge n Tls ed = (Inr (), ed\<lparr>ed_remaining := Some (r - word_of_nat n)\<rparr>)"
      using Cons.prems(1) True n by (simp add: charge_def unat_le_of_nat)
    show ?thesis
      using Cons.IH [of "ed\<lparr>ed_remaining := Some (r - word_of_nat n)\<rparr>" "r - word_of_nat n"] Cons.prems(2) True w
      by (auto simp: c algebra_simps split: if_splits)
  next
    case False
    then have "\<not> (n < 2 ^ 32 \<and> word_of_nat n \<le> r)" using unat_le_of_nat by blast
    then have "charge n Tls ed = (Inl EarlyDataLimitExceeded, ed\<lparr>ed_remaining := None, ed_maximum := None\<rparr>)"
      using Cons.prems(1) unfolding charge_def by simp
    with False show ?thesis by simp
  qed
qed

lemma admit_cases:
  assumes "admit G offered psk suite now ed k = (True, ed', k')"
  obtains p x where "gd_accepts_early_data G" "offered = Some ()" "psk = Some p" "ti_max_early_data (ak_ticket p) = Some x"
    "ak_alpn_matches p" "suite = Some (ti_suite (ak_ticket p))" "ti_issued_at_ms (ak_ticket p) \<le> now"
    "now - ti_issued_at_ms (ak_ticket p) \<le> TICKET_LIFETIME_MS"
    "u64_abs_diff (now - ti_issued_at_ms (ak_ticket p))
       (ucast (ti_obfuscated_age (ak_ticket p) - ti_age_add (ak_ticket p))) \<le> MAX_TICKET_AGE_SKEW_MS"
    "gd_register G (ak_binder p) k = (True, k')"
    "ed' = \<lparr>ed_enabled = True, ed_remaining = Some x, ed_maximum = Some x\<rparr>"
  using assms unfolding admit_def Let_def
  by (auto simp: not_less not_le split: if_splits option.splits prod.splits bool.splits)

lemma u64_le_int: "a \<le> b \<longleftrightarrow> uint a \<le> uint b" for a b :: u64
  by (simp add: word_le_def)

lemma uint_sub_le: "b \<le> a \<Longrightarrow> uint (a - b) = uint a - uint b" for a b :: u64
  by (simp add: uint_sub_if' word_le_def)

lemma u64_abs_diff_int: "uint (u64_abs_diff a b) = \<bar>uint a - uint b\<bar>"
proof (cases "a < b")
  case True
  then have "a \<le> b" by simp
  with True show ?thesis using uint_sub_le [of a b] by (simp add: u64_abs_diff_def u64_le_int)
next
  case False
  then have "b \<le> a" by simp
  with False show ?thesis using uint_sub_le [of b a] by (simp add: u64_abs_diff_def u64_le_int)
qed

lemma window_constants: "uint TICKET_LIFETIME_MS = 7200000" "uint MAX_TICKET_AGE_SKEW_MS = 10000"
  by (simp_all add: TICKET_LIFETIME_MS_def TICKET_LIFETIME_SECS_def MAX_TICKET_AGE_SKEW_MS_def)

text \<open>
  C19.  The 0-RTT window.  Early data is admitted only on a resumption whose ticket allows it, with the same
  application protocol and cipher suite, at most two hours after issue and with a claimed age
  within ten seconds of the measured one, and after the replay store accepted the binder.  In TLS the
  window then takes exactly as many bytes as the ticket allows: a sequence of
  charges succeeds iff its sum is within the allowance, and the first excess closes it.  In QUIC, where the transport limits early
  data, every charge is taken and changes nothing.  In both, a closed window takes nothing more.
\<close>

theorem early_data_window:
  assumes "admit G offered psk suite now ed k = (True, ed', k')"
  shows "\<exists>p x. psk = Some p \<and> offered = Some () \<and> ti_max_early_data (ak_ticket p) = Some x \<and>
    ak_alpn_matches p \<and> suite = Some (ti_suite (ak_ticket p)) \<and> gd_register G (ak_binder p) k = (True, k') \<and>
    (let age = uint now - uint (ti_issued_at_ms (ak_ticket p));
         claimed = uint (ti_obfuscated_age (ak_ticket p) - ti_age_add (ak_ticket p)) in
     0 \<le> age \<and> age \<le> 7200000 \<and> \<bar>age - claimed\<bar> \<le> 10000) \<and>
    (\<forall>ns. if sum_list ns \<le> unat x then fst (charge_all Tls ns ed') = Inr ()
           else charge_all Tls ns ed' = (Inl EarlyDataLimitExceeded, early_data_close ed')) \<and>
    (\<forall>ns. charge_all Quic ns ed' = (Inr (), ed')) \<and>
    (\<forall>n m. charge n m (early_data_close ed') = (Inl EarlyDataLimitExceeded, early_data_close ed'))"
proof -
  obtain p x where p: "gd_accepts_early_data G" "offered = Some ()" "psk = Some p" "ti_max_early_data (ak_ticket p) = Some x"
    "ak_alpn_matches p" "suite = Some (ti_suite (ak_ticket p))" "ti_issued_at_ms (ak_ticket p) \<le> now"
    "now - ti_issued_at_ms (ak_ticket p) \<le> TICKET_LIFETIME_MS"
    "u64_abs_diff (now - ti_issued_at_ms (ak_ticket p))
       (ucast (ti_obfuscated_age (ak_ticket p) - ti_age_add (ak_ticket p))) \<le> MAX_TICKET_AGE_SKEW_MS"
    "gd_register G (ak_binder p) k = (True, k')"
    "ed' = \<lparr>ed_enabled = True, ed_remaining = Some x, ed_maximum = Some x\<rparr>"
    using assms by (rule admit_cases)
  have "uint now - uint (ti_issued_at_ms (ak_ticket p)) = uint (now - ti_issued_at_ms (ak_ticket p))"
    by (rule uint_sub_le [OF p(7), symmetric])
  moreover have "uint (ucast (ti_obfuscated_age (ak_ticket p) - ti_age_add (ak_ticket p)) :: u64) =
      uint (ti_obfuscated_age (ak_ticket p) - ti_age_add (ak_ticket p))"
    using unsigned_less [where 'a = int, of "ti_obfuscated_age (ak_ticket p) - ti_age_add (ak_ticket p)"]
    by (simp add: unsigned_ucast_eq take_bit_int_eq_self)
  ultimately have age: "let age = uint now - uint (ti_issued_at_ms (ak_ticket p));
         claimed = uint (ti_obfuscated_age (ak_ticket p) - ti_age_add (ak_ticket p)) in
     0 \<le> age \<and> age \<le> 7200000 \<and> \<bar>age - claimed\<bar> \<le> 10000"
    using p(8,9) by (simp add: u64_le_int u64_abs_diff_int window_constants Let_def)
  have budget: "if sum_list ns \<le> unat x then fst (charge_all Tls ns ed') = Inr ()
       else charge_all Tls ns ed' = (Inl EarlyDataLimitExceeded, early_data_close ed')" for ns
    using charge_all_tls [of ed' x x ns] p(11) by (simp add: early_data_close_def split: if_splits)
  have quic: "charge_all Quic ns ed' = (Inr (), ed')" for ns
    using p(11) by (induction ns) (simp_all add: charge_def)
  have closed: "charge n m (early_data_close ed') = (Inl EarlyDataLimitExceeded, early_data_close ed')" for n m
    by (simp add: charge_def early_data_close_def)
  show ?thesis using p age budget quic closed by blast
qed

definition sample_psk :: accepted_psk where
  "sample_psk =
     \<lparr>ak_psk = [], ak_ticket = \<lparr>ti_age_add = 7, ti_issued_at_ms = 1000, ti_suite = Aes128GcmSha256,
        ti_obfuscated_age = 2007, ti_max_early_data = Some 100\<rparr>, ak_binder = [1], ak_alpn_matches = True\<rparr>"

definition seen_guard :: "bytes set guard" where
  "seen_guard = \<lparr>gd_accepts_early_data = True, gd_register = (\<lambda>t seen. (t \<notin> seen, insert t seen))\<rparr>"

lemma sample_admitted:
  "admit seen_guard (Some ()) (Some sample_psk) (Some Aes128GcmSha256) 4000 early_data_new {} =
     (True, \<lparr>ed_enabled = True, ed_remaining = Some 100, ed_maximum = Some 100\<rparr>, {[1]})"
  by (simp add: admit_def seen_guard_def sample_psk_def early_data_new_def u64_abs_diff_def TICKET_LIFETIME_MS_def
      TICKET_LIFETIME_SECS_def MAX_TICKET_AGE_SKEW_MS_def)

theorem early_data_window_witness:
  "let ed' = \<lparr>ed_enabled = True, ed_remaining = Some 100, ed_maximum = Some 100\<rparr> in
   fst (charge_all Tls [60, 40] ed') = Inr () \<and>
   charge_all Tls [60, 41] ed' = (Inl EarlyDataLimitExceeded, early_data_close ed') \<and>
   charge_all Quic [60, 41] ed' = (Inr (), ed') \<and>
   charge 0 Tls (early_data_close ed') = (Inl EarlyDataLimitExceeded, early_data_close ed')"
proof -
  let ?ed = "\<lparr>ed_enabled = True, ed_remaining = Some 100, ed_maximum = Some 100\<rparr> :: early_data"
  have w: "\<forall>ns. if sum_list ns \<le> unat (100 :: u32) then fst (charge_all Tls ns ?ed) = Inr ()
       else charge_all Tls ns ?ed = (Inl EarlyDataLimitExceeded, early_data_close ?ed)"
    "\<forall>ns. charge_all Quic ns ?ed = (Inr (), ?ed)"
    "\<forall>n m. charge n m (early_data_close ?ed) = (Inl EarlyDataLimitExceeded, early_data_close ?ed)"
    using early_data_window [OF sample_admitted] by (auto simp: sample_psk_def)
  show ?thesis using w(1) [rule_format, of "[60, 40]"] w(1) [rule_format, of "[60, 41]"] w(2) [rule_format, of "[60, 41]"] w(3)
    by (simp add: Let_def)
qed

text \<open>
  Admissions on one replay store, from any number of connections.  \<open>pass now\<close> is what the store does by itself until
  the time \<open>now\<close>; it may forget tokens.  \<open>admissions\<close> lists the binders that were admitted.
\<close>

record admission =
  ad_offered :: "unit option"
  ad_psk :: "accepted_psk option"
  ad_suite :: "cipher_suite option"
  ad_now_ms :: u64
  ad_state :: early_data

fun admissions :: "'k guard \<Rightarrow> (u64 \<Rightarrow> 'k \<Rightarrow> 'k) \<Rightarrow> admission list \<Rightarrow> 'k \<Rightarrow> bytes list" where
  "admissions G pass [] k = []"
| "admissions G pass (a # as) k =
     (case admit G (ad_offered a) (ad_psk a) (ad_suite a) (ad_now_ms a) (ad_state a) (pass (ad_now_ms a) k) of
        (b, _, k') \<Rightarrow> (case (b, ad_psk a) of (True, Some p) \<Rightarrow> [ak_binder p] | _ \<Rightarrow> []) @ admissions G pass as k')"

text \<open>
  The contract of \<open>EarlyDataGuard::register\<close>.  The store is asked at some times, in order, and at others not; \<open>registered\<close>
  lists what it took, with the times.  A token it took is not taken again within \<open>TICKET_LIFETIME_SECS\<close>; after that it may be.
\<close>

fun registered :: "'k guard \<Rightarrow> (u64 \<Rightarrow> 'k \<Rightarrow> 'k) \<Rightarrow> (u64 \<times> bytes option) list \<Rightarrow> 'k \<Rightarrow> (u64 \<times> bytes) list" where
  "registered G pass [] k = []"
| "registered G pass ((now, None) # calls) k = registered G pass calls (pass now k)"
| "registered G pass ((now, Some token) # calls) k =
     (case gd_register G token (pass now k) of
        (b, k') \<Rightarrow> (if b then [(now, token)] else []) @ registered G pass calls k')"

definition expired :: "u64 \<Rightarrow> u64 \<Rightarrow> bool" where
  "expired since now \<longleftrightarrow> unat since + 1000 * unat TICKET_LIFETIME_SECS < unat now"

definition guard_ok :: "'k guard \<Rightarrow> (u64 \<Rightarrow> 'k \<Rightarrow> 'k) \<Rightarrow> 'k \<Rightarrow> bool" where
  "guard_ok G pass k \<longleftrightarrow>
     (\<forall>calls. sorted (map fst calls) \<longrightarrow>
        sorted_wrt (\<lambda>(since, t) (now, t'). t = t' \<longrightarrow> expired since now) (registered G pass calls k))"

lemma within_lifetime:
  assumes "issued \<le> now" and "now - issued \<le> TICKET_LIFETIME_MS"
  shows "\<not> expired issued now"
proof -
  have "unat now - unat issued \<le> 7200000"
    using assms by (simp add: word_le_nat_alt unat_sub TICKET_LIFETIME_MS_def TICKET_LIFETIME_SECS_def)
  then show ?thesis by (simp add: expired_def TICKET_LIFETIME_SECS_def)
qed

lemma distinct_iff_sorted_wrt: "distinct xs \<longleftrightarrow> sorted_wrt (\<noteq>) xs"
  by (induction xs) auto

text \<open>The store is asked about a ticket only after its issue and within its lifetime.\<close>

lemma admit_world:
  assumes "admit G offered psk suite now ed k = (b, ed', k')"
  shows "\<not> b \<and> k' = k \<or>
    (\<exists>p. psk = Some p \<and> gd_register G (ak_binder p) k = (b, k') \<and> ti_issued_at_ms (ak_ticket p) \<le> now \<and>
      \<not> expired (ti_issued_at_ms (ak_ticket p)) now)"
proof -
  have "\<not> b \<and> k' = k \<or>
    (\<exists>p. psk = Some p \<and> gd_register G (ak_binder p) k = (b, k') \<and> \<not> now < ti_issued_at_ms (ak_ticket p) \<and>
      \<not> TICKET_LIFETIME_MS < now - ti_issued_at_ms (ak_ticket p))"
    using assms unfolding admit_def Let_def by (auto split: if_splits option.splits prod.splits bool.splits)
  then show ?thesis using within_lifetime by (auto simp: not_less)
qed

text \<open>The questions that a sequence of admissions puts to the store.\<close>

definition asked_for :: "admission list \<Rightarrow> u64 \<Rightarrow> bytes \<Rightarrow> bool" where
  "asked_for as now token \<longleftrightarrow>
     (\<exists>a\<in>set as. \<exists>p. ad_psk a = Some p \<and> ak_binder p = token \<and> ti_issued_at_ms (ak_ticket p) \<le> now \<and>
        \<not> expired (ti_issued_at_ms (ak_ticket p)) now)"

lemma asked_for_Cons: "asked_for as now token \<Longrightarrow> asked_for (a # as) now token"
  by (auto simp: asked_for_def)

lemma admissions_asked:
  "\<exists>calls. map fst calls = map ad_now_ms as \<and> admissions G pass as k = map snd (registered G pass calls k) \<and>
     (\<forall>(now, token)\<in>set (registered G pass calls k). now \<in> set (map fst calls) \<and> asked_for as now token)"
proof (induction as arbitrary: k)
  case Nil
  then show ?case by (intro exI [of _ "[]"]) simp
next
  case (Cons a as)
  obtain b ed' k' where r: "admit G (ad_offered a) (ad_psk a) (ad_suite a) (ad_now_ms a) (ad_state a) (pass (ad_now_ms a) k) = (b, ed', k')"
    by (rule prod_cases3)
  obtain calls where calls: "map fst calls = map ad_now_ms as" "admissions G pass as k' = map snd (registered G pass calls k')"
      "\<forall>(now, token)\<in>set (registered G pass calls k'). now \<in> set (map fst calls) \<and> asked_for as now token"
    using Cons.IH by blast
  from admit_world [OF r] show ?case
  proof (elim disjE conjE exE)
    assume b: "\<not> b" "k' = pass (ad_now_ms a) k"
    let ?calls = "(ad_now_ms a, None) # calls"
    have "registered G pass ?calls k = registered G pass calls k'" using b(2) by simp
    moreover have "admissions G pass (a # as) k = admissions G pass as k'" using r b(1) by simp
    ultimately show ?thesis
      using calls asked_for_Cons by (intro exI [of _ ?calls]) auto
  next
    fix p
    assume p: "ad_psk a = Some p" "gd_register G (ak_binder p) (pass (ad_now_ms a) k) = (b, k')"
      "ti_issued_at_ms (ak_ticket p) \<le> ad_now_ms a" "\<not> expired (ti_issued_at_ms (ak_ticket p)) (ad_now_ms a)"
    let ?calls = "(ad_now_ms a, Some (ak_binder p)) # calls"
    have "registered G pass ?calls k = (if b then [(ad_now_ms a, ak_binder p)] else []) @ registered G pass calls k'" using p(2) by simp
    moreover have "admissions G pass (a # as) k = (if b then [ak_binder p] else []) @ admissions G pass as k'"
      using r [unfolded p(1)] p(1) by simp
    moreover have "asked_for (a # as) (ad_now_ms a) (ak_binder p)" using p(1,3,4) by (auto simp: asked_for_def)
    ultimately show ?thesis
      using calls asked_for_Cons by (intro exI [of _ ?calls]) auto
  qed
qed

text \<open>
  C20.  No replay of early data.  Whatever the connections that share a replay store present, in whatever order, with
  a clock that does not run backwards, and where one binder always comes with tickets of one issue time: no binder is admitted twice.  The store need
  only keep its contract, so it may forget a token \<open>TICKET_LIFETIME_SECS\<close> after it took it; by then the ticket is too old.
\<close>

theorem early_data_single_use:
  assumes "guard_ok G pass k" and "sorted (map ad_now_ms as)"
    and "\<forall>a\<in>set as. \<forall>b\<in>set as. \<forall>p q. ad_psk a = Some p \<and> ad_psk b = Some q \<and> ak_binder p = ak_binder q \<longrightarrow>
      ti_issued_at_ms (ak_ticket p) = ti_issued_at_ms (ak_ticket q)"
  shows "distinct (admissions G pass as k)"
proof -
  obtain calls where calls: "map fst calls = map ad_now_ms as" "admissions G pass as k = map snd (registered G pass calls k)"
      "\<forall>(now, token)\<in>set (registered G pass calls k). now \<in> set (map fst calls) \<and> asked_for as now token"
    using admissions_asked [of as G pass k] by blast
  let ?R = "registered G pass calls k"
  have wrt: "sorted_wrt (\<lambda>(since, t) (now, t'). t = t' \<longrightarrow> expired since now) ?R"
    using assms(1,2) calls(1) by (simp add: guard_ok_def)
  have apart: False if mem: "x \<in> set ?R" "y \<in> set ?R" and same: "snd x = snd y" and old: "expired (fst x) (fst y)" for x y
  proof -
    have "asked_for as (fst x) (snd x)" "asked_for as (fst y) (snd y)" using calls(3) mem by auto
    then obtain a b p q where ab: "a \<in> set as" "b \<in> set as" "ad_psk a = Some p" "ad_psk b = Some q" "ak_binder p = snd x" "ak_binder q = snd y"
        "ti_issued_at_ms (ak_ticket p) \<le> fst x" "\<not> expired (ti_issued_at_ms (ak_ticket q)) (fst y)"
      unfolding asked_for_def by blast
    moreover have "ti_issued_at_ms (ak_ticket p) = ti_issued_at_ms (ak_ticket q)"
      using assms(3) ab same by auto
    ultimately show False using old by (auto simp: expired_def word_le_nat_alt)
  qed
  have "sorted_wrt (\<lambda>x y. snd x \<noteq> snd y) ?R"
    by (rule sorted_wrt_mono_rel [OF _ wrt]) (use apart in fastforce)
  then have "sorted_wrt (\<noteq>) (map snd ?R)" by (simp add: sorted_wrt_map)
  then show ?thesis unfolding calls(2) by (simp add: distinct_iff_sorted_wrt)
qed

text \<open>A store that forgets its tokens as soon as it may.\<close>

definition forgetful_guard :: "(u64 \<times> (bytes \<times> u64) list) guard" where
  "forgetful_guard =
     \<lparr>gd_accepts_early_data = True,
      gd_register = (\<lambda>t (clock, kept). if t \<in> fst ` set kept then (False, clock, kept) else (True, clock, (t, clock) # kept))\<rparr>"

fun forget :: "u64 \<Rightarrow> u64 \<times> (bytes \<times> u64) list \<Rightarrow> u64 \<times> (bytes \<times> u64) list" where
  "forget now (clock, kept) = (now, filter (\<lambda>(t, since). \<not> expired since now) kept)"

lemma expired_mono: "expired since now \<Longrightarrow> now \<le> later \<Longrightarrow> expired since later"
  by (simp add: expired_def word_le_nat_alt)

lemma registered_times: "\<forall>(now, t)\<in>set (registered G pass calls k). now \<in> fst ` set calls"
proof (induction calls arbitrary: k)
  case (Cons call calls)
  obtain now o1 where "call = (now, o1)" by fastforce
  with Cons.IH show ?case by (cases o1) (fastforce split: prod.splits)+
qed simp

lemma forgetful_registered:
  assumes "sorted (map fst calls)"
  shows "sorted_wrt (\<lambda>(since, t) (now, t'). t = t' \<longrightarrow> expired since now) (registered forgetful_guard forget calls (clock, kept)) \<and>
    (\<forall>(t, since)\<in>set kept. \<forall>(now, t')\<in>set (registered forgetful_guard forget calls (clock, kept)). t = t' \<longrightarrow> expired since now)"
  using assms
proof (induction calls arbitrary: clock kept)
  case (Cons call calls)
  obtain now o1 where call: "call = (now, o1)" by fastforce
  let ?kept = "filter (\<lambda>(t, since). \<not> expired since now) kept"
  have later: "now \<le> now'" if "(now', t) \<in> set (registered forgetful_guard forget calls k)" for now' t k
    using registered_times [of forgetful_guard forget calls k] that Cons.prems by (auto simp: call)
  note IH = Cons.IH [of now]
  show ?case
  proof (cases o1)
    case None
    with IH [of ?kept] Cons.prems later show ?thesis by (fastforce simp: call intro: expired_mono)
  next
    case (Some t)
    show ?thesis
    proof (cases "t \<in> fst ` set ?kept")
      case True
      then have "registered forgetful_guard forget (call # calls) (clock, kept) = registered forgetful_guard forget calls (now, ?kept)"
        by (simp add: call Some forgetful_guard_def)
      with IH [of ?kept] Cons.prems later show ?thesis by (fastforce simp: call intro: expired_mono)
    next
      case False
      then have run: "registered forgetful_guard forget (call # calls) (clock, kept) =
          (now, t) # registered forgetful_guard forget calls (now, (t, now) # ?kept)"
        by (simp add: call Some forgetful_guard_def)
      have fresh: "expired since now" if "(t, since) \<in> set kept" for since using that False by force
      from IH [of "(t, now) # ?kept"] Cons.prems later fresh show ?thesis unfolding run by (fastforce simp: call intro: expired_mono)
    qed
  qed
qed simp

lemma forgetful_guard_ok: "guard_ok forgetful_guard forget k"
  using forgetful_registered by (cases k) (auto simp: guard_ok_def)

theorem early_data_single_use_witness:
  "let a = \<lparr>ad_offered = Some (), ad_psk = Some sample_psk, ad_suite = Some Aes128GcmSha256,
            ad_now_ms = 4000, ad_state = early_data_new\<rparr>;
       as = [a, a\<lparr>ad_now_ms := 5000\<rparr>, a\<lparr>ad_now_ms := 8000000\<rparr>] in
   admissions forgetful_guard forget as (0, []) = [[1]] \<and> snd (forget 8000000 (5000, [([1], 4000)])) = [] \<and>
   distinct (admissions forgetful_guard forget as (0, []))"
proof -
  let ?a = "\<lparr>ad_offered = Some (), ad_psk = Some sample_psk, ad_suite = Some Aes128GcmSha256,
            ad_now_ms = 4000, ad_state = early_data_new\<rparr>"
  let ?as = "[?a, ?a\<lparr>ad_now_ms := 5000\<rparr>, ?a\<lparr>ad_now_ms := 8000000\<rparr>]"
  have "distinct (admissions forgetful_guard forget ?as (0, []))"
    by (rule early_data_single_use [OF forgetful_guard_ok]) auto
  moreover have "admissions forgetful_guard forget ?as (0, []) = [[1]]"
    by (simp add: admit_def forgetful_guard_def sample_psk_def early_data_new_def u64_abs_diff_def TICKET_LIFETIME_MS_def
        TICKET_LIFETIME_SECS_def MAX_TICKET_AGE_SKEW_MS_def expired_def)
  moreover have "snd (forget 8000000 (5000, [([1], 4000)])) = []" by (simp add: expired_def TICKET_LIFETIME_SECS_def)
  ultimately show ?thesis unfolding Let_def by blast
qed

end
