(* ===== verification/ServerHandshake.thy ===== *)
theory ServerHandshake
  imports ServerSession
begin

section \<open>The server's handshake handlers\<close>

text \<open>
  \<open>server/session/\<close>: \<open>retry.rs\<close> (sending a HelloRetryRequest), \<open>resumption.rs\<close>, \<open>hello.rs\<close>,
  \<open>authentication.rs\<close> and \<open>drive.rs\<close>.  Every handler is a function of the session and the
  outside world.  \<open>env\<close> collects what lies outside the crate: \<open>ring\<close>'s primitives, \<open>ml-kem\<close>, the
  fixed-capacity vector of \<open>o3\<close>, the Unicode tables, and the connection's clock.  \<open>handle_client_hello\<close>
  is divided into the definitions below at the points where the source starts a new
  paragraph; they are composed in the source's order.
\<close>

record 'k env =
  en_crypto :: crypto
  en_ci8 :: "u8 copy_inline"
  en_ci16 :: "u16 copy_inline"
  en_kx :: "'k kx_ops"
  en_sign :: "'k sign_ops"
  en_aead :: ring_aead
  en_verify :: ring_verify
  en_unicode :: unicode
  en_clock :: "'k \<Rightarrow> u64 \<times> 'k"

record 'k authority =
  au_source :: cert_source
  au_alpn :: prepared_alpn
  au_ticket_keys :: "ticket_keys option"
  au_guard :: "'k guard"
  au_client_auth :: "client_auth option"
  au_verifier :: "'k client_verifier"
  au_replay_domain :: bytes
  au_flight :: flight_profile

type_synonym ('k, 'e, 'a) handler = "(session \<times> 'k, 'e drive_error, 'a) eff"

definition clockS :: "'k env \<Rightarrow> (session \<times> 'k, 'e, u64) eff" where
  "clockS N = worldS (\<lambda>k. case en_clock N k of (now, k') \<Rightarrow> (Inr now, k'))"

text \<open>Append one message to the flight and absorb it into the transcript.\<close>

definition send_message :: "bounded_buffer writer \<Rightarrow> ('k, 'e, unit) handler" where
  "send_message w =
     bindS (flight_lenS flight_lens) (\<lambda>start.
     seqS (encodeS flight_lens w)
     (bindS (flight_fromS flight_lens start) (\<lambda>bs. updS (absorb bs))))"

subsection \<open>HelloRetryRequest\<close>

definition hello_retry_writer :: "bytes \<Rightarrow> cipher_suite \<Rightarrow> kex_group \<Rightarrow> bounded_buffer writer" where
  "hello_retry_writer session_id_echo suite request_group =
     seq_w [emit (put_u8 E_bb (hs_type_u8 TServerHello)),
       framed_u24 E_bb (seq_w
         [emit (put_u16 E_bb TLS_1_2), emit (put_slice E_bb HELLO_RETRY_REQUEST_RANDOM),
          framed_u8 E_bb (emit (put_slice E_bb session_id_echo)),
          emit (put_u16 E_bb (cipher_suite_wire_id suite)), emit (put_u8 E_bb 0),
          framed_u16 E_bb (seq_w
            [extension_begin E_bb SUPPORTED_VERSIONS (emit (put_u16 E_bb TLS_1_3)),
             extension_begin E_bb KEY_SHARE (emit (put_u16 E_bb (kex_group_wire_id request_group)))])])]"

definition send_hello_retry_request ::
    "'k env \<Rightarrow> ('k, 'e, 't) sink \<Rightarrow> bytes \<Rightarrow> bytes \<Rightarrow> kex_group \<Rightarrow> hello_invariant \<Rightarrow> ('k, 'e, unit) handler" where
  "send_hello_retry_request N K client_hello session_id_echo request_group captured =
     bindS (askS suite_of) (\<lambda>suite_context.
     bindS (tryS (\<lambda>e. e) (ok_or UnsupportedCipherSuite suite_context)) (\<lambda>suite.
     with_flight K flight_lens suite_context PlaintextEpoch (
       seqS (encodeS flight_lens (hello_retry_writer session_id_echo suite request_group)) (
       bindS (askS sn_application) (\<lambda>app.
       bindS (tryS (\<lambda>e. e) (application_hash_alg app)) (\<lambda>algorithm.
       seqS (updS (absorb client_hello)) (
       bindS (protS (transcript_hashS (en_crypto N) algorithm)) (\<lambda>client_hello_hash.
       bindS (tryS error_of_transcript (restart_with_message_hash algorithm client_hello_hash)) (\<lambda>t.
       seqS (updS (\<lambda>s. s\<lparr>sn_handshake := (sn_handshake s)\<lparr>hk_transcript := t\<rparr>\<rparr>)) (
       bindS (flight_fromS flight_lens 0) (\<lambda>bs.
       seqS (updS (absorb bs))
       (updS (\<lambda>s. s\<lparr>sn_handshake := (sn_handshake s)\<lparr>hk_hrr_done := True, hk_hrr_invariant := Some captured\<rparr>\<rparr>)))))))))))))"

subsection \<open>Resumption\<close>

definition try_accept_psk ::
    "'k env \<Rightarrow> tail \<Rightarrow> ticket_keys option \<Rightarrow> bytes option \<Rightarrow> bytes \<Rightarrow> (session \<times> 'k, conn_error, accepted_psk option) eff" where
  "try_accept_psk N offer keys selected_alpn replay_domain =
     (case keys of
        None \<Rightarrow> retS None
      | Some keys \<Rightarrow>
          bindS (clockS N) (\<lambda>now.
          case keys_decrypt_resumption (en_ci8 N) (en_aead N) (of_identity (tail_first offer))
                 (case selected_alpn of None \<Rightarrow> [] | Some p \<Rightarrow> p) keys of
            Inl _ \<Rightarrow> retS None
          | Inr opened \<Rightarrow>
              if \<not> issued_at_is_resumable (or_issued_at_ms opened) now then retS None
              else
                let bind = of_binder (tail_first offer) in
                if length bind \<noteq> 32 then failS BadPskBinder
                else bindS (askS (\<lambda>s. s)) (\<lambda>s.
                  let accepted =
                    \<lparr>ak_psk = or_psk opened,
                     ak_ticket =
                       \<lparr>ti_age_add = or_age_add opened, ti_issued_at_ms = or_issued_at_ms opened,
                        ti_suite = or_suite opened, ti_obfuscated_age = of_obfuscated_ticket_age (tail_first offer),
                        ti_max_early_data =
                          early_data_for_replay_domain (en_crypto N) (sn_transport_mode s)
                            (cc_transport_params (sn_connection s)) replay_domain (or_context opened)\<rparr>,
                     ak_binder = bind, ak_alpn_matches = or_alpn_matches opened\<rparr>;
                    t = transcript_update (tail_transcript_prefix offer) (transcript_fork (hk_transcript (sn_handshake s))) in
                  bindS (liftS (map_err error_of_transcript (transcript_hash (en_crypto N) RESUMPTION_HASH t))) (\<lambda>partial_hash.
                  bindS (liftS (map_err error_of_hkdf
                      (resumption_binder (en_crypto N) (ak_psk accepted) (as_slice partial_hash)))) (\<lambda>expected.
                  if length expected \<noteq> length bind \<or> expected \<noteq> bind then failS BadPskBinder
                  else retS (Some accepted))))))"

definition new_session_ticket_writer :: "u32 \<Rightarrow> bytes \<Rightarrow> bytes \<Rightarrow> u32 option \<Rightarrow> bounded_buffer writer" where
  "new_session_ticket_writer age_add ticket_nonce1 ticket1 max_early_data =
     seq_w [emit (put_u8 E_bb (hs_type_u8 TNewSessionTicket)),
       framed_u24 E_bb (seq_w
         [emit (put_u32 E_bb TICKET_LIFETIME_SECS), emit (put_u32 E_bb age_add),
          framed_u8 E_bb (emit (put_slice E_bb ticket_nonce1)), framed_u16 E_bb (emit (put_slice E_bb ticket1)),
          framed_u16 E_bb
            (case max_early_data of None \<Rightarrow> skip_w
             | Some maximum \<Rightarrow> extension_begin E_bb EARLY_DATA (emit (put_u32 E_bb maximum)))])]"

text \<open>Sealing a ticket draws its nonce from the random source once the length of the ALPN name is accepted.\<close>

definition seal_ticket :: "'k env \<Rightarrow> claims \<Rightarrow> ticket_keys \<Rightarrow> (session \<times> 'k, conn_error, bytes) eff" where
  "seal_ticket N cl keys = worldS (\<lambda>k.
     if length (cl_alpn cl) > MAX_ALPN_LEN then (Inl RngErr, k)
     else case rng_fill (en_kx N) TICKET_NONCE_LEN k of
       (draw, k') \<Rightarrow> (map_err (\<lambda>_. RngErr) (keys_encrypt_claims (en_ci8 N) (en_aead N) draw cl keys), k'))"

definition emit_session_ticket :: "'k env \<Rightarrow> ('k, 'e, 't) sink \<Rightarrow> 'k authority \<Rightarrow> ('k, 'e, unit) handler" where
  "emit_session_ticket N K A =
     bindS (askS (\<lambda>s. ap_master (sn_application s))) (\<lambda>m.
     case m of None \<Rightarrow> retS ()
     | Some master \<Rightarrow>
         if sched_alg master \<noteq> RESUMPTION_HASH then retS ()
         else
         bindS (clockS N) (\<lambda>issued_at_ms.
         bindS (protS (transcript_hashS (en_crypto N) RESUMPTION_HASH)) (\<lambda>h_cf.
         bindS (tryS error_of_hkdf (resumption_master_secret (en_crypto N) (as_slice h_cf) master)) (\<lambda>rms.
         bindS (protS (rngS (en_kx N) 8)) (\<lambda>nonce.
         bindS (protS (rngS (en_kx N) 4)) (\<lambda>age_add_bytes.
         let age_add = word_of_nat (be_nat age_add_bytes) in
         bindS (tryS error_of_hkdf (resumption_psk (en_crypto N) rms nonce)) (\<lambda>psk.
         bindS (askS (\<lambda>s. s)) (\<lambda>s.
         let alpn1 = (case peer_selected_alpn (sn_peer s) (au_alpn A) of None \<Rightarrow> [] | Some p \<Rightarrow> p) in
         bindS (tryS (\<lambda>e. e) (ok_or UnexpectedMessage (suite_of s))) (\<lambda>suite.
         let max_early_data = advertised_size (sn_transport_mode s) (pr_early_data (sn_peer s));
             context1 = context_new_with_replay_domain (en_crypto N) (sn_transport_mode s) max_early_data
               (cc_transport_params (sn_connection s)) (au_replay_domain A) in
         case au_ticket_keys A of
           None \<Rightarrow> retS ()
         | Some keys \<Rightarrow>
             bindS (protS (seal_ticket N
                 \<lparr>cl_psk = psk, cl_age_add = age_add, cl_issued_at_ms = issued_at_ms, cl_suite = suite,
                  cl_alpn = alpn1, cl_context = context1\<rparr> keys)) (\<lambda>ticket1.
             with_flight K flight_lens (suite_of s) ApplicationEpoch
               (encodeS flight_lens (new_session_ticket_writer age_add nonce ticket1 max_early_data))))))))))))"

definition handle_client_finished ::
    "'k env \<Rightarrow> ('k, 'e, 't) sink \<Rightarrow> 'k authority \<Rightarrow> bytes \<Rightarrow> bytes \<Rightarrow> secret \<Rightarrow> ('k, 'e, unit) handler" where
  "handle_client_finished N K A f raw expected =
     (if \<not> verify_data_ct_eq expected f then failS (Protocol BadFinished)
      else
        seqS (updS (\<lambda>s. s\<lparr>sn_peer := (sn_peer s)\<lparr>pr_early_data := early_data_close (pr_early_data (sn_peer s))\<rparr>\<rparr>))
        (seqS (updS (absorb raw))
        (bindS (askS suite_of) (\<lambda>suite.
        seqS (emitS K suite EvDone)
        (seqS (updS (set_state Done))
        (emit_session_ticket N K A))))))"

subsection \<open>ClientHello: checks\<close>

definition check_session_id :: "mode \<Rightarrow> bytes \<Rightarrow> conn_error + unit" where
  "check_session_id m sid =
     (if uses_legacy_session_id m then (if length sid > 32 then Inl DecodeErr else Inr ())
      else if sid \<noteq> [] then Inl IllegalParameter else Inr ())"

text \<open>
  The search of the versions may not end for a list of odd length (\<open>supported_versions_contains\<close> is then \<open>None\<close>); after \<open>decode_client\<close>,
  which accepts even lengths only, it always does, so that \<open>\<noteq> Some True\<close> below is \<open>Some False\<close>.
\<close>

definition check_versions :: "bytes \<Rightarrow> conn_error + unit" where
  "check_versions extensions =
     and_then (ok_or MissingExtension (extensions_find SUPPORTED_VERSIONS extensions)) (\<lambda>sv.
     and_then (map_err error_of_decode (supported_versions_decode_client (ext_data sv))) (\<lambda>versions.
     if supported_versions_contains versions TLS_1_3 \<noteq> Some True then Inl BadVersion else Inr ()))"

definition check_signatures :: "signature_scheme \<Rightarrow> bytes \<Rightarrow> conn_error + unit" where
  "check_signatures local extensions =
     and_then (ok_or MissingExtension (extensions_find SIGNATURE_ALGORITHMS extensions)) (\<lambda>sigs.
     and_then (map_err error_of_decode (signature_algorithms_accepts (ext_data sigs) (Some local))) (\<lambda>accepted.
     if \<not> accepted then Inl UnsupportedSigScheme else Inr ()))"

definition check_transport :: "mode \<Rightarrow> bytes option \<Rightarrow> conn_error + unit" where
  "check_transport m parameters =
     (case (m, parameters) of
        (Quic, None) \<Rightarrow> Inl MissingExtension
      | (Tls, Some _) \<Rightarrow> Inl UnsolicitedExtension
      | _ \<Rightarrow> Inr ())"

definition transcript_selectS :: "algorithm \<Rightarrow> session \<Rightarrow> (conn_error + unit) \<times> session" where
  "transcript_selectS a s =
     (case transcript_select a (hk_transcript (sn_handshake s)) of
        (r, t) \<Rightarrow> (map_err error_of_transcript r, s\<lparr>sn_handshake := (sn_handshake s)\<lparr>hk_transcript := t\<rparr>\<rparr>))"

definition hello_checks ::
    "'k env \<Rightarrow> 'k authority \<Rightarrow> client_hello_ref \<Rightarrow> bytes \<Rightarrow> (session \<times> 'k, conn_error, client_hello_offers \<times> cipher_suite) eff" where
  "hello_checks N A ch raw =
     seqS (requireS (chr_legacy_version ch = TLS_1_2) IllegalParameter) (
     bindS (liftS (offers_parse (chr_extensions ch) raw)) (\<lambda>offers.
     bindS (askS (\<lambda>s. s)) (\<lambda>s.
     seqS (liftS (case hk_hrr_invariant (sn_handshake s) of
         None \<Rightarrow> Inr () | Some captured \<Rightarrow> invariant_validate (en_crypto N) captured ch (off_kx offers))) (
     bindS (liftS (ok_or UnsupportedCipherSuite
         (List.find (\<lambda>suite. u16_list_contains (chr_cipher_suites ch) (cipher_suite_wire_id suite)) SUPPORTED_SUITES))) (\<lambda>selected_suite.
     seqS (sesS (transcript_selectS (hash_alg selected_suite))) (
     seqS (sesS (on_traffic (traffic_select selected_suite))) (
     seqS (requireS (chr_legacy_compression_methods ch = [0]) IllegalParameter) (
     seqS (liftS (check_session_id (sn_transport_mode s) (chr_legacy_session_id ch))) (
     seqS (liftS (check_versions (chr_extensions ch))) (
     seqS (liftS (check_signatures (sig_scheme (source_signing_key (au_source A))) (chr_extensions ch))) (
     seqS (liftS (check_transport (sn_transport_mode s) (off_quic_transport_parameters offers)))
     (retS (offers, selected_suite)))))))))))))"

subsection \<open>ClientHello: resumption and early data\<close>

definition select_protocol ::
    "('k, 'e, 't) sink \<Rightarrow> 'k authority \<Rightarrow> client_hello_offers \<Rightarrow> ('k, 'e, unit) handler" where
  "select_protocol K A offers =
     bindS (tryS (\<lambda>e. e) (select_alpn offers (au_alpn A))) (\<lambda>selected.
     seqS (updS (\<lambda>s. s\<lparr>sn_peer := (sn_peer s)\<lparr>pr_selected_alpn := selected\<rparr>\<rparr>))
     (case off_quic_transport_parameters offers of
        None \<Rightarrow> retS ()
      | Some parameters \<Rightarrow>
          bindS (askS suite_of) (\<lambda>suite. emitS K suite (EvPeerExtension QUIC_TRANSPORT_PARAMETERS parameters))))"

definition admitS ::
    "'k authority \<Rightarrow> unit option \<Rightarrow> accepted_psk option \<Rightarrow> u64 \<Rightarrow> (session \<times> 'k, 'e, bool) eff" where
  "admitS A offered psk now = (\<lambda>(s, k).
     case admit (au_guard A) offered psk (suite_of s) now (pr_early_data (sn_peer s)) k of
       (b, ed, k) \<Rightarrow> (Inr b, (s\<lparr>sn_peer := (sn_peer s)\<lparr>pr_early_data := ed\<rparr>\<rparr>, k)))"

definition resume_hello ::
    "'k env \<Rightarrow> ('k, 'e, 't) sink \<Rightarrow> 'k authority \<Rightarrow> client_hello_offers \<Rightarrow> algorithm \<Rightarrow> bytes \<Rightarrow>
     ('k, 'e, accepted_psk option \<times> bool) handler" where
  "resume_hello N K A offers algorithm raw =
     bindS (case (algorithm = RESUMPTION_HASH, off_psk offers) of
         (True, Some psk) \<Rightarrow>
           bindS (askS (\<lambda>s. peer_selected_alpn (sn_peer s) (au_alpn A))) (\<lambda>selected_alpn.
           protS (try_accept_psk N psk (au_ticket_keys A) selected_alpn (au_replay_domain A)))
       | _ \<Rightarrow> retS None) (\<lambda>psk_accepted.
     bindS (clockS N) (\<lambda>now.
     bindS (admitS A (off_early_data offers) psk_accepted now) (\<lambda>early_accepted.
     seqS (updS (absorb raw)) (
     seqS (case (psk_accepted, early_accepted) of
         (Some p, True) \<Rightarrow>
           bindS (protS (transcript_hashS (en_crypto N) RESUMPTION_HASH)) (\<lambda>h_ch.
           bindS (tryS error_of_hkdf (client_early_traffic_secret (en_crypto N) (ak_psk p) (as_slice h_ch))) (\<lambda>cets.
           bindS (askS (\<lambda>s. s)) (\<lambda>s.
           bindS (tryS (\<lambda>e. e) (ok_or UnexpectedMessage (ti_max_early_data (ak_ticket p)))) (\<lambda>max_early_data.
           emitS K (suite_of s) (EvZeroRttKeysReady cets max_early_data (peer_selected_alpn (sn_peer s) (au_alpn A)))))))
       | _ \<Rightarrow> retS ())
     (retS (psk_accepted, early_accepted))))))"

subsection \<open>ClientHello: ServerHello\<close>

text \<open>
  The share is written into the slice \<open>reserve_slice\<close> lends.  When \<open>respond\<close> fails the slice's contents do not
  matter: the frames around it are rolled back and the flight is dropped.
\<close>

definition respondS :: "'k env \<Rightarrow> kex_group \<Rightarrow> bytes \<Rightarrow> ('k, 'e, shared_secret) handler" where
  "respondS N grp peer_pubkey = (\<lambda>(s, k).
     let n = server_share_len grp in
     case bb_reserve_encoded n (lens_get flight_lens s) of
       (False, b) \<Rightarrow> (Inl (Protocol (error_of_encode Capacity)), (lens_put flight_lens b s, k))
     | (True, b) \<Rightarrow>
         (case kex_respond (en_kx N) grp peer_pubkey n k of
            (Inl _, k) \<Rightarrow> (Inl (Protocol KxErr), (lens_put flight_lens (b\<lparr>bb_bytes := bb_bytes b @ replicate n 0\<rparr>) s, k))
          | (Inr (out, dhe), k) \<Rightarrow> (Inr dhe, (lens_put flight_lens (b\<lparr>bb_bytes := bb_bytes b @ out\<rparr>) s, k))))"

definition server_hello_body ::
    "'k env \<Rightarrow> bytes \<Rightarrow> bytes \<Rightarrow> cipher_suite \<Rightarrow> kex_group \<Rightarrow> bytes \<Rightarrow> bool \<Rightarrow> ('k, 'e, shared_secret) handler" where
  "server_hello_body N server_random session_id suite grp peer_pubkey psk_accepted =
     seqS (putS flight_lens (put_u8 E_bb (hs_type_u8 TServerHello))) (
     framedS_u24 flight_lens (
       seqS (encodeS flight_lens (seq_w
         [emit (put_u16 E_bb TLS_1_2), emit (put_slice E_bb server_random),
          framed_u8 E_bb (emit (put_slice E_bb session_id)),
          emit (put_u16 E_bb (cipher_suite_wire_id suite)), emit (put_u8 E_bb 0)])) (
       framedS_u16 flight_lens (
         seqS (encodeS flight_lens (extension_begin E_bb SUPPORTED_VERSIONS (emit (put_u16 E_bb TLS_1_3)))) (
         bindS (seqS (putS flight_lens (put_u16 E_bb KEY_SHARE)) (
           framedS_u16 flight_lens (
             seqS (putS flight_lens (put_u16 E_bb (kex_group_wire_id grp)))
             (framedS_u16 flight_lens (respondS N grp peer_pubkey))))) (\<lambda>dhe.
         seqS (whenS psk_accepted
           (encodeS flight_lens (extension_begin E_bb PRE_SHARED_KEY (emit (put_u16 E_bb 0)))))
         (retS dhe)))))))"

definition send_server_hello ::
    "'k env \<Rightarrow> ('k, 'e, 't) sink \<Rightarrow> client_hello_ref \<Rightarrow> cipher_suite \<Rightarrow> peer_share \<Rightarrow> bool \<Rightarrow> ('k, 'e, shared_secret) handler" where
  "send_server_hello N K ch suite share psk_accepted =
     bindS (protS (rngS (en_kx N) RANDOM_LEN)) (\<lambda>server_random.
     bindS (askS suite_of) (\<lambda>suite_context.
     with_flight K flight_lens suite_context PlaintextEpoch (
       bindS (server_hello_body N server_random (chr_legacy_session_id ch) suite (ps_group share) (ps_key_exchange share)
           psk_accepted) (\<lambda>dhe.
       bindS (flight_fromS flight_lens 0) (\<lambda>bs.
       seqS (updS (absorb bs)) (retS dhe))))))"

definition handshake_keys ::
    "'k env \<Rightarrow> ('k, 'e, 't) sink \<Rightarrow> algorithm \<Rightarrow> accepted_psk option \<Rightarrow> shared_secret \<Rightarrow>
     ('k, 'e, schedule \<times> secret \<times> secret) handler" where
  "handshake_keys N K algorithm psk_accepted dhe =
     (let C = en_crypto N in
     bindS (tryS error_of_hkdf (case psk_accepted of
         Some p \<Rightarrow> schedule_into_handshake C (shared_as_slice dhe) (schedule_new_psk C RESUMPTION_HASH (ak_psk p))
       | None \<Rightarrow> schedule_into_handshake C (shared_as_slice dhe) (schedule_new C algorithm))) (\<lambda>ks.
     bindS (protS (transcript_hashS C algorithm)) (\<lambda>h_chsh.
     bindS (tryS error_of_hkdf (client_handshake_traffic_secret C (as_slice h_chsh) ks)) (\<lambda>c_hs.
     bindS (tryS error_of_hkdf (server_handshake_traffic_secret C (as_slice h_chsh) ks)) (\<lambda>s_hs.
     bindS (askS suite_of) (\<lambda>suite.
     seqS (emitS K suite (EvKeysReady HandshakeEpoch c_hs s_hs))
     (retS (ks, c_hs, s_hs))))))))"

subsection \<open>ClientHello: the server's flight\<close>

definition encrypted_extensions_writer ::
    "session \<Rightarrow> 'k authority \<Rightarrow> client_hello_offers \<Rightarrow> negotiation \<Rightarrow> bool \<Rightarrow> bounded_buffer writer" where
  "encrypted_extensions_writer s A offers negotiated early_accepted =
     seq_w [emit (put_u8 E_bb (hs_type_u8 TEncryptedExtensions)),
       framed_u24 E_bb (framed_u16 E_bb (seq_w
         [if off_server_cert_types offers \<noteq> None
          then extension_begin E_bb SERVER_CERTIFICATE_TYPE
            (emit (put_u8 E_bb (certificate_type_wire_id (ng_server_type negotiated)))) else skip_w,
          if off_client_cert_types offers \<noteq> None
          then extension_begin E_bb CLIENT_CERTIFICATE_TYPE
            (emit (put_u8 E_bb (certificate_type_wire_id (ng_client_type negotiated)))) else skip_w,
          if is_quic (sn_transport_mode s)
          then extension_begin E_bb QUIC_TRANSPORT_PARAMETERS
            (emit (put_slice E_bb (cc_transport_params (sn_connection s)))) else skip_w,
          case peer_selected_alpn (sn_peer s) (au_alpn A) of
            None \<Rightarrow> skip_w
          | Some protocol \<Rightarrow>
              extension_begin E_bb APPLICATION_LAYER_PROTOCOL_NEGOTIATION
                (framed_u16 E_bb (framed_u8 E_bb (emit (put_slice E_bb protocol)))),
          if early_accepted then extension_begin E_bb EARLY_DATA skip_w else skip_w]))]"

definition certificate_request_writer :: "bounded_buffer writer" where
  "certificate_request_writer =
     seq_w [emit (put_u8 E_bb (hs_type_u8 TCertificateRequest)),
       framed_u24 E_bb (seq_w
         [framed_u8 E_bb skip_w,
          framed_u16 E_bb (extension_begin E_bb SIGNATURE_ALGORITHMS
            (framed_u16 E_bb (for_each_w (\<lambda>a. emit (put_u16 E_bb (wire_id a))) signature_algorithms_x509)))])]"

definition certificate_entry_writer :: "bytes \<Rightarrow> bounded_buffer writer" where
  "certificate_entry_writer der =
     seq_w [framed_u24 E_bb (emit (put_slice E_bb der)), framed_u16 E_bb skip_w]"

text \<open>The bytes of a raw public key, computed before the message is started.\<close>

definition raw_public_key_of :: "cert_source \<Rightarrow> conn_error + bytes option" where
  "raw_public_key_of source =
     (case source of
        SourceRawPublicKey key \<Rightarrow> and_then (ok_or SigErr (pubkey key)) (\<lambda>p. Inr (Some (encoded_ed25519 p)))
      | SourceX509 _ _ \<Rightarrow> Inr None)"

definition certificate_writer :: "cert_source \<Rightarrow> bytes option \<Rightarrow> bounded_buffer writer" where
  "certificate_writer source raw_public_key =
     seq_w [emit (put_u8 E_bb (hs_type_u8 TCertificate)),
       framed_u24 E_bb (seq_w
         [framed_u8 E_bb skip_w,
          framed_u24 E_bb
            (case (source, raw_public_key) of
               (SourceRawPublicKey _, Some public_key) \<Rightarrow> certificate_entry_writer public_key
             | (SourceX509 chain_der _, _) \<Rightarrow> for_each_w certificate_entry_writer chain_der
             | (SourceRawPublicKey _, None) \<Rightarrow> (\<lambda>b. (Inl Overflow, b)))])]"

definition send_authentication ::
    "'k env \<Rightarrow> 'k authority \<Rightarrow> algorithm \<Rightarrow> ('k, 'e, unit) handler" where
  "send_authentication N A algorithm =
     bindS (tryS (\<lambda>e. e) (raw_public_key_of (au_source A))) (\<lambda>raw_public_key.
     seqS (send_message (certificate_writer (au_source A) raw_public_key)) (
     bindS (protS (transcript_hashS (en_crypto N) algorithm)) (\<lambda>h_pre_cv.
     bindS (tryS error_of_encode (certificate_verify_message (en_ci8 N) (as_slice h_pre_cv) True)) (\<lambda>cv_msg.
     bindS (worldS (\<lambda>k. case sign_fixed (en_ci8 N) (en_sign N) (source_signing_key (au_source A)) cv_msg k of
         (r, k) \<Rightarrow> (map_err (\<lambda>_. Protocol SigErr) r, k))) (\<lambda>sig.
     send_message (frame_encode_certificate_verify E_bb (sig_scheme (source_signing_key (au_source A))) sig))))))"

definition send_server_flight ::
    "'k env \<Rightarrow> ('k, 'e, 't) sink \<Rightarrow> 'k authority \<Rightarrow> client_hello_offers \<Rightarrow> algorithm \<Rightarrow> cipher_suite option \<Rightarrow> secret \<Rightarrow>
     bool \<Rightarrow> bool \<Rightarrow> ('k, 'e, unit) handler" where
  "send_server_flight N K A offers algorithm suite_context s_hs psk_accepted early_accepted =
     bindS (tryS (\<lambda>e. e) (negotiation_new offers (au_source A))) (\<lambda>negotiated.
     seqS (updS (\<lambda>s. s\<lparr>sn_peer := (sn_peer s)\<lparr>pr_client_cert_type := ng_client_type negotiated\<rparr>\<rparr>)) (
     with_flight K flight_lens suite_context HandshakeEpoch (
       bindS (askS (\<lambda>s. s)) (\<lambda>s.
       seqS (send_message (encrypted_extensions_writer s A offers negotiated early_accepted)) (
       seqS (whenS (\<not> psk_accepted \<and> au_client_auth A \<noteq> None) (send_message certificate_request_writer)) (
       seqS (whenS (\<not> psk_accepted) (send_authentication N A algorithm)) (
       bindS (protS (transcript_hashS (en_crypto N) algorithm)) (\<lambda>h_pre_sf.
       bindS (tryS error_of_hkdf (finished_verify_data (en_crypto N) algorithm (as_slice s_hs) (as_slice h_pre_sf))) (\<lambda>sf_data.
       send_message (frame_encode_finished E_bb (as_slice sf_data)))))))))))"

subsection \<open>ClientHello: application keys and the next state\<close>

definition activate_application ::
    "'k env \<Rightarrow> ('k, 'e, 't) sink \<Rightarrow> algorithm \<Rightarrow> schedule \<Rightarrow> ('k, 'e, hash_value) handler" where
  "activate_application N K algorithm ks_handshake =
     (let C = en_crypto N in
     bindS (protS (transcript_hashS C algorithm)) (\<lambda>h_sf.
     bindS (tryS error_of_hkdf (schedule_into_master C ks_handshake)) (\<lambda>ks_master.
     bindS (tryS error_of_hkdf (client_application_traffic_secret C (as_slice h_sf) ks_master)) (\<lambda>c_ap.
     bindS (tryS error_of_hkdf (server_application_traffic_secret C (as_slice h_sf) ks_master)) (\<lambda>s_ap.
     bindS (tryS error_of_hkdf (exporter_master_secret C (as_slice h_sf) ks_master)) (\<lambda>exporter_master.
     seqS (protS (sesS (on_traffic (traffic_activate c_ap s_ap)))) (
     seqS (updS (\<lambda>s. s\<lparr>sn_application := (sn_application s)\<lparr>ap_exporter_master := Some exporter_master, ap_master := Some ks_master\<rparr>\<rparr>)) (
     bindS (askS (\<lambda>s. s)) (\<lambda>s.
     bindS (tryS (\<lambda>e. e) (application_traffic_secrets (sn_application s))) (\<lambda>(read_secret, write_secret).
     seqS (emitS K (suite_of s) (EvKeysReady ApplicationEpoch read_secret write_secret))
     (retS h_sf)))))))))))"

definition next_state ::
    "'k env \<Rightarrow> 'k authority \<Rightarrow> algorithm \<Rightarrow> secret \<Rightarrow> hash_value \<Rightarrow> bool \<Rightarrow> bool \<Rightarrow> ('k, 'e, unit) handler" where
  "next_state N A algorithm c_hs h_sf psk_accepted early_accepted =
     bindS (askS sn_transport_mode) (\<lambda>m.
     if early_accepted \<and> uses_end_of_early_data m then updS (set_state (ExpectEndOfEarlyData c_hs))
     else if \<not> psk_accepted \<and> au_client_auth A \<noteq> None then updS (set_state (ExpectClientCertificate c_hs))
     else
       bindS (tryS error_of_hkdf (finished_verify_data (en_crypto N) algorithm (as_slice c_hs) (as_slice h_sf))) (\<lambda>verify_data.
       updS (set_state (ExpectClientFinished verify_data))))"

definition accept_hello ::
    "'k env \<Rightarrow> ('k, 'e, 't) sink \<Rightarrow> 'k authority \<Rightarrow> client_hello_ref \<Rightarrow> bytes \<Rightarrow> client_hello_offers \<Rightarrow> cipher_suite \<Rightarrow>
     peer_share \<Rightarrow> ('k, 'e, unit) handler" where
  "accept_hello N K A ch raw offers suite share =
     (let algorithm = hash_alg suite in
     seqS (select_protocol K A offers) (
     bindS (resume_hello N K A offers algorithm raw) (\<lambda>(psk_accepted, early_accepted).
     bindS (askS suite_of) (\<lambda>suite_context.
     bindS (send_server_hello N K ch suite share (psk_accepted \<noteq> None)) (\<lambda>dhe.
     bindS (handshake_keys N K algorithm psk_accepted dhe) (\<lambda>(ks_handshake, c_hs, s_hs).
     seqS (send_server_flight N K A offers algorithm suite_context s_hs (psk_accepted \<noteq> None) early_accepted) (
     bindS (activate_application N K algorithm ks_handshake) (\<lambda>h_sf.
     next_state N A algorithm c_hs h_sf (psk_accepted \<noteq> None) early_accepted))))))))"

definition handle_client_hello ::
    "'k env \<Rightarrow> ('k, 'e, 't) sink \<Rightarrow> 'k authority \<Rightarrow> client_hello_ref \<Rightarrow> bytes \<Rightarrow> ('k, 'e, unit) handler" where
  "handle_client_hello N K A ch raw =
     bindS (protS (hello_checks N A ch raw)) (\<lambda>(offers, selected_suite).
     case ck_selected (off_kx offers) of
       Some share \<Rightarrow> accept_hello N K A ch raw offers selected_suite share
     | None \<Rightarrow>
         bindS (askS (\<lambda>s. hk_hrr_done (sn_handshake s))) (\<lambda>hrr_done.
         if \<not> hrr_done then
           bindS (tryS (\<lambda>e. e) (invariant_capture (en_crypto N) ch (ck_retry_group (off_kx offers)))) (\<lambda>captured.
           send_hello_retry_request N K raw (chr_legacy_session_id ch) (ck_retry_group (off_kx offers)) captured)
         else failS (Protocol MissingExtension)))"

subsection \<open>Client authentication\<close>

record presented_identity =
  pi_leaf :: leaf_key
  pi_public :: client_identity

definition presented_parse :: "'k env \<Rightarrow> certificate_ref \<Rightarrow> certificate_type \<Rightarrow> conn_error + presented_identity" where
  "presented_parse N cert cert_type =
     and_then (ok_or BadCertificate (certificate_entries_first (en_ci16 N) (certr_list cert))) (\<lambda>leaf_entry.
     and_then (case cert_type of
         RawPublicKey \<Rightarrow>
           if certificate_entries_len (certr_list cert) \<noteq> 1 then Inl BadCertificate
           else and_then (leaf_key_from_spki (cer_cert_data leaf_entry)) (\<lambda>leaf. Inr (leaf, cer_cert_data leaf_entry, None))
       | X509 \<Rightarrow>
           and_then (leaf_key_parse_x509 (en_unicode N) (en_crypto N) (cer_cert_data leaf_entry)) (\<lambda>(leaf, spki_der).
           Inr (leaf, spki_der, Some (certr_list cert)))) (\<lambda>(leaf, spki_der, entries).
     Inr \<lparr>pi_leaf = leaf,
          pi_public = \<lparr>ci_cert_type = cert_type, ci_spki_der = spki_der, ci_chain_der = entries\<rparr>\<rparr>))"

definition expect_client_finished :: "'k env \<Rightarrow> secret \<Rightarrow> (session \<times> 'k, conn_error, unit) eff" where
  "expect_client_finished N client_handshake_traffic =
     bindS (askS sn_application) (\<lambda>app.
     bindS (liftS (application_hash_alg app)) (\<lambda>algorithm.
     bindS (transcript_hashS (en_crypto N) algorithm) (\<lambda>h.
     bindS (liftS (map_err error_of_hkdf
         (finished_verify_data (en_crypto N) algorithm (as_slice client_handshake_traffic) (as_slice h)))) (\<lambda>verify_data.
     updS (set_state (ExpectClientFinished verify_data))))))"

definition handle_end_of_early_data :: "'k env \<Rightarrow> bytes \<Rightarrow> secret \<Rightarrow> (session \<times> 'k, conn_error, unit) eff" where
  "handle_end_of_early_data N raw client_handshake_traffic =
     seqS (updS (\<lambda>s. s\<lparr>sn_peer := (sn_peer s)\<lparr>pr_early_data := early_data_close (pr_early_data (sn_peer s))\<rparr>\<rparr>))
     (seqS (updS (absorb raw)) (expect_client_finished N client_handshake_traffic))"

definition set_identity :: "bounded_buffer \<Rightarrow> session \<Rightarrow> session" where
  "set_identity b s = s\<lparr>sn_buffers := (sn_buffers s)\<lparr>bf_identity_workspace := b\<rparr>\<rparr>"

definition retain_identity :: "bytes \<Rightarrow> session \<Rightarrow> (conn_error + unit) \<times> session" where
  "retain_identity raw s =
     (case bb_try_extend raw (bb_clear (bf_identity_workspace (sn_buffers s))) of
        (r, b) \<Rightarrow> (map_err (\<lambda>_. WorkspaceExhausted PeerIdentity) r, set_identity b s))"

definition handle_client_certificate ::
    "'k env \<Rightarrow> certificate_ref \<Rightarrow> bytes \<Rightarrow> secret \<Rightarrow> client_auth option \<Rightarrow> (session \<times> 'k, conn_error, unit) eff" where
  "handle_client_certificate N cert raw client_handshake_traffic auth =
     (if certr_context cert \<noteq> [] then failS IllegalParameter
      else if certificate_entries_is_empty (certr_list cert) then
        (if auth = Some AuthRequired then failS ClientCertRequired
         else seqS (updS (absorb raw)) (expect_client_finished N client_handshake_traffic))
      else
        bindS (askS (\<lambda>s. pr_client_cert_type (sn_peer s))) (\<lambda>cert_type.
        seqS (liftS (presented_parse N cert cert_type)) (
        seqS (sesS (retain_identity raw)) (
        seqS (updS (absorb raw))
        (updS (set_state (ExpectClientCertVerify client_handshake_traffic)))))))"

definition handle_client_cert_verify ::
    "'k env \<Rightarrow> 'k authority \<Rightarrow> certificate_verify_ref \<Rightarrow> bytes \<Rightarrow> secret \<Rightarrow> (session \<times> 'k, conn_error, unit) eff" where
  "handle_client_cert_verify N A cv raw client_handshake_traffic =
     (if \<not> x509_supported (cvr_algorithm cv) then failS SigSchemeNotOffered
      else
        bindS (askS (\<lambda>s. s)) (\<lambda>s.
        bindS (liftS (application_hash_alg (sn_application s))) (\<lambda>algorithm.
        bindS (transcript_hashS (en_crypto N) algorithm) (\<lambda>h_pre_cv.
        bindS (liftS (map_err error_of_encode (certificate_verify_message (en_ci8 N) (as_slice h_pre_cv) False))) (\<lambda>msg.
        bindS (liftS (map_err error_of_decode
            (message_ref_decode (en_ci16 N) (bb_as_slice (bf_identity_workspace (sn_buffers s)))))) (\<lambda>retained.
        bindS (liftS (case retained of RCertificate certificate1 \<Rightarrow> Inr certificate1 | _ \<Rightarrow> Inl UnexpectedMessage)) (\<lambda>certificate1.
        bindS (liftS (presented_parse N certificate1 (pr_client_cert_type (sn_peer s)))) (\<lambda>presented.
        seqS (liftS (leaf_key_verify (en_verify N) (pi_leaf presented) (cvr_algorithm cv) msg (cvr_signature cv))) (
        seqS (requireS (au_client_auth A \<noteq> None) UnexpectedMessage) (
        bindS (worldS (\<lambda>k. case cv_verify (au_verifier A) (pi_public presented) k of (b, k') \<Rightarrow> (Inr b, k'))) (\<lambda>authorized.
        seqS (requireS authorized AccessDenied) (
        seqS (updS (\<lambda>s. set_identity (bb_clear (bf_identity_workspace (sn_buffers s))) s)) (
        seqS (updS (absorb raw))
        (expect_client_finished N client_handshake_traffic))))))))))))))"

subsection \<open>Dispatch\<close>

definition process ::
    "'k env \<Rightarrow> ('k, 'e, 't) sink \<Rightarrow> 'k authority \<Rightarrow> epoch \<Rightarrow> message_ref \<Rightarrow> bytes \<Rightarrow> ('k, 'e, unit) handler" where
  "process N K A ep message raw =
     bindS (askS (\<lambda>s. hk_state (sn_handshake s))) (\<lambda>state.
     seqS (updS (set_state Failed))
     (case (state, message) of
        (ExpectClientHello, RClientHello client_hello1) \<Rightarrow>
          if ep = PlaintextEpoch
          then seqS (updS (set_state ExpectClientHello)) (handle_client_hello N K A client_hello1 raw)
          else failS (Protocol UnexpectedMessage)
      | (ExpectEndOfEarlyData traffic, REndOfEarlyData) \<Rightarrow>
          if ep = HandshakeEpoch then protS (handle_end_of_early_data N raw traffic)
          else failS (Protocol UnexpectedMessage)
      | (ExpectClientCertificate traffic, RCertificate certificate1) \<Rightarrow>
          if ep = HandshakeEpoch then protS (handle_client_certificate N certificate1 raw traffic (au_client_auth A))
          else failS (Protocol UnexpectedMessage)
      | (ExpectClientCertVerify traffic, RCertificateVerify verify) \<Rightarrow>
          if ep = HandshakeEpoch then protS (handle_client_cert_verify N A verify raw traffic)
          else failS (Protocol UnexpectedMessage)
      | (ExpectClientFinished verify_data, RFinished finished1) \<Rightarrow>
          if ep = HandshakeEpoch then handle_client_finished N K A finished1 raw verify_data
          else failS (Protocol UnexpectedMessage)
      | (Done, RKeyUpdate update) \<Rightarrow>
          if ep = ApplicationEpoch
          then seqS (updS (set_state Done)) (handle_key_update (en_crypto N) K update)
          else failS (Protocol UnexpectedMessage)
      | _ \<Rightarrow> failS (Protocol UnexpectedMessage)))"

definition drive_message ::
    "'k env \<Rightarrow> ('k, 'e, 't) sink \<Rightarrow> 'k authority \<Rightarrow> epoch \<Rightarrow> bytes \<Rightarrow> ('k, 'e, unit) handler" where
  "drive_message N K A ep raw =
     bindS (tryS error_of_decode (message_ref_decode (en_ci16 N) raw)) (\<lambda>message. process N K A ep message raw)"

definition drive_read ::
    "'k env \<Rightarrow> ('k, 'e, 't) sink \<Rightarrow> 'k authority \<Rightarrow> epoch \<Rightarrow> bytes \<Rightarrow> reassembler \<Rightarrow> session \<times> 'k \<Rightarrow>
     ('e drive_error + unit) \<times> reassembler \<times> session \<times> 'k" where
  "drive_read N K A ep data r s = reassembler_read (drive_message N K A ep) ep data r s"

definition drive_read_framed ::
    "'k env \<Rightarrow> ('k, 'e, 't) sink \<Rightarrow> 'k authority \<Rightarrow> epoch \<Rightarrow> bytes \<Rightarrow> ('k, 'e, unit) handler" where
  "drive_read_framed N K A ep raw = drive_message N K A ep raw"

end
