(* ===== verification/Server.thy ===== *)
theory Server
  imports ServerHandshake Reassembler
begin

section \<open>Server connections and shards\<close>

text \<open>
  \<open>server/mod.rs\<close>, \<open>server/session/updates.rs\<close>, \<open>server/binding.rs\<close>, \<open>server/rejection.rs\<close>,
  \<open>server/bound/\<close> and the storage side of \<open>server/workspace.rs\<close>.  A connection is a reassembler
  and a session; a QUIC connection is the session alone.  A shard is its authority: the \<open>Rc\<close> that connections
  share is passed to the operations that read through it, so that \<open>replace_ticket_keys\<close> is seen
  by all of them.  Const-generic domains, thread markers and phantom types have no content at run time.
\<close>

subsection \<open>Construction\<close>

record server =
  srv_reassembler :: reassembler
  srv_session :: session

definition session_from_validated :: "connection_config \<Rightarrow> mode \<Rightarrow> bounded_buffer \<Rightarrow> bounded_buffer \<Rightarrow> session" where
  "session_from_validated cfg m flight1 identity =
     \<lparr>sn_connection = cfg, sn_transport_mode = m, sn_handshake = handshake_initial,
      sn_peer = \<lparr>pr_selected_alpn = None, pr_early_data = early_data_new, pr_client_cert_type = X509\<rparr>,
      sn_application = \<lparr>ap_traffic = TrafficEmpty, ap_master = None, ap_exporter_master = None\<rparr>,
      sn_buffers = \<lparr>bf_flight = flight1, bf_identity_workspace = identity\<rparr>\<rparr>"

definition server_from_validated :: "connection_config \<Rightarrow> mode \<Rightarrow> scratch \<Rightarrow> server" where
  "server_from_validated cfg m workspace =
     \<lparr>srv_reassembler = reassembler_with_buffer (sc_reassembly workspace),
      srv_session = session_from_validated cfg m (sc_flight workspace) (sc_identity workspace)\<rparr>"

definition server_with_transport_workspace :: "connection_config \<Rightarrow> mode \<Rightarrow> scratch \<Rightarrow> conn_error + server" where
  "server_with_transport_workspace cfg m workspace =
     and_then (validate_with_transport cfg m) (\<lambda>_. Inr (server_from_validated cfg m workspace))"

definition server_with_workspace :: "connection_config \<Rightarrow> scratch \<Rightarrow> conn_error + server" where
  "server_with_workspace cfg workspace = server_with_transport_workspace cfg Tls workspace"

definition server_new :: "connection_config \<Rightarrow> conn_error + server" where
  "server_new cfg = server_with_workspace cfg scratch_for_server"

definition server_new_with_transport :: "connection_config \<Rightarrow> mode \<Rightarrow> conn_error + server" where
  "server_new_with_transport cfg m = server_with_transport_workspace cfg m scratch_for_server"

definition tls_with_workspace :: "scratch \<Rightarrow> server" where
  "tls_with_workspace workspace = server_from_validated \<lparr>cc_transport_params = []\<rparr> Tls workspace"

definition quic_with_workspace :: "bytes \<Rightarrow> scratch \<Rightarrow> session" where
  "quic_with_workspace transport_params workspace =
     srv_session (server_from_validated \<lparr>cc_transport_params = transport_params\<rparr> Quic workspace)"

definition server_into_workspace :: "server \<Rightarrow> scratch" where
  "server_into_workspace v =
     (let (reassembly, _) = release_buffer (srv_reassembler v) in
      scratch_from_buffers reassembly (bf_flight (sn_buffers (srv_session v)))
        (bf_identity_workspace (sn_buffers (srv_session v))))"

definition quic_into_workspace :: "session \<Rightarrow> scratch" where
  "quic_into_workspace s =
     scratch_from_buffers bb_default (bf_flight (sn_buffers s)) (bf_identity_workspace (sn_buffers s))"

subsection \<open>Queries\<close>

definition outbound_flight_capacity :: "server \<Rightarrow> nat" where
  "outbound_flight_capacity v = bb_capacity (bf_flight (sn_buffers (srv_session v)))"

definition server_export_keying_material ::
    "crypto \<Rightarrow> server \<Rightarrow> string \<Rightarrow> bytes \<Rightarrow> bytes \<Rightarrow> conn_error + bytes" where
  "server_export_keying_material C v label context1 out =
     (let app = sn_application (srv_session v) in
      and_then (ok_or NotReady (ap_exporter_master app)) (\<lambda>em.
      and_then (application_hash_alg app) (\<lambda>algorithm.
      map_err error_of_hkdf (export_keying_material C algorithm (as_slice em) label context1 out))))"

definition negotiated_cipher_suite :: "server \<Rightarrow> cipher_suite option" where
  "negotiated_cipher_suite v = suite_of (srv_session v)"

definition max_early_data_size :: "server \<Rightarrow> u32 option" where
  "max_early_data_size v =
     open_size (sn_transport_mode (srv_session v)) (pr_early_data (sn_peer (srv_session v)))"

definition server_is_done :: "server \<Rightarrow> bool" where
  "server_is_done v = is_done (sn_handshake (srv_session v))"

definition quic_is_done :: "session \<Rightarrow> bool" where
  "quic_is_done s = is_done (sn_handshake s)"

definition server_selected_alpn :: "server \<Rightarrow> 'k authority \<Rightarrow> bytes option" where
  "server_selected_alpn v A = peer_selected_alpn (sn_peer (srv_session v)) (au_alpn A)"

subsection \<open>Driving a connection\<close>

definition server_poison :: "server \<Rightarrow> server" where
  "server_poison v = \<lparr>srv_reassembler = reassembler_discard (srv_reassembler v), srv_session = poison (srv_session v)\<rparr>"

definition note_early_data :: "nat \<Rightarrow> server \<Rightarrow> (conn_error + unit) \<times> server" where
  "note_early_data len v =
     (if is_failed (sn_handshake (srv_session v)) then (Inl ConnectionFailed, v)
      else case on_early_data (charge len (sn_transport_mode (srv_session v))) (srv_session v) of
        (Inl e, s) \<Rightarrow> (Inl e, server_poison (v\<lparr>srv_session := s\<rparr>))
      | (Inr u, s) \<Rightarrow> (Inr u, v\<lparr>srv_session := s\<rparr>))"

definition read_authorized ::
    "'k env \<Rightarrow> ('k, 'e, 't) sink \<Rightarrow> 'k authority \<Rightarrow> epoch \<Rightarrow> bytes \<Rightarrow> (server \<times> 'k, 'e drive_error, unit) eff" where
  "read_authorized N K A ep data = (\<lambda>(v, k).
     if is_failed (sn_handshake (srv_session v)) then (Inl (Protocol ConnectionFailed), (v, k))
     else case drive_read N K A ep data (srv_reassembler v) (srv_session v, k) of
       (Inl e, r, s, k) \<Rightarrow> (Inl e, (server_poison \<lparr>srv_reassembler = r, srv_session = s\<rparr>, k))
     | (Inr u, r, s, k) \<Rightarrow> (Inr u, (\<lparr>srv_reassembler = r, srv_session = s\<rparr>, k)))"

text \<open>The framed reads take a sink that lends storage for every flight, wrapped by \<open>RequiredFlightSink\<close>.\<close>

type_synonym ('k, 'e) lender = "epoch \<Rightarrow> event_context \<Rightarrow> 'k \<Rightarrow> ('e + outbound_flight) \<times> 'k"

definition read_authorized_framed ::
    "'k env \<Rightarrow> ('k, 'e) lender \<Rightarrow> ('k, 'e, 't) sink \<Rightarrow> 'k authority \<Rightarrow> epoch \<Rightarrow> bytes \<Rightarrow>
     (server \<times> 'k, 'e drive_error, unit) eff" where
  "read_authorized_framed N lend K A ep raw = (\<lambda>(v, k).
     if is_failed (sn_handshake (srv_session v)) then (Inl (Protocol ConnectionFailed), (v, k))
     else case drive_read_framed N (required_flight_sink lend K) A ep raw (srv_session v, k) of
       (Inl e, (s, k)) \<Rightarrow> (Inl e, (server_poison (v\<lparr>srv_session := s\<rparr>), k))
     | (Inr u, (s, k)) \<Rightarrow> (Inr u, (v\<lparr>srv_session := s\<rparr>, k)))"

definition quic_read_authorized_framed ::
    "'k env \<Rightarrow> ('k, 'e) lender \<Rightarrow> ('k, 'e, 't) sink \<Rightarrow> 'k authority \<Rightarrow> epoch \<Rightarrow> bytes \<Rightarrow> ('k, 'e, unit) handler" where
  "quic_read_authorized_framed N lend K A ep raw = (\<lambda>(s, k).
     if is_failed (sn_handshake s) then (Inl (Protocol ConnectionFailed), (s, k))
     else case drive_read_framed N (required_flight_sink lend K) A ep raw (s, k) of
       (Inl e, (s, k)) \<Rightarrow> (Inl e, (poison s, k))
     | (Inr u, (s, k)) \<Rightarrow> (Inr u, (s, k)))"

definition quic_note_early_data :: "nat \<Rightarrow> session \<Rightarrow> (conn_error + unit) \<times> session" where
  "quic_note_early_data len s =
     (if is_failed (sn_handshake s) then (Inl ConnectionFailed, s)
      else case on_early_data (charge len (sn_transport_mode s)) s of
        (Inl e, s) \<Rightarrow> (Inl e, poison s)
      | (Inr u, s) \<Rightarrow> (Inr u, s))"

subsection \<open>Key updates\<close>

definition set_traffic :: "traffic_state \<Rightarrow> server \<Rightarrow> server" where
  "set_traffic t v =
     v\<lparr>srv_session := (srv_session v)\<lparr>sn_application := (sn_application (srv_session v))\<lparr>ap_traffic := t\<rparr>\<rparr>\<rparr>"

definition note_application_data :: "server \<Rightarrow> server" where
  "note_application_data v = set_traffic (reset_updates (traffic_of (srv_session v))) v"

definition response_pending :: "server \<Rightarrow> bool" where
  "response_pending v = key_update_response_pending (traffic_of (srv_session v))"

definition updates_send_into ::
    "'k env \<Rightarrow> ('k, 'e, 't) sink \<Rightarrow> key_update_request \<Rightarrow> (server \<times> 'k, 'e drive_error, unit) eff" where
  "updates_send_into N K request = (\<lambda>(v, k).
     if is_failed (sn_handshake (srv_session v)) then (Inl (Protocol ConnectionFailed), (v, k))
     else if \<not> allows_tls_key_update (sn_transport_mode (srv_session v)) \<or> \<not> is_done (sn_handshake (srv_session v))
     then (Inl (Protocol UnexpectedMessage), (v, k))
     else case key_update_send (en_crypto N) K ServerRole request (traffic_of (srv_session v)) k of
       (Inl e, t, k) \<Rightarrow> (Inl e, (server_poison (set_traffic t v), k))
     | (Inr u, t, k) \<Rightarrow> (Inr u, (set_traffic t v, k)))"

definition updates_send_pending_into ::
    "'k env \<Rightarrow> ('k, 'e, 't) sink \<Rightarrow> (server \<times> 'k, 'e drive_error, unit) eff" where
  "updates_send_pending_into N K = (\<lambda>(v, k).
     if \<not> response_pending v then (Inr (), (v, k)) else updates_send_into N K NotRequested (v, k))"

subsection \<open>Shards\<close>

definition replay_domain_random :: "'k kx_ops \<Rightarrow> 'k \<Rightarrow> (conn_error + bytes) \<times> 'k" where
  "replay_domain_random O1 k = (case rng_fill O1 REPLAY_DOMAIN_LEN k of (r, k') \<Rightarrow> (ok_or RngErr r, k'))"

definition shard_build ::
    "'k env \<Rightarrow> config \<Rightarrow> 'k guard \<Rightarrow> client_auth option \<Rightarrow> 'k client_verifier \<Rightarrow> bytes option \<Rightarrow> 'k \<Rightarrow>
     (conn_error + 'k authority) \<times> 'k" where
  "shard_build N cfg G auth V replay_domain k =
     (case prepare_for (en_unicode N) (en_crypto N) (en_sign N) cfg (auth \<noteq> None) (gd_accepts_early_data G) of
        Inl e \<Rightarrow> (Inl e, k)
      | Inr profile \<Rightarrow>
          if peer_identity_capacity V profile > MAX_SIZE then (Inl BadConfig, k)
          else (case alpn_prepare (cfg_alpn_protocols cfg) of
              Inl _ \<Rightarrow> (Inl BadConfig, k)
            | Inr prepared \<Rightarrow>
                (case (case replay_domain of Some d \<Rightarrow> (Inr d, k) | None \<Rightarrow> replay_domain_random (en_kx N) k) of
                   (Inl e, k) \<Rightarrow> (Inl e, k)
                 | (Inr domain, k) \<Rightarrow>
                     (Inr \<lparr>au_source = cfg_source cfg, au_alpn = prepared, au_ticket_keys = cfg_ticket_keys cfg,
                           au_guard = G, au_client_auth = auth, au_verifier = V, au_replay_domain = domain,
                           au_flight = profile\<rparr>, k))))"

definition shard_new :: "'k env \<Rightarrow> config \<Rightarrow> 'k \<Rightarrow> (conn_error + 'k authority) \<times> 'k" where
  "shard_new N cfg k = shard_build N cfg no_guard None no_client_auth None k"

definition shard_with_early_data_guard ::
    "'k env \<Rightarrow> config \<Rightarrow> 'k guard \<Rightarrow> 'k \<Rightarrow> (conn_error + 'k authority) \<times> 'k" where
  "shard_with_early_data_guard N cfg G k = shard_build N cfg G None no_client_auth None k"

definition shard_with_early_data_guard_in_replay_domain ::
    "'k env \<Rightarrow> config \<Rightarrow> bytes \<Rightarrow> 'k guard \<Rightarrow> 'k \<Rightarrow> (conn_error + 'k authority) \<times> 'k" where
  "shard_with_early_data_guard_in_replay_domain N cfg domain G k =
     shard_build N cfg G None no_client_auth (Some domain) k"

definition shard_with_client_auth ::
    "'k env \<Rightarrow> config \<Rightarrow> client_auth \<Rightarrow> 'k client_verifier \<Rightarrow> 'k \<Rightarrow> (conn_error + 'k authority) \<times> 'k" where
  "shard_with_client_auth N cfg auth V k =
     shard_build N cfg no_guard (Some auth) (client_auth_verifier V) None k"

definition shard_with_early_data_guard_and_client_auth ::
    "'k env \<Rightarrow> config \<Rightarrow> 'k guard \<Rightarrow> client_auth \<Rightarrow> 'k client_verifier \<Rightarrow> 'k \<Rightarrow> (conn_error + 'k authority) \<times> 'k" where
  "shard_with_early_data_guard_and_client_auth N cfg G auth V k =
     shard_build N cfg G (Some auth) (client_auth_verifier V) None k"

definition shard_with_early_data_guard_and_client_auth_in_replay_domain ::
    "'k env \<Rightarrow> config \<Rightarrow> bytes \<Rightarrow> 'k guard \<Rightarrow> client_auth \<Rightarrow> 'k client_verifier \<Rightarrow> 'k \<Rightarrow>
     (conn_error + 'k authority) \<times> 'k" where
  "shard_with_early_data_guard_and_client_auth_in_replay_domain N cfg domain G auth V k =
     shard_build N cfg G (Some auth) (client_auth_verifier V) (Some domain) k"

definition replace_ticket_keys :: "ticket_keys option \<Rightarrow> 'k authority \<Rightarrow> 'k authority" where
  "replace_ticket_keys keys A = A\<lparr>au_ticket_keys := keys\<rparr>"

definition authority_outbound_layout :: "'k authority \<Rightarrow> mode \<Rightarrow> nat \<Rightarrow> conn_error + outbound_layout" where
  "authority_outbound_layout A m n = ok_or BadConfig (outbound_layout_for (au_flight A) m n)"

definition tls_workspace_layout :: "'k authority \<Rightarrow> capacities" where
  "tls_workspace_layout A =
     layout_new (fp_tls_flight_len (au_flight A)) (peer_identity_capacity (au_verifier A) (au_flight A))"

definition workspace_layout :: "'k authority \<Rightarrow> connection_config \<Rightarrow> mode \<Rightarrow> conn_error + capacities" where
  "workspace_layout A cfg m =
     and_then (validate_with_transport cfg m) (\<lambda>_.
     and_then (ok_or BadConfig (flight_len (au_flight A) m (length (cc_transport_params cfg)))) (\<lambda>flight1.
     Inr (layout_new flight1 (peer_identity_capacity (au_verifier A) (au_flight A)))))"

record quic_profile =
  qp_layout :: capacities
  qp_transport_params_capacity :: nat

definition quic_profile_new :: "'k authority \<Rightarrow> nat \<Rightarrow> conn_error + quic_profile" where
  "quic_profile_new A maximum_transport_params =
     and_then (authority_outbound_layout A Quic maximum_transport_params) (\<lambda>_.
     Inr \<lparr>qp_layout = layout_framed 0 (peer_identity_capacity (au_verifier A) (au_flight A)),
          qp_transport_params_capacity = maximum_transport_params\<rparr>)"

subsection \<open>Binding a server to a shard\<close>

text \<open>A failed admission returns the error together with the rejected server.\<close>

record 'a rejection =
  rj_error :: conn_error
  rj_rejected :: 'a

type_synonym ('a, 'r) binding = "'r rejection + 'a"

definition validate_shard :: "'k authority \<Rightarrow> server \<Rightarrow> conn_error + unit" where
  "validate_shard A v =
     and_then (workspace_layout A (sn_connection (srv_session v)) (sn_transport_mode (srv_session v))) (\<lambda>required.
     let (fragmented_message, outbound_flight1, peer_identity) = layout_capacities required in
     if reassembler_capacity (srv_reassembler v) < fragmented_message \<or>
        bb_capacity (bf_flight (sn_buffers (srv_session v))) < outbound_flight1 \<or>
        bb_capacity (bf_identity_workspace (sn_buffers (srv_session v))) < peer_identity
     then Inl BadConfig else Inr ())"

definition connection_bind :: "'k authority \<Rightarrow> server \<Rightarrow> (server, server) binding" where
  "connection_bind A v =
     (case validate_shard A v of
        Inl e \<Rightarrow> Inl \<lparr>rj_error = e, rj_rejected = v\<rparr>
      | Inr _ \<Rightarrow> Inr v)"

definition connection_prepare :: "'k authority \<Rightarrow> connection_config \<Rightarrow> mode \<Rightarrow> conn_error + server" where
  "connection_prepare A cfg m =
     and_then (workspace_layout A cfg m) (\<lambda>l. Inr (server_from_validated cfg m (layout_allocate l)))"

definition shard_new_quic :: "'k authority \<Rightarrow> connection_config \<Rightarrow> conn_error + session" where
  "shard_new_quic A cfg =
     and_then (validate_with_transport cfg Quic) (\<lambda>_.
     and_then (authority_outbound_layout A Quic (length (cc_transport_params cfg))) (\<lambda>_.
     let workspace = layout_allocate (layout_framed 0 (peer_identity_capacity (au_verifier A) (au_flight A))) in
     Inr (quic_with_workspace (cc_transport_params cfg) workspace)))"

text \<open>Recycling a pooled connection: \<open>into_seed\<close> of the two stored kinds.\<close>

definition stored_into_seed :: "server \<Rightarrow> scratch" where
  "stored_into_seed v = server_into_workspace v"

record quic_seed =
  qs_workspace :: scratch
  qs_transport_params :: bytes

definition quic_stored_into_seed :: "session \<Rightarrow> quic_seed" where
  "quic_stored_into_seed s = \<lparr>qs_workspace = quic_into_workspace s, qs_transport_params = []\<rparr>"

end
