(* ===== verification/Slab.thy ===== *)
theory Slab
  imports Prelude
begin

section \<open>Slots of a connection pool\<close>

text \<open>
  The pools of both sides keep their connections in the recycling slab of the \<open>o3\<close> crate (\<open>recycle::Pool\<close>): a vacant slot holds a seed, a
  reservation keeps its slot to itself before it is filled or given up, an occupied slot holds what was made of the seed, and
  dropping a lease turns it back into one.  Which vacant slot is handed out
  is the parameter \<open>vacant\<close>, of which \<open>slab_ok\<close> states that it finds a vacant slot whenever there is one.  A lease is
  the index of its slot.  The locale \<open>recycled_slots\<close> is the contract of a pool's fill and recycle functions.
\<close>

datatype ('seed, 'stored) slot = Vacant 'seed | Reserved 'seed | Occupied 'stored

fun is_vacant :: "('seed, 'stored) slot \<Rightarrow> bool" where
  "is_vacant (Vacant _) = True"
| "is_vacant (Reserved _) = False"
| "is_vacant (Occupied _) = False"

type_synonym slab = "bool list \<Rightarrow> nat option"

definition slab_ok :: "slab \<Rightarrow> bool" where
  "slab_ok vacant \<longleftrightarrow>
     (\<forall>free. case vacant free of None \<Rightarrow> True \<notin> set free | Some i \<Rightarrow> i < length free \<and> free ! i)"

text \<open>One such slab: the first vacant slot.\<close>

definition first_vacant :: slab where
  "first_vacant free = (if True \<in> set free then Some (length (takeWhile Not free)) else None)"

lemma first_vacant_ok: "slab_ok first_vacant"
proof -
  have "free ! length (takeWhile Not free) \<and> length (takeWhile Not free) < length free" if "True \<in> set free" for free
    using that by (induction free) auto
  then show ?thesis by (auto simp: slab_ok_def first_vacant_def)
qed

text \<open>The seed of the slot the slab hands out.\<close>

definition vacant_entry :: "slab \<Rightarrow> ('seed, 'stored) slot list \<Rightarrow> (nat \<times> 'seed) option" where
  "vacant_entry vacant slots =
     (case vacant (map is_vacant slots) of
        None \<Rightarrow> None
      | Some i \<Rightarrow> (case slots ! i of Vacant seed \<Rightarrow> Some (i, seed) | _ \<Rightarrow> None))"

text \<open>Filling a vacant slot, an operation on the content of an occupied one, and dropping a lease.\<close>

definition slots_insert ::
    "slab \<Rightarrow> ('seed \<Rightarrow> 'stored) \<Rightarrow> ('seed, 'stored) slot list \<Rightarrow> nat option \<times> ('seed, 'stored) slot list" where
  "slots_insert vacant fill slots =
     (case vacant_entry vacant slots of
        None \<Rightarrow> (None, slots)
      | Some (i, seed) \<Rightarrow> (Some i, slots[i := Occupied (fill seed)]))"

definition slots_run ::
    "nat \<Rightarrow> ('stored \<times> 'k \<Rightarrow> 'r \<times> 'stored \<times> 'k) \<Rightarrow> ('seed, 'stored) slot list \<Rightarrow> 'k \<Rightarrow>
     ('r \<times> ('seed, 'stored) slot list \<times> 'k) option" where
  "slots_run i m slots k =
     (case slots ! i of
        Occupied x \<Rightarrow> (case m (x, k) of (r, x, k) \<Rightarrow> Some (r, slots[i := Occupied x], k))
      | _ \<Rightarrow> None)"

definition slots_release :: "('stored \<Rightarrow> 'seed) \<Rightarrow> nat \<Rightarrow> ('seed, 'stored) slot list \<Rightarrow> ('seed, 'stored) slot list" where
  "slots_release recycle i slots =
     (case slots ! i of Occupied x \<Rightarrow> slots[i := Vacant (recycle x)] | _ \<Rightarrow> slots)"

text \<open>Reserving a slot with its seed prepared, changing the seed of a reservation, giving it up, and filling the slot.\<close>

definition slots_reserve ::
    "slab \<Rightarrow> ('seed \<Rightarrow> 'seed) \<Rightarrow> ('seed, 'stored) slot list \<Rightarrow> nat option \<times> ('seed, 'stored) slot list" where
  "slots_reserve vacant prepare slots =
     (case vacant_entry vacant slots of
        None \<Rightarrow> (None, slots)
      | Some (i, seed) \<Rightarrow> (Some i, slots[i := Reserved (prepare seed)]))"

definition slots_seed :: "nat \<Rightarrow> ('seed \<Rightarrow> 'r \<times> 'seed) \<Rightarrow> ('seed, 'stored) slot list \<Rightarrow> ('r \<times> ('seed, 'stored) slot list) option" where
  "slots_seed i f slots =
     (case slots ! i of
        Reserved seed \<Rightarrow> (case f seed of (r, seed) \<Rightarrow> Some (r, slots[i := Reserved seed]))
      | _ \<Rightarrow> None)"

definition slots_cancel :: "nat \<Rightarrow> ('seed, 'stored) slot list \<Rightarrow> ('seed, 'stored) slot list" where
  "slots_cancel i slots = (case slots ! i of Reserved seed \<Rightarrow> slots[i := Vacant seed] | _ \<Rightarrow> slots)"

definition slots_fill :: "nat \<Rightarrow> ('seed \<Rightarrow> 'stored) \<Rightarrow> ('seed, 'stored) slot list \<Rightarrow> ('seed, 'stored) slot list" where
  "slots_fill i fill slots = (case slots ! i of Reserved seed \<Rightarrow> slots[i := Occupied (fill seed)] | _ \<Rightarrow> slots)"

subsection \<open>Invariants of slots\<close>

fun slot_fits :: "('seed \<Rightarrow> bool) \<Rightarrow> ('stored \<Rightarrow> bool) \<Rightarrow> ('seed, 'stored) slot \<Rightarrow> bool" where
  "slot_fits P Q (Vacant seed) \<longleftrightarrow> P seed"
| "slot_fits P Q (Reserved seed) \<longleftrightarrow> P seed"
| "slot_fits P Q (Occupied x) \<longleftrightarrow> Q x"

abbreviation slots_fit :: "('seed \<Rightarrow> bool) \<Rightarrow> ('stored \<Rightarrow> bool) \<Rightarrow> ('seed, 'stored) slot list \<Rightarrow> bool" where
  "slots_fit P Q slots \<equiv> list_all (slot_fits P Q) slots"

lemma slots_fit_update: "slots_fit P Q slots \<Longrightarrow> (i < length slots \<Longrightarrow> slot_fits P Q x) \<Longrightarrow> slots_fit P Q (slots[i := x])"
  by (cases "i < length slots") (auto simp: list_all_iff list_update_beyond dest!: subsetD [OF set_update_subset_insert])

lemma slots_fit_nth: "slots_fit P Q slots \<Longrightarrow> i < length slots \<Longrightarrow> slot_fits P Q (slots ! i)"
  by (simp add: list_all_length)

lemma vacant_entryD: "vacant_entry vacant slots = Some (i, seed) \<Longrightarrow> slots ! i = Vacant seed"
  by (auto simp: vacant_entry_def split: option.splits slot.splits)

lemma slots_runD:
  assumes "slots_run i m slots k = Some (r, slots', k')"
  obtains x x' where "slots ! i = Occupied x" "m (x, k) = (r, x', k')" "slots' = slots[i := Occupied x']"
  using assms by (auto simp: slots_run_def split: slot.splits prod.splits)

lemma slots_run_fit:
  assumes "slots_run i m slots k = Some (r, slots', k')" and "slots_fit P Q slots"
    and "\<And>x x'. m (x, k) = (r, x', k') \<Longrightarrow> Q x \<Longrightarrow> Q x'"
  shows "slots_fit P Q slots'"
proof -
  obtain x x' where x: "slots ! i = Occupied x" "m (x, k) = (r, x', k')" "slots' = slots[i := Occupied x']"
    using assms(1) by (rule slots_runD)
  then show ?thesis
    using slots_fit_nth [OF assms(2), of i] assms(3) by (auto intro!: slots_fit_update [OF assms(2)])
qed

lemma slots_seed_fit:
  assumes "slots_seed i f slots = Some (r, slots')" and "slots_fit P Q slots" and "\<And>seed seed'. f seed = (r, seed') \<Longrightarrow> P seed \<Longrightarrow> P seed'"
  shows "slots_fit P Q slots'"
  using assms(1,3) slots_fit_nth [OF assms(2), of i]
  by (auto simp: slots_seed_def split: slot.splits prod.splits intro!: slots_fit_update [OF assms(2)])

lemma slots_cancel_fit: "slots_fit P Q slots \<Longrightarrow> slots_fit P Q (slots_cancel i slots)"
  using slots_fit_nth [of P Q slots i] by (auto simp: slots_cancel_def split: slot.split intro!: slots_fit_update)

lemma slots_reserve_fit:
  assumes "slots_reserve vacant prepare slots = (lease, slots')" and "slots_fit P Q slots" and "\<And>seed. P seed \<Longrightarrow> P (prepare seed)"
  shows "slots_fit P Q slots'"
proof (cases "vacant_entry vacant slots")
  case (Some x)
  obtain i seed where x: "x = (i, seed)" by (cases x)
  with Some vacant_entryD have "slots ! i = Vacant seed" by metis
  with slots_fit_nth [OF assms(2), of i] assms(1,3) Some x show ?thesis
    by (auto simp: slots_reserve_def intro!: slots_fit_update [OF assms(2)])
qed (use assms in \<open>auto simp: slots_reserve_def\<close>)

locale recycled_slots =
  fixes seed_fits :: "'seed \<Rightarrow> bool" and fits :: "'stored \<Rightarrow> bool"
    and fill :: "'c \<Rightarrow> 'seed \<Rightarrow> 'stored" and recycle :: "'stored \<Rightarrow> 'seed"
  assumes fill_fits: "seed_fits seed \<Longrightarrow> fits (fill c seed)"
    and recycle_fits: "fits x \<Longrightarrow> seed_fits (recycle x)"
begin

lemma insert_fit:
  assumes "slots_insert vacant (fill c) slots = (lease, slots')" and "slots_fit seed_fits fits slots"
  shows "slots_fit seed_fits fits slots'"
proof (cases "vacant_entry vacant slots")
  case (Some x)
  obtain i seed where x: "x = (i, seed)" by (cases x)
  with Some vacant_entryD have "slots ! i = Vacant seed" by metis
  with slots_fit_nth [OF assms(2), of i] assms(1) Some x show ?thesis
    by (auto simp: slots_insert_def intro!: slots_fit_update [OF assms(2)] fill_fits)
qed (use assms in \<open>auto simp: slots_insert_def\<close>)

lemma fill_fit: "slots_fit seed_fits fits slots \<Longrightarrow> slots_fit seed_fits fits (slots_fill i (fill c) slots)"
  using slots_fit_nth [of seed_fits fits slots i]
  by (auto simp: slots_fill_def split: slot.split intro!: slots_fit_update fill_fits)

lemma release_fit: "slots_fit seed_fits fits slots \<Longrightarrow> slots_fit seed_fits fits (slots_release recycle i slots)"
  using slots_fit_nth [of seed_fits fits slots i]
  by (auto simp: slots_release_def split: slot.split intro!: slots_fit_update recycle_fits)

end

subsection \<open>Counting\<close>

text \<open>How many leased connections have a property.\<close>

definition leased :: "('stored \<Rightarrow> bool) \<Rightarrow> ('seed, 'stored) slot list \<Rightarrow> nat" where
  "leased Q slots = length (filter (\<lambda>s. case s of Occupied x \<Rightarrow> Q x | _ \<Rightarrow> False) slots)"

abbreviation counts :: "('stored \<Rightarrow> bool) \<Rightarrow> ('seed, 'stored) slot \<Rightarrow> nat" where
  "counts Q s \<equiv> (case s of Occupied x \<Rightarrow> if Q x then 1 else 0 | _ \<Rightarrow> 0)"

lemma leased_update: "i < length slots \<Longrightarrow> leased Q (slots[i := s]) + counts Q (slots ! i) = leased Q slots + counts Q s"
  by (induction slots arbitrary: i) (auto simp: leased_def nth_Cons upd_conv_take_nth_drop split: nat.split slot.split)

lemma leased_update_le:
  "(i < length slots \<Longrightarrow> counts Q s \<le> counts Q (slots ! i) + n) \<Longrightarrow> leased Q (slots[i := s]) \<le> leased Q slots + n"
  using leased_update [of i slots Q s] by (cases "i < length slots") (simp_all add: list_update_beyond)

lemma leased_insert:
  assumes "slots_insert vacant fill slots = (Some i, slots')" and "\<And>seed. Q (fill seed) \<Longrightarrow> n = 1"
  shows "leased Q slots' \<le> leased Q slots + n"
proof -
  obtain seed where "slots ! i = Vacant seed" "slots' = slots[i := Occupied (fill seed)]"
    using assms(1) by (auto simp: slots_insert_def split: option.splits dest!: vacant_entryD)
  with assms(2) show ?thesis by (auto intro!: leased_update_le)
qed

lemma leased_run:
  assumes "slots_run i m slots k = Some (r, slots', k')" and "\<And>x x'. m (x, k) = (r, x', k') \<Longrightarrow> Q x' \<Longrightarrow> Q x"
  shows "leased Q slots' \<le> leased Q slots"
proof -
  obtain x x' where "slots ! i = Occupied x" "m (x, k) = (r, x', k')" "slots' = slots[i := Occupied x']"
    using assms(1) by (rule slots_runD)
  with assms(2) leased_update_le [of i slots Q "Occupied x'" 0] show ?thesis by auto
qed

lemma leased_release: "leased Q (slots_release recycle i slots) \<le> leased Q slots"
  using leased_update_le [of i slots Q "Vacant _" 0] by (auto simp: slots_release_def split: slot.split)

lemma leased_vacant [simp]: "leased Q (replicate n (Vacant seed)) = 0"
  by (simp add: leased_def)

end
