(* ===== verification/ServerPools.thy ===== *)
theory ServerPools
  imports Server Slab
begin

section \<open>Shared authorities and connection pools\<close>

text \<open>
  \<open>server/bound/\<close> and the pools of \<open>server/workspace.rs\<close>.  A shard and the connections it admits share one
  authority by \<open>Rc\<close>, and \<open>replace_ticket_keys\<close> writes through it: here authorities live in
  a store, a reference is an address of that store, and every connection keeps the
  reference it was admitted with.  References come from \<open>rc_new\<close> only and the store never shrinks, as an \<open>Rc\<close> never
  dangles.  The slots of the pools are those of \<open>Slab\<close>.
\<close>

subsection \<open>Authorities\<close>

type_synonym authority_ref = nat
type_synonym 'k authorities = "'k authority list"

definition rc_new :: "'k authority \<Rightarrow> 'k authorities \<Rightarrow> authority_ref \<times> 'k authorities" where
  "rc_new A h = (length h, h @ [A])"

definition ptr_eq :: "authority_ref \<Rightarrow> authority_ref \<Rightarrow> bool" where
  "ptr_eq a b \<longleftrightarrow> a = b"

record shard =
  shd_authority :: authority_ref

definition bind_domain :: "authority_ref \<Rightarrow> shard" where
  "bind_domain a = \<lparr>shd_authority = a\<rparr>"

definition shard_replace_ticket_keys :: "ticket_keys option \<Rightarrow> shard \<Rightarrow> 'k authorities \<Rightarrow> 'k authorities" where
  "shard_replace_ticket_keys keys s h = h[shd_authority s := replace_ticket_keys keys (h ! shd_authority s)]"

subsection \<open>Connections that own or borrow their shard\<close>

record bound_connection =
  bcn_server :: server
  bcn_shard :: shard

definition bound_new :: "'k authorities \<Rightarrow> server \<Rightarrow> shard \<Rightarrow> (bound_connection, server) binding" where
  "bound_new h v s =
     (case validate_shard (h ! shd_authority s) v of
        Inl e \<Rightarrow> Inl \<lparr>rj_error = e, rj_rejected = v\<rparr>
      | Inr _ \<Rightarrow> Inr \<lparr>bcn_server = v, bcn_shard = s\<rparr>)"

definition bound_prepare :: "'k authorities \<Rightarrow> shard \<Rightarrow> connection_config \<Rightarrow> mode \<Rightarrow> conn_error + bound_connection" where
  "bound_prepare h s cfg m =
     and_then (connection_prepare (h ! shd_authority s) cfg m) (\<lambda>v. Inr \<lparr>bcn_server = v, bcn_shard = s\<rparr>)"

definition bound_selected_alpn :: "'k authorities \<Rightarrow> bound_connection \<Rightarrow> bytes option" where
  "bound_selected_alpn h c = server_selected_alpn (bcn_server c) (h ! shd_authority (bcn_shard c))"

definition bound_read_into ::
    "'k env \<Rightarrow> ('k, 'e, 't) sink \<Rightarrow> 'k authorities \<Rightarrow> epoch \<Rightarrow> bytes \<Rightarrow> (bound_connection \<times> 'k, 'e drive_error, unit) eff" where
  "bound_read_into N K h ep data = (\<lambda>(c, k).
     case read_authorized N K (h ! shd_authority (bcn_shard c)) ep data (bcn_server c, k) of
       (r, (v, k)) \<Rightarrow> (r, (c\<lparr>bcn_server := v\<rparr>, k)))"

definition bound_note_early_data :: "nat \<Rightarrow> bound_connection \<Rightarrow> (conn_error + unit) \<times> bound_connection" where
  "bound_note_early_data len c = (case note_early_data len (bcn_server c) of (r, v) \<Rightarrow> (r, c\<lparr>bcn_server := v\<rparr>))"

definition bound_into_workspace :: "bound_connection \<Rightarrow> scratch" where
  "bound_into_workspace c = server_into_workspace (bcn_server c)"

text \<open>An owned connection moves its shard in; a rejected pair is handed back as a pair.\<close>

definition owned_new :: "'k authorities \<Rightarrow> server \<Rightarrow> shard \<Rightarrow> (bound_connection, server \<times> shard) binding" where
  "owned_new h v s =
     (case validate_shard (h ! shd_authority s) v of
        Inl e \<Rightarrow> Inl \<lparr>rj_error = e, rj_rejected = (v, s)\<rparr>
      | Inr _ \<Rightarrow> Inr \<lparr>bcn_server = v, bcn_shard = s\<rparr>)"

subsection \<open>Multiplexed and QUIC connections\<close>

record multiplexed_connection =
  mx_server :: server
  mx_authority :: authority_ref

record quic_connection =
  qc_server :: session
  qc_authority :: authority_ref

definition bind_multiplexed :: "'k authorities \<Rightarrow> shard \<Rightarrow> server \<Rightarrow> (multiplexed_connection, server) binding" where
  "bind_multiplexed h s v =
     (case validate_shard (h ! shd_authority s) v of
        Inl e \<Rightarrow> Inl \<lparr>rj_error = e, rj_rejected = v\<rparr>
      | Inr _ \<Rightarrow> Inr \<lparr>mx_server = v, mx_authority = shd_authority s\<rparr>)"

definition new_multiplexed :: "'k authorities \<Rightarrow> shard \<Rightarrow> connection_config \<Rightarrow> mode \<Rightarrow> conn_error + multiplexed_connection" where
  "new_multiplexed h s cfg m =
     and_then (workspace_layout (h ! shd_authority s) cfg m) (\<lambda>l.
     Inr \<lparr>mx_server = server_from_validated cfg m (layout_allocate l), mx_authority = shd_authority s\<rparr>)"

definition new_quic :: "'k authorities \<Rightarrow> shard \<Rightarrow> connection_config \<Rightarrow> conn_error + quic_connection" where
  "new_quic h s cfg =
     and_then (shard_new_quic (h ! shd_authority s) cfg) (\<lambda>v. Inr \<lparr>qc_server = v, qc_authority = shd_authority s\<rparr>)"

definition multiplexed_outbound_flight_capacity :: "multiplexed_connection \<Rightarrow> nat" where
  "multiplexed_outbound_flight_capacity c = outbound_flight_capacity (mx_server c)"

definition session_outbound_layout :: "'k authorities \<Rightarrow> authority_ref \<Rightarrow> session \<Rightarrow> conn_error + outbound_layout" where
  "session_outbound_layout h a s =
     authority_outbound_layout (h ! a) (sn_transport_mode s) (length (cc_transport_params (sn_connection s)))"

definition multiplexed_outbound_layout :: "'k authorities \<Rightarrow> multiplexed_connection \<Rightarrow> conn_error + outbound_layout" where
  "multiplexed_outbound_layout h c = session_outbound_layout h (mx_authority c) (srv_session (mx_server c))"

definition quic_outbound_layout :: "'k authorities \<Rightarrow> quic_connection \<Rightarrow> conn_error + outbound_layout" where
  "quic_outbound_layout h c = session_outbound_layout h (qc_authority c) (qc_server c)"

definition multiplexed_read_into ::
    "'k env \<Rightarrow> ('k, 'e, 't) sink \<Rightarrow> 'k authorities \<Rightarrow> epoch \<Rightarrow> bytes \<Rightarrow> (multiplexed_connection \<times> 'k, 'e drive_error, unit) eff" where
  "multiplexed_read_into N K h ep data = (\<lambda>(c, k).
     case read_authorized N K (h ! mx_authority c) ep data (mx_server c, k) of (r, (v, k)) \<Rightarrow> (r, (c\<lparr>mx_server := v\<rparr>, k)))"

definition multiplexed_read_framed_into ::
    "'k env \<Rightarrow> ('k, 'e) lender \<Rightarrow> ('k, 'e, 't) sink \<Rightarrow> 'k authorities \<Rightarrow> epoch \<Rightarrow> bytes \<Rightarrow>
     (multiplexed_connection \<times> 'k, 'e drive_error, unit) eff" where
  "multiplexed_read_framed_into N lend K h ep raw = (\<lambda>(c, k).
     case read_authorized_framed N lend K (h ! mx_authority c) ep raw (mx_server c, k) of
       (r, (v, k)) \<Rightarrow> (r, (c\<lparr>mx_server := v\<rparr>, k)))"

definition multiplexed_selected_alpn :: "'k authorities \<Rightarrow> multiplexed_connection \<Rightarrow> bytes option" where
  "multiplexed_selected_alpn h c = server_selected_alpn (mx_server c) (h ! mx_authority c)"

definition multiplexed_note_early_data :: "nat \<Rightarrow> multiplexed_connection \<Rightarrow> (conn_error + unit) \<times> multiplexed_connection" where
  "multiplexed_note_early_data len c = (case note_early_data len (mx_server c) of (r, v) \<Rightarrow> (r, c\<lparr>mx_server := v\<rparr>))"

definition quic_read_framed_into ::
    "'k env \<Rightarrow> ('k, 'e) lender \<Rightarrow> ('k, 'e, 't) sink \<Rightarrow> 'k authorities \<Rightarrow> epoch \<Rightarrow> bytes \<Rightarrow>
     (quic_connection \<times> 'k, 'e drive_error, unit) eff" where
  "quic_read_framed_into N lend K h ep raw = (\<lambda>(c, k).
     case quic_read_authorized_framed N lend K (h ! qc_authority c) ep raw (qc_server c, k) of
       (r, (s, k)) \<Rightarrow> (r, (c\<lparr>qc_server := s\<rparr>, k)))"

definition quic_selected_alpn :: "'k authorities \<Rightarrow> quic_connection \<Rightarrow> bytes option" where
  "quic_selected_alpn h c = peer_selected_alpn (sn_peer (qc_server c)) (au_alpn (h ! qc_authority c))"

definition quic_connection_note_early_data :: "nat \<Rightarrow> quic_connection \<Rightarrow> (conn_error + unit) \<times> quic_connection" where
  "quic_connection_note_early_data len c = (case quic_note_early_data len (qc_server c) of (r, s) \<Rightarrow> (r, c\<lparr>qc_server := s\<rparr>))"

definition quic_connection_is_done :: "quic_connection \<Rightarrow> bool" where
  "quic_connection_is_done c = quic_is_done (qc_server c)"

subsection \<open>The TLS pool\<close>

record tls_profile =
  tpf_layout :: capacities
  tpf_authority :: authority_ref

record tls_pool =
  tpl_profile :: tls_profile
  tpl_slots :: "(scratch, server) slot list"

definition tls_profile_of :: "'k authorities \<Rightarrow> shard \<Rightarrow> tls_profile" where
  "tls_profile_of h s = \<lparr>tpf_layout = tls_workspace_layout (h ! shd_authority s), tpf_authority = shd_authority s\<rparr>"

definition tls_profile_eq :: "tls_profile \<Rightarrow> tls_profile \<Rightarrow> bool" where
  "tls_profile_eq p q \<longleftrightarrow> tpf_layout p = tpf_layout q \<and> ptr_eq (tpf_authority p) (tpf_authority q)"

definition tls_into_pool :: "nat \<Rightarrow> tls_profile \<Rightarrow> tls_pool" where
  "tls_into_pool capacity p = \<lparr>tpl_profile = p, tpl_slots = replicate capacity (Vacant (layout_allocate (tpf_layout p)))\<rparr>"

definition tls_pool_capacities :: "tls_pool \<Rightarrow> nat \<times> nat \<times> nat" where
  "tls_pool_capacities pl = layout_capacities (tpf_layout (tpl_profile pl))"

definition tls_matches_shard :: "'k authorities \<Rightarrow> tls_pool \<Rightarrow> shard \<Rightarrow> bool" where
  "tls_matches_shard h pl s \<longleftrightarrow>
     tpf_layout (tpl_profile pl) = tls_workspace_layout (h ! shd_authority s) \<and>
     ptr_eq (tpf_authority (tpl_profile pl)) (shd_authority s)"

definition tls_pool_connect :: "slab \<Rightarrow> tls_pool \<Rightarrow> nat option \<times> tls_pool" where
  "tls_pool_connect vacant pl =
     (case slots_insert vacant tls_with_workspace (tpl_slots pl) of (lease, slots) \<Rightarrow> (lease, pl\<lparr>tpl_slots := slots\<rparr>))"

text \<open>What a leased connection does: run an operation of the server in its slot, under the pool's authority.\<close>

definition pooled_run ::
    "nat \<Rightarrow> (authority_ref \<Rightarrow> (server \<times> 'k, 'x, 'a) eff) \<Rightarrow> tls_pool \<times> 'k \<Rightarrow> (('x + 'a) \<times> tls_pool \<times> 'k) option" where
  "pooled_run i m = (\<lambda>(pl, k).
     case slots_run i (m (tpf_authority (tpl_profile pl))) (tpl_slots pl) k of
       None \<Rightarrow> None
     | Some (r, slots, k) \<Rightarrow> Some (r, pl\<lparr>tpl_slots := slots\<rparr>, k))"

definition pooled_connection_read_into ::
    "'k env \<Rightarrow> ('k, 'e, 't) sink \<Rightarrow> 'k authorities \<Rightarrow> nat \<Rightarrow> epoch \<Rightarrow> bytes \<Rightarrow> tls_pool \<times> 'k \<Rightarrow>
     (('e drive_error + unit) \<times> tls_pool \<times> 'k) option" where
  "pooled_connection_read_into N K h i ep data = pooled_run i (\<lambda>a. read_authorized N K (h ! a) ep data)"

definition pooled_note_early_data :: "nat \<Rightarrow> nat \<Rightarrow> tls_pool \<times> 'k \<Rightarrow> ((conn_error + unit) \<times> tls_pool \<times> 'k) option" where
  "pooled_note_early_data i len = pooled_run i (\<lambda>_ (v, k). case note_early_data len v of (r, v) \<Rightarrow> (r, (v, k)))"

definition pooled_send_update ::
    "'k env \<Rightarrow> ('k, 'e, 't) sink \<Rightarrow> nat \<Rightarrow> key_update_request \<Rightarrow> tls_pool \<times> 'k \<Rightarrow> (('e drive_error + unit) \<times> tls_pool \<times> 'k) option" where
  "pooled_send_update N K i request = pooled_run i (\<lambda>_. updates_send_into N K request)"

definition pooled_selected_alpn :: "'k authorities \<Rightarrow> nat \<Rightarrow> tls_pool \<Rightarrow> bytes option" where
  "pooled_selected_alpn h i pl =
     (case tpl_slots pl ! i of
        Occupied v \<Rightarrow> server_selected_alpn v (h ! tpf_authority (tpl_profile pl))
      | _ \<Rightarrow> None)"

text \<open>Dropping the lease recycles the connection into the seed of its slot.\<close>

definition pooled_release :: "nat \<Rightarrow> tls_pool \<Rightarrow> tls_pool" where
  "pooled_release i pl = pl\<lparr>tpl_slots := slots_release stored_into_seed i (tpl_slots pl)\<rparr>"

subsection \<open>The QUIC pool\<close>

record quic_pool =
  qpl_profile :: quic_profile
  qpl_authority :: authority_ref
  qpl_slots :: "(quic_seed, session) slot list"

definition quic_into_pool :: "nat \<Rightarrow> quic_profile \<Rightarrow> authority_ref \<Rightarrow> quic_pool" where
  "quic_into_pool capacity p a =
     \<lparr>qpl_profile = p, qpl_authority = a,
      qpl_slots = replicate capacity (Vacant \<lparr>qs_workspace = layout_allocate (qp_layout p), qs_transport_params = []\<rparr>)\<rparr>"

definition quic_pool_capacities :: "quic_pool \<Rightarrow> nat \<times> nat \<times> nat \<times> nat" where
  "quic_pool_capacities pl =
     (case layout_capacities (qp_layout (qpl_profile pl)) of
        (reassembly, flight1, identity) \<Rightarrow> (reassembly, flight1, identity, qp_transport_params_capacity (qpl_profile pl)))"

definition quic_matches_shard :: "quic_pool \<Rightarrow> shard \<Rightarrow> bool" where
  "quic_matches_shard pl s \<longleftrightarrow> ptr_eq (qpl_authority pl) (shd_authority s)"

text \<open>A reservation is the index of a vacant slot, whose seed takes the connection's transport parameters.\<close>

definition quic_reserve :: "slab \<Rightarrow> quic_pool \<Rightarrow> nat option \<times> quic_pool" where
  "quic_reserve vacant pl =
     (case slots_reserve vacant (\<lambda>seed. seed\<lparr>qs_transport_params := []\<rparr>) (qpl_slots pl) of
        (lease, slots) \<Rightarrow> (lease, pl\<lparr>qpl_slots := slots\<rparr>))"

definition quic_reservation_write :: "nat \<Rightarrow> bytes \<Rightarrow> quic_pool \<Rightarrow> ((conn_error + unit) \<times> quic_pool) option" where
  "quic_reservation_write i bs pl =
     map_option (\<lambda>(r, slots). (r, pl\<lparr>qpl_slots := slots\<rparr>))
       (slots_seed i
         (\<lambda>seed.
           case retained_try_extend bs \<lparr>rb_bytes = qs_transport_params seed,
               rb_limit = qp_transport_params_capacity (qpl_profile pl)\<rparr> of
             (r, b) \<Rightarrow> (r, seed\<lparr>qs_transport_params := rb_bytes b\<rparr>))
         (qpl_slots pl))"

text \<open>A reservation that is dropped gives its slot back.\<close>

definition quic_reservation_drop :: "nat \<Rightarrow> quic_pool \<Rightarrow> quic_pool" where
  "quic_reservation_drop i pl = pl\<lparr>qpl_slots := slots_cancel i (qpl_slots pl)\<rparr>"

definition quic_reservation_connect :: "nat \<Rightarrow> quic_pool \<Rightarrow> quic_pool" where
  "quic_reservation_connect i pl =
     pl\<lparr>qpl_slots := slots_fill i (\<lambda>seed. quic_with_workspace (qs_transport_params seed) (qs_workspace seed)) (qpl_slots pl)\<rparr>"

definition quic_pooled_run ::
    "nat \<Rightarrow> (authority_ref \<Rightarrow> (session \<times> 'k, 'x, 'a) eff) \<Rightarrow> quic_pool \<times> 'k \<Rightarrow> (('x + 'a) \<times> quic_pool \<times> 'k) option" where
  "quic_pooled_run i m = (\<lambda>(pl, k).
     case slots_run i (m (qpl_authority pl)) (qpl_slots pl) k of
       None \<Rightarrow> None
     | Some (r, slots, k) \<Rightarrow> Some (r, pl\<lparr>qpl_slots := slots\<rparr>, k))"

definition quic_pooled_read_framed_into ::
    "'k env \<Rightarrow> ('k, 'e) lender \<Rightarrow> ('k, 'e, 't) sink \<Rightarrow> 'k authorities \<Rightarrow> nat \<Rightarrow> epoch \<Rightarrow> bytes \<Rightarrow> quic_pool \<times> 'k \<Rightarrow>
     (('e drive_error + unit) \<times> quic_pool \<times> 'k) option" where
  "quic_pooled_read_framed_into N lend K h i ep raw = quic_pooled_run i (\<lambda>a. quic_read_authorized_framed N lend K (h ! a) ep raw)"

definition quic_pooled_note_early_data :: "nat \<Rightarrow> nat \<Rightarrow> quic_pool \<times> 'k \<Rightarrow> ((conn_error + unit) \<times> quic_pool \<times> 'k) option" where
  "quic_pooled_note_early_data i len = quic_pooled_run i (\<lambda>_ (s, k). case quic_note_early_data len s of (r, s) \<Rightarrow> (r, (s, k)))"

definition quic_pooled_release :: "nat \<Rightarrow> quic_pool \<Rightarrow> quic_pool" where
  "quic_pooled_release i pl = pl\<lparr>qpl_slots := slots_release quic_stored_into_seed i (qpl_slots pl)\<rparr>"

end
