(* ===== verification/FlightExtent.thy ===== *)
theory FlightExtent
  imports Effects
begin

section \<open>The extent of a flight's storage\<close>

text \<open>
  A flight exchanges a session's buffer for the sink's and back.  Whatever is encoded, and whether or not it succeeds, the
  session has its own buffer back afterwards, with the place and the capacity it had before.  The locale
  \<open>flight_owner\<close> states what this needs of a session, and is interpreted on the sessions of both sides.
\<close>

text \<open>The extent of a buffer: where its own part starts, and how much it may hold.\<close>

definition extent :: "bounded_buffer \<Rightarrow> nat \<times> nat" where
  "extent b = (bb_base b, bb_limit b)"

definition steady :: "(bounded_buffer \<Rightarrow> 'r \<times> bounded_buffer) \<Rightarrow> bool" where
  "steady w \<longleftrightarrow> (\<forall>b. extent (snd (w b)) = extent b)"

named_theorems steady_intros \<open>writers that leave the extent of a buffer alone\<close>

lemma extent_ops [simp]:
  "extent (put_u8 E_bb v b) = extent b" "extent (put_u16 E_bb h b) = extent b" "extent (put_u24 E_bb w b) = extent b"
  "extent (put_u32 E_bb w b) = extent b" "extent (put_slice E_bb bs b) = extent b"
  "extent (snd (reserve_length_prefix E_bb n b)) = extent b" "extent (rollback_to E_bb n b) = extent b"
  "extent (patch_length_prefix E_bb st n m b) = extent b" "extent (bb_clear b) = extent b"
  "extent (snd (bb_try_extend bs b)) = extent b" "extent (snd (bb_reserve_encoded n b)) = extent b"
  "extent (b\<lparr>bb_bytes := bs\<rparr>) = extent b"
  by (simp_all add: bb_defs extent_def Let_def bb_clear_def bb_try_extend_def)

lemma extent_frame [simp]:
  "extent (frame_drop E_bb f b) = extent b" "extent (snd (frame_finish E_bb f b)) = extent b"
  by (simp_all add: frame_drop_def frame_finish_def Let_def split: sum.split)

lemma extent_frame_finish: "frame_finish E_bb f b = (r, b') \<Longrightarrow> extent b' = extent b"
  using extent_frame(2) [of f b] by simp

lemma extent_frame_begin: "frame_begin E_bb n m b = (r, b') \<Longrightarrow> extent b' = extent b"
  by (auto simp: frame_begin_def split: sum.splits prod.splits) (metis extent_ops(6) snd_conv)+

lemma steady_basic [steady_intros]:
  "steady (emit (put_u8 E_bb v))" "steady (emit (put_u16 E_bb h))" "steady (emit (put_u24 E_bb w))" "steady (emit (put_u32 E_bb w))"
  "steady (emit (put_slice E_bb bs))" "steady skip_w" "steady (retS x)" "steady (getS g)" "steady (\<lambda>b. (Inl e, b))"
  by (simp_all add: steady_def emit_def skip_w_def retS_def getS_def)

lemma steadyD: "steady w \<Longrightarrow> w b = (r, b') \<Longrightarrow> extent b' = extent b"
  by (metis steady_def snd_conv)

lemma steady_bind [steady_intros]: "steady m \<Longrightarrow> (\<And>x. steady (f x)) \<Longrightarrow> steady (bindS m f)"
  unfolding steady_def bindS_def by (auto split: prod.splits sum.splits) (metis snd_conv)+

lemma steady_seq [steady_intros]: "steady m \<Longrightarrow> steady n \<Longrightarrow> steady (seqS m n)"
  unfolding seqS_def by (intro steady_intros)

lemma then_w_seqS: "then_w m k = seqS m k"
  by (simp add: fun_eq_iff then_w_def seqS_def bindS_def)

lemma steady_then [steady_intros]: "steady m \<Longrightarrow> steady n \<Longrightarrow> steady (then_w m n)"
  unfolding then_w_seqS by (intro steady_intros)

lemma steady_seq_w [steady_intros]: "list_all steady ms \<Longrightarrow> steady (seq_w ms)"
  by (induction ms) (auto intro: steady_intros)

lemma steady_for_each [steady_intros]: "(\<And>x. steady (f x)) \<Longrightarrow> steady (for_each_w f xs)"
  by (induction xs) (auto intro: steady_intros)

lemma steady_framed [steady_intros]:
  "steady body \<Longrightarrow> steady (framed E_bb n m body)"
  unfolding steady_def framed_def
  by (auto split: prod.split sum.split) (metis extent_frame extent_frame_begin steadyD steady_def snd_conv)+

lemma steady_frames [steady_intros]:
  "steady body \<Longrightarrow> steady (framed_u8 E_bb body)" "steady body \<Longrightarrow> steady (framed_u16 E_bb body)"
  "steady body \<Longrightarrow> steady (framed_u24 E_bb body)" "steady body \<Longrightarrow> steady (extension_begin E_bb ty body)"
  by (simp_all add: framed_u8_def framed_u16_def framed_u24_def extension_begin_def steady_framed steady_then steady_basic)

lemma steady_frames_out [steady_intros]:
  "steady (frame_encode_finished E_bb data)" "steady (frame_encode_certificate_verify E_bb scheme sig)"
  by (simp_all add: frame_encode_finished_def encode_verify_data_def frame_encode_certificate_verify_def certificate_verify_encode_fields_def
      steady_intros)

subsection \<open>Sessions that own a flight\<close>

text \<open>What a session holds: the rest of it that handlers leave alone, and the extent of its flight.\<close>

definition held :: "'a lens \<Rightarrow> ('a \<Rightarrow> 'w) \<Rightarrow> 'a \<Rightarrow> 'w \<times> nat \<times> nat" where
  "held L rest1 a = (rest1 a, extent (lens_get L a))"

locale flight_owner =
  fixes L :: "'a lens" and rest1 :: "'a \<Rightarrow> 'w"
  assumes get_put: "lens_get L (lens_put L b a) = b"
    and rest_put: "rest1 (lens_put L b a) = rest1 a"
begin

lemma held_put [simp]: "held L rest1 (lens_put L b a) = (rest1 a, extent b)"
  by (simp add: held_def get_put rest_put)

lemma held_encode: "steady w \<Longrightarrow> keeps (held L rest1) (encodeS L w)"
  by (rule keepsI) (auto simp: encodeS_def held_def get_put rest_put split: prod.split dest: steadyD)

lemma held_putS: "steady (emit f) \<Longrightarrow> keeps (held L rest1) (putS L f)"
  unfolding putS_def by (rule held_encode)

lemma held_with_flight:
  assumes "keeps (held L rest1) body"
  shows "keeps (held L rest1) (with_flight K L suite ep body)"
proof (rule keepsI)
  fix s :: "'a \<times> 'b"
  have body: "held L rest1 a = (rest1 (fst s), extent b)" if "body (lens_put L b (fst s), k) = (r, (a, k'))" for b k r a k'
    using keepsD [OF assms that] by simp
  show "held L rest1 (fst (snd (with_flight K L suite ep body s))) = held L rest1 (fst s)"
    unfolding with_flight_def Let_def
    by (auto simp: bb_flight_def flight_drop_def flight_commit_def split: prod.splits sum.splits option.splits dest!: body)
      (auto simp: extent_def held_def get_put rest_put)
qed

lemma held_framed:
  assumes "keeps (held L rest1) body"
  shows "keeps (held L rest1) (framedS L n m body)"
proof (rule keepsI)
  fix s :: "'a \<times> 'b"
  have body: "held L rest1 a = (rest1 (fst s), extent b)" if "body (lens_put L b (fst s), k) = (r, (a, k'))" for b k r a k'
    using keepsD [OF assms that] by simp
  show "held L rest1 (fst (snd (framedS L n m body s))) = held L rest1 (fst s)"
    unfolding framedS_def
    by (auto split: prod.splits sum.splits dest!: body extent_frame_begin)
      (auto simp: held_def get_put rest_put dest!: extent_frame_finish)
qed

end

end
