(* ===== verification/ReadStorage.thy ===== *)
theory ReadStorage
  imports FlightExtent
begin

section \<open>What reading keeps\<close>

text \<open>
  Reading a record keeps the extent of the reassembler's buffer, and whatever the callback keeps: the lemmas by which the
  invariants of a handler become invariants of a connection, on both sides.
\<close>

lemma append_extent: "reassembler_append bs r = (res, r') \<Longrightarrow> extent (rs_buf r') = extent (rs_buf r)"
  by (auto simp: reassembler_append_def bb_try_extend_def split: if_splits)

lemma fill_buffer_extent: "fill_buffer input r = (res, r') \<Longrightarrow> extent (rs_buf r') = extent (rs_buf r)"
  by (auto simp: fill_buffer_def Let_def split: prod.splits sum.splits if_splits dest!: append_extent)

text \<open>One turn of the loop either ends it or leads to the next turn, with the reassembler's storage and the predicate kept.\<close>

lemma read_loop_turn:
  assumes "\<And>m s. P s \<Longrightarrow> P (snd (proc m s))" and "P s"
  shows "(\<exists>res r' s'. read_loop proc ep input r s = (res, r', s') \<and> extent (rs_buf r') = extent (rs_buf r) \<and> P s') \<or>
    (\<exists>input' r' s'. read_loop proc ep input r s = read_loop proc ep input' r' s' \<and> extent (rs_buf r') = extent (rs_buf r) \<and> P s' \<and>
       2 * length input' + (if bb_is_empty (rs_buf r') then 0 else 1) < 2 * length input + (if bb_is_empty (rs_buf r) then 0 else (1 :: nat)))"
proof -
  have step: "P s'" if "proc m s = (x, s')" for m x s' using assms that by (metis snd_conv)
  note [simp] = assms(2)
  show ?thesis
  proof (cases "bb_is_empty (rs_buf r)")
    case True
    show ?thesis
    proof (cases "\<exists>n r1 s'. input \<noteq> [] \<and> 4 \<le> length input \<and> encoded_message_len input = Inr n \<and> n \<le> length input \<and>
        validate_message (take n input ! 0) r = (Inr (), r1) \<and> proc (take n input) s = (Inr (), s')")
      case True
      then obtain n r1 s' where n: "input \<noteq> []" "4 \<le> length input" "encoded_message_len input = Inr n" "n \<le> length input"
        "validate_message (take n input ! 0) r = (Inr (), r1)" "proc (take n input) s = (Inr (), s')" by blast
      have "read_loop proc ep input r s = read_loop proc ep (drop n input) r1 s'"
        using \<open>bb_is_empty (rs_buf r)\<close> n by (subst read_loop.simps) (simp add: Let_def)
      moreover have "rs_buf r1 = rs_buf r" using validate_message_bufD [OF n(5)] .
      ultimately show ?thesis
        using \<open>bb_is_empty (rs_buf r)\<close> n encoded_message_len_ge [OF n(3)] step [OF n(6)]
        by (intro disjI2 exI [of _ "drop n input"] exI [of _ r1] exI [of _ s']) auto
    next
      case False
      with \<open>bb_is_empty (rs_buf r)\<close> show ?thesis
        by (intro disjI1, subst read_loop.simps)
          (auto simp: Let_def split: prod.split sum.split dest: append_extent validate_message_bufD step)
    qed
  next
    case False
    obtain x r1 where fill: "fill_buffer input r = (x, r1)" by (cases "fill_buffer input r")
    note ext = fill_buffer_extent [OF fill]
    show ?thesis
    proof (cases "\<exists>input'. x = Inr (input', True)")
      case True
      then obtain input' where x: "x = Inr (input', True)" by blast
      obtain w r3 where val: "validate_message (bb_as_slice (rs_buf r1) ! 0) (r1\<lparr>rs_epoch := None\<rparr>) = (w, r3)"
        by (cases "validate_message (bb_as_slice (rs_buf r1) ! 0) (r1\<lparr>rs_epoch := None\<rparr>)")
      have r3: "rs_buf r3 = rs_buf r1" using validate_message_bufD [OF val] by simp
      obtain y s' where run: "proc (bb_as_slice (rs_buf r3)) s = (y, s')" by (cases "proc (bb_as_slice (rs_buf r3)) s")
      show ?thesis
      proof (cases "\<exists>u u'. w = Inr u \<and> y = Inr u'")
        case True
        then have "read_loop proc ep input r s = read_loop proc ep input' (r3\<lparr>rs_buf := bb_clear (rs_buf r3)\<rparr>) s'"
          using \<open>\<not> bb_is_empty (rs_buf r)\<close> fill x val run by (subst read_loop.simps) (auto simp: Let_def)
        with step [OF run] ext r3 fill_buffer_consumes [OF fill [unfolded x]] \<open>\<not> bb_is_empty (rs_buf r)\<close> show ?thesis
          by (intro disjI2 exI [of _ input'] exI [of _ "r3\<lparr>rs_buf := bb_clear (rs_buf r3)\<rparr>"] exI [of _ s']) auto
      next
        case False
        with \<open>\<not> bb_is_empty (rs_buf r)\<close> fill x val run ext r3 step [OF run] show ?thesis
          by (intro disjI1, subst read_loop.simps) (auto simp: Let_def split: sum.split)
      qed
    next
      case False
      with \<open>\<not> bb_is_empty (rs_buf r)\<close> fill ext show ?thesis
        by (intro disjI1, subst read_loop.simps) (auto split: sum.split bool.split)
    qed
  qed
qed

lemma read_loop_keeps:
  assumes "\<And>m s. P s \<Longrightarrow> P (snd (proc m s))"
  shows "read_loop proc ep input r s = (res, r', s') \<Longrightarrow> P s \<Longrightarrow> extent (rs_buf r') = extent (rs_buf r) \<and> P s'"
proof (induction "2 * length input + (if bb_is_empty (rs_buf r) then 0 else (1 :: nat))" arbitrary: input r s rule: less_induct)
  case less
  from read_loop_turn [of P proc s, OF assms less(3), of ep input r] less show ?case by fastforce
qed

lemma reassembler_read_keeps:
  assumes "\<And>m s. P s \<Longrightarrow> P (snd (proc m s))" and "reassembler_read proc ep data r s = (res, r', s')" and "P s"
  shows "extent (rs_buf r') = extent (rs_buf r) \<and> P s'"
proof -
  have b: "extent (rs_buf r1) = extent (rs_buf r)" if "begin_record ep r = (x, r1)" for x r1
    using that by (auto simp: begin_record_def split: if_splits)
  have "extent (rs_buf r') = extent (rs_buf r1) \<and> P s'" if "read_loop proc ep data r1 s = (res, r', s')" for r1
    using read_loop_keeps [of P proc, OF assms(1) that assms(3)] by simp
  then show ?thesis
    using assms(2,3) by (auto simp: reassembler_read_def split: prod.splits sum.splits dest!: b)
qed

end
