(* ===== verification/ServerStorage.thy ===== *)
theory ServerStorage
  imports ServerPools ReadStorage
begin

section \<open>The server's own storage\<close>

text \<open>
  Every operation of a server connection keeps its configuration, its transport and the extents of its buffers:
  what a pool reserved for a slot is what the slot has when the connection is recycled.
\<close>

definition fixed :: "session \<Rightarrow> connection_config \<times> mode \<times> nat \<times> nat" where
  "fixed s = (sn_connection s, sn_transport_mode s, extent (bf_identity_workspace (sn_buffers s)))"

interpretation srv_flight: flight_owner flight_lens fixed
  by unfold_locales (simp_all add: flight_lens_def fixed_def)

abbreviation kept :: "session \<Rightarrow> (connection_config \<times> mode \<times> nat \<times> nat) \<times> nat \<times> nat" where
  "kept \<equiv> held flight_lens fixed"

lemma kept_updates [simp]:
  "kept (absorb bs s) = kept s" "kept (set_state st s) = kept s" "kept (snd (on_traffic m s)) = kept s"
  "kept (snd (transcript_selectS alg s)) = kept s" "kept (snd (retain_identity raw s)) = kept s"
  "kept (set_identity (bb_clear (bf_identity_workspace (sn_buffers s))) s) = kept s"
  "kept (s\<lparr>sn_peer := p\<rparr>) = kept s" "kept (s\<lparr>sn_application := a\<rparr>) = kept s" "kept (s\<lparr>sn_handshake := h\<rparr>) = kept s"
  by (simp_all add: held_def fixed_def absorb_def set_state_def on_traffic_def transcript_selectS_def retain_identity_def set_identity_def
      flight_lens_def bb_try_extend_def extent_def bb_clear_def split: prod.split)

lemma keeps_stat_hash [intro, simp]: "keeps v (transcript_hashS C a)"
  unfolding transcript_hashS_def by (intro keeps_intros)

lemma keeps_clock [intro, simp]: "keeps v (clockS N)"
  unfolding clockS_def by (intro keeps_intros)

lemmas kept_intros = keeps_prot keeps_clock keeps_stat_hash keeps_bind keeps_seq keeps_when keeps_map_err keeps_upd keeps_ses
  srv_flight.held_encode srv_flight.held_putS srv_flight.held_with_flight srv_flight.held_framed keeps_if keeps_case keeps_basic kept_updates

lemma kept_send_message: "steady w \<Longrightarrow> keeps kept (send_message w)"
  unfolding send_message_def by (intro kept_intros)

lemma steady_list [steady_intros]: "steady w \<Longrightarrow> list_all steady ws \<Longrightarrow> list_all steady (w # ws)" "list_all steady []"
  by simp_all

lemma steady_if [steady_intros]: "steady m \<Longrightarrow> steady n \<Longrightarrow> steady (if b then m else n)"
  by simp

lemma steady_server_writers [steady_intros]:
  "steady (hello_retry_writer echo1 suite grp)" "steady (new_session_ticket_writer lifetime n t early)"
  "steady certificate_request_writer" "steady (certificate_entry_writer der)"
  unfolding hello_retry_writer_def new_session_ticket_writer_def certificate_request_writer_def certificate_entry_writer_def
  by (intro steady_intros | auto split: option.split intro!: steady_intros)+

lemma steady_server_flight [steady_intros]:
  "steady (encrypted_extensions_writer s A offers ng early)" "steady (certificate_writer source raw)"
  unfolding encrypted_extensions_writer_def certificate_writer_def
  by (intro steady_intros | auto split: option.split cert_source.split intro!: steady_intros)+

subsection \<open>Handlers\<close>

lemma kept_respond: "keeps kept (respondS N grp pub)"
proof (rule keepsI)
  fix s :: "session \<times> 'a"
  have "extent b = extent (lens_get flight_lens (fst s))"
    if "bb_reserve_encoded (server_share_len grp) (lens_get flight_lens (fst s)) = (r, b)" for r b
    using extent_ops(11) [of "server_share_len grp" "lens_get flight_lens (fst s)"] that by simp
  then show "kept (fst (snd (respondS N grp pub s))) = kept (fst s)"
    by (auto simp: respondS_def Let_def held_def [of _ _ "fst s"] split: prod.splits bool.splits sum.splits)
qed

lemma kept_admit: "keeps kept (admitS A offered psk now)"
  by (simp add: keeps_def admitS_def split: prod.split)

lemma kept_checks: "keeps kept (hello_checks N A ch raw)"
  unfolding hello_checks_def by (intro kept_intros)

lemma kept_resume: "keeps kept (resume_hello N K A offers algorithm raw)"
  unfolding resume_hello_def try_accept_psk_def Let_def by (intro kept_intros kept_admit)

lemma kept_server_hello: "keeps kept (send_server_hello N K ch suite share psk)"
  unfolding send_server_hello_def server_hello_body_def framedS_u16_def framedS_u24_def
  by (intro kept_intros kept_respond steady_intros)

lemma kept_retry: "keeps kept (send_hello_retry_request N K raw echo1 grp captured)"
  unfolding send_hello_retry_request_def by (intro kept_intros steady_intros)

lemma kept_server_flight: "keeps kept (send_server_flight N K A offers algorithm sc s_hs psk early)"
  unfolding send_server_flight_def send_authentication_def by (intro kept_intros kept_send_message steady_intros)

lemma kept_client_hello: "keeps kept (handle_client_hello N K A ch raw)"
  unfolding handle_client_hello_def accept_hello_def select_protocol_def handshake_keys_def activate_application_def next_state_def Let_def
  by (intro kept_intros kept_checks kept_resume kept_server_hello kept_server_flight kept_retry)

lemma kept_client_auth:
  "keeps kept (handle_end_of_early_data N raw traffic)" "keeps kept (handle_client_certificate N cert raw traffic auth)"
  "keeps kept (handle_client_cert_verify N A cv raw traffic)"
  unfolding handle_end_of_early_data_def handle_client_certificate_def handle_client_cert_verify_def expect_client_finished_def
  by (intro kept_intros)+

lemma kept_ticket: "keeps kept (emit_session_ticket N K A)"
  unfolding emit_session_ticket_def seal_ticket_def Let_def by (intro kept_intros steady_intros)

lemma kept_finished: "keeps kept (handle_client_finished N K A finished raw verify_data)"
  unfolding handle_client_finished_def by (intro kept_intros kept_ticket)

lemma kept_key_update: "keeps kept (handle_key_update C K ku)"
  unfolding handle_key_update_def by (intro kept_intros) (simp add: keeps_def split: prod.split)

lemma kept_process: "keeps kept (process N K A ep msg raw)"
  unfolding process_def
  apply (intro keeps_bind keeps_seq keeps_upd kept_updates keeps_basic)
  subgoal for state
    by (cases state; cases msg; simp; intro impI conjI kept_intros kept_client_hello kept_client_auth kept_finished kept_key_update)
  done

lemma kept_message: "keeps kept (drive_message N K A ep raw)"
  unfolding drive_message_def by (intro kept_intros kept_process)

subsection \<open>Connections\<close>

text \<open>What a connection holds: its configuration, its transport and the extents of its three buffers.\<close>

definition server_storage :: "server \<Rightarrow> ((connection_config \<times> mode \<times> nat \<times> nat) \<times> nat \<times> nat) \<times> nat \<times> nat" where
  "server_storage v = (kept (srv_session v), extent (rs_buf (srv_reassembler v)))"

lemma storage_poison [simp]: "server_storage (server_poison v) = server_storage v"
  by (simp add: server_storage_def server_poison_def poison_def reassembler_discard_def held_def fixed_def flight_lens_def)

lemma storage_read: "read_authorized N K A ep data (v, k) = (r, (v', k')) \<Longrightarrow> server_storage v' = server_storage v"
proof -
  assume run: "read_authorized N K A ep data (v, k) = (r, (v', k'))"
  have kept: "kept (fst (snd (drive_message N K A ep m t))) = kept (fst t)" for m t
    using kept_message [of N K A ep m] by (cases t) (simp add: keeps_def)
  have "extent (rs_buf r1) = extent (rs_buf (srv_reassembler v)) \<and> kept s1 = kept (srv_session v)"
    if "drive_read N K A ep data (srv_reassembler v) (srv_session v, k) = (x, r1, s1, k1)" for x r1 s1 k1
    using reassembler_read_keeps [of "\<lambda>t. kept (fst t) = kept (srv_session v)", OF _ that [unfolded drive_read_def]] kept by simp
  then show ?thesis
    using run by (auto simp: read_authorized_def server_storage_def [of v] split: if_splits prod.splits sum.splits)
      (auto simp: server_storage_def)
qed

lemma storage_note: "note_early_data n v = (r, v') \<Longrightarrow> server_storage v' = server_storage v"
  by (auto simp: note_early_data_def on_early_data_def split: if_splits prod.splits sum.splits) (auto simp: server_storage_def)

lemma storage_update: "updates_send_into N K request (v, k) = (r, (v', k')) \<Longrightarrow> server_storage v' = server_storage v"
  by (auto simp: updates_send_into_def split: if_splits prod.splits sum.splits) (auto simp: server_storage_def set_traffic_def)

subsection \<open>Pools\<close>

text \<open>
  Everything that can happen to a TLS pool and its shard, in any order: connecting, driving any of the leased
  connections, dropping a lease, and replacing the ticket keys of some shard.
\<close>

inductive pool_step ::
    "'k env \<Rightarrow> ('k, 'e, 't) sink \<Rightarrow> slab \<Rightarrow> 'k authorities \<times> tls_pool \<times> 'k \<Rightarrow> 'k authorities \<times> tls_pool \<times> 'k \<Rightarrow> bool"
  for N :: "'k env" and K :: "('k, 'e, 't) sink" and vacant :: slab where
  PoolConnect: "tls_pool_connect vacant pl = (lease, pl') \<Longrightarrow> pool_step N K vacant (h, pl, k) (h, pl', k)"
| PoolRead: "pooled_connection_read_into N K h i ep data (pl, k) = Some (r, pl', k') \<Longrightarrow> pool_step N K vacant (h, pl, k) (h, pl', k')"
| PoolEarlyData: "pooled_note_early_data i n (pl, k) = Some (r, pl', k') \<Longrightarrow> pool_step N K vacant (h, pl, k) (h, pl', k')"
| PoolUpdate: "pooled_send_update N K i request (pl, k) = Some (r, pl', k') \<Longrightarrow> pool_step N K vacant (h, pl, k) (h, pl', k')"
| PoolRelease: "pool_step N K vacant (h, pl, k) (h, pooled_release i pl, k)"
| PoolKeys: "pool_step N K vacant (h, pl, k) (shard_replace_ticket_keys keys s h, pl, k)"

definition slot_storage :: "capacities \<Rightarrow> ((connection_config \<times> mode \<times> nat \<times> nat) \<times> nat \<times> nat) \<times> nat \<times> nat" where
  "slot_storage l =
     (((\<lparr>cc_transport_params = []\<rparr>, Tls, 0, cp_peer_identity l), 0, cp_outbound_flight l), 0, cp_fragmented_message l)"

abbreviation stored_ok :: "capacities \<Rightarrow> server \<Rightarrow> bool" where
  "stored_ok l v \<equiv> server_storage v = slot_storage l"

abbreviation seed_ok :: "capacities \<Rightarrow> scratch \<Rightarrow> bool" where
  "seed_ok l w \<equiv> stored_ok l (tls_with_workspace w)"

text \<open>The pool's invariant: the slots have the profile's storage, and the authority still asks for that layout.\<close>

definition pool_inv :: "shard \<Rightarrow> 'k authorities \<times> tls_pool \<times> 'k \<Rightarrow> bool" where
  "pool_inv s = (\<lambda>(h, pl, k).
     slots_fit (seed_ok (tpf_layout (tpl_profile pl))) (stored_ok (tpf_layout (tpl_profile pl))) (tpl_slots pl) \<and>
     tls_workspace_layout (h ! shd_authority s) = tpf_layout (tpl_profile pl))"

lemma seed_storage: "server_storage (tls_with_workspace (stored_into_seed v)) = slot_storage l" if "server_storage v = slot_storage l"
  using that
  by (auto simp: server_storage_def slot_storage_def tls_with_workspace_def stored_into_seed_def server_into_workspace_def
      server_from_validated_def session_from_validated_def release_buffer_def scratch_from_buffers_def reassembler_with_buffer_def
      held_def fixed_def flight_lens_def)

lemma fresh_storage: "server_storage (tls_with_workspace (layout_allocate l)) = slot_storage l"
  by (simp add: server_storage_def slot_storage_def tls_with_workspace_def layout_allocate_def scratch_new_def server_from_validated_def
      session_from_validated_def reassembler_with_buffer_def held_def fixed_def flight_lens_def bb_with_capacity_def extent_def)

interpretation tls_slots: recycled_slots "seed_ok l" "stored_ok l" "\<lambda>_. tls_with_workspace" stored_into_seed for l
  by unfold_locales (simp_all add: seed_storage)

lemma replace_keys_layout: "tls_workspace_layout (shard_replace_ticket_keys keys s h ! a) = tls_workspace_layout (h ! a)"
  by (cases "shd_authority s < length h"; cases "a = shd_authority s")
    (simp_all add: list_update_beyond shard_replace_ticket_keys_def replace_ticket_keys_def tls_workspace_layout_def nth_list_update)

lemma pooled_run_inv:
  assumes "\<And>a v k r v' k'. m a (v, k) = (r, (v', k')) \<Longrightarrow> server_storage v' = server_storage v"
    and "pooled_run i m (pl, k) = Some (r, pl', k')" and "pool_inv s (h, pl, k)"
  shows "pool_inv s (h, pl', k')"
proof -
  obtain slots where run: "slots_run i (m (tpf_authority (tpl_profile pl))) (tpl_slots pl) k = Some (r, slots, k')"
      "pl' = pl\<lparr>tpl_slots := slots\<rparr>"
    using assms(2) by (auto simp: pooled_run_def split: option.splits prod.splits)
  with assms(1,3) show ?thesis by (auto simp: pool_inv_def elim!: slots_run_fit [OF run(1)])
qed

lemma pool_step_inv: "pool_step N K vacant c c' \<Longrightarrow> pool_inv s c \<Longrightarrow> pool_inv s c'"
proof (induction rule: pool_step.induct)
  case (PoolConnect pl lease pl' h k)
  then show ?case by (auto simp: pool_inv_def tls_pool_connect_def split: prod.splits dest: tls_slots.insert_fit)
next
  case (PoolRead h i ep data pl k r pl' k')
  from storage_read PoolRead(1) [unfolded pooled_connection_read_into_def] PoolRead(2) show ?case by (rule pooled_run_inv)
next
  case (PoolEarlyData i n pl k r pl' k' h)
  have "server_storage v' = server_storage v" if "(\<lambda>(v, k). case note_early_data n v of (r, v) \<Rightarrow> (r, v, k)) (v, k) = (r, v', k')"
    for v v' k k' r
    using that storage_note [of n v] by (auto split: prod.splits)
  from this PoolEarlyData(1) [unfolded pooled_note_early_data_def] PoolEarlyData(2) show ?case by (rule pooled_run_inv)
next
  case (PoolUpdate i request pl k r pl' k' h)
  from storage_update PoolUpdate(1) [unfolded pooled_send_update_def] PoolUpdate(2) show ?case by (rule pooled_run_inv)
next
  case (PoolRelease h pl k i)
  then show ?case by (auto simp: pool_inv_def pooled_release_def intro: tls_slots.release_fit)
qed (simp add: pool_inv_def replace_keys_layout)

lemma pool_reach_inv: "rtranclp (pool_step N K vacant) c c' \<Longrightarrow> pool_inv s c \<Longrightarrow> pool_inv s c'"
  by (induction rule: rtranclp_induct) (auto intro: pool_step_inv)

lemma fresh_pool_inv: "pool_inv s (h, tls_into_pool n (tls_profile_of h s), k)"
  by (simp add: pool_inv_def tls_into_pool_def tls_profile_of_def list_all_iff fresh_storage)

lemma storage_admitted:
  assumes "server_storage v = slot_storage (tls_workspace_layout A)"
  shows "validate_shard A v = Inr ()"
  using assms
  by (auto simp: server_storage_def slot_storage_def held_def fixed_def flight_lens_def extent_def validate_shard_def workspace_layout_def
      validate_with_transport_def flight_len_def tls_workspace_layout_def layout_capacities_def Let_def reassembler_capacity_def
      bb_capacity_def)

text \<open>
  C15.  A pool never hands out a connection its shard would refuse.  From a TLS pool built on a shard's profile, after any
  interleaving of connects, reads, early-data charges and key updates on the leased connections, dropped leases and
  replaced ticket keys, with a slab that may hand out vacant slots as it likes: every leased connection passes
  the admission check of the shard, whose authority may by then have other keys, and the storage
  it gives back is what the profile reserved.
\<close>

theorem pool_always_admitted:
  assumes "rtranclp (pool_step N K vacant) (h, tls_into_pool n (tls_profile_of h s), k) (h', pl, k')"
    and "Occupied v \<in> set (tpl_slots pl)"
  shows "validate_shard (h' ! shd_authority s) v = Inr () \<and> scratch_capacities (stored_into_seed v) = tls_pool_capacities pl"
proof -
  have "pool_inv s (h', pl, k')" by (rule pool_reach_inv [OF assms(1) fresh_pool_inv])
  then have l: "server_storage v = slot_storage (tpf_layout (tpl_profile pl))"
      "tls_workspace_layout (h' ! shd_authority s) = tpf_layout (tpl_profile pl)"
    using assms(2) by (auto simp: pool_inv_def list_all_iff)
  then have "scratch_capacities (stored_into_seed v) = tls_pool_capacities pl"
    by (auto simp: server_storage_def slot_storage_def held_def fixed_def flight_lens_def extent_def scratch_capacities_def
        stored_into_seed_def server_into_workspace_def release_buffer_def scratch_from_buffers_def tls_pool_capacities_def
        layout_capacities_def bb_capacity_def bb_clear_def)
  with storage_admitted l show ?thesis by metis
qed

end
