(* ===== verification/Machine.thy ===== *)
theory Machine
  imports Effects Views
begin

section \<open>Runs of a handshake state machine\<close>

text \<open>
  What the two sides of a connection share: a function that handles one framed message, driven over the
  messages of a connection.  The locale \<open>handshake_machine\<close> states the contract of such a function against
  an abstract machine; its lemmas lift the contract from one message to a run.  It is
  interpreted on the server's and on the client's dispatch.
\<close>

fun run_all :: "(epoch \<Rightarrow> bytes \<Rightarrow> ('s, 'e, unit) eff) \<Rightarrow> (epoch \<times> bytes) list \<Rightarrow> ('s, 'e, unit) eff" where
  "run_all handle [] = retS ()"
| "run_all handle ((ep, raw) # msgs) = seqS (handle ep raw) (run_all handle msgs)"

text \<open>The messages of a run, each with the state it was handled in.\<close>

fun run_trace ::
    "(bytes \<Rightarrow> 'd + message_ref) \<Rightarrow> (epoch \<Rightarrow> bytes \<Rightarrow> ('s, 'e, unit) eff) \<Rightarrow> (epoch \<times> bytes) list \<Rightarrow> 's \<Rightarrow>
     ('s \<times> epoch \<times> message_ref) list" where
  "run_trace decode handle [] s = []"
| "run_trace decode handle ((ep, raw) # msgs) s =
     (case decode raw of
        Inl _ \<Rightarrow> []
      | Inr msg \<Rightarrow> (s, ep, msg) # run_trace decode handle msgs (snd (handle ep raw s)))"

lemma run_all_Cons:
  "run_all handle ((ep, raw) # msgs) s = (Inr (), t) \<longleftrightarrow>
     (\<exists>u. handle ep raw s = (Inr (), u) \<and> run_all handle msgs u = (Inr (), t))"
  by (auto simp: eff_defs split: prod.splits sum.splits)

locale handshake_machine =
  fixes decode :: "bytes \<Rightarrow> 'd + message_ref"
    and handle :: "epoch \<Rightarrow> bytes \<Rightarrow> ('s \<times> 'k, 'e, unit) eff"
    and inv1 :: "'s \<Rightarrow> bool"
    and step :: "'s \<Rightarrow> epoch \<Rightarrow> message_ref \<Rightarrow> 's \<Rightarrow> bool"
    and passed :: "'s \<Rightarrow> 'k \<Rightarrow> message_ref \<Rightarrow> bool"
  assumes handle_step: "inv1 s \<Longrightarrow> handle ep raw (s, k) = (Inr (), (s', k')) \<Longrightarrow>
    \<exists>msg. decode raw = Inr msg \<and> inv1 s' \<and> step s ep msg s' \<and> passed s k msg"
begin

text \<open>Splitting off the first message of a run.\<close>

lemma run_first:
  assumes "run_all handle (m # msgs) (s, k) = (Inr (), (s', k'))" and "inv1 s"
  obtains ep raw msg s1 k1 where "m = (ep, raw)" "decode raw = Inr msg" "handle ep raw (s, k) = (Inr (), (s1, k1))"
    "run_all handle msgs (s1, k1) = (Inr (), (s', k'))" "inv1 s1" "step s ep msg s1" "passed s k msg"
proof -
  obtain ep raw where m: "m = (ep, raw)" by (cases m)
  with assms(1) obtain s1 k1 where u: "handle ep raw (s, k) = (Inr (), (s1, k1))" "run_all handle msgs (s1, k1) = (Inr (), (s', k'))"
    by (force simp only: run_all_Cons)
  with handle_step [OF assms(2) u(1)] m that show ?thesis by blast
qed

lemma run_inv: "run_all handle msgs (s, k) = (Inr (), (s', k')) \<Longrightarrow> inv1 s \<Longrightarrow> inv1 s'"
proof (induction msgs arbitrary: s k)
  case (Cons m msgs)
  from Cons.prems show ?case by (rule run_first) (rule Cons.IH)
qed (simp add: retS_def)

lemma trace_passed:
  "run_all handle msgs (s, k) = (Inr (), (s', k')) \<Longrightarrow> inv1 s \<Longrightarrow>
     ((t, kt), ep, msg) \<in> set (run_trace decode handle msgs (s, k)) \<Longrightarrow> inv1 t \<and> passed t kt msg"
proof (induction msgs arbitrary: s k)
  case (Cons m msgs)
  from Cons.prems(1,2) show ?case
  proof (rule run_first)
    fix ep1 raw1 msg1 s1 k1
    assume "m = (ep1, raw1)" "decode raw1 = Inr msg1" "handle ep1 raw1 (s, k) = (Inr (), (s1, k1))"
      "run_all handle msgs (s1, k1) = (Inr (), (s', k'))" "inv1 s1" "step s ep1 msg1 s1" "passed s k msg1"
    then show ?thesis using Cons.IH [of s1 k1] Cons.prems(2,3) by auto
  qed
qed simp

text \<open>A state in the middle of a run is where the message before it led.\<close>

lemma trace_pred:
  "run_all handle msgs (s, k) = (Inr (), (s', k')) \<Longrightarrow> inv1 s \<Longrightarrow>
     ((t, kt), ep, msg) \<in> set (run_trace decode handle msgs (s, k)) \<Longrightarrow> (t, kt) \<noteq> (s, k) \<Longrightarrow>
     \<exists>u ku ep1 raw1 msg1. ((u, ku), ep1, msg1) \<in> set (run_trace decode handle msgs (s, k)) \<and> inv1 u \<and>
       decode raw1 = Inr msg1 \<and> handle ep1 raw1 (u, ku) = (Inr (), (t, kt))"
proof (induction msgs arbitrary: s k)
  case (Cons m msgs)
  from Cons.prems(1,2) show ?case
  proof (rule run_first)
    fix ep1 raw1 msg1 s1 k1
    assume *: "m = (ep1, raw1)" "decode raw1 = Inr msg1" "handle ep1 raw1 (s, k) = (Inr (), (s1, k1))"
      "run_all handle msgs (s1, k1) = (Inr (), (s', k'))" "inv1 s1" "step s ep1 msg1 s1" "passed s k msg1"
    have t: "((t, kt), ep, msg) \<in> set (run_trace decode handle msgs (s1, k1))" using * Cons.prems(3,4) by auto
    show ?thesis
    proof (cases "(t, kt) = (s1, k1)")
      case True
      with * Cons.prems(2) show ?thesis by fastforce
    next
      case False
      have "set (run_trace decode handle msgs (s1, k1)) \<subseteq> set (run_trace decode handle (m # msgs) (s, k))" using * by auto
      with Cons.IH [OF *(4,5) t False] show ?thesis by blast
    qed
  qed
qed simp

text \<open>
  A run that leaves a set of states which only a message of some kind can leave contains such a message, handled in that set.
\<close>

lemma run_leaves:
  assumes leave: "\<And>s ep msg s'. inv1 s \<Longrightarrow> before s \<Longrightarrow> step s ep msg s' \<Longrightarrow> before s' \<or> key_message msg"
  shows "run_all handle msgs (s, k) = (Inr (), (s', k')) \<Longrightarrow> inv1 s \<Longrightarrow> before s \<Longrightarrow> \<not> before s' \<Longrightarrow>
    \<exists>t kt ep msg. ((t, kt), ep, msg) \<in> set (run_trace decode handle msgs (s, k)) \<and> before t \<and> key_message msg \<and> passed t kt msg"
proof (induction msgs arbitrary: s k)
  case (Cons m msgs)
  from Cons.prems(1,2) show ?case
  proof (rule run_first)
    fix ep1 raw1 msg1 s1 k1
    assume *: "m = (ep1, raw1)" "decode raw1 = Inr msg1" "handle ep1 raw1 (s, k) = (Inr (), (s1, k1))"
      "run_all handle msgs (s1, k1) = (Inr (), (s', k'))" "inv1 s1" "step s ep1 msg1 s1" "passed s k msg1"
    show ?thesis
    proof (cases "key_message msg1")
      case True
      with * Cons.prems(3) show ?thesis by auto
    next
      case False
      then have "before s1" using leave [OF Cons.prems(2,3) *(6)] by blast
      with Cons.IH [OF *(4,5) _ Cons.prems(4)] * show ?thesis by auto
    qed
  qed
qed (simp add: retS_def)

end

end
