(* ===== verification/Samples.thy ===== *)
theory Samples
  imports Machine Ticket Signatures KeyExchange Schedule
begin

section \<open>Sample messages\<close>

text \<open>
  Concrete messages and stand-ins for the cryptographic parameters, on which the theorems about the two sides of a connection are
  applied: an Ed25519 key presented as a raw public key, its CertificateVerify and a Finished.
\<close>

definition sample_kx :: "'k kx_ops" where
  "sample_kx =
     \<lparr>ag_generate = (\<lambda>_ k. (None, k)), ag_public = (\<lambda>_ _. None), ag_agree = (\<lambda>_ _ _. None), rng_fill = (\<lambda>_ k. (None, k)),
      mk_from_seed = id, mk_encapsulation_key = id, mk_valid = (\<lambda>_. False), mk_encapsulate = (\<lambda>a b. (a, b)),
      mk_decapsulate = (\<lambda>a b. b)\<rparr>"

definition sample_sign :: "'k sign_ops" where
  "sample_sign =
     \<lparr>sg_ed25519_from_seed = (\<lambda>_. None), sg_ecdsa_from_pkcs8 = (\<lambda>_ _ k. (None, k)), sg_rsa_from_pkcs8 = (\<lambda>_. None),
      sg_ed25519_sign = (\<lambda>_ m. m), sg_ecdsa_sign = (\<lambda>_ _ _ k. (None, k)), sg_rsa_sign = (\<lambda>_ _ _ k. (None, k)),
      sg_modulus_len = length\<rparr>"

definition sample_sink :: "('k, unit, 't) sink" where
  "sample_sink = \<lparr>sk_begin_send = (\<lambda>ep n context1 k. (Inr None, k)), sk_end_send = (\<lambda>out k. k), sk_event = (\<lambda>ev context1 k. (Inr (), k))\<rparr>"

text \<open>An Ed25519 key as a raw public key, in a Certificate message.\<close>

definition sample_spki :: bytes where
  "sample_spki = ED25519_PREFIX @ replicate 32 7"

definition sample_certificate :: bytes where
  "sample_certificate = [11, 0, 0, 53, 0, 0, 0, 49, 0, 0, 44] @ sample_spki @ [0, 0]"

definition sample_cert_verify :: bytes where "sample_cert_verify = [15, 0, 0, 5, 8, 7, 0, 1, 5]"
definition sample_finished :: bytes where "sample_finished = [20, 0, 0, 32] @ replicate 32 1"

lemma length_sample_spki: "length sample_spki = 44"
  by (simp add: sample_spki_def ED25519_PREFIX_def)

lemmas sample_reading = message_ref_decode_def message_ref_decode_from_def reader_defs hs_type_from_u8_def wrap_decoder_def reader_finish_def

lemma sample_decode:
  "message_ref_decode copy_inline_ref sample_cert_verify = Inr (RCertificateVerify \<lparr>cvr_algorithm = ED25519, cvr_signature = [5]\<rparr>)"
  "message_ref_decode copy_inline_ref sample_finished = Inr (RFinished (replicate 32 1))"
  by (simp_all add: sample_reading sample_cert_verify_def sample_finished_def certificate_verify_ref_decode_def
      reader_take_all_def from_wire_id_def ED25519_def)

definition sample_entries :: certificate_entries where
  "sample_entries = \<lparr>ces_encoded = [0, 0, 44] @ sample_spki @ [0, 0], ces_len = 1\<rparr>"

lemma sample_entry: "certificate_entry_ref_decode copy_inline_ref ([0, 0, 44] @ sample_spki @ [0, 0]) =
    Inr (\<lparr>cer_cert_data = sample_spki, cer_extensions = []\<rparr>, [])"
  by (simp add: certificate_entry_ref_decode_def reader_defs extensions_decode_def length_sample_spki extensions_scan.simps
      framed_decode_u24_def framed_validate_def)
    (use length_sample_spki in auto)

lemma sample_certificate_decode:
  "message_ref_decode copy_inline_ref sample_certificate = Inr (RCertificate \<lparr>certr_context = [], certr_list = sample_entries\<rparr>)"
  by (simp add: sample_reading sample_certificate_def certificate_ref_decode_def certificate_entries_decode_def
      length_sample_spki entries_scan.simps MAX_CERTIFICATE_ENTRIES_def sample_entry [simplified] sample_entries_def)

definition sample_verify_data :: secret where "sample_verify_data = from_bounded_slice (replicate 32 1)"

lemma sample_finished_data: "finished_verify_data crypto_const Sha256 traffic th = Inr sample_verify_data"
  by (simp add: finished_verify_data_def crypto_const_def secret_zeroed_def HASH_MAX_LEN_def SHA384_LEN_def SHA256_LEN_def
      hkdf_expand_label_def hkdf_label_def hkdf_expand_def div_ceil_def Let_def usize_checked_add_def usize_max_def sample_verify_data_def as_slice_def)

lemma sample_leaf_key: "leaf_key_from_spki sample_spki = Inr (LkEd25519 (replicate 32 7))"
  by (simp add: leaf_key_from_spki_iff sample_spki_def)

lemma sample_message: "\<exists>msg. certificate_verify_message copy_inline_ref (replicate 32 0) is_server = Inr msg"
  by (simp add: certificate_verify_message_def copy_inline_ref_def CV_CAPACITY_def HASH_MAX_LEN_def SHA384_LEN_def Let_def)

lemma sample_hash: "tr_sha384 t = None \<Longrightarrow> tr_sha256 t = Some x \<Longrightarrow>
    transcript_hash crypto_const Sha256 t = Inr (from_bounded_slice (replicate 32 0))"
  by (simp add: transcript_hash_def transcript_state_def crypto_const_def SHA256_LEN_def)

end
