(* ===== verification/ServerSafety.thy ===== *)
theory ServerSafety
  imports ServerStorage Machine Samples
begin

section \<open>Safety of the server's state machine\<close>

text \<open>
  The transitions of \<open>drive.rs\<close> refine the TLS 1.3 server state machine, and what follows from it.
\<close>

subsection \<open>What the handlers leave alone\<close>

text \<open>
  \<open>stat\<close> is the part of the session that the steps of the handshake do not touch: only
  \<open>set_state\<close> and the end of a HelloRetryRequest change it.
\<close>

definition stat :: "session \<Rightarrow> mode \<times> server_state \<times> bool \<times> hello_invariant option" where
  "stat s = (sn_transport_mode s, hk_state (sn_handshake s), hk_hrr_done (sn_handshake s), hk_hrr_invariant (sn_handshake s))"

lemma stat_updates [simp]:
  "stat (absorb bs s) = stat s"
  "stat (lens_put flight_lens b s) = stat s"
  "stat (snd (on_traffic m s)) = stat s"
  "stat (snd (transcript_selectS a s)) = stat s"
  "stat (snd (retain_identity raw s)) = stat s"
  "stat (set_identity b s) = stat s"
  by (simp_all add: stat_def absorb_def flight_lens_def on_traffic_def transcript_selectS_def retain_identity_def set_identity_def
      split: prod.split)

lemma stat_record [simp]:
  "stat (s\<lparr>sn_peer := p\<rparr>) = stat s" "stat (s\<lparr>sn_application := a\<rparr>) = stat s"
  "stat (s\<lparr>sn_handshake := (sn_handshake s)\<lparr>hk_transcript := t\<rparr>\<rparr>) = stat s"
  by (simp_all add: stat_def)

lemmas stat_intros = keeps_prot keeps_clock keeps_stat_hash keeps_intros

lemma keeps_send_message [intro, simp]: "keeps stat (send_message w)"
  unfolding send_message_def by (intro stat_intros stat_updates)

lemma keeps_hello_checks [intro, simp]: "keeps stat (hello_checks N A ch raw)"
  unfolding hello_checks_def by (intro stat_intros stat_updates)

lemma keeps_select_protocol [intro, simp]: "keeps stat (select_protocol K A offers)"
  unfolding select_protocol_def by (intro stat_intros) simp

lemma keeps_admitS [intro, simp]: "keeps stat (admitS A offered psk now)"
  by (simp add: keeps_def admitS_def split: prod.split)

lemma keeps_try_accept_psk [intro, simp]: "keeps stat (try_accept_psk N offer keys alpn1 domain)"
  unfolding try_accept_psk_def Let_def by (intro stat_intros)

lemma keeps_resume_hello [intro, simp]: "keeps stat (resume_hello N K A offers algorithm raw)"
  unfolding resume_hello_def by (intro stat_intros keeps_try_accept_psk keeps_admitS stat_updates)

lemma keeps_respondS [intro, simp]: "keeps stat (respondS N grp pub)"
  by (simp add: keeps_def respondS_def Let_def split: prod.split bool.split sum.split)

lemma keeps_send_server_hello [intro, simp]: "keeps stat (send_server_hello N K ch suite share psk)"
  unfolding send_server_hello_def server_hello_body_def framedS_u16_def framedS_u24_def
  by (intro stat_intros keeps_respondS stat_updates)

lemma keeps_handshake_keys [intro, simp]: "keeps stat (handshake_keys N K algorithm psk dhe)"
  unfolding handshake_keys_def Let_def by (intro stat_intros)

lemma keeps_send_authentication [intro, simp]: "keeps stat (send_authentication N A algorithm)"
  unfolding send_authentication_def by (intro stat_intros keeps_send_message)

lemma keeps_send_server_flight [intro, simp]: "keeps stat (send_server_flight N K A offers algorithm sc s_hs psk early)"
  unfolding send_server_flight_def
  by (intro stat_intros keeps_send_message keeps_send_authentication stat_updates) simp

lemma keeps_activate_application [intro, simp]: "keeps stat (activate_application N K algorithm ks)"
  unfolding activate_application_def Let_def by (intro stat_intros stat_updates) simp

lemma keeps_emit_session_ticket [intro, simp]: "keeps stat (emit_session_ticket N K A)"
  unfolding emit_session_ticket_def seal_ticket_def Let_def by (intro stat_intros stat_updates)

subsection \<open>What a ClientHello leads to\<close>

lemma offers_early_data:
  assumes "offers_parse extensions raw = Inr offers" and "off_early_data offers \<noteq> None"
  shows "extensions_find EARLY_DATA extensions \<noteq> None"
proof -
  have one: "hs_early_data t = hs_early_data s \<or> ext_ty x = EARLY_DATA"
    if "note_extension x more s = Inr t" for x more s t
    using that unfolding note_extension_def Let_def by (auto simp: and_then_eq_Inr split: if_splits)
  have all: "note_extensions xs s = Inr t \<Longrightarrow> hs_early_data t \<noteq> None \<Longrightarrow>
      hs_early_data s \<noteq> None \<or> (\<exists>x\<in>set xs. ext_ty x = EARLY_DATA)" for xs s t
  proof (induction xs arbitrary: s)
    case (Cons x xs)
    then obtain u where "note_extension x (xs \<noteq> []) s = Inr u" "note_extensions xs u = Inr t"
      by (auto simp: and_then_eq_Inr)
    then show ?case using one Cons.IH [of u] Cons.prems(2) by fastforce
  qed simp
  obtain t where "note_extensions (extensions_iter extensions) hello_scan_empty = Inr t" "hs_early_data t \<noteq> None"
    using assms unfolding offers_parse_def by (auto simp: and_then_eq_Inr)
  then have "\<exists>x\<in>set (extensions_iter extensions). ext_ty x = EARLY_DATA"
    using all [of "extensions_iter extensions" hello_scan_empty t] by (simp add: hello_scan_empty_def)
  then show ?thesis by (auto simp: extensions_find_def find_None_iff)
qed

lemma hello_checks_early:
  "wpS (hello_checks N A ch raw)
     (\<lambda>(offers, suite) t. hk_hrr_invariant (sn_handshake (fst s)) \<noteq> None \<longrightarrow> off_early_data offers = None) (\<lambda>e t. True) s"
proof (cases "offers_parse (chr_extensions ch) raw")
  case (Inr offers)
  have "off_early_data offers = None"
    if "hk_hrr_invariant (sn_handshake (fst s)) = Some captured"
      "invariant_validate (en_crypto N) captured ch (off_kx offers) = Inr ()" for captured
    using that offers_early_data [OF Inr] by (cases "off_early_data offers") (auto simp: invariant_validate_def split: if_splits)
  then show ?thesis
    unfolding hello_checks_def
    by (auto simp: wp Inr split: sum.split option.split prod.split)
qed (simp add: hello_checks_def wp)

lemma try_accept_needs_keys:
  "wpS (try_accept_psk N offer keys alpn1 domain) (\<lambda>psk t. psk \<noteq> None \<longrightarrow> keys \<noteq> None) (\<lambda>e t. True) s"
  by (cases keys) (simp add: try_accept_psk_def wp, auto intro: wpS_any)

lemma admitS_result:
  "wpS (admitS A offered psk now) (\<lambda>early t. early \<longrightarrow> psk \<noteq> None \<and> offered \<noteq> None) (\<lambda>e t. True) s"
proof -
  obtain b ed k where "admit (au_guard A) offered psk (suite_of (fst s)) now (pr_early_data (sn_peer (fst s))) (snd s) = (b, ed, k)"
    by (metis prod_cases3)
  then show ?thesis
    by (cases b) (auto simp: wpS_def admitS_def split: prod.split elim!: admit_cases)
qed

lemma resume_hello_result:
  "wpS (resume_hello N K A offers algorithm raw)
     (\<lambda>(psk, early) t. (psk \<noteq> None \<longrightarrow> au_ticket_keys A \<noteq> None) \<and> (early \<longrightarrow> psk \<noteq> None \<and> off_early_data offers \<noteq> None))
     (\<lambda>e t. True) s"
  unfolding resume_hello_def
proof (rule wpS_bind_result)
  show "wpS (case (algorithm = RESUMPTION_HASH, off_psk offers) of
         (True, Some psk) \<Rightarrow>
           bindS (askS (\<lambda>s. peer_selected_alpn (sn_peer s) (au_alpn A))) (\<lambda>selected_alpn.
           protS (try_accept_psk N psk (au_ticket_keys A) selected_alpn (au_replay_domain A)))
       | _ \<Rightarrow> retS None) (\<lambda>psk t. psk \<noteq> None \<longrightarrow> au_ticket_keys A \<noteq> None) (\<lambda>e t. True) s"
    using try_accept_needs_keys [of N _ "au_ticket_keys A" _ "au_replay_domain A"]
    by (simp add: wp split: option.split bool.split)
next
  fix psk :: "accepted_psk option" and t :: "session \<times> 'a"
  assume psk: "psk \<noteq> None \<longrightarrow> au_ticket_keys A \<noteq> None"
  show "wpS (bindS (clockS N) (\<lambda>now. bindS (admitS A (off_early_data offers) psk now) (\<lambda>early.
      seqS (updS (absorb raw)) (seqS (case (psk, early) of
         (Some p, True) \<Rightarrow>
           bindS (protS (transcript_hashS (en_crypto N) RESUMPTION_HASH)) (\<lambda>h_ch.
           bindS (tryS error_of_hkdf (client_early_traffic_secret (en_crypto N) (ak_psk p) (as_slice h_ch))) (\<lambda>cets.
           bindS (askS (\<lambda>s. s)) (\<lambda>s.
           bindS (tryS (\<lambda>e. e) (ok_or UnexpectedMessage (ti_max_early_data (ak_ticket p)))) (\<lambda>max_early_data.
           emitS K (suite_of s) (EvZeroRttKeysReady cets max_early_data (peer_selected_alpn (sn_peer s) (au_alpn A)))))))
       | _ \<Rightarrow> retS ()) (retS (psk, early))))))
     (\<lambda>(psk, early) t. (psk \<noteq> None \<longrightarrow> au_ticket_keys A \<noteq> None) \<and> (early \<longrightarrow> psk \<noteq> None \<and> off_early_data offers \<noteq> None))
     (\<lambda>e t. True) t"
    by (rule wpS_bind_result [where P = "\<lambda>_. True"], rule wpS_any, rule TrueI, rule wpS_bind_result [OF admitS_result])
      (rule wpS_seq_any, rule wpS_seq_any, use psk in \<open>simp add: wpS_basic\<close>)
qed


lemma next_state_result:
  assumes "stat (fst s) = (m, st, done1, captured)"
  shows "wpS (next_state N A algorithm c_hs h_sf resumed early)
     (\<lambda>_ t. \<exists>st'. stat (fst t) = (m, st', done1, captured) \<and>
        ((early \<and> m = Tls \<and> st' = ExpectEndOfEarlyData c_hs) \<or>
         (\<not> resumed \<and> au_client_auth A \<noteq> None \<and> st' = ExpectClientCertificate c_hs) \<or>
         ((resumed \<or> au_client_auth A = None) \<and> (\<exists>verify_data. st' = ExpectClientFinished verify_data))))
     (\<lambda>e t. True) s"
  using assms
  by (cases m) (auto simp: next_state_def wp stat_def set_state_def uses_end_of_early_data_def split: sum.split if_splits)

lemma accept_hello_result:
  assumes "stat (fst s) = (m, st, done1, captured)" and "captured \<noteq> None \<longrightarrow> off_early_data offers = None"
  shows "wpS (accept_hello N K A ch raw offers suite share)
     (\<lambda>_ t. \<exists>st'. stat (fst t) = (m, st', done1, captured) \<and>
        ((au_ticket_keys A \<noteq> None \<and> captured = None \<and> m = Tls \<and> (\<exists>traffic. st' = ExpectEndOfEarlyData traffic)) \<or>
         (au_client_auth A \<noteq> None \<and> (\<exists>traffic. st' = ExpectClientCertificate traffic)) \<or>
         ((au_ticket_keys A \<noteq> None \<or> au_client_auth A = None) \<and> (\<exists>verify_data. st' = ExpectClientFinished verify_data))))
     (\<lambda>e t. True) s"
  unfolding accept_hello_def Let_def
proof (rule wpS_seq_view [where v = stat, OF keeps_select_protocol])
  let ?Q = "\<lambda>_ t. \<exists>st'. stat (fst t) = (m, st', done1, captured) \<and>
        ((au_ticket_keys A \<noteq> None \<and> captured = None \<and> m = Tls \<and> (\<exists>traffic. st' = ExpectEndOfEarlyData traffic)) \<or>
         (au_client_auth A \<noteq> None \<and> (\<exists>traffic. st' = ExpectClientCertificate traffic)) \<or>
         ((au_ticket_keys A \<noteq> None \<or> au_client_auth A = None) \<and> (\<exists>verify_data. st' = ExpectClientFinished verify_data)))"
  fix t :: "session \<times> 'a"
  assume t: "stat (fst t) = stat (fst s)"
  let ?P = "\<lambda>(psk, early). (psk \<noteq> None \<longrightarrow> au_ticket_keys A \<noteq> None) \<and> (early \<longrightarrow> psk \<noteq> None \<and> off_early_data offers \<noteq> None)"
  have next1: "wpS (next_state N A (hash_alg suite) c_hs h_sf (psk \<noteq> None) early) ?Q (\<lambda>e t. True) u"
    if "stat (fst u) = stat (fst t)" "?P (psk, early)" for u :: "session \<times> 'a" and psk early c_hs h_sf
    using that t assms by (intro wpS_mono [OF next_state_result [of u m st done1 captured]]) auto
  have result: "wpS (resume_hello N K A offers (hash_alg suite) raw) (\<lambda>x t. ?P x) (\<lambda>e t. True) t"
    using resume_hello_result [of N K A offers "hash_alg suite" raw t] by (simp add: case_prod_beta')
  have rest: "wpS (bindS (askS suite_of) (\<lambda>suite_context.
      bindS (send_server_hello N K ch suite share (psk \<noteq> None)) (\<lambda>dhe.
      bindS (handshake_keys N K (hash_alg suite) psk dhe) (\<lambda>(ks_handshake, c_hs, s_hs).
      seqS (send_server_flight N K A offers (hash_alg suite) suite_context s_hs (psk \<noteq> None) early) (
      bindS (activate_application N K (hash_alg suite) ks_handshake) (\<lambda>h_sf.
      next_state N A (hash_alg suite) c_hs h_sf (psk \<noteq> None) early)))))) ?Q (\<lambda>e t. True) u"
    if "stat (fst u) = stat (fst t)" "?P (psk, early)" for u :: "session \<times> 'a" and psk early
    using that
    by (intro wpS_bind_view [where v = stat] wpS_seq_view [where v = stat] keeps_send_server_hello keeps_handshake_keys
        keeps_send_server_flight keeps_activate_application next1 keeps_basic wpS_case_prod) simp_all
  show "wpS (bindS (resume_hello N K A offers (hash_alg suite) raw) (\<lambda>(psk, early).
      bindS (askS suite_of) (\<lambda>suite_context.
      bindS (send_server_hello N K ch suite share (psk \<noteq> None)) (\<lambda>dhe.
      bindS (handshake_keys N K (hash_alg suite) psk dhe) (\<lambda>(ks_handshake, c_hs, s_hs).
      seqS (send_server_flight N K A offers (hash_alg suite) suite_context s_hs (psk \<noteq> None) early) (
      bindS (activate_application N K (hash_alg suite) ks_handshake) (\<lambda>h_sf.
      next_state N A (hash_alg suite) c_hs h_sf (psk \<noteq> None) early))))))) ?Q (\<lambda>e t. True) t"
    by (rule wpS_bind_keeps [where v = stat, OF keeps_resume_hello result], simp only: split_paired_all prod.case, rule rest) simp_all
qed

subsection \<open>The state machine\<close>

text \<open>
  \<open>phase\<close> is what the client may send next.  \<open>tls_step\<close> is the TLS 1.3 server for given
  authentication policy, whether ticket keys are installed, and transport, and \<open>phase_of\<close> reads the phase off a session.
\<close>

datatype phase =
    AwaitHello bool
  | AwaitEndOfEarlyData
  | AwaitCertificate
  | AwaitCertVerify
  | AwaitFinished
  | Connected
  | Closed

fun phase_of_state :: "bool \<Rightarrow> server_state \<Rightarrow> phase" where
  "phase_of_state retried ExpectClientHello = AwaitHello retried"
| "phase_of_state retried (ExpectEndOfEarlyData _) = AwaitEndOfEarlyData"
| "phase_of_state retried (ExpectClientCertificate _) = AwaitCertificate"
| "phase_of_state retried (ExpectClientCertVerify _) = AwaitCertVerify"
| "phase_of_state retried (ExpectClientFinished _) = AwaitFinished"
| "phase_of_state retried Done = Connected"
| "phase_of_state retried Failed = Closed"

definition phase_of :: "session \<Rightarrow> phase" where
  "phase_of s = phase_of_state (hk_hrr_done (sn_handshake s)) (hk_state (sn_handshake s))"

definition retry_inv :: "session \<Rightarrow> bool" where
  "retry_inv s \<longleftrightarrow> (hk_hrr_done (sn_handshake s) \<longleftrightarrow> hk_hrr_invariant (sn_handshake s) \<noteq> None)"

inductive tls_step :: "client_auth option \<Rightarrow> bool \<Rightarrow> mode \<Rightarrow> phase \<Rightarrow> epoch \<Rightarrow> message_ref \<Rightarrow> phase \<Rightarrow> bool"
  for auth :: "client_auth option" and tickets :: bool and m :: mode where
  Retry: "tls_step auth tickets m (AwaitHello False) PlaintextEpoch (RClientHello ch) (AwaitHello True)"
| HelloEarly: "tickets \<Longrightarrow> m = Tls \<Longrightarrow> tls_step auth tickets m (AwaitHello False) PlaintextEpoch (RClientHello ch) AwaitEndOfEarlyData"
| HelloAuth: "auth = Some a \<Longrightarrow> tls_step auth tickets m (AwaitHello r) PlaintextEpoch (RClientHello ch) AwaitCertificate"
| HelloFull: "tickets \<or> auth = None \<Longrightarrow> tls_step auth tickets m (AwaitHello r) PlaintextEpoch (RClientHello ch) AwaitFinished"
| EarlyEnd: "tls_step auth tickets m AwaitEndOfEarlyData HandshakeEpoch REndOfEarlyData AwaitFinished"
| NoCertificate: "auth \<noteq> Some AuthRequired \<Longrightarrow> certificate_entries_is_empty (certr_list c) \<Longrightarrow>
    tls_step auth tickets m AwaitCertificate HandshakeEpoch (RCertificate c) AwaitFinished"
| Certificate: "\<not> certificate_entries_is_empty (certr_list c) \<Longrightarrow>
    tls_step auth tickets m AwaitCertificate HandshakeEpoch (RCertificate c) AwaitCertVerify"
| CertVerify: "auth = Some a \<Longrightarrow> tls_step auth tickets m AwaitCertVerify HandshakeEpoch (RCertificateVerify cv) AwaitFinished"
| Finish: "tls_step auth tickets m AwaitFinished HandshakeEpoch (RFinished f) Connected"
| Update: "m = Tls \<Longrightarrow> tls_step auth tickets m Connected ApplicationEpoch (RKeyUpdate ku) Connected"

inductive_cases to_finishedE: "tls_step auth tickets m p ep msg AwaitFinished"
inductive_cases to_connectedE: "tls_step auth tickets m p ep msg Connected"
inductive_cases from_closedE: "tls_step auth tickets m Closed ep msg p"

abbreviation authority_step :: "'k authority \<Rightarrow> session \<Rightarrow> epoch \<Rightarrow> message_ref \<Rightarrow> session \<Rightarrow> bool" where
  "authority_step A s ep msg s' \<equiv>
     tls_step (au_client_auth A) (au_ticket_keys A \<noteq> None) (sn_transport_mode s) (phase_of s) ep msg (phase_of s') \<and>
     retry_inv s' \<and> sn_transport_mode s' = sn_transport_mode s"

text \<open>A handler at the session \<open>fst s\<close>, run with the state set to \<open>Failed\<close> or left in place.\<close>

lemma stat_set_state: "stat (set_state st s) = (sn_transport_mode s, st, hk_hrr_done (sn_handshake s), hk_hrr_invariant (sn_handshake s))"
  by (simp add: stat_def set_state_def)

lemma step_of_stat:
  assumes "stat s' = (sn_transport_mode s, st, hk_hrr_done (sn_handshake s), hk_hrr_invariant (sn_handshake s))" and "retry_inv s"
  shows "phase_of s' = phase_of_state (hk_hrr_done (sn_handshake s)) st \<and> retry_inv s' \<and> sn_transport_mode s' = sn_transport_mode s"
  using assms by (simp add: stat_def phase_of_def retry_inv_def)


lemma hello_retry_result:
  assumes "stat (fst s) = (m, st, done1, captured)"
  shows "wpS (send_hello_retry_request N K raw session_id grp inv1) (\<lambda>_ t. stat (fst t) = (m, st, True, Some inv1)) (\<lambda>e t. True) s"
  unfolding send_hello_retry_request_def
proof (intro wpS_bind_view [where v = stat] keeps_basic wpS_with_flight_view [where v = stat] stat_updates)
  fix suite_context suite and t u w :: "session \<times> 'a"
  assume "stat (fst t) = stat (fst s)" "stat (fst u) = stat (fst t)" and w: "stat (fst w) = stat (fst u)"
  then have w: "stat (fst w) = (m, st, done1, captured)" using assms by simp
  have last: "wpS (updS (\<lambda>s. s\<lparr>sn_handshake := (sn_handshake s)\<lparr>hk_hrr_done := True, hk_hrr_invariant := Some inv1\<rparr>\<rparr>))
      (\<lambda>_ t. stat (fst t) = (m, st, True, Some inv1)) (\<lambda>e t. True) v" if "stat (fst v) = stat (fst w)" for v :: "session \<times> 'a"
    using that w by (simp add: wp stat_def)
  show "wpS (seqS (encodeS flight_lens (hello_retry_writer session_id suite grp)) (
       bindS (askS sn_application) (\<lambda>app.
       bindS (tryS (\<lambda>e. e) (application_hash_alg app)) (\<lambda>algorithm.
       seqS (updS (absorb raw)) (
       bindS (protS (transcript_hashS (en_crypto N) algorithm)) (\<lambda>client_hello_hash.
       bindS (tryS error_of_transcript (restart_with_message_hash algorithm client_hello_hash)) (\<lambda>t.
       seqS (updS (\<lambda>s. s\<lparr>sn_handshake := (sn_handshake s)\<lparr>hk_transcript := t\<rparr>\<rparr>)) (
       bindS (flight_fromS flight_lens 0) (\<lambda>bs.
       seqS (updS (absorb bs))
       (updS (\<lambda>s. s\<lparr>sn_handshake := (sn_handshake s)\<lparr>hk_hrr_done := True, hk_hrr_invariant := Some inv1\<rparr>\<rparr>)))))))))))
     (\<lambda>_ t. stat (fst t) = (m, st, True, Some inv1)) (\<lambda>e t. True) w"
    by (intro wpS_bind_view [where v = stat] wpS_seq_view [where v = stat] stat_intros stat_updates stat_record last) simp_all
qed

lemma handle_client_hello_step:
  assumes "retry_inv (fst s)" and "hk_state (sn_handshake (fst s)) = ExpectClientHello"
  shows "wpS (handle_client_hello N K A ch raw)
    (\<lambda>_ t. authority_step A (fst s) PlaintextEpoch (RClientHello ch) (fst t)) (\<lambda>e t. True) s"
proof -
  obtain captured done1 m where c: "hk_hrr_invariant (sn_handshake (fst s)) = captured" "hk_hrr_done (sn_handshake (fst s)) = done1"
    "sn_transport_mode (fst s) = m" by simp
  then have st: "stat (fst s) = (m, ExpectClientHello, done1, captured)" and p: "phase_of (fst s) = AwaitHello done1"
    and inv1: "done1 \<longleftrightarrow> captured \<noteq> None"
    using assms by (auto simp: stat_def phase_of_def retry_inv_def)
  have checks: "wpS (protS (hello_checks N A ch raw)) (\<lambda>x t. captured \<noteq> None \<longrightarrow> off_early_data (fst x) = None) (\<lambda>e t. True) s"
    using hello_checks_early [of N A ch raw s] c by (simp add: wp case_prod_beta')
  show ?thesis
    unfolding handle_client_hello_def
  proof (rule wpS_bind_keeps [where v = stat, OF keeps_prot [OF keeps_hello_checks] checks], simp only: split_paired_all prod.case)
    fix offers :: client_hello_offers and suite :: cipher_suite and t :: "session \<times> 'a"
    assume "stat (fst t) = stat (fst s)" and e: "captured \<noteq> None \<longrightarrow> off_early_data (fst (offers, suite)) = None"
    then have t: "stat (fst t) = (m, ExpectClientHello, done1, captured)" using st by simp
    have accepted: "wpS (accept_hello N K A ch raw offers suite share)
        (\<lambda>_ t. authority_step A (fst s) PlaintextEpoch (RClientHello ch) (fst t)) (\<lambda>e t. True) t" for share
      by (rule wpS_mono [OF accept_hello_result [OF t]])
        (use e inv1 c assms(2) in \<open>auto simp: stat_def phase_of_def retry_inv_def intro: tls_step.intros\<close>)
    have retried: "wpS (send_hello_retry_request N K raw sid grp hello1)
        (\<lambda>_ t. authority_step A (fst s) PlaintextEpoch (RClientHello ch) (fst t)) (\<lambda>e t. True) u"
      if "stat (fst u) = stat (fst t)" "\<not> done1" for sid grp hello1 and u :: "session \<times> 'a"
      by (rule wpS_mono [OF hello_retry_result [of u m ExpectClientHello done1 captured]])
        (use that t c assms(2) in \<open>auto simp: stat_def phase_of_def retry_inv_def intro: tls_step.intros\<close>)
    show "wpS (case ck_selected (off_kx offers) of
         Some share \<Rightarrow> accept_hello N K A ch raw offers suite share
       | None \<Rightarrow>
           bindS (askS (\<lambda>s. hk_hrr_done (sn_handshake s))) (\<lambda>hrr_done.
           if \<not> hrr_done then
             bindS (tryS (\<lambda>e. e) (invariant_capture (en_crypto N) ch (ck_retry_group (off_kx offers)))) (\<lambda>captured.
             send_hello_retry_request N K raw (chr_legacy_session_id ch) (ck_retry_group (off_kx offers)) captured)
           else failS (Protocol MissingExtension)))
       (\<lambda>_ t. authority_step A (fst s) PlaintextEpoch (RClientHello ch) (fst t)) (\<lambda>e t. True) t"
      using accepted retried t by (auto simp: wp stat_def split: option.split sum.split)
  qed
qed


lemma expect_finished_result:
  "wpS (expect_client_finished N traffic)
     (\<lambda>_ t. \<exists>verify_data. stat (fst t) = stat (set_state (ExpectClientFinished verify_data) (fst s))) (\<lambda>e t. True) s"
proof -
  have last: "wpS (updS (set_state (ExpectClientFinished verify_data)))
      (\<lambda>_ t. \<exists>verify_data. stat (fst t) = stat (set_state (ExpectClientFinished verify_data) (fst s))) (\<lambda>e t. True) t"
    if "stat (fst t) = stat (fst s)" for verify_data and t :: "session \<times> 'a"
    using that by (auto simp: wp stat_def set_state_def)
  show ?thesis
    unfolding expect_client_finished_def
    by (intro wpS_bind_view [where v = stat] keeps_stat_hash keeps_basic last) simp
qed

lemma finished_phase:
  assumes "\<exists>verify_data. stat s' = stat (set_state (ExpectClientFinished verify_data) s0)" and "stat s0 = stat (set_state st s)" and "retry_inv s"
  shows "phase_of s' = AwaitFinished \<and> retry_inv s' \<and> sn_transport_mode s' = sn_transport_mode s"
  using assms by (auto simp: stat_def phase_of_def retry_inv_def set_state_def)

lemma end_of_early_data_step:
  assumes "retry_inv s" and "phase_of s = AwaitEndOfEarlyData" and "stat (fst t) = stat (set_state Failed s)"
  shows "wpS (handle_end_of_early_data N raw traffic) (\<lambda>_ t. authority_step A s HandshakeEpoch REndOfEarlyData (fst t)) (\<lambda>e t. True) t"
  unfolding handle_end_of_early_data_def wpS_seq_upd
  by (rule wpS_mono [OF expect_finished_result], insert assms, drule finished_phase [where st = Failed and s = s])
    (auto intro: tls_step.intros)

lemma client_certificate_step:
  assumes "retry_inv s" and "phase_of s = AwaitCertificate" and "stat (fst t) = stat (set_state Failed s)"
  shows "wpS (handle_client_certificate N cert raw traffic (au_client_auth A))
    (\<lambda>_ t. authority_step A s HandshakeEpoch (RCertificate cert) (fst t)) (\<lambda>e t. True) t"
proof (cases "certificate_entries_is_empty (certr_list cert)")
  case True
  have "wpS (seqS (updS (absorb raw)) (expect_client_finished N traffic))
      (\<lambda>_ t. phase_of (fst t) = AwaitFinished \<and> retry_inv (fst t) \<and> sn_transport_mode (fst t) = sn_transport_mode s) (\<lambda>e t. True) t"
    unfolding wpS_seq_upd
    by (rule wpS_mono [OF expect_finished_result], drule finished_phase [where st = Failed and s = s]) (use assms in auto)
  from wpS_mono [OF this, of "\<lambda>_ t. authority_step A s HandshakeEpoch (RCertificate cert) (fst t)" "\<lambda>e t. True"]
  have "wpS (seqS (updS (absorb raw)) (expect_client_finished N traffic))
      (\<lambda>_ t. authority_step A s HandshakeEpoch (RCertificate cert) (fst t)) (\<lambda>e t. True) t"
    if "au_client_auth A \<noteq> Some AuthRequired" using that True assms(2) tls_step.NoCertificate by auto
  then show ?thesis using True by (simp add: handle_client_certificate_def wpS_basic)
next
  case False
  have last: "wpS (updS (set_state (ExpectClientCertVerify traffic)))
      (\<lambda>_ t. authority_step A s HandshakeEpoch (RCertificate cert) (fst t)) (\<lambda>e t. True) u"
    if "stat (fst u) = stat (fst t)" for u :: "session \<times> 'a"
    using that assms False by (auto simp: wp stat_def phase_of_def retry_inv_def set_state_def intro: tls_step.intros)
  have "wpS (bindS (askS (\<lambda>s. pr_client_cert_type (sn_peer s))) (\<lambda>cert_type.
        seqS (liftS (presented_parse N cert cert_type)) (
        seqS (sesS (retain_identity raw)) (
        seqS (updS (absorb raw)) (updS (set_state (ExpectClientCertVerify traffic)))))))
      (\<lambda>_ t. authority_step A s HandshakeEpoch (RCertificate cert) (fst t)) (\<lambda>e t. True) t"
    by (intro wpS_bind_view [where v = stat] wpS_seq_view [where v = stat] stat_intros stat_updates last) simp_all
  with False show ?thesis by (simp add: handle_client_certificate_def wpS_basic)
qed


text \<open>
  \<open>possession_proved\<close>: the signature of a CertificateVerify verifies, under the key of the retained
  certificate message, over the transcript of the session.
\<close>

definition possession_proved :: "'k env \<Rightarrow> session \<Rightarrow> certificate_verify_ref \<Rightarrow> client_identity \<Rightarrow> bool" where
  "possession_proved N s cv identity \<longleftrightarrow>
     (\<exists>algorithm h msg certificate1 presented.
        application_hash_alg (sn_application s) = Inr algorithm \<and>
        transcript_hash (en_crypto N) algorithm (hk_transcript (sn_handshake s)) = Inr h \<and>
        certificate_verify_message (en_ci8 N) (as_slice h) False = Inr msg \<and>
        message_ref_decode (en_ci16 N) (bb_as_slice (bf_identity_workspace (sn_buffers s))) = Inr (RCertificate certificate1) \<and>
        presented_parse N certificate1 (pr_client_cert_type (sn_peer s)) = Inr presented \<and> pi_public presented = identity \<and>
        leaf_key_verify (en_verify N) (pi_leaf presented) (cvr_algorithm cv) msg (cvr_signature cv) = Inr ())"

lemma cert_verify_step:
  assumes "retry_inv s" and "phase_of s = AwaitCertVerify" and "t = (set_state Failed s, k)"
  shows "wpS (handle_client_cert_verify N A cv raw traffic)
    (\<lambda>_ t. authority_step A s HandshakeEpoch (RCertificateVerify cv) (fst t) \<and>
       (\<exists>identity. possession_proved N s cv identity \<and> fst (cv_verify (au_verifier A) identity k))) (\<lambda>e t. True) t"
proof -
  have finish: "wpS (seqS (updS (\<lambda>s. set_identity (bb_clear (bf_identity_workspace (sn_buffers s))) s))
        (seqS (updS (absorb raw)) (expect_client_finished N traffic)))
      (\<lambda>_ t. authority_step A s HandshakeEpoch (RCertificateVerify cv) (fst t)) (\<lambda>e t. True) (set_state Failed s, k')"
    if "au_client_auth A \<noteq> None" for k'
    unfolding wpS_seq_upd
    by (rule wpS_mono [OF expect_finished_result], drule finished_phase [where st = Failed and s = s])
      (use assms that in \<open>auto intro: tls_step.intros\<close>)
  have "wpS (handle_client_cert_verify N A cv raw traffic)
    (\<lambda>_ t. authority_step A s HandshakeEpoch (RCertificateVerify cv) (fst t)) (\<lambda>e t. True) t"
    unfolding handle_client_cert_verify_def assms(3)
    using finish
    by (simp add: wpS_bindS wpS_basic wpS_askS wpS_requireS wpS_worldS transcript_hashS_def wpS_seqS [of "liftS _"] wpS_seqS [of "requireS _ _"]
        split: sum.split prod.split message_ref.split)
  moreover have "wpS (handle_client_cert_verify N A cv raw traffic)
    (\<lambda>_ t. \<exists>identity. possession_proved N s cv identity \<and> fst (cv_verify (au_verifier A) identity k)) (\<lambda>e t. True) t"
    unfolding handle_client_cert_verify_def assms(3)
    by (auto simp: wpS_bindS wpS_basic wpS_askS wpS_requireS wpS_worldS transcript_hashS_def wpS_seqS [of "liftS _"] wpS_seqS [of "requireS _ _"]
        possession_proved_def set_state_def split: sum.split prod.split message_ref.split intro!: wpS_any)
  ultimately show ?thesis by (auto simp: wpS_def split: prod.split sum.split)
qed


lemma keeps_on_failed: "stat (fst t) = stat (set_state st s) \<Longrightarrow> retry_inv s \<Longrightarrow>
    phase_of (fst t) = phase_of_state (hk_hrr_done (sn_handshake s)) st \<and> retry_inv (fst t) \<and> sn_transport_mode (fst t) = sn_transport_mode s"
  using step_of_stat [of "fst t" s st] by (simp add: stat_set_state)

lemma finished_step:
  assumes "retry_inv s" and "phase_of s = AwaitFinished" and "stat (fst t) = stat (set_state Failed s)"
  shows "wpS (handle_client_finished N K A f raw expected)
    (\<lambda>_ t. authority_step A s HandshakeEpoch (RFinished f) (fst t) \<and> verify_data_ct_eq expected f) (\<lambda>e t. True) t"
proof (cases "verify_data_ct_eq expected f")
  case True
  have ticket: "wpS (emit_session_ticket N K A) (\<lambda>_ t. authority_step A s HandshakeEpoch (RFinished f) (fst t)) (\<lambda>e t. True) u"
    if "stat (fst u) = stat (set_state Done s)" for u :: "session \<times> 'a"
  proof -
    have "authority_step A s HandshakeEpoch (RFinished f) (fst w)" if "stat (fst w) = stat (fst u)" for w :: "session \<times> 'a"
      using keeps_on_failed [of w Done s] assms that \<open>stat (fst u) = _\<close> by (auto intro: tls_step.intros)
    then show ?thesis
      using keepsD [OF keeps_emit_session_ticket [of N K A], of u] by (auto simp: wpS_def split: prod.split sum.split)
  qed
  have done1: "wpS (seqS (updS (set_state Done)) (emit_session_ticket N K A))
      (\<lambda>_ t. authority_step A s HandshakeEpoch (RFinished f) (fst t)) (\<lambda>e t. True) u"
    if "stat (fst u) = stat (set_state Failed s)" for u :: "session \<times> 'a"
    unfolding wpS_seq_upd by (rule ticket) (use that in \<open>simp add: stat_def set_state_def\<close>)
  have "wpS (handle_client_finished N K A f raw expected)
      (\<lambda>_ t. authority_step A s HandshakeEpoch (RFinished f) (fst t)) (\<lambda>e t. True) t"
    unfolding handle_client_finished_def
    using True
    by (simp only: not_True_eq_False if_False wpS_seq_upd)
      (rule wpS_bind_view [where v = stat], simp, rule wpS_seq_view [where v = stat], simp, rule done1, use assms in simp)
  with True show ?thesis by simp
qed (simp add: handle_client_finished_def wpS_basic)

lemma keeps_handle_key_update: "keeps stat (handle_key_update C K ku)"
  unfolding handle_key_update_def
  by (intro stat_intros) (simp add: keeps_def split: prod.split)

lemma key_update_step:
  assumes "retry_inv s" and "phase_of s = Connected" and "stat (fst t) = stat (set_state Done s)"
  shows "wpS (handle_key_update C K ku) (\<lambda>_ t. authority_step A s ApplicationEpoch (RKeyUpdate ku) (fst t)) (\<lambda>e t. True) t"
proof (cases "sn_transport_mode s")
  case Tls
  have "authority_step A s ApplicationEpoch (RKeyUpdate ku) (fst w)" if "stat (fst w) = stat (fst t)" for w :: "session \<times> 'a"
    using keeps_on_failed [of w Done s] assms that Tls by (auto intro: tls_step.intros)
  then show ?thesis
    using keepsD [OF keeps_handle_key_update [of C K ku], of t] by (auto simp: wpS_def split: prod.split sum.split)
next
  case Quic
  then show ?thesis
    using assms(3) by (simp add: handle_key_update_def wpS_bindS wpS_askS allows_tls_key_update_def stat_def set_state_def wpS_basic)
qed

text \<open>One message: the machine steps, and what a CertificateVerify or a Finished must have passed.\<close>

definition checked :: "'k env \<Rightarrow> 'k authority \<Rightarrow> session \<Rightarrow> 'k \<Rightarrow> message_ref \<Rightarrow> bool" where
  "checked N A s k msg =
     (case msg of
        RCertificateVerify cv \<Rightarrow> \<exists>identity. possession_proved N s cv identity \<and> fst (cv_verify (au_verifier A) identity k)
      | RFinished f \<Rightarrow> \<exists>verify_data. hk_state (sn_handshake s) = ExpectClientFinished verify_data \<and> verify_data_ct_eq verify_data f
      | _ \<Rightarrow> True)"

lemma server_process_step:
  assumes "retry_inv s"
  shows "wpS (process N K A ep msg raw) (\<lambda>_ t. authority_step A s ep msg (fst t) \<and> checked N A s k msg) (\<lambda>e t. True) (s, k)"
proof -
  let ?t = "(set_state Failed s, k)"
  have plain: "stat (fst ?t) = stat (set_state Failed s)" by simp
  have same: "set_state ExpectClientHello (set_state Failed s) = s" if "hk_state (sn_handshake s) = ExpectClientHello"
    using that by (simp add: set_state_def)
  have same': "set_state Done (set_state Failed s) = set_state Done s" by (simp add: set_state_def)
  note run = process_def checked_def same same' wpS_bindS wpS_askS wpS_seq_upd wpS_basic wpS_protS phase_of_def
  show ?thesis
  proof (cases "hk_state (sn_handshake s)")
    case ExpectClientHello
    then show ?thesis
      using handle_client_hello_step [of "(s, k)" N K A _ raw] assms by (auto simp: run split: message_ref.split)
  next
    case (ExpectEndOfEarlyData x)
    then show ?thesis
      using end_of_early_data_step [OF assms _ plain, of N raw x A] by (auto simp: run split: message_ref.split)
  next
    case (ExpectClientCertificate x)
    then show ?thesis
      using client_certificate_step [OF assms _ plain, of N _ raw x A] by (auto simp: run split: message_ref.split)
  next
    case (ExpectClientCertVerify x)
    then show ?thesis
      using cert_verify_step [OF assms _ refl, of N A _ raw x k] by (auto simp: run split: message_ref.split)
  next
    case (ExpectClientFinished x)
    then show ?thesis
      using finished_step [OF assms _ plain, of N K A _ raw x] by (auto simp: run split: message_ref.split)
  next
    case Done
    then show ?thesis
      using key_update_step [OF assms, of "(set_state Done s, k)" "en_crypto N" K _ A] by (auto simp: run split: message_ref.split)
  next
    case Failed
    then show ?thesis by (auto simp: run split: message_ref.split)
  qed
qed


subsection \<open>Runs\<close>

lemma drive_message_step:
  assumes "retry_inv s" and "drive_message N K A ep raw (s, k) = (Inr (), (s', k'))"
  shows "\<exists>msg. message_ref_decode (en_ci16 N) raw = Inr msg \<and> authority_step A s ep msg s' \<and> checked N A s k msg"
proof -
  obtain msg where m: "message_ref_decode (en_ci16 N) raw = Inr msg" "process N K A ep msg raw (s, k) = (Inr (), (s', k'))"
    using assms(2) by (auto simp: drive_message_def eff_defs map_err_def split: sum.splits)
  then show ?thesis using wpS_result [OF server_process_step [OF assms(1)] m(2)] by simp
qed

interpretation srv: handshake_machine "message_ref_decode (en_ci16 N)" "drive_message N K A" retry_inv
    "\<lambda>s ep msg s'. authority_step A s ep msg s'" "checked N A" for N K A
  by unfold_locales (drule (1) drive_message_step, blast)

lemma initial_session [simp]:
  "retry_inv (session_from_validated cfg m f i)" "phase_of (session_from_validated cfg m f i) = AwaitHello False"
  by (simp_all add: session_from_validated_def retry_inv_def phase_of_def handshake_initial_def)

text \<open>Without resumption, a policy that requires a client certificate leaves only the path through CertificateVerify.\<close>

definition before_proof :: "phase \<Rightarrow> bool" where
  "before_proof p \<longleftrightarrow> p \<in> {AwaitHello False, AwaitHello True, AwaitCertificate, AwaitCertVerify}"

lemma authenticating_step:
  assumes "tls_step (Some AuthRequired) False m p ep msg p'" and "before_proof p"
  shows "before_proof p' \<or> (\<exists>cv. msg = RCertificateVerify cv)"
  using assms by cases (auto simp: before_proof_def)

subsection \<open>Properties\<close>

text \<open>
  C7.  The dispatch refines the TLS 1.3 server.  Every message that \<open>Drive::message\<close> accepts decodes,
  and its processing is a step of the abstract machine from the phase before to the phase after:
  a HelloRetryRequest is answered at most once, 0-RTT never follows one, a client certificate is asked for iff the policy
  says so, and each message comes in its epoch.  A CertificateVerify was accepted
  only with a valid signature by the retained identity and the verifier's consent, a Finished only with the
  expected MAC.
\<close>

theorem server_refines:
  assumes "retry_inv s" and "drive_message N K A ep raw (s, k) = (Inr (), (s', k'))"
  shows "\<exists>msg. message_ref_decode (en_ci16 N) raw = Inr msg \<and>
    tls_step (au_client_auth A) (au_ticket_keys A \<noteq> None) (sn_transport_mode s) (phase_of s) ep msg (phase_of s') \<and>
    retry_inv s' \<and> checked N A s k msg"
  using drive_message_step [OF assms] by blast

text \<open>
  C8.  Required client authentication cannot be skipped.  On a server whose policy requires a certificate
  and that resumes no sessions, a run from a session that has not yet seen the
  client's proof ends in \<open>Done\<close> only if one of its messages was a CertificateVerify whose signature verified
  under the presented identity over the transcript at that moment, and the application's verifier accepted that identity.
\<close>

theorem client_authenticated:
  assumes "au_client_auth A = Some AuthRequired" and "au_ticket_keys A = None"
    and "retry_inv s" and "before_proof (phase_of s)"
    and "run_all (drive_message N K A) msgs (s, k) = (Inr (), (s', k'))" and "is_done (sn_handshake s')"
  shows "\<exists>s1 k1 ep cv identity.
    ((s1, k1), ep, RCertificateVerify cv) \<in> set (run_trace (message_ref_decode (en_ci16 N)) (drive_message N K A) msgs (s, k)) \<and>
    possession_proved N s1 cv identity \<and> fst (cv_verify (au_verifier A) identity k1)"
proof -
  have "\<not> before_proof (phase_of s')"
    using assms(6) by (simp add: before_proof_def phase_of_def is_done_def)
  moreover have "before_proof (phase_of s2) \<or> (\<exists>cv. msg = RCertificateVerify cv)"
    if "before_proof (phase_of s1)" "authority_step A s1 ep msg s2" for s1 ep msg s2
    using that authenticating_step [of _ "phase_of s1" ep msg "phase_of s2"] assms(1,2) by auto
  ultimately show ?thesis
    using srv.run_leaves [where before = "\<lambda>s. before_proof (phase_of s)" and key_message = "\<lambda>msg. \<exists>cv. msg = RCertificateVerify cv",
        OF _ assms(5,3,4)]
    by (fastforce simp: checked_def)
qed

text \<open>What is left of a connection that failed.\<close>

definition wiped :: "server \<Rightarrow> bool" where
  "wiped v \<longleftrightarrow>
     is_failed (sn_handshake (srv_session v)) \<and>
     sn_application (srv_session v) = \<lparr>ap_traffic = TrafficEmpty, ap_master = None, ap_exporter_master = None\<rparr> \<and>
     open_size (sn_transport_mode (srv_session v)) (pr_early_data (sn_peer (srv_session v))) = None \<and>
     bb_is_empty (bf_flight (sn_buffers (srv_session v))) \<and> bb_is_empty (bf_identity_workspace (sn_buffers (srv_session v))) \<and>
     bb_is_empty (rs_buf (srv_reassembler v))"

lemma poison_wiped: "wiped (server_poison v)"
  by (simp add: wiped_def server_poison_def poison_def is_failed_def zeroize_secrets_def traffic_clear_def open_size_def
      early_data_close_def reassembler_discard_def)

text \<open>
  C12.  Failure is final.  When a read fails, the connection is marked failed, its traffic secrets, master and
  exporter secrets are gone, the early-data window is closed and all buffers are empty.  From then on
  every read, framed read, early-data charge and key update is refused with \<open>ConnectionFailed\<close> and changes nothing,
  and no keying material can be exported.
\<close>

theorem server_failure_is_final:
  assumes "\<not> is_failed (sn_handshake (srv_session v))" and "read_authorized N K A ep data (v, k) = (Inl e, (v', k'))"
  shows "wiped v' \<and>
    (\<forall>A ep data k. read_authorized N K A ep data (v', k) = (Inl (Protocol ConnectionFailed), (v', k)) \<and>
       read_authorized_framed N lend K A ep data (v', k) = (Inl (Protocol ConnectionFailed), (v', k))) \<and>
    (\<forall>n. note_early_data n v' = (Inl ConnectionFailed, v')) \<and>
    (\<forall>request k. updates_send_into N K request (v', k) = (Inl (Protocol ConnectionFailed), (v', k))) \<and>
    (\<forall>label context1 out. server_export_keying_material (en_crypto N) v' label context1 out = Inl NotReady)"
proof -
  have w: "wiped v'"
    using assms poison_wiped by (auto simp: read_authorized_def split: prod.splits sum.splits)
  then have "is_failed (sn_handshake (srv_session v'))" "ap_exporter_master (sn_application (srv_session v')) = None"
    by (simp_all add: wiped_def)
  with w show ?thesis
    by (simp add: read_authorized_def read_authorized_framed_def note_early_data_def updates_send_into_def
        server_export_keying_material_def Let_def)
qed


subsection \<open>A sample connection\<close>

definition sample_env :: "unit env" where
  "sample_env =
     \<lparr>en_crypto = crypto_const, en_ci8 = copy_inline_ref, en_ci16 = copy_inline_ref, en_kx = sample_kx, en_sign = sample_sign,
      en_aead = aead_toy, en_verify = (\<lambda>profile key message signature. signature = [5]), en_unicode = sample_unicode,
      en_clock = (\<lambda>k. (0, k))\<rparr>"

definition sample_authority :: "unit authority" where
  "sample_authority =
     \<lparr>au_source = SourceRawPublicKey (SkEd25519 [] []), au_alpn = \<lparr>pa_preferred = [], pa_by_name = []\<rparr>, au_ticket_keys = None,
      au_guard = no_guard, au_client_auth = Some AuthRequired,
      au_verifier = \<lparr>cv_max_certificate_message_size = 100, cv_verify = (\<lambda>identity k. (True, k))\<rparr>, au_replay_domain = [],
      au_flight = \<lparr>fp_tls_flight_len = 0, fp_maximum_quic_transport_parameters_len = 0, fp_maximum_alpn_len = 0, fp_client_auth = True\<rparr>\<rparr>"

definition sample_session :: session where
  "sample_session =
     (session_from_validated \<lparr>cc_transport_params = []\<rparr> Tls (bb_with_capacity 100) (bb_with_capacity 100))
       \<lparr>sn_handshake := \<lparr>hk_state = ExpectClientCertVerify (from_bounded_slice [1]), hk_transcript = \<lparr>tr_sha256 = Some [], tr_sha384 = None\<rparr>,
          hk_hrr_done = False, hk_hrr_invariant = None\<rparr>,
        sn_peer := \<lparr>pr_selected_alpn = None, pr_early_data = early_data_new, pr_client_cert_type = RawPublicKey\<rparr>,
        sn_application := \<lparr>ap_traffic = TrafficSelected Aes128GcmSha256, ap_master = None, ap_exporter_master = None\<rparr>,
        sn_buffers := \<lparr>bf_flight = bb_with_capacity 100,
          bf_identity_workspace = (bb_with_capacity 100)\<lparr>bb_bytes := sample_certificate\<rparr>\<rparr>\<rparr>"

definition sample_presented :: presented_identity where
  "sample_presented =
     \<lparr>pi_leaf = LkEd25519 (replicate 32 7),
      pi_public = \<lparr>ci_cert_type = RawPublicKey, ci_spki_der = sample_spki, ci_chain_der = None\<rparr>\<rparr>"

lemma sample_presented:
  "presented_parse sample_env \<lparr>certr_context = [], certr_list = sample_entries\<rparr> RawPublicKey = Inr sample_presented"
  by (simp add: presented_parse_def sample_env_def sample_entries_def certificate_entries_first_def entries_next_def
      certificate_entries_len_def sample_entry [simplified] result_ok_def sample_presented_def sample_leaf_key)

definition sample_session1 :: session where
  "sample_session1 = set_state (ExpectClientFinished sample_verify_data)
     (absorb sample_cert_verify (set_identity (bb_clear (bf_identity_workspace (sn_buffers sample_session))) sample_session))"

definition sample_session2 :: session where
  "sample_session2 = set_state Done (absorb sample_finished (sample_session1
     \<lparr>sn_peer := (sn_peer sample_session1)\<lparr>pr_early_data := early_data_close (pr_early_data (sn_peer sample_session1))\<rparr>\<rparr>))"

lemma sample_env_fields [simp]:
  "en_crypto sample_env = crypto_const" "en_ci8 sample_env = copy_inline_ref" "en_ci16 sample_env = copy_inline_ref"
  "en_verify sample_env profile key message signature \<longleftrightarrow> signature = [5]"
  by (simp_all add: sample_env_def)

lemma sample_session_fields [simp]:
  "hk_state (sn_handshake sample_session) = ExpectClientCertVerify (from_bounded_slice [1])"
  "hk_transcript (sn_handshake sample_session) = \<lparr>tr_sha256 = Some [], tr_sha384 = None\<rparr>"
  "sn_application sample_session = \<lparr>ap_traffic = TrafficSelected Aes128GcmSha256, ap_master = None, ap_exporter_master = None\<rparr>"
  "pr_client_cert_type (sn_peer sample_session) = RawPublicKey"
  "bf_identity_workspace (sn_buffers sample_session) = (bb_with_capacity 100)\<lparr>bb_bytes := sample_certificate\<rparr>"
  "retry_inv sample_session" "phase_of sample_session = AwaitCertVerify"
  by (simp_all add: sample_session_def retry_inv_def phase_of_def)

lemma sample_authority_fields [simp]:
  "au_client_auth sample_authority = Some AuthRequired" "au_ticket_keys sample_authority = None"
  "cv_verify (au_verifier sample_authority) identity k = (True, k)"
  by (simp_all add: sample_authority_def)

lemma sample_signature:
  "x509_supported ED25519" "leaf_key_verify (en_verify sample_env) (pi_leaf sample_presented) ED25519 msg [5] = Inr ()"
  by (simp_all add: x509_supported_def signature_algorithms_x509_def leaf_key_verify_def leaf_verifying_key_def sample_presented_def)

lemma sample_step1:
  "drive_message sample_env sample_sink sample_authority HandshakeEpoch sample_cert_verify (sample_session, ()) = (Inr (), (sample_session1, ()))"
proof -
  obtain msg where msg: "certificate_verify_message copy_inline_ref (replicate 32 0) False = Inr msg" using sample_message by blast
  show ?thesis
  by (simp add: drive_message_def process_def handle_client_cert_verify_def protS_def eff_defs sample_decode set_state_def
     application_hash_alg_def traffic_algorithm_def traffic_suite_def sample_signature transcript_hashS_def sample_hash msg sample_certificate_decode 
     sample_presented bb_as_slice_def bb_with_capacity_def expect_client_finished_def sample_finished_data sample_session1_def
     absorb_def transcript_update_def transcript_state_def set_identity_def)
qed

lemma sample_step2:
  "drive_message sample_env sample_sink sample_authority HandshakeEpoch sample_finished (sample_session1, ()) = (Inr (), (sample_session2, ()))"
proof -
  have "hk_state (sn_handshake sample_session1) = ExpectClientFinished sample_verify_data" by (simp add: sample_session1_def set_state_def)
  moreover have "ap_master (sn_application sample_session1) = None" by (simp add: sample_session1_def set_state_def absorb_def set_identity_def)
  ultimately show ?thesis
  by (simp add: drive_message_def process_def handle_client_finished_def emit_session_ticket_def eff_defs sample_decode emitS_def 
      emit_event_def sample_sink_def sample_session2_def verify_data_ct_eq_def sample_verify_data_def set_state_def absorb_def)
qed

text \<open>The two messages finish the handshake of the sample connection.\<close>

lemma sample_run:
  "run_all (drive_message sample_env sample_sink sample_authority) [(HandshakeEpoch, sample_cert_verify), (HandshakeEpoch, sample_finished)]
     (sample_session, ()) = (Inr (), (sample_session2, ()))"
  by (simp add: seqS_def bindS_def sample_step1 sample_step2 retS_def)

theorem server_refines_witness:
  "\<exists>msg. message_ref_decode copy_inline_ref sample_cert_verify = Inr msg \<and>
     tls_step (Some AuthRequired) False Tls AwaitCertVerify HandshakeEpoch msg (phase_of sample_session1) \<and>
     checked sample_env sample_authority sample_session () msg"
proof -
  have "sn_transport_mode sample_session = Tls" by (simp add: sample_session_def session_from_validated_def)
  then show ?thesis
    using server_refines [of sample_session sample_env sample_sink sample_authority HandshakeEpoch sample_cert_verify "()" sample_session1 "()"]
      sample_step1 by auto
qed

theorem client_authenticated_witness:
  "\<exists>s1 k1 ep cv identity. ((s1, k1), ep, RCertificateVerify cv) \<in>
       set (run_trace (message_ref_decode (en_ci16 sample_env)) (drive_message sample_env sample_sink sample_authority)
         [(HandshakeEpoch, sample_cert_verify), (HandshakeEpoch, sample_finished)] (sample_session, ())) \<and>
     possession_proved sample_env s1 cv identity \<and> fst (cv_verify (au_verifier sample_authority) identity k1)"
proof (rule client_authenticated [OF _ _ _ _ sample_run])
  show "is_done (sn_handshake sample_session2)" by (simp add: is_done_def sample_session2_def set_state_def)
qed (simp_all add: before_proof_def)

definition sample_server :: server where
  "sample_server = \<lparr>srv_reassembler = (reassembler_with_buffer ((bb_with_capacity 100)\<lparr>bb_bytes := [1]\<rparr>))\<lparr>rs_epoch := Some PlaintextEpoch\<rparr>,
     srv_session = sample_session\<rparr>"

theorem server_failure_is_final_witness:
  "let v' = server_poison sample_server in
   wiped v' \<and> read_authorized sample_env (sample_sink :: (unit, unit, unit) sink) sample_authority PlaintextEpoch [1] (v', ()) =
     (Inl (Protocol ConnectionFailed), (v', ())) \<and> note_early_data 0 v' = (Inl ConnectionFailed, v')"
proof -
  have "read_authorized sample_env (sample_sink :: (unit, unit, unit) sink) sample_authority HandshakeEpoch [20] (sample_server, ()) =
      (Inl (Protocol (error_of_decode HandshakeSpansEpoch)), (server_poison sample_server, ()))"
    by (simp add: read_authorized_def drive_read_def reassembler_read_def begin_record_def sample_server_def is_failed_def
        reassembler_with_buffer_def bb_with_capacity_def bb_is_empty_def bb_len_def)
  from server_failure_is_final [OF _ this] show ?thesis by (simp add: Let_def sample_server_def is_failed_def)
qed

text \<open>A pool of two slots: one connection, then a rotation of the ticket keys.\<close>

theorem pool_always_admitted_witness:
  "let A = sample_authority; v = tls_with_workspace (layout_allocate (tls_workspace_layout A)) in
   validate_shard (replace_ticket_keys None A) v = Inr () \<and> scratch_capacities (stored_into_seed v) = layout_capacities (tls_workspace_layout A)"
proof -
  let ?A = sample_authority and ?s = "\<lparr>shd_authority = 0\<rparr>"
  let ?v = "tls_with_workspace (layout_allocate (tls_workspace_layout ?A))"
  let ?pl = "tls_into_pool 2 (tls_profile_of [?A] ?s)"
  let ?pl' = "?pl\<lparr>tpl_slots := [Occupied ?v, Vacant (layout_allocate (tls_workspace_layout ?A))]\<rparr>"
  let ?step = "pool_step sample_env (sample_sink :: (unit, unit, unit) sink) first_vacant"
  have "tls_pool_connect first_vacant ?pl = (Some 0, ?pl')"
    by (simp add: tls_pool_connect_def slots_insert_def vacant_entry_def first_vacant_def tls_into_pool_def tls_profile_of_def numeral_2_eq_2)
  then have "?step ([?A], ?pl, ()) ([?A], ?pl', ())" by (rule PoolConnect)
  moreover have "?step ([?A], ?pl', ()) (shard_replace_ticket_keys None ?s [?A], ?pl', ())" by (rule PoolKeys)
  ultimately have "rtranclp ?step ([?A], ?pl, ()) (shard_replace_ticket_keys None ?s [?A], ?pl', ())" by simp
  from pool_always_admitted [OF this, of ?v] show ?thesis
    by (simp add: Let_def shard_replace_ticket_keys_def tls_pool_capacities_def tls_into_pool_def tls_profile_of_def)
qed

end
