(* ===== verification/CertExtensions.thy ===== *)
theory CertExtensions
  imports Certificate
begin

section \<open>Certificate extensions\<close>

unbundle bit_operations_syntax

text \<open>
  \<open>identity/cert/ext/mod.rs\<close> and \<open>identity/cert/ext/scope.rs\<close>: the extension iterator with its
  duplicate filter, the extensions the library understands, general names and name
  constraints.  Iterators are modelled by their \<open>next\<close>, loops over them by recursion.
\<close>

definition OID_KEY_USAGE :: bytes where "OID_KEY_USAGE = [0x55, 0x1d, 0x0f]"
definition OID_SUBJECT_ALT_NAME :: bytes where "OID_SUBJECT_ALT_NAME = [0x55, 0x1d, 0x11]"
definition OID_BASIC_CONSTRAINTS :: bytes where "OID_BASIC_CONSTRAINTS = [0x55, 0x1d, 0x13]"
definition OID_NAME_CONSTRAINTS :: bytes where "OID_NAME_CONSTRAINTS = [0x55, 0x1d, 0x1e]"
definition OID_EXTENDED_KEY_USAGE :: bytes where "OID_EXTENDED_KEY_USAGE = [0x55, 0x1d, 0x25]"
definition OID_EKU_SERVER_AUTH :: bytes where
  "OID_EKU_SERVER_AUTH = [0x2b, 0x06, 0x01, 0x05, 0x05, 0x07, 0x03, 0x01]"
definition OID_EKU_CLIENT_AUTH :: bytes where
  "OID_EKU_CLIENT_AUTH = [0x2b, 0x06, 0x01, 0x05, 0x05, 0x07, 0x03, 0x02]"
definition OID_EKU_ANY :: bytes where "OID_EKU_ANY = [0x55, 0x1d, 0x25, 0x00]"
definition MAX_EXTENSION_VALUES :: nat where "MAX_EXTENSION_VALUES = 64"

record extension_entry =
  ee_oid :: bytes
  ee_critical :: bool
  ee_value :: bytes

definition is_handled :: "bytes \<Rightarrow> bool" where
  "is_handled oid \<longleftrightarrow> oid = OID_KEY_USAGE \<or> oid = OID_SUBJECT_ALT_NAME \<or> oid = OID_BASIC_CONSTRAINTS \<or>
     oid = OID_NAME_CONSTRAINTS \<or> oid = OID_EXTENDED_KEY_USAGE"

text \<open>An optional BOOLEAN that must be true when present, as extensions and basic constraints have it.\<close>

definition read_default_false :: "bytes \<Rightarrow> cert_error + bool \<times> bytes" where
  "read_default_false r =
     (if peek_tag r = Some TAG_BOOLEAN then
        and_then (cert_der (read_bool r)) (\<lambda>(b, r). if \<not> b then Inl (CertDer DerBadBool) else Inr (True, r))
      else Inr (False, r))"

definition parse_extension :: "bytes \<Rightarrow> cert_error + extension_entry \<times> bytes" where
  "parse_extension reader =
     and_then (cert_der (read_tagged TAG_SEQUENCE reader)) (\<lambda>(inner, reader).
     and_then (cert_der (read_oid inner)) (\<lambda>(oid, entry).
     and_then (read_default_false entry) (\<lambda>(critical, entry).
     and_then (cert_der (read_tagged TAG_OCTET_STRING entry)) (\<lambda>(value, entry).
     and_then (cert_der (der_finish entry)) (\<lambda>_.
     Inr (\<lparr>ee_oid = oid, ee_critical = critical, ee_value = value\<rparr>, reader))))))"

definition raw_extension_next :: "bytes \<Rightarrow> (cert_error + extension_entry \<times> bytes) option" where
  "raw_extension_next reader = (if reader = [] then None else Some (parse_extension reader))"

subsection \<open>The duplicate filter\<close>

definition oid_bit :: "bytes \<Rightarrow> u64" where
  "oid_bit oid =
     (let h = foldl (\<lambda>h byte. (h XOR ucast byte) * 0x00000100000001b3) (0xcbf29ce484222325 :: u64) oid;
          low = (ucast h :: u8) in
      word_rotl (unat (low AND 63)) 1)"

lemma parse_extension_shorter: "parse_extension r = Inr (e, r') \<Longrightarrow> length r' < length r"
  by (auto simp: parse_extension_def and_then_eq_Inr dest: read_tagged_shorter)

function prefix_free_of :: "bytes \<Rightarrow> bytes \<Rightarrow> cert_error + unit" where
  "prefix_free_of oid prefix =
     (case raw_extension_next prefix of
        None \<Rightarrow> Inr ()
      | Some (Inl e) \<Rightarrow> Inl e
      | Some (Inr (previous, prefix)) \<Rightarrow>
          if ee_oid previous = oid then Inl CertDuplicateExtension else prefix_free_of oid prefix)"
  by pat_completeness auto
termination
  by (relation "measure (\<lambda>(_, prefix). length prefix)")
    (auto simp: raw_extension_next_def dest: parse_extension_shorter split: if_splits)

declare prefix_free_of.simps [simp del]

definition filter_admit :: "bytes \<Rightarrow> bytes \<Rightarrow> u64 \<Rightarrow> cert_error + u64" where
  "filter_admit oid prefix seen =
     (let slot = oid_bit oid in
      and_then (if seen AND slot \<noteq> 0 then prefix_free_of oid prefix else Inr ()) (\<lambda>_. Inr (seen OR slot)))"

subsection \<open>The iterator\<close>

record ext_iter =
  ei_offset :: nat
  ei_seen :: u64
  ei_count :: nat

definition ext_iter_new :: ext_iter where
  "ext_iter_new = \<lparr>ei_offset = 0, ei_seen = 0, ei_count = 0\<rparr>"

definition parse_entry :: "bytes \<Rightarrow> ext_iter \<Rightarrow> cert_error + extension_entry \<times> ext_iter" where
  "parse_entry encoded it =
     (let start = ei_offset it in
      if start > length encoded then Inl (CertDer DerUnderflow)
      else
        let remaining = drop start encoded in
        and_then (parse_extension remaining) (\<lambda>(entry, reader).
        if length reader > length remaining then Inl (CertDer DerUnderflow)
        else
        let consumed = length remaining - length reader in
        and_then (ok_or CertTooManyEntries (usize_checked_add start consumed)) (\<lambda>offset.
        if ei_count it + 1 > 255 then Inl CertTooManyEntries
        else if ei_count it + 1 > MAX_EXTENSION_VALUES then Inl CertTooManyEntries
        else
        and_then (filter_admit (ee_oid entry) (take start encoded) (ei_seen it)) (\<lambda>seen.
        Inr (entry, \<lparr>ei_offset = offset, ei_seen = seen, ei_count = ei_count it + 1\<rparr>)))))"

text \<open>After an error the iterator ends: every loop over it stops there anyway.\<close>

definition ext_next :: "bytes \<Rightarrow> ext_iter \<Rightarrow> (cert_error + extension_entry \<times> ext_iter) option" where
  "ext_next encoded it =
     (if ei_offset it = length encoded then None else Some (parse_entry encoded it))"

lemma parse_entry_offset: "parse_entry encoded it = Inr (e, it') \<Longrightarrow> ei_offset it \<noteq> length encoded \<Longrightarrow>
    length encoded - ei_offset it' < length encoded - ei_offset it"
  by (auto simp: parse_entry_def and_then_eq_Inr Let_def usize_checked_add_def
      dest!: parse_extension_shorter split: if_splits)

function ext_loop ::
    "(extension_entry \<Rightarrow> 's \<Rightarrow> 'e + 's) \<Rightarrow> (cert_error \<Rightarrow> 'e) \<Rightarrow> bytes \<Rightarrow> ext_iter \<Rightarrow> 's \<Rightarrow> 'e + 's" where
  "ext_loop visit conv encoded it st =
     (case ext_next encoded it of
        None \<Rightarrow> Inr st
      | Some (Inl e) \<Rightarrow> Inl (conv e)
      | Some (Inr (entry, it)) \<Rightarrow> and_then (visit entry st) (ext_loop visit conv encoded it))"
  by pat_completeness auto
termination
  by (relation "measure (\<lambda>(_, _, encoded, it, _). length encoded - ei_offset it)")
    (auto simp: ext_next_def dest: parse_entry_offset split: if_splits)

declare ext_loop.simps [simp del]

function ext_find_loop :: "bytes \<Rightarrow> bytes \<Rightarrow> ext_iter \<Rightarrow> cert_error + (bool \<times> bytes) option" where
  "ext_find_loop oid encoded it =
     (case ext_next encoded it of
        None \<Rightarrow> Inr None
      | Some (Inl e) \<Rightarrow> Inl e
      | Some (Inr (entry, it)) \<Rightarrow>
          if oid_is (ee_oid entry) oid then Inr (Some (ee_critical entry, ee_value entry))
          else ext_find_loop oid encoded it)"
  by pat_completeness auto
termination
  by (relation "measure (\<lambda>(_, encoded, it). length encoded - ei_offset it)")
    (auto simp: ext_next_def dest: parse_entry_offset split: if_splits)

declare ext_find_loop.simps [simp del]

definition ext_find :: "bytes \<Rightarrow> bytes \<Rightarrow> cert_error + (bool \<times> bytes) option" where
  "ext_find encoded oid = ext_find_loop oid encoded ext_iter_new"

subsection \<open>Individual extensions\<close>

record basic_constraints =
  bc_ca :: bool
  bc_path_len :: "u64 option"

definition basic_constraints_parse :: "bytes \<Rightarrow> cert_error + basic_constraints" where
  "basic_constraints_parse value =
     and_then (cert_der (read_tagged TAG_SEQUENCE value)) (\<lambda>(inner, r).
     and_then (cert_der (der_finish r)) (\<lambda>_.
     and_then (read_default_false inner) (\<lambda>(ca, ir).
     and_then (if peek_tag ir = Some TAG_INTEGER then
         if \<not> ca then Inl (CertDer DerMismatch)
         else and_then (cert_der (read_uint ir)) (\<lambda>(u, ir).
           and_then (cert_der (uint_to_u64 u)) (\<lambda>v. Inr (Some v, ir)))
       else Inr (None, ir)) (\<lambda>(path_len, ir).
     and_then (cert_der (der_finish ir)) (\<lambda>_.
     Inr \<lparr>bc_ca = ca, bc_path_len = path_len\<rparr>)))))"

definition KU_DIGITAL_SIGNATURE :: u16 where "KU_DIGITAL_SIGNATURE = 1"
definition KU_KEY_CERT_SIGN :: u16 where "KU_KEY_CERT_SIGN = push_bit 5 1"

definition key_usage_has :: "u16 \<Rightarrow> u16 \<Rightarrow> bool" where
  "key_usage_has bits wanted \<longleftrightarrow> bits AND wanted = wanted"

fun trailing_zeros_from :: "nat \<Rightarrow> u8 \<Rightarrow> nat" where
  "trailing_zeros_from 0 b = 0"
| "trailing_zeros_from (Suc n) b = (if bit b (8 - Suc n) then 0 else Suc (trailing_zeros_from n b))"

definition trailing_zeros :: "u8 \<Rightarrow> nat" where
  "trailing_zeros b = trailing_zeros_from 8 b"

definition key_usage_parse :: "bytes \<Rightarrow> cert_error + u16" where
  "key_usage_parse value =
     and_then (cert_der (read_bit_string value)) (\<lambda>(bit_string, r).
     and_then (cert_der (der_finish r)) (\<lambda>_.
     let content = bit_string_bytes bit_string in
     if content = [] \<or> length content > 2 then Inl (CertDer DerBadBitString)
     else
     let lst = last content in
     if lst = 0 \<or> trailing_zeros lst \<noteq> unat (bit_string_unused_bits bit_string) \<or> length content = 2 \<and> lst \<noteq> 0x80
     then Inl (CertDer DerBadBitString)
     else
     let b0 = content ! 0;
         bits = foldl (\<lambda>bits i. if drop_bit (7 - i) b0 AND 1 \<noteq> 0 then bits OR push_bit i 1 else bits) (0 :: u16) [0..<8];
         bits = (if length content = 2 then bits OR push_bit 8 1 else bits) in
     Inr bits))"

definition eku_next :: "bytes \<Rightarrow> (cert_error + bytes \<times> bytes) option" where
  "eku_next reader = (if reader = [] then None else Some (cert_der (read_oid reader)))"

lemma read_oid_shorter: "read_oid r = Inr (oid, r') \<Longrightarrow> length r' < length r"
  by (auto simp: read_oid_def and_then_eq_Inr dest: read_tagged_shorter)

function eku_count :: "bytes \<Rightarrow> nat \<Rightarrow> cert_error + nat" where
  "eku_count reader count =
     (case eku_next reader of
        None \<Rightarrow> Inr count
      | Some (Inl e) \<Rightarrow> Inl e
      | Some (Inr (oid, reader)) \<Rightarrow>
          if count + 1 > MAX_EXTENSION_VALUES then Inl CertTooManyEntries else eku_count reader (count + 1))"
  by pat_completeness auto
termination
  by (relation "measure (\<lambda>(reader, _). length reader)")
    (auto simp: eku_next_def dest: read_oid_shorter split: if_splits)

declare eku_count.simps [simp del]

definition eku_parse :: "bytes \<Rightarrow> cert_error + bytes" where
  "eku_parse value =
     and_then (cert_der (read_tagged TAG_SEQUENCE value)) (\<lambda>(contents, r).
     and_then (cert_der (der_finish r)) (\<lambda>_.
     and_then (eku_count contents 0) (\<lambda>count.
     if count = 0 then Inl (CertDer DerMismatch) else Inr contents)))"

subsection \<open>General names\<close>

datatype general_name = DnsName bytes | IpAddress bytes | OtherName u8 bytes

definition general_name_from_tlv :: "tlv \<Rightarrow> cert_error + general_name" where
  "general_name_from_tlv t =
     (if tlv_tag t = 0x82 then Inr (DnsName (tlv_contents t))
      else if tlv_tag t = 0x87 then Inr (IpAddress (tlv_contents t))
      else if tlv_tag t \<in> {0xa0, 0x81, 0xa3, 0xa4, 0xa5, 0x86, 0x88} then Inr (OtherName (tlv_tag t) (tlv_contents t))
      else Inl CertBadName)"

definition dns_in_subtree :: "bytes \<Rightarrow> bytes \<Rightarrow> bool" where
  "dns_in_subtree name constraint0 =
     (let (constraint, subdomains_only) =
        (case constraint0 of b # rest \<Rightarrow> if b = DOT then (rest, True) else (constraint0, False)
         | [] \<Rightarrow> (constraint0, False)) in
      if \<not> subdomains_only \<and> ascii_case_eq name constraint then True
      else length name > length constraint \<and>
        name ! (length name - length constraint - 1) = DOT \<and>
        ascii_case_eq (drop (length name - length constraint) name) constraint)"

definition ip_in_subtree :: "bytes \<Rightarrow> bytes \<Rightarrow> bool" where
  "ip_in_subtree address network_and_mask =
     (if length network_and_mask \<noteq> length address * 2 then False
      else
        let network = take (length address) network_and_mask; netmask = drop (length address) network_and_mask in
        list_all (\<lambda>((a, n), m). a AND m = n AND m) (zip (zip address network) netmask))"

definition valid_dns_constraint :: "bytes \<Rightarrow> bool" where
  "valid_dns_constraint value0 =
     (let value = (case value0 of b # rest \<Rightarrow> if b = DOT then rest else value0 | [] \<Rightarrow> value0) in
      value \<noteq> [] \<and> length value \<le> 253 \<and> list_all valid_label (split_on DOT value))"

fun mask_bits :: "bool list \<Rightarrow> bool \<Rightarrow> bool" where
  "mask_bits [] zero_seen = True"
| "mask_bits (b # bs) zero_seen =
     (if \<not> b then mask_bits bs True else if zero_seen then False else mask_bits bs zero_seen)"

definition contiguous_ip_mask :: "bytes \<Rightarrow> bool" where
  "contiguous_ip_mask network_and_mask =
     (let netmask = drop (length network_and_mask div 2) network_and_mask in
      mask_bits (concat (map (\<lambda>byte. map (bit byte) (rev [0..<8])) netmask)) False)"

fun validate_general_name :: "general_name \<Rightarrow> bool \<Rightarrow> cert_error + unit" where
  "validate_general_name (DnsName value) constraint =
     (if \<not> list_all is_ascii value \<or> value = [] \<or> 0 \<in> set value then Inl CertBadName
      else if constraint \<and> \<not> valid_dns_constraint value then Inl CertBadName
      else Inr ())"
| "validate_general_name (IpAddress value) constraint =
     (let valid = (if constraint then (length value = 8 \<or> length value = 32) \<and> contiguous_ip_mask value
                   else length value = 4 \<or> length value = 16) in
      if \<not> valid then Inl CertBadName else Inr ())"
| "validate_general_name (OtherName tag value) constraint =
     (if (tag = 0x81 \<or> tag = 0x86) \<and> (\<not> list_all is_ascii value \<or> 0 \<in> set value) then Inl CertBadName
      else Inr ())"

definition general_name_next :: "bytes \<Rightarrow> (cert_error + general_name \<times> bytes) option" where
  "general_name_next reader =
     (if reader = [] then None
      else Some (and_then (cert_der (read_tlv reader)) (\<lambda>(t, reader).
        and_then (general_name_from_tlv t) (\<lambda>n. Inr (n, reader)))))"

lemma general_name_next_shorter: "general_name_next r = Some (Inr (n, r')) \<Longrightarrow> length r' < length r"
  by (auto simp: general_name_next_def and_then_eq_Inr read_tlv_def dest: parse_one_shorter split: if_splits)

function general_names_count :: "bytes \<Rightarrow> nat \<Rightarrow> cert_error + nat" where
  "general_names_count reader count =
     (case general_name_next reader of
        None \<Rightarrow> Inr count
      | Some (Inl e) \<Rightarrow> Inl e
      | Some (Inr (name, reader)) \<Rightarrow>
          and_then (validate_general_name name False) (\<lambda>_.
          if count + 1 > MAX_EXTENSION_VALUES then Inl CertTooManyEntries
          else general_names_count reader (count + 1)))"
  by pat_completeness auto
termination
  by (relation "measure (\<lambda>(reader, _). length reader)") (auto dest: general_name_next_shorter)

declare general_names_count.simps [simp del]

definition general_names_parse :: "bytes \<Rightarrow> cert_error + bytes" where
  "general_names_parse value =
     and_then (cert_der (read_tagged TAG_SEQUENCE value)) (\<lambda>(contents, r).
     and_then (cert_der (der_finish r)) (\<lambda>_.
     and_then (general_names_count contents 0) (\<lambda>count.
     if count = 0 then Inl CertBadName else Inr contents)))"

subsection \<open>Name constraints\<close>

definition SUBTREE_DNS :: u8 where "SUBTREE_DNS = push_bit 0 1"
definition SUBTREE_IP :: u8 where "SUBTREE_IP = push_bit 1 1"
definition SUBTREE_UNSUPPORTED :: u8 where "SUBTREE_UNSUPPORTED = push_bit 2 1"

record subtrees =
  su_contents :: "bytes option"
  su_kinds :: u8
  su_count :: nat

definition subtrees_default :: subtrees where
  "subtrees_default = \<lparr>su_contents = None, su_kinds = 0, su_count = 0\<rparr>"

fun subtree_kind :: "general_name \<Rightarrow> u8" where
  "subtree_kind (DnsName _) = SUBTREE_DNS"
| "subtree_kind (IpAddress _) = SUBTREE_IP"
| "subtree_kind (OtherName _ _) = SUBTREE_UNSUPPORTED"

function subtrees_loop :: "bytes \<Rightarrow> nat \<Rightarrow> u8 \<Rightarrow> cert_error + nat \<times> u8" where
  "subtrees_loop reader count kinds =
     (if reader = [] then Inr (count, kinds)
      else
        and_then (cert_der (read_tagged TAG_SEQUENCE reader)) (\<lambda>(subtree, reader).
        and_then (cert_der (read_tlv subtree)) (\<lambda>(t, subtree_reader).
        and_then (general_name_from_tlv t) (\<lambda>base.
        and_then (validate_general_name base True) (\<lambda>_.
        and_then (cert_der (der_finish subtree_reader)) (\<lambda>_.
        if count + 1 > MAX_EXTENSION_VALUES then Inl CertTooManyEntries
        else subtrees_loop reader (count + 1) (kinds OR subtree_kind base)))))))"
  by pat_completeness auto
termination
  by (relation "measure (\<lambda>(reader, _, _). length reader)") (auto dest: read_tagged_shorter)

declare subtrees_loop.simps [simp del]

definition subtrees_parse :: "bytes \<Rightarrow> cert_error + subtrees" where
  "subtrees_parse contents =
     and_then (subtrees_loop contents 0 0) (\<lambda>(count, kinds).
     if count = 0 then Inl CertBadName
     else if count > 255 then Inl CertTooManyEntries
     else Inr \<lparr>su_contents = Some contents, su_kinds = kinds, su_count = count\<rparr>)"

definition has_unsupported :: "subtrees \<Rightarrow> bool" where
  "has_unsupported s \<longleftrightarrow> su_kinds s AND SUBTREE_UNSUPPORTED \<noteq> 0"

definition dns_is_empty :: "subtrees \<Rightarrow> bool" where
  "dns_is_empty s \<longleftrightarrow> su_kinds s AND SUBTREE_DNS = 0"

definition ip_is_empty :: "subtrees \<Rightarrow> bool" where
  "ip_is_empty s \<longleftrightarrow> su_kinds s AND SUBTREE_IP = 0"

definition subtree_next :: "bytes \<Rightarrow> (cert_error + general_name \<times> bytes) option" where
  "subtree_next reader =
     (if reader = [] then None
      else Some (and_then (cert_der (read_tagged TAG_SEQUENCE reader)) (\<lambda>(subtree, reader).
        and_then (cert_der (read_tlv subtree)) (\<lambda>(t, _).
        and_then (general_name_from_tlv t) (\<lambda>n. Inr (n, reader))))))"

definition subtrees_reader :: "subtrees \<Rightarrow> bytes" where
  "subtrees_reader s = (case su_contents s of Some c \<Rightarrow> c | None \<Rightarrow> [])"

lemma subtree_next_shorter: "subtree_next r = Some (Inr (n, r')) \<Longrightarrow> length r' < length r"
  by (auto simp: subtree_next_def and_then_eq_Inr dest: read_tagged_shorter split: if_splits)

function any_subtree :: "(general_name \<Rightarrow> bool) \<Rightarrow> bytes \<Rightarrow> cert_error + bool" where
  "any_subtree test reader =
     (case subtree_next reader of
        None \<Rightarrow> Inr False
      | Some (Inl e) \<Rightarrow> Inl e
      | Some (Inr (n, reader)) \<Rightarrow> if test n then Inr True else any_subtree test reader)"
  by pat_completeness auto
termination
  by (relation "measure (\<lambda>(_, reader). length reader)") (auto dest: subtree_next_shorter)

declare any_subtree.simps [simp del]

fun dns_subtree_test :: "bytes \<Rightarrow> general_name \<Rightarrow> bool" where
  "dns_subtree_test name (DnsName constraint) = dns_in_subtree name constraint"
| "dns_subtree_test name _ = False"

fun ip_subtree_test :: "bytes \<Rightarrow> general_name \<Rightarrow> bool" where
  "ip_subtree_test address (IpAddress network) = ip_in_subtree address network"
| "ip_subtree_test address _ = False"

definition dns_matches :: "bytes \<Rightarrow> subtrees \<Rightarrow> cert_error + bool" where
  "dns_matches name s = any_subtree (dns_subtree_test name) (subtrees_reader s)"

definition ip_matches :: "bytes \<Rightarrow> subtrees \<Rightarrow> cert_error + bool" where
  "ip_matches address s = any_subtree (ip_subtree_test address) (subtrees_reader s)"

record name_constraints =
  nc_permitted :: subtrees
  nc_excluded :: subtrees

definition name_constraints_parse :: "bytes \<Rightarrow> cert_error + name_constraints" where
  "name_constraints_parse value =
     and_then (cert_der (read_tagged TAG_SEQUENCE value)) (\<lambda>(inner, r).
     and_then (cert_der (der_finish r)) (\<lambda>_.
     and_then (cert_der (read_optional (tag_context 0 True) inner)) (\<lambda>(o0, ir).
     and_then (case o0 of Some contents \<Rightarrow> subtrees_parse contents | None \<Rightarrow> Inr subtrees_default) (\<lambda>permitted.
     and_then (cert_der (read_optional (tag_context 1 True) ir)) (\<lambda>(o1, ir).
     and_then (case o1 of Some contents \<Rightarrow> subtrees_parse contents | None \<Rightarrow> Inr subtrees_default) (\<lambda>excluded.
     and_then (cert_der (der_finish ir)) (\<lambda>_.
     if o0 = None \<and> o1 = None then Inl CertBadName
     else Inr \<lparr>nc_permitted = permitted, nc_excluded = excluded\<rparr>)))))))"

subsection \<open>The iterator yields exactly the distinct extensions\<close>

function raw_all :: "bytes \<Rightarrow> extension_entry list option" where
  "raw_all r =
     (if r = [] then Some []
      else case parse_extension r of Inl _ \<Rightarrow> None | Inr (e, r') \<Rightarrow> map_option (Cons e) (raw_all r'))"
  by pat_completeness auto
termination
  by (relation "measure length") (auto dest: parse_extension_shorter)

declare raw_all.simps [simp del]

fun visit_exts :: "(extension_entry \<Rightarrow> 's \<Rightarrow> 'e + 's) \<Rightarrow> extension_entry list \<Rightarrow> 's \<Rightarrow> 'e + 's" where
  "visit_exts visit [] st = Inr st"
| "visit_exts visit (e # es) st = and_then (visit e st) (visit_exts visit es)"

lemma raw_all_Nil [simp]: "raw_all [] = Some []"
  by (simp add: raw_all.simps)

lemma parse_extension_prefix:
  assumes "parse_extension r = Inr (e, r')"
  obtains p where "r = p @ r'" "p \<noteq> []" "\<And>q. parse_extension (p @ q) = Inr (e, q)"
proof -
  obtain inner where i: "read_tagged TAG_SEQUENCE r = Inr (inner, r')"
    and rest: "\<And>q. read_tagged TAG_SEQUENCE x = Inr (inner, q) \<Longrightarrow> parse_extension x = Inr (e, q)" for x
    using assms by (auto simp: parse_extension_def and_then_eq_Inr cert_der_def)
  let ?p = "der_tlv \<lparr>tlv_tag = TAG_SEQUENCE, tlv_contents = inner\<rparr>"
  show thesis
  proof (rule that [of ?p])
    show "r = ?p @ r'" using i by (simp add: read_tagged_iff)
    show "?p \<noteq> []" by (simp add: der_tlv_def)
    show "parse_extension (?p @ q) = Inr (e, q)" for q
      using i by (intro rest) (simp add: read_tagged_iff)
  qed
qed

lemma raw_all_append: "raw_all p = Some xs \<Longrightarrow> raw_all (p @ q) = map_option ((@) xs) (raw_all q)"
proof (induction p arbitrary: xs rule: raw_all.induct)
  case (1 p)
  show ?case
  proof (cases "p = []")
    case True
    then show ?thesis using 1(2) by (simp add: option.map_ident)
  next
    case False
    then obtain e p' ys where e: "parse_extension p = Inr (e, p')" "raw_all p' = Some ys" "xs = e # ys"
      using 1(2) by (subst (asm) raw_all.simps) (auto split: sum.splits)
    obtain w where w: "p = w @ p'" "\<And>q. parse_extension (w @ q) = Inr (e, q)"
      using e(1) by (metis parse_extension_prefix)
    have "parse_extension (p @ q) = Inr (e, p' @ q)" using w by simp
    then have "raw_all (p @ q) = map_option (Cons e) (raw_all (p' @ q))"
      using False by (subst raw_all.simps) simp
    also have "raw_all (p' @ q) = map_option ((@) ys) (raw_all q)"
      by (rule 1(1) [OF False e(1) refl e(2)])
    finally show ?thesis by (simp add: e(3) option.map_comp comp_def)
  qed
qed

lemma raw_all_one: "parse_extension (p @ q) = Inr (e, q) \<Longrightarrow> p \<noteq> [] \<Longrightarrow> raw_all p = Some [e]"
proof -
  assume a: "parse_extension (p @ q) = Inr (e, q)" "p \<noteq> []"
  obtain w where "p @ q = w @ q" "\<And>q. parse_extension (w @ q) = Inr (e, q)"
    using a(1) by (metis parse_extension_prefix)
  then have "parse_extension p = Inr (e, [])" by (metis append_Nil2 append_same_eq)
  then show ?thesis using a(2) by (subst raw_all.simps) simp
qed

lemma prefix_free_of_eq:
  "raw_all prefix = Some es \<Longrightarrow>
     prefix_free_of oid prefix = (if oid \<in> ee_oid ` set es then Inl CertDuplicateExtension else Inr ())"
proof (induction oid prefix arbitrary: es rule: prefix_free_of.induct)
  case (1 oid prefix)
  show ?case
  proof (cases "prefix = []")
    case True
    then show ?thesis using 1(2) by (subst prefix_free_of.simps) (auto simp: raw_extension_next_def)
  next
    case False
    then obtain e p' ys where e: "parse_extension prefix = Inr (e, p')" "raw_all p' = Some ys" "es = e # ys"
      using 1(2) by (subst (asm) raw_all.simps) (auto split: sum.splits)
    have nx: "raw_extension_next prefix = Some (Inr (e, p'))" using False e by (simp add: raw_extension_next_def)
    show ?thesis
    proof (cases "ee_oid e = oid")
      case True
      then show ?thesis using nx e(3) by (subst prefix_free_of.simps) auto
    next
      case ne: False
      then have "prefix_free_of oid prefix = prefix_free_of oid p'" using nx by (subst prefix_free_of.simps) simp
      also have "\<dots> = (if oid \<in> ee_oid ` set ys then Inl CertDuplicateExtension else Inr ())"
        by (rule 1(1) [OF nx refl refl ne e(2)])
      finally show ?thesis using ne e(3) by auto
    qed
  qed
qed

definition iter_inv :: "bytes \<Rightarrow> ext_iter \<Rightarrow> extension_entry list \<Rightarrow> bool" where
  "iter_inv encoded it done \<longleftrightarrow> ei_offset it \<le> length encoded \<and> raw_all (take (ei_offset it) encoded) = Some done \<and>
     ei_count it = length done \<and> length done \<le> 64 \<and> distinct (map ee_oid done) \<and>
     (\<forall>e\<in>set done. ei_seen it AND oid_bit (ee_oid e) = oid_bit (ee_oid e))"

lemma or_keeps: "a AND c = c \<Longrightarrow> (a OR b) AND c = (c :: u64)" "(a OR b) AND b = (b :: u64)"
  by (auto simp: bit_eq_iff bit_simps)

lemma oid_bit_nonzero: "oid_bit oid \<noteq> 0"
proof
  assume "oid_bit oid = 0"
  then obtain n where "word_rotl n (1 :: u64) = 0" by (auto simp: oid_bit_def Let_def)
  then have "word_rotr n (word_rotl n (1 :: u64)) = word_rotr n 0" by simp
  then show False by simp
qed

lemma filter_admit_eq:
  assumes "iter_inv encoded it done"
  shows "filter_admit oid (take (ei_offset it) encoded) (ei_seen it) =
    (if oid \<in> ee_oid ` set done then Inl CertDuplicateExtension else Inr (ei_seen it OR oid_bit oid))"
proof -
  have "ei_seen it AND oid_bit oid \<noteq> 0" if "oid \<in> ee_oid ` set done"
    using assms that oid_bit_nonzero by (auto simp: iter_inv_def)
  then show ?thesis
    using assms by (auto simp: filter_admit_def Let_def iter_inv_def prefix_free_of_eq)
qed

lemma parse_entry_step:
  assumes "iter_inv encoded it done" "length encoded \<le> usize_max"
    "parse_extension (drop (ei_offset it) encoded) = Inr (e, r')"
  shows "parse_entry encoded it =
      (if length done \<ge> 64 then Inl CertTooManyEntries
       else if ee_oid e \<in> ee_oid ` set done then Inl CertDuplicateExtension
       else Inr (e, \<lparr>ei_offset = length encoded - length r', ei_seen = ei_seen it OR oid_bit (ee_oid e),
                     ei_count = length done + 1\<rparr>))"
    and "\<not> length done \<ge> 64 \<Longrightarrow> ee_oid e \<notin> ee_oid ` set done \<Longrightarrow>
      iter_inv encoded \<lparr>ei_offset = length encoded - length r', ei_seen = ei_seen it OR oid_bit (ee_oid e),
        ei_count = length done + 1\<rparr> (done @ [e]) \<and> drop (length encoded - length r') encoded = r'"
proof -
  obtain p where p: "drop (ei_offset it) encoded = p @ r'" "p \<noteq> []" "\<And>q. parse_extension (p @ q) = Inr (e, q)"
    using assms(3) by (rule parse_extension_prefix) blast
  have o: "ei_offset it \<le> length encoded" using assms(1) by (simp add: iter_inv_def)
  have enc: "encoded = take (ei_offset it) encoded @ p @ r'"
    using p(1) by (metis append_take_drop_id)
  have len: "length encoded = ei_offset it + length p + length r'"
    using o enc by (metis add.assoc length_append length_take min.absorb2)
  show "parse_entry encoded it =
      (if length done \<ge> 64 then Inl CertTooManyEntries
       else if ee_oid e \<in> ee_oid ` set done then Inl CertDuplicateExtension
       else Inr (e, \<lparr>ei_offset = length encoded - length r', ei_seen = ei_seen it OR oid_bit (ee_oid e),
                     ei_count = length done + 1\<rparr>))"
    using assms o len p(1) filter_admit_eq [OF assms(1), of "ee_oid e"]
    by (auto simp: parse_entry_def Let_def usize_checked_add_def MAX_EXTENSION_VALUES_def iter_inv_def)
  assume n: "\<not> length done \<ge> 64" "ee_oid e \<notin> ee_oid ` set done"
  have L: "length encoded - length r' = length (take (ei_offset it) encoded @ p)" using len o by simp
  have "(take (ei_offset it) encoded @ p) @ r' = encoded" using enc by simp
  then have td: "take (length encoded - length r') encoded = take (ei_offset it) encoded @ p"
      "drop (length encoded - length r') encoded = r'"
    unfolding L append_eq_conv_conj [of "take (ei_offset it) encoded @ p" r' encoded] by (metis, metis)
  have "raw_all (take (ei_offset it) encoded @ p) = Some (done @ [e])"
    using assms(1) raw_all_one [OF p(3) p(2)] by (simp add: iter_inv_def raw_all_append)
  then show "iter_inv encoded \<lparr>ei_offset = length encoded - length r', ei_seen = ei_seen it OR oid_bit (ee_oid e),
        ei_count = length done + 1\<rparr> (done @ [e]) \<and> drop (length encoded - length r') encoded = r'"
    using assms(1) n td len by (auto simp: iter_inv_def or_keeps)
qed

lemma ext_next_end: "iter_inv encoded it done \<Longrightarrow> ext_next encoded it = None \<longleftrightarrow> drop (ei_offset it) encoded = []"
  by (auto simp: ext_next_def iter_inv_def)

lemma parse_entry_bad:
  assumes "iter_inv encoded it done" "parse_extension (drop (ei_offset it) encoded) = Inl e"
  shows "parse_entry encoded it = Inl e"
  using assms by (simp add: parse_entry_def Let_def iter_inv_def)

lemma ext_loop_spec:
  "length encoded \<le> usize_max \<Longrightarrow> iter_inv encoded it done \<Longrightarrow>
    (case raw_all (drop (ei_offset it) encoded) of
       None \<Rightarrow> \<exists>e. ext_loop visit conv encoded it st = Inl e
     | Some es \<Rightarrow>
         if length done + length es \<le> 64 \<and> distinct (map ee_oid (done @ es))
         then ext_loop visit conv encoded it st = visit_exts visit es st
         else (\<exists>e. ext_loop visit conv encoded it st = Inl e) \<and>
           (length done + length es \<le> 64 \<longrightarrow> (\<forall>e s. \<exists>s'. visit e s = Inr s') \<longrightarrow>
              ext_loop visit conv encoded it st = Inl (conv CertDuplicateExtension)))"
proof (induction visit conv encoded it st arbitrary: "done" rule: ext_loop.induct)
  case (1 visit conv encoded it st)
  note inv = 1(3)
  let ?r = "drop (ei_offset it) encoded"
  show ?case
  proof (cases "?r = []")
    case True
    then have "ext_next encoded it = None" using ext_next_end [OF inv] by simp
    then have "ext_loop visit conv encoded it st = Inr st" by (subst ext_loop.simps) simp
    then show ?thesis using True inv by (simp add: iter_inv_def)
  next
    case ne: False
    then have nx: "ext_next encoded it = Some (parse_entry encoded it)"
      using ext_next_end [OF inv] by (auto simp: ext_next_def)
    show ?thesis
    proof (cases "parse_extension ?r")
      case (Inl e)
      then have "ext_loop visit conv encoded it st = Inl (conv e)"
        using nx parse_entry_bad [OF inv Inl] by (subst ext_loop.simps) simp
      moreover have "raw_all ?r = None" using ne Inl by (subst raw_all.simps) simp
      ultimately show ?thesis by simp
    next
      case (Inr er)
      obtain e r' where er: "parse_extension ?r = Inr (e, r')" using Inr by (cases er) auto
      have raw: "raw_all ?r = map_option (Cons e) (raw_all r')" using ne er by (subst raw_all.simps) simp
      note st = parse_entry_step [OF inv 1(2) er]
      consider "length done \<ge> 64" | "\<not> length done \<ge> 64" "ee_oid e \<in> ee_oid ` set done"
        | (go) "\<not> length done \<ge> 64" "ee_oid e \<notin> ee_oid ` set done" by blast
      then show ?thesis
      proof cases
        case 1
        then have "ext_loop visit conv encoded it st = Inl (conv CertTooManyEntries)"
          using nx st(1) by (subst ext_loop.simps) simp
        then show ?thesis using 1 by (auto simp: raw split: option.splits)
      next
        case 2
        then have "ext_loop visit conv encoded it st = Inl (conv CertDuplicateExtension)"
          using nx st(1) by (subst ext_loop.simps) simp
        then show ?thesis using 2 by (auto simp: raw split: option.splits)
      next
        case go
        let ?it = "\<lparr>ei_offset = length encoded - length r', ei_seen = ei_seen it OR oid_bit (ee_oid e),
            ei_count = length done + 1\<rparr>"
        have pe: "parse_entry encoded it = Inr (e, ?it)" and inv': "iter_inv encoded ?it (done @ [e])"
          and dr: "drop (ei_offset ?it) encoded = r'"
          using st go by simp_all
        have lp: "ext_loop visit conv encoded it st = and_then (visit e st) (ext_loop visit conv encoded ?it)"
          using nx pe by (subst ext_loop.simps) simp
        show ?thesis
        proof (cases "visit e st")
          case (Inl x)
          then have "\<not> (\<forall>e s. \<exists>s'. visit e s = Inr s')" by (metis Inl_Inr_False)
          then show ?thesis using lp Inl by (auto simp: raw split: option.splits)
        next
          case (Inr st1)
          have ih: "case raw_all (drop (ei_offset ?it) encoded) of
              None \<Rightarrow> \<exists>e. ext_loop visit conv encoded ?it st1 = Inl e
            | Some es \<Rightarrow>
                if length (done @ [e]) + length es \<le> 64 \<and> distinct (map ee_oid ((done @ [e]) @ es))
                then ext_loop visit conv encoded ?it st1 = visit_exts visit es st1
                else (\<exists>e. ext_loop visit conv encoded ?it st1 = Inl e) \<and>
                  (length (done @ [e]) + length es \<le> 64 \<longrightarrow> (\<forall>e s. \<exists>s'. visit e s = Inr s') \<longrightarrow>
                     ext_loop visit conv encoded ?it st1 = Inl (conv CertDuplicateExtension))"
            by (rule 1(1) [OF nx pe refl Inr 1(2) inv'])
          show ?thesis
          proof (cases "raw_all r'")
            case None
            then show ?thesis using ih unfolding dr raw lp Inr by simp
          next
            case (Some ys)
            have eqs: "length (done @ [e]) + length ys = length done + length (e # ys)"
              "(done @ [e]) @ ys = done @ e # ys" by simp_all
            show ?thesis
              using ih [unfolded dr Some option.case eqs]
              unfolding raw Some lp option.map option.case visit_exts.simps Inr and_then_simps .
          qed
        qed
      qed
    qed
  qed
qed

lemma iter_inv_new: "iter_inv encoded ext_iter_new []"
  by (simp add: iter_inv_def ext_iter_new_def)

lemma visit_exts_collect: "visit_exts (\<lambda>e st. Inr (st @ [e])) es st = Inr (st @ es)"
  by (induction es arbitrary: st) auto

text \<open>
  C38. The extension iterator, whose one-word filter of hashed identifiers only narrows the search for duplicates,
  accepts an extension list exactly when every entry parses, there are at most 64 of them and no identifier
  occurs twice; it then yields the entries in order, and a repeated identifier is always reported as such.
\<close>

theorem extension_iter_exact:
  assumes "length encoded \<le> usize_max"
  shows "(ext_loop (\<lambda>e st. Inr (st @ [e])) id encoded ext_iter_new [] = Inr es \<longleftrightarrow>
      raw_all encoded = Some es \<and> length es \<le> 64 \<and> distinct (map ee_oid es))
    \<and> (raw_all encoded = Some es \<and> length es \<le> 64 \<and> \<not> distinct (map ee_oid es) \<longrightarrow>
       ext_loop (\<lambda>e st. Inr (st @ [e])) id encoded ext_iter_new [] = Inl CertDuplicateExtension)"
  using ext_loop_spec [OF assms iter_inv_new, of "\<lambda>e st. Inr (st @ [e])" id "[]"]
  by (auto simp: ext_iter_new_def visit_exts_collect split: option.splits if_splits)

definition sample_extension :: bytes where
  "sample_extension = [0x30, 0x07, 0x06, 0x03, 0x55, 0x1d, 0x0f, 0x04, 0x00]"

lemma sample_extension_raw:
  "raw_all (sample_extension @ sample_extension) =
     Some [\<lparr>ee_oid = OID_KEY_USAGE, ee_critical = False, ee_value = []\<rparr>,
           \<lparr>ee_oid = OID_KEY_USAGE, ee_critical = False, ee_value = []\<rparr>]"
proof -
  have "parse_extension (sample_extension @ q) = Inr (\<lparr>ee_oid = OID_KEY_USAGE, ee_critical = False, ee_value = []\<rparr>, q)" for q
    by (simp add: parse_extension_def sample_extension_def der_eval read_default_false_def peek_tag_def OID_KEY_USAGE_def)
  then have "raw_all sample_extension = Some [\<lparr>ee_oid = OID_KEY_USAGE, ee_critical = False, ee_value = []\<rparr>]"
    by (rule raw_all_one) (simp add: sample_extension_def)
  then show ?thesis by (simp add: raw_all_append)
qed

theorem extension_iter_exact_witness:
  "ext_loop (\<lambda>e st. Inr (st @ [e])) id (sample_extension @ sample_extension) ext_iter_new [] = Inl CertDuplicateExtension"
proof -
  have "length (sample_extension @ sample_extension) \<le> usize_max" by (simp add: sample_extension_def usize_max_def)
  note ex = extension_iter_exact [OF this, of "replicate 2 \<lparr>ee_oid = OID_KEY_USAGE, ee_critical = False,
      ee_value = []\<rparr>", THEN conjunct2, THEN mp]
  show ?thesis by (rule ex) (simp add: sample_extension_raw numeral_2_eq_2)
qed

subsection \<open>Name constraints on labels\<close>

lemma labels_append: "labels (a @ DOT # b) = labels a @ labels b"
proof (induction a)
  case (Cons x a)
  then show ?case by (cases rule: split_on_cases [of DOT a]) auto
qed simp

lemma suffix_labels:
  assumes "length constraint < length name" "name ! (length name - length constraint - 1) = DOT"
  shows "labels name = labels (take (length name - length constraint - 1) name) @
    labels (drop (length name - length constraint) name)"
proof -
  let ?k = "length name - length constraint - 1"
  have "name = take ?k name @ name ! ?k # drop (Suc ?k) name"
    using assms(1) by (intro id_take_nth_drop) linarith
  then have "labels name = labels (take ?k name @ DOT # drop (Suc ?k) name)" using assms(2) by simp
  also have "\<dots> = labels (take ?k name) @ labels (drop (Suc ?k) name)" by (rule labels_append)
  also have "Suc ?k = length name - length constraint" using assms(1) by linarith
  finally show ?thesis .
qed

lemma labels_suffix_join:
  assumes "map lower (labels name) = ps @ map lower (labels constraint)" "ps \<noteq> []"
  shows "length constraint < length name \<and> name ! (length name - length constraint - 1) = DOT \<and>
    ascii_case_eq (drop (length name - length constraint) name) constraint"
  using assms
proof (induction name arbitrary: ps)
  case Nil
  then show ?case by (cases ps) auto
next
  case (Cons b name)
  obtain p rest where pr: "labels name = p # rest" by (rule split_on_cases)
  obtain q qs where ps: "ps = q # qs" using Cons.prems(2) by (cases ps) auto
  show ?case
  proof (cases "b = DOT")
    case True
    show ?thesis
    proof (cases qs)
      case Nil
      then have "map lower (labels name) = map lower (labels constraint)" using Cons.prems(1) True ps by simp
      then have eq: "ascii_case_eq name constraint" by (simp add: ascii_case_eq_labels)
      then have "length name = length constraint" by (simp add: ascii_case_eq_def)
      then show ?thesis using eq True by simp
    next
      case (Cons q' qs')
      then show ?thesis using Cons.prems True ps Cons.IH [of qs] by (auto simp: Suc_diff_le)
    qed
  next
    case False
    then have "map lower (labels name) = lower p # qs @ map lower (labels constraint)"
      using Cons.prems(1) pr ps by auto
    then show ?thesis using Cons.IH [of "lower p # qs"] by (auto simp: Suc_diff_le)
  qed
qed

text \<open>
  A DNS name is in the subtree of a constraint exactly when its labels end with the labels of the constraint, without
  regard to ASCII case; a constraint with a leading dot requires at least one more label.  A constraint never matches
  in the middle of a label.
\<close>

theorem dns_subtree_labels:
  "dns_in_subtree name constraint \<longleftrightarrow>
     (let strict = (constraint \<noteq> [] \<and> hd constraint = DOT); base = (if strict then tl constraint else constraint) in
      \<exists>ps. map lower (labels name) = ps @ map lower (labels base) \<and> (if strict then 1 else 0) \<le> length ps)"
proof -
  define strict where "strict = (constraint \<noteq> [] \<and> hd constraint = DOT)"
  define base where "base = (if strict then tl constraint else constraint)"
  have d: "dns_in_subtree name constraint \<longleftrightarrow> \<not> strict \<and> ascii_case_eq name base \<or>
      length base < length name \<and> name ! (length name - length base - 1) = DOT \<and>
      ascii_case_eq (drop (length name - length base) name) base"
    by (cases constraint) (auto simp: dns_in_subtree_def strict_def base_def)
  have suf: "length base < length name \<and> name ! (length name - length base - 1) = DOT \<and>
      ascii_case_eq (drop (length name - length base) name) base \<longleftrightarrow>
      (\<exists>ps. map lower (labels name) = ps @ map lower (labels base) \<and> ps \<noteq> [])" (is "?L \<longleftrightarrow> ?R")
  proof
    assume ?L
    then have "map lower (labels name) =
        map lower (labels (take (length name - length base - 1) name)) @ map lower (labels base)"
      using suffix_labels [of base name] by (simp add: ascii_case_eq_labels)
    then show ?R by (metis split_on_nonempty map_is_Nil_conv)
  next
    assume ?R
    then show ?L using labels_suffix_join by blast
  qed
  have "dns_in_subtree name constraint \<longleftrightarrow>
      (\<exists>ps. map lower (labels name) = ps @ map lower (labels base) \<and> (if strict then 1 else 0) \<le> length ps)"
    unfolding d unfolding suf unfolding ascii_case_eq_labels by (cases strict) (auto simp: Suc_le_eq)
  then show ?thesis by (simp add: strict_def [symmetric] base_def [symmetric] Let_def)
qed

end
