(* ===== verification/PathProfile.thy ===== *)
theory PathProfile
  imports CertExtensions
begin

section \<open>Policy profiles of certificates\<close>

unbundle bit_operations_syntax

text \<open>
  \<open>identity/chain/extensions.rs\<close> and the prepared name constraints of \<open>identity/chain/mod.rs\<close>:
  the compact profile a certificate's extensions are reduced to, and the checks path
  validation makes on it.  A \<open>Span\<close> into an owned buffer is the bytes it resolves to.  The
  subordinate certificates of an issuer are given as the results of the path iterator.
\<close>

definition MAX_CHAIN_LEN :: nat where "MAX_CHAIN_LEN = 10"

abbreviation chain_of_cert :: "cert_error + 'a \<Rightarrow> chain_error + 'a" where
  "chain_of_cert \<equiv> map_err chain_error_of_cert"

subsection \<open>Prepared name constraints\<close>

datatype name_kind = KDns | KIp

record prepared_name_constraints =
  pn_spans :: "bytes list"
  pn_ends :: "nat \<times> nat \<times> nat \<times> nat"
  pn_has_unsupported :: bool

fun kind_value :: "name_kind \<Rightarrow> general_name \<Rightarrow> bytes option" where
  "kind_value KDns (DnsName v) = Some v"
| "kind_value KIp (IpAddress v) = Some v"
| "kind_value _ _ = None"

function prepared_append_loop :: "name_kind \<Rightarrow> bytes \<Rightarrow> bytes list \<Rightarrow> chain_error + bytes list" where
  "prepared_append_loop kind reader spans =
     (case subtree_next reader of
        None \<Rightarrow> Inr spans
      | Some (Inl e) \<Rightarrow> Inl (chain_error_of_cert e)
      | Some (Inr (n, reader)) \<Rightarrow>
          (case kind_value kind n of
             Some v \<Rightarrow> prepared_append_loop kind reader (spans @ [v])
           | None \<Rightarrow> prepared_append_loop kind reader spans))"
  by pat_completeness auto
termination
  by (relation "measure (\<lambda>(_, reader, _). length reader)") (auto dest: subtree_next_shorter)

declare prepared_append_loop.simps [simp del]

definition prepared_append :: "subtrees \<Rightarrow> name_kind \<Rightarrow> bytes list \<Rightarrow> chain_error + nat \<times> bytes list" where
  "prepared_append s kind spans =
     and_then (prepared_append_loop kind (subtrees_reader s) spans) (\<lambda>spans.
     if length spans > 255 then Inl ChainParse else Inr (length spans, spans))"

definition prepared_parse :: "bytes \<Rightarrow> chain_error + prepared_name_constraints" where
  "prepared_parse der =
     and_then (chain_of_cert (name_constraints_parse der)) (\<lambda>parsed.
     let unsupported = (has_unsupported (nc_permitted parsed) \<or> has_unsupported (nc_excluded parsed)) in
     and_then (prepared_append (nc_permitted parsed) KDns []) (\<lambda>(permitted_dns, spans).
     and_then (prepared_append (nc_permitted parsed) KIp spans) (\<lambda>(permitted_ip, spans).
     and_then (prepared_append (nc_excluded parsed) KDns spans) (\<lambda>(excluded_dns, spans).
     and_then (prepared_append (nc_excluded parsed) KIp spans) (\<lambda>(excluded_ip, spans).
     Inr \<lparr>pn_spans = spans, pn_ends = (permitted_dns, permitted_ip, excluded_dns, excluded_ip),
          pn_has_unsupported = unsupported\<rparr>)))))"

definition prepared_values :: "prepared_name_constraints \<Rightarrow> nat \<Rightarrow> nat \<Rightarrow> bytes list" where
  "prepared_values p start stop = drop start (take stop (pn_spans p))"

fun prepared_range :: "prepared_name_constraints \<Rightarrow> bool \<Rightarrow> name_kind \<Rightarrow> bytes list" where
  "prepared_range p True KDns = (case pn_ends p of (a, b, c, d) \<Rightarrow> prepared_values p 0 a)"
| "prepared_range p True KIp = (case pn_ends p of (a, b, c, d) \<Rightarrow> prepared_values p a b)"
| "prepared_range p False KDns = (case pn_ends p of (a, b, c, d) \<Rightarrow> prepared_values p b c)"
| "prepared_range p False KIp = (case pn_ends p of (a, b, c, d) \<Rightarrow> prepared_values p c d)"

subsection \<open>Checking constraints\<close>

datatype name_constraints_ref = NcParsed name_constraints | NcPrepared prepared_name_constraints

fun ncr_has_unsupported :: "name_constraints_ref \<Rightarrow> bool" where
  "ncr_has_unsupported (NcParsed c) \<longleftrightarrow> has_unsupported (nc_permitted c) \<or> has_unsupported (nc_excluded c)"
| "ncr_has_unsupported (NcPrepared p) \<longleftrightarrow> pn_has_unsupported p"

fun permitted_dns_is_empty :: "name_constraints_ref \<Rightarrow> bool" where
  "permitted_dns_is_empty (NcParsed c) \<longleftrightarrow> dns_is_empty (nc_permitted c)"
| "permitted_dns_is_empty (NcPrepared p) \<longleftrightarrow> prepared_range p True KDns = []"

fun permitted_ip_is_empty :: "name_constraints_ref \<Rightarrow> bool" where
  "permitted_ip_is_empty (NcParsed c) \<longleftrightarrow> ip_is_empty (nc_permitted c)"
| "permitted_ip_is_empty (NcPrepared p) \<longleftrightarrow> prepared_range p True KIp = []"

fun permitted_dns_matches :: "name_constraints_ref \<Rightarrow> bytes \<Rightarrow> chain_error + bool" where
  "permitted_dns_matches (NcParsed c) name = chain_of_cert (dns_matches name (nc_permitted c))"
| "permitted_dns_matches (NcPrepared p) name = Inr (list_ex (dns_in_subtree name) (prepared_range p True KDns))"

fun excluded_dns_matches :: "name_constraints_ref \<Rightarrow> bytes \<Rightarrow> chain_error + bool" where
  "excluded_dns_matches (NcParsed c) name = chain_of_cert (dns_matches name (nc_excluded c))"
| "excluded_dns_matches (NcPrepared p) name = Inr (list_ex (dns_in_subtree name) (prepared_range p False KDns))"

fun permitted_ip_matches :: "name_constraints_ref \<Rightarrow> bytes \<Rightarrow> chain_error + bool" where
  "permitted_ip_matches (NcParsed c) address = chain_of_cert (ip_matches address (nc_permitted c))"
| "permitted_ip_matches (NcPrepared p) address = Inr (list_ex (ip_in_subtree address) (prepared_range p True KIp))"

fun excluded_ip_matches :: "name_constraints_ref \<Rightarrow> bytes \<Rightarrow> chain_error + bool" where
  "excluded_ip_matches (NcParsed c) address = chain_of_cert (ip_matches address (nc_excluded c))"
| "excluded_ip_matches (NcPrepared p) address = Inr (list_ex (ip_in_subtree address) (prepared_range p False KIp))"

subsection \<open>Profiles\<close>

definition BASIC_CONSTRAINTS :: u16 where "BASIC_CONSTRAINTS = push_bit 0 1"
definition CERTIFICATE_AUTHORITY :: u16 where "CERTIFICATE_AUTHORITY = push_bit 1 1"
definition KEY_USAGE :: u16 where "KEY_USAGE = push_bit 2 1"
definition DIGITAL_SIGNATURE :: u16 where "DIGITAL_SIGNATURE = push_bit 3 1"
definition KEY_CERT_SIGN :: u16 where "KEY_CERT_SIGN = push_bit 4 1"
definition EXTENDED_KEY_USAGE :: u16 where "EXTENDED_KEY_USAGE = push_bit 5 1"
definition SERVER_AUTH :: u16 where "SERVER_AUTH = push_bit 6 1"
definition ANY_EXTENDED_KEY_USAGE :: u16 where "ANY_EXTENDED_KEY_USAGE = push_bit 7 1"
definition NO_PATH_LIMIT :: u8 where "NO_PATH_LIMIT = - 1"

datatype profile_status = StRaw | StValid | StInvalid chain_error

record profile =
  pf_primary :: bytes
  pf_name_constraints :: bytes
  pf_flags :: u16
  pf_path_limit :: u8
  pf_status :: profile_status

definition profile_raw :: "bytes option \<Rightarrow> profile" where
  "profile_raw extensions_der =
     \<lparr>pf_primary = (case extensions_der of Some d \<Rightarrow> d | None \<Rightarrow> []), pf_name_constraints = [], pf_flags = 0,
      pf_path_limit = NO_PATH_LIMIT, pf_status = StRaw\<rparr>"

definition profile_resolve :: "profile \<Rightarrow> chain_error + profile" where
  "profile_resolve p =
     (case pf_status p of StValid \<Rightarrow> Inr p | StInvalid e \<Rightarrow> Inl e | StRaw \<Rightarrow> Inl ChainParse)"

record profile_scan =
  sc_basic_constraints :: "basic_constraints option"
  sc_key_usage :: "u16 option"
  sc_eku :: "(bool \<times> bool) option"
  sc_name_constraints :: bytes
  sc_san :: bytes

function eku_scan :: "bytes \<Rightarrow> bool \<Rightarrow> bool \<Rightarrow> cert_error + bool \<times> bool" where
  "eku_scan reader server_auth any =
     (case eku_next reader of
        None \<Rightarrow> Inr (server_auth, any)
      | Some (Inl e) \<Rightarrow> Inl e
      | Some (Inr (oid, reader)) \<Rightarrow>
          eku_scan reader (server_auth \<or> oid_is oid OID_EKU_SERVER_AUTH) (any \<or> oid_is oid OID_EKU_ANY))"
  by pat_completeness auto
termination
  by (relation "measure (\<lambda>(reader, _, _). length reader)")
    (auto simp: eku_next_def dest: read_oid_shorter split: if_splits)

declare eku_scan.simps [simp del]

definition profile_visit :: "extension_entry \<Rightarrow> profile_scan \<Rightarrow> chain_error + profile_scan" where
  "profile_visit x s =
     (if ee_critical x \<and> \<not> is_handled (ee_oid x) then Inl UnhandledCriticalExtension
      else if oid_is (ee_oid x) OID_BASIC_CONSTRAINTS then
        and_then (chain_of_cert (basic_constraints_parse (ee_value x))) (\<lambda>b. Inr (s\<lparr>sc_basic_constraints := Some b\<rparr>))
      else if oid_is (ee_oid x) OID_KEY_USAGE then
        and_then (chain_of_cert (key_usage_parse (ee_value x))) (\<lambda>k. Inr (s\<lparr>sc_key_usage := Some k\<rparr>))
      else if oid_is (ee_oid x) OID_EXTENDED_KEY_USAGE then
        and_then (chain_of_cert (eku_parse (ee_value x))) (\<lambda>contents.
        and_then (chain_of_cert (eku_scan contents False False)) (\<lambda>r. Inr (s\<lparr>sc_eku := Some r\<rparr>)))
      else if oid_is (ee_oid x) OID_NAME_CONSTRAINTS then
        and_then (chain_of_cert (name_constraints_parse (ee_value x))) (\<lambda>_.
        Inr (s\<lparr>sc_name_constraints := ee_value x\<rparr>))
      else if oid_is (ee_oid x) OID_SUBJECT_ALT_NAME then
        and_then (chain_of_cert (general_names_parse (ee_value x))) (\<lambda>contents. Inr (s\<lparr>sc_san := contents\<rparr>))
      else Inr s)"

definition flag_if :: "bool \<Rightarrow> u16 \<Rightarrow> u16 \<Rightarrow> u16" where
  "flag_if b f flags = (if b then flags OR f else flags)"

definition profile_summary :: "profile_scan \<Rightarrow> profile" where
  "profile_summary s =
     (let flags = 0; path_limit = NO_PATH_LIMIT;
          (flags, path_limit) =
            (case sc_basic_constraints s of
               None \<Rightarrow> (flags, path_limit)
             | Some constraints \<Rightarrow>
                 (flag_if (bc_ca constraints) CERTIFICATE_AUTHORITY (flags OR BASIC_CONSTRAINTS),
                  case bc_path_len constraints of
                    None \<Rightarrow> path_limit
                  | Some limit \<Rightarrow> word_of_nat (min (unat limit) MAX_CHAIN_LEN)));
          flags =
            (case sc_key_usage s of
               None \<Rightarrow> flags
             | Some usage \<Rightarrow>
                 flag_if (key_usage_has usage KU_KEY_CERT_SIGN) KEY_CERT_SIGN
                   (flag_if (key_usage_has usage KU_DIGITAL_SIGNATURE) DIGITAL_SIGNATURE (flags OR KEY_USAGE)));
          flags =
            (case sc_eku s of
               None \<Rightarrow> flags
             | Some (server_auth, any) \<Rightarrow>
                 flag_if any ANY_EXTENDED_KEY_USAGE (flag_if server_auth SERVER_AUTH (flags OR EXTENDED_KEY_USAGE))) in
      \<lparr>pf_primary = sc_san s, pf_name_constraints = sc_name_constraints s, pf_flags = flags,
       pf_path_limit = path_limit, pf_status = StValid\<rparr>)"

definition profile_parse :: "bytes \<Rightarrow> chain_error + profile" where
  "profile_parse exts =
     and_then (ext_loop profile_visit chain_error_of_cert exts ext_iter_new
       \<lparr>sc_basic_constraints = None, sc_key_usage = None, sc_eku = None, sc_name_constraints = [], sc_san = []\<rparr>)
     (\<lambda>s. Inr (profile_summary s))"

definition profile_prepare :: "profile \<Rightarrow> (chain_error + unit) \<times> profile" where
  "profile_prepare p =
     (case pf_status p of
        StValid \<Rightarrow> (Inr (), p)
      | StInvalid e \<Rightarrow> (Inl e, p)
      | StRaw \<Rightarrow>
          (case profile_parse (pf_primary p) of
             Inr q \<Rightarrow> (Inr (), q)
           | Inl e \<Rightarrow>
               (Inl e, \<lparr>pf_primary = [], pf_name_constraints = [], pf_flags = 0, pf_path_limit = NO_PATH_LIMIT,
                        pf_status = StInvalid e\<rparr>)))"

subsection \<open>Checks\<close>

definition has_flag :: "profile \<Rightarrow> u16 \<Rightarrow> bool" where
  "has_flag p f \<longleftrightarrow> pf_flags p AND f \<noteq> 0"

function check_names :: "name_constraints_ref \<Rightarrow> bytes \<Rightarrow> chain_error + unit" where
  "check_names constraints reader =
     (case general_name_next reader of
        None \<Rightarrow> Inr ()
      | Some (Inl e) \<Rightarrow> Inl (chain_error_of_cert e)
      | Some (Inr (name, reader)) \<Rightarrow>
          and_then (case name of
              DnsName dns_name \<Rightarrow>
                and_then (excluded_dns_matches constraints dns_name) (\<lambda>x.
                if x then Inl NameConstraintViolation
                else if \<not> permitted_dns_is_empty constraints then
                  and_then (permitted_dns_matches constraints dns_name) (\<lambda>m.
                  if \<not> m then Inl NameConstraintViolation else Inr ())
                else Inr ())
            | IpAddress address \<Rightarrow>
                and_then (excluded_ip_matches constraints address) (\<lambda>x.
                if x then Inl NameConstraintViolation
                else if \<not> permitted_ip_is_empty constraints then
                  and_then (permitted_ip_matches constraints address) (\<lambda>m.
                  if \<not> m then Inl NameConstraintViolation else Inr ())
                else Inr ())
            | OtherName _ _ \<Rightarrow> Inr ()) (\<lambda>_.
          check_names constraints reader))"
  by pat_completeness auto
termination
  by (relation "measure (\<lambda>(_, reader). length reader)") (auto dest: general_name_next_shorter)

declare check_names.simps [simp del]

fun check_subordinates :: "name_constraints_ref \<Rightarrow> (chain_error + profile) list \<Rightarrow> chain_error + unit" where
  "check_subordinates constraints [] = Inr ()"
| "check_subordinates constraints (s # ss) =
     and_then s (\<lambda>subordinate.
     if pf_primary subordinate = [] then check_subordinates constraints ss
     else and_then (check_names constraints (pf_primary subordinate)) (\<lambda>_. check_subordinates constraints ss))"

definition check_name_constraints :: "name_constraints_ref \<Rightarrow> (chain_error + profile) list \<Rightarrow> chain_error + unit" where
  "check_name_constraints constraints subordinates =
     (if ncr_has_unsupported constraints then Inl NameConstraintViolation
      else check_subordinates constraints subordinates)"

definition check_name_constraints_der :: "bytes \<Rightarrow> (chain_error + profile) list \<Rightarrow> chain_error + unit" where
  "check_name_constraints_der der subordinates =
     and_then (chain_of_cert (name_constraints_parse der)) (\<lambda>c. check_name_constraints (NcParsed c) subordinates)"

definition check_prepared_name_constraints ::
    "prepared_name_constraints \<Rightarrow> (chain_error + profile) list \<Rightarrow> chain_error + unit" where
  "check_prepared_name_constraints p subordinates = check_name_constraints (NcPrepared p) subordinates"

definition profile_check_name_constraints :: "(chain_error + profile) list \<Rightarrow> profile \<Rightarrow> chain_error + unit" where
  "profile_check_name_constraints subordinates p =
     (if pf_name_constraints p = [] then Inr ()
      else and_then (chain_of_cert (name_constraints_parse (pf_name_constraints p))) (\<lambda>c.
        check_name_constraints (NcParsed c) subordinates))"

definition check_ca_eku :: "profile \<Rightarrow> chain_error + unit" where
  "check_ca_eku p =
     (if \<not> has_flag p EXTENDED_KEY_USAGE then Inr ()
      else if pf_flags p AND (SERVER_AUTH OR ANY_EXTENDED_KEY_USAGE) \<noteq> 0 then Inr () else Inl NoServerAuth)"

definition check_end_entity :: "profile \<Rightarrow> chain_error + unit" where
  "check_end_entity p =
     (if has_flag p CERTIFICATE_AUTHORITY then Inl NotEndEntity
      else if has_flag p KEY_USAGE \<and> \<not> has_flag p DIGITAL_SIGNATURE then Inl LeafKeyUsageInvalid
      else Inr ())"

definition check_server_auth :: "profile \<Rightarrow> chain_error + unit" where
  "check_server_auth p =
     (if \<not> has_flag p EXTENDED_KEY_USAGE then Inr ()
      else if has_flag p SERVER_AUTH then Inr () else Inl NoServerAuth)"

function any_general_name :: "(general_name \<Rightarrow> bool) \<Rightarrow> bytes \<Rightarrow> chain_error + unit" where
  "any_general_name test reader =
     (case general_name_next reader of
        None \<Rightarrow> Inl HostnameMismatch
      | Some (Inl e) \<Rightarrow> Inl (chain_error_of_cert e)
      | Some (Inr (n, reader)) \<Rightarrow> if test n then Inr () else any_general_name test reader)"
  by pat_completeness auto
termination
  by (relation "measure (\<lambda>(_, reader). length reader)") (auto dest: general_name_next_shorter)

declare any_general_name.simps [simp del]

definition check_hostname :: "u8 copy_inline \<Rightarrow> bytes \<Rightarrow> profile \<Rightarrow> chain_error + unit" where
  "check_hostname ci host p =
     (if pf_primary p = [] then Inl HostnameMismatch
      else case parse_ip ci host of
        Some target \<Rightarrow>
          any_general_name (\<lambda>n. case n of IpAddress pattern \<Rightarrow> matches_ip target pattern | _ \<Rightarrow> False) (pf_primary p)
      | None \<Rightarrow>
          any_general_name (\<lambda>n. case n of DnsName pattern \<Rightarrow> matches_dns host pattern | _ \<Rightarrow> False) (pf_primary p))"

definition check_issuer_is_ca :: "profile \<Rightarrow> chain_error + unit" where
  "check_issuer_is_ca p =
     (if \<not> has_flag p BASIC_CONSTRAINTS \<or> \<not> has_flag p CERTIFICATE_AUTHORITY then Inl IssuerNotCa
      else if has_flag p KEY_USAGE \<and> \<not> has_flag p KEY_CERT_SIGN then Inl NoKeyCertSign
      else Inr ())"

definition check_path_len :: "nat \<Rightarrow> profile \<Rightarrow> chain_error + unit" where
  "check_path_len subject_position p =
     (if subject_position > unat (pf_path_limit p) then Inl PathLenExceeded else Inr ())"

definition check_leaf :: "u8 copy_inline \<Rightarrow> bytes \<Rightarrow> profile \<Rightarrow> chain_error + unit" where
  "check_leaf ci hostname_dns_id p =
     and_then (profile_resolve p) (\<lambda>_.
     and_then (check_end_entity p) (\<lambda>_.
     and_then (check_server_auth p) (\<lambda>_.
     check_hostname ci hostname_dns_id p)))"

definition check_issuer :: "(chain_error + profile) list \<Rightarrow> nat \<Rightarrow> profile \<Rightarrow> chain_error + unit" where
  "check_issuer subordinates subject_position p =
     and_then (profile_resolve p) (\<lambda>_.
     and_then (check_issuer_is_ca p) (\<lambda>_.
     and_then (check_ca_eku p) (\<lambda>_.
     and_then (check_path_len subject_position p) (\<lambda>_.
     profile_check_name_constraints subordinates p))))"

end
