(* ===== verification/Chain.thy ===== *)
theory Chain
  imports PathProfile
begin

section \<open>Path validation\<close>

unbundle bit_operations_syntax

text \<open>
  \<open>identity/chain/search.rs\<close> and \<open>identity/chain/mod.rs\<close>: trust anchors and the iterative
  depth-first search for a certificate path.  The search state is a record; the certificates
  are part of it because a certificate's profile is parsed when it is first considered.
  The stack of frames is a list with the current frame last.  The loop is a partial
  function, so that its termination is a theorem.
\<close>

record path_cert =
  pc_signed :: signed
  pc_issuer :: bytes
  pc_subject :: bytes
  pc_issuer_key :: bytes
  pc_validity :: validity
  pc_spki :: subject_public_key_info
  pc_profile :: profile

definition path_cert_new :: "cert \<Rightarrow> path_cert" where
  "path_cert_new c =
     \<lparr>pc_signed = cert_signed c, pc_issuer = cn_issuer (tbs_names (ct_tbs c)),
      pc_subject = cn_subject (tbs_names (ct_tbs c)), pc_issuer_key = cn_issuer_key (tbs_names (ct_tbs c)),
      pc_validity = tbs_validity (ct_tbs c), pc_spki = tbs_spki (ct_tbs c),
      pc_profile = profile_raw (tbs_extensions_der (ct_tbs c))\<rparr>"

definition path_cert_prepare :: "unix_time \<Rightarrow> path_cert \<Rightarrow> (chain_error + unit) \<times> path_cert" where
  "path_cert_prepare now c =
     (case profile_prepare (pc_profile c) of
        (Inl e, p) \<Rightarrow> (Inl e, c\<lparr>pc_profile := p\<rparr>)
      | (Inr _, p) \<Rightarrow>
          (if now < va_not_before (pc_validity c) then Inl NotYetValid
           else if now > va_not_after (pc_validity c) then Inl Expired
           else Inr (), c\<lparr>pc_profile := p\<rparr>))"

subsection \<open>Trust anchors\<close>

datatype anchor_constraints = Unconstrained | AcNameConstraints bytes | CertificateExtensions bytes

record trust_anchor =
  ta_subject_der :: bytes
  ta_spki :: subject_public_key_info
  ta_constraints :: anchor_constraints

datatype anchor_match_constraints = AmDer bytes | AmPrepared prepared_name_constraints

record anchor_match = am_constraints :: "anchor_match_constraints option"

definition anchor_from_cert :: "cert \<Rightarrow> trust_anchor" where
  "anchor_from_cert c =
     \<lparr>ta_subject_der = cn_subject (tbs_names (ct_tbs c)), ta_spki = tbs_spki (ct_tbs c),
      ta_constraints = CertificateExtensions (case tbs_extensions_der (ct_tbs c) of Some d \<Rightarrow> d | None \<Rightarrow> [])\<rparr>"

definition anchor_unconstrained :: "bytes \<Rightarrow> subject_public_key_info \<Rightarrow> trust_anchor" where
  "anchor_unconstrained subject_der spki =
     \<lparr>ta_subject_der = subject_der, ta_spki = spki, ta_constraints = Unconstrained\<rparr>"

definition anchor_with_name_constraints ::
    "bytes \<Rightarrow> subject_public_key_info \<Rightarrow> bytes \<Rightarrow> chain_error + trust_anchor" where
  "anchor_with_name_constraints subject_der spki der =
     and_then (chain_of_cert (name_constraints_parse der)) (\<lambda>_.
     Inr \<lparr>ta_subject_der = subject_der, ta_spki = spki, ta_constraints = AcNameConstraints der\<rparr>)"

definition anchor_name_constraints_der :: "trust_anchor \<Rightarrow> chain_error + bytes option" where
  "anchor_name_constraints_der a =
     (case ta_constraints a of
        Unconstrained \<Rightarrow> Inr None
      | AcNameConstraints der \<Rightarrow> and_then (chain_of_cert (name_constraints_parse der)) (\<lambda>_. Inr (Some der))
      | CertificateExtensions extensions_der \<Rightarrow>
          ext_loop (\<lambda>x found.
              if \<not> oid_is (ee_oid x) OID_NAME_CONSTRAINTS then Inr found
              else and_then (chain_of_cert (name_constraints_parse (ee_value x))) (\<lambda>_. Inr (Some (ee_value x))))
            chain_error_of_cert extensions_der ext_iter_new None)"

definition anchor_verify_subject ::
    "unicode \<Rightarrow> ring_verify \<Rightarrow> path_cert \<Rightarrow> trust_anchor \<Rightarrow> chain_error + anchor_match option" where
  "anchor_verify_subject U RV subject a =
     and_then (if ta_subject_der a \<noteq> pc_issuer subject then
         and_then (chain_of_cert (dn_parse U (ta_subject_der a))) (\<lambda>dn. Inr (dn_equivalent U dn (pc_issuer subject)))
       else Inr True) (\<lambda>same.
     if \<not> same then Inr None
     else case verify_signature RV (pc_signed subject) (ta_spki a) of
       Inl _ \<Rightarrow> Inr None
     | Inr _ \<Rightarrow> and_then (anchor_name_constraints_der a) (\<lambda>c. Inr (Some \<lparr>am_constraints = map_option AmDer c\<rparr>)))"

fun verifies_against_anchor ::
    "unicode \<Rightarrow> ring_verify \<Rightarrow> trust_anchor list \<Rightarrow> path_cert \<Rightarrow> chain_error + anchor_match option" where
  "verifies_against_anchor U RV [] subject = Inr None"
| "verifies_against_anchor U RV (a # anchors) subject =
     and_then (anchor_verify_subject U RV subject a) (\<lambda>m.
     case m of Some anchor_match \<Rightarrow> Inr (Some anchor_match)
     | None \<Rightarrow> verifies_against_anchor U RV anchors subject)"

subsection \<open>Search state\<close>

definition SUBJECT_STATE_COUNT :: nat where "SUBJECT_STATE_COUNT = 2 ^ (MAX_CHAIN_LEN - 2)"
definition STATE_COUNT :: nat where "STATE_COUNT = 1 + (MAX_CHAIN_LEN - 1) * SUBJECT_STATE_COUNT"
definition STATE_WORD_COUNT :: nat where "STATE_WORD_COUNT = (STATE_COUNT + 63) div 64"

record path_frame =
  fr_subject :: nat
  fr_next_issuer :: nat

definition frame_new :: "nat \<Rightarrow> path_frame" where
  "frame_new subject = \<lparr>fr_subject = subject, fr_next_issuer = 0\<rparr>"

definition prepared_index_new :: "nat \<Rightarrow> chain_error + nat" where
  "prepared_index_new index = (if index \<ge> MAX_CHAIN_LEN then Inl ChainTooLong else Inr index)"

definition index_resolve :: "path_cert list \<Rightarrow> nat \<Rightarrow> chain_error + profile" where
  "index_resolve certs i = (if i < length certs then profile_resolve (pc_profile (certs ! i)) else Inl ChainParse)"

definition path_iter :: "path_cert list \<Rightarrow> path_frame list \<Rightarrow> (chain_error + profile) list" where
  "path_iter certs frames = map (\<lambda>f. index_resolve certs (fr_subject f)) frames"

definition checked_shl16 :: "nat \<Rightarrow> u16 option" where
  "checked_shl16 n = (if n < 16 then Some (push_bit n 1) else None)"

definition seen_admit :: "nat \<Rightarrow> u16 \<Rightarrow> u64 list \<Rightarrow> chain_error + bool \<times> u64 list" where
  "seen_admit subject used seen =
     and_then (if subject = 0 then Inr 0
       else
         let subject = subject - 1;
             subject_bit = push_bit subject (1 :: nat);
             used = unat (drop_bit 1 used) in
         if used AND subject_bit = 0 then Inl ChainParse
         else
           let lower = used AND (subject_bit - 1);
               upper = push_bit subject (drop_bit (subject + 1) used) in
           Inr (1 + subject * SUBJECT_STATE_COUNT + lower + upper)) (\<lambda>state.
     if state div 64 \<ge> length seen then Inl ChainParse
     else
       let word = seen ! (state div 64);
           slot = push_bit (state mod 64) 1;
           fresh = (word AND slot = 0) in
       Inr (fresh, seen[state div 64 := word OR slot]))"

record search =
  sr_certs :: "path_cert list"
  sr_seen :: "u64 list"
  sr_checked :: "u16 list"
  sr_valid :: "u16 list"
  sr_failure :: "chain_error option"

definition search_new :: "path_cert list \<Rightarrow> search" where
  "search_new certs =
     \<lparr>sr_certs = certs, sr_seen = replicate STATE_WORD_COUNT 0, sr_checked = replicate MAX_CHAIN_LEN 0,
      sr_valid = replicate MAX_CHAIN_LEN 0, sr_failure = None\<rparr>"

definition reject :: "chain_error \<Rightarrow> search \<Rightarrow> search" where
  "reject e S = (if sr_failure S = None then S\<lparr>sr_failure := Some e\<rparr> else S)"

definition cache_get :: "nat \<Rightarrow> nat \<Rightarrow> search \<Rightarrow> chain_error + bool option" where
  "cache_get subject issuer S =
     and_then (ok_or ChainTooLong (checked_shl16 issuer)) (\<lambda>slot.
     if subject \<ge> length (sr_checked S) then Inl ChainParse
     else if subject \<ge> length (sr_valid S) then Inl ChainParse
     else Inr (if sr_checked S ! subject AND slot \<noteq> 0 then Some (sr_valid S ! subject AND slot \<noteq> 0) else None))"

definition cache_insert :: "nat \<Rightarrow> nat \<Rightarrow> bool \<Rightarrow> search \<Rightarrow> chain_error + search" where
  "cache_insert subject issuer valid S =
     and_then (ok_or ChainTooLong (checked_shl16 issuer)) (\<lambda>slot.
     if subject \<ge> length (sr_checked S) then Inl ChainParse
     else
       let S = S\<lparr>sr_checked := (sr_checked S)[subject := sr_checked S ! subject OR slot]\<rparr> in
       if valid then
         if subject \<ge> length (sr_valid S) then Inl ChainParse
         else Inr (S\<lparr>sr_valid := (sr_valid S)[subject := sr_valid S ! subject OR slot]\<rparr>)
       else Inr S)"

definition prepare_candidate :: "unix_time \<Rightarrow> nat \<Rightarrow> search \<Rightarrow> (chain_error + nat) \<times> search" where
  "prepare_candidate now i S =
     (case prepared_index_new i of
        Inl e \<Rightarrow> (Inl e, S)
      | Inr prepared_index \<Rightarrow>
          if i \<ge> length (sr_certs S) then (Inl ChainParse, S)
          else
            (case path_cert_prepare now (sr_certs S ! i) of
               (r, c) \<Rightarrow> (and_then r (\<lambda>_. Inr prepared_index), S\<lparr>sr_certs := (sr_certs S)[i := c]\<rparr>)))"

definition signature_is_valid :: "ring_verify \<Rightarrow> nat \<Rightarrow> nat \<Rightarrow> search \<Rightarrow> chain_error + bool \<times> search" where
  "signature_is_valid RV subject_index issuer_index S =
     and_then (cache_get subject_index issuer_index S) (\<lambda>m.
     case m of
       Some valid \<Rightarrow> Inr (valid, S)
     | None \<Rightarrow>
         if subject_index \<ge> length (sr_certs S) \<or> issuer_index \<ge> length (sr_certs S) then Inl ChainParse
         else
           (case verify_signature RV (pc_signed (sr_certs S ! subject_index)) (pc_spki (sr_certs S ! issuer_index)) of
              Inr _ \<Rightarrow> and_then (cache_insert subject_index issuer_index True S) (\<lambda>S. Inr (True, S))
            | Inl e \<Rightarrow> and_then (cache_insert subject_index issuer_index False S) (\<lambda>S. Inr (False, reject (ChainVerify e) S))))"

lemma prepare_candidate_length: "prepare_candidate now i S = (r, S') \<Longrightarrow> length (sr_certs S') = length (sr_certs S)"
  by (auto simp: prepare_candidate_def split: sum.splits if_splits prod.splits)

lemma reject_certs [simp]: "sr_certs (reject e S) = sr_certs S" "sr_seen (reject e S) = sr_seen S"
    "sr_checked (reject e S) = sr_checked S" "sr_valid (reject e S) = sr_valid S"
  by (simp_all add: reject_def)

lemma cache_insert_certs: "cache_insert s i v S = Inr S' \<Longrightarrow> sr_certs S' = sr_certs S \<and> sr_seen S' = sr_seen S"
  by (auto simp: cache_insert_def and_then_eq_Inr Let_def split: if_splits)

lemma signature_is_valid_certs: "signature_is_valid RV s i S = Inr (v, S') \<Longrightarrow> sr_certs S' = sr_certs S \<and> sr_seen S' = sr_seen S"
  by (auto simp: signature_is_valid_def and_then_eq_Inr dest: cache_insert_certs
      split: option.splits if_splits sum.splits)

definition bump_issuer :: "path_frame list \<Rightarrow> path_frame list" where
  "bump_issuer frames = butlast frames @ [(last frames)\<lparr>fr_next_issuer := fr_next_issuer (last frames) + 1\<rparr>]"

function next_issuer ::
    "unicode \<Rightarrow> ring_verify \<Rightarrow> unix_time \<Rightarrow> nat \<Rightarrow> bytes \<Rightarrow> u16 \<Rightarrow> search \<Rightarrow> path_frame list \<Rightarrow>
     chain_error + nat option \<times> search \<times> path_frame list" where
  "next_issuer U RV now subject_index subject_issuer used S frames0 =
     (if frames0 = [] then Inl ChainParse
      else
        let index = fr_next_issuer (last frames0) in
        if index \<ge> length (sr_certs S) then Inr (None, S, frames0)
        else if index + 1 > 255 then Inl ChainTooLong
        else
          let frames = bump_issuer frames0 in
          and_then (ok_or ChainTooLong (checked_shl16 index)) (\<lambda>issuer_bit.
          if used AND issuer_bit \<noteq> 0 \<or> \<not> dn_equivalent U (pc_subject (sr_certs S ! index)) subject_issuer
          then next_issuer U RV now subject_index subject_issuer used S frames
          else (case prepare_candidate now index S of
              (Inl e, S1) \<Rightarrow> next_issuer U RV now subject_index subject_issuer used (reject e S1) frames
            | (Inr issuer, S1) \<Rightarrow>
                (case and_then (index_resolve (sr_certs S1) issuer)
                        (check_issuer (path_iter (sr_certs S1) frames) (length frames - 1)) of
                   Inl e \<Rightarrow> next_issuer U RV now subject_index subject_issuer used (reject e S1) frames
                 | Inr _ \<Rightarrow>
                     and_then (signature_is_valid RV subject_index index S1) (\<lambda>(valid, S2).
                     if \<not> valid then next_issuer U RV now subject_index subject_issuer used S2 frames
                     else Inr (Some issuer, S2, frames))))))"
  by pat_completeness auto
termination
  by (relation "measure (\<lambda>(_, _, _, _, _, _, S, frames). length (sr_certs S) - fr_next_issuer (last frames))")
    (auto simp: bump_issuer_def dest!: prepare_candidate_length [OF sym] signature_is_valid_certs)

declare next_issuer.simps [simp del]

definition pop_frame :: "path_frame list \<Rightarrow> u16 \<Rightarrow> chain_error + path_frame list \<times> u16" where
  "pop_frame frames used =
     (if frames = [] then Inl ChainParse
      else
        and_then (ok_or ChainTooLong (checked_shl16 (fr_subject (last frames)))) (\<lambda>slot.
        Inr (butlast frames, used AND NOT slot)))"

type_synonym verify_anchor = "path_cert \<Rightarrow> (chain_error + profile) list \<Rightarrow> chain_error + bool"

definition anchor_accepts :: "verify_anchor \<Rightarrow> nat \<Rightarrow> path_frame list \<Rightarrow> search \<Rightarrow> bool \<times> search" where
  "anchor_accepts VA subject frames S =
     (if subject \<ge> length (sr_certs S) then (False, reject ChainParse S)
      else case VA (sr_certs S ! subject) (path_iter (sr_certs S) frames) of
        Inr accepted \<Rightarrow> (accepted, S)
      | Inl e \<Rightarrow> (False, reject e S))"

text \<open>
  One round of the loop: \<open>Inl\<close> is the value the function returns, \<open>Inr\<close> the state of the next
  round.  \<open>search_expand\<close> is the second half of the round, after the current frame was entered.
\<close>

type_synonym search_state = "search \<times> path_frame list \<times> u16"

definition search_expand ::
    "path_frame copy_inline \<Rightarrow> unicode \<Rightarrow> ring_verify \<Rightarrow> unix_time \<Rightarrow> nat \<Rightarrow> search_state \<Rightarrow> (chain_error + unit) + search_state" where
  "search_expand fci U RV now subject = (\<lambda>(S, frames, used).
     if subject \<ge> length (sr_certs S) then Inl (Inl ChainParse)
     else
     (case next_issuer U RV now subject (pc_issuer (sr_certs S ! subject)) used S frames of
        Inl e \<Rightarrow> Inl (Inl e)
      | Inr (None, S, frames) \<Rightarrow>
          let S = reject (if length frames = length (sr_certs S) then NoTrustAnchor else IssuerSubjectMismatch) S in
          (case pop_frame frames used of Inl e \<Rightarrow> Inl (Inl e) | Inr (frames, used) \<Rightarrow> Inr (S, frames, used))
      | Inr (Some issuer, S, frames) \<Rightarrow>
          (case checked_shl16 issuer of
             None \<Rightarrow> Inl (Inl ChainTooLong)
           | Some issuer_bit \<Rightarrow>
               (case ci_push fci MAX_CHAIN_LEN (frame_new issuer) frames of
                  None \<Rightarrow> Inl (Inl ChainTooLong)
                | Some frames \<Rightarrow> Inr (S, frames, used OR issuer_bit)))))"

definition search_step ::
    "path_frame copy_inline \<Rightarrow> unicode \<Rightarrow> ring_verify \<Rightarrow> verify_anchor \<Rightarrow> unix_time \<Rightarrow> search_state \<Rightarrow>
     (chain_error + unit) + search_state" where
  "search_step fci U RV VA now = (\<lambda>(S, frames, used).
     let subject = fr_subject (last frames) in
     if fr_next_issuer (last frames) = 0 then
       let frames = bump_issuer frames in
       (case seen_admit subject used (sr_seen S) of
          Inl e \<Rightarrow> Inl (Inl e)
        | Inr (fresh, seen) \<Rightarrow>
            let S = S\<lparr>sr_seen := seen\<rparr> in
            if \<not> fresh then
              (case pop_frame frames used of Inl e \<Rightarrow> Inl (Inl e) | Inr (frames, used) \<Rightarrow> Inr (S, frames, used))
            else
              (case anchor_accepts VA subject frames S of
                 (True, _) \<Rightarrow> Inl (Inr ())
               | (False, S) \<Rightarrow> search_expand fci U RV now subject (S, frames, used)))
     else search_expand fci U RV now subject (S, frames, used))"

partial_function (option) search_loop ::
    "path_frame copy_inline \<Rightarrow> unicode \<Rightarrow> ring_verify \<Rightarrow> verify_anchor \<Rightarrow> unix_time \<Rightarrow> search_state \<Rightarrow> (chain_error + unit) option" where
  "search_loop fci U RV VA now st =
     (case st of (S, frames, used) \<Rightarrow>
        if frames = [] then Some (Inl (case sr_failure S of Some e \<Rightarrow> e | None \<Rightarrow> NoTrustAnchor))
        else (case search_step fci U RV VA now st of
            Inl r \<Rightarrow> Some r
          | Inr st \<Rightarrow> search_loop fci U RV VA now st))"

definition search_run ::
    "u8 copy_inline \<Rightarrow> path_frame copy_inline \<Rightarrow> unicode \<Rightarrow> ring_verify \<Rightarrow> verify_anchor \<Rightarrow> unix_time \<Rightarrow> bytes \<Rightarrow>
     path_cert list \<Rightarrow> (chain_error + unit) option" where
  "search_run ci fci U RV VA now hostname_dns_id certs =
     (case prepare_candidate now 0 (search_new certs) of
        (Inl e, _) \<Rightarrow> Some (Inl e)
      | (Inr leaf, S) \<Rightarrow>
          (case and_then (index_resolve (sr_certs S) leaf) (check_leaf ci hostname_dns_id) of
             Inl e \<Rightarrow> Some (Inl e)
           | Inr _ \<Rightarrow>
               (case ci_push fci MAX_CHAIN_LEN (frame_new leaf) [] of
                  None \<Rightarrow> Some (Inl ChainTooLong)
                | Some frames \<Rightarrow> search_loop fci U RV VA now (S, frames, 1))))"

subsection \<open>Chains\<close>

record chain =
  ch_certs :: "path_cert list"
  ch_too_long :: bool

definition chain_empty :: chain where
  "chain_empty = \<lparr>ch_certs = [], ch_too_long = False\<rparr>"

definition chain_try_push :: "path_cert copy_inline \<Rightarrow> cert \<Rightarrow> chain \<Rightarrow> chain_error + chain" where
  "chain_try_push pci c ch =
     and_then (ok_or ChainTooLong (ci_push pci MAX_CHAIN_LEN (path_cert_new c) (ch_certs ch))) (\<lambda>cs.
     Inr (ch\<lparr>ch_certs := cs\<rparr>))"

fun chain_push_all :: "path_cert copy_inline \<Rightarrow> cert list \<Rightarrow> chain \<Rightarrow> chain" where
  "chain_push_all pci [] ch = ch"
| "chain_push_all pci (c # cs) ch =
     (case chain_try_push pci c ch of Inl _ \<Rightarrow> ch\<lparr>ch_too_long := True\<rparr> | Inr ch \<Rightarrow> chain_push_all pci cs ch)"

definition chain_new :: "path_cert copy_inline \<Rightarrow> cert list \<Rightarrow> chain" where
  "chain_new pci certs = chain_push_all pci certs chain_empty"

definition anchor_check :: "(path_cert \<Rightarrow> chain_error + anchor_match option) \<Rightarrow> verify_anchor" where
  "anchor_check verifies subject subordinates =
     and_then (verifies subject) (\<lambda>m.
     case m of
       None \<Rightarrow> Inr False
     | Some anchor \<Rightarrow>
         (case am_constraints anchor of
            Some (AmDer der) \<Rightarrow> and_then (check_name_constraints_der der subordinates) (\<lambda>_. Inr True)
          | Some (AmPrepared constraints) \<Rightarrow>
              and_then (check_prepared_name_constraints constraints subordinates) (\<lambda>_. Inr True)
          | None \<Rightarrow> Inr True))"

definition validate_with_anchor_verifier ::
    "u8 copy_inline \<Rightarrow> path_frame copy_inline \<Rightarrow> unicode \<Rightarrow> ring_verify \<Rightarrow> unix_time \<Rightarrow> bytes \<Rightarrow>
     (path_cert \<Rightarrow> chain_error + anchor_match option) \<Rightarrow> chain \<Rightarrow> (chain_error + subject_public_key_info) option" where
  "validate_with_anchor_verifier ci fci U RV now hostname_dns_id verifies ch =
     (if ch_too_long ch then Some (Inl ChainTooLong)
      else case ch_certs ch of
        [] \<Rightarrow> Some (Inl ChainEmpty)
      | leaf # _ \<Rightarrow>
          (case search_run ci fci U RV (anchor_check verifies) now hostname_dns_id (ch_certs ch) of
             None \<Rightarrow> None
           | Some (Inl e) \<Rightarrow> Some (Inl e)
           | Some (Inr _) \<Rightarrow> Some (Inr (pc_spki leaf))))"

definition chain_validate ::
    "u8 copy_inline \<Rightarrow> path_frame copy_inline \<Rightarrow> unicode \<Rightarrow> ring_verify \<Rightarrow> trust_anchor list \<Rightarrow> unix_time \<Rightarrow> bytes \<Rightarrow>
     chain \<Rightarrow> (chain_error + unit) option" where
  "chain_validate ci fci U RV trust_anchors now hostname_dns_id ch =
     (case validate_with_anchor_verifier ci fci U RV now hostname_dns_id
             (verifies_against_anchor U RV trust_anchors) ch of
        None \<Rightarrow> None
      | Some (Inl e) \<Rightarrow> Some (Inl e)
      | Some (Inr _) \<Rightarrow> Some (Inr ()))"

subsection \<open>What an accepted path satisfies\<close>

definition pcert :: "path_cert \<Rightarrow> path_cert" where
  "pcert c = c\<lparr>pc_profile := snd (profile_prepare (pc_profile c))\<rparr>"

definition path_profiles :: "path_cert list \<Rightarrow> nat list \<Rightarrow> (chain_error + profile) list" where
  "path_profiles certs ps = map (\<lambda>i. profile_resolve (pc_profile (pcert (certs ! i)))) ps"

text \<open>
  \<open>link_ok certs sub i\<close>: certificate \<open>i\<close> may issue the last certificate of the path \<open>sub\<close>.
\<close>

definition link_ok :: "unicode \<Rightarrow> ring_verify \<Rightarrow> path_cert list \<Rightarrow> nat list \<Rightarrow> nat \<Rightarrow> bool" where
  "link_ok U RV certs sub i \<longleftrightarrow>
     dn_equivalent U (pc_subject (certs ! i)) (pc_issuer (certs ! last sub)) \<and>
     verify_signature RV (pc_signed (certs ! last sub)) (pc_spki (certs ! i)) = Inr () \<and>
     check_issuer (path_profiles certs sub) (length sub - 1) (pc_profile (pcert (certs ! i))) = Inr ()"

definition path_ok :: "unicode \<Rightarrow> ring_verify \<Rightarrow> unix_time \<Rightarrow> path_cert list \<Rightarrow> nat list \<Rightarrow> bool" where
  "path_ok U RV now certs ps \<longleftrightarrow>
     distinct ps \<and> (ps \<noteq> [] \<longrightarrow> hd ps = 0) \<and>
     (\<forall>i\<in>set ps. i < length certs \<and> i < MAX_CHAIN_LEN \<and> fst (path_cert_prepare now (certs ! i)) = Inr ()) \<and>
     (\<forall>j. Suc j < length ps \<longrightarrow> link_ok U RV certs (take (Suc j) ps) (ps ! Suc j))"

lemma path_ok_snoc:
  "path_ok U RV now certs (ps @ [i]) \<longleftrightarrow>
     path_ok U RV now certs ps \<and> i \<notin> set ps \<and> (ps = [] \<longrightarrow> i = 0) \<and> i < length certs \<and> i < MAX_CHAIN_LEN \<and>
     fst (path_cert_prepare now (certs ! i)) = Inr () \<and> (ps \<noteq> [] \<longrightarrow> link_ok U RV certs ps i)"
proof -
  have "(\<forall>j. Suc j < length (ps @ [i]) \<longrightarrow> link_ok U RV certs (take (Suc j) (ps @ [i])) ((ps @ [i]) ! Suc j)) \<longleftrightarrow>
    (\<forall>j. Suc j < length ps \<longrightarrow> link_ok U RV certs (take (Suc j) ps) (ps ! Suc j)) \<and> (ps \<noteq> [] \<longrightarrow> link_ok U RV certs ps i)"
  proof (cases ps rule: rev_cases)
    case (snoc qs q)
    have "(\<forall>j. Suc j < length (ps @ [i]) \<longrightarrow> P j) \<longleftrightarrow> (\<forall>j. Suc j < length ps \<longrightarrow> P j) \<and> P (length qs)" for P
      using snoc by (auto simp: less_Suc_eq)
    moreover have "take (Suc j) (ps @ [i]) = take (Suc j) ps \<and> (ps @ [i]) ! Suc j = ps ! Suc j" if "Suc j < length ps" for j
      using that by (simp add: nth_append)
    ultimately show ?thesis using snoc by (auto simp: nth_append)
  qed simp
  then show ?thesis by (cases ps) (auto simp: path_ok_def)
qed

lemma profile_summary_status: "pf_status (profile_summary s) = StValid"
  by (simp add: profile_summary_def Let_def case_prod_beta)

lemma profile_prepare_idem: "profile_prepare (snd (profile_prepare p)) = profile_prepare p"
proof -
  have "pf_status q = StValid" if "profile_parse x = Inr q" for x q
    using that by (auto simp: profile_parse_def and_then_eq_Inr profile_summary_status)
  then show ?thesis by (auto simp: profile_prepare_def split: profile_status.splits sum.splits)
qed

lemma path_cert_prepare_snd: "snd (path_cert_prepare now c) = pcert c"
  by (auto simp: path_cert_prepare_def pcert_def split: sum.splits prod.splits)

lemma path_cert_prepare_pcert: "path_cert_prepare now (pcert c) = path_cert_prepare now c"
  by (auto simp: path_cert_prepare_def pcert_def profile_prepare_idem split: sum.splits prod.splits)

definition certs_rel :: "path_cert list \<Rightarrow> path_cert list \<Rightarrow> bool" where
  "certs_rel cs ds \<longleftrightarrow> length ds = length cs \<and> (\<forall>i < length cs. ds ! i = cs ! i \<or> ds ! i = pcert (cs ! i))"

lemma pcert_fields [simp]: "pc_signed (pcert c) = pc_signed c" "pc_issuer (pcert c) = pc_issuer c"
    "pc_subject (pcert c) = pc_subject c" "pc_spki (pcert c) = pc_spki c" "pc_validity (pcert c) = pc_validity c"
  by (simp_all add: pcert_def)

lemma certs_rel_fields:
  assumes "certs_rel cs ds" "i < length cs"
  shows "pc_signed (ds ! i) = pc_signed (cs ! i)" "pc_issuer (ds ! i) = pc_issuer (cs ! i)"
    "pc_subject (ds ! i) = pc_subject (cs ! i)" "pc_spki (ds ! i) = pc_spki (cs ! i)"
    "path_cert_prepare now (ds ! i) = path_cert_prepare now (cs ! i)"
  using assms path_cert_prepare_pcert by (auto simp: certs_rel_def)

lemma prepare_candidate_spec:
  assumes "certs_rel cs (sr_certs S)" "prepare_candidate now i S = (r, S')"
  shows "certs_rel cs (sr_certs S') \<and> sr_checked S' = sr_checked S \<and> sr_valid S' = sr_valid S \<and> sr_seen S' = sr_seen S \<and>
    (\<forall>k < length cs. sr_certs S ! k = pcert (cs ! k) \<longrightarrow> sr_certs S' ! k = pcert (cs ! k)) \<and>
    (\<forall>k. r = Inr k \<longrightarrow> k = i \<and> i < length cs \<and> i < MAX_CHAIN_LEN \<and> fst (path_cert_prepare now (cs ! i)) = Inr () \<and>
       sr_certs S' ! i = pcert (cs ! i))"
proof (cases "i < MAX_CHAIN_LEN \<and> i < length cs")
  case False
  then show ?thesis using assms
    by (auto simp: prepare_candidate_def prepared_index_new_def certs_rel_def split: if_splits)
next
  case True
  then have il: "i < length (sr_certs S)" using assms(1) by (simp add: certs_rel_def)
  have pc: "path_cert_prepare now (sr_certs S ! i) = (fst (path_cert_prepare now (cs ! i)), pcert (cs ! i))"
    using certs_rel_fields(5) [OF assms(1)] True path_cert_prepare_snd [of now "cs ! i"] by (metis prod.collapse)
  have S': "S' = S\<lparr>sr_certs := (sr_certs S)[i := pcert (cs ! i)]\<rparr>"
    and r: "r = and_then (fst (path_cert_prepare now (cs ! i))) (\<lambda>_. Inr i)"
    using assms(2) True il by (auto simp: prepare_candidate_def prepared_index_new_def pc)
  show ?thesis
    using assms(1) True il unfolding S' r
    by (auto simp: certs_rel_def nth_list_update and_then_eq_Inr)
qed

definition cache_ok :: "ring_verify \<Rightarrow> path_cert list \<Rightarrow> search \<Rightarrow> bool" where
  "cache_ok RV cs S \<longleftrightarrow> length (sr_checked S) = MAX_CHAIN_LEN \<and> length (sr_valid S) = MAX_CHAIN_LEN \<and>
     (\<forall>s i. s < MAX_CHAIN_LEN \<longrightarrow> i < 16 \<longrightarrow> bit (sr_valid S ! s) i \<longrightarrow>
        verify_signature RV (pc_signed (cs ! s)) (pc_spki (cs ! i)) = Inr ())"

lemma checked_shl16_bit: "checked_shl16 n = Some w \<Longrightarrow> n < 16 \<and> w = push_bit n 1 \<and> (\<forall>k < 16. bit w k \<longleftrightarrow> k = n)"
  by (auto simp: checked_shl16_def bit_simps split: if_splits)

lemma and_shl16: "n < 16 \<Longrightarrow> (w :: u16) AND push_bit n 1 = 0 \<longleftrightarrow> \<not> bit w n"
  using and_exp_eq_0_iff_not_bit [of w n] by (simp add: push_bit_eq_mult)

lemma cache_insert_ok:
  assumes "cache_ok RV cs S" "cache_insert s i v S = Inr S'"
    "v \<Longrightarrow> verify_signature RV (pc_signed (cs ! s)) (pc_spki (cs ! i)) = Inr ()"
  shows "cache_ok RV cs S'"
proof -
  obtain w where w: "checked_shl16 i = Some w" using assms(2) by (auto simp: cache_insert_def and_then_eq_Inr)
  note b = checked_shl16_bit [OF w]
  show ?thesis
    using assms b w
    by (auto simp: cache_insert_def cache_ok_def Let_def nth_list_update bit_or_iff split: if_splits)
qed

lemma signature_is_valid_spec:
  assumes "cache_ok RV cs S" "certs_rel cs (sr_certs S)" "signature_is_valid RV s i S = Inr (v, S')"
  shows "cache_ok RV cs S' \<and> (v \<longrightarrow> verify_signature RV (pc_signed (cs ! s)) (pc_spki (cs ! i)) = Inr ())"
proof -
  obtain m where m: "cache_get s i S = Inr m" using assms(3) by (auto simp: signature_is_valid_def and_then_eq_Inr)
  obtain w where w: "checked_shl16 i = Some w" "s < MAX_CHAIN_LEN"
    using m assms(1) by (auto simp: cache_get_def and_then_eq_Inr cache_ok_def split: if_splits)
  note b = checked_shl16_bit [OF w(1)]
  show ?thesis
  proof (cases m)
    case (Some valid)
    then have "valid \<Longrightarrow> bit (sr_valid S ! s) i"
      using m w b and_shl16 [of i "sr_valid S ! s"] by (auto simp: cache_get_def split: if_splits)
    then show ?thesis using Some m assms w(2) b by (auto simp: signature_is_valid_def cache_ok_def)
  next
    case None
    then have il: "s < length cs" "i < length cs"
      and st: "(case verify_signature RV (pc_signed (sr_certs S ! s)) (pc_spki (sr_certs S ! i)) of
        Inr _ \<Rightarrow> and_then (cache_insert s i True S) (\<lambda>S. Inr (True, S))
      | Inl e \<Rightarrow> and_then (cache_insert s i False S) (\<lambda>S. Inr (False, reject (ChainVerify e) S))) = Inr (v, S')"
      using assms(2,3) m by (auto simp: signature_is_valid_def certs_rel_def split: if_splits)
    have rej: "cache_ok RV cs (reject e T) = cache_ok RV cs T" for e T by (simp add: cache_ok_def)
    show ?thesis
    proof (cases "verify_signature RV (pc_signed (cs ! s)) (pc_spki (cs ! i))")
      case (Inl e)
      then show ?thesis
        using st cache_insert_ok [OF assms(1), of s i False] certs_rel_fields [OF assms(2)] il
        by (auto simp: and_then_eq_Inr rej)
    next
      case (Inr u)
      then show ?thesis
        using st cache_insert_ok [OF assms(1), of s i True] certs_rel_fields [OF assms(2)] il
        by (auto simp: and_then_eq_Inr)
    qed
  qed
qed

definition subjects :: "path_frame list \<Rightarrow> nat list" where
  "subjects frames = map fr_subject frames"

lemma bump_issuer_facts: "frames \<noteq> [] \<Longrightarrow> subjects (bump_issuer frames) = subjects frames \<and>
    fr_next_issuer (last (bump_issuer frames)) = fr_next_issuer (last frames) + 1 \<and>
    butlast (bump_issuer frames) = butlast frames \<and> bump_issuer frames \<noteq> [] \<and>
    length (bump_issuer frames) = length frames"
  by (cases frames rule: rev_cases) (auto simp: bump_issuer_def subjects_def)

text \<open>What holds between rounds, apart from the path: the certificates, the cache, and prepared subjects.\<close>

definition base_inv :: "ring_verify \<Rightarrow> path_cert list \<Rightarrow> search \<Rightarrow> nat list \<Rightarrow> bool" where
  "base_inv RV cs S ps \<longleftrightarrow> certs_rel cs (sr_certs S) \<and> cache_ok RV cs S \<and>
     (\<forall>i\<in>set ps. i < length cs \<and> sr_certs S ! i = pcert (cs ! i))"

lemma path_iter_profiles:
  assumes "base_inv RV cs S (subjects frames)"
  shows "path_iter (sr_certs S) frames = path_profiles cs (subjects frames)"
  using assms by (auto simp: base_inv_def path_iter_def path_profiles_def subjects_def index_resolve_def certs_rel_def)

lemma base_inv_reject [simp]: "base_inv RV cs (reject e S) ps = base_inv RV cs S ps"
  by (simp add: base_inv_def cache_ok_def)

lemma base_inv_prepare:
  "base_inv RV cs S ps \<Longrightarrow> prepare_candidate now i S = (r, S') \<Longrightarrow> base_inv RV cs S' ps"
  using prepare_candidate_spec [of cs S now i r S'] by (auto simp: base_inv_def cache_ok_def)

definition step_result ::
    "unicode \<Rightarrow> ring_verify \<Rightarrow> unix_time \<Rightarrow> path_cert list \<Rightarrow> u16 \<Rightarrow> path_frame list \<Rightarrow>
     nat option \<times> search \<times> path_frame list \<Rightarrow> bool" where
  "step_result U RV now cs used frames0 = (\<lambda>(r, S, frames).
     base_inv RV cs S (subjects frames0) \<and> subjects frames = subjects frames0 \<and> frames \<noteq> [] \<and>
     butlast frames = butlast frames0 \<and> length frames = length frames0 \<and>
     fr_next_issuer (last frames0) \<le> fr_next_issuer (last frames) \<and>
     fr_next_issuer (last frames) \<le> max (fr_next_issuer (last frames0)) (length cs) \<and>
     (\<forall>i. r = Some i \<longrightarrow>
        fr_next_issuer (last frames0) < fr_next_issuer (last frames) \<and> i < length cs \<and> i < MAX_CHAIN_LEN \<and>
        \<not> bit used i \<and> fst (path_cert_prepare now (cs ! i)) = Inr () \<and> sr_certs S ! i = pcert (cs ! i) \<and>
        link_ok U RV cs (subjects frames0) i))"

lemma step_result_bump:
  assumes "frames0 \<noteq> []" "fr_next_issuer (last frames0) < length cs" "step_result U RV now cs used (bump_issuer frames0) x"
  shows "step_result U RV now cs used frames0 x"
  using assms bump_issuer_facts [OF assms(1)] by (auto simp: step_result_def)

text \<open>What is established when candidate \<open>index\<close> is found.\<close>

definition found_result ::
    "unicode \<Rightarrow> ring_verify \<Rightarrow> unix_time \<Rightarrow> path_cert list \<Rightarrow> u16 \<Rightarrow> nat list \<Rightarrow> nat \<Rightarrow> search \<Rightarrow> bool" where
  "found_result U RV now cs used ps i S \<longleftrightarrow>
     base_inv RV cs S ps \<and> i < MAX_CHAIN_LEN \<and> \<not> bit used i \<and> fst (path_cert_prepare now (cs ! i)) = Inr () \<and>
     sr_certs S ! i = pcert (cs ! i) \<and> link_ok U RV cs ps i"

lemma candidate_found:
  assumes base: "base_inv RV cs S ps" and ps: "ps = subjects frames" "ps \<noteq> []" and idx: "index < length cs"
    and w: "checked_shl16 index = Some w" "used AND w = 0"
    and names: "dn_equivalent U (pc_subject (sr_certs S ! index)) (pc_issuer (cs ! last ps))"
    and pc: "prepare_candidate now index S = (Inr issuer, S1)"
    and chk: "and_then (index_resolve (sr_certs S1) issuer)
            (check_issuer (path_iter (sr_certs S1) frames) (length frames - 1)) = Inr u"
    and sv: "signature_is_valid RV (last ps) index S1 = Inr (True, S2)"
  shows "issuer = index \<and> found_result U RV now cs used ps index S2"
proof -
  have b1: "base_inv RV cs S1 ps" by (rule base_inv_prepare [OF base pc])
  have iss: "issuer = index" "index < MAX_CHAIN_LEN" "fst (path_cert_prepare now (cs ! index)) = Inr ()"
    "sr_certs S1 ! index = pcert (cs ! index)"
    using prepare_candidate_spec [OF _ pc, of cs] base by (auto simp: base_inv_def)
  have sv': "cache_ok RV cs S2" "verify_signature RV (pc_signed (cs ! last ps)) (pc_spki (cs ! index)) = Inr ()"
    using signature_is_valid_spec [OF _ _ sv, of cs] b1 by (simp_all add: base_inv_def)
  have "index_resolve (sr_certs S1) issuer = profile_resolve (pc_profile (pcert (cs ! index)))"
    using iss b1 idx by (simp add: index_resolve_def base_inv_def certs_rel_def)
  then have "check_issuer (path_profiles cs ps) (length ps - 1) (pc_profile (pcert (cs ! index))) = Inr ()"
    using chk path_iter_profiles [of RV cs S1 frames] b1 ps
    by (auto simp: and_then_eq_Inr profile_resolve_def subjects_def split: profile_status.splits)
  moreover have "dn_equivalent U (pc_subject (cs ! index)) (pc_issuer (cs ! last ps))"
    using names certs_rel_fields(3) [of cs "sr_certs S" index] base idx by (simp add: base_inv_def)
  ultimately show ?thesis
    using sv' iss b1 signature_is_valid_certs [OF sv] w and_shl16 [of index used] checked_shl16_bit [OF w(1)]
    by (simp add: found_result_def link_ok_def base_inv_def)
qed

lemma signature_invalid_base:
  "base_inv RV cs S ps \<Longrightarrow> signature_is_valid RV s i S = Inr (v, S') \<Longrightarrow> base_inv RV cs S' ps"
  using signature_is_valid_spec [of RV cs S s i v S'] signature_is_valid_certs [of RV s i S v S']
  by (simp add: base_inv_def)

text \<open>One candidate: the scan is over, the candidate is found, or the scan goes on with the next one.\<close>

lemma next_issuer_round:
  assumes eq: "next_issuer U RV now (last ps) (pc_issuer (cs ! last ps)) used S frames = Inr x"
    and base: "base_inv RV cs S ps" and ps: "ps = subjects frames" "frames \<noteq> []"
    and idx: "fr_next_issuer (last frames) = index" "index < length cs"
  obtains (skip) S' where "base_inv RV cs S' ps"
      "next_issuer U RV now (last ps) (pc_issuer (cs ! last ps)) used S' (bump_issuer frames) = Inr x"
    | (found) S' where "x = (Some index, S', bump_issuer frames)" "found_result U RV now cs used ps index S'"
proof -
  have cl: "length (sr_certs S) = length cs" using base by (simp add: base_inv_def certs_rel_def)
  have pf: "ps = subjects (bump_issuer frames)" "ps \<noteq> []"
    using bump_issuer_facts [OF ps(2)] ps by (auto simp: subjects_def)
  note eq1 = eq [unfolded next_issuer.simps [of U RV now _ _ used S frames] Let_def idx]
  obtain w where w: "checked_shl16 index = Some w" and i255: "\<not> 255 < index + 1"
    using eq1 idx cl ps(2) by (auto simp: and_then_eq_Inr split: if_splits)
  let ?next = "\<lambda>S. next_issuer U RV now (last ps) (pc_issuer (cs ! last ps)) used S (bump_issuer frames)"
  let ?chk = "\<lambda>S issuer. and_then (index_resolve (sr_certs S) issuer)
    (check_issuer (path_iter (sr_certs S) (bump_issuer frames)) (length (bump_issuer frames) - 1))"
  let ?skip = "used AND w \<noteq> 0 \<or> \<not> dn_equivalent U (pc_subject (sr_certs S ! index)) (pc_issuer (cs ! last ps))"
  obtain r S1 where pc: "prepare_candidate now index S = (r, S1)" by fastforce
  have b1: "base_inv RV cs S1 ps" by (rule base_inv_prepare [OF base pc])
  have eq2: "(if ?skip then ?next S else
      case r of Inl e \<Rightarrow> ?next (reject e S1)
      | Inr issuer \<Rightarrow> (case ?chk S1 issuer of Inl e \<Rightarrow> ?next (reject e S1)
          | Inr _ \<Rightarrow> and_then (signature_is_valid RV (last ps) index S1) (\<lambda>(valid, S2).
              if \<not> valid then ?next S2 else Inr (Some issuer, S2, bump_issuer frames)))) = Inr x"
    using eq1 idx cl ps(2) w i255 pc by (cases r) (simp_all cong: if_cong)
  show ?thesis
  proof (cases "\<exists>S'. base_inv RV cs S' ps \<and> ?next S' = Inr x")
    case True
    then show ?thesis using skip by blast
  next
    case False
    then have no: "?next T \<noteq> Inr x" if "base_inv RV cs T ps" for T using that by blast
    have "\<not> ?skip" using eq2 no [OF base] by (metis (full_types))
    moreover obtain issuer where r: "r = Inr issuer"
      using eq2 no [of "reject e S1" for e] b1 \<open>\<not> ?skip\<close> by (cases r) auto
    moreover obtain u where u: "?chk S1 issuer = Inr u"
      using eq2 no [of "reject e S1" for e] b1 \<open>\<not> ?skip\<close> r by (cases "?chk S1 issuer") auto
    moreover obtain S2 where s2: "signature_is_valid RV (last ps) index S1 = Inr (True, S2)"
        "x = (Some issuer, S2, bump_issuer frames)"
      using eq2 no signature_invalid_base [OF b1, of "last ps" index] \<open>\<not> ?skip\<close> r u
      by (auto simp: and_then_eq_Inr split: if_splits)
    ultimately show ?thesis
      using candidate_found [OF base pf idx(2) w, of used U now issuer S1 u S2] pc found by auto
  qed
qed

lemma next_issuer_spec:
  "next_issuer U RV now (last ps) (pc_issuer (cs ! last ps)) used S frames = Inr x \<Longrightarrow> base_inv RV cs S ps \<Longrightarrow>
   ps = subjects frames \<Longrightarrow> frames \<noteq> [] \<Longrightarrow> step_result U RV now cs used frames x"
proof (induction "length cs - fr_next_issuer (last frames)" arbitrary: S frames rule: less_induct)
  case less
  note bf = bump_issuer_facts [OF less(5)]
  show ?case
  proof (cases "fr_next_issuer (last frames) < length cs")
    case False
    then have "x = (None, S, frames)"
      using less(2,3,5) by (subst (asm) next_issuer.simps) (auto simp: base_inv_def certs_rel_def Let_def)
    then show ?thesis using less(3-5) by (simp add: step_result_def)
  next
    case idx: True
    show ?thesis
    proof (rule next_issuer_round [OF less(2-5) refl idx])
      fix S' assume S': "base_inv RV cs S' ps"
        "next_issuer U RV now (last ps) (pc_issuer (cs ! last ps)) used S' (bump_issuer frames) = Inr x"
      then have "step_result U RV now cs used (bump_issuer frames) x"
        using less(1) [of "bump_issuer frames" S'] less(4) idx bf by simp
      then show ?thesis by (rule step_result_bump [OF less(5) idx])
    next
      fix S' assume "x = (Some (fr_next_issuer (last frames)), S', bump_issuer frames)"
         "found_result U RV now cs used ps (fr_next_issuer (last frames)) S'"
      then show ?thesis using idx bf less(4) by (auto simp: step_result_def found_result_def)
    qed
  qed
qed

subsection \<open>The invariant of the search and its measure\<close>

definition search_inv :: "unicode \<Rightarrow> ring_verify \<Rightarrow> unix_time \<Rightarrow> path_cert list \<Rightarrow> search_state \<Rightarrow> bool" where
  "search_inv U RV now cs = (\<lambda>(S, frames, used).
     base_inv RV cs S (subjects frames) \<and> path_ok U RV now cs (subjects frames) \<and>
     (\<forall>f\<in>set frames. fr_next_issuer f \<le> length cs) \<and>
     (\<forall>i < 16. bit used i \<longleftrightarrow> i \<in> set (subjects frames)))"

text \<open>
  A frame that still has to try issuers weighs more than all the frames that can be stacked on
  it: the weight is a number in base \<open>n + 2\<close> whose digits are the issuers left to the frames.
\<close>

fun weight :: "nat \<Rightarrow> nat \<Rightarrow> path_frame list \<Rightarrow> nat" where
  "weight n e [] = 0"
| "weight n e (f # fs) = (n + 1 - fr_next_issuer f) * (n + 2) ^ e + weight n (e - 1) fs"

lemma weight_snoc: "weight n e (fs @ [f]) = weight n e fs + (n + 1 - fr_next_issuer f) * (n + 2) ^ (e - length fs)"
  by (induction fs arbitrary: e) simp_all

lemma subjects_snoc [simp]: "subjects (fs @ [f]) = subjects fs @ [fr_subject f]" "subjects [] = []"
    "subjects fs = [] \<longleftrightarrow> fs = []" "length (subjects fs) = length fs"
  by (auto simp: subjects_def)

lemma path_ok_length: "path_ok U RV now cs ps \<Longrightarrow> length ps \<le> MAX_CHAIN_LEN"
proof -
  assume p: "path_ok U RV now cs ps"
  then have "set ps \<subseteq> {..<MAX_CHAIN_LEN}" "distinct ps" by (auto simp: path_ok_def)
  then show ?thesis using card_mono [of "{..<MAX_CHAIN_LEN}" "set ps"] by (simp add: distinct_card)
qed

lemma weight_last_mono:
  assumes "butlast fs = butlast gs" "fs \<noteq> []" "gs \<noteq> []" "fr_next_issuer (last fs) \<le> fr_next_issuer (last gs)"
  shows "weight n e gs \<le> weight n e fs"
proof -
  have "fs = butlast gs @ [last fs]" "gs = butlast gs @ [last gs]" using assms by (metis append_butlast_last_id)+
  then show ?thesis using assms(4) weight_snoc [of n e "butlast gs"] by (metis add_left_mono diff_le_mono2 mult_le_mono1)
qed

lemma weight_push:
  assumes "butlast fs = butlast gs" "fs \<noteq> []" "gs \<noteq> []" "fr_next_issuer (last fs) < fr_next_issuer (last gs)"
    "fr_next_issuer (last gs) \<le> n" "length fs \<le> e" "fr_next_issuer f = 0"
  shows "weight n e (gs @ [f]) < weight n e fs"
proof -
  define k where "k = e - length gs"
  have f: "fs = butlast gs @ [last fs]" "gs = butlast gs @ [last gs]" using assms by (metis append_butlast_last_id)+
  have l: "e - (length gs - 1) = Suc k" "length fs = length gs"
    using f assms(3,6) unfolding k_def by (metis length_append_singleton length_butlast Suc_diff_le diff_Suc_Suc
        One_nat_def Suc_pred length_greater_0_conv, metis length_append_singleton)
  have "(n + 1 - fr_next_issuer (last gs)) * (n + 2) ^ Suc k + (n + 1) * (n + 2) ^ k
      < (n + 1 - fr_next_issuer (last gs)) * (n + 2) ^ Suc k + (n + 2) ^ Suc k" by simp
  also have "\<dots> = (n + 1 - fr_next_issuer (last gs) + 1) * (n + 2) ^ Suc k" by (simp only: add_mult_distrib mult_1)
  also have "\<dots> \<le> (n + 1 - fr_next_issuer (last fs)) * (n + 2) ^ Suc k" using assms(4,5) by (intro mult_le_mono1) simp
  finally show ?thesis
    using weight_snoc [of n e gs f] weight_snoc [of n e "butlast gs" "last gs"] weight_snoc [of n e "butlast gs" "last fs"]
      f l assms(3,7) by (simp add: k_def)
qed

lemma search_inv_pop:
  assumes inv: "search_inv U RV now cs (S, frames, used)" and pop: "pop_frame frames used = Inr (frames', used')"
  shows "search_inv U RV now cs (S, frames', used') \<and> weight (length cs) e frames' < weight (length cs) e frames"
proof -
  obtain fs f where fr: "frames = fs @ [f]" using pop by (cases frames rule: rev_cases) (auto simp: pop_frame_def)
  then obtain w where w: "checked_shl16 (fr_subject f) = Some w" and out: "frames' = fs" "used' = used AND NOT w"
    using pop by (auto simp: pop_frame_def and_then_eq_Inr)
  have "bit used' i \<longleftrightarrow> i \<in> set (subjects fs)" if "i < 16" for i
    using that inv checked_shl16_bit [OF w] out fr path_ok_snoc [of U RV now cs "subjects fs" "fr_subject f"]
    by (auto simp: search_inv_def bit_and_iff bit_not_iff)
  then show ?thesis using inv out fr
    by (auto simp: search_inv_def base_inv_def path_ok_snoc weight_snoc)
qed

lemma search_inv_bump:
  assumes inv: "search_inv U RV now cs (S, frames, used)" and "frames \<noteq> []" "fr_next_issuer (last frames) = 0"
  shows "search_inv U RV now cs (S, bump_issuer frames, used) \<and>
    weight (length cs) e (bump_issuer frames) \<le> weight (length cs) e frames"
proof -
  note bf = bump_issuer_facts [OF assms(2)]
  have "length cs > 0" using inv assms(2) hd_in_set [of "subjects frames"] by (force simp: search_inv_def base_inv_def)
  then have "\<forall>f\<in>set (bump_issuer frames). fr_next_issuer f \<le> length cs"
    using inv assms(3) by (auto simp: bump_issuer_def search_inv_def Suc_le_eq dest: in_set_butlastD)
  then show ?thesis using inv bf assms weight_last_mono [of frames "bump_issuer frames"] by (simp add: search_inv_def)
qed

lemma search_inv_seen [simp]:
  "search_inv U RV now cs (S\<lparr>sr_seen := seen\<rparr>, frames, used) = search_inv U RV now cs (S, frames, used)"
  "search_inv U RV now cs (reject e S, frames, used) = search_inv U RV now cs (S, frames, used)"
  by (simp_all add: search_inv_def base_inv_def cache_ok_def)

lemma search_inv_next:
  assumes inv: "search_inv U RV now cs (S, frames, used)" and ne: "frames \<noteq> []"
    and st: "step_result U RV now cs used frames (r, S', frames')"
  shows "search_inv U RV now cs (S', frames', used) \<and> weight (length cs) e frames' \<le> weight (length cs) e frames"
proof -
  have "\<forall>f\<in>set frames'. fr_next_issuer f \<le> length cs"
  proof
    fix f assume "f \<in> set frames'"
    then have "f \<in> set (butlast frames) \<or> f = last frames'"
      using st append_butlast_last_id [of frames'] by (simp add: step_result_def) (metis Un_iff empty_set list.simps(15) set_append singletonD)
    then show "fr_next_issuer f \<le> length cs"
      using inv st ne last_in_set [OF ne] by (auto simp: search_inv_def step_result_def dest: in_set_butlastD)
  qed
  then show ?thesis using inv st ne weight_last_mono [of frames frames'] by (auto simp: search_inv_def step_result_def)
qed

lemma search_inv_push:
  assumes inv: "search_inv U RV now cs (S, frames, used)" and ne: "frames \<noteq> []"
    and st: "step_result U RV now cs used frames (Some i, S', frames')" and w: "checked_shl16 i = Some w"
  shows "search_inv U RV now cs (S', frames' @ [frame_new i], used OR w) \<and>
    weight (length cs) MAX_CHAIN_LEN (frames' @ [frame_new i]) < weight (length cs) MAX_CHAIN_LEN frames"
proof -
  have n: "search_inv U RV now cs (S', frames', used)" using search_inv_next [OF inv ne st] by blast
  have len: "length frames \<le> MAX_CHAIN_LEN"
    using path_ok_length [of U RV now cs "subjects frames"] inv by (simp add: search_inv_def)
  have "i \<notin> set (subjects frames)" "i < 16"
    using st inv checked_shl16_bit [OF w] by (auto simp: search_inv_def step_result_def)
  moreover have "fr_next_issuer (last frames') \<le> length cs"
    using n st last_in_set [of frames'] by (auto simp: search_inv_def step_result_def)
  ultimately show ?thesis
    using n st ne len weight_push [of frames frames' "length cs" MAX_CHAIN_LEN "frame_new i"] checked_shl16_bit [OF w]
    by (auto simp: search_inv_def step_result_def frame_new_def base_inv_def path_ok_snoc bit_or_iff)
qed

lemma search_expand_step:
  assumes inv: "search_inv U RV now cs (S, frames, used)" and ne: "frames \<noteq> []" and ok: "copy_inline_ok fci"
    and ex: "search_expand fci U RV now (last (subjects frames)) (S, frames, used) = Inr (S', frames', used')"
  shows "search_inv U RV now cs (S', frames', used') \<and>
    weight (length cs) MAX_CHAIN_LEN frames' < weight (length cs) MAX_CHAIN_LEN frames"
proof -
  let ?sub = "last (subjects frames)"
  have base: "base_inv RV cs S (subjects frames)" using inv by (simp add: search_inv_def)
  then have sub: "?sub < length cs" "certs_rel cs (sr_certs S)"
    using last_in_set [of "subjects frames"] ne by (auto simp: base_inv_def)
  obtain r T fs where n: "next_issuer U RV now ?sub (pc_issuer (cs ! ?sub)) used S frames = Inr (r, T, fs)"
    using ex certs_rel_fields(2) [OF sub(2,1)]
    by (auto simp: search_expand_def split: if_splits sum.splits prod.splits)
  have st: "step_result U RV now cs used frames (r, T, fs)" by (rule next_issuer_spec [OF n base refl ne])
  note sn = search_inv_next [OF inv ne st, of MAX_CHAIN_LEN]
  note ex' = ex [unfolded search_expand_def prod.case certs_rel_fields(2) [OF sub(2,1)] n sum.case]
  show ?thesis
  proof (cases r)
    case None
    then obtain e where "S' = reject e T" "pop_frame fs used = Inr (frames', used')"
      using ex' by (auto simp: Let_def split: if_splits sum.splits)
    then show ?thesis using search_inv_pop [of U RV now cs T fs used frames' used' MAX_CHAIN_LEN] sn by auto
  next
    case (Some i)
    then obtain w where "checked_shl16 i = Some w" "S' = T" "frames' = fs @ [frame_new i]" "used' = used OR w"
      using ex' copy_inline_okD(1) [OF ok] by (auto split: if_splits option.splits)
    then show ?thesis using search_inv_push [OF inv ne] st Some by simp
  qed
qed

text \<open>A round keeps the invariant and loses weight; a round that accepts has an accepted anchor.\<close>

lemma last_subjects: "frames \<noteq> [] \<Longrightarrow> last (subjects frames) = fr_subject (last frames)"
  by (simp add: subjects_def last_map)

lemma search_step_inv:
  assumes inv: "search_inv U RV now cs (S, frames, used)" and ne: "frames \<noteq> []" and ok: "copy_inline_ok fci"
    and st: "search_step fci U RV VA now (S, frames, used) = Inr (S', frames', used')"
  shows "search_inv U RV now cs (S', frames', used') \<and>
    weight (length cs) MAX_CHAIN_LEN frames' < weight (length cs) MAX_CHAIN_LEN frames"
proof (cases "fr_next_issuer (last frames) = 0")
  case False
  then show ?thesis using search_expand_step [OF inv ne ok] st last_subjects [OF ne] by (simp add: search_step_def)
next
  case True
  note b = search_inv_bump [OF inv ne True, of MAX_CHAIN_LEN]
  note bf = bump_issuer_facts [OF ne]
  obtain fresh seen where ad: "seen_admit (fr_subject (last frames)) used (sr_seen S) = Inr (fresh, seen)"
    using st True by (auto simp: search_step_def Let_def split: sum.splits)
  define T where "T = S\<lparr>sr_seen := seen\<rparr>"
  have iT: "search_inv U RV now cs (T, bump_issuer frames, used)" using b by (simp add: T_def)
  show ?thesis
  proof (cases fresh)
    case False
    then have "S' = T" and p: "pop_frame (bump_issuer frames) used = Inr (frames', used')"
      using st True ad by (auto simp: search_step_def Let_def T_def split: sum.splits)
    then show ?thesis using search_inv_pop [OF iT p, of MAX_CHAIN_LEN] b by auto
  next
    case fr: True
    obtain T' where T': "anchor_accepts VA (fr_subject (last frames)) (bump_issuer frames) T = (False, T')"
        "search_expand fci U RV now (fr_subject (last frames)) (T', bump_issuer frames, used) = Inr (S', frames', used')"
      using st True ad fr by (auto simp: search_step_def Let_def T_def split: prod.splits bool.splits)
    then have iT': "search_inv U RV now cs (T', bump_issuer frames, used)"
      using iT by (auto simp: anchor_accepts_def split: if_splits sum.splits)
    have "last (subjects (bump_issuer frames)) = fr_subject (last frames)" "bump_issuer frames \<noteq> []"
      using bf last_subjects [OF ne] by simp_all
    then have "search_inv U RV now cs (S', frames', used') \<and>
        weight (length cs) MAX_CHAIN_LEN frames' < weight (length cs) MAX_CHAIN_LEN (bump_issuer frames)"
      using search_expand_step [OF iT' _ ok, of S' frames' used'] T'(2) by simp
    then show ?thesis using b by linarith
  qed
qed

lemma search_step_accept:
  assumes inv: "search_inv U RV now cs (S, frames, used)" and ne: "frames \<noteq> []"
    and st: "search_step fci U RV VA now (S, frames, used) = Inl (Inr ())"
  shows "VA (pcert (cs ! last (subjects frames))) (path_profiles cs (subjects frames)) = Inr True"
proof -
  have no: "search_expand fci U RV now i x \<noteq> Inl (Inr ())" for i x
    by (auto simp: search_expand_def Let_def split: if_splits sum.splits prod.splits option.splits)
  obtain T T' where T: "anchor_accepts VA (fr_subject (last frames)) (bump_issuer frames) T = (True, T')"
      "sr_certs T = sr_certs S"
    using st no by (auto simp: search_step_def Let_def split: if_splits sum.splits prod.splits bool.splits)
  have "path_iter (sr_certs S) (bump_issuer frames) = path_profiles cs (subjects frames)"
    using inv path_iter_profiles [of RV cs S "bump_issuer frames"] bump_issuer_facts [OF ne] by (simp add: search_inv_def)
  moreover have "sr_certs S ! last (subjects frames) = pcert (cs ! last (subjects frames))"
    using inv last_in_set [of "subjects frames"] ne by (auto simp: search_inv_def base_inv_def)
  ultimately show ?thesis
    using T by (auto simp: anchor_accepts_def last_subjects [OF ne] split: if_splits sum.splits)
qed

lemma search_loop_spec:
  assumes "search_inv U RV now cs (S, frames, used)" "copy_inline_ok fci"
  shows "\<exists>r. search_loop fci U RV VA now (S, frames, used) = Some r \<and>
    (r = Inr () \<longrightarrow> (\<exists>ps. ps \<noteq> [] \<and> path_ok U RV now cs ps \<and> VA (pcert (cs ! last ps)) (path_profiles cs ps) = Inr True))"
  using assms(1)
proof (induction "weight (length cs) MAX_CHAIN_LEN frames" arbitrary: S frames used rule: less_induct)
  case less
  show ?case
  proof (cases "frames = []")
    case True
    then show ?thesis by (simp add: search_loop.simps [of _ _ _ _ _ "(S, [], used)"])
  next
    case ne: False
    show ?thesis
    proof (cases "search_step fci U RV VA now (S, frames, used)")
      case (Inl r)
      then have "search_loop fci U RV VA now (S, frames, used) = Some r"
        using ne by (simp add: search_loop.simps [of _ _ _ _ _ "(S, frames, used)"])
      moreover have "path_ok U RV now cs (subjects frames)" using less(2) by (simp add: search_inv_def)
      ultimately show ?thesis
        using search_step_accept [OF less(2) ne] Inl ne by (intro exI [of _ r]) (auto intro: exI [of _ "subjects frames"])
    next
      case (Inr st)
      obtain S' frames' used' where st: "st = (S', frames', used')" by (cases st)
      have "search_loop fci U RV VA now (S, frames, used) = search_loop fci U RV VA now st"
        using ne Inr by (simp add: search_loop.simps [of _ _ _ _ _ "(S, frames, used)"])
      then show ?thesis
        using less(1) search_step_inv [OF less(2) ne assms(2)] Inr st by simp
    qed
  qed
qed

lemma search_new_inv:
  assumes "prepare_candidate now 0 (search_new certs) = (Inr leaf, S)"
  shows "leaf = 0 \<and> certs \<noteq> [] \<and> sr_certs S ! 0 = pcert (certs ! 0) \<and> search_inv U RV now certs (S, [frame_new 0], 1)"
proof -
  have c: "certs_rel certs (sr_certs (search_new certs))" "cache_ok RV certs (search_new certs)"
    by (simp_all add: search_new_def certs_rel_def cache_ok_def)
  note p = prepare_candidate_spec [OF c(1) assms]
  then have l: "leaf = 0" "certs \<noteq> []" "fst (path_cert_prepare now (certs ! 0)) = Inr ()" "sr_certs S ! 0 = pcert (certs ! 0)"
    by auto
  have "path_ok U RV now certs ([] @ [0])" by (subst path_ok_snoc) (use l in \<open>simp add: path_ok_def MAX_CHAIN_LEN_def\<close>)
  then show ?thesis using l p c(2)
    by (auto simp: search_inv_def base_inv_def cache_ok_def frame_new_def subjects_def bit_1_iff)
qed

lemma search_run_spec:
  assumes "copy_inline_ok fci"
  shows "\<exists>r. search_run ci fci U RV VA now host certs = Some r \<and>
    (r = Inr () \<longrightarrow> certs \<noteq> [] \<and> check_leaf ci host (pc_profile (pcert (certs ! 0))) = Inr () \<and>
      (\<exists>ps. ps \<noteq> [] \<and> path_ok U RV now certs ps \<and> VA (pcert (certs ! last ps)) (path_profiles certs ps) = Inr True))"
proof -
  obtain r S where p: "prepare_candidate now 0 (search_new certs) = (r, S)" by fastforce
  show ?thesis
  proof (cases r)
    case (Inl e)
    then show ?thesis using p by (simp add: search_run_def)
  next
    case (Inr leaf)
    note s = search_new_inv [OF p [unfolded Inr], of U RV]
    have push: "ci_push fci MAX_CHAIN_LEN (frame_new leaf) [] = Some [frame_new 0]"
      using copy_inline_okD(1) [OF assms] s by (simp add: MAX_CHAIN_LEN_def)
    have len: "0 < length (sr_certs S)" using s by (simp add: search_inv_def base_inv_def certs_rel_def)
    have leaf: "check_leaf ci host (pc_profile (pcert (certs ! 0))) = Inr ()"
      if "and_then (index_resolve (sr_certs S) leaf) (check_leaf ci host) = Inr ()"
      using that s len by (auto simp: index_resolve_def and_then_eq_Inr profile_resolve_def split: profile_status.splits)
    obtain r' where r': "search_loop fci U RV VA now (S, [frame_new 0], 1) = Some r'"
      "r' = Inr () \<longrightarrow> (\<exists>ps. ps \<noteq> [] \<and> path_ok U RV now certs ps \<and> VA (pcert (certs ! last ps)) (path_profiles certs ps) = Inr True)"
      using search_loop_spec [of U RV now certs S "[frame_new 0]" 1, OF _ assms] s by blast
    show ?thesis
      using p Inr push r' leaf s
      by (cases "and_then (index_resolve (sr_certs S) leaf) (check_leaf ci host)") (auto simp: search_run_def)
  qed
qed

text \<open>
  \<open>anchor_trusts\<close>: the anchor's name is the issuer of the last certificate of the path, its key
  verifies that certificate's signature, and the path satisfies its name constraints.
\<close>

definition anchor_trusts :: "unicode \<Rightarrow> ring_verify \<Rightarrow> trust_anchor \<Rightarrow> path_cert list \<Rightarrow> nat list \<Rightarrow> bool" where
  "anchor_trusts U RV a certs ps \<longleftrightarrow>
     (ta_subject_der a = pc_issuer (certs ! last ps) \<or> dn_equivalent U (ta_subject_der a) (pc_issuer (certs ! last ps))) \<and>
     verify_signature RV (pc_signed (certs ! last ps)) (ta_spki a) = Inr () \<and>
     (case anchor_name_constraints_der a of
        Inl _ \<Rightarrow> False
      | Inr None \<Rightarrow> True
      | Inr (Some der) \<Rightarrow> check_name_constraints_der der (path_profiles certs ps) = Inr ())"

lemma verifies_against_anchor_match:
  "verifies_against_anchor U RV anchors c = Inr (Some m) \<Longrightarrow>
    \<exists>a\<in>set anchors. anchor_verify_subject U RV c a = Inr (Some m)"
  by (induction anchors) (auto simp: and_then_eq_Inr split: option.splits)

lemma anchor_check_trusts:
  assumes "anchor_check (verifies_against_anchor U RV anchors) (pcert (certs ! last ps)) (path_profiles certs ps) = Inr True"
  shows "\<exists>a\<in>set anchors. anchor_trusts U RV a certs ps"
proof -
  obtain m where m: "verifies_against_anchor U RV anchors (pcert (certs ! last ps)) = Inr (Some m)"
    using assms by (auto simp: anchor_check_def and_then_eq_Inr split: option.splits)
  then obtain a where a: "a \<in> set anchors" "anchor_verify_subject U RV (pcert (certs ! last ps)) a = Inr (Some m)"
    using verifies_against_anchor_match by blast
  then have "anchor_trusts U RV a certs ps"
    using assms m
    by (auto simp: anchor_check_def anchor_trusts_def anchor_verify_subject_def and_then_eq_Inr dn_parse_def
        split: option.splits if_splits sum.splits)
  then show ?thesis using a by blast
qed

text \<open>The path in terms of the checks of the code; the theory \<open>PathSpec\<close> says what the checks amount to.\<close>

lemma chain_validate_path:
  assumes "copy_inline_ok fci" "chain_validate ci fci U RV anchors now host ch = Some (Inr ())"
  shows "\<not> ch_too_long ch \<and> ch_certs ch \<noteq> [] \<and> check_leaf ci host (pc_profile (pcert (ch_certs ch ! 0))) = Inr () \<and>
    (\<exists>ps. ps \<noteq> [] \<and> path_ok U RV now (ch_certs ch) ps \<and> (\<exists>a\<in>set anchors. anchor_trusts U RV a (ch_certs ch) ps))"
proof -
  have run: "\<not> ch_too_long ch"
    "search_run ci fci U RV (anchor_check (verifies_against_anchor U RV anchors)) now host (ch_certs ch) = Some (Inr ())"
    using assms(2) by (auto simp: chain_validate_def validate_with_anchor_verifier_def
        split: if_splits list.splits option.splits sum.splits)
  note s = search_run_spec [OF assms(1), of ci U RV "anchor_check (verifies_against_anchor U RV anchors)" now host "ch_certs ch"]
  show ?thesis using run s anchor_check_trusts [of U RV anchors "ch_certs ch"] by auto
qed

text \<open>
  C35.  Path validation always returns, for every chain, every trust anchor list and every outcome of
  the signature verifications: the search, which revisits issuers depth first, ends.
\<close>

theorem search_terminates:
  assumes "copy_inline_ok fci"
  shows "\<exists>r. validate_with_anchor_verifier ci fci U RV now host verifies ch = Some r"
  using search_run_spec [OF assms, of ci U RV "anchor_check verifies" now host "ch_certs ch"]
  by (auto simp: validate_with_anchor_verifier_def split: list.splits sum.splits)

subsection \<open>A chain that is accepted\<close>

definition sample_leaf :: path_cert where
  "sample_leaf =
     \<lparr>pc_signed = \<lparr>sg_tbs_der = [1], sg_algorithm = SigEd25519, sg_signature = [2]\<rparr>, pc_issuer = [48, 0],
      pc_subject = [48, 0], pc_issuer_key = [], pc_validity = \<lparr>va_not_before = 0, va_not_after = 100\<rparr>,
      pc_spki = \<lparr>spki_algorithm = PkEd25519, spki_key = [3], spki_raw_der = []\<rparr>,
      pc_profile = \<lparr>pf_primary = [0x82, 1, 97], pf_name_constraints = [], pf_flags = 0, pf_path_limit = NO_PATH_LIMIT,
        pf_status = StValid\<rparr>\<rparr>"

definition sample_anchor :: trust_anchor where
  "sample_anchor = anchor_unconstrained [48, 0] \<lparr>spki_algorithm = PkEd25519, spki_key = [4], spki_raw_der = []\<rparr>"

definition sample_verify :: ring_verify where
  "sample_verify profile key message sig = (key = [4] \<and> message = [1] \<and> sig = [2])"

lemma sample_check_leaf: "check_leaf copy_inline_ref [97] (pc_profile sample_leaf) = Inr ()"
proof -
  have "parse_ipv4_parts copy_inline_ref 4 [[97]] [] = None"
    using parse_ipv4_parts.simps(3) [of copy_inline_ref 3 "[97]" "[]" "[]"] by (simp add: is_ascii_digit_def)
  then have "parse_ip copy_inline_ref [97] = None"
    by (simp add: parse_ip_def parse_ipv4_def COLON_def DOT_def)
  moreover have "general_name_next [0x82, 1, 97] = Some (Inr (DnsName [97], []))"
    by (simp add: general_name_next_def der_eval general_name_from_tlv_def)
  moreover have "matches_dns [97] [97]"
    by (simp add: matches_dns_def trim_trailing_dot_def DOT_def STAR_def valid_name_def split_first_label_def
        ascii_case_eq_def eq_ignore_ascii_case_def)
  ultimately show ?thesis
    by (simp add: check_leaf_def sample_leaf_def profile_resolve_def check_end_entity_def check_server_auth_def
       has_flag_def check_hostname_def any_general_name.simps [of _ "[0x82, 1, 97]"])
qed

theorem search_terminates_witness:
  "\<exists>r. validate_with_anchor_verifier copy_inline_ref copy_inline_ref sample_unicode (\<lambda>_ _ _ _. True) 50 [97]
     (\<lambda>_. Inr None) \<lparr>ch_certs = [sample_leaf, sample_leaf, sample_leaf], ch_too_long = False\<rparr> = Some r"
  using search_terminates [OF copy_inline_ref_ok] by simp

end
