(* ===== verification/ClientTrust.thy ===== *)
theory ClientTrust
  imports Chain Signatures Protocols KeyExchange Connection "HOL-Library.List_Lexorder" "HOL-Library.Product_Lexorder"
begin

section \<open>Client endpoints: trust, identity and resumption state\<close>

text \<open>
  \<open>client/config/\<close> without the validation of whole configurations: configuration errors, trust
  anchors and the issuer-indexed trust store, verifiers, the client's identity, the endpoint template, and
  the resumption state in its four forms (issued ticket, retained ticket, persisted restore input, active
  state).  Templates and stores are shared by \<open>Rc\<close> and never mutated: they are values here.
  \<open>PreparedSpki\<close> keeps a key as a byte range of its DER encoding; here it keeps the bytes.
\<close>

subsection \<open>Errors\<close>

datatype config_error =
    MissingTrustAnchors
  | TooManyTrustAnchors nat nat
  | MalformedTrustAnchor nat
  | MissingServerName
  | InvalidServerName
  | TransportParametersTooLong nat nat
  | TransportParametersInTls nat
  | EmptyAlpnProtocol nat
  | AlpnProtocolTooLong nat nat nat
  | AlpnListTooLong nat nat
  | EmptyResumptionTicket
  | ResumptionTicketTooLong nat nat
  | InvalidResumptionLifetime
  | ResumptionKeyDerivation
  | InvalidEarlyDataEntitlement
  | ClientHelloEncodingOverflow
  | ClientHelloTooLarge nat nat
  | InvalidIdentity

definition error_of_config :: "config_error \<Rightarrow> conn_error" where
  "error_of_config _ = BadConfig"

subsection \<open>Trust anchors\<close>

record owned_trust_anchor =
  ota_subject_der :: bytes
  ota_spki_der :: bytes
  ota_name_constraints_der :: "bytes option"

definition wrap_sequence :: "bytes \<Rightarrow> bytes" where
  "wrap_sequence inner =
     (let bytes = be_bytes 8 (length inner);
          start = min (length (takeWhile (\<lambda>byte. byte = 0) bytes)) (length bytes - 1);
          len_bytes = drop start bytes in
      0x30 # (if length inner < 128 then [word_of_nat (length inner)]
              else (0x80 OR word_of_nat (length len_bytes)) # len_bytes) @ inner)"

definition owned_from_der_fields :: "bytes \<Rightarrow> bytes \<Rightarrow> bytes option \<Rightarrow> owned_trust_anchor" where
  "owned_from_der_fields subject_der spki_der name_constraints_der =
     \<lparr>ota_subject_der = subject_der, ota_spki_der = wrap_sequence spki_der,
      ota_name_constraints_der = map_option wrap_sequence name_constraints_der\<rparr>"

definition owned_from_cert_der :: "unicode \<Rightarrow> crypto \<Rightarrow> bytes \<Rightarrow> chain_error + owned_trust_anchor" where
  "owned_from_cert_der U C cert_der1 =
     and_then (chain_of_cert (cert_parse U C cert_der1)) (\<lambda>c.
     and_then (anchor_name_constraints_der (anchor_from_cert c)) (\<lambda>constraints.
     Inr \<lparr>ota_subject_der = cn_subject (tbs_names (ct_tbs c)), ota_spki_der = spki_raw_der (tbs_spki (ct_tbs c)),
          ota_name_constraints_der = constraints\<rparr>))"

definition owned_unconstrained :: "bytes \<Rightarrow> bytes \<Rightarrow> owned_trust_anchor" where
  "owned_unconstrained subject_der spki_der =
     \<lparr>ota_subject_der = subject_der, ota_spki_der = spki_der, ota_name_constraints_der = None\<rparr>"

definition owned_view :: "owned_trust_anchor \<Rightarrow> chain_error + trust_anchor" where
  "owned_view a =
     and_then (chain_of_cert (spki_parse_standalone (ota_spki_der a))) (\<lambda>spki.
     case ota_name_constraints_der a of
       Some constraints \<Rightarrow> anchor_with_name_constraints (ota_subject_der a) spki constraints
     | None \<Rightarrow> Inr (anchor_unconstrained (ota_subject_der a) spki))"

subsection \<open>The trust store\<close>

definition MAX_TRUST_ANCHORS :: nat where "MAX_TRUST_ANCHORS = 256"

record prepared_trust_anchor =
  pt_subject_der :: bytes
  pt_subject_key :: bytes
  pt_spki :: subject_public_key_info
  pt_constraints :: "prepared_name_constraints option"

definition prepared_anchor_new :: "unicode \<Rightarrow> crypto \<Rightarrow> owned_trust_anchor \<Rightarrow> chain_error + prepared_trust_anchor" where
  "prepared_anchor_new U C a =
     and_then (chain_of_cert (dn_prepared U C (ota_subject_der a))) (\<lambda>(_, subject_key).
     and_then (case ota_name_constraints_der a of
         None \<Rightarrow> Inr None | Some der \<Rightarrow> and_then (prepared_parse der) (\<lambda>p. Inr (Some p))) (\<lambda>constraints.
     and_then (chain_of_cert (spki_parse_standalone (ota_spki_der a))) (\<lambda>spki.
     Inr \<lparr>pt_subject_der = ota_subject_der a, pt_subject_key = subject_key, pt_spki = spki, pt_constraints = constraints\<rparr>)))"

fun prepare_anchors :: "unicode \<Rightarrow> crypto \<Rightarrow> nat \<Rightarrow> owned_trust_anchor list \<Rightarrow> config_error + prepared_trust_anchor list" where
  "prepare_anchors U C index [] = Inr []"
| "prepare_anchors U C index (anchor # anchors) =
     and_then (map_err (\<lambda>_. MalformedTrustAnchor index) (prepared_anchor_new U C anchor)) (\<lambda>p.
     and_then (prepare_anchors U C (index + 1) anchors) (\<lambda>ps. Inr (p # ps)))"

text \<open>
  \<open>sort_unstable_by\<close> orders anchors by key and name and leaves the order of equal ones open; the model
  takes a stable order.
\<close>

type_synonym trust_store = "prepared_trust_anchor list"

definition store_new :: "unicode \<Rightarrow> crypto \<Rightarrow> owned_trust_anchor list \<Rightarrow> config_error + trust_store" where
  "store_new U C anchors =
     (if anchors = [] then Inl MissingTrustAnchors
      else if length anchors > MAX_TRUST_ANCHORS then Inl (TooManyTrustAnchors (length anchors) MAX_TRUST_ANCHORS)
      else and_then (prepare_anchors U C 0 anchors) (\<lambda>prepared.
        Inr (sort_key (\<lambda>a. (pt_subject_key a, pt_subject_der a)) prepared)))"

definition store_len :: "trust_store \<Rightarrow> nat" where
  "store_len s = length s"

definition store_is_empty :: "trust_store \<Rightarrow> bool" where
  "store_is_empty s \<longleftrightarrow> s = []"

text \<open>\<open>partition_point\<close>, on a slice partitioned by the predicate.\<close>

definition partition_point :: "('a \<Rightarrow> bool) \<Rightarrow> 'a list \<Rightarrow> nat" where
  "partition_point p xs = length (takeWhile p xs)"

fun store_scan :: "unicode \<Rightarrow> ring_verify \<Rightarrow> path_cert \<Rightarrow> prepared_trust_anchor list \<Rightarrow> anchor_match option" where
  "store_scan U RV subject [] = None"
| "store_scan U RV subject (a # as) =
     (if pt_subject_key a \<noteq> pc_issuer_key subject then None
      else if \<not> dn_equivalent U (pt_subject_der a) (pc_issuer subject) then store_scan U RV subject as
      else (case verify_signature RV (pc_signed subject) (pt_spki a) of
          Inr _ \<Rightarrow> Some \<lparr>am_constraints = map_option AmPrepared (pt_constraints a)\<rparr>
        | Inl _ \<Rightarrow> store_scan U RV subject as))"

definition store_verify_subject ::
    "unicode \<Rightarrow> ring_verify \<Rightarrow> trust_store \<Rightarrow> path_cert \<Rightarrow> chain_error + anchor_match option" where
  "store_verify_subject U RV anchors subject =
     (let start = partition_point (\<lambda>a. pt_subject_key a < pc_issuer_key subject) anchors in
      Inr (store_scan U RV subject (drop start anchors)))"

subsection \<open>Verifiers\<close>

type_synonym certificate_limit = u32

definition ONE_RECORD :: certificate_limit where "ONE_RECORD = word_of_nat MAX_PLAINTEXT_BODY"
definition LIMIT_MAXIMUM :: certificate_limit where "LIMIT_MAXIMUM = word_of_nat MAX_SIZE"

text \<open>The bounds of \<open>CertificateLimit::new\<close> are checked when the program is compiled: \<open>None\<close> does not compile.\<close>

definition certificate_limit_new :: "nat \<Rightarrow> certificate_limit option" where
  "certificate_limit_new n = (if MAX_PLAINTEXT_BODY \<le> n \<and> n \<le> MAX_SIZE then Some (word_of_nat n) else None)"

definition certificate_limit_get :: "certificate_limit \<Rightarrow> nat" where
  "certificate_limit_get l = unat l"

datatype verifier =
    VerifierRawPublicKey bytes
  | VerifierX509 "owned_trust_anchor list" bytes certificate_limit
  | VerifierX509Store trust_store bytes certificate_limit

fun dns_hostname :: "u8 copy_inline \<Rightarrow> verifier \<Rightarrow> bytes option" where
  "dns_hostname ci (VerifierRawPublicKey _) = None"
| "dns_hostname ci (VerifierX509 _ hostname _) = (if is_ip_literal ci hostname then None else Some hostname)"
| "dns_hostname ci (VerifierX509Store _ hostname _) = (if is_ip_literal ci hostname then None else Some hostname)"

fun verifier_prepare :: "unicode \<Rightarrow> crypto \<Rightarrow> verifier \<Rightarrow> config_error + verifier" where
  "verifier_prepare U C (VerifierX509 anchors hostname limit) =
     and_then (store_new U C anchors) (\<lambda>roots. Inr (VerifierX509Store roots hostname limit))"
| "verifier_prepare U C v = Inr v"

fun verifier_certificate_limit :: "verifier \<Rightarrow> certificate_limit" where
  "verifier_certificate_limit (VerifierRawPublicKey _) = ONE_RECORD"
| "verifier_certificate_limit (VerifierX509 _ _ limit) = limit"
| "verifier_certificate_limit (VerifierX509Store _ _ limit) = limit"

fun verifier_peer_identity_capacity :: "verifier \<Rightarrow> nat" where
  "verifier_peer_identity_capacity (VerifierRawPublicKey _) = 0"
| "verifier_peer_identity_capacity (VerifierX509 _ _ _) = MAX_PEER_KEY_LEN"
| "verifier_peer_identity_capacity (VerifierX509Store _ _ _) = MAX_PEER_KEY_LEN"

subsection \<open>The client's identity\<close>

datatype client_source =
    IdentityRawPublicKey signing_key
  | IdentityX509 "bytes list" signing_key

fun identity_signing_key :: "client_source \<Rightarrow> signing_key" where
  "identity_signing_key (IdentityRawPublicKey key) = key"
| "identity_signing_key (IdentityX509 _ key) = key"

fun identity_cert_type :: "client_source \<Rightarrow> certificate_type" where
  "identity_cert_type (IdentityRawPublicKey _) = RawPublicKey"
| "identity_cert_type (IdentityX509 _ _) = X509"

definition identity_outbound_flight_capacity :: "'k sign_ops \<Rightarrow> client_source \<Rightarrow> nat" where
  "identity_outbound_flight_capacity S source =
     (let rest = (\<lambda>certificate_len. certificate_len +
            certificate_verify_frame_len (signature_len_upper_bound S (identity_signing_key source)) + (4 + HASH_MAX_LEN)) in
      case source of
        IdentityRawPublicKey key \<Rightarrow>
          (case pubkey key of
             None \<Rightarrow> MAX_SIZE
           | Some public_key \<Rightarrow> rest ((4 + 1 + 3) + (3 + 2) + length (encoded_ed25519 public_key)))
      | IdentityX509 chain_der _ \<Rightarrow>
          rest (case chain_message_len chain_der of None \<Rightarrow> MAX_SIZE | Some n \<Rightarrow> n))"

definition identity_validate :: "unicode \<Rightarrow> crypto \<Rightarrow> 'k sign_ops \<Rightarrow> client_source \<Rightarrow> config_error + unit" where
  "identity_validate U C S source =
     (if (case source of
            IdentityRawPublicKey key \<Rightarrow> is_ed25519 key
          | IdentityX509 chain_der key \<Rightarrow>
              chain_fits chain_der \<and> matches_x509_chain U C key chain_der \<and>
              identity_outbound_flight_capacity S source \<le> MAX_SIZE)
      then Inr () else Inl InvalidIdentity)"

definition identity_try_into_template :: "unicode \<Rightarrow> crypto \<Rightarrow> 'k sign_ops \<Rightarrow> client_source \<Rightarrow> config_error + client_source" where
  "identity_try_into_template U C S source = and_then (identity_validate U C S source) (\<lambda>_. Inr source)"

subsection \<open>The endpoint template\<close>

record template =
  tp_verifier :: verifier
  tp_transport_mode :: mode
  tp_transport_params :: bytes
  tp_alpn_protocols :: prepared_alpn
  tp_enable_early_data :: bool

definition template_alpn_protocols :: "template \<Rightarrow> bytes list" where
  "template_alpn_protocols t = pa_preferred (tp_alpn_protocols t)"

definition template_find_alpn :: "template \<Rightarrow> bytes \<Rightarrow> alpn_id option" where
  "template_find_alpn t protocol = alpn_find (tp_alpn_protocols t) protocol"

definition template_alpn :: "template \<Rightarrow> alpn_id \<Rightarrow> bytes option" where
  "template_alpn t i = alpn_get (tp_alpn_protocols t) i"

subsection \<open>Active resumption state\<close>

definition MAX_TICKET_LIFETIME_SECS :: u32 where "MAX_TICKET_LIFETIME_SECS = 604800"

record bound_early_data =
  be_maximum :: u32
  be_suite :: cipher_suite
  be_alpn :: "alpn_id option"

record active_resumption =
  ar_psk :: bytes
  ar_ticket :: bytes
  ar_ticket_age_add :: u32
  ar_received_at_ms :: u64
  ar_lifetime_ms :: u32
  ar_early_data :: "bound_early_data option"

record resumption_offer =
  ro_identity :: bytes
  ro_obfuscated_ticket_age :: u32

record ticket_timing =
  tt_lifetime_secs :: u32
  tt_age_add :: u32
  tt_received_at_ms :: u64

record issued_profile =
  ip_suite :: cipher_suite
  ip_max_early_data :: "u32 option"
  ip_alpn :: "alpn_id option"

definition validate_ticket :: "bytes \<Rightarrow> config_error + unit" where
  "validate_ticket ticket1 =
     (if ticket1 = [] then Inl EmptyResumptionTicket
      else if length ticket1 > 65535 then Inl (ResumptionTicketTooLong (length ticket1) 65535)
      else Inr ())"

text \<open>\<open>checked_mul\<close> overflows when the product of the values leaves 32 bits.\<close>

definition lifetime_ms :: "u32 \<Rightarrow> config_error + u32" where
  "lifetime_ms ticket_lifetime_secs =
     (if ticket_lifetime_secs = 0 \<or> ticket_lifetime_secs > MAX_TICKET_LIFETIME_SECS then Inl InvalidResumptionLifetime
      else if unat ticket_lifetime_secs * 1000 < 2 ^ 32 \<and> ticket_lifetime_secs * 1000 \<noteq> 0
      then Inr (ticket_lifetime_secs * 1000) else Inl InvalidResumptionLifetime)"

definition valid_early_data :: "u32 \<Rightarrow> mode \<Rightarrow> bool" where
  "valid_early_data maximum m \<longleftrightarrow> maximum \<noteq> 0 \<and> (case m of Tls \<Rightarrow> maximum \<noteq> - 1 | Quic \<Rightarrow> maximum = - 1)"

definition ticket_lifetime_secs :: "active_resumption \<Rightarrow> u32" where
  "ticket_lifetime_secs a = ar_lifetime_ms a div 1000"

definition obfuscated_ticket_age :: "u64 \<Rightarrow> active_resumption \<Rightarrow> u32 option" where
  "obfuscated_ticket_age now_ms a =
     (if now_ms < ar_received_at_ms a then None
      else let age = now_ms - ar_received_at_ms a in
        if age > ucast (ar_lifetime_ms a) then None
        else if unat age < 2 ^ 32 then Some (ucast age + ar_ticket_age_add a) else None)"

definition active_offer :: "u32 \<Rightarrow> active_resumption \<Rightarrow> resumption_offer" where
  "active_offer age a = \<lparr>ro_identity = ar_ticket a, ro_obfuscated_ticket_age = age\<rparr>"

definition encoding_offer :: "active_resumption \<Rightarrow> resumption_offer" where
  "encoding_offer a = \<lparr>ro_identity = ar_ticket a, ro_obfuscated_ticket_age = ar_ticket_age_add a\<rparr>"

definition early_data_offer :: "cipher_suite list \<Rightarrow> active_resumption \<Rightarrow> bound_early_data option" where
  "early_data_offer offered_suites a =
     (case ar_early_data a of
        Some authority \<Rightarrow> if be_suite authority \<in> set offered_suites then Some authority else None
      | None \<Rightarrow> None)"

subsection \<open>Issued and retained tickets\<close>

record resumption =
  rm_active :: active_resumption
  rm_origin :: template

record issued =
  is_origin :: template
  is_psk :: bytes
  is_ticket :: bytes
  is_timing :: ticket_timing
  is_profile :: issued_profile

definition resumption_from_issued :: "issued \<Rightarrow> config_error + resumption" where
  "resumption_from_issued i =
     and_then (validate_ticket (is_ticket i)) (\<lambda>_.
     and_then (lifetime_ms (tt_lifetime_secs (is_timing i))) (\<lambda>lifetime.
     let early_data =
       (case ip_max_early_data (is_profile i) of
          Some maximum \<Rightarrow>
            if valid_early_data maximum (tp_transport_mode (is_origin i)) \<and> hash_alg (ip_suite (is_profile i)) = RESUMPTION_HASH
            then Some \<lparr>be_maximum = maximum, be_suite = ip_suite (is_profile i), be_alpn = ip_alpn (is_profile i)\<rparr>
            else None
        | None \<Rightarrow> None) in
     Inr \<lparr>rm_active =
            \<lparr>ar_psk = is_psk i, ar_ticket = is_ticket i, ar_ticket_age_add = tt_age_add (is_timing i),
             ar_received_at_ms = tt_received_at_ms (is_timing i), ar_lifetime_ms = lifetime, ar_early_data = early_data\<rparr>,
          rm_origin = is_origin i\<rparr>))"

definition resumption_max_early_data :: "resumption \<Rightarrow> u32 option" where
  "resumption_max_early_data r = map_option be_maximum (ar_early_data (rm_active r))"

definition early_data_transport_mode :: "resumption \<Rightarrow> mode option" where
  "early_data_transport_mode r = map_option (\<lambda>_. tp_transport_mode (rm_origin r)) (ar_early_data (rm_active r))"

definition early_data_cipher_suite :: "resumption \<Rightarrow> cipher_suite option" where
  "early_data_cipher_suite r = map_option be_suite (ar_early_data (rm_active r))"

definition early_data_alpn :: "resumption \<Rightarrow> bytes option" where
  "early_data_alpn r = Option.bind (Option.bind (ar_early_data (rm_active r)) be_alpn) (template_alpn (rm_origin r))"

record client_ticket =
  ct_template :: template
  ct_master :: secret
  ct_nonce :: bytes
  ct_identity :: bytes
  ct_timing :: ticket_timing
  ct_profile :: issued_profile

definition ticket_try_psk :: "crypto \<Rightarrow> client_ticket \<Rightarrow> config_error + bytes" where
  "ticket_try_psk C t = map_err (\<lambda>_. ResumptionKeyDerivation) (resumption_psk C (ct_master t) (ct_nonce t))"

definition ticket_try_retain :: "crypto \<Rightarrow> client_ticket \<Rightarrow> config_error + resumption" where
  "ticket_try_retain C t =
     and_then (ticket_try_psk C t) (\<lambda>psk.
     resumption_from_issued
       \<lparr>is_origin = ct_template t, is_psk = psk, is_ticket = ct_identity t, is_timing = ct_timing t, is_profile = ct_profile t\<rparr>)"

definition ticket_alpn :: "client_ticket \<Rightarrow> bytes option" where
  "ticket_alpn t = Option.bind (ip_alpn (ct_profile t)) (template_alpn (ct_template t))"

subsection \<open>Restoring persisted tickets\<close>

datatype negotiated_alpn = AlpnAbsent | AlpnProtocol bytes

record restore_early_data =
  re_maximum :: u32
  re_suite :: cipher_suite
  re_transport_mode :: mode
  re_alpn :: negotiated_alpn

record restore =
  rs_psk :: bytes
  rs_ticket :: bytes
  rs_timing :: ticket_timing
  rs_lifetime_ms :: u32
  rs_early_data :: "restore_early_data option"

definition restore_try_new :: "bytes \<Rightarrow> bytes \<Rightarrow> u32 \<Rightarrow> u64 \<Rightarrow> u32 \<Rightarrow> config_error + restore" where
  "restore_try_new psk ticket1 age_add received_at_ms lifetime_secs =
     and_then (validate_ticket ticket1) (\<lambda>_.
     and_then (lifetime_ms lifetime_secs) (\<lambda>lifetime.
     Inr \<lparr>rs_psk = psk, rs_ticket = ticket1,
          rs_timing = \<lparr>tt_lifetime_secs = lifetime_secs, tt_age_add = age_add, tt_received_at_ms = received_at_ms\<rparr>,
          rs_lifetime_ms = lifetime, rs_early_data = None\<rparr>))"

definition restore_try_with_early_data ::
    "u32 \<Rightarrow> cipher_suite \<Rightarrow> mode \<Rightarrow> negotiated_alpn \<Rightarrow> restore \<Rightarrow> config_error + restore" where
  "restore_try_with_early_data maximum suite m alpn1 r =
     (let valid_alpn = (case alpn1 of AlpnAbsent \<Rightarrow> True | AlpnProtocol p \<Rightarrow> p \<noteq> [] \<and> length p \<le> 255) in
      if rs_early_data r \<noteq> None \<or> \<not> valid_early_data maximum m \<or> hash_alg suite \<noteq> RESUMPTION_HASH \<or> \<not> valid_alpn
      then Inl InvalidEarlyDataEntitlement
      else Inr (r\<lparr>rs_early_data :=
        Some \<lparr>re_maximum = maximum, re_suite = suite, re_transport_mode = m, re_alpn = alpn1\<rparr>\<rparr>))"

definition restore_bind :: "template \<Rightarrow> restore \<Rightarrow> active_resumption" where
  "restore_bind t r =
     (let early_data =
        (case rs_early_data r of
           None \<Rightarrow> None
         | Some e \<Rightarrow>
             if re_transport_mode e \<noteq> tp_transport_mode t then None
             else (case re_alpn e of
                 AlpnAbsent \<Rightarrow> Some \<lparr>be_maximum = re_maximum e, be_suite = re_suite e, be_alpn = None\<rparr>
               | AlpnProtocol p \<Rightarrow>
                   (case template_find_alpn t p of
                      None \<Rightarrow> None
                    | Some i \<Rightarrow> Some \<lparr>be_maximum = re_maximum e, be_suite = re_suite e, be_alpn = Some i\<rparr>))) in
      \<lparr>ar_psk = rs_psk r, ar_ticket = rs_ticket r, ar_ticket_age_add = tt_age_add (rs_timing r),
       ar_received_at_ms = tt_received_at_ms (rs_timing r), ar_lifetime_ms = rs_lifetime_ms r, ar_early_data = early_data\<rparr>)"

end
