(* ===== verification/ClientOffer.thy ===== *)
theory ClientOffer
  imports ClientTrust Effects Psk
begin

section \<open>The ClientHello and client configurations\<close>

text \<open>
  \<open>client/offer.rs\<close> (encoding a ClientHello into any target, the place of the PSK binder and splicing it in,
  the length of the largest initial hello), \<open>client/config/mod.rs\<close> (validation, templates, authorities,
  prepared connections) and the layouts of \<open>client/workspace.rs\<close>.
\<close>

subsection \<open>Offers\<close>

record certificate_type_offers =
  co_server :: "certificate_type option"
  co_client :: "certificate_type option"

record hello_policy =
  hy_verifier :: verifier
  hy_transport_mode :: mode
  hy_transport_params :: bytes
  hy_alpn_protocols :: "bytes list"

record hello_core =
  hc_suites :: "cipher_suite list"
  hc_group :: kex_group
  hc_random :: bytes
  hc_session_id :: bytes
  hc_kx_pubkey :: bytes

record hello_extensions =
  he_cookie :: "bytes option"
  he_resumption :: "resumption_offer option"
  he_offer_early_data :: bool
  he_certificate_types :: certificate_type_offers

record hello_offer =
  ho_policy :: hello_policy
  ho_core :: hello_core
  ho_extensions :: hello_extensions

record binder_slot =
  bs_prefix_end :: nat
  bs_binder_start :: nat
  bs_binder_end :: nat

text \<open>A length-prefixed scope whose body returns a value.\<close>

definition framedV :: "'s encode \<Rightarrow> nat \<Rightarrow> nat \<Rightarrow> ('s, encode_error, 'b) eff \<Rightarrow> ('s, encode_error, 'b) eff" where
  "framedV E w m body s =
     (case frame_begin E w m s of
        (Inl e, s1) \<Rightarrow> (Inl e, s1)
      | (Inr f, s1) \<Rightarrow>
          (case body s1 of
             (Inl e, s2) \<Rightarrow> (Inl e, frame_drop E f s2)
           | (Inr x, s2) \<Rightarrow>
               (case frame_finish E f s2 of (Inl e, s3) \<Rightarrow> (Inl e, s3) | (Inr _, s3) \<Rightarrow> (Inr x, s3))))"

definition extensionV :: "'s encode \<Rightarrow> u16 \<Rightarrow> ('s, encode_error, 'b) eff \<Rightarrow> ('s, encode_error, 'b) eff" where
  "extensionV E ty body = seqS (emit (put_u16 E ty)) (framedV E 2 65535 body)"

definition offer_signature_algorithms :: "verifier \<Rightarrow> signature_scheme list" where
  "offer_signature_algorithms v =
     (case v of VerifierRawPublicKey _ \<Rightarrow> signature_algorithms_rpk | _ \<Rightarrow> signature_algorithms_x509)"

definition certificate_type_writer :: "'s encode \<Rightarrow> u16 \<Rightarrow> certificate_type option \<Rightarrow> 's writer" where
  "certificate_type_writer E ty offered =
     (case offered of
        None \<Rightarrow> skip_w
      | Some cert_type \<Rightarrow> extension_begin E ty (framed_u8 E (emit (put_u8 E (certificate_type_wire_id cert_type)))))"

text \<open>The extensions before \<open>pre_shared_key\<close>, in the order of the source.\<close>

definition offer_extensions_writer :: "u8 copy_inline \<Rightarrow> 's encode \<Rightarrow> hello_offer \<Rightarrow> 's writer" where
  "offer_extensions_writer ci E o1 =
     (let policy = ho_policy o1; core = ho_core o1; exts = ho_extensions o1 in
      seq_w
       [extension_begin E SUPPORTED_VERSIONS (framed_u8 E (emit (put_u16 E TLS_1_3))),
        extension_begin E SUPPORTED_GROUPS
          (framed_u16 E (for_each_w (\<lambda>g. emit (put_u16 E (kex_group_wire_id g))) SUPPORTED_KEX_GROUPS)),
        extension_begin E SIGNATURE_ALGORITHMS
          (framed_u16 E (for_each_w (\<lambda>a. emit (put_u16 E (wire_id a))) (offer_signature_algorithms (hy_verifier policy)))),
        extension_begin E KEY_SHARE
          (framed_u16 E (seq_w
            [emit (put_u16 E (kex_group_wire_id (hc_group core))), framed_u16 E (emit (put_slice E (hc_kx_pubkey core)))])),
        certificate_type_writer E SERVER_CERTIFICATE_TYPE (co_server (he_certificate_types exts)),
        certificate_type_writer E CLIENT_CERTIFICATE_TYPE (co_client (he_certificate_types exts)),
        (if is_quic (hy_transport_mode policy)
         then extension_begin E QUIC_TRANSPORT_PARAMETERS (emit (put_slice E (hy_transport_params policy))) else skip_w),
        (case dns_hostname ci (hy_verifier policy) of
           None \<Rightarrow> skip_w
         | Some hostname \<Rightarrow>
             extension_begin E SERVER_NAME
               (framed_u16 E (seq_w [emit (put_u8 E 0), framed_u16 E (emit (put_slice E hostname))]))),
        (if hy_alpn_protocols policy = [] then skip_w
         else extension_begin E APPLICATION_LAYER_PROTOCOL_NEGOTIATION
           (framed_u16 E (for_each_w (\<lambda>p. framed_u8 E (emit (put_slice E p))) (hy_alpn_protocols policy)))),
        (case he_cookie exts of None \<Rightarrow> skip_w | Some cookie \<Rightarrow> extension_begin E COOKIE (emit (put_slice E cookie))),
        (if he_offer_early_data exts then extension_begin E EARLY_DATA skip_w else skip_w)])"

definition offer_psk :: "'s encode \<Rightarrow> resumption_offer \<Rightarrow> ('s, encode_error, binder_slot) eff" where
  "offer_psk E resumption =
     seqS (extension_begin E PSK_KEY_EXCHANGE_MODES (framed_u8 E (emit (put_u8 E KX_MODE_DHE))))
     (extensionV E PRE_SHARED_KEY
       (seqS (framed_u16 E (seq_w
           [framed_u16 E (emit (put_slice E (ro_identity resumption))), emit (put_u32 E (ro_obfuscated_ticket_age resumption))]))
       (bindS (getS (encoded_len E)) (\<lambda>prefix_end.
        framedV E 2 65535 (framedV E 1 255
          (bindS (getS (encoded_len E)) (\<lambda>binder_start.
           seqS (emit (put_slice E (replicate 32 0)))
           (bindS (getS (encoded_len E)) (\<lambda>binder_end.
           retS \<lparr>bs_prefix_end = prefix_end, bs_binder_start = binder_start, bs_binder_end = binder_end\<rparr>)))))))))"

definition hello_offer_encode :: "u8 copy_inline \<Rightarrow> 's encode \<Rightarrow> hello_offer \<Rightarrow> ('s, encode_error, binder_slot option) eff" where
  "hello_offer_encode ci E o1 =
     (let core = ho_core o1 in
      seqS (emit (put_u8 E (hs_type_u8 TClientHello)))
      (framedV E 3 (2 ^ 24 - 1)
        (seqS (seq_w
           [emit (put_u16 E TLS_1_2), emit (put_slice E (hc_random core)),
            framed_u8 E (emit (put_slice E (hc_session_id core))),
            framed_u16 E (for_each_w (\<lambda>suite. emit (put_u16 E (cipher_suite_wire_id suite))) (hc_suites core)),
            framed_u8 E (emit (put_u8 E 0))])
        (framedV E 2 65535
          (seqS (offer_extensions_writer ci E o1)
          (case he_resumption (ho_extensions o1) of
             None \<Rightarrow> retS None
           | Some resumption \<Rightarrow> bindS (offer_psk E resumption) (\<lambda>slot. retS (Some slot))))))))"

definition maximum_initial_len ::
    "u8 copy_inline \<Rightarrow> mode \<Rightarrow> verifier \<Rightarrow> bytes \<Rightarrow> bytes list \<Rightarrow> active_resumption option \<Rightarrow> encode_error + nat" where
  "maximum_initial_len ci m v transport_params alpn_protocols resumption =
     (case hello_offer_encode ci size_encode
         \<lparr>ho_policy = \<lparr>hy_verifier = v, hy_transport_mode = m, hy_transport_params = transport_params,
            hy_alpn_protocols = alpn_protocols\<rparr>,
          ho_core = \<lparr>hc_suites = SUPPORTED_SUITES, hc_group = X25519, hc_random = replicate 32 0,
            hc_session_id = (if uses_legacy_session_id m then replicate 32 0 else []),
            hc_kx_pubkey = replicate MAX_CLIENT_SHARE_LEN 0\<rparr>,
          ho_extensions = \<lparr>he_cookie = None, he_resumption = map_option encoding_offer resumption, he_offer_early_data = True,
            he_certificate_types =
              \<lparr>co_server = (case v of VerifierRawPublicKey _ \<Rightarrow> Some RawPublicKey | _ \<Rightarrow> None), co_client = Some X509\<rparr>\<rparr>\<rparr>
         encoded_size_default of
       (Inl e, _) \<Rightarrow> Inl e
     | (Inr _, size1) \<Rightarrow> encoded_size_finish size1)"

definition maximum_initial_len_for_transport_params ::
    "u8 copy_inline \<Rightarrow> mode \<Rightarrow> verifier \<Rightarrow> nat \<Rightarrow> bytes list \<Rightarrow> active_resumption option \<Rightarrow> encode_error + nat" where
  "maximum_initial_len_for_transport_params ci m v transport_params_len alpn_protocols resumption =
     and_then (maximum_initial_len ci m v [] alpn_protocols resumption) (\<lambda>base.
     if is_quic m then ok_or Overflow (usize_checked_add base transport_params_len) else Inr base)"

text \<open>Splicing the binder in: the prefix of the encoded hello is hashed, the slot overwritten.\<close>

definition binder_splice :: "crypto \<Rightarrow> transcript \<Rightarrow> bytes \<Rightarrow> bytes \<Rightarrow> binder_slot \<Rightarrow> conn_error + bytes" where
  "binder_splice C t psk ch_bytes slot =
     (if bs_prefix_end slot > length ch_bytes then Inl EncodeErr
      else
        let t = transcript_update (take (bs_prefix_end slot) ch_bytes) (transcript_fork t) in
        and_then (map_err error_of_transcript (transcript_hash C RESUMPTION_HASH t)) (\<lambda>partial_hash.
        and_then (map_err error_of_hkdf (resumption_binder C psk (as_slice partial_hash))) (\<lambda>bind.
        if bs_binder_start slot \<le> bs_binder_end slot \<and> bs_binder_end slot \<le> length ch_bytes \<and>
           bs_binder_end slot - bs_binder_start slot = length bind
        then Inr (take (bs_binder_start slot) ch_bytes @ bind @ drop (bs_binder_end slot) ch_bytes)
        else Inl EncodeErr)))"

subsection \<open>Workspaces\<close>

record client_layout =
  cl_fragmented_message :: nat
  cl_outbound_flight :: nat

record client_workspace =
  cw_reassembly :: bounded_buffer
  cw_flight :: bounded_buffer

definition client_layout_prepared :: "nat \<Rightarrow> nat \<Rightarrow> client_layout" where
  "client_layout_prepared maximum_certificate_message outbound_flight1 =
     \<lparr>cl_fragmented_message = max maximum_certificate_message MAX_PLAINTEXT_BODY,
      cl_outbound_flight = max outbound_flight1 MAX_PLAINTEXT_BODY\<rparr>"

definition client_layout_framed :: "nat \<Rightarrow> client_layout" where
  "client_layout_framed peer_identity = \<lparr>cl_fragmented_message = 0, cl_outbound_flight = peer_identity\<rparr>"

definition client_layout_allocate :: "client_layout \<Rightarrow> client_workspace" where
  "client_layout_allocate l =
     \<lparr>cw_reassembly = bb_with_capacity (cl_fragmented_message l), cw_flight = bb_with_capacity (cl_outbound_flight l)\<rparr>"

definition workspace_from_buffers :: "bounded_buffer \<Rightarrow> bounded_buffer \<Rightarrow> client_workspace" where
  "workspace_from_buffers reassembly flight1 = \<lparr>cw_reassembly = bb_clear reassembly, cw_flight = bb_clear flight1\<rparr>"

definition client_workspace_layout :: "client_workspace \<Rightarrow> client_layout" where
  "client_workspace_layout w =
     \<lparr>cl_fragmented_message = bb_capacity (cw_reassembly w), cl_outbound_flight = bb_capacity (cw_flight w)\<rparr>"

record workspace_rejection =
  wr_required :: client_layout
  wr_workspace :: client_workspace

definition client_layout_admit :: "client_layout \<Rightarrow> client_workspace \<Rightarrow> workspace_rejection + client_workspace" where
  "client_layout_admit l w =
     (let actual = client_workspace_layout w in
      if cl_fragmented_message actual < cl_fragmented_message l \<or> cl_outbound_flight actual < cl_outbound_flight l
      then Inl \<lparr>wr_required = l, wr_workspace = w\<rparr> else Inr w)"

definition rejection_mismatch :: "workspace_rejection \<Rightarrow> client_layout \<times> client_layout" where
  "rejection_mismatch r = (wr_required r, client_workspace_layout (wr_workspace r))"

subsection \<open>Validation\<close>

record client_config =
  cf_verifier :: verifier
  cf_transport_params :: bytes
  cf_alpn_protocols :: "bytes list"
  cf_enable_early_data :: bool

definition validate_hostname :: "u8 copy_inline \<Rightarrow> bytes \<Rightarrow> config_error + unit" where
  "validate_hostname ci hostname =
     (if hostname = [] then Inl MissingServerName
      else if \<not> is_valid_reference ci hostname then Inl InvalidServerName else Inr ())"

definition validate_initial_hello ::
    "u8 copy_inline \<Rightarrow> mode \<Rightarrow> verifier \<Rightarrow> bytes \<Rightarrow> bytes list \<Rightarrow> active_resumption option \<Rightarrow> config_error + unit" where
  "validate_initial_hello ci m v transport_params alpn_protocols resumption =
     and_then (map_err (\<lambda>_. ClientHelloEncodingOverflow)
         (maximum_initial_len ci m v transport_params alpn_protocols resumption)) (\<lambda>len.
     if len > MAX_PLAINTEXT_BODY then Inl (ClientHelloTooLarge len MAX_PLAINTEXT_BODY) else Inr ())"

definition validate_transport_params_len :: "mode \<Rightarrow> nat \<Rightarrow> config_error + unit" where
  "validate_transport_params_len m n =
     (if n > 65535 then Inl (TransportParametersTooLong n 65535)
      else if is_tls m \<and> n \<noteq> 0 then Inl (TransportParametersInTls n) else Inr ())"

definition validate_initial_hello_capacity ::
    "u8 copy_inline \<Rightarrow> mode \<Rightarrow> verifier \<Rightarrow> nat \<Rightarrow> bytes list \<Rightarrow> active_resumption option \<Rightarrow> config_error + unit" where
  "validate_initial_hello_capacity ci m v transport_params_len alpn_protocols resumption =
     and_then (validate_transport_params_len m transport_params_len) (\<lambda>_.
     and_then (map_err (\<lambda>_. ClientHelloEncodingOverflow)
         (maximum_initial_len_for_transport_params ci m v transport_params_len alpn_protocols resumption)) (\<lambda>len.
     if len > MAX_PLAINTEXT_BODY then Inl (ClientHelloTooLarge len MAX_PLAINTEXT_BODY) else Inr ()))"

fun validate_anchors :: "nat \<Rightarrow> owned_trust_anchor list \<Rightarrow> config_error + unit" where
  "validate_anchors index [] = Inr ()"
| "validate_anchors index (a # as) =
     (case owned_view a of Inl _ \<Rightarrow> Inl (MalformedTrustAnchor index) | Inr _ \<Rightarrow> validate_anchors (index + 1) as)"

definition validate_verifier :: "u8 copy_inline \<Rightarrow> verifier \<Rightarrow> config_error + unit" where
  "validate_verifier ci v =
     (case v of
        VerifierX509 anchors hostname _ \<Rightarrow>
          if anchors = [] then Inl MissingTrustAnchors
          else if length anchors > MAX_TRUST_ANCHORS then Inl (TooManyTrustAnchors (length anchors) MAX_TRUST_ANCHORS)
          else and_then (validate_anchors 0 anchors) (\<lambda>_. validate_hostname ci hostname)
      | VerifierX509Store _ hostname _ \<Rightarrow> validate_hostname ci hostname
      | VerifierRawPublicKey _ \<Rightarrow> Inr ())"

fun validate_alpn :: "nat \<Rightarrow> nat \<Rightarrow> bytes list \<Rightarrow> config_error + nat" where
  "validate_alpn index alpn_total [] = Inr alpn_total"
| "validate_alpn index alpn_total (p # ps) =
     (if p = [] then Inl (EmptyAlpnProtocol index)
      else if length p > 255 then Inl (AlpnProtocolTooLong index (length p) 255)
      else case usize_checked_add alpn_total (1 + length p) of
          None \<Rightarrow> Inl ClientHelloEncodingOverflow
        | Some n \<Rightarrow> validate_alpn (index + 1) n ps)"

definition client_validate_with_transport :: "u8 copy_inline \<Rightarrow> mode \<Rightarrow> client_config \<Rightarrow> config_error + unit" where
  "client_validate_with_transport ci m cfg =
     and_then (validate_verifier ci (cf_verifier cfg)) (\<lambda>_.
     and_then (validate_transport_params_len m (length (cf_transport_params cfg))) (\<lambda>_.
     and_then (validate_alpn 0 0 (cf_alpn_protocols cfg)) (\<lambda>alpn_total.
     if alpn_total > 65535 then Inl (AlpnListTooLong alpn_total 65535)
     else validate_initial_hello ci m (cf_verifier cfg) (cf_transport_params cfg) (cf_alpn_protocols cfg) None)))"

definition client_validate :: "u8 copy_inline \<Rightarrow> client_config \<Rightarrow> config_error + unit" where
  "client_validate ci cfg = client_validate_with_transport ci Tls cfg"

subsection \<open>Templates, authorities and prepared connections\<close>

definition config_into_template :: "mode \<Rightarrow> client_config \<Rightarrow> config_error + template" where
  "config_into_template m cfg =
     and_then (map_err (\<lambda>_. ClientHelloEncodingOverflow) (alpn_prepare (cf_alpn_protocols cfg))) (\<lambda>protocols.
     Inr \<lparr>tp_verifier = cf_verifier cfg, tp_transport_mode = m, tp_transport_params = cf_transport_params cfg,
          tp_alpn_protocols = protocols, tp_enable_early_data = cf_enable_early_data cfg\<rparr>)"

definition try_into_template_with_transport ::
    "u8 copy_inline \<Rightarrow> unicode \<Rightarrow> crypto \<Rightarrow> mode \<Rightarrow> client_config \<Rightarrow> config_error + template" where
  "try_into_template_with_transport ci U C m cfg =
     and_then (verifier_prepare U C (cf_verifier cfg)) (\<lambda>v.
     let cfg = cfg\<lparr>cf_verifier := v\<rparr> in
     and_then (client_validate_with_transport ci m cfg) (\<lambda>_. config_into_template m cfg))"

record prepared =
  pp_template :: template
  pp_resumption :: "active_resumption option"
  pp_enable_early_data :: bool

definition without_resumption :: "template \<Rightarrow> prepared" where
  "without_resumption t = \<lparr>pp_template = t, pp_resumption = None, pp_enable_early_data = tp_enable_early_data t\<rparr>"

definition try_into_prepared_with_transport ::
    "u8 copy_inline \<Rightarrow> unicode \<Rightarrow> crypto \<Rightarrow> mode \<Rightarrow> client_config \<Rightarrow> config_error + prepared" where
  "try_into_prepared_with_transport ci U C m cfg =
     and_then (try_into_template_with_transport ci U C m cfg) (\<lambda>t. Inr (without_resumption t))"

definition template_restore :: "u8 copy_inline \<Rightarrow> restore \<Rightarrow> template \<Rightarrow> config_error + prepared" where
  "template_restore ci r t =
     (let resumption = restore_bind t r in
      and_then (validate_initial_hello ci (tp_transport_mode t) (tp_verifier t) (tp_transport_params t)
          (template_alpn_protocols t) (Some resumption)) (\<lambda>_.
      Inr \<lparr>pp_template = t, pp_resumption = Some resumption, pp_enable_early_data = tp_enable_early_data t\<rparr>))"

definition template_workspace_layout :: "'k sign_ops \<Rightarrow> client_source option \<Rightarrow> template \<Rightarrow> client_layout" where
  "template_workspace_layout S identity t =
     client_layout_prepared (certificate_limit_get (verifier_certificate_limit (tp_verifier t)))
       (case identity of None \<Rightarrow> 0 | Some source \<Rightarrow> identity_outbound_flight_capacity S source)"

definition prepared_from_retained :: "u8 copy_inline \<Rightarrow> bool \<Rightarrow> resumption \<Rightarrow> config_error + prepared" where
  "prepared_from_retained ci enable_early_data r =
     (let t = rm_origin r in
      and_then (validate_initial_hello ci (tp_transport_mode t) (tp_verifier t) (tp_transport_params t)
          (template_alpn_protocols t) (Some (rm_active r))) (\<lambda>_.
      Inr \<lparr>pp_template = t, pp_resumption = Some (rm_active r), pp_enable_early_data = enable_early_data\<rparr>))"

record client_authority =
  ca_template :: template
  ca_identity :: "client_source option"

record policy =
  po_authority :: client_authority
  po_transport_params :: "bytes option"

definition authority_policy :: "client_authority \<Rightarrow> bytes option \<Rightarrow> policy" where
  "authority_policy A params = \<lparr>po_authority = A, po_transport_params = params\<rparr>"

definition policy_template :: "policy \<Rightarrow> template" where
  "policy_template p = ca_template (po_authority p)"

definition policy_identity :: "policy \<Rightarrow> client_source option" where
  "policy_identity p = ca_identity (po_authority p)"

definition policy_transport_params :: "policy \<Rightarrow> bytes" where
  "policy_transport_params p =
     (case po_transport_params p of None \<Rightarrow> tp_transport_params (policy_template p) | Some params \<Rightarrow> params)"

definition authority_restore :: "u8 copy_inline \<Rightarrow> restore \<Rightarrow> nat \<Rightarrow> client_authority \<Rightarrow> config_error + active_resumption" where
  "authority_restore ci r transport_params_capacity A =
     (let t = ca_template A; active1 = restore_bind t r in
      and_then (validate_initial_hello_capacity ci (tp_transport_mode t) (tp_verifier t) transport_params_capacity
          (template_alpn_protocols t) (Some active1)) (\<lambda>_. Inr active1))"

end
