(* ===== verification/ClientSession.thy ===== *)
theory ClientSession
  imports ClientOffer Reassembler
begin

section \<open>The client's session\<close>

text \<open>
  \<open>client/session/mod.rs\<close> and \<open>client/session/state.rs\<close>: the session's state, the extensions a server
  may confirm, key updates and session tickets after the handshake; and \<open>Request::encode\<close> of
  \<open>client/offer.rs\<close>.  The session is generic in the owner \<open>'x\<close> of the ephemeral key, as the
  source is in \<open>K: Initiator\<close>; the record \<open>initiator_ops\<close> holds the methods of that trait, with
  both of its implementations given below.  The clock, the random source and the sink belong to the outside
  world \<open>'k\<close>.
\<close>

record ('x, 'k) initiator_ops =
  in_generate :: "kex_group \<Rightarrow> 'x \<Rightarrow> 'k \<Rightarrow> (kx_error + bytes) \<times> 'x \<times> 'k"
  in_pending_group :: "'x \<Rightarrow> kex_group option"
  in_agree :: "bytes \<Rightarrow> 'x \<Rightarrow> (kx_error + shared_secret) \<times> 'x"
  in_clear :: "'x \<Rightarrow> 'x"

definition owned_initiator :: "u8 copy_inline \<Rightarrow> 'k kx_ops \<Rightarrow> (owned_kx, 'k) initiator_ops" where
  "owned_initiator ci O1 =
     \<lparr>in_generate = owned_generate ci O1, in_pending_group = owned_pending_group, in_agree = owned_agree O1,
      in_clear = owned_clear\<rparr>"

definition workspace_initiator :: "u8 copy_inline \<Rightarrow> 'k kx_ops \<Rightarrow> (workspace_material, 'k) initiator_ops" where
  "workspace_initiator ci O1 =
     \<lparr>in_generate = workspace_generate ci O1, in_pending_group = workspace_pending_group, in_agree = workspace_agree O1,
      in_clear = workspace_clear\<rparr>"

record ('x, 'k) client_env =
  cn_crypto :: crypto
  cn_ci8 :: "u8 copy_inline"
  cn_ci16 :: "u16 copy_inline"
  cn_frames :: "path_frame copy_inline"
  cn_certs :: "path_cert copy_inline"
  cn_kx :: "'k kx_ops"
  cn_initiator :: "('x, 'k) initiator_ops"
  cn_sign :: "'k sign_ops"
  cn_verify :: ring_verify
  cn_unicode :: unicode
  cn_clock :: "'k \<Rightarrow> u64 \<times> 'k"

subsection \<open>State\<close>

record handshake_secrets =
  hx_schedule :: schedule
  hx_client_traffic :: secret
  hx_server_traffic :: secret

datatype server_leaf = PinnedEd25519 | FlightLeaf leaf_key_kind

datatype client_state =
    ClientInitial
  | ExpectServerHello
  | ExpectEncryptedExtensions handshake_secrets
  | ExpectCertificate handshake_secrets
  | ExpectCertificateVerify handshake_secrets server_leaf
  | ExpectServerFinished handshake_secrets
  | ClientDone
  | ClientFailed

record offer_settings =
  os_enable_early_data :: bool
  os_kex_group :: kex_group
  os_offered_suites :: "cipher_suite list"

record client_handshake =
  ch_state :: client_state
  ch_transcript :: transcript
  ch_client_random :: bytes
  ch_session_id :: bytes
  ch_hrr_done :: bool
  ch_resumption :: "active_resumption option"
  ch_psk_used :: bool

definition client_handshake_initial :: "active_resumption option \<Rightarrow> client_handshake" where
  "client_handshake_initial resumption =
     \<lparr>ch_state = ClientInitial, ch_transcript = transcript_new, ch_client_random = replicate 32 0,
      ch_session_id = replicate 32 0, ch_hrr_done = False, ch_resumption = resumption, ch_psk_used = False\<rparr>"

definition require_initial :: "client_handshake \<Rightarrow> conn_error + unit" where
  "require_initial h =
     (case ch_state h of
        ClientInitial \<Rightarrow> Inr ()
      | ClientFailed \<Rightarrow> Inl ConnectionFailed
      | _ \<Rightarrow> Inl UnexpectedMessage)"

definition client_is_failed :: "client_handshake \<Rightarrow> bool" where
  "client_is_failed h \<longleftrightarrow> ch_state h = ClientFailed"

definition client_is_done :: "client_handshake \<Rightarrow> bool" where
  "client_is_done h \<longleftrightarrow> ch_state h = ClientDone"

datatype client_early_data = EarlyNotOffered | EarlyOffered bound_early_data | EarlyAccepted

record client_extensions =
  cx_selected_alpn :: "alpn_id option"
  cx_early_data :: client_early_data

datatype certificate_response = ResponseEmpty | ResponseIdentity

record client_application =
  cp_traffic :: traffic_state
  cp_resumption_master :: "secret option"
  cp_exporter_master :: "secret option"

definition client_hash_alg :: "client_application \<Rightarrow> conn_error + algorithm" where
  "client_hash_alg a = traffic_algorithm (cp_traffic a)"

definition client_zeroize_secrets :: "client_application \<Rightarrow> client_application" where
  "client_zeroize_secrets a =
     a\<lparr>cp_traffic := traffic_clear (cp_traffic a), cp_resumption_master := None, cp_exporter_master := None\<rparr>"

record 'x client_session =
  cs_offer :: offer_settings
  cs_handshake :: client_handshake
  cs_kx :: 'x
  cs_extensions :: client_extensions
  cs_certificate_response :: "certificate_response option"
  cs_application :: client_application
  cs_flight :: bounded_buffer

definition session_with_kx :: "'y \<Rightarrow> 'x client_session \<Rightarrow> 'y client_session" where
  "session_with_kx kx s =
     \<lparr>cs_offer = cs_offer s, cs_handshake = cs_handshake s, cs_kx = kx, cs_extensions = cs_extensions s,
      cs_certificate_response = cs_certificate_response s, cs_application = cs_application s, cs_flight = cs_flight s\<rparr>"

definition certificate_type_offers_of :: "policy \<Rightarrow> certificate_type_offers" where
  "certificate_type_offers_of p =
     (let server = (case tp_verifier (policy_template p) of VerifierRawPublicKey _ \<Rightarrow> Some RawPublicKey | _ \<Rightarrow> None) in
      \<lparr>co_server = server,
       co_client = (case policy_identity p of Some source \<Rightarrow> Some (identity_cert_type source) | None \<Rightarrow> server)\<rparr>)"

definition client_poison :: "('x, 'k) initiator_ops \<Rightarrow> 'x client_session \<Rightarrow> 'x client_session" where
  "client_poison I s =
     s\<lparr>cs_handshake := (cs_handshake s)\<lparr>ch_state := ClientFailed, ch_resumption := None\<rparr>,
       cs_kx := in_clear I (cs_kx s),
       cs_extensions := (cs_extensions s)\<lparr>cx_early_data := EarlyNotOffered\<rparr>,
       cs_application := client_zeroize_secrets (cs_application s),
       cs_flight := bb_clear (cs_flight s)\<rparr>"

definition release_workspace :: "reassembler \<Rightarrow> 'x client_session \<Rightarrow> client_workspace" where
  "release_workspace r s = workspace_from_buffers (fst (release_buffer r)) (cs_flight s)"

definition release_framed_workspace :: "'x client_session \<Rightarrow> client_workspace" where
  "release_framed_workspace s = workspace_from_buffers bb_default (cs_flight s)"

text \<open>The places handlers write to.\<close>

definition client_flight :: "'x client_session lens" where
  "client_flight = \<lparr>lens_get = cs_flight, lens_put = (\<lambda>b s. s\<lparr>cs_flight := b\<rparr>)\<rparr>"

definition client_set_state :: "client_state \<Rightarrow> 'x client_session \<Rightarrow> 'x client_session" where
  "client_set_state st s = s\<lparr>cs_handshake := (cs_handshake s)\<lparr>ch_state := st\<rparr>\<rparr>"

definition client_absorb :: "bytes \<Rightarrow> 'x client_session \<Rightarrow> 'x client_session" where
  "client_absorb bs s =
     s\<lparr>cs_handshake := (cs_handshake s)\<lparr>ch_transcript := transcript_update bs (ch_transcript (cs_handshake s))\<rparr>\<rparr>"

definition client_traffic_of :: "'x client_session \<Rightarrow> traffic_state" where
  "client_traffic_of s = cp_traffic (cs_application s)"

definition client_suite_of :: "'x client_session \<Rightarrow> cipher_suite option" where
  "client_suite_of s = traffic_suite (client_traffic_of s)"

definition client_on_traffic ::
    "(traffic_state \<Rightarrow> (conn_error + 'b) \<times> traffic_state) \<Rightarrow> 'x client_session \<Rightarrow> (conn_error + 'b) \<times> 'x client_session" where
  "client_on_traffic m s =
     (case m (client_traffic_of s) of (r, t) \<Rightarrow> (r, s\<lparr>cs_application := (cs_application s)\<lparr>cp_traffic := t\<rparr>\<rparr>))"

definition client_hashS :: "crypto \<Rightarrow> algorithm \<Rightarrow> ('x client_session \<times> 'k, conn_error, hash_value) eff" where
  "client_hashS C a =
     bindS (askS (\<lambda>s. ch_transcript (cs_handshake s))) (\<lambda>t.
     liftS (map_err error_of_transcript (transcript_hash C a t)))"

definition client_clockS :: "('x, 'k) client_env \<Rightarrow> ('x client_session \<times> 'k, 'e, u64) eff" where
  "client_clockS N = worldS (\<lambda>k. case cn_clock N k of (now, k') \<Rightarrow> (Inr now, k'))"

type_synonym ('x, 'k, 'e, 'a) client_handler = "('x client_session \<times> 'k, 'e drive_error, 'a) eff"
type_synonym ('k, 'e) client_sink = "('k, 'e, client_ticket) sink"

subsection \<open>The extensions the server confirms\<close>

record negotiated_extensions =
  ne_quic_params :: "bytes option"
  ne_alpn :: "alpn_id option"
  ne_early_data :: "unit option"

record negotiated_scan =
  nx_negotiated :: negotiated_extensions
  nx_confirmed :: certificate_type_offers

definition confirm_certificate_type :: "certificate_type option \<Rightarrow> bytes \<Rightarrow> conn_error + certificate_type" where
  "confirm_certificate_type offered data =
     and_then (ok_or UnsolicitedExtension offered) (\<lambda>expected.
     and_then (map_err (\<lambda>_. IllegalParameter) (certificate_type_decode_selection data)) (\<lambda>selected.
     if selected \<noteq> expected then Inl IllegalParameter else Inr selected))"

definition confirm_alpn :: "template \<Rightarrow> bytes \<Rightarrow> conn_error + alpn_id" where
  "confirm_alpn t data =
     (if template_alpn_protocols t = [] then Inl UnsolicitedExtension
      else and_then (map_err (\<lambda>_. DecodeErr) (alpn_decode data)) (\<lambda>chosen.
        if alpn_len chosen \<noteq> 1 then Inl IllegalParameter
        else ok_or IllegalParameter
          (case alpn_iter (alpn_encoded chosen) of [] \<Rightarrow> None | protocol # _ \<Rightarrow> template_find_alpn t protocol)))"

definition negotiate_extension ::
    "u8 copy_inline \<Rightarrow> template \<Rightarrow> certificate_type_offers \<Rightarrow> bool \<Rightarrow> extension \<Rightarrow> negotiated_scan \<Rightarrow> conn_error + negotiated_scan" where
  "negotiate_extension ci t certificate_types allow_early_data ext n =
     (let ty = ext_ty ext; data = ext_data ext in
      if ty = SERVER_NAME then
        (if dns_hostname ci (tp_verifier t) = None then Inl UnsolicitedExtension
         else and_then (map_err error_of_decode (server_name_ack_decode data)) (\<lambda>_. Inr n))
      else if ty = SUPPORTED_GROUPS then
        and_then (map_err error_of_decode (server_supported_groups_decode data)) (\<lambda>_. Inr n)
      else if ty = SERVER_CERTIFICATE_TYPE then
        and_then (confirm_certificate_type (co_server certificate_types) data) (\<lambda>selected.
        Inr (n\<lparr>nx_confirmed := (nx_confirmed n)\<lparr>co_server := Some selected\<rparr>\<rparr>))
      else if ty = CLIENT_CERTIFICATE_TYPE then
        and_then (confirm_certificate_type (co_client certificate_types) data) (\<lambda>selected.
        Inr (n\<lparr>nx_confirmed := (nx_confirmed n)\<lparr>co_client := Some selected\<rparr>\<rparr>))
      else if ty = QUIC_TRANSPORT_PARAMETERS then
        (if \<not> is_quic (tp_transport_mode t) then Inl UnsolicitedExtension
         else Inr (n\<lparr>nx_negotiated := (nx_negotiated n)\<lparr>ne_quic_params := Some data\<rparr>\<rparr>))
      else if ty = APPLICATION_LAYER_PROTOCOL_NEGOTIATION then
        and_then (confirm_alpn t data) (\<lambda>selected.
        Inr (n\<lparr>nx_negotiated := (nx_negotiated n)\<lparr>ne_alpn := Some selected\<rparr>\<rparr>))
      else if ty = EARLY_DATA then
        (if \<not> allow_early_data then Inl UnsolicitedExtension
         else and_then (map_err error_of_decode (early_data_signal_decode data)) (\<lambda>signal.
           Inr (n\<lparr>nx_negotiated := (nx_negotiated n)\<lparr>ne_early_data := Some signal\<rparr>\<rparr>)))
      else Inl UnsolicitedExtension)"

fun negotiate_extensions ::
    "u8 copy_inline \<Rightarrow> template \<Rightarrow> certificate_type_offers \<Rightarrow> bool \<Rightarrow> extension list \<Rightarrow> negotiated_scan \<Rightarrow> conn_error + negotiated_scan" where
  "negotiate_extensions ci t certificate_types allow_early_data [] n = Inr n"
| "negotiate_extensions ci t certificate_types allow_early_data (ext # exts) n =
     and_then (negotiate_extension ci t certificate_types allow_early_data ext n)
       (negotiate_extensions ci t certificate_types allow_early_data exts)"

definition negotiated_extensions_decode ::
    "u8 copy_inline \<Rightarrow> bytes \<Rightarrow> template \<Rightarrow> certificate_type_offers \<Rightarrow> bool \<Rightarrow> conn_error + negotiated_extensions" where
  "negotiated_extensions_decode ci exts t certificate_types allow_early_data =
     and_then (negotiate_extensions ci t certificate_types allow_early_data (extensions_iter exts)
         \<lparr>nx_negotiated = \<lparr>ne_quic_params = None, ne_alpn = None, ne_early_data = None\<rparr>,
          nx_confirmed = \<lparr>co_server = None, co_client = None\<rparr>\<rparr>) (\<lambda>n.
     if nx_confirmed n \<noteq> certificate_types then Inl MissingExtension
     else if is_quic (tp_transport_mode t) \<and> ne_quic_params (nx_negotiated n) = None then Inl MissingExtension
     else Inr (nx_negotiated n))"

subsection \<open>Sending a ClientHello\<close>

record hello_request =
  hq_certificate_types :: certificate_type_offers
  hq_kx_pubkey :: bytes
  hq_cookie :: "bytes option"
  hq_resumption :: "resumption_offer option"
  hq_offer_early_data :: bool

definition request_offer :: "template \<Rightarrow> bytes \<Rightarrow> offer_settings \<Rightarrow> client_handshake \<Rightarrow> hello_request \<Rightarrow> hello_offer" where
  "request_offer t transport_params offer h q =
     \<lparr>ho_policy = \<lparr>hy_verifier = tp_verifier t, hy_transport_mode = tp_transport_mode t, hy_transport_params = transport_params,
        hy_alpn_protocols = template_alpn_protocols t\<rparr>,
      ho_core = \<lparr>hc_suites = os_offered_suites offer, hc_group = os_kex_group offer, hc_random = ch_client_random h,
        hc_session_id = (if uses_legacy_session_id (tp_transport_mode t) then ch_session_id h else []),
        hc_kx_pubkey = hq_kx_pubkey q\<rparr>,
      ho_extensions = \<lparr>he_cookie = hq_cookie q, he_resumption = hq_resumption q, he_offer_early_data = hq_offer_early_data q,
        he_certificate_types = hq_certificate_types q\<rparr>\<rparr>"

text \<open>Encoding into the flight, whose buffer \<open>with_flight\<close> has cleared.\<close>

definition request_encode ::
    "('x, 'k) client_env \<Rightarrow> template \<Rightarrow> bytes \<Rightarrow> hello_request \<Rightarrow> ('x, 'k, 'e, binder_slot option) client_handler" where
  "request_encode N t transport_params q = (\<lambda>(s, k).
     case hello_offer_encode (cn_ci8 N) E_bb (request_offer t transport_params (cs_offer s) (cs_handshake s) q)
         (bb_clear (cs_flight s)) of
       (r, b) \<Rightarrow> (map_err (\<lambda>e. Protocol (error_of_encode e)) r, (s\<lparr>cs_flight := b\<rparr>, k)))"

text \<open>The binder is spliced into the encoded hello in place: its length does not change.\<close>

definition overwrite_slice :: "bytes \<Rightarrow> bounded_buffer \<Rightarrow> bounded_buffer" where
  "overwrite_slice bs b = b\<lparr>bb_bytes := take (bb_base b) (bb_bytes b) @ bs\<rparr>"

definition splice_binder ::
    "('x, 'k) client_env \<Rightarrow> active_resumption option \<Rightarrow> binder_slot option \<Rightarrow> ('x, 'k, 'e, unit) client_handler" where
  "splice_binder N resumption slot =
     (case (resumption, slot) of
        (Some r, Some slot) \<Rightarrow>
          bindS (askS (\<lambda>s. s)) (\<lambda>s.
          bindS (tryS (\<lambda>e. e) (binder_splice (cn_crypto N) (ch_transcript (cs_handshake s)) (ar_psk r)
              (bb_as_slice (cs_flight s)) slot)) (\<lambda>ch_bytes.
          updS (\<lambda>s. s\<lparr>cs_flight := overwrite_slice ch_bytes (cs_flight s)\<rparr>)))
      | (None, None) \<Rightarrow> retS ()
      | _ \<Rightarrow> failS (Protocol EncodeErr))"

definition generateS :: "('x, 'k) client_env \<Rightarrow> kex_group \<Rightarrow> ('x, 'k, 'e, bytes) client_handler" where
  "generateS N grp = (\<lambda>(s, k).
     case in_generate (cn_initiator N) grp (cs_kx s) k of
       (r, x, k) \<Rightarrow> (map_err (\<lambda>_. Protocol KxErr) r, (s\<lparr>cs_kx := x\<rparr>, k)))"

text \<open>
  \<open>send_hello\<close> is the part \<open>start\<close> and \<open>finish_hello_retry_request\<close> have in common: encode, splice the binder,
  absorb the hello and commit the flight.  \<open>after\<close> is what the caller does next to the session
  before the flight is announced.
\<close>

definition send_hello ::
    "('x, 'k) client_env \<Rightarrow> ('k, 'e) client_sink \<Rightarrow> template \<Rightarrow> bytes \<Rightarrow> active_resumption option \<Rightarrow> hello_request \<Rightarrow>
     ('x client_session \<Rightarrow> 'x client_session) \<Rightarrow> ('x, 'k, 'e, unit) client_handler" where
  "send_hello N K t transport_params resumption q after =
     bindS (askS client_suite_of) (\<lambda>suite.
     with_flight K client_flight suite PlaintextEpoch (
       bindS (request_encode N t transport_params q) (\<lambda>slot.
       seqS (splice_binder N resumption slot) (
       bindS (flight_fromS client_flight 0) (\<lambda>bs.
       seqS (updS (client_absorb bs))
       (updS after))))))"

subsection \<open>After the handshake\<close>

definition client_handle_key_update ::
    "('x, 'k) client_env \<Rightarrow> ('k, 'e) client_sink \<Rightarrow> policy \<Rightarrow> key_update \<Rightarrow> ('x, 'k, 'e, unit) client_handler" where
  "client_handle_key_update N K p ku =
     (if \<not> allows_tls_key_update (tp_transport_mode (policy_template p)) then failS (Protocol UnexpectedMessage)
      else (\<lambda>(s, k).
        case key_update_receive (cn_crypto N) K ClientRole (ku_request ku) (client_traffic_of s) k of
          (r, t, k) \<Rightarrow> (r, (s\<lparr>cs_application := (cs_application s)\<lparr>cp_traffic := t\<rparr>\<rparr>, k))))"

definition decode_max_early_data :: "bytes \<Rightarrow> conn_error + u32 option" where
  "decode_max_early_data exts =
     (case extensions_find EARLY_DATA exts of
        None \<Rightarrow> Inr None
      | Some ext \<Rightarrow>
          and_then (map_err error_of_decode (reader_u32 (ext_data ext))) (\<lambda>(v, r).
          and_then (map_err error_of_decode (reader_finish r)) (\<lambda>_. Inr (Some v))))"

definition handle_new_session_ticket ::
    "('k, 'e) client_sink \<Rightarrow> policy \<Rightarrow> secret option \<Rightarrow> cipher_suite option \<Rightarrow> alpn_id option \<Rightarrow> u64 \<Rightarrow> new_session_ticket_ref \<Rightarrow>
     ('x, 'k, 'e, unit) client_handler" where
  "handle_new_session_ticket K p master suite selected_alpn received_at_ms nst =
     (let m = tp_transport_mode (policy_template p) in
      if nstr_ticket_lifetime nst > MAX_TICKET_LIFETIME_SECS then failS (Protocol IllegalParameter)
      else bindS (tryS (\<lambda>e. e) (decode_max_early_data (nstr_extensions nst))) (\<lambda>max_early_data.
        if is_quic m \<and> (case max_early_data of None \<Rightarrow> False | Some v \<Rightarrow> v \<noteq> - 1) then failS (Protocol IllegalParameter)
        else
          let max_early_data =
            (if is_tls m \<and> (case max_early_data of None \<Rightarrow> False | Some v \<Rightarrow> v = 0 \<or> v = - 1) then None else max_early_data) in
          case suite of
            None \<Rightarrow> failS (Protocol UnexpectedMessage)
          | Some suite \<Rightarrow>
              if nstr_ticket_lifetime nst = 0 \<or> hash_alg suite \<noteq> RESUMPTION_HASH then retS ()
              else (case master of
                  None \<Rightarrow> retS ()
                | Some master \<Rightarrow>
                    emitS K (Some suite) (EvNewSessionTicket
                      \<lparr>ct_template = policy_template p, ct_master = master, ct_nonce = nstr_ticket_nonce nst,
                       ct_identity = nstr_ticket nst,
                       ct_timing = \<lparr>tt_lifetime_secs = nstr_ticket_lifetime nst, tt_age_add = nstr_ticket_age_add nst,
                         tt_received_at_ms = received_at_ms\<rparr>,
                       ct_profile = \<lparr>ip_suite = suite, ip_max_early_data = max_early_data, ip_alpn = selected_alpn\<rparr>\<rparr>))))"

end
