(* ===== verification/ClientHandshake.thy ===== *)
theory ClientHandshake
  imports ClientSession
begin

section \<open>The client's handshake handlers\<close>

text \<open>
  \<open>client/session/negotiation.rs\<close>, \<open>client/session/authentication.rs\<close>, the dispatch of
  \<open>client/session/mod.rs\<close> and \<open>client/drive.rs\<close>.  A handler is divided into several definitions where the
  source starts a new paragraph; they are composed in the source's order.
\<close>

subsection \<open>Starting\<close>

text \<open>What is offered of a ticket: nothing when no offered suite can carry it or it is too old.\<close>

definition resumable :: "offer_settings \<Rightarrow> active_resumption option \<Rightarrow> active_resumption option" where
  "resumable offer resumption =
     (case resumption of
        None \<Rightarrow> None
      | Some r \<Rightarrow> if list_ex (\<lambda>suite. hash_alg suite = RESUMPTION_HASH) (os_offered_suites offer) then Some r else None)"

definition age_offer :: "u64 \<Rightarrow> active_resumption option \<Rightarrow> active_resumption option \<times> resumption_offer option" where
  "age_offer now_ms resumption =
     (case resumption of
        None \<Rightarrow> (None, None)
      | Some r \<Rightarrow>
          (case obfuscated_ticket_age now_ms r of
             None \<Rightarrow> (None, None)
           | Some ticket_age \<Rightarrow> (Some r, Some (active_offer ticket_age r))))"

definition early_data_of :: "offer_settings \<Rightarrow> active_resumption option \<Rightarrow> resumption_offer option \<Rightarrow> bound_early_data option" where
  "early_data_of offer resumption sent =
     (if sent \<noteq> None \<and> os_enable_early_data offer
      then Option.bind resumption (early_data_offer (os_offered_suites offer)) else None)"

definition draw_hello_fields :: "('x, 'k) client_env \<Rightarrow> policy \<Rightarrow> ('x, 'k, 'e, unit) client_handler" where
  "draw_hello_fields N p =
     bindS (protS (rngS (cn_kx N) RANDOM_LEN)) (\<lambda>client_random.
     bindS (if uses_legacy_session_id (tp_transport_mode (policy_template p))
            then protS (rngS (cn_kx N) 32) else retS (replicate 32 0)) (\<lambda>session_id.
     updS (\<lambda>s. s\<lparr>cs_handshake := (cs_handshake s)\<lparr>ch_client_random := client_random, ch_session_id := session_id\<rparr>\<rparr>)))"

definition announce_early_keys ::
    "('x, 'k) client_env \<Rightarrow> ('k, 'e) client_sink \<Rightarrow> policy \<Rightarrow> bound_early_data option \<Rightarrow> ('x, 'k, 'e, unit) client_handler" where
  "announce_early_keys N K p early_data =
     bindS (askS (\<lambda>s. ch_resumption (cs_handshake s))) (\<lambda>resumption.
     case (resumption, early_data) of
       (Some r, Some authority) \<Rightarrow>
         bindS (protS (client_hashS (cn_crypto N) RESUMPTION_HASH)) (\<lambda>client_hello_hash.
         bindS (tryS error_of_hkdf (client_early_traffic_secret (cn_crypto N) (ar_psk r) (as_slice client_hello_hash))) (\<lambda>secret1.
         emitS K (Some (be_suite authority))
           (EvZeroRttKeysReady secret1 (be_maximum authority) (Option.bind (be_alpn authority) (template_alpn (policy_template p))))))
     | _ \<Rightarrow> retS ())"

definition client_start ::
    "('x, 'k) client_env \<Rightarrow> ('k, 'e) client_sink \<Rightarrow> policy \<Rightarrow> bytes option \<Rightarrow> ('x, 'k, 'e, unit) client_handler" where
  "client_start N K p transport_params =
     seqS (draw_hello_fields N p) (
     bindS (askS (\<lambda>s. resumable (cs_offer s) (ch_resumption (cs_handshake s)))) (\<lambda>taken.
     seqS (updS (\<lambda>s. s\<lparr>cs_handshake := (cs_handshake s)\<lparr>ch_resumption := None\<rparr>\<rparr>)) (
     bindS (client_clockS N) (\<lambda>now_ms.
     let (resumption, sent) = age_offer now_ms taken in
     bindS (askS (\<lambda>s. early_data_of (cs_offer s) resumption sent)) (\<lambda>early_data.
     seqS (updS (\<lambda>s. s\<lparr>cs_extensions := (cs_extensions s)\<lparr>cx_early_data :=
         (case early_data of Some authority \<Rightarrow> EarlyOffered authority | None \<Rightarrow> EarlyNotOffered)\<rparr>\<rparr>)) (
     bindS (askS (\<lambda>s. os_kex_group (cs_offer s))) (\<lambda>grp.
     bindS (generateS N grp) (\<lambda>client_share.
     seqS (send_hello N K (policy_template p)
         (case transport_params of Some params \<Rightarrow> params | None \<Rightarrow> policy_transport_params p) resumption
         \<lparr>hq_certificate_types = certificate_type_offers_of p, hq_kx_pubkey = client_share, hq_cookie = None,
          hq_resumption = sent, hq_offer_early_data = (early_data \<noteq> None)\<rparr>
         (\<lambda>s. s\<lparr>cs_handshake := (cs_handshake s)\<lparr>ch_resumption := resumption\<rparr>\<rparr>)) (
     seqS (announce_early_keys N K p early_data)
     (updS (client_set_state ExpectServerHello)))))))))))"

subsection \<open>HelloRetryRequest\<close>

definition finish_hello_retry_request ::
    "('x, 'k) client_env \<Rightarrow> ('k, 'e) client_sink \<Rightarrow> policy \<Rightarrow> kex_group \<Rightarrow> bytes option \<Rightarrow> ('x, 'k, 'e, unit) client_handler" where
  "finish_hello_retry_request N K p grp cookie =
     seqS (updS (\<lambda>s. s\<lparr>cs_offer := (cs_offer s)\<lparr>os_kex_group := grp\<rparr>\<rparr>)) (
     bindS (askS (\<lambda>s. ch_resumption (cs_handshake s))) (\<lambda>taken.
     seqS (updS (\<lambda>s. s\<lparr>cs_handshake := (cs_handshake s)\<lparr>ch_resumption := None\<rparr>\<rparr>)) (
     bindS (client_clockS N) (\<lambda>now_ms.
     let (resumption, sent) = age_offer now_ms taken in
     bindS (generateS N grp) (\<lambda>client_share.
     send_hello N K (policy_template p) (policy_transport_params p) resumption
       \<lparr>hq_certificate_types = certificate_type_offers_of p, hq_kx_pubkey = client_share, hq_cookie = cookie,
        hq_resumption = sent, hq_offer_early_data = False\<rparr>
       (\<lambda>s. s\<lparr>cs_handshake := (cs_handshake s)\<lparr>ch_resumption := resumption, ch_hrr_done := True\<rparr>\<rparr>))))))"

record retry_scan =
  rx_saw_versions :: bool
  rx_group :: "u16 option"
  rx_cookie :: "bytes option"

definition retry_extension :: "extension \<Rightarrow> retry_scan \<Rightarrow> conn_error + retry_scan" where
  "retry_extension ext r =
     (if ext_ty ext = SUPPORTED_VERSIONS then
        and_then (map_err error_of_decode (supported_versions_decode_server (ext_data ext))) (\<lambda>version.
        if version \<noteq> TLS_1_3 then Inl BadVersion else Inr (r\<lparr>rx_saw_versions := True\<rparr>))
      else if ext_ty ext = KEY_SHARE then
        and_then (map_err error_of_decode (retry_key_share_decode (ext_data ext))) (\<lambda>grp. Inr (r\<lparr>rx_group := Some grp\<rparr>))
      else if ext_ty ext = COOKIE then
        and_then (map_err error_of_decode (cookie_decode (ext_data ext))) (\<lambda>cookie. Inr (r\<lparr>rx_cookie := Some cookie\<rparr>))
      else Inl UnsolicitedExtension)"

fun retry_extensions :: "extension list \<Rightarrow> retry_scan \<Rightarrow> conn_error + retry_scan" where
  "retry_extensions [] r = Inr r"
| "retry_extensions (ext # exts) r = and_then (retry_extension ext r) (retry_extensions exts)"

definition retry_selection :: "bytes \<Rightarrow> conn_error + kex_group \<times> bytes option" where
  "retry_selection exts =
     and_then (retry_extensions (extensions_iter exts) \<lparr>rx_saw_versions = False, rx_group = None, rx_cookie = None\<rparr>) (\<lambda>r.
     if \<not> rx_saw_versions r then Inl MissingExtension
     else and_then (ok_or MissingExtension (rx_group r)) (\<lambda>selected.
       case kex_group_from_u16 selected of
         None \<Rightarrow> Inl UnsupportedGroup
       | Some g \<Rightarrow> if List.member SUPPORTED_KEX_GROUPS g then Inr (g, rx_cookie r) else Inl UnsupportedGroup))"

definition handle_hello_retry_request ::
    "('x, 'k) client_env \<Rightarrow> ('k, 'e) client_sink \<Rightarrow> policy \<Rightarrow> server_hello_ref \<Rightarrow> bytes \<Rightarrow> ('x, 'k, 'e, unit) client_handler" where
  "handle_hello_retry_request N K p hrr raw =
     bindS (askS (\<lambda>s. s)) (\<lambda>s.
     if ch_hrr_done (cs_handshake s) then failS (Protocol UnexpectedMessage)
     else
       bindS (tryS (\<lambda>e. e) (retry_selection (shr_extensions hrr))) (\<lambda>(grp, cookie).
       if in_pending_group (cn_initiator N) (cs_kx s) = Some grp then failS (Protocol IllegalParameter)
       else
         bindS (tryS (\<lambda>e. e) (client_hash_alg (cs_application s))) (\<lambda>alg.
         bindS (protS (client_hashS (cn_crypto N) alg)) (\<lambda>h1.
         bindS (tryS error_of_transcript (restart_with_message_hash alg h1)) (\<lambda>t.
         seqS (updS (\<lambda>s. s\<lparr>cs_handshake := (cs_handshake s)\<lparr>ch_transcript := t\<rparr>\<rparr>)) (
         seqS (updS (client_absorb raw))
         (finish_hello_retry_request N K p grp cookie)))))))"

subsection \<open>ServerHello\<close>

definition DOWNGRADE_TLS12 :: bytes where "DOWNGRADE_TLS12 = [0x44, 0x4f, 0x57, 0x4e, 0x47, 0x52, 0x44, 0x01]"
definition DOWNGRADE_TLS11 :: bytes where "DOWNGRADE_TLS11 = [0x44, 0x4f, 0x57, 0x4e, 0x47, 0x52, 0x44, 0x00]"

definition server_hello_suite :: "policy \<Rightarrow> server_hello_ref \<Rightarrow> 'x client_session \<Rightarrow> conn_error + cipher_suite" where
  "server_hello_suite p sh s =
     (if shr_legacy_version sh \<noteq> TLS_1_2 then Inl IllegalParameter
      else if shr_legacy_compression_method sh \<noteq> 0 then Inl IllegalParameter
      else if shr_legacy_session_id_echo sh \<noteq>
          (if uses_legacy_session_id (tp_transport_mode (policy_template p)) then ch_session_id (cs_handshake s) else [])
      then Inl IllegalParameter
      else and_then (ok_or UnsupportedCipherSuite (cipher_suite_from_u16 (shr_cipher_suite sh))) (\<lambda>suite.
        if \<not> List.member (os_offered_suites (cs_offer s)) suite then Inl IllegalParameter else Inr suite))"

definition select_suite :: "cipher_suite \<Rightarrow> ('x, 'k, 'e, unit) client_handler" where
  "select_suite suite =
     seqS (sesS (\<lambda>s. case transcript_select (hash_alg suite) (ch_transcript (cs_handshake s)) of
         (r, t) \<Rightarrow> (map_err (\<lambda>e. Protocol (error_of_transcript e)) r, s\<lparr>cs_handshake := (cs_handshake s)\<lparr>ch_transcript := t\<rparr>\<rparr>)))
     (protS (sesS (client_on_traffic (traffic_select suite))))"

definition known_in_server_hello :: "extension \<Rightarrow> bool" where
  "known_in_server_hello ext \<longleftrightarrow> ext_ty ext = SUPPORTED_VERSIONS \<or> ext_ty ext = KEY_SHARE \<or> ext_ty ext = PRE_SHARED_KEY"

definition server_psk_selected :: "algorithm \<Rightarrow> active_resumption option \<Rightarrow> bytes \<Rightarrow> conn_error + bool" where
  "server_psk_selected alg resumption exts =
     (case extensions_find PRE_SHARED_KEY exts of
        None \<Rightarrow> Inr False
      | Some ext \<Rightarrow>
          if resumption = None then Inl UnexpectedMessage
          else if alg \<noteq> RESUMPTION_HASH then Inl IllegalParameter
          else and_then (map_err (\<lambda>_. IllegalParameter) (selected_identity_decode (ext_data ext))) (\<lambda>selected.
            if selected \<noteq> 0 then Inl IllegalParameter else Inr True))"

definition server_hello_parameters ::
    "algorithm \<Rightarrow> active_resumption option \<Rightarrow> server_hello_ref \<Rightarrow> conn_error + server_key_share \<times> bool" where
  "server_hello_parameters alg resumption sh =
     (let tail1 = drop (RANDOM_LEN - 8) (shr_random sh); exts = shr_extensions sh in
      if tail1 = DOWNGRADE_TLS12 \<or> tail1 = DOWNGRADE_TLS11 then Inl DowngradeDetected
      else
        and_then (ok_or MissingExtension (extensions_find SUPPORTED_VERSIONS exts)) (\<lambda>sv.
        and_then (map_err error_of_decode (supported_versions_decode_server (ext_data sv))) (\<lambda>version.
        if version \<noteq> TLS_1_3 then Inl BadVersion
        else
          and_then (ok_or MissingExtension (extensions_find KEY_SHARE exts)) (\<lambda>ks.
          and_then (map_err error_of_decode (server_key_share_decode (ext_data ks))) (\<lambda>server_share.
          if \<not> list_all known_in_server_hello (extensions_iter exts) then Inl UnsolicitedExtension
          else and_then (server_psk_selected alg resumption exts) (\<lambda>psk_used. Inr (server_share, psk_used)))))))"

definition agreeS :: "('x, 'k) client_env \<Rightarrow> bytes \<Rightarrow> ('x, 'k, 'e, shared_secret) client_handler" where
  "agreeS N server_share = sesS (\<lambda>s.
     case in_agree (cn_initiator N) server_share (cs_kx s) of
       (r, x) \<Rightarrow> (map_err (\<lambda>_. Protocol KxErr) r, s\<lparr>cs_kx := x\<rparr>))"

definition derive_handshake_secrets ::
    "('x, 'k) client_env \<Rightarrow> algorithm \<Rightarrow> bytes \<Rightarrow> ('x, 'k, 'e, handshake_secrets) client_handler" where
  "derive_handshake_secrets N alg dhe =
     (let C = cn_crypto N in
     bindS (askS (\<lambda>s. (ch_resumption (cs_handshake s), ch_psk_used (cs_handshake s)))) (\<lambda>(active, psk_used).
     seqS (updS (\<lambda>s. s\<lparr>cs_handshake := (cs_handshake s)\<lparr>ch_resumption := None\<rparr>\<rparr>)) (
     bindS (if psk_used
            then bindS (tryS (\<lambda>e. e) (ok_or UnexpectedMessage active)) (\<lambda>resumption.
              tryS error_of_hkdf (schedule_into_handshake C dhe (schedule_new_psk C alg (ar_psk resumption))))
            else tryS error_of_hkdf (schedule_into_handshake C dhe (schedule_new C alg))) (\<lambda>ks_handshake.
     bindS (protS (client_hashS C alg)) (\<lambda>h_chsh.
     bindS (tryS error_of_hkdf (client_handshake_traffic_secret C (as_slice h_chsh) ks_handshake)) (\<lambda>c_hs.
     bindS (tryS error_of_hkdf (server_handshake_traffic_secret C (as_slice h_chsh) ks_handshake)) (\<lambda>s_hs.
     retS \<lparr>hx_schedule = ks_handshake, hx_client_traffic = c_hs, hx_server_traffic = s_hs\<rparr>)))))))"

definition accept_server_hello ::
    "('x, 'k) client_env \<Rightarrow> ('k, 'e) client_sink \<Rightarrow> algorithm \<Rightarrow> server_hello_ref \<Rightarrow> bytes \<Rightarrow> ('x, 'k, 'e, unit) client_handler" where
  "accept_server_hello N K alg sh raw =
     bindS (askS (\<lambda>s. ch_resumption (cs_handshake s))) (\<lambda>resumption.
     bindS (tryS (\<lambda>e. e) (server_hello_parameters alg resumption sh)) (\<lambda>(server_share, psk_used).
     seqS (updS (\<lambda>s. s\<lparr>cs_handshake := (cs_handshake s)\<lparr>ch_psk_used := psk_used\<rparr>\<rparr>)) (
     seqS (updS (client_absorb raw)) (
     bindS (askS (\<lambda>s. in_pending_group (cn_initiator N) (cs_kx s))) (\<lambda>pending.
     seqS (requireS (map_option kex_group_wire_id pending = Some (sks_group server_share)) (Protocol IllegalParameter)) (
     bindS (agreeS N (sks_key_exchange server_share)) (\<lambda>dhe.
     bindS (derive_handshake_secrets N alg (shared_as_slice dhe)) (\<lambda>secrets.
     bindS (askS client_suite_of) (\<lambda>suite.
     seqS (emitS K suite (EvKeysReady HandshakeEpoch (hx_server_traffic secrets) (hx_client_traffic secrets)))
     (updS (client_set_state (ExpectEncryptedExtensions secrets))))))))))))"

definition handle_server_hello ::
    "('x, 'k) client_env \<Rightarrow> ('k, 'e) client_sink \<Rightarrow> policy \<Rightarrow> server_hello_ref \<Rightarrow> bytes \<Rightarrow> ('x, 'k, 'e, unit) client_handler" where
  "handle_server_hello N K p sh raw =
     bindS (askS (server_hello_suite p sh)) (\<lambda>checked_suite.
     bindS (tryS (\<lambda>e. e) checked_suite) (\<lambda>suite.
     seqS (select_suite suite) (
     if shr_random sh = HELLO_RETRY_REQUEST_RANDOM then handle_hello_retry_request N K p sh raw
     else accept_server_hello N K (hash_alg suite) sh raw)))"

subsection \<open>EncryptedExtensions\<close>

definition early_data_outcome ::
    "client_handshake \<Rightarrow> cipher_suite option \<Rightarrow> bound_early_data option \<Rightarrow> negotiated_extensions \<Rightarrow>
     conn_error + (client_early_data \<times> client_ticket event) option" where
  "early_data_outcome h suite offered negotiated =
     (case (offered, ne_early_data negotiated) of
        (Some authority, Some _) \<Rightarrow>
          and_then (ok_or UnexpectedMessage suite) (\<lambda>selected_suite.
          if ch_hrr_done h \<or> \<not> ch_psk_used h \<or> selected_suite \<noteq> be_suite authority \<or> ne_alpn negotiated \<noteq> be_alpn authority
          then Inl IllegalParameter else Inr (Some (EarlyAccepted, EvEarlyDataAccepted)))
      | (Some _, None) \<Rightarrow> Inr (Some (EarlyNotOffered, EvEarlyDataRejected))
      | (None, None) \<Rightarrow> Inr None
      | (None, Some _) \<Rightarrow> Inl UnsolicitedExtension)"

definition handle_encrypted_extensions ::
    "('x, 'k) client_env \<Rightarrow> ('k, 'e) client_sink \<Rightarrow> policy \<Rightarrow> encrypted_extensions_ref \<Rightarrow> bytes \<Rightarrow> handshake_secrets \<Rightarrow>
     ('x, 'k, 'e, unit) client_handler" where
  "handle_encrypted_extensions N K p ee raw secrets =
     bindS (askS (\<lambda>s. s)) (\<lambda>s.
     let offered = (case cx_early_data (cs_extensions s) of EarlyOffered authority \<Rightarrow> Some authority | _ \<Rightarrow> None) in
     bindS (tryS (\<lambda>e. e) (negotiated_extensions_decode (cn_ci8 N) (eer_extensions ee) (policy_template p)
         (certificate_type_offers_of p) (offered \<noteq> None \<and> \<not> ch_hrr_done (cs_handshake s)))) (\<lambda>negotiated.
     bindS (tryS (\<lambda>e. e) (early_data_outcome (cs_handshake s) (client_suite_of s) offered negotiated)) (\<lambda>outcome.
     seqS (updS (\<lambda>s. s\<lparr>cs_extensions := (cs_extensions s)\<lparr>cx_selected_alpn := ne_alpn negotiated\<rparr>\<rparr>)) (
     seqS (case outcome of
         None \<Rightarrow> retS ()
       | Some (next1, _) \<Rightarrow> updS (\<lambda>s. s\<lparr>cs_extensions := (cs_extensions s)\<lparr>cx_early_data := next1\<rparr>\<rparr>)) (
     seqS (case ne_quic_params negotiated of
         None \<Rightarrow> retS ()
       | Some data \<Rightarrow> emitS K (client_suite_of s) (EvPeerExtension QUIC_TRANSPORT_PARAMETERS data)) (
     seqS (case outcome of None \<Rightarrow> retS () | Some (_, ev) \<Rightarrow> emitS K (client_suite_of s) ev) (
     seqS (updS (client_absorb raw))
     (updS (\<lambda>s. client_set_state
         (if ch_psk_used (cs_handshake s) then ExpectServerFinished secrets else ExpectCertificate secrets) s)))))))))"

subsection \<open>The server's certificate\<close>

definition handle_certificate_request ::
    "policy \<Rightarrow> certificate_request_ref \<Rightarrow> bytes \<Rightarrow> ('x client_session \<times> 'k, conn_error, unit) eff" where
  "handle_certificate_request p cr raw =
     bindS (askS cs_certificate_response) (\<lambda>response.
     if response \<noteq> None then failS UnexpectedMessage
     else if crr_context cr \<noteq> [] then failS IllegalParameter
     else
       bindS (liftS (ok_or MissingExtension (extensions_find SIGNATURE_ALGORITHMS (crr_extensions cr)))) (\<lambda>sigs.
       bindS (liftS (map_err error_of_decode (signature_algorithms_accepts (ext_data sigs)
           (map_option (\<lambda>source. sig_scheme (identity_signing_key source)) (policy_identity p))))) (\<lambda>accepted.
       seqS (updS (\<lambda>s. s\<lparr>cs_certificate_response :=
           Some (if policy_identity p \<noteq> None \<and> accepted then ResponseIdentity else ResponseEmpty)\<rparr>))
       (updS (client_absorb raw)))))"

definition check_pinned_key :: "('x, 'k) client_env \<Rightarrow> bytes \<Rightarrow> certificate_ref \<Rightarrow> conn_error + server_leaf" where
  "check_pinned_key N expected_pubkey cert1 =
     (if certificate_entries_len (certr_list cert1) \<noteq> 1 then Inl BadCertificate
      else and_then (ok_or BadCertificate (certificate_entries_first (cn_ci16 N) (certr_list cert1))) (\<lambda>entry.
        and_then (leaf_key_from_spki (cer_cert_data entry)) (\<lambda>leaf.
        case leaf of
          LkEd25519 server_pk \<Rightarrow> if server_pk \<noteq> expected_pubkey then Inl BadCertificate else Inr PinnedEd25519
        | _ \<Rightarrow> Inl BadCertificate)))"

fun parse_chain :: "('x, 'k) client_env \<Rightarrow> certificate_entry_ref list \<Rightarrow> chain \<Rightarrow> conn_error + chain" where
  "parse_chain N [] ch = Inr ch"
| "parse_chain N (entry # entries) ch =
     and_then (map_err BadCertificateParse (cert_parse (cn_unicode N) (cn_crypto N) (cer_cert_data entry))) (\<lambda>parsed.
     and_then (map_err (\<lambda>_. BadCertificateChain ChainTooLong) (chain_try_push (cn_certs N) parsed ch)) (parse_chain N entries))"

text \<open>The search of \<open>validate_with_anchor_verifier\<close> always ends, so that \<open>the\<close> is never taken of \<open>None\<close>.\<close>

definition validated_leaf ::
    "('x, 'k) client_env \<Rightarrow> trust_store \<Rightarrow> bytes \<Rightarrow> unix_time \<Rightarrow> certificate_ref \<Rightarrow> conn_error + leaf_key" where
  "validated_leaf N roots hostname now cert1 =
     (if certificate_entries_is_empty (certr_list cert1) then Inl BadCertificate
      else
        and_then (parse_chain N (entries_iter (cn_ci16 N) (ces_encoded (certr_list cert1))) chain_empty) (\<lambda>ch.
        and_then (map_err (\<lambda>e. if e = NoTrustAnchor then NoTrustAnchorForIssuer else BadCertificateChain e)
          (the (validate_with_anchor_verifier (cn_ci8 N) (cn_frames N) (cn_unicode N) (cn_verify N) now hostname
            (store_verify_subject (cn_unicode N) (cn_verify N) roots) ch)))
        leaf_key_from_x509_spki))"

definition handle_certificate ::
    "('x, 'k) client_env \<Rightarrow> policy \<Rightarrow> certificate_ref \<Rightarrow> bytes \<Rightarrow> handshake_secrets \<Rightarrow> ('x client_session \<times> 'k, conn_error, unit) eff" where
  "handle_certificate N p cert1 raw secrets =
     bindS (case tp_verifier (policy_template p) of
         VerifierRawPublicKey expected_pubkey \<Rightarrow> liftS (check_pinned_key N expected_pubkey cert1)
       | VerifierX509 _ _ _ \<Rightarrow> failS BadConfig
       | VerifierX509Store roots hostname _ \<Rightarrow>
           bindS (client_clockS N) (\<lambda>now_ms.
           bindS (liftS (validated_leaf N roots hostname (unix_from_secs (now_ms div 1000)) cert1)) (\<lambda>leaf.
           seqS (sesS (\<lambda>s. case bb_try_extend (leaf_key_raw leaf) (bb_clear (cs_flight s)) of
               (r, b) \<Rightarrow> (map_err (\<lambda>_. WorkspaceExhausted PeerIdentity) r, s\<lparr>cs_flight := b\<rparr>)))
           (retS (FlightLeaf (leaf_key_kind_of leaf)))))) (\<lambda>leaf.
     seqS (updS (client_absorb raw))
     (updS (client_set_state (ExpectCertificateVerify secrets leaf))))"

definition offered_sig_scheme :: "policy \<Rightarrow> signature_scheme \<Rightarrow> bool" where
  "offered_sig_scheme p scheme =
     (case tp_verifier (policy_template p) of VerifierRawPublicKey _ \<Rightarrow> scheme = ED25519 | _ \<Rightarrow> x509_supported scheme)"

definition server_key :: "policy \<Rightarrow> server_leaf \<Rightarrow> 'x client_session \<Rightarrow> conn_error + leaf_key" where
  "server_key p leaf s =
     (case (leaf, tp_verifier (policy_template p)) of
        (PinnedEd25519, VerifierRawPublicKey expected_pubkey) \<Rightarrow> leaf_key_from_raw KindEd25519 expected_pubkey
      | (FlightLeaf kind, VerifierX509Store _ _ _) \<Rightarrow> leaf_key_from_raw kind (bb_as_slice (cs_flight s))
      | _ \<Rightarrow> Inl BadConfig)"

definition handle_certificate_verify ::
    "('x, 'k) client_env \<Rightarrow> policy \<Rightarrow> certificate_verify_ref \<Rightarrow> bytes \<Rightarrow> handshake_secrets \<Rightarrow> server_leaf \<Rightarrow>
     ('x client_session \<times> 'k, conn_error, unit) eff" where
  "handle_certificate_verify N p cv raw secrets leaf1 =
     (if \<not> offered_sig_scheme p (cvr_algorithm cv) then failS SigSchemeNotOffered
      else
        bindS (askS (\<lambda>s. s)) (\<lambda>s.
        bindS (liftS (client_hash_alg (cs_application s))) (\<lambda>alg.
        bindS (client_hashS (cn_crypto N) alg) (\<lambda>h_pre_cv.
        bindS (liftS (map_err error_of_encode (certificate_verify_message (cn_ci8 N) (as_slice h_pre_cv) True))) (\<lambda>msg.
        bindS (liftS (server_key p leaf1 s)) (\<lambda>leaf.
        seqS (liftS (leaf_key_verify (cn_verify N) leaf (cvr_algorithm cv) msg (cvr_signature cv))) (
        seqS (updS (\<lambda>s. s\<lparr>cs_flight := bb_clear (cs_flight s)\<rparr>)) (
        seqS (updS (client_absorb raw))
        (updS (client_set_state (ExpectServerFinished secrets)))))))))))"

subsection \<open>Finished\<close>

text \<open>Append one message to the flight and absorb it into the transcript.\<close>

definition client_send_message :: "bounded_buffer writer \<Rightarrow> ('x, 'k, 'e, unit) client_handler" where
  "client_send_message w =
     bindS (flight_lenS client_flight) (\<lambda>start.
     seqS (encodeS client_flight w)
     (bindS (flight_fromS client_flight start) (\<lambda>bs. updS (client_absorb bs))))"

definition client_entry_writer :: "bytes \<Rightarrow> bounded_buffer writer" where
  "client_entry_writer der = seq_w [framed_u24 E_bb (emit (put_slice E_bb der)), framed_u16 E_bb skip_w]"

definition client_certificate_writer :: "client_source option \<Rightarrow> bounded_buffer writer" where
  "client_certificate_writer identity =
     seq_w [emit (put_u8 E_bb (hs_type_u8 TCertificate)),
       framed_u24 E_bb (seq_w
         [framed_u8 E_bb skip_w,
          framed_u24 E_bb
            (case identity of
               Some (IdentityRawPublicKey key) \<Rightarrow>
                 (case pubkey key of
                    None \<Rightarrow> (\<lambda>b. (Inl Overflow, b))
                  | Some public_key \<Rightarrow> client_entry_writer (encoded_ed25519 public_key))
             | Some (IdentityX509 chain_der _) \<Rightarrow> for_each_w client_entry_writer chain_der
             | None \<Rightarrow> skip_w)])]"

definition append_flight ::
    "('x, 'k) client_env \<Rightarrow> policy \<Rightarrow> algorithm \<Rightarrow> certificate_response \<Rightarrow> ('x, 'k, 'e, unit) client_handler" where
  "append_flight N p alg response =
     bindS (case response of
         ResponseEmpty \<Rightarrow> retS None
       | ResponseIdentity \<Rightarrow> bindS (tryS (\<lambda>e. e) (ok_or BadConfig (policy_identity p))) (\<lambda>source. retS (Some source))) (\<lambda>identity.
     seqS (client_send_message (client_certificate_writer identity))
     (case identity of
        None \<Rightarrow> retS ()
      | Some src \<Rightarrow>
          bindS (protS (client_hashS (cn_crypto N) alg)) (\<lambda>h.
          bindS (tryS error_of_encode (certificate_verify_message (cn_ci8 N) (as_slice h) False)) (\<lambda>cv_msg.
          bindS (worldS (\<lambda>k. case sign_fixed (cn_ci8 N) (cn_sign N) (identity_signing_key src) cv_msg k of
              (r, k) \<Rightarrow> (map_err (\<lambda>_. Protocol SigErr) r, k))) (\<lambda>sig.
          client_send_message (frame_encode_certificate_verify E_bb (sig_scheme (identity_signing_key src)) sig))))))"

definition verify_server_finished ::
    "('x, 'k) client_env \<Rightarrow> bytes \<Rightarrow> handshake_secrets \<Rightarrow> ('x client_session \<times> 'k, conn_error, algorithm) eff" where
  "verify_server_finished N sf secrets =
     bindS (askS cs_application) (\<lambda>app.
     bindS (liftS (client_hash_alg app)) (\<lambda>alg.
     bindS (client_hashS (cn_crypto N) alg) (\<lambda>h_pre_sf.
     bindS (liftS (map_err error_of_hkdf
         (finished_verify_data (cn_crypto N) alg (as_slice (hx_server_traffic secrets)) (as_slice h_pre_sf)))) (\<lambda>expected.
     if \<not> verify_data_ct_eq expected sf then failS BadFinished else retS alg))))"

definition activate_client_application ::
    "('x, 'k) client_env \<Rightarrow> ('k, 'e) client_sink \<Rightarrow> algorithm \<Rightarrow> schedule \<Rightarrow> ('x, 'k, 'e, schedule) client_handler" where
  "activate_client_application N K alg ks_handshake =
     (let C = cn_crypto N in
     bindS (protS (client_hashS C alg)) (\<lambda>h_sf.
     bindS (tryS error_of_hkdf (schedule_into_master C ks_handshake)) (\<lambda>master.
     bindS (tryS error_of_hkdf (client_application_traffic_secret C (as_slice h_sf) master)) (\<lambda>c_ap.
     bindS (tryS error_of_hkdf (server_application_traffic_secret C (as_slice h_sf) master)) (\<lambda>s_ap.
     bindS (tryS error_of_hkdf (exporter_master_secret C (as_slice h_sf) master)) (\<lambda>exporter_master.
     seqS (protS (sesS (client_on_traffic (traffic_activate c_ap s_ap)))) (
     seqS (updS (\<lambda>s. s\<lparr>cs_application := (cs_application s)\<lparr>cp_exporter_master := Some exporter_master\<rparr>\<rparr>)) (
     bindS (askS client_traffic_of) (\<lambda>traffic.
     bindS (tryS (\<lambda>e. e) (traffic_secret ServerSide traffic)) (\<lambda>read_secret.
     bindS (tryS (\<lambda>e. e) (traffic_secret ClientSide traffic)) (\<lambda>write_secret.
     seqS (emitS K (traffic_suite traffic) (EvKeysReady ApplicationEpoch read_secret write_secret))
     (retS master))))))))))))"

definition END_OF_EARLY_DATA :: bytes where "END_OF_EARLY_DATA = [hs_type_u8 TEndOfEarlyData, 0, 0, 0]"

definition end_early_data :: "('k, 'e) client_sink \<Rightarrow> policy \<Rightarrow> ('x, 'k, 'e, unit) client_handler" where
  "end_early_data K p =
     bindS (askS (\<lambda>s. cx_early_data (cs_extensions s))) (\<lambda>early_data.
     whenS (early_data = EarlyAccepted \<and> uses_end_of_early_data (tp_transport_mode (policy_template p))) (
       seqS (updS (client_absorb END_OF_EARLY_DATA)) (
       bindS (askS client_suite_of) (\<lambda>suite. emitS K suite (EvSend HandshakeEpoch END_OF_EARLY_DATA)))))"

definition send_client_finished ::
    "('x, 'k) client_env \<Rightarrow> ('k, 'e) client_sink \<Rightarrow> policy \<Rightarrow> algorithm \<Rightarrow> schedule \<Rightarrow> secret \<Rightarrow> ('x, 'k, 'e, unit) client_handler" where
  "send_client_finished N K p alg master client_traffic =
     (let C = cn_crypto N in
     bindS (askS client_suite_of) (\<lambda>suite.
     with_flight K client_flight suite HandshakeEpoch (
       bindS (askS cs_certificate_response) (\<lambda>response.
       seqS (updS (\<lambda>s. s\<lparr>cs_certificate_response := None\<rparr>)) (
       seqS (case response of None \<Rightarrow> retS () | Some response \<Rightarrow> append_flight N p alg response) (
       bindS (protS (client_hashS C alg)) (\<lambda>h_pre_cf.
       bindS (tryS error_of_hkdf (finished_verify_data C alg (as_slice client_traffic) (as_slice h_pre_cf))) (\<lambda>cf_data.
       seqS (client_send_message (frame_encode_finished E_bb (as_slice cf_data))) (
       bindS (protS (client_hashS C alg)) (\<lambda>h_cf.
       bindS (tryS error_of_hkdf (resumption_master_secret C (as_slice h_cf) master)) (\<lambda>rms.
       updS (\<lambda>s. s\<lparr>cs_application := (cs_application s)\<lparr>cp_resumption_master := Some rms\<rparr>\<rparr>))))))))))))"

definition handle_server_finished ::
    "('x, 'k) client_env \<Rightarrow> ('k, 'e) client_sink \<Rightarrow> policy \<Rightarrow> bytes \<Rightarrow> bytes \<Rightarrow> handshake_secrets \<Rightarrow> ('x, 'k, 'e, unit) client_handler" where
  "handle_server_finished N K p sf raw secrets =
     bindS (protS (verify_server_finished N sf secrets)) (\<lambda>alg.
     seqS (updS (client_absorb raw)) (
     bindS (activate_client_application N K alg (hx_schedule secrets)) (\<lambda>master.
     seqS (end_early_data K p) (
     seqS (send_client_finished N K p alg master (hx_client_traffic secrets)) (
     bindS (askS client_suite_of) (\<lambda>suite.
     seqS (emitS K suite EvDone)
     (updS (client_set_state ClientDone))))))))"

subsection \<open>Dispatch\<close>

definition client_dispatch ::
    "('x, 'k) client_env \<Rightarrow> ('k, 'e) client_sink \<Rightarrow> policy \<Rightarrow> epoch \<Rightarrow> message_ref \<Rightarrow> bytes \<Rightarrow> ('x, 'k, 'e, unit) client_handler" where
  "client_dispatch N K p ep message raw =
     bindS (askS (\<lambda>s. ch_state (cs_handshake s))) (\<lambda>state.
     seqS (updS (client_set_state ClientFailed))
     (case (state, message) of
        (ExpectServerHello, RServerHello sh) \<Rightarrow>
          if ep = PlaintextEpoch
          then seqS (updS (client_set_state ExpectServerHello)) (handle_server_hello N K p sh raw)
          else failS (Protocol UnexpectedMessage)
      | (ExpectEncryptedExtensions secrets, REncryptedExtensions ee) \<Rightarrow>
          if ep = HandshakeEpoch then handle_encrypted_extensions N K p ee raw secrets
          else failS (Protocol UnexpectedMessage)
      | (ExpectCertificate secrets, RCertificateRequest cr) \<Rightarrow>
          if ep = HandshakeEpoch
          then seqS (updS (client_set_state (ExpectCertificate secrets))) (protS (handle_certificate_request p cr raw))
          else failS (Protocol UnexpectedMessage)
      | (ExpectCertificate secrets, RCertificate c) \<Rightarrow>
          if ep = HandshakeEpoch then protS (handle_certificate N p c raw secrets)
          else failS (Protocol UnexpectedMessage)
      | (ExpectCertificateVerify secrets leaf, RCertificateVerify cv) \<Rightarrow>
          if ep = HandshakeEpoch then protS (handle_certificate_verify N p cv raw secrets leaf)
          else failS (Protocol UnexpectedMessage)
      | (ExpectServerFinished secrets, RFinished f) \<Rightarrow>
          if ep = HandshakeEpoch then handle_server_finished N K p f raw secrets
          else failS (Protocol UnexpectedMessage)
      | (ClientDone, RKeyUpdate ku) \<Rightarrow>
          if ep = ApplicationEpoch
          then seqS (updS (client_set_state ClientDone)) (client_handle_key_update N K p ku)
          else failS (Protocol UnexpectedMessage)
      | (ClientDone, RNewSessionTicket nst) \<Rightarrow>
          if ep = ApplicationEpoch
          then
            seqS (updS (client_set_state ClientDone)) (
            bindS (askS (\<lambda>s. s)) (\<lambda>s.
            bindS (client_clockS N) (\<lambda>now_ms.
            handle_new_session_ticket K p (cp_resumption_master (cs_application s)) (client_suite_of s)
              (cx_selected_alpn (cs_extensions s)) now_ms nst)))
          else failS (Protocol UnexpectedMessage)
      | _ \<Rightarrow> failS (Protocol UnexpectedMessage)))"

definition client_message ::
    "('x, 'k) client_env \<Rightarrow> ('k, 'e) client_sink \<Rightarrow> policy \<Rightarrow> epoch \<Rightarrow> bytes \<Rightarrow> ('x, 'k, 'e, unit) client_handler" where
  "client_message N K p ep raw =
     bindS (tryS error_of_decode (message_ref_decode (cn_ci16 N) raw)) (\<lambda>message. client_dispatch N K p ep message raw)"

definition client_read ::
    "('x, 'k) client_env \<Rightarrow> ('k, 'e) client_sink \<Rightarrow> policy \<Rightarrow> epoch \<Rightarrow> bytes \<Rightarrow> reassembler \<Rightarrow> 'x client_session \<times> 'k \<Rightarrow>
     ('e drive_error + unit) \<times> reassembler \<times> 'x client_session \<times> 'k" where
  "client_read N K p ep data r s = reassembler_read (client_message N K p ep) ep data r s"

end
