(* ===== verification/Client.thy ===== *)
theory Client
  imports ClientHandshake
begin

section \<open>Client connections\<close>

text \<open>
  \<open>client/mod.rs\<close>, \<open>client/updates.rs\<close> and the builders of \<open>client/config/mod.rs\<close>.  A connection's core is a
  reassembler and a session; a framed connection has the session alone.  An owned client keeps its authority, a
  pooled one borrows its pool's (theory \<open>ClientPools\<close>).
\<close>

subsection \<open>Construction\<close>

record 'x client_core =
  core_reassembler :: reassembler
  core_session :: "'x client_session"

record 'x client =
  cli_core :: "'x client_core"
  cli_authority :: client_authority

definition core_new :: "client_workspace \<Rightarrow> active_resumption option \<Rightarrow> bool \<Rightarrow> owned_kx client_core" where
  "core_new storage resumption enable_early_data =
     \<lparr>core_reassembler = reassembler_with_buffer (cw_reassembly storage),
      core_session =
        \<lparr>cs_offer = \<lparr>os_enable_early_data = enable_early_data, os_kex_group = X25519, os_offered_suites = SUPPORTED_SUITES\<rparr>,
         cs_handshake = client_handshake_initial resumption, cs_kx = None,
         cs_extensions = \<lparr>cx_selected_alpn = None, cx_early_data = EarlyNotOffered\<rparr>,
         cs_certificate_response = None,
         cs_application = \<lparr>cp_traffic = TrafficEmpty, cp_resumption_master = None, cp_exporter_master = None\<rparr>,
         cs_flight = cw_flight storage\<rparr>\<rparr>"

definition framed_core_new :: "client_workspace \<Rightarrow> active_resumption option \<Rightarrow> bool \<Rightarrow> owned_kx client_session" where
  "framed_core_new storage resumption enable_early_data = core_session (core_new storage resumption enable_early_data)"

definition client_authority_new :: "template \<Rightarrow> client_source option \<Rightarrow> client_authority" where
  "client_authority_new t identity = \<lparr>ca_template = t, ca_identity = identity\<rparr>"

definition authority_workspace_layout :: "'k sign_ops \<Rightarrow> client_authority \<Rightarrow> client_layout" where
  "authority_workspace_layout S A = template_workspace_layout S (ca_identity A) (ca_template A)"

definition build_client :: "client_source option \<Rightarrow> client_workspace \<Rightarrow> prepared \<Rightarrow> owned_kx client" where
  "build_client identity storage pr =
     \<lparr>cli_core = core_new storage (pp_resumption pr) (pp_enable_early_data pr),
      cli_authority = client_authority_new (pp_template pr) identity\<rparr>"

definition try_into_client_with_workspace ::
    "'k sign_ops \<Rightarrow> client_source option \<Rightarrow> client_workspace \<Rightarrow> prepared \<Rightarrow> workspace_rejection + owned_kx client" where
  "try_into_client_with_workspace S identity storage pr =
     and_then (client_layout_admit (template_workspace_layout S identity (pp_template pr)) storage) (\<lambda>storage.
     Inr (build_client identity storage pr))"

record 'x framed_client =
  fcl_session :: "'x client_session"
  fcl_authority :: client_authority

definition into_framed_client :: "client_source option \<Rightarrow> prepared \<Rightarrow> owned_kx framed_client" where
  "into_framed_client identity pr =
     (let workspace = client_layout_allocate (client_layout_framed (verifier_peer_identity_capacity (tp_verifier (pp_template pr)))) in
      \<lparr>fcl_session = framed_core_new workspace (pp_resumption pr) (pp_enable_early_data pr),
       fcl_authority = client_authority_new (pp_template pr) identity\<rparr>)"

definition client_new_with_transport ::
    "('x, 'k) client_env \<Rightarrow> client_config \<Rightarrow> mode \<Rightarrow> config_error + owned_kx client" where
  "client_new_with_transport N cfg m =
     and_then (try_into_prepared_with_transport (cn_ci8 N) (cn_unicode N) (cn_crypto N) m cfg) (\<lambda>pr.
     let workspace = client_layout_allocate (template_workspace_layout (cn_sign N) None (pp_template pr)) in
     Inr (build_client None workspace pr))"

definition client_new :: "('x, 'k) client_env \<Rightarrow> client_config \<Rightarrow> config_error + owned_kx client" where
  "client_new N cfg = client_new_with_transport N cfg Tls"

definition client_mutual_with_transport ::
    "('x, 'k) client_env \<Rightarrow> client_config \<Rightarrow> client_source \<Rightarrow> mode \<Rightarrow> config_error + owned_kx client" where
  "client_mutual_with_transport N cfg identity m =
     and_then (try_into_prepared_with_transport (cn_ci8 N) (cn_unicode N) (cn_crypto N) m cfg) (\<lambda>pr.
     and_then (identity_try_into_template (cn_unicode N) (cn_crypto N) (cn_sign N) identity) (\<lambda>identity.
     let workspace = client_layout_allocate (template_workspace_layout (cn_sign N) (Some identity) (pp_template pr)) in
     Inr (build_client (Some identity) workspace pr)))"

definition client_mutual :: "('x, 'k) client_env \<Rightarrow> client_config \<Rightarrow> client_source \<Rightarrow> config_error + owned_kx client" where
  "client_mutual N cfg identity = client_mutual_with_transport N cfg identity Tls"

definition client_resume :: "('x, 'k) client_env \<Rightarrow> resumption \<Rightarrow> bool \<Rightarrow> config_error + owned_kx client" where
  "client_resume N r enable_early_data =
     and_then (prepared_from_retained (cn_ci8 N) enable_early_data r) (\<lambda>pr.
     let workspace = client_layout_allocate (template_workspace_layout (cn_sign N) None (pp_template pr)) in
     Inr (build_client None workspace pr))"

definition core_into_workspace :: "'x client_core \<Rightarrow> client_workspace" where
  "core_into_workspace c = release_workspace (core_reassembler c) (core_session c)"

definition client_into_workspace :: "'x client \<Rightarrow> client_workspace" where
  "client_into_workspace c = core_into_workspace (cli_core c)"

subsection \<open>Settings and queries\<close>

definition on_session :: "('x client_session \<Rightarrow> 'x client_session) \<Rightarrow> 'x client \<Rightarrow> 'x client" where
  "on_session f c = c\<lparr>cli_core := (cli_core c)\<lparr>core_session := f (core_session (cli_core c))\<rparr>\<rparr>"

abbreviation session_of :: "'x client \<Rightarrow> 'x client_session" where
  "session_of c \<equiv> core_session (cli_core c)"

definition set_kex_group :: "kex_group \<Rightarrow> owned_kx client \<Rightarrow> (conn_error + unit) \<times> owned_kx client" where
  "set_kex_group grp c =
     (case require_initial (cs_handshake (session_of c)) of
        Inl e \<Rightarrow> (Inl e, c)
      | Inr _ \<Rightarrow> (Inr (), on_session (\<lambda>s. s\<lparr>cs_offer := (cs_offer s)\<lparr>os_kex_group := grp\<rparr>\<rparr>) c))"

fun push_suites :: "cipher_suite copy_inline \<Rightarrow> cipher_suite list \<Rightarrow> cipher_suite list \<Rightarrow> cipher_suite list \<Rightarrow> conn_error + cipher_suite list" where
  "push_suites ci suites [] offered = Inr offered"
| "push_suites ci suites (suite # rest) offered =
     (if List.member suites suite
      then and_then (ok_or BadConfig (ci_push ci 3 suite offered)) (push_suites ci suites rest)
      else push_suites ci suites rest offered)"

definition set_cipher_suites ::
    "cipher_suite copy_inline \<Rightarrow> cipher_suite list \<Rightarrow> 'x client \<Rightarrow> (conn_error + unit) \<times> 'x client" where
  "set_cipher_suites ci suites c =
     (case require_initial (cs_handshake (session_of c)) of
        Inl e \<Rightarrow> (Inl e, c)
      | Inr _ \<Rightarrow>
          (case push_suites ci suites SUPPORTED_SUITES [] of
             Inl e \<Rightarrow> (Inl e, c)
           | Inr offered \<Rightarrow>
               if offered = [] then (Inl BadConfig, c)
               else (Inr (), on_session (\<lambda>s. s\<lparr>cs_offer := (cs_offer s)\<lparr>os_offered_suites := offered\<rparr>\<rparr>) c)))"

definition client_outbound_flight_capacity :: "'x client \<Rightarrow> nat" where
  "client_outbound_flight_capacity c = bb_capacity (cs_flight (session_of c))"

definition client_outbound_layout ::
    "('x, 'k) client_env \<Rightarrow> 'x client_session \<Rightarrow> policy \<Rightarrow> conn_error + outbound_layout" where
  "client_outbound_layout N s p =
     (let t = policy_template p in
      and_then (require_initial (cs_handshake s)) (\<lambda>_.
      and_then (map_err error_of_encode (maximum_initial_len_for_transport_params (cn_ci8 N) (tp_transport_mode t) (tp_verifier t)
          (length (policy_transport_params p)) (template_alpn_protocols t) (ch_resumption (cs_handshake s)))) (\<lambda>hello.
      and_then (ok_or BadConfig (usize_checked_add hello MAX_PLAINTEXT_BODY)) (\<lambda>plaintext.
      let authenticated =
            (case policy_identity p of
               None \<Rightarrow> (4 + 1 + 3) + (4 + HASH_MAX_LEN)
             | Some source \<Rightarrow> identity_outbound_flight_capacity (cn_sign N) source);
          end_of_early_data =
            (if uses_end_of_early_data (tp_transport_mode t) \<and> os_enable_early_data (cs_offer s) \<and>
                Option.bind (ch_resumption (cs_handshake s)) (early_data_offer (os_offered_suites (cs_offer s))) \<noteq> None
             then 4 else 0) in
      and_then (ok_or BadConfig (usize_checked_add authenticated end_of_early_data)) (\<lambda>handshake1.
      Inr \<lparr>ol_plaintext = plaintext, ol_handshake = handshake1, ol_application = 0\<rparr>)))))"

definition client_selected_alpn :: "client_authority \<Rightarrow> 'x client_session \<Rightarrow> bytes option" where
  "client_selected_alpn A s = Option.bind (cx_selected_alpn (cs_extensions s)) (template_alpn (ca_template A))"

definition client_export_keying_material ::
    "('x, 'k) client_env \<Rightarrow> 'x client \<Rightarrow> string \<Rightarrow> bytes \<Rightarrow> bytes \<Rightarrow> conn_error + bytes" where
  "client_export_keying_material N c label context1 out =
     (let app = cs_application (session_of c) in
      and_then (ok_or NotReady (cp_exporter_master app)) (\<lambda>em.
      and_then (client_hash_alg app) (\<lambda>algorithm.
      map_err error_of_hkdf (export_keying_material (cn_crypto N) algorithm (as_slice em) label context1 out))))"

subsection \<open>Driving a connection\<close>

definition core_poison :: "('x, 'k) initiator_ops \<Rightarrow> 'x client_core \<Rightarrow> 'x client_core" where
  "core_poison I c =
     \<lparr>core_reassembler = reassembler_discard (core_reassembler c), core_session = client_poison I (core_session c)\<rparr>"

text \<open>The part the entry points of all four kinds of connection have in common: refuse, run, poison on failure.\<close>

definition core_start_into ::
    "('x, 'k) client_env \<Rightarrow> ('k, 'e) client_sink \<Rightarrow> policy \<Rightarrow> ('x client_core \<times> 'k, 'e drive_error, unit) eff" where
  "core_start_into N K p = (\<lambda>(c, k).
     let h = cs_handshake (core_session c) in
     if client_is_failed h then (Inl (Protocol ConnectionFailed), (c, k))
     else case require_initial h of
       Inl e \<Rightarrow> (Inl (Protocol e), (c, k))
     | Inr _ \<Rightarrow>
         (case client_start N K p None (core_session c, k) of
            (Inl e, (s, k)) \<Rightarrow> (Inl e, (core_poison (cn_initiator N) (c\<lparr>core_session := s\<rparr>), k))
          | (Inr u, (s, k)) \<Rightarrow> (Inr u, (c\<lparr>core_session := s\<rparr>, k))))"

definition core_read_into ::
    "('x, 'k) client_env \<Rightarrow> ('k, 'e) client_sink \<Rightarrow> policy \<Rightarrow> epoch \<Rightarrow> bytes \<Rightarrow> ('x client_core \<times> 'k, 'e drive_error, unit) eff" where
  "core_read_into N K p ep data = (\<lambda>(c, k).
     if client_is_failed (cs_handshake (core_session c)) then (Inl (Protocol ConnectionFailed), (c, k))
     else case client_read N K p ep data (core_reassembler c) (core_session c, k) of
       (Inl e, r, s, k) \<Rightarrow> (Inl e, (core_poison (cn_initiator N) \<lparr>core_reassembler = r, core_session = s\<rparr>, k))
     | (Inr u, r, s, k) \<Rightarrow> (Inr u, (\<lparr>core_reassembler = r, core_session = s\<rparr>, k)))"

definition core_read_framed_into ::
    "('x, 'k) client_env \<Rightarrow> ('k, 'e) client_sink \<Rightarrow> policy \<Rightarrow> epoch \<Rightarrow> bytes \<Rightarrow> ('x client_core \<times> 'k, 'e drive_error, unit) eff" where
  "core_read_framed_into N K p ep raw = (\<lambda>(c, k).
     if client_is_failed (cs_handshake (core_session c)) then (Inl (Protocol ConnectionFailed), (c, k))
     else case client_message N K p ep raw (core_session c, k) of
       (Inl e, (s, k)) \<Rightarrow> (Inl e, (core_poison (cn_initiator N) (c\<lparr>core_session := s\<rparr>), k))
     | (Inr u, (s, k)) \<Rightarrow> (Inr u, (c\<lparr>core_session := s\<rparr>, k)))"

definition on_core ::
    "(policy \<Rightarrow> ('x client_core \<times> 'k, 'e drive_error, unit) eff) \<Rightarrow> ('x client \<times> 'k, 'e drive_error, unit) eff" where
  "on_core m = (\<lambda>(c, k).
     case m (authority_policy (cli_authority c) None) (cli_core c, k) of (r, (core, k)) \<Rightarrow> (r, (c\<lparr>cli_core := core\<rparr>, k)))"

definition client_start_into ::
    "('x, 'k) client_env \<Rightarrow> ('k, 'e) client_sink \<Rightarrow> ('x client \<times> 'k, 'e drive_error, unit) eff" where
  "client_start_into N K = on_core (core_start_into N K)"

definition client_read_into ::
    "('x, 'k) client_env \<Rightarrow> ('k, 'e) client_sink \<Rightarrow> epoch \<Rightarrow> bytes \<Rightarrow> ('x client \<times> 'k, 'e drive_error, unit) eff" where
  "client_read_into N K ep data = on_core (\<lambda>p. core_read_into N K p ep data)"

definition client_read_framed_into ::
    "('x, 'k) client_env \<Rightarrow> ('k, 'e) client_sink \<Rightarrow> epoch \<Rightarrow> bytes \<Rightarrow> ('x client \<times> 'k, 'e drive_error, unit) eff" where
  "client_read_framed_into N K ep raw = on_core (\<lambda>p. core_read_framed_into N K p ep raw)"

text \<open>A pooled connection: the core of the lease under the pool's authority.\<close>

definition pooled_start_into ::
    "('x, 'k) client_env \<Rightarrow> ('k, 'e) client_sink \<Rightarrow> client_authority \<Rightarrow> ('x client_core \<times> 'k, 'e drive_error, unit) eff" where
  "pooled_start_into N K A = core_start_into N K (authority_policy A None)"

definition pooled_read_into ::
    "('x, 'k) client_env \<Rightarrow> ('k, 'e) client_sink \<Rightarrow> client_authority \<Rightarrow> epoch \<Rightarrow> bytes \<Rightarrow>
     ('x client_core \<times> 'k, 'e drive_error, unit) eff" where
  "pooled_read_into N K A ep data = core_read_into N K (authority_policy A None) ep data"

text \<open>Framed connections take a sink that lends storage for every flight, wrapped by \<open>RequiredFlightSink\<close>.\<close>

type_synonym ('k, 'e) client_lender = "epoch \<Rightarrow> event_context \<Rightarrow> 'k \<Rightarrow> ('e + outbound_flight) \<times> 'k"

definition framed_start_into ::
    "('x, 'k) client_env \<Rightarrow> ('k, 'e) client_lender \<Rightarrow> ('k, 'e) client_sink \<Rightarrow> policy \<Rightarrow> ('x, 'k, 'e, unit) client_handler" where
  "framed_start_into N lend K p = (\<lambda>(s, k).
     if client_is_failed (cs_handshake s) then (Inl (Protocol ConnectionFailed), (s, k))
     else case require_initial (cs_handshake s) of
       Inl e \<Rightarrow> (Inl (Protocol e), (s, k))
     | Inr _ \<Rightarrow>
         (case client_start N (required_flight_sink lend K) p None (s, k) of
            (Inl e, (s, k)) \<Rightarrow> (Inl e, (client_poison (cn_initiator N) s, k))
          | (Inr u, (s, k)) \<Rightarrow> (Inr u, (s, k))))"

definition framed_read_into ::
    "('x, 'k) client_env \<Rightarrow> ('k, 'e) client_lender \<Rightarrow> ('k, 'e) client_sink \<Rightarrow> policy \<Rightarrow> epoch \<Rightarrow> bytes \<Rightarrow> ('x, 'k, 'e, unit) client_handler" where
  "framed_read_into N lend K p ep raw = (\<lambda>(s, k).
     if client_is_failed (cs_handshake s) then (Inl (Protocol ConnectionFailed), (s, k))
     else case client_message N (required_flight_sink lend K) p ep raw (s, k) of
       (Inl e, (s, k)) \<Rightarrow> (Inl e, (client_poison (cn_initiator N) s, k))
     | (Inr u, (s, k)) \<Rightarrow> (Inr u, (s, k)))"

definition framed_client_start_into ::
    "('x, 'k) client_env \<Rightarrow> ('k, 'e) client_lender \<Rightarrow> ('k, 'e) client_sink \<Rightarrow> ('x framed_client \<times> 'k, 'e drive_error, unit) eff" where
  "framed_client_start_into N lend K = (\<lambda>(c, k).
     case framed_start_into N lend K (authority_policy (fcl_authority c) None) (fcl_session c, k) of
       (r, (s, k)) \<Rightarrow> (r, (c\<lparr>fcl_session := s\<rparr>, k)))"

definition framed_client_read_into ::
    "('x, 'k) client_env \<Rightarrow> ('k, 'e) client_lender \<Rightarrow> ('k, 'e) client_sink \<Rightarrow> epoch \<Rightarrow> bytes \<Rightarrow>
     ('x framed_client \<times> 'k, 'e drive_error, unit) eff" where
  "framed_client_read_into N lend K ep raw = (\<lambda>(c, k).
     case framed_read_into N lend K (authority_policy (fcl_authority c) None) ep raw (fcl_session c, k) of
       (r, (s, k)) \<Rightarrow> (r, (c\<lparr>fcl_session := s\<rparr>, k)))"

subsection \<open>Key updates\<close>

definition core_set_traffic :: "traffic_state \<Rightarrow> 'x client_core \<Rightarrow> 'x client_core" where
  "core_set_traffic t c =
     c\<lparr>core_session := (core_session c)\<lparr>cs_application := (cs_application (core_session c))\<lparr>cp_traffic := t\<rparr>\<rparr>\<rparr>"

definition client_note_application_data :: "'x client_core \<Rightarrow> 'x client_core" where
  "client_note_application_data c = core_set_traffic (reset_updates (client_traffic_of (core_session c))) c"

definition client_response_pending :: "'x client_core \<Rightarrow> bool" where
  "client_response_pending c = key_update_response_pending (client_traffic_of (core_session c))"

definition client_updates_send_into ::
    "('x, 'k) client_env \<Rightarrow> ('k, 'e) client_sink \<Rightarrow> client_authority \<Rightarrow> key_update_request \<Rightarrow>
     ('x client_core \<times> 'k, 'e drive_error, unit) eff" where
  "client_updates_send_into N K A request = (\<lambda>(c, k).
     if client_is_failed (cs_handshake (core_session c)) then (Inl (Protocol ConnectionFailed), (c, k))
     else if \<not> allows_tls_key_update (tp_transport_mode (ca_template A)) \<or> \<not> client_is_done (cs_handshake (core_session c))
     then (Inl (Protocol UnexpectedMessage), (c, k))
     else case key_update_send (cn_crypto N) K ClientRole request (client_traffic_of (core_session c)) k of
       (Inl e, t, k) \<Rightarrow> (Inl e, (core_poison (cn_initiator N) (core_set_traffic t c), k))
     | (Inr u, t, k) \<Rightarrow> (Inr u, (core_set_traffic t c, k)))"

definition client_updates_send_pending_into ::
    "('x, 'k) client_env \<Rightarrow> ('k, 'e) client_sink \<Rightarrow> client_authority \<Rightarrow> ('x client_core \<times> 'k, 'e drive_error, unit) eff" where
  "client_updates_send_pending_into N K A = (\<lambda>(c, k).
     if \<not> client_response_pending c then (Inr (), (c, k)) else client_updates_send_into N K A NotRequested (c, k))"

subsection \<open>The hybrid profile and QUIC after the handshake\<close>

definition hybrid_from_client :: "workspace_material \<Rightarrow> owned_kx client \<Rightarrow> conn_error + workspace_material client" where
  "hybrid_from_client hybrid_workspace c =
     (case set_kex_group X25519Mlkem768 c of
        (Inl e, _) \<Rightarrow> Inl e
      | (Inr _, c) \<Rightarrow>
          Inr \<lparr>cli_core = \<lparr>core_reassembler = core_reassembler (cli_core c),
                 core_session = session_with_kx hybrid_workspace (session_of c)\<rparr>,
               cli_authority = cli_authority c\<rparr>)"

record quic_post_handshake =
  qph_authority :: client_authority
  qph_master :: "secret option"
  qph_suite :: cipher_suite
  qph_selected_alpn :: "alpn_id option"

definition into_quic_post_handshake :: "client_authority \<Rightarrow> 'x client_session \<Rightarrow> conn_error + quic_post_handshake" where
  "into_quic_post_handshake A s =
     (if \<not> is_quic (tp_transport_mode (ca_template A)) \<or> \<not> client_is_done (cs_handshake s) then Inl UnexpectedMessage
      else and_then (ok_or NotReady (client_suite_of s)) (\<lambda>suite.
        Inr \<lparr>qph_authority = A, qph_master = cp_resumption_master (cs_application s), qph_suite = suite,
             qph_selected_alpn = cx_selected_alpn (cs_extensions s)\<rparr>))"

definition post_handshake_read ::
    "('x, 'k) client_env \<Rightarrow> ('k, 'e) client_sink \<Rightarrow> quic_post_handshake \<Rightarrow> epoch \<Rightarrow> bytes \<Rightarrow> ('x, 'k, 'e, unit) client_handler" where
  "post_handshake_read N K q ep raw =
     (if ep \<noteq> ApplicationEpoch then failS (Protocol UnexpectedMessage)
      else bindS (tryS error_of_decode (message_ref_decode (cn_ci16 N) raw)) (\<lambda>message.
        case message of
          RNewSessionTicket nst \<Rightarrow>
            bindS (client_clockS N) (\<lambda>now_ms.
            handle_new_session_ticket K (authority_policy (qph_authority q) None) (qph_master q) (Some (qph_suite q))
              (qph_selected_alpn q) now_ms nst)
        | _ \<Rightarrow> failS (Protocol UnexpectedMessage)))"

end
