(* ===== verification/ClientStorage.thy ===== *)
theory ClientStorage
  imports ClientHandshake FlightExtent
begin

section \<open>The client's own storage\<close>

text \<open>
  No handler of the client keeps storage of the sink or loses its own: \<open>own\<close> is the extent of the session's flight,
  and every handler keeps it.
\<close>

lemma steady_framedV [steady_intros]: "steady body \<Longrightarrow> steady (framedV E_bb n m body)"
  unfolding steady_def framedV_def
  by (auto split: prod.split sum.split) (metis extent_frame extent_frame_begin steadyD steady_def snd_conv)+

lemma steady_extensionV [steady_intros]: "steady body \<Longrightarrow> steady (extensionV E_bb ty body)"
  unfolding extensionV_def by (intro steady_intros)

lemma steady_hello: "steady (hello_offer_encode ci E_bb o1)"
  unfolding hello_offer_encode_def offer_psk_def offer_extensions_writer_def certificate_type_writer_def Let_def
  by (intro steady_intros | simp | auto split: option.split intro!: steady_intros)+

subsection \<open>Handlers\<close>

definition own :: "'x client_session \<Rightarrow> nat \<times> nat" where
  "own s = extent (cs_flight s)"

lemma own_updates [simp]:
  "own (client_absorb bs s) = own s" "own (client_set_state st s) = own s" "own (snd (client_on_traffic m s)) = own s"
  "own (s\<lparr>cs_offer := offer\<rparr>) = own s" "own (s\<lparr>cs_kx := x\<rparr>) = own s" "own (s\<lparr>cs_extensions := e\<rparr>) = own s"
  "own (s\<lparr>cs_application := a\<rparr>) = own s" "own (s\<lparr>cs_handshake := h\<rparr>) = own s" "own (s\<lparr>cs_certificate_response := c\<rparr>) = own s"
  "own (s\<lparr>cs_flight := b\<rparr>) = extent b" "own (lens_put client_flight b s) = extent b" "extent (lens_get client_flight s) = own s"
  by (simp_all add: own_def client_absorb_def client_set_state_def client_on_traffic_def client_flight_def split: prod.split)

interpretation cli_flight: flight_owner client_flight "\<lambda>s. ()"
  by unfold_locales (simp_all add: client_flight_def)

lemma keeps_own: "keeps own m \<longleftrightarrow> keeps (held client_flight (\<lambda>s. ())) m"
  by (simp add: keeps_def own_def held_def client_flight_def)

lemma own_with_flight: "keeps own body \<Longrightarrow> keeps own (with_flight K client_flight suite ep body)"
  unfolding keeps_own by (rule cli_flight.held_with_flight)

lemma own_encode: "steady w \<Longrightarrow> keeps own (encodeS client_flight w)"
  unfolding keeps_own by (rule cli_flight.held_encode)

lemma keeps_client_hash [intro, simp]: "keeps v (client_hashS C a)"
  unfolding client_hashS_def by (intro keeps_intros)

lemma keeps_client_clock [intro, simp]: "keeps v (client_clockS N)"
  unfolding client_clockS_def by (intro keeps_intros)

lemma keeps_new_session_ticket [intro, simp]: "keeps v (handle_new_session_ticket K p master suite alpn1 now nst)"
  unfolding handle_new_session_ticket_def Let_def by (intro keeps_intros)

lemmas own_intros = keeps_prot keeps_client_clock keeps_client_hash keeps_bind keeps_seq keeps_when keeps_map_err keeps_upd keeps_ses own_encode own_with_flight keeps_if keeps_case
  keeps_basic own_updates

lemma own_generate: "keeps own (generateS N grp)"
  by (simp add: keeps_def generateS_def split: prod.split)

lemma own_agree: "keeps own (agreeS N share)"
  unfolding agreeS_def by (intro own_intros) (simp split: prod.split)

lemma own_request_encode: "keeps own (request_encode N t params q)"
  by (rule keepsI) (auto simp: request_encode_def split: prod.split dest: steadyD [OF steady_hello] simp: own_def)

lemma own_splice_binder: "keeps own (splice_binder N r slot)"
  unfolding splice_binder_def by (intro own_intros) (simp add: own_def overwrite_slice_def)

lemma own_send_hello: "(\<And>s. own (after s) = own s) \<Longrightarrow> keeps own (send_hello N K t params r q after)"
  unfolding send_hello_def by (intro own_intros own_request_encode own_splice_binder)

lemma own_start: "keeps own (client_start N K p params)"
  unfolding client_start_def draw_hello_fields_def announce_early_keys_def Let_def
  by (intro own_intros own_send_hello own_generate)

lemma own_retry: "keeps own (handle_hello_retry_request N K p hrr raw)"
  unfolding handle_hello_retry_request_def finish_hello_retry_request_def Let_def
  by (intro own_intros own_send_hello own_generate)

lemma own_accept: "keeps own (accept_server_hello N K alg sh raw)"
  unfolding accept_server_hello_def derive_handshake_secrets_def Let_def by (intro own_intros own_agree)

lemma own_server_hello: "keeps own (handle_server_hello N K p sh raw)"
  unfolding handle_server_hello_def select_suite_def by (intro own_intros own_retry own_accept) (simp split: prod.split)

lemma own_extensions: "keeps own (handle_encrypted_extensions N K p ee raw secrets)"
  unfolding handle_encrypted_extensions_def Let_def by (intro own_intros)

lemma own_request: "keeps own (handle_certificate_request p cr raw)"
  unfolding handle_certificate_request_def by (intro own_intros)

lemma own_try_extend:
  "own (snd (case bb_try_extend bs (bb_clear (cs_flight s)) of (r, b) \<Rightarrow> (map_err g r, s\<lparr>cs_flight := b\<rparr>))) = own s"
  using extent_ops(10) [of bs "bb_clear (cs_flight s)"] by (cases "bb_try_extend bs (bb_clear (cs_flight s))") (simp add: own_def)

lemma own_certificate: "keeps own (handle_certificate N p c raw secrets)"
  unfolding handle_certificate_def
  by (cases "tp_verifier (policy_template p)") (simp_all, (intro own_intros own_try_extend)+)

lemma own_certificate_verify: "keeps own (handle_certificate_verify N p cv raw secrets leaf)"
  unfolding handle_certificate_verify_def by (intro own_intros) (simp add: own_def)

lemma steady_client_entry [steady_intros]: "steady (client_entry_writer der)"
  by (simp add: client_entry_writer_def steady_intros del: seq_w.simps)

lemma steady_client_certificate [steady_intros]: "steady (client_certificate_writer identity)"
  unfolding client_certificate_writer_def
  by (intro steady_intros) (auto split: option.split client_source.split intro!: steady_intros)

lemma own_send_message: "steady w \<Longrightarrow> keeps own (client_send_message w)"
  unfolding client_send_message_def by (intro own_intros)

lemma own_append_flight: "keeps own (append_flight N p alg response)"
  unfolding append_flight_def
  by (cases response) (simp_all, (intro own_intros own_send_message steady_intros)+)

lemma own_finished: "keeps own (handle_server_finished N K p sf raw secrets)"
  unfolding handle_server_finished_def verify_server_finished_def activate_client_application_def end_early_data_def
    send_client_finished_def Let_def
  by (intro own_intros own_append_flight own_send_message steady_intros)

lemma own_key_update: "keeps own (client_handle_key_update N K p ku)"
  by (simp add: keeps_def client_handle_key_update_def failS_def split: prod.split)

lemmas own_handlers = own_server_hello own_extensions own_request own_certificate own_certificate_verify own_finished own_key_update
  keeps_new_session_ticket

lemma own_dispatch: "keeps own (client_dispatch N K p ep msg raw)"
  unfolding client_dispatch_def
  apply (intro keeps_bind keeps_seq keeps_upd own_updates keeps_basic)
  subgoal for state by (cases state; cases msg; simp; intro impI conjI own_intros own_handlers)
  done

lemma own_message: "keeps own (client_message N K p ep raw)"
  unfolding client_message_def by (intro own_intros own_dispatch)

end
