(* ===== verification/ClientSafety.thy ===== *)
theory ClientSafety
  imports Client ClientStorage Machine Samples
begin

section \<open>Safety of the client's state machine\<close>

text \<open>
  The transitions of \<open>client/session\<close> refine the TLS 1.3 client state machine, and what follows from it: the
  server is authenticated before a handshake completes, and a failed connection stays failed.
\<close>

subsection \<open>What the handlers leave alone\<close>

text \<open>
  \<open>cstat\<close> is the part of the session that most steps of the handshake do not touch.
\<close>

type_synonym client_view = "client_state \<times> bool \<times> bool \<times> active_resumption option \<times> certificate_response option"

definition cstat ::
    "'x client_session \<Rightarrow> client_view" where
  "cstat s =
     (ch_state (cs_handshake s), ch_hrr_done (cs_handshake s), ch_psk_used (cs_handshake s), ch_resumption (cs_handshake s),
      cs_certificate_response s)"

lemma cstat_updates [simp]:
  "cstat (client_absorb bs s) = cstat s"
  "cstat (lens_put client_flight b s) = cstat s"
  "cstat (snd (client_on_traffic m s)) = cstat s"
  by (simp_all add: cstat_def client_absorb_def client_flight_def client_on_traffic_def split: prod.split)

lemma cstat_record [simp]:
  "cstat (s\<lparr>cs_offer := offer\<rparr>) = cstat s" "cstat (s\<lparr>cs_kx := x\<rparr>) = cstat s" "cstat (s\<lparr>cs_extensions := e\<rparr>) = cstat s"
  "cstat (s\<lparr>cs_application := a\<rparr>) = cstat s" "cstat (s\<lparr>cs_flight := b\<rparr>) = cstat s"
  "cstat (s\<lparr>cs_handshake := (cs_handshake s)\<lparr>ch_transcript := t\<rparr>\<rparr>) = cstat s"
  by (simp_all add: cstat_def)

lemma wpS_if: "(b \<Longrightarrow> wpS m Q E s) \<Longrightarrow> (\<not> b \<Longrightarrow> wpS n Q E s) \<Longrightarrow> wpS (if b then m else n) Q E s"
  by simp

lemma wpS_failS_any: "wpS (failS e) Q (\<lambda>e t. True) s"
  by (simp add: wp)

lemmas wpS_views = wpS_bind_view [where v = cstat] wpS_seq_view [where v = cstat] wpS_if wpS_failS_any wpS_case_prod

lemmas cstat_intros = keeps_prot keeps_client_clock keeps_client_hash keeps_intros

lemma keeps_generate [intro, simp]: "keeps cstat (generateS N grp)"
  by (simp add: keeps_def generateS_def split: prod.split)

lemma keeps_agree [intro, simp]: "keeps cstat (agreeS N share)"
  unfolding agreeS_def by (intro cstat_intros) (simp split: prod.split)

lemma keeps_request_encode [intro, simp]: "keeps cstat (request_encode N t params q)"
  by (simp add: keeps_def request_encode_def split: prod.split)

lemma keeps_splice_binder [intro, simp]: "keeps cstat (splice_binder N r slot)"
  unfolding splice_binder_def by (intro cstat_intros cstat_updates cstat_record)

lemma keeps_select_suite [intro, simp]: "keeps cstat (select_suite suite)"
  unfolding select_suite_def by (intro cstat_intros cstat_updates) (simp split: prod.split)

lemma keeps_client_send_message [intro, simp]: "keeps cstat (client_send_message w)"
  unfolding client_send_message_def by (intro cstat_intros cstat_updates)

lemma keeps_announce [intro, simp]: "keeps cstat (announce_early_keys N K p early_data)"
  unfolding announce_early_keys_def by (intro cstat_intros)

lemma keeps_draw [intro, simp]: "keeps cstat (draw_hello_fields N p)"
  unfolding draw_hello_fields_def by (intro cstat_intros) (simp add: cstat_def)

lemma keeps_append_flight [intro, simp]: "keeps cstat (append_flight N p alg response)"
  unfolding append_flight_def by (cases response) (simp_all, (intro cstat_intros keeps_client_send_message)+)

lemma keeps_verify_finished [intro, simp]: "keeps cstat (verify_server_finished N sf secrets)"
  unfolding verify_server_finished_def by (intro cstat_intros)

lemma keeps_activate_client [intro, simp]: "keeps cstat (activate_client_application N K alg ks)"
  unfolding activate_client_application_def Let_def by (intro cstat_intros cstat_updates cstat_record)

lemma keeps_end_early_data [intro, simp]: "keeps cstat (end_early_data K p)"
  unfolding end_early_data_def by (intro cstat_intros cstat_updates)

lemma keeps_client_key_update [intro, simp]: "keeps cstat (client_handle_key_update N K p ku)"
  by (simp add: keeps_def client_handle_key_update_def failS_def split: prod.split)

subsection \<open>The state machine\<close>

text \<open>
  \<open>client_phase\<close> is what the server may send next; it remembers whether a HelloRetryRequest was answered, a ticket is on
  offer, the session is resumed, and a client certificate was requested.  \<open>client_step\<close> is the TLS 1.3
  client for a given transport, and \<open>cphase\<close> reads the phase off a session.
\<close>

datatype client_phase =
    Unstarted
  | AwaitServerHello bool bool
  | AwaitExtensions bool
  | AwaitServerCertificate bool
  | AwaitServerVerify
  | AwaitServerFinished bool
  | ClientConnected bool
  | ClientClosed

fun view_phase :: "client_view \<Rightarrow> client_phase" where
  "view_phase (ClientInitial, hrr_done, psk_used, resumption, response) = Unstarted"
| "view_phase (ExpectServerHello, hrr_done, psk_used, resumption, response) = AwaitServerHello hrr_done (resumption \<noteq> None)"
| "view_phase (ExpectEncryptedExtensions _, hrr_done, psk_used, resumption, response) = AwaitExtensions psk_used"
| "view_phase (ExpectCertificate _, hrr_done, psk_used, resumption, response) = AwaitServerCertificate (response \<noteq> None)"
| "view_phase (ExpectCertificateVerify _ _, hrr_done, psk_used, resumption, response) = AwaitServerVerify"
| "view_phase (ExpectServerFinished _, hrr_done, psk_used, resumption, response) = AwaitServerFinished psk_used"
| "view_phase (ClientDone, hrr_done, psk_used, resumption, response) = ClientConnected psk_used"
| "view_phase (ClientFailed, hrr_done, psk_used, resumption, response) = ClientClosed"

definition cphase :: "'x client_session \<Rightarrow> client_phase" where
  "cphase s = view_phase (cstat s)"

inductive client_step :: "mode \<Rightarrow> client_phase \<Rightarrow> epoch \<Rightarrow> message_ref \<Rightarrow> client_phase \<Rightarrow> bool" for m :: mode where
  ServerRetry: "shr_random sh = HELLO_RETRY_REQUEST_RANDOM \<Longrightarrow> (offered' \<Longrightarrow> offered) \<Longrightarrow>
    client_step m (AwaitServerHello False offered) PlaintextEpoch (RServerHello sh) (AwaitServerHello True offered')"
| ServerHello: "shr_random sh \<noteq> HELLO_RETRY_REQUEST_RANDOM \<Longrightarrow> (resumed \<Longrightarrow> offered) \<Longrightarrow>
    client_step m (AwaitServerHello retried offered) PlaintextEpoch (RServerHello sh) (AwaitExtensions resumed)"
| ResumedExtensions: "client_step m (AwaitExtensions True) HandshakeEpoch (REncryptedExtensions ee) (AwaitServerFinished True)"
| FullExtensions: "client_step m (AwaitExtensions False) HandshakeEpoch (REncryptedExtensions ee) (AwaitServerCertificate False)"
| Request: "crr_context cr = [] \<Longrightarrow>
    client_step m (AwaitServerCertificate False) HandshakeEpoch (RCertificateRequest cr) (AwaitServerCertificate True)"
| ServerCertificate: "client_step m (AwaitServerCertificate requested) HandshakeEpoch (RCertificate c) AwaitServerVerify"
| ServerVerify: "client_step m AwaitServerVerify HandshakeEpoch (RCertificateVerify cv) (AwaitServerFinished False)"
| ServerFinish: "client_step m (AwaitServerFinished resumed) HandshakeEpoch (RFinished f) (ClientConnected resumed)"
| ServerUpdate: "m = Tls \<Longrightarrow> client_step m (ClientConnected resumed) ApplicationEpoch (RKeyUpdate ku) (ClientConnected resumed)"
| ServerTicket: "client_step m (ClientConnected resumed) ApplicationEpoch (RNewSessionTicket nst) (ClientConnected resumed)"

inductive_cases client_finishE: "client_step m (AwaitServerFinished resumed) ep msg p"

text \<open>
  The invariant: no client certificate has been asked for before the server's own flight, and a
  session that waits for a certificate is not a resumed one.
\<close>

fun view_inv :: "client_view \<Rightarrow> bool" where
  "view_inv (ExpectCertificate _, hrr_done, psk_used, resumption, response) \<longleftrightarrow> \<not> psk_used"
| "view_inv (ExpectCertificateVerify _ _, hrr_done, psk_used, resumption, response) \<longleftrightarrow> \<not> psk_used"
| "view_inv (ExpectServerFinished _, hrr_done, psk_used, resumption, response) \<longleftrightarrow> True"
| "view_inv (ClientDone, hrr_done, psk_used, resumption, response) \<longleftrightarrow> True"
| "view_inv (ClientFailed, hrr_done, psk_used, resumption, response) \<longleftrightarrow> True"
| "view_inv (_, hrr_done, psk_used, resumption, response) \<longleftrightarrow> response = None"

definition client_inv :: "'x client_session \<Rightarrow> bool" where
  "client_inv s \<longleftrightarrow> view_inv (cstat s)"

abbreviation policy_step :: "policy \<Rightarrow> 'x client_session \<Rightarrow> epoch \<Rightarrow> message_ref \<Rightarrow> 'x client_session \<Rightarrow> bool" where
  "policy_step p s ep msg s' \<equiv> client_step (tp_transport_mode (policy_template p)) (cphase s) ep msg (cphase s')"

lemma cstat_set_state [simp]:
  "cstat (client_set_state st s) =
     (st, ch_hrr_done (cs_handshake s), ch_psk_used (cs_handshake s), ch_resumption (cs_handshake s), cs_certificate_response s)"
  by (simp add: cstat_def client_set_state_def)

text \<open>A step that ends by setting the state, after steps that keep the view.\<close>

lemma last_set_state:
  assumes "cstat (fst t) = (st0, d, u, r, c)" and "Q (st, d, u, r, c)"
  shows "wpS (updS (client_set_state st)) (\<lambda>_ t. Q (cstat (fst t))) E t"
  using assms by (simp add: wp cstat_def client_set_state_def)

subsection \<open>ServerHello\<close>

lemma send_hello_result:
  assumes "\<And>s. cstat (after s) = f (cstat s)"
  shows "wpS (send_hello N K t params r q after) (\<lambda>_ u. cstat (fst u) = f (cstat (fst s))) (\<lambda>e t. True) s"
proof -
  let ?Q = "\<lambda>_ u. cstat (fst u) = f (cstat (fst s))"
  have last: "wpS (updS after) ?Q (\<lambda>e t. True) u" if "cstat (fst u) = cstat (fst s)" for u :: "'a client_session \<times> 'b"
    using that assms by (simp add: wp)
  have body: "wpS (bindS (request_encode N t params q) (\<lambda>slot. seqS (splice_binder N r slot)
      (bindS (flight_fromS client_flight 0) (\<lambda>bs. seqS (updS (client_absorb bs)) (updS after))))) ?Q (\<lambda>e t. True) u"
    if "cstat (fst u) = cstat (fst s)" for u :: "'a client_session \<times> 'b"
    using that
    by (intro wpS_views cstat_intros keeps_request_encode keeps_splice_binder
        cstat_updates last) simp_all
  show ?thesis
    unfolding send_hello_def
    by (rule wpS_bind_view [where v = cstat, OF keeps_basic(7)],
        rule wpS_with_flight_view [where v = cstat and P = "\<lambda>v. v = f (cstat (fst s))"], simp, rule body, simp)
qed

lemma finish_retry_result:
  assumes "cstat (fst s) = (st, d, u, r, c)"
  shows "wpS (finish_hello_retry_request N K p grp cookie)
    (\<lambda>_ t. \<exists>r'. cstat (fst t) = (st, True, u, r', c) \<and> (r' \<noteq> None \<longrightarrow> r \<noteq> None)) (\<lambda>e t. True) s"
proof -
  let ?Q = "\<lambda>_ t. \<exists>r'. cstat (fst t) = (st, True, u, r', c) \<and> (r' \<noteq> None \<longrightarrow> r \<noteq> None)"
  have hello: "wpS (send_hello N K t params r' q
        (\<lambda>s. s\<lparr>cs_handshake := (cs_handshake s)\<lparr>ch_resumption := r', ch_hrr_done := True\<rparr>\<rparr>)) ?Q (\<lambda>e t. True) t1"
    if "cstat (fst t1) = (st, d, u, None, c)" "r' \<noteq> None \<longrightarrow> r \<noteq> None" for t params r' q and t1 :: "'a client_session \<times> 'b"
    by (rule wpS_mono [OF send_hello_result [where f = "\<lambda>(st, d, u, r, c). (st, True, u, r', c)"]])
      (use that in \<open>auto simp: cstat_def\<close>)
  have age: "fst (age_offer now r) \<noteq> None \<longrightarrow> r \<noteq> None" for now
    by (auto simp: age_offer_def split: option.splits)
  have taken: "ch_resumption (cs_handshake (fst (fst s\<lparr>cs_offer := offer\<rparr>, snd s))) = r" for offer
    using assms by (simp add: cstat_def)
  have generate: "wpS (bindS (generateS N grp) (\<lambda>client_share. send_hello N K t params (fst (age_offer now r)) (q client_share)
        (\<lambda>s. s\<lparr>cs_handshake := (cs_handshake s)\<lparr>ch_resumption := fst (age_offer now r), ch_hrr_done := True\<rparr>\<rparr>))) ?Q (\<lambda>e t. True) t1"
    if "cstat (fst t1) = (st, d, u, None, c)" for t params q now and t1 :: "'a client_session \<times> 'b"
    using that age by (intro wpS_bind_view [where v = cstat] keeps_generate hello) simp_all
  show ?thesis
    unfolding finish_hello_retry_request_def Let_def case_prod_beta wpS_seq_upd wpS_bindS [of "askS _"] wpS_askS
    by (rule wpS_bind_view [where v = cstat, OF keeps_client_clock], unfold taken, rule generate) (use assms in \<open>simp add: cstat_def\<close>)
qed

lemma retry_result:
  assumes "cstat (fst s) = (st, d, u, r, c)"
  shows "wpS (handle_hello_retry_request N K p hrr raw)
    (\<lambda>_ t. \<exists>r'. cstat (fst t) = (st, True, u, r', c) \<and> \<not> d \<and> (r' \<noteq> None \<longrightarrow> r \<noteq> None)) (\<lambda>e t. True) s"
proof -
  let ?Q = "\<lambda>_ t. \<exists>r'. cstat (fst t) = (st, True, u, r', c) \<and> \<not> d \<and> (r' \<noteq> None \<longrightarrow> r \<noteq> None)"
  have d: "ch_hrr_done (cs_handshake (fst s)) = d" using assms by (simp add: cstat_def)
  have finish: "wpS (finish_hello_retry_request N K p grp cookie) ?Q (\<lambda>e t. True) t"
    if "cstat (fst t) = cstat (fst s)" "\<not> d" for grp cookie and t :: "'a client_session \<times> 'b"
    by (rule wpS_mono [OF finish_retry_result [of t st d u r c]]) (use that assms in auto)
  show ?thesis
    unfolding handle_hello_retry_request_def wpS_bindS [of "askS _"] wpS_askS d
    by (intro wpS_views cstat_intros cstat_updates cstat_record finish) simp_all
qed

lemma derive_secrets_result:
  assumes "cstat (fst s) = (st, d, u, r, c)"
  shows "wpS (derive_handshake_secrets N alg dhe) (\<lambda>_ t. cstat (fst t) = (st, d, u, None, c)) (\<lambda>e t. True) s"
proof -
  have last: "wpS (retS secrets) (\<lambda>_ t. cstat (fst t) = (st, d, u, None, c)) (\<lambda>e t. True) t"
    if "cstat (fst t) = (st, d, u, None, c)" for secrets :: handshake_secrets and t :: "'a client_session \<times> 'b"
    using that by (simp add: wp)
  show ?thesis
    unfolding derive_handshake_secrets_def Let_def wpS_bindS [of "askS _"] wpS_askS prod.case wpS_seq_upd
    by (intro wpS_bind_view [where v = cstat] cstat_intros last) (use assms in \<open>simp_all add: cstat_def\<close>)
qed

lemma parameters_psk: "server_hello_parameters alg r sh = Inr (share, psk) \<Longrightarrow> psk \<longrightarrow> r \<noteq> None"
  by (auto simp: server_hello_parameters_def server_psk_selected_def Let_def and_then_eq_Inr split: if_splits option.splits)

lemma accept_result:
  assumes "cstat (fst s) = (st, d, u, r, c)"
  shows "wpS (accept_server_hello N K alg sh raw)
    (\<lambda>_ t. \<exists>secrets psk. cstat (fst t) = (ExpectEncryptedExtensions secrets, d, psk, None, c) \<and> (psk \<longrightarrow> r \<noteq> None)) (\<lambda>e t. True) s"
proof (cases "server_hello_parameters alg r sh")
  case (Inl e)
  have "ch_resumption (cs_handshake (fst s)) = r" using assms by (simp add: cstat_def)
  with Inl show ?thesis unfolding accept_server_hello_def by (simp add: wpS_bindS wpS_askS wpS_tryS)
next
  case (Inr x)
  obtain share psk where x: "x = (share, psk)" by (cases x)
  let ?Q = "\<lambda>_ t. \<exists>secrets psk. cstat (fst t) = (ExpectEncryptedExtensions secrets, d, psk, None, c) \<and> (psk \<longrightarrow> r \<noteq> None)"
  have taken: "ch_resumption (cs_handshake (fst s)) = r" using assms by (simp add: cstat_def)
  have psk: "psk \<longrightarrow> r \<noteq> None" using parameters_psk Inr x by blast
  have last: "wpS (bindS (askS client_suite_of) (\<lambda>suite.
     seqS (emitS K suite (EvKeysReady HandshakeEpoch (hx_server_traffic secrets) (hx_client_traffic secrets)))
     (updS (client_set_state (ExpectEncryptedExtensions secrets))))) ?Q (\<lambda>e t. True) t"
    if "cstat (fst t) = (st, d, psk, None, c)" for secrets and t :: "'a client_session \<times> 'b"
    using that psk
    by (intro wpS_views keeps_basic) (auto simp: wp cstat_def client_set_state_def)
  have derive: "wpS (bindS (derive_handshake_secrets N alg dhe) (\<lambda>secrets. bindS (askS client_suite_of) (\<lambda>suite.
     seqS (emitS K suite (EvKeysReady HandshakeEpoch (hx_server_traffic secrets) (hx_client_traffic secrets)))
     (updS (client_set_state (ExpectEncryptedExtensions secrets)))))) ?Q (\<lambda>e t. True) t"
    if "cstat (fst t) = (st, d, psk, r, c)" for dhe and t :: "'a client_session \<times> 'b"
    unfolding wpS_bindS [of "derive_handshake_secrets N alg dhe"] by (rule wpS_mono [OF derive_secrets_result [OF that]]) (rule last, simp_all)
  have start: "cstat (client_absorb raw (fst s\<lparr>cs_handshake := (cs_handshake (fst s))\<lparr>ch_psk_used := psk\<rparr>\<rparr>)) = (st, d, psk, r, c)"
    using assms by (simp add: cstat_def client_absorb_def)
  show ?thesis
    unfolding accept_server_hello_def wpS_bindS [of "askS _"] wpS_bindS [of "tryS _ _"] wpS_askS wpS_tryS taken Inr x sum.case prod.case wpS_seq_upd
    by (intro wpS_seq_view [where v = cstat] wpS_bind_view [where v = cstat, OF keeps_agree] keeps_basic derive) (use start in simp_all)
qed

lemma server_hello_step:
  assumes "client_inv (fst s)" and "ch_state (cs_handshake (fst s)) = ExpectServerHello"
  shows "wpS (handle_server_hello N K p sh raw)
    (\<lambda>_ t. policy_step p (fst s) PlaintextEpoch (RServerHello sh) (fst t) \<and> client_inv (fst t)) (\<lambda>e t. True) s"
proof -
  obtain d u r c where s: "cstat (fst s) = (ExpectServerHello, d, u, r, c)" using assms(2) by (simp add: cstat_def)
  then have c: "c = None" using assms(1) by (simp add: client_inv_def)
  let ?Q = "\<lambda>_ t. policy_step p (fst s) PlaintextEpoch (RServerHello sh) (fst t) \<and> client_inv (fst t)"
  have retry: "wpS (handle_hello_retry_request N K p sh raw) ?Q (\<lambda>e t. True) t"
    if "cstat (fst t) = cstat (fst s)" "shr_random sh = HELLO_RETRY_REQUEST_RANDOM" for t :: "'a client_session \<times> 'b"
    by (rule wpS_mono [OF retry_result [of t ExpectServerHello d u r c]])
      (use that s c in \<open>auto simp: cphase_def client_inv_def intro!: client_step.ServerRetry\<close>)
  have accept: "wpS (accept_server_hello N K alg sh raw) ?Q (\<lambda>e t. True) t"
    if "cstat (fst t) = cstat (fst s)" "shr_random sh \<noteq> HELLO_RETRY_REQUEST_RANDOM" for alg and t :: "'a client_session \<times> 'b"
    by (rule wpS_mono [OF accept_result [of t ExpectServerHello d u r c]])
      (use that s c in \<open>auto simp: cphase_def client_inv_def intro!: client_step.ServerHello\<close>)
  show ?thesis
    unfolding handle_server_hello_def
    by (intro wpS_views keeps_basic keeps_select_suite)
      (use retry accept in auto)
qed

subsection \<open>The encrypted part of the server's flight\<close>

lemma extensions_step:
  assumes "client_inv s" and "ch_state (cs_handshake s) = ExpectEncryptedExtensions secrets" and "t = (client_set_state ClientFailed s, k)"
  shows "wpS (handle_encrypted_extensions N K p ee raw secrets)
    (\<lambda>_ t. policy_step p s HandshakeEpoch (REncryptedExtensions ee) (fst t) \<and> client_inv (fst t)) (\<lambda>e t. True) t"
proof -
  obtain d u r c where s: "cstat s = (ExpectEncryptedExtensions secrets, d, u, r, c)" using assms(2) by (simp add: cstat_def)
  then have c: "c = None" and t: "cstat (fst t) = (ClientFailed, d, u, r, c)"
    using assms by (simp_all add: client_inv_def cstat_def client_set_state_def)
  have last: "wpS (updS (\<lambda>s. client_set_state
      (if ch_psk_used (cs_handshake s) then ExpectServerFinished secrets else ExpectCertificate secrets) s))
    (\<lambda>_ t. policy_step p s HandshakeEpoch (REncryptedExtensions ee) (fst t) \<and> client_inv (fst t)) (\<lambda>e t. True) w"
    if "cstat (fst w) = (ClientFailed, d, u, r, None)" for w :: "'a client_session \<times> 'b"
  proof -
    have u: "ch_psk_used (cs_handshake (fst w)) = u" and w: "ch_hrr_done (cs_handshake (fst w)) = d"
      "ch_resumption (cs_handshake (fst w)) = r" "cs_certificate_response (fst w) = None" using that by (simp_all add: cstat_def)
    show ?thesis
      using s c by (cases u) (auto simp: wpS_updS u w cphase_def client_inv_def intro: client_step.ResumedExtensions client_step.FullExtensions)
  qed
  show ?thesis
    unfolding handle_encrypted_extensions_def Let_def
    by (intro wpS_views cstat_intros cstat_updates cstat_record last) (use t c in simp_all)
qed

lemma request_step:
  assumes "client_inv s" and "ch_state (cs_handshake s) = ExpectCertificate secrets"
  shows "wpS (handle_certificate_request p cr raw)
    (\<lambda>_ t. policy_step p s HandshakeEpoch (RCertificateRequest cr) (fst t) \<and> client_inv (fst t)) (\<lambda>e t. True) (s, k)"
  using assms unfolding handle_certificate_request_def
  by (auto simp: wp client_inv_def cphase_def cstat_def client_absorb_def intro!: client_step.Request split: sum.split)

text \<open>A key that the policy trusts for a certificate message, and the proof that the server holds it.\<close>

definition trusted_key :: "('x, 'k) client_env \<Rightarrow> policy \<Rightarrow> certificate_ref \<Rightarrow> u64 \<Rightarrow> leaf_key \<Rightarrow> bool" where
  "trusted_key N p c now_ms key \<longleftrightarrow>
     (case tp_verifier (policy_template p) of
        VerifierRawPublicKey expected \<Rightarrow> check_pinned_key N expected c = Inr PinnedEd25519 \<and> key = LkEd25519 expected
      | VerifierX509Store roots hostname _ \<Rightarrow> validated_leaf N roots hostname (unix_from_secs (now_ms div 1000)) c = Inr key
      | VerifierX509 _ _ _ \<Rightarrow> False)"

definition server_proved :: "('x, 'k) client_env \<Rightarrow> policy \<Rightarrow> 'x client_session \<Rightarrow> leaf_key \<Rightarrow> certificate_verify_ref \<Rightarrow> bool" where
  "server_proved N p s key cv \<longleftrightarrow>
     offered_sig_scheme p (cvr_algorithm cv) \<and>
     (\<exists>alg h msg. client_hash_alg (cs_application s) = Inr alg \<and>
        transcript_hash (cn_crypto N) alg (ch_transcript (cs_handshake s)) = Inr h \<and>
        certificate_verify_message (cn_ci8 N) (as_slice h) True = Inr msg \<and>
        leaf_key_verify (cn_verify N) key (cvr_algorithm cv) msg (cvr_signature cv) = Inr ())"

definition finished_matches :: "('x, 'k) client_env \<Rightarrow> 'x client_session \<Rightarrow> bytes \<Rightarrow> bool" where
  "finished_matches N s f \<longleftrightarrow>
     (\<exists>secrets alg h expected. ch_state (cs_handshake s) = ExpectServerFinished secrets \<and>
        client_hash_alg (cs_application s) = Inr alg \<and> transcript_hash (cn_crypto N) alg (ch_transcript (cs_handshake s)) = Inr h \<and>
        finished_verify_data (cn_crypto N) alg (as_slice (hx_server_traffic secrets)) (as_slice h) = Inr expected \<and>
        verify_data_ct_eq expected f)"

lemma leaf_key_raw_roundtrip:
  "leaf_key_from_raw kind raw = Inr key \<Longrightarrow> leaf_key_from_raw (leaf_key_kind_of key) (leaf_key_raw key) = Inr key"
  by (cases kind) (auto simp: leaf_key_from_raw_def split: if_split_asm)

lemma x509_key_roundtrip:
  "leaf_key_from_x509_spki spki = Inr key \<Longrightarrow> leaf_key_from_raw (leaf_key_kind_of key) (leaf_key_raw key) = Inr key"
  unfolding leaf_key_from_x509_spki_def
  by (cases "spki_algorithm spki") (auto intro: leaf_key_raw_roundtrip split: named_curve.splits)

lemma pinned_key:
  assumes "check_pinned_key N expected cert1 = Inr leaf"
  shows "leaf = PinnedEd25519 \<and> leaf_key_from_raw KindEd25519 expected = Inr (LkEd25519 expected)"
proof -
  obtain entry :: certificate_entry_ref and key where k: "leaf_key_from_spki (cer_cert_data entry) = Inr key"
    "(case key of LkEd25519 server_pk \<Rightarrow> if server_pk \<noteq> expected then Inl BadCertificate else Inr PinnedEd25519 | _ \<Rightarrow> Inl BadCertificate) = Inr leaf"
    using assms by (auto simp: check_pinned_key_def and_then_eq_Inr simp del: leaf_key.case split: if_split_asm)
  then have e: "leaf = PinnedEd25519" "leaf_key_from_spki (cer_cert_data entry) = Inr (LkEd25519 expected)"
    by (cases key; simp split: if_split_asm)+
  obtain spki :: subject_public_key_info where "(case spki_algorithm spki of PkEd25519 \<Rightarrow> leaf_key_from_x509_spki spki
      | PkEc _ \<Rightarrow> leaf_key_from_x509_spki spki | _ \<Rightarrow> Inl SpkiErr) = Inr (LkEd25519 expected)"
    using e(2) unfolding leaf_key_from_spki_def and_then_eq_Inr by blast
  then have "leaf_key_from_x509_spki spki = Inr (LkEd25519 expected)" by (cases "spki_algorithm spki") simp_all
  from x509_key_roundtrip [OF this] e(1) show ?thesis by simp
qed

lemma certificate_result:
  assumes "cstat s = (st, d, u, r, c)" and "bb_base (cs_flight s) = 0"
  shows "wpS (handle_certificate N p cert1 raw secrets)
    (\<lambda>_ t. \<exists>leaf key. cstat (fst t) = (ExpectCertificateVerify secrets leaf, d, u, r, c) \<and>
       trusted_key N p cert1 (fst (cn_clock N k)) key \<and> server_key p leaf (fst t) = Inr key) (\<lambda>e t. True) (s, k)"
proof (cases "tp_verifier (policy_template p)")
  case (VerifierRawPublicKey expected)
  show ?thesis
  proof (cases "check_pinned_key N expected cert1")
    case (Inr leaf)
    with pinned_key [OF Inr] VerifierRawPublicKey assms show ?thesis
      by (simp add: handle_certificate_def wp trusted_key_def server_key_def cstat_def client_absorb_def client_set_state_def)
  qed (simp add: handle_certificate_def wp VerifierRawPublicKey)
next
  case (VerifierX509 anchors hostname limit)
  then show ?thesis by (simp add: handle_certificate_def wp)
next
  case (VerifierX509Store roots hostname limit)
  obtain now k' where clock: "cn_clock N k = (now, k')" by (cases "cn_clock N k")
  show ?thesis
  proof (cases "validated_leaf N roots hostname (unix_from_secs (now div 1000)) cert1")
    case (Inl e)
    with VerifierX509Store clock show ?thesis by (simp add: handle_certificate_def wp client_clockS_def)
  next
    case (Inr key)
    then obtain spki where "leaf_key_from_x509_spki spki = Inr key"
      by (auto simp: validated_leaf_def and_then_eq_Inr split: if_splits)
    note key = x509_key_roundtrip [OF this]
    have slice: "bb_as_slice b = leaf_key_raw key" if "bb_try_extend (leaf_key_raw key) (bb_clear (cs_flight s)) = (Inr v, b)" for b v
      using that assms(2) by (auto simp: bb_try_extend_def bb_as_slice_def bb_clear_def split: if_splits)
    show ?thesis
      using VerifierX509Store clock Inr key slice assms(1)
      by (auto simp: handle_certificate_def wp client_clockS_def trusted_key_def server_key_def cstat_def client_absorb_def
          client_set_state_def split: prod.split sum.split)
  qed
qed

lemma certificate_verify_result:
  assumes "cstat s = (st, d, u, r, c)"
  shows "wpS (handle_certificate_verify N p cv raw secrets leaf)
    (\<lambda>_ t. cstat (fst t) = (ExpectServerFinished secrets, d, u, r, c) \<and>
       (\<exists>key. server_key p leaf s = Inr key \<and> server_proved N p s key cv)) (\<lambda>e t. True) (client_set_state ClientFailed s, k)"
proof -
  have "server_key p leaf (client_set_state ClientFailed s) = server_key p leaf s"
    by (simp add: server_key_def client_set_state_def split: server_leaf.split verifier.split)
  with assms show ?thesis
    by (auto simp: handle_certificate_verify_def wp client_hashS_def server_proved_def cstat_def client_absorb_def client_set_state_def
        split: sum.split)
qed

subsection \<open>Finished\<close>

lemma send_finished_result:
  assumes "cstat (fst s) = (st, d, u, r, c)"
  shows "wpS (send_client_finished N K p alg master traffic) (\<lambda>_ t. cstat (fst t) = (st, d, u, r, None)) (\<lambda>e t. True) s"
proof -
  let ?Q = "\<lambda>_ t. cstat (fst t) = (st, d, u, r, None)"
  have last: "wpS (updS (\<lambda>s. s\<lparr>cs_application := (cs_application s)\<lparr>cp_resumption_master := Some rms\<rparr>\<rparr>)) ?Q (\<lambda>e t. True) t"
    if "cstat (fst t) = (st, d, u, r, None)" for rms and t :: "'a client_session \<times> 'b"
    using that by (simp add: wp)
  have rest: "wpS (seqS (case response of None \<Rightarrow> retS () | Some response \<Rightarrow> append_flight N p alg response) (
       bindS (protS (client_hashS (cn_crypto N) alg)) (\<lambda>h_pre_cf.
       bindS (tryS error_of_hkdf (finished_verify_data (cn_crypto N) alg (as_slice traffic) (as_slice h_pre_cf))) (\<lambda>cf_data.
       seqS (client_send_message (frame_encode_finished E_bb (as_slice cf_data))) (
       bindS (protS (client_hashS (cn_crypto N) alg)) (\<lambda>h_cf.
       bindS (tryS error_of_hkdf (resumption_master_secret (cn_crypto N) (as_slice h_cf) master)) (\<lambda>rms.
       updS (\<lambda>s. s\<lparr>cs_application := (cs_application s)\<lparr>cp_resumption_master := Some rms\<rparr>\<rparr>))))))))
      ?Q (\<lambda>e t. True) t"
    if "cstat (fst t) = (st, d, u, r, None)" for response and t :: "'a client_session \<times> 'b"
    using that by (intro wpS_views cstat_intros keeps_append_flight keeps_client_send_message last) simp_all
  have body: "wpS (bindS (askS cs_certificate_response) (\<lambda>response. seqS (updS (\<lambda>s. s\<lparr>cs_certificate_response := None\<rparr>)) (
       seqS (case response of None \<Rightarrow> retS () | Some response \<Rightarrow> append_flight N p alg response) (
       bindS (protS (client_hashS (cn_crypto N) alg)) (\<lambda>h_pre_cf.
       bindS (tryS error_of_hkdf (finished_verify_data (cn_crypto N) alg (as_slice traffic) (as_slice h_pre_cf))) (\<lambda>cf_data.
       seqS (client_send_message (frame_encode_finished E_bb (as_slice cf_data))) (
       bindS (protS (client_hashS (cn_crypto N) alg)) (\<lambda>h_cf.
       bindS (tryS error_of_hkdf (resumption_master_secret (cn_crypto N) (as_slice h_cf) master)) (\<lambda>rms.
       updS (\<lambda>s. s\<lparr>cs_application := (cs_application s)\<lparr>cp_resumption_master := Some rms\<rparr>\<rparr>))))))))))
      ?Q (\<lambda>e t. True) t"
    if "cstat (fst t) = cstat (fst s)" for t :: "'a client_session \<times> 'b"
    unfolding wpS_bindS [of "askS _"] wpS_askS wpS_seq_upd by (rule rest) (use that assms in \<open>simp add: cstat_def\<close>)
  show ?thesis
    unfolding send_client_finished_def Let_def
    by (rule wpS_bind_view [where v = cstat, OF keeps_basic(7)],
        rule wpS_with_flight_view [where v = cstat and P = "\<lambda>v. v = (st, d, u, r, None)"], simp, rule body, simp)
qed

lemma finished_result:
  assumes "cstat (fst s) = (st, d, u, r, c)"
  shows "wpS (handle_server_finished N K p sf raw secrets)
    (\<lambda>_ t. cstat (fst t) = (ClientDone, d, u, r, None)) (\<lambda>e t. True) s"
proof -
  have last: "wpS (bindS (askS client_suite_of) (\<lambda>suite. seqS (emitS K suite EvDone) (updS (client_set_state ClientDone))))
      (\<lambda>_ t. cstat (fst t) = (ClientDone, d, u, r, None)) (\<lambda>e t. True) t"
    if "cstat (fst t) = (st, d, u, r, None)" for t :: "'a client_session \<times> 'b"
    using that by (intro wpS_views keeps_basic) (auto simp: wp cstat_def client_set_state_def)
  have send: "wpS (seqS (send_client_finished N K p alg master traffic)
        (bindS (askS client_suite_of) (\<lambda>suite. seqS (emitS K suite EvDone) (updS (client_set_state ClientDone)))))
      (\<lambda>_ t. cstat (fst t) = (ClientDone, d, u, r, None)) (\<lambda>e t. True) t"
    if "cstat (fst t) = cstat (fst s)" for alg master traffic and t :: "'a client_session \<times> 'b"
    unfolding wpS_seqS by (rule wpS_mono [OF send_finished_result [of t st d u r c]]) (use that assms last in auto)
  show ?thesis
    unfolding handle_server_finished_def
    by (intro wpS_views cstat_intros cstat_updates keeps_verify_finished keeps_activate_client keeps_end_early_data send) simp_all
qed

lemma finished_mac:
  assumes "ch_state (cs_handshake s) = ExpectServerFinished secrets"
  shows "wpS (handle_server_finished N K p sf raw secrets) (\<lambda>_ t. finished_matches N s sf) (\<lambda>e t. True) (client_set_state ClientFailed s, k)"
proof -
  have "wpS (protS (verify_server_finished N sf secrets)) (\<lambda>_ t. finished_matches N s sf) (\<lambda>e t. True) (client_set_state ClientFailed s, k)"
    using assms
    by (auto simp: verify_server_finished_def wp client_hashS_def finished_matches_def client_set_state_def split: sum.split)
  then show ?thesis
    unfolding handle_server_finished_def by (rule wpS_bind_result) (rule wpS_any)
qed

subsection \<open>Dispatch\<close>

text \<open>What has been established when a message is accepted.\<close>

definition client_checked :: "('x, 'k) client_env \<Rightarrow> policy \<Rightarrow> 'x client_session \<Rightarrow> 'k \<Rightarrow> message_ref \<Rightarrow> bool" where
  "client_checked N p s k msg =
     (case msg of
        RCertificate c \<Rightarrow> \<exists>key. trusted_key N p c (fst (cn_clock N k)) key
      | RCertificateVerify cv \<Rightarrow>
          \<exists>secrets leaf key. ch_state (cs_handshake s) = ExpectCertificateVerify secrets leaf \<and>
            server_key p leaf s = Inr key \<and> server_proved N p s key cv
      | RFinished f \<Rightarrow> finished_matches N s f
      | _ \<Rightarrow> True)"

definition client_ok :: "'x client_session \<Rightarrow> bool" where
  "client_ok s \<longleftrightarrow> client_inv s \<and> bb_base (cs_flight s) = 0"

lemma set_state_again: "client_set_state st (client_set_state st' s) = client_set_state st s"
  by (simp add: client_set_state_def)

lemma set_state_same: "ch_state (cs_handshake s) = st \<Longrightarrow> client_set_state st s = s"
  by (auto simp: client_set_state_def)

lemma certificate_step:
  assumes "client_inv s" and "ch_state (cs_handshake s) = ExpectCertificate secrets" and "bb_base (cs_flight s) = 0"
  shows "wpS (handle_certificate N p c raw secrets)
    (\<lambda>_ t. policy_step p s HandshakeEpoch (RCertificate c) (fst t) \<and> client_inv (fst t) \<and> client_checked N p s k (RCertificate c))
    (\<lambda>e t. True) (client_set_state ClientFailed s, k)"
  by (rule wpS_mono [OF certificate_result [of _ ClientFailed "ch_hrr_done (cs_handshake s)" "ch_psk_used (cs_handshake s)"
          "ch_resumption (cs_handshake s)" "cs_certificate_response s"]])
    (use assms in \<open>auto simp: client_set_state_def cstat_def cphase_def client_inv_def client_checked_def intro: client_step.ServerCertificate\<close>)

lemma certificate_verify_step:
  assumes "client_inv s" and "ch_state (cs_handshake s) = ExpectCertificateVerify secrets leaf"
  shows "wpS (handle_certificate_verify N p cv raw secrets leaf)
    (\<lambda>_ t. policy_step p s HandshakeEpoch (RCertificateVerify cv) (fst t) \<and> client_inv (fst t) \<and>
       client_checked N p s k (RCertificateVerify cv))
    (\<lambda>e t. True) (client_set_state ClientFailed s, k)"
  by (rule wpS_mono [OF certificate_verify_result [of s "ExpectCertificateVerify secrets leaf"]])
    (use assms in \<open>auto simp: cstat_def cphase_def client_inv_def client_checked_def intro: client_step.ServerVerify\<close>)

lemma wpS_both:
  "wpS m Q (\<lambda>e t. True) s \<Longrightarrow> wpS m Q' (\<lambda>e t. True) s \<Longrightarrow> wpS m (\<lambda>x t. Q x t \<and> Q' x t) (\<lambda>e t. True) s"
  by (simp add: wpS_def split: prod.splits sum.splits)

lemma server_finished_step:
  assumes "ch_state (cs_handshake s) = ExpectServerFinished secrets"
  shows "wpS (handle_server_finished N K p sf raw secrets)
    (\<lambda>_ t. policy_step p s HandshakeEpoch (RFinished sf) (fst t) \<and> client_inv (fst t) \<and> client_checked N p s k (RFinished sf))
    (\<lambda>e t. True) (client_set_state ClientFailed s, k)"
  by (rule wpS_mono [OF wpS_both [OF finished_mac [OF assms] finished_result [of _ ClientFailed "ch_hrr_done (cs_handshake s)"
          "ch_psk_used (cs_handshake s)" "ch_resumption (cs_handshake s)" "cs_certificate_response s"]]])
    (use assms in \<open>auto simp: cstat_def client_set_state_def cphase_def client_inv_def client_checked_def intro: client_step.ServerFinish\<close>)

lemma client_key_update_step:
  assumes "ch_state (cs_handshake s) = ClientDone"
  shows "wpS (client_handle_key_update N K p ku)
    (\<lambda>_ t. policy_step p s ApplicationEpoch (RKeyUpdate ku) (fst t) \<and> client_inv (fst t)) (\<lambda>e t. True) (s, k)"
proof (cases "allows_tls_key_update (tp_transport_mode (policy_template p))")
  case True
  have "cstat (fst t) = cstat s" if "client_handle_key_update N K p ku (s, k) = (x, t)" for x t
    using keepsD [OF keeps_client_key_update that] by simp
  moreover have "tp_transport_mode (policy_template p) = Tls"
    using True by (cases "tp_transport_mode (policy_template p)") (simp_all add: allows_tls_key_update_def)
  ultimately show ?thesis
    using assms by (auto simp: wpS_def cphase_def client_inv_def cstat_def intro!: client_step.ServerUpdate
        split: prod.split sum.split)
qed (simp add: client_handle_key_update_def wp)

lemma session_ticket_step:
  assumes "ch_state (cs_handshake s) = ClientDone"
  shows "wpS (handle_new_session_ticket K p master suite alpn now nst)
    (\<lambda>_ t. policy_step p s ApplicationEpoch (RNewSessionTicket nst) (fst t) \<and> client_inv (fst t)) (\<lambda>e t. True) (s, k)"
proof -
  have "cstat (fst t) = cstat s" if "handle_new_session_ticket K p master suite alpn now nst (s, k) = (x, t)" for x t
    using keepsD [OF keeps_new_session_ticket that] by simp
  with assms show ?thesis
    by (auto simp: wpS_def cphase_def client_inv_def cstat_def intro!: client_step.ServerTicket split: prod.split sum.split)
qed

lemma wpS_clock: "wpS (client_clockS N) Q E (s, k) = (case cn_clock N k of (now, k') \<Rightarrow> Q now (s, k'))"
  by (simp add: client_clockS_def wp split: prod.split)

lemma client_dispatch_step:
  assumes "client_inv s" and "bb_base (cs_flight s) = 0"
  shows "wpS (client_dispatch N K p ep msg raw)
    (\<lambda>_ t. policy_step p s ep msg (fst t) \<and> client_inv (fst t) \<and> client_checked N p s k msg) (\<lambda>e t. True) (s, k)"
proof -
  note run = client_dispatch_def wpS_bindS wpS_askS wpS_seq_upd wpS_basic wpS_protS set_state_again set_state_same
  have other: "client_checked N p s k msg" if "\<nexists>c. msg = RCertificate c" "\<nexists>cv. msg = RCertificateVerify cv" "\<nexists>f. msg = RFinished f"
    using that by (cases msg) (auto simp: client_checked_def)
  show ?thesis
  proof (cases "ch_state (cs_handshake s)")
    case ExpectServerHello
    then show ?thesis
      using server_hello_step [of "(s, k)" N K p _ raw] assms other by (auto simp: run split: message_ref.split)
  next
    case (ExpectEncryptedExtensions secrets)
    then show ?thesis
      using extensions_step [OF assms(1) _ refl, of secrets N K p _ raw k] other by (auto simp: run split: message_ref.split)
  next
    case (ExpectCertificate secrets)
    then show ?thesis
      using request_step [OF assms(1), of secrets p _ raw k] certificate_step [OF assms(1) _ assms(2), of secrets N p _ raw k] other
      by (auto simp: run split: message_ref.split)
  next
    case (ExpectCertificateVerify secrets leaf)
    then show ?thesis
      using certificate_verify_step [OF assms(1), of secrets leaf N p _ raw k] by (auto simp: run split: message_ref.split)
  next
    case (ExpectServerFinished secrets)
    then show ?thesis
      using server_finished_step [of s secrets N K p _ raw k] by (auto simp: run split: message_ref.split)
  next
    case ClientDone
    then show ?thesis
      using client_key_update_step [of s N K p _ k] session_ticket_step [of s K p] other
      by (auto simp: run wpS_clock split: message_ref.split)
  qed (auto simp: run split: message_ref.split client_state.split)
qed

subsection \<open>Runs\<close>

lemma client_message_step:
  assumes "client_ok s" and "client_message N K p ep raw (s, k) = (Inr (), (s', k'))"
  shows "\<exists>msg. message_ref_decode (cn_ci16 N) raw = Inr msg \<and> client_ok s' \<and> policy_step p s ep msg s' \<and> client_checked N p s k msg"
proof -
  obtain msg where m: "message_ref_decode (cn_ci16 N) raw = Inr msg" "client_dispatch N K p ep msg raw (s, k) = (Inr (), (s', k'))"
    using assms(2) by (auto simp: client_message_def eff_defs tryS_def map_err_def split: sum.splits)
  have "bb_base (cs_flight s') = 0"
    using keepsD [OF own_message assms(2)] assms(1) by (simp add: own_def extent_def client_ok_def)
  with assms(1) m show ?thesis
    using wpS_result [OF client_dispatch_step m(2)] by (auto simp: client_ok_def)
qed

interpretation cli: handshake_machine "message_ref_decode (cn_ci16 N)" "client_message N K p" client_ok
    "\<lambda>s ep msg s'. policy_step p s ep msg s'" "client_checked N p" for N K p
  by unfold_locales (drule (1) client_message_step, blast)

text \<open>The key a certificate message leaves for the CertificateVerify is the one the policy trusts for it.\<close>

lemma certificate_message:
  assumes "client_ok u" and "message_ref_decode (cn_ci16 N) raw = Inr (RCertificate c)"
    and "client_message N K p ep raw (u, k) = (Inr (), (t, k'))"
  shows "\<exists>secrets leaf key. ch_state (cs_handshake t) = ExpectCertificateVerify secrets leaf \<and>
    trusted_key N p c (fst (cn_clock N k)) key \<and> server_key p leaf t = Inr key"
proof -
  have run: "client_dispatch N K p ep (RCertificate c) raw (u, k) = (Inr (), (t, k'))"
    using assms(2,3) by (simp add: client_message_def eff_defs tryS_def)
  have base: "bb_base (cs_flight (client_set_state ClientFailed u)) = 0"
    using assms(1) by (simp add: client_ok_def client_set_state_def)
  let ?Q = "\<lambda>_ t. \<exists>secrets leaf key. ch_state (cs_handshake (fst t)) = ExpectCertificateVerify secrets leaf \<and>
    trusted_key N p c (fst (cn_clock N k)) key \<and> server_key p leaf (fst t) = Inr key"
  have "wpS (handle_certificate N p c raw secrets) ?Q (\<lambda>e t. True) (client_set_state ClientFailed u, k)" for secrets
    by (rule wpS_mono [OF certificate_result [OF cstat_set_state base]]) (auto simp: cstat_def)
  then have "wpS (client_dispatch N K p ep (RCertificate c) raw) ?Q (\<lambda>e t. True) (u, k)"
    unfolding client_dispatch_def wpS_bindS [of "askS _"] wpS_askS wpS_seq_upd
    by (auto simp: wpS_basic wpS_protS split: client_state.split)
  from wpS_result [OF this run] show ?thesis by simp
qed

definition before_certificate :: "client_phase \<Rightarrow> bool" where
  "before_certificate ph = (case ph of AwaitServerHello _ _ \<Rightarrow> True | AwaitExtensions _ \<Rightarrow> True | AwaitServerCertificate _ \<Rightarrow> True | _ \<Rightarrow> False)"

text \<open>The phases of a session whose server has not proved its key: also those of a resumed one, which needs no proof.\<close>

definition unproved :: "client_phase \<Rightarrow> bool" where
  "unproved ph \<longleftrightarrow> ph \<noteq> AwaitServerFinished False \<and> ph \<noteq> ClientConnected False"

lemma unproved_step: "client_step m ph ep msg ph' \<Longrightarrow> unproved ph \<Longrightarrow> unproved ph' \<or> (\<exists>cv. msg = RCertificateVerify cv)"
  by (erule client_step.cases) (auto simp: unproved_def)

lemma unfinished_step:
  "client_step m ph ep msg ph' \<Longrightarrow> (\<nexists>r. ph = ClientConnected r) \<Longrightarrow> (\<nexists>r. ph' = ClientConnected r) \<or> (\<exists>f. msg = RFinished f)"
  by (erule client_step.cases) auto

lemma certificate_before_verify: "client_step m ph ep msg AwaitServerVerify \<Longrightarrow> \<exists>c. msg = RCertificate c"
  by (erule client_step.cases) auto

lemma start_result:
  assumes "cstat (fst s) = (st, d, u, r, c)"
  shows "wpS (client_start N K p params) (\<lambda>_ t. \<exists>r'. cstat (fst t) = (ExpectServerHello, d, u, r', c)) (\<lambda>e t. True) s"
proof -
  let ?Q = "\<lambda>_ t. \<exists>r'. cstat (fst t) = (ExpectServerHello, d, u, r', c)"
  have last: "wpS (updS (client_set_state ExpectServerHello)) ?Q (\<lambda>e t. True) t"
    if "cstat (fst t) = (st, d, u, r', c)" for r' and t :: "'a client_session \<times> 'b"
    using that by (simp add: wp cstat_def client_set_state_def)
  have announce: "wpS (seqS (announce_early_keys N K p early_data) (updS (client_set_state ExpectServerHello))) ?Q (\<lambda>e t. True) t"
    if "cstat (fst t) = (st, d, u, r', c)" for r' early_data and t :: "'a client_session \<times> 'b"
    using that by (intro wpS_seq_view [where v = cstat] keeps_announce last) simp_all
  have after: "cstat (s\<lparr>cs_handshake := (cs_handshake s)\<lparr>ch_resumption := r'\<rparr>\<rparr>) = (\<lambda>(st, d, u, r, c). (st, d, u, r', c)) (cstat s)"
    for r' and s :: "'a client_session" by (simp add: cstat_def)
  have hello: "wpS (seqS (send_hello N K t params r' q (\<lambda>s. s\<lparr>cs_handshake := (cs_handshake s)\<lparr>ch_resumption := r'\<rparr>\<rparr>))
      (seqS (announce_early_keys N K p early_data) (updS (client_set_state ExpectServerHello)))) ?Q (\<lambda>e t. True) t1"
    if "cstat (fst t1) = (st, d, u, None, c)" for t params r' q early_data and t1 :: "'a client_session \<times> 'b"
    unfolding wpS_seqS [of "send_hello N K t params r' q _"]
    by (rule wpS_mono [OF send_hello_result [where f = "\<lambda>(st, d, u, r, c). (st, d, u, r', c)"]])
      (use that after announce in auto)
  show ?thesis
    unfolding client_start_def Let_def case_prod_beta
    by (rule wpS_seq_view [where v = cstat, OF keeps_draw], unfold wpS_bindS [of "askS _"] wpS_askS wpS_seq_upd,
        rule wpS_bind_view [where v = cstat, OF keeps_client_clock], unfold wpS_bindS [of "askS _"] wpS_askS wpS_seq_upd,
        rule wpS_bind_view [where v = cstat, OF keeps_generate], rule hello)
      (use assms in \<open>simp add: cstat_def\<close>)
qed

lemma fresh_client_ok:
  "bb_base (cw_flight storage) = 0 \<Longrightarrow> client_ok (core_session (core_new storage resumption early))"
  by (simp add: client_ok_def core_new_def client_inv_def cstat_def client_handshake_initial_def)

lemma client_start_ok:
  assumes "bb_base (cw_flight storage) = 0"
    and "client_start N K p params (core_session (core_new storage resumption early), k) = (Inr (), (s, k'))"
  shows "client_ok s \<and> (\<exists>offered. cphase s = AwaitServerHello False offered)"
proof -
  let ?s = "core_session (core_new storage resumption early)"
  have "cstat (fst (?s, k)) = (ClientInitial, False, False, resumption, None)"
    by (simp add: core_new_def cstat_def client_handshake_initial_def)
  then obtain r where "cstat s = (ExpectServerHello, False, False, r, None)"
    using wpS_result [OF start_result assms(2)] by fastforce
  moreover have "bb_base (cs_flight s) = 0"
    using keepsD [OF own_start assms(2)] assms(1) by (simp add: own_def extent_def core_new_def)
  ultimately show ?thesis by (simp add: client_ok_def client_inv_def cphase_def)
qed

subsection \<open>Properties\<close>

text \<open>
  C9.  The client's dispatch refines the TLS 1.3 client.  Every message that \<open>Drive::message\<close> of the client accepts
  decodes, and its processing is a step of the abstract machine: at most one HelloRetryRequest is answered, a
  session is resumed only on a ticket that was offered, a resumed session skips the certificate and no other does, a
  client certificate is requested at most once, key updates belong to TLS alone, and each message comes in
  its epoch.  An accepted Certificate carries a key the policy trusts, a CertificateVerify a signature by the key
  retained from it over the transcript so far, a Finished the MAC of the server's traffic secret.
\<close>

theorem client_refines:
  assumes "client_ok s" and "client_message N K p ep raw (s, k) = (Inr (), (s', k'))"
  shows "\<exists>msg. message_ref_decode (cn_ci16 N) raw = Inr msg \<and>
    client_step (tp_transport_mode (policy_template p)) (cphase s) ep msg (cphase s') \<and> client_ok s' \<and> client_checked N p s k msg"
  using client_message_step [OF assms] by blast

text \<open>
  C10.  Server authentication cannot be skipped.  A run of the client from before the server's certificate to the end of
  the handshake, on a session that did not resume a ticket, received a Certificate for which the policy
  trusts a key (the pinned one, or the leaf of a chain that validates for the hostname against the trust store at the clock's
  time), then a CertificateVerify that verifies under that very key over the transcript, and a Finished
  whose MAC matches.
\<close>

theorem server_authenticated:
  assumes "client_ok s" and "before_certificate (cphase s)"
    and "run_all (client_message N K p) msgs (s, k) = (Inr (), (s', k'))"
    and "client_is_done (cs_handshake s')" and "\<not> ch_psk_used (cs_handshake s')"
  shows "\<exists>u ku ep1 c key t kt ep2 cv v kv ep3 f.
    {((u, ku), ep1, RCertificate c), ((t, kt), ep2, RCertificateVerify cv), ((v, kv), ep3, RFinished f)} \<subseteq>
      set (run_trace (message_ref_decode (cn_ci16 N)) (client_message N K p) msgs (s, k)) \<and>
    trusted_key N p c (fst (cn_clock N ku)) key \<and> server_proved N p t key cv \<and> finished_matches N v f"
proof -
  let ?T = "set (run_trace (message_ref_decode (cn_ci16 N)) (client_message N K p) msgs (s, k))"
  have connected: "cphase s' = ClientConnected False" using assms(4,5) by (simp add: cphase_def cstat_def client_is_done_def)
  have start: "unproved (cphase s)" "\<nexists>r. cphase s = ClientConnected r" "cphase s \<noteq> AwaitServerVerify"
    using assms(2) by (auto simp: before_certificate_def unproved_def)
  obtain v kv ep3 f where f: "((v, kv), ep3, RFinished f) \<in> ?T" "client_checked N p v kv (RFinished f)"
    using cli.run_leaves [where before = "\<lambda>s. \<nexists>r. cphase s = ClientConnected r" and key_message = "\<lambda>msg. \<exists>f. msg = RFinished f",
        OF _ assms(3,1) start(2)] unfinished_step connected by blast
  obtain t kt ep2 cv where cv: "((t, kt), ep2, RCertificateVerify cv) \<in> ?T" "client_checked N p t kt (RCertificateVerify cv)"
    using cli.run_leaves [where before = "\<lambda>s. unproved (cphase s)" and key_message = "\<lambda>msg. \<exists>cv. msg = RCertificateVerify cv",
        OF _ assms(3,1) start(1)] unproved_step connected by (force simp: unproved_def)
  then obtain secrets leaf key where t: "ch_state (cs_handshake t) = ExpectCertificateVerify secrets leaf"
      "server_key p leaf t = Inr key" "server_proved N p t key cv"
    by (auto simp: client_checked_def)
  then have phase: "cphase t = AwaitServerVerify" by (simp add: cphase_def cstat_def)
  then have "(t, kt) \<noteq> (s, k)" using start(3) by auto
  then obtain u ku ep1 raw1 msg1 where u: "((u, ku), ep1, msg1) \<in> ?T" "client_ok u" "message_ref_decode (cn_ci16 N) raw1 = Inr msg1"
      "client_message N K p ep1 raw1 (u, ku) = (Inr (), (t, kt))"
    using cli.trace_pred [OF assms(3,1) cv(1)] by blast
  then obtain c where c: "msg1 = RCertificate c"
    using client_message_step [OF u(2,4)] certificate_before_verify phase by fastforce
  with certificate_message [OF u(2) _ u(4)] u(3) t(1,2) have "trusted_key N p c (fst (cn_clock N ku)) key" by auto
  with f cv(1) t(3) u(1) c show ?thesis
    by (fastforce simp: client_checked_def)
qed

text \<open>What is left of a client connection that failed.\<close>

definition client_wiped :: "'x client_core \<Rightarrow> bool" where
  "client_wiped c \<longleftrightarrow>
     client_is_failed (cs_handshake (core_session c)) \<and> ch_resumption (cs_handshake (core_session c)) = None \<and>
     cs_application (core_session c) = \<lparr>cp_traffic = TrafficEmpty, cp_resumption_master = None, cp_exporter_master = None\<rparr> \<and>
     cx_early_data (cs_extensions (core_session c)) = EarlyNotOffered \<and>
     bb_is_empty (cs_flight (core_session c)) \<and> bb_is_empty (rs_buf (core_reassembler c))"

lemma core_poison_wiped: "client_wiped (core_poison I c)"
  by (simp add: client_wiped_def core_poison_def client_poison_def client_is_failed_def client_zeroize_secrets_def traffic_clear_def
      reassembler_discard_def)

text \<open>
  C13.  Failure is final for the client too.  When a read fails, the core is marked failed; the ticket, the traffic,
  resumption and exporter secrets are gone, no early data is on offer and the buffers are empty.  From then on every start,
  read, framed read and key update is refused with \<open>ConnectionFailed\<close> and changes nothing, and no
  keying material can be exported.
\<close>

theorem client_failure_is_final:
  assumes "\<not> client_is_failed (cs_handshake (core_session c))" and "core_read_into N K p ep data (c, k) = (Inl e, (c', k'))"
  shows "client_wiped c' \<and>
    (\<forall>p ep data k. core_start_into N K p (c', k) = (Inl (Protocol ConnectionFailed), (c', k)) \<and>
       core_read_into N K p ep data (c', k) = (Inl (Protocol ConnectionFailed), (c', k)) \<and>
       core_read_framed_into N K p ep data (c', k) = (Inl (Protocol ConnectionFailed), (c', k))) \<and>
    (\<forall>A request k. client_updates_send_into N K A request (c', k) = (Inl (Protocol ConnectionFailed), (c', k))) \<and>
    (\<forall>A label context1 out. client_export_keying_material N \<lparr>cli_core = c', cli_authority = A\<rparr> label context1 out = Inl NotReady)"
proof -
  have w: "client_wiped c'"
    using assms core_poison_wiped by (auto simp: core_read_into_def split: prod.splits sum.splits)
  then have "client_is_failed (cs_handshake (core_session c'))" "cp_exporter_master (cs_application (core_session c')) = None"
    by (simp_all add: client_wiped_def)
  with w show ?thesis
    by (simp add: core_read_into_def core_start_into_def core_read_framed_into_def client_updates_send_into_def
        client_export_keying_material_def Let_def)
qed

text \<open>
  C17.  The session keeps its own flight storage.  Whatever a message or a start leads to, also when it fails half
  way, the extent of the session's flight afterwards is the one it had before: storage lent by the sink for a
  flight never stays with the session, and its own storage is never lost.
\<close>

theorem client_storage_kept:
  "bb_base (cs_flight (fst (snd (client_message N K p ep raw s)))) = bb_base (cs_flight (fst s)) \<and>
   bb_limit (cs_flight (fst (snd (client_message N K p ep raw s)))) = bb_limit (cs_flight (fst s)) \<and>
   bb_base (cs_flight (fst (snd (client_start N K p params s)))) = bb_base (cs_flight (fst s)) \<and>
   bb_limit (cs_flight (fst (snd (client_start N K p params s)))) = bb_limit (cs_flight (fst s))"
  using own_message [of N K p ep raw] own_start [of N K p params] by (cases s) (simp add: keeps_def own_def extent_def)

subsection \<open>A retry that selects SHA-384\<close>

definition transcript_of :: "'x client_session \<Rightarrow> transcript" where
  "transcript_of s = ch_transcript (cs_handshake s)"

lemma transcript_of_updates [simp]:
  "transcript_of (s\<lparr>cs_kx := x\<rparr>) = transcript_of s" "transcript_of (s\<lparr>cs_flight := b\<rparr>) = transcript_of s"
  "transcript_of (s\<lparr>cs_offer := offer\<rparr>) = transcript_of s" "transcript_of (lens_put client_flight b s) = transcript_of s"
  "transcript_of (s\<lparr>cs_handshake := (cs_handshake s)\<lparr>ch_resumption := r\<rparr>\<rparr>) = transcript_of s"
  by (simp_all add: transcript_of_def client_flight_def)

lemma keeps_transcript:
  "keeps transcript_of (generateS N grp)" "keeps transcript_of (request_encode N t params q)"
  by (simp_all add: keeps_def generateS_def request_encode_def split: prod.split)

lemma splice_sha384:
  assumes "transcript_holds t (Some Sha384) m"
  shows "\<exists>e. binder_splice C t psk bs slot = Inl e"
proof -
  have "transcript_holds (transcript_update (take (bs_prefix_end slot) bs) t) (Some Sha384) (m @ take (bs_prefix_end slot) bs)"
    using transcript_holds_update [OF assms] .
  then have "\<exists>e. transcript_hash C RESUMPTION_HASH (transcript_update (take (bs_prefix_end slot) bs) t) = Inl e"
    by (subst transcript_holds_hash) (auto simp: RESUMPTION_HASH_def)
  moreover have "transcript_fork t = t" by (simp add: transcript_fork_def)
  ultimately show ?thesis by (auto simp: binder_splice_def Let_def)
qed

lemma splice_binder_sha384:
  assumes "transcript_holds (transcript_of (fst s)) (Some Sha384) m"
  shows "wpS (splice_binder N (Some r) slot) (\<lambda>_ t. False) (\<lambda>e t. True) s"
proof (cases slot)
  case (Some b)
  obtain e where "binder_splice (cn_crypto N) (ch_transcript (cs_handshake (fst s))) (ar_psk r) (bb_as_slice (cs_flight (fst s))) b = Inl e"
    using splice_sha384 [OF assms] unfolding transcript_of_def by blast
  then show ?thesis by (simp add: splice_binder_def wp Some)
qed (simp add: splice_binder_def wp)

text \<open>
  C18.  A ticket does not survive a HelloRetryRequest that selects SHA-384.  Tickets are bound to SHA-256, and after such a
  retry the transcript runs under SHA-384; a client that still holds a ticket which has not expired always
  fails to answer, since the ticket is offered again and its binder cannot be computed.  (A client may drop a ticket
  that does not fit the selected suite, RFC 8446 section 4.1.4.)
\<close>

theorem sha384_retry_fails:
  assumes "transcript_holds (ch_transcript (cs_handshake s)) (Some Sha384) m" and "ch_resumption (cs_handshake s) = Some r"
    and "obfuscated_ticket_age (fst (cn_clock N k)) r \<noteq> None"
  shows "\<exists>e s'. finish_hello_retry_request N K p grp cookie (s, k) = (Inl e, s')"
proof -
  obtain now k' age where clock: "cn_clock N k = (now, k')" "obfuscated_ticket_age now r = Some age"
    using assms(3) by (cases "cn_clock N k") auto
  have hello: "wpS (send_hello N K t params (Some r) q after) (\<lambda>_ t. False) (\<lambda>e t. True) u"
    if "transcript_of (fst u) = transcript_of s" for t params q after and u :: "'a client_session \<times> 'b"
    unfolding send_hello_def
  proof (rule wpS_bind_view [where v = transcript_of, OF keeps_basic(7)],
      rule wpS_with_flight_view [where v = transcript_of and P = "\<lambda>_. False"], simp)
    fix w w' :: "'a client_session \<times> 'b" and suite
    assume "transcript_of (fst w) = transcript_of (fst u)" "transcript_of (fst w') = transcript_of (fst w)"
    then have "transcript_holds (transcript_of (fst w')) (Some Sha384) m" using that assms(1) by (simp add: transcript_of_def)
    then show "wpS (bindS (request_encode N t params q) (\<lambda>slot. seqS (splice_binder N (Some r) slot)
        (bindS (flight_fromS client_flight 0) (\<lambda>bs. seqS (updS (client_absorb bs)) (updS after))))) (\<lambda>_ t. False) (\<lambda>e t. True) w'"
      by (intro wpS_bind_view [where v = transcript_of, OF keeps_transcript(2)])
        (auto simp: wpS_seqS [of "splice_binder _ _ _"] intro!: wpS_mono [OF splice_binder_sha384])
  qed
  have "wpS (finish_hello_retry_request N K p grp cookie) (\<lambda>_ t. False) (\<lambda>e t. True) (s, k)"
    unfolding finish_hello_retry_request_def Let_def case_prod_beta wpS_seq_upd wpS_bindS [of "askS _"] wpS_askS
      wpS_bindS [of "client_clockS N"] wpS_clock fst_conv snd_conv
    using assms(2) clock
    by (auto simp: age_offer_def transcript_of_def intro!: wpS_bind_view [where v = transcript_of, OF keeps_transcript(1)] hello)
  then show ?thesis by (auto simp: wpS_def split: prod.splits sum.splits)
qed

end
