(* ===== verification/ClientProgress.thy ===== *)
theory ClientProgress
  imports ClientSafety
begin

section \<open>Progress of the client's handshake\<close>

text \<open>
  The last step of a handshake succeeds: with a sink that takes what it is given and room for a Finished in
  the flight, a Finished with the right MAC completes the connection.  \<open>reaches\<close> is total correctness of a handler.
\<close>

abbreviation reaches :: "('s, 'e, 'a) eff \<Rightarrow> ('a \<Rightarrow> 's \<Rightarrow> bool) \<Rightarrow> 's \<Rightarrow> bool" where
  "reaches m Q s \<equiv> wpS m Q (\<lambda>e t. False) s"

lemma reaches_result: "reaches m Q s \<Longrightarrow> \<exists>x t. m s = (Inr x, t) \<and> Q x t"
  by (auto simp: wpS_def split: prod.splits sum.splits)

lemma reaches_bind: "reaches m P s \<Longrightarrow> (\<And>x t. P x t \<Longrightarrow> reaches (f x) Q t) \<Longrightarrow> reaches (bindS m f) Q s"
  unfolding wpS_bindS by (erule wpS_mono) blast+

lemma reaches_seq: "reaches m (\<lambda>_. P) s \<Longrightarrow> (\<And>t. P t \<Longrightarrow> reaches n Q t) \<Longrightarrow> reaches (seqS m n) Q s"
  unfolding wpS_seqS by (erule wpS_mono) blast+

definition accepting :: "('k, 'e, 't) sink \<Rightarrow> bool" where
  "accepting K \<longleftrightarrow>
     (\<forall>ev context1 k. fst (sk_event K ev context1 k) = Inr ()) \<and>
     (\<forall>ep n context1 k. fst (sk_begin_send K ep n context1 k) = Inr None)"

lemma accepting_sink:
  assumes "accepting K"
  shows "\<exists>k'. emit_event K suite ev k = (Inr (), k')" "\<exists>k'. begin_send K suite ep n k = (Inr None, k')"
proof -
  have "fst (sk_event K ev (event_context_new suite) k) = Inr ()" "fst (sk_begin_send K ep n (event_context_new suite) k) = Inr None"
    using assms by (simp_all add: accepting_def)
  then show "\<exists>k'. emit_event K suite ev k = (Inr (), k')" "\<exists>k'. begin_send K suite ep n k = (Inr None, k')"
    by (cases "sk_event K ev (event_context_new suite) k", simp add: emit_event_def)
      (cases "sk_begin_send K ep n (event_context_new suite) k", use \<open>fst (sk_begin_send _ _ _ _ _) = _\<close> in \<open>simp add: begin_send_def\<close>)
qed

lemma reaches_emit: "accepting K \<Longrightarrow> (\<And>k'. Q () (fst s, k')) \<Longrightarrow> reaches (emitS K suite ev) Q s"
  using accepting_sink(1) [of K suite ev "snd s"] by (auto simp: emitS_def wpS_worldS)

text \<open>A flight in the session's own storage.\<close>

lemma reaches_flight:
  assumes "accepting K" and "\<And>k'. reaches body (\<lambda>x t. \<forall>k''. Q x (fst t, k'')) ((fst s)\<lparr>cs_flight := bb_clear (cs_flight (fst s))\<rparr>, k')"
  shows "reaches (with_flight K client_flight suite ep body) Q s"
proof -
  obtain k1 where b: "begin_send K suite ep (bb_capacity (cs_flight (fst s))) (snd s) = (Inr None, k1)"
    using accepting_sink(2) [OF assms(1)] by blast
  obtain x a k2 where body: "body ((fst s)\<lparr>cs_flight := bb_clear (cs_flight (fst s))\<rparr>, k1) = (Inr x, (a, k2))" "\<And>k''. Q x (a, k'')"
    using reaches_result [OF assms(2) [of k1]] by auto
  obtain k3 where "emit_event K suite (EvSend ep (bb_as_slice (cs_flight a))) k2 = (Inr (), k3)"
    using accepting_sink(1) [OF assms(1)] by blast
  with b body show ?thesis
    by (simp add: wpS_def with_flight_def client_flight_def bb_flight_def flight_commit_def flight_drop_def return_outbound_def Let_def)
qed

text \<open>What a session needs to run its last step: a selected suite, a transcript under its hash, room for a Finished.\<close>

definition ready :: "algorithm \<Rightarrow> 'x client_session \<Rightarrow> bool" where
  "ready alg s \<longleftrightarrow>
     (\<exists>m. transcript_holds (ch_transcript (cs_handshake s)) (Some alg) m) \<and>
     bb_wf (cs_flight s) \<and> 4 + output_len alg \<le> bb_limit (cs_flight s) \<and> cs_certificate_response s = None"

lemma ready_hash:
  assumes "crypto_ok C" and "ready alg s"
  shows "\<exists>h. transcript_hash C alg (ch_transcript (cs_handshake s)) = Inr h \<and> length (as_slice h) < 256"
  using assms transcript_holds_hash [of _ "Some alg" _ C alg] output_len_less_256 by (fastforce simp: ready_def)

lemma reaches_hash:
  assumes "crypto_ok C" and "ready alg (fst s)" and "\<And>h. length (as_slice h) < 256 \<Longrightarrow> Q h s"
  shows "reaches (protS (client_hashS C alg)) Q s"
  using ready_hash [OF assms(1,2)] assms(3) by (auto simp: wp client_hashS_def)

lemma ready_absorb: "ready alg s \<Longrightarrow> ready alg (client_absorb bs s)"
  by (auto simp: ready_def client_absorb_def dest: transcript_holds_update)

lemma ready_updates [simp]:
  "ready alg (s\<lparr>cs_application := a\<rparr>) = ready alg s" "ready alg (client_set_state st s) = ready alg s"
  by (simp_all add: ready_def client_set_state_def)

lemma reaches_derive:
  assumes "\<exists>x. r = Inr x \<and> P x" and "\<And>x. P x \<Longrightarrow> Q x s"
  shows "reaches (tryS g r) Q s"
  using assms by (auto simp: wp)

lemma application_derivations:
  assumes "crypto_ok C" and "length th < 256"
  shows "\<exists>x. client_application_traffic_secret C th m = Inr x" "\<exists>x. server_application_traffic_secret C th m = Inr x"
    "\<exists>x. exporter_master_secret C th m = Inr x" "\<exists>x. resumption_master_secret C th m = Inr x"
proof -
  have "\<exists>x. schedule_derive C label th m = Inr x" if "length label < 250" for label
    using schedule_derive_ok [OF assms(1) that assms(2)] by blast
  then show "\<exists>x. client_application_traffic_secret C th m = Inr x" "\<exists>x. server_application_traffic_secret C th m = Inr x"
    "\<exists>x. exporter_master_secret C th m = Inr x" "\<exists>x. resumption_master_secret C th m = Inr x"
    by (simp_all add: client_application_traffic_secret_def server_application_traffic_secret_def exporter_master_secret_def
        resumption_master_secret_def)
qed

definition live :: "cipher_suite \<Rightarrow> 'x client_session \<Rightarrow> bool" where
  "live suite s \<longleftrightarrow>
     (\<exists>a. client_traffic_of s = TrafficActive a \<and> ac_suite a = suite) \<and> cp_exporter_master (cs_application s) \<noteq> None"

lemma live_updates [simp]:
  "live suite (client_absorb bs s) = live suite s" "live suite (client_set_state st s) = live suite s"
  "live suite (s\<lparr>cs_flight := b\<rparr>) = live suite s" "live suite (s\<lparr>cs_certificate_response := c\<rparr>) = live suite s"
  by (simp_all add: live_def client_absorb_def client_set_state_def client_traffic_of_def)

lemma activate_reaches:
  assumes "crypto_ok (cn_crypto N)" and "accepting K" and "ready alg (fst s)" and "client_traffic_of (fst s) = TrafficSelected suite"
  shows "reaches (activate_client_application N K alg ks) (\<lambda>_ t. ready alg (fst t) \<and> live suite (fst t)) s"
proof -
  obtain h where h: "transcript_hash (cn_crypto N) alg (ch_transcript (cs_handshake (fst s))) = Inr h" "length (as_slice h) < 256"
    using ready_hash [OF assms(1,3)] by blast
  obtain master where m: "schedule_into_master (cn_crypto N) ks = Inr master" using schedule_into_ok(2) [OF assms(1)] by blast
  note derived = application_derivations [OF assms(1) h(2), of master]
  then show ?thesis
    using h m assms(2-)
    by (auto simp: activate_client_application_def Let_def wp client_hashS_def client_on_traffic_def traffic_activate_def
        client_traffic_of_def traffic_secret_def live_def intro!: reaches_emit)
qed

lemma end_early_data_reaches:
  assumes "accepting K" and "ready alg (fst s)" and "live suite (fst s)"
  shows "reaches (end_early_data K p) (\<lambda>_ t. ready alg (fst t) \<and> live suite (fst t)) s"
  using assms by (auto simp: end_early_data_def wp intro!: reaches_emit ready_absorb)

lemma emits_finished: "length vd < 2 ^ 24 \<Longrightarrow> emits_on bb_good (\<lambda>b n. n \<le> bb_limit b - bb_len b) bb_ext (frame_encode_finished E_bb vd)
    (hs_type_u8 TFinished # vec24 vd)"
  unfolding frame_encode_finished_def encode_verify_data_def
  using bb.emits_then [OF bb.emits_put(1) bb.emits_vec(3) [OF bb.emits_put(5)]] by simp

text \<open>The Finished fits the cleared flight.\<close>

lemma send_message_reaches:
  assumes "ready alg (s\<lparr>cs_flight := b\<rparr>)" and "length vd = output_len alg"
  shows "reaches (client_send_message (frame_encode_finished E_bb vd))
    (\<lambda>_ t. ready alg (fst t) \<and> (live suite s \<longrightarrow> live suite (fst t))) (s\<lparr>cs_flight := bb_clear b\<rparr>, k)"
proof -
  have b: "bb_good (bb_clear b)" "bb_limit (bb_clear b) = bb_limit b" "bb_len (bb_clear b) = 0"
    using assms(1) bb_clear_wf [of b] by (auto simp: ready_def bb_clear_def bb_len_def)
  have "length vd < 2 ^ 24" using assms(2) output_len_less_256 [of alg] by simp
  moreover have "4 + length vd \<le> bb_limit b" using assms by (simp add: ready_def)
  ultimately have run: "frame_encode_finished E_bb vd (bb_clear b) = (Inr (), bb_ext (bb_clear b) (hs_type_u8 TFinished # vec24 vd))"
      (is "_ = (_, ?b')")
    using bb.emitsD [OF emits_finished b(1)] b by (simp add: vec24_def)
  have "bb_wf ?b'" using bb.good_ext [OF b(1), of "hs_type_u8 TFinished # vec24 vd"] b(2,3) \<open>4 + length vd \<le> bb_limit b\<close>
    by (simp add: bb_good_def vec24_def)
  then have "ready alg (s\<lparr>cs_flight := ?b'\<rparr>)"
    using assms(1) b(2) by (simp add: ready_def bb_ext_def)
  with run show ?thesis
    by (simp add: client_send_message_def wp flight_lenS_def flight_fromS_def encodeS_def wpS_def client_flight_def eff_defs ready_absorb)
qed

lemma send_finished_reaches:
  assumes "crypto_ok (cn_crypto N)" and "accepting K" and "ready alg (fst s)" and "live suite (fst s)"
  shows "reaches (send_client_finished N K p alg master traffic)
    (\<lambda>_ t. live suite (fst t) \<and> cp_resumption_master (cs_application (fst t)) \<noteq> None) s"
proof -
  let ?Q = "\<lambda>(_ :: unit) (t :: 'a client_session \<times> 'b). \<forall>k'' :: 'b. live suite (fst (fst t, k'')) \<and>
    cp_resumption_master (cs_application (fst (fst t, k''))) \<noteq> None"
  let ?s = "(fst s)\<lparr>cs_flight := bb_clear (cs_flight (fst s))\<rparr>"
  have tail: "reaches (bindS (protS (client_hashS (cn_crypto N) alg)) (\<lambda>h_cf.
       bindS (tryS error_of_hkdf (resumption_master_secret (cn_crypto N) (as_slice h_cf) master)) (\<lambda>rms.
       updS (\<lambda>s. s\<lparr>cs_application := (cs_application s)\<lparr>cp_resumption_master := Some rms\<rparr>\<rparr>)))) ?Q t"
    if t: "ready alg (fst t)" "live suite (fst t)" for t :: "'a client_session \<times> 'b"
  proof -
    obtain h where h: "transcript_hash (cn_crypto N) alg (ch_transcript (cs_handshake (fst t))) = Inr h" "length (as_slice h) < 256"
      using ready_hash [OF assms(1) t(1)] by blast
    with application_derivations(4) [OF assms(1) h(2), of master] t(2) show ?thesis
      by (auto simp: wp client_hashS_def live_def client_traffic_of_def)
  qed
  have body: "reaches (bindS (tryS error_of_hkdf (finished_verify_data (cn_crypto N) alg (as_slice traffic) th)) (\<lambda>cf_data.
       seqS (client_send_message (frame_encode_finished E_bb (as_slice cf_data)))
       (bindS (protS (client_hashS (cn_crypto N) alg)) (\<lambda>h_cf.
       bindS (tryS error_of_hkdf (resumption_master_secret (cn_crypto N) (as_slice h_cf) master)) (\<lambda>rms.
       updS (\<lambda>s. s\<lparr>cs_application := (cs_application s)\<lparr>cp_resumption_master := Some rms\<rparr>\<rparr>)))))) ?Q (?s, k)" for th k
  proof -
    obtain v where v: "finished_verify_data (cn_crypto N) alg (as_slice traffic) th = Inr v" "length (as_slice v) = output_len alg"
      using finished_verify_data_ok [OF assms(1)] by blast
    have "reaches (client_send_message (frame_encode_finished E_bb (as_slice v)))
        (\<lambda>_ t. ready alg (fst t) \<and> (live suite (fst s) \<longrightarrow> live suite (fst t))) (?s, k)"
      by (rule send_message_reaches) (use assms(3) v(2) in simp_all)
    then show ?thesis
      unfolding v wpS_bindS [of "tryS _ _"] wpS_tryS sum.case
      by (rule reaches_seq) (use tail assms(4) in blast)
  qed
  have ready: "ready alg (fst (?s, k))" and none: "cs_certificate_response (fst (?s, k)) = None" for k
    using assms(3) bb_clear_wf [of "cs_flight (fst s)"] by (auto simp: ready_def bb_clear_def bb_good_def)
  then have same: "(fst (?s, k))\<lparr>cs_certificate_response := None\<rparr> = ?s" for k
    by (cases "fst s") simp
  show ?thesis
    unfolding send_client_finished_def Let_def wpS_bindS [of "askS _"] wpS_askS
    by (rule reaches_flight [OF assms(2)], unfold wpS_bindS [of "askS _"] wpS_askS wpS_seq_upd none option.case same snd_conv
        wpS_seqS [of "retS _"] wpS_basic wpS_bindS [of "protS _"], rule reaches_hash [OF assms(1) ready], rule body)
qed

lemma verify_reaches:
  assumes "finished_matches N s sf" and "ch_state (cs_handshake s) = ExpectServerFinished secrets"
    and "client_traffic_of s = TrafficSelected suite"
  shows "reaches (protS (verify_server_finished N sf secrets)) (\<lambda>alg t. alg = hash_alg suite \<and> t = (client_set_state ClientFailed s, k))
    (client_set_state ClientFailed s, k)"
  using assms
  by (auto simp: verify_server_finished_def wp client_hashS_def finished_matches_def client_set_state_def client_hash_alg_def
      traffic_algorithm_def traffic_suite_def client_traffic_of_def)

lemma finished_message_reaches:
  assumes "crypto_ok (cn_crypto N)" and "accepting K"
    and "message_ref_decode (cn_ci16 N) raw = Inr (RFinished sf)" and "finished_matches N s sf"
    and "client_traffic_of s = TrafficSelected suite" and "ready (hash_alg suite) s"
  shows "\<exists>s' k'. client_message N K p HandshakeEpoch raw (s, k) = (Inr (), (s', k')) \<and> client_is_done (cs_handshake s') \<and> live suite s' \<and>
    cp_resumption_master (cs_application s') \<noteq> None"
proof -
  let ?s = "client_set_state ClientFailed s" and ?Q = "\<lambda>_ t. client_is_done (cs_handshake (fst t)) \<and> live suite (fst t) \<and>
    cp_resumption_master (cs_application (fst t)) \<noteq> None"
  obtain secrets where st: "ch_state (cs_handshake s) = ExpectServerFinished secrets" using assms(4) by (auto simp: finished_matches_def)
  have absorbed: "ready (hash_alg suite) (client_absorb raw ?s)" "client_traffic_of (client_absorb raw ?s) = TrafficSelected suite"
    using assms(5,6) by (simp_all add: ready_absorb) (simp add: client_absorb_def client_set_state_def client_traffic_of_def)
  have last: "reaches (bindS (askS client_suite_of) (\<lambda>suite. seqS (emitS K suite EvDone) (updS (client_set_state ClientDone)))) ?Q t"
    if "live suite (fst t) \<and> cp_resumption_master (cs_application (fst t)) \<noteq> None" for t :: "'a client_session \<times> 'b"
    using that by (auto simp: wpS_bindS wpS_askS wpS_seqS wpS_updS client_is_done_def client_set_state_def live_def client_traffic_of_def
        intro!: reaches_emit [OF assms(2)])
  have "reaches (handle_server_finished N K p sf raw secrets) ?Q (?s, k)"
    unfolding handle_server_finished_def
    apply (rule reaches_bind [OF verify_reaches [OF assms(4) st assms(5)]])
    apply (elim conjE, hypsubst, unfold wpS_seq_upd fst_conv snd_conv)
    apply (rule reaches_bind [OF activate_reaches [OF assms(1,2)]], use absorbed in simp, use absorbed in simp)
    apply (elim conjE, rule reaches_seq [OF end_early_data_reaches [OF assms(2)]], assumption+)
    apply (elim conjE, rule reaches_seq [OF send_finished_reaches [OF assms(1,2)]], assumption+)
    apply (erule last)
    done
  then have "reaches (client_message N K p HandshakeEpoch raw) ?Q (s, k)"
    using st assms(3) by (simp add: client_message_def client_dispatch_def wp)
  from reaches_result [OF this] show ?thesis by fastforce
qed

text \<open>
  C11.  A matching Finished completes the handshake.  When the client waits for the server's Finished with no client certificate
  asked for, the sink takes events, and the flight has room for a Finished of the selected hash, a Finished message with
  the expected MAC is accepted: the client ends in \<open>Done\<close>, its application traffic secrets are active, and the
  exporter and resumption secrets are there.  (No key derivation on the way can fail.)
\<close>

theorem client_completes:
  assumes "crypto_ok (cn_crypto N)" and "accepting K"
    and "message_ref_decode (cn_ci16 N) raw = Inr (RFinished sf)" and "finished_matches N s sf"
    and "client_traffic_of s = TrafficSelected suite" and "ready (hash_alg suite) s"
  shows "\<exists>s' k' a. client_message N K p HandshakeEpoch raw (s, k) = (Inr (), (s', k')) \<and> client_is_done (cs_handshake s') \<and>
    client_traffic_of s' = TrafficActive a \<and> ac_suite a = suite \<and>
    cp_exporter_master (cs_application s') \<noteq> None \<and> cp_resumption_master (cs_application s') \<noteq> None"
  using finished_message_reaches [OF assms] by (fastforce simp: live_def)

subsection \<open>A sample connection\<close>

definition sample_client_env :: "(owned_kx, unit) client_env" where
  "sample_client_env =
     \<lparr>cn_crypto = crypto_const, cn_ci8 = copy_inline_ref, cn_ci16 = copy_inline_ref, cn_frames = copy_inline_ref, cn_certs = copy_inline_ref,
      cn_kx = sample_kx, cn_initiator = owned_initiator copy_inline_ref sample_kx, cn_sign = sample_sign,
      cn_verify = (\<lambda>profile key message signature. signature = [5]), cn_unicode = sample_unicode, cn_clock = (\<lambda>k. (0, k))\<rparr>"

definition sample_template :: template where
  "sample_template =
     \<lparr>tp_verifier = VerifierRawPublicKey (replicate 32 7), tp_transport_mode = Tls, tp_transport_params = [],
      tp_alpn_protocols = \<lparr>pa_preferred = [], pa_by_name = []\<rparr>, tp_enable_early_data = False\<rparr>"

definition sample_policy :: policy where
  "sample_policy = authority_policy \<lparr>ca_template = sample_template, ca_identity = None\<rparr> None"

definition sample_secrets :: handshake_secrets where
  "sample_secrets =
     \<lparr>hx_schedule = schedule_new crypto_const Sha256, hx_client_traffic = from_bounded_slice [1], hx_server_traffic = from_bounded_slice [2]\<rparr>"

text \<open>A client that waits for the server's certificate, after it has read the two messages, and its events' sink.\<close>

definition sample_client :: "owned_kx client_session" where
  "sample_client =
     (framed_core_new (workspace_from_buffers bb_default (bb_with_capacity 100)) None False)
       \<lparr>cs_handshake := \<lparr>ch_state = ExpectCertificate sample_secrets, ch_transcript = \<lparr>tr_sha256 = Some [], tr_sha384 = None\<rparr>,
          ch_client_random = replicate 32 0, ch_session_id = replicate 32 0, ch_hrr_done = False, ch_resumption = None, ch_psk_used = False\<rparr>,
        cs_application := \<lparr>cp_traffic = TrafficSelected Aes128GcmSha256, cp_resumption_master = None, cp_exporter_master = None\<rparr>\<rparr>"

definition sample_client1 :: "owned_kx client_session" where
  "sample_client1 = client_set_state (ExpectCertificateVerify sample_secrets PinnedEd25519) (client_absorb sample_certificate sample_client)"

definition sample_client2 :: "owned_kx client_session" where
  "sample_client2 = client_set_state (ExpectServerFinished sample_secrets) (client_absorb sample_cert_verify sample_client1)"

abbreviation client_sample_sink :: "(unit, unit) client_sink" where
  "client_sample_sink \<equiv> sample_sink"

lemma sample_policy_fields [simp]:
  "tp_verifier (policy_template sample_policy) = VerifierRawPublicKey (replicate 32 7)"
  "tp_transport_mode (policy_template sample_policy) = Tls"
  by (simp_all add: sample_policy_def sample_template_def authority_policy_def policy_template_def)

lemma sample_client_env_fields [simp]:
  "cn_crypto sample_client_env = crypto_const" "cn_ci8 sample_client_env = copy_inline_ref" "cn_ci16 sample_client_env = copy_inline_ref"
  "cn_verify sample_client_env profile key message signature \<longleftrightarrow> signature = [5]" "cn_clock sample_client_env k = (0, k)"
  by (simp_all add: sample_client_env_def)

lemma sample_pinned:
  "check_pinned_key sample_client_env (replicate 32 7) \<lparr>certr_context = [], certr_list = sample_entries\<rparr> = Inr PinnedEd25519"
  by (simp add: check_pinned_key_def sample_entries_def certificate_entries_first_def entries_next_def certificate_entries_len_def
      sample_entry [simplified] result_ok_def sample_leaf_key)

lemma sample_clear: "bb_clear (bb_with_capacity n) = bb_with_capacity n"
  by (simp add: bb_clear_def bb_with_capacity_def)

lemma sample_client_fields [simp]:
  "ch_state (cs_handshake sample_client) = ExpectCertificate sample_secrets"
  "ch_transcript (cs_handshake sample_client) = \<lparr>tr_sha256 = Some [], tr_sha384 = None\<rparr>"
  "cs_application sample_client = \<lparr>cp_traffic = TrafficSelected Aes128GcmSha256, cp_resumption_master = None, cp_exporter_master = None\<rparr>"
  "cs_flight sample_client = bb_with_capacity 100" "cs_certificate_response sample_client = None"
  "ch_psk_used (cs_handshake sample_client) = False"
  by (simp_all add: sample_client_def framed_core_new_def core_new_def workspace_from_buffers_def sample_clear)

lemma sample_client_ok: "client_ok sample_client" "cphase sample_client = AwaitServerCertificate False"
  by (simp_all add: client_ok_def client_inv_def cphase_def cstat_def bb_with_capacity_def)

lemma sample_client_step1:
  "client_message sample_client_env client_sample_sink sample_policy HandshakeEpoch sample_certificate (sample_client, ()) =
     (Inr (), (sample_client1, ()))"
  by (simp add: client_message_def client_dispatch_def handle_certificate_def protS_def eff_defs sample_certificate_decode sample_pinned
      sample_client1_def client_set_state_def client_absorb_def)

lemma sample_client_step2:
  "client_message sample_client_env client_sample_sink sample_policy HandshakeEpoch sample_cert_verify (sample_client1, ()) =
     (Inr (), (sample_client2, ()))"
proof -
  obtain msg where msg: "certificate_verify_message copy_inline_ref (replicate 32 0) True = Inr msg" using sample_message by blast
  have key: "leaf_key_from_raw KindEd25519 (replicate 32 7) = Inr (LkEd25519 (replicate 32 7))"
    using pinned_key [OF sample_pinned] by simp
  have sig: "leaf_key_verify (cn_verify sample_client_env) (LkEd25519 (replicate 32 7)) ED25519 m [5] = Inr ()" for m
    by (simp add: leaf_key_verify_def leaf_verifying_key_def)
  show ?thesis
    by (simp add: client_message_def client_dispatch_def handle_certificate_verify_def protS_def eff_defs sample_decode offered_sig_scheme_def
        sample_client1_def client_set_state_def client_hash_alg_def traffic_algorithm_def traffic_suite_def client_hashS_def sample_hash
        client_absorb_def transcript_update_def transcript_state_def msg server_key_def key sig sample_client2_def sample_clear)
qed

lemma sample_accepting: "accepting client_sample_sink"
  by (simp add: accepting_def sample_sink_def)

lemma crypto_const_ok: "crypto_ok crypto_const"
  by (simp add: crypto_ok_def crypto_const_def)

lemma sample_ready: "ready Sha256 sample_client2" "client_traffic_of sample_client2 = TrafficSelected Aes128GcmSha256"
  "finished_matches sample_client_env sample_client2 (replicate 32 1)"
  by (auto simp: ready_def sample_client2_def sample_client1_def client_set_state_def client_absorb_def transcript_update_def
      transcript_state_def transcript_holds_def bb_with_capacity_def bb_wf_def bb_len_def SHA256_LEN_def client_traffic_of_def
      finished_matches_def client_hash_alg_def traffic_algorithm_def traffic_suite_def sample_hash sample_finished_data
      verify_data_ct_eq_def sample_verify_data_def)

text \<open>The three messages finish the handshake of the sample client.\<close>

lemma sample_client_run:
  "\<exists>s'. run_all (client_message sample_client_env client_sample_sink sample_policy)
      [(HandshakeEpoch, sample_certificate), (HandshakeEpoch, sample_cert_verify), (HandshakeEpoch, sample_finished)] (sample_client, ()) =
      (Inr (), (s', ())) \<and> client_is_done (cs_handshake s') \<and> \<not> ch_psk_used (cs_handshake s')"
proof -
  obtain s' where s': "client_message sample_client_env client_sample_sink sample_policy HandshakeEpoch sample_finished (sample_client2, ()) =
      (Inr (), (s', ()))" "client_is_done (cs_handshake s')"
    using finished_message_reaches [of sample_client_env client_sample_sink sample_finished "replicate 32 1" sample_client2
        Aes128GcmSha256 sample_policy "()"] sample_ready by (auto simp: crypto_const_ok sample_accepting sample_decode)
  have "client_ok sample_client2" and phase: "cphase sample_client2 = AwaitServerFinished False"
    by (simp_all add: sample_client2_def sample_client1_def client_ok_def client_inv_def cphase_def cstat_def client_set_state_def
        client_absorb_def bb_with_capacity_def)
  then have "cphase s' = ClientConnected False"
    using client_message_step [OF _ s'(1)] by (auto elim: client_finishE)
  then have "\<not> ch_psk_used (cs_handshake s')"
    using s'(2) by (simp add: cphase_def cstat_def client_is_done_def)
  then show ?thesis using s' by (simp add: seqS_def bindS_def sample_client_step1 sample_client_step2 retS_def)
qed

theorem client_completes_witness:
  "\<exists>s' k' a. client_message sample_client_env client_sample_sink sample_policy HandshakeEpoch sample_finished (sample_client2, ()) =
       (Inr (), (s', k')) \<and> client_is_done (cs_handshake s') \<and> client_traffic_of s' = TrafficActive a \<and> ac_suite a = Aes128GcmSha256 \<and>
     cp_exporter_master (cs_application s') \<noteq> None \<and> cp_resumption_master (cs_application s') \<noteq> None"
  by (rule client_completes [where sf = "replicate 32 1"])
    (simp_all add: crypto_const_ok sample_accepting sample_decode sample_ready)

theorem client_refines_witness:
  "\<exists>msg. message_ref_decode copy_inline_ref sample_cert_verify = Inr msg \<and>
     client_step Tls AwaitServerVerify HandshakeEpoch msg (cphase sample_client2) \<and> client_ok sample_client2 \<and>
     client_checked sample_client_env sample_policy sample_client1 () msg"
proof -
  have "client_ok sample_client1" "cphase sample_client1 = AwaitServerVerify"
    by (simp_all add: sample_client1_def client_ok_def client_inv_def cphase_def cstat_def client_set_state_def client_absorb_def
        bb_with_capacity_def)
  with client_refines [OF _ sample_client_step2] show ?thesis by auto
qed

theorem server_authenticated_witness:
  "\<exists>u ku ep1 c key t kt ep2 cv v kv ep3 f.
    {((u, ku), ep1, RCertificate c), ((t, kt), ep2, RCertificateVerify cv), ((v, kv), ep3, RFinished f)} \<subseteq>
      set (run_trace (message_ref_decode (cn_ci16 sample_client_env)) (client_message sample_client_env client_sample_sink sample_policy)
        [(HandshakeEpoch, sample_certificate), (HandshakeEpoch, sample_cert_verify), (HandshakeEpoch, sample_finished)] (sample_client, ())) \<and>
    trusted_key sample_client_env sample_policy c (fst (cn_clock sample_client_env ku)) key \<and>
    server_proved sample_client_env sample_policy t key cv \<and> finished_matches sample_client_env v f"
proof -
  obtain s' where "run_all (client_message sample_client_env client_sample_sink sample_policy)
      [(HandshakeEpoch, sample_certificate), (HandshakeEpoch, sample_cert_verify), (HandshakeEpoch, sample_finished)] (sample_client, ()) =
      (Inr (), (s', ()))" "client_is_done (cs_handshake s')" "\<not> ch_psk_used (cs_handshake s')"
    using sample_client_run by blast
  moreover have "before_certificate (cphase sample_client)" by (simp add: sample_client_ok before_certificate_def)
  ultimately show ?thesis by (intro server_authenticated [OF sample_client_ok(1)])
qed

definition sample_core :: "owned_kx client_core" where
  "sample_core = \<lparr>core_reassembler = (reassembler_with_buffer ((bb_with_capacity 100)\<lparr>bb_bytes := [1]\<rparr>))\<lparr>rs_epoch := Some PlaintextEpoch\<rparr>,
     core_session = sample_client\<rparr>"

theorem client_failure_is_final_witness:
  "let c' = core_poison (cn_initiator sample_client_env) sample_core in
   client_wiped c' \<and> core_start_into sample_client_env client_sample_sink sample_policy (c', ()) = (Inl (Protocol ConnectionFailed), (c', ())) \<and>
   core_read_into sample_client_env client_sample_sink sample_policy PlaintextEpoch [1] (c', ()) = (Inl (Protocol ConnectionFailed), (c', ()))"
proof -
  have "core_read_into sample_client_env client_sample_sink sample_policy HandshakeEpoch [20] (sample_core, ()) =
      (Inl (Protocol (error_of_decode HandshakeSpansEpoch)), (core_poison (cn_initiator sample_client_env) sample_core, ()))"
    by (simp add: core_read_into_def client_read_def reassembler_read_def begin_record_def sample_core_def client_is_failed_def
        reassembler_with_buffer_def bb_with_capacity_def bb_is_empty_def bb_len_def)
  from client_failure_is_final [OF _ this] show ?thesis by (simp add: Let_def sample_core_def client_is_failed_def)
qed

definition sample_active :: active_resumption where
  "sample_active = \<lparr>ar_psk = replicate 32 9, ar_ticket = [1, 2], ar_ticket_age_add = 3, ar_received_at_ms = 0, ar_lifetime_ms = 1000,
     ar_early_data = None\<rparr>"

definition sample_retried :: "owned_kx client_session" where
  "sample_retried = sample_client\<lparr>cs_handshake := (cs_handshake sample_client)
     \<lparr>ch_state := ExpectServerHello, ch_transcript := \<lparr>tr_sha256 = None, tr_sha384 = Some [254]\<rparr>, ch_resumption := Some sample_active\<rparr>\<rparr>"

theorem sha384_retry_fails_witness:
  "\<exists>e s'. finish_hello_retry_request sample_client_env client_sample_sink sample_policy X25519Mlkem768 None (sample_retried, ()) = (Inl e, s')"
proof (rule sha384_retry_fails)
  show "transcript_holds (ch_transcript (cs_handshake sample_retried)) (Some Sha384) [254]"
    by (simp add: sample_retried_def transcript_holds_def)
  show "ch_resumption (cs_handshake sample_retried) = Some sample_active" by (simp add: sample_retried_def)
  show "obfuscated_ticket_age (fst (cn_clock sample_client_env ())) sample_active \<noteq> None"
    by (simp add: obfuscated_ticket_age_def sample_active_def Let_def)
qed

end
