(* ===== verification/ClientPools.thy ===== *)
theory ClientPools
  imports Client Slab
begin

section \<open>Client connection pools\<close>

text \<open>
  The pools of \<open>client/workspace.rs\<close> and the pooled connections of \<open>client/mod.rs\<close>.  A pool holds its endpoint's authority,
  the ticket it was built with and its slots; its connections run under that authority.  A framed
  connection also has connection-local transport parameters, written into its reservation before it is connected.
\<close>

subsection \<open>Pools of stream connections\<close>

record client_pool =
  pl_authority :: client_authority
  pl_first :: "active_resumption option"
  pl_enable_early_data :: bool
  pl_slots :: "(client_workspace, owned_kx client_core) slot list"

definition pool_new :: "'k sign_ops \<Rightarrow> client_source option \<Rightarrow> nat \<Rightarrow> prepared \<Rightarrow> client_pool" where
  "pool_new S identity capacity pr =
     (let authority = client_authority_new (pp_template pr) identity;
          layout = authority_workspace_layout S authority in
      \<lparr>pl_authority = authority, pl_first = pp_resumption pr, pl_enable_early_data = pp_enable_early_data pr,
       pl_slots = replicate capacity (Vacant (client_layout_allocate layout))\<rparr>)"

text \<open>The first connection takes the pool's ticket.\<close>

definition pool_connect :: "slab \<Rightarrow> client_pool \<Rightarrow> nat option \<times> client_pool" where
  "pool_connect vacant pl =
     (case slots_insert vacant (\<lambda>workspace. core_new workspace (pl_first pl) (pl_enable_early_data pl)) (pl_slots pl) of
        (None, _) \<Rightarrow> (None, pl)
      | (Some i, slots) \<Rightarrow> (Some i, pl\<lparr>pl_first := None, pl_slots := slots\<rparr>))"

definition client_stored_into_seed :: "'x client_core \<Rightarrow> client_workspace" where
  "client_stored_into_seed c = core_into_workspace c"

definition client_pool_capacities :: "'k sign_ops \<Rightarrow> client_pool \<Rightarrow> nat \<times> nat" where
  "client_pool_capacities S pl =
     (let l = authority_workspace_layout S (pl_authority pl) in (cl_fragmented_message l, cl_outbound_flight l))"

text \<open>What a leased connection does: run an operation of the core in its slot, under the pool's authority.\<close>

definition client_pooled_run ::
    "nat \<Rightarrow> (client_authority \<Rightarrow> (owned_kx client_core \<times> 'k, 'e, 'a) eff) \<Rightarrow> client_pool \<times> 'k \<Rightarrow>
     (('e + 'a) \<times> client_pool \<times> 'k) option" where
  "client_pooled_run i m = (\<lambda>(pl, k).
     case slots_run i (m (pl_authority pl)) (pl_slots pl) k of
       None \<Rightarrow> None
     | Some (r, slots, k) \<Rightarrow> Some (r, pl\<lparr>pl_slots := slots\<rparr>, k))"

definition pooled_connection_start_into ::
    "(owned_kx, 'k) client_env \<Rightarrow> ('k, 'e) client_sink \<Rightarrow> nat \<Rightarrow> client_pool \<times> 'k \<Rightarrow> (('e drive_error + unit) \<times> client_pool \<times> 'k) option" where
  "pooled_connection_start_into N K i = client_pooled_run i (pooled_start_into N K)"

definition pooled_client_read_into ::
    "(owned_kx, 'k) client_env \<Rightarrow> ('k, 'e) client_sink \<Rightarrow> nat \<Rightarrow> epoch \<Rightarrow> bytes \<Rightarrow> client_pool \<times> 'k \<Rightarrow>
     (('e drive_error + unit) \<times> client_pool \<times> 'k) option" where
  "pooled_client_read_into N K i ep data = client_pooled_run i (\<lambda>A. pooled_read_into N K A ep data)"

definition pooled_client_send_update ::
    "(owned_kx, 'k) client_env \<Rightarrow> ('k, 'e) client_sink \<Rightarrow> nat \<Rightarrow> key_update_request \<Rightarrow> client_pool \<times> 'k \<Rightarrow>
     (('e drive_error + unit) \<times> client_pool \<times> 'k) option" where
  "pooled_client_send_update N K i request = client_pooled_run i (\<lambda>A. client_updates_send_into N K A request)"

definition pooled_client_note_application_data ::
    "nat \<Rightarrow> client_pool \<times> 'k \<Rightarrow> ((unit + unit) \<times> client_pool \<times> 'k) option" where
  "pooled_client_note_application_data i =
     client_pooled_run i (\<lambda>_ (c, k). (Inr (), (client_note_application_data c, k)))"

definition pooled_client_selected_alpn :: "nat \<Rightarrow> client_pool \<Rightarrow> bytes option" where
  "pooled_client_selected_alpn i pl =
     (case pl_slots pl ! i of Occupied c \<Rightarrow> client_selected_alpn (pl_authority pl) (core_session c) | _ \<Rightarrow> None)"

text \<open>Dropping the lease recycles the connection.\<close>

definition pooled_client_release :: "nat \<Rightarrow> client_pool \<Rightarrow> client_pool" where
  "pooled_client_release i pl = pl\<lparr>pl_slots := slots_release client_stored_into_seed i (pl_slots pl)\<rparr>"

subsection \<open>Pools of framed connections\<close>

record framed_seed =
  fs_workspace :: client_workspace
  fs_transport_params :: bytes

record framed_stored =
  fst_session :: "owned_kx client_session"
  fst_transport_params :: bytes

record framed_pool =
  fpl_authority :: client_authority
  fpl_layout :: client_layout
  fpl_first :: "active_resumption option"
  fpl_enable_early_data :: bool
  fpl_transport_params_capacity :: nat
  fpl_slots :: "(framed_seed, framed_stored) slot list"

definition framed_pool_new :: "client_source option \<Rightarrow> nat \<Rightarrow> nat \<Rightarrow> prepared \<Rightarrow> framed_pool" where
  "framed_pool_new identity capacity transport_params_capacity pr =
     (let layout = client_layout_framed (verifier_peer_identity_capacity (tp_verifier (pp_template pr))) in
      \<lparr>fpl_authority = client_authority_new (pp_template pr) identity, fpl_layout = layout, fpl_first = pp_resumption pr,
       fpl_enable_early_data = pp_enable_early_data pr, fpl_transport_params_capacity = transport_params_capacity,
       fpl_slots = replicate capacity (Vacant \<lparr>fs_workspace = client_layout_allocate layout, fs_transport_params = []\<rparr>)\<rparr>)"

definition try_into_framed_pool ::
    "u8 copy_inline \<Rightarrow> client_source option \<Rightarrow> nat \<Rightarrow> nat \<Rightarrow> prepared \<Rightarrow> config_error + framed_pool" where
  "try_into_framed_pool ci identity capacity transport_params_capacity pr =
     (let t = pp_template pr in
      and_then (validate_initial_hello_capacity ci (tp_transport_mode t) (tp_verifier t) transport_params_capacity
          (template_alpn_protocols t) (pp_resumption pr)) (\<lambda>_.
      Inr (framed_pool_new identity capacity transport_params_capacity pr)))"

definition framed_pool_capacities :: "framed_pool \<Rightarrow> nat \<times> nat \<times> nat" where
  "framed_pool_capacities pl =
     (cl_fragmented_message (fpl_layout pl), cl_outbound_flight (fpl_layout pl), fpl_transport_params_capacity pl)"

text \<open>A reservation is the index of its slot and the ticket it was made for.\<close>

record framed_reservation =
  frv_slot :: nat
  frv_resumption :: "active_resumption option"

definition reserve_slot :: "slab \<Rightarrow> active_resumption option \<Rightarrow> framed_pool \<Rightarrow> framed_reservation option \<times> framed_pool" where
  "reserve_slot vacant resumption pl =
     (case slots_reserve vacant (\<lambda>seed. seed\<lparr>fs_transport_params := []\<rparr>) (fpl_slots pl) of
        (lease, slots) \<Rightarrow>
          (map_option (\<lambda>i. \<lparr>frv_slot = i, frv_resumption = resumption\<rparr>) lease, pl\<lparr>fpl_slots := slots\<rparr>))"

definition framed_reserve :: "slab \<Rightarrow> framed_pool \<Rightarrow> framed_reservation option \<times> framed_pool" where
  "framed_reserve vacant = reserve_slot vacant None"

definition framed_reserve_restored ::
    "u8 copy_inline \<Rightarrow> slab \<Rightarrow> restore \<Rightarrow> framed_pool \<Rightarrow> (config_error + framed_reservation option) \<times> framed_pool" where
  "framed_reserve_restored ci vacant r pl =
     (case authority_restore ci r (fpl_transport_params_capacity pl) (fpl_authority pl) of
        Inl e \<Rightarrow> (Inl e, pl)
      | Inr resumption \<Rightarrow> (case reserve_slot vacant (Some resumption) pl of (rv, pl) \<Rightarrow> (Inr rv, pl)))"

text \<open>The caller writes connection-local transport parameters through \<open>RetainedBytes\<close>, up to the pool's capacity.\<close>

definition reservation_write :: "framed_reservation \<Rightarrow> bytes \<Rightarrow> framed_pool \<Rightarrow> ((conn_error + unit) \<times> framed_pool) option" where
  "reservation_write rv bs pl =
     map_option (\<lambda>(r, slots). (r, pl\<lparr>fpl_slots := slots\<rparr>))
       (slots_seed (frv_slot rv)
         (\<lambda>seed.
           case retained_try_extend bs \<lparr>rb_bytes = fs_transport_params seed, rb_limit = fpl_transport_params_capacity pl\<rparr> of
             (r, b) \<Rightarrow> (r, seed\<lparr>fs_transport_params := rb_bytes b\<rparr>))
         (fpl_slots pl))"

definition reservation_drop :: "framed_reservation \<Rightarrow> framed_pool \<Rightarrow> framed_pool" where
  "reservation_drop rv pl = pl\<lparr>fpl_slots := slots_cancel (frv_slot rv) (fpl_slots pl)\<rparr>"

definition reservation_connect :: "framed_reservation \<Rightarrow> framed_pool \<Rightarrow> framed_pool" where
  "reservation_connect rv pl =
     (let (resumption, first) =
        (case frv_resumption rv of Some r \<Rightarrow> (Some r, fpl_first pl) | None \<Rightarrow> (fpl_first pl, None)) in
      pl\<lparr>fpl_first := first,
         fpl_slots := slots_fill (frv_slot rv)
           (\<lambda>seed. \<lparr>fst_session = framed_core_new (fs_workspace seed) resumption (fpl_enable_early_data pl),
                    fst_transport_params = fs_transport_params seed\<rparr>)
           (fpl_slots pl)\<rparr>)"

definition framed_stored_into_seed :: "framed_stored \<Rightarrow> framed_seed" where
  "framed_stored_into_seed st =
     \<lparr>fs_workspace = release_framed_workspace (fst_session st), fs_transport_params = []\<rparr>"

definition stored_policy :: "client_authority \<Rightarrow> framed_stored \<Rightarrow> policy" where
  "stored_policy A st = authority_policy A (Some (fst_transport_params st))"

definition framed_connection_start_into ::
    "(owned_kx, 'k) client_env \<Rightarrow> ('k, 'e) client_lender \<Rightarrow> ('k, 'e) client_sink \<Rightarrow> client_authority \<Rightarrow>
     (framed_stored \<times> 'k, 'e drive_error, unit) eff" where
  "framed_connection_start_into N lend K A = (\<lambda>(st, k).
     case framed_start_into N lend K (stored_policy A st) (fst_session st, k) of
       (r, (s, k)) \<Rightarrow> (r, (st\<lparr>fst_session := s\<rparr>, k)))"

definition framed_connection_read_into ::
    "(owned_kx, 'k) client_env \<Rightarrow> ('k, 'e) client_lender \<Rightarrow> ('k, 'e) client_sink \<Rightarrow> client_authority \<Rightarrow> epoch \<Rightarrow> bytes \<Rightarrow>
     (framed_stored \<times> 'k, 'e drive_error, unit) eff" where
  "framed_connection_read_into N lend K A ep raw = (\<lambda>(st, k).
     case framed_read_into N lend K (stored_policy A st) ep raw (fst_session st, k) of
       (r, (s, k)) \<Rightarrow> (r, (st\<lparr>fst_session := s\<rparr>, k)))"

definition framed_pooled_run ::
    "nat \<Rightarrow> (client_authority \<Rightarrow> (framed_stored \<times> 'k, 'e, 'a) eff) \<Rightarrow> framed_pool \<times> 'k \<Rightarrow>
     (('e + 'a) \<times> framed_pool \<times> 'k) option" where
  "framed_pooled_run i m = (\<lambda>(pl, k).
     case slots_run i (m (fpl_authority pl)) (fpl_slots pl) k of
       None \<Rightarrow> None
     | Some (r, slots, k) \<Rightarrow> Some (r, pl\<lparr>fpl_slots := slots\<rparr>, k))"

definition framed_connection_outbound_layout ::
    "(owned_kx, 'k) client_env \<Rightarrow> client_authority \<Rightarrow> framed_stored \<Rightarrow> conn_error + outbound_layout" where
  "framed_connection_outbound_layout N A st = client_outbound_layout N (fst_session st) (stored_policy A st)"

definition framed_connection_is_done :: "framed_stored \<Rightarrow> bool" where
  "framed_connection_is_done st = client_is_done (cs_handshake (fst_session st))"

definition framed_connection_selected_alpn :: "client_authority \<Rightarrow> framed_stored \<Rightarrow> bytes option" where
  "framed_connection_selected_alpn A st = client_selected_alpn A (fst_session st)"

definition framed_release :: "nat \<Rightarrow> framed_pool \<Rightarrow> framed_pool" where
  "framed_release i pl = pl\<lparr>fpl_slots := slots_release framed_stored_into_seed i (fpl_slots pl)\<rparr>"

text \<open>After the handshake a QUIC connection keeps what tickets need and drops its lease, also when it is refused.\<close>

definition framed_into_quic_post_handshake :: "nat \<Rightarrow> framed_pool \<Rightarrow> ((conn_error + quic_post_handshake) \<times> framed_pool) option" where
  "framed_into_quic_post_handshake i pl =
     (case fpl_slots pl ! i of
        Occupied st \<Rightarrow> Some (into_quic_post_handshake (fpl_authority pl) (fst_session st), framed_release i pl)
      | _ \<Rightarrow> None)"

end
