(* ===== verification/ClientPoolSafety.thy ===== *)
theory ClientPoolSafety
  imports ClientProgress ClientPools ReadStorage
begin

section \<open>What a client pool keeps\<close>

text \<open>
  A client pool gives its ticket to one connection, and every slot keeps the storage the pool's layout reserved.  A session
  without a ticket never comes to one, whatever it receives: \<open>stays\<close> is the one-sided form of \<open>keeps\<close>.
\<close>

definition stays :: "('a \<Rightarrow> bool) \<Rightarrow> ('a \<times> 'k, 'e, 'b) eff \<Rightarrow> bool" where
  "stays P m \<longleftrightarrow> (\<forall>s. P (fst s) \<longrightarrow> P (fst (snd (m s))))"

lemma staysD: "stays P m \<Longrightarrow> m s = (r, t) \<Longrightarrow> P (fst s) \<Longrightarrow> P (fst t)"
  by (metis stays_def snd_conv)

lemma stays_keeps: "keeps v m \<Longrightarrow> (\<And>s t. v s = v t \<Longrightarrow> P s \<Longrightarrow> P t) \<Longrightarrow> stays P m"
  unfolding stays_def keeps_def by metis

lemma stays_bind: "stays P m \<Longrightarrow> (\<And>x. stays P (f x)) \<Longrightarrow> stays P (bindS m f)"
  unfolding stays_def bindS_def by (auto split: prod.splits sum.splits) (metis fst_conv snd_conv)+

lemma stays_seq: "stays P m \<Longrightarrow> stays P n \<Longrightarrow> stays P (seqS m n)"
  unfolding seqS_def by (rule stays_bind)

lemma stays_ask: "(\<And>s. P s \<Longrightarrow> stays P (f (g s))) \<Longrightarrow> stays P (bindS (askS g) f)"
  by (auto simp: stays_def bindS_def askS_def getS_def)

lemma stays_upd: "(\<And>s. P s \<Longrightarrow> P (f s)) \<Longrightarrow> stays P (updS f)"
  by (simp add: stays_def updS_def modS_def split: prod.splits)

lemma stays_with_flight:
  assumes "\<And>b a. P (lens_put L b a) = P a" and "stays P body"
  shows "stays P (with_flight K L suite ep body)"
  using assms
  by (auto simp: stays_def with_flight_def Let_def split: prod.splits sum.splits) (metis fst_conv snd_conv)+

text \<open>Sessions without a ticket.\<close>

abbreviation spent :: "'x client_session \<Rightarrow> bool" where
  "spent s \<equiv> ch_resumption (cs_handshake s) = None"

lemma spent_cstat: "keeps cstat m \<Longrightarrow> stays spent m"
  by (erule stays_keeps) (simp add: cstat_def)

lemma spent_put [simp]: "spent (lens_put client_flight b s) = spent s"
  by (simp add: client_flight_def)

lemma spent_send_hello: "(\<And>s. spent s \<Longrightarrow> spent (after s)) \<Longrightarrow> stays spent (send_hello N K t params r q after)"
  unfolding send_hello_def
  by (intro stays_ask stays_with_flight stays_bind stays_seq stays_upd spent_cstat keeps_request_encode keeps_splice_binder spent_put)
    (auto intro!: cstat_intros cstat_updates)

lemma stays_if: "(b \<Longrightarrow> stays P m) \<Longrightarrow> (\<not> b \<Longrightarrow> stays P n) \<Longrightarrow> stays P (if b then m else n)"
  by simp

lemma stays_prod: "(\<And>a b. x = (a, b) \<Longrightarrow> stays P (f a b)) \<Longrightarrow> stays P (case x of (a, b) \<Rightarrow> f a b)"
  by (cases x) simp

lemma stays_prot: "stays P m \<Longrightarrow> stays P (protS m)"
  by (auto simp: stays_def protS_def map_errS_def split: prod.split) (metis fst_conv snd_conv)

lemmas spent_intros = stays_if stays_prod stays_seq stays_prot stays_bind stays_upd
lemmas spent_basic = keeps_basic [THEN spent_cstat] keeps_prot [THEN spent_cstat] keeps_client_clock [THEN spent_cstat]
  keeps_client_hash [THEN spent_cstat] keeps_generate [THEN spent_cstat] keeps_agree [THEN spent_cstat] keeps_draw [THEN spent_cstat]
  keeps_select_suite [THEN spent_cstat] keeps_announce [THEN spent_cstat] keeps_client_key_update [THEN spent_cstat]
  keeps_new_session_ticket [THEN spent_cstat] keeps_append_flight [THEN spent_cstat] keeps_client_send_message [THEN spent_cstat]
  keeps_verify_finished [THEN spent_cstat] keeps_activate_client [THEN spent_cstat] keeps_end_early_data [THEN spent_cstat]

lemma spent_updates [simp]:
  "spent (client_absorb bs s) = spent s" "spent (client_set_state st s) = spent s"
  by (simp_all add: client_absorb_def client_set_state_def)

lemma no_ticket_to_offer: "resumable offer None = None" "age_offer now None = (None, None)"
  by (simp_all add: resumable_def age_offer_def)

lemma spent_start: "stays spent (client_start N K p params)"
  unfolding client_start_def
  by (intro stays_seq spent_basic, rule stays_ask)
    (simp only: no_ticket_to_offer Let_def prod.case, intro spent_intros spent_basic spent_send_hello; simp)

lemma spent_retry: "stays spent (handle_hello_retry_request N K p hrr raw)"
proof -
  have "stays spent (finish_hello_retry_request N K p grp cookie)" for grp cookie
    unfolding finish_hello_retry_request_def
    by (intro stays_seq stays_upd, simp, rule stays_ask)
      (simp only: no_ticket_to_offer Let_def prod.case, intro spent_intros spent_basic spent_send_hello; simp)
  then show ?thesis
    unfolding handle_hello_retry_request_def by (intro spent_intros spent_basic; simp)
qed

lemma spent_server_hello: "stays spent (handle_server_hello N K p sh raw)"
  unfolding handle_server_hello_def accept_server_hello_def derive_handshake_secrets_def Let_def
  by (intro spent_intros spent_basic spent_retry; simp)

text \<open>The later handlers do not touch the ticket at all.\<close>

abbreviation ticket_of :: "'x client_session \<Rightarrow> active_resumption option" where
  "ticket_of s \<equiv> ch_resumption (cs_handshake s)"

lemma ticket_updates [simp]:
  "ticket_of (client_absorb bs s) = ticket_of s" "ticket_of (client_set_state st s) = ticket_of s"
  "ticket_of (snd (client_on_traffic m s)) = ticket_of s" "ticket_of (lens_put client_flight b s) = ticket_of s"
  by (simp_all add: client_absorb_def client_set_state_def client_on_traffic_def client_flight_def split: prod.split)

lemma spent_ticket: "keeps ticket_of m \<Longrightarrow> stays spent m"
  by (erule stays_keeps) simp

lemma ticket_cstat: "keeps cstat m \<Longrightarrow> keeps ticket_of m"
  by (rule keepsI) (auto simp: keeps_def cstat_def)

lemma ticket_try_extend:
  "ticket_of (snd (case bb_try_extend bs (bb_clear (cs_flight s)) of (r, b) \<Rightarrow> (map_err g r, s\<lparr>cs_flight := b\<rparr>))) = ticket_of s"
  by (simp split: prod.split)

lemma ticket_extensions: "keeps ticket_of (handle_encrypted_extensions N K p ee raw secrets)"
  unfolding handle_encrypted_extensions_def Let_def by (intro cstat_intros; simp)

lemma ticket_request: "keeps ticket_of (handle_certificate_request p cr raw)"
  unfolding handle_certificate_request_def by (intro cstat_intros; simp)

lemma ticket_certificate: "keeps ticket_of (handle_certificate N p c raw secrets)"
  unfolding handle_certificate_def
  by (cases "tp_verifier (policy_template p)") (simp_all, (intro cstat_intros ticket_try_extend; simp)+)

lemma ticket_certificate_verify: "keeps ticket_of (handle_certificate_verify N p cv raw secrets leaf)"
  unfolding handle_certificate_verify_def by (intro cstat_intros; simp)

lemma ticket_finished: "keeps ticket_of (handle_server_finished N K p sf raw secrets)"
  unfolding handle_server_finished_def send_client_finished_def Let_def
  by (intro cstat_intros ticket_cstat [OF keeps_append_flight] ticket_cstat [OF keeps_client_send_message]
      ticket_cstat [OF keeps_verify_finished] ticket_cstat [OF keeps_activate_client] ticket_cstat [OF keeps_end_early_data]; simp)

lemmas spent_handlers = spent_server_hello ticket_extensions [THEN spent_ticket] ticket_request [THEN spent_ticket]
  ticket_certificate [THEN spent_ticket] ticket_certificate_verify [THEN spent_ticket] ticket_finished [THEN spent_ticket]

lemma spent_dispatch: "stays spent (client_dispatch N K p ep msg raw)"
  unfolding client_dispatch_def
  apply (intro stays_bind stays_seq stays_upd spent_basic)
   apply simp
  subgoal for state by (cases state; cases msg; simp; intro impI conjI spent_intros spent_basic spent_handlers; simp)
  done

lemma spent_message: "stays spent (client_message N K p ep raw)"
  unfolding client_message_def by (intro spent_intros spent_basic spent_dispatch)

subsection \<open>Connections\<close>

text \<open>The extents of a connection's two buffers, and what the entry points keep: the extents, and the absence of a ticket.\<close>

definition core_storage :: "'x client_core \<Rightarrow> (nat \<times> nat) \<times> nat \<times> nat" where
  "core_storage c = (extent (rs_buf (core_reassembler c)), own (core_session c))"

definition settled :: "'x client_core \<Rightarrow> 'x client_core \<Rightarrow> bool" where
  "settled c c' \<longleftrightarrow> core_storage c' = core_storage c \<and> (spent (core_session c) \<longrightarrow> spent (core_session c'))"

lemma settled_poison: "core_storage c' = core_storage c \<Longrightarrow> settled c (core_poison I c')"
  by (simp add: settled_def core_storage_def core_poison_def client_poison_def reassembler_discard_def own_def)

lemma settled_session:
  "own s = own (core_session c) \<Longrightarrow> (spent (core_session c) \<Longrightarrow> spent s) \<Longrightarrow> settled c (c\<lparr>core_session := s\<rparr>)"
  by (simp add: settled_def core_storage_def)

lemma settled_refl [simp]: "settled c c"
  by (simp add: settled_def)

lemma settled_start: "core_start_into N K p (c, k) = (r, (c', k')) \<Longrightarrow> settled c c'"
  using keepsD [OF own_start, of N K p None "(core_session c, k)"] staysD [OF spent_start, of N K p None "(core_session c, k)"]
  by (auto simp: core_start_into_def Let_def core_storage_def split: if_splits sum.splits prod.splits
      intro!: settled_poison settled_session)

lemma settled_read: "core_read_into N K p ep data (c, k) = (r, (c', k')) \<Longrightarrow> settled c c'"
proof -
  assume run: "core_read_into N K p ep data (c, k) = (r, (c', k'))"
  let ?P = "\<lambda>t. own (fst t) = own (core_session c) \<and> (spent (core_session c) \<longrightarrow> spent (fst t))"
  have step: "?P (snd (client_message N K p ep m t))" if "?P t" for m t
    using that keepsD [OF own_message, of N K p ep m t] staysD [OF spent_message, of N K p ep m t]
    by (metis prod.collapse)
  have "extent (rs_buf r1) = extent (rs_buf (core_reassembler c)) \<and> ?P t"
    if "client_read N K p ep data (core_reassembler c) (core_session c, k) = (x, r1, t)" for x r1 t
    using reassembler_read_keeps [of ?P, OF step that [unfolded client_read_def]] by simp
  then show ?thesis
    using run by (auto simp: core_read_into_def core_storage_def settled_def [of c "\<lparr>core_reassembler = _, core_session = _\<rparr>"]
        split: if_splits sum.splits prod.splits intro!: settled_poison)
qed

lemma settled_traffic: "settled c (core_set_traffic t c)"
  by (simp add: core_set_traffic_def settled_def core_storage_def)

lemma storage_traffic: "core_storage (core_set_traffic t c) = core_storage c"
  by (simp add: core_set_traffic_def core_storage_def)

lemma settled_update: "client_updates_send_into N K A request (c, k) = (r, (c', k')) \<Longrightarrow> settled c c'"
  by (auto simp: client_updates_send_into_def storage_traffic split: if_splits sum.splits prod.splits
      intro!: settled_poison settled_traffic)

subsection \<open>Pools\<close>

text \<open>Everything that can happen to a client pool, in any order.\<close>

inductive client_pool_step ::
    "(owned_kx, 'k) client_env \<Rightarrow> ('k, 'e) client_sink \<Rightarrow> slab \<Rightarrow> client_pool \<times> 'k \<Rightarrow> client_pool \<times> 'k \<Rightarrow> bool"
  for N :: "(owned_kx, 'k) client_env" and K :: "('k, 'e) client_sink" and vacant :: slab where
  ClientConnect: "pool_connect vacant pl = (lease, pl') \<Longrightarrow> client_pool_step N K vacant (pl, k) (pl', k)"
| ClientStart: "pooled_connection_start_into N K i (pl, k) = Some (r, c) \<Longrightarrow> client_pool_step N K vacant (pl, k) c"
| ClientRead: "pooled_client_read_into N K i ep data (pl, k) = Some (r, c) \<Longrightarrow> client_pool_step N K vacant (pl, k) c"
| ClientUpdate: "pooled_client_send_update N K i request (pl, k) = Some (r, c) \<Longrightarrow> client_pool_step N K vacant (pl, k) c"
| ClientNote: "pooled_client_note_application_data i (pl, k) = Some (r, c) \<Longrightarrow> client_pool_step N K vacant (pl, k) c"
| ClientRelease: "client_pool_step N K vacant (pl, k) (pooled_client_release i pl, k)"

definition reserved :: "client_layout \<Rightarrow> (nat \<times> nat) \<times> nat \<times> nat" where
  "reserved l = ((0, cl_fragmented_message l), 0, cl_outbound_flight l)"

abbreviation core_ok :: "client_layout \<Rightarrow> 'x client_core \<Rightarrow> bool" where
  "core_ok l c \<equiv> core_storage c = reserved l"

abbreviation workspace_ok :: "client_layout \<Rightarrow> client_workspace \<Rightarrow> bool" where
  "workspace_ok l w \<equiv> (extent (cw_reassembly w), extent (cw_flight w)) = reserved l"

interpretation client_slots: recycled_slots "workspace_ok l" "core_ok l"
    "\<lambda>(resumption, early) w. core_new w resumption early" client_stored_into_seed for l
  by unfold_locales
    (auto simp: core_storage_def core_new_def own_def reassembler_with_buffer_def client_stored_into_seed_def core_into_workspace_def
      release_workspace_def workspace_from_buffers_def release_buffer_def)

text \<open>The pool's ticket, and those its connections hold.\<close>

definition tickets :: "client_pool \<Rightarrow> nat" where
  "tickets pl = (if pl_first pl = None then 0 else 1) + leased (\<lambda>c. \<not> spent (core_session c)) (pl_slots pl)"

definition client_pool_inv :: "client_authority \<Rightarrow> client_layout \<Rightarrow> client_pool \<times> 'k \<Rightarrow> bool" where
  "client_pool_inv A l = (\<lambda>(pl, k).
     pl_authority pl = A \<and> slots_fit (workspace_ok l) (core_ok l) (pl_slots pl) \<and> tickets pl \<le> 1)"

lemma connect_inv:
  assumes "pool_connect vacant pl = (lease, pl')" and "client_pool_inv A l (pl, k)"
  shows "client_pool_inv A l (pl', k)"
proof (cases lease)
  case None
  with assms show ?thesis by (auto simp: pool_connect_def split: prod.splits option.splits)
next
  case (Some i)
  let ?fill = "\<lambda>w. core_new w (pl_first pl) (pl_enable_early_data pl)"
  obtain slots where run: "slots_insert vacant ?fill (pl_slots pl) = (Some i, slots)"
      "pl' = pl\<lparr>pl_first := None, pl_slots := slots\<rparr>"
    using assms(1) Some by (auto simp: pool_connect_def split: prod.splits option.splits)
  have "slots_fit (workspace_ok l) (core_ok l) slots"
    using client_slots.insert_fit [of vacant "(pl_first pl, pl_enable_early_data pl)" "pl_slots pl"] run(1) assms(2)
    by (auto simp: client_pool_inv_def)
  moreover have "leased (\<lambda>c. \<not> spent (core_session c)) slots
      \<le> leased (\<lambda>c. \<not> spent (core_session c)) (pl_slots pl) + (if pl_first pl = None then 0 else 1)"
    by (rule leased_insert [OF run(1)]) (auto simp: core_new_def client_handshake_initial_def split: if_splits)
  ultimately show ?thesis
    using assms(2) run(2) by (auto simp: client_pool_inv_def tickets_def)
qed

lemma client_pooled_run_inv:
  assumes "\<And>A c k r c' k'. m A (c, k) = (r, (c', k')) \<Longrightarrow> settled c c'"
    and "client_pooled_run i m (pl, k) = Some (r, pl', k')" and "client_pool_inv A l (pl, k)"
  shows "client_pool_inv A l (pl', k')"
proof -
  obtain slots where run: "slots_run i (m (pl_authority pl)) (pl_slots pl) k = Some (r, slots, k')" "pl' = pl\<lparr>pl_slots := slots\<rparr>"
    using assms(2) by (auto simp: client_pooled_run_def split: option.splits prod.splits)
  have "slots_fit (workspace_ok l) (core_ok l) slots"
    using assms(3) by (auto simp: client_pool_inv_def intro!: slots_run_fit [OF run(1)] dest!: assms(1) simp: settled_def)
  moreover have "leased (\<lambda>c. \<not> spent (core_session c)) slots \<le> leased (\<lambda>c. \<not> spent (core_session c)) (pl_slots pl)"
    by (rule leased_run [OF run(1)]) (auto dest!: assms(1) simp: settled_def)
  ultimately show ?thesis
    using assms(3) run(2) by (auto simp: client_pool_inv_def tickets_def)
qed

lemma client_pool_step_inv: "client_pool_step N K vacant c c' \<Longrightarrow> client_pool_inv A l c \<Longrightarrow> client_pool_inv A l c'"
proof (induction rule: client_pool_step.induct)
  case (ClientRelease pl k i)
  then show ?case
    using leased_release [of "\<lambda>c. \<not> spent (core_session c)" client_stored_into_seed i "pl_slots pl"]
    by (auto simp: client_pool_inv_def pooled_client_release_def tickets_def intro: client_slots.release_fit)
qed (auto intro: connect_inv elim!: client_pooled_run_inv [rotated] dest: settled_start settled_read settled_update
    simp: settled_traffic client_note_application_data_def pooled_connection_start_into_def pooled_client_read_into_def
    pooled_client_send_update_def pooled_client_note_application_data_def pooled_start_into_def pooled_read_into_def)

lemma client_pool_reach_inv: "rtranclp (client_pool_step N K vacant) c c' \<Longrightarrow> client_pool_inv A l c \<Longrightarrow> client_pool_inv A l c'"
  by (induction rule: rtranclp_induct) (auto intro: client_pool_step_inv)

lemma fresh_client_pool_inv:
  "client_pool_inv (pl_authority (pool_new S identity n pr)) (authority_workspace_layout S (pl_authority (pool_new S identity n pr)))
     (pool_new S identity n pr, k)"
  by (simp add: client_pool_inv_def pool_new_def Let_def tickets_def list_all_iff client_layout_allocate_def reserved_def
      bb_with_capacity_def extent_def)

text \<open>
  C16.  A client pool hands its ticket to one connection only, and keeps its storage.  From a new pool, after any
  interleaving of connects, starts, reads, key updates and dropped leases, with a slab that may hand out vacant slots as it
  likes: the pool and its leased connections together hold at most one ticket, so that no ticket is offered on two
  connections; and the storage each connection gives back is admitted by the layout of the pool's authority.
\<close>

theorem pool_ticket_once:
  assumes "rtranclp (client_pool_step N K vacant) (pool_new S identity n pr, k) (pl, k')"
  shows "(if pl_first pl = None then 0 else 1) +
      leased (\<lambda>c. ch_resumption (cs_handshake (core_session c)) \<noteq> None) (pl_slots pl) \<le> 1 \<and>
    (\<forall>c. Occupied c \<in> set (pl_slots pl) \<longrightarrow>
      client_layout_admit (authority_workspace_layout S (pl_authority pl)) (client_stored_into_seed c) = Inr (client_stored_into_seed c))"
proof -
  let ?l = "authority_workspace_layout S (pl_authority pl)"
  have inv: "client_pool_inv (pl_authority pl) ?l (pl, k')"
    using client_pool_reach_inv [OF assms fresh_client_pool_inv] by (simp add: client_pool_inv_def)
  have "client_layout_admit ?l (client_stored_into_seed c) = Inr (client_stored_into_seed c)" if "Occupied c \<in> set (pl_slots pl)" for c
  proof -
    have "core_ok ?l c" using inv that by (auto simp: client_pool_inv_def list_all_iff)
    from client_slots.recycle_fits [OF this] show ?thesis
      by (auto simp: client_layout_admit_def client_workspace_layout_def reserved_def extent_def bb_capacity_def)
  qed
  with inv show ?thesis by (simp add: client_pool_inv_def tickets_def)
qed

text \<open>A pool with a ticket and two slots, both of which are connected.\<close>

theorem pool_ticket_once_witness:
  "let A = client_authority_new sample_template None; l = authority_workspace_layout (sample_sign :: unit sign_ops) A;
       w = client_layout_allocate l; c = core_new w (Some sample_active) False; d = core_new w None False in
   leased (\<lambda>c. ch_resumption (cs_handshake (core_session c)) \<noteq> None) [Occupied c, Occupied d :: (client_workspace, owned_kx client_core) slot] \<le> 1 \<and>
   client_layout_admit l (client_stored_into_seed c) = Inr (client_stored_into_seed c)"
proof -
  let ?S = "sample_sign :: unit sign_ops"
  let ?pr = "\<lparr>pp_template = sample_template, pp_resumption = Some sample_active, pp_enable_early_data = False\<rparr>"
  let ?A = "client_authority_new sample_template None"
  let ?w = "client_layout_allocate (authority_workspace_layout ?S ?A)"
  let ?c = "core_new ?w (Some sample_active) False" and ?d = "core_new ?w None False"
  let ?pl = "pool_new ?S None 2 ?pr"
  let ?pl1 = "?pl\<lparr>pl_first := None, pl_slots := [Occupied ?c, Vacant ?w]\<rparr>"
  let ?pl2 = "?pl1\<lparr>pl_slots := [Occupied ?c, Occupied ?d]\<rparr>"
  let ?step = "client_pool_step sample_client_env client_sample_sink first_vacant"
  have "pool_connect first_vacant ?pl = (Some 0, ?pl1)" "pool_connect first_vacant ?pl1 = (Some 1, ?pl2)"
    by (simp_all add: pool_connect_def slots_insert_def vacant_entry_def first_vacant_def pool_new_def Let_def numeral_2_eq_2)
  then have "?step (?pl, ()) (?pl1, ())" "?step (?pl1, ()) (?pl2, ())" by (auto intro: ClientConnect)
  then have "rtranclp ?step (?pl, ()) (?pl2, ())" by simp
  from pool_ticket_once [OF this] show ?thesis by (simp add: Let_def pool_new_def)
qed

end
