(* ===== verification/TrustStore.thy ===== *)
theory TrustStore
  imports ClientTrust Samples
begin

section \<open>The trust store finds what a scan of all anchors would\<close>

text \<open>
  \<open>TrustStore\<close> sorts its anchors by the key of their subject and looks at one run of equal keys only.  The
  lookup is compared with the exhaustive search over the anchors it was built from.
\<close>

text \<open>What one anchor contributes: a match when its subject is the issuer and its key verifies the signature.\<close>

definition anchor_matches :: "unicode \<Rightarrow> crypto \<Rightarrow> ring_verify \<Rightarrow> path_cert \<Rightarrow> owned_trust_anchor \<Rightarrow> anchor_match \<Rightarrow> bool" where
  "anchor_matches U C RV subject a m \<longleftrightarrow>
     (\<exists>p. prepared_anchor_new U C a = Inr p \<and> dn_equivalent U (ota_subject_der a) (pc_issuer subject) \<and>
        verify_signature RV (pc_signed subject) (pt_spki p) = Inr () \<and>
        m = \<lparr>am_constraints = map_option AmPrepared (pt_constraints p)\<rparr>)"

definition prepared_match :: "unicode \<Rightarrow> ring_verify \<Rightarrow> path_cert \<Rightarrow> prepared_trust_anchor \<Rightarrow> anchor_match option" where
  "prepared_match U RV subject a =
     (if dn_equivalent U (pt_subject_der a) (pc_issuer subject) \<and> verify_signature RV (pc_signed subject) (pt_spki a) = Inr ()
      then Some \<lparr>am_constraints = map_option AmPrepared (pt_constraints a)\<rparr> else None)"

lemma store_scan_Cons:
  "store_scan U RV subject (a # as) =
     (if pt_subject_key a \<noteq> pc_issuer_key subject then None
      else case prepared_match U RV subject a of None \<Rightarrow> store_scan U RV subject as | Some m \<Rightarrow> Some m)"
  by (simp add: prepared_match_def split: sum.split)

lemma store_scan_sound:
  "store_scan U RV subject as = Some m \<Longrightarrow> \<exists>a \<in> set as. prepared_match U RV subject a = Some m"
  by (induction as) (auto simp: store_scan_Cons split: if_splits option.splits simp del: store_scan.simps(2))

lemma store_scan_complete:
  assumes "sorted (map pt_subject_key as)" and "\<forall>a \<in> set as. pc_issuer_key subject \<le> pt_subject_key a"
    and "store_scan U RV subject as = None" and "a \<in> set as" and "pt_subject_key a = pc_issuer_key subject"
  shows "prepared_match U RV subject a = None"
  using assms
proof (induction as)
  case (Cons b as)
  show ?case
  proof (cases "pt_subject_key b = pc_issuer_key subject")
    case True
    with Cons show ?thesis by (auto simp: store_scan_Cons split: option.splits simp del: store_scan.simps(2))
  next
    case False
    then have "pc_issuer_key subject < pt_subject_key b" using Cons.prems(2) by (auto simp: less_le)
    with Cons.prems(1,4,5) False show ?thesis by auto
  qed
qed simp

lemma after_partition_point:
  assumes "sorted (map f xs)"
  shows "\<forall>x \<in> set (drop (partition_point (\<lambda>x. f x < k) xs) xs). k \<le> f x"
    and "x \<in> set xs \<Longrightarrow> \<not> f x < k \<Longrightarrow> x \<in> set (drop (partition_point (\<lambda>x. f x < k) xs) xs)"
  using assms by (induction xs) (auto simp: partition_point_def)

lemma prepare_anchors_set:
  assumes "prepare_anchors U C i anchors = Inr ps"
  shows "set ps = {p. \<exists>a \<in> set anchors. prepared_anchor_new U C a = Inr p}" "\<forall>a \<in> set anchors. \<exists>p. prepared_anchor_new U C a = Inr p"
  using assms by (induction U C i anchors arbitrary: ps rule: prepare_anchors.induct) (auto simp: and_then_eq_Inr)

lemma prepared_anchor_fields:
  "prepared_anchor_new U C a = Inr p \<Longrightarrow> pt_subject_der p = ota_subject_der a \<and> name_key_new U C (ota_subject_der a) = Inr (pt_subject_key p)"
  by (auto simp: prepared_anchor_new_def dn_prepared_def and_then_eq_Inr)

lemma sorted_store: "sorted (map pt_subject_key (sort_key (\<lambda>a. (pt_subject_key a, pt_subject_der a)) ps))"
proof -
  have "sorted (map (\<lambda>a. (pt_subject_key a, pt_subject_der a)) (sort_key (\<lambda>a. (pt_subject_key a, pt_subject_der a)) ps))" by simp
  then show ?thesis by (simp add: sorted_map less_eq_prod_def) (erule sorted_wrt_mono_rel [rotated], auto)
qed

lemma store_lookup_sound:
  assumes "store_new U C anchors = Inr store" and "store_verify_subject U RV store subject = Inr (Some m)"
  shows "\<exists>a \<in> set anchors. anchor_matches U C RV subject a m"
proof -
  obtain ps where ps: "prepare_anchors U C 0 anchors = Inr ps" "set store = set ps"
    using assms(1) by (auto simp: store_new_def and_then_eq_Inr split: if_splits)
  obtain p where p: "p \<in> set store" "prepared_match U RV subject p = Some m"
    using assms(2) store_scan_sound in_set_dropD by (fastforce simp: store_verify_subject_def Let_def)
  obtain a where a: "a \<in> set anchors" "prepared_anchor_new U C a = Inr p" using prepare_anchors_set(1) [OF ps(1)] ps(2) p(1) by auto
  then show ?thesis
    using p(2) prepared_anchor_fields [OF a(2)] by (auto simp: anchor_matches_def prepared_match_def split: if_splits)
qed

text \<open>
  C14.  The trust store's lookup is the exhaustive search.  For a certificate whose issuer key was
  computed when it was parsed, the lookup in a store built from a list of anchors returns only matches of anchors
  of that list, and returns none exactly when no anchor of the list both carries the issuer's
  name (up to the equivalence of names) and verifies the signature.
\<close>

theorem store_lookup_exhaustive:
  assumes "crypto_ok C" and "store_new U C anchors = Inr store" and "name_key_new U C (pc_issuer subject) = Inr (pc_issuer_key subject)"
  shows "(\<forall>m. store_verify_subject U RV store subject = Inr (Some m) \<longrightarrow> (\<exists>a \<in> set anchors. anchor_matches U C RV subject a m)) \<and>
    (store_verify_subject U RV store subject = Inr None \<longleftrightarrow> (\<forall>a \<in> set anchors. \<nexists>m. anchor_matches U C RV subject a m))"
proof -
  obtain ps where ps: "prepare_anchors U C 0 anchors = Inr ps" "store = sort_key (\<lambda>a. (pt_subject_key a, pt_subject_der a)) ps"
    using assms(2) by (auto simp: store_new_def and_then_eq_Inr split: if_splits)
  have set: "p \<in> set store \<longleftrightarrow> (\<exists>a \<in> set anchors. prepared_anchor_new U C a = Inr p)" for p
    using prepare_anchors_set(1) [OF ps(1)] ps(2) by auto
  let ?rest = "drop (partition_point (\<lambda>a. pt_subject_key a < pc_issuer_key subject) store) store"
  have lookup: "store_verify_subject U RV store subject = Inr (store_scan U RV subject ?rest)"
    by (simp add: store_verify_subject_def Let_def)
  have sorted: "sorted (map pt_subject_key store)" using sorted_store ps(2) by simp
  have iff: "(\<exists>m. anchor_matches U C RV subject a m) \<longleftrightarrow> prepared_match U RV subject p \<noteq> None"
      "anchor_matches U C RV subject a m \<longleftrightarrow> prepared_match U RV subject p = Some m"
    if "prepared_anchor_new U C a = Inr p" for a p m
    using that prepared_anchor_fields [OF that] by (auto simp: anchor_matches_def prepared_match_def)
  have key: "pt_subject_key p = pc_issuer_key subject" if "p \<in> set store" "prepared_match U RV subject p \<noteq> None" for p
    using that set prepared_anchor_fields name_key_sound [OF assms(1) _ _ assms(3), of "pt_subject_der p"]
    by (fastforce simp: prepared_match_def split: if_splits)
  have sound: "\<exists>a \<in> set anchors. anchor_matches U C RV subject a m" if "store_scan U RV subject ?rest = Some m" for m
    using store_scan_sound [OF that] set iff(2) in_set_dropD by metis
  have complete: "\<nexists>m. anchor_matches U C RV subject a m" if none: "store_scan U RV subject ?rest = None" and a: "a \<in> set anchors" for a
  proof -
    obtain p where p: "prepared_anchor_new U C a = Inr p" "p \<in> set store"
      using prepare_anchors_set(2) [OF ps(1)] a set by blast
    have "prepared_match U RV subject p = None" if k: "pt_subject_key p = pc_issuer_key subject"
    proof (rule store_scan_complete [OF _ after_partition_point(1) [OF sorted] none _ k])
      show "sorted (map pt_subject_key ?rest)" using sorted by (simp add: drop_map [symmetric])
      show "p \<in> set ?rest" using after_partition_point(2) [OF sorted p(2)] k by simp
    qed
    then show ?thesis using key p iff(1) by blast
  qed
  show ?thesis using lookup sound complete by (cases "store_scan U RV subject ?rest") auto
qed

text \<open>An anchor whose subject is another encoding of the issuer's name is found.\<close>

lemma sample_spki_parses:
  "\<exists>spki. spki_parse_standalone sample_spki = Inr spki \<and> spki_algorithm spki = PkEd25519"
proof -
  obtain spki :: subject_public_key_info where s: "spki_parse_standalone sample_spki = Inr spki"
      "(case spki_algorithm spki of PkEd25519 \<Rightarrow> leaf_key_from_x509_spki spki
        | PkEc _ \<Rightarrow> leaf_key_from_x509_spki spki | _ \<Rightarrow> Inl SpkiErr) = Inr (LkEd25519 (replicate 32 7))"
    using sample_leaf_key unfolding leaf_key_from_spki_def and_then_eq_Inr by (auto simp: map_err_def split: sum.split_asm)
  then have "spki_algorithm spki = PkEd25519"
    by (cases "spki_algorithm spki")
      (auto simp: leaf_key_from_x509_spki_def leaf_key_from_raw_def split: named_curve.splits if_split_asm)
  with s(1) show ?thesis by blast
qed

theorem store_lookup_exhaustive_witness:
  "\<exists>store k. store_new sample_unicode crypto_toy [owned_unconstrained sample_name sample_spki] = Inr store \<and>
     name_key_new sample_unicode crypto_toy sample_name2 = Inr k \<and>
     store_verify_subject sample_unicode (\<lambda>_ _ _ _. True) store (sample_leaf\<lparr>pc_issuer := sample_name2, pc_issuer_key := k\<rparr>) \<noteq> Inr None"
proof -
  let ?a = "owned_unconstrained sample_name sample_spki" and ?c = "\<lambda>k. sample_leaf\<lparr>pc_issuer := sample_name2, pc_issuer_key := k\<rparr>"
  obtain k k2 where k: "name_key_new sample_unicode crypto_toy sample_name = Inr k" "name_key_new sample_unicode crypto_toy sample_name2 = Inr k2"
    using sample_keys by blast
  obtain spki where spki: "spki_parse_standalone sample_spki = Inr spki" "spki_algorithm spki = PkEd25519" using sample_spki_parses by blast
  have p: "prepared_anchor_new sample_unicode crypto_toy ?a =
      Inr \<lparr>pt_subject_der = sample_name, pt_subject_key = k, pt_spki = spki, pt_constraints = None\<rparr>"
    by (simp add: prepared_anchor_new_def owned_unconstrained_def dn_prepared_def k spki)
  then have store: "\<exists>store. store_new sample_unicode crypto_toy [?a] = Inr store"
    by (simp add: store_new_def MAX_TRUST_ANCHORS_def)
  have "verify_signature (\<lambda>_ _ _ _. True) (pc_signed (?c k2)) spki = Inr ()"
    by (simp add: verify_signature_def sample_leaf_def spki)
  with p have "\<exists>m. anchor_matches sample_unicode crypto_toy (\<lambda>_ _ _ _. True) (?c k2) ?a m"
    using sample_equivalent by (simp add: anchor_matches_def owned_unconstrained_def)
  then show ?thesis
    using store store_lookup_exhaustive [OF crypto_toy_ok, of sample_unicode "[?a]" _ "?c k2" "\<lambda>_ _ _ _. True"] k(2) by fastforce
qed

end
