(* ===== verification/PathSpec.thy ===== *)
theory PathSpec
  imports Chain
begin

section \<open>Certificate paths, declaratively\<close>

unbundle bit_operations_syntax

text \<open>
  What RFC 5280 asks of a certificate path, stated over the extensions of the certificates themselves, and the proof that
  \<open>Chain::validate\<close> accepts such paths only.  The compact profiles, flag words, kind masks and lazily parsed constraints that the
  code works with do not occur in the specification.
\<close>

subsection \<open>Names\<close>

text \<open>The names of a GeneralNames value, and the bases of a list of subtrees.\<close>

function general_names :: "bytes \<Rightarrow> general_name list" where
  "general_names r =
     (case general_name_next r of Some (Inr (n, r')) \<Rightarrow> n # general_names r' | _ \<Rightarrow> [])"
  by pat_completeness auto
termination
  by (relation "measure length") (auto dest: general_name_next_shorter)

declare general_names.simps [simp del]

function subtree_bases :: "bytes \<Rightarrow> general_name list" where
  "subtree_bases r =
     (case subtree_next r of Some (Inr (n, r')) \<Rightarrow> n # subtree_bases r' | _ \<Rightarrow> [])"
  by pat_completeness auto
termination
  by (relation "measure length") (auto dest: subtree_next_shorter)

declare subtree_bases.simps [simp del]

text \<open>
  A name is inside a base when both are DNS names and the labels of the one end with those of the other, or both are addresses and
  agree on the bits of the mask.
\<close>

fun inside :: "general_name \<Rightarrow> general_name \<Rightarrow> bool" where
  "inside (DnsName name) (DnsName base) \<longleftrightarrow> dns_in_subtree name base"
| "inside (IpAddress address) (IpAddress network) \<longleftrightarrow> ip_in_subtree address network"
| "inside _ _ \<longleftrightarrow> False"

fun same_form :: "general_name \<Rightarrow> general_name \<Rightarrow> bool" where
  "same_form (DnsName _) (DnsName _) \<longleftrightarrow> True"
| "same_form (IpAddress _) (IpAddress _) \<longleftrightarrow> True"
| "same_form _ _ \<longleftrightarrow> False"

fun supported_form :: "general_name \<Rightarrow> bool" where
  "supported_form (OtherName _ _) \<longleftrightarrow> False"
| "supported_form _ \<longleftrightarrow> True"

text \<open>
  Constraints allow a name that is inside no excluded base and, when there is a permitted base of its form, inside
  one of those.  Constraints with bases of other forms allow nothing.
\<close>

definition allowed :: "general_name list \<Rightarrow> general_name list \<Rightarrow> general_name \<Rightarrow> bool" where
  "allowed permitted excluded n \<longleftrightarrow>
     (\<forall>b\<in>set excluded. \<not> inside n b) \<and>
     ((\<exists>b\<in>set permitted. same_form n b) \<longrightarrow> (\<exists>b\<in>set permitted. inside n b))"

definition constraints_allow :: "name_constraints \<Rightarrow> general_name set \<Rightarrow> bool" where
  "constraints_allow c names \<longleftrightarrow>
     (let permitted = subtree_bases (subtrees_reader (nc_permitted c)); excluded = subtree_bases (subtrees_reader (nc_excluded c)) in
      (\<forall>b \<in> set permitted \<union> set excluded. supported_form b) \<and> (\<forall>n\<in>names. allowed permitted excluded n))"

subsection \<open>Subtrees\<close>

lemma any_subtree_iff: "any_subtree test r = Inr b \<Longrightarrow> b \<longleftrightarrow> (\<exists>n\<in>set (subtree_bases r). test n)"
proof (induction test r rule: any_subtree.induct)
  case (1 test r)
  then show ?case
    unfolding any_subtree.simps [of test r] subtree_bases.simps [of r]
    by (auto split: option.splits sum.splits prod.splits if_splits) blast
qed

lemma dns_matches_iff:
  "dns_matches name s = Inr b \<Longrightarrow> b \<longleftrightarrow> (\<exists>n\<in>set (subtree_bases (subtrees_reader s)). inside (DnsName name) n)"
proof -
  have "dns_subtree_test name n = inside (DnsName name) n" for n by (cases n) simp_all
  then show "dns_matches name s = Inr b \<Longrightarrow> b \<longleftrightarrow> (\<exists>n\<in>set (subtree_bases (subtrees_reader s)). inside (DnsName name) n)"
    unfolding dns_matches_def by (drule_tac any_subtree_iff) simp
qed

lemma ip_matches_iff:
  "ip_matches address s = Inr b \<Longrightarrow> b \<longleftrightarrow> (\<exists>n\<in>set (subtree_bases (subtrees_reader s)). inside (IpAddress address) n)"
proof -
  have "ip_subtree_test address n = inside (IpAddress address) n" for n by (cases n) simp_all
  then show "ip_matches address s = Inr b \<Longrightarrow> b \<longleftrightarrow> (\<exists>n\<in>set (subtree_bases (subtrees_reader s)). inside (IpAddress address) n)"
    unfolding ip_matches_def by (drule_tac any_subtree_iff) simp
qed

text \<open>The kind mask of a parsed list of subtrees says which forms occur among its bases.\<close>

lemma subtrees_loop_kinds:
  "subtrees_loop r count kinds = Inr (count', kinds') \<Longrightarrow>
     kinds' AND k \<noteq> 0 \<longleftrightarrow> kinds AND k \<noteq> 0 \<or> (\<exists>n\<in>set (subtree_bases r). subtree_kind n AND k \<noteq> 0)"
proof (induction r count kinds rule: subtrees_loop.induct)
  case (1 r count kinds)
  show ?case
  proof (cases "r = []")
    case True
    with 1(2) show ?thesis by (simp add: subtrees_loop.simps [of "[]"] subtree_bases.simps [of "[]"] subtree_next_def)
  next
    case False
    then obtain sub r' t sr base where step: "cert_der (read_tagged TAG_SEQUENCE r) = Inr (sub, r')" "cert_der (read_tlv sub) = Inr (t, sr)"
        "general_name_from_tlv t = Inr base" "validate_general_name base True = Inr ()" "cert_der (der_finish sr) = Inr ()"
        "\<not> count + 1 > MAX_EXTENSION_VALUES" "subtrees_loop r' (count + 1) (kinds OR subtree_kind base) = Inr (count', kinds')"
      using 1(2) by (auto simp: subtrees_loop.simps [of r] and_then_eq_Inr split: if_splits)
    have "subtree_next r = Some (Inr (base, r'))" using False by (simp add: subtree_next_def step(1) step(2) step(3))
    then have "subtree_bases r = base # subtree_bases r'" by (simp add: subtree_bases.simps [of r])
    moreover have "(kinds OR subtree_kind base) AND k \<noteq> 0 \<longleftrightarrow> kinds AND k \<noteq> 0 \<or> subtree_kind base AND k \<noteq> 0"
      by (auto simp: bit_eq_iff bit_simps)
    ultimately show ?thesis
      using 1(1) [OF False step(1) refl step(2) refl step(3) step(4) step(5) step(6) step(7)] by auto
  qed
qed

lemma subtrees_parse_kinds:
  assumes "subtrees_parse contents = Inr s"
  shows "subtrees_reader s = contents \<and> (su_kinds s AND k \<noteq> 0 \<longleftrightarrow> (\<exists>n\<in>set (subtree_bases contents). subtree_kind n AND k \<noteq> 0))"
proof -
  obtain count kinds where "subtrees_loop contents 0 0 = Inr (count, kinds)"
      "s = \<lparr>su_contents = Some contents, su_kinds = kinds, su_count = count\<rparr>"
    using assms by (auto simp: subtrees_parse_def and_then_eq_Inr split: if_splits prod.splits)
  with subtrees_loop_kinds [of contents 0 0 count kinds k] show ?thesis by (simp add: subtrees_reader_def)
qed

lemma kind_bits:
  "subtree_kind n AND SUBTREE_UNSUPPORTED \<noteq> 0 \<longleftrightarrow> \<not> supported_form n"
  "subtree_kind n AND SUBTREE_DNS \<noteq> 0 \<longleftrightarrow> same_form (DnsName d) n"
  "subtree_kind n AND SUBTREE_IP \<noteq> 0 \<longleftrightarrow> same_form (IpAddress a) n"
  by (cases n; simp add: SUBTREE_UNSUPPORTED_def SUBTREE_DNS_def SUBTREE_IP_def)+

text \<open>Subtrees as \<open>NameConstraints::parse\<close> leaves them: the mask fits the bases, also for an absent list.\<close>

definition subtrees_ok :: "subtrees \<Rightarrow> bool" where
  "subtrees_ok s \<longleftrightarrow>
     (\<forall>k. su_kinds s AND k \<noteq> 0 \<longleftrightarrow> (\<exists>n\<in>set (subtree_bases (subtrees_reader s)). subtree_kind n AND k \<noteq> 0))"

lemma subtrees_ok_parse: "subtrees_parse contents = Inr s \<Longrightarrow> subtrees_ok s"
  using subtrees_parse_kinds by (auto simp: subtrees_ok_def)

lemma subtrees_ok_default: "subtrees_ok subtrees_default"
  by (simp add: subtrees_ok_def subtrees_default_def subtrees_reader_def subtree_bases.simps [of "[]"] subtree_next_def)

lemma name_constraints_ok: "name_constraints_parse der = Inr c \<Longrightarrow> subtrees_ok (nc_permitted c) \<and> subtrees_ok (nc_excluded c)"
  by (auto simp: name_constraints_parse_def and_then_eq_Inr subtrees_ok_default split: if_splits option.splits dest!: subtrees_ok_parse)

lemma subtrees_forms:
  assumes "subtrees_ok s"
  shows "has_unsupported s \<longleftrightarrow> (\<exists>b\<in>set (subtree_bases (subtrees_reader s)). \<not> supported_form b)"
    and "\<not> dns_is_empty s \<longleftrightarrow> (\<exists>b\<in>set (subtree_bases (subtrees_reader s)). same_form (DnsName d) b)"
    and "\<not> ip_is_empty s \<longleftrightarrow> (\<exists>b\<in>set (subtree_bases (subtrees_reader s)). same_form (IpAddress a) b)"
  using assms by (simp_all add: subtrees_ok_def has_unsupported_def dns_is_empty_def ip_is_empty_def kind_bits(1) kind_bits(2) [of _ d] kind_bits(3) [of _ a])

subsection \<open>Name constraints\<close>

lemma names_step: "general_name_next r = Some (Inr (n, r')) \<Longrightarrow> general_names r = n # general_names r'"
  by (simp add: general_names.simps [of r])

text \<open>
  A reference to constraints, parsed or prepared, represents two lists of bases: its tests are the tests over these lists.
\<close>

definition represents :: "name_constraints_ref \<Rightarrow> general_name list \<Rightarrow> general_name list \<Rightarrow> bool" where
  "represents r permitted excluded \<longleftrightarrow>
     (\<forall>d b. permitted_dns_matches r d = Inr b \<longrightarrow> b = (\<exists>n\<in>set permitted. inside (DnsName d) n)) \<and>
     (\<forall>d b. excluded_dns_matches r d = Inr b \<longrightarrow> b = (\<exists>n\<in>set excluded. inside (DnsName d) n)) \<and>
     (\<forall>d b. permitted_ip_matches r d = Inr b \<longrightarrow> b = (\<exists>n\<in>set permitted. inside (IpAddress d) n)) \<and>
     (\<forall>d b. excluded_ip_matches r d = Inr b \<longrightarrow> b = (\<exists>n\<in>set excluded. inside (IpAddress d) n)) \<and>
     (\<forall>d. permitted_dns_is_empty r = (\<not> (\<exists>n\<in>set permitted. same_form (DnsName d) n))) \<and>
     (\<forall>d. permitted_ip_is_empty r = (\<not> (\<exists>n\<in>set permitted. same_form (IpAddress d) n))) \<and>
     ncr_has_unsupported r = (\<exists>n\<in>set permitted \<union> set excluded. \<not> supported_form n)"

lemma representsD:
  assumes "represents r permitted excluded"
  shows "permitted_dns_matches r d = Inr b \<Longrightarrow> b \<longleftrightarrow> (\<exists>n\<in>set permitted. inside (DnsName d) n)"
    and "excluded_dns_matches r d = Inr b \<Longrightarrow> b \<longleftrightarrow> (\<exists>n\<in>set excluded. inside (DnsName d) n)"
    and "permitted_ip_matches r d = Inr b \<Longrightarrow> b \<longleftrightarrow> (\<exists>n\<in>set permitted. inside (IpAddress d) n)"
    and "excluded_ip_matches r d = Inr b \<Longrightarrow> b \<longleftrightarrow> (\<exists>n\<in>set excluded. inside (IpAddress d) n)"
    and "permitted_dns_is_empty r \<longleftrightarrow> (\<forall>n\<in>set permitted. \<not> same_form (DnsName d) n)"
    and "permitted_ip_is_empty r \<longleftrightarrow> (\<forall>n\<in>set permitted. \<not> same_form (IpAddress d) n)"
  using assms by (simp_all add: represents_def)

lemma parsed_represents:
  assumes "name_constraints_parse der = Inr c"
  shows "represents (NcParsed c) (subtree_bases (subtrees_reader (nc_permitted c))) (subtree_bases (subtrees_reader (nc_excluded c)))"
proof -
  have ok: "subtrees_ok (nc_permitted c)" "subtrees_ok (nc_excluded c)" using name_constraints_ok [OF assms] by simp_all
  note forms = subtrees_forms [OF ok(1)] subtrees_forms [OF ok(2)]
  show ?thesis
    unfolding represents_def using forms
    by (auto simp: map_err_def split: sum.splits dest!: dns_matches_iff ip_matches_iff)
qed

lemma check_names_allowed:
  assumes "represents ref permitted excluded"
  shows "check_names ref r = Inr () \<Longrightarrow> n \<in> set (general_names r) \<Longrightarrow> allowed permitted excluded n"
proof (induction r rule: general_names.induct)
  case (1 r)
  obtain m r' where next1: "general_name_next r = Some (Inr (m, r'))"
    using 1(3) by (auto simp: general_names.simps [of r] split: option.splits sum.splits) metis+
  note run = 1(2) [unfolded check_names.simps [of ref r] next1]
  have rest: "check_names ref r' = Inr ()" using run by (auto simp: and_then_eq_Inr)
  show ?case
  proof (cases "n = m")
    case False
    with 1(3) names_step [OF next1] have "n \<in> set (general_names r')" by simp
    with 1(1) [OF next1 refl refl rest] show ?thesis by blast
  next
    case True
    show ?thesis
    proof (cases m)
      case (OtherName t v)
      have "same_form m b = False" "inside m b = False" for b using OtherName by (cases b; simp)+
      with True show ?thesis by (simp add: allowed_def)
    next
      case (DnsName d)
      with run True representsD(5) [OF assms, of d] show ?thesis
        by (auto simp: allowed_def and_then_eq_Inr split: if_splits dest!: representsD(1,2) [OF assms])
    next
      case (IpAddress d)
      with run True representsD(6) [OF assms, of d] show ?thesis
        by (auto simp: allowed_def and_then_eq_Inr split: if_splits dest!: representsD(3,4) [OF assms])
    qed
  qed
qed

lemma names_Nil [simp]: "general_names [] = []"
  by (simp add: general_names.simps [of "[]"] general_name_next_def)

lemma check_subordinates_allowed:
  assumes "represents ref permitted excluded"
  shows "check_subordinates ref subs = Inr () \<Longrightarrow> Inr p \<in> set subs \<Longrightarrow> n \<in> set (general_names (pf_primary p)) \<Longrightarrow>
    allowed permitted excluded n"
proof (induction subs)
  case (Cons s subs)
  then obtain q where q: "s = Inr q" "check_subordinates ref subs = Inr ()"
      "pf_primary q = [] \<or> check_names ref (pf_primary q) = Inr ()"
    by (auto simp: and_then_eq_Inr split: if_splits)
  show ?case
  proof (cases "p = q")
    case True
    with q(3) Cons(4) check_names_allowed [OF assms] show ?thesis by auto
  qed (use Cons q in auto)
qed simp

lemma represents_allow:
  assumes "represents ref (subtree_bases (subtrees_reader (nc_permitted c))) (subtree_bases (subtrees_reader (nc_excluded c)))"
    and "check_name_constraints ref subs = Inr ()"
  shows "constraints_allow c {n. \<exists>p. Inr p \<in> set subs \<and> n \<in> set (general_names (pf_primary p))}"
proof -
  have "\<not> ncr_has_unsupported ref" "check_subordinates ref subs = Inr ()"
    using assms(2) by (auto simp: check_name_constraints_def split: if_splits)
  then show ?thesis
    using assms(1) check_subordinates_allowed [OF assms(1)] by (auto simp: constraints_allow_def represents_def Let_def)
qed

lemma check_constraints_allow:
  assumes "name_constraints_parse der = Inr c" and "check_name_constraints (NcParsed c) subs = Inr ()"
  shows "constraints_allow c {n. \<exists>p. Inr p \<in> set subs \<and> n \<in> set (general_names (pf_primary p))}"
  by (rule represents_allow [OF parsed_represents [OF assms(1)] assms(2)])

subsection \<open>Prepared constraints\<close>

text \<open>A prepared form keeps the values of each kind side by side in one list.\<close>

abbreviation values_of :: "name_kind \<Rightarrow> subtrees \<Rightarrow> bytes list" where
  "values_of kind s \<equiv> List.map_filter (kind_value kind) (subtree_bases (subtrees_reader s))"

lemma prepared_append_loop_values:
  "prepared_append_loop kind r spans = Inr spans' \<Longrightarrow> spans' = spans @ List.map_filter (kind_value kind) (subtree_bases r)"
proof (induction r arbitrary: spans rule: subtree_bases.induct)
  case (1 r)
  show ?case
  proof (cases "subtree_next r")
    case None
    with 1(2) show ?thesis by (simp add: prepared_append_loop.simps [of kind r] subtree_bases.simps [of r] List.map_filter_def)
  next
    case (Some x)
    with 1(2) obtain n r' where next1: "subtree_next r = Some (Inr (n, r'))"
      by (cases x) (auto simp: prepared_append_loop.simps [of kind r])
    show ?thesis
    proof (cases "kind_value kind n")
      case None
      with 1(2) next1 1(1) [OF next1 refl refl, of spans] show ?thesis
        by (simp add: prepared_append_loop.simps [of kind r] subtree_bases.simps [of r] List.map_filter_def)
    next
      case (Some v)
      with 1(2) next1 1(1) [OF next1 refl refl, of "spans @ [v]"] show ?thesis
        by (simp add: prepared_append_loop.simps [of kind r] subtree_bases.simps [of r] List.map_filter_def)
    qed
  qed
qed

lemma prepared_append_values:
  "prepared_append s kind spans = Inr (stop, spans') \<Longrightarrow> spans' = spans @ values_of kind s \<and> stop = length spans'"
  by (auto simp: prepared_append_def and_then_eq_Inr dest!: prepared_append_loop_values split: if_splits)

lemma prepared_parse_ranges:
  assumes "prepared_parse der = Inr p"
  obtains c where "name_constraints_parse der = Inr c"
    "prepared_range p True KDns = values_of KDns (nc_permitted c)" "prepared_range p True KIp = values_of KIp (nc_permitted c)"
    "prepared_range p False KDns = values_of KDns (nc_excluded c)" "prepared_range p False KIp = values_of KIp (nc_excluded c)"
    "pn_has_unsupported p = (has_unsupported (nc_permitted c) \<or> has_unsupported (nc_excluded c))"
  using assms
  by (auto simp: prepared_parse_def and_then_eq_Inr Let_def map_err_def prepared_values_def split: sum.splits
      dest!: prepared_append_values intro!: that)

lemma values_inside:
  "(\<exists>v\<in>set (values_of KDns s). dns_in_subtree d v) \<longleftrightarrow> (\<exists>n\<in>set (subtree_bases (subtrees_reader s)). inside (DnsName d) n)"
  "(\<exists>v\<in>set (values_of KIp s). ip_in_subtree d v) \<longleftrightarrow> (\<exists>n\<in>set (subtree_bases (subtrees_reader s)). inside (IpAddress d) n)"
  "values_of KDns s = [] \<longleftrightarrow> (\<forall>n\<in>set (subtree_bases (subtrees_reader s)). \<not> same_form (DnsName d) n)"
  "values_of KIp s = [] \<longleftrightarrow> (\<forall>n\<in>set (subtree_bases (subtrees_reader s)). \<not> same_form (IpAddress d) n)"
proof -
  have dns: "inside (DnsName d) n \<longleftrightarrow> (\<exists>v. kind_value KDns n = Some v \<and> dns_in_subtree d v)"
      "same_form (DnsName d) n \<longleftrightarrow> kind_value KDns n \<noteq> None" for n by (cases n; simp)+
  have ip: "inside (IpAddress d) n \<longleftrightarrow> (\<exists>v. kind_value KIp n = Some v \<and> ip_in_subtree d v)"
      "same_form (IpAddress d) n \<longleftrightarrow> kind_value KIp n \<noteq> None" for n by (cases n; simp)+
  show "(\<exists>v\<in>set (values_of KDns s). dns_in_subtree d v) \<longleftrightarrow> (\<exists>n\<in>set (subtree_bases (subtrees_reader s)). inside (DnsName d) n)"
    "(\<exists>v\<in>set (values_of KIp s). ip_in_subtree d v) \<longleftrightarrow> (\<exists>n\<in>set (subtree_bases (subtrees_reader s)). inside (IpAddress d) n)"
    "values_of KDns s = [] \<longleftrightarrow> (\<forall>n\<in>set (subtree_bases (subtrees_reader s)). \<not> same_form (DnsName d) n)"
    "values_of KIp s = [] \<longleftrightarrow> (\<forall>n\<in>set (subtree_bases (subtrees_reader s)). \<not> same_form (IpAddress d) n)"
    by (auto simp: dns ip List.map_filter_def filter_empty_conv) blast+
qed

lemma prepared_represents:
  assumes "prepared_parse der = Inr p"
  obtains c where "name_constraints_parse der = Inr c"
    "represents (NcPrepared p) (subtree_bases (subtrees_reader (nc_permitted c))) (subtree_bases (subtrees_reader (nc_excluded c)))"
proof (rule prepared_parse_ranges [OF assms])
  fix c
  assume c: "name_constraints_parse der = Inr c"
    "prepared_range p True KDns = values_of KDns (nc_permitted c)" "prepared_range p True KIp = values_of KIp (nc_permitted c)"
    "prepared_range p False KDns = values_of KDns (nc_excluded c)" "prepared_range p False KIp = values_of KIp (nc_excluded c)"
    "pn_has_unsupported p = (has_unsupported (nc_permitted c) \<or> has_unsupported (nc_excluded c))"
  have ok: "subtrees_ok (nc_permitted c)" "subtrees_ok (nc_excluded c)" using name_constraints_ok [OF c(1)] by simp_all
  have "represents (NcPrepared p) (subtree_bases (subtrees_reader (nc_permitted c))) (subtree_bases (subtrees_reader (nc_excluded c)))"
    using subtrees_forms(1) [OF ok(1)] subtrees_forms(1) [OF ok(2)]
    by (auto simp: represents_def list_ex_iff c values_inside(1,2) values_inside(3,4) [symmetric] simp del: prepared_range.simps)
  with c(1) show thesis by (rule that)
qed

lemma check_prepared_allow:
  assumes "prepared_parse der = Inr p" and "check_prepared_name_constraints p subs = Inr ()"
  shows "\<exists>c. name_constraints_parse der = Inr c \<and>
    constraints_allow c {n. \<exists>p. Inr p \<in> set subs \<and> n \<in> set (general_names (pf_primary p))}"
proof (rule prepared_represents [OF assms(1)])
  fix c
  assume c: "name_constraints_parse der = Inr c"
    "represents (NcPrepared p) (subtree_bases (subtrees_reader (nc_permitted c))) (subtree_bases (subtrees_reader (nc_excluded c)))"
  from represents_allow [OF c(2)] assms(2) c(1) show ?thesis by (simp add: check_prepared_name_constraints_def)
qed

subsection \<open>Extensions\<close>

text \<open>The value of an extension among the entries of a certificate.\<close>

definition value_of :: "extension_entry list \<Rightarrow> bytes \<Rightarrow> bytes option" where
  "value_of es oid = map_of (map (\<lambda>e. (ee_oid e, ee_value e)) es) oid"

lemma value_of_simps [simp]:
  "value_of [] oid = None" "value_of (e # es) oid = (if ee_oid e = oid then Some (ee_value e) else value_of es oid)"
  by (simp_all add: value_of_def)

lemma value_of_None: "value_of es oid = None \<longleftrightarrow> oid \<notin> ee_oid ` set es"
  by (induction es) auto

text \<open>What one pass of \<open>profile_visit\<close> leaves in a field that belongs to one extension.\<close>

lemma scan_field:
  assumes step: "\<And>e s s'. profile_visit e s = Inr s' \<Longrightarrow> (if ee_oid e = oid then R (ee_value e) (f s') else f s' = f s)"
  shows "visit_exts profile_visit es s = Inr t \<Longrightarrow> distinct (map ee_oid es) \<Longrightarrow>
    (case value_of es oid of None \<Rightarrow> f t = f s | Some v \<Rightarrow> R v (f t))"
proof (induction es arbitrary: s)
  case (Cons e es)
  then obtain s1 where s1: "profile_visit e s = Inr s1" "visit_exts profile_visit es s1 = Inr t" by (auto simp: and_then_eq_Inr)
  show ?case
  proof (cases "ee_oid e = oid")
    case True
    then have "value_of es oid = None" using Cons(3) by (simp add: value_of_None)
    with True Cons(1) [OF s1(2)] Cons(3) step [OF s1(1)] show ?thesis by simp
  next
    case False
    with Cons(1) [OF s1(2)] Cons(3) step [OF s1(1)] show ?thesis by (auto split: option.splits)
  qed
qed simp

lemmas oids = OID_BASIC_CONSTRAINTS_def OID_KEY_USAGE_def OID_EXTENDED_KEY_USAGE_def OID_NAME_CONSTRAINTS_def OID_SUBJECT_ALT_NAME_def

lemma profile_visit_fields:
  assumes "profile_visit e s = Inr s'"
  shows "if ee_oid e = OID_BASIC_CONSTRAINTS
      then \<exists>bc. basic_constraints_parse (ee_value e) = Inr bc \<and> sc_basic_constraints s' = Some bc
      else sc_basic_constraints s' = sc_basic_constraints s"
    and "if ee_oid e = OID_KEY_USAGE then \<exists>u. key_usage_parse (ee_value e) = Inr u \<and> sc_key_usage s' = Some u
      else sc_key_usage s' = sc_key_usage s"
    and "if ee_oid e = OID_EXTENDED_KEY_USAGE
      then \<exists>x r. eku_parse (ee_value e) = Inr x \<and> eku_scan x False False = Inr r \<and> sc_eku s' = Some r
      else sc_eku s' = sc_eku s"
    and "if ee_oid e = OID_NAME_CONSTRAINTS
      then (\<exists>c. name_constraints_parse (ee_value e) = Inr c) \<and> sc_name_constraints s' = ee_value e
      else sc_name_constraints s' = sc_name_constraints s"
    and "if ee_oid e = OID_SUBJECT_ALT_NAME then general_names_parse (ee_value e) = Inr (sc_san s') else sc_san s' = sc_san s"
    and "ee_critical e \<Longrightarrow> is_handled (ee_oid e)"
  using assms by (auto simp: profile_visit_def oid_is_def and_then_eq_Inr oids map_err_def split: if_splits sum.splits)

text \<open>The purposes listed in an extended key usage.\<close>

function eku_oids :: "bytes \<Rightarrow> bytes list" where
  "eku_oids r = (case eku_next r of Some (Inr (oid, r')) \<Rightarrow> oid # eku_oids r' | _ \<Rightarrow> [])"
  by pat_completeness auto
termination
  by (relation "measure length") (auto simp: eku_next_def dest: read_oid_shorter split: if_splits)

declare eku_oids.simps [simp del]

lemma eku_scan_oids:
  "eku_scan r a b = Inr (x, y) \<Longrightarrow>
     (x \<longleftrightarrow> a \<or> OID_EKU_SERVER_AUTH \<in> set (eku_oids r)) \<and> (y \<longleftrightarrow> b \<or> OID_EKU_ANY \<in> set (eku_oids r))"
proof (induction r a b rule: eku_scan.induct)
  case (1 r a b)
  show ?case
  proof (cases "eku_next r")
    case None
    with 1(2) show ?thesis by (simp add: eku_scan.simps [of r] eku_oids.simps [of r])
  next
    case (Some v)
    with 1(2) obtain oid r' where next1: "eku_next r = Some (Inr (oid, r'))"
      by (cases v) (auto simp: eku_scan.simps [of r])
    with 1(2) have run: "eku_scan r' (a \<or> oid_is oid OID_EKU_SERVER_AUTH) (b \<or> oid_is oid OID_EKU_ANY) = Inr (x, y)"
      by (simp add: eku_scan.simps [of r])
    from 1(1) [OF next1 refl refl run] show ?thesis by (auto simp: eku_oids.simps [of r] next1 oid_is_def)
  qed
qed

subsection \<open>Flags\<close>

lemma flag_bit: "flags AND push_bit n 1 \<noteq> 0 \<longleftrightarrow> bit (flags :: u16) n"
  by (simp add: bit_iff_and_push_bit_not_eq_0)

lemma bit_flag_if: "bit (flag_if b f flags) n \<longleftrightarrow> bit flags n \<or> b \<and> bit f n"
  by (simp add: flag_if_def bit_or_iff)

lemmas flag_defs = BASIC_CONSTRAINTS_def CERTIFICATE_AUTHORITY_def KEY_USAGE_def DIGITAL_SIGNATURE_def KEY_CERT_SIGN_def
  EXTENDED_KEY_USAGE_def SERVER_AUTH_def ANY_EXTENDED_KEY_USAGE_def

lemma summary_flags:
  "has_flag (profile_summary s) BASIC_CONSTRAINTS \<longleftrightarrow> sc_basic_constraints s \<noteq> None"
  "has_flag (profile_summary s) CERTIFICATE_AUTHORITY \<longleftrightarrow> (\<exists>bc. sc_basic_constraints s = Some bc \<and> bc_ca bc)"
  "has_flag (profile_summary s) KEY_USAGE \<longleftrightarrow> sc_key_usage s \<noteq> None"
  "has_flag (profile_summary s) DIGITAL_SIGNATURE \<longleftrightarrow> (\<exists>u. sc_key_usage s = Some u \<and> key_usage_has u KU_DIGITAL_SIGNATURE)"
  "has_flag (profile_summary s) KEY_CERT_SIGN \<longleftrightarrow> (\<exists>u. sc_key_usage s = Some u \<and> key_usage_has u KU_KEY_CERT_SIGN)"
  "has_flag (profile_summary s) EXTENDED_KEY_USAGE \<longleftrightarrow> sc_eku s \<noteq> None"
  "has_flag (profile_summary s) SERVER_AUTH \<longleftrightarrow> (\<exists>any. sc_eku s = Some (True, any))"
  "has_flag (profile_summary s) ANY_EXTENDED_KEY_USAGE \<longleftrightarrow> (\<exists>auth. sc_eku s = Some (auth, True))"
  unfolding has_flag_def flag_defs flag_bit
  by (auto simp: profile_summary_def Let_def flag_defs bit_flag_if bit_or_iff bit_push_bit_iff bit_1_iff split: option.splits prod.splits)

lemma summary_path_limit:
  assumes "sc_basic_constraints s = Some bc" and "bc_path_len bc = Some limit" and "n \<le> unat (pf_path_limit (profile_summary s))"
  shows "n \<le> unat limit"
proof -
  have "unat (word_of_nat (min (unat limit) MAX_CHAIN_LEN) :: u8) = min (unat limit) MAX_CHAIN_LEN"
    by (simp add: unat_of_nat MAX_CHAIN_LEN_def take_bit_eq_mod min_def)
  with assms show ?thesis by (simp add: profile_summary_def Let_def split: option.splits prod.splits)
qed

lemma summary_fields [simp]:
  "pf_primary (profile_summary s) = sc_san s" "pf_name_constraints (profile_summary s) = sc_name_constraints s"
  "pf_status (profile_summary s) = StValid"
  by (simp_all add: profile_summary_def Let_def split: option.splits prod.splits)

subsection \<open>What a certificate may do\<close>

definition ext_der :: "cert \<Rightarrow> bytes" where
  "ext_der c = (case tbs_extensions_der (ct_tbs c) of Some d \<Rightarrow> d | None \<Rightarrow> [])"

definition entries_of :: "cert \<Rightarrow> extension_entry list" where
  "entries_of c = (case raw_all (ext_der c) of Some es \<Rightarrow> es | None \<Rightarrow> [])"

text \<open>The extensions are well formed, no two have the same identifier, and every critical one is understood.\<close>

definition well_formed :: "cert \<Rightarrow> bool" where
  "well_formed c \<longleftrightarrow>
     raw_all (ext_der c) = Some (entries_of c) \<and> length (entries_of c) \<le> 64 \<and> distinct (map ee_oid (entries_of c)) \<and>
     (\<forall>e\<in>set (entries_of c). ee_critical e \<longrightarrow> is_handled (ee_oid e))"

definition current :: "unix_time \<Rightarrow> cert \<Rightarrow> bool" where
  "current now c \<longleftrightarrow> va_not_before (tbs_validity (ct_tbs c)) \<le> now \<and> now \<le> va_not_after (tbs_validity (ct_tbs c))"

text \<open>The names in the subject alternative name extension.\<close>

definition alt_names :: "cert \<Rightarrow> general_name set" where
  "alt_names c =
     {n. \<exists>v x. value_of (entries_of c) OID_SUBJECT_ALT_NAME = Some v \<and> general_names_parse v = Inr x \<and> n \<in> set (general_names x)}"

definition basic :: "cert \<Rightarrow> basic_constraints \<Rightarrow> bool" where
  "basic c bc \<longleftrightarrow> (\<exists>v. value_of (entries_of c) OID_BASIC_CONSTRAINTS = Some v \<and> basic_constraints_parse v = Inr bc)"

definition usable :: "u16 \<Rightarrow> cert \<Rightarrow> bool" where
  "usable use1 c \<longleftrightarrow>
     (\<forall>v. value_of (entries_of c) OID_KEY_USAGE = Some v \<longrightarrow> (\<exists>u. key_usage_parse v = Inr u \<and> key_usage_has u use1))"

definition purposed :: "bytes set \<Rightarrow> cert \<Rightarrow> bool" where
  "purposed oids1 c \<longleftrightarrow>
     (\<forall>v. value_of (entries_of c) OID_EXTENDED_KEY_USAGE = Some v \<longrightarrow>
        (\<exists>x. eku_parse v = Inr x \<and> set (eku_oids x) \<inter> oids1 \<noteq> {}))"

definition constraint_holds :: "cert \<Rightarrow> general_name set \<Rightarrow> bool" where
  "constraint_holds c names \<longleftrightarrow>
     (\<forall>v. value_of (entries_of c) OID_NAME_CONSTRAINTS = Some v \<longrightarrow>
        (\<exists>nc. name_constraints_parse v = Inr nc \<and> constraints_allow nc names))"

text \<open>
  A certificate may issue one below which there are \<open>n\<close> further certificates, with these names on them; it may serve a
  host.
\<close>

definition may_issue :: "nat \<Rightarrow> general_name set \<Rightarrow> cert \<Rightarrow> bool" where
  "may_issue n names c \<longleftrightarrow>
     (\<exists>bc. basic c bc \<and> bc_ca bc \<and> (\<forall>limit. bc_path_len bc = Some limit \<longrightarrow> n \<le> unat limit)) \<and>
     usable KU_KEY_CERT_SIGN c \<and> purposed {OID_EKU_SERVER_AUTH, OID_EKU_ANY} c \<and> constraint_holds c names"

definition may_serve :: "u8 copy_inline \<Rightarrow> bytes \<Rightarrow> cert \<Rightarrow> bool" where
  "may_serve ci host c \<longleftrightarrow>
     (\<nexists>bc. basic c bc \<and> bc_ca bc) \<and> usable KU_DIGITAL_SIGNATURE c \<and> purposed {OID_EKU_SERVER_AUTH} c \<and>
     (case parse_ip ci host of
        Some target \<Rightarrow> (\<exists>pattern. IpAddress pattern \<in> alt_names c \<and> matches_ip target pattern)
      | None \<Rightarrow> (\<exists>pattern. DnsName pattern \<in> alt_names c \<and> matches_dns host pattern))"

subsection \<open>Profiles and what they stand for\<close>

definition scan_start :: profile_scan where
  "scan_start = \<lparr>sc_basic_constraints = None, sc_key_usage = None, sc_eku = None, sc_name_constraints = [], sc_san = []\<rparr>"

definition scanned :: "cert \<Rightarrow> profile_scan \<Rightarrow> bool" where
  "scanned c s \<longleftrightarrow> well_formed c \<and> visit_exts profile_visit (entries_of c) scan_start = Inr s"

lemma visited_handled: "visit_exts profile_visit es s = Inr t \<Longrightarrow> \<forall>e\<in>set es. ee_critical e \<longrightarrow> is_handled (ee_oid e)"
  by (induction es arbitrary: s) (auto simp: and_then_eq_Inr dest: profile_visit_fields(6))

lemma profile_parse_scanned:
  assumes "profile_parse (ext_der c) = Inr p" and "length (ext_der c) \<le> usize_max"
  obtains s where "scanned c s" "p = profile_summary s"
proof -
  obtain s where s: "ext_loop profile_visit chain_error_of_cert (ext_der c) ext_iter_new scan_start = Inr s" "p = profile_summary s"
    using assms(1) by (auto simp: profile_parse_def and_then_eq_Inr scan_start_def)
  have "raw_all (ext_der c) = Some (entries_of c) \<and> length (entries_of c) \<le> 64 \<and> distinct (map ee_oid (entries_of c)) \<and>
      visit_exts profile_visit (entries_of c) scan_start = Inr s"
    using ext_loop_spec [OF assms(2) iter_inv_new, of profile_visit chain_error_of_cert scan_start] s(1)
    by (auto simp: ext_iter_new_def entries_of_def split: option.splits if_splits)
  then have "scanned c s" using visited_handled by (auto simp: scanned_def well_formed_def)
  from that [OF this s(2)] show thesis .
qed

lemma scanned_run:
  assumes "scanned c s"
  shows "visit_exts profile_visit (entries_of c) scan_start = Inr s" and "distinct (map ee_oid (entries_of c))"
  using assms by (simp_all add: scanned_def well_formed_def)

lemma scanned_fields:
  assumes "scanned c s"
  shows "case value_of (entries_of c) OID_BASIC_CONSTRAINTS of
      None \<Rightarrow> sc_basic_constraints s = None
    | Some v \<Rightarrow> \<exists>bc. basic_constraints_parse v = Inr bc \<and> sc_basic_constraints s = Some bc"
    and "case value_of (entries_of c) OID_KEY_USAGE of
      None \<Rightarrow> sc_key_usage s = None | Some v \<Rightarrow> \<exists>u. key_usage_parse v = Inr u \<and> sc_key_usage s = Some u"
    and "case value_of (entries_of c) OID_EXTENDED_KEY_USAGE of
      None \<Rightarrow> sc_eku s = None | Some v \<Rightarrow> \<exists>x r. eku_parse v = Inr x \<and> eku_scan x False False = Inr r \<and> sc_eku s = Some r"
    and "case value_of (entries_of c) OID_NAME_CONSTRAINTS of
      None \<Rightarrow> sc_name_constraints s = [] | Some v \<Rightarrow> (\<exists>nc. name_constraints_parse v = Inr nc) \<and> sc_name_constraints s = v"
    and "case value_of (entries_of c) OID_SUBJECT_ALT_NAME of
      None \<Rightarrow> sc_san s = [] | Some v \<Rightarrow> general_names_parse v = Inr (sc_san s)"
  using
    scan_field [where f = sc_basic_constraints and R = "\<lambda>v x. \<exists>bc. basic_constraints_parse v = Inr bc \<and> x = Some bc",
      OF profile_visit_fields(1) scanned_run [OF assms]]
    scan_field [where f = sc_key_usage and R = "\<lambda>v x. \<exists>u. key_usage_parse v = Inr u \<and> x = Some u", OF profile_visit_fields(2) scanned_run [OF assms]]
    scan_field [where f = sc_eku and R = "\<lambda>v y. \<exists>x r. eku_parse v = Inr x \<and> eku_scan x False False = Inr r \<and> y = Some r",
      OF profile_visit_fields(3) scanned_run [OF assms]]
    scan_field [where f = sc_name_constraints and R = "\<lambda>v x. (\<exists>nc. name_constraints_parse v = Inr nc) \<and> x = v",
      OF profile_visit_fields(4) scanned_run [OF assms]]
    scan_field [where f = sc_san and R = "\<lambda>v x. general_names_parse v = Inr x", OF profile_visit_fields(5) scanned_run [OF assms]]
  by (auto simp: scan_start_def split: option.splits)

lemma scanned_names: "scanned c s \<Longrightarrow> alt_names c = set (general_names (sc_san s))"
  using scanned_fields(5) [of c s] by (auto simp: alt_names_def split: option.splits)

lemma scanned_basic: "scanned c s \<Longrightarrow> basic c bc \<longleftrightarrow> sc_basic_constraints s = Some bc"
  using scanned_fields(1) [of c s] by (auto simp: basic_def split: option.splits)

lemma scanned_usable:
  "scanned c s \<Longrightarrow> usable use1 c \<longleftrightarrow> (\<forall>u. sc_key_usage s = Some u \<longrightarrow> key_usage_has u use1)"
  using scanned_fields(2) [of c s] by (auto simp: usable_def split: option.splits)

lemma scanned_purposed:
  assumes "scanned c s"
  shows "purposed {OID_EKU_SERVER_AUTH} c \<longleftrightarrow> (\<forall>auth any. sc_eku s = Some (auth, any) \<longrightarrow> auth)"
    and "purposed {OID_EKU_SERVER_AUTH, OID_EKU_ANY} c \<longleftrightarrow> (\<forall>auth any. sc_eku s = Some (auth, any) \<longrightarrow> auth \<or> any)"
  using scanned_fields(3) [OF assms] by (auto simp: purposed_def split: option.splits dest!: eku_scan_oids)

lemma check_ca_eku_iff:
  "check_ca_eku (profile_summary s) = Inr () \<longleftrightarrow> (\<forall>auth any. sc_eku s = Some (auth, any) \<longrightarrow> auth \<or> any)"
proof -
  have "pf_flags p AND (SERVER_AUTH OR ANY_EXTENDED_KEY_USAGE) \<noteq> 0 \<longleftrightarrow> has_flag p SERVER_AUTH \<or> has_flag p ANY_EXTENDED_KEY_USAGE" for p
    unfolding has_flag_def by (auto simp: bit_eq_iff bit_simps)
  then show ?thesis by (auto simp: check_ca_eku_def summary_flags)
qed

lemma check_issuer_may_issue:
  assumes "scanned c s" and "check_issuer subs n (profile_summary s) = Inr ()"
  shows "may_issue n {m. \<exists>p. Inr p \<in> set subs \<and> m \<in> set (general_names (pf_primary p))} c"
proof -
  have checks: "check_issuer_is_ca (profile_summary s) = Inr ()" "check_ca_eku (profile_summary s) = Inr ()"
      "check_path_len n (profile_summary s) = Inr ()" "profile_check_name_constraints subs (profile_summary s) = Inr ()"
    using assms(2) by (auto simp: check_issuer_def and_then_eq_Inr)
  obtain bc where bc: "sc_basic_constraints s = Some bc" "bc_ca bc" "usable KU_KEY_CERT_SIGN c"
    using checks(1) by (auto simp: check_issuer_is_ca_def summary_flags scanned_usable [OF assms(1)] split: if_splits)
  have "n \<le> unat limit" if "bc_path_len bc = Some limit" for limit
    using summary_path_limit [OF bc(1) that] checks(3) by (simp add: check_path_len_def split: if_splits)
  moreover have "constraint_holds c {m. \<exists>p. Inr p \<in> set subs \<and> m \<in> set (general_names (pf_primary p))}"
  proof -
    have nonempty: "name_constraints_parse [] \<noteq> Inr nc" for nc by (simp add: name_constraints_parse_def der_eval)
    show ?thesis
      using checks(4) scanned_fields(4) [OF assms(1)] nonempty
      by (auto simp: constraint_holds_def profile_check_name_constraints_def and_then_eq_Inr intro: check_constraints_allow
          split: option.splits if_splits)
  qed
  ultimately show ?thesis
    using bc checks(2) by (auto simp: may_issue_def scanned_basic [OF assms(1)] check_ca_eku_iff scanned_purposed [OF assms(1)])
qed

lemma any_general_name_iff: "any_general_name test r = Inr () \<Longrightarrow> \<exists>n\<in>set (general_names r). test n"
proof (induction test r rule: any_general_name.induct)
  case (1 test r)
  then obtain n r' where next1: "general_name_next r = Some (Inr (n, r'))"
    by (auto simp: any_general_name.simps [of test r] split: option.splits sum.splits)
  with 1 names_step [OF next1] show ?case by (auto simp: any_general_name.simps [of test r] split: if_splits)
qed

lemma check_leaf_may_serve:
  assumes "scanned c s" and "check_leaf ci host (profile_summary s) = Inr ()"
  shows "may_serve ci host c"
proof -
  have checks: "check_end_entity (profile_summary s) = Inr ()" "check_server_auth (profile_summary s) = Inr ()"
      "check_hostname ci host (profile_summary s) = Inr ()"
    using assms(2) by (auto simp: check_leaf_def and_then_eq_Inr)
  have "case parse_ip ci host of
      Some target \<Rightarrow> (\<exists>pattern. IpAddress pattern \<in> alt_names c \<and> matches_ip target pattern)
    | None \<Rightarrow> (\<exists>pattern. DnsName pattern \<in> alt_names c \<and> matches_dns host pattern)"
    using checks(3) by (auto simp: check_hostname_def scanned_names [OF assms(1)] split: if_splits option.splits
        dest!: any_general_name_iff) (auto split: general_name.splits)
  with checks(1,2) show ?thesis
    by (auto simp: may_serve_def check_end_entity_def check_server_auth_def summary_flags scanned_basic [OF assms(1)]
        scanned_usable [OF assms(1)] scanned_purposed [OF assms(1)] split: if_splits)
qed

subsection \<open>Accepted chains\<close>

definition issued_by :: "unicode \<Rightarrow> ring_verify \<Rightarrow> cert \<Rightarrow> cert \<Rightarrow> bool" where
  "issued_by U RV subject issuer \<longleftrightarrow>
     dn_equivalent U (cn_subject (tbs_names (ct_tbs issuer))) (cn_issuer (tbs_names (ct_tbs subject))) \<and>
     verify_signature RV (cert_signed subject) (tbs_spki (ct_tbs issuer)) = Inr ()"

text \<open>
  A path is a list of positions in the chain, leaf first.  Each certificate of it is well formed and current, and each but
  the first has issued the one before it and may do so for all that are below it.
\<close>

definition valid_path :: "unicode \<Rightarrow> ring_verify \<Rightarrow> unix_time \<Rightarrow> cert list \<Rightarrow> nat list \<Rightarrow> bool" where
  "valid_path U RV now cs ps \<longleftrightarrow>
     ps \<noteq> [] \<and> hd ps = 0 \<and> distinct ps \<and>
     (\<forall>i\<in>set ps. i < length cs \<and> well_formed (cs ! i) \<and> current now (cs ! i)) \<and>
     (\<forall>j. Suc j < length ps \<longrightarrow> issued_by U RV (cs ! (ps ! j)) (cs ! (ps ! Suc j)) \<and>
        may_issue j (\<Union>i\<in>set (take (Suc j) ps). alt_names (cs ! i)) (cs ! (ps ! Suc j)))"

definition trusts :: "unicode \<Rightarrow> ring_verify \<Rightarrow> trust_anchor \<Rightarrow> general_name set \<Rightarrow> cert \<Rightarrow> bool" where
  "trusts U RV a names c \<longleftrightarrow>
     (ta_subject_der a = cn_issuer (tbs_names (ct_tbs c)) \<or> dn_equivalent U (ta_subject_der a) (cn_issuer (tbs_names (ct_tbs c)))) \<and>
     verify_signature RV (cert_signed c) (ta_spki a) = Inr () \<and>
     (anchor_name_constraints_der a = Inr None \<or>
      (\<exists>der nc. anchor_name_constraints_der a = Inr (Some der) \<and> name_constraints_parse der = Inr nc \<and> constraints_allow nc names))"

lemma chain_new_certs:
  assumes "copy_inline_ok pci" and "\<not> ch_too_long (chain_new pci cs)"
  shows "ch_certs (chain_new pci cs) = map path_cert_new cs"
proof -
  have "\<not> ch_too_long (chain_push_all pci cs ch) \<Longrightarrow> ch_certs (chain_push_all pci cs ch) = ch_certs ch @ map path_cert_new cs" for ch
    by (induction cs arbitrary: ch) (auto simp: chain_try_push_def and_then_eq_Inr copy_inline_okD(1) [OF assms(1)] split: sum.splits if_splits)
  with assms(2) show ?thesis by (simp add: chain_new_def chain_empty_def)
qed

lemma prepared_scanned:
  assumes "fst (path_cert_prepare now (path_cert_new c)) = Inr ()" and "length (ext_der c) \<le> usize_max"
  obtains s where "scanned c s" "pc_profile (pcert (path_cert_new c)) = profile_summary s" "current now c"
proof -
  obtain p where p: "profile_parse (ext_der c) = Inr p" "pc_profile (pcert (path_cert_new c)) = p" "current now c"
    using assms(1) by (auto simp: path_cert_prepare_def path_cert_new_def profile_prepare_def profile_raw_def ext_der_def pcert_def
        current_def split: sum.splits prod.splits if_splits)
  obtain s where "scanned c s" "p = profile_summary s" using profile_parse_scanned [OF p(1) assms(2)] .
  from that [OF this(1)] p this(2) show thesis by simp
qed

lemma path_names:
  assumes "\<And>i. i \<in> set ps \<Longrightarrow> \<exists>s. scanned (cs ! i) s \<and> pc_profile (pcert (certs ! i)) = profile_summary s"
  shows "{m. \<exists>p. Inr p \<in> set (path_profiles certs ps) \<and> m \<in> set (general_names (pf_primary p))} = (\<Union>i\<in>set ps. alt_names (cs ! i))"
proof -
  have "profile_resolve (pc_profile (pcert (certs ! i))) = Inr (pc_profile (pcert (certs ! i))) \<and>
      set (general_names (pf_primary (pc_profile (pcert (certs ! i))))) = alt_names (cs ! i)" if "i \<in> set ps" for i
    using assms [OF that] by (auto simp: profile_resolve_def scanned_names)
  then show ?thesis by (auto simp: path_profiles_def)
qed

text \<open>Along a path the code accepts, every profile comes from the certificate's own extensions.\<close>

abbreviation short_enough :: "cert list \<Rightarrow> bool" where
  "short_enough cs \<equiv> \<forall>c\<in>set cs. length (ext_der c) \<le> usize_max"

lemma path_scanned:
  assumes "path_ok U RV now (map path_cert_new cs) ps" and "short_enough cs" and "i \<in> set ps"
  shows "\<exists>s. scanned (cs ! i) s \<and> pc_profile (pcert (map path_cert_new cs ! i)) = profile_summary s \<and> current now (cs ! i) \<and> i < length cs"
proof -
  have i: "i < length cs" "fst (path_cert_prepare now (path_cert_new (cs ! i))) = Inr ()" using assms(1,3) by (auto simp: path_ok_def)
  then have "length (ext_der (cs ! i)) \<le> usize_max" using assms(2) by simp
  from prepared_scanned [OF i(2) this] i(1) show ?thesis by (metis nth_map)
qed

lemma path_all_names:
  assumes "path_ok U RV now (map path_cert_new cs) ps" and "short_enough cs" and "set qs \<subseteq> set ps"
  shows "{m. \<exists>p. Inr p \<in> set (path_profiles (map path_cert_new cs) qs) \<and> m \<in> set (general_names (pf_primary p))} =
    (\<Union>i\<in>set qs. alt_names (cs ! i))"
  using path_scanned [OF assms(1,2)] assms(3) by (intro path_names) blast

lemma path_link:
  assumes "path_ok U RV now (map path_cert_new cs) ps" and "short_enough cs" and j: "Suc j < length ps"
  shows "issued_by U RV (cs ! (ps ! j)) (cs ! (ps ! Suc j)) \<and>
    may_issue j (\<Union>i\<in>set (take (Suc j) ps). alt_names (cs ! i)) (cs ! (ps ! Suc j))"
proof -
  let ?certs = "map path_cert_new cs"
  note scan = path_scanned [OF assms(1,2)]
  have l: "link_ok U RV ?certs (take (Suc j) ps) (ps ! Suc j)" using j assms(1) by (simp add: path_ok_def)
  have last: "last (take (Suc j) ps) = ps ! j" using j by (simp add: take_Suc_conv_app_nth)
  obtain s where s: "scanned (cs ! (ps ! Suc j)) s" "pc_profile (pcert (?certs ! (ps ! Suc j))) = profile_summary s"
    using scan [OF nth_mem [OF j]] by blast
  have len: "ps ! j < length cs" "ps ! Suc j < length cs" using scan [OF nth_mem] j Suc_lessD by blast+
  have "check_issuer (path_profiles ?certs (take (Suc j) ps)) j (profile_summary s) = Inr ()"
    using l s(2) j by (simp add: link_ok_def min_def)
  from check_issuer_may_issue [OF s(1) this] have "may_issue j (\<Union>i\<in>set (take (Suc j) ps). alt_names (cs ! i)) (cs ! (ps ! Suc j))"
    using path_all_names [OF assms(1,2), of "take (Suc j) ps"] by (simp add: set_take_subset)
  with l last len show ?thesis by (simp add: issued_by_def link_ok_def path_cert_new_def)
qed

lemma path_valid:
  assumes "path_ok U RV now (map path_cert_new cs) ps" and "short_enough cs" and "ps \<noteq> []"
  shows "valid_path U RV now cs ps"
  using assms(1,3) path_scanned [OF assms(1,2)] path_link [OF assms(1,2)]
  by (auto simp: valid_path_def path_ok_def scanned_def)

lemma path_trusted:
  assumes "path_ok U RV now (map path_cert_new cs) ps" and "short_enough cs" and "ps \<noteq> []"
    and "anchor_trusts U RV a (map path_cert_new cs) ps"
  shows "trusts U RV a (\<Union>i\<in>set ps. alt_names (cs ! i)) (cs ! last ps)"
  using assms(3,4) path_scanned [OF assms(1,2), of "last ps"] path_all_names [OF assms(1,2), of ps]
  by (auto simp: trusts_def anchor_trusts_def path_cert_new_def check_name_constraints_der_def and_then_eq_Inr map_err_def
      split: sum.splits option.splits dest: check_constraints_allow)

text \<open>
  C5.  A chain that \<open>Chain::validate\<close> accepts contains a certificate path as RFC 5280 asks for it: a sequence of different certificates of
  the chain, beginning with the leaf, each within its validity period, with well-formed extensions none of which is critical and not
  understood.  Each next one has issued the one before it: its name is the issuer named there and its key verifies
  the signature; its basic constraints say it is an authority for a path of that length, its key usage and extended key
  usage, if any, allow it, and its name constraints allow every name on the certificates below.  The leaf is not an authority, may
  sign and authenticate servers, and has the host among its alternative names.  One of the trust anchors is the
  issuer of the last certificate, verifies it, and its name constraints allow every name on the path.
\<close>

theorem chain_sound:
  assumes "copy_inline_ok pci" and "copy_inline_ok fci" and "\<forall>c\<in>set cs. length (ext_der c) \<le> usize_max"
    and "chain_validate ci fci U RV anchors now host (chain_new pci cs) = Some (Inr ())"
  shows "\<exists>ps. valid_path U RV now cs ps \<and> may_serve ci host (cs ! 0) \<and>
    (\<exists>a\<in>set anchors. trusts U RV a (\<Union>i\<in>set ps. alt_names (cs ! i)) (cs ! last ps))"
proof -
  note path = chain_validate_path [OF assms(2,4)]
  have certs: "ch_certs (chain_new pci cs) = map path_cert_new cs" using chain_new_certs [OF assms(1)] path by blast
  obtain ps a where ps: "ps \<noteq> []" "path_ok U RV now (map path_cert_new cs) ps" "a \<in> set anchors"
      "anchor_trusts U RV a (map path_cert_new cs) ps"
    using path certs by auto
  have "0 \<in> set ps" using ps(1,2) hd_in_set [OF ps(1)] by (simp add: path_ok_def)
  then have "may_serve ci host (cs ! 0)" using path certs check_leaf_may_serve path_scanned [OF ps(2) assms(3)] by fastforce
  with path_valid [OF ps(2) assms(3) ps(1)] path_trusted [OF ps(2) assms(3) ps(1,4)] ps(3) show ?thesis by blast
qed

subsection \<open>A chain that is accepted\<close>

text \<open>An end-entity certificate with one extension, the alternative name \<open>a\<close>.\<close>

definition sample_san :: bytes where
  "sample_san = [0x30, 0x0c, 0x06, 0x03, 0x55, 0x1d, 0x11, 0x04, 0x05, 0x30, 0x03, 0x82, 0x01, 0x61]"

definition sample_cert :: cert where
  "sample_cert =
     \<lparr>ct_tbs_der = [1],
      ct_tbs = \<lparr>tbs_version = 2, tbs_serial = [1], tbs_signature_alg = SigEd25519,
        tbs_names = \<lparr>cn_issuer = [48, 0], cn_subject = [48, 0], cn_issuer_key = []\<rparr>,
        tbs_validity = \<lparr>va_not_before = 0, va_not_after = 100\<rparr>,
        tbs_spki = \<lparr>spki_algorithm = PkEd25519, spki_key = [3], spki_raw_der = []\<rparr>, tbs_extensions_der = Some sample_san\<rparr>,
      ct_signature = [2]\<rparr>"

lemma sample_san_profile: "profile_parse sample_san = Inr (pc_profile sample_leaf)"
proof -
  let ?e = "\<lparr>ee_oid = OID_SUBJECT_ALT_NAME, ee_critical = False, ee_value = [0x30, 0x03, 0x82, 0x01, 0x61]\<rparr>"
  have "parse_extension (sample_san @ q) = Inr (?e, q)" for q
    by (simp add: parse_extension_def sample_san_def der_eval read_default_false_def peek_tag_def OID_SUBJECT_ALT_NAME_def)
  then have raw: "raw_all sample_san = Some [?e]" by (rule raw_all_one) (simp add: sample_san_def)
  have names: "general_name_next [0x82, 1, 97] = Some (Inr (DnsName [97], []))" "general_name_next [] = None"
    by (simp_all add: general_name_next_def der_eval general_name_from_tlv_def)
  have "general_names_parse [0x30, 0x03, 0x82, 0x01, 0x61] = Inr [0x82, 1, 97]"
    by (simp add: general_names_parse_def der_eval general_names_count.simps [of "[0x82, 1, 97]"] general_names_count.simps [of "[]"] names
        MAX_EXTENSION_VALUES_def is_ascii_def)
  then have "visit_exts profile_visit [?e] scan_start = Inr (scan_start\<lparr>sc_san := [0x82, 1, 97]\<rparr>)"
    by (simp add: profile_visit_def oid_is_def oids)
  moreover have "length sample_san \<le> usize_max" by (simp add: sample_san_def usize_max_def)
  ultimately have "ext_loop profile_visit chain_error_of_cert sample_san ext_iter_new scan_start = Inr (scan_start\<lparr>sc_san := [0x82, 1, 97]\<rparr>)"
    using ext_loop_spec [OF _ iter_inv_new, of sample_san profile_visit chain_error_of_cert scan_start] raw by (simp add: ext_iter_new_def)
  then show ?thesis
    by (simp add: profile_parse_def scan_start_def profile_summary_def sample_leaf_def)
qed

lemma san_prepare:
  assumes "tbs_extensions_der (ct_tbs c) = Some sample_san" and "current now c"
  shows "prepare_candidate now 0 (search_new [path_cert_new c]) =
    (Inr 0, search_new [(path_cert_new c)\<lparr>pc_profile := pc_profile sample_leaf\<rparr>])"
  using assms sample_san_profile
  by (simp add: prepare_candidate_def prepared_index_new_def MAX_CHAIN_LEN_def search_new_def path_cert_prepare_def current_def
      profile_prepare_def profile_raw_def path_cert_new_def)

lemma search_run_single:
  assumes "prepare_candidate now 0 (search_new [c]) = (Inr 0, search_new [leaf])" and "index_resolve [leaf] 0 = Inr profile"
    and "check_leaf ci host profile = Inr ()" and "\<And>subs. VA leaf subs = Inr True"
  shows "search_run ci copy_inline_ref U RV VA now host [c] = Some (Inr ())"
proof -
  have "seen_admit 0 1 (replicate STATE_WORD_COUNT 0) = Inr (True, (replicate STATE_WORD_COUNT 0)[0 := 1])"
    by (simp add: seen_admit_def STATE_WORD_COUNT_def STATE_COUNT_def SUBJECT_STATE_COUNT_def MAX_CHAIN_LEN_def)
  then have "search_step copy_inline_ref U RV VA now (search_new [leaf], [frame_new 0], 1) = Inl (Inr ())"
    using assms(4) by (simp add: search_step_def frame_new_def bump_issuer_def search_new_def anchor_accepts_def Let_def)
  then have "search_loop copy_inline_ref U RV VA now (search_new [leaf], [frame_new 0], 1) = Some (Inr ())"
    by (simp add: search_loop.simps [of _ _ _ _ _ "(search_new [leaf], [frame_new 0], 1)"])
  moreover have "ci_push copy_inline_ref MAX_CHAIN_LEN (frame_new 0) [] = Some [frame_new 0]"
    by (simp add: copy_inline_ref_def MAX_CHAIN_LEN_def)
  ultimately show ?thesis using assms(1-3) by (simp add: search_run_def search_new_def)
qed

lemma sample_accepted:
  "chain_validate copy_inline_ref copy_inline_ref sample_unicode sample_verify [sample_anchor] 50 [97]
    (chain_new copy_inline_ref [sample_cert]) = Some (Inr ())"
proof -
  let ?leaf = "(path_cert_new sample_cert)\<lparr>pc_profile := pc_profile sample_leaf\<rparr>"
  let ?VA = "anchor_check (verifies_against_anchor sample_unicode sample_verify [sample_anchor])"
  have "?VA ?leaf subs = Inr True" for subs
    by (simp add: anchor_check_def anchor_verify_subject_def path_cert_new_def cert_signed_def sample_cert_def sample_anchor_def
        anchor_unconstrained_def verify_signature_def sample_verify_def anchor_name_constraints_der_def)
  moreover have "prepare_candidate 50 0 (search_new [path_cert_new sample_cert]) = (Inr 0, search_new [?leaf])"
    by (rule san_prepare) (simp_all add: sample_cert_def current_def)
  moreover have "index_resolve [?leaf] 0 = Inr (pc_profile sample_leaf)"
    by (simp add: index_resolve_def profile_resolve_def path_cert_new_def) (simp add: sample_leaf_def)
  ultimately have "search_run copy_inline_ref copy_inline_ref sample_unicode sample_verify ?VA 50 [97] [path_cert_new sample_cert] = Some (Inr ())"
    by (intro search_run_single [OF _ _ sample_check_leaf])
  then show ?thesis
    by (simp add: chain_validate_def validate_with_anchor_verifier_def chain_new_def chain_empty_def chain_try_push_def
        copy_inline_okD(1) [OF copy_inline_ref_ok] MAX_CHAIN_LEN_def)
qed

theorem chain_sound_witness:
  "\<exists>ps. valid_path sample_unicode sample_verify 50 [sample_cert] ps \<and> may_serve copy_inline_ref [97] sample_cert \<and>
     trusts sample_unicode sample_verify sample_anchor (\<Union>i\<in>set ps. alt_names ([sample_cert] ! i)) ([sample_cert] ! last ps)"
proof -
  have "\<forall>c\<in>set [sample_cert]. length (ext_der c) \<le> usize_max" by (simp add: sample_cert_def ext_der_def sample_san_def usize_max_def)
  from chain_sound [OF copy_inline_ref_ok copy_inline_ref_ok this sample_accepted] show ?thesis by simp
qed

end
