(* ===== verification/TrustedServer.thy ===== *)
theory TrustedServer
  imports ClientProgress TrustStore PathSpec
begin

unbundle bit_operations_syntax

section \<open>The server a client trusts\<close>

text \<open>
  A client that verifies X.509 certificates trusts the key of a leaf only through a certificate path to one of the anchors it was
  configured with: the theorems on path validation, on the trust store and on the client's handlers put
  together.
\<close>

text \<open>A configured anchor has issued a certificate, and allows the names below it.\<close>

definition anchored :: "unicode \<Rightarrow> ring_verify \<Rightarrow> owned_trust_anchor \<Rightarrow> general_name set \<Rightarrow> cert \<Rightarrow> bool" where
  "anchored U RV a names c \<longleftrightarrow>
     dn_equivalent U (ota_subject_der a) (cn_issuer (tbs_names (ct_tbs c))) \<and>
     (\<exists>spki. spki_parse_standalone (ota_spki_der a) = Inr spki \<and> verify_signature RV (cert_signed c) spki = Inr ()) \<and>
     (\<forall>der. ota_name_constraints_der a = Some der \<longrightarrow>
        (\<exists>nc. name_constraints_parse der = Inr nc \<and> constraints_allow nc names))"

lemma read_tagged_short: "read_tagged tag r = Inr (b, r') \<Longrightarrow> length b \<le> usize_max"
  by (simp add: read_tagged_iff tlv_ok_def usize_max_def)

lemma extensions_field_short: "parse_extensions_field r = Inr (Some d, r') \<Longrightarrow> length d \<le> usize_max"
  by (auto simp: parse_extensions_field_def and_then_eq_Inr split: option.splits dest: read_tagged_short)

lemma guarded_InrE: "(if b then Inl e else r) = Inr x \<Longrightarrow> (\<not> b \<Longrightarrow> r = Inr x \<Longrightarrow> P) \<Longrightarrow> P"
  by (simp split: if_splits)

lemma tbs_short: "parse_tbs U C b = Inr (t, a) \<Longrightarrow> tbs_extensions_der t = Some d \<Longrightarrow> length d \<le> usize_max"
  unfolding parse_tbs_def split_def
  by (elim and_then_InrE guarded_InrE) (auto intro: extensions_field_short simp del: cert_der_Inr)

lemma parsed_short: "cert_parse U C der = Inr c \<Longrightarrow> length (ext_der c) \<le> usize_max"
  unfolding cert_parse_def split_def Let_def
  by (elim and_then_InrE guarded_InrE) (auto simp: ext_der_def intro: tbs_short simp del: cert_der_Inr split: option.split)

lemma parse_chain_certs:
  assumes "copy_inline_ok (cn_certs N)"
  shows "parse_chain N entries ch = Inr ch' \<Longrightarrow>
    \<exists>cs. list_all2 (\<lambda>e c. cert_parse (cn_unicode N) (cn_crypto N) (cer_cert_data e) = Inr c) entries cs \<and>
      ch_certs ch' = ch_certs ch @ map path_cert_new cs \<and> ch_too_long ch' = ch_too_long ch"
proof (induction entries arbitrary: ch)
  case (Cons e entries)
  then obtain c ch1 where c: "cert_parse (cn_unicode N) (cn_crypto N) (cer_cert_data e) = Inr c"
      "chain_try_push (cn_certs N) c ch = Inr ch1" "parse_chain N entries ch1 = Inr ch'"
    by (auto simp: and_then_eq_Inr)
  obtain cs where "list_all2 (\<lambda>e c. cert_parse (cn_unicode N) (cn_crypto N) (cer_cert_data e) = Inr c) entries cs"
      "ch_certs ch' = ch_certs ch1 @ map path_cert_new cs" "ch_too_long ch' = ch_too_long ch1"
    using Cons.IH [OF c(3)] by blast
  with c(1,2) show ?case
    by (intro exI [of _ "c # cs"])
      (auto simp: chain_try_push_def and_then_eq_Inr copy_inline_okD(1) [OF assms] split: if_splits)
qed auto

lemma anchor_check_anchored:
  assumes "store_new U C anchors = Inr store" and "anchor_check (store_verify_subject U RV store) subject subs = Inr True"
  shows "\<exists>a\<in>set anchors. dn_equivalent U (ota_subject_der a) (pc_issuer subject) \<and>
    (\<exists>spki. spki_parse_standalone (ota_spki_der a) = Inr spki \<and> verify_signature RV (pc_signed subject) spki = Inr ()) \<and>
    (\<forall>der. ota_name_constraints_der a = Some der \<longrightarrow>
      (\<exists>p. prepared_parse der = Inr p \<and> check_prepared_name_constraints p subs = Inr ()))"
proof -
  obtain m where m: "store_verify_subject U RV store subject = Inr (Some m)"
    using assms(2) by (auto simp: anchor_check_def and_then_eq_Inr split: option.splits)
  obtain a p where a: "a \<in> set anchors" "prepared_anchor_new U C a = Inr p" "dn_equivalent U (ota_subject_der a) (pc_issuer subject)"
      "verify_signature RV (pc_signed subject) (pt_spki p) = Inr ()" "m = \<lparr>am_constraints = map_option AmPrepared (pt_constraints p)\<rparr>"
    using store_lookup_sound [OF assms(1) m] by (auto simp: anchor_matches_def)
  have spki: "spki_parse_standalone (ota_spki_der a) = Inr (pt_spki p)"
    using a(2) by (auto simp: prepared_anchor_new_def and_then_eq_Inr)
  have "\<exists>q. prepared_parse der = Inr q \<and> check_prepared_name_constraints q subs = Inr ()" if "ota_name_constraints_der a = Some der" for der
    using a(2,5) assms(2) m that by (auto simp: prepared_anchor_new_def anchor_check_def and_then_eq_Inr)
  with a(1,3,4) spki show ?thesis by blast
qed

text \<open>
  C6.  What a client that verifies X.509 certificates knows of a key it trusts.  The verifier of its policy was
  prepared from a list of anchors and a host name.  When it takes a key from a certificate message, every certificate of the message parses, and
  among them is a valid path of RFC 5280 at the client's time: the first certificate may serve the host and carries the key,
  and the last one is issued by one of the configured anchors, whose key verifies it and whose name constraints
  allow every name on the path.
\<close>

theorem trusted_server_path:
  assumes "copy_inline_ok (cn_certs N)" and "copy_inline_ok (cn_frames N)"
    and "verifier_prepare (cn_unicode N) (cn_crypto N) (VerifierX509 anchors host limit) = Inr (tp_verifier (policy_template p))"
    and "trusted_key N p c now_ms key"
  shows "\<exists>cs ps.
    list_all2 (\<lambda>e x. cert_parse (cn_unicode N) (cn_crypto N) (cer_cert_data e) = Inr x)
      (entries_iter (cn_ci16 N) (ces_encoded (certr_list c))) cs \<and>
    valid_path (cn_unicode N) (cn_verify N) (unix_from_secs (now_ms div 1000)) cs ps \<and>
    may_serve (cn_ci8 N) host (cs ! 0) \<and> leaf_key_from_x509_spki (tbs_spki (ct_tbs (cs ! 0))) = Inr key \<and>
    (\<exists>a\<in>set anchors. anchored (cn_unicode N) (cn_verify N) a (\<Union>i\<in>set ps. alt_names (cs ! i)) (cs ! last ps))"
proof -
  let ?U = "cn_unicode N" and ?RV = "cn_verify N" and ?now = "unix_from_secs (now_ms div 1000)"
  obtain store where store: "store_new ?U (cn_crypto N) anchors = Inr store" "tp_verifier (policy_template p) = VerifierX509Store store host limit"
    using assms(3) by (auto simp: and_then_eq_Inr)
  let ?VA = "store_verify_subject ?U ?RV store"
  obtain ch spki where ch: "parse_chain N (entries_iter (cn_ci16 N) (ces_encoded (certr_list c))) chain_empty = Inr ch"
      "the (validate_with_anchor_verifier (cn_ci8 N) (cn_frames N) ?U ?RV ?now host ?VA ch) = Inr spki"
      "leaf_key_from_x509_spki spki = Inr key"
    using assms(4) store(2) by (auto simp: trusted_key_def validated_leaf_def and_then_eq_Inr split: if_splits)
  obtain cs where cs: "list_all2 (\<lambda>e x. cert_parse ?U (cn_crypto N) (cer_cert_data e) = Inr x)
      (entries_iter (cn_ci16 N) (ces_encoded (certr_list c))) cs" "ch_certs ch = map path_cert_new cs" "\<not> ch_too_long ch"
    using parse_chain_certs [OF assms(1) ch(1)] by (auto simp: chain_empty_def)
  have short: "short_enough cs"
    using cs(1) parsed_short by (fastforce simp: list_all2_conv_all_nth in_set_conv_nth)
  note run = search_run_spec [OF assms(2), of "cn_ci8 N" ?U ?RV "anchor_check ?VA" ?now host "map path_cert_new cs"]
  have "search_run (cn_ci8 N) (cn_frames N) ?U ?RV (anchor_check ?VA) ?now host (map path_cert_new cs) = Some (Inr ())"
      "cs \<noteq> []" "spki = tbs_spki (ct_tbs (cs ! 0))"
    using ch(2) cs(2,3) run
    by (cases cs; auto simp: validate_with_anchor_verifier_def path_cert_new_def split: sum.splits option.splits)+
  then obtain ps where ps: "ps \<noteq> []" "path_ok ?U ?RV ?now (map path_cert_new cs) ps"
      "check_leaf (cn_ci8 N) host (pc_profile (pcert (map path_cert_new cs ! 0))) = Inr ()"
      "anchor_check ?VA (pcert (map path_cert_new cs ! last ps)) (path_profiles (map path_cert_new cs) ps) = Inr True"
    using run by auto
  note scan = path_scanned [OF ps(2) short]
  have "0 \<in> set ps" using ps(1,2) hd_in_set [OF ps(1)] by (simp add: path_ok_def)
  then have serve: "may_serve (cn_ci8 N) host (cs ! 0)" using ps(3) check_leaf_may_serve scan by fastforce
  have "last ps < length cs" using scan [of "last ps"] ps(1) by auto
  then have last: "pcert (map path_cert_new cs ! last ps) = pcert (path_cert_new (cs ! last ps))"
      "pc_issuer (pcert (path_cert_new (cs ! last ps))) = cn_issuer (tbs_names (ct_tbs (cs ! last ps)))"
      "pc_signed (pcert (path_cert_new (cs ! last ps))) = cert_signed (cs ! last ps)"
    by (simp_all add: path_cert_new_def)
  note names = path_all_names [OF ps(2) short subset_refl]
  have allow: "\<exists>nc. name_constraints_parse der = Inr nc \<and> constraints_allow nc (\<Union>i\<in>set ps. alt_names (cs ! i))"
    if "prepared_parse der = Inr q" "check_prepared_name_constraints q (path_profiles (map path_cert_new cs) ps) = Inr ()" for der q
    using check_prepared_allow [OF that] unfolding names .
  obtain a where a: "a \<in> set anchors" "anchored ?U ?RV a (\<Union>i\<in>set ps. alt_names (cs ! i)) (cs ! last ps)"
    using anchor_check_anchored [OF store(1) ps(4)] allow unfolding last anchored_def by blast
  with cs(1) path_valid [OF ps(2) short ps(1)] serve ch(3) \<open>spki = _\<close> a show ?thesis by blast
qed

subsection \<open>A server that is trusted\<close>

text \<open>
  A certificate in DER, of version 3, issued by \<open>sample_name\<close> for the host \<open>a\<close>, valid on the first day of 1970 and
  signed with Ed25519, and the message that carries it.
\<close>

abbreviation der_item :: "u8 \<Rightarrow> bytes \<Rightarrow> bytes" where
  "der_item tag contents \<equiv> der_tlv \<lparr>tlv_tag = tag, tlv_contents = contents\<rparr>"

definition sample_ed25519 :: bytes where
  "sample_ed25519 = der_item TAG_SEQUENCE (der_item TAG_OID OID_ED25519)"

definition sample_validity :: bytes where
  "sample_validity =
     der_item TAG_UTC_TIME [0x37, 0x30, 0x30, 0x31, 0x30, 0x31, 0x30, 0x30, 0x30, 0x30, 0x30, 0x30, 0x5a] @
     der_item TAG_UTC_TIME [0x37, 0x30, 0x30, 0x31, 0x30, 0x32, 0x30, 0x30, 0x30, 0x30, 0x30, 0x30, 0x5a]"

definition sample_tbs :: bytes where
  "sample_tbs =
     der_item 0xa0 (der_item TAG_INTEGER [2]) @ der_item TAG_INTEGER [1] @ sample_ed25519 @ der_item TAG_SEQUENCE sample_name @
     der_item TAG_SEQUENCE sample_validity @ der_item TAG_SEQUENCE [] @ sample_spki @ der_item 0xa3 (der_item TAG_SEQUENCE sample_san)"

definition sample_x509 :: bytes where
  "sample_x509 = der_item TAG_SEQUENCE (der_item TAG_SEQUENCE sample_tbs @ sample_ed25519 @ der_item TAG_BIT_STRING [0, 5])"

lemma parse_item: "tlv_ok \<lparr>tlv_tag = tag, tlv_contents = b\<rparr> \<Longrightarrow>
    parse_one (der_item tag b @ r) = Inr (\<lparr>tlv_tag = tag, tlv_contents = b\<rparr>, r)"
  by (simp add: parse_one_iff)

lemma read_item: "tlv_ok \<lparr>tlv_tag = tag, tlv_contents = b\<rparr> \<Longrightarrow> read_tagged tag (der_item tag b @ r) = Inr (b, r)"
  by (simp add: read_tagged_iff)

lemmas read_items = parse_item parse_item [where r = "[]", simplified] read_item read_item [where r = "[]", simplified]

lemma peek_item [simp]: "peek_tag (der_item tag b @ r) = Some tag" "peek_tag (der_item tag b) = Some tag"
  by (simp_all add: peek_tag_def der_tlv_def)

lemma short_item: "length b < 128 \<Longrightarrow> length (der_item tag b) = length b + 2"
  by (simp add: der_tlv_def der_length_def)

lemma item_ok: "tag \<noteq> 0 \<Longrightarrow> tag AND 0x1f \<noteq> 0x1f \<Longrightarrow> length b < 256 \<Longrightarrow> tlv_ok \<lparr>tlv_tag = tag, tlv_contents = b\<rparr>"
  by (simp add: tlv_ok_def)

lemma sample_lengths:
  "length sample_ed25519 = 7" "length sample_validity = 30" "length sample_name = 12" "length sample_san = 14" "length sample_tbs = 125"
proof -
  show l: "length sample_ed25519 = 7" "length sample_validity = 30" "length sample_name = 12" "length sample_san = 14"
    by (simp_all add: sample_ed25519_def sample_validity_def sample_name_def sample_san_def short_item OID_ED25519_def)
  show "length sample_tbs = 125" by (simp add: sample_tbs_def short_item l length_sample_spki)
qed

lemma sample_validity_parse: "validity_parse sample_validity = Inr \<lparr>va_not_before = 0, va_not_after = 86400\<rparr>"
  by (simp add: validity_parse_def sample_validity_def read_tlv_def read_items item_ok tag_defs der_finish_def cert_der_def from_x509_def from_utc_def
      digit2_def is_ascii_digit_def digit_value_def from_components_def is_leap_def MONTH_DAYS_def DAYS_BEFORE_MONTH_def leaps_before_def Let_def)

lemma sample_ed25519_parse: "raw_identifier_parse (sample_ed25519 @ r) = Inr (\<lparr>ri_oid = OID_ED25519, ri_parameters = []\<rparr>, r)"
  by (simp add: raw_identifier_parse_def sample_ed25519_def read_oid_def read_items item_ok tag_defs short_item OID_ED25519_def
      oid_from_bytes_def cert_der_def)

lemma sample_spki_inline:
  assumes "spki_parse_standalone sample_spki = Inr spki"
  shows "spki_parse_inline (sample_spki @ r) = Inr (spki, r)"
proof -
  obtain inner where i: "read_tagged TAG_SEQUENCE sample_spki = Inr (inner, [])" "spki_fields sample_spki inner = Inr spki"
    using assms by (auto simp: spki_parse_standalone_def and_then_eq_Inr der_finish_def split: if_splits)
  then have "sample_spki = der_item TAG_SEQUENCE inner" "tlv_ok \<lparr>tlv_tag = TAG_SEQUENCE, tlv_contents = inner\<rparr>" by (auto simp: read_tagged_iff)
  then have "parse_one (sample_spki @ r) = Inr (\<lparr>tlv_tag = TAG_SEQUENCE, tlv_contents = inner\<rparr>, r)"
      "read_tagged TAG_SEQUENCE (sample_spki @ r) = Inr (inner, r)"
    by (simp_all add: parse_one_iff read_tagged_iff)
  with i(2) show ?thesis by (simp add: spki_parse_inline_def peek_full_tlv_def cert_der_def)
qed

definition sample_parsed :: "bytes \<Rightarrow> subject_public_key_info \<Rightarrow> cert" where
  "sample_parsed k spki =
     \<lparr>ct_tbs_der = der_item TAG_SEQUENCE sample_tbs,
      ct_tbs = \<lparr>tbs_version = 3, tbs_serial = [1], tbs_signature_alg = SigEd25519,
        tbs_names = \<lparr>cn_issuer = sample_name, cn_subject = [], cn_issuer_key = k\<rparr>,
        tbs_validity = \<lparr>va_not_before = 0, va_not_after = 86400\<rparr>, tbs_spki = spki, tbs_extensions_der = Some sample_san\<rparr>,
      ct_signature = [5]\<rparr>"

lemma sample_version: "parse_version (der_item 0xa0 (der_item TAG_INTEGER [2]) @ r) = Inr (3, r)"
  by (simp add: parse_version_def read_optional_def tag_context_def read_uint_def read_items item_ok tag_defs short_item uint_from_bytes_def
      uint_to_u64_def uint_magnitude_def der_finish_def cert_der_def)

lemma sample_extensions: "parse_extensions_field (der_item 0xa3 (der_item TAG_SEQUENCE sample_san)) = Inr (Some sample_san, [])"
  by (simp add: parse_extensions_field_def read_optional_def tag_context_def read_items item_ok tag_defs short_item sample_lengths
      der_finish_def cert_der_def)

lemma sample_signature_alg: "signature_alg_parse \<lparr>ri_oid = OID_ED25519, ri_parameters = []\<rparr> = Inr SigEd25519"
  by (simp add: signature_alg_parse_def require_absent_def OID_ED25519_def OID_SHA256_WITH_RSA_def OID_SHA384_WITH_RSA_def OID_SHA512_WITH_RSA_def
      OID_RSA_PSS_def OID_ECDSA_SHA256_def OID_ECDSA_SHA384_def)

lemma known_tags [simp]:
  "TAG_SEQUENCE \<noteq> 0" "TAG_SEQUENCE AND 0x1f \<noteq> 0x1f" "TAG_INTEGER \<noteq> 0" "TAG_INTEGER AND 0x1f \<noteq> 0x1f"
  "TAG_BIT_STRING \<noteq> 0" "TAG_BIT_STRING AND 0x1f \<noteq> 0x1f"
  by (simp_all add: tag_defs)

lemma sample_tbs_parse:
  assumes "name_key_new U C sample_name = Inr k" and "spki_parse_standalone sample_spki = Inr spki"
  shows "parse_tbs U C sample_tbs = Inr (ct_tbs (sample_parsed k spki), \<lparr>ri_oid = OID_ED25519, ri_parameters = []\<rparr>)"
proof -
  have serial: "read_uint (der_item TAG_INTEGER [1] @ r) = Inr ([1], r)" for r
    by (simp add: read_uint_def read_items item_ok uint_from_bytes_def)
  have absent: "read_optional_bit_string (tag_context n False) (der_item 0xa3 b) = Inr (None, der_item 0xa3 b)" if "n \<in> {1, 2}" for n b
    using that by (auto simp: read_optional_bit_string_def read_optional_def tag_context_def)
  show ?thesis
    by (simp add: parse_tbs_def sample_tbs_def sample_version serial read_items item_ok sample_lengths cert_der_def uint_is_zero_def
        sample_ed25519_parse sample_signature_alg dn_prepared_def assms(1) sample_validity_parse dn_parse_def validate_name.simps [of _ "[]"]
        sample_spki_inline [OF assms(2)] absent sample_extensions der_finish_def sample_parsed_def)
qed

lemma sample_x509_parse:
  assumes "name_key_new U C sample_name = Inr k" and "spki_parse_standalone sample_spki = Inr spki"
  shows "cert_parse U C sample_x509 = Inr (sample_parsed k spki)"
proof -
  have bits: "read_bit_string (der_item TAG_BIT_STRING [0, 5]) = Inr ([0, 5], [])"
    by (simp add: read_bit_string_def read_items item_ok bit_string_from_bytes_def)
  have "bit_string_octets [0, 5] = Inr [5]" by (simp add: bit_string_octets_def bit_string_unused_bits_def bit_string_bytes_def)
  then show ?thesis
    by (simp add: cert_parse_def sample_x509_def read_tlv_def read_items item_ok short_item sample_lengths cert_der_def
        sample_tbs_parse [OF assms] sample_ed25519_parse bits der_finish_def Let_def)
      (simp add: sample_parsed_def)
qed

text \<open>A client that trusts the anchor \<open>sample_name\<close> for the host \<open>a\<close>, and a certificate message with the certificate.\<close>

definition sample_x509_env :: "(owned_kx, unit) client_env" where
  "sample_x509_env = sample_client_env\<lparr>cn_crypto := crypto_toy\<rparr>"

definition sample_x509_policy :: "trust_store \<Rightarrow> policy" where
  "sample_x509_policy store =
     authority_policy \<lparr>ca_template = sample_template\<lparr>tp_verifier := VerifierX509Store store [97] ONE_RECORD\<rparr>, ca_identity = None\<rparr> None"

definition sample_x509_message :: certificate_ref where
  "sample_x509_message = \<lparr>certr_context = [], certr_list = \<lparr>ces_encoded = [0, 0, 141] @ sample_x509 @ [0, 0], ces_len = 1\<rparr>\<rparr>"

lemma sample_x509_entry: "entries_iter copy_inline_ref ([0, 0, 141] @ sample_x509 @ [0, 0]) = [\<lparr>cer_cert_data = sample_x509, cer_extensions = []\<rparr>]"
proof -
  have "nat_bytes 138 = [138]" by (simp add: nat_bytes.simps [of 138])
  then have l: "length sample_x509 = 141"
    by (simp add: sample_x509_def short_item sample_lengths der_tlv_def [of "\<lparr>tlv_tag = TAG_SEQUENCE, tlv_contents = _ @ _\<rparr>"] der_length_def)
  have "certificate_entry_ref_decode copy_inline_ref ([0, 0, 141] @ sample_x509 @ [0, 0]) =
      Inr (\<lparr>cer_cert_data = sample_x509, cer_extensions = []\<rparr>, [])"
    by (simp add: certificate_entry_ref_decode_def reader_defs extensions_decode_def l extensions_scan.simps
        framed_decode_u24_def framed_validate_def)
      (use l in auto)
  then show ?thesis
    by (simp add: entries_iter.simps [of _ "[]"] entries_iter.simps [of _ "0 # _"] entries_next_def)
qed

lemma sample_store:
  assumes "name_key_new sample_unicode crypto_toy sample_name = Inr k" and "spki_parse_standalone sample_spki = Inr spki"
  shows "store_new sample_unicode crypto_toy [owned_unconstrained sample_name sample_spki] =
    Inr [\<lparr>pt_subject_der = sample_name, pt_subject_key = k, pt_spki = spki, pt_constraints = None\<rparr>]"
  by (simp add: store_new_def MAX_TRUST_ANCHORS_def prepared_anchor_new_def owned_unconstrained_def dn_prepared_def assms)

lemma sample_x509_fields:
  "cn_certs sample_x509_env = copy_inline_ref" "cn_frames sample_x509_env = copy_inline_ref" "cn_ci16 sample_x509_env = copy_inline_ref"
  "cn_ci8 sample_x509_env = copy_inline_ref" "cn_unicode sample_x509_env = sample_unicode" "cn_crypto sample_x509_env = crypto_toy"
  "cn_verify sample_x509_env = cn_verify sample_client_env" "unix_from_secs (1000 div 1000) = 1"
  "tp_verifier (policy_template (sample_x509_policy store)) = VerifierX509Store store [97] ONE_RECORD"
  by (simp_all add: sample_x509_env_def sample_client_env_def unix_from_secs_def i64_max_def sample_x509_policy_def policy_template_def
      authority_policy_def)

lemma sample_trusted:
  assumes k: "name_key_new sample_unicode crypto_toy sample_name = Inr k"
    and spki: "spki_parse_standalone sample_spki = Inr spki" "spki_algorithm spki = PkEd25519"
    and key: "leaf_key_from_x509_spki spki = Inr key"
  shows "trusted_key sample_x509_env
    (sample_x509_policy [\<lparr>pt_subject_der = sample_name, pt_subject_key = k, pt_spki = spki, pt_constraints = None\<rparr>])
    sample_x509_message 1000 key"
proof -
  let ?c = "sample_parsed k spki" and ?store = "[\<lparr>pt_subject_der = sample_name, pt_subject_key = k, pt_spki = spki, pt_constraints = None\<rparr>]"
  let ?leaf = "(path_cert_new ?c)\<lparr>pc_profile := pc_profile sample_leaf\<rparr>"
  let ?VA = "anchor_check (store_verify_subject sample_unicode (cn_verify sample_client_env) ?store)"
  have "current 1 ?c" by (simp add: current_def sample_parsed_def)
  then have prepare: "prepare_candidate 1 0 (search_new [path_cert_new ?c]) = (Inr 0, search_new [?leaf])"
    by (intro san_prepare) (simp_all add: sample_parsed_def)
  have "verify_signature (cn_verify sample_client_env) (cert_signed ?c) spki = Inr ()"
    by (simp add: verify_signature_def cert_signed_def sample_parsed_def sample_client_env_def spki(2))
  then have "?VA ?leaf subs = Inr True" for subs
    by (simp add: anchor_check_def store_verify_subject_def partition_point_def path_cert_new_def dn_equivalent_def)
      (simp add: sample_parsed_def)
  then have "search_run copy_inline_ref copy_inline_ref sample_unicode (cn_verify sample_client_env) ?VA 1 [97] [path_cert_new ?c] = Some (Inr ())"
    by (intro search_run_single [OF prepare _ sample_check_leaf])
      (simp_all add: index_resolve_def profile_resolve_def sample_leaf_def)
  then have validated: "validate_with_anchor_verifier copy_inline_ref copy_inline_ref sample_unicode (cn_verify sample_client_env) 1 [97]
      (store_verify_subject sample_unicode (cn_verify sample_client_env) ?store)
      \<lparr>ch_certs = [path_cert_new ?c], ch_too_long = False\<rparr> = Some (Inr spki)"
    by (simp add: validate_with_anchor_verifier_def) (simp add: path_cert_new_def sample_parsed_def)
  have "parse_chain sample_x509_env [\<lparr>cer_cert_data = sample_x509, cer_extensions = []\<rparr>] chain_empty =
      Inr \<lparr>ch_certs = [path_cert_new ?c], ch_too_long = False\<rparr>"
    using sample_x509_parse [OF k spki(1)]
    by (simp add: sample_x509_fields chain_try_push_def chain_empty_def copy_inline_ref_def MAX_CHAIN_LEN_def)
  then show ?thesis
    using validated key
    by (simp add: trusted_key_def validated_leaf_def sample_x509_message_def certificate_entries_is_empty_def sample_x509_entry [simplified]
        sample_x509_fields sample_x509_fields(8) [simplified])
qed

theorem trusted_server_path_witness:
  "\<exists>store c ps.
     verifier_prepare sample_unicode crypto_toy (VerifierX509 [owned_unconstrained sample_name sample_spki] [97] ONE_RECORD) =
       Inr (VerifierX509Store store [97] ONE_RECORD) \<and>
     trusted_key sample_x509_env (sample_x509_policy store) sample_x509_message 1000 (LkEd25519 (replicate 32 7)) \<and>
     cert_parse sample_unicode crypto_toy sample_x509 = Inr c \<and> valid_path sample_unicode (cn_verify sample_client_env) 1 [c] ps \<and>
     may_serve copy_inline_ref [97] c \<and>
     anchored sample_unicode (cn_verify sample_client_env) (owned_unconstrained sample_name sample_spki)
       (\<Union>i\<in>set ps. alt_names ([c] ! i)) ([c] ! last ps)"
proof -
  let ?a = "owned_unconstrained sample_name sample_spki"
  obtain k where k: "name_key_new sample_unicode crypto_toy sample_name = Inr k" using sample_keys by blast
  obtain spki where spki: "spki_parse_standalone sample_spki = Inr spki" "spki_algorithm spki = PkEd25519" using sample_spki_parses by blast
  then have key: "leaf_key_from_x509_spki spki = Inr (LkEd25519 (replicate 32 7))"
    using sample_leaf_key by (auto simp: leaf_key_from_spki_def)
  define store where "store = [\<lparr>pt_subject_der = sample_name, pt_subject_key = k, pt_spki = spki, pt_constraints = None\<rparr>]"
  have prepared: "verifier_prepare sample_unicode crypto_toy (VerifierX509 [?a] [97] ONE_RECORD) = Inr (VerifierX509Store store [97] ONE_RECORD)"
    by (simp add: sample_store [OF k spki(1)] store_def)
  note trusted = sample_trusted [OF k spki key, folded store_def]
  from trusted_server_path [OF _ _ _ trusted, of "[?a]" "[97]" ONE_RECORD] prepared trusted show ?thesis
    by (auto simp: sample_x509_fields sample_x509_fields(8) [simplified] copy_inline_ref_ok sample_x509_message_def
        sample_x509_entry [simplified] list_all2_Cons1)
qed

end
