(* ===== verification/Spec2Isabelle.thy ===== *)
theory Spec2Isabelle
  imports ServerSafety ClientPoolSafety TrustedServer
begin

text \<open>
  \<^bold>\<open>A verification development of the TLS 1.3 library shin.\<close>

  \<^bold>\<open>The program.\<close>  \<open>shin\<close> is a sans-I/O implementation of TLS 1.3 for TLS over streams and for QUIC.  It owns the wire
  format (\<open>src/src/wire/\<close>), the cryptographic protocol around the primitives of \<open>ring\<close> and \<open>ml-kem\<close>
  (\<open>src/src/crypto/\<close>), X.509 path validation and raw public keys (\<open>src/src/identity/\<close>), and the
  state machines of the two sides (\<open>src/src/client/\<close>, \<open>src/src/server/\<close>).  The embedder owns sockets, the
  clock, policy and the event sink.  Bytes enter a connection by \<open>read\<close>: the reassembler of
  \<open>wire/handshake/reassemblers.rs\<close> cuts them into handshake messages and hands each to the session's
  \<open>drive\<close>, which decodes it, updates the transcript and the key schedule, encodes replies into a flight lent by the sink,
  and reports secrets and state changes as events.  An error ends the connection: it poisons itself and refuses everything later.

  \<^bold>\<open>Conventions.\<close>  A struct is a \<open>record\<close>, an enum a \<open>datatype\<close>, \<open>Result<T, E>\<close> is \<open>'e + 't\<close>, machine integers
  are words, \<open>usize\<close> is \<open>nat\<close> except where the source checks it for overflow.  A \<open>Reader\<close> is the bytes not yet
  read.  A method with \<open>&mut self\<close> returns the object afterwards, also on failure where a caller can see it.
  The handlers of a session are functions of type \<open>eff\<close> (theory \<open>Effects\<close>), so that the mutations made before an
  early return stay.  All functions are total: recursion is structural or has a measure, normally the length of
  the reader.  Two loops of the source have no such bound in their code and are \<open>partial_function (option)\<close>:
  the search of \<open>chain/search.rs\<close>, which returns on every input (\<open>search_terminates\<close>: the set of visited
  certificates grows or the stack shrinks), and \<open>SupportedVersions::contains\<close>, which returns on every list of even
  length (\<open>supported_versions_terminates\<close>) and on an odd one does not.

  \<^bold>\<open>What is outside the crate\<close> is a parameter.  \<open>crypto\<close> (theory \<open>Hash\<close>): the digest and HMAC of \<open>ring\<close>, with
  \<open>crypto_ok\<close> for their documented output lengths.  \<open>ring_aead\<close> with \<open>aead_ok\<close> (\<open>Aead\<close>), \<open>ring_verify\<close>
  (\<open>Certificate\<close>), \<open>sign_ops\<close> (\<open>Signatures\<close>), \<open>kx_ops\<close> for curves, random source and ML-KEM (\<open>KeyExchange\<close>), \<open>copy_inline\<close>
  with \<open>copy_inline_ok\<close> for the fixed-capacity vector of \<open>o3\<close> (\<open>External\<close>), \<open>txn_ops\<close> for its writer transactions
  (\<open>RecordLayer\<close>), \<open>vacant\<close> with \<open>slab_ok\<close> for its slab (\<open>Slab\<close>), \<open>unicode\<close> for the tables of the Unicode
  crates (\<open>DistinguishedName\<close>).  The traits the embedder implements are records over the state \<open>'k\<close> of the outside world:
  \<open>sink\<close>, \<open>guard\<close>, \<open>client_verifier\<close> and the clock.  Nothing cryptographic (secrecy, unforgeability) is assumed;
  where an equality of inputs is concluded from an equality of digests the absence of a collision is a premise.

  \<^bold>\<open>The theories.\<close>
  \<^item> \<open>Prelude\<close>: the types of bytes and results, big-endian conversions, the collections \<open>result_simps\<close> and
    \<open>byte_simps\<close>.  \<open>External\<close>: \<open>CopyInline\<close>.
  \<^item> \<open>Codec\<close> (\<open>wire/codec.rs\<close>), \<open>Extension\<close>, \<open>Messages\<close> (\<open>messages.rs\<close>, \<open>frame.rs\<close>), \<open>Views\<close> (\<open>views.rs\<close>), \<open>Storage\<close>
    (\<open>storage.rs\<close>, \<open>OutboundFlight\<close>), \<open>Protocols\<close>, \<open>Psk\<close>, \<open>Alert\<close>.  A generic encoder takes the methods of \<open>Encode\<close>
    as a record; the locale \<open>encoder\<close> is the contract of an encoding target and is interpreted for \<open>Vec<u8>\<close>,
    \<open>EncodedSize\<close> and \<open>BoundedBuffer\<close>; \<open>safe_encoder\<close> is what a target keeps also when encoding fails.
    Decoders are characterised by equivalences with reference encodings, from which the round trips
    \<open>frame_roundtrip\<close> and \<open>decode_canonical\<close> follow; \<open>bounded_encode_safe\<close> and \<open>flight_transaction\<close> bound what an encoding can touch.
  \<^item> \<open>Reassembler\<close> (\<open>reassemblers.rs\<close>) and \<open>Connection\<close> (\<open>connection.rs\<close>, \<open>transport.rs\<close>): reading
    delivers the messages of the stream for every cut into records within the limits of the code, the predicate \<open>cut_ok\<close>, and
    fails for every other (\<open>fragmentation_independent\<close>); the packed
    word of the KeyUpdate budget refines a counter and a flag (\<open>budget_refines\<close>).
  \<^item> \<open>Hash\<close>, \<open>Kdf\<close>, \<open>Schedule\<close>, \<open>Aead\<close>, \<open>RecordLayer\<close> (\<open>wire/record/\<close>), \<open>Material\<close> and \<open>KeyUpdate\<close>
    (\<open>crypto/material.rs\<close>, the update operations of \<open>connection.rs\<close>), \<open>KeyExchange\<close> (\<open>crypto/kx/\<close>), \<open>Signatures\<close>, \<open>Ticket\<close> (\<open>crypto/ticket/\<close>):
    the transcript is the digest of the messages (\<open>transcript_correct\<close>), HKDF is RFC 5869's (\<open>expand_is_rfc5869\<close>), records
    open to what was sealed (\<open>sealed_stream_opens\<close>), the queries that sealing asks of the AEAD have pairwise different nonces (\<open>nonces_unique\<close>),
    every record is protected with the secret its reader has when its turn comes, under any interleaving of KeyUpdates and
    data (\<open>endpoints_agree\<close>, over the step relation \<open>network_step\<close> on endpoints with record layers), both
    owners of an ephemeral key agree with the responder (\<open>key_agreement\<close>, through the locale \<open>initiator\<close>), tickets open to their
    claims and survive a rotation (\<open>ticket_roundtrip\<close>, \<open>ticket_survives_rotation\<close>, \<open>rotator_limits\<close>).
  \<^item> \<open>Asn1\<close>, \<open>IdentityErrors\<close>, \<open>UnixTime\<close>, \<open>Hostname\<close>, \<open>DistinguishedName\<close>, \<open>Certificate\<close>, \<open>CertExtensions\<close>,
    \<open>PathProfile\<close>, \<open>Chain\<close>, \<open>PathSpec\<close> (\<open>identity/\<close>): DER is read canonically (\<open>der_tlv_canonical\<close>), the bytes verified are the bytes parsed
    (\<open>cert_parse_signed_bytes\<close>), extensions are visited exactly once (\<open>extension_iter_exact\<close>), names match by labels
    (\<open>matches_dns_labels\<close>, \<open>dns_subtree_labels\<close>).  \<open>PathSpec\<close> states what RFC 5280 asks of a path over the extensions of its
    certificates, and shows that an accepted chain contains one (\<open>chain_sound\<close>).
  \<^item> \<open>Effects\<close>: handlers, their weakest preconditions \<open>wpS\<close>, and \<open>with_flight\<close>.  \<open>FlightExtent\<close>: the locale
    \<open>flight_owner\<close>, in which it is shown once that a handler built from flights keeps its session's storage; it is
    interpreted for the server's and the client's session.  \<open>ReadStorage\<close>: what a handler keeps, reading keeps.  \<open>Slab\<close>: the slots of
    a pool, with the locale \<open>recycled_slots\<close> for the contract between filling and recycling a slot, interpreted for the
    pools of both sides.  \<open>Machine\<close>: the locale \<open>handshake_machine\<close>, in which a session with a one-step
    simulation of an abstract machine is shown to simulate whole runs; interpreted in \<open>ServerSafety\<close> and \<open>ClientSafety\<close>.
  \<^item> \<open>ServerConfig\<close>, \<open>ServerNegotiation\<close>, \<open>ServerRetry\<close>, \<open>ServerSession\<close>, \<open>ServerHandshake\<close>, \<open>Server\<close> (\<open>server/\<close>):
    configuration and layouts, the one-pass scan of groups and shares (\<open>client_kx_correct\<close>), the fingerprint that a second
    ClientHello has to meet (\<open>retry_unchanged\<close>), 0-RTT admission (\<open>early_data_window\<close>, and \<open>early_data_single_use\<close> over a replay store that may forget old tokens), the handlers
    of every message, construction, reading, key updates, exporters, rejection.  \<open>ServerPools\<close> has the shards, bound and pooled
    connections over an explicit store of shared authorities; \<open>ServerStorage\<close> shows that every leased connection stays admissible
    (\<open>pool_always_admitted\<close>, over \<open>pool_step\<close>).  \<open>ServerSafety\<close> states the abstract machine \<open>tls_step\<close> and proves \<open>server_refines\<close>,
    \<open>client_authenticated\<close> and \<open>server_failure_is_final\<close>.
  \<^item> \<open>ClientTrust\<close>, \<open>ClientOffer\<close>, \<open>ClientSession\<close>, \<open>ClientHandshake\<close>, \<open>Client\<close> (\<open>client/\<close>): configuration and trust store,
    the ClientHello with its binder, the handlers, start, reading, tickets and exporters.  \<open>ClientPools\<close> has the pools and their connections; \<open>ClientPoolSafety\<close> shows that a
    pool's ticket goes to one connection and that slots keep their storage (\<open>pool_ticket_once\<close>, over \<open>client_pool_step\<close>).  \<open>TrustStore\<close>: the
    indexed lookup is an exhaustive one (\<open>store_lookup_exhaustive\<close>).  \<open>ClientStorage\<close> and \<open>ClientSafety\<close>: the abstract machine
    \<open>client_step\<close>, \<open>client_refines\<close>, \<open>server_authenticated\<close>, \<open>client_failure_is_final\<close>, \<open>client_storage_kept\<close>.  \<open>ClientProgress\<close>: a valid
    Finished completes the handshake (\<open>client_completes\<close>).  \<open>TrustedServer\<close> joins path validation,
    the trust store and the handlers: a client trusts a key only through a valid path from a server certificate for the host to
    one of its configured anchors (\<open>trusted_server_path\<close>).  \<open>Samples\<close> holds concrete messages and stand-ins for the
    parameters, on which the theorems of both sides are applied.

  \<^bold>\<open>What modelling showed.\<close>  \<open>SupportedVersions::contains\<close> loops for ever on a list of odd length that lacks the version; only
  \<open>decode_client\<close> keeps such lists away.  A client that holds a ticket cannot answer a HelloRetryRequest that selects a
  SHA-384 suite (\<open>sha384_retry_fails\<close>): it offers its SHA-256 ticket again and fails to compute the binder.

  \<^bold>\<open>Not modelled.\<close>  \<open>Debug\<close> and \<open>Display\<close> output, \<open>Error::source\<close>; wiping on drop, which no operation can observe;
  \<open>memory/threadbound.rs\<close>, phantom types and const-generic domains, which have no content at run time; const assertions on
  sizes; capacities of vectors other than those a buffer's limit depends on; tests and fuzz targets.  A failed allocation is a
  branch only where the source returns an error for it and the caller's storage is at stake.  Cryptographic strength
  and timing are outside what the model can express.
\<close>

end
